(* ===== verification/SL_Prelude.thy ===== *)
theory SL_Prelude
  imports Main "HOL-Library.Word" "HOL-Library.Multiset"
begin

unbundle bit_operations_syntax

text \<open>
  Shared vocabulary of the development: the fixed-width integers of the C code, the byte
  strings it walks over, and the generic lemmas on words, lists and multisets that several
  components use. Sizes and file offsets (\<open>size_t\<close>) are \<open>nat\<close> with the overflow checks of the
  source written out against \<open>SIZE_MAX\<close>; everything the source keeps in a \<open>uintN_t\<close> is an
  \<open>N word\<close>, so that wrap-around is what the code does.
\<close>

section \<open>Machine integers and byte strings\<close>

type_synonym u8 = "8 word"
type_synonym u16 = "16 word"
type_synonym u32 = "32 word"
type_synonym u64 = "64 word"
type_synonym bytes = "u8 list"

text \<open>A C pointer that is only compared with \<open>NULL\<close> and passed on.\<close>

type_synonym ptr = "64 word"

abbreviation (input) NULL :: ptr where "NULL \<equiv> 0"

definition SIZE_MAX :: nat where "SIZE_MAX = 2 ^ 64 - 1"
definition UINT32_MAX :: nat where "UINT32_MAX = 2 ^ 32 - 1"

lemma SIZE_MAX_eq [simp]: "SIZE_MAX = 18446744073709551615"
  by (simp add: SIZE_MAX_def)

lemma UINT32_MAX_eq [simp]: "UINT32_MAX = 4294967295"
  by (simp add: UINT32_MAX_def)

named_theorems sl_defs \<open>definitions that are unfolded to look inside an operation\<close>
named_theorems sl_inv \<open>preservation of invariants\<close>

section \<open>Words read as naturals\<close>

lemma unat_u8_lt [simp]: "unat (x :: u8) < 256"
  using unsigned_less [where ?'a = nat and w = x] by simp

lemma unat_u16_lt [simp]: "unat (x :: u16) < 65536"
  using unsigned_less [where ?'a = nat and w = x] by simp

lemma unat_u32_lt [simp]: "unat (x :: u32) < 4294967296"
  using unsigned_less [where ?'a = nat and w = x] by simp

lemma unat_u64_lt [simp]: "unat (x :: u64) < 18446744073709551616"
  using unsigned_less [where ?'a = nat and w = x] by simp

lemma unat_u32_le [simp]: "unat (x :: u32) \<le> 4294967295"
  using unat_u32_lt [of x] by linarith

lemma unat_add_no_wrap:
  fixes a b :: "'a::len word"
  assumes "unat a + unat b < 2 ^ LENGTH('a)"
  shows "unat (a + b) = unat a + unat b"
  using assms by (simp add: unat_word_ariths)

lemma unat_sub_no_wrap:
  fixes a b :: "'a::len word"
  assumes "b \<le> a"
  shows "unat (a - b) = unat a - unat b"
  using assms by (simp add: unat_sub)

lemma unat_ucast_up:
  fixes a :: "'a::len word"
  assumes "LENGTH('a) \<le> LENGTH('b::len)"
  shows "unat (ucast a :: 'b word) = unat a"
proof -
  have "unat a < 2 ^ LENGTH('b)"
    using unsigned_less [where ?'a = nat and w = a] assms
    by (meson less_le_trans one_le_numeral power_increasing)
  then show ?thesis
    by (simp add: unsigned_ucast_eq take_bit_nat_eq_self)
qed

lemma unat_Suc_u32: "(i :: u32) < n \<Longrightarrow> unat (i + 1) = unat i + 1"
  using unat_u32_le [of n]
  by (subst unat_add_no_wrap) (simp_all add: word_less_nat_alt del: unat_u32_le)

lemma unat_of_nat_small:
  assumes "n < 2 ^ LENGTH('a::len)"
  shows "unat (of_nat n :: 'a word) = n"
  using assms by (simp add: take_bit_nat_eq_self unat_of_nat)

section \<open>Bit operations as arithmetic\<close>

lemma or_nat_eq_add:
  fixes m n :: nat
  assumes "n < 2 ^ k" "2 ^ k dvd m"
  shows "m OR n = m + n"
proof (rule disjunctive_add_eq_or [symmetric], rule bit_eqI)
  fix i
  have "take_bit k m = 0"
    using assms(2) by (simp add: take_bit_eq_mod)
  moreover have "take_bit k n = n"
    using assms(1) by (rule take_bit_nat_eq_self)
  ultimately show "bit (m AND n) i = bit (0 :: nat) i"
    by (metis bit_0_eq bit_and_iff bit_take_bit_iff bot_apply bot_bool_def)
qed

lemma unat_or_disjoint:
  fixes c w :: "'a::len word"
  assumes "unat w < 2 ^ k" "2 ^ k dvd unat c"
  shows "unat (c OR w) = unat c + unat w"
  unfolding unsigned_or_eq by (rule or_nat_eq_add [OF assms])

lemma unat_push_bit_fits:
  fixes v :: "'a::len word"
  assumes "unat v * 2 ^ k < 2 ^ LENGTH('a)"
  shows "unat (push_bit k v) = unat v * 2 ^ k"
  unfolding unsigned_push_bit_eq push_bit_eq_mult [where 'a = nat]
  by (rule take_bit_nat_eq_self [OF assms])

lemma unat_push_bit_or:
  fixes v w :: "'a::len word"
  assumes "unat w < 2 ^ k" "unat v * 2 ^ k < 2 ^ LENGTH('a)"
  shows "unat (push_bit k v OR w) = unat v * 2 ^ k + unat w"
  using assms by (simp add: unat_or_disjoint [of w k] unat_push_bit_fits)

lemma unat_and_mask:
  fixes w :: "'a::len word"
  shows "unat (w AND mask k) = unat w mod 2 ^ k"
  unfolding take_bit_eq_mask [symmetric] unsigned_take_bit_eq by (simp add: take_bit_eq_mod)

lemma unat_drop_bit_div:
  fixes w :: "'a::len word"
  shows "unat (drop_bit k w) = unat w div 2 ^ k"
  unfolding unat_drop_bit_eq drop_bit_eq_div [where 'a = nat] ..

lemma unat_ucast_mod:
  fixes w :: "'a::len word"
  shows "unat (ucast w :: 'b::len word) = unat w mod 2 ^ LENGTH('b)"
  by (simp add: unsigned_ucast_eq take_bit_eq_mod)

lemma unat_or_push_bit:
  fixes a b :: "'a::len word"
  assumes "unat a < 2 ^ k" "unat b * 2 ^ k < 2 ^ LENGTH('a)"
  shows "unat (a OR push_bit k b) = unat a + 2 ^ k * unat b"
  using unat_push_bit_or [OF assms] by (simp add: or.commute add.commute mult.commute)

section \<open>Lists\<close>

lemma list_all_update:
  "list_all P xs \<Longrightarrow> P x \<Longrightarrow> list_all P (xs[i := x])"
  by (auto simp: list_all_iff dest: set_update_subset_insert [THEN subsetD])

lemma nth_update_cases:
  "j < length xs \<Longrightarrow> xs[i := x] ! j = (if i = j then x else xs ! j)"
  by (simp add: nth_list_update)

lemma list_all_nthD: "list_all P xs \<Longrightarrow> i < length xs \<Longrightarrow> P (xs ! i)"
  by (simp add: list_all_length)

section \<open>Multisets\<close>

lemma count_mset_le_count: "A \<subseteq># B \<Longrightarrow> count A x \<le> count B x"
  by (simp add: mset_subset_eq_count)

lemma mset_concat_update:
  assumes "i < length ts"
  shows "mset (concat (ts[i := t])) + mset (ts ! i) = mset (concat ts) + mset t"
proof -
  have "ts = take i ts @ ts ! i # drop (Suc i) ts"
    using assms by (simp add: id_take_nth_drop)
  then have old: "mset (concat ts)
      = mset (concat (take i ts)) + mset (ts ! i) + mset (concat (drop (Suc i) ts))"
    by (metis (no_types, lifting) concat.simps(2) concat_append mset_append union_assoc)
  have new: "mset (concat (ts[i := t]))
      = mset (concat (take i ts)) + mset t + mset (concat (drop (Suc i) ts))"
    using assms by (simp add: upd_conv_take_nth_drop)
  show ?thesis
    unfolding old new by simp
qed

section \<open>Little-endian values\<close>

text \<open>The number that bytes in memory order stand for, and the bytes of a number.\<close>

fun le_value :: "bytes \<Rightarrow> nat" where
  "le_value [] = 0"
| "le_value (b # bs) = unat b + 256 * le_value bs"

fun le_bytes :: "nat \<Rightarrow> nat \<Rightarrow> bytes" where
  "le_bytes 0 v = []"
| "le_bytes (Suc n) v = of_nat v # le_bytes n (v div 256)"

lemma length_le_bytes [simp]: "length (le_bytes n v) = n"
  by (induction n arbitrary: v) auto

lemma le_value_bytes: "le_value (le_bytes n v) = v mod 256 ^ n"
proof (induction n arbitrary: v)
  case (Suc n)
  have "unat (of_nat v :: u8) = v mod 256"
    by (simp add: unat_of_nat)
  then show ?case
    using Suc by (simp add: mod_mult2_eq)
qed simp

lemma le_bytes_value: "le_bytes (length bs) (le_value bs) = bs"
proof (induction bs)
  case (Cons b bs)
  have "(unat b + 256 * le_value bs) div 256 = le_value bs"
    using div_mult_self2 [of 256 "unat b" "le_value bs"] unat_u8_lt [of b] 
    by (simp del: unat_u8_lt)
  moreover have "unat (of_nat (unat b + 256 * le_value bs) :: u8) = unat b"
    unfolding unat_of_nat by (simp add: take_bit_eq_mod)
  then have "of_nat (unat b + 256 * le_value bs) = b"
    by (simp only: word_unat_eq_iff)
  ultimately show ?case
    using Cons by simp
qed simp

lemma le_value_less: "le_value bs < 256 ^ length bs"
proof (induction bs)
  case (Cons b bs)
  then show ?case
    using unat_u8_lt [of b] by (simp del: unat_u8_lt)
qed simp

lemma le_value_append: "le_value (as @ bs) = le_value as + 256 ^ length as * le_value bs"
  by (induction as) (simp_all add: algebra_simps)

lemma drop_nth: "offset < length xs \<Longrightarrow> drop offset xs = xs ! offset # drop (offset + 1) xs"
  by (simp add: Cons_nth_drop_Suc)

lemma take_2_drop: "offset + 2 \<le> length xs \<Longrightarrow>
    take 2 (drop offset xs) = [xs ! offset, xs ! (offset + 1)]"
  using drop_nth [of offset xs] drop_nth [of "offset + 1" xs] by simp

lemma take_4_drop: "offset + 4 \<le> length xs \<Longrightarrow>
    take 4 (drop offset xs) = [xs ! offset, xs ! (offset + 1), xs ! (offset + 2), xs ! (offset + 3)]"
  using drop_nth [of offset xs] drop_nth [of "offset + 1" xs] drop_nth [of "offset + 2" xs]
    drop_nth [of "offset + 3" xs] by (simp add: eval_nat_numeral)

lemma unat_le16:
  "unat (ucast (b0 :: u8) OR push_bit 8 (ucast (b1 :: u8)) :: u16) = le_value [b0, b1]"
  by (subst unat_or_push_bit) (simp_all add: unat_ucast_up)

lemma unat_le32:
  "unat (ucast (b0 :: u8) OR push_bit 8 (ucast (b1 :: u8)) OR push_bit 16 (ucast (b2 :: u8))
     OR push_bit 24 (ucast (b3 :: u8)) :: u32) = le_value [b0, b1, b2, b3]"
proof -
  have 1: "unat (ucast b0 OR push_bit 8 (ucast b1) :: u32) = unat b0 + 256 * unat b1"
    using unat_u8_lt [of b0] unat_u8_lt [of b1]
    by (subst unat_or_push_bit) (simp_all add: unat_ucast_up del: unat_u8_lt)
  have 2: "unat ((ucast b0 OR push_bit 8 (ucast b1)) OR push_bit 16 (ucast b2) :: u32) =
      unat b0 + 256 * unat b1 + 65536 * unat b2"
    using unat_u8_lt [of b0] unat_u8_lt [of b1] unat_u8_lt [of b2]
    by (subst unat_or_push_bit) (simp_all add: 1 unat_ucast_up del: unat_u8_lt)
  show ?thesis
    unfolding or.assoc [symmetric]
    using unat_u8_lt [of b0] unat_u8_lt [of b1] unat_u8_lt [of b2] unat_u8_lt [of b3]
    by (subst unat_or_push_bit) (simp_all add: 2 unat_ucast_up del: unat_u8_lt)
qed

lemma unat_le64:
  "unat (ucast (low :: u32) OR push_bit 32 (ucast (high :: u32)) :: u64) =
     unat low + 4294967296 * unat high"
  using unat_u32_lt [of low] unat_u32_lt [of high]
  by (subst unat_or_push_bit) (simp_all add: unat_ucast_up del: unat_u32_lt)

lemma le_bytes_append: "le_bytes (m + n) v = le_bytes m v @ le_bytes n (v div 256 ^ m)"
proof (induction m arbitrary: v)
  case (Suc m)
  then show ?case
    by (simp add: div_mult2_eq)
qed simp

lemma le_bytes_mod: "le_bytes n (v mod 256 ^ n) = le_bytes n v"
proof (rule nth_equalityI; simp)
  fix i assume "i < n"
  have "le_bytes n (v mod 256 ^ n) = le_bytes (length (le_bytes n v)) (le_value (le_bytes n v))"
    by (simp add: le_value_bytes)
  also have "\<dots> = le_bytes n v"
    by (rule le_bytes_value)
  finally show "le_bytes n (v mod 256 ^ n) ! i = le_bytes n v ! i"
    by simp
qed

lemma low_byte_of_nat: "(ucast ((w :: 'a::len word) AND 0xff) :: u8) = of_nat (unat w)"
proof -
  have "(0xff :: 'a word) = mask 8"
    by (simp add: mask_eq_exp_minus_1)
  then have "unat (w AND 0xff) = unat w mod 256"
    by (simp only: unat_and_mask) simp
  then show ?thesis
    by (simp add: word_unat_eq_iff unat_ucast_mod unat_of_nat)
qed

lemma byte_of_nat: "(ucast (w :: 'a::len word) :: u8) = of_nat (unat w)"
  by (simp add: word_unat_eq_iff unat_ucast_mod unat_of_nat)

end
