(* ===== verification/Status.thy ===== *)
theory Status
  imports SL_Prelude "HOL-Library.Monad_Syntax"
begin

text \<open>
  \<open>include/sadlayer/error.h\<close> and \<open>src/error.c\<close>: the status codes every fallible operation
  returns and their diagnostics. A C function \<open>sl_status f(..., T *out)\<close> whose out parameter is
  only written on success is modelled with the result type \<open>sl_status + 'a\<close>; where the code also
  writes out parameters on failure, the out parameters are explicit state.
\<close>

section \<open>Status codes\<close>

datatype (plugins only: code size) sl_status =
    SL_OK
  | SL_ERROR_INVALID_ARGUMENT
  | SL_ERROR_IO
  | SL_ERROR_OUT_OF_MEMORY
  | SL_ERROR_TRUNCATED_FILE
  | SL_ERROR_BAD_DOS_SIGNATURE
  | SL_ERROR_BAD_PE_SIGNATURE
  | SL_ERROR_UNSUPPORTED_MACHINE
  | SL_ERROR_UNSUPPORTED_OPTIONAL_HEADER
  | SL_ERROR_INVALID_IMAGE
  | SL_ERROR_RVA_NOT_MAPPED
  | SL_ERROR_EXPORT_NOT_FOUND
  | SL_ERROR_MODULE_NOT_FOUND
  | SL_ERROR_DUPLICATE_MODULE
  | SL_ERROR_MODULE_REGISTRY_FULL
  | SL_ERROR_INVALID_FORWARDER
  | SL_ERROR_FORWARDER_LIMIT
  | SL_ERROR_ADDRESS_OUT_OF_RANGE
  | SL_ERROR_INVALID_ENCODING
  | SL_ERROR_BUFFER_TOO_SMALL
  | SL_ERROR_RELOCATION_REQUIRED
  | SL_ERROR_UNSUPPORTED_RELOCATION
  | SL_ERROR_MEMORY_MAPPING
  | SL_ERROR_MEMORY_PROTECTION
  | SL_ERROR_WX_CONFLICT
  | SL_ERROR_INVALID_STATE
  | SL_ERROR_PROCESS_CREATION
  | SL_ERROR_THREAD_ENVIRONMENT
  | SL_ERROR_WORKER_PROTOCOL
  | SL_ERROR_HANDLE_NOT_FOUND
  | SL_ERROR_HANDLE_TYPE_MISMATCH
  | SL_ERROR_HANDLE_TABLE_FULL
  | SL_ERROR_NOT_IMPLEMENTED

type_synonym 'a result = "sl_status + 'a"

fun sl_status_string :: "sl_status \<Rightarrow> string" where
  "sl_status_string SL_OK = ''success''"
| "sl_status_string SL_ERROR_INVALID_ARGUMENT = ''invalid argument''"
| "sl_status_string SL_ERROR_IO = ''I/O error''"
| "sl_status_string SL_ERROR_OUT_OF_MEMORY = ''out of memory''"
| "sl_status_string SL_ERROR_TRUNCATED_FILE = ''truncated file''"
| "sl_status_string SL_ERROR_BAD_DOS_SIGNATURE = ''invalid DOS signature''"
| "sl_status_string SL_ERROR_BAD_PE_SIGNATURE = ''invalid PE signature''"
| "sl_status_string SL_ERROR_UNSUPPORTED_MACHINE = ''unsupported CPU architecture''"
| "sl_status_string SL_ERROR_UNSUPPORTED_OPTIONAL_HEADER = ''unsupported PE optional header''"
| "sl_status_string SL_ERROR_INVALID_IMAGE = ''invalid PE image''"
| "sl_status_string SL_ERROR_RVA_NOT_MAPPED = ''RVA is not backed by file data''"
| "sl_status_string SL_ERROR_EXPORT_NOT_FOUND = ''export was not found''"
| "sl_status_string SL_ERROR_MODULE_NOT_FOUND = ''imported module was not found''"
| "sl_status_string SL_ERROR_DUPLICATE_MODULE = ''module is already registered''"
| "sl_status_string SL_ERROR_MODULE_REGISTRY_FULL = ''module registry is full''"
| "sl_status_string SL_ERROR_INVALID_FORWARDER = ''invalid export forwarder''"
| "sl_status_string SL_ERROR_FORWARDER_LIMIT = ''export forwarder limit reached''"
| "sl_status_string SL_ERROR_ADDRESS_OUT_OF_RANGE =
     ''resolved guest address does not fit the image architecture''"
| "sl_status_string SL_ERROR_INVALID_ENCODING = ''invalid Unicode encoding''"
| "sl_status_string SL_ERROR_BUFFER_TOO_SMALL = ''destination buffer is too small''"
| "sl_status_string SL_ERROR_RELOCATION_REQUIRED =
     ''image cannot be loaded away from its preferred base''"
| "sl_status_string SL_ERROR_UNSUPPORTED_RELOCATION = ''unsupported PE base relocation''"
| "sl_status_string SL_ERROR_MEMORY_MAPPING = ''host virtual-memory mapping failed''"
| "sl_status_string SL_ERROR_MEMORY_PROTECTION = ''host virtual-memory protection failed''"
| "sl_status_string SL_ERROR_WX_CONFLICT = ''PE page would be writable and executable''"
| "sl_status_string SL_ERROR_INVALID_STATE =
     ''operation is invalid in the current runtime state''"
| "sl_status_string SL_ERROR_PROCESS_CREATION = ''guest worker process creation failed''"
| "sl_status_string SL_ERROR_THREAD_ENVIRONMENT = ''guest thread environment setup failed''"
| "sl_status_string SL_ERROR_WORKER_PROTOCOL = ''guest worker returned an invalid report''"
| "sl_status_string SL_ERROR_HANDLE_NOT_FOUND = ''process handle was not found''"
| "sl_status_string SL_ERROR_HANDLE_TYPE_MISMATCH = ''process handle has the wrong object type''"
| "sl_status_string SL_ERROR_HANDLE_TABLE_FULL = ''process handle table is full''"
| "sl_status_string SL_ERROR_NOT_IMPLEMENTED = ''not implemented yet''"

section \<open>Fallible steps\<close>

text \<open>A condition \<open>!f(..., &v) || ...\<close> with one error for every way to fail: the reads are options,
  chained in source order, and \<open>or_fail\<close> gives the error.\<close>

definition or_fail :: "sl_status \<Rightarrow> 'a option \<Rightarrow> 'a result" where
  "or_fail status x = (case x of None \<Rightarrow> Inl status | Some a \<Rightarrow> Inr a)"

definition and_then :: "'a result \<Rightarrow> ('a \<Rightarrow> 'b result) \<Rightarrow> 'b result" where
  "and_then r f = (case r of Inl status \<Rightarrow> Inl status | Inr a \<Rightarrow> f a)"

lemma or_fail_simps [simp]:
  "or_fail e None = Inl e" "or_fail e (Some a) = Inr a"
  "or_fail e x = Inr a \<longleftrightarrow> x = Some a" "or_fail e x = Inl e' \<longleftrightarrow> x = None \<and> e' = e"
  by (auto simp: or_fail_def split: option.splits)

lemma and_then_simps [simp]:
  "and_then (Inl e) f = Inl e" "and_then (Inr a) f = f a"
  "and_then r f = Inr b \<longleftrightarrow> (\<exists>a. r = Inr a \<and> f a = Inr b)"
  "and_then r f = Inl e' \<longleftrightarrow> r = Inl e' \<or> (\<exists>a. r = Inr a \<and> f a = Inl e')"
  by (auto simp: and_then_def split: sum.splits)

lemma and_then_cong [fundef_cong]:
  "r = r' \<Longrightarrow> (\<And>a. r' = Inr a \<Longrightarrow> f a = g a) \<Longrightarrow> and_then r f = and_then r' g"
  by (auto simp: and_then_def split: sum.splits)

definition check :: "bool \<Rightarrow> unit option" where
  "check b = (if b then Some () else None)"

lemma check_simps [simp]: "check b = Some u \<longleftrightarrow> b" "check b = None \<longleftrightarrow> \<not> b"
  "check True = Some ()" "check False = None"
  by (auto simp: check_def)

end
