(* ===== verification/Handle_Table.thy ===== *)
theory Handle_Table
  imports Status
begin

text \<open>
  \<open>src/handle_table.c\<close>: the process-owned handle table. A handle is a tagged 64-bit token made
  of a slot ordinal and a generation; records are reference counted, leases keep a record alive
  after its handle was closed, and a tracker shared by the table, its records and the running
  operations counts references (low half) and external activities (high half) in one 64-bit word.

  The world holds everything the C code reads and writes: the table object, the tracker object,
  the heap of handle records, the log of destructor calls, and whether \<open>abort()\<close> was reached.
  Every operation is split where the code leaves the table lock: the locked section is one
  function that returns the work the caller still has to do outside the lock, and
  \<open>handle_work\<close> lists the atomic pieces of that work. The sequential operation runs its work to
  the end (\<open>drain\<close>); the theory \<open>Handle_Machine\<close> interleaves the pieces of several threads.
\<close>

section \<open>Data\<close>

definition SL_HANDLE_TABLE_CAPACITY :: nat where "SL_HANDLE_TABLE_CAPACITY = 256"

type_synonym sl_handle = u64

definition SL_HANDLE_TAG :: u64 where "SL_HANDLE_TAG = 0x534c000000000000"
definition SL_HANDLE_TAG_MASK :: u64 where "SL_HANDLE_TAG_MASK = 0xffff000000000000"
definition SL_HANDLE_GENERATION_MASK :: u64 where "SL_HANDLE_GENERATION_MASK = 0x0000ffffffff0000"
definition SL_HANDLE_SLOT_MASK :: u64 where "SL_HANDLE_SLOT_MASK = 0x000000000000ffff"
definition SL_TRACKER_REFERENCE_ONE :: u64 where "SL_TRACKER_REFERENCE_ONE = 1"
definition SL_TRACKER_ACTIVITY_ONE :: u64 where "SL_TRACKER_ACTIVITY_ONE = push_bit 32 1"

lemmas handle_consts =
  SL_HANDLE_TAG_def SL_HANDLE_TAG_MASK_def SL_HANDLE_GENERATION_MASK_def SL_HANDLE_SLOT_MASK_def

text \<open>
  The last constructor stands for any other integer a caller passes as the enumeration.
\<close>

datatype sl_handle_kind =
  SL_HANDLE_KIND_FILE | SL_HANDLE_KIND_SEARCH | SL_HANDLE_KIND_OTHER u32

type_synonym destroy_fn = ptr
type_synonym rec_id = nat

record sl_handle_record =
  hr_references :: u32
  hr_kind :: sl_handle_kind
  hr_object :: ptr
  hr_destroy :: destroy_fn

record sl_handle_slot =
  hs_record :: "rec_id option"
  hs_generation :: u32
  hs_retired :: bool

record sl_handle_table =
  ht_locked :: bool
  ht_destroying :: bool
  ht_slots :: "sl_handle_slot list"

text \<open>
  \<open>hw_table\<close> and \<open>hw_tracker\<close> are \<open>None\<close> when there is no such object (never created, or freed).
  All records of a table point to the table's own tracker, so the record's \<open>tracker\<close> field is
  the one tracker of the world.
\<close>

record handle_world =
  hw_table :: "sl_handle_table option"
  hw_tracker :: "u64 option"
  hw_records :: "rec_id \<Rightarrow> sl_handle_record option"
  hw_destroyed :: "(destroy_fn \<times> ptr) list"
  hw_aborted :: bool

record sl_handle_lease =
  hl_object :: ptr
  hl_internal :: "rec_id option"

definition empty_lease :: sl_handle_lease where
  "empty_lease = \<lparr>hl_object = NULL, hl_internal = None\<rparr>"

section \<open>Handle tokens\<close>

fun handle_kind_is_valid :: "sl_handle_kind \<Rightarrow> bool" where
  "handle_kind_is_valid kind = (kind = SL_HANDLE_KIND_FILE \<or> kind = SL_HANDLE_KIND_SEARCH)"

definition encode_handle :: "nat \<Rightarrow> u32 \<Rightarrow> sl_handle" where
  "encode_handle slot_index generation =
     SL_HANDLE_TAG OR push_bit 16 (ucast generation) OR of_nat (slot_index + 1)"

definition decode_handle :: "sl_handle \<Rightarrow> (nat \<times> u32) option" where
  "decode_handle handle =
     (if handle AND SL_HANDLE_TAG_MASK \<noteq> SL_HANDLE_TAG \<or> handle AND SL_HANDLE_SLOT_MASK = 0
      then None
      else let ordinal = handle AND SL_HANDLE_SLOT_MASK;
               encoded_generation = drop_bit 16 (handle AND SL_HANDLE_GENERATION_MASK)
           in if ordinal > of_nat SL_HANDLE_TABLE_CAPACITY \<or> encoded_generation = 0
              then None
              else Some (unat (ordinal - 1), ucast encoded_generation))"

section \<open>The tracker\<close>

definition tracker_reference_count :: "u64 \<Rightarrow> u32" where
  "tracker_reference_count state = ucast (state AND 0xffffffff)"

definition tracker_activity_count :: "u64 \<Rightarrow> u32" where
  "tracker_activity_count state = ucast (drop_bit 32 state)"

text \<open>
  The atomic subtraction and what follows it. A tracker that is not there was freed: the C code
  would touch freed memory, which the model reports as an abort.
\<close>

definition tracker_drop :: "u64 \<Rightarrow> u32 \<Rightarrow> handle_world \<Rightarrow> handle_world" where
  "tracker_drop decrement activity_decrement w =
     (case hw_tracker w of
        None \<Rightarrow> w\<lparr>hw_aborted := True\<rparr>
      | Some previous \<Rightarrow>
          (let w = w\<lparr>hw_tracker := Some (previous - decrement)\<rparr>;
               references = tracker_reference_count previous;
               activities = tracker_activity_count previous
           in if references = 0 \<or> activities < activity_decrement then w\<lparr>hw_aborted := True\<rparr>
              else let references = references - 1;
                       activities = activities - activity_decrement
                   in if references = 0
                      then if activities \<noteq> 0 then w\<lparr>hw_aborted := True\<rparr>
                           else w\<lparr>hw_tracker := None\<rparr>
                      else w))"

definition tracker_retain :: "u64 \<Rightarrow> u64 option" where
  "tracker_retain state =
     (if tracker_reference_count state = of_nat UINT32_MAX then None
      else Some (state + SL_TRACKER_REFERENCE_ONE))"

definition tracker_release :: "handle_world \<Rightarrow> handle_world" where
  "tracker_release = tracker_drop SL_TRACKER_REFERENCE_ONE 0"

definition tracker_activity_begin :: "u64 \<Rightarrow> u64 option" where
  "tracker_activity_begin state =
     (if tracker_reference_count state = of_nat UINT32_MAX \<or>
         tracker_activity_count state = of_nat UINT32_MAX then None
      else Some (state + (SL_TRACKER_REFERENCE_ONE + SL_TRACKER_ACTIVITY_ONE)))"

definition tracker_activity_end :: "handle_world \<Rightarrow> handle_world" where
  "tracker_activity_end = tracker_drop (SL_TRACKER_REFERENCE_ONE + SL_TRACKER_ACTIVITY_ONE) 1"

section \<open>Work done outside the lock\<close>

datatype handle_work =
    Release_Record rec_id
  | Call_Destroy destroy_fn ptr
  | Tracker_Release
  | Activity_End
  | Free_Table

text \<open>
  \<open>record_release\<close> up to the destructor call: the atomic decrement and, for the last reference,
  the release of the record's memory; the destructor call and the tracker release follow as
  further work of the same thread.
\<close>

definition record_release :: "rec_id \<Rightarrow> handle_world \<Rightarrow> handle_world \<times> handle_work list" where
  "record_release r w =
     (case hw_records w r of
        None \<Rightarrow> (w\<lparr>hw_aborted := True\<rparr>, [])
      | Some rcd \<Rightarrow>
          (let previous = hr_references rcd;
               w' = w\<lparr>hw_records := (hw_records w)(r \<mapsto> rcd\<lparr>hr_references := previous - 1\<rparr>)\<rparr>
           in if previous = 0 then (w'\<lparr>hw_aborted := True\<rparr>, [])
              else if previous = 1
              then (w\<lparr>hw_records := (hw_records w)(r := None)\<rparr>,
                    [Call_Destroy (hr_destroy rcd) (hr_object rcd), Tracker_Release])
              else (w', [])))"

fun exec_work :: "handle_work \<Rightarrow> handle_world \<Rightarrow> handle_world \<times> handle_work list" where
  "exec_work (Release_Record r) w = record_release r w"
| "exec_work (Call_Destroy f obj) w = (w\<lparr>hw_destroyed := hw_destroyed w @ [(f, obj)]\<rparr>, [])"
| "exec_work Tracker_Release w = (tracker_release w, [])"
| "exec_work Activity_End w = (tracker_activity_end w, [])"
| "exec_work Free_Table w =
     (case hw_table w of
        None \<Rightarrow> (w\<lparr>hw_aborted := True\<rparr>, [])
      | Some table \<Rightarrow> (w\<lparr>hw_table := None\<rparr>, []))"

fun work_size :: "handle_work \<Rightarrow> nat" where
  "work_size (Release_Record r) = 3"
| "work_size _ = 1"

lemma exec_work_size:
  "exec_work x w = (w', follow) \<Longrightarrow> sum_list (map work_size follow) < work_size x"
  by (cases x) (auto simp: record_release_def Let_def split: option.splits if_splits)

text \<open>Running a thread's work to the end, in the code's order.\<close>

function drain :: "handle_work list \<Rightarrow> handle_world \<Rightarrow> handle_world" where
  "drain [] w = w"
| "drain (x # xs) w = (case exec_work x w of (w', follow) \<Rightarrow> drain (follow @ xs) w')"
  by pat_completeness auto
termination
  by (relation "measure (\<lambda>(xs, w). sum_list (map work_size xs))")
     (auto dest!: exec_work_size [OF sym])

section \<open>Table operations\<close>

definition invalidate_slot :: "sl_handle_slot \<Rightarrow> sl_handle_slot" where
  "invalidate_slot slot =
     (let slot = slot\<lparr>hs_record := None\<rparr>
      in if hs_generation slot = of_nat UINT32_MAX
         then slot\<lparr>hs_generation := 0, hs_retired := True\<rparr>
         else slot\<lparr>hs_generation := hs_generation slot + 1\<rparr>)"

definition initial_slot :: sl_handle_slot where
  "initial_slot = \<lparr>hs_record = None, hs_generation = 1, hs_retired = False\<rparr>"

definition initial_table :: sl_handle_table where
  "initial_table = \<lparr>ht_locked = False, ht_destroying = False,
     ht_slots = replicate SL_HANDLE_TABLE_CAPACITY initial_slot\<rparr>"

text \<open>
  The two allocations of \<open>sl_handle_table_create\<close> may fail: \<open>table_ok\<close> and \<open>tracker_ok\<close> say
  whether \<open>calloc\<close> returned memory. \<open>out\<close> says whether \<open>out_table\<close> is a pointer.
\<close>

definition sl_handle_table_create ::
    "bool \<Rightarrow> bool \<Rightarrow> bool \<Rightarrow> handle_world \<Rightarrow> sl_status \<times> handle_world" where
  "sl_handle_table_create out table_ok tracker_ok w =
     (if \<not> out then (SL_ERROR_INVALID_ARGUMENT, w)
      else let w = w\<lparr>hw_table := None\<rparr>
           in if \<not> table_ok then (SL_ERROR_OUT_OF_MEMORY, w)
              else if \<not> tracker_ok then (SL_ERROR_OUT_OF_MEMORY, w)
              else (SL_OK, w\<lparr>hw_tracker := Some SL_TRACKER_REFERENCE_ONE,
                             hw_table := Some initial_table\<rparr>))"

fun first_free_slot :: "nat \<Rightarrow> sl_handle_slot list \<Rightarrow> nat option" where
  "first_free_slot index [] = None"
| "first_free_slot index (slot # slots) =
     (if hs_record slot = None \<and> \<not> hs_retired slot then Some index
      else first_free_slot (index + 1) slots)"

text \<open>
  \<open>record\<close> is the address \<open>calloc\<close> returned for the new record, \<open>None\<close> when it failed. The out
  parameter is the handle's memory cell, \<open>None\<close> for a null pointer; the result carries its new
  contents.
\<close>

definition sl_handle_table_insert ::
    "sl_handle_kind \<Rightarrow> ptr \<Rightarrow> destroy_fn \<Rightarrow> sl_handle option \<Rightarrow> rec_id option \<Rightarrow> handle_world \<Rightarrow>
     sl_status \<times> sl_handle option \<times> handle_world" where
  "sl_handle_table_insert kind object destroy out_handle record w =
     (let out_handle = map_option (\<lambda>_. 0) out_handle in
      case hw_table w of
        None \<Rightarrow> (SL_ERROR_INVALID_ARGUMENT, out_handle, w)
      | Some table \<Rightarrow>
      if \<not> handle_kind_is_valid kind \<or> object = NULL \<or> destroy = NULL \<or> out_handle = None
      then (SL_ERROR_INVALID_ARGUMENT, out_handle, w)
      else case record of
        None \<Rightarrow> (SL_ERROR_OUT_OF_MEMORY, out_handle, w)
      | Some r \<Rightarrow>
      if ht_destroying table then (SL_ERROR_INVALID_STATE, out_handle, w)
      else case first_free_slot 0 (ht_slots table) of
        None \<Rightarrow> (SL_ERROR_HANDLE_TABLE_FULL, out_handle, w)
      | Some index \<Rightarrow>
      (case hw_tracker w of
        None \<Rightarrow> (SL_ERROR_INVALID_STATE, out_handle, w\<lparr>hw_aborted := True\<rparr>)
      | Some state \<Rightarrow>
      (case tracker_retain state of
        None \<Rightarrow> (SL_ERROR_INVALID_STATE, out_handle, w)
      | Some state' \<Rightarrow>
          (let slot = ht_slots table ! index;
               rcd = \<lparr>hr_references = 1, hr_kind = kind, hr_object = object, hr_destroy = destroy\<rparr>
           in (SL_OK, Some (encode_handle index (hs_generation slot)),
               w\<lparr>hw_tracker := Some state', hw_records := (hw_records w)(r \<mapsto> rcd),
                 hw_table := Some (table\<lparr>ht_slots :=
                   (ht_slots table)[index := slot\<lparr>hs_record := Some r\<rparr>]\<rparr>)\<rparr>)))))"

text \<open>
  The check both \<open>acquire\<close> and \<open>close\<close> make under the lock. A slot whose record is not in the heap
  would be a dangling pointer; \<open>Handle_Machine\<close> proves that no reachable world has one.
\<close>

definition lookup_record ::
    "sl_handle_table \<Rightarrow> handle_world \<Rightarrow> nat \<Rightarrow> u32 \<Rightarrow> sl_handle_kind \<Rightarrow>
     (rec_id \<times> sl_handle_record) result" where
  "lookup_record table w slot_index generation expected_kind =
     (let slot = ht_slots table ! slot_index
      in case hs_record slot of
           None \<Rightarrow> Inl SL_ERROR_HANDLE_NOT_FOUND
         | Some r \<Rightarrow>
             if ht_destroying table \<or> hs_retired slot \<or> hs_generation slot \<noteq> generation
             then Inl SL_ERROR_HANDLE_NOT_FOUND
             else (case hw_records w r of
                     None \<Rightarrow> Inl SL_ERROR_INVALID_STATE
                   | Some rcd \<Rightarrow>
                       if hr_kind rcd \<noteq> expected_kind then Inl SL_ERROR_HANDLE_TYPE_MISMATCH
                       else Inr (r, rcd)))"

definition sl_handle_table_acquire ::
    "sl_handle \<Rightarrow> sl_handle_kind \<Rightarrow> sl_handle_lease option \<Rightarrow> handle_world \<Rightarrow>
     sl_status \<times> sl_handle_lease option \<times> handle_world" where
  "sl_handle_table_acquire handle expected_kind out_lease w =
     (let out_lease = map_option (\<lambda>_. empty_lease) out_lease in
      case hw_table w of
        None \<Rightarrow> (SL_ERROR_INVALID_ARGUMENT, out_lease, w)
      | Some table \<Rightarrow>
      if \<not> handle_kind_is_valid expected_kind \<or> out_lease = None
      then (SL_ERROR_INVALID_ARGUMENT, out_lease, w)
      else case decode_handle handle of
        None \<Rightarrow> (SL_ERROR_HANDLE_NOT_FOUND, out_lease, w)
      | Some (slot_index, generation) \<Rightarrow>
      (case lookup_record table w slot_index generation expected_kind of
        Inl status \<Rightarrow> (status, out_lease, w)
      | Inr (r, rcd) \<Rightarrow>
          if hr_references rcd = of_nat UINT32_MAX then (SL_ERROR_INVALID_STATE, out_lease, w)
          else (case hw_tracker w of
             None \<Rightarrow> (SL_ERROR_INVALID_STATE, out_lease, w\<lparr>hw_aborted := True\<rparr>)
           | Some state \<Rightarrow>
          (case tracker_activity_begin state of
             None \<Rightarrow> (SL_ERROR_INVALID_STATE, out_lease, w)
           | Some state' \<Rightarrow>
               (SL_OK, Some \<lparr>hl_object = hr_object rcd, hl_internal = Some r\<rparr>,
                w\<lparr>hw_tracker := Some state',
                  hw_records := (hw_records w)
                    (r \<mapsto> rcd\<lparr>hr_references := hr_references rcd + 1\<rparr>)\<rparr>)))))"

text \<open>
  Releasing a lease empties it and leaves the work of dropping the record and ending the
  activity. A null lease and an already empty one are no-ops.
\<close>

definition lease_release_work :: "sl_handle_lease option \<Rightarrow> handle_work list" where
  "lease_release_work lease =
     (case lease of None \<Rightarrow> []
      | Some l \<Rightarrow> (case hl_internal l of None \<Rightarrow> [] | Some r \<Rightarrow> [Release_Record r, Activity_End]))"

definition sl_handle_lease_release ::
    "sl_handle_lease option \<Rightarrow> handle_world \<Rightarrow> sl_handle_lease option \<times> handle_world" where
  "sl_handle_lease_release lease w =
     (map_option (\<lambda>_. empty_lease) lease, drain (lease_release_work lease) w)"

definition close_locked ::
    "sl_handle \<Rightarrow> sl_handle_kind \<Rightarrow> handle_world \<Rightarrow> sl_status \<times> handle_world \<times> handle_work list" where
  "close_locked handle expected_kind w =
     (case hw_table w of
        None \<Rightarrow> (SL_ERROR_INVALID_ARGUMENT, w, [])
      | Some table \<Rightarrow>
      if \<not> handle_kind_is_valid expected_kind then (SL_ERROR_INVALID_ARGUMENT, w, [])
      else case decode_handle handle of
        None \<Rightarrow> (SL_ERROR_HANDLE_NOT_FOUND, w, [])
      | Some (slot_index, generation) \<Rightarrow>
      (case lookup_record table w slot_index generation expected_kind of
        Inl status \<Rightarrow> (status, w, [])
      | Inr (r, rcd) \<Rightarrow>
      (case hw_tracker w of
        None \<Rightarrow> (SL_ERROR_INVALID_STATE, w\<lparr>hw_aborted := True\<rparr>, [])
      | Some state \<Rightarrow>
      (case tracker_activity_begin state of
        None \<Rightarrow> (SL_ERROR_INVALID_STATE, w, [])
      | Some state' \<Rightarrow>
          (SL_OK,
           w\<lparr>hw_tracker := Some state',
             hw_table := Some (table\<lparr>ht_slots :=
               (ht_slots table)[slot_index := invalidate_slot (ht_slots table ! slot_index)]\<rparr>)\<rparr>,
           [Release_Record r, Activity_End])))))"

definition sl_handle_table_close ::
    "sl_handle \<Rightarrow> sl_handle_kind \<Rightarrow> handle_world \<Rightarrow> sl_status \<times> handle_world" where
  "sl_handle_table_close handle expected_kind w =
     (case close_locked handle expected_kind w of (status, w', work) \<Rightarrow> (status, drain work w'))"

definition clear_slot :: "sl_handle_slot \<Rightarrow> sl_handle_slot" where
  "clear_slot slot = (if hs_record slot \<noteq> None then invalidate_slot slot else slot)"

definition destroy_locked :: "handle_world \<Rightarrow> handle_world \<times> handle_work list" where
  "destroy_locked w =
     (case hw_table w of
        None \<Rightarrow> (w, [])
      | Some table \<Rightarrow>
          (w\<lparr>hw_table := Some (table\<lparr>ht_destroying := True,
                                     ht_slots := map clear_slot (ht_slots table)\<rparr>)\<rparr>,
           map Release_Record (List.map_filter hs_record (ht_slots table)) @
             [Free_Table, Tracker_Release]))"

definition sl_handle_table_destroy :: "handle_world \<Rightarrow> handle_world" where
  "sl_handle_table_destroy w = (case destroy_locked w of (w', work) \<Rightarrow> drain work w')"

text \<open>
  Freezing the table around \<open>clone()\<close>. On success the table stays locked until
  \<open>sl_handle_table_complete_clone\<close>; with no table the latter aborts.
\<close>

definition sl_handle_table_prepare_clone :: "handle_world \<Rightarrow> sl_status \<times> handle_world" where
  "sl_handle_table_prepare_clone w =
     (case hw_table w of
        None \<Rightarrow> (SL_ERROR_INVALID_ARGUMENT, w)
      | Some table \<Rightarrow>
      if ht_destroying table then (SL_ERROR_INVALID_STATE, w)
      else case hw_tracker w of
        None \<Rightarrow> (SL_ERROR_INVALID_STATE, w\<lparr>hw_aborted := True\<rparr>)
      | Some tracker_state \<Rightarrow>
      if tracker_activity_count tracker_state \<noteq> 0 then (SL_ERROR_INVALID_STATE, w)
      else (SL_OK, w\<lparr>hw_table := Some (table\<lparr>ht_locked := True\<rparr>)\<rparr>))"

definition sl_handle_table_complete_clone :: "handle_world \<Rightarrow> handle_world" where
  "sl_handle_table_complete_clone w =
     (case hw_table w of
        None \<Rightarrow> w\<lparr>hw_aborted := True\<rparr>
      | Some table \<Rightarrow> w\<lparr>hw_table := Some (table\<lparr>ht_locked := False\<rparr>)\<rparr>)"

section \<open>Facts about tokens and tracker words\<close>

lemma handle_masks:
  "SL_HANDLE_TAG_MASK = push_bit 48 (mask 16)"
  "SL_HANDLE_GENERATION_MASK = push_bit 16 (mask 32)"
  "SL_HANDLE_SLOT_MASK = mask 16"
  "SL_HANDLE_TAG = push_bit 48 0x534c"
  by (simp_all add: handle_consts mask_eq_exp_minus_1 push_bit_eq_mult)

lemma handle_token_bits:
  fixes g :: u32 and s :: u64
  assumes "s AND SL_HANDLE_SLOT_MASK = s"
  defines "h \<equiv> SL_HANDLE_TAG OR push_bit 16 (ucast g) OR s"
  shows "h AND SL_HANDLE_TAG_MASK = SL_HANDLE_TAG"
    and "h AND SL_HANDLE_SLOT_MASK = s"
    and "drop_bit 16 (h AND SL_HANDLE_GENERATION_MASK) = ucast g"
proof -
  have "bit (s AND mask 16) n = bit s n" for n
    using assms(1) by (simp add: handle_masks)
  then have s: "bit s n \<Longrightarrow> n < 16" for n
    by (simp only: bit_and_iff bit_mask_iff) blast
  have t: "bit SL_HANDLE_TAG n \<Longrightarrow> n \<ge> 48" for n
    by (simp only: handle_masks(4) bit_push_bit_iff)
  have g: "bit g n \<Longrightarrow> n < 32" for n
    using bit_imp_le_length [of g n] by simp
  show "h AND SL_HANDLE_TAG_MASK = SL_HANDLE_TAG"
    unfolding h_def handle_masks(1) by (rule bit_eqI) (auto simp: bit_simps dest: s t g)
  show "h AND SL_HANDLE_SLOT_MASK = s"
    unfolding h_def handle_masks(3) by (rule bit_eqI) (auto simp: bit_simps dest: s t g)
  show "drop_bit 16 (h AND SL_HANDLE_GENERATION_MASK) = ucast g"
    unfolding h_def handle_masks(2) by (rule bit_eqI) (auto simp: bit_simps dest: s t g)
qed

lemma handle_token_rebuild:
  fixes h :: u64
  assumes "h AND SL_HANDLE_TAG_MASK = SL_HANDLE_TAG"
  shows "SL_HANDLE_TAG
      OR push_bit 16 (ucast (ucast (drop_bit 16 (h AND SL_HANDLE_GENERATION_MASK)) :: u32))
      OR (h AND SL_HANDLE_SLOT_MASK) = h"
  unfolding assms [symmetric] handle_masks(1-3) by (rule bit_eqI) (auto simp: bit_simps)

lemma unat_ordinal: "i < 256 \<Longrightarrow> unat (of_nat (i + 1) :: u64) = i + 1"
  by (rule unat_of_nat_small) simp

lemma ordinal_masked:
  assumes "i < 256"
  shows "(of_nat (i + 1) :: u64) AND SL_HANDLE_SLOT_MASK = of_nat (i + 1)"
proof -
  have "unat (take_bit 16 (of_nat (i + 1) :: u64)) = unat (of_nat (i + 1) :: u64)"
    unfolding unsigned_take_bit_eq unat_ordinal [OF assms] using assms
    by (intro take_bit_nat_eq_self) simp
  then show ?thesis
    unfolding handle_masks(3) take_bit_eq_mask [symmetric] by (rule word_unat_eq_iff [THEN iffD2])
qed

lemma gen_cast_zero_iff: "(ucast (g :: u32) :: u64) = 0 \<longleftrightarrow> g = 0"
  by (simp add: word_unat_eq_iff unat_ucast_up)

lemma generation_cast [simp]: "ucast (ucast (g :: u32) :: u64) = g"
  by (rule bit_eqI) (auto simp: bit_simps)

lemma decode_encode_handle [simp]:
  assumes "i < SL_HANDLE_TABLE_CAPACITY" and "g \<noteq> 0"
  shows "decode_handle (encode_handle i g) = Some (i, g)"
proof -
  have i: "i < 256" using assms(1) by (simp add: SL_HANDLE_TABLE_CAPACITY_def)
  define s where "s = (of_nat (i + 1) :: u64)"
  have us: "unat s = i + 1" unfolding s_def by (rule unat_ordinal [OF i])
  have tok: "s AND SL_HANDLE_SLOT_MASK = s" unfolding s_def by (rule ordinal_masked [OF i])
  have "s \<noteq> 0" and "\<not> s > 256" and "unat (s - 1) = i"
    using us i by (auto simp: word_less_nat_alt unat_sub_no_wrap word_le_nat_alt)
  then show ?thesis
    using gen_cast_zero_iff [of g] assms(2)
    unfolding encode_handle_def decode_handle_def s_def [symmetric] handle_token_bits [OF tok] Let_def
    by (simp add: SL_HANDLE_TABLE_CAPACITY_def)
qed

lemma generation_fits:
  fixes h :: u64
  shows "ucast (ucast (drop_bit 16 (h AND SL_HANDLE_GENERATION_MASK)) :: u32)
    = drop_bit 16 (h AND SL_HANDLE_GENERATION_MASK)"
  unfolding handle_masks(2) by (rule bit_eqI) (auto simp: bit_simps)

lemma encode_decode_handle:
  assumes "decode_handle h = Some (i, g)"
  shows "encode_handle i g = h" and "i < SL_HANDLE_TABLE_CAPACITY" and "g \<noteq> 0"
proof -
  define s where "s = h AND SL_HANDLE_SLOT_MASK"
  let ?g = "drop_bit 16 (h AND SL_HANDLE_GENERATION_MASK)"
  have tag: "h AND SL_HANDLE_TAG_MASK = SL_HANDLE_TAG" and s: "s \<noteq> 0" "\<not> s > 256"
    and g: "?g \<noteq> 0" and i: "i = unat (s - 1)" and geq: "g = ucast ?g"
    using assms
    by (auto simp: decode_handle_def Let_def SL_HANDLE_TABLE_CAPACITY_def s_def split: if_splits)
  have us: "unat s \<noteq> 0" "unat s \<le> 256"
    using s by (auto simp: word_less_nat_alt word_unat_eq_iff)
  then have suc: "i + 1 = unat s"
    unfolding i by (subst unat_sub_no_wrap) (auto simp: word_le_nat_alt)
  then have "of_nat (i + 1) = s" by (simp only: of_nat_unat ucast_id)
  then show "encode_handle i g = h"
    unfolding encode_handle_def geq using handle_token_rebuild [OF tag] by (simp add: s_def)
  show "i < SL_HANDLE_TABLE_CAPACITY"
    using suc us by (simp add: SL_HANDLE_TABLE_CAPACITY_def)
  show "g \<noteq> 0"
    using g generation_fits [of h] gen_cast_zero_iff [of g] unfolding geq by simp
qed

text \<open>The two halves of the tracker word.\<close>

lemma unat_reference_count: "unat (tracker_reference_count s) = unat s mod 2 ^ 32"
proof -
  have "s AND 0xffffffff = take_bit 32 s" by (simp add: take_bit_eq_mask mask_eq_exp_minus_1)
  then show ?thesis
    by (simp only: tracker_reference_count_def unsigned_ucast_eq unsigned_take_bit_eq)
       (simp add: take_bit_eq_mod)
qed

lemma unat_activity_count: "unat (tracker_activity_count s) = unat s div 2 ^ 32"
proof -
  have "unat s div 2 ^ 32 < 2 ^ 32"
    using unat_u64_lt [of s] by (simp add: less_mult_imp_div_less)
  then show ?thesis
    by (simp only: tracker_activity_count_def unsigned_ucast_eq unat_drop_bit_eq)
       (simp add: take_bit_nat_eq_self drop_bit_eq_div)
qed

text \<open>\<open>tracker_rep s R A\<close>: the word \<open>s\<close> counts \<open>R\<close> references and \<open>A\<close> activities.\<close>

definition tracker_rep :: "u64 \<Rightarrow> nat \<Rightarrow> nat \<Rightarrow> bool" where
  "tracker_rep s R A \<longleftrightarrow> unat s = R + A * 2 ^ 32 \<and> R < 2 ^ 32 \<and> A < 2 ^ 32"

lemma tracker_rep_counts:
  assumes "tracker_rep s R A"
  shows "unat (tracker_reference_count s) = R" and "unat (tracker_activity_count s) = A"
  using assms by (simp_all add: tracker_rep_def unat_reference_count unat_activity_count)

lemma tracker_rep_initial: "tracker_rep SL_TRACKER_REFERENCE_ONE 1 0"
  by (simp add: tracker_rep_def SL_TRACKER_REFERENCE_ONE_def)

lemma tracker_retain_rep:
  assumes "tracker_rep s R A" and "tracker_retain s = Some s'"
  shows "tracker_rep s' (Suc R) A"
proof -
  have "unat (tracker_reference_count s) \<noteq> 4294967295" and s': "s' = s + 1"
    using assms(2)
    by (auto simp: tracker_retain_def SL_TRACKER_REFERENCE_ONE_def word_unat_eq_iff split: if_splits)
  then have R: "R < 4294967295" using assms(1) by (auto simp: tracker_rep_counts tracker_rep_def)
  then have "unat (s + 1) = unat s + 1"
    using assms(1) by (intro trans [OF unat_add_no_wrap]) (auto simp: tracker_rep_def)
  with R assms(1) show ?thesis by (simp add: tracker_rep_def s')
qed

lemma activity_one_unat:
  "unat (SL_TRACKER_REFERENCE_ONE + SL_TRACKER_ACTIVITY_ONE) = 1 + 2 ^ 32"
  by (simp add: SL_TRACKER_REFERENCE_ONE_def SL_TRACKER_ACTIVITY_ONE_def push_bit_eq_mult)

lemma tracker_activity_begin_rep:
  assumes "tracker_rep s R A" and "tracker_activity_begin s = Some s'"
  shows "tracker_rep s' (Suc R) (Suc A)"
proof -
  have "unat (tracker_reference_count s) \<noteq> 4294967295"
    and "unat (tracker_activity_count s) \<noteq> 4294967295"
    and s': "s' = s + (SL_TRACKER_REFERENCE_ONE + SL_TRACKER_ACTIVITY_ONE)"
    using assms(2) by (auto simp: tracker_activity_begin_def word_unat_eq_iff split: if_splits)
  then have R: "R < 4294967295" "A < 4294967295"
    using assms(1) by (auto simp: tracker_rep_counts tracker_rep_def)
  then have "unat s' = unat s + (1 + 2 ^ 32)"
    unfolding s' activity_one_unat [symmetric] using assms(1)
    by (intro unat_add_no_wrap) (auto simp: tracker_rep_def activity_one_unat)
  with R assms(1) show ?thesis by (simp add: tracker_rep_def)
qed

text \<open>
  A drop that takes away one reference and \<open>a\<close> activities never aborts when the counts allow it,
  and frees the tracker with the last reference.
\<close>

lemma tracker_drop_rep:
  assumes rep: "tracker_rep s R A" and w: "hw_tracker w = Some s"
    and d: "unat d = 1 + unat a * 2 ^ 32" and a: "unat a \<le> A"
    and last: "0 < R" "R = 1 \<Longrightarrow> A = unat a"
  shows "(R = 1 \<and> tracker_drop d a w = w\<lparr>hw_tracker := None\<rparr>) \<or>
         (R \<noteq> 1 \<and> tracker_drop d a w = w\<lparr>hw_tracker := Some (s - d)\<rparr> \<and>
          tracker_rep (s - d) (R - 1) (A - unat a))"
proof -
  have "unat d \<le> unat s"
    unfolding d using rep a last(1) by (simp add: tracker_rep_def)
  then have sub: "unat (s - d) = unat s - unat d"
    by (simp add: unat_sub_no_wrap word_le_nat_alt)
  have "R - 1 + (A - unat a) * 2 ^ 32 = unat s - unat d"
    unfolding d using rep a last(1) by (simp add: tracker_rep_def diff_mult_distrib)
  then have rep': "tracker_rep (s - d) (R - 1) (A - unat a)"
    using rep sub by (auto simp: tracker_rep_def)
  note rc = tracker_rep_counts [OF rep]
  have "tracker_reference_count s \<noteq> 0" using rc(1) last(1) by auto
  moreover have "\<not> tracker_activity_count s < a" using rc(2) a by (simp add: word_less_nat_alt)
  moreover have "tracker_reference_count s - 1 = 0 \<longleftrightarrow> R = 1"
    using rc(1) by (metis eq_iff_diff_eq_0 unat_1 word_unat_eq_iff)
  moreover have "R = 1 \<Longrightarrow> tracker_activity_count s - a = 0"
    using rc(2) last(2) by (simp flip: word_unat_eq_iff)
  ultimately show ?thesis
    using w rep' by (simp add: tracker_drop_def Let_def)
qed

lemma tracker_release_rep:
  assumes "tracker_rep s R A" and "hw_tracker w = Some s" and "0 < R" and "R = 1 \<Longrightarrow> A = 0"
  shows "(R = 1 \<and> tracker_release w = w\<lparr>hw_tracker := None\<rparr>) \<or>
         (R \<noteq> 1 \<and> (\<exists>s'. tracker_release w = w\<lparr>hw_tracker := Some s'\<rparr> \<and> tracker_rep s' (R - 1) A))"
  using tracker_drop_rep [OF assms(1,2), of SL_TRACKER_REFERENCE_ONE 0] assms(3,4)
  by (auto simp: tracker_release_def SL_TRACKER_REFERENCE_ONE_def)

lemma tracker_activity_end_rep:
  assumes "tracker_rep s R A" and "hw_tracker w = Some s" and "0 < A" and "0 < R"
    and "R = 1 \<Longrightarrow> A = 1"
  shows "(R = 1 \<and> tracker_activity_end w = w\<lparr>hw_tracker := None\<rparr>) \<or>
         (R \<noteq> 1 \<and> (\<exists>s'. tracker_activity_end w = w\<lparr>hw_tracker := Some s'\<rparr> \<and>
            tracker_rep s' (R - 1) (A - 1)))"
  using tracker_drop_rep [OF assms(1,2), of "SL_TRACKER_REFERENCE_ONE + SL_TRACKER_ACTIVITY_ONE" 1]
    assms(3-5) activity_one_unat
  by (auto simp: tracker_activity_end_def)

end
