(* ===== verification/Handle_Machine.thy ===== *)
theory Handle_Machine
  imports Handle_Table
begin

text \<open>
  The handle table of \<open>src/handle_table.c\<close> under concurrency. A configuration is the shared world,
  the leases clients hold, and the work each thread still has to do outside the table lock; a step
  is one locked section or one atomic piece of outside work, in any order the scheduler likes.
  Two history variables record the objects whose ownership went to the table and the handles it
  handed out. The invariants say that reference counts, tracker counts and slots agree with what
  is outstanding; from them follow the promises of \<open>include/sadlayer/handle_table.h\<close>.
\<close>

section \<open>Configurations and steps\<close>

record handle_cfg =
  hc_world :: handle_world
  hc_leases :: "sl_handle_lease multiset"
  hc_threads :: "handle_work list list"
  hc_inserted :: "(destroy_fn \<times> ptr) multiset"
  hc_issued :: "sl_handle set"

definition lock_free :: "handle_world \<Rightarrow> bool" where
  "lock_free w = (case hw_table w of None \<Rightarrow> True | Some t \<Rightarrow> \<not> ht_locked t)"

definition initial_world :: handle_world where
  "initial_world = \<lparr>hw_table = Some initial_table, hw_tracker = Some SL_TRACKER_REFERENCE_ONE,
     hw_records = (\<lambda>_. None), hw_destroyed = [], hw_aborted = False\<rparr>"

definition initial_cfg :: handle_cfg where
  "initial_cfg = \<lparr>hc_world = initial_world, hc_leases = {#}, hc_threads = [],
     hc_inserted = {#}, hc_issued = {}\<rparr>"

text \<open>
  The table may be destroyed once; insertion is given memory that is not in use (what \<open>calloc\<close>
  returns); locked sections wait for the lock (\<open>table_lock\<close> spins).
\<close>

inductive handle_step :: "handle_cfg \<Rightarrow> handle_cfg \<Rightarrow> bool" where
  insert: "\<lbrakk> lock_free (hc_world c); \<And>r. alloc = Some r \<Longrightarrow> hw_records (hc_world c) r = None;
      sl_handle_table_insert k obj f out alloc (hc_world c) = (st, out', w') \<rbrakk> \<Longrightarrow>
    handle_step c (c\<lparr>hc_world := w',
      hc_inserted := (if st = SL_OK then add_mset (f, obj) (hc_inserted c) else hc_inserted c),
      hc_issued := (if st = SL_OK then insert (the out') (hc_issued c) else hc_issued c)\<rparr>)"
| acquire: "\<lbrakk> lock_free (hc_world c);
      sl_handle_table_acquire h k out (hc_world c) = (st, out', w') \<rbrakk> \<Longrightarrow>
    handle_step c (c\<lparr>hc_world := w',
      hc_leases := (if st = SL_OK then add_mset (the out') (hc_leases c) else hc_leases c)\<rparr>)"
| release: "l \<in># hc_leases c \<Longrightarrow>
    handle_step c (c\<lparr>hc_leases := hc_leases c - {#l#},
      hc_threads := hc_threads c @ [lease_release_work (Some l)]\<rparr>)"
| close: "\<lbrakk> lock_free (hc_world c); close_locked h k (hc_world c) = (st, w', work) \<rbrakk> \<Longrightarrow>
    handle_step c (c\<lparr>hc_world := w', hc_threads := hc_threads c @ [work]\<rparr>)"
| work: "\<lbrakk> i < length (hc_threads c); hc_threads c ! i = x # xs;
      exec_work x (hc_world c) = (w', follow) \<rbrakk> \<Longrightarrow>
    handle_step c (c\<lparr>hc_world := w', hc_threads := (hc_threads c)[i := follow @ xs]\<rparr>)"
| prepare: "\<lbrakk> lock_free (hc_world c);
      sl_handle_table_prepare_clone (hc_world c) = (st, w') \<rbrakk> \<Longrightarrow>
    handle_step c (c\<lparr>hc_world := w'\<rparr>)"
| complete: "\<lbrakk> hw_table (hc_world c) = Some t; ht_locked t \<rbrakk> \<Longrightarrow>
    handle_step c (c\<lparr>hc_world := sl_handle_table_complete_clone (hc_world c)\<rparr>)"
| destroy: "\<lbrakk> hw_table (hc_world c) = Some t; \<not> ht_locked t; \<not> ht_destroying t;
      destroy_locked (hc_world c) = (w', work) \<rbrakk> \<Longrightarrow>
    handle_step c (c\<lparr>hc_world := w', hc_threads := hc_threads c @ [work]\<rparr>)"

inductive handle_reachable :: "handle_cfg \<Rightarrow> bool" where
  start: "handle_reachable initial_cfg"
| step: "handle_reachable c \<Longrightarrow> handle_step c c' \<Longrightarrow> handle_reachable c'"

section \<open>The counting invariants\<close>

definition slot_list :: "handle_world \<Rightarrow> sl_handle_slot list" where
  "slot_list w = (case hw_table w of None \<Rightarrow> [] | Some t \<Rightarrow> ht_slots t)"

definition slot_refs :: "handle_world \<Rightarrow> rec_id \<Rightarrow> nat" where
  "slot_refs w r = count (mset (map hs_record (slot_list w))) (Some r)"

definition lease_refs :: "sl_handle_lease multiset \<Rightarrow> rec_id \<Rightarrow> nat" where
  "lease_refs L r = count (image_mset hl_internal L) (Some r)"

definition record_refs :: "handle_world \<Rightarrow> rec_id \<Rightarrow> nat" where
  "record_refs w r = (case hw_records w r of None \<Rightarrow> 0 | Some rcd \<Rightarrow> unat (hr_references rcd))"

definition ref_inv :: "handle_world \<Rightarrow> sl_handle_lease multiset \<Rightarrow> handle_work multiset \<Rightarrow> bool" where
  "ref_inv w L P \<longleftrightarrow>
     (\<forall>r. record_refs w r = slot_refs w r + lease_refs L r + count P (Release_Record r)) \<and>
     (\<forall>r rcd. hw_records w r = Some rcd \<longrightarrow> hr_references rcd \<noteq> 0)"

definition own_refs :: "handle_world \<Rightarrow> nat" where
  "own_refs w = (case hw_table w of None \<Rightarrow> 0 | Some t \<Rightarrow> if ht_destroying t then 0 else 1)"

definition activities :: "sl_handle_lease multiset \<Rightarrow> handle_work multiset \<Rightarrow> nat" where
  "activities L P = size L + count P Activity_End"

definition tracker_refs ::
    "handle_world \<Rightarrow> sl_handle_lease multiset \<Rightarrow> handle_work multiset \<Rightarrow> nat" where
  "tracker_refs w L P =
     own_refs w + card (dom (hw_records w)) + count P Tracker_Release + activities L P"

definition tracker_inv ::
    "handle_world \<Rightarrow> sl_handle_lease multiset \<Rightarrow> handle_work multiset \<Rightarrow> bool" where
  "tracker_inv w L P \<longleftrightarrow> finite (dom (hw_records w)) \<and>
     (case hw_tracker w of
        None \<Rightarrow> tracker_refs w L P = 0
      | Some s \<Rightarrow> 0 < tracker_refs w L P \<and> tracker_rep s (tracker_refs w L P) (activities L P))"

definition slot_ok :: "sl_handle_slot \<Rightarrow> bool" where
  "slot_ok s \<longleftrightarrow> (hs_retired s \<longleftrightarrow> hs_generation s = 0) \<and> (hs_retired s \<longrightarrow> hs_record s = None)"

definition table_inv :: "handle_world \<Rightarrow> handle_work multiset \<Rightarrow> bool" where
  "table_inv w P \<longleftrightarrow>
     (case hw_table w of
        None \<Rightarrow> count P Free_Table = 0
      | Some t \<Rightarrow> length (ht_slots t) = SL_HANDLE_TABLE_CAPACITY \<and> list_all slot_ok (ht_slots t) \<and>
          (ht_destroying t \<longrightarrow> (\<forall>s \<in> set (ht_slots t). hs_record s = None)) \<and>
          count P Free_Table = (if ht_destroying t then 1 else 0))"

definition lease_inv :: "handle_world \<Rightarrow> sl_handle_lease multiset \<Rightarrow> bool" where
  "lease_inv w L \<longleftrightarrow> (\<forall>l \<in># L. \<exists>r rcd. hl_internal l = Some r \<and> hw_records w r = Some rcd \<and>
     hl_object l = hr_object rcd)"

definition core_inv ::
    "handle_world \<Rightarrow> sl_handle_lease multiset \<Rightarrow> handle_work multiset \<Rightarrow> bool" where
  "core_inv w L P \<longleftrightarrow>
     \<not> hw_aborted w \<and> ref_inv w L P \<and> tracker_inv w L P \<and> table_inv w P \<and> lease_inv w L"

lemmas inv_defs = core_inv_def ref_inv_def tracker_inv_def table_inv_def lease_inv_def

section \<open>What each locked section does\<close>

lemma first_free_slot_Some:
  "first_free_slot n slots = Some i \<Longrightarrow>
     n \<le> i \<and> i < n + length slots \<and> hs_record (slots ! (i - n)) = None \<and> \<not> hs_retired (slots ! (i - n)) \<and>
     (\<forall>j < i - n. hs_record (slots ! j) \<noteq> None \<or> hs_retired (slots ! j))"
proof (induction n slots rule: first_free_slot.induct)
  case (1 n)
  then show ?case by simp
next
  case (2 n s slots)
  show ?case
  proof (cases "hs_record s = None \<and> \<not> hs_retired s")
    case True
    with "2.prems" show ?thesis by auto
  next
    case False
    with "2.prems" have "first_free_slot (n + 1) slots = Some i" by (auto split: if_splits)
    from "2.IH" [OF False this] have IH: "n + 1 \<le> i" "i < n + 1 + length slots"
      "hs_record (slots ! (i - (n + 1))) = None" "\<not> hs_retired (slots ! (i - (n + 1)))"
      "\<forall>j < i - (n + 1). hs_record (slots ! j) \<noteq> None \<or> hs_retired (slots ! j)" by auto
    then have "i - n = Suc (i - (n + 1))" by simp
    then show ?thesis
      using IH False by (auto simp: nth_Cons split: nat.splits)
  qed
qed

lemma first_free_slot_None:
  "first_free_slot n slots = None \<Longrightarrow> \<forall>s \<in> set slots. hs_record s \<noteq> None \<or> hs_retired s"
  by (induction n slots rule: first_free_slot.induct) (auto split: if_splits)

text \<open>With its invariant, a live table that is not being destroyed has a live tracker.\<close>

lemma live_tracker:
  assumes "core_inv w L P" and "hw_table w = Some t" and "\<not> ht_destroying t"
  obtains s where "hw_tracker w = Some s"
    and "tracker_rep s (tracker_refs w L P) (activities L P)"
  using assms
  by (cases "hw_tracker w") (auto simp: core_inv_def tracker_inv_def tracker_refs_def own_refs_def)

lemma insert_failure:
  assumes inv: "core_inv w L P"
    and ins: "sl_handle_table_insert k obj f out alloc w = (st, out', w')" and "st \<noteq> SL_OK"
  shows "w' = w" and "out' = map_option (\<lambda>_. 0) out"
proof -
  have "hw_tracker w \<noteq> None" if "hw_table w = Some t" "\<not> ht_destroying t" for t
    using live_tracker [OF inv that] by blast
  then show "w' = w" and "out' = map_option (\<lambda>_. 0) out"
    using ins \<open>st \<noteq> SL_OK\<close>
    by (auto simp: sl_handle_table_insert_def Let_def split: option.splits if_splits)
qed

lemma insert_success:
  assumes "sl_handle_table_insert k obj f out alloc w = (SL_OK, out', w')"
  obtains t i s s' r where "hw_table w = Some t" "\<not> ht_destroying t" "alloc = Some r"
    "handle_kind_is_valid k" "obj \<noteq> NULL" "f \<noteq> NULL" "out \<noteq> None"
    "first_free_slot 0 (ht_slots t) = Some i"
    "hw_tracker w = Some s" "tracker_retain s = Some s'"
    "out' = Some (encode_handle i (hs_generation (ht_slots t ! i)))"
    "w' = w\<lparr>hw_tracker := Some s', hw_records := (hw_records w)
             (r \<mapsto> \<lparr>hr_references = 1, hr_kind = k, hr_object = obj, hr_destroy = f\<rparr>),
            hw_table := Some (t\<lparr>ht_slots :=
              (ht_slots t)[i := (ht_slots t ! i)\<lparr>hs_record := Some r\<rparr>]\<rparr>)\<rparr>"
  using assms
  by (auto simp: sl_handle_table_insert_def Let_def split: option.splits if_splits)

lemma lookup_record_Inr:
  assumes "lookup_record t w i g k = Inr (r, rcd)"
  shows "hs_record (ht_slots t ! i) = Some r" "\<not> ht_destroying t" "\<not> hs_retired (ht_slots t ! i)"
    "hs_generation (ht_slots t ! i) = g" "hw_records w r = Some rcd" "hr_kind rcd = k"
  using assms by (auto simp: lookup_record_def Let_def split: option.splits if_splits)

lemma lookup_record_not_ok: "lookup_record t w i g k \<noteq> Inl SL_OK"
  by (auto simp: lookup_record_def Let_def split: option.splits)

text \<open>Below, \<open>lookup_tracker\<close> rules out the branch where a looked-up record has no tracker.\<close>

lemma lookup_tracker:
  assumes "core_inv w L P"
  shows "\<forall>t i g k r rcd. hw_table w = Some t \<longrightarrow> lookup_record t w i g k = Inr (r, rcd) \<longrightarrow>
    hw_tracker w \<noteq> None"
  using live_tracker [OF assms] lookup_record_Inr(2) by (metis option.distinct(1))

lemma acquire_failure:
  assumes inv: "core_inv w L P"
    and acq: "sl_handle_table_acquire h k out w = (st, out', w')" and "st \<noteq> SL_OK"
  shows "w' = w \<and> out' = map_option (\<lambda>_. empty_lease) out"
  using acq \<open>st \<noteq> SL_OK\<close> lookup_tracker [OF inv]
  by (fastforce simp: sl_handle_table_acquire_def Let_def simp del: handle_kind_is_valid.simps
      split: option.splits if_splits sum.splits prod.splits)

lemma acquire_success:
  assumes "sl_handle_table_acquire h k out w = (SL_OK, out', w')"
  obtains t i g r rcd s s' where "hw_table w = Some t" "decode_handle h = Some (i, g)"
    "lookup_record t w i g k = Inr (r, rcd)" "hr_references rcd \<noteq> of_nat UINT32_MAX"
    "hw_tracker w = Some s" "tracker_activity_begin s = Some s'"
    "out' = Some \<lparr>hl_object = hr_object rcd, hl_internal = Some r\<rparr>"
    "w' = w\<lparr>hw_tracker := Some s', hw_records := (hw_records w)
            (r \<mapsto> rcd\<lparr>hr_references := hr_references rcd + 1\<rparr>)\<rparr>"
proof -
  note [simp del] = handle_kind_is_valid.simps
  note D = sl_handle_table_acquire_def Let_def
  obtain t where t: "hw_table w = Some t" using assms by (cases "hw_table w") (simp_all add: D)
  have v: "handle_kind_is_valid k" "\<exists>l. out = Some l" using assms t by (auto simp: D split: if_splits)
  obtain i g where d: "decode_handle h = Some (i, g)"
    using assms t v by (cases "decode_handle h") (auto simp: D)
  obtain r rcd where l: "lookup_record t w i g k = Inr (r, rcd)"
    using assms t v d lookup_record_not_ok [of t w i g k]
    by (cases "lookup_record t w i g k") (auto simp: D)
  obtain s where s: "hw_tracker w = Some s" and n: "hr_references rcd \<noteq> of_nat UINT32_MAX"
    using assms t v d l by (cases "hw_tracker w") (auto simp: D split: if_splits)
  obtain s' where s': "tracker_activity_begin s = Some s'"
    using assms t v d l s n by (cases "tracker_activity_begin s") (auto simp: D)
  show thesis
    using assms t v d l s n s' by (intro that [OF t d l n s s']) (auto simp: D)
qed

lemma close_failure:
  assumes inv: "core_inv w L P"
    and cls: "close_locked h k w = (st, w', work)" and "st \<noteq> SL_OK"
  shows "w' = w \<and> work = []"
  using cls \<open>st \<noteq> SL_OK\<close> lookup_tracker [OF inv]
  by (fastforce simp: close_locked_def simp del: handle_kind_is_valid.simps
      split: option.splits if_splits sum.splits prod.splits)

lemma close_success:
  assumes "close_locked h k w = (SL_OK, w', work)"
  obtains t i g r rcd s s' where "hw_table w = Some t" "decode_handle h = Some (i, g)"
    "lookup_record t w i g k = Inr (r, rcd)"
    "hw_tracker w = Some s" "tracker_activity_begin s = Some s'"
    "w' = w\<lparr>hw_tracker := Some s', hw_table := Some (t\<lparr>ht_slots :=
              (ht_slots t)[i := invalidate_slot (ht_slots t ! i)]\<rparr>)\<rparr>"
    "work = [Release_Record r, Activity_End]"
proof -
  note [simp del] = handle_kind_is_valid.simps
  note D = close_locked_def
  obtain t where t: "hw_table w = Some t" using assms by (cases "hw_table w") (simp_all add: D)
  have v: "handle_kind_is_valid k" using assms t by (auto simp: D split: if_splits)
  obtain i g where d: "decode_handle h = Some (i, g)"
    using assms t v by (cases "decode_handle h") (auto simp: D)
  obtain r rcd where l: "lookup_record t w i g k = Inr (r, rcd)"
    using assms t v d lookup_record_not_ok [of t w i g k]
    by (cases "lookup_record t w i g k") (auto simp: D)
  obtain s where s: "hw_tracker w = Some s"
    using assms t v d l by (cases "hw_tracker w") (auto simp: D)
  obtain s' where s': "tracker_activity_begin s = Some s'"
    using assms t v d l s by (cases "tracker_activity_begin s") (auto simp: D)
  show thesis
    using assms t v d l s s' by (intro that [OF t d l s s']) (auto simp: D)
qed

section \<open>Slots\<close>

lemma invalidate_slot_simps [simp]:
  "hs_record (invalidate_slot s) = None"
  by (simp add: invalidate_slot_def Let_def)

lemma invalidate_slot_ok:
  "slot_ok s \<Longrightarrow> \<not> hs_retired s \<Longrightarrow> slot_ok (invalidate_slot s)"
proof -
  assume ok: "slot_ok s" "\<not> hs_retired s"
  have "hs_generation s = 0xffffffff" if z: "hs_generation s + 1 = 0"
  proof -
    have "hs_generation s = (hs_generation s + 1) - 1" by simp
    then show ?thesis unfolding z by simp
  qed
  then show ?thesis using ok by (auto simp: slot_ok_def invalidate_slot_def Let_def)
qed

lemma clear_slot_ok: "slot_ok s \<Longrightarrow> slot_ok (clear_slot s)"
  unfolding clear_slot_def using invalidate_slot_ok [of s] by (auto simp: slot_ok_def)

lemma clear_slot_record [simp]: "hs_record (clear_slot s) = None"
  by (simp add: clear_slot_def)

lemma count_records_update:
  assumes "i < length slots"
  shows "count (mset (map hs_record (slots[i := s]))) x + (if hs_record (slots ! i) = x then 1 else 0)
    = count (mset (map hs_record slots)) x + (if hs_record s = x then 1 else 0)"
proof -
  have "hs_record (slots ! i) \<in># mset (map hs_record slots)" using assms by auto
  then have "hs_record (slots ! i) = x \<Longrightarrow> 0 < count (mset (map hs_record slots)) x"
    by (simp add: count_greater_zero_iff)
  then show ?thesis
    using assms by (auto simp: map_update mset_update simp del: mset_map)
qed

section \<open>Every step keeps the counting invariants\<close>

lemma ref_invD:
  assumes "ref_inv w L P"
  shows "record_refs w r = slot_refs w r + lease_refs L r + count P (Release_Record r)"
    and "hw_records w r = Some rcd \<Longrightarrow> hr_references rcd \<noteq> 0"
  using assms by (auto simp: ref_inv_def)

lemma slot_refs_update:
  assumes "hw_table w = Some t" and "i < length (ht_slots t)"
    and "hw_table w' = Some t'" and "ht_slots t' = (ht_slots t)[i := s]"
  shows "slot_refs w' r + (if hs_record (ht_slots t ! i) = Some r then 1 else 0)
    = slot_refs w r + (if hs_record s = Some r then 1 else 0)"
  using count_records_update [OF assms(2), of s "Some r"] assms
  by (simp add: slot_refs_def slot_list_def)

lemma table_slots_ok:
  assumes "table_inv w P" and "hw_table w = Some t"
  shows "length (ht_slots t) = SL_HANDLE_TABLE_CAPACITY"
    and "i < SL_HANDLE_TABLE_CAPACITY \<Longrightarrow> slot_ok (ht_slots t ! i)"
  using assms by (auto simp: table_inv_def list_all_length)

lemma insert_core [sl_inv]:
  assumes inv: "core_inv w L P"
    and ins: "sl_handle_table_insert k obj f out (Some r) w = (SL_OK, out', w')"
    and fresh: "hw_records w r = None"
  shows "core_inv w' L P"
proof -
  from ins obtain t i s s' where t: "hw_table w = Some t" "\<not> ht_destroying t"
    and i: "first_free_slot 0 (ht_slots t) = Some i"
    and s: "hw_tracker w = Some s" "tracker_retain s = Some s'"
    and w': "w' = w\<lparr>hw_tracker := Some s', hw_records := (hw_records w)
        (r \<mapsto> \<lparr>hr_references = 1, hr_kind = k, hr_object = obj, hr_destroy = f\<rparr>),
      hw_table := Some (t\<lparr>ht_slots := (ht_slots t)[i := (ht_slots t ! i)\<lparr>hs_record := Some r\<rparr>]\<rparr>)\<rparr>"
    by (elim insert_success) blast
  have free: "i < length (ht_slots t)" "hs_record (ht_slots t ! i) = None"
      "\<not> hs_retired (ht_slots t ! i)"
    using first_free_slot_Some [OF i] by auto
  note I = inv [unfolded core_inv_def]
  have sr: "slot_refs w' q = slot_refs w q + (if q = r then 1 else 0)" for q
    using slot_refs_update [OF t(1) free(1), of w' _ "(ht_slots t ! i)\<lparr>hs_record := Some r\<rparr>" q] free(2)
    by (auto simp: w')
  have "record_refs w r = 0" using fresh by (simp add: record_refs_def)
  then have z: "slot_refs w r = 0" "lease_refs L r = 0" "count P (Release_Record r) = 0"
    using ref_invD(1) [of w L P r] I by auto
  have "ref_inv w' L P"
    unfolding ref_inv_def sr using I z fresh
    by (auto simp: w' record_refs_def ref_inv_def)
  moreover have "tracker_inv w' L P"
  proof -
    have "tracker_refs w' L P = Suc (tracker_refs w L P)"
      using I fresh t by (auto simp: w' tracker_refs_def own_refs_def tracker_inv_def card_insert_if)
    then show ?thesis
      using I s tracker_retain_rep [of s _ _ s'] by (auto simp: tracker_inv_def w')
  qed
  moreover have "table_inv w' P"
    using I t free table_slots_ok(1) [of w P t] table_slots_ok(2) [of w P t i]
    by (auto simp: table_inv_def w' slot_ok_def intro!: list_all_update)
  moreover have "lease_inv w' L"
    using I fresh by (fastforce simp: lease_inv_def w')
  ultimately show ?thesis using I by (simp add: core_inv_def w')
qed

lemma acquire_core [sl_inv]:
  assumes inv: "core_inv w L P"
    and acq: "sl_handle_table_acquire h k out w = (SL_OK, out', w')"
  shows "core_inv w' (add_mset (the out') L) P"
proof -
  from acq obtain t i g r rcd s s' where t: "hw_table w = Some t"
    and l: "lookup_record t w i g k = Inr (r, rcd)" "hr_references rcd \<noteq> of_nat UINT32_MAX"
    and s: "hw_tracker w = Some s" "tracker_activity_begin s = Some s'"
    and out: "out' = Some \<lparr>hl_object = hr_object rcd, hl_internal = Some r\<rparr>"
    and w': "w' = w\<lparr>hw_tracker := Some s', hw_records := (hw_records w)
            (r \<mapsto> rcd\<lparr>hr_references := hr_references rcd + 1\<rparr>)\<rparr>"
    by (elim acquire_success) blast
  note I = inv [unfolded core_inv_def]
  have rec: "hw_records w r = Some rcd" using lookup_record_Inr [OF l(1)] by simp
  have "unat (hr_references rcd) \<noteq> 4294967295" using l(2) by (auto simp: word_unat_eq_iff)
  then have "unat (hr_references rcd) + 1 < 4294967296"
    using unat_u32_lt [of "hr_references rcd"] by linarith
  then have up: "unat (hr_references rcd + 1) = unat (hr_references rcd) + 1"
    by (intro trans [OF unat_add_no_wrap]) auto
  have sr: "slot_refs w' q = slot_refs w q" for q by (simp add: slot_refs_def slot_list_def w')
  have lr: "lease_refs (add_mset (the out') L) q = lease_refs L q + (if q = r then 1 else 0)" for q
    by (simp add: lease_refs_def out)
  have rr: "record_refs w' q = record_refs w q + (if q = r then 1 else 0)" for q
    using rec up by (simp add: record_refs_def w')
  have "hr_references rcd + 1 \<noteq> 0" using up by (metis Suc_eq_plus1 nat.distinct(1) unat_0)
  then have "ref_inv w' (add_mset (the out') L) P"
    unfolding ref_inv_def sr lr rr using I by (auto simp: w' ref_inv_def)
  moreover have "tracker_inv w' (add_mset (the out') L) P"
  proof -
    have "dom (hw_records w') = dom (hw_records w)" using rec by (auto simp: w')
    then have "tracker_refs w' (add_mset (the out') L) P = Suc (tracker_refs w L P)"
      "activities (add_mset (the out') L) P = Suc (activities L P)"
      by (simp_all add: tracker_refs_def own_refs_def activities_def) (simp add: w')
    then show ?thesis
      using I s tracker_activity_begin_rep [of s _ _ s'] \<open>dom _ = _\<close>
      by (auto simp: tracker_inv_def w')
  qed
  moreover have "table_inv w' P" using I by (simp add: table_inv_def w')
  moreover have "lease_inv w' (add_mset (the out') L)"
    using I rec by (fastforce simp: lease_inv_def w' out)
  ultimately show ?thesis using I by (simp add: core_inv_def w')
qed

lemma release_core [sl_inv]:
  assumes inv: "core_inv w L P" and l: "l \<in># L"
  shows "core_inv w (L - {#l#}) (P + mset (lease_release_work (Some l)))"
proof -
  note I = inv [unfolded core_inv_def]
  obtain r where r: "hl_internal l = Some r" using I l by (auto simp: lease_inv_def)
  obtain L' where L: "L = add_mset l L'" using l by (metis insert_DiffM)
  have "ref_inv w L' (P + {#Release_Record r, Activity_End#})"
    using I by (auto simp: ref_inv_def lease_refs_def L r)
  moreover have "tracker_inv w L' (P + {#Release_Record r, Activity_End#})"
    using I by (auto simp: tracker_inv_def tracker_refs_def activities_def L split: option.splits)
  moreover have "table_inv w (P + {#Release_Record r, Activity_End#})"
    using I by (auto simp: table_inv_def split: option.splits)
  ultimately show ?thesis
    using I by (simp add: core_inv_def lease_release_work_def r L lease_inv_def)
qed

lemma close_core [sl_inv]:
  assumes inv: "core_inv w L P" and cls: "close_locked h k w = (SL_OK, w', work)"
  shows "core_inv w' L (P + mset work)"
proof -
  from cls obtain t i g r rcd s s' where t: "hw_table w = Some t" "decode_handle h = Some (i, g)"
    and l: "lookup_record t w i g k = Inr (r, rcd)"
    and s: "hw_tracker w = Some s" "tracker_activity_begin s = Some s'"
    and w': "w' = w\<lparr>hw_tracker := Some s', hw_table := Some (t\<lparr>ht_slots :=
              (ht_slots t)[i := invalidate_slot (ht_slots t ! i)]\<rparr>)\<rparr>"
    and work: "work = [Release_Record r, Activity_End]"
    by (elim close_success) blast
  note I = inv [unfolded core_inv_def] and R = lookup_record_Inr [OF l]
  note tab = table_slots_ok(1) [of w P t] table_slots_ok(2) [of w P t i]
  have i: "i < SL_HANDLE_TABLE_CAPACITY" using t(2) by (rule encode_decode_handle)
  have len: "i < length (ht_slots t)" using i tab I t by simp
  have sr: "slot_refs w' q + (if q = r then 1 else 0) = slot_refs w q" for q
    using slot_refs_update [OF t(1) len, of w' _ "invalidate_slot (ht_slots t ! i)" q] R(1)
    by (auto simp: w')
  have "ref_inv w' L (P + mset work)"
    unfolding ref_inv_def
  proof (intro conjI allI impI)
    fix q show "record_refs w' q =
        slot_refs w' q + lease_refs L q + count (P + mset work) (Release_Record q)"
      using ref_invD(1) [of w L P q] sr [of q] I by (simp add: work record_refs_def w' split: if_splits)
  next
    fix q rc assume "hw_records w' q = Some rc"
    then show "hr_references rc \<noteq> 0" using I by (simp add: ref_inv_def w')
  qed
  moreover have "tracker_inv w' L (P + mset work)"
  proof -
    have "tracker_refs w' L (P + mset work) = Suc (tracker_refs w L P)"
      "activities L (P + mset work) = Suc (activities L P)"
      using t by (simp_all add: tracker_refs_def own_refs_def activities_def work w')
    then show ?thesis
      using I s tracker_activity_begin_rep [of s _ _ s'] by (auto simp: tracker_inv_def w')
  qed
  moreover have "table_inv w' (P + mset work)"
    using I t R i tab invalidate_slot_ok [of "ht_slots t ! i"]
    by (auto simp: table_inv_def w' work intro!: list_all_update)
  moreover have "lease_inv w' L" using I by (simp add: lease_inv_def w')
  ultimately show ?thesis using I by (simp add: core_inv_def w')
qed

lemma release_record_core:
  assumes inv: "core_inv w L (add_mset (Release_Record r) P)"
    and ex: "record_release r w = (w', follow)"
  shows "core_inv w' L (P + mset follow)"
proof -
  note I = inv [unfolded core_inv_def]
  have sum: "record_refs w q = slot_refs w q + lease_refs L q
      + count (add_mset (Release_Record r) P) (Release_Record q)" for q
    using I by (intro ref_invD) simp
  then have "0 < record_refs w r" by (simp add: sum)
  then obtain rcd where rec: "hw_records w r = Some rcd" "0 < unat (hr_references rcd)"
    by (auto simp: record_refs_def split: option.splits)
  show ?thesis
  proof (cases "hr_references rcd = 1")
    case True
    then have ex': "w' = w\<lparr>hw_records := (hw_records w)(r := None)\<rparr>"
      "follow = [Call_Destroy (hr_destroy rcd) (hr_object rcd), Tracker_Release]"
      using ex rec by (auto simp: record_release_def Let_def)
    have zero: "slot_refs w r = 0" "lease_refs L r = 0" "count P (Release_Record r) = 0"
      using sum [of r] rec True by (auto simp: record_refs_def)
    have "ref_inv w' L (P + mset follow)"
      unfolding ref_inv_def
    proof (intro conjI allI impI)
      fix q show "record_refs w' q =
          slot_refs w' q + lease_refs L q + count (P + mset follow) (Release_Record q)"
        using sum [of q] zero
        by (auto simp: ex' record_refs_def slot_refs_def slot_list_def split: if_splits)
    next
      fix q rc assume "hw_records w' q = Some rc"
      then show "hr_references rc \<noteq> 0" using I by (simp add: ref_inv_def ex' split: if_splits)
    qed
    moreover have "tracker_inv w' L (P + mset follow)"
    proof -
      have fin: "finite (dom (hw_records w))" "r \<in> dom (hw_records w)"
        using I rec by (auto simp: tracker_inv_def)
      then have "Suc (card (dom (hw_records w) - {r})) = card (dom (hw_records w))"
        by (rule card_Suc_Diff1)
      then show ?thesis
        using I fin by (auto simp: tracker_inv_def tracker_refs_def activities_def own_refs_def ex'
            split: option.splits)
    qed
    moreover have "table_inv w' (P + mset follow)"
      using I by (auto simp: table_inv_def ex' split: option.splits)
    moreover have "lease_inv w' L"
      unfolding lease_inv_def
    proof
      fix l assume l: "l \<in># L"
      then obtain q rc where q: "hl_internal l = Some q" "hw_records w q = Some rc"
        "hl_object l = hr_object rc" using I by (auto simp: lease_inv_def)
      have "hl_internal l \<in># image_mset hl_internal L" using l by simp
      then have "0 < lease_refs L q" unfolding lease_refs_def q(1) count_greater_zero_iff .
      with zero q show "\<exists>r rcd. hl_internal l = Some r \<and> hw_records w' r = Some rcd \<and>
          hl_object l = hr_object rcd" by (auto simp: ex')
    qed
    ultimately show ?thesis using I by (simp add: core_inv_def ex')
  next
    case False
    then have "unat (hr_references rcd) \<noteq> 1" by (simp add: word_unat_eq_iff)
    then have down: "unat (hr_references rcd - 1) = unat (hr_references rcd) - 1"
      "hr_references rcd - 1 \<noteq> 0" "hr_references rcd \<noteq> 0"
      using rec(2) False by (auto simp: unat_sub_no_wrap word_le_nat_alt)
    then have ex': "follow = []"
      "w' = w\<lparr>hw_records := (hw_records w)(r \<mapsto> rcd\<lparr>hr_references := hr_references rcd - 1\<rparr>)\<rparr>"
      using ex rec False by (auto simp: record_release_def Let_def)
    have "ref_inv w' L (P + mset follow)"
      unfolding ref_inv_def
    proof (intro conjI allI impI)
      fix q show "record_refs w' q =
          slot_refs w' q + lease_refs L q + count (P + mset follow) (Release_Record q)"
        using sum [of q] rec down
        by (auto simp: ex' record_refs_def slot_refs_def slot_list_def split: if_splits)
    next
      fix q rc assume "hw_records w' q = Some rc"
      then show "hr_references rc \<noteq> 0" using I down
        by (auto simp: ref_inv_def ex' split: if_splits)
    qed
    moreover have "dom (hw_records w') = dom (hw_records w)" using rec by (auto simp: ex')
    moreover have "lease_inv w' L"
      using I rec by (fastforce simp: lease_inv_def ex')
    ultimately show ?thesis
      using I by (auto simp: core_inv_def ex' tracker_inv_def tracker_refs_def activities_def
          own_refs_def table_inv_def split: option.splits)
  qed
qed

lemma tracker_release_core:
  assumes inv: "core_inv w L (add_mset Tracker_Release P)"
  shows "core_inv (tracker_release w) L P"
proof -
  note I = inv [unfolded core_inv_def]
  let ?R = "tracker_refs w L (add_mset Tracker_Release P)" and ?A = "activities L P"
  have R: "?R = Suc (tracker_refs w L P)" "activities L (add_mset Tracker_Release P) = ?A"
    by (simp_all add: tracker_refs_def activities_def)
  have le: "?A \<le> tracker_refs w L P" by (simp add: tracker_refs_def)
  obtain s where s: "hw_tracker w = Some s" "tracker_rep s ?R ?A"
    using I R by (cases "hw_tracker w") (auto simp: tracker_inv_def)
  consider "tracker_refs w L P = 0" "tracker_release w = w\<lparr>hw_tracker := None\<rparr>"
    | s' where "0 < tracker_refs w L P" "tracker_release w = w\<lparr>hw_tracker := Some s'\<rparr>"
        "tracker_rep s' (tracker_refs w L P) ?A"
    using tracker_release_rep [OF s(2,1)] R le by force
  then show ?thesis
    using I by cases (auto simp: core_inv_def ref_inv_def record_refs_def slot_refs_def slot_list_def
        tracker_inv_def table_inv_def lease_inv_def tracker_refs_def own_refs_def split: option.splits)
qed

lemma activity_end_core:
  assumes inv: "core_inv w L (add_mset Activity_End P)"
  shows "core_inv (tracker_activity_end w) L P"
proof -
  note I = inv [unfolded core_inv_def]
  let ?R = "tracker_refs w L (add_mset Activity_End P)"
  have R: "?R = Suc (tracker_refs w L P)"
    "activities L (add_mset Activity_End P) = Suc (activities L P)"
    by (simp_all add: tracker_refs_def activities_def)
  have le: "activities L P \<le> tracker_refs w L P" by (simp add: tracker_refs_def)
  obtain s where s: "hw_tracker w = Some s" "tracker_rep s ?R (Suc (activities L P))"
    using I R by (cases "hw_tracker w") (auto simp: tracker_inv_def)
  consider "tracker_refs w L P = 0" "tracker_activity_end w = w\<lparr>hw_tracker := None\<rparr>"
    | s' where "0 < tracker_refs w L P" "tracker_activity_end w = w\<lparr>hw_tracker := Some s'\<rparr>"
        "tracker_rep s' (tracker_refs w L P) (activities L P)"
    using tracker_activity_end_rep [OF s(2,1)] R le by force
  then show ?thesis
    using I by cases (auto simp: core_inv_def ref_inv_def record_refs_def slot_refs_def slot_list_def
        tracker_inv_def table_inv_def lease_inv_def tracker_refs_def own_refs_def split: option.splits)
qed

lemma free_table_core:
  assumes inv: "core_inv w L (add_mset Free_Table P)"
  shows "\<exists>t. hw_table w = Some t \<and> core_inv (w\<lparr>hw_table := None\<rparr>) L P"
proof -
  note I = inv [unfolded core_inv_def]
  obtain t where t: "hw_table w = Some t" "ht_destroying t" "count P Free_Table = 0"
      "\<forall>s \<in> set (ht_slots t). hs_record s = None"
    using I by (auto simp: table_inv_def split: option.splits if_splits)
  have "Some r \<notin># mset (map hs_record (ht_slots t))" for r
    using t(4) by auto
  then have "slot_refs w r = 0" for r
    by (simp only: slot_refs_def slot_list_def t option.case count_eq_zero_iff not_False_eq_True)
  moreover have "own_refs w = 0" using t by (simp add: own_refs_def)
  moreover have "tracker_refs w L (add_mset Free_Table P) = tracker_refs w L P"
    by (simp add: tracker_refs_def activities_def)
  ultimately show ?thesis
    using I t by (auto simp: core_inv_def ref_inv_def record_refs_def slot_refs_def slot_list_def
        tracker_inv_def table_inv_def lease_inv_def tracker_refs_def own_refs_def activities_def
        split: option.splits)
qed

lemma counts_destroyed [simp]:
  "record_refs (w\<lparr>hw_destroyed := d\<rparr>) r = record_refs w r"
  "slot_refs (w\<lparr>hw_destroyed := d\<rparr>) r = slot_refs w r"
  "tracker_refs (w\<lparr>hw_destroyed := d\<rparr>) L P = tracker_refs w L P"
  by (simp_all add: record_refs_def slot_refs_def slot_list_def tracker_refs_def own_refs_def)

lemma core_inv_destroyed [simp]: "core_inv (w\<lparr>hw_destroyed := d\<rparr>) L P = core_inv w L P"
  by (cases "hw_tracker w"; cases "hw_table w") (simp_all add: inv_defs)

lemma core_inv_call_destroy [simp]:
  "core_inv w L (add_mset (Call_Destroy f obj) P) = core_inv w L P"
proof -
  have "tracker_refs w L (add_mset (Call_Destroy f obj) P) = tracker_refs w L P"
    "activities L (add_mset (Call_Destroy f obj) P) = activities L P"
    by (simp_all add: tracker_refs_def activities_def)
  then show ?thesis by (cases "hw_tracker w"; cases "hw_table w") (simp_all add: inv_defs)
qed

lemma work_core [sl_inv]:
  assumes inv: "core_inv w L (add_mset x P)" and ex: "exec_work x w = (w', follow)"
  shows "core_inv w' L (P + mset follow)"
proof (cases x)
  case (Release_Record r)
  then show ?thesis using release_record_core inv ex by simp
next
  case (Call_Destroy f obj)
  then show ?thesis using inv ex by auto
next
  case Tracker_Release
  then show ?thesis using inv ex tracker_release_core by auto
next
  case Activity_End
  then show ?thesis using inv ex activity_end_core by auto
next
  case Free_Table
  then show ?thesis using inv ex free_table_core [of w L P] by (auto split: option.splits)
qed

lemma core_inv_locked:
  assumes "hw_table w = Some t"
  shows "core_inv (w\<lparr>hw_table := Some (t\<lparr>ht_locked := b\<rparr>)\<rparr>) L P = core_inv w L P"
proof -
  let ?w = "w\<lparr>hw_table := Some (t\<lparr>ht_locked := b\<rparr>)\<rparr>"
  have "record_refs ?w r = record_refs w r" "slot_refs ?w r = slot_refs w r"
    "tracker_refs ?w L P = tracker_refs w L P" for r
    using assms by (simp_all add: record_refs_def slot_refs_def slot_list_def tracker_refs_def own_refs_def)
  then show ?thesis using assms by (cases "hw_tracker w") (simp_all add: inv_defs)
qed

lemma prepare_core [sl_inv]:
  assumes inv: "core_inv w L P" and pre: "sl_handle_table_prepare_clone w = (st, w')"
  shows "core_inv w' L P"
proof -
  have "hw_tracker w \<noteq> None" if "hw_table w = Some t" "\<not> ht_destroying t" for t
    using live_tracker [OF inv that] by blast
  then show ?thesis
    using pre inv
    by (auto simp: sl_handle_table_prepare_clone_def core_inv_locked split: option.splits if_splits)
qed

lemma complete_core [sl_inv]:
  "core_inv w L P \<Longrightarrow> hw_table w = Some t \<Longrightarrow>
     core_inv (sl_handle_table_complete_clone w) L P"
  by (simp add: sl_handle_table_complete_clone_def core_inv_locked)

lemma count_release_records:
  "count (mset (map Release_Record (List.map_filter hs_record slots))) (Release_Record r)
    = count (mset (map hs_record slots)) (Some r)"
  by (induction slots) (auto simp: List.map_filter_def split: option.splits)

lemma destroy_core [sl_inv]:
  assumes inv: "core_inv w L P" and t: "hw_table w = Some t" "\<not> ht_destroying t"
    and des: "destroy_locked w = (w', work)"
  shows "core_inv w' L (P + mset work)"
proof -
  note I = inv [unfolded core_inv_def]
  let ?rel = "map Release_Record (List.map_filter hs_record (ht_slots t))"
  have w': "w' = w\<lparr>hw_table := Some (t\<lparr>ht_destroying := True,
      ht_slots := map clear_slot (ht_slots t)\<rparr>)\<rparr>"
    and work: "work = ?rel @ [Free_Table, Tracker_Release]"
    using des t by (auto simp: destroy_locked_def)
  have other: "count (mset ?rel) x = 0" if "\<forall>r. x \<noteq> Release_Record r" for x
    using that by (auto simp: count_eq_zero_iff simp del: mset_map)
  have "slot_refs w' r = 0" for r
    by (auto simp: slot_refs_def slot_list_def w' count_eq_zero_iff simp del: mset_map)
  moreover have "count (mset work) (Release_Record r) = slot_refs w r" for r
    using count_release_records [of "ht_slots t" r]
    by (simp add: work slot_refs_def slot_list_def t del: mset_map)
  ultimately have "ref_inv w' L (P + mset work)"
    using I by (simp add: ref_inv_def record_refs_def w')
  moreover have "tracker_inv w' L (P + mset work)"
  proof -
    have "activities L (P + mset work) = activities L P"
      using other [of Activity_End] by (simp add: activities_def work del: mset_map)
    moreover have "tracker_refs w' L (P + mset work) = tracker_refs w L P"
      using other [of Tracker_Release] t calculation
      by (simp add: tracker_refs_def own_refs_def w' work del: mset_map)
    ultimately show ?thesis using I by (cases "hw_tracker w") (simp_all add: tracker_inv_def w')
  qed
  moreover have "table_inv w' (P + mset work)"
    using I t other [of Free_Table]
    by (auto simp: table_inv_def w' work list_all_iff clear_slot_ok simp del: mset_map)
  moreover have "lease_inv w' L" using I by (simp add: lease_inv_def w')
  ultimately show ?thesis using I by (simp add: core_inv_def w')
qed

section \<open>Reachable configurations\<close>

definition cfg_inv :: "handle_cfg \<Rightarrow> bool" where
  "cfg_inv c = core_inv (hc_world c) (hc_leases c) (mset (concat (hc_threads c)))"

lemma initial_cfg_inv: "cfg_inv initial_cfg"
proof -
  have "Some r \<notin># mset (map hs_record (replicate n initial_slot))" for r n
    by (auto simp: initial_slot_def)
  then have "slot_refs initial_world r = 0" for r
    by (simp only: slot_refs_def slot_list_def initial_world_def handle_world.simps option.case
        initial_table_def sl_handle_table.simps count_eq_zero_iff not_False_eq_True)
  then show ?thesis
    using tracker_rep_initial
    by (simp add: cfg_inv_def initial_cfg_def core_inv_def ref_inv_def record_refs_def lease_refs_def
        tracker_inv_def tracker_refs_def own_refs_def activities_def table_inv_def lease_inv_def
        initial_world_def initial_table_def list_all_iff slot_ok_def initial_slot_def)
qed

lemma pending_work:
  assumes "i < length ts" and "ts ! i = x # xs"
  obtains P where "mset (concat ts) = add_mset x P"
    and "mset (concat (ts[i := follow @ xs])) = P + mset follow"
proof -
  have eq: "mset (concat (ts[i := follow @ xs])) + mset (x # xs) = mset (concat ts) + mset (follow @ xs)"
    using mset_concat_update [OF assms(1), of "follow @ xs"] assms(2) by simp
  have "x \<in># mset (concat ts)" using assms by (metis in_set_conv_nth list.set_intros(1) set_concat
        set_mset_mset UN_I)
  then obtain P where P: "mset (concat ts) = add_mset x P" by (metis insert_DiffM)
  with eq have "mset (concat (ts[i := follow @ xs])) = P + mset follow" by simp
  with P show thesis by (rule that)
qed

lemma handle_step_inv: "handle_step c c' \<Longrightarrow> cfg_inv c \<Longrightarrow> cfg_inv c'"
proof (induction rule: handle_step.induct)
  case (insert c alloc k obj f out st out' w')
  show ?case
  proof (cases "st = SL_OK")
    case True
    with insert obtain r where "alloc = Some r" by (auto elim: insert_success)
    with insert True show ?thesis by (auto simp: cfg_inv_def intro: insert_core)
  next
    case False
    with insert insert_failure(1) show ?thesis by (fastforce simp: cfg_inv_def)
  qed
next
  case (acquire c h k out st out' w')
  then show ?case using acquire_core acquire_failure by (cases "st = SL_OK") (fastforce simp: cfg_inv_def)+
next
  case (release l c)
  then show ?case using release_core by (simp add: cfg_inv_def)
next
  case (close c h k st w' work)
  then show ?case using close_core close_failure by (cases "st = SL_OK") (fastforce simp: cfg_inv_def)+
next
  case (work i c x xs w' follow)
  obtain P where "mset (concat (hc_threads c)) = add_mset x P"
    and "mset (concat ((hc_threads c)[i := follow @ xs])) = P + mset follow"
    using pending_work [OF work(1,2)] by blast
  then show ?case using work work_core by (simp add: cfg_inv_def)
next
  case (prepare c st w')
  then show ?case using prepare_core by (simp add: cfg_inv_def)
next
  case (complete c t)
  then show ?case using complete_core by (simp add: cfg_inv_def)
next
  case (destroy c t w' work)
  then show ?case using destroy_core by (simp add: cfg_inv_def)
qed

lemma reachable_cfg_inv: "handle_reachable c \<Longrightarrow> cfg_inv c"
  by (induction rule: handle_reachable.induct) (auto intro: initial_cfg_inv handle_step_inv)

section \<open>Object ownership\<close>

fun destroy_call :: "handle_work \<Rightarrow> (destroy_fn \<times> ptr) multiset" where
  "destroy_call (Call_Destroy f obj) = {#(f, obj)#}"
| "destroy_call _ = {#}"

definition destroy_calls :: "handle_work multiset \<Rightarrow> (destroy_fn \<times> ptr) multiset" where
  "destroy_calls P = (\<Sum>x\<in>#P. destroy_call x)"

lemma destroy_calls_simps [simp]:
  "destroy_calls {#} = {#}"
  "destroy_calls (add_mset x P) = destroy_call x + destroy_calls P"
  "destroy_calls (P + Q) = destroy_calls P + destroy_calls Q"
  by (simp_all add: destroy_calls_def)

definition record_object :: "sl_handle_record option \<Rightarrow> destroy_fn \<times> ptr" where
  "record_object x = (case x of None \<Rightarrow> (NULL, NULL) | Some rcd \<Rightarrow> (hr_destroy rcd, hr_object rcd))"

definition live_objects :: "(rec_id \<Rightarrow> sl_handle_record option) \<Rightarrow> (destroy_fn \<times> ptr) multiset" where
  "live_objects recs = image_mset (\<lambda>r. record_object (recs r)) (mset_set (dom recs))"

lemma live_objects_other:
  "r \<notin> A \<Longrightarrow> image_mset (\<lambda>q. record_object ((recs(r := x)) q)) (mset_set A)
    = image_mset (\<lambda>q. record_object (recs q)) (mset_set A)"
  by (cases "finite A") (auto intro!: image_mset_cong)

lemma live_objects_new:
  assumes "finite (dom recs)" and "recs r = None"
  shows "live_objects (recs(r \<mapsto> rcd)) = add_mset (hr_destroy rcd, hr_object rcd) (live_objects recs)"
proof -
  have d: "dom (recs(r \<mapsto> rcd)) = insert r (dom recs)" "r \<notin> dom recs" using assms(2) by auto
  then show ?thesis
    using assms(1) live_objects_other [of r "dom recs" recs "Some rcd"]
    by (simp add: live_objects_def record_object_def)
qed

lemma live_objects_remove:
  assumes "finite (dom recs)" and "recs r = Some rcd"
  shows "live_objects recs = add_mset (hr_destroy rcd, hr_object rcd) (live_objects (recs(r := None)))"
proof -
  have "recs = (recs(r := None))(r \<mapsto> rcd)" using assms(2) by auto
  then show ?thesis using live_objects_new [of "recs(r := None)" r rcd] assms(1) by simp
qed

lemma live_objects_update:
  assumes "finite (dom recs)" and "recs r = Some rcd"
    and "hr_destroy rcd' = hr_destroy rcd" and "hr_object rcd' = hr_object rcd"
  shows "live_objects (recs(r \<mapsto> rcd')) = live_objects recs"
  using live_objects_remove [OF assms(1,2)] live_objects_new [of "recs(r := None)" r rcd'] assms
  by simp

definition object_inv :: "handle_cfg \<Rightarrow> bool" where
  "object_inv c \<longleftrightarrow> hc_inserted c = live_objects (hw_records (hc_world c))
     + destroy_calls (mset (concat (hc_threads c))) + mset (hw_destroyed (hc_world c))"

lemma exec_work_objects:
  assumes inv: "core_inv w L (add_mset x P)" and ex: "exec_work x w = (w', follow)"
  shows "live_objects (hw_records w) + destroy_calls (add_mset x P) + mset (hw_destroyed w)
    = live_objects (hw_records w') + destroy_calls (P + mset follow) + mset (hw_destroyed w')"
proof (cases x)
  case (Release_Record r)
  note I = inv [unfolded core_inv_def]
  have fin: "finite (dom (hw_records w))" using I by (simp add: tracker_inv_def)
  have "0 < record_refs w r" using I ref_invD(1) [of w L "add_mset x P" r] Release_Record by simp
  then obtain rcd where rec: "hw_records w r = Some rcd" "hr_references rcd \<noteq> 0"
    by (auto simp: record_refs_def unat_gt_0 split: option.splits)
  then show ?thesis
    using ex Release_Record live_objects_remove [OF fin rec(1)]
      live_objects_update [OF fin rec(1), of "rcd\<lparr>hr_references := hr_references rcd - 1\<rparr>"]
    by (auto simp: record_release_def Let_def split: if_splits)
next
  case Tracker_Release
  then have "w' = tracker_release w" "follow = []" using ex by auto
  then show ?thesis
    by (auto simp: Tracker_Release tracker_release_def tracker_drop_def Let_def split: option.splits)
next
  case Activity_End
  then have "w' = tracker_activity_end w" "follow = []" using ex by auto
  then show ?thesis
    by (auto simp: Activity_End tracker_activity_end_def tracker_drop_def Let_def split: option.splits)
qed (use ex in \<open>auto split: option.splits\<close>)

lemma no_destroy_calls:
  "destroy_calls (mset (map Release_Record rs)) = {#}"
  "destroy_calls (mset (lease_release_work l)) = {#}"
  by (induction rs) (auto simp: lease_release_work_def split: option.splits)

lemma handle_step_object_inv: "handle_step c c' \<Longrightarrow> cfg_inv c \<Longrightarrow> object_inv c \<Longrightarrow> object_inv c'"
proof (induction rule: handle_step.induct)
  case (insert c alloc k obj f out st out' w')
  have fin: "finite (dom (hw_records (hc_world c)))"
    using insert.prems by (simp add: cfg_inv_def core_inv_def tracker_inv_def)
  show ?case
  proof (cases "st = SL_OK")
    case True
    with insert obtain r where "alloc = Some r" "hw_records (hc_world c) r = None"
      "hw_records w' = (hw_records (hc_world c))
        (r \<mapsto> \<lparr>hr_references = 1, hr_kind = k, hr_object = obj, hr_destroy = f\<rparr>)"
      "hw_destroyed w' = hw_destroyed (hc_world c)"
      by (auto elim: insert_success)
    then show ?thesis using insert.prems True live_objects_new [OF fin]
      by (simp add: object_inv_def)
  next
    case False
    with insert insert_failure(1) show ?thesis by (fastforce simp: cfg_inv_def object_inv_def)
  qed
next
  case (acquire c h k out st out' w')
  have fin: "finite (dom (hw_records (hc_world c)))"
    using acquire.prems by (simp add: cfg_inv_def core_inv_def tracker_inv_def)
  show ?case
  proof (cases "st = SL_OK")
    case True
    with acquire obtain r rcd where "hw_records (hc_world c) r = Some rcd"
      "hw_records w' = (hw_records (hc_world c))(r \<mapsto> rcd\<lparr>hr_references := hr_references rcd + 1\<rparr>)"
      "hw_destroyed w' = hw_destroyed (hc_world c)"
      by (auto elim!: acquire_success dest: lookup_record_Inr)
    then show ?thesis
      using acquire.prems True live_objects_update [OF fin] by (simp add: object_inv_def)
  next
    case False
    with acquire acquire_failure show ?thesis by (fastforce simp: cfg_inv_def object_inv_def)
  qed
next
  case (release l c)
  then show ?case by (simp add: object_inv_def no_destroy_calls)
next
  case (close c h k st w' work)
  then show ?case
    using close_failure [of "hc_world c" _ _ h k st w' work]
    by (cases "st = SL_OK") (auto simp: cfg_inv_def object_inv_def elim!: close_success)
next
  case (work i c x xs w' follow)
  obtain P where "mset (concat (hc_threads c)) = add_mset x P"
    and "mset (concat ((hc_threads c)[i := follow @ xs])) = P + mset follow"
    using pending_work [OF work(1,2)] by blast
  then show ?case
    using work exec_work_objects [of "hc_world c" "hc_leases c" x P w' follow]
    by (simp add: cfg_inv_def object_inv_def)
next
  case (prepare c st w')
  then show ?case
    by (auto simp: sl_handle_table_prepare_clone_def object_inv_def split: option.splits if_splits)
next
  case (complete c t)
  then show ?case by (simp add: sl_handle_table_complete_clone_def object_inv_def)
next
  case (destroy c t w' work)
  then show ?case
    by (auto simp: destroy_locked_def object_inv_def no_destroy_calls simp del: mset_map)
qed

lemma reachable_object_inv: "handle_reachable c \<Longrightarrow> object_inv c"
proof (induction rule: handle_reachable.induct)
  case start
  show ?case by (simp add: object_inv_def initial_cfg_def initial_world_def live_objects_def)
next
  case (step c c')
  then show ?case using handle_step_object_inv reachable_cfg_inv by blast
qed

section \<open>Generations: a closed handle stays dead\<close>

definition slot_le :: "sl_handle_slot \<Rightarrow> sl_handle_slot \<Rightarrow> bool" where
  "slot_le s s' \<longleftrightarrow> (hs_retired s \<longrightarrow> hs_retired s') \<and>
     (\<not> hs_retired s' \<longrightarrow> hs_generation s \<le> hs_generation s') \<and>
     (\<not> hs_retired s' \<longrightarrow> hs_generation s = hs_generation s' \<longrightarrow> hs_record s \<noteq> None \<longrightarrow>
        hs_record s' \<noteq> None)"

definition slots_le :: "handle_world \<Rightarrow> handle_world \<Rightarrow> bool" where
  "slots_le w w' \<longleftrightarrow> (\<forall>t'. hw_table w' = Some t' \<longrightarrow> (\<exists>t. hw_table w = Some t \<and>
     (\<forall>i < SL_HANDLE_TABLE_CAPACITY. slot_le (ht_slots t ! i) (ht_slots t' ! i))))"

lemma slot_le_refl [simp]: "slot_le s s"
  by (simp add: slot_le_def)

lemma slots_le_same: "hw_table w' = hw_table w \<Longrightarrow> slots_le w w'"
  by (simp add: slots_le_def)

lemma slot_le_invalidate: "\<not> hs_retired s \<Longrightarrow> slot_le s (invalidate_slot s)"
proof -
  have "hs_generation s \<le> hs_generation s + 1 \<and> hs_generation s \<noteq> hs_generation s + 1"
    if "hs_generation s \<noteq> of_nat UINT32_MAX"
  proof -
    have "unat (hs_generation s) \<noteq> 4294967295" using that by (auto simp: word_unat_eq_iff)
    then have "unat (hs_generation s) + 1 < 4294967296"
      using unat_u32_lt [of "hs_generation s"] by linarith
    then have "unat (hs_generation s + 1) = unat (hs_generation s) + 1"
      by (intro trans [OF unat_add_no_wrap]) auto
    then show ?thesis by (simp add: word_le_nat_alt word_unat_eq_iff)
  qed
  then show "slot_le s (invalidate_slot s)"
    by (auto simp: slot_le_def invalidate_slot_def Let_def)
qed

lemma slot_le_clear: "slot_ok s \<Longrightarrow> slot_le s (clear_slot s)"
  using slot_le_invalidate [of s] by (auto simp: clear_slot_def slot_ok_def)

lemma slots_le_update:
  assumes "hw_table w = Some t" and "length (ht_slots t) = SL_HANDLE_TABLE_CAPACITY"
    and "hw_table w' = Some t'" and "ht_slots t' = (ht_slots t)[i := s]"
    and "slot_le (ht_slots t ! i) s"
  shows "slots_le w w'"
  using assms by (auto simp: slots_le_def nth_update_cases)

lemma step_slots_le:
  assumes "handle_step c c'" and "cfg_inv c"
  shows "slots_le (hc_world c) (hc_world c')"
  using assms
proof (induction rule: handle_step.induct)
  case (insert c alloc k obj f out st out' w')
  have tab: "\<And>t. hw_table (hc_world c) = Some t \<Longrightarrow>
      length (ht_slots t) = SL_HANDLE_TABLE_CAPACITY"
    using insert.prems by (auto simp: cfg_inv_def core_inv_def table_inv_def)
  show ?case
  proof (cases "st = SL_OK")
    case True
    with insert obtain t i r where t: "hw_table (hc_world c) = Some t"
      "first_free_slot 0 (ht_slots t) = Some i" "hw_table w' = Some (t\<lparr>ht_slots :=
        (ht_slots t)[i := (ht_slots t ! i)\<lparr>hs_record := Some r\<rparr>]\<rparr>)"
      by (auto elim!: insert_success)
    then show ?thesis
      using slots_le_update [OF t(1) tab [OF t(1)], of w' _ i] by (auto simp: slot_le_def)
  next
    case False
    with insert insert_failure(1) show ?thesis by (fastforce simp: cfg_inv_def intro: slots_le_same)
  qed
next
  case (acquire c h k out st out' w')
  then show ?case
    using acquire_failure [of "hc_world c" _ _ h k out st out' w']
    by (cases "st = SL_OK") (auto simp: cfg_inv_def intro!: slots_le_same elim!: acquire_success)
next
  case (close c h k st w' work)
  have tab: "\<And>t. hw_table (hc_world c) = Some t \<Longrightarrow>
      length (ht_slots t) = SL_HANDLE_TABLE_CAPACITY"
    using close.prems by (auto simp: cfg_inv_def core_inv_def table_inv_def)
  show ?case
  proof (cases "st = SL_OK")
    case True
    with close obtain t i g r rcd where t: "hw_table (hc_world c) = Some t"
      "lookup_record t (hc_world c) i g k = Inr (r, rcd)" "hw_table w' = Some (t\<lparr>ht_slots :=
        (ht_slots t)[i := invalidate_slot (ht_slots t ! i)]\<rparr>)"
      by (auto elim!: close_success)
    then show ?thesis
      using slots_le_update [OF t(1) tab [OF t(1)], of w' _ i "invalidate_slot (ht_slots t ! i)"]
        slot_le_invalidate lookup_record_Inr(3) [OF t(2)] by auto
  next
    case False
    with close close_failure show ?thesis by (fastforce simp: cfg_inv_def intro: slots_le_same)
  qed
next
  case (work i c x xs w' follow)
  have "hw_table w' = hw_table (hc_world c) \<or> hw_table w' = None"
    using work(3) by (cases x) (auto simp: record_release_def tracker_release_def
        tracker_activity_end_def tracker_drop_def Let_def split: option.splits if_splits)
  then show ?case by (auto simp: slots_le_def)
next
  case (destroy c t w' work)
  then have ok: "\<And>i. i < SL_HANDLE_TABLE_CAPACITY \<Longrightarrow> slot_ok (ht_slots t ! i)"
    "length (ht_slots t) = SL_HANDLE_TABLE_CAPACITY"
    by (auto simp: cfg_inv_def core_inv_def table_inv_def list_all_length)
  show ?case
    using destroy(1,4) ok by (auto simp: destroy_locked_def slots_le_def slot_le_clear)
next
  case (prepare c st w')
  then show ?case
    by (auto simp: sl_handle_table_prepare_clone_def slots_le_def split: option.splits if_splits)
next
  case (complete c t)
  then show ?case by (simp add: sl_handle_table_complete_clone_def slots_le_def)
next
  case (release l c)
  then show ?case by (simp add: slots_le_same)
qed

text \<open>
  A handle is live when its slot holds a record of the handle's generation; it is spent when the
  slot has moved past that generation or is retired, or when the table is gone.
\<close>

definition handle_live :: "handle_world \<Rightarrow> sl_handle \<Rightarrow> bool" where
  "handle_live w h \<longleftrightarrow> (\<exists>i g t. decode_handle h = Some (i, g) \<and> hw_table w = Some t \<and>
     \<not> hs_retired (ht_slots t ! i) \<and> hs_generation (ht_slots t ! i) = g \<and>
     hs_record (ht_slots t ! i) \<noteq> None)"

definition handle_spent :: "handle_world \<Rightarrow> sl_handle \<Rightarrow> bool" where
  "handle_spent w h \<longleftrightarrow> (\<exists>i g. decode_handle h = Some (i, g) \<and> (\<forall>t. hw_table w = Some t \<longrightarrow>
     hs_retired (ht_slots t ! i) \<or> g < hs_generation (ht_slots t ! i)))"

lemma spent_not_live: "handle_spent w h \<Longrightarrow> \<not> handle_live w h"
  by (auto simp: handle_spent_def handle_live_def)

lemma spent_mono: "handle_spent w h \<Longrightarrow> slots_le w w' \<Longrightarrow> handle_spent w' h"
proof -
  assume sp: "handle_spent w h" and le: "slots_le w w'"
  then obtain i g where d: "decode_handle h = Some (i, g)"
    and s: "\<And>t. hw_table w = Some t \<Longrightarrow>
      hs_retired (ht_slots t ! i) \<or> g < hs_generation (ht_slots t ! i)"
    by (auto simp: handle_spent_def)
  have i: "i < SL_HANDLE_TABLE_CAPACITY" using d by (rule encode_decode_handle)
  have "hs_retired (ht_slots t' ! i) \<or> g < hs_generation (ht_slots t' ! i)"
    if t': "hw_table w' = Some t'" for t'
  proof -
    obtain t where t: "hw_table w = Some t" and sl: "slot_le (ht_slots t ! i) (ht_slots t' ! i)"
      using le t' i unfolding slots_le_def by blast
    show ?thesis using s [OF t] sl unfolding slot_le_def by (metis order_less_le_trans)
  qed
  with d show "handle_spent w' h" by (auto simp: handle_spent_def)
qed

lemma live_mono: "handle_live w h \<Longrightarrow> slots_le w w' \<Longrightarrow> handle_live w' h \<or> handle_spent w' h"
proof -
  assume lv: "handle_live w h" and le: "slots_le w w'"
  then obtain i g t where d: "decode_handle h = Some (i, g)" and t: "hw_table w = Some t"
    "hs_generation (ht_slots t ! i) = g" "hs_record (ht_slots t ! i) \<noteq> None"
    by (auto simp: handle_live_def)
  have i: "i < SL_HANDLE_TABLE_CAPACITY" using d by (rule encode_decode_handle)
  show "handle_live w' h \<or> handle_spent w' h"
  proof (cases "hw_table w'")
    case None
    then show ?thesis using d by (simp add: handle_spent_def)
  next
    case (Some t')
    then have sl: "slot_le (ht_slots t ! i) (ht_slots t' ! i)"
      using le t i by (auto simp: slots_le_def)
    consider "hs_retired (ht_slots t' ! i) \<or> g < hs_generation (ht_slots t' ! i)"
      | "\<not> hs_retired (ht_slots t' ! i)" "hs_generation (ht_slots t' ! i) = g"
        "hs_record (ht_slots t' ! i) \<noteq> None"
      using sl t(2,3) unfolding slot_le_def by (metis order_le_less)
    then show ?thesis
      using d Some by cases (simp_all add: handle_live_def handle_spent_def)
  qed
qed

definition issued_inv :: "handle_cfg \<Rightarrow> bool" where
  "issued_inv c \<longleftrightarrow> (\<forall>h \<in> hc_issued c. handle_live (hc_world c) h \<or> handle_spent (hc_world c) h)"

lemma insert_fresh_handle:
  assumes inv: "core_inv w L P"
    and ins: "sl_handle_table_insert k obj f out alloc w = (SL_OK, Some h, w')"
  shows "\<not> handle_live w h" and "\<not> handle_spent w h" and "handle_live w' h"
proof -
  from ins obtain t i r where t: "hw_table w = Some t"
    and i: "first_free_slot 0 (ht_slots t) = Some i"
    and h: "h = encode_handle i (hs_generation (ht_slots t ! i))"
    and w': "hw_table w' = Some (t\<lparr>ht_slots :=
        (ht_slots t)[i := (ht_slots t ! i)\<lparr>hs_record := Some r\<rparr>]\<rparr>)"
    by (auto elim!: insert_success)
  note ok = table_slots_ok [OF _ t, of P]
  have T: "table_inv w P" using inv by (simp add: core_inv_def)
  have free: "i < SL_HANDLE_TABLE_CAPACITY" "hs_record (ht_slots t ! i) = None"
      "\<not> hs_retired (ht_slots t ! i)"
    using first_free_slot_Some [OF i] ok(1) [OF T] by auto
  then have "hs_generation (ht_slots t ! i) \<noteq> 0"
    using ok(2) [OF T free(1)] by (simp add: slot_ok_def)
  then have d: "decode_handle h = Some (i, hs_generation (ht_slots t ! i))"
    using free h by simp
  show "\<not> handle_live w h" "\<not> handle_spent w h" "handle_live w' h"
    using d t free w' ok(1) [OF T] by (auto simp: handle_live_def handle_spent_def)
qed

lemma step_issued_inv:
  assumes step: "handle_step c c'" and inv: "cfg_inv c" "issued_inv c"
  shows "issued_inv c'"
proof -
  have keep: "handle_live (hc_world c') h \<or> handle_spent (hc_world c') h"
    if "h \<in> hc_issued c" for h
    using that inv(2) live_mono [OF _ step_slots_le [OF step inv(1)], of h]
      spent_mono [OF _ step_slots_le [OF step inv(1)], of h]
    unfolding issued_inv_def by blast
  from step show ?thesis
  proof cases
    case (insert alloc k obj f out st out' w')
    show ?thesis
    proof (cases "st = SL_OK")
      case True
      then obtain h where h: "out' = Some h" using insert(4) by (auto elim: insert_success)
      then have "handle_live w' h"
        using insert(4) True insert_fresh_handle(3) inv(1) by (auto simp: cfg_inv_def)
      then show ?thesis using keep h True by (auto simp: issued_inv_def insert(1))
    next
      case False
      then show ?thesis using keep by (simp add: issued_inv_def insert(1))
    qed
  qed (use keep in \<open>auto simp: issued_inv_def\<close>)
qed

lemma reachable_issued_inv: "handle_reachable c \<Longrightarrow> issued_inv c"
proof (induction rule: handle_reachable.induct)
  case start
  show ?case by (simp add: issued_inv_def initial_cfg_def)
next
  case (step c c')
  then show ?case using step_issued_inv reachable_cfg_inv by blast
qed

section \<open>Quiescence\<close>

definition live_table :: "handle_world \<Rightarrow> bool" where
  "live_table w = (case hw_table w of None \<Rightarrow> False | Some t \<Rightarrow> \<not> ht_destroying t)"

text \<open>While the table is live, every unfinished thread still owes an activity end.\<close>

definition shape_inv :: "handle_cfg \<Rightarrow> bool" where
  "shape_inv c \<longleftrightarrow> (live_table (hc_world c) \<longrightarrow>
     (\<forall>ts \<in> set (hc_threads c). ts = [] \<or> last ts = Activity_End))"

lemma exec_work_table:
  "exec_work x w = (w', follow) \<Longrightarrow> hw_table w' = hw_table w \<or> hw_table w' = None"
  by (cases x) (auto simp: record_release_def tracker_release_def
        tracker_activity_end_def tracker_drop_def Let_def split: option.splits if_splits)

lemma exec_work_follow:
  "exec_work x w = (w', follow) \<Longrightarrow> follow \<noteq> [] \<Longrightarrow> \<exists>r. x = Release_Record r"
  by (cases x) (auto split: option.splits)

lemma step_shape_inv:
  assumes step: "handle_step c c'" and inv: "cfg_inv c" "shape_inv c"
  shows "shape_inv c'"
  using step
proof cases
  case (insert alloc k obj f out st out' w')
  have "live_table w' \<Longrightarrow> live_table (hc_world c)"
    using insert(4) inv(1) insert_failure(1) [of "hc_world c" _ _ k obj f out alloc st out' w']
    by (cases "st = SL_OK") (auto simp: cfg_inv_def live_table_def elim!: insert_success)
  then show ?thesis using inv(2) by (simp add: shape_inv_def insert(1))
next
  case (acquire h k out st out' w')
  have "live_table w' \<Longrightarrow> live_table (hc_world c)"
    using acquire(3) inv(1) acquire_failure [of "hc_world c" _ _ h k out st out' w']
    by (cases "st = SL_OK") (auto simp: cfg_inv_def live_table_def elim!: acquire_success)
  then show ?thesis using inv(2) by (simp add: shape_inv_def acquire(1))
next
  case (release l)
  then show ?thesis using inv(2)
    by (auto simp: shape_inv_def lease_release_work_def split: option.splits)
next
  case (close h k st w' work)
  have "work = [] \<or> last work = Activity_End" and "live_table w' \<Longrightarrow> live_table (hc_world c)"
    using close(3) inv(1) close_failure [of "hc_world c" _ _ h k st w' work]
    by (cases "st = SL_OK"; auto simp: cfg_inv_def live_table_def elim!: close_success)+
  then show ?thesis using inv(2) by (auto simp: shape_inv_def close(1))
next
  case (work i x xs w' follow)
  show ?thesis
    unfolding shape_inv_def work(1)
  proof (intro impI ballI)
    fix ts
    assume live: "live_table (hc_world (c\<lparr>hc_world := w', hc_threads := (hc_threads c)[i := follow @ xs]\<rparr>))"
      and ts: "ts \<in> set (hc_threads (c\<lparr>hc_world := w', hc_threads := (hc_threads c)[i := follow @ xs]\<rparr>))"
    have "hw_table w' = hw_table (hc_world c)"
      using live exec_work_table [OF work(4)] by (cases "hw_table w'") (auto simp: live_table_def)
    then have "live_table (hc_world c)" using live by (simp add: live_table_def)
    then have ok: "ts = [] \<or> last ts = Activity_End" if "ts \<in> set (hc_threads c)" for ts
      using that inv(2) by (auto simp: shape_inv_def)
    have last: "last (x # xs) = Activity_End" using ok [of "x # xs"] work(2,3) by (metis list.distinct(1) nth_mem)
    have "follow @ xs = [] \<or> last (follow @ xs) = Activity_End"
      using last exec_work_follow [OF work(4)] by (cases "xs = []") auto
    with ts ok show "ts = [] \<or> last ts = Activity_End"
      using set_update_subset_insert [of "hc_threads c" i "follow @ xs"] by auto
  qed
next
  case (prepare st w')
  then have "live_table w' = live_table (hc_world c)"
    by (auto simp: sl_handle_table_prepare_clone_def live_table_def split: option.splits if_splits)
  then show ?thesis using inv(2) by (simp add: shape_inv_def prepare(1))
next
  case (complete t)
  then show ?thesis using inv(2)
    by (simp add: shape_inv_def sl_handle_table_complete_clone_def live_table_def)
next
  case (destroy t w' work)
  then have "\<not> live_table w'" by (auto simp: destroy_locked_def live_table_def)
  then show ?thesis by (simp add: shape_inv_def destroy(1))
qed

lemma reachable_shape_inv: "handle_reachable c \<Longrightarrow> shape_inv c"
proof (induction rule: handle_reachable.induct)
  case start
  show ?case by (simp add: shape_inv_def initial_cfg_def)
next
  case (step c c')
  then show ?case using step_shape_inv reachable_cfg_inv by blast
qed

section \<open>The abstract store of handles\<close>

text \<open>
  What the callers of the table rely on: an abstract map from handles to (kind, object), the
  operations that change it, and the laws those keep.
\<close>

locale handle_store =
  fixes inv :: "'w \<Rightarrow> bool"
    and entry :: "'w \<Rightarrow> 'h \<Rightarrow> ('k \<times> 'o) option"
    and ins :: "'w \<Rightarrow> 'k \<Rightarrow> 'o \<Rightarrow> 'h \<Rightarrow> 'w \<Rightarrow> bool"
    and acq :: "'w \<Rightarrow> 'h \<Rightarrow> 'k \<Rightarrow> 'o \<Rightarrow> 'w \<Rightarrow> bool"
    and rel :: "'w \<Rightarrow> 'w \<Rightarrow> bool"
    and del :: "'w \<Rightarrow> 'h \<Rightarrow> 'k \<Rightarrow> 'w \<Rightarrow> bool"
  assumes ins_inv: "inv w \<Longrightarrow> ins w k obj h w' \<Longrightarrow> inv w'"
    and acq_inv: "inv w \<Longrightarrow> acq w h k obj w' \<Longrightarrow> inv w'"
    and rel_inv: "inv w \<Longrightarrow> rel w w' \<Longrightarrow> inv w'"
    and rel_entry: "inv w \<Longrightarrow> rel w w' \<Longrightarrow> entry w' = entry w"
    and del_inv: "inv w \<Longrightarrow> del w h k w' \<Longrightarrow> inv w'"
    and ins_new: "inv w \<Longrightarrow> ins w k obj h w' \<Longrightarrow> entry w h = None"
    and ins_entry: "inv w \<Longrightarrow> ins w k obj h w' \<Longrightarrow> entry w' = (entry w)(h \<mapsto> (k, obj))"
    and acq_old: "inv w \<Longrightarrow> acq w h k obj w' \<Longrightarrow> entry w h = Some (k, obj)"
    and acq_entry: "inv w \<Longrightarrow> acq w h k obj w' \<Longrightarrow> entry w' = entry w"
    and del_old: "inv w \<Longrightarrow> del w h k w' \<Longrightarrow> \<exists>obj. entry w h = Some (k, obj)"
    and del_entry: "inv w \<Longrightarrow> del w h k w' \<Longrightarrow> entry w' = (entry w)(h := None)"
begin

lemma acquire_inserted:
  assumes "inv w" and "ins w k obj h w'" and "acq w' h k2 obj2 w''"
  shows "k2 = k \<and> obj2 = obj"
  using acq_old [OF ins_inv [OF assms(1,2)] assms(3)] ins_entry [OF assms(1,2)] by simp

lemma insert_keeps_others:
  assumes "inv w" and "ins w k obj h w'" and "entry w h2 \<noteq> None"
  shows "h2 \<noteq> h \<and> entry w' h2 = entry w h2"
  using ins_new [OF assms(1,2)] ins_entry [OF assms(1,2)] assms(3) by auto

lemma lease_transparent:
  assumes "inv w" and "acq w h k obj w'" and "rel w' w''"
  shows "inv w'' \<and> entry w'' = entry w"
  using acq_inv [OF assms(1,2)] acq_entry [OF assms(1,2)] rel_inv rel_entry assms(3) by metis

lemma closed_not_acquired:
  assumes "inv w" and "del w h k w'"
  shows "\<not> acq w' h k2 obj w''"
  using acq_old [OF del_inv [OF assms]] del_entry [OF assms] by (metis fun_upd_same option.distinct(1))

lemma no_double_close:
  assumes "inv w" and "del w h k w'"
  shows "\<not> del w' h k2 w''"
  using del_old [OF del_inv [OF assms]] del_entry [OF assms] by (metis fun_upd_same option.distinct(1))

lemma close_keeps_others:
  assumes "inv w" and "del w h k w'" and "h2 \<noteq> h"
  shows "entry w' h2 = entry w h2"
  using del_entry [OF assms(1,2)] assms(3) by simp

lemma insert_then_close:
  assumes "inv w" and "ins w k obj h w'" and "del w' h k2 w''"
  shows "k2 = k \<and> entry w'' = entry w"
proof -
  note w' = ins_inv [OF assms(1,2)]
  have "k2 = k" using del_old [OF w' assms(3)] ins_entry [OF assms(1,2)] by simp
  moreover have "entry w'' = entry w"
    using del_entry [OF w' assms(3)] ins_entry [OF assms(1,2)] ins_new [OF assms(1,2)] by auto
  ultimately show ?thesis by simp
qed

end


section \<open>The table implements the store\<close>

definition handle_entry :: "handle_world \<Rightarrow> sl_handle \<Rightarrow> (sl_handle_kind \<times> ptr) option" where
  "handle_entry w h =
     (case decode_handle h of
        None \<Rightarrow> None
      | Some (i, g) \<Rightarrow> (case hw_table w of
          None \<Rightarrow> None
        | Some t \<Rightarrow>
            if ht_destroying t \<or> hs_retired (ht_slots t ! i) \<or> hs_generation (ht_slots t ! i) \<noteq> g
            then None
            else (case hs_record (ht_slots t ! i) of
                    None \<Rightarrow> None
                  | Some r \<Rightarrow> map_option (\<lambda>rcd. (hr_kind rcd, hr_object rcd)) (hw_records w r))))"

type_synonym handle_session = "handle_world \<times> sl_handle_lease multiset"

definition seq_inv :: "handle_session \<Rightarrow> bool" where
  "seq_inv W = core_inv (fst W) (snd W) {#}"

definition seq_entry :: "handle_session \<Rightarrow> sl_handle \<Rightarrow> (sl_handle_kind \<times> ptr) option" where
  "seq_entry W = handle_entry (fst W)"

definition seq_insert ::
    "handle_session \<Rightarrow> sl_handle_kind \<Rightarrow> ptr \<Rightarrow> sl_handle \<Rightarrow> handle_session \<Rightarrow> bool" where
  "seq_insert W k obj h W' \<longleftrightarrow> snd W' = snd W \<and> (\<exists>f out r. hw_records (fst W) r = None \<and>
     sl_handle_table_insert k obj f (Some out) (Some r) (fst W) = (SL_OK, Some h, fst W'))"

definition seq_acquire ::
    "handle_session \<Rightarrow> sl_handle \<Rightarrow> sl_handle_kind \<Rightarrow> ptr \<Rightarrow> handle_session \<Rightarrow> bool" where
  "seq_acquire W h k obj W' \<longleftrightarrow> (\<exists>out l.
     sl_handle_table_acquire h k (Some out) (fst W) = (SL_OK, Some l, fst W') \<and>
     hl_object l = obj \<and> snd W' = add_mset l (snd W))"

definition seq_release :: "handle_session \<Rightarrow> handle_session \<Rightarrow> bool" where
  "seq_release W W' \<longleftrightarrow> (\<exists>l \<in># snd W. snd W' = snd W - {#l#} \<and>
     fst W' = snd (sl_handle_lease_release (Some l) (fst W)))"

definition seq_close ::
    "handle_session \<Rightarrow> sl_handle \<Rightarrow> sl_handle_kind \<Rightarrow> handle_session \<Rightarrow> bool" where
  "seq_close W h k W' \<longleftrightarrow> snd W' = snd W \<and> sl_handle_table_close h k (fst W) = (SL_OK, fst W')"

lemmas seq_defs = seq_inv_def seq_entry_def seq_insert_def seq_acquire_def seq_release_def seq_close_def

lemma drain_core:
  "core_inv w L (mset xs + P) \<Longrightarrow> core_inv (drain xs w) L P"
proof (induction xs w arbitrary: P rule: drain.induct)
  case (2 x xs w)
  obtain w' follow where ex: "exec_work x w = (w', follow)" by (cases "exec_work x w")
  have "core_inv w L (add_mset x (mset xs + P))" using "2.prems" by simp
  from work_core [OF this ex] have "core_inv w' L (mset (follow @ xs) + P)"
    by (simp add: ac_simps)
  then show ?case using "2.IH" ex by simp
qed simp

lemma slot_refs_zero:
  assumes "slot_refs w r = 0" and "hw_table w = Some t" and "i < length (ht_slots t)"
  shows "hs_record (ht_slots t ! i) \<noteq> Some r"
proof
  assume "hs_record (ht_slots t ! i) = Some r"
  then have "Some r \<in># mset (map hs_record (ht_slots t))" using assms(3) by (force simp: in_set_conv_nth)
  then have "0 < slot_refs w r"
    unfolding slot_refs_def slot_list_def assms(2) option.case count_greater_zero_iff .
  with assms(1) show False by simp
qed

lemma handle_entry_cong:
  "hw_table w' = hw_table w \<Longrightarrow> hw_records w' = hw_records w \<Longrightarrow> handle_entry w' = handle_entry w"
  by (rule ext) (simp only: handle_entry_def)

lemma exec_work_entry:
  assumes inv: "core_inv w L (add_mset x P)" and ex: "exec_work x w = (w', follow)"
    and "x \<noteq> Free_Table"
  shows "handle_entry w' = handle_entry w"
proof (cases x)
  case (Release_Record r)
  note I = inv [unfolded core_inv_def]
  have sum: "record_refs w r = slot_refs w r + lease_refs L r + Suc (count P (Release_Record r))"
    using I ref_invD(1) [of w L "add_mset x P" r] Release_Record by simp
  then obtain rcd where rec: "hw_records w r = Some rcd"
    by (auto simp: record_refs_def split: option.splits)
  show ?thesis
  proof (cases "hr_references rcd = 1")
    case True
    then have "slot_refs w r = 0" using sum rec by (simp add: record_refs_def)
    then have gone: "\<forall>t i. hw_table w = Some t \<longrightarrow> i < SL_HANDLE_TABLE_CAPACITY \<longrightarrow>
        hs_record (ht_slots t ! i) \<noteq> Some r"
      using slot_refs_zero table_slots_ok(1) [of w "add_mset x P"] I by auto
    have "w' = w\<lparr>hw_records := (hw_records w)(r := None)\<rparr>"
      using ex rec True Release_Record by (simp add: record_release_def Let_def)
    then show ?thesis
      using gone by (auto simp: handle_entry_def fun_eq_iff
          dest: encode_decode_handle(2) split: option.split)
  next
    case False
    then show ?thesis
      using ex rec Release_Record
      by (auto simp: record_release_def Let_def handle_entry_def fun_eq_iff split: option.split if_splits)
  qed
next
  case Tracker_Release
  then have "w' = tracker_release w" using ex by auto
  then have "hw_table w' = hw_table w" "hw_records w' = hw_records w"
    by (simp_all add: tracker_release_def tracker_drop_def Let_def split: option.split)
  then show ?thesis by (rule handle_entry_cong)
next
  case Activity_End
  then have "w' = tracker_activity_end w" using ex by auto
  then have "hw_table w' = hw_table w" "hw_records w' = hw_records w"
    by (simp_all add: tracker_activity_end_def tracker_drop_def Let_def split: option.split)
  then show ?thesis by (rule handle_entry_cong)
qed (use assms in \<open>auto intro!: handle_entry_cong\<close>)

lemma drain_entry:
  "core_inv w L (mset xs + P) \<Longrightarrow> Free_Table \<notin> set xs \<Longrightarrow>
     handle_entry (drain xs w) = handle_entry w"
proof (induction xs w arbitrary: P rule: drain.induct)
  case (2 x xs w)
  obtain w' follow where ex: "exec_work x w = (w', follow)" by (cases "exec_work x w")
  have inv: "core_inv w L (add_mset x (mset xs + P))" using "2.prems" by simp
  from work_core [OF this ex] have "core_inv w' L (mset (follow @ xs) + P)"
    by (simp add: ac_simps)
  moreover have "Free_Table \<notin> set (follow @ xs)"
    using "2.prems"(2) ex by (cases x) (auto simp: record_release_def Let_def split: option.splits if_splits)
  ultimately have "handle_entry (drain (follow @ xs) w') = handle_entry w'"
    using "2.IH" ex by metis
  moreover have "x \<noteq> Free_Table" using "2.prems"(2) by auto
  ultimately show ?case using ex exec_work_entry [OF inv ex] by simp
qed simp


lemma lookup_entry:
  assumes "core_inv w L P" and "hw_table w = Some t" and "decode_handle h = Some (i, g)"
    and "lookup_record t w i g k = Inr (r, rcd)"
  shows "handle_entry w h = Some (k, hr_object rcd)"
  using assms(2,3) lookup_record_Inr [OF assms(4)] by (simp add: handle_entry_def)

text \<open>Two handles of the same slot and generation are the same token.\<close>

lemma decode_handle_inj:
  "decode_handle h = Some (i, g) \<Longrightarrow> decode_handle h' = Some (i, g) \<Longrightarrow> h' = h"
  using encode_decode_handle(1) by metis

lemma insert_entry:
  assumes inv: "core_inv w L P" and fresh: "hw_records w r = None"
    and ins: "sl_handle_table_insert k obj f out (Some r) w = (SL_OK, Some h, w')"
  shows "handle_entry w h = None" and "handle_entry w' = (handle_entry w)(h \<mapsto> (k, obj))"
proof -
  from ins obtain t i s' where t: "hw_table w = Some t" "\<not> ht_destroying t"
    and i: "first_free_slot 0 (ht_slots t) = Some i"
    and h: "h = encode_handle i (hs_generation (ht_slots t ! i))"
    and w': "w' = w\<lparr>hw_tracker := Some s', hw_records := (hw_records w)
             (r \<mapsto> \<lparr>hr_references = 1, hr_kind = k, hr_object = obj, hr_destroy = f\<rparr>),
            hw_table := Some (t\<lparr>ht_slots :=
              (ht_slots t)[i := (ht_slots t ! i)\<lparr>hs_record := Some r\<rparr>]\<rparr>)\<rparr>"
    by (auto elim!: insert_success)
  have T: "table_inv w P" using inv by (simp add: core_inv_def)
  note len = table_slots_ok(1) [OF T t(1)]
  have free: "i < SL_HANDLE_TABLE_CAPACITY" "hs_record (ht_slots t ! i) = None"
      "\<not> hs_retired (ht_slots t ! i)"
    using first_free_slot_Some [OF i] len by auto
  then have "hs_generation (ht_slots t ! i) \<noteq> 0"
    using table_slots_ok(2) [OF T t(1) free(1)] by (simp add: slot_ok_def)
  then have d: "decode_handle h = Some (i, hs_generation (ht_slots t ! i))"
    using free h by simp
  show "handle_entry w h = None" using d t free by (simp add: handle_entry_def)
  have no_r: "hs_record (ht_slots t ! j) \<noteq> Some r" if "j < SL_HANDLE_TABLE_CAPACITY" for j
  proof (rule slot_refs_zero [OF _ t(1)])
    show "slot_refs w r = 0"
      using ref_invD(1) [of w L P r] inv fresh by (simp add: core_inv_def record_refs_def)
  qed (use that len in simp)
  show "handle_entry w' = (handle_entry w)(h \<mapsto> (k, obj))"
  proof (rule ext)
    fix h2
    show "handle_entry w' h2 = ((handle_entry w)(h \<mapsto> (k, obj))) h2"
    proof (cases "decode_handle h2")
      case None
      then show ?thesis using d by (auto simp: handle_entry_def)
    next
      case (Some p)
      then obtain j g where d2: "decode_handle h2 = Some (j, g)" by (cases p) auto
      note j = encode_decode_handle(2) [OF d2]
      show ?thesis
      proof (cases "j = i")
        case True
        then show ?thesis
          using d d2 t free len decode_handle_inj [OF d2, of h]
          by (auto simp: handle_entry_def w')
      next
        case False
        then show ?thesis
          using d d2 t free len j no_r [OF j] by (auto simp: handle_entry_def w' split: option.split)
      qed
    qed
  qed
qed

lemma acquire_entry:
  assumes inv: "core_inv w L P"
    and acq: "sl_handle_table_acquire h k out w = (SL_OK, Some l, w')"
  shows "handle_entry w h = Some (k, hl_object l)" and "handle_entry w' = handle_entry w"
proof -
  from acq obtain t i g r rcd s' where t: "hw_table w = Some t" "decode_handle h = Some (i, g)"
    "lookup_record t w i g k = Inr (r, rcd)" and l: "hl_object l = hr_object rcd"
    and w': "w' = w\<lparr>hw_tracker := Some s', hw_records := (hw_records w)
            (r \<mapsto> rcd\<lparr>hr_references := hr_references rcd + 1\<rparr>)\<rparr>"
    by (auto elim!: acquire_success)
  show "handle_entry w h = Some (k, hl_object l)"
    using lookup_entry [OF inv t] l by simp
  show "handle_entry w' = handle_entry w"
    using lookup_record_Inr [OF t(3)]
    by (auto simp: handle_entry_def w' fun_eq_iff split: option.split)
qed

lemma close_locked_entry:
  assumes inv: "core_inv w L P" and cls: "close_locked h k w = (SL_OK, w', work)"
  shows "\<exists>obj. handle_entry w h = Some (k, obj)" and "handle_entry w' = (handle_entry w)(h := None)"
    and "Free_Table \<notin> set work"
proof -
  from cls obtain t i g r rcd s' where t: "hw_table w = Some t" "decode_handle h = Some (i, g)"
    "lookup_record t w i g k = Inr (r, rcd)"
    and w': "w' = w\<lparr>hw_tracker := Some s', hw_table := Some (t\<lparr>ht_slots :=
              (ht_slots t)[i := invalidate_slot (ht_slots t ! i)]\<rparr>)\<rparr>"
    and work: "work = [Release_Record r, Activity_End]"
    by (auto elim!: close_success)
  show "\<exists>obj. handle_entry w h = Some (k, obj)" using lookup_entry [OF inv t] by simp
  show "Free_Table \<notin> set work" by (simp add: work)
  have T: "table_inv w P" using inv by (simp add: core_inv_def)
  note len = table_slots_ok(1) [OF T t(1)] and R = lookup_record_Inr [OF t(3)]
  show "handle_entry w' = (handle_entry w)(h := None)"
  proof (rule ext)
    fix h2
    show "handle_entry w' h2 = ((handle_entry w)(h := None)) h2"
    proof (cases "decode_handle h2")
      case None
      then show ?thesis by (auto simp: handle_entry_def)
    next
      case (Some p)
      then obtain j g' where d2: "decode_handle h2 = Some (j, g')" by (cases p) auto
      note j = encode_decode_handle(2) [OF d2]
      show ?thesis
        using t d2 R len j decode_handle_inj [OF d2, of h]
        by (cases "j = i") (auto simp: handle_entry_def w' split: option.split)
    qed
  qed
qed

lemma close_entry:
  assumes inv: "core_inv w L {#}" and cls: "sl_handle_table_close h k w = (SL_OK, w')"
  shows "core_inv w' L {#}" and "\<exists>obj. handle_entry w h = Some (k, obj)"
    and "handle_entry w' = (handle_entry w)(h := None)"
proof -
  obtain w1 work where c: "close_locked h k w = (SL_OK, w1, work)" and w': "w' = drain work w1"
    using cls by (auto simp: sl_handle_table_close_def split: prod.splits)
  have c1: "core_inv w1 L (mset work + {#})" using close_core [OF inv c] by simp
  show "core_inv w' L {#}" unfolding w' by (rule drain_core [OF c1])
  note e = close_locked_entry [OF inv c]
  show "\<exists>obj. handle_entry w h = Some (k, obj)" by (rule e)
  show "handle_entry w' = (handle_entry w)(h := None)"
    unfolding w' drain_entry [OF c1 e(3)] by (rule e)
qed

lemma release_entry:
  assumes inv: "core_inv w L {#}" and l: "l \<in># L"
  shows "core_inv (snd (sl_handle_lease_release (Some l) w)) (L - {#l#}) {#}"
    and "handle_entry (snd (sl_handle_lease_release (Some l) w)) = handle_entry w"
proof -
  have c1: "core_inv w (L - {#l#}) (mset (lease_release_work (Some l)) + {#})"
    using release_core [OF inv l] by simp
  show "core_inv (snd (sl_handle_lease_release (Some l) w)) (L - {#l#}) {#}"
    using drain_core [OF c1] by (simp add: sl_handle_lease_release_def)
  show "handle_entry (snd (sl_handle_lease_release (Some l) w)) = handle_entry w"
    using drain_entry [OF c1]
    by (simp add: sl_handle_lease_release_def lease_release_work_def split: option.split)
qed

interpretation table_store: handle_store seq_inv seq_entry seq_insert seq_acquire seq_release seq_close
proof (unfold_locales, goal_cases)
  case (1 w k obj h w')
  then show ?case using insert_core by (auto simp: seq_defs)
next
  case (2 w h k obj w')
  then show ?case using acquire_core by (fastforce simp: seq_defs)
next
  case (3 w w')
  then show ?case using release_entry(1) by (auto simp: seq_defs)
next
  case (4 w w')
  then show ?case using release_entry(2) by (auto simp: seq_defs)
next
  case (5 w h k w')
  then show ?case using close_entry(1) by (auto simp: seq_defs)
next
  case (6 w k obj h w')
  then show ?case using insert_entry(1) by (auto simp: seq_defs)
next
  case (7 w k obj h w')
  then show ?case using insert_entry(2) by (auto simp: seq_defs)
next
  case (8 w h k obj w')
  then show ?case using acquire_entry(1) by (auto simp: seq_defs)
next
  case (9 w h k obj w')
  then show ?case using acquire_entry(2) by (auto simp: seq_defs)
next
  case (10 w h k w')
  then show ?case using close_entry(2) by (auto simp: seq_defs)
next
  case (11 w h k w')
  then show ?case using close_entry(3) by (auto simp: seq_defs)
qed

end
