(* ===== verification/Handle_Properties.thy ===== *)
theory Handle_Properties
  imports Handle_Machine
begin

text \<open>
  The properties of the handle table, and a concrete run of it on which they are instantiated:
  one file object is inserted, acquired, and closed while the lease is still out.
\<close>

section \<open>Running threads to the end\<close>

lemma drain_thread_reachable:
  assumes "handle_reachable c" and "i < length (hc_threads c)"
  shows "handle_reachable (c\<lparr>hc_world := drain (hc_threads c ! i) (hc_world c),
    hc_threads := (hc_threads c)[i := []]\<rparr>)"
  using assms
proof (induction "hc_threads c ! i" "hc_world c" arbitrary: c rule: drain.induct)
  case (1 c)
  then have "c\<lparr>hc_world := drain (hc_threads c ! i) (hc_world c), hc_threads := (hc_threads c)[i := []]\<rparr> = c"
    by (metis drain.simps(1) handle_cfg.surjective handle_cfg.update_convs(1,3) list_update_id)
  with 1 show ?case by simp
next
  case (2 x xs c)
  obtain w' follow where ex: "exec_work x (hc_world c) = (w', follow)"
    by (cases "exec_work x (hc_world c)")
  define c' where "c' = c\<lparr>hc_world := w', hc_threads := (hc_threads c)[i := follow @ xs]\<rparr>"
  have "handle_reachable c'"
    unfolding c'_def using 2(2,3,4) ex by (intro handle_reachable.step [OF 2(3)] handle_step.work) auto
  moreover have "hc_threads c' ! i = follow @ xs" "hc_world c' = w'" "i < length (hc_threads c')"
    using 2(4) by (simp_all add: c'_def)
  ultimately have "handle_reachable (c'\<lparr>hc_world := drain (hc_threads c' ! i) (hc_world c'),
      hc_threads := (hc_threads c')[i := []]\<rparr>)"
    using 2(1) [of c' follow] ex by auto
  moreover have "drain (hc_threads c ! i) (hc_world c) = drain (follow @ xs) w'"
    using ex 2(2) by (metis (no_types, lifting) case_prod_conv drain.simps(2))
  ultimately show ?case
    using 2(4) by (simp add: c'_def)
qed

section \<open>A concrete run\<close>

definition run_object :: ptr where "run_object = 0x1000"
definition run_destroy :: destroy_fn where "run_destroy = 0x2000"

definition run_handle :: sl_handle where "run_handle = 0x534c000000010001"

definition run_lease :: sl_handle_lease where
  "run_lease = \<lparr>hl_object = run_object, hl_internal = Some 0\<rparr>"

definition run_table :: "rec_id option \<Rightarrow> u32 \<Rightarrow> sl_handle_table" where
  "run_table r g = \<lparr>ht_locked = False, ht_destroying = False, ht_slots =
     \<lparr>hs_record = r, hs_generation = g, hs_retired = False\<rparr> # replicate 255 initial_slot\<rparr>"

lemma initial_run_table: "initial_table = run_table None 1"
proof -
  have cap: "SL_HANDLE_TABLE_CAPACITY = Suc 255" by (simp add: SL_HANDLE_TABLE_CAPACITY_def)
  have "replicate SL_HANDLE_TABLE_CAPACITY initial_slot = initial_slot # replicate 255 initial_slot"
    unfolding cap by (rule replicate_Suc)
  then show ?thesis by (simp only: initial_table_def run_table_def initial_slot_def)
qed

lemma run_table_simps:
  "\<not> ht_destroying (run_table r g)"
  "\<not> ht_locked (run_table r g)"
  "ht_slots (run_table r g) ! 0 = \<lparr>hs_record = r, hs_generation = g, hs_retired = False\<rparr>"
  "first_free_slot 0 (ht_slots (run_table None g)) = Some 0"
  "(run_table r g)\<lparr>ht_slots := (ht_slots (run_table r g))[0 :=
     \<lparr>hs_record = r', hs_generation = g', hs_retired = False\<rparr>]\<rparr> = run_table r' g'"
  by (simp_all add: run_table_def)

definition run_world :: "rec_id option \<Rightarrow> u32 \<Rightarrow> u64 \<Rightarrow> sl_handle_record option \<Rightarrow> handle_world" where
  "run_world r g s rcd = \<lparr>hw_table = Some (run_table r g), hw_tracker = Some s,
     hw_records = (\<lambda>_. None)(0 := rcd), hw_destroyed = [], hw_aborted = False\<rparr>"

definition run_record :: "u32 \<Rightarrow> sl_handle_record" where
  "run_record n = \<lparr>hr_references = n, hr_kind = SL_HANDLE_KIND_FILE, hr_object = run_object,
     hr_destroy = run_destroy\<rparr>"

lemma run_token: "encode_handle 0 1 = run_handle" "decode_handle run_handle = Some (0, 1)"
  by (simp_all add: encode_handle_def decode_handle_def handle_consts run_handle_def
      SL_HANDLE_TABLE_CAPACITY_def)

lemma initial_run_world: "initial_world = run_world None 1 1 None"
  by (simp add: initial_world_def run_world_def initial_run_table SL_TRACKER_REFERENCE_ONE_def)

lemmas tracker_eval = tracker_retain_def tracker_activity_begin_def tracker_reference_count_def
  tracker_activity_count_def SL_TRACKER_REFERENCE_ONE_def SL_TRACKER_ACTIVITY_ONE_def
  push_bit_eq_mult drop_bit_eq_div

lemma run_insert:
  "sl_handle_table_insert SL_HANDLE_KIND_FILE run_object run_destroy (Some 0) (Some 0) initial_world
    = (SL_OK, Some run_handle, run_world (Some 0) 1 2 (Some (run_record 1)))"
proof -
  have "run_object \<noteq> NULL" "run_destroy \<noteq> NULL" by (simp_all add: run_object_def run_destroy_def)
  moreover have "tracker_retain 1 = Some 2" by (simp add: tracker_eval)
  ultimately show ?thesis
    unfolding initial_run_world
    by (simp add: sl_handle_table_insert_def run_table_simps run_token run_record_def run_world_def Let_def)
qed

lemma run_lookup:
  "lookup_record (run_table (Some 0) 1) (run_world (Some 0) 1 s (Some (run_record n))) 0 1
     SL_HANDLE_KIND_FILE = Inr (0, run_record n)"
  by (simp add: lookup_record_def run_table_simps run_world_def run_record_def Let_def)

lemma run_acquire:
  "sl_handle_table_acquire run_handle SL_HANDLE_KIND_FILE (Some empty_lease)
     (run_world (Some 0) 1 2 (Some (run_record 1)))
    = (SL_OK, Some run_lease, run_world (Some 0) 1 0x100000003 (Some (run_record 2)))"
proof -
  have "hr_references (run_record 1) \<noteq> of_nat UINT32_MAX" by (simp add: run_record_def)
  moreover have "tracker_activity_begin 2 = Some 0x100000003" by (simp add: tracker_eval)
  moreover have "hw_table (run_world (Some 0) 1 2 (Some (run_record 1))) = Some (run_table (Some 0) 1)"
    "hw_tracker (run_world (Some 0) 1 2 (Some (run_record 1))) = Some 2"
    by (simp_all add: run_world_def)
  ultimately show ?thesis
    by (simp add: sl_handle_table_acquire_def run_token run_lookup Let_def run_lease_def)
       (simp add: run_world_def run_record_def)
qed

lemma run_close:
  "close_locked run_handle SL_HANDLE_KIND_FILE (run_world (Some 0) 1 0x100000003 (Some (run_record 2)))
    = (SL_OK, run_world None 2 0x200000004 (Some (run_record 2)), [Release_Record 0, Activity_End])"
proof -
  have "tracker_activity_begin 0x100000003 = Some 0x200000004" by (simp add: tracker_eval)
  moreover have "hw_table (run_world (Some 0) 1 s (Some (run_record n))) = Some (run_table (Some 0) 1)"
    "hw_tracker (run_world (Some 0) 1 s (Some (run_record n))) = Some s" for s n
    by (simp_all add: run_world_def)
  moreover have "invalidate_slot (ht_slots (run_table (Some 0) 1) ! 0)
      = \<lparr>hs_record = None, hs_generation = 2, hs_retired = False\<rparr>"
    by (simp add: run_table_simps invalidate_slot_def)
  ultimately show ?thesis
    by (simp add: close_locked_def run_token run_lookup run_table_simps)
       (simp add: run_world_def)
qed

text \<open>The configurations of the run, all reachable.\<close>

definition run_cfg1 :: handle_cfg where
  "run_cfg1 = initial_cfg\<lparr>hc_world := run_world (Some 0) 1 2 (Some (run_record 1)),
     hc_inserted := {#(run_destroy, run_object)#}, hc_issued := {run_handle}\<rparr>"

definition run_cfg2 :: handle_cfg where
  "run_cfg2 = run_cfg1\<lparr>hc_world := run_world (Some 0) 1 0x100000003 (Some (run_record 2)),
     hc_leases := {#run_lease#}\<rparr>"

definition run_cfg3 :: handle_cfg where
  "run_cfg3 = run_cfg2\<lparr>hc_world := run_world None 2 0x200000004 (Some (run_record 2)),
     hc_threads := [[Release_Record 0, Activity_End]]\<rparr>"

lemma lock_free_run: "lock_free (run_world r g s rcd)"
  by (simp add: lock_free_def run_world_def run_table_simps)

lemma run_cfg1_step: "handle_step initial_cfg run_cfg1"
proof -
  have "run_cfg1 = initial_cfg\<lparr>hc_world := run_world (Some 0) 1 2 (Some (run_record 1)),
      hc_inserted := (if SL_OK = SL_OK then add_mset (run_destroy, run_object) (hc_inserted initial_cfg)
        else hc_inserted initial_cfg),
      hc_issued := (if SL_OK = SL_OK then insert (the (Some run_handle)) (hc_issued initial_cfg)
        else hc_issued initial_cfg)\<rparr>"
    by (simp add: run_cfg1_def initial_cfg_def)
  moreover have "hc_world initial_cfg = initial_world" by (simp add: initial_cfg_def)
  ultimately show ?thesis
    using handle_step.insert [of initial_cfg "Some 0", OF _ _ run_insert [folded \<open>hc_world initial_cfg = _\<close>]]
    by (simp add: lock_free_run initial_run_world) (simp add: run_world_def)
qed

lemma run_cfg1_reachable: "handle_reachable run_cfg1"
  by (rule handle_reachable.step [OF handle_reachable.start run_cfg1_step])

lemma run_cfg2_step: "handle_step run_cfg1 run_cfg2"
proof -
  have w: "hc_world run_cfg1 = run_world (Some 0) 1 2 (Some (run_record 1))"
    by (simp add: run_cfg1_def)
  have "run_cfg2 = run_cfg1\<lparr>hc_world := run_world (Some 0) 1 0x100000003 (Some (run_record 2)),
      hc_leases := (if SL_OK = SL_OK then add_mset (the (Some run_lease)) (hc_leases run_cfg1)
        else hc_leases run_cfg1)\<rparr>"
    by (simp add: run_cfg1_def run_cfg2_def initial_cfg_def)
  then show ?thesis
    using handle_step.acquire [of run_cfg1, OF _ run_acquire [folded w]] w by (simp add: lock_free_run)
qed

lemma run_cfg2_reachable: "handle_reachable run_cfg2"
  by (rule handle_reachable.step [OF run_cfg1_reachable run_cfg2_step])

lemma run_cfg3_step: "handle_step run_cfg2 run_cfg3"
proof -
  have w: "hc_world run_cfg2 = run_world (Some 0) 1 0x100000003 (Some (run_record 2))"
    by (simp add: run_cfg2_def)
  have "run_cfg3 = run_cfg2\<lparr>hc_world := run_world None 2 0x200000004 (Some (run_record 2)),
      hc_threads := hc_threads run_cfg2 @ [[Release_Record 0, Activity_End]]\<rparr>"
    by (simp add: run_cfg1_def run_cfg2_def run_cfg3_def initial_cfg_def)
  then show ?thesis
    using handle_step.close [of run_cfg2, OF _ run_close [folded w]] w by (simp add: lock_free_run)
qed

lemma run_cfg3_reachable: "handle_reachable run_cfg3"
  by (rule handle_reachable.step [OF run_cfg2_reachable run_cfg3_step])

section \<open>Properties\<close>

text \<open>A handle token decodes to a slot and a generation exactly when it is the encoding of an
  in-range slot and a nonzero generation: encoding and decoding are inverse, and every other
  64-bit value is rejected.\<close>

lemma handle_token_roundtrip:
  "decode_handle h = Some (i, g) \<longleftrightarrow>
     i < SL_HANDLE_TABLE_CAPACITY \<and> g \<noteq> 0 \<and> h = encode_handle i g"
  using encode_decode_handle [of h i g] decode_encode_handle [of i g] by blast

text \<open>C1: in every interleaving of inserts, acquires, closes, lease releases, clone freezes, the
  final destruction and the threads' work outside the lock, no reference count underflows and no
  freed tracker, record or table is touched (the code's abort paths are unreachable), and every
  outstanding lease still has its record, holding the object the lease names.\<close>

theorem leases_keep_objects_alive:
  assumes "handle_reachable c"
  shows "\<not> hw_aborted (hc_world c) \<and> (\<forall>l \<in># hc_leases c. \<exists>r rcd. hl_internal l = Some r \<and>
     hw_records (hc_world c) r = Some rcd \<and> hl_object l = hr_object rcd \<and> 0 < hr_references rcd)"
  using reachable_cfg_inv [OF assms]
  by (fastforce simp: cfg_inv_def core_inv_def lease_inv_def ref_inv_def word_neq_0_conv)

theorem leases_keep_objects_alive_witness:
  "\<not> hw_aborted (hc_world run_cfg2) \<and> (\<exists>r rcd. hl_internal run_lease = Some r \<and>
     hw_records (hc_world run_cfg2) r = Some rcd \<and> hl_object run_lease = hr_object rcd \<and>
     0 < hr_references rcd)"
proof -
  have "run_lease \<in># hc_leases run_cfg2" by (simp add: run_cfg2_def)
  then show ?thesis using leases_keep_objects_alive [OF run_cfg2_reachable] by blast
qed

text \<open>C2: ownership is conserved: every object whose insertion succeeded is held by a live record,
  about to be destroyed, or destroyed, exactly once. Once the table is gone, the leases are
  returned and no work is left, every object was destroyed exactly once, no record is left and
  the tracker is freed.\<close>

theorem objects_destroyed_exactly_once:
  assumes "handle_reachable c"
  shows "hc_inserted c = live_objects (hw_records (hc_world c))
      + destroy_calls (mset (concat (hc_threads c))) + mset (hw_destroyed (hc_world c)) \<and>
    (hw_table (hc_world c) = None \<and> hc_leases c = {#} \<and> concat (hc_threads c) = [] \<longrightarrow>
       mset (hw_destroyed (hc_world c)) = hc_inserted c \<and> hw_tracker (hc_world c) = None \<and>
       (\<forall>r. hw_records (hc_world c) r = None))"
proof (intro conjI impI)
  show eq: "hc_inserted c = live_objects (hw_records (hc_world c))
      + destroy_calls (mset (concat (hc_threads c))) + mset (hw_destroyed (hc_world c))"
    using reachable_object_inv [OF assms] by (simp add: object_inv_def)
  assume fin: "hw_table (hc_world c) = None \<and> hc_leases c = {#} \<and> concat (hc_threads c) = []"
  have core: "core_inv (hc_world c) {#} {#}"
    using reachable_cfg_inv [OF assms] fin by (simp add: cfg_inv_def)
  have none: "hw_records (hc_world c) r = None" for r
  proof (cases "hw_records (hc_world c) r")
    case (Some rcd)
    have "record_refs (hc_world c) r = 0"
      using core fin ref_invD(1) [of "hc_world c" "{#}" "{#}" r]
      by (simp add: core_inv_def slot_refs_def slot_list_def lease_refs_def)
    moreover have "hr_references rcd \<noteq> 0" using core Some by (simp add: core_inv_def ref_inv_def)
    ultimately show ?thesis using Some by (simp add: record_refs_def unat_eq_zero)
  qed simp
  then show "\<forall>r. hw_records (hc_world c) r = None" by simp
  have d: "dom (hw_records (hc_world c)) = {}" using none by auto
  then have "live_objects (hw_records (hc_world c)) = {#}" by (simp add: live_objects_def)
  then show "mset (hw_destroyed (hc_world c)) = hc_inserted c" using eq fin by simp
  have "tracker_refs (hc_world c) {#} {#} = 0"
    using fin d by (simp add: tracker_refs_def own_refs_def activities_def)
  then show "hw_tracker (hc_world c) = None"
    using core by (cases "hw_tracker (hc_world c)") (auto simp: core_inv_def tracker_inv_def)
qed

theorem objects_destroyed_exactly_once_witness:
  "hc_inserted run_cfg3 = live_objects (hw_records (hc_world run_cfg3))
      + destroy_calls (mset (concat (hc_threads run_cfg3))) + mset (hw_destroyed (hc_world run_cfg3)) \<and>
   hc_inserted run_cfg3 = {#(run_destroy, run_object)#}"
  using objects_destroyed_exactly_once [OF run_cfg3_reachable]
  by (simp add: run_cfg3_def run_cfg2_def run_cfg1_def)

text \<open>A handle that an insertion returns was never returned before.\<close>

lemma inserted_handle_fresh:
  assumes "handle_reachable c"
    and "sl_handle_table_insert k obj f out alloc (hc_world c) = (SL_OK, Some h, w')"
  shows "h \<notin> hc_issued c"
  using reachable_issued_inv [OF assms(1)]
    insert_fresh_handle(1,2) [OF reachable_cfg_inv [OF assms(1), unfolded cfg_inv_def] assms(2)]
  unfolding issued_inv_def by blast

text \<open>C3: once a handle has been closed, no continuation of the execution can acquire it again:
  from then on every acquire with a valid kind reports that the handle was not found (or that
  there is no table any more) and changes nothing. Nor is it, or any other handle of the history
  of the table, given out by a later insertion: generations make handles unique although slots are
  reused.\<close>

theorem closed_handle_stays_dead:
  assumes "handle_reachable c" and "lock_free (hc_world c)"
    and "close_locked h k (hc_world c) = (SL_OK, w', work)"
    and "handle_step\<^sup>*\<^sup>* (c\<lparr>hc_world := w', hc_threads := hc_threads c @ [work]\<rparr>) c'"
    and "handle_kind_is_valid k'"
  shows "sl_handle_table_acquire h k' (Some out) (hc_world c') =
    (if hw_table (hc_world c') = None then SL_ERROR_INVALID_ARGUMENT else SL_ERROR_HANDLE_NOT_FOUND,
     Some empty_lease, hc_world c') \<and>
    (\<forall>k2 obj f out2 alloc h2 w2. sl_handle_table_insert k2 obj f out2 alloc (hc_world c') = (SL_OK, Some h2, w2) \<longrightarrow>
       h2 \<notin> hc_issued c')"
proof -
  define c1 where "c1 = c\<lparr>hc_world := w', hc_threads := hc_threads c @ [work]\<rparr>"
  have step: "handle_step c c1" unfolding c1_def by (rule handle_step.close [OF assms(2,3)])
  have reach1: "handle_reachable c1" by (rule handle_reachable.step [OF assms(1) step])
  from assms(3) obtain t i g r rcd where t: "hw_table (hc_world c) = Some t"
    "decode_handle h = Some (i, g)" "lookup_record t (hc_world c) i g k = Inr (r, rcd)"
    "hw_table w' = Some (t\<lparr>ht_slots := (ht_slots t)[i := invalidate_slot (ht_slots t ! i)]\<rparr>)"
    by (auto elim!: close_success)
  have len: "length (ht_slots t) = SL_HANDLE_TABLE_CAPACITY"
    using reachable_cfg_inv [OF assms(1)] t(1) by (auto simp: cfg_inv_def core_inv_def table_inv_def)
  have "hs_retired (invalidate_slot (ht_slots t ! i)) \<or>
      g < hs_generation (invalidate_slot (ht_slots t ! i))"
    using slot_le_invalidate [of "ht_slots t ! i"] lookup_record_Inr [OF t(3)]
    by (auto simp: slot_le_def order_le_less)
  then have spent1: "handle_spent (hc_world c1) h"
    using t(2,4) len encode_decode_handle(2) [OF t(2)] by (simp add: handle_spent_def c1_def)
  have "handle_reachable c' \<and> handle_spent (hc_world c') h"
    using assms(4) unfolding c1_def [symmetric]
  proof (induction rule: rtranclp_induct)
    case base
    show ?case using reach1 spent1 by simp
  next
    case (step y z)
    then show ?case
      using handle_reachable.step spent_mono step_slots_le reachable_cfg_inv by blast
  qed
  then have spent: "handle_spent (hc_world c') h" and fresh: "\<And>k2 obj f out2 alloc h2 w2.
      sl_handle_table_insert k2 obj f out2 alloc (hc_world c') = (SL_OK, Some h2, w2) \<Longrightarrow> h2 \<notin> hc_issued c'"
    using inserted_handle_fresh by blast+
  have "sl_handle_table_acquire h k' (Some out) (hc_world c') =
    (if hw_table (hc_world c') = None then SL_ERROR_INVALID_ARGUMENT else SL_ERROR_HANDLE_NOT_FOUND,
     Some empty_lease, hc_world c')"
  proof (cases "hw_table (hc_world c')")
    case None
    then show ?thesis by (simp add: sl_handle_table_acquire_def)
  next
    case (Some t')
    have "lookup_record t' (hc_world c') i g k' = Inl SL_ERROR_HANDLE_NOT_FOUND"
      using spent t(2) Some by (auto simp: handle_spent_def lookup_record_def Let_def split: option.split)
    then show ?thesis using Some t(2) assms(5) by (simp add: sl_handle_table_acquire_def)
  qed
  then show ?thesis
    using fresh by blast
qed

theorem closed_handle_stays_dead_witness:
  "sl_handle_table_acquire run_handle SL_HANDLE_KIND_FILE (Some empty_lease) (hc_world run_cfg3) =
    (SL_ERROR_HANDLE_NOT_FOUND, Some empty_lease, hc_world run_cfg3)"
proof -
  have w: "hc_world run_cfg2 = run_world (Some 0) 1 0x100000003 (Some (run_record 2))"
    by (simp add: run_cfg2_def)
  have c3: "run_cfg2\<lparr>hc_world := run_world None 2 0x200000004 (Some (run_record 2)),
      hc_threads := hc_threads run_cfg2 @ [[Release_Record 0, Activity_End]]\<rparr> = run_cfg3"
    by (simp add: run_cfg1_def run_cfg2_def run_cfg3_def initial_cfg_def)
  have "hw_table (hc_world run_cfg3) \<noteq> None" by (simp add: run_cfg3_def run_world_def)
  then show ?thesis
    using closed_handle_stays_dead [OF run_cfg2_reachable _ run_close [folded w],
        of run_cfg3 SL_HANDLE_KIND_FILE empty_lease]
    unfolding c3 by (simp add: w lock_free_run)
qed

text \<open>C4: freezing the table for \<open>clone()\<close> succeeds only when it is quiescent: no lease is out, no
  thread has close or destructor work left, and the table is left locked.\<close>

theorem prepare_clone_quiescent:
  assumes "handle_reachable c" and "sl_handle_table_prepare_clone (hc_world c) = (SL_OK, w')"
  shows "hc_leases c = {#} \<and> concat (hc_threads c) = [] \<and> \<not> lock_free w'"
proof -
  note inv = reachable_cfg_inv [OF assms(1), unfolded cfg_inv_def]
  obtain t where t: "hw_table (hc_world c) = Some t" "\<not> ht_destroying t"
    using assms(2) by (auto simp: sl_handle_table_prepare_clone_def split: option.splits if_splits)
  obtain s where s: "hw_tracker (hc_world c) = Some s"
    "tracker_rep s (tracker_refs (hc_world c) (hc_leases c) (mset (concat (hc_threads c))))
       (activities (hc_leases c) (mset (concat (hc_threads c))))"
    using live_tracker [OF inv t] by blast
  have "tracker_activity_count s = 0"
    using assms(2) t s(1) by (auto simp: sl_handle_table_prepare_clone_def split: if_splits)
  then have zero: "activities (hc_leases c) (mset (concat (hc_threads c))) = 0"
    using tracker_rep_counts(2) [OF s(2)] by simp
  have "ts = []" if ts: "ts \<in> set (hc_threads c)" for ts
  proof (rule ccontr)
    assume "ts \<noteq> []"
    then have "last ts = Activity_End"
      using reachable_shape_inv [OF assms(1)] ts t by (auto simp: shape_inv_def live_table_def)
    then have "Activity_End \<in> set (concat (hc_threads c))" using ts \<open>ts \<noteq> []\<close>
      by (metis UN_I last_in_set set_concat)
    with zero show False by (simp add: activities_def count_mset count_list_0_iff)
  qed
  moreover have "\<not> lock_free w'"
    using assms(2) t
    by (auto simp: sl_handle_table_prepare_clone_def lock_free_def split: option.splits if_splits)
  ultimately show ?thesis using zero by (simp add: activities_def)
qed

theorem prepare_clone_quiescent_witness:
  "hc_leases run_cfg1 = {#} \<and> concat (hc_threads run_cfg1) = []"
proof -
  have "sl_handle_table_prepare_clone (hc_world run_cfg1)
      = (SL_OK, snd (sl_handle_table_prepare_clone (hc_world run_cfg1)))"
    by (simp add: run_cfg1_def sl_handle_table_prepare_clone_def run_world_def run_table_simps
        tracker_eval)
  from prepare_clone_quiescent [OF run_cfg1_reachable this] show ?thesis by blast
qed

text \<open>C5: seen as an abstract map from handles to (kind, object), inserting and then closing a
  handle gives back the map before the insertion, the close must name the inserted kind, and no
  later acquire or close of that handle succeeds.\<close>

theorem insert_close_restores_store:
  assumes "seq_inv W" and "seq_insert W k obj h W1" and "seq_close W1 h k2 W2"
  shows "k2 = k \<and> seq_entry W2 = seq_entry W \<and>
    \<not> seq_acquire W2 h k3 obj3 W3 \<and> \<not> seq_close W2 h k3 W3"
  using table_store.insert_then_close [OF assms] table_store.ins_inv [OF assms(1,2)]
    table_store.closed_not_acquired [OF _ assms(3)] table_store.no_double_close [OF _ assms(3)]
  by blast


lemma run_close_first:
  "close_locked run_handle SL_HANDLE_KIND_FILE (run_world (Some 0) 1 2 (Some (run_record 1)))
    = (SL_OK, run_world None 2 0x100000003 (Some (run_record 1)), [Release_Record 0, Activity_End])"
proof -
  have "tracker_activity_begin 2 = Some 0x100000003" by (simp add: tracker_eval)
  moreover have "hw_table (run_world (Some 0) 1 s (Some (run_record n))) = Some (run_table (Some 0) 1)"
    "hw_tracker (run_world (Some 0) 1 s (Some (run_record n))) = Some s" for s n
    by (simp_all add: run_world_def)
  moreover have "invalidate_slot (ht_slots (run_table (Some 0) 1) ! 0)
      = \<lparr>hs_record = None, hs_generation = 2, hs_retired = False\<rparr>"
    by (simp add: run_table_simps invalidate_slot_def)
  ultimately show ?thesis
    by (simp add: close_locked_def run_token run_lookup run_table_simps)
       (simp add: run_world_def)
qed

theorem insert_close_restores_store_witness:
  "\<exists>W1 W2. seq_insert (initial_world, {#}) SL_HANDLE_KIND_FILE run_object run_handle W1 \<and>
     seq_close W1 run_handle SL_HANDLE_KIND_FILE W2 \<and>
     seq_entry W2 = seq_entry (initial_world, {#}) \<and>
     \<not> seq_close W2 run_handle SL_HANDLE_KIND_FILE W2"
proof -
  let ?W = "(initial_world, {#}) :: handle_session"
  let ?W1 = "(run_world (Some 0) 1 2 (Some (run_record 1)), {#}) :: handle_session"
  let ?W2 = "(drain [Release_Record 0, Activity_End]
      (run_world None 2 0x100000003 (Some (run_record 1))), {#}) :: handle_session"
  have inv: "seq_inv ?W"
    using initial_cfg_inv by (simp add: seq_inv_def cfg_inv_def initial_cfg_def)
  have "hw_records initial_world 0 = None" by (simp add: initial_world_def)
  then have ins: "seq_insert ?W SL_HANDLE_KIND_FILE run_object run_handle ?W1"
    using run_insert by (auto simp: seq_insert_def)
  have cls: "seq_close ?W1 run_handle SL_HANDLE_KIND_FILE ?W2"
    by (simp add: seq_close_def sl_handle_table_close_def run_close_first del: drain.simps)
  show ?thesis using insert_close_restores_store [OF inv ins cls] ins cls by blast
qed

end
