(* ===== verification/Unicode.thy ===== *)
theory Unicode
  imports Status
begin

text \<open>
  \<open>src/unicode.c\<close>: strict and lossy conversion between UTF-8 and UTF-16 with explicit lengths.
  Source and destination are caller buffers. A null pointer is \<open>None\<close>; the destination is the
  caller's memory before and after the call, and a write outside it makes the whole call \<open>None\<close>
  (undefined behaviour in C), which the properties rule out.
\<close>

section \<open>Decoding UTF-8\<close>

text \<open>The lead byte: sequence length, initial value and the least value the length may encode.\<close>

definition utf8_lead :: "u8 \<Rightarrow> (nat \<times> u32 \<times> u32) option" where
  "utf8_lead first =
     (if first \<ge> 0xc2 \<and> first \<le> 0xdf then Some (2, ucast (first AND 0x1f), 0x80)
      else if first \<ge> 0xe0 \<and> first \<le> 0xef then Some (3, ucast (first AND 0x0f), 0x800)
      else if first \<ge> 0xf0 \<and> first \<le> 0xf4 then Some (4, ucast (first AND 0x07), 0x10000)
      else None)"

text \<open>The loop over the continuation bytes, given the bytes that follow the lead byte.\<close>

fun utf8_continue :: "nat \<Rightarrow> bytes \<Rightarrow> u32 \<Rightarrow> u32 option" where
  "utf8_continue 0 source value = Some value"
| "utf8_continue (Suc n) [] value = None"
| "utf8_continue (Suc n) (continuation # source) value =
     (if continuation AND 0xc0 \<noteq> 0x80 then None
      else utf8_continue n source (push_bit 6 value OR ucast (continuation AND 0x3f)))"

definition decode_utf8 :: "bytes \<Rightarrow> (u32 \<times> nat) result" where
  "decode_utf8 source =
     (case source of
        [] \<Rightarrow> Inl SL_ERROR_INVALID_ENCODING
      | first # rest \<Rightarrow>
          if first \<le> 0x7f then Inr (ucast first, 1)
          else case utf8_lead first of
            None \<Rightarrow> Inl SL_ERROR_INVALID_ENCODING
          | Some (len, value, minimum) \<Rightarrow>
              if len > length source then Inl SL_ERROR_INVALID_ENCODING
              else case utf8_continue (len - 1) rest value of
                None \<Rightarrow> Inl SL_ERROR_INVALID_ENCODING
              | Some value \<Rightarrow>
                  if value < minimum \<or> value > 0x10ffff \<or> (value \<ge> 0xd800 \<and> value \<le> 0xdfff)
                  then Inl SL_ERROR_INVALID_ENCODING
                  else Inr (value, len))"

section \<open>Decoding UTF-16\<close>

definition decode_utf16 :: "u16 list \<Rightarrow> (u32 \<times> nat) result" where
  "decode_utf16 source =
     (case source of
        [] \<Rightarrow> Inl SL_ERROR_INVALID_ENCODING
      | unit1 # rest \<Rightarrow>
          let first = ucast unit1 :: u32 in
          if first \<ge> 0xd800 \<and> first \<le> 0xdbff
          then case rest of
                 [] \<Rightarrow> Inl SL_ERROR_INVALID_ENCODING
               | unit2 # _ \<Rightarrow>
                   let second = ucast unit2 :: u32 in
                   if second < 0xdc00 \<or> second > 0xdfff then Inl SL_ERROR_INVALID_ENCODING
                   else Inr (0x10000 + push_bit 10 (first - 0xd800) + (second - 0xdc00), 2)
          else if first \<ge> 0xdc00 \<and> first \<le> 0xdfff then Inl SL_ERROR_INVALID_ENCODING
          else Inr (first, 1))"

lemma decode_utf8_consumed:
  "decode_utf8 source = Inr (c, n) \<Longrightarrow> 0 < n \<and> n \<le> length source"
  by (auto simp: decode_utf8_def utf8_lead_def Suc_le_eq split: list.splits if_splits option.splits)

lemma decode_utf16_consumed:
  "decode_utf16 source = Inr (c, n) \<Longrightarrow> 0 < n \<and> n \<le> length source"
  by (auto simp: decode_utf16_def Let_def split: list.splits if_splits)

text \<open>What both loops do with an undecodable position: fail, or take one unit as U+FFFD.\<close>

definition replaced :: "bool \<Rightarrow> (u32 \<times> nat) result \<Rightarrow> (u32 \<times> nat) result" where
  "replaced replace_invalid d =
     (case d of Inl status \<Rightarrow> if \<not> replace_invalid then Inl status else Inr (0xfffd, 1)
      | Inr p \<Rightarrow> Inr p)"

lemma replaced_utf8_consumed:
  "offset < length source \<Longrightarrow> replaced b (decode_utf8 (drop offset source)) = Inr (c, n) \<Longrightarrow>
     0 < n \<and> n \<le> length source - offset"
  using decode_utf8_consumed [of "drop offset source"]
  by (auto simp: replaced_def split: sum.splits if_splits)

lemma replaced_utf16_consumed:
  "offset < length source \<Longrightarrow> replaced b (decode_utf16 (drop offset source)) = Inr (c, n) \<Longrightarrow>
     0 < n \<and> n \<le> length source - offset"
  using decode_utf16_consumed [of "drop offset source"]
  by (auto simp: replaced_def split: sum.splits if_splits)

section \<open>Sizes and encodings of one code point\<close>

definition utf16_codepoint_size :: "u32 \<Rightarrow> nat" where
  "utf16_codepoint_size codepoint = (if codepoint \<le> 0xffff then 1 else 2)"

definition utf8_codepoint_size :: "u32 \<Rightarrow> nat" where
  "utf8_codepoint_size codepoint =
     (if codepoint \<le> 0x7f then 1 else if codepoint \<le> 0x7ff then 2
      else if codepoint \<le> 0xffff then 3 else 4)"

definition utf16_units :: "u32 \<Rightarrow> u16 list" where
  "utf16_units codepoint =
     (if codepoint \<le> 0xffff then [ucast codepoint]
      else let codepoint = codepoint - 0x10000
           in [ucast (0xd800 OR drop_bit 10 codepoint), ucast (0xdc00 OR (codepoint AND 0x3ff))])"

definition utf8_bytes :: "u32 \<Rightarrow> bytes" where
  "utf8_bytes codepoint =
     (if codepoint \<le> 0x7f then [ucast codepoint]
      else if codepoint \<le> 0x7ff
      then [ucast (0xc0 OR drop_bit 6 codepoint), ucast (0x80 OR (codepoint AND 0x3f))]
      else if codepoint \<le> 0xffff
      then [ucast (0xe0 OR drop_bit 12 codepoint), ucast (0x80 OR (drop_bit 6 codepoint AND 0x3f)),
            ucast (0x80 OR (codepoint AND 0x3f))]
      else [ucast (0xf0 OR drop_bit 18 codepoint), ucast (0x80 OR (drop_bit 12 codepoint AND 0x3f)),
            ucast (0x80 OR (drop_bit 6 codepoint AND 0x3f)), ucast (0x80 OR (codepoint AND 0x3f))])"

section \<open>The measuring loops\<close>

function utf8_required_units :: "bytes \<Rightarrow> bool \<Rightarrow> nat \<Rightarrow> nat \<Rightarrow> nat result" where
  "utf8_required_units source replace_invalid offset cnt =
     (if offset < length source
      then case replaced replace_invalid (decode_utf8 (drop offset source)) of
             Inl status \<Rightarrow> Inl status
           | Inr (codepoint, consumed) \<Rightarrow>
               let units = utf16_codepoint_size codepoint
               in if cnt > SIZE_MAX - units then Inl SL_ERROR_OUT_OF_MEMORY
                  else utf8_required_units source replace_invalid (offset + consumed) (cnt + units)
      else Inr cnt)"
  by pat_completeness auto
termination
  by (relation "measure (\<lambda>(source, b, offset, cnt). length source - offset)")
     (auto dest: replaced_utf8_consumed)

function utf16_required_bytes :: "u16 list \<Rightarrow> bool \<Rightarrow> nat \<Rightarrow> nat \<Rightarrow> nat result" where
  "utf16_required_bytes source replace_invalid offset cnt =
     (if offset < length source
      then case replaced replace_invalid (decode_utf16 (drop offset source)) of
             Inl status \<Rightarrow> Inl status
           | Inr (codepoint, consumed) \<Rightarrow>
               let units = utf8_codepoint_size codepoint
               in if cnt > SIZE_MAX - units then Inl SL_ERROR_OUT_OF_MEMORY
                  else utf16_required_bytes source replace_invalid (offset + consumed) (cnt + units)
      else Inr cnt)"
  by pat_completeness auto
termination
  by (relation "measure (\<lambda>(source, b, offset, cnt). length source - offset)")
     (auto dest: replaced_utf16_consumed)

section \<open>The writing loops\<close>

text \<open>\<open>destination[output++] = u\<close> for each unit in turn; \<open>None\<close> is a write past the buffer.\<close>

fun put_units :: "'a list \<Rightarrow> nat \<Rightarrow> 'a list \<Rightarrow> ('a list \<times> nat) option" where
  "put_units destination output [] = Some (destination, output)"
| "put_units destination output (u # us) =
     (if output < length destination then put_units (destination[output := u]) (output + 1) us
      else None)"

function utf8_write_units ::
    "bytes \<Rightarrow> bool \<Rightarrow> nat \<Rightarrow> nat \<Rightarrow> u16 list \<Rightarrow> (sl_status \<times> u16 list) option" where
  "utf8_write_units source replace_invalid input output destination =
     (if input < length source
      then case replaced replace_invalid (decode_utf8 (drop input source)) of
             Inl status \<Rightarrow> Some (status, destination)
           | Inr (codepoint, consumed) \<Rightarrow>
               (case put_units destination output (utf16_units codepoint) of
                  None \<Rightarrow> None
                | Some (destination, output) \<Rightarrow>
                    utf8_write_units source replace_invalid (input + consumed) output destination)
      else Some (SL_OK, destination))"
  by pat_completeness auto
termination
  by (relation "measure (\<lambda>(source, b, input, output, destination). length source - input)")
     (auto dest: replaced_utf8_consumed)

function utf16_write_bytes ::
    "u16 list \<Rightarrow> bool \<Rightarrow> nat \<Rightarrow> nat \<Rightarrow> bytes \<Rightarrow> (sl_status \<times> bytes) option" where
  "utf16_write_bytes source replace_invalid input output destination =
     (if input < length source
      then case replaced replace_invalid (decode_utf16 (drop input source)) of
             Inl status \<Rightarrow> Some (status, destination)
           | Inr (codepoint, consumed) \<Rightarrow>
               (case put_units destination output (utf8_bytes codepoint) of
                  None \<Rightarrow> None
                | Some (destination, output) \<Rightarrow>
                    utf16_write_bytes source replace_invalid (input + consumed) output destination)
      else Some (SL_OK, destination))"
  by pat_completeness auto
termination
  by (relation "measure (\<lambda>(source, b, input, output, destination). length source - input)")
     (auto dest: replaced_utf16_consumed)

declare utf8_required_units.simps [simp del] utf16_required_bytes.simps [simp del]
  utf8_write_units.simps [simp del] utf16_write_bytes.simps [simp del]

section \<open>The conversions\<close>

text \<open>
  \<open>source\<close> is the pointed-to memory, of which the first \<open>source_length\<close> units are the input.
  \<open>written\<close> is the cell behind the out pointer. The result is the status with the destination and
  the cell as the call leaves them.
\<close>

definition utf8_to_utf16 ::
    "bytes option \<Rightarrow> nat \<Rightarrow> u16 list option \<Rightarrow> nat \<Rightarrow> nat option \<Rightarrow> bool \<Rightarrow>
     (sl_status \<times> u16 list option \<times> nat option) option" where
  "utf8_to_utf16 source source_length destination destination_capacity written replace_invalid =
     (if source = None \<and> source_length \<noteq> 0 \<or> written = None \<or>
         destination = None \<and> destination_capacity \<noteq> 0
      then Some (SL_ERROR_INVALID_ARGUMENT, destination, written)
      else let input = take source_length (case source of None \<Rightarrow> [] | Some s \<Rightarrow> s)
      in case utf8_required_units input replace_invalid 0 0 of
           Inl status \<Rightarrow> Some (status, destination, written)
         | Inr required \<Rightarrow>
             let written = Some required
             in case destination of
                  None \<Rightarrow> Some (SL_OK, destination, written)
                | Some dst \<Rightarrow>
                    if destination_capacity < required
                    then Some (SL_ERROR_BUFFER_TOO_SMALL, destination, written)
                    else map_option (\<lambda>(status, dst'). (status, Some dst', written))
                           (utf8_write_units input replace_invalid 0 0 dst))"

definition sl_utf8_to_utf16 where
  "sl_utf8_to_utf16 source source_length destination destination_capacity written =
     utf8_to_utf16 source source_length destination destination_capacity written False"

definition sl_utf8_to_utf16_lossy where
  "sl_utf8_to_utf16_lossy source source_length destination destination_capacity written =
     utf8_to_utf16 source source_length destination destination_capacity written True"

definition utf16_to_utf8 ::
    "u16 list option \<Rightarrow> nat \<Rightarrow> bytes option \<Rightarrow> nat \<Rightarrow> nat option \<Rightarrow> bool \<Rightarrow>
     (sl_status \<times> bytes option \<times> nat option) option" where
  "utf16_to_utf8 source source_length destination destination_capacity written replace_invalid =
     (if source = None \<and> source_length \<noteq> 0 \<or> written = None \<or>
         destination = None \<and> destination_capacity \<noteq> 0
      then Some (SL_ERROR_INVALID_ARGUMENT, destination, written)
      else let input = take source_length (case source of None \<Rightarrow> [] | Some s \<Rightarrow> s)
      in case utf16_required_bytes input replace_invalid 0 0 of
           Inl status \<Rightarrow> Some (status, destination, written)
         | Inr required \<Rightarrow>
             let written = Some required
             in case destination of
                  None \<Rightarrow> Some (SL_OK, destination, written)
                | Some dst \<Rightarrow>
                    if destination_capacity < required
                    then Some (SL_ERROR_BUFFER_TOO_SMALL, destination, written)
                    else map_option (\<lambda>(status, dst'). (status, Some dst', written))
                           (utf16_write_bytes input replace_invalid 0 0 dst))"

definition sl_utf16_to_utf8 where
  "sl_utf16_to_utf8 source source_length destination destination_capacity written =
     utf16_to_utf8 source source_length destination destination_capacity written False"

definition sl_utf16_to_utf8_lossy where
  "sl_utf16_to_utf8_lossy source source_length destination destination_capacity written =
     utf16_to_utf8 source source_length destination destination_capacity written True"

section \<open>The encodings as arithmetic\<close>

definition scalar :: "u32 \<Rightarrow> bool" where
  "scalar c \<longleftrightarrow> unat c \<le> 0x10ffff \<and> \<not> (0xd800 \<le> unat c \<and> unat c \<le> 0xdfff)"

lemma continuation_iff: "(b :: u8) AND 0xc0 = 0x80 \<longleftrightarrow> unat b div 64 = 2"
proof -
  have "b AND 0xc0 = push_bit 6 (drop_bit 6 b)"
  proof (rule bit_eqI)
    fix n assume "possible_bit TYPE(u8) n"
    then have "n < 8" by simp
    then have "n \<in> {0,1,2,3,4,5,6,7}" by auto
    then show "bit (b AND 0xc0) n = bit (push_bit 6 (drop_bit 6 b)) n"
      by (auto simp: bit_and_iff bit_push_bit_iff bit_drop_bit_eq)
  qed
  moreover have "unat (push_bit 6 (drop_bit 6 b)) = unat b div 64 * 64"
    by (subst unat_push_bit_fits) (simp_all add: unat_drop_bit_div less_mult_imp_div_less)
  ultimately have "unat (b AND 0xc0) = unat b div 64 * 64" by simp
  then show ?thesis by (simp add: word_unat_eq_iff)
qed

lemma mask_literals:
  "(0x3f :: 'a::len word) = mask 6" "(0x1f :: 'a word) = mask 5" "(0x0f :: 'a word) = mask 4"
  "(0x07 :: 'a word) = mask 3" "(0x3ff :: 'a word) = mask 10"
  by (simp_all add: mask_eq_exp_minus_1)

lemma unat_low_bits:
  "unat ((w :: 'a::len word) AND 0x3f) = unat w mod 64" "unat (w AND 0x1f) = unat w mod 32"
  "unat (w AND 0x0f) = unat w mod 16" "unat (w AND 0x07) = unat w mod 8"
  "unat (w AND 0x3ff) = unat w mod 1024"
  unfolding mask_literals unat_and_mask by simp_all

lemma byte_of_or:
  assumes "unat (w :: u32) < 2 ^ k" "2 ^ k dvd unat m" "unat m + 2 ^ k \<le> 256"
  shows "unat (ucast (m OR w) :: u8) = unat m + unat w"
  using assms by (simp add: unat_ucast_mod unat_or_disjoint)

lemma unit_of_or:
  assumes "unat (w :: u32) < 2 ^ k" "2 ^ k dvd unat m" "unat m + 2 ^ k \<le> 65536"
  shows "unat (ucast (m OR w) :: u16) = unat m + unat w"
  using assms by (simp add: unat_ucast_mod unat_or_disjoint)

lemma continuation_byte:
  "unat (ucast (0x80 OR (w AND 0x3f) :: u32) :: u8) = 128 + unat w mod 64"
  by (subst byte_of_or [where k = 6]) (simp_all add: unat_low_bits)

lemma lead_bytes:
  "unat c < 0x800 \<Longrightarrow> unat (ucast (0xc0 OR drop_bit 6 c :: u32) :: u8) = 192 + unat c div 64"
  "unat c < 0x10000 \<Longrightarrow> unat (ucast (0xe0 OR drop_bit 12 c :: u32) :: u8) = 224 + unat c div 4096"
  "unat c < 0x200000 \<Longrightarrow> unat (ucast (0xf0 OR drop_bit 18 c :: u32) :: u8) = 240 + unat c div 262144"
  by (subst byte_of_or [where k = 5], simp_all add: unat_drop_bit_div)
     (subst byte_of_or [where k = 4], simp_all add: unat_drop_bit_div,
      subst byte_of_or [where k = 3], simp_all add: unat_drop_bit_div)

lemma continue_value:
  assumes "unat v < 2 ^ 26"
  shows "unat (push_bit 6 v OR ucast ((b :: u8) AND 0x3f) :: u32) = unat v * 64 + unat b mod 64"
  using assms
  by (subst unat_push_bit_or) (simp_all add: unat_low_bits unat_ucast_up)

lemmas word_cmp_nat = word_le_nat_alt word_less_nat_alt

lemma utf8_lead_arith:
  "utf8_lead b = (if 194 \<le> unat b \<and> unat b < 224 then Some (2, ucast (b AND 0x1f), 0x80)
     else if 224 \<le> unat b \<and> unat b < 240 then Some (3, ucast (b AND 0x0f), 0x800)
     else if 240 \<le> unat b \<and> unat b < 245 then Some (4, ucast (b AND 0x07), 0x10000)
     else None)"
  by (auto simp: utf8_lead_def word_cmp_nat)

text \<open>The continuation loop over \<open>n\<close> bytes, as arithmetic on the value so far.\<close>

fun continued :: "nat \<Rightarrow> bytes \<Rightarrow> nat \<Rightarrow> nat option" where
  "continued 0 bs v = Some v"
| "continued (Suc n) [] v = None"
| "continued (Suc n) (b # bs) v =
     (if unat b div 64 = 2 then continued n bs (v * 64 + unat b mod 64) else None)"

lemma utf8_continue_arith:
  "(unat v + 1) * 64 ^ n \<le> 2 ^ 32 \<Longrightarrow>
     utf8_continue n bs v = map_option of_nat (continued n bs (unat v))"
proof (induction n bs v rule: utf8_continue.induct)
  case (3 n b bs v)
  show ?case
  proof (cases "unat b div 64 = 2")
    case True
    have "(unat v + 1) * 64 \<le> (unat v + 1) * 64 ^ Suc n"
      by (rule mult_le_mono2) simp
    then have small: "unat v < 2 ^ 26"
      using 3(2) by simp
    have "(unat v * 64 + unat b mod 64 + 1) * 64 ^ n \<le> ((unat v + 1) * 64) * 64 ^ n"
      by (rule mult_le_mono1) (simp add: less_eq_Suc_le [symmetric])
    also have "\<dots> = (unat v + 1) * 64 ^ Suc n"
      by (simp only: power_Suc mult.assoc)
    also have "\<dots> \<le> 2 ^ 32"
      by (rule 3(2))
    finally have "(unat v * 64 + unat b mod 64 + 1) * 64 ^ n \<le> 2 ^ 32" .
    then show ?thesis
      using 3(1) True by (simp add: continuation_iff continue_value [OF small])
  qed (simp add: continuation_iff)
qed simp_all

definition surrogate :: "nat \<Rightarrow> bool" where
  "surrogate v \<longleftrightarrow> 0xd800 \<le> v \<and> v \<le> 0xdfff"

text \<open>What \<open>decode_utf8\<close> accepts behind a lead byte, as arithmetic.\<close>

definition sequence :: "nat \<Rightarrow> nat \<Rightarrow> nat \<Rightarrow> bytes \<Rightarrow> nat option" where
  "sequence len v low bs =
     (case continued (len - 1) bs v of None \<Rightarrow> None
      | Some v \<Rightarrow> if v < low \<or> v > 0x10ffff \<or> surrogate v then None else Some v)"

definition decoded :: "bytes \<Rightarrow> (nat \<times> nat) option" where
  "decoded bs = (case bs of [] \<Rightarrow> None
     | b # rest \<Rightarrow>
         if unat b < 128 then Some (unat b, 1)
         else if 194 \<le> unat b \<and> unat b < 224 then map_option (\<lambda>v. (v, 2)) (sequence 2 (unat b mod 32) 0x80 rest)
         else if 224 \<le> unat b \<and> unat b < 240 then map_option (\<lambda>v. (v, 3)) (sequence 3 (unat b mod 16) 0x800 rest)
         else if 240 \<le> unat b \<and> unat b < 245 then map_option (\<lambda>v. (v, 4)) (sequence 4 (unat b mod 8) 0x10000 rest)
         else None)"


lemma continued_bound: "continued n bs v = Some w \<Longrightarrow> w + 1 \<le> (v + 1) * 64 ^ n"
proof (induction n bs v rule: continued.induct)
  case (3 n b bs v)
  have m: "unat b mod 64 + 1 \<le> 64"
    by (simp add: less_eq_Suc_le [symmetric])
  have "w + 1 \<le> (v * 64 + unat b mod 64 + 1) * 64 ^ n"
    using 3 by (simp split: if_splits)
  also have "\<dots> \<le> ((v + 1) * 64) * 64 ^ n"
    by (rule mult_le_mono1) (use m in simp)
  finally show ?case
    by (simp only: power_Suc mult.assoc)
qed auto

lemma continued_len: "continued n bs v = Some w \<Longrightarrow> n \<le> length bs"
  by (induction n bs v rule: continued.induct) (auto split: if_splits)

lemma decode_sequence:
  assumes "(unat v + 1) * 64 ^ (len - 1) \<le> 2 ^ 32"
  shows "(case utf8_continue (len - 1) rest v of
       None \<Rightarrow> Inl SL_ERROR_INVALID_ENCODING
     | Some value \<Rightarrow>
         if value < low \<or> value > 0x10ffff \<or> (value \<ge> 0xd800 \<and> value \<le> 0xdfff)
         then Inl SL_ERROR_INVALID_ENCODING else Inr (value, len)) =
     (case sequence len (unat v) (unat low) rest of None \<Rightarrow> Inl SL_ERROR_INVALID_ENCODING
      | Some w \<Rightarrow> Inr (of_nat w, len))"
proof (cases "continued (len - 1) rest (unat v)")
  case None
  then show ?thesis
    using utf8_continue_arith [OF assms, of rest] by (simp add: sequence_def)
next
  case (Some w)
  have "w < 2 ^ 32"
    using continued_bound [OF Some] assms by linarith
  then have "unat (of_nat w :: u32) = w"
    by (intro unat_of_nat_small) simp
  then show ?thesis
    using utf8_continue_arith [OF assms, of rest] Some
    by (simp add: sequence_def word_cmp_nat surrogate_def)
qed

lemma decode_utf8_lead:
  assumes "\<not> unat b < 128" "utf8_lead b = Some (len, v, low)"
    and "(unat v + 1) * 64 ^ (len - 1) \<le> 2 ^ 32" "0 < len"
  shows "decode_utf8 (b # rest) = (case sequence len (unat v) (unat low) rest of
      None \<Rightarrow> Inl SL_ERROR_INVALID_ENCODING | Some w \<Rightarrow> Inr (of_nat w, len))"
proof (cases "len > length (b # rest)")
  case True
  then have "continued (len - 1) rest (unat v) = None"
    using continued_len [of "len - 1" rest "unat v"] by fastforce
  then show ?thesis
    using True assms by (simp add: decode_utf8_def word_cmp_nat sequence_def)
next
  case False
  then have "decode_utf8 (b # rest) = (case utf8_continue (len - 1) rest v of
       None \<Rightarrow> Inl SL_ERROR_INVALID_ENCODING
     | Some value \<Rightarrow>
         if value < low \<or> value > 0x10ffff \<or> (value \<ge> 0xd800 \<and> value \<le> 0xdfff)
         then Inl SL_ERROR_INVALID_ENCODING else Inr (value, len))"
    using assms by (simp add: decode_utf8_def word_cmp_nat)
  then show ?thesis
    by (simp only: decode_sequence [OF assms(3)])
qed

lemma lead_values:
  "unat (ucast ((b :: u8) AND 0x1f) :: u32) = unat b mod 32"
  "unat (ucast (b AND 0x0f) :: u32) = unat b mod 16"
  "unat (ucast (b AND 0x07) :: u32) = unat b mod 8"
  by (simp_all add: unat_ucast_up unat_low_bits)

lemma lead_values_fit:
  fixes n :: nat
  shows
  "(n mod 32 + 1) * 64 ^ (2 - 1) \<le> 2 ^ 32" "(n mod 16 + 1) * 64 ^ (3 - 1) \<le> 2 ^ 32"
  "(n mod 8 + 1) * 64 ^ (4 - 1) \<le> 2 ^ 32"
  using mod_less_divisor [of 32 n, OF zero_less_numeral]
    mod_less_divisor [of 16 n, OF zero_less_numeral]
    mod_less_divisor [of 8 n, OF zero_less_numeral] by (simp_all del: mod_less_divisor)

lemma decode_utf8_arith:
  "decode_utf8 bs = (case decoded bs of None \<Rightarrow> Inl SL_ERROR_INVALID_ENCODING
     | Some (v, n) \<Rightarrow> Inr (of_nat v, n))"
proof (cases bs)
  case (Cons b rest)
  consider (1) "unat b < 128" | (2) "194 \<le> unat b" "unat b < 224"
    | (3) "224 \<le> unat b" "unat b < 240" | (4) "240 \<le> unat b" "unat b < 245"
    | (no) "128 \<le> unat b" "unat b < 194" | (no') "245 \<le> unat b"
    by linarith
  then show ?thesis
  proof cases
    case 1
    then show ?thesis
      by (simp add: Cons decode_utf8_def decoded_def word_cmp_nat)
  next
    case 2
    then show ?thesis
      using decode_utf8_lead [of b 2 "ucast (b AND 0x1f)" "0x80" rest] lead_values_fit(1) [of "unat b"]
      by (simp add: Cons decoded_def utf8_lead_arith lead_values split: option.split)
  next
    case 3
    then show ?thesis
      using decode_utf8_lead [of b 3 "ucast (b AND 0x0f)" "0x800" rest] lead_values_fit(2) [of "unat b"]
      by (simp add: Cons decoded_def utf8_lead_arith lead_values split: option.split)
  next
    case 4
    then show ?thesis
      using decode_utf8_lead [of b 4 "ucast (b AND 0x07)" "0x10000" rest] lead_values_fit(3) [of "unat b"]
      by (simp add: Cons decoded_def utf8_lead_arith lead_values split: option.split)
  qed (simp_all add: Cons decode_utf8_def decoded_def utf8_lead_arith word_cmp_nat)
qed (simp add: decode_utf8_def decoded_def)

text \<open>The bytes of a code point, as arithmetic on base-64 digits.\<close>

definition encoded :: "nat \<Rightarrow> nat list" where
  "encoded v = (if v < 0x80 then [v]
     else if v < 0x800 then [192 + v div 64, 128 + v mod 64]
     else if v < 0x10000 then [224 + v div 4096, 128 + v div 64 mod 64, 128 + v mod 64]
     else [240 + v div 262144, 128 + v div 4096 mod 64, 128 + v div 64 mod 64, 128 + v mod 64])"

lemma div_64s: "(v :: nat) div 4096 = v div 64 div 64" "v div 262144 = v div 64 div 64 div 64"
  using div_mult2_eq [of v 64 64] div_mult2_eq [of v 4096 64] div_mult2_eq [of v 64 64] by simp_all

lemma low_byte: "unat (c :: u32) < 0x80 \<Longrightarrow> unat (ucast c :: u8) = unat c"
  by (simp add: unat_ucast_mod)

lemma utf8_bytes_arith:
  assumes "unat c \<le> 0x10ffff"
  shows "map unat (utf8_bytes c) = encoded (unat c)"
  using assms
  by (simp add: utf8_bytes_def encoded_def word_cmp_nat lead_bytes continuation_byte low_byte
      unat_drop_bit_div)

lemma digit_64:
  "m < 64 \<Longrightarrow> (a * 64 + m) div 64 = a" "m < 64 \<Longrightarrow> (a * 64 + m) mod 64 = (m :: nat)"
  by simp_all

lemma div_block: "(n :: nat) div k = q \<Longrightarrow> q * k + n mod k = n"
  using div_mult_mod_eq [of n k] by simp

lemma lead_range:
  fixes n :: nat
  shows "192 \<le> n \<Longrightarrow> n < 224 \<Longrightarrow> 192 + n mod 32 = n"
    "224 \<le> n \<Longrightarrow> n < 240 \<Longrightarrow> 224 + n mod 16 = n"
    "240 \<le> n \<Longrightarrow> n < 248 \<Longrightarrow> 240 + n mod 8 = n"
  using div_block [of n 32 6] div_block [of n 16 14] div_block [of n 8 30]
  by (simp_all add: div_nat_eqI)

lemma continuation_range: "(n :: nat) div 64 = 2 \<Longrightarrow> 128 + n mod 64 = n"
  using div_block [of n 64 2] by simp

lemma utf8_size_length [simp]: "length (utf8_bytes c) = utf8_codepoint_size c"
  by (simp add: utf8_bytes_def utf8_codepoint_size_def)

lemma utf16_size_length [simp]: "length (utf16_units c) = utf16_codepoint_size c"
  by (simp add: utf16_units_def utf16_codepoint_size_def Let_def)

lemma continuation_digit: "(128 + m mod 64) div 64 = 2" "(128 + m mod 64) mod 64 = (m :: nat) mod 64"
  using digit_64 [of "m mod 64" 2] by simp_all

lemma lead_digit:
  fixes m :: nat
  shows "m < 32 \<Longrightarrow> (192 + m) mod 32 = m" "m < 16 \<Longrightarrow> (224 + m) mod 16 = m" "m < 8 \<Longrightarrow> (240 + m) mod 8 = m"
  using mod_mult_self4 [of 32 6 m] mod_mult_self4 [of 16 14 m] mod_mult_self4 [of 8 30 m] by simp_all

lemma decoded_encoded:
  assumes "v \<le> 0x10ffff" "\<not> surrogate v" "map unat bs = encoded v"
  shows "decoded (bs @ rest) = Some (v, length bs)"
proof -
  have digits: "v div 64 * 64 + v mod 64 = v" "v div 4096 * 64 + v div 64 mod 64 = v div 64"
      "v div 262144 * 64 + v div 4096 mod 64 = v div 4096"
    unfolding div_64s by (rule div_mult_mod_eq)+
  consider (1) "v < 0x80" | (2) "0x80 \<le> v" "v < 0x800" | (3) "0x800 \<le> v" "v < 0x10000"
    | (4) "0x10000 \<le> v"
    by linarith
  then show ?thesis
  proof cases
    case 1
    then obtain b where "bs = [b]" "unat b = v" using assms(3) by (auto simp: encoded_def)
    then show ?thesis using 1 by (simp add: decoded_def)
  next
    case 2
    then obtain b b1 where b: "bs = [b, b1]" "unat b = 192 + v div 64" "unat b1 = 128 + v mod 64"
      using assms(3) by (auto simp: encoded_def)
    have d: "v div 64 < 32" "2 \<le> v div 64"
      using 2 by (simp_all add: less_mult_imp_div_less less_eq_div_iff_mult_less_eq)
    have "sequence 2 (unat b mod 32) 0x80 (b1 # rest) = Some v"
      using 2 assms lead_digit(1) [OF d(1)]
      by (simp add: sequence_def b continuation_digit digits(1))
    moreover have "194 \<le> unat b" "unat b < 224"
      unfolding b using d by simp_all
    ultimately show ?thesis
      by (simp add: decoded_def b(1))
  next
    case 3
    then obtain b b1 b2 where b: "bs = [b, b1, b2]" "unat b = 224 + v div 4096"
        "unat b1 = 128 + v div 64 mod 64" "unat b2 = 128 + v mod 64"
      using assms(3) by (auto simp: encoded_def)
    have d: "v div 4096 < 16"
      using 3 by (simp add: less_mult_imp_div_less)
    have "sequence 3 (unat b mod 16) 0x800 (b1 # b2 # rest) = Some v"
      using 3 assms lead_digit(2) [OF d]
      by (simp add: sequence_def b continuation_digit digits numeral_2_eq_2)
    moreover have "224 \<le> unat b" "unat b < 240"
      unfolding b using d by simp_all
    ultimately show ?thesis
      by (simp add: decoded_def b(1))
  next
    case 4
    then obtain b b1 b2 b3 where b: "bs = [b, b1, b2, b3]" "unat b = 240 + v div 262144"
        "unat b1 = 128 + v div 4096 mod 64" "unat b2 = 128 + v div 64 mod 64"
        "unat b3 = 128 + v mod 64"
      using assms(3) by (auto simp: encoded_def)
    have d: "v div 262144 < 5"
      using assms(1) by (simp add: less_mult_imp_div_less)
    then have d': "v div 262144 < 8"
      by simp
    have "sequence 4 (unat b mod 8) 0x10000 (b1 # b2 # b3 # rest) = Some v"
      using 4 assms lead_digit(3) [OF d']
      by (simp add: sequence_def b continuation_digit digits numeral_3_eq_3)
    moreover have "240 \<le> unat b" "unat b < 245"
      unfolding b using d by simp_all
    ultimately show ?thesis
      by (simp add: decoded_def b(1))
  qed
qed

lemma continued_1: "continued (Suc 0) bs v = Some w \<Longrightarrow>
    \<exists>b rest. bs = b # rest \<and> unat b div 64 = 2 \<and> w = v * 64 + unat b mod 64"
  by (cases bs) (auto split: if_splits)

lemma continued_Suc: "continued (Suc n) bs v = Some w \<Longrightarrow>
    \<exists>b rest. bs = b # rest \<and> unat b div 64 = 2 \<and> continued n rest (v * 64 + unat b mod 64) = Some w"
  by (cases bs) (auto split: if_splits)

lemma encoded_decoded:
  assumes "decoded bs = Some (v, n)"
  shows "v \<le> 0x10ffff \<and> \<not> surrogate v \<and> map unat (take n bs) = encoded v"
proof -
  obtain b rest where bs: "bs = b # rest"
    using assms by (auto simp: decoded_def split: list.splits)
  consider (1) "unat b < 128" | (2) "194 \<le> unat b" "unat b < 224"
    | (3) "224 \<le> unat b" "unat b < 240" | (4) "240 \<le> unat b" "unat b < 245"
    using assms by (auto simp: decoded_def bs split: if_splits)
  then show ?thesis
  proof cases
    case 1
    then show ?thesis using assms by (auto simp: decoded_def bs surrogate_def encoded_def)
  next
    case 2
    then have n: "n = 2" and s: "sequence 2 (unat b mod 32) 0x80 rest = Some v"
      using assms by (auto simp: decoded_def bs)
    then have v: "\<not> v < 0x80" "v \<le> 0x10ffff" "\<not> surrogate v"
      and c: "continued (Suc 0) rest (unat b mod 32) = Some v"
      by (auto simp: sequence_def split: option.splits if_splits)
    obtain b1 r where r: "rest = b1 # r" "unat b1 div 64 = 2" "v = unat b mod 32 * 64 + unat b1 mod 64"
      using continued_1 [OF c] by auto
    have "v < 0x800" "192 + v div 64 = unat b" "128 + v mod 64 = unat b1"
      using 2 r(2) lead_range(1) [of "unat b"] unfolding r(3)
      by (simp_all add: digit_64 continuation_range)
    then show ?thesis
      using v by (simp add: bs n r(1) encoded_def)
  next
    case 3
    then have n: "n = 3" and s: "sequence 3 (unat b mod 16) 0x800 rest = Some v"
      using assms by (auto simp: decoded_def bs)
    then have v: "\<not> v < 0x800" "v \<le> 0x10ffff" "\<not> surrogate v"
      and c: "continued (Suc (Suc 0)) rest (unat b mod 16) = Some v"
      by (auto simp: sequence_def numeral_2_eq_2 split: option.splits if_splits)
    obtain b1 b2 r w where r: "rest = b1 # b2 # r" "unat b1 div 64 = 2" "unat b2 div 64 = 2"
        "w = unat b mod 16 * 64 + unat b1 mod 64" "v = w * 64 + unat b2 mod 64"
      using continued_Suc [OF c] continued_1 by blast
    have q: "v div 64 = w" "v mod 64 = unat b2 mod 64" "w div 64 = unat b mod 16"
        "w mod 64 = unat b1 mod 64"
      by (simp_all only: r(4,5) digit_64 [OF mod_less_divisor [OF zero_less_numeral]])
    have "v < 0x10000"
      using r(4,5) mod_less_divisor [of 16 "unat b"] mod_less_divisor [of 64 "unat b1"]
        mod_less_divisor [of 64 "unat b2"] by linarith
    moreover have "224 + v div 4096 = unat b" "128 + v div 64 mod 64 = unat b1"
        "128 + v mod 64 = unat b2"
      unfolding div_64s q
      by (rule lead_range(2) [OF 3] continuation_range [OF r(2)] continuation_range [OF r(3)])+
    ultimately show ?thesis
      using v by (simp add: bs n r(1) encoded_def numeral_3_eq_3)
  next
    case 4
    then have n: "n = 4" and s: "sequence 4 (unat b mod 8) 0x10000 rest = Some v"
      using assms by (auto simp: decoded_def bs)
    then have v: "\<not> v < 0x10000" "v \<le> 0x10ffff" "\<not> surrogate v"
      and c: "continued (Suc (Suc (Suc 0))) rest (unat b mod 8) = Some v"
      by (auto simp: sequence_def numeral_3_eq_3 split: option.splits if_splits)
    obtain b1 r1 where r1: "rest = b1 # r1" "unat b1 div 64 = 2"
        and c1: "continued (Suc (Suc 0)) r1 (unat b mod 8 * 64 + unat b1 mod 64) = Some v"
      using continued_Suc [OF c] by blast
    obtain b2 r2 where r2: "r1 = b2 # r2" "unat b2 div 64 = 2" and c2: "continued (Suc 0) r2
        ((unat b mod 8 * 64 + unat b1 mod 64) * 64 + unat b2 mod 64) = Some v"
      using continued_Suc [OF c1] by blast
    obtain b3 r u w where r: "rest = b1 # b2 # b3 # r" "unat b1 div 64 = 2"
        "unat b2 div 64 = 2" "unat b3 div 64 = 2" "u = unat b mod 8 * 64 + unat b1 mod 64"
        "w = u * 64 + unat b2 mod 64" "v = w * 64 + unat b3 mod 64"
      using continued_1 [OF c2] r1 r2 by blast
    have q: "v div 64 = w" "v mod 64 = unat b3 mod 64" "w div 64 = u"
        "w mod 64 = unat b2 mod 64" "u div 64 = unat b mod 8" "u mod 64 = unat b1 mod 64"
      by (simp_all only: r(5-7) digit_64 [OF mod_less_divisor [OF zero_less_numeral]])
    have "unat b < 248" using 4 by simp
    note lead = lead_range(3) [OF 4(1) this]
    have "240 + v div 262144 = unat b" "128 + v div 4096 mod 64 = unat b1"
        "128 + v div 64 mod 64 = unat b2" "128 + v mod 64 = unat b3"
      unfolding div_64s q
      by (rule lead continuation_range [OF r(2)] continuation_range [OF r(3)]
          continuation_range [OF r(4)])+
    moreover have "take n bs = [b, b1, b2, b3]"
      by (simp add: bs n r(1) take_Cons')
    ultimately show ?thesis
      using v by (simp add: encoded_def)
  qed
qed

end
