(* ===== verification/Unicode_Codec.thy ===== *)
theory Unicode_Codec
  imports Unicode
begin

text \<open>
  The conversions of \<open>src/unicode.c\<close> by contract: what an input means (\<open>decodes\<close>), the locale
  \<open>codec\<close> of a decoder and the encoder of the same form, and the locale \<open>transcoder\<close> of the
  measuring loop, the writing loop and the conversion around them. Both are interpreted on the
  functions of \<open>Unicode\<close> for UTF-8 and UTF-16, in both directions.
\<close>


section \<open>Codecs\<close>

text \<open>
  What an input means, independently of the decoders: code points written one after the other and,
  when invalid input is replaced, a unit at which no scalar value starts, read as U+FFFD.
\<close>

definition starts :: "(u32 \<Rightarrow> 'u list) \<Rightarrow> 'u list \<Rightarrow> bool" where
  "starts units us \<longleftrightarrow> (\<exists>c rest. scalar c \<and> us = units c @ rest)"

inductive decodes :: "(u32 \<Rightarrow> 'u list) \<Rightarrow> bool \<Rightarrow> 'u list \<Rightarrow> u32 list \<Rightarrow> bool"
  for units replace_invalid where
  decodes_done: "decodes units replace_invalid [] []"
| decodes_point: "scalar c \<Longrightarrow> decodes units replace_invalid us cs \<Longrightarrow>
    decodes units replace_invalid (units c @ us) (c # cs)"
| decodes_invalid: "replace_invalid \<Longrightarrow> \<not> starts units (u # us) \<Longrightarrow>
    decodes units replace_invalid us cs \<Longrightarrow> decodes units replace_invalid (u # us) (0xfffd # cs)"

inductive_cases decodes_NilE: "decodes units b us []"
inductive_cases decodes_ConsE: "decodes units b us (c # cs)"
inductive_simps decodes_Nil_simp: "decodes units b us []"

lemma put_units_fits:
  "pos + length us \<le> length dst \<Longrightarrow>
     put_units dst pos us = Some (take pos dst @ us @ drop (pos + length us) dst, pos + length us)"
proof (induction us arbitrary: pos dst)
  case (Cons u us)
  then have o: "pos < length dst" by simp
  have t: "take (Suc pos) (dst[pos := u]) = take pos dst @ [u]"
    using o by (simp add: take_Suc_conv_app_nth)
  show ?case
    using Cons.IH [of "pos + 1" "dst[pos := u]"] Cons.prems o t by simp
qed simp

text \<open>The contract of a decoder and the encoder of the same form.\<close>

locale codec =
  fixes decode :: "'u list \<Rightarrow> (u32 \<times> nat) result"
    and units :: "u32 \<Rightarrow> 'u list"
  assumes decode_units: "scalar c \<Longrightarrow> decode (units c @ rest) = Inr (c, length (units c))"
    and decode_sound: "decode us = Inr (c, n) \<Longrightarrow> scalar c \<and> units c = take n us"
    and decode_consumed: "decode us = Inr (c, n) \<Longrightarrow> 0 < n \<and> n \<le> length us"
    and decode_error: "decode us = Inl e \<Longrightarrow> e = SL_ERROR_INVALID_ENCODING"
begin

lemma units_nonempty: "scalar c \<Longrightarrow> units c \<noteq> []"
  using decode_units [of c "[]"] decode_consumed by fastforce

lemma starts_iff: "starts units us \<longleftrightarrow> (\<exists>c n. decode us = Inr (c, n))"
proof
  assume "starts units us"
  then show "\<exists>c n. decode us = Inr (c, n)"
    using decode_units by (auto simp: starts_def)
next
  assume "\<exists>c n. decode us = Inr (c, n)"
  then obtain c n where d: "decode us = Inr (c, n)" by blast
  have "us = units c @ drop n us"
    using decode_sound [OF d] by simp
  then show "starts units us"
    using decode_sound [OF d] unfolding starts_def by blast
qed

lemma decodes_next:
  assumes "us \<noteq> []" "replaced b (decode us) = Inr (c, n)"
  shows "decodes units b us cs \<longleftrightarrow> (\<exists>cs'. cs = c # cs' \<and> decodes units b (drop n us) cs')"
proof (cases "decode us")
  case (Inl e)
  then have no: "\<not> starts units us" and b: "b" "c = 0xfffd" "n = 1"
    using assms(2) by (auto simp: starts_iff replaced_def split: if_splits)
  obtain u us' where us: "us = u # us'" using assms(1) by (cases us) auto
  show ?thesis
  proof
    assume "decodes units b us cs"
    then show "\<exists>cs'. cs = c # cs' \<and> decodes units b (drop n us) cs'"
      by cases (use no b us assms(1) in \<open>auto simp: starts_def\<close>)
  next
    assume "\<exists>cs'. cs = c # cs' \<and> decodes units b (drop n us) cs'"
    then show "decodes units b us cs"
      using decodes_invalid [of b units u us'] no b us by auto
  qed
next
  case (Inr p)
  then have d: "decode us = Inr (c, n)"
    using assms(2) by (simp add: replaced_def)
  have us: "us = units c @ drop n us" and c: "scalar c"
    using decode_sound [OF d] by simp_all
  show ?thesis
  proof
    assume "decodes units b us cs"
    then show "\<exists>cs'. cs = c # cs' \<and> decodes units b (drop n us) cs'"
    proof cases
      case (decodes_point c' us' cs')
      then have "decode us = Inr (c', length (units c'))"
        using decode_units by blast
      then show ?thesis
        using d decodes_point by auto
    qed (use assms(1) starts_iff d in auto)
  next
    assume "\<exists>cs'. cs = c # cs' \<and> decodes units b (drop n us) cs'"
    then show "decodes units b us cs"
      using decodes_point [OF c] us by metis
  qed
qed

lemma decodes_stuck:
  assumes "us \<noteq> []" "replaced b (decode us) = Inl e"
  shows "\<not> decodes units b us cs" "e = SL_ERROR_INVALID_ENCODING"
proof -
  from assms(2) have d: "decode us = Inl e" and b: "\<not> b"
    by (auto simp: replaced_def split: sum.splits if_splits)
  show "e = SL_ERROR_INVALID_ENCODING"
    using decode_error [OF d] .
  show "\<not> decodes units b us cs"
  proof
    assume "decodes units b us cs"
    then show False
      by cases (use d b assms(1) decode_units in auto)
  qed
qed

lemma replaced_consumed:
  assumes "us \<noteq> []" "replaced b (decode us) = Inr (c, n)"
  shows "0 < n \<and> n \<le> length us"
  using assms decode_consumed [of us c n]
  by (cases us) (auto simp: replaced_def split: sum.splits if_splits)

lemma decodes_total: "\<exists>cs. decodes units True us cs"
proof (induction us rule: length_induct)
  case (1 us)
  show ?case
  proof (cases "us = []")
    case False
    obtain c n where r: "replaced True (decode us) = Inr (c, n)"
      by (cases "decode us") (auto simp: replaced_def)
    then have "length (drop n us) < length us"
      using replaced_consumed [OF False] by fastforce
    then show ?thesis
      using 1 decodes_next [OF False r] by blast
  qed (auto intro: decodes_done)
qed

lemma decodes_functional:
  "decodes units b us cs \<Longrightarrow> decodes units b us cs' \<Longrightarrow> cs = cs'"
proof (induction us arbitrary: cs cs' rule: length_induct)
  case (1 us)
  show ?case
  proof (cases "us = []")
    case False
    then obtain c n where r: "replaced b (decode us) = Inr (c, n)"
      using decodes_stuck(1) [OF False] 1(2) by (cases "replaced b (decode us)") auto
    then have "length (drop n us) < length us"
      using replaced_consumed [OF False] by fastforce
    then show ?thesis
      using 1 decodes_next [OF False r] by metis
  next
    case True
    have "decodes units b [] ds \<Longrightarrow> ds = []" for ds
      by (erule decodes.cases) (use units_nonempty in auto)
    then show ?thesis
      using 1(2,3) True by blast
  qed
qed

lemma decodes_encoded: "list_all scalar cs \<Longrightarrow> decodes units b (concat (map units cs)) cs"
  by (induction cs) (auto intro: decodes.intros)

lemma decodes_strict: "decodes units False us cs \<longleftrightarrow> list_all scalar cs \<and> us = concat (map units cs)"
proof
  show "decodes units False us cs \<Longrightarrow> list_all scalar cs \<and> us = concat (map units cs)"
    by (induction us cs rule: decodes.induct) auto
qed (use decodes_encoded in blast)

lemma decodes_scalar: "decodes units b us cs \<Longrightarrow> list_all scalar cs"
  by (induction us cs rule: decodes.induct) (auto simp: scalar_def)

end

text \<open>The outcome of a conversion with valid arguments.\<close>

definition outcome :: "'v list \<Rightarrow> 'v list option \<Rightarrow> nat \<Rightarrow> sl_status \<times> 'v list option \<times> nat option" where
  "outcome us dst cap = (case dst of
      None \<Rightarrow> (SL_OK, None, Some (length us))
    | Some d \<Rightarrow> if cap < length us then (SL_ERROR_BUFFER_TOO_SMALL, Some d, Some (length us))
        else (SL_OK, Some (us @ drop (length us) d), Some (length us)))"

section \<open>Transcoders\<close>

text \<open>
  The measuring loop, the writing loop and the conversion around them, over any codec on the source
  side: both conversions of the source have this shape.
\<close>

locale transcoder = codec decode units
  for decode :: "'u list \<Rightarrow> (u32 \<times> nat) result" and units :: "u32 \<Rightarrow> 'u list" +
  fixes out :: "u32 \<Rightarrow> 'v list"
    and required :: "'u list \<Rightarrow> bool \<Rightarrow> nat \<Rightarrow> nat \<Rightarrow> nat result"
    and emit :: "'u list \<Rightarrow> bool \<Rightarrow> nat \<Rightarrow> nat \<Rightarrow> 'v list \<Rightarrow> (sl_status \<times> 'v list) option"
    and convert :: "'u list option \<Rightarrow> nat \<Rightarrow> 'v list option \<Rightarrow> nat \<Rightarrow> nat option \<Rightarrow> bool \<Rightarrow>
      (sl_status \<times> 'v list option \<times> nat option) option"
  assumes required_eq: "required source b offset cnt =
     (if offset < length source
      then case replaced b (decode (drop offset source)) of
             Inl status \<Rightarrow> Inl status
           | Inr (codepoint, consumed) \<Rightarrow>
               if cnt > SIZE_MAX - length (out codepoint) then Inl SL_ERROR_OUT_OF_MEMORY
               else required source b (offset + consumed) (cnt + length (out codepoint))
      else Inr cnt)"
    and emit_eq: "emit source b input output destination =
     (if input < length source
      then case replaced b (decode (drop input source)) of
             Inl status \<Rightarrow> Some (status, destination)
           | Inr (codepoint, consumed) \<Rightarrow>
               (case put_units destination output (out codepoint) of
                  None \<Rightarrow> None
                | Some (destination, output) \<Rightarrow> emit source b (input + consumed) output destination)
      else Some (SL_OK, destination))"
    and convert_eq: "convert src len dst cap written b =
     (if src = None \<and> len \<noteq> 0 \<or> written = None \<or>
         dst = None \<and> cap \<noteq> 0
      then Some (SL_ERROR_INVALID_ARGUMENT, dst, written)
      else let input = take len (case src of None \<Rightarrow> [] | Some s \<Rightarrow> s)
      in case required input b 0 0 of
           Inl status \<Rightarrow> Some (status, dst, written)
         | Inr n \<Rightarrow>
             (case dst of
                None \<Rightarrow> Some (SL_OK, dst, Some n)
              | Some d \<Rightarrow>
                  if cap < n
                  then Some (SL_ERROR_BUFFER_TOO_SMALL, dst, Some n)
                  else map_option (\<lambda>(status, d'). (status, Some d', Some n))
                         (emit input b 0 0 d)))"
    and out_growth: "replaced b (decode us) = Inr (c, n) \<Longrightarrow> us \<noteq> [] \<Longrightarrow> length (out c) \<le> 3 * n"
begin

definition outs :: "u32 list \<Rightarrow> 'v list" where
  "outs cs = concat (map out cs)"

lemma outs_simps [simp]: "outs [] = []" "outs (c # cs) = out c @ outs cs"
  by (simp_all add: outs_def)

lemma drop_nonempty: "offset < length us \<Longrightarrow> drop offset us \<noteq> []"
  by simp

lemma required_decodes:
  "decodes units b (drop offset source) cs \<Longrightarrow> cnt + 3 * (length source - offset) \<le> SIZE_MAX \<Longrightarrow>
     required source b offset cnt = Inr (cnt + length (outs cs))"
proof (induction "length source - offset" arbitrary: offset cnt cs rule: less_induct)
  case less
  show ?case
  proof (cases "offset < length source")
    case True
    note ne = drop_nonempty [OF True]
    obtain c n where r: "replaced b (decode (drop offset source)) = Inr (c, n)"
      using decodes_stuck(1) [OF ne] less.prems(1) by (cases "replaced b (decode (drop offset source))") auto
    obtain cs' where cs: "cs = c # cs'" "decodes units b (drop (offset + n) source) cs'"
      using decodes_next [OF ne r] less.prems(1) by (auto simp: add.commute)
    have n: "0 < n" "n \<le> length source - offset"
      using replaced_consumed [OF ne r] by simp_all
    have grow: "length (out c) \<le> 3 * n"
      using out_growth [OF r ne] .
    have "cnt + length (out c) + 3 * (length source - (offset + n)) \<le> SIZE_MAX"
      using grow n less.prems(2) by linarith
    then show ?thesis
      using less.hyps [of "offset + n" cs' "cnt + length (out c)"] True r cs n
      by (subst required_eq) (simp add: not_less)
  next
    case False
    then have "decodes units b [] cs" using less.prems(1) by simp
    then have "cs = []" using decodes_functional decodes_done by blast
    then show ?thesis using False by (subst required_eq) simp
  qed
qed

lemma required_stuck:
  "\<nexists>cs. decodes units b (drop offset source) cs \<Longrightarrow>
     cnt + 3 * (length source - offset) \<le> SIZE_MAX \<Longrightarrow>
     required source b offset cnt = Inl SL_ERROR_INVALID_ENCODING"
proof (induction "length source - offset" arbitrary: offset cnt rule: less_induct)
  case less
  have True: "offset < length source"
    using less.prems(1) decodes_done by (cases "offset < length source") auto
  note ne = drop_nonempty [OF True]
  show ?case
  proof (cases "replaced b (decode (drop offset source))")
    case (Inl e)
    then show ?thesis
      using True decodes_stuck(2) [OF ne Inl] by (subst required_eq) simp
  next
    case (Inr p)
    then obtain c n where r: "replaced b (decode (drop offset source)) = Inr (c, n)"
      by (cases p) auto
    have n: "0 < n" "n \<le> length source - offset"
      using replaced_consumed [OF ne r] by simp_all
    have no: "\<nexists>cs. decodes units b (drop (offset + n) source) cs"
      using decodes_next [OF ne r] less.prems(1) by (auto simp: add.commute)
    have grow: "length (out c) \<le> 3 * n"
      using out_growth [OF r ne] .
    have "cnt + length (out c) + 3 * (length source - (offset + n)) \<le> SIZE_MAX"
      using grow n less.prems(2) by linarith
    then show ?thesis
      using less.hyps [of "offset + n" "cnt + length (out c)"] True r no n
      by (subst required_eq) (simp add: not_less)
  qed
qed

lemma emit_decodes:
  "decodes units b (drop input source) cs \<Longrightarrow> pos + length (outs cs) \<le> length dst \<Longrightarrow>
     emit source b input pos dst =
       Some (SL_OK, take pos dst @ outs cs @ drop (pos + length (outs cs)) dst)"
proof (induction "length source - input" arbitrary: input pos dst cs rule: less_induct)
  case less
  show ?case
  proof (cases "input < length source")
    case True
    note ne = drop_nonempty [OF True]
    obtain c n where r: "replaced b (decode (drop input source)) = Inr (c, n)"
      using decodes_stuck(1) [OF ne] less.prems(1) by (cases "replaced b (decode (drop input source))") auto
    obtain cs' where cs: "cs = c # cs'" "decodes units b (drop (input + n) source) cs'"
      using decodes_next [OF ne r] less.prems(1) by (auto simp: add.commute)
    have n: "0 < n" "n \<le> length source - input"
      using replaced_consumed [OF ne r] by simp_all
    let ?dst = "take pos dst @ out c @ drop (pos + length (out c)) dst"
    have put: "put_units dst pos (out c) = Some (?dst, pos + length (out c))"
      using less.prems(2) by (intro put_units_fits) (simp add: cs(1))
    have "emit source b (input + n) (pos + length (out c)) ?dst =
       Some (SL_OK, take (pos + length (out c)) ?dst @ outs cs' @
             drop (pos + length (out c) + length (outs cs')) ?dst)"
      using less.prems(2) n True by (intro less.hyps [OF _ cs(2)]) (simp_all add: cs(1))
    moreover have "length (take pos dst) = pos"
      using less.prems(2) by simp
    then have "take (pos + length (out c)) ?dst = take pos dst @ out c"
        "drop (pos + length (out c) + length (outs cs')) ?dst =
         drop (pos + length (out c) + length (outs cs')) dst"
      by (simp_all add: ac_simps)
    ultimately show ?thesis
      using True r by (subst emit_eq) (simp add: put cs(1) add.assoc)
  next
    case False
    then have "decodes units b [] cs" using less.prems(1) by simp
    then have "cs = []" using decodes_functional decodes_done by blast
    then show ?thesis using False by (subst emit_eq) simp
  qed
qed

lemma convert_decodes:
  assumes "decodes units b (take n src) cs" "3 * n \<le> SIZE_MAX"
    and "dst = None \<Longrightarrow> cap = 0" "\<And>d. dst = Some d \<Longrightarrow> cap \<le> length d"
  shows "convert (Some src) n dst cap (Some w) b = Some (outcome (outs cs) dst cap)"
proof -
  have r: "required (take n src) b 0 0 = Inr (length (outs cs))"
    using required_decodes [of b 0 "take n src" cs 0] assms(1,2) by simp
  show ?thesis
  proof (cases dst)
    case None
    then show ?thesis
      using assms(3) r by (subst convert_eq) (simp add: outcome_def)
  next
    case (Some d)
    then show ?thesis
      using assms(4) [OF Some] r emit_decodes [of b 0 "take n src" cs 0 d] assms(1)
      by (subst convert_eq) (simp add: outcome_def)
  qed
qed

lemma convert_stuck:
  assumes "\<nexists>cs. decodes units b (take n src) cs" "3 * n \<le> SIZE_MAX" "dst = None \<Longrightarrow> cap = 0"
  shows "convert (Some src) n dst cap (Some w) b = Some (SL_ERROR_INVALID_ENCODING, dst, Some w)"
  using required_stuck [of b 0 "take n src" 0] assms by (subst convert_eq) (auto simp: min_def)

end

section \<open>UTF-8 and UTF-16\<close>

lemma scalar_surrogate: "scalar c \<longleftrightarrow> unat c \<le> 0x10ffff \<and> \<not> surrogate (unat c)"
  by (simp add: scalar_def surrogate_def)

lemma decode_utf8_units: "scalar c \<Longrightarrow> decode_utf8 (utf8_bytes c @ rest) = Inr (c, length (utf8_bytes c))"
  using decoded_encoded [of "unat c" "utf8_bytes c" rest] utf8_bytes_arith [of c]
  by (simp add: decode_utf8_arith scalar_surrogate)

lemma decode_utf8_sound:
  assumes "decode_utf8 us = Inr (c, n)"
  shows "scalar c \<and> utf8_bytes c = take n us"
proof -
  obtain v where d: "decoded us = Some (v, n)" and c: "c = of_nat v"
    using assms by (auto simp: decode_utf8_arith split: option.splits)
  from encoded_decoded [OF d] have v: "v \<le> 0x10ffff" "\<not> surrogate v" "map unat (take n us) = encoded v"
    by auto
  have u: "unat c = v"
    unfolding c by (rule unat_of_nat_small) (use v(1) in simp)
  have "map unat (utf8_bytes c) = map unat (take n us)"
    using utf8_bytes_arith [of c] v u by simp
  then have "utf8_bytes c = take n us"
    by (rule map_injective) (simp add: inj_def word_unat_eq_iff)
  then show ?thesis
    using u v by (simp add: scalar_surrogate)
qed

lemma decode_utf8_error: "decode_utf8 us = Inl e \<Longrightarrow> e = SL_ERROR_INVALID_ENCODING"
  by (auto simp: decode_utf8_arith split: option.splits)

lemma ucast_u16_u32: "unat (c :: u32) < 0x10000 \<Longrightarrow> ucast (ucast c :: u16) = c"
  by (simp add: word_unat_eq_iff unat_ucast_mod)

definition pair_value :: "u16 \<Rightarrow> u16 \<Rightarrow> u32" where
  "pair_value h l = 0x10000 + push_bit 10 (ucast h - 0xd800) + (ucast l - 0xdc00)"

lemma pair_value_arith:
  assumes h: "0xd800 \<le> unat h" "unat h \<le> 0xdbff" and l: "0xdc00 \<le> unat l" "unat l \<le> 0xdfff"
  shows "unat (pair_value h l) = 0x10000 + (unat h - 0xd800) * 1024 + (unat l - 0xdc00)"
proof -
  have uh: "unat (ucast h - 0xd800 :: u32) = unat h - 0xd800"
    using h by (subst unat_sub_no_wrap) (simp_all add: word_cmp_nat unat_ucast_up)
  have ul: "unat (ucast l - 0xdc00 :: u32) = unat l - 0xdc00"
    using l by (subst unat_sub_no_wrap) (simp_all add: word_cmp_nat unat_ucast_up)
  have p: "unat (push_bit 10 (ucast h - 0xd800) :: u32) = (unat h - 0xd800) * 1024"
    using h uh by (subst unat_push_bit_fits) simp_all
  have a: "unat (0x10000 + push_bit 10 (ucast h - 0xd800) :: u32) = 0x10000 + (unat h - 0xd800) * 1024"
    using h p by (subst unat_add_no_wrap) simp_all
  show ?thesis
    unfolding pair_value_def using h l a ul by (subst unat_add_no_wrap) simp_all
qed

lemma decode_utf16_cases:
  "decode_utf16 us = (case us of [] \<Rightarrow> Inl SL_ERROR_INVALID_ENCODING
     | u # rest \<Rightarrow>
         if 0xd800 \<le> unat u \<and> unat u \<le> 0xdbff
         then (case rest of [] \<Rightarrow> Inl SL_ERROR_INVALID_ENCODING
               | l # _ \<Rightarrow> if 0xdc00 \<le> unat l \<and> unat l \<le> 0xdfff then Inr (pair_value u l, 2)
                   else Inl SL_ERROR_INVALID_ENCODING)
         else if 0xdc00 \<le> unat u \<and> unat u \<le> 0xdfff then Inl SL_ERROR_INVALID_ENCODING
         else Inr (ucast u, 1))"
  by (auto simp: decode_utf16_def Let_def word_cmp_nat unat_ucast_up pair_value_def not_le not_less
      split: list.split)

lemma decode_utf16_units:
  assumes "scalar c"
  shows "decode_utf16 (utf16_units c @ rest) = Inr (c, length (utf16_units c))"
proof (cases "unat c < 0x10000")
  case True
  then show ?thesis
    using assms
    by (auto simp: decode_utf16_def utf16_units_def utf16_codepoint_size_def word_cmp_nat
        ucast_u16_u32 scalar_def simp del: utf16_size_length)
next
  case False
  let ?d = "c - 0x10000"
  have d: "unat ?d = unat c - 0x10000"
    using False by (subst unat_sub_no_wrap) (simp_all add: word_cmp_nat)
  then have lt: "unat ?d < 0x100000"
    using assms by (auto simp: scalar_def)
  have hi: "unat (ucast (0xd800 OR drop_bit 10 ?d) :: u16) = 0xd800 + unat ?d div 1024"
    using lt by (subst unit_of_or [where k = 10]) (simp_all add: unat_drop_bit_div less_mult_imp_div_less)
  have lo: "unat (ucast (0xdc00 OR (?d AND 0x3ff)) :: u16) = 0xdc00 + unat ?d mod 1024"
    by (subst unit_of_or [where k = 10]) (simp_all add: unat_low_bits)
  have q: "unat ?d div 1024 < 1024"
    using lt by (simp add: less_mult_imp_div_less)
  have h: "0xd800 \<le> 0xd800 + unat ?d div 1024" "0xd800 + unat ?d div 1024 \<le> 0xdbff"
    using q by simp_all
  have l: "0xdc00 \<le> 0xdc00 + unat ?d mod 1024" "0xdc00 + unat ?d mod 1024 \<le> 0xdfff"
    using mod_less_divisor [of 1024 "unat ?d"] by linarith+
  let ?h = "ucast (0xd800 OR drop_bit 10 ?d) :: u16"
  let ?l = "ucast (0xdc00 OR (?d AND 0x3ff)) :: u16"
  have "unat (pair_value ?h ?l) = unat c"
    using pair_value_arith [of ?h ?l, unfolded hi lo, OF h l] d False
    by (simp add: div_mult_mod_eq)
  then have "pair_value ?h ?l = c"
    by (simp add: word_unat_eq_iff)
  moreover have "utf16_units c = [?h, ?l]"
    using False by (simp add: utf16_units_def Let_def word_cmp_nat)
  ultimately show ?thesis
    using h l by (simp add: decode_utf16_cases hi lo del: utf16_size_length)
qed

lemma decode_utf16_sound:
  assumes "decode_utf16 us = Inr (c, n)"
  shows "scalar c \<and> utf16_units c = take n us"
proof -
  obtain u rest where us: "us = u # rest"
    using assms by (cases us) (auto simp: decode_utf16_cases)
  show ?thesis
  proof (cases "0xd800 \<le> unat u \<and> unat u \<le> 0xdbff")
    case False
    then have "c = ucast u" "n = 1" "\<not> (0xd800 \<le> unat u \<and> unat u \<le> 0xdfff)"
      using assms by (auto simp: decode_utf16_cases us split: if_splits)
    moreover have "unat u \<le> 65535"
      using unat_u16_lt [of u] by linarith
    ultimately show ?thesis
      by (simp add: us utf16_units_def scalar_def word_cmp_nat unat_ucast_up word_unat_eq_iff unat_ucast_mod)
  next
    case True
    then obtain l rest' where l: "rest = l # rest'" "0xdc00 \<le> unat l" "unat l \<le> 0xdfff"
        and c: "c = pair_value u l" "n = 2"
      using assms by (cases rest) (auto simp: decode_utf16_cases us split: if_splits)
    note v = pair_value_arith [OF True [THEN conjunct1] True [THEN conjunct2] l(2,3)]
    let ?d = "c - 0x10000"
    have d: "unat ?d = (unat u - 0xd800) * 1024 + (unat l - 0xdc00)"
      using v by (subst unat_sub_no_wrap) (simp_all add: word_cmp_nat c)
    have lt: "unat ?d < 0x100000"
      using True l d by linarith
    have ll: "unat l - 0xdc00 < 1024"
      using l by linarith
    have "unat (ucast (0xd800 OR drop_bit 10 ?d) :: u16) = 0xd800 + unat ?d div 1024"
      using lt by (subst unit_of_or [where k = 10]) (simp_all add: unat_drop_bit_div less_mult_imp_div_less)
    moreover have "unat (ucast (0xdc00 OR (?d AND 0x3ff)) :: u16) = 0xdc00 + unat ?d mod 1024"
      by (subst unit_of_or [where k = 10]) (simp_all add: unat_low_bits)
    moreover have "unat ?d div 1024 = unat u - 0xd800" "unat ?d mod 1024 = unat l - 0xdc00"
      using ll by (simp_all add: d)
    ultimately have "utf16_units c = [u, l]"
      using True l v by (simp add: utf16_units_def Let_def word_cmp_nat word_unat_eq_iff c)
    moreover have "unat c \<le> 0x10ffff" "0x10000 \<le> unat c"
      using v True l(2,3) unfolding c(1) by linarith+
    then have "scalar c"
      by (simp add: scalar_def)
    ultimately show ?thesis
      by (simp add: us l(1) c(2))
  qed
qed

lemma decode_utf16_error: "decode_utf16 us = Inl e \<Longrightarrow> e = SL_ERROR_INVALID_ENCODING"
  by (auto simp: decode_utf16_cases split: list.splits if_splits)

interpretation utf8: codec decode_utf8 utf8_bytes
  by unfold_locales
     (use decode_utf8_units decode_utf8_sound decode_utf8_consumed decode_utf8_error in auto)

interpretation utf16: codec decode_utf16 utf16_units
  by unfold_locales
     (use decode_utf16_units decode_utf16_sound decode_utf16_consumed decode_utf16_error in auto)


lemma utf16_size_growth: "utf16_codepoint_size c \<le> 2"
  by (simp add: utf16_codepoint_size_def)

lemma utf8_size_growth: "utf8_codepoint_size c \<le> 3 * utf16_codepoint_size c"
  by (simp add: utf8_codepoint_size_def utf16_codepoint_size_def)

lemma utf8_growth:
  assumes "replaced b (decode_utf8 us) = Inr (c, n)" "us \<noteq> []"
  shows "length (utf16_units c) \<le> 3 * n"
  using utf8.replaced_consumed [OF assms(2,1)] utf16_size_growth [of c] by simp

lemma utf16_growth:
  assumes "replaced b (decode_utf16 us) = Inr (c, n)"
  shows "length (utf8_bytes c) \<le> 3 * n"
proof (cases "decode_utf16 us")
  case (Inl e)
  then have "c = 0xfffd" "n = 1"
    using assms by (auto simp: replaced_def split: if_splits)
  then show ?thesis
    by (simp add: utf8_codepoint_size_def)
next
  case (Inr p)
  then have d: "decode_utf16 us = Inr (c, n)"
    using assms by (simp add: replaced_def)
  have "length (utf16_units c) = length (take n us)"
    using decode_utf16_sound [OF d] by simp
  then have "utf16_codepoint_size c = n"
    using decode_utf16_consumed [OF d] by simp
  then show ?thesis
    using utf8_size_growth [of c] by simp
qed

interpretation u8to16: transcoder decode_utf8 utf8_bytes utf16_units
    utf8_required_units utf8_write_units utf8_to_utf16
proof unfold_locales
  show "utf8_required_units source b offset cnt =
     (if offset < length source
      then case replaced b (decode_utf8 (drop offset source)) of
             Inl status \<Rightarrow> Inl status
           | Inr (codepoint, consumed) \<Rightarrow>
               if cnt > SIZE_MAX - length (utf16_units codepoint) then Inl SL_ERROR_OUT_OF_MEMORY
               else utf8_required_units source b (offset + consumed) (cnt + length (utf16_units codepoint))
      else Inr cnt)" for source b offset cnt
    by (subst utf8_required_units.simps) (simp only: Let_def utf16_size_length)
qed (rule utf8_write_units.simps utf8_growth | simp add: utf8_to_utf16_def Let_def cong: if_cong option.case_cong sum.case_cong; fail)+

interpretation u16to8: transcoder decode_utf16 utf16_units utf8_bytes
    utf16_required_bytes utf16_write_bytes utf16_to_utf8
proof unfold_locales
  show "utf16_required_bytes source b offset cnt =
     (if offset < length source
      then case replaced b (decode_utf16 (drop offset source)) of
             Inl status \<Rightarrow> Inl status
           | Inr (codepoint, consumed) \<Rightarrow>
               if cnt > SIZE_MAX - length (utf8_bytes codepoint) then Inl SL_ERROR_OUT_OF_MEMORY
               else utf16_required_bytes source b (offset + consumed) (cnt + length (utf8_bytes codepoint))
      else Inr cnt)" for source b offset cnt
    by (subst utf16_required_bytes.simps) (simp only: Let_def utf8_size_length)
qed (rule utf16_write_bytes.simps utf16_growth | simp add: utf16_to_utf8_def Let_def cong: if_cong option.case_cong sum.case_cong; fail)+

end
