(* ===== verification/Unicode_Properties.thy ===== *)
theory Unicode_Properties
  imports Unicode_Codec
begin

text \<open>
  What the conversions of \<open>src/unicode.c\<close> promise their callers, over the contracts of
  \<open>Unicode_Codec\<close>. The bound \<open>3 * n \<le> SIZE_MAX\<close> holds for every object in memory: an object has
  at most \<open>PTRDIFF_MAX\<close> bytes and a UTF-16 unit is two of them.
\<close>


context transcoder begin

lemma convert_ok_inv:
  assumes "convert (Some src) n (Some d) cap (Some w) b = Some (SL_OK, Some us, Some m)"
    and "3 * n \<le> SIZE_MAX" "cap \<le> length d"
  shows "\<exists>cs. decodes units b (take n src) cs \<and> m = length (outs cs) \<and> us = outs cs @ drop m d"
proof (cases "\<exists>cs. decodes units b (take n src) cs")
  case True
  then obtain cs where "decodes units b (take n src) cs" by blast
  then show ?thesis
    using convert_decodes [of b n src cs "Some d" cap w] assms
    by (intro exI [of _ cs]) (auto simp: outcome_def split: if_splits)
next
  case False
  then show ?thesis
    using convert_stuck [of b n src "Some d" cap w] assms by simp
qed

end

lemma utf8_total_growth:
  "length (concat (map utf8_bytes cs)) \<le> 3 * length (concat (map utf16_units cs))"
  by (induction cs) (use utf8_size_growth in \<open>simp_all add: add_mono distrib_left\<close>)

lemma utf16_size_le_utf8: "utf16_codepoint_size c \<le> utf8_codepoint_size c"
  by (simp add: utf8_codepoint_size_def utf16_codepoint_size_def word_cmp_nat)

lemma utf16_total_le_utf8:
  "length (concat (map utf16_units cs)) \<le> length (concat (map utf8_bytes cs))"
  by (induction cs) (use utf16_size_le_utf8 in \<open>simp_all add: add_mono\<close>)

text \<open>A null destination comes with capacity 0, any other holds at least \<open>cap\<close> units.\<close>

definition capacity_ok :: "'v list option \<Rightarrow> nat \<Rightarrow> bool" where
  "capacity_ok dst cap = (case dst of None \<Rightarrow> cap = 0 | Some d \<Rightarrow> cap \<le> length d)"

lemma capacity_okD:
  "capacity_ok dst cap \<Longrightarrow> dst = None \<Longrightarrow> cap = 0"
  "capacity_ok dst cap \<Longrightarrow> dst = Some d \<Longrightarrow> cap \<le> length d"
  by (simp_all add: capacity_ok_def)

text \<open>Strict conversion from UTF-8. On a sequence of encoded scalar values the destination
  receives exactly their UTF-16 encoding and nothing behind it changes, \<open>written\<close> receives the
  number of units also when the destination is null or too small, and then no unit is written; any
  other input is refused with destination and \<open>written\<close> untouched. No write is out of bounds.\<close>

lemma utf8_to_utf16_exact:
  assumes "3 * n \<le> SIZE_MAX" "capacity_ok dst cap"
  shows "(list_all scalar cs \<and> take n src = concat (map utf8_bytes cs) \<longrightarrow>
      sl_utf8_to_utf16 (Some src) n dst cap (Some w) =
        Some (outcome (concat (map utf16_units cs)) dst cap)) \<and>
    ((\<nexists>cs. list_all scalar cs \<and> take n src = concat (map utf8_bytes cs)) \<longrightarrow>
      sl_utf8_to_utf16 (Some src) n dst cap (Some w) = Some (SL_ERROR_INVALID_ENCODING, dst, Some w))"
  unfolding sl_utf8_to_utf16_def utf8.decodes_strict [symmetric]
  using u8to16.convert_decodes [OF _ assms(1) capacity_okD [OF assms(2)]]
    u8to16.convert_stuck [OF _ assms(1) capacity_okD(1) [OF assms(2)]]
  by (simp add: u8to16.outs_def)

text \<open>Strict conversion from UTF-16, with the same promise: exact UTF-8 on well-formed input,
  refusal of unpaired surrogates, the size reported when the destination is null or too small.\<close>

lemma utf16_to_utf8_exact:
  assumes "3 * n \<le> SIZE_MAX" "capacity_ok dst cap"
  shows "(list_all scalar cs \<and> take n src = concat (map utf16_units cs) \<longrightarrow>
      sl_utf16_to_utf8 (Some src) n dst cap (Some w) =
        Some (outcome (concat (map utf8_bytes cs)) dst cap)) \<and>
    ((\<nexists>cs. list_all scalar cs \<and> take n src = concat (map utf16_units cs)) \<longrightarrow>
      sl_utf16_to_utf8 (Some src) n dst cap (Some w) = Some (SL_ERROR_INVALID_ENCODING, dst, Some w))"
  unfolding sl_utf16_to_utf8_def utf16.decodes_strict [symmetric]
  using u16to8.convert_decodes [OF _ assms(1) capacity_okD [OF assms(2)]]
    u16to8.convert_stuck [OF _ assms(1) capacity_okD(1) [OF assms(2)]]
  by (simp add: u16to8.outs_def)

text \<open>C6: strict conversion is exact in both directions. On well-formed input the destination receives
  exactly the encoding of the same scalar values and nothing behind it changes; \<open>written\<close> receives the
  number of units also when the destination is null or too small, and then no unit is written; any
  other input is refused with destination and \<open>written\<close> untouched. No write is out of bounds.\<close>

theorem strict_conversions_exact:
  assumes "3 * n \<le> SIZE_MAX" "capacity_ok dst cap" "capacity_ok dst' cap'"
  shows "((list_all scalar cs \<and> take n src = concat (map utf8_bytes cs) \<longrightarrow>
      sl_utf8_to_utf16 (Some src) n dst cap (Some w) =
        Some (outcome (concat (map utf16_units cs)) dst cap)) \<and>
    ((\<nexists>cs. list_all scalar cs \<and> take n src = concat (map utf8_bytes cs)) \<longrightarrow>
      sl_utf8_to_utf16 (Some src) n dst cap (Some w) = Some (SL_ERROR_INVALID_ENCODING, dst, Some w))) \<and>
    ((list_all scalar cs \<and> take n src' = concat (map utf16_units cs) \<longrightarrow>
      sl_utf16_to_utf8 (Some src') n dst' cap' (Some w) =
        Some (outcome (concat (map utf8_bytes cs)) dst' cap')) \<and>
    ((\<nexists>cs. list_all scalar cs \<and> take n src' = concat (map utf16_units cs)) \<longrightarrow>
      sl_utf16_to_utf8 (Some src') n dst' cap' (Some w) = Some (SL_ERROR_INVALID_ENCODING, dst', Some w)))"
  by (intro conjI [OF utf8_to_utf16_exact utf16_to_utf8_exact] assms)

theorem strict_conversions_exact_witness:
  "sl_utf8_to_utf16 (Some [0x41, 0xe2, 0x82, 0xac, 7]) 4 (Some [1, 2, 3]) 3 (Some 0) =
     Some (SL_OK, Some [0x41, 0x20ac, 3], Some 2) \<and>
   sl_utf16_to_utf8 (Some [0xd83d, 0xde00, 0x42]) 3 (Some [0, 0]) 2 (Some 9) =
     Some (SL_ERROR_BUFFER_TOO_SMALL, Some [0, 0], Some 5)"
  using strict_conversions_exact [of 4 "Some [1, 2, 3]" 3 "Some [1, 2, 3]" 3 "[0x41, 0x20ac]"
      "[0x41, 0xe2, 0x82, 0xac, 7]" 0 "[]"]
    strict_conversions_exact [of 3 "Some [0, 0]" 2 "Some [0, 0]" 2 "[0x1f600, 0x42]" "[]" 9 "[0xd83d, 0xde00, 0x42]"]
  by (simp add: capacity_ok_def scalar_def utf8_bytes_def utf8_codepoint_size_def utf16_units_def outcome_def Let_def)

text \<open>C7: the lossy conversions never fail on valid arguments: each reads its input as the scalar
  values it encodes, with U+FFFD for every unit at which none starts, and writes exactly their
  encoding.\<close>

theorem lossy_total:
  assumes "3 * n \<le> SIZE_MAX" "capacity_ok dst cap" "capacity_ok dst' cap'"
  shows "(\<exists>cs. decodes utf8_bytes True (take n src) cs \<and>
      sl_utf8_to_utf16_lossy (Some src) n dst cap (Some w) =
        Some (outcome (concat (map utf16_units cs)) dst cap)) \<and>
    (\<exists>cs. decodes utf16_units True (take n src') cs \<and>
      sl_utf16_to_utf8_lossy (Some src') n dst' cap' (Some w) =
        Some (outcome (concat (map utf8_bytes cs)) dst' cap'))"
proof -
  obtain cs where cs: "decodes utf8_bytes True (take n src) cs"
    using utf8.decodes_total by blast
  obtain cs' where cs': "decodes utf16_units True (take n src') cs'"
    using utf16.decodes_total by blast
  show ?thesis
    using u8to16.convert_decodes [OF cs assms(1) capacity_okD [OF assms(2)]] cs
      u16to8.convert_decodes [OF cs' assms(1) capacity_okD [OF assms(3)]] cs'
    unfolding sl_utf8_to_utf16_lossy_def sl_utf16_to_utf8_lossy_def u8to16.outs_def u16to8.outs_def
    by blast
qed

lemma lossy_example:
  "decodes utf8_bytes True [0xff, 0x41] cs \<longleftrightarrow> cs = [0xfffd, 0x41]"
  "decodes utf16_units True [0xd800, 0x41] cs' \<longleftrightarrow> cs' = [0xfffd, 0x41]"
proof -
  have "\<not> starts utf8_bytes [0xff, 0x41]"
    by (simp add: utf8.starts_iff decode_utf8_def utf8_lead_def)
  moreover have "decodes utf8_bytes True [0x41] [0x41]"
    using utf8.decodes_encoded [of "[0x41]" True] by (simp add: scalar_def utf8_bytes_def)
  ultimately have "decodes utf8_bytes True [0xff, 0x41] [0xfffd, 0x41]"
    by (intro decodes_invalid) simp_all
  then show "decodes utf8_bytes True [0xff, 0x41] cs \<longleftrightarrow> cs = [0xfffd, 0x41]"
    using utf8.decodes_functional by blast
  have "\<not> starts utf16_units [0xd800, 0x41]"
    by (simp add: utf16.starts_iff decode_utf16_def)
  moreover have "decodes utf16_units True [0x41] [0x41]"
    using utf16.decodes_encoded [of "[0x41]" True] by (simp add: scalar_def utf16_units_def)
  ultimately have "decodes utf16_units True [0xd800, 0x41] [0xfffd, 0x41]"
    by (intro decodes_invalid) simp_all
  then show "decodes utf16_units True [0xd800, 0x41] cs' \<longleftrightarrow> cs' = [0xfffd, 0x41]"
    using utf16.decodes_functional by blast
qed

theorem lossy_total_witness:
  "sl_utf8_to_utf16_lossy (Some [0xff, 0x41]) 2 (Some [1, 2, 3]) 3 (Some 0) =
     Some (SL_OK, Some [0xfffd, 0x41, 3], Some 2) \<and>
   sl_utf16_to_utf8_lossy (Some [0xd800, 0x41]) 2 None 0 (Some 0) = Some (SL_OK, None, Some 4)"
  using lossy_total [of 2 "Some [1, 2, 3]" 3 None 0 "[0xff, 0x41]" 0 "[0xd800, 0x41]"]
  by (simp add: lossy_example capacity_ok_def outcome_def utf16_units_def utf8_codepoint_size_def)

text \<open>Round trip from UTF-16. What the strict conversion to UTF-8 wrote converts back to the
  very units it was made from, and their number.\<close>

lemma utf16_utf8_roundtrip:
  assumes "sl_utf16_to_utf8 (Some src) n (Some d) cap (Some w) = Some (SL_OK, Some bs, Some m)"
    and "9 * n \<le> SIZE_MAX" "cap \<le> length d" "n \<le> length src"
    and "n \<le> cap'" "cap' \<le> length d'"
  shows "sl_utf8_to_utf16 (Some bs) m (Some d') cap' (Some w') =
    Some (SL_OK, Some (take n src @ drop n d'), Some n)"
proof -
  obtain cs where cs: "list_all scalar cs" "take n src = concat (map utf16_units cs)"
      and m: "m = length (concat (map utf8_bytes cs))" "bs = concat (map utf8_bytes cs) @ drop m d"
    using u16to8.convert_ok_inv [OF assms(1) [unfolded sl_utf16_to_utf8_def]] assms(2,3)
    by (auto simp: u16to8.outs_def utf16.decodes_strict)
  have n: "n = length (concat (map utf16_units cs))"
    using assms(4) arg_cong [OF cs(2), of length] by simp
  have d: "decodes utf8_bytes False (take m bs) cs"
    using cs(1) m by (simp add: utf8.decodes_strict)
  have "3 * m \<le> SIZE_MAX"
    using utf8_total_growth [of cs] assms(2) unfolding m(1) n by linarith
  then show ?thesis
    using u8to16.convert_decodes [OF d, of "Some d'" cap' w'] assms(4-6) n cs(2)
    unfolding sl_utf8_to_utf16_def by (simp add: outcome_def u8to16.outs_def)
qed

text \<open>Round trip from UTF-8. What the strict conversion to UTF-16 wrote converts back to the
  very bytes it was made from, and their number: no two byte strings share a UTF-16 form.\<close>

lemma utf8_utf16_roundtrip:
  assumes "sl_utf8_to_utf16 (Some src) n (Some d) cap (Some w) = Some (SL_OK, Some us, Some m)"
    and "3 * n \<le> SIZE_MAX" "cap \<le> length d" "n \<le> length src"
    and "n \<le> cap'" "cap' \<le> length d'"
  shows "sl_utf16_to_utf8 (Some us) m (Some d') cap' (Some w') =
    Some (SL_OK, Some (take n src @ drop n d'), Some n)"
proof -
  obtain cs where cs: "list_all scalar cs" "take n src = concat (map utf8_bytes cs)"
      and m: "m = length (concat (map utf16_units cs))" "us = concat (map utf16_units cs) @ drop m d"
    using u8to16.convert_ok_inv [OF assms(1) [unfolded sl_utf8_to_utf16_def]] assms(2,3)
    by (auto simp: u8to16.outs_def utf8.decodes_strict)
  have n: "n = length (concat (map utf8_bytes cs))"
    using assms(4) arg_cong [OF cs(2), of length] by simp
  have d: "decodes utf16_units False (take m us) cs"
    using cs(1) m by (simp add: utf16.decodes_strict)
  have "3 * m \<le> SIZE_MAX"
    using utf16_total_le_utf8 [of cs] assms(2) unfolding m(1) n by linarith
  then show ?thesis
    using u16to8.convert_decodes [OF d, of "Some d'" cap' w'] assms(4-6) n cs(2)
    unfolding sl_utf16_to_utf8_def by (simp add: outcome_def u16to8.outs_def)
qed

text \<open>C8: round trips. What a strict conversion wrote converts back to the very units it was made
  from, and their number, whichever direction was first: no two strings share a converted form.\<close>

theorem strict_conversions_invert:
  assumes "9 * n \<le> SIZE_MAX" "n \<le> cap'" "cap' \<le> length u" "cap' \<le> length b"
  shows "(cap \<le> length d \<and> n \<le> length us \<and>
      sl_utf16_to_utf8 (Some us) n (Some d) cap (Some w) = Some (SL_OK, Some bs, Some m) \<longrightarrow>
      sl_utf8_to_utf16 (Some bs) m (Some u) cap' (Some w') = Some (SL_OK, Some (take n us @ drop n u), Some n)) \<and>
    (cap \<le> length d' \<and> n \<le> length bs' \<and>
      sl_utf8_to_utf16 (Some bs') n (Some d') cap (Some w) = Some (SL_OK, Some us', Some m) \<longrightarrow>
      sl_utf16_to_utf8 (Some us') m (Some b) cap' (Some w') = Some (SL_OK, Some (take n bs' @ drop n b), Some n))"
proof -
  have size: "3 * n \<le> SIZE_MAX" using assms(1) by simp
  show ?thesis
    by (intro conjI impI; elim conjE)
      (rule utf16_utf8_roundtrip [OF _ assms(1) _ _ assms(2,3)] utf8_utf16_roundtrip [OF _ size _ _ assms(2,4)]; assumption)+
qed

theorem strict_conversions_invert_witness:
  "sl_utf8_to_utf16 (Some [0xf0, 0x9f, 0x98, 0x80, 0]) 4 (Some [1, 2, 3]) 3 (Some 0) =
     Some (SL_OK, Some [0xd83d, 0xde00, 3], Some 2)"
proof -
  have "sl_utf16_to_utf8 (Some [0xd83d, 0xde00]) 2 (Some [9, 9, 9, 9, 0]) 5 (Some 0) =
      Some (SL_OK, Some [0xf0, 0x9f, 0x98, 0x80, 0], Some 4)"
    using u16to8.convert_decodes [of False 2 "[0xd83d, 0xde00]" "[0x1f600]" "Some [9, 9, 9, 9, 0]" 5 0]
    by (simp add: sl_utf16_to_utf8_def utf16.decodes_strict u16to8.outs_def scalar_def
        utf8_bytes_def utf16_units_def outcome_def)
  then show ?thesis
    using strict_conversions_invert [of 2 3 "[1, 2, 3]" "[1, 2, 3]" 5 "[9, 9, 9, 9, 0]" "[0xd83d, 0xde00]" 0
        "[0xf0, 0x9f, 0x98, 0x80, 0]" 4 0 "[]" "[]" "[]"] by simp
qed

end
