(* ===== verification/PE_Image.thy ===== *)
theory PE_Image
  imports Status
begin

text \<open>
  \<open>src/pe.c\<close>, first part: bounds-checked little-endian reads of a byte view and \<open>sl_pe_parse\<close>,
  which turns a file into a \<open>sl_pe_image\<close>. A \<open>sl_byte_view\<close> with data is the list of its bytes, the
  null view is \<open>None\<close>. Offsets are \<open>size_t\<close>: they stay below twice the view size, so only the sums the
  code itself checks (\<open>add_size\<close>) can overflow for a view that exists in memory. The contents of the
  out parameter after a failed parse are not modelled: no caller reads them.
\<close>

section \<open>Reading little-endian values\<close>



definition range_fits :: "nat \<Rightarrow> nat \<Rightarrow> nat \<Rightarrow> bool" where
  "range_fits offset len tot \<longleftrightarrow> offset \<le> tot \<and> len \<le> tot - offset"

definition u32_range_fits :: "u32 \<Rightarrow> u32 \<Rightarrow> u32 \<Rightarrow> bool" where
  "u32_range_fits offset len tot \<longleftrightarrow> offset \<le> tot \<and> len \<le> tot - offset"

definition read_u16 :: "bytes \<Rightarrow> nat \<Rightarrow> u16 option" where
  "read_u16 view offset =
     (if \<not> range_fits offset 2 (length view) then None
      else Some (ucast (view ! offset) OR push_bit 8 (ucast (view ! (offset + 1)))))"

definition read_u32 :: "bytes \<Rightarrow> nat \<Rightarrow> u32 option" where
  "read_u32 view offset =
     (if \<not> range_fits offset 4 (length view) then None
      else Some (ucast (view ! offset) OR push_bit 8 (ucast (view ! (offset + 1)))
        OR push_bit 16 (ucast (view ! (offset + 2))) OR push_bit 24 (ucast (view ! (offset + 3)))))"

definition read_u64 :: "bytes \<Rightarrow> nat \<Rightarrow> u64 option" where
  "read_u64 view offset = do {
     low \<leftarrow> read_u32 view offset;
     high \<leftarrow> read_u32 view (offset + 4);
     Some (ucast low OR push_bit 32 (ucast high))
   }"

definition add_size :: "nat \<Rightarrow> nat \<Rightarrow> nat option" where
  "add_size left right = (if right > SIZE_MAX - left then None else Some (left + right))"

section \<open>The parsed image\<close>

record sl_pe_data_directory =
  dir_rva :: u32
  dir_size :: u32

record sl_pe_section =
  sec_name :: bytes
  sec_virtual_size :: u32
  sec_virtual_address :: u32
  sec_raw_size :: u32
  sec_raw_offset :: u32
  sec_characteristics :: u32

text \<open>\<open>pe_directories\<close> is the whole array of 16; \<open>pe_sections\<close> the first \<open>pe_section_count\<close>
  entries of the array of 96, the ones the code reads.\<close>

record sl_pe_image =
  pe_file :: bytes
  pe_machine :: u16
  pe_section_count :: u16
  pe_is_pe32_plus :: bool
  pe_subsystem :: u16
  pe_image_base :: u64
  pe_entry_rva :: u32
  pe_section_alignment :: u32
  pe_file_alignment :: u32
  pe_image_size :: u32
  pe_headers_size :: u32
  pe_directories :: "sl_pe_data_directory list"
  pe_sections :: "sl_pe_section list"

definition SL_PE_MAX_SECTIONS :: nat where "SL_PE_MAX_SECTIONS = 96"
definition SL_PE_DATA_DIRECTORY_COUNT :: nat where "SL_PE_DATA_DIRECTORY_COUNT = 16"
definition SL_PE_DIRECTORY_EXPORT :: nat where "SL_PE_DIRECTORY_EXPORT = 0"
definition SL_PE_DIRECTORY_IMPORT :: nat where "SL_PE_DIRECTORY_IMPORT = 1"
definition SL_PE_DIRECTORY_EXCEPTION :: nat where "SL_PE_DIRECTORY_EXCEPTION = 3"
definition SL_PE_DIRECTORY_BASERELOC :: nat where "SL_PE_DIRECTORY_BASERELOC = 5"
definition SL_PE_MACHINE_I386 :: u16 where "SL_PE_MACHINE_I386 = 0x014c"
definition SL_PE_MACHINE_AMD64 :: u16 where "SL_PE_MACHINE_AMD64 = 0x8664"
definition SL_DOS_E_LFANEW_OFFSET :: nat where "SL_DOS_E_LFANEW_OFFSET = 0x3c"
definition SL_COFF_HEADER_SIZE :: nat where "SL_COFF_HEADER_SIZE = 20"
definition SL_SECTION_HEADER_SIZE :: nat where "SL_SECTION_HEADER_SIZE = 40"

lemmas pe_constants = SL_PE_MAX_SECTIONS_def SL_PE_DATA_DIRECTORY_COUNT_def
  SL_PE_DIRECTORY_EXPORT_def SL_PE_DIRECTORY_IMPORT_def SL_PE_DIRECTORY_EXCEPTION_def
  SL_PE_DIRECTORY_BASERELOC_def SL_PE_MACHINE_I386_def SL_PE_MACHINE_AMD64_def
  SL_DOS_E_LFANEW_OFFSET_def SL_COFF_HEADER_SIZE_def SL_SECTION_HEADER_SIZE_def

definition no_directory :: sl_pe_data_directory where
  "no_directory = \<lparr>dir_rva = 0, dir_size = 0\<rparr>"

text \<open>The image after the \<open>memset\<close> and \<open>image->file = file\<close>.\<close>

definition empty_image :: "bytes \<Rightarrow> sl_pe_image" where
  "empty_image file = \<lparr>pe_file = file, pe_machine = 0, pe_section_count = 0, pe_is_pe32_plus = False,
     pe_subsystem = 0, pe_image_base = 0, pe_entry_rva = 0, pe_section_alignment = 0,
     pe_file_alignment = 0, pe_image_size = 0, pe_headers_size = 0,
     pe_directories = replicate SL_PE_DATA_DIRECTORY_COUNT no_directory, pe_sections = []\<rparr>"

section \<open>The optional header\<close>

text \<open>The part that differs between PE32 and PE32+: whether it is PE32+, the image base, the
  directory count and the offset of the directories.\<close>

definition optional_variant :: "bytes \<Rightarrow> nat \<Rightarrow> nat \<Rightarrow> (bool \<times> u64 \<times> u32 \<times> nat) result" where
  "optional_variant file offset sz =
     and_then (or_fail SL_ERROR_TRUNCATED_FILE (do {
         _ \<leftarrow> check (range_fits offset sz (length file));
         read_u16 file offset
       })) (\<lambda>magic.
     if magic = 0x010b then or_fail SL_ERROR_TRUNCATED_FILE (do {
         _ \<leftarrow> check (96 \<le> sz);
         base \<leftarrow> read_u32 file (offset + 28);
         directory_count \<leftarrow> read_u32 file (offset + 92);
         Some (False, ucast base, directory_count, 96)
       })
     else if magic = 0x020b then or_fail SL_ERROR_TRUNCATED_FILE (do {
         _ \<leftarrow> check (112 \<le> sz);
         base \<leftarrow> read_u64 file (offset + 24);
         directory_count \<leftarrow> read_u32 file (offset + 108);
         Some (True, base, directory_count, 112)
       })
     else Inl SL_ERROR_UNSUPPORTED_OPTIONAL_HEADER)"

definition parse_directory :: "bytes \<Rightarrow> nat \<Rightarrow> nat \<Rightarrow> nat \<Rightarrow> sl_pe_data_directory option" where
  "parse_directory file offset sz relative = do {
     _ \<leftarrow> check (\<not> relative + 8 > sz);
     rva \<leftarrow> read_u32 file (offset + relative);
     len \<leftarrow> read_u32 file (offset + relative + 4);
     Some \<lparr>dir_rva = rva, dir_size = len\<rparr>
   }"

text \<open>The loop that fills \<open>directories[index]\<close> for \<open>index < directory_count\<close>.\<close>

function parse_directories ::
    "bytes \<Rightarrow> nat \<Rightarrow> nat \<Rightarrow> nat \<Rightarrow> nat \<Rightarrow> nat \<Rightarrow> sl_pe_data_directory list \<Rightarrow>
     sl_pe_data_directory list result" where
  "parse_directories file offset sz directory_offset directory_count index directories =
     (if index < directory_count
      then and_then (or_fail SL_ERROR_TRUNCATED_FILE
             (parse_directory file offset sz (directory_offset + index * 8)))
           (\<lambda>d. parse_directories file offset sz directory_offset directory_count (index + 1)
              (directories[index := d]))
      else Inr directories)"
  by pat_completeness auto
termination
  by (relation "measure (\<lambda>(file, offset, sz, directory_offset, n, index, ds). n - index)") auto

declare parse_directories.simps [simp del]

text \<open>The fields at the same offset in both variants, and the checks on them.\<close>

definition parse_header_fields ::
    "bytes \<Rightarrow> nat \<Rightarrow> bool \<Rightarrow> u64 \<Rightarrow> sl_pe_image \<Rightarrow> sl_pe_image option" where
  "parse_header_fields file offset is_pe32_plus image_base img = do {
     entry_rva \<leftarrow> read_u32 file (offset + 16);
     section_alignment \<leftarrow> read_u32 file (offset + 32);
     file_alignment \<leftarrow> read_u32 file (offset + 36);
     image_size \<leftarrow> read_u32 file (offset + 56);
     headers_size \<leftarrow> read_u32 file (offset + 60);
     subsystem \<leftarrow> read_u16 file (offset + 68);
     Some (img\<lparr>pe_is_pe32_plus := is_pe32_plus, pe_image_base := image_base,
       pe_entry_rva := entry_rva, pe_section_alignment := section_alignment,
       pe_file_alignment := file_alignment, pe_image_size := image_size,
       pe_headers_size := headers_size, pe_subsystem := subsystem\<rparr>)
   }"

definition header_fields_valid :: "nat \<Rightarrow> sl_pe_image \<Rightarrow> bool" where
  "header_fields_valid file_size img \<longleftrightarrow>
     \<not> (pe_image_size img = 0 \<or> pe_headers_size img = 0 \<or>
        pe_headers_size img > pe_image_size img \<or>
        unat (pe_headers_size img) > file_size \<or>
        pe_entry_rva img \<noteq> 0 \<and> pe_entry_rva img \<ge> pe_image_size img)"

definition parse_optional_header :: "bytes \<Rightarrow> nat \<Rightarrow> u16 \<Rightarrow> sl_pe_image \<Rightarrow> sl_pe_image result" where
  "parse_optional_header file offset size16 img =
     (let sz = unat size16
      in and_then (optional_variant file offset sz)
           (\<lambda>(is_pe32_plus, image_base, directory_count, directory_offset).
         and_then (or_fail SL_ERROR_TRUNCATED_FILE
             (parse_header_fields file offset is_pe32_plus image_base img))
         (\<lambda>img.
         if \<not> header_fields_valid (length file) img then Inl SL_ERROR_INVALID_IMAGE
         else and_then
           (parse_directories file offset sz directory_offset
              (if unat directory_count > SL_PE_DATA_DIRECTORY_COUNT
               then SL_PE_DATA_DIRECTORY_COUNT else unat directory_count)
              0 (pe_directories img))
           (\<lambda>directories. Inr (img\<lparr>pe_directories := directories\<rparr>)))))"

section \<open>The section table and the whole parse\<close>

definition parse_section :: "bytes \<Rightarrow> nat \<Rightarrow> sl_pe_section option" where
  "parse_section file cursor = do {
     virtual_size \<leftarrow> read_u32 file (cursor + 8);
     virtual_address \<leftarrow> read_u32 file (cursor + 12);
     raw_size \<leftarrow> read_u32 file (cursor + 16);
     raw_offset \<leftarrow> read_u32 file (cursor + 20);
     characteristics \<leftarrow> read_u32 file (cursor + 36);
     Some \<lparr>sec_name = take 8 (drop cursor file) @ [0], sec_virtual_size = virtual_size,
       sec_virtual_address = virtual_address, sec_raw_size = raw_size, sec_raw_offset = raw_offset,
       sec_characteristics = characteristics\<rparr>
   }"

definition section_valid :: "nat \<Rightarrow> u32 \<Rightarrow> sl_pe_section \<Rightarrow> bool" where
  "section_valid file_size image_size section \<longleftrightarrow>
     \<not> (sec_raw_size section \<noteq> 0 \<and>
        (\<not> range_fits (unat (sec_raw_offset section)) (unat (sec_raw_size section)) file_size \<or>
         \<not> u32_range_fits (sec_virtual_address section) (sec_raw_size section) image_size)) \<and>
     \<not> (sec_virtual_size section \<noteq> 0 \<and>
        \<not> u32_range_fits (sec_virtual_address section) (sec_virtual_size section) image_size)"

function parse_sections :: "bytes \<Rightarrow> nat \<Rightarrow> nat \<Rightarrow> nat \<Rightarrow> sl_pe_image \<Rightarrow> sl_pe_image result" where
  "parse_sections file sections_offset section_count index img =
     (if index < section_count
      then and_then (or_fail SL_ERROR_TRUNCATED_FILE
             (parse_section file (sections_offset + index * SL_SECTION_HEADER_SIZE)))
           (\<lambda>section.
             if \<not> section_valid (length file) (pe_image_size img) section
             then Inl SL_ERROR_INVALID_IMAGE
             else parse_sections file sections_offset section_count (index + 1)
                    (img\<lparr>pe_sections := pe_sections img @ [section]\<rparr>))
      else Inr img)"
  by pat_completeness auto
termination
  by (relation "measure (\<lambda>(file, sections_offset, n, index, img). n - index)") auto

declare parse_sections.simps [simp del]

definition sl_pe_parse :: "bytes option \<Rightarrow> sl_pe_image result" where
  "sl_pe_parse view = (case view of None \<Rightarrow> Inl SL_ERROR_INVALID_ARGUMENT | Some file \<Rightarrow>
     if length file < 64 then Inl SL_ERROR_TRUNCATED_FILE
     else if file ! 0 \<noteq> 0x4d \<or> file ! 1 \<noteq> 0x5a then Inl SL_ERROR_BAD_DOS_SIGNATURE
     else and_then (or_fail SL_ERROR_TRUNCATED_FILE (do {
         pe_offset_u32 \<leftarrow> read_u32 file SL_DOS_E_LFANEW_OFFSET;
         signature \<leftarrow> read_u32 file (unat pe_offset_u32);
         Some (unat pe_offset_u32, signature)
       })) (\<lambda>(pe_offset, signature).
     if signature \<noteq> 0x00004550 then Inl SL_ERROR_BAD_PE_SIGNATURE
     else and_then (or_fail SL_ERROR_TRUNCATED_FILE (do {
         coff_offset \<leftarrow> add_size pe_offset 4;
         _ \<leftarrow> check (range_fits coff_offset SL_COFF_HEADER_SIZE (length file));
         machine \<leftarrow> read_u16 file coff_offset;
         section_count \<leftarrow> read_u16 file (coff_offset + 2);
         optional_size \<leftarrow> read_u16 file (coff_offset + 16);
         Some (coff_offset, machine, section_count, optional_size)
       })) (\<lambda>(coff_offset, machine, section_count, optional_size).
     if machine \<noteq> SL_PE_MACHINE_I386 \<and> machine \<noteq> SL_PE_MACHINE_AMD64
     then Inl SL_ERROR_UNSUPPORTED_MACHINE
     else if section_count = 0 \<or> unat section_count > SL_PE_MAX_SECTIONS
     then Inl SL_ERROR_INVALID_IMAGE
     else and_then (or_fail SL_ERROR_INVALID_IMAGE (add_size coff_offset SL_COFF_HEADER_SIZE))
       (\<lambda>optional_offset.
     and_then (parse_optional_header file optional_offset optional_size
         ((empty_image file)\<lparr>pe_machine := machine, pe_section_count := section_count\<rparr>))
       (\<lambda>img.
     if (pe_machine img = SL_PE_MACHINE_AMD64) \<noteq> pe_is_pe32_plus img
     then Inl SL_ERROR_INVALID_IMAGE
     else and_then (or_fail SL_ERROR_TRUNCATED_FILE (do {
         sections_offset \<leftarrow> add_size optional_offset (unat optional_size);
         _ \<leftarrow> check (range_fits sections_offset (unat section_count * SL_SECTION_HEADER_SIZE)
                (length file));
         Some sections_offset
       })) (\<lambda>sections_offset.
     parse_sections file sections_offset (unat section_count) 0 img))))))"

definition sl_pe_machine_name :: "u16 \<Rightarrow> string" where
  "sl_pe_machine_name machine =
     (if machine = SL_PE_MACHINE_I386 then ''x86''
      else if machine = SL_PE_MACHINE_AMD64 then ''x86-64'' else ''unknown'')"

definition sl_pe_subsystem_name :: "u16 \<Rightarrow> string" where
  "sl_pe_subsystem_name subsystem =
     (if subsystem = 2 then ''Windows GUI'' else if subsystem = 3 then ''Windows console''
      else if subsystem = 9 then ''Windows CE GUI''
      else if subsystem = 10 then ''EFI application'' else ''unknown'')"

section \<open>Reads as arithmetic\<close>

lemma range_fits_iff: "range_fits offset len tot \<longleftrightarrow> offset + len \<le> tot"
  by (auto simp: range_fits_def)

lemma u32_range_fits_iff: "u32_range_fits offset len tot \<longleftrightarrow> unat offset + unat len \<le> unat tot"
proof -
  have "offset \<le> tot \<Longrightarrow> unat (tot - offset) = unat tot - unat offset"
    by (rule unat_sub_no_wrap)
  then show ?thesis
    by (auto simp: u32_range_fits_def word_le_nat_alt)
qed

lemma read_u16_arith:
  "read_u16 view offset =
     (if offset + 2 \<le> length view then Some (of_nat (le_value (take 2 (drop offset view)))) else None)"
  unfolding read_u16_def range_fits_iff
  by (simp add: take_2_drop unat_le16 [symmetric] del: le_value.simps)

lemma read_u32_arith:
  "read_u32 view offset =
     (if offset + 4 \<le> length view then Some (of_nat (le_value (take 4 (drop offset view)))) else None)"
  unfolding read_u32_def range_fits_iff
  by (simp add: take_4_drop unat_le32 [symmetric] del: le_value.simps)

lemma le_value_take_8:
  assumes "offset + 8 \<le> length view"
  shows "le_value (take 8 (drop offset view)) = le_value (take 4 (drop offset view))
    + 4294967296 * le_value (take 4 (drop (offset + 4) view))"
proof -
  have "take 8 (drop offset view) = take 4 (drop offset view) @ take 4 (drop (offset + 4) view)"
    using take_add [of 4 4 "drop offset view"] by (simp add: add.commute)
  then show ?thesis
    using assms by (simp add: le_value_append)
qed

lemma le_value_take_less: "le_value (take n (drop offset view)) < 256 ^ n"
proof -
  have "le_value (take n (drop offset view)) < 256 ^ length (take n (drop offset view))"
    by (rule le_value_less)
  also have "\<dots> \<le> 256 ^ n"
    by (rule power_increasing) simp_all
  finally show ?thesis .
qed

lemma read_u64_arith:
  "read_u64 view offset =
     (if offset + 8 \<le> length view then Some (of_nat (le_value (take 8 (drop offset view)))) else None)"
proof (cases "offset + 8 \<le> length view")
  case True
  let ?l = "le_value (take 4 (drop offset view))" and ?h = "le_value (take 4 (drop (offset + 4) view))"
  have lt: "?l < 4294967296" "?h < 4294967296"
    using le_value_take_less [of 4 offset view] le_value_take_less [of 4 "offset + 4" view] by simp_all
  then have u: "unat (of_nat ?l :: u32) = ?l" "unat (of_nat ?h :: u32) = ?h"
    by (simp_all add: unat_of_nat_small)
  have "unat (ucast (of_nat ?l :: u32) OR push_bit 32 (ucast (of_nat ?h :: u32)) :: u64) = ?l + 4294967296 * ?h"
    by (simp only: unat_le64 u)
  moreover have "unat (of_nat (?l + 4294967296 * ?h) :: u64) = ?l + 4294967296 * ?h"
    using lt by (intro unat_of_nat_small) simp
  ultimately have "(ucast (of_nat ?l :: u32) OR push_bit 32 (ucast (of_nat ?h :: u32)) :: u64)
      = of_nat (le_value (take 8 (drop offset view)))"
    by (simp only: word_unat_eq_iff le_value_take_8 [OF True])
  then show ?thesis
    using True by (simp add: read_u64_def read_u32_arith)
qed (auto simp: read_u64_def read_u32_arith)

text \<open>The value a little-endian read returns.\<close>

lemma read_u16_value: "read_u16 view offset = Some v \<Longrightarrow>
    offset + 2 \<le> length view \<and> unat v = le_value (take 2 (drop offset view))"
  using le_value_take_less [of 2 offset view]
  by (auto simp: read_u16_arith unat_of_nat_small split: if_splits)

lemma read_u32_value: "read_u32 view offset = Some v \<Longrightarrow>
    offset + 4 \<le> length view \<and> unat v = le_value (take 4 (drop offset view))"
  using le_value_take_less [of 4 offset view]
  by (auto simp: read_u32_arith unat_of_nat_small split: if_splits)

lemma read_u64_value: "read_u64 view offset = Some v \<Longrightarrow>
    offset + 8 \<le> length view \<and> unat v = le_value (take 8 (drop offset view))"
  using le_value_take_less [of 8 offset view]
  by (auto simp: read_u64_arith unat_of_nat_small split: if_splits)

section \<open>Well-formed images\<close>

text \<open>What the rest of the code relies on after a parse.\<close>

definition image_wf :: "sl_pe_image \<Rightarrow> bool" where
  "image_wf img \<longleftrightarrow>
     0 < pe_headers_size img \<and> pe_headers_size img \<le> pe_image_size img \<and>
     unat (pe_headers_size img) \<le> length (pe_file img) \<and>
     (pe_entry_rva img = 0 \<or> pe_entry_rva img < pe_image_size img) \<and>
     0 < unat (pe_section_count img) \<and> unat (pe_section_count img) \<le> SL_PE_MAX_SECTIONS \<and>
     length (pe_sections img) = unat (pe_section_count img) \<and>
     list_all (section_valid (length (pe_file img)) (pe_image_size img)) (pe_sections img) \<and>
     length (pe_directories img) = SL_PE_DATA_DIRECTORY_COUNT \<and>
     (pe_machine img = SL_PE_MACHINE_I386 \<or> pe_machine img = SL_PE_MACHINE_AMD64) \<and>
     (pe_machine img = SL_PE_MACHINE_AMD64 \<longleftrightarrow> pe_is_pe32_plus img)"

lemma parse_directories_length:
  "parse_directories f offset sz d n index ds = Inr ds' \<Longrightarrow> length ds' = length ds"
proof (induction f offset sz d n index ds rule: parse_directories.induct)
  case (1 f offset sz d n index ds)
  show ?case
  proof (cases "index < n")
    case True
    from 1(2) obtain x where "parse_directory f offset sz (d + index * 8) = Some x"
      "parse_directories f offset sz d n (index + 1) (ds[index := x]) = Inr ds'"
      using True by (subst (asm) parse_directories.simps) auto
    then show ?thesis
      using 1(1) [OF True] by fastforce
  next
    case False
    then show ?thesis
      using 1(2) by (subst (asm) parse_directories.simps) simp
  qed
qed

lemma parse_sections_wf:
  "parse_sections f offset n index img = Inr img' \<Longrightarrow> index \<le> n \<Longrightarrow>
     length (pe_sections img) = index \<Longrightarrow>
     list_all (section_valid (length f) (pe_image_size img)) (pe_sections img) \<Longrightarrow>
     length (pe_sections img') = n \<and>
     list_all (section_valid (length f) (pe_image_size img)) (pe_sections img') \<and>
     img' = img\<lparr>pe_sections := pe_sections img'\<rparr>"
proof (induction f offset n index img rule: parse_sections.induct)
  case (1 f offset n index img)
  show ?case
  proof (cases "index < n")
    case True
    let ?img = "\<lambda>s. img\<lparr>pe_sections := pe_sections img @ [s]\<rparr>"
    from 1(2) obtain s where s: "parse_sections f offset n (index + 1) (?img s) = Inr img'"
        and x: "parse_section f (offset + index * SL_SECTION_HEADER_SIZE) = Some s"
        and valid: "section_valid (length f) (pe_image_size img) s"
      using True by (subst (asm) parse_sections.simps) (auto split: if_splits)
    have "length (pe_sections img') = n \<and>
        list_all (section_valid (length f) (pe_image_size (?img s))) (pe_sections img') \<and>
        img' = (?img s)\<lparr>pe_sections := pe_sections img'\<rparr>"
      using 1(1) [OF True _ _ s] 1(3-5) True valid x by simp
    then show ?thesis by simp
  next
    case False
    then show ?thesis
      using 1(2-5) by (subst (asm) parse_sections.simps) simp
  qed
qed

lemma parse_optional_header_wf:
  assumes "parse_optional_header f offset sz img = Inr img'"
  shows "header_fields_valid (length f) img' \<and>
    length (pe_directories img') = length (pe_directories img) \<and> pe_file img' = pe_file img \<and>
    pe_machine img' = pe_machine img \<and> pe_section_count img' = pe_section_count img \<and>
    pe_sections img' = pe_sections img"
proof -
  obtain plus base n d img1 dirs where h: "parse_header_fields f offset plus base img = Some img1"
    and v: "header_fields_valid (length f) img1"
    and d: "parse_directories f offset (unat sz) d n 0 (pe_directories img1) = Inr dirs"
    and img': "img' = img1\<lparr>pe_directories := dirs\<rparr>"
    using assms by (auto simp: parse_optional_header_def Let_def split: if_splits)
  show ?thesis
    using h v parse_directories_length [OF d]
    by (auto simp: img' parse_header_fields_def header_fields_valid_def bind_eq_Some_conv)
qed

lemma sl_pe_parse_wf:
  assumes "sl_pe_parse (Some f) = Inr img"
  shows "image_wf img \<and> pe_file img = f"
proof -
  obtain machine n off sz img1 where
     m: "machine = SL_PE_MACHINE_I386 \<or> machine = SL_PE_MACHINE_AMD64"
     and n: "n \<noteq> 0" "unat n \<le> SL_PE_MAX_SECTIONS"
     and o: "parse_optional_header f off sz
         ((empty_image f)\<lparr>pe_machine := machine, pe_section_count := n\<rparr>) = Inr img1"
     and p: "(pe_machine img1 = SL_PE_MACHINE_AMD64) = pe_is_pe32_plus img1"
     and s: "\<exists>so. parse_sections f so (unat n) 0 img1 = Inr img"
    using assms unfolding sl_pe_parse_def
    by (auto simp: bind_eq_Some_conv not_less split: if_splits; blast)
  then obtain so where s: "parse_sections f so (unat n) 0 img1 = Inr img" by blast
  note w = parse_optional_header_wf [OF o]
  have "length (pe_sections img) = unat n \<and>
     list_all (section_valid (length f) (pe_image_size img1)) (pe_sections img) \<and>
     img = img1\<lparr>pe_sections := pe_sections img\<rparr>"
    by (rule parse_sections_wf [OF s]) (simp_all add: w empty_image_def)
  then obtain ss where "length ss = unat n" "list_all (section_valid (length f) (pe_image_size img1)) ss"
     "img = img1\<lparr>pe_sections := ss\<rparr>" by blast
  then show ?thesis
    using m n p w unfolding image_wf_def header_fields_valid_def
    by (auto simp: empty_image_def unat_gt_0 word_neq_0_conv)
qed

end
