(* ===== verification/PE_Rva.thy ===== *)
theory PE_Rva
  imports PE_Image
begin

text \<open>
  \<open>src/pe.c\<close>, second part: which bytes of the file an RVA names (\<open>rva_file_window\<close>) and reads of
  integers and C strings at an RVA. Sums of a 32-bit offset and a 32-bit delta in \<open>size_t\<close> do not
  overflow, so they are sums of naturals.
\<close>

section \<open>From RVAs to the file\<close>

text \<open>The loop over the sections: the first one whose span holds the RVA decides.\<close>

fun section_window :: "nat \<Rightarrow> u32 \<Rightarrow> sl_pe_section list \<Rightarrow> (nat \<times> nat) result" where
  "section_window file_size rva [] = Inl SL_ERROR_RVA_NOT_MAPPED"
| "section_window file_size rva (section # sections) =
     (let span = if sec_virtual_size section > sec_raw_size section
                 then sec_virtual_size section else sec_raw_size section
      in if rva \<ge> sec_virtual_address section \<and> rva - sec_virtual_address section < span
         then let delta = rva - sec_virtual_address section
              in if delta \<ge> sec_raw_size section \<or>
                    \<not> range_fits (unat (sec_raw_offset section) + unat delta) 1 file_size
                 then Inl SL_ERROR_RVA_NOT_MAPPED
                 else let offset = unat (sec_raw_offset section) + unat delta;
                          section_available = unat (sec_raw_size section) - unat delta;
                          file_available = file_size - offset
                      in Inr (offset, if section_available < file_available
                                      then section_available else file_available)
         else section_window file_size rva sections)"

definition rva_file_window :: "sl_pe_image \<Rightarrow> u32 \<Rightarrow> (nat \<times> nat) result" where
  "rva_file_window img rva =
     (if rva < pe_headers_size img \<and> unat rva < length (pe_file img)
      then let header_available = unat (pe_headers_size img) - unat rva;
               file_available = length (pe_file img) - unat rva
           in Inr (unat rva, if header_available < file_available
                             then header_available else file_available)
      else section_window (length (pe_file img)) rva (pe_sections img))"

definition sl_pe_rva_to_file_offset :: "sl_pe_image option \<Rightarrow> u32 \<Rightarrow> nat result" where
  "sl_pe_rva_to_file_offset img rva = (case img of None \<Rightarrow> Inl SL_ERROR_INVALID_ARGUMENT
     | Some img \<Rightarrow> and_then (rva_file_window img rva) (\<lambda>(offset, available). Inr offset))"

definition read_rva_u32 :: "sl_pe_image \<Rightarrow> u32 \<Rightarrow> u32 result" where
  "read_rva_u32 img rva = and_then (rva_file_window img rva) (\<lambda>(offset, available).
     if available < 4 then Inl SL_ERROR_TRUNCATED_FILE
     else or_fail SL_ERROR_TRUNCATED_FILE (read_u32 (pe_file img) offset))"

definition read_rva_u16 :: "sl_pe_image \<Rightarrow> u32 \<Rightarrow> u16 result" where
  "read_rva_u16 img rva = and_then (rva_file_window img rva) (\<lambda>(offset, available).
     if available < 2 then Inl SL_ERROR_TRUNCATED_FILE
     else or_fail SL_ERROR_TRUNCATED_FILE (read_u16 (pe_file img) offset))"

definition read_rva_u64 :: "sl_pe_image \<Rightarrow> u32 \<Rightarrow> u64 result" where
  "read_rva_u64 img rva = and_then (rva_file_window img rva) (\<lambda>(offset, available).
     if available < 8 then Inl SL_ERROR_TRUNCATED_FILE
     else or_fail SL_ERROR_TRUNCATED_FILE (read_u64 (pe_file img) offset))"

text \<open>The C string at a place in the file; \<open>memchr\<close> searches the window for its terminator.\<close>

definition c_string_at :: "bytes \<Rightarrow> nat \<Rightarrow> bytes" where
  "c_string_at data offset = takeWhile (\<lambda>b. b \<noteq> 0) (drop offset data)"

definition read_rva_string :: "sl_pe_image \<Rightarrow> u32 \<Rightarrow> bytes result" where
  "read_rva_string img rva = and_then (rva_file_window img rva) (\<lambda>(offset, available).
     if 0 \<notin> set (take available (drop offset (pe_file img))) then Inl SL_ERROR_TRUNCATED_FILE
     else Inr (c_string_at (pe_file img) offset))"

text \<open>A window of a well-formed image is a nonempty part of the file.\<close>

lemma section_window_bounds:
  "section_window n rva ss = Inr (offset, available) \<Longrightarrow> 0 < available \<and> offset + available \<le> n"
proof (induction ss)
  case (Cons s ss)
  have sub: "rva - sec_virtual_address s < sec_raw_size s \<Longrightarrow>
      unat (rva - sec_virtual_address s) < unat (sec_raw_size s)"
    by (simp add: word_less_nat_alt)
  show ?case
    using Cons sub by (auto simp: Let_def not_le range_fits_iff split: if_splits)
qed simp

lemma rva_file_window_bounds:
  "rva_file_window img rva = Inr (offset, available) \<Longrightarrow>
     0 < available \<and> offset + available \<le> length (pe_file img)"
  using section_window_bounds
  by (fastforce simp: rva_file_window_def Let_def word_less_nat_alt split: if_splits)

text \<open>A call in a chain \<open>f(...) != SL_OK || ...\<close>, of which only success matters.\<close>

definition ok :: "'a result \<Rightarrow> 'a option" where
  "ok r = (case r of Inl status \<Rightarrow> None | Inr a \<Rightarrow> Some a)"

lemma ok_simps [simp]: "ok r = Some a \<longleftrightarrow> r = Inr a" "ok (Inr a) = Some a" "ok (Inl e) = None"
  by (auto simp: ok_def split: sum.splits)

text \<open>In a well-formed image a window ends inside the image, so below the 32-bit limit.\<close>

lemma section_window_end:
  "section_window n rva ss = Inr (offset, available) \<Longrightarrow> list_all (section_valid n isize) ss \<Longrightarrow>
     unat rva + available \<le> unat isize"
proof (induction ss)
  case (Cons s ss)
  show ?case
  proof (cases "rva \<ge> sec_virtual_address s \<and> rva - sec_virtual_address s <
      (if sec_virtual_size s > sec_raw_size s then sec_virtual_size s else sec_raw_size s)")
    case True
    then have d: "unat (rva - sec_virtual_address s) = unat rva - unat (sec_virtual_address s)"
        "unat (sec_virtual_address s) \<le> unat rva"
      by (simp_all add: unat_sub_no_wrap word_le_nat_alt)
    have lt: "rva - sec_virtual_address s < sec_raw_size s"
        and a: "available \<le> unat (sec_raw_size s) - unat (rva - sec_virtual_address s)"
      using Cons.prems(1) True by (auto simp: Let_def not_le split: if_splits)
    then have "sec_raw_size s \<noteq> 0"
      by auto
    then have "unat (sec_virtual_address s) + unat (sec_raw_size s) \<le> unat isize"
      using Cons.prems(2) by (simp add: section_valid_def u32_range_fits_iff)
    then show ?thesis
      using a d lt unfolding word_less_nat_alt by linarith
  next
    case False
    then have "section_window n rva ss = Inr (offset, available)"
      using Cons.prems(1) by (auto simp: Let_def split: if_splits)
    then show ?thesis
      using Cons by simp
  qed
qed simp

lemma rva_file_window_end:
  assumes "image_wf img" "rva_file_window img rva = Inr (offset, available)"
  shows "unat rva + available \<le> unat (pe_image_size img)"
proof (cases "rva < pe_headers_size img \<and> unat rva < length (pe_file img)")
  case True
  then have "available \<le> unat (pe_headers_size img) - unat rva"
    using assms(2) by (auto simp: rva_file_window_def Let_def split: if_splits)
  moreover have "unat (pe_headers_size img) \<le> unat (pe_image_size img)"
    using assms(1) by (simp add: image_wf_def word_le_nat_alt)
  ultimately show ?thesis
    using True unfolding word_less_nat_alt by linarith
next
  case False
  then have "section_window (length (pe_file img)) rva (pe_sections img) = Inr (offset, available)"
    using assms(2) by (simp only: rva_file_window_def if_False)
  then show ?thesis
    using section_window_end assms(1) unfolding image_wf_def by blast
qed

lemma read_rva_u32_end:
  assumes "image_wf img" "read_rva_u32 img rva = Inr v"
  shows "unat rva + 4 < 2 ^ 32"
proof -
  obtain offset available where "rva_file_window img rva = Inr (offset, available)" "4 \<le> available"
    using assms(2) by (auto simp: read_rva_u32_def split: if_splits)
  then have "unat rva + 4 \<le> unat (pe_image_size img)"
    using rva_file_window_end [OF assms(1)] by fastforce
  then show ?thesis
    using unat_u32_le [of "pe_image_size img"] by (simp del: unat_u32_le)
qed

end
