(* ===== verification/PE_Imports.thy ===== *)
theory PE_Imports
  imports PE_Rva
begin

text \<open>
  \<open>src/pe.c\<close>, third part: the walks over the import directory. A callback with its context pointer is
  a function from the context and the visited item to whether to go on and the context it leaves.
\<close>

section \<open>Imports\<close>

definition SL_IMPORT_DESCRIPTOR_SIZE :: u32 where "SL_IMPORT_DESCRIPTOR_SIZE = 20"

record sl_pe_import_symbol =
  imp_module_name :: bytes
  imp_symbol_name :: "bytes option"
  imp_iat_rva :: u32
  imp_hint :: u16
  imp_ordinal :: u16
  imp_by_ordinal :: bool

record import_descriptor =
  original_thunk :: u32
  timestamp :: u32
  forwarder_chain :: u32
  name_rva :: u32
  first_thunk :: u32

text \<open>The five reads of one descriptor; any failure is the same error.\<close>

definition read_import_descriptor ::
    "sl_pe_image \<Rightarrow> sl_pe_data_directory \<Rightarrow> u32 \<Rightarrow> import_descriptor option" where
  "read_import_descriptor img imports consumed =
     (let cursor = dir_rva imports + consumed in do {
        _ \<leftarrow> check (\<not> cursor < dir_rva imports);
        original_thunk \<leftarrow> ok (read_rva_u32 img cursor);
        timestamp \<leftarrow> ok (read_rva_u32 img (cursor + 4));
        forwarder_chain \<leftarrow> ok (read_rva_u32 img (cursor + 8));
        name_rva \<leftarrow> ok (read_rva_u32 img (cursor + 12));
        first_thunk \<leftarrow> ok (read_rva_u32 img (cursor + 16));
        Some \<lparr>original_thunk = original_thunk, timestamp = timestamp,
          forwarder_chain = forwarder_chain, name_rva = name_rva, first_thunk = first_thunk\<rparr>
      })"

definition null_descriptor :: "import_descriptor \<Rightarrow> bool" where
  "null_descriptor d \<longleftrightarrow> original_thunk d = 0 \<and> timestamp d = 0 \<and> forwarder_chain d = 0 \<and>
     name_rva d = 0 \<and> first_thunk d = 0"

text \<open>
  A callback takes the context and what it visits, and returns whether to go on with the context it
  leaves. The descriptor loop computes \<open>consumed + 20\<close> in 32 bits and could wrap around, so the loop
  is a partial function, \<open>None\<close> if it does not end; \<open>loop_walk\<close> shows that it ends on every
  well-formed image.
\<close>

partial_function (option) import_loop ::
    "sl_pe_image \<Rightarrow> sl_pe_data_directory \<Rightarrow> ('s \<Rightarrow> bytes \<Rightarrow> bool \<times> 's) \<Rightarrow> u32 \<Rightarrow> 's \<Rightarrow>
     (sl_status \<times> 's) option" where
  "import_loop img imports callback consumed context =
     (if consumed + SL_IMPORT_DESCRIPTOR_SIZE \<le> dir_size imports
      then case read_import_descriptor img imports consumed of
             None \<Rightarrow> Some (SL_ERROR_INVALID_IMAGE, context)
           | Some d \<Rightarrow>
               if null_descriptor d then Some (SL_OK, context)
               else (case read_rva_string img (name_rva d) of
                       Inl _ \<Rightarrow> Some (SL_ERROR_INVALID_IMAGE, context)
                     | Inr module_name \<Rightarrow>
                         (case callback context module_name of (go_on, context) \<Rightarrow>
                            if \<not> go_on then Some (SL_OK, context)
                            else import_loop img imports callback
                                   (consumed + SL_IMPORT_DESCRIPTOR_SIZE) context))
      else Some (SL_ERROR_INVALID_IMAGE, context))"

definition import_directory :: "sl_pe_image \<Rightarrow> sl_pe_data_directory" where
  "import_directory img = pe_directories img ! SL_PE_DIRECTORY_IMPORT"

definition sl_pe_for_each_import ::
    "sl_pe_image option \<Rightarrow> ('s \<Rightarrow> bytes \<Rightarrow> bool \<times> 's) option \<Rightarrow> 's \<Rightarrow> (sl_status \<times> 's) option" where
  "sl_pe_for_each_import img callback context =
     (case (img, callback) of
        (Some img, Some callback) \<Rightarrow>
          let imports = import_directory img
          in if dir_rva imports = 0 \<or> dir_size imports = 0 then Some (SL_OK, context)
             else if dir_rva imports \<ge> pe_image_size img \<or>
                     dir_size imports > pe_image_size img - dir_rva imports
             then Some (SL_ERROR_INVALID_IMAGE, context)
             else import_loop img imports callback 0 context
      | _ \<Rightarrow> Some (SL_ERROR_INVALID_ARGUMENT, context))"

text \<open>One thunk: the end of the table, an error, or the symbol it names.\<close>

definition read_thunk :: "sl_pe_image \<Rightarrow> u32 \<Rightarrow> u64 result" where
  "read_thunk img lookup_rva =
     (if pe_is_pe32_plus img then read_rva_u64 img lookup_rva
      else and_then (read_rva_u32 img lookup_rva) (\<lambda>thunk32. Inr (ucast thunk32)))"

definition thunk_symbol :: "sl_pe_image \<Rightarrow> bytes \<Rightarrow> u32 \<Rightarrow> u64 \<Rightarrow> sl_pe_import_symbol option" where
  "thunk_symbol img module_name iat_rva thunk =
     (let ordinal_flag = if pe_is_pe32_plus img then 0x8000000000000000 else 0x80000000;
          symbol = \<lparr>imp_module_name = module_name, imp_symbol_name = None, imp_iat_rva = iat_rva,
            imp_hint = 0, imp_ordinal = 0, imp_by_ordinal = (thunk AND ordinal_flag \<noteq> 0)\<rparr>
      in if imp_by_ordinal symbol
         then if thunk AND NOT (ordinal_flag OR 0xffff) \<noteq> 0 then None
              else Some (symbol\<lparr>imp_ordinal := ucast (thunk AND 0xffff)\<rparr>)
         else if thunk > 0xffffffff then None
         else let name_rva = ucast thunk :: u32
              in if name_rva > 0xffffffff - 2 then None
                 else do {
                   hint \<leftarrow> ok (read_rva_u16 img name_rva);
                   symbol_name \<leftarrow> ok (read_rva_string img (name_rva + 2));
                   Some (symbol\<lparr>imp_hint := hint, imp_symbol_name := Some symbol_name\<rparr>)
                 })"

definition thunk_entry_size :: "sl_pe_image \<Rightarrow> u32" where
  "thunk_entry_size img = (if pe_is_pe32_plus img then 8 else 4)"

text \<open>The condition for one more round of the thunk loop.\<close>

definition iat_slot_mapped :: "sl_pe_image \<Rightarrow> u32 \<Rightarrow> bool" where
  "iat_slot_mapped img iat_rva =
     (case rva_file_window img iat_rva of Inl _ \<Rightarrow> False
      | Inr (_, available) \<Rightarrow> \<not> available < unat (thunk_entry_size img))"

function thunk_loop ::
    "sl_pe_image \<Rightarrow> bytes \<Rightarrow> ('s \<Rightarrow> sl_pe_import_symbol \<Rightarrow> bool \<times> 's) \<Rightarrow> u32 \<Rightarrow> u32 \<Rightarrow> 's \<Rightarrow>
     sl_status \<times> bool \<times> 's" where
  "thunk_loop img module_name callback lookup_rva iat_rva context =
     (if \<not> iat_slot_mapped img iat_rva then (SL_ERROR_INVALID_IMAGE, True, context)
      else case read_thunk img lookup_rva of
             Inl _ \<Rightarrow> (SL_ERROR_INVALID_IMAGE, True, context)
           | Inr thunk \<Rightarrow>
               if thunk = 0 then (SL_OK, True, context)
               else (case thunk_symbol img module_name iat_rva thunk of
                       None \<Rightarrow> (SL_ERROR_INVALID_IMAGE, True, context)
                     | Some symbol \<Rightarrow>
                         (case callback context symbol of (go_on, context) \<Rightarrow>
                            if \<not> go_on then (SL_OK, False, context)
                            else if lookup_rva > 0xffffffff - thunk_entry_size img \<or>
                                    iat_rva > 0xffffffff - thunk_entry_size img
                            then (SL_ERROR_INVALID_IMAGE, True, context)
                            else thunk_loop img module_name callback
                                   (lookup_rva + thunk_entry_size img)
                                   (iat_rva + thunk_entry_size img) context)))"
  by pat_completeness auto
termination
proof (relation "measure (\<lambda>(img, m, cb, lookup_rva, iat, s). 2 ^ 32 - unat lookup_rva)", goal_cases)
  case (2 img m cb lookup iat s thunk symbol go_on s')
  have "unat lookup + unat (thunk_entry_size img) < 2 ^ 32"
    using 2 by (auto simp: thunk_entry_size_def word_less_nat_alt unat_sub_no_wrap split: if_splits)
  then have "unat (lookup + thunk_entry_size img) = unat lookup + unat (thunk_entry_size img)"
    by (intro unat_add_no_wrap) simp
  moreover have "0 < unat (thunk_entry_size img)"
    by (simp add: thunk_entry_size_def)
  ultimately show ?case
    using unat_u32_lt [of lookup] by (simp del: unat_u32_lt)
qed simp

declare thunk_loop.simps [simp del]

definition visit_import_thunks ::
    "sl_pe_image \<Rightarrow> bytes \<Rightarrow> u32 \<Rightarrow> u32 \<Rightarrow> ('s \<Rightarrow> sl_pe_import_symbol \<Rightarrow> bool \<times> 's) \<Rightarrow> 's \<Rightarrow>
     sl_status \<times> bool \<times> 's" where
  "visit_import_thunks img module_name original first callback context =
     (let lookup_rva = if original \<noteq> 0 then original else first;
          iat_rva = first
      in if lookup_rva = 0 \<or> iat_rva = 0 then (SL_ERROR_INVALID_IMAGE, True, context)
         else thunk_loop img module_name callback lookup_rva iat_rva context)"

partial_function (option) import_symbol_loop ::
    "sl_pe_image \<Rightarrow> sl_pe_data_directory \<Rightarrow> ('s \<Rightarrow> sl_pe_import_symbol \<Rightarrow> bool \<times> 's) \<Rightarrow> u32 \<Rightarrow> 's \<Rightarrow>
     (sl_status \<times> 's) option" where
  "import_symbol_loop img imports callback consumed context =
     (if consumed + SL_IMPORT_DESCRIPTOR_SIZE \<le> dir_size imports
      then case read_import_descriptor img imports consumed of
             None \<Rightarrow> Some (SL_ERROR_INVALID_IMAGE, context)
           | Some d \<Rightarrow>
               if null_descriptor d then Some (SL_OK, context)
               else (case read_rva_string img (name_rva d) of
                       Inl _ \<Rightarrow> Some (SL_ERROR_INVALID_IMAGE, context)
                     | Inr module_name \<Rightarrow>
                         (case visit_import_thunks img module_name (original_thunk d)
                                 (first_thunk d) callback context of
                            (status, keep_visiting, context) \<Rightarrow>
                              if status \<noteq> SL_OK then Some (status, context)
                              else if \<not> keep_visiting then Some (SL_OK, context)
                              else import_symbol_loop img imports callback
                                     (consumed + SL_IMPORT_DESCRIPTOR_SIZE) context))
      else Some (SL_ERROR_INVALID_IMAGE, context))"

definition sl_pe_for_each_import_symbol ::
    "sl_pe_image option \<Rightarrow> ('s \<Rightarrow> sl_pe_import_symbol \<Rightarrow> bool \<times> 's) option \<Rightarrow> 's \<Rightarrow>
     (sl_status \<times> 's) option" where
  "sl_pe_for_each_import_symbol img callback context =
     (case (img, callback) of
        (Some img, Some callback) \<Rightarrow>
          let imports = import_directory img
          in if dir_rva imports = 0 \<or> dir_size imports = 0 then Some (SL_OK, context)
             else if dir_rva imports \<ge> pe_image_size img \<or>
                     dir_size imports > pe_image_size img - dir_rva imports
             then Some (SL_ERROR_INVALID_IMAGE, context)
             else import_symbol_loop img imports callback 0 context
      | _ \<Rightarrow> Some (SL_ERROR_INVALID_ARGUMENT, context))"

section \<open>The walk as a list\<close>

text \<open>Calling back on the items of a list until one call says stop.\<close>

fun visit :: "('s \<Rightarrow> 'a \<Rightarrow> bool \<times> 's) \<Rightarrow> 'a list \<Rightarrow> 's \<Rightarrow> bool \<times> 's" where
  "visit callback [] s = (True, s)"
| "visit callback (x # xs) s =
     (case callback s x of (go_on, s) \<Rightarrow>
        if go_on then visit callback xs s else (False, s))"

lemma visit_append:
  "visit callback (xs @ ys) s =
     (case visit callback xs s of (go_on, s) \<Rightarrow>
        if go_on then visit callback ys s else (False, s))"
  by (induction xs arbitrary: s) (auto split: prod.splits)

text \<open>The callback that collects everything it is shown.\<close>

definition collect :: "'a list \<Rightarrow> 'a \<Rightarrow> bool \<times> 'a list" where
  "collect xs x = (True, xs @ [x])"

lemma visit_collect: "visit collect xs ys = (True, ys @ xs)"
  by (induction xs arbitrary: ys) (auto simp: collect_def)

text \<open>A walk visits a fixed list and ends with a fixed status, whatever the callback is, unless the
  callback stops it: then the walk succeeds.\<close>

definition walk_outcome :: "sl_status \<Rightarrow> bool \<times> 's \<Rightarrow> sl_status \<times> 's" where
  "walk_outcome status r = (case r of (go_on, s) \<Rightarrow> (if go_on then status else SL_OK, s))"

lemma thunk_entry_step:
  assumes "\<not> lookup > 0xffffffff - thunk_entry_size img"
  shows "2 ^ 32 - unat (lookup + thunk_entry_size img) < 2 ^ 32 - unat lookup"
proof -
  have "unat lookup + unat (thunk_entry_size img) < 2 ^ 32"
    using assms by (auto simp: thunk_entry_size_def word_less_nat_alt unat_sub_no_wrap split: if_splits)
  then have "unat (lookup + thunk_entry_size img) = unat lookup + unat (thunk_entry_size img)"
    by (intro unat_add_no_wrap) simp
  moreover have "0 < unat (thunk_entry_size img)"
    by (simp add: thunk_entry_size_def)
  ultimately show ?thesis
    using unat_u32_lt [of lookup] by (simp del: unat_u32_lt)
qed

lemma thunk_loop_walk:
  "\<exists>xs status. (\<forall>(callback :: 's \<Rightarrow> sl_pe_import_symbol \<Rightarrow> bool \<times> 's) s.
      thunk_loop img m callback lookup iat s =
        (case visit callback xs s of (go_on, s) \<Rightarrow> (if go_on then status else SL_OK, go_on, s))) \<and>
    (\<forall>ys. thunk_loop img m collect lookup iat ys = (status, True, ys @ xs)) \<and>
    list_all (\<lambda>x. imp_module_name x = m \<and> iat_slot_mapped img (imp_iat_rva x)) xs"
proof (induction "2 ^ 32 - unat lookup" arbitrary: lookup iat rule: less_induct)
  case less
  show ?case
  proof (cases "iat_slot_mapped img iat \<and> (\<exists>t. read_thunk img lookup = Inr t \<and> t \<noteq> 0 \<and>
      (\<exists>x. thunk_symbol img m iat t = Some x))")
    case False
    let ?status = "if iat_slot_mapped img iat \<and> read_thunk img lookup = Inr 0 then SL_OK
      else SL_ERROR_INVALID_IMAGE"
    have stop: "thunk_loop img m callback lookup iat s = (?status, True, s)"
        for callback :: "'s \<Rightarrow> sl_pe_import_symbol \<Rightarrow> bool \<times> 's" and s
      using False by (auto simp: thunk_loop.simps [of _ _ _ lookup iat] split: sum.split option.split)
    have stop': "thunk_loop img m collect lookup iat ys = (?status, True, ys)" for ys
      using False by (auto simp: thunk_loop.simps [of _ _ _ lookup iat] split: sum.split option.split)
    show ?thesis
      by (intro exI [of _ "[]"] exI [of _ ?status]) (simp only: stop stop' visit.simps prod.case simp_thms if_True append_Nil2 list.pred_inject)
  next
    case True
    then obtain t x where t: "iat_slot_mapped img iat" "read_thunk img lookup = Inr t" "t \<noteq> 0"
        "thunk_symbol img m iat t = Some x"
      by blast
    let ?e = "thunk_entry_size img"
    have x: "imp_module_name x = m \<and> iat_slot_mapped img (imp_iat_rva x)"
      using t by (auto simp: thunk_symbol_def Let_def bind_eq_Some_conv split: if_splits)
    show ?thesis
    proof (cases "lookup > 0xffffffff - ?e \<or> iat > 0xffffffff - ?e")
      case True
      then show ?thesis
        using t x by (intro exI [of _ "[x]"] exI [of _ SL_ERROR_INVALID_IMAGE])
          (simp add: thunk_loop.simps [of _ _ _ lookup iat] collect_def split: prod.splits)
    next
      case False
      have lt: "2 ^ 32 - unat (lookup + ?e) < 2 ^ 32 - unat lookup"
        using False thunk_entry_step [of img lookup] by auto
      from less [OF lt, of "iat + ?e"] obtain xs status where
        xs: "\<forall>(callback :: 's \<Rightarrow> sl_pe_import_symbol \<Rightarrow> bool \<times> 's) s.
          thunk_loop img m callback (lookup + ?e) (iat + ?e) s =
            (case visit callback xs s of (go_on, s) \<Rightarrow> (if go_on then status else SL_OK, go_on, s))"
        "\<forall>ys. thunk_loop img m collect (lookup + ?e) (iat + ?e) ys = (status, True, ys @ xs)"
        "list_all (\<lambda>x. imp_module_name x = m \<and> iat_slot_mapped img (imp_iat_rva x)) xs"
        by blast
      show ?thesis
        using t x xs False by (intro exI [of _ "x # xs"] exI [of _ status])
          (simp add: thunk_loop.simps [of _ _ _ lookup iat] collect_def split: prod.splits)
    qed
  qed
qed

text \<open>The symbols of one thunk table, and how its walk ends.\<close>

definition thunk_symbols :: "sl_pe_image \<Rightarrow> bytes \<Rightarrow> u32 \<Rightarrow> u32 \<Rightarrow> sl_pe_import_symbol list \<times> sl_status" where
  "thunk_symbols img m original first =
     (case visit_import_thunks img m original first collect [] of (status, go_on, xs) \<Rightarrow> (xs, status))"

lemma visit_import_thunks_walk:
  assumes "thunk_symbols img m original first = (xs, status)"
  shows "visit_import_thunks img m original first (callback :: 's \<Rightarrow> sl_pe_import_symbol \<Rightarrow> bool \<times> 's) s =
      (case visit callback xs s of (go_on, s) \<Rightarrow> (if go_on then status else SL_OK, go_on, s))"
    and "list_all (\<lambda>x. iat_slot_mapped img (imp_iat_rva x)) xs"
proof -
  let ?lookup = "if original \<noteq> 0 then original else first"
  from thunk_loop_walk [where 's = 's, of img m ?lookup first] obtain ys st where
    ys: "\<forall>(callback :: 's \<Rightarrow> sl_pe_import_symbol \<Rightarrow> bool \<times> 's) s.
      thunk_loop img m callback ?lookup first s =
        (case visit callback ys s of (go_on, s) \<Rightarrow> (if go_on then st else SL_OK, go_on, s))"
    "\<forall>zs. thunk_loop img m collect ?lookup first zs = (st, True, zs @ ys)"
    "list_all (\<lambda>x. imp_module_name x = m \<and> iat_slot_mapped img (imp_iat_rva x)) ys"
    by blast
  show "visit_import_thunks img m original first callback s =
      (case visit callback xs s of (go_on, s) \<Rightarrow> (if go_on then status else SL_OK, go_on, s))"
    using assms ys by (auto simp: thunk_symbols_def visit_import_thunks_def Let_def split: if_splits)
  show "list_all (\<lambda>x. iat_slot_mapped img (imp_iat_rva x)) xs"
    using assms ys by (auto simp: thunk_symbols_def visit_import_thunks_def Let_def list_all_iff split: if_splits)
qed

section \<open>The descriptor loop\<close>

text \<open>A descriptor that was read lies inside the image, so the next position does not wrap.\<close>

lemma read_import_descriptor_bound:
  assumes "image_wf img" "read_import_descriptor img dir consumed = Some d"
  shows "unat consumed + 20 < 2 ^ 32"
proof -
  let ?c = "dir_rva dir + consumed"
  have r: "\<not> ?c < dir_rva dir" "\<exists>v. read_rva_u32 img ?c = Inr v" "\<exists>v. read_rva_u32 img (?c + 4) = Inr v"
      "\<exists>v. read_rva_u32 img (?c + 8) = Inr v" "\<exists>v. read_rva_u32 img (?c + 12) = Inr v"
      "\<exists>v. read_rva_u32 img (?c + 16) = Inr v"
    using assms(2) by (auto simp: read_import_descriptor_def Let_def bind_eq_Some_conv)
  have e: "unat x + 4 < 2 ^ 32" if "\<exists>v. read_rva_u32 img x = Inr v" for x
    using that read_rva_u32_end [OF assms(1)] by blast
  have step: "unat (x + 4) = unat x + 4" if "unat x + 4 < 2 ^ 32" for x :: u32
    using that by (subst unat_add_no_wrap) simp_all
  have "unat (?c + 4) = unat ?c + 4"
    by (rule step [OF e [OF r(2)]])
  moreover have "unat (?c + 8) = unat (?c + 4) + 4"
    using step [OF e [OF r(3)]] by (simp add: add.assoc)
  moreover have "unat (?c + 12) = unat (?c + 8) + 4"
    using step [OF e [OF r(4)]] by (simp add: add.assoc)
  moreover have "unat (?c + 16) = unat (?c + 12) + 4"
    using step [OF e [OF r(5)]] by (simp add: add.assoc)
  ultimately have "unat ?c + 20 < 2 ^ 32"
    using e [OF r(6)] by linarith
  moreover have "dir_rva dir \<le> ?c"
    using r(1) by simp
  then have "unat ?c = unat (dir_rva dir) + unat consumed"
    by (intro unat_add_no_wrap) (simp add: no_olen_add_nat)
  ultimately show ?thesis
    by linarith
qed

text \<open>What a walk over the descriptors visits, for loops that visit \<open>items d m\<close> for descriptor
  \<open>d\<close> with module name \<open>m\<close>.\<close>

partial_function (option) listed ::
    "sl_pe_image \<Rightarrow> sl_pe_data_directory \<Rightarrow> (import_descriptor \<Rightarrow> bytes \<Rightarrow> 'a list \<times> sl_status) \<Rightarrow> u32 \<Rightarrow>
     ('a list \<times> sl_status) option" where
  "listed img dir items consumed =
     (if consumed + SL_IMPORT_DESCRIPTOR_SIZE \<le> dir_size dir
      then case read_import_descriptor img dir consumed of
             None \<Rightarrow> Some ([], SL_ERROR_INVALID_IMAGE)
           | Some d \<Rightarrow>
               if null_descriptor d then Some ([], SL_OK)
               else (case read_rva_string img (name_rva d) of
                       Inl _ \<Rightarrow> Some ([], SL_ERROR_INVALID_IMAGE)
                     | Inr m \<Rightarrow>
                         (case items d m of (xs, status) \<Rightarrow>
                            if status \<noteq> SL_OK then Some (xs, status)
                            else Option.bind (listed img dir items (consumed + SL_IMPORT_DESCRIPTOR_SIZE))
                                   (\<lambda>(ys, status). Some (xs @ ys, status))))
      else Some ([], SL_ERROR_INVALID_IMAGE))"

locale descriptor_walk =
  fixes img :: sl_pe_image and dir :: sl_pe_data_directory
    and items :: "import_descriptor \<Rightarrow> bytes \<Rightarrow> 'a list \<times> sl_status"
    and loop :: "('s \<Rightarrow> 'a \<Rightarrow> bool \<times> 's) \<Rightarrow> u32 \<Rightarrow> 's \<Rightarrow> (sl_status \<times> 's) option"
    and good :: "'a \<Rightarrow> bool"
  assumes loop_eq: "loop callback consumed s =
     (if consumed + SL_IMPORT_DESCRIPTOR_SIZE \<le> dir_size dir
      then case read_import_descriptor img dir consumed of
             None \<Rightarrow> Some (SL_ERROR_INVALID_IMAGE, s)
           | Some d \<Rightarrow>
               if null_descriptor d then Some (SL_OK, s)
               else (case read_rva_string img (name_rva d) of
                       Inl _ \<Rightarrow> Some (SL_ERROR_INVALID_IMAGE, s)
                     | Inr m \<Rightarrow>
                         (case visit callback (fst (items d m)) s of (go_on, s) \<Rightarrow>
                            if \<not> go_on then Some (SL_OK, s)
                            else if snd (items d m) \<noteq> SL_OK then Some (snd (items d m), s)
                            else loop callback (consumed + SL_IMPORT_DESCRIPTOR_SIZE) s))
      else Some (SL_ERROR_INVALID_IMAGE, s))"
    and items_good: "read_rva_string img (name_rva d) = Inr m \<Longrightarrow> list_all good (fst (items d m))"
begin

lemma loop_walk:
  assumes wf: "image_wf img"
  shows "\<exists>xs status. listed img dir items consumed = Some (xs, status) \<and> list_all good xs \<and>
      (\<forall>callback s. loop callback consumed s = Some (walk_outcome status (visit callback xs s)))"
proof (induction "2 ^ 32 - unat consumed" arbitrary: consumed rule: less_induct)
  case less
  show ?case
  proof (cases "consumed + SL_IMPORT_DESCRIPTOR_SIZE \<le> dir_size dir \<and>
      (\<exists>d m. read_import_descriptor img dir consumed = Some d \<and> \<not> null_descriptor d \<and>
        read_rva_string img (name_rva d) = Inr m)")
    case False
    let ?status = "if consumed + SL_IMPORT_DESCRIPTOR_SIZE \<le> dir_size dir \<and>
       (\<exists>d. read_import_descriptor img dir consumed = Some d \<and> null_descriptor d)
       then SL_OK else SL_ERROR_INVALID_IMAGE"
    have "loop callback consumed s = Some (?status, s)" for callback s
      using False by (subst loop_eq) (auto split: option.split sum.split)
    moreover have "listed img dir items consumed = Some ([], ?status)"
      using False by (subst listed.simps) (auto split: option.split sum.split)
    ultimately show ?thesis
      by (intro exI [of _ "[]"] exI [of _ ?status]) (simp add: walk_outcome_def)
  next
    case True
    then obtain d m where d: "read_import_descriptor img dir consumed = Some d"
        "\<not> null_descriptor d" "read_rva_string img (name_rva d) = Inr m"
        and c: "consumed + SL_IMPORT_DESCRIPTOR_SIZE \<le> dir_size dir"
      by blast
    obtain xs st where xs: "items d m = (xs, st)" by fastforce
    have g: "list_all good xs" using items_good [OF d(3)] xs by simp
    have step: "unat (consumed + SL_IMPORT_DESCRIPTOR_SIZE) = unat consumed + 20"
      using read_import_descriptor_bound [OF wf d(1)]
      by (subst unat_add_no_wrap) (simp_all add: SL_IMPORT_DESCRIPTOR_SIZE_def)
    show ?thesis
    proof (cases "st = SL_OK")
      case False
      then show ?thesis
        using d c xs g by (intro exI [of _ xs] exI [of _ st])
          (simp add: loop_eq [of _ consumed] listed.simps [of _ _ _ consumed] walk_outcome_def split: prod.split)
    next
      case True
      have "2 ^ 32 - unat (consumed + SL_IMPORT_DESCRIPTOR_SIZE) < 2 ^ 32 - unat consumed"
        using step unat_u32_lt [of consumed] by (simp del: unat_u32_lt)
      from less.hyps [OF this] obtain ys status where
        ys: "listed img dir items (consumed + SL_IMPORT_DESCRIPTOR_SIZE) = Some (ys, status)"
          "list_all good ys"
          "\<forall>callback s. loop callback (consumed + SL_IMPORT_DESCRIPTOR_SIZE) s =
             Some (walk_outcome status (visit callback ys s))"
        by blast
      show ?thesis
        using d c xs g ys True by (intro exI [of _ "xs @ ys"] exI [of _ status])
          (simp add: loop_eq [of _ consumed] listed.simps [of _ _ _ consumed] walk_outcome_def
            visit_append split: prod.split)
    qed
  qed
qed

end

text \<open>Both loops of the source are such walks: over module names and over imported symbols.\<close>

interpretation module_walk: descriptor_walk img dir "\<lambda>d m. ([m], SL_OK)"
    "import_loop img dir" "\<lambda>m. True" for img dir
proof unfold_locales
  show "import_loop img dir callback consumed s =
     (if consumed + SL_IMPORT_DESCRIPTOR_SIZE \<le> dir_size dir
      then case read_import_descriptor img dir consumed of
             None \<Rightarrow> Some (SL_ERROR_INVALID_IMAGE, s)
           | Some d \<Rightarrow>
               if null_descriptor d then Some (SL_OK, s)
               else (case read_rva_string img (name_rva d) of
                       Inl _ \<Rightarrow> Some (SL_ERROR_INVALID_IMAGE, s)
                     | Inr m \<Rightarrow>
                         (case visit callback (fst ([m], SL_OK)) s of (go_on, s) \<Rightarrow>
                            if \<not> go_on then Some (SL_OK, s)
                            else if snd ([m], SL_OK) \<noteq> SL_OK then Some (snd ([m], SL_OK), s)
                            else import_loop img dir callback (consumed + SL_IMPORT_DESCRIPTOR_SIZE) s))
      else Some (SL_ERROR_INVALID_IMAGE, s))" for callback consumed s
    by (subst import_loop.simps) (simp split: option.split sum.split prod.split)
qed simp

interpretation symbol_walk: descriptor_walk img dir
    "\<lambda>d m. thunk_symbols img m (original_thunk d) (first_thunk d)"
    "import_symbol_loop img dir" "\<lambda>x. iat_slot_mapped img (imp_iat_rva x)" for img dir
proof unfold_locales
  fix d m
  show "list_all (\<lambda>x. iat_slot_mapped img (imp_iat_rva x))
      (fst (thunk_symbols img m (original_thunk d) (first_thunk d)))"
    by (rule visit_import_thunks_walk(2)) (rule prod.collapse [symmetric])
next
  show "import_symbol_loop img dir callback consumed s =
     (if consumed + SL_IMPORT_DESCRIPTOR_SIZE \<le> dir_size dir
      then case read_import_descriptor img dir consumed of
             None \<Rightarrow> Some (SL_ERROR_INVALID_IMAGE, s)
           | Some d \<Rightarrow>
               if null_descriptor d then Some (SL_OK, s)
               else (case read_rva_string img (name_rva d) of
                       Inl _ \<Rightarrow> Some (SL_ERROR_INVALID_IMAGE, s)
                     | Inr m \<Rightarrow>
                         (case visit callback (fst (thunk_symbols img m (original_thunk d) (first_thunk d))) s of
                            (go_on, s) \<Rightarrow>
                            if \<not> go_on then Some (SL_OK, s)
                            else if snd (thunk_symbols img m (original_thunk d) (first_thunk d)) \<noteq> SL_OK
                            then Some (snd (thunk_symbols img m (original_thunk d) (first_thunk d)), s)
                            else import_symbol_loop img dir callback (consumed + SL_IMPORT_DESCRIPTOR_SIZE) s))
      else Some (SL_ERROR_INVALID_IMAGE, s))" for callback consumed s
  proof (cases "read_import_descriptor img dir consumed")
    case (Some d)
    show ?thesis
    proof (cases "read_rva_string img (name_rva d)")
      case (Inr m)
      have "thunk_symbols img m (original_thunk d) (first_thunk d) =
          (fst (thunk_symbols img m (original_thunk d) (first_thunk d)),
           snd (thunk_symbols img m (original_thunk d) (first_thunk d)))"
        by simp
      note v = visit_import_thunks_walk(1) [OF this, of callback s]
      show ?thesis
        by (subst import_symbol_loop.simps) (simp add: Some Inr v split: prod.split)
    qed (subst import_symbol_loop.simps, simp add: Some)
  qed (subst import_symbol_loop.simps, simp)
qed

section \<open>Whole directories\<close>

text \<open>The modules and the symbols an image imports, and how the walk over them ends.\<close>

definition directory_items ::
    "sl_pe_image \<Rightarrow> (import_descriptor \<Rightarrow> bytes \<Rightarrow> 'a list \<times> sl_status) \<Rightarrow> ('a list \<times> sl_status) option" where
  "directory_items img items =
     (let dir = import_directory img
      in if dir_rva dir = 0 \<or> dir_size dir = 0 then Some ([], SL_OK)
         else if dir_rva dir \<ge> pe_image_size img \<or> dir_size dir > pe_image_size img - dir_rva dir
         then Some ([], SL_ERROR_INVALID_IMAGE)
         else listed img dir items 0)"

definition imported_modules :: "sl_pe_image \<Rightarrow> (bytes list \<times> sl_status) option" where
  "imported_modules img = directory_items img (\<lambda>d m. ([m], SL_OK))"

definition imported_symbols :: "sl_pe_image \<Rightarrow> (sl_pe_import_symbol list \<times> sl_status) option" where
  "imported_symbols img =
     directory_items img (\<lambda>d m. thunk_symbols img m (original_thunk d) (first_thunk d))"

lemma for_each_import_walk:
  assumes "image_wf img"
  obtains xs status where "imported_modules img = Some (xs, status)"
    "\<And>callback s. sl_pe_for_each_import (Some img) (Some callback) s =
       Some (walk_outcome status (visit callback xs s))"
proof (cases "imported_modules img")
  case None
  then show thesis
    using module_walk.loop_walk [OF assms, of "import_directory img" 0]
    by (fastforce simp: imported_modules_def directory_items_def Let_def split: if_splits)
next
  case (Some p)
  obtain xs status where p: "p = (xs, status)" by (cases p)
  have "sl_pe_for_each_import (Some img) (Some callback) s =
      Some (walk_outcome status (visit callback xs s))" for callback :: "'a \<Rightarrow> bytes \<Rightarrow> bool \<times> 'a" and s
    using module_walk.loop_walk [OF assms, of "import_directory img" 0, where 'a = 'a] Some
    by (auto simp: p imported_modules_def directory_items_def sl_pe_for_each_import_def Let_def
        walk_outcome_def split: if_splits)
  then show thesis
    using that Some p by blast
qed

lemma for_each_import_symbol_walk:
  assumes "image_wf img"
  obtains xs status where "imported_symbols img = Some (xs, status)"
    "list_all (\<lambda>x. iat_slot_mapped img (imp_iat_rva x)) xs"
    "\<And>callback s. sl_pe_for_each_import_symbol (Some img) (Some callback) s =
       Some (walk_outcome status (visit callback xs s))"
proof (cases "imported_symbols img")
  case None
  then show thesis
    using symbol_walk.loop_walk [OF assms, of "import_directory img" 0]
    by (fastforce simp: imported_symbols_def directory_items_def Let_def split: if_splits)
next
  case (Some p)
  obtain xs status where p: "p = (xs, status)" by (cases p)
  have "sl_pe_for_each_import_symbol (Some img) (Some callback) s =
      Some (walk_outcome status (visit callback xs s)) \<and> list_all (\<lambda>x. iat_slot_mapped img (imp_iat_rva x)) xs"
    for callback :: "'a \<Rightarrow> sl_pe_import_symbol \<Rightarrow> bool \<times> 'a" and s
    using symbol_walk.loop_walk [OF assms, of "import_directory img" 0, where 'a = 'a] Some
    by (auto simp: p imported_symbols_def directory_items_def sl_pe_for_each_import_symbol_def Let_def
        walk_outcome_def split: if_splits)
  then show thesis
    using that Some p by blast
qed

end
