(* ===== verification/PE_Exports.thy ===== *)
theory PE_Exports
  imports PE_Rva
begin

text \<open>
  \<open>src/pe.c\<close>, fourth part: the export directory and the lookups by name and by ordinal. Names are C
  strings, that is byte lists without a zero; \<open>strcmp\<close> is their equality.
\<close>

section \<open>The export directory\<close>

record sl_export_directory =
  ex_range :: sl_pe_data_directory
  ex_ordinal_base :: u32
  ex_function_count :: u32
  ex_name_count :: u32
  ex_functions_rva :: u32
  ex_names_rva :: u32
  ex_name_ordinals_rva :: u32

record sl_pe_export =
  exp_name :: "bytes option"
  exp_forwarder :: "bytes option"
  exp_ordinal :: u32
  exp_rva :: u32
  exp_is_forwarder :: bool

definition SL_EXPORT_DIRECTORY_SIZE :: u32 where "SL_EXPORT_DIRECTORY_SIZE = 40"

definition rva_table_fits :: "sl_pe_image \<Rightarrow> u32 \<Rightarrow> u32 \<Rightarrow> nat \<Rightarrow> bool" where
  "rva_table_fits img rva cnt element_size =
     (if cnt = 0 then True
      else if unat cnt > SIZE_MAX div element_size then False
      else case rva_file_window img rva of
             Inl _ \<Rightarrow> False
           | Inr (offset, available) \<Rightarrow> unat cnt * element_size \<le> available)"

definition export_directory :: "sl_pe_image \<Rightarrow> sl_pe_data_directory" where
  "export_directory img = pe_directories img ! SL_PE_DIRECTORY_EXPORT"

text \<open>The range check and the six reads behind one \<open>||\<close> chain.\<close>

definition read_export_fields ::
    "sl_pe_image \<Rightarrow> sl_pe_data_directory \<Rightarrow> sl_export_directory option" where
  "read_export_fields img rng = do {
     _ \<leftarrow> check (\<not> (dir_size rng < SL_EXPORT_DIRECTORY_SIZE \<or> dir_rva rng \<ge> pe_image_size img \<or>
            dir_size rng > pe_image_size img - dir_rva rng));
     ordinal_base \<leftarrow> ok (read_rva_u32 img (dir_rva rng + 16));
     function_count \<leftarrow> ok (read_rva_u32 img (dir_rva rng + 20));
     name_count \<leftarrow> ok (read_rva_u32 img (dir_rva rng + 24));
     functions_rva \<leftarrow> ok (read_rva_u32 img (dir_rva rng + 28));
     names_rva \<leftarrow> ok (read_rva_u32 img (dir_rva rng + 32));
     name_ordinals_rva \<leftarrow> ok (read_rva_u32 img (dir_rva rng + 36));
     Some \<lparr>ex_range = rng, ex_ordinal_base = ordinal_base, ex_function_count = function_count,
       ex_name_count = name_count, ex_functions_rva = functions_rva, ex_names_rva = names_rva,
       ex_name_ordinals_rva = name_ordinals_rva\<rparr>
   }"

definition read_export_directory :: "sl_pe_image \<Rightarrow> sl_export_directory result" where
  "read_export_directory img =
     (let rng = export_directory img
      in if dir_rva rng = 0 \<or> dir_size rng = 0 then Inl SL_ERROR_EXPORT_NOT_FOUND
         else and_then (or_fail SL_ERROR_INVALID_IMAGE (read_export_fields img rng)) (\<lambda>exports.
           if ex_function_count exports = 0 \<or>
              ex_name_count exports > ex_function_count exports \<or>
              \<not> rva_table_fits img (ex_functions_rva exports) (ex_function_count exports) 4 \<or>
              \<not> rva_table_fits img (ex_names_rva exports) (ex_name_count exports) 4 \<or>
              \<not> rva_table_fits img (ex_name_ordinals_rva exports) (ex_name_count exports) 2
           then Inl SL_ERROR_INVALID_IMAGE
           else Inr exports))"

section \<open>One export\<close>

definition build_export_result ::
    "sl_pe_image \<Rightarrow> sl_export_directory \<Rightarrow> u32 \<Rightarrow> bytes option \<Rightarrow> sl_pe_export result" where
  "build_export_result img exports function_index name =
     (if function_index \<ge> ex_function_count exports \<or>
         function_index > (0xffffffff - ex_functions_rva exports) div 4
      then Inl SL_ERROR_INVALID_IMAGE
      else case read_rva_u32 img (ex_functions_rva exports + function_index * 4) of
             Inl _ \<Rightarrow> Inl SL_ERROR_INVALID_IMAGE
           | Inr function_rva \<Rightarrow>
               if function_rva = 0 then Inl SL_ERROR_EXPORT_NOT_FOUND
               else if function_rva \<ge> pe_image_size img \<or>
                       function_index > 0xffffffff - ex_ordinal_base exports
               then Inl SL_ERROR_INVALID_IMAGE
               else let result = \<lparr>exp_name = name, exp_forwarder = None,
                          exp_ordinal = ex_ordinal_base exports + function_index,
                          exp_rva = function_rva, exp_is_forwarder = False\<rparr>;
                        exports_end = dir_rva (ex_range exports) + dir_size (ex_range exports)
                    in if function_rva \<ge> dir_rva (ex_range exports) \<and> function_rva < exports_end
                       then (case read_rva_string img function_rva of
                               Inl _ \<Rightarrow> Inl SL_ERROR_INVALID_IMAGE
                             | Inr forwarder \<Rightarrow>
                                 Inr (result\<lparr>exp_forwarder := Some forwarder, exp_is_forwarder := True\<rparr>))
                       else Inr result)"

section \<open>The lookups\<close>

text \<open>The name and the function index of one entry of the name table.\<close>

definition export_name_entry :: "sl_pe_image \<Rightarrow> sl_export_directory \<Rightarrow> u32 \<Rightarrow> (bytes \<times> u16) option" where
  "export_name_entry img exports index = do {
     _ \<leftarrow> check (\<not> (index > (0xffffffff - ex_names_rva exports) div 4 \<or>
            index > (0xffffffff - ex_name_ordinals_rva exports) div 2));
     name_rva \<leftarrow> ok (read_rva_u32 img (ex_names_rva exports + index * 4));
     function_index \<leftarrow> ok (read_rva_u16 img (ex_name_ordinals_rva exports + index * 2));
     candidate \<leftarrow> ok (read_rva_string img name_rva);
     Some (candidate, function_index)
   }"

function export_name_loop ::
    "sl_pe_image \<Rightarrow> sl_export_directory \<Rightarrow> bytes \<Rightarrow> u32 \<Rightarrow> sl_pe_export result" where
  "export_name_loop img exports name index =
     (if index < ex_name_count exports
      then case export_name_entry img exports index of
             None \<Rightarrow> Inl SL_ERROR_INVALID_IMAGE
           | Some (candidate, function_index) \<Rightarrow>
               if candidate = name
               then build_export_result img exports (ucast function_index) (Some candidate)
               else export_name_loop img exports name (index + 1)
      else Inl SL_ERROR_EXPORT_NOT_FOUND)"
  by pat_completeness auto
termination
proof (relation "measure (\<lambda>(img, exports, name, index). unat (ex_name_count exports) - unat index)", goal_cases)
  case (2 img exports name index entry candidate function_index)
  then have "unat index < unat (ex_name_count exports)"
    by (simp add: word_less_nat_alt)
  moreover have "unat (index + 1) = unat index + 1"
    using 2 by (simp add: unat_Suc_u32)
  ultimately show ?case by simp
qed simp

declare export_name_loop.simps [simp del]

definition sl_pe_find_export_by_name ::
    "sl_pe_image option \<Rightarrow> bytes option \<Rightarrow> sl_pe_export result" where
  "sl_pe_find_export_by_name img name = (case (img, name) of
       (Some img, Some name) \<Rightarrow>
         and_then (read_export_directory img) (\<lambda>exports. export_name_loop img exports name 0)
     | _ \<Rightarrow> Inl SL_ERROR_INVALID_ARGUMENT)"

definition sl_pe_find_export_by_ordinal :: "sl_pe_image option \<Rightarrow> u32 \<Rightarrow> sl_pe_export result" where
  "sl_pe_find_export_by_ordinal img ordinal = (case img of
       Some img \<Rightarrow>
         and_then (read_export_directory img) (\<lambda>exports.
           if ordinal < ex_ordinal_base exports \<or>
              ordinal - ex_ordinal_base exports \<ge> ex_function_count exports
           then Inl SL_ERROR_EXPORT_NOT_FOUND
           else build_export_result img exports (ordinal - ex_ordinal_base exports) None)
     | None \<Rightarrow> Inl SL_ERROR_INVALID_ARGUMENT)"

lemma build_export_result_fields:
  assumes "build_export_result img exports i name = Inr e"
  shows "exp_name e = name \<and> unat (exp_ordinal e) = unat (ex_ordinal_base exports) + unat i \<and>
    i < ex_function_count exports \<and> 0 < exp_rva e \<and> exp_rva e < pe_image_size img \<and>
    read_rva_u32 img (ex_functions_rva exports + i * 4) = Inr (exp_rva e) \<and>
    (exp_is_forwarder e \<longleftrightarrow> dir_rva (ex_range exports) \<le> exp_rva e \<and>
       exp_rva e < dir_rva (ex_range exports) + dir_size (ex_range exports)) \<and>
    (if exp_is_forwarder e then read_rva_string img (exp_rva e) = Inr (the (exp_forwarder e)) \<and> exp_forwarder e \<noteq> None
     else exp_forwarder e = None)"
proof -
  have "unat (ex_ordinal_base exports + i) = unat (ex_ordinal_base exports) + unat i"
    if "\<not> i > 0xffffffff - ex_ordinal_base exports"
  proof -
    have "unat (0xffffffff - ex_ordinal_base exports) = 0xffffffff - unat (ex_ordinal_base exports)"
      by (subst unat_sub_no_wrap) (simp_all add: word_le_nat_alt)
    then have "unat i \<le> 0xffffffff - unat (ex_ordinal_base exports)"
      using that by (simp add: word_less_nat_alt not_less)
    then show ?thesis
      using unat_u32_le [of "ex_ordinal_base exports"]
      by (subst unat_add_no_wrap) (simp_all del: unat_u32_le)
  qed
  then show ?thesis
    using assms
    by (auto simp: build_export_result_def Let_def word_neq_0_conv not_le split: if_splits sum.splits)
qed

text \<open>A name found is an entry of the name table and no earlier entry has it.\<close>

lemma export_name_loop_found:
  "export_name_loop img exports name index = Inr e \<Longrightarrow>
     \<exists>i fi. index \<le> i \<and> i < ex_name_count exports \<and>
       export_name_entry img exports i = Some (name, fi) \<and>
       build_export_result img exports (ucast fi) (Some name) = Inr e \<and>
       (\<forall>j. index \<le> j \<and> j < i \<longrightarrow> (\<exists>c f. export_name_entry img exports j = Some (c, f) \<and> c \<noteq> name))"
proof (induction img exports name index rule: export_name_loop.induct)
  case (1 img exports name index)
  from 1(2) obtain c fi where i: "index < ex_name_count exports"
      and c: "export_name_entry img exports index = Some (c, fi)"
    by (subst (asm) export_name_loop.simps) (auto split: if_splits option.splits)
  show ?case
  proof (cases "c = name")
    case True
    then have "build_export_result img exports (ucast fi) (Some name) = Inr e"
      using 1(2) i c by (subst (asm) export_name_loop.simps) simp
    then show ?thesis
      using i c True by (intro exI [of _ index] exI [of _ fi]) auto
  next
    case False
    then have "export_name_loop img exports name (index + 1) = Inr e"
      using 1(2) i c by (subst (asm) export_name_loop.simps) simp
    from 1(1) [OF i c refl False this] obtain k f where
      k: "index + 1 \<le> k" "k < ex_name_count exports" "export_name_entry img exports k = Some (name, f)"
       "build_export_result img exports (ucast f) (Some name) = Inr e"
       "\<forall>j. index + 1 \<le> j \<and> j < k \<longrightarrow> (\<exists>c f. export_name_entry img exports j = Some (c, f) \<and> c \<noteq> name)"
      by blast
    have le: "index + 1 \<le> j \<longleftrightarrow> index < j" for j
      using unat_Suc_u32 [OF i] by (auto simp: word_le_nat_alt word_less_nat_alt)
    show ?thesis
      using k c False i unfolding le
      by (intro exI [of _ k] exI [of _ f]) (auto simp: order_le_less)
  qed
qed

lemma build_export_result_name:
  "build_export_result img exports i name =
     (case build_export_result img exports i None of Inl s \<Rightarrow> Inl s | Inr e \<Rightarrow> Inr (e\<lparr>exp_name := name\<rparr>))"
  by (auto simp: build_export_result_def Let_def split: sum.splits)

end
