(* ===== verification/PE_Properties.thy ===== *)
theory PE_Properties
  imports PE_Imports PE_Exports
begin

text \<open>
  What the parser, the import walk and the export lookups promise, with two small images on which
  the properties are applied: \<open>sample_image\<close>, parsed from the bytes of a file, and \<open>import_image\<close>.
\<close>


section \<open>A small image\<close>

text \<open>A 32-bit file with one section that holds an export directory: two functions from ordinal 5,
  the first absent, the second at RVA 0x20 and named \<open>f\<close>.\<close>

definition sample_file :: bytes where
  "sample_file = (replicate 320 0)
     [0 := 0x4d, 1 := 0x5a, 60 := 64, 64 := 0x50, 65 := 0x45,
      68 := 0x4c, 69 := 0x01, 70 := 1, 84 := 104,
      88 := 0x0b, 89 := 0x01, 118 := 0x40, 145 := 2, 149 := 1, 156 := 3, 180 := 1,
      185 := 1, 188 := 40,
      192 := 0x2e, 193 := 0x74, 200 := 64, 205 := 1, 208 := 64, 213 := 1, 231 := 0x40,
      272 := 5, 276 := 2, 280 := 1, 284 := 0x28, 285 := 1, 288 := 0x30, 289 := 1,
      292 := 0x34, 293 := 1, 300 := 0x20, 304 := 0x36, 305 := 1, 308 := 1, 310 := 0x66]"

lemma length_sample [simp]: "length sample_file = 320"
  by (simp add: sample_file_def)

lemma sample_reads:
  "read_u16 sample_file 68 = Some 0x014c" "read_u16 sample_file 70 = Some 1"
  "read_u16 sample_file 84 = Some 104" "read_u16 sample_file 88 = Some 0x010b"
  "read_u16 sample_file 156 = Some 3" "read_u16 sample_file 308 = Some 1"
  "read_u32 sample_file 60 = Some 64" "read_u32 sample_file 64 = Some 0x4550"
  "read_u32 sample_file 116 = Some 0x400000" "read_u32 sample_file 180 = Some 1"
  "read_u32 sample_file 104 = Some 0" "read_u32 sample_file 120 = Some 0"
  "read_u32 sample_file 124 = Some 0" "read_u32 sample_file 144 = Some 512"
  "read_u32 sample_file 148 = Some 256" "read_u32 sample_file 184 = Some 256"
  "read_u32 sample_file 188 = Some 40" "read_u32 sample_file 200 = Some 64"
  "read_u32 sample_file 204 = Some 256" "read_u32 sample_file 208 = Some 64"
  "read_u32 sample_file 212 = Some 256" "read_u32 sample_file 228 = Some 0x40000000"
  "read_u32 sample_file 272 = Some 5" "read_u32 sample_file 276 = Some 2"
  "read_u32 sample_file 280 = Some 1" "read_u32 sample_file 284 = Some 0x128"
  "read_u32 sample_file 288 = Some 0x130" "read_u32 sample_file 292 = Some 0x134"
  "read_u32 sample_file 300 = Some 0x20" "read_u32 sample_file 304 = Some 0x136"
  by (simp_all add: read_u16_def read_u32_def range_fits_def sample_file_def nth_list_update)

definition sample_section :: sl_pe_section where
  "sample_section = \<lparr>sec_name = [0x2e, 0x74, 0, 0, 0, 0, 0, 0, 0], sec_virtual_size = 64,
     sec_virtual_address = 256, sec_raw_size = 64, sec_raw_offset = 256,
     sec_characteristics = 0x40000000\<rparr>"

definition sample_image :: sl_pe_image where
  "sample_image = \<lparr>pe_file = sample_file, pe_machine = 0x014c, pe_section_count = 1,
     pe_is_pe32_plus = False, pe_subsystem = 3, pe_image_base = 0x400000, pe_entry_rva = 0,
     pe_section_alignment = 0, pe_file_alignment = 0, pe_image_size = 512, pe_headers_size = 256,
     pe_directories = \<lparr>dir_rva = 256, dir_size = 40\<rparr> # replicate 15 no_directory,
     pe_sections = [sample_section]\<rparr>"

lemma replicate_8_16:
  "replicate 8 x = [x, x, x, x, x, x, x, x]" "replicate 16 y = y # replicate 15 y"
  by (simp_all add: numeral_eq_Suc)

lemma take_drop_map: "offset + n \<le> length xs \<Longrightarrow> take n (drop offset xs) = map (\<lambda>i. xs ! (offset + i)) [0..<n]"
  by (rule nth_equalityI) simp_all

lemma upt_8: "[0..<8] = [0, 1, 2, 3, 4, 5, 6, 7 :: nat]"
  by (simp add: upt_rec)

lemma sample_bytes:
  "sample_file ! 0 = 0x4d" "sample_file ! 1 = 0x5a" "sample_file ! Suc 0 = 0x5a"
  "take 8 (drop 192 sample_file) = [0x2e, 0x74, 0, 0, 0, 0, 0, 0]"
  by (simp_all add: take_drop_map upt_8) (simp_all add: sample_file_def nth_list_update)

lemma sample_parse: "sl_pe_parse (Some sample_file) = Inr sample_image"
proof -
  have v: "optional_variant sample_file 88 104 = Inr (False, 0x400000, 1, 96)"
    by (simp add: optional_variant_def range_fits_def sample_reads)
  have e: "parse_directory sample_file 88 104 96 = Some \<lparr>dir_rva = 256, dir_size = 40\<rparr>"
    by (simp add: parse_directory_def sample_reads)
  have d: "parse_directories sample_file 88 104 96 1 0 (replicate 16 no_directory) =
      Inr (\<lparr>dir_rva = 256, dir_size = 40\<rparr> # replicate 15 no_directory)"
    by (subst parse_directories.simps, subst parse_directories.simps)
       (simp add: e replicate_8_16 del: and_then_simps(3,4) replicate.simps)
  show ?thesis
    unfolding sl_pe_parse_def parse_optional_header_def
    by (simp add: sample_bytes sample_reads v d [simplified] pe_constants add_size_def range_fits_def empty_image_def
        parse_header_fields_def header_fields_valid_def parse_sections.simps
        parse_section_def section_valid_def u32_range_fits_def sample_image_def sample_section_def
        del: and_then_simps(3,4))
qed

definition sample_exports :: sl_export_directory where
  "sample_exports = \<lparr>ex_range = \<lparr>dir_rva = 256, dir_size = 40\<rparr>, ex_ordinal_base = 5,
     ex_function_count = 2, ex_name_count = 1, ex_functions_rva = 0x128, ex_names_rva = 0x130,
     ex_name_ordinals_rva = 0x134\<rparr>"

lemma sample_window:
  "256 \<le> unat rva \<Longrightarrow> unat rva < 320 \<Longrightarrow>
     rva_file_window sample_image rva = Inr (unat rva, 320 - unat rva)"
proof -
  assume a: "256 \<le> unat rva" "unat rva < 320"
  then have d: "unat (rva - 256) = unat rva - 256"
    by (subst unat_sub_no_wrap) (simp_all add: word_le_nat_alt)
  show ?thesis
    using a by (simp add: rva_file_window_def sample_image_def sample_section_def word_le_nat_alt word_less_nat_alt d
        range_fits_def Let_def) linarith
qed

lemma sample_rva_reads:
  "read_rva_u32 sample_image 272 = Inr 5" "read_rva_u32 sample_image 276 = Inr 2"
  "read_rva_u32 sample_image 280 = Inr 1" "read_rva_u32 sample_image 284 = Inr 0x128"
  "read_rva_u32 sample_image 288 = Inr 0x130" "read_rva_u32 sample_image 292 = Inr 0x134"
  "read_rva_u32 sample_image 300 = Inr 0x20" "read_rva_u32 sample_image 304 = Inr 0x136"
  "read_rva_u16 sample_image 308 = Inr 1"
  by (simp_all add: read_rva_u32_def read_rva_u16_def sample_window)
     (simp_all add: sample_image_def sample_reads)

lemma sample_string: "read_rva_string sample_image 310 = Inr [0x66]"
proof -
  have d: "drop 310 sample_file = [0x66, 0, 0, 0, 0, 0, 0, 0, 0, 0]"
  proof -
    have "drop 310 sample_file = take 10 (drop 310 sample_file)"
      by simp
    also have "\<dots> = map (\<lambda>i. sample_file ! (310 + i)) [0..<10]"
      by (rule take_drop_map) simp
    also have "[0..<10] = [0, 1, 2, 3, 4, 5, 6, 7, 8, 9 :: nat]"
      by (simp add: upt_rec)
    finally show ?thesis
      by (simp add: sample_file_def nth_list_update)
  qed
  then show ?thesis
    by (simp add: read_rva_string_def sample_window c_string_at_def) (simp add: sample_image_def d)
qed

lemma sample_export_directory: "read_export_directory sample_image = Inr sample_exports"
proof -
  have "export_directory sample_image = \<lparr>dir_rva = 256, dir_size = 40\<rparr>"
    by (simp add: export_directory_def sample_image_def pe_constants)
  moreover have "pe_image_size sample_image = 512"
    by (simp add: sample_image_def)
  ultimately show ?thesis
    by (simp add: read_export_directory_def read_export_fields_def SL_EXPORT_DIRECTORY_SIZE_def
        sample_rva_reads rva_table_fits_def sample_window sample_exports_def del: and_then_simps(3,4))
qed

definition sample_export :: sl_pe_export where
  "sample_export = \<lparr>exp_name = Some [0x66], exp_forwarder = None, exp_ordinal = 6, exp_rva = 0x20,
     exp_is_forwarder = False\<rparr>"

lemma sample_find: "sl_pe_find_export_by_name (Some sample_image) (Some [0x66]) = Inr sample_export"
proof -
  have "export_name_entry sample_image sample_exports 0 = Some ([0x66], 1)"
    by (simp add: export_name_entry_def sample_exports_def sample_rva_reads sample_string)
  moreover have "build_export_result sample_image sample_exports 1 (Some [0x66]) = Inr sample_export"
    by (simp add: build_export_result_def sample_exports_def sample_rva_reads sample_export_def word_le_nat_alt)
       (simp add: sample_image_def word_le_nat_alt)
  ultimately show ?thesis
    by (simp add: sl_pe_find_export_by_name_def sample_export_directory export_name_loop.simps)
       (simp add: sample_exports_def)
qed

section \<open>An image with one import\<close>

text \<open>One descriptor for module \<open>k\<close> that imports ordinal 7 through the slot at RVA 56.\<close>

definition import_file :: bytes where
  "import_file = (replicate 64 0) [4 := 48, 16 := 44, 20 := 56, 44 := 0x6b, 48 := 7, 51 := 0x80]"

definition import_image :: sl_pe_image where
  "import_image = \<lparr>pe_file = import_file, pe_machine = 0x014c, pe_section_count = 1,
     pe_is_pe32_plus = False, pe_subsystem = 3, pe_image_base = 0x400000, pe_entry_rva = 0,
     pe_section_alignment = 0, pe_file_alignment = 0, pe_image_size = 64, pe_headers_size = 64,
     pe_directories = (replicate 16 no_directory)[1 := \<lparr>dir_rva = 4, dir_size = 40\<rparr>],
     pe_sections = [\<lparr>sec_name = replicate 9 0, sec_virtual_size = 0, sec_virtual_address = 0,
       sec_raw_size = 0, sec_raw_offset = 0, sec_characteristics = 0\<rparr>]\<rparr>"

definition import_symbol :: sl_pe_import_symbol where
  "import_symbol = \<lparr>imp_module_name = [0x6b], imp_symbol_name = None, imp_iat_rva = 56, imp_hint = 0,
     imp_ordinal = 7, imp_by_ordinal = True\<rparr>"

lemma length_import_file [simp]: "length import_file = 64"
  by (simp add: import_file_def)

lemma import_window:
  "unat rva < 64 \<Longrightarrow> rva_file_window import_image rva = Inr (unat rva, 64 - unat rva)"
  by (simp add: rva_file_window_def import_image_def word_less_nat_alt)

lemma import_reads:
  "read_u32 import_file 4 = Some 48" "read_u32 import_file 8 = Some 0"
  "read_u32 import_file 12 = Some 0" "read_u32 import_file 16 = Some 44"
  "read_u32 import_file 20 = Some 56" "read_u32 import_file 24 = Some 0"
  "read_u32 import_file 28 = Some 0" "read_u32 import_file 32 = Some 0"
  "read_u32 import_file 36 = Some 0" "read_u32 import_file 40 = Some 0"
  "read_u32 import_file 48 = Some 0x80000007" "read_u32 import_file 52 = Some 0"
  by (simp_all add: read_u32_def range_fits_def import_file_def nth_list_update)

lemma import_rva_reads:
  "read_rva_u32 import_image 4 = Inr 48" "read_rva_u32 import_image 8 = Inr 0"
  "read_rva_u32 import_image 12 = Inr 0" "read_rva_u32 import_image 16 = Inr 44"
  "read_rva_u32 import_image 20 = Inr 56" "read_rva_u32 import_image 24 = Inr 0"
  "read_rva_u32 import_image 28 = Inr 0" "read_rva_u32 import_image 32 = Inr 0"
  "read_rva_u32 import_image 36 = Inr 0" "read_rva_u32 import_image 40 = Inr 0"
  "read_rva_u32 import_image 48 = Inr 0x80000007" "read_rva_u32 import_image 52 = Inr 0"
  by (simp_all add: read_rva_u32_def import_window) (simp_all add: import_image_def import_reads)

lemma import_string: "read_rva_string import_image 44 = Inr [0x6b]"
proof -
  have "drop 44 import_file = take 20 (drop 44 import_file)"
    by simp
  also have "\<dots> = map (\<lambda>i. import_file ! (44 + i)) [0..<20]"
    by (rule take_drop_map) simp
  also have "[0..<20] = [0, 1, 2, 3, 4, 5, 6, 7, 8, 9, 10, 11, 12, 13, 14, 15, 16, 17, 18, 19 :: nat]"
    by (simp add: upt_rec)
  finally have "drop 44 import_file =
      [0x6b, 0, 0, 0, 7, 0, 0, 0x80, 0, 0, 0, 0, 0, 0, 0, 0, 0, 0, 0, 0]"
    by (simp add: import_file_def nth_list_update)
  then show ?thesis
    by (simp add: read_rva_string_def import_window c_string_at_def) (simp add: import_image_def)
qed

lemma import_fields:
  "import_directory import_image = \<lparr>dir_rva = 4, dir_size = 40\<rparr>" "pe_image_size import_image = 64"
  "\<not> pe_is_pe32_plus import_image"
  by (simp_all add: import_directory_def import_image_def pe_constants)

lemma import_wf: "image_wf import_image"
  by (simp add: image_wf_def import_image_def pe_constants section_valid_def range_fits_def
      u32_range_fits_def no_directory_def)

lemma import_thunks: "thunk_symbols import_image [0x6b] 48 56 = ([import_symbol], SL_OK)"
proof -
  have slot: "iat_slot_mapped import_image 56" "iat_slot_mapped import_image 60"
    by (simp_all add: iat_slot_mapped_def import_window thunk_entry_size_def import_fields word_less_nat_alt)
  have sz: "thunk_entry_size import_image = 4"
    by (simp add: thunk_entry_size_def import_fields)
  have sym: "thunk_symbol import_image [0x6b] 56 0x80000007 = Some import_symbol"
    by (simp add: thunk_symbol_def import_fields import_symbol_def)
  have t: "read_thunk import_image 48 = Inr 0x80000007" "read_thunk import_image 52 = Inr 0"
    by (simp_all add: read_thunk_def import_fields import_rva_reads del: and_then_simps(3))
  show ?thesis
    by (simp add: thunk_symbols_def visit_import_thunks_def
        thunk_loop.simps [of _ _ _ 48] thunk_loop.simps [of _ _ _ 52] slot t sym sz collect_def word_less_nat_alt)
qed

lemma import_symbols_list: "imported_symbols import_image = Some ([import_symbol], SL_OK)"
proof -
  have d: "read_import_descriptor import_image \<lparr>dir_rva = 4, dir_size = 40\<rparr> 0 =
      Some \<lparr>original_thunk = 48, timestamp = 0, forwarder_chain = 0, name_rva = 44, first_thunk = 56\<rparr>"
    "read_import_descriptor import_image \<lparr>dir_rva = 4, dir_size = 40\<rparr> 20 =
      Some \<lparr>original_thunk = 0, timestamp = 0, forwarder_chain = 0, name_rva = 0, first_thunk = 0\<rparr>"
    by (simp_all add: read_import_descriptor_def import_rva_reads)
  show ?thesis
    by (simp add: imported_symbols_def directory_items_def import_fields listed.simps [of _ _ _ 0]
        listed.simps [of _ _ _ 20] d SL_IMPORT_DESCRIPTOR_SIZE_def null_descriptor_def import_string
        import_thunks word_le_nat_alt)
qed

section \<open>Parsing\<close>

text \<open>C9: an image that parses is well formed: its headers lie in the file and in the image, the
  entry point in the image, every section's raw data in the file and in the image and its virtual
  range in the image, there are between 1 and 96 sections, all 16 directories are present, and the
  optional header is PE32+ exactly on AMD64.\<close>

theorem parsed_image_well_formed:
  assumes "sl_pe_parse (Some f) = Inr img"
  shows "image_wf img \<and> pe_file img = f"
  using assms by (rule sl_pe_parse_wf)

theorem parsed_image_well_formed_witness: "image_wf sample_image \<and> pe_file sample_image = sample_file"
  using parsed_image_well_formed [OF sample_parse] .

text \<open>C10: an RVA translates to a place in the file, never past its end: the window behind it is not
  empty and lies in the file, and a read at an RVA returns the little-endian value of the file's own
  bytes there.\<close>

theorem rva_window_in_file:
  assumes "rva_file_window img rva = Inr (offset, available)"
  shows "0 < available \<and> offset + available \<le> length (pe_file img) \<and>
    sl_pe_rva_to_file_offset (Some img) rva = Inr offset \<and>
    (4 \<le> available \<longrightarrow>
      (\<exists>v. read_rva_u32 img rva = Inr v \<and> le_bytes 4 (unat v) = take 4 (drop offset (pe_file img)))) \<and>
    (available < 4 \<longrightarrow> read_rva_u32 img rva = Inl SL_ERROR_TRUNCATED_FILE)"
proof -
  note b = rva_file_window_bounds [OF assms]
  have "\<exists>v. read_rva_u32 img rva = Inr v \<and> le_bytes 4 (unat v) = take 4 (drop offset (pe_file img))"
    if "4 \<le> available"
  proof -
    have "offset + 4 \<le> length (pe_file img)"
      using b that by linarith
    then obtain v where v: "read_u32 (pe_file img) offset = Some v"
      by (simp add: read_u32_arith)
    have "unat v = le_value (take 4 (drop offset (pe_file img)))"
      using read_u32_value [OF v] by simp
    moreover have "length (take 4 (drop offset (pe_file img))) = 4"
      using b that by simp
    ultimately have "le_bytes 4 (unat v) = take 4 (drop offset (pe_file img))"
      by (metis le_bytes_value)
    then show ?thesis
      using assms that v by (simp add: read_rva_u32_def del: and_then_simps(3))
  qed
  then show ?thesis
    using b assms by (simp add: sl_pe_rva_to_file_offset_def read_rva_u32_def)
qed

theorem rva_window_in_file_witness:
  "read_rva_u32 sample_image 272 = Inr 5 \<and> sl_pe_rva_to_file_offset (Some sample_image) 272 = Inr 272"
  using rva_window_in_file [of sample_image 272 272 48] sample_window [of 272]
  by (simp add: sample_rva_reads)

section \<open>Imports\<close>

text \<open>C11: the walks over the imports of a well-formed image end, although their position is a 32-bit
  sum that could wrap around; each shows its callback one fixed list of items in order until
  the callback stops it, then succeeds, and else ends with one fixed status. Every symbol shown has
  an import address slot inside the file.\<close>

theorem import_walks_total:
  assumes "image_wf img"
  shows "(\<exists>ms status. imported_modules img = Some (ms, status) \<and>
      (\<forall>callback (s :: 's). sl_pe_for_each_import (Some img) (Some callback) s =
         Some (walk_outcome status (visit callback ms s)))) \<and>
    (\<exists>xs status. imported_symbols img = Some (xs, status) \<and>
      list_all (\<lambda>x. iat_slot_mapped img (imp_iat_rva x)) xs \<and>
      (\<forall>callback (s :: 's). sl_pe_for_each_import_symbol (Some img) (Some callback) s =
         Some (walk_outcome status (visit callback xs s))))"
proof
  obtain ms status where "imported_modules img = Some (ms, status)"
    "\<And>callback (s :: 's). sl_pe_for_each_import (Some img) (Some callback) s =
       Some (walk_outcome status (visit callback ms s))"
    using for_each_import_walk [OF assms] by blast
  then show "\<exists>ms status. imported_modules img = Some (ms, status) \<and>
      (\<forall>callback (s :: 's). sl_pe_for_each_import (Some img) (Some callback) s =
         Some (walk_outcome status (visit callback ms s)))"
    by blast
next
  obtain xs status where "imported_symbols img = Some (xs, status)"
    "list_all (\<lambda>x. iat_slot_mapped img (imp_iat_rva x)) xs"
    "\<And>callback (s :: 's). sl_pe_for_each_import_symbol (Some img) (Some callback) s =
       Some (walk_outcome status (visit callback xs s))"
    using for_each_import_symbol_walk [OF assms] by blast
  then show "\<exists>xs status. imported_symbols img = Some (xs, status) \<and>
      list_all (\<lambda>x. iat_slot_mapped img (imp_iat_rva x)) xs \<and>
      (\<forall>callback (s :: 's). sl_pe_for_each_import_symbol (Some img) (Some callback) s =
         Some (walk_outcome status (visit callback xs s)))"
    by blast
qed

theorem import_walks_total_witness:
  "sl_pe_for_each_import_symbol (Some import_image) (Some (\<lambda>(n :: nat) x. (True, n + 1))) 0 = Some (SL_OK, 1)"
proof -
  obtain xs status where x: "imported_symbols import_image = Some (xs, status)"
    "\<forall>callback (s :: nat). sl_pe_for_each_import_symbol (Some import_image) (Some callback) s =
       Some (walk_outcome status (visit callback xs s))"
    using import_walks_total [OF import_wf, where 's = nat] by blast
  then have "xs = [import_symbol]" "status = SL_OK"
    by (simp_all add: import_symbols_list)
  then show ?thesis
    by (simp add: x(2) walk_outcome_def)
qed

section \<open>Exports\<close>

text \<open>Lookup by name and by ordinal agree: what the name finds is what its ordinal finds, but for
  the name itself.\<close>

lemma export_name_ordinal_agree:
  assumes "sl_pe_find_export_by_name (Some img) (Some name) = Inr e"
  shows "sl_pe_find_export_by_ordinal (Some img) (exp_ordinal e) = Inr (e\<lparr>exp_name := None\<rparr>) \<and>
    exp_name e = Some name"
proof -
  obtain exports where x: "read_export_directory img = Inr exports"
      and loop: "export_name_loop img exports name 0 = Inr e"
    using assms by (auto simp: sl_pe_find_export_by_name_def)
  obtain fi :: u16 where b: "build_export_result img exports (ucast fi) (Some name) = Inr e"
    using export_name_loop_found [OF loop] by (elim exE conjE) (rule that)
  note f = build_export_result_fields [OF b]
  obtain e' where e': "build_export_result img exports (ucast fi) None = Inr e'"
      and e: "e = e'\<lparr>exp_name := Some name\<rparr>"
    using b build_export_result_name [of img exports "ucast fi" "Some name"] by (auto split: sum.splits)
  have "exp_name e' = None"
    using build_export_result_fields [OF e'] by simp
  then have "e\<lparr>exp_name := None\<rparr> = e'"
    by (simp add: e)
  moreover have o: "unat (exp_ordinal e) = unat (ex_ordinal_base exports) + unat (ucast fi :: u32)"
    using f by simp
  then have "exp_ordinal e - ex_ordinal_base exports = ucast fi"
    by (simp add: word_unat_eq_iff unat_sub_no_wrap word_le_nat_alt)
  moreover have "\<not> exp_ordinal e < ex_ordinal_base exports"
    using o by (simp add: word_less_nat_alt)
  ultimately show ?thesis
    using x e' f by (simp add: sl_pe_find_export_by_ordinal_def not_le del: and_then_simps(3))
qed

text \<open>An export found by name is the first entry of the name table with that name; its RVA is
  nonzero, in the image and read from the address table; it is a forwarder exactly when the RVA
  points into the export directory, and then its forwarder is the string there.\<close>

lemma export_found_sound:
  assumes "sl_pe_find_export_by_name (Some img) (Some name) = Inr e"
  shows "\<exists>exports i fi. read_export_directory img = Inr exports \<and> i < ex_name_count exports \<and>
    export_name_entry img exports i = Some (name, fi) \<and>
    (\<forall>j < i. \<forall>f. export_name_entry img exports j \<noteq> Some (name, f)) \<and>
    unat (exp_ordinal e) = unat (ex_ordinal_base exports) + unat fi \<and>
    read_rva_u32 img (ex_functions_rva exports + ucast fi * 4) = Inr (exp_rva e) \<and>
    0 < exp_rva e \<and> exp_rva e < pe_image_size img \<and>
    (exp_forwarder e = (if dir_rva (ex_range exports) \<le> exp_rva e \<and>
        exp_rva e < dir_rva (ex_range exports) + dir_size (ex_range exports)
      then ok (read_rva_string img (exp_rva e)) else None)) \<and>
    (exp_is_forwarder e \<longleftrightarrow> exp_forwarder e \<noteq> None)"
proof -
  obtain exports where x: "read_export_directory img = Inr exports"
      and loop: "export_name_loop img exports name 0 = Inr e"
    using assms by (auto simp: sl_pe_find_export_by_name_def)
  from export_name_loop_found [OF loop] obtain i fi where
      i: "i < ex_name_count exports" "export_name_entry img exports i = Some (name, fi)"
      and b: "build_export_result img exports (ucast fi) (Some name) = Inr e"
      and first: "\<forall>j. 0 \<le> j \<and> j < i \<longrightarrow> (\<exists>c f. export_name_entry img exports j = Some (c, f) \<and> c \<noteq> name)"
    by blast
  have no: "\<forall>j < i. \<forall>f. export_name_entry img exports j \<noteq> Some (name, f)"
    using first by fastforce
  note f = build_export_result_fields [OF b]
  have fwd: "exp_forwarder e = (if dir_rva (ex_range exports) \<le> exp_rva e \<and>
        exp_rva e < dir_rva (ex_range exports) + dir_size (ex_range exports)
      then ok (read_rva_string img (exp_rva e)) else None) \<and>
    (exp_is_forwarder e \<longleftrightarrow> exp_forwarder e \<noteq> None)"
  proof (cases "exp_is_forwarder e")
    case True
    then obtain s where "exp_forwarder e = Some s" "read_rva_string img (exp_rva e) = Inr s"
      using f by auto
    then show ?thesis
      using True f by simp
  next
    case False
    then have "\<not> (dir_rva (ex_range exports) \<le> exp_rva e \<and>
        exp_rva e < dir_rva (ex_range exports) + dir_size (ex_range exports))" "exp_forwarder e = None"
      using f by simp_all
    then show ?thesis
      using False by (simp only: if_False simp_thms)
  qed
  have "unat (exp_ordinal e) = unat (ex_ordinal_base exports) + unat fi"
    using f by (simp add: unat_ucast_up)
  then have "read_export_directory img = Inr exports \<and> i < ex_name_count exports \<and>
    export_name_entry img exports i = Some (name, fi) \<and>
    (\<forall>j < i. \<forall>f. export_name_entry img exports j \<noteq> Some (name, f)) \<and>
    unat (exp_ordinal e) = unat (ex_ordinal_base exports) + unat fi \<and>
    read_rva_u32 img (ex_functions_rva exports + ucast fi * 4) = Inr (exp_rva e) \<and>
    0 < exp_rva e \<and> exp_rva e < pe_image_size img \<and>
    (exp_forwarder e = (if dir_rva (ex_range exports) \<le> exp_rva e \<and>
        exp_rva e < dir_rva (ex_range exports) + dir_size (ex_range exports)
      then ok (read_rva_string img (exp_rva e)) else None)) \<and>
    (exp_is_forwarder e \<longleftrightarrow> exp_forwarder e \<noteq> None)"
    using x i no f fwd by (simp only: simp_thms)
  then show ?thesis by blast
qed

text \<open>C12: an export found by name is the first entry of the name table with that name; its RVA is
  nonzero, in the image and read from the address table; it is a forwarder exactly when the RVA
  points into the export directory, and then its forwarder is the string there. Looking its ordinal up gives the
  same export, but for the name.\<close>

theorem export_lookups_sound:
  assumes "sl_pe_find_export_by_name (Some img) (Some name) = Inr e"
  shows "(\<exists>exports i fi. read_export_directory img = Inr exports \<and> i < ex_name_count exports \<and>
    export_name_entry img exports i = Some (name, fi) \<and>
    (\<forall>j < i. \<forall>f. export_name_entry img exports j \<noteq> Some (name, f)) \<and>
    unat (exp_ordinal e) = unat (ex_ordinal_base exports) + unat fi \<and>
    read_rva_u32 img (ex_functions_rva exports + ucast fi * 4) = Inr (exp_rva e) \<and>
    0 < exp_rva e \<and> exp_rva e < pe_image_size img \<and>
    (exp_forwarder e = (if dir_rva (ex_range exports) \<le> exp_rva e \<and>
        exp_rva e < dir_rva (ex_range exports) + dir_size (ex_range exports)
      then ok (read_rva_string img (exp_rva e)) else None)) \<and>
    (exp_is_forwarder e \<longleftrightarrow> exp_forwarder e \<noteq> None)) \<and>
    sl_pe_find_export_by_ordinal (Some img) (exp_ordinal e) = Inr (e\<lparr>exp_name := None\<rparr>) \<and> exp_name e = Some name"
  by (intro conjI export_found_sound [OF assms] conjunct1 [OF export_name_ordinal_agree [OF assms]]
      conjunct2 [OF export_name_ordinal_agree [OF assms]])

theorem export_lookups_sound_witness:
  "\<exists>i fi. export_name_entry sample_image sample_exports i = Some ([0x66], fi) \<and> 6 = 5 + unat fi"
  using export_lookups_sound [OF sample_find]
  by (auto simp: sample_export_directory sample_export_def sample_exports_def)

end
