(* ===== verification/Loader_Memory.thy ===== *)
theory Loader_Memory
  imports PE_Imports
begin

text \<open>
  \<open>src/loader.c\<close>, first part: the little-endian loads and stores through a raw pointer into a mapped
  image, and the contract (\<open>access\<close>) that the relocation and import code uses, interpreted for 32 and
  64 bits.
\<close>


section \<open>Loads and stores\<close>

text \<open>An access through a raw pointer; \<open>None\<close> is an access outside the allocation.\<close>

definition load_u16 :: "bytes \<Rightarrow> nat \<Rightarrow> u16 option" where
  "load_u16 data offset = (if offset + 2 \<le> length data
     then Some (ucast (data ! offset) OR push_bit 8 (ucast (data ! (offset + 1)))) else None)"

definition load_u32 :: "bytes \<Rightarrow> nat \<Rightarrow> u32 option" where
  "load_u32 data offset = (if offset + 4 \<le> length data
     then Some (ucast (data ! offset) OR push_bit 8 (ucast (data ! (offset + 1)))
        OR push_bit 16 (ucast (data ! (offset + 2))) OR push_bit 24 (ucast (data ! (offset + 3))))
     else None)"

definition load_u64 :: "bytes \<Rightarrow> nat \<Rightarrow> u64 option" where
  "load_u64 data offset = do {
     low \<leftarrow> load_u32 data offset;
     high \<leftarrow> load_u32 data (offset + 4);
     Some (ucast low OR push_bit 32 (ucast high))
   }"

definition store_u32 :: "bytes \<Rightarrow> nat \<Rightarrow> u32 \<Rightarrow> bytes option" where
  "store_u32 data offset v = (if offset + 4 \<le> length data
     then Some (data[offset := ucast (v AND 0xff), offset + 1 := ucast (drop_bit 8 v AND 0xff),
       offset + 2 := ucast (drop_bit 16 v AND 0xff), offset + 3 := ucast (drop_bit 24 v)])
     else None)"

definition store_u64 :: "bytes \<Rightarrow> nat \<Rightarrow> u64 \<Rightarrow> bytes option" where
  "store_u64 data offset v = do {
     data \<leftarrow> store_u32 data offset (ucast (v AND 0xffffffff));
     store_u32 data (offset + 4) (ucast (drop_bit 32 v))
   }"

lemma load_u16_read: "load_u16 = read_u16"
  by (intro ext) (simp add: load_u16_def read_u16_def range_fits_iff)

lemma load_u32_read: "load_u32 = read_u32"
  by (intro ext) (simp add: load_u32_def read_u32_def range_fits_iff)

lemma load_u64_read: "load_u64 = read_u64"
  by (intro ext) (simp add: load_u64_def read_u64_def load_u32_read)

section \<open>The contract of an access width\<close>

text \<open>Replacing bytes inside a memory.\<close>

definition splice :: "bytes \<Rightarrow> nat \<Rightarrow> bytes \<Rightarrow> bytes" where
  "splice m offset bs = take offset m @ bs @ drop (offset + length bs) m"

lemma length_splice [simp]: "offset + length bs \<le> length m \<Longrightarrow> length (splice m offset bs) = length m"
  by (simp add: splice_def)

lemma nth_splice:
  "offset + length bs \<le> length m \<Longrightarrow> i < length m \<Longrightarrow>
     splice m offset bs ! i =
       (if offset \<le> i \<and> i < offset + length bs then bs ! (i - offset) else m ! i)"
  by (auto simp: splice_def nth_append min_def)

lemma take_drop_splice:
  "offset + length bs \<le> length m \<Longrightarrow> take (length bs) (drop offset (splice m offset bs)) = bs"
  by (simp add: splice_def)

lemma take_drop_splice_disjoint:
  assumes "offset + length bs \<le> length m" "p + n \<le> length m" "p + n \<le> offset \<or> offset + length bs \<le> p"
  shows "take n (drop p (splice m offset bs)) = take n (drop p m)"
  by (rule nth_equalityI) (use assms in \<open>auto simp: nth_splice\<close>)

lemma splice_id: "offset + n \<le> length m \<Longrightarrow> splice m offset (take n (drop offset m)) = m"
  by (rule nth_equalityI) (auto simp: nth_splice)

lemma splice_splice:
  "offset + length bs \<le> length m \<Longrightarrow> length bs' = length bs \<Longrightarrow>
     splice (splice m offset bs) offset bs' = splice m offset bs'"
  by (rule nth_equalityI) (auto simp: nth_splice)

lemma splice_commute:
  assumes "offset + length bs \<le> length m" "p + length bs' \<le> length m"
    and "p + length bs' \<le> offset \<or> offset + length bs \<le> p"
  shows "splice (splice m offset bs) p bs' = splice (splice m p bs') offset bs"
  by (rule nth_equalityI) (use assms in \<open>auto simp: nth_splice\<close>)

locale access =
  fixes width :: nat
    and load :: "bytes \<Rightarrow> nat \<Rightarrow> 'w::len word option"
    and store :: "bytes \<Rightarrow> nat \<Rightarrow> 'w word \<Rightarrow> bytes option"
  assumes width: "8 * width = LENGTH('w)"
    and load_eq: "load m offset =
      (if offset + width \<le> length m then Some (of_nat (le_value (take width (drop offset m)))) else None)"
    and store_eq: "store m offset v =
      (if offset + width \<le> length m then Some (splice m offset (le_bytes width (unat v))) else None)"
begin

lemma unat_bound: "unat (v :: 'w word) < 256 ^ width"
proof -
  have "(256 :: nat) ^ width = 2 ^ LENGTH('w)"
    by (simp add: width [symmetric] power_mult)
  then show ?thesis
    by simp
qed

lemma le_value_le_bytes: "of_nat (le_value (le_bytes width (unat v))) = (v :: 'w word)"
  using unat_bound [of v] by (simp add: le_value_bytes)

lemma le_bytes_le_value:
  assumes "length bs = width"
  shows "le_bytes width (unat (of_nat (le_value bs) :: 'w word)) = bs"
proof -
  have "le_value bs < 2 ^ LENGTH('w)"
    using le_value_less [of bs] assms by (simp add: width [symmetric] power_mult)
  then have "unat (of_nat (le_value bs) :: 'w word) = le_value bs"
    by (rule unat_of_nat_small)
  then show ?thesis
    using le_bytes_value [of bs] assms by simp
qed

lemma load_store: "store m offset v = Some m' \<Longrightarrow> load m' offset = Some v"
  using take_drop_splice [of offset "le_bytes width (unat v)" m]
  by (auto simp: store_eq load_eq le_value_le_bytes split: if_splits)

lemma load_store_disjoint:
  "store m offset v = Some m' \<Longrightarrow> p + width \<le> offset \<or> offset + width \<le> p \<Longrightarrow> load m' p = load m p"
  by (auto simp: store_eq load_eq take_drop_splice_disjoint split: if_splits)

lemma store_load: "load m offset = Some v \<Longrightarrow> store m offset v = Some m"
  by (auto simp: store_eq load_eq le_bytes_le_value splice_id split: if_splits)

text \<open>Adding to the value at an offset, as a relocation does.\<close>

definition add_at :: "'w word \<Rightarrow> nat \<Rightarrow> bytes \<Rightarrow> bytes option" where
  "add_at delta offset m = Option.bind (load m offset) (\<lambda>v. store m offset (v + delta))"

lemma add_at_eq: "add_at delta offset m =
   (if offset + width \<le> length m
    then Some (splice m offset (le_bytes width (unat (of_nat (le_value (take width (drop offset m))) + delta))))
    else None)"
  by (simp add: add_at_def load_eq store_eq)

lemma add_at_length: "add_at delta offset m = Some m' \<Longrightarrow> length m' = length m"
  by (auto simp: add_at_eq split: if_splits)

lemma add_at_nth:
  "add_at delta offset m = Some m' \<Longrightarrow> i < offset \<or> offset + width \<le> i \<Longrightarrow> m' ! i = m ! i"
  by (cases "i < length m") (auto simp: add_at_eq nth_splice splice_def nth_append split: if_splits)

lemma add_at_load: "add_at delta offset m = Some m' \<Longrightarrow> load m offset = Some v \<Longrightarrow> load m' offset = Some (v + delta)"
  using load_store by (auto simp: add_at_def)

lemma add_at_twice:
  assumes "add_at d offset m = Some m'"
  shows "add_at e offset m' = add_at (d + e) offset m"
proof -
  have "offset + width \<le> length m"
      "m' = splice m offset (le_bytes width (unat (of_nat (le_value (take width (drop offset m))) + d)))"
    using assms by (auto simp: add_at_eq split: if_splits)
  then show ?thesis
    using take_drop_splice [of offset "le_bytes width (unat (of_nat (le_value (take width (drop offset m))) + d))" m]
    by (simp add: add_at_eq le_value_le_bytes splice_splice add.assoc)
qed

lemma add_at_zero: "offset + width \<le> length m \<Longrightarrow> add_at 0 offset m = Some m"
  by (simp add: add_at_eq le_bytes_le_value splice_id)

lemma add_at_commute:
  assumes "p + width \<le> offset \<or> offset + width \<le> p"
  shows "Option.bind (add_at d offset m) (add_at e p) = Option.bind (add_at e p m) (add_at d offset)"
proof (cases "offset + width \<le> length m \<and> p + width \<le> length m")
  case True
  then show ?thesis
    using assms by (auto simp: add_at_eq take_drop_splice_disjoint splice_commute)
next
  case False
  then show ?thesis
    by (auto simp: add_at_eq)
qed

end

lemma store_u32_splice:
  "store_u32 m offset v =
     (if offset + 4 \<le> length m then Some (splice m offset (le_bytes 4 (unat v))) else None)"
proof (cases "offset + 4 \<le> length m")
  case True
  have d: "n div 256 div 256 = n div 65536" "n div 256 div 256 div 256 = n div 16777216" for n :: nat
    by (simp_all add: div_mult2_eq [symmetric])
  have four: "(4 :: nat) = Suc (Suc (Suc (Suc 0)))"
    by simp
  have u: "unat (drop_bit 8 v) = unat v div 256" "unat (drop_bit 16 v) = unat v div 65536"
      "unat (drop_bit 24 v) = unat v div 16777216"
    unfolding unat_drop_bit_div by simp_all
  have le: "le_bytes 4 (unat v) = [ucast (v AND 0xff), ucast (drop_bit 8 v AND 0xff),
      ucast (drop_bit 16 v AND 0xff), ucast (drop_bit 24 v)]"
    unfolding low_byte_of_nat unfolding byte_of_nat u four le_bytes.simps unfolding d(2) unfolding d(1) ..
  have "m[offset := a, offset + 1 := b, offset + 2 := c, offset + 3 := d] = splice m offset [a, b, c, d]"
    for a b c d
    by (rule nth_equalityI) (use True in \<open>auto simp: nth_list_update nth_Cons' nth_append splice_def min_def\<close>,
        rule arg_cong [of _ _ "(!) m"], arith)
  then show ?thesis
    using True by (simp add: store_u32_def le)
qed (simp add: store_u32_def)

lemma store_u64_splice:
  "store_u64 m offset v =
     (if offset + 8 \<le> length m then Some (splice m offset (le_bytes 8 (unat v))) else None)"
proof (cases "offset + 8 \<le> length m")
  case True
  have low: "le_bytes 4 (unat (ucast (v AND 0xffffffff) :: u32)) = le_bytes 4 (unat v)"
  proof -
    have "(0xffffffff :: u64) = mask 32"
      by (simp add: mask_eq_exp_minus_1)
    then have "unat (ucast (v AND 0xffffffff) :: u32) = unat v mod 256 ^ 4"
      by (simp only: unat_ucast_mod unat_and_mask) simp
    then show ?thesis
      by (simp only: le_bytes_mod)
  qed
  have high: "le_bytes 4 (unat (ucast (drop_bit 32 v) :: u32)) = le_bytes 4 (unat v div 256 ^ 4)"
  proof -
    have "unat (ucast (drop_bit 32 v) :: u32) = (unat v div 256 ^ 4) mod 256 ^ 4"
      by (simp add: unat_ucast_mod unat_drop_bit_div del: unat_drop_bit_eq)
    then show ?thesis
      by (simp only: le_bytes_mod)
  qed
  have b: "le_bytes 8 (unat v) = le_bytes 4 (unat v) @ le_bytes 4 (unat v div 256 ^ 4)"
    using le_bytes_append [of 4 4 "unat v"] by simp
  have s: "splice (splice m offset xs) (offset + 4) ys = splice m offset (xs @ ys)"
    if "length xs = 4" "length ys = 4" for xs ys
    by (rule nth_equalityI) (use True that in \<open>auto simp: nth_splice nth_append\<close>)
  show ?thesis
    using True s [of "le_bytes 4 (unat v)" "le_bytes 4 (unat v div 256 ^ 4)"]
    by (simp add: store_u64_def store_u32_splice low high b)
qed (auto simp: store_u64_def store_u32_splice)

interpretation access32: access 4 load_u32 store_u32
  by unfold_locales (simp_all add: load_u32_read read_u32_arith store_u32_splice)

interpretation access64: access 8 load_u64 store_u64
  by unfold_locales (simp_all add: load_u64_read read_u64_arith store_u64_splice)

end
