(* ===== verification/Loader_Relocations.thy ===== *)
theory Loader_Relocations
  imports Loader_Memory
begin

text \<open>
  \<open>src/loader.c\<close>, second part: mapped images and base relocations. The code runs over the relocation
  directory twice, first to validate it and then to patch; the lemmas show that both runs see the
  same entries, because no entry may patch the directory itself.
\<close>


section \<open>Mapped images\<close>

datatype (plugins only: code size) sl_image_storage =
    SL_IMAGE_STORAGE_NONE
  | SL_IMAGE_STORAGE_HEAP
  | SL_IMAGE_STORAGE_VIRTUAL
  | SL_IMAGE_STORAGE_VIRTUAL_TAINTED

text \<open>\<open>mp_bytes\<close> is the allocation behind the pointer \<open>bytes\<close>, \<open>None\<close> for a null pointer, and
  \<open>mp_address\<close> the pointer as a number.\<close>

record sl_mapped_image =
  mp_bytes :: "bytes option"
  mp_address :: ptr
  mp_size :: nat
  mp_allocation_size :: nat
  mp_preferred_base :: u64
  mp_load_base :: u64
  mp_entry_rva :: u32
  mp_storage :: sl_image_storage
  mp_protections_finalized :: bool

section \<open>Base relocations\<close>

definition SL_BASE_RELOCATION_HEADER_SIZE :: nat where "SL_BASE_RELOCATION_HEADER_SIZE = 8"
definition SL_RELOCATION_ABSOLUTE :: u16 where "SL_RELOCATION_ABSOLUTE = 0"
definition SL_RELOCATION_HIGHLOW :: u16 where "SL_RELOCATION_HIGHLOW = 3"
definition SL_RELOCATION_DIR64 :: u16 where "SL_RELOCATION_DIR64 = 10"

lemmas relocation_constants = SL_BASE_RELOCATION_HEADER_SIZE_def SL_RELOCATION_ABSOLUTE_def
  SL_RELOCATION_HIGHLOW_def SL_RELOCATION_DIR64_def

text \<open>What one run over the directory works on: \<open>image->is_pe32_plus\<close>, \<open>mapped->size\<close>, the bounds of
  the directory, the delta, and whether this is the pass that patches.\<close>

record relocation_run =
  rr_is_pe32_plus :: bool
  rr_size :: nat
  rr_directory_start :: nat
  rr_end :: nat
  rr_delta :: u64
  rr_apply :: bool

text \<open>One entry: an error, nothing to do, or the RVA to patch.\<close>

definition relocation_entry :: "relocation_run \<Rightarrow> u32 \<Rightarrow> u16 \<Rightarrow> nat option result" where
  "relocation_entry run page_rva entry =
     (let type = drop_bit 12 entry;
          offset = ucast (entry AND 0x0fff) :: u32
      in if page_rva > 0xffffffff - offset then Inl SL_ERROR_INVALID_IMAGE
         else let patch_rva = unat (page_rva + offset)
         in if type = SL_RELOCATION_ABSOLUTE then Inr None
            else if type = SL_RELOCATION_DIR64 \<and> rr_is_pe32_plus run
            then if patch_rva > rr_size run \<or> 8 > rr_size run - patch_rva
                 then Inl SL_ERROR_INVALID_IMAGE
                 else if patch_rva < rr_end run \<and> patch_rva + 8 > rr_directory_start run
                 then Inl SL_ERROR_INVALID_IMAGE
                 else Inr (Some patch_rva)
            else if type = SL_RELOCATION_HIGHLOW \<and> \<not> rr_is_pe32_plus run
            then if patch_rva > rr_size run \<or> 4 > rr_size run - patch_rva
                 then Inl SL_ERROR_INVALID_IMAGE
                 else if patch_rva < rr_end run \<and> patch_rva + 4 > rr_directory_start run
                 then Inl SL_ERROR_INVALID_IMAGE
                 else Inr (Some patch_rva)
            else Inl SL_ERROR_UNSUPPORTED_RELOCATION)"

definition patch :: "relocation_run \<Rightarrow> nat \<Rightarrow> bytes \<Rightarrow> bytes option" where
  "patch run patch_rva bytes =
     (if \<not> rr_apply run then Some bytes
      else if rr_is_pe32_plus run
      then do {
        v \<leftarrow> load_u64 bytes patch_rva;
        store_u64 bytes patch_rva (v + rr_delta run)
      }
      else do {
        v \<leftarrow> load_u32 bytes patch_rva;
        store_u32 bytes patch_rva (v + ucast (rr_delta run))
      })"

text \<open>The loops return the status and the bytes; \<open>None\<close> is an access outside the allocation.\<close>

function process_entries ::
    "relocation_run \<Rightarrow> u32 \<Rightarrow> nat \<Rightarrow> nat \<Rightarrow> bytes \<Rightarrow> (sl_status \<times> bytes) option" where
  "process_entries run page_rva entry_cursor block_end bytes =
     (if entry_cursor < block_end
      then case load_u16 bytes entry_cursor of
             None \<Rightarrow> None
           | Some entry \<Rightarrow>
               (case relocation_entry run page_rva entry of
                  Inl status \<Rightarrow> Some (status, bytes)
                | Inr None \<Rightarrow> process_entries run page_rva (entry_cursor + 2) block_end bytes
                | Inr (Some patch_rva) \<Rightarrow>
                    (case patch run patch_rva bytes of
                       None \<Rightarrow> None
                     | Some bytes \<Rightarrow> process_entries run page_rva (entry_cursor + 2) block_end bytes))
      else Some (SL_OK, bytes))"
  by pat_completeness auto
termination
  by (relation "measure (\<lambda>(run, page_rva, entry_cursor, block_end, bytes). block_end - entry_cursor)") auto

declare process_entries.simps [simp del]

function process_blocks :: "relocation_run \<Rightarrow> nat \<Rightarrow> bytes \<Rightarrow> (sl_status \<times> bytes) option" where
  "process_blocks run cursor bytes =
     (if cursor < rr_end run
      then if rr_end run - cursor < SL_BASE_RELOCATION_HEADER_SIZE
           then Some (SL_ERROR_INVALID_IMAGE, bytes)
           else (case (load_u32 bytes cursor, load_u32 bytes (cursor + 4)) of
                   (Some page_rva, Some block_size32) \<Rightarrow>
                     let block_size = unat block_size32
                     in if block_size < SL_BASE_RELOCATION_HEADER_SIZE \<or>
                           (block_size - SL_BASE_RELOCATION_HEADER_SIZE) mod 2 \<noteq> 0 \<or>
                           block_size > rr_end run - cursor
                        then Some (SL_ERROR_INVALID_IMAGE, bytes)
                        else (case process_entries run page_rva
                                (cursor + SL_BASE_RELOCATION_HEADER_SIZE) (cursor + block_size) bytes of
                                None \<Rightarrow> None
                              | Some (status, bytes) \<Rightarrow>
                                  if status \<noteq> SL_OK then Some (status, bytes)
                                  else process_blocks run (cursor + block_size) bytes)
                 | _ \<Rightarrow> None)
      else Some (SL_OK, bytes))"
  by pat_completeness auto
termination
  by (relation "measure (\<lambda>(run, cursor, bytes). rr_end run - cursor)")
     (auto simp: SL_BASE_RELOCATION_HEADER_SIZE_def)

declare process_blocks.simps [simp del]

definition process_relocations ::
    "sl_pe_image \<Rightarrow> nat \<Rightarrow> sl_pe_data_directory \<Rightarrow> u64 \<Rightarrow> bool \<Rightarrow> bytes \<Rightarrow> (sl_status \<times> bytes) option" where
  "process_relocations img mapped_size relocations delta apply bytes =
     process_blocks \<lparr>rr_is_pe32_plus = pe_is_pe32_plus img, rr_size = mapped_size,
         rr_directory_start = unat (dir_rva relocations),
         rr_end = unat (dir_rva relocations) + unat (dir_size relocations),
         rr_delta = delta, rr_apply = apply\<rparr>
       (unat (dir_rva relocations)) bytes"

definition sl_loader_apply_relocations ::
    "sl_pe_image option \<Rightarrow> sl_mapped_image option \<Rightarrow> u64 \<Rightarrow> (sl_status \<times> sl_mapped_image option) option" where
  "sl_loader_apply_relocations img mapped load_base =
     (case (img, mapped) of
        (Some img, Some m) \<Rightarrow>
          (case mp_bytes m of
             None \<Rightarrow> Some (SL_ERROR_INVALID_ARGUMENT, mapped)
           | Some bytes \<Rightarrow>
               if mp_size m \<noteq> unat (pe_image_size img) then Some (SL_ERROR_INVALID_ARGUMENT, mapped)
               else if mp_protections_finalized m \<or> mp_storage m = SL_IMAGE_STORAGE_VIRTUAL_TAINTED
               then Some (SL_ERROR_INVALID_STATE, mapped)
               else if mp_storage m = SL_IMAGE_STORAGE_VIRTUAL \<and> load_base \<noteq> mp_address m
               then Some (SL_ERROR_INVALID_STATE, mapped)
               else if \<not> pe_is_pe32_plus img \<and> load_base > 0xffffffff
               then Some (SL_ERROR_INVALID_ARGUMENT, mapped)
               else if load_base = mp_load_base m then Some (SL_OK, mapped)
               else let relocations = pe_directories img ! SL_PE_DIRECTORY_BASERELOC
               in if dir_rva relocations = 0 \<or> dir_size relocations = 0
                  then Some (SL_ERROR_RELOCATION_REQUIRED, mapped)
                  else if unat (dir_rva relocations) > mp_size m \<or>
                          unat (dir_size relocations) > mp_size m - unat (dir_rva relocations)
                  then Some (SL_ERROR_INVALID_IMAGE, mapped)
                  else let delta = load_base - mp_load_base m
                  in (case process_relocations img (mp_size m) relocations delta False bytes of
                        None \<Rightarrow> None
                      | Some (status, bytes) \<Rightarrow>
                          if status \<noteq> SL_OK then Some (status, Some (m\<lparr>mp_bytes := Some bytes\<rparr>))
                          else (case process_relocations img (mp_size m) relocations delta True bytes of
                                  None \<Rightarrow> None
                                | Some (status, bytes) \<Rightarrow>
                                    if status \<noteq> SL_OK then Some (status, Some (m\<lparr>mp_bytes := Some bytes\<rparr>))
                                    else Some (SL_OK, Some (m\<lparr>mp_bytes := Some bytes,
                                                              mp_load_base := load_base\<rparr>)))))
      | _ \<Rightarrow> Some (SL_ERROR_INVALID_ARGUMENT, mapped))"

section \<open>Many additions\<close>

context access begin

primrec add_all :: "'w word \<Rightarrow> nat list \<Rightarrow> bytes \<Rightarrow> bytes option" where
  "add_all delta [] m = Some m"
| "add_all delta (x # xs) m = Option.bind (add_at delta x m) (add_all delta xs)"

lemma add_all_Nil: "add_all delta [] = Some"
  by (intro ext) simp

lemma add_all_Cons: "add_all delta (x # xs) = (\<lambda>m. Option.bind (add_at delta x m) (add_all delta xs))"
  by (intro ext) simp

text \<open>Two sites are the same or do not touch.\<close>

definition apart :: "nat \<Rightarrow> nat \<Rightarrow> bool" where
  "apart x y \<longleftrightarrow> x = y \<or> x + width \<le> y \<or> y + width \<le> x"

lemma add_all_total:
  "list_all (\<lambda>x. x + width \<le> length m) xs \<Longrightarrow>
     \<exists>m'. add_all delta xs m = Some m' \<and> length m' = length m \<and>
       (\<forall>i. (\<forall>x\<in>set xs. i < x \<or> x + width \<le> i) \<longrightarrow> m' ! i = m ! i)"
proof (induction xs arbitrary: m)
  case (Cons x xs)
  then obtain m1 where m1: "add_at delta x m = Some m1"
    by (simp add: add_at_eq)
  have len: "length m1 = length m"
    using add_at_length [OF m1] .
  then obtain m' where m': "add_all delta xs m1 = Some m'" "length m' = length m1"
      "\<forall>i. (\<forall>x\<in>set xs. i < x \<or> x + width \<le> i) \<longrightarrow> m' ! i = m1 ! i"
    using Cons.IH [of m1] Cons.prems by auto
  then show ?case
    using m1 len add_at_nth [OF m1] by auto
qed simp

lemma add_at_add_all:
  assumes "list_all (apart y) xs"
  shows "Option.bind (add_at e y m) (add_all d xs) = Option.bind (add_all d xs m) (add_at e y)"
  using assms
proof (induction xs arbitrary: m)
  case (Cons x xs)
  have swap: "Option.bind (add_at e y m) (add_at d x) = Option.bind (add_at d x m) (add_at e y)"
  proof (cases "x = y")
    case True
    have "Option.bind (add_at e y m) (add_at d y) = add_at (e + d) y m" if "y + width \<le> length m" for d e
      using that add_at_twice [of e y m _ d] by (auto simp: add_at_eq [of e])
    then show ?thesis
      unfolding True by (cases "y + width \<le> length m") (simp_all add: add.commute add_at_eq)
  next
    case False
    then show ?thesis
      using Cons.prems by (intro add_at_commute) (auto simp: apart_def)
  qed
  have "Option.bind (add_at e y m) (add_all d (x # xs)) =
      Option.bind (Option.bind (add_at e y m) (add_at d x)) (add_all d xs)"
    by (simp add: add_all_Cons bind_assoc)
  also have "\<dots> = Option.bind (add_at d x m) (\<lambda>m. Option.bind (add_at e y m) (add_all d xs))"
    by (simp add: swap bind_assoc)
  also have "\<dots> = Option.bind (add_at d x m) (\<lambda>m. Option.bind (add_all d xs m) (add_at e y))"
    using Cons by simp
  finally show ?case
    by (simp add: add_all_Cons bind_assoc)
qed (simp add: add_all_Nil)

lemma add_all_inverse:
  assumes "list_all (\<lambda>x. x + width \<le> length m) xs" "\<forall>x\<in>set xs. \<forall>y\<in>set xs. apart x y"
  shows "Option.bind (add_all d xs m) (add_all (- d) xs) = Some m"
  using assms
proof (induction xs arbitrary: m)
  case (Cons x xs)
  have a: "list_all (apart x) xs"
    using Cons.prems by (simp add: list_all_iff)
  have fit: "x + width \<le> length m"
    using Cons.prems by simp
  have "Option.bind (add_all d (x # xs) m) (add_all (- d) (x # xs)) =
      Option.bind (Option.bind (add_at d x m) (add_all d xs)) (\<lambda>m. Option.bind (add_at (- d) x m) (add_all (- d) xs))"
    by (simp add: add_all_Cons)
  also have "\<dots> = Option.bind (add_all d xs m) (\<lambda>m. Option.bind (add_at d x m) (\<lambda>m. Option.bind (add_at (- d) x m) (add_all (- d) xs)))"
    unfolding add_at_add_all [OF a] by (simp add: bind_assoc)
  also have "\<dots> = Option.bind (add_all d xs m) (add_all (- d) xs)"
  proof -
    have "Option.bind (add_at d x m') (\<lambda>m. Option.bind (add_at (- d) x m) (add_all (- d) xs)) = add_all (- d) xs m'"
      if "add_all d xs m = Some m'" for m'
    proof -
      obtain m'' where "add_all d xs m = Some m''" "length m'' = length m"
        using add_all_total [of m xs d] Cons.prems(1) by auto
      then have "x + width \<le> length m'"
        using fit that by simp
      then obtain n where n: "add_at d x m' = Some n"
        by (simp add: add_at_eq)
      have "add_at (- d) x n = Some m'"
        using add_at_twice [OF n, of "- d"] add_at_zero \<open>x + width \<le> length m'\<close> by simp
      then show ?thesis
        using n by simp
    qed
    then show ?thesis
      by (cases "add_all d xs m") simp_all
  qed
  also have "\<dots> = Some m"
    using Cons by simp
  finally show ?case .
qed simp

lemma add_all_load:
  assumes "add_all d xs m = Some m'" "load m x = Some v" "list_all (apart x) xs"
  shows "load m' x = Some (v + of_nat (count_list xs x) * d)"
  using assms
proof (induction xs arbitrary: m v)
  case (Cons y xs)
  then obtain m1 where m1: "add_at d y m = Some m1" "add_all d xs m1 = Some m'"
    by (auto split: bind_splits)
  show ?case
  proof (cases "x = y")
    case True
    then have "load m1 x = Some (v + d)"
      using add_at_load m1(1) Cons.prems(2) by blast
    then show ?thesis
      using Cons.IH [OF m1(2)] Cons.prems(3) True by (simp add: algebra_simps)
  next
    case False
    then have "load m1 x = load m x"
      using m1(1) Cons.prems(3) load_store_disjoint
      by (auto simp: add_at_def apart_def split: bind_splits)
    then show ?thesis
      using Cons.IH [OF m1(2)] Cons.prems False by simp
  qed
qed simp

end

section \<open>The sites of a directory\<close>

definition site_width :: "relocation_run \<Rightarrow> nat" where
  "site_width run = (if rr_is_pe32_plus run then 8 else 4)"

text \<open>What the entries of a block and the blocks of a directory ask for: the RVAs to patch up to the
  first error, and the status.\<close>

function entry_sites :: "relocation_run \<Rightarrow> u32 \<Rightarrow> nat \<Rightarrow> nat \<Rightarrow> bytes \<Rightarrow> sl_status \<times> nat list" where
  "entry_sites run page_rva entry_cursor block_end bytes =
     (if entry_cursor < block_end
      then case relocation_entry run page_rva (the (load_u16 bytes entry_cursor)) of
             Inl status \<Rightarrow> (status, [])
           | Inr None \<Rightarrow> entry_sites run page_rva (entry_cursor + 2) block_end bytes
           | Inr (Some x) \<Rightarrow>
               (case entry_sites run page_rva (entry_cursor + 2) block_end bytes of
                  (status, xs) \<Rightarrow> (status, x # xs))
      else (SL_OK, []))"
  by pat_completeness auto
termination
  by (relation "measure (\<lambda>(run, page_rva, entry_cursor, block_end, bytes). block_end - entry_cursor)") auto

declare entry_sites.simps [simp del]

function block_sites :: "relocation_run \<Rightarrow> nat \<Rightarrow> bytes \<Rightarrow> sl_status \<times> nat list" where
  "block_sites run cursor bytes =
     (if cursor < rr_end run
      then if rr_end run - cursor < SL_BASE_RELOCATION_HEADER_SIZE then (SL_ERROR_INVALID_IMAGE, [])
           else let page_rva = the (load_u32 bytes cursor);
                    block_size = unat (the (load_u32 bytes (cursor + 4)))
                in if block_size < SL_BASE_RELOCATION_HEADER_SIZE \<or>
                      (block_size - SL_BASE_RELOCATION_HEADER_SIZE) mod 2 \<noteq> 0 \<or>
                      block_size > rr_end run - cursor
                   then (SL_ERROR_INVALID_IMAGE, [])
                   else (case entry_sites run page_rva (cursor + SL_BASE_RELOCATION_HEADER_SIZE)
                           (cursor + block_size) bytes of
                           (status, xs) \<Rightarrow>
                             if status \<noteq> SL_OK then (status, xs)
                             else (case block_sites run (cursor + block_size) bytes of
                                     (status, ys) \<Rightarrow> (status, xs @ ys)))
      else (SL_OK, []))"
  by pat_completeness auto
termination
  by (relation "measure (\<lambda>(run, cursor, bytes). rr_end run - cursor)")
     (auto simp: SL_BASE_RELOCATION_HEADER_SIZE_def)

declare block_sites.simps [simp del]

text \<open>A site lies in the image and outside the directory.\<close>

definition site_ok :: "relocation_run \<Rightarrow> nat \<Rightarrow> bool" where
  "site_ok run x \<longleftrightarrow> x + site_width run \<le> rr_size run \<and>
     (rr_end run \<le> x \<or> x + site_width run \<le> rr_directory_start run)"

lemma relocation_entry_site: "relocation_entry run page_rva entry = Inr (Some x) \<Longrightarrow> site_ok run x"
  by (auto simp: relocation_entry_def site_ok_def site_width_def Let_def not_less split: if_splits)

lemma entry_sites_ok: "list_all (site_ok run) (snd (entry_sites run p c e bytes))"
proof (induction run p c e bytes rule: entry_sites.induct)
  case (1 run p c e bytes)
  then show ?case
    using relocation_entry_site
    by (subst entry_sites.simps) (auto split: sum.split option.split prod.split)
qed

lemma block_sites_ok: "list_all (site_ok run) (snd (block_sites run c bytes))"
proof (induction run c bytes rule: block_sites.induct)
  case (1 run c bytes)
  obtain st xs where xs: "entry_sites run (the (load_u32 bytes c)) (c + SL_BASE_RELOCATION_HEADER_SIZE)
      (c + unat (the (load_u32 bytes (c + 4)))) bytes = (st, xs)" by fastforce
  have "list_all (site_ok run) xs"
    using entry_sites_ok [of run "the (load_u32 bytes c)" "c + SL_BASE_RELOCATION_HEADER_SIZE"
      "c + unat (the (load_u32 bytes (c + 4)))" bytes] xs by simp
  then show ?case
    using 1 xs by (subst block_sites.simps) (auto simp: Let_def split: prod.split)
qed

text \<open>Patching at a list of sites.\<close>

primrec patch_all :: "relocation_run \<Rightarrow> nat list \<Rightarrow> bytes \<Rightarrow> bytes option" where
  "patch_all run [] m = Some m"
| "patch_all run (x # xs) m = Option.bind (patch run x m) (patch_all run xs)"

lemma patch_all_append: "patch_all run (xs @ ys) m = Option.bind (patch_all run xs m) (patch_all run ys)"
proof (induction xs arbitrary: m)
  case (Cons x xs)
  then show ?case by (cases "patch run x m") auto
qed simp

lemma patch_all_eq:
  "patch_all run xs m =
     (if \<not> rr_apply run then Some m
      else if rr_is_pe32_plus run then access64.add_all (rr_delta run) xs m
      else access32.add_all (ucast (rr_delta run)) xs m)"
proof (induction xs arbitrary: m)
  case (Cons x xs)
  have "patch run x = (\<lambda>m. if \<not> rr_apply run then Some m
      else if rr_is_pe32_plus run then access64.add_at (rr_delta run) x m
      else access32.add_at (ucast (rr_delta run)) x m)"
    by (intro ext) (simp add: patch_def access64.add_at_def access32.add_at_def)
  moreover have "patch_all run xs = (\<lambda>m. if \<not> rr_apply run then Some m
      else if rr_is_pe32_plus run then access64.add_all (rr_delta run) xs m
      else access32.add_all (ucast (rr_delta run)) xs m)"
    by (intro ext) (rule Cons.IH)
  ultimately show ?case
    by simp
qed simp

lemma patch_all_total:
  assumes "list_all (\<lambda>x. x + site_width run \<le> length m) xs"
  shows "\<exists>m'. patch_all run xs m = Some m' \<and> length m' = length m \<and>
    (\<forall>i. (\<forall>x\<in>set xs. i < x \<or> x + site_width run \<le> i) \<longrightarrow> m' ! i = m ! i)"
  using assms access64.add_all_total [of m xs "rr_delta run"]
    access32.add_all_total [of m xs "ucast (rr_delta run)"]
  unfolding patch_all_eq by (auto simp: site_width_def)

section \<open>Both runs see the same directory\<close>

definition same_directory :: "relocation_run \<Rightarrow> bytes \<Rightarrow> bytes \<Rightarrow> bool" where
  "same_directory run m m' \<longleftrightarrow> length m = length m' \<and>
     (\<forall>i. rr_directory_start run \<le> i \<and> i < rr_end run \<longrightarrow> m ! i = m' ! i)"

lemma same_directory_refl [simp]: "same_directory run m m"
  by (simp add: same_directory_def)

lemma same_directory_trans:
  "same_directory run l m \<Longrightarrow> same_directory run m n \<Longrightarrow> same_directory run l n"
  by (auto simp: same_directory_def)

lemma same_directory_loads:
  assumes "same_directory run m m'" "rr_directory_start run \<le> c"
  shows "c + 2 \<le> rr_end run \<Longrightarrow> load_u16 m' c = load_u16 m c"
    "c + 4 \<le> rr_end run \<Longrightarrow> load_u32 m' c = load_u32 m c"
  using assms by (auto simp: same_directory_def load_u16_def load_u32_def)

lemma load_defined:
  "c + 2 \<le> length m \<Longrightarrow> load_u16 m c = Some (the (load_u16 m c))"
  "c + 4 \<le> length m \<Longrightarrow> load_u32 m c = Some (the (load_u32 m c))"
  by (simp_all add: load_u16_def load_u32_def)

lemma patch_all_same_directory:
  assumes "patch_all run xs m = Some m'" "list_all (site_ok run) xs" "rr_size run \<le> length m"
  shows "same_directory run m m'"
proof -
  have fit: "list_all (\<lambda>x. x + site_width run \<le> length m) xs"
    using assms(2,3) by (auto simp: list_all_iff site_ok_def)
  have "m' ! i = m ! i" if "rr_directory_start run \<le> i" "i < rr_end run" for i
  proof -
    have "\<forall>x\<in>set xs. i < x \<or> x + site_width run \<le> i"
      using assms(2) that by (fastforce simp: list_all_iff site_ok_def)
    then show ?thesis
      using patch_all_total [OF fit] assms(1) by auto
  qed
  then show ?thesis
    using patch_all_total [OF fit] assms(1) by (auto simp: same_directory_def)
qed

text \<open>The bounds of a run over a directory inside an image that is inside the allocation.\<close>

definition run_ok :: "relocation_run \<Rightarrow> bytes \<Rightarrow> bool" where
  "run_ok run m \<longleftrightarrow> rr_directory_start run \<le> rr_end run \<and> rr_end run \<le> rr_size run \<and>
     rr_size run \<le> length m"

lemma process_entries_sites:
  assumes "run_ok run m0" "same_directory run m0 m" "rr_directory_start run \<le> c"
    and "be \<le> rr_end run" "even (be - c)"
  shows "process_entries run p c be m =
    (case entry_sites run p c be m0 of (status, xs) \<Rightarrow> map_option (Pair status) (patch_all run xs m))"
  using assms
proof (induction run p c be m0 arbitrary: m rule: entry_sites.induct)
  case (1 run p c be m0)
  show ?case
  proof (cases "c < be")
    case True
    then have c: "c + 2 \<le> be"
      using 1(6,7) by presburger
    then have in_range: "c + 2 \<le> length m0" "c + 2 \<le> rr_end run"
      using 1(3,6) by (simp_all add: run_ok_def)
    obtain entry where e: "load_u16 m0 c = Some entry"
      using load_defined(1) [OF in_range(1)] by blast
    have e': "load_u16 m c = Some entry"
      using same_directory_loads(1) [OF 1(4,5) in_range(2)] e by simp
    have even: "even (be - (c + 2))"
      using 1(7) c by simp
    have start: "rr_directory_start run \<le> c + 2"
      using 1(5) by simp
    show ?thesis
    proof (cases "relocation_entry run p entry")
      case (Inl status)
      then show ?thesis
        using True e e' by (simp add: process_entries.simps [of _ _ c] entry_sites.simps [of _ _ c])
    next
      case (Inr act)
      show ?thesis
      proof (cases act)
        case None
        show ?thesis
          using 1(1) [OF True _ None, of m] Inr None e e' True 1(3,4,6) even start
          by (simp add: process_entries.simps [of _ _ c] entry_sites.simps [of _ _ c])
      next
        case (Some x)
        then have ok: "site_ok run x"
          using relocation_entry_site Inr by blast
        have len: "rr_size run \<le> length m"
          using 1(3,4) by (simp add: run_ok_def same_directory_def)
        have fit: "list_all (\<lambda>x. x + site_width run \<le> length m) [x]"
          using ok len by (simp add: site_ok_def)
        obtain m' where m': "patch run x m = Some m'"
          using patch_all_total [OF fit] by (auto split: bind_splits)
        have "same_directory run m m'"
          using patch_all_same_directory [of run "[x]" m m'] m' ok len by simp
        then have same: "same_directory run m0 m'"
          using same_directory_trans 1(4) by blast
        show ?thesis
          using 1(2) [OF True _ Some, of m'] Inr Some e e' True m' 1(3,6) same even start
          by (simp add: process_entries.simps [of _ _ c] entry_sites.simps [of _ _ c] split: prod.split)
      qed
    qed
  next
    case False
    then show ?thesis
      by (simp add: process_entries.simps [of _ _ c] entry_sites.simps [of _ _ c])
  qed
qed

lemma process_blocks_sites:
  assumes "run_ok run m0" "same_directory run m0 m" "rr_directory_start run \<le> c"
  shows "process_blocks run c m =
    (case block_sites run c m0 of (status, xs) \<Rightarrow> map_option (Pair status) (patch_all run xs m))"
  using assms
proof (induction run c m0 arbitrary: m rule: block_sites.induct)
  case (1 run c m0)
  show ?case
  proof (cases "c < rr_end run \<and> \<not> rr_end run - c < SL_BASE_RELOCATION_HEADER_SIZE")
    case True
    then have c8: "c + 4 \<le> rr_end run" "c + 4 + 4 \<le> rr_end run" "c + 4 \<le> length m0" "c + 4 + 4 \<le> length m0"
      using 1(2) by (auto simp: SL_BASE_RELOCATION_HEADER_SIZE_def run_ok_def)
    obtain p bs where p: "load_u32 m0 c = Some p" and bs: "load_u32 m0 (c + 4) = Some bs"
      using load_defined(2) c8 by blast
    have p': "load_u32 m c = Some p" and bs': "load_u32 m (c + 4) = Some bs"
      using same_directory_loads(2) [OF 1(3)] 1(4) c8 p bs by simp_all
    show ?thesis
    proof (cases "unat bs < SL_BASE_RELOCATION_HEADER_SIZE \<or>
        (unat bs - SL_BASE_RELOCATION_HEADER_SIZE) mod 2 \<noteq> 0 \<or> unat bs > rr_end run - c")
      case bad: True
      then show ?thesis
        using True p bs p' bs'
        by (auto simp: process_blocks.simps [of _ c] block_sites.simps [of _ c] Let_def)
    next
      case good: False
      let ?s = "c + SL_BASE_RELOCATION_HEADER_SIZE" and ?e = "c + unat bs"
      obtain st xs where xs: "entry_sites run p ?s ?e m0 = (st, xs)" by fastforce
      have ev: "even (?e - ?s)"
        using good by (auto simp: even_iff_mod_2_eq_zero)
      have e: "process_entries run p ?s ?e m = map_option (Pair st) (patch_all run xs m)"
        using process_entries_sites [OF 1(2,3), of ?s ?e p] 1(4) good ev True xs by auto
      show ?thesis
      proof (cases "st = SL_OK")
        case False
        then show ?thesis
          using True good p bs p' bs' xs e
          by (simp add: process_blocks.simps [of _ c] block_sites.simps [of _ c] Let_def
              split: option.split)
      next
        case ok: True
        have sites: "list_all (site_ok run) xs"
          using entry_sites_ok [of run p ?s ?e m0] xs by simp
        have len: "rr_size run \<le> length m"
          using 1(2,3) by (simp add: run_ok_def same_directory_def)
        have "list_all (\<lambda>x. x + site_width run \<le> length m) xs"
          using sites len by (auto simp: list_all_iff site_ok_def)
        then obtain m' where m': "patch_all run xs m = Some m'"
          using patch_all_total by blast
        have same: "same_directory run m0 m'"
          using same_directory_trans [OF 1(3)] patch_all_same_directory [OF m' sites len] by blast
        have "process_blocks run ?e m' =
            (case block_sites run ?e m0 of (status, xs) \<Rightarrow> map_option (Pair status) (patch_all run xs m'))"
          using 1(1) [of p "unat bs" st xs m'] True good p bs xs ok 1(2,4) same by auto
        then show ?thesis
          using True good p bs p' bs' xs e ok m'
          by (simp add: process_blocks.simps [of _ c] block_sites.simps [of _ c] Let_def
              patch_all_append split: option.split prod.split)
      qed
    qed
  next
    case False
    then show ?thesis
      by (auto simp: process_blocks.simps [of _ c] block_sites.simps [of _ c])
  qed
qed

section \<open>Applying the relocations\<close>

lemma relocation_entry_frame [simp]:
  "relocation_entry (run\<lparr>rr_delta := d, rr_apply := a\<rparr>) p e = relocation_entry run p e"
  by (simp add: relocation_entry_def Let_def cong: if_cong)

lemma entry_sites_frame [simp]:
  "entry_sites (run\<lparr>rr_delta := d, rr_apply := a\<rparr>) p c e bytes = entry_sites run p c e bytes"
proof (induction run p c e bytes rule: entry_sites.induct)
  case (1 run p c e bytes)
  then show ?case
    by (simp add: entry_sites.simps [of _ _ c] split: sum.split option.split)
qed

lemma block_sites_frame [simp]:
  "block_sites (run\<lparr>rr_delta := d, rr_apply := a\<rparr>) c bytes = block_sites run c bytes"
proof (induction run c bytes rule: block_sites.induct)
  case (1 run c bytes)
  obtain st xs where xs: "entry_sites run (the (load_u32 bytes c)) (c + SL_BASE_RELOCATION_HEADER_SIZE)
      (c + unat (the (load_u32 bytes (c + 4)))) bytes = (st, xs)" by fastforce
  show ?case
    using 1 [OF _ _ refl refl _ xs [symmetric]] xs
    by (auto simp: block_sites.simps [of _ c] Let_def)
qed

text \<open>The run that \<open>sl_loader_apply_relocations\<close> makes.\<close>

definition relocation_job :: "sl_pe_image \<Rightarrow> sl_mapped_image \<Rightarrow> u64 \<Rightarrow> relocation_run" where
  "relocation_job img m load_base =
     (let dir = pe_directories img ! SL_PE_DIRECTORY_BASERELOC in
      \<lparr>rr_is_pe32_plus = pe_is_pe32_plus img, rr_size = mp_size m,
         rr_directory_start = unat (dir_rva dir),
         rr_end = unat (dir_rva dir) + unat (dir_size dir),
         rr_delta = load_base - mp_load_base m, rr_apply = True\<rparr>)"

definition relocation_sites :: "sl_pe_image \<Rightarrow> sl_mapped_image \<Rightarrow> sl_status \<times> nat list" where
  "relocation_sites img m =
     (let run = relocation_job img m 0 in block_sites run (rr_directory_start run) (the (mp_bytes m)))"

definition mapping_ok :: "sl_mapped_image \<Rightarrow> bool" where
  "mapping_ok m = (case mp_bytes m of None \<Rightarrow> True | Some bytes \<Rightarrow> mp_size m \<le> length bytes)"

text \<open>The tests before the first run.\<close>

definition relocation_refused :: "sl_pe_image \<Rightarrow> sl_mapped_image \<Rightarrow> u64 \<Rightarrow> sl_status option" where
  "relocation_refused img m load_base =
     (let dir = pe_directories img ! SL_PE_DIRECTORY_BASERELOC
      in if mp_bytes m = None \<or> mp_size m \<noteq> unat (pe_image_size img) then Some SL_ERROR_INVALID_ARGUMENT
         else if mp_protections_finalized m \<or> mp_storage m = SL_IMAGE_STORAGE_VIRTUAL_TAINTED
         then Some SL_ERROR_INVALID_STATE
         else if mp_storage m = SL_IMAGE_STORAGE_VIRTUAL \<and> load_base \<noteq> mp_address m
         then Some SL_ERROR_INVALID_STATE
         else if \<not> pe_is_pe32_plus img \<and> load_base > 0xffffffff then Some SL_ERROR_INVALID_ARGUMENT
         else if load_base = mp_load_base m then Some SL_OK
         else if dir_rva dir = 0 \<or> dir_size dir = 0 then Some SL_ERROR_RELOCATION_REQUIRED
         else if unat (dir_rva dir) > mp_size m \<or> unat (dir_size dir) > mp_size m - unat (dir_rva dir)
         then Some SL_ERROR_INVALID_IMAGE
         else None)"

lemma apply_eq:
  "sl_loader_apply_relocations (Some img) (Some m) load_base =
    (case relocation_refused img m load_base of
       Some status \<Rightarrow> Some (status, Some m)
     | None \<Rightarrow>
      (case process_relocations img (mp_size m) (pe_directories img ! SL_PE_DIRECTORY_BASERELOC)
              (load_base - mp_load_base m) False (the (mp_bytes m)) of
         None \<Rightarrow> None
       | Some (status, bytes) \<Rightarrow>
           if status \<noteq> SL_OK then Some (status, Some (m\<lparr>mp_bytes := Some bytes\<rparr>))
           else (case process_relocations img (mp_size m) (pe_directories img ! SL_PE_DIRECTORY_BASERELOC)
                   (load_base - mp_load_base m) True bytes of
                   None \<Rightarrow> None
                 | Some (status, bytes) \<Rightarrow>
                     if status \<noteq> SL_OK then Some (status, Some (m\<lparr>mp_bytes := Some bytes\<rparr>))
                     else Some (SL_OK, Some (m\<lparr>mp_bytes := Some bytes, mp_load_base := load_base\<rparr>)))))"
proof (cases "mp_bytes m")
  case (Some bytes)
  show ?thesis
    unfolding sl_loader_apply_relocations_def relocation_refused_def Let_def prod.case option.case Some
      if_distrib [of "case_option _ _"]
    by (simp only: option.sel option.simps simp_thms if_False)
qed (simp add: sl_loader_apply_relocations_def relocation_refused_def)

lemma apply_runs:
  assumes "relocation_refused img m load_base = None" "mapping_ok m" "mp_bytes m = Some bytes"
    and "relocation_sites img m = (status, xs)"
  shows "sl_loader_apply_relocations (Some img) (Some m) load_base =
      (if status \<noteq> SL_OK then Some (status, Some m)
       else map_option (\<lambda>bytes. (SL_OK, Some (m\<lparr>mp_bytes := Some bytes, mp_load_base := load_base\<rparr>)))
              (patch_all (relocation_job img m load_base) xs bytes)) \<and>
    run_ok (relocation_job img m load_base) bytes \<and> list_all (site_ok (relocation_job img m load_base)) xs"
proof -
  let ?dir = "pe_directories img ! SL_PE_DIRECTORY_BASERELOC"
  let ?run = "relocation_job img m load_base"
  let ?dry = "?run\<lparr>rr_delta := rr_delta ?run, rr_apply := False\<rparr>"
  have run: "run_ok ?run bytes" "run_ok ?dry bytes"
    using assms(1-3)
    by (auto simp: run_ok_def relocation_job_def relocation_refused_def mapping_ok_def Let_def split: if_splits)
  have zero: "relocation_job img m 0 = ?run\<lparr>rr_delta := - mp_load_base m, rr_apply := True\<rparr>"
    by (simp add: relocation_job_def Let_def)
  have sites: "block_sites ?run (rr_directory_start ?run) bytes = (status, xs)"
    using assms(3,4) unfolding relocation_sites_def Let_def zero by simp
  then have dry_sites: "block_sites ?dry (rr_directory_start ?dry) bytes = (status, xs)"
    using block_sites_frame [where run = ?run and d = "rr_delta ?run" and a = False] by simp
  have dry: "process_relocations img (mp_size m) ?dir (load_base - mp_load_base m) False bytes =
      Some (status, bytes)"
    using process_blocks_sites [OF run(2) same_directory_refl order_refl] dry_sites
    by (simp add: process_relocations_def relocation_job_def Let_def patch_all_eq)
  have wet: "process_relocations img (mp_size m) ?dir (load_base - mp_load_base m) True bytes =
      map_option (Pair status) (patch_all ?run xs bytes)"
    using process_blocks_sites [OF run(1) same_directory_refl order_refl] sites
    by (simp add: process_relocations_def relocation_job_def Let_def)
  have ok: "list_all (site_ok ?run) xs"
    using block_sites_ok [of ?run "rr_directory_start ?run" bytes] sites by simp
  have m: "m\<lparr>mp_bytes := Some bytes\<rparr> = m"
    using assms(3) by simp
  show ?thesis
    using run(1) ok m assms(1,3)
    by (simp add: apply_eq dry wet option.map_comp comp_def split: option.split)
qed

lemma apply_patches:
  assumes "run_ok run bytes" "list_all (site_ok run) xs"
  obtains bytes' where "patch_all run xs bytes = Some bytes'" "length bytes' = length bytes"
    "\<forall>i. (\<forall>x\<in>set xs. i < x \<or> x + site_width run \<le> i) \<longrightarrow> bytes' ! i = bytes ! i"
proof -
  have "list_all (\<lambda>x. x + site_width run \<le> length bytes) xs"
    using assms by (auto simp: list_all_iff site_ok_def run_ok_def)
  then show thesis
    using patch_all_total that by blast
qed

end
