(* ===== verification/Loader_Mapping.thy ===== *)
theory Loader_Mapping
  imports Loader_Relocations
begin

text \<open>
  \<open>src/loader.c\<close>, third part: creating and releasing mapped images. The host's memory calls are
  parameters (\<open>host\<close>, \<open>calloc\<close>, \<open>sysconf\<close>); what the code asks of the host is returned as a list of
  events, so that the address ranges it holds can be added up. New memory is zero-filled, as both
  \<open>calloc\<close> and anonymous \<open>mmap\<close> promise.
\<close>


section \<open>Filling a mapping from the file\<close>

definition copy_bytes :: "bytes \<Rightarrow> nat \<Rightarrow> bytes \<Rightarrow> nat \<Rightarrow> nat \<Rightarrow> bytes option" where
  "copy_bytes destination offset source source_offset n =
     (if offset + n \<le> length destination \<and> source_offset + n \<le> length source
      then Some (splice destination offset (take n (drop source_offset source))) else None)"

definition validate_mapping :: "sl_pe_image option \<Rightarrow> sl_status" where
  "validate_mapping img = (case img of None \<Rightarrow> SL_ERROR_INVALID_ARGUMENT
     | Some img \<Rightarrow>
         if pe_image_size img = 0 \<or> pe_headers_size img > pe_image_size img \<or>
            unat (pe_headers_size img) > length (pe_file img)
         then SL_ERROR_INVALID_IMAGE else SL_OK)"

fun populate_sections ::
    "bytes \<Rightarrow> nat \<Rightarrow> sl_pe_section list \<Rightarrow> bytes \<Rightarrow> (sl_status \<times> bytes) option" where
  "populate_sections file mapped_size [] bytes = Some (SL_OK, bytes)"
| "populate_sections file mapped_size (section # sections) bytes =
     (if sec_raw_size section = 0 then populate_sections file mapped_size sections bytes
      else if unat (sec_virtual_address section) > mapped_size \<or>
              unat (sec_raw_size section) > mapped_size - unat (sec_virtual_address section) \<or>
              unat (sec_raw_offset section) > length file \<or>
              unat (sec_raw_size section) > length file - unat (sec_raw_offset section)
      then Some (SL_ERROR_INVALID_IMAGE, bytes)
      else case copy_bytes bytes (unat (sec_virtual_address section)) file
                  (unat (sec_raw_offset section)) (unat (sec_raw_size section)) of
             None \<Rightarrow> None
           | Some bytes \<Rightarrow> populate_sections file mapped_size sections bytes)"

definition populate_mapping :: "sl_pe_image \<Rightarrow> nat \<Rightarrow> bytes \<Rightarrow> (sl_status \<times> bytes) option" where
  "populate_mapping img mapped_size bytes =
     (case copy_bytes bytes 0 (pe_file img) 0 (unat (pe_headers_size img)) of
        None \<Rightarrow> None
      | Some bytes \<Rightarrow> populate_sections (pe_file img) mapped_size (pe_sections img) bytes)"

definition initialize_mapping ::
    "sl_pe_image \<Rightarrow> bytes \<Rightarrow> ptr \<Rightarrow> nat \<Rightarrow> sl_image_storage \<Rightarrow> sl_mapped_image" where
  "initialize_mapping img bytes address allocation_size storage =
     \<lparr>mp_bytes = Some bytes, mp_address = address, mp_size = unat (pe_image_size img),
      mp_allocation_size = allocation_size, mp_preferred_base = pe_image_base img,
      mp_load_base = pe_image_base img, mp_entry_rva = pe_entry_rva img, mp_storage = storage,
      mp_protections_finalized = False\<rparr>"

text \<open>The object after its \<open>memset\<close>.\<close>

definition no_mapping :: sl_mapped_image where
  "no_mapping = \<lparr>mp_bytes = None, mp_address = NULL, mp_size = 0, mp_allocation_size = 0,
     mp_preferred_base = 0, mp_load_base = 0, mp_entry_rva = 0,
     mp_storage = SL_IMAGE_STORAGE_NONE, mp_protections_finalized = False\<rparr>"

text \<open>What the operations ask of the host: memory released to the heap and changes to the address
  space, each with its address and size.\<close>

datatype host_event = FREED ptr | MAPPED nat nat | UNMAPPED nat nat

text \<open>
  The host: \<open>mmap_fixed\<close> is \<open>mmap\<close> with \<open>MAP_FIXED_NOREPLACE\<close> at an address, \<open>mmap_any\<close> without a
  wish, both the address of the mapping or \<open>None\<close>; \<open>munmap_ok\<close> is whether a \<open>munmap\<close> succeeds.
\<close>

record host =
  mmap_fixed :: "nat \<Rightarrow> nat \<Rightarrow> nat option"
  mmap_any :: "nat \<Rightarrow> nat option"
  munmap_ok :: "nat \<Rightarrow> nat \<Rightarrow> bool"

definition munmap :: "host \<Rightarrow> nat \<Rightarrow> nat \<Rightarrow> host_event list" where
  "munmap h address n = (if munmap_ok h address n then [UNMAPPED address n] else [])"

definition sl_loader_unmap_image :: "host \<Rightarrow> sl_mapped_image option \<Rightarrow> host_event list \<times> sl_mapped_image option" where
  "sl_loader_unmap_image h mapped = (case mapped of None \<Rightarrow> ([], None)
     | Some m \<Rightarrow>
         (if mp_storage m = SL_IMAGE_STORAGE_VIRTUAL \<or> mp_storage m = SL_IMAGE_STORAGE_VIRTUAL_TAINTED
          then if mp_bytes m \<noteq> None \<and> mp_allocation_size m \<noteq> 0
               then munmap h (unat (mp_address m)) (mp_allocation_size m) else []
          else [FREED (mp_address m)],
          Some no_mapping))"

text \<open>\<open>calloc\<close> is a parameter: the address of the new block or \<open>None\<close>.\<close>

definition sl_loader_map_image ::
    "host \<Rightarrow> (nat \<Rightarrow> ptr option) \<Rightarrow> sl_pe_image option \<Rightarrow> sl_mapped_image option \<Rightarrow>
     (sl_status \<times> sl_mapped_image option \<times> host_event list) option" where
  "sl_loader_map_image h calloc img mapped =
     (if mapped = None then Some (SL_ERROR_INVALID_ARGUMENT, None, [])
      else let status = validate_mapping img
      in if status \<noteq> SL_OK then Some (status, Some no_mapping, [])
         else let img = the img
         in case calloc (unat (pe_image_size img)) of
              None \<Rightarrow> Some (SL_ERROR_OUT_OF_MEMORY, Some no_mapping, [])
            | Some address \<Rightarrow>
                let bytes = replicate (unat (pe_image_size img)) 0;
                    m = initialize_mapping img bytes address (unat (pe_image_size img))
                          SL_IMAGE_STORAGE_HEAP
                in (case populate_mapping img (mp_size m) bytes of
                      None \<Rightarrow> None
                    | Some (status, bytes) \<Rightarrow>
                        let m = m\<lparr>mp_bytes := Some bytes\<rparr>
                        in if status \<noteq> SL_OK
                           then (case sl_loader_unmap_image h (Some m) of (events, mapped) \<Rightarrow>
                                   Some (status, mapped, events))
                           else Some (status, Some m, [])))"

section \<open>Choosing an address\<close>

definition SL_WINDOWS_ALLOCATION_GRANULARITY :: nat where
  "SL_WINDOWS_ALLOCATION_GRANULARITY = 64 * 1024"

definition UINTPTR_MAX :: nat where "UINTPTR_MAX = 2 ^ 64 - 1"

text \<open>\<open>sysconf(_SC_PAGESIZE)\<close> is a parameter.\<close>

definition host_page_size :: "int \<Rightarrow> nat result" where
  "host_page_size sysconf =
     (if sysconf \<le> 0 \<or> nat sysconf > SIZE_MAX then Inl SL_ERROR_MEMORY_MAPPING
      else let converted = nat sysconf
      in if converted AND (converted - 1) \<noteq> 0 then Inl SL_ERROR_MEMORY_MAPPING
         else Inr converted)"

definition round_up_size :: "nat \<Rightarrow> nat \<Rightarrow> nat option" where
  "round_up_size value alignment =
     (let remainder = value AND (alignment - 1)
      in if remainder = 0 then Some value
         else let addition = alignment - remainder
         in if value > SIZE_MAX - addition then None else Some (value + addition))"

definition map_preferred_address :: "host \<Rightarrow> u64 \<Rightarrow> nat \<Rightarrow> nat \<Rightarrow> nat option \<times> host_event list" where
  "map_preferred_address h preferred_base allocation_size address_alignment =
     (let requested = unat preferred_base
      in if preferred_base = 0 \<or> requested > UINTPTR_MAX \<or> requested mod address_alignment \<noteq> 0 \<or>
            allocation_size > UINTPTR_MAX - requested
         then (None, [])
         else case mmap_fixed h requested allocation_size of
                None \<Rightarrow> (None, [])
              | Some address \<Rightarrow>
                  if address \<noteq> requested
                  then (None, MAPPED address allocation_size # munmap h address allocation_size)
                  else (Some address, [MAPPED address allocation_size]))"

definition map_aligned_address :: "host \<Rightarrow> nat \<Rightarrow> nat \<Rightarrow> nat \<Rightarrow> nat option \<times> host_event list" where
  "map_aligned_address h allocation_size page_size address_alignment =
     (let padding = address_alignment - page_size
      in if allocation_size > SIZE_MAX - padding then (None, [])
         else let reservation_size = allocation_size + padding
         in case mmap_any h reservation_size of
              None \<Rightarrow> (None, [])
            | Some reservation \<Rightarrow>
                let mapping = MAPPED reservation reservation_size
                in if reservation > UINTPTR_MAX - (address_alignment - 1)
                   then (None, mapping # munmap h reservation reservation_size)
                   else let aligned = unat ((of_nat (reservation + address_alignment - 1) :: u64) AND
                                            NOT (of_nat (address_alignment - 1)));
                            prefix_size = aligned - reservation;
                            suffix_size = reservation_size - prefix_size - allocation_size
                   in if prefix_size \<noteq> 0 \<and> \<not> munmap_ok h reservation prefix_size
                      then (None, mapping # munmap h reservation reservation_size)
                      else let events = mapping #
                                 (if prefix_size \<noteq> 0 then [UNMAPPED reservation prefix_size] else [])
                      in if suffix_size \<noteq> 0 \<and> \<not> munmap_ok h (aligned + allocation_size) suffix_size
                         then (None, events @ munmap h aligned (reservation_size - prefix_size))
                         else (Some aligned, events @
                                 (if suffix_size \<noteq> 0
                                  then [UNMAPPED (aligned + allocation_size) suffix_size] else [])))"

text \<open>The preferred address, else any aligned one.\<close>

definition choose_address :: "host \<Rightarrow> u64 \<Rightarrow> nat \<Rightarrow> nat \<Rightarrow> nat option \<times> host_event list" where
  "choose_address h preferred_base allocation_size page_size =
     (let address_alignment = if page_size > SL_WINDOWS_ALLOCATION_GRANULARITY
                              then page_size else SL_WINDOWS_ALLOCATION_GRANULARITY
      in case map_preferred_address h preferred_base allocation_size address_alignment of
           (Some address, events) \<Rightarrow> (Some address, events)
         | (None, events) \<Rightarrow>
             (case map_aligned_address h allocation_size page_size address_alignment of
                (address, events') \<Rightarrow> (address, events @ events')))"

text \<open>Filling the new mapping and moving it to its address; a failure unmaps it.\<close>

definition install_image ::
    "host \<Rightarrow> sl_pe_image \<Rightarrow> nat \<Rightarrow> nat \<Rightarrow> (sl_status \<times> sl_mapped_image option \<times> host_event list) option" where
  "install_image h img address allocation_size =
     (let bytes = replicate allocation_size 0;
          m = initialize_mapping img bytes (of_nat address) allocation_size SL_IMAGE_STORAGE_VIRTUAL
      in case populate_mapping img (mp_size m) bytes of
           None \<Rightarrow> None
         | Some (status, bytes) \<Rightarrow>
             let m = m\<lparr>mp_bytes := Some bytes\<rparr>
             in (case (if status = SL_OK
                       then sl_loader_apply_relocations (Some img) (Some m) (mp_address m)
                       else Some (status, Some m)) of
                   None \<Rightarrow> None
                 | Some (status, mapped) \<Rightarrow>
                     if status \<noteq> SL_OK
                     then (case sl_loader_unmap_image h mapped of (events, mapped) \<Rightarrow>
                             Some (status, mapped, events))
                     else Some (status, mapped, [])))"

definition sl_loader_map_image_for_execution ::
    "host \<Rightarrow> int \<Rightarrow> sl_pe_image option \<Rightarrow> sl_mapped_image option \<Rightarrow>
     (sl_status \<times> sl_mapped_image option \<times> host_event list) option" where
  "sl_loader_map_image_for_execution h sysconf img mapped =
     (if mapped = None then Some (SL_ERROR_INVALID_ARGUMENT, None, [])
      else let status = validate_mapping img
      in if status \<noteq> SL_OK then Some (status, Some no_mapping, [])
         else let img = the img
         in if \<not> pe_is_pe32_plus img \<or> pe_machine img \<noteq> SL_PE_MACHINE_AMD64
            then Some (SL_ERROR_UNSUPPORTED_MACHINE, Some no_mapping, [])
            else (case host_page_size sysconf of
                    Inl status \<Rightarrow> Some (status, Some no_mapping, [])
                  | Inr page_size \<Rightarrow>
                      (case round_up_size (unat (pe_image_size img)) page_size of
                         None \<Rightarrow> Some (SL_ERROR_MEMORY_MAPPING, Some no_mapping, [])
                       | Some allocation_size \<Rightarrow>
                           (case choose_address h (pe_image_base img) allocation_size page_size of
                              (None, events) \<Rightarrow>
                                Some (SL_ERROR_MEMORY_MAPPING, Some no_mapping, events)
                            | (Some address, events) \<Rightarrow>
                                map_option (\<lambda>(status, mapped, events'). (status, mapped, events @ events'))
                                  (install_image h img address allocation_size)))))"

end
