(* ===== verification/Loader_Protection.thy ===== *)
theory Loader_Protection
  imports Loader_Mapping
begin

text \<open>
  \<open>src/loader.c\<close>, fourth part: the protections of a finished image. The pages of the mapping are
  part of the host's state; whether an \<open>mprotect\<close> succeeds is a parameter.
\<close>


section \<open>Protections\<close>

definition SL_SECTION_MEM_EXECUTE :: u32 where "SL_SECTION_MEM_EXECUTE = 0x20000000"
definition SL_SECTION_MEM_READ :: u32 where "SL_SECTION_MEM_READ = 0x40000000"
definition SL_SECTION_MEM_WRITE :: u32 where "SL_SECTION_MEM_WRITE = 0x80000000"

definition PROT_READ :: u8 where "PROT_READ = 1"
definition PROT_WRITE :: u8 where "PROT_WRITE = 2"
definition PROT_EXEC :: u8 where "PROT_EXEC = 4"

text \<open>The loop \<open>for (page = first_page; page <= last_page; ++page)\<close>; \<open>None\<close> is a write outside the array.\<close>

function or_pages :: "u8 list \<Rightarrow> nat \<Rightarrow> nat \<Rightarrow> u8 \<Rightarrow> u8 list option" where
  "or_pages permissions page last_page protection =
     (if page \<le> last_page
      then if page < length permissions
           then or_pages (permissions[page := permissions ! page OR protection]) (page + 1) last_page protection
           else None
      else Some permissions)"
  by pat_completeness auto
termination
  by (relation "measure (\<lambda>(permissions, page, last_page, protection). last_page + 1 - page)") auto

declare or_pages.simps [simp del]

definition add_page_permissions ::
    "u8 list \<Rightarrow> nat \<Rightarrow> nat \<Rightarrow> nat \<Rightarrow> nat \<Rightarrow> nat \<Rightarrow> u8 \<Rightarrow> (sl_status \<times> u8 list) option" where
  "add_page_permissions permissions page_count page_size image_size start len protection =
     (if len = 0 then Some (SL_OK, permissions)
      else if start > image_size \<or> len > image_size - start then Some (SL_ERROR_INVALID_IMAGE, permissions)
      else let end = start + len;
               first_page = start div page_size;
               last_page = (end - 1) div page_size
           in if first_page \<ge> page_count \<or> last_page \<ge> page_count
              then Some (SL_ERROR_INVALID_IMAGE, permissions)
              else map_option (Pair SL_OK) (or_pages permissions first_page last_page protection))"

definition section_length :: "sl_pe_section \<Rightarrow> nat" where
  "section_length section =
     (if unat (sec_raw_size section) > unat (sec_virtual_size section)
      then unat (sec_raw_size section) else unat (sec_virtual_size section))"

definition section_protection :: "sl_pe_section \<Rightarrow> u8" where
  "section_protection section =
     (0 OR (if sec_characteristics section AND SL_SECTION_MEM_READ \<noteq> 0 then PROT_READ else 0))
       OR (if sec_characteristics section AND SL_SECTION_MEM_WRITE \<noteq> 0 then PROT_WRITE else 0)
       OR (if sec_characteristics section AND SL_SECTION_MEM_EXECUTE \<noteq> 0 then PROT_EXEC else 0)"

fun section_permissions ::
    "u8 list \<Rightarrow> nat \<Rightarrow> nat \<Rightarrow> nat \<Rightarrow> sl_pe_section list \<Rightarrow> (sl_status \<times> u8 list) option" where
  "section_permissions permissions page_count page_size image_size [] = Some (SL_OK, permissions)"
| "section_permissions permissions page_count page_size image_size (section # sections) =
     (case add_page_permissions permissions page_count page_size image_size
             (unat (sec_virtual_address section)) (section_length section) (section_protection section) of
        None \<Rightarrow> None
      | Some (status, permissions) \<Rightarrow>
          if status \<noteq> SL_OK then Some (status, permissions)
          else section_permissions permissions page_count page_size image_size sections)"

definition wx_conflict :: "u8 \<Rightarrow> bool" where
  "wx_conflict p \<longleftrightarrow> p AND PROT_WRITE \<noteq> 0 \<and> p AND PROT_EXEC \<noteq> 0"

text \<open>The end of the run of equal permissions that starts at a page.\<close>

function run_end :: "u8 list \<Rightarrow> nat \<Rightarrow> nat \<Rightarrow> nat" where
  "run_end permissions first_page end_page =
     (if end_page < length permissions \<and> permissions ! end_page = permissions ! first_page
      then run_end permissions first_page (end_page + 1) else end_page)"
  by pat_completeness auto
termination
  by (relation "measure (\<lambda>(permissions, first_page, end_page). length permissions - end_page)") auto

declare run_end.simps [simp del]

lemma run_end_ge: "end_page \<le> run_end permissions first_page end_page"
  by (induction permissions first_page end_page rule: run_end.induct)
     (subst run_end.simps, auto)

text \<open>
  The pages of the mapping are part of the host's state: a list with the protection of each.
  \<open>mprotect\<close> on a range of pages succeeds or not as the parameter says, and then changes exactly
  that range.
\<close>

definition set_pages :: "u8 list \<Rightarrow> nat \<Rightarrow> nat \<Rightarrow> u8 \<Rightarrow> u8 list" where
  "set_pages pages first_page n protection =
     take first_page pages @ replicate n protection @ drop (first_page + n) pages"

function protect_runs ::
    "(nat \<Rightarrow> nat \<Rightarrow> u8 \<Rightarrow> bool) \<Rightarrow> u8 list \<Rightarrow> nat \<Rightarrow> u8 list \<Rightarrow> sl_status \<times> u8 list" where
  "protect_runs mprotect_ok permissions first_page pages =
     (if first_page < length permissions
      then let end_page = run_end permissions first_page (first_page + 1);
               protection = permissions ! first_page
           in if \<not> mprotect_ok first_page (end_page - first_page) protection
              then (SL_ERROR_MEMORY_PROTECTION, pages)
              else protect_runs mprotect_ok permissions end_page
                     (set_pages pages first_page (end_page - first_page) protection)
      else (SL_OK, pages))"
  by pat_completeness auto
termination
proof (relation "measure (\<lambda>(ok, permissions, first_page, pages). length permissions - first_page)", goal_cases)
  case (2 ok permissions first_page pages end_page protection)
  then show ?case
    using run_end_ge [of "first_page + 1" permissions first_page] by simp
qed simp

declare protect_runs.simps [simp del]

definition page_permissions :: "sl_pe_image \<Rightarrow> nat \<Rightarrow> nat \<Rightarrow> nat \<Rightarrow> (sl_status \<times> u8 list) option" where
  "page_permissions img page_count page_size image_size =
     (case add_page_permissions (replicate page_count 0) page_count page_size image_size 0
             (unat (pe_headers_size img)) PROT_READ of
        None \<Rightarrow> None
      | Some (status, permissions) \<Rightarrow>
          if status \<noteq> SL_OK then Some (status, permissions)
          else section_permissions permissions page_count page_size image_size (pe_sections img))"

definition sl_loader_finalize_image ::
    "(nat \<Rightarrow> nat \<Rightarrow> u8 \<Rightarrow> bool) \<Rightarrow> int \<Rightarrow> (nat \<Rightarrow> bool) \<Rightarrow> sl_pe_image option \<Rightarrow> sl_mapped_image option \<Rightarrow> u8 list \<Rightarrow>
     (sl_status \<times> sl_mapped_image option \<times> u8 list) option" where
  "sl_loader_finalize_image mprotect_ok sysconf calloc_ok img mapped pages =
     (if (case mapped of None \<Rightarrow> False | Some m \<Rightarrow> mp_storage m = SL_IMAGE_STORAGE_VIRTUAL_TAINTED)
      then Some (SL_ERROR_INVALID_STATE, mapped, pages)
      else case (img, mapped) of
        (Some img, Some m) \<Rightarrow>
          if mp_bytes m = None \<or> mp_storage m \<noteq> SL_IMAGE_STORAGE_VIRTUAL \<or>
             mp_size m \<noteq> unat (pe_image_size img) \<or> mp_allocation_size m = 0
          then Some (SL_ERROR_INVALID_ARGUMENT, mapped, pages)
          else if mp_protections_finalized m then Some (SL_OK, mapped, pages)
          else (case host_page_size sysconf of
                  Inl status \<Rightarrow> Some (status, mapped, pages)
                | Inr page_size \<Rightarrow>
                    if mp_allocation_size m mod page_size \<noteq> 0
                    then Some (SL_ERROR_INVALID_STATE, mapped, pages)
                    else let page_count = mp_allocation_size m div page_size
                    in if \<not> calloc_ok page_count then Some (SL_ERROR_OUT_OF_MEMORY, mapped, pages)
                    else (case page_permissions img page_count page_size (mp_size m) of
                            None \<Rightarrow> None
                          | Some (status, permissions) \<Rightarrow>
                              let status = if status = SL_OK \<and> list_ex wx_conflict permissions
                                           then SL_ERROR_WX_CONFLICT else status
                              in (case (if status = SL_OK
                                        then protect_runs mprotect_ok permissions 0 pages
                                        else (status, pages)) of
                                    (status, pages) \<Rightarrow>
                                      if status \<noteq> SL_OK
                                      then if \<not> mprotect_ok 0 page_count (PROT_READ OR PROT_WRITE)
                                           then Some (SL_ERROR_MEMORY_PROTECTION,
                                                  Some (m\<lparr>mp_storage := SL_IMAGE_STORAGE_VIRTUAL_TAINTED\<rparr>), pages)
                                           else Some (status, mapped,
                                                  set_pages pages 0 page_count (PROT_READ OR PROT_WRITE))
                                      else Some (SL_OK, Some (m\<lparr>mp_protections_finalized := True\<rparr>), pages))))
      | _ \<Rightarrow> Some (SL_ERROR_INVALID_ARGUMENT, mapped, pages))"

end
