(* ===== verification/Loader_Imports.thy ===== *)
theory Loader_Imports
  imports Loader_Protection
begin

text \<open>
  \<open>src/loader.c\<close>, last part: binding the imports. The resolver is a callback with a context: a
  function from the context and the symbol to a status, a guest address and the context it leaves.
  The code collects all addresses before it writes the first one; the lemmas of the section
  \<open>Many stores\<close> say what the writes leave in the address table.
\<close>

section \<open>Collecting the addresses\<close>

record sl_pending_import =
  pd_iat_rva :: u32
  pd_guest_address :: u64

text \<open>The fields of the resolve context that change; the others are arguments.\<close>

record 'c sl_import_resolve_context =
  rs_resolver_context :: 'c
  rs_pending :: "sl_pending_import list"
  rs_count :: nat
  rs_status :: sl_status

type_synonym 'c import_resolver = "'c \<Rightarrow> sl_pe_import_symbol \<Rightarrow> (sl_status \<times> u64) \<times> 'c"

definition sizeof_sl_pending_import :: nat where "sizeof_sl_pending_import = 16"

definition count_import_symbol :: "nat \<times> bool \<Rightarrow> sl_pe_import_symbol \<Rightarrow> bool \<times> nat \<times> bool" where
  "count_import_symbol context symbol =
     (case context of (n, overflow) \<Rightarrow> if n = SIZE_MAX then (False, n, True) else (True, n + 1, overflow))"

definition import_width :: "sl_pe_image \<Rightarrow> nat" where
  "import_width img = (if pe_is_pe32_plus img then 8 else 4)"

definition resolve_import_symbol ::
    "sl_pe_image \<Rightarrow> sl_mapped_image \<Rightarrow> 'c import_resolver \<Rightarrow> nat \<Rightarrow>
     'c sl_import_resolve_context \<Rightarrow> sl_pe_import_symbol \<Rightarrow> bool \<times> 'c sl_import_resolve_context" where
  "resolve_import_symbol img mapped resolver capacity resolve symbol =
     (let width = import_width img;
          iat_rva = unat (imp_iat_rva symbol)
      in if rs_count resolve \<ge> capacity \<or> iat_rva > mp_size mapped \<or>
            width > mp_size mapped - iat_rva \<or> iat_rva mod width \<noteq> 0
         then (False, resolve\<lparr>rs_status := SL_ERROR_INVALID_IMAGE\<rparr>)
         else case resolver (rs_resolver_context resolve) symbol of ((status, guest_address), c) \<Rightarrow>
           let resolve = resolve\<lparr>rs_status := status, rs_resolver_context := c\<rparr>
           in if status \<noteq> SL_OK then (False, resolve)
              else if \<not> pe_is_pe32_plus img \<and> guest_address > 0xffffffff
              then (False, resolve\<lparr>rs_status := SL_ERROR_ADDRESS_OUT_OF_RANGE\<rparr>)
              else (True, resolve\<lparr>rs_pending := (rs_pending resolve)[rs_count resolve :=
                       \<lparr>pd_iat_rva = imp_iat_rva symbol, pd_guest_address = guest_address\<rparr>],
                     rs_count := rs_count resolve + 1\<rparr>))"

text \<open>The loop over the pending imports; \<open>None\<close> is a store outside the allocation.\<close>

fun store_pending :: "bool \<Rightarrow> sl_pending_import list \<Rightarrow> bytes \<Rightarrow> bytes option" where
  "store_pending is_pe32_plus [] bytes = Some bytes"
| "store_pending is_pe32_plus (p # ps) bytes =
     (case (if is_pe32_plus then store_u64 bytes (unat (pd_iat_rva p)) (pd_guest_address p)
            else store_u32 bytes (unat (pd_iat_rva p)) (ucast (pd_guest_address p))) of
        None \<Rightarrow> None
      | Some bytes \<Rightarrow> store_pending is_pe32_plus ps bytes)"

text \<open>The result has the status, the mapping, \<open>*bound_count\<close> and the resolver's context; whether
  \<open>calloc\<close> succeeds is a parameter.\<close>

definition sl_loader_bind_imports ::
    "(nat \<Rightarrow> bool) \<Rightarrow> sl_pe_image option \<Rightarrow> sl_mapped_image option \<Rightarrow> 'c import_resolver option \<Rightarrow> 'c \<Rightarrow>
     (sl_status \<times> sl_mapped_image option \<times> nat \<times> 'c) option" where
  "sl_loader_bind_imports calloc_ok img mapped resolver c =
     (case (img, mapped, resolver) of
        (Some img, Some m, Some resolver) \<Rightarrow>
          (case mp_bytes m of
             None \<Rightarrow> Some (SL_ERROR_INVALID_ARGUMENT, mapped, 0, c)
           | Some bytes \<Rightarrow>
             if mp_size m \<noteq> unat (pe_image_size img) then Some (SL_ERROR_INVALID_ARGUMENT, mapped, 0, c)
             else if mp_protections_finalized m \<or> mp_storage m = SL_IMAGE_STORAGE_VIRTUAL_TAINTED
             then Some (SL_ERROR_INVALID_STATE, mapped, 0, c)
             else (case sl_pe_for_each_import_symbol (Some img) (Some count_import_symbol) (0, False) of
               None \<Rightarrow> None
             | Some (status, counted, overflow) \<Rightarrow>
                 if status \<noteq> SL_OK then Some (status, mapped, 0, c)
                 else if overflow \<or> counted > SIZE_MAX div sizeof_sl_pending_import
                 then Some (SL_ERROR_OUT_OF_MEMORY, mapped, 0, c)
                 else if counted = 0 then Some (SL_OK, mapped, 0, c)
                 else if \<not> calloc_ok (counted * sizeof_sl_pending_import)
                 then Some (SL_ERROR_OUT_OF_MEMORY, mapped, 0, c)
                 else (case sl_pe_for_each_import_symbol (Some img)
                         (Some (resolve_import_symbol img m resolver counted))
                         \<lparr>rs_resolver_context = c,
                          rs_pending = replicate counted \<lparr>pd_iat_rva = 0, pd_guest_address = 0\<rparr>,
                          rs_count = 0, rs_status = SL_OK\<rparr> of
                         None \<Rightarrow> None
                       | Some (status, resolve) \<Rightarrow>
                           let c = rs_resolver_context resolve;
                               status = if status = SL_OK \<and> rs_status resolve \<noteq> SL_OK
                                        then rs_status resolve else status;
                               status = if status = SL_OK \<and> rs_count resolve \<noteq> counted
                                        then SL_ERROR_INVALID_IMAGE else status
                           in if status = SL_OK
                              then map_option (\<lambda>bytes.
                                     (SL_OK, Some (m\<lparr>mp_bytes := Some bytes\<rparr>), rs_count resolve, c))
                                   (store_pending (pe_is_pe32_plus img)
                                      (take (rs_count resolve) (rs_pending resolve)) bytes)
                              else Some (status, mapped, 0, c))))
      | _ \<Rightarrow> Some (SL_ERROR_INVALID_ARGUMENT, mapped, 0, c))"

section \<open>Many stores\<close>

context access begin

primrec store_all :: "(nat \<times> 'w word) list \<Rightarrow> bytes \<Rightarrow> bytes option" where
  "store_all [] m = Some m"
| "store_all (p # ps) m = Option.bind (store m (fst p) (snd p)) (store_all ps)"

lemma store_total:
  "p + width \<le> length m \<Longrightarrow>
     \<exists>m'. store m p v = Some m' \<and> length m' = length m \<and> (\<forall>i. i < p \<or> p + width \<le> i \<longrightarrow> m' ! i = m ! i)"
  by (auto simp: store_eq splice_def nth_append)

lemma store_all_total:
  assumes "list_all (\<lambda>p. fst p + width \<le> length m) ps"
  shows "\<exists>m'. store_all ps m = Some m' \<and> length m' = length m \<and>
       (\<forall>i. (\<forall>p\<in>set ps. i < fst p \<or> fst p + width \<le> i) \<longrightarrow> m' ! i = m ! i)"
  using assms
proof (induction ps arbitrary: m)
  case (Cons p ps)
  then obtain m1 where m1: "store m (fst p) (snd p) = Some m1" "length m1 = length m"
      "\<forall>i. i < fst p \<or> fst p + width \<le> i \<longrightarrow> m1 ! i = m ! i"
    using store_total [of "fst p" m "snd p"] by auto
  obtain m' where "store_all ps m1 = Some m'" "length m' = length m1"
      "\<forall>i. (\<forall>p\<in>set ps. i < fst p \<or> fst p + width \<le> i) \<longrightarrow> m' ! i = m1 ! i"
    using Cons.IH [of m1] Cons.prems m1(2) by auto
  then show ?case
    using m1 by auto
qed simp

lemma store_all_keeps:
  assumes "store_all ps m = Some m'" "list_all (\<lambda>p. x + width \<le> fst p \<or> fst p + width \<le> x) ps"
  shows "load m' x = load m x"
  using assms
proof (induction ps arbitrary: m)
  case (Cons p ps)
  then show ?case
    using load_store_disjoint by (auto split: bind_splits)
qed simp

text \<open>The last value stored at an aligned place is there afterwards.\<close>

lemma store_all_last:
  assumes "store_all ps m = Some m'" "list_all (\<lambda>p. fst p mod width = 0) ps" "i < length ps"
    and "\<forall>j. i < j \<and> j < length ps \<longrightarrow> fst (ps ! j) \<noteq> fst (ps ! i)"
  shows "load m' (fst (ps ! i)) = Some (snd (ps ! i))"
  using assms
proof (induction ps arbitrary: m i)
  case (Cons p ps)
  from Cons.prems(1) obtain m1 where m1: "store m (fst p) (snd p) = Some m1" "store_all ps m1 = Some m'"
    by (auto split: bind_splits)
  show ?case
  proof (cases i)
    case 0
    have "fst p + width \<le> fst q \<or> fst q + width \<le> fst p" if q: "q \<in> set ps" for q
    proof -
      have ne: "fst q \<noteq> fst p"
        using Cons.prems(4) q 0 by (fastforce simp: in_set_conv_nth)
      have "fst p mod width = 0" "fst q mod width = 0"
        using Cons.prems(2) q by (auto simp: list_all_iff)
      then obtain a b where ab: "fst p = width * a" "fst q = width * b"
        by (auto elim!: dvdE simp: mod_eq_0_iff_dvd)
      consider "a < b" | "b < a" using ne ab by (cases a b rule: linorder_cases) auto
      then show ?thesis
      proof cases
        case 1
        then have "width * (a + 1) \<le> width * b" by (intro mult_le_mono2) simp
        then show ?thesis using ab by simp
      next
        case 2
        then have "width * (b + 1) \<le> width * a" by (intro mult_le_mono2) simp
        then show ?thesis using ab by simp
      qed
    qed
    then have "load m' (fst p) = load m1 (fst p)"
      using store_all_keeps [OF m1(2)] by (simp add: list_all_iff)
    then show ?thesis
      using load_store [OF m1(1)] 0 by simp
  next
    case (Suc k)
    have "\<forall>j. k < j \<and> j < length ps \<longrightarrow> fst (ps ! j) \<noteq> fst (ps ! k)"
      using Cons.prems(4) Suc by (metis Suc_less_eq length_Cons nth_Cons_Suc)
    then show ?thesis
      using Cons.IH [OF m1(2), of k] Cons.prems Suc by simp
  qed
qed simp

end

lemma store_pending_64:
  "store_pending True ps = access64.store_all (map (\<lambda>p. (unat (pd_iat_rva p), pd_guest_address p)) ps)"
proof (intro ext)
  fix m show "store_pending True ps m = access64.store_all (map (\<lambda>p. (unat (pd_iat_rva p), pd_guest_address p)) ps) m"
    by (induction ps arbitrary: m) (auto split: option.split)
qed

lemma store_pending_32:
  "store_pending False ps = access32.store_all (map (\<lambda>p. (unat (pd_iat_rva p), ucast (pd_guest_address p))) ps)"
proof (intro ext)
  fix m show "store_pending False ps m = access32.store_all (map (\<lambda>p. (unat (pd_iat_rva p), ucast (pd_guest_address p))) ps) m"
    by (induction ps arbitrary: m) (auto split: option.split)
qed

section \<open>The resolving walk\<close>

text \<open>The addresses a resolver gives for a list of symbols, or its first error.\<close>

fun resolve_all :: "'c import_resolver \<Rightarrow> 'c \<Rightarrow> sl_pe_import_symbol list \<Rightarrow> u64 list result \<times> 'c" where
  "resolve_all resolver c [] = (Inr [], c)"
| "resolve_all resolver c (x # xs) =
     (case resolver c x of ((status, address), c) \<Rightarrow>
        if status \<noteq> SL_OK then (Inl status, c)
        else case resolve_all resolver c xs of (Inl e, c) \<Rightarrow> (Inl e, c)
             | (Inr addresses, c) \<Rightarrow> (Inr (address # addresses), c))"

definition pending_of :: "sl_pe_import_symbol \<Rightarrow> u64 \<Rightarrow> sl_pending_import" where
  "pending_of x address = \<lparr>pd_iat_rva = imp_iat_rva x, pd_guest_address = address\<rparr>"

text \<open>A slot of the address table that may be written with an address.\<close>

definition slot_ok :: "sl_pe_image \<Rightarrow> nat \<Rightarrow> sl_pending_import \<Rightarrow> bool" where
  "slot_ok img mapped_size p \<longleftrightarrow> unat (pd_iat_rva p) + import_width img \<le> mapped_size \<and>
     unat (pd_iat_rva p) mod import_width img = 0 \<and>
     (pe_is_pe32_plus img \<or> pd_guest_address p \<le> 0xffffffff)"

lemma resolve_visit:
  assumes "visit (resolve_import_symbol img m resolver capacity) xs r = (go_on, r')"
    and "rs_count r + length xs \<le> capacity" "length (rs_pending r) = capacity" "rs_status r = SL_OK"
  shows "if go_on
    then rs_status r' = SL_OK \<and> rs_count r' = rs_count r + length xs \<and>
      (\<exists>addresses. resolve_all resolver (rs_resolver_context r) xs = (Inr addresses, rs_resolver_context r') \<and>
        length addresses = length xs \<and>
        take (rs_count r') (rs_pending r') = take (rs_count r) (rs_pending r) @ map2 pending_of xs addresses \<and>
        list_all (slot_ok img (mp_size m)) (map2 pending_of xs addresses))
    else rs_status r' \<noteq> SL_OK"
  using assms
proof (induction xs arbitrary: r)
  case (Cons x xs)
  obtain st a c where rx: "resolver (rs_resolver_context r) x = ((st, a), c)"
    by (metis prod.exhaust)
  let ?w = "import_width img"
  let ?fits = "unat (imp_iat_rva x) + ?w \<le> mp_size m \<and> unat (imp_iat_rva x) mod ?w = 0 \<and> st = SL_OK \<and>
     (pe_is_pe32_plus img \<or> a \<le> 0xffffffff)"
  show ?case
  proof (cases ?fits)
    case False
    then have "fst (resolve_import_symbol img m resolver capacity r x) = False"
      "rs_status (snd (resolve_import_symbol img m resolver capacity r x)) \<noteq> SL_OK"
      using Cons.prems(2) rx by (auto simp: resolve_import_symbol_def Let_def not_le split: if_splits)
    then show ?thesis
      using Cons.prems(1) by (auto split: prod.splits if_splits)
  next
    case True
    let ?r = "r\<lparr>rs_status := SL_OK, rs_resolver_context := c,
      rs_pending := (rs_pending r)[rs_count r := pending_of x a], rs_count := rs_count r + 1\<rparr>"
    have step: "resolve_import_symbol img m resolver capacity r x = (True, ?r)"
      using Cons.prems(2) rx True
      by (auto simp: resolve_import_symbol_def Let_def pending_of_def not_less)
    have v: "visit (resolve_import_symbol img m resolver capacity) xs ?r = (go_on, r')"
      using Cons.prems(1) step by simp
    have t: "take (rs_count ?r) (rs_pending ?r) = take (rs_count r) (rs_pending r) @ [pending_of x a]"
      using Cons.prems(2,3) by (simp add: take_Suc_conv_app_nth)
    have slot: "slot_ok img (mp_size m) (pending_of x a)"
      using True by (auto simp: slot_ok_def pending_of_def)
    show ?thesis
      using Cons.IH [OF v] Cons.prems(2,3) t rx True slot
      by auto
  qed
qed auto

lemma count_visit:
  assumes "n \<le> SIZE_MAX" "visit count_import_symbol xs (n, False) = (go_on, k, overflow)"
  shows "go_on = (\<not> overflow) \<and> (\<not> overflow \<longrightarrow> k = n + length xs)"
  using assms
proof (induction xs arbitrary: n)
  case (Cons x xs)
  show ?case
  proof (cases "n = SIZE_MAX")
    case True
    then show ?thesis
      using Cons.prems(2) by (auto simp: count_import_symbol_def)
  next
    case False
    then have "n + 1 \<le> SIZE_MAX" "visit count_import_symbol xs (n + 1, False) = (go_on, k, overflow)"
      using Cons.prems by (auto simp: count_import_symbol_def [of "(n, False)" x])
    then show ?thesis
      using Cons.IH [of "n + 1"] by simp
  qed
qed auto

lemma store_pending_fits:
  assumes "list_all (slot_ok img n) ps" "n \<le> length bytes"
  obtains bytes' where "store_pending (pe_is_pe32_plus img) ps bytes = Some bytes'"
    "length bytes' = length bytes"
    "\<forall>i. (\<forall>p\<in>set ps. i < unat (pd_iat_rva p) \<or> unat (pd_iat_rva p) + import_width img \<le> i) \<longrightarrow>
       bytes' ! i = bytes ! i"
proof (cases "pe_is_pe32_plus img")
  case True
  have "list_all (\<lambda>p. fst p + 8 \<le> length bytes) (map (\<lambda>p. (unat (pd_iat_rva p), pd_guest_address p)) ps)"
    using assms True by (auto simp: list_all_iff slot_ok_def import_width_def)
  from access64.store_all_total [OF this] show thesis
    using that True by (auto simp: store_pending_64 import_width_def)
next
  case False
  have "list_all (\<lambda>p. fst p + 4 \<le> length bytes)
      (map (\<lambda>p. (unat (pd_iat_rva p), ucast (pd_guest_address p) :: u32)) ps)"
    using assms False by (auto simp: list_all_iff slot_ok_def import_width_def)
  from access32.store_all_total [OF this] show thesis
    using that False by (auto simp: store_pending_32 import_width_def)
qed

text \<open>A pass over the import table of a mapping inside its allocation either leaves the mapping as
  it was or fills all slots.\<close>

lemma bind_imports_cases:
  assumes wf: "image_wf img" and ok: "mapping_ok m"
  obtains (kept) status c' where "sl_loader_bind_imports calloc_ok (Some img) (Some m) (Some resolver) c =
      Some (status, Some m, 0, c')" "status \<noteq> SL_OK"
  | (bound) bytes bytes' xs addresses c' where
      "sl_loader_bind_imports calloc_ok (Some img) (Some m) (Some resolver) c =
        Some (SL_OK, Some (m\<lparr>mp_bytes := Some bytes'\<rparr>), length xs, c')"
      "mp_bytes m = Some bytes" "imported_symbols img = Some (xs, SL_OK)"
      "resolve_all resolver c xs = (Inr addresses, c')" "length addresses = length xs"
      "list_all (slot_ok img (mp_size m)) (map2 pending_of xs addresses)"
      "store_pending (pe_is_pe32_plus img) (map2 pending_of xs addresses) bytes = Some bytes'"
proof -
  obtain xs st where xs: "imported_symbols img = Some (xs, st)"
    and walk1: "\<And>callback (s :: nat \<times> bool). sl_pe_for_each_import_symbol (Some img) (Some callback) s =
       Some (walk_outcome st (visit callback xs s))"
    using for_each_import_symbol_walk [OF wf, where 'a = "nat \<times> bool"] by metis
  have walk2: "sl_pe_for_each_import_symbol (Some img) (Some callback) s =
       Some (walk_outcome st (visit callback xs s))"
    for callback and s :: "'a sl_import_resolve_context"
    using for_each_import_symbol_walk [OF wf, where 'a = "'a sl_import_resolve_context"] xs by (metis Pair_inject option.inject)
  show thesis
  proof (cases "\<exists>bytes. mp_bytes m = Some bytes \<and> mp_size m = unat (pe_image_size img) \<and>
      \<not> (mp_protections_finalized m \<or> mp_storage m = SL_IMAGE_STORAGE_VIRTUAL_TAINTED)")
    case False
    then consider "mp_bytes m = None"
      | bytes where "mp_bytes m = Some bytes" "mp_size m \<noteq> unat (pe_image_size img)"
      | bytes where "mp_bytes m = Some bytes" "mp_size m = unat (pe_image_size img)"
          "mp_protections_finalized m \<or> mp_storage m = SL_IMAGE_STORAGE_VIRTUAL_TAINTED"
      by (cases "mp_bytes m") auto
    then show thesis
    proof cases
      case 1
      then show thesis
        by (intro kept [of SL_ERROR_INVALID_ARGUMENT c]) (simp_all add: sl_loader_bind_imports_def)
    next
      case 2
      then show thesis
        by (intro kept [of SL_ERROR_INVALID_ARGUMENT c]) (simp_all add: sl_loader_bind_imports_def)
    next
      case 3
      then show thesis
        by (intro kept [of SL_ERROR_INVALID_STATE c]) (simp_all only: sl_loader_bind_imports_def prod.case option.case if_False if_True simp_thms, simp)
    qed
  next
    case True
    then obtain bytes where bytes: "mp_bytes m = Some bytes" and size: "mp_size m = unat (pe_image_size img)"
      and state: "\<not> (mp_protections_finalized m \<or> mp_storage m = SL_IMAGE_STORAGE_VIRTUAL_TAINTED)"
      by blast
    have keep: "m\<lparr>mp_bytes := Some bytes\<rparr> = m"
      using bytes by simp
    obtain g k v where count: "visit count_import_symbol xs (0, False) = (g, k, v)"
      by (metis prod.exhaust)
    have gk: "g = (\<not> v)" "\<not> v \<Longrightarrow> k = length xs"
      using count_visit [OF _ count] by simp_all
    let ?r = "\<lparr>rs_resolver_context = c, rs_pending = replicate k \<lparr>pd_iat_rva = 0, pd_guest_address = 0\<rparr>,
      rs_count = 0, rs_status = SL_OK\<rparr>"
    obtain go_on r where res: "visit (resolve_import_symbol img m resolver k) xs ?r = (go_on, r)"
      by (metis prod.exhaust)
    note unfolded = sl_loader_bind_imports_def bytes size state walk1 walk2 count res walk_outcome_def
    let ?early = "(g \<and> st \<noteq> SL_OK) \<or> v \<or> k > SIZE_MAX div sizeof_sl_pending_import \<or>
       (k \<noteq> 0 \<and> \<not> calloc_ok (k * sizeof_sl_pending_import))"
    show thesis
    proof (cases ?early)
      case True
      then show thesis
        using gk by (intro kept [of "if g \<and> st \<noteq> SL_OK then st else SL_ERROR_OUT_OF_MEMORY" c])
          (auto simp: unfolded simp del: SIZE_MAX_eq)
    next
      case False
      then have g: g "st = SL_OK" "\<not> v" "k = length xs"
        and fine: "k \<le> SIZE_MAX div sizeof_sl_pending_import"
          "k = 0 \<or> calloc_ok (k * sizeof_sl_pending_import)"
        using gk by auto
      show thesis
      proof (cases "k = 0")
        case True
        then show thesis
          using g fine xs bytes keep
          by (intro bound [where xs = "[]" and addresses = "[]" and bytes = bytes and bytes' = bytes and c' = c])
            (auto simp: unfolded simp del: SIZE_MAX_eq)
      next
        case False
        have all: "if go_on
          then rs_status r = SL_OK \<and> rs_count r = length xs \<and>
            (\<exists>addresses. resolve_all resolver c xs = (Inr addresses, rs_resolver_context r) \<and>
              length addresses = length xs \<and>
              take (rs_count r) (rs_pending r) = map2 pending_of xs addresses \<and>
              list_all (slot_ok img (mp_size m)) (map2 pending_of xs addresses))
          else rs_status r \<noteq> SL_OK"
          using resolve_visit [OF res] g(4) by (cases go_on) auto
        show thesis
        proof (cases go_on)
          case False
          then show thesis
            using g fine all \<open>k \<noteq> 0\<close> keep
            by (intro kept [of "rs_status r" "rs_resolver_context r"]) (auto simp: unfolded res [unfolded g(4)] simp del: SIZE_MAX_eq)
        next
          case True
          with all obtain addresses where a: "rs_status r = SL_OK" "rs_count r = length xs"
            "resolve_all resolver c xs = (Inr addresses, rs_resolver_context r)"
            "length addresses = length xs"
            "take (rs_count r) (rs_pending r) = map2 pending_of xs addresses"
            "list_all (slot_ok img (mp_size m)) (map2 pending_of xs addresses)"
            by auto
          have "mp_size m \<le> length bytes"
            using ok bytes by (simp add: mapping_ok_def)
          then obtain bytes' where b: "store_pending (pe_is_pe32_plus img) (map2 pending_of xs addresses) bytes = Some bytes'"
            using store_pending_fits [OF a(6)] by blast
          show thesis
            using g fine a True \<open>k \<noteq> 0\<close> b xs bytes
            by (intro bound [where xs = xs and addresses = addresses and bytes = bytes and bytes' = bytes'
                  and c' = "rs_resolver_context r"])
              (simp_all add: unfolded res [unfolded g(4)] del: SIZE_MAX_eq)
        qed
      qed
    qed
  qed
qed

end
