(* ===== verification/Loader_Properties.thy ===== *)
theory Loader_Properties
  imports Loader_Imports PE_Properties
begin

text \<open>
  What \<open>src/loader.c\<close> promises about the contents of a mapped image: relocation and import binding
  happen completely or not at all.
\<close>

section \<open>Words of an image\<close>

text \<open>The pointer-sized value at a place in a mapping.\<close>

definition image_word :: "sl_pe_image \<Rightarrow> bytes \<Rightarrow> nat \<Rightarrow> nat option" where
  "image_word img bytes x =
     (if pe_is_pe32_plus img then map_option unat (load_u64 bytes x) else map_option unat (load_u32 bytes x))"

lemma unat_add_times:
  fixes v d :: "'a::len word"
  shows "unat (v + of_nat n * d) = (unat v + n * unat d) mod 2 ^ LENGTH('a)"
proof -
  have "v + of_nat n * d = of_nat (unat v + n * unat d)"
    by simp
  then show ?thesis
    by (simp only: unat_of_nat)
qed

lemma mod_add_mult_mod: "(a + n * (c mod k)) mod k = (a + n * c) mod (k :: nat)"
  by (metis mod_add_right_eq mod_mult_right_eq)

lemma site_width_job [simp]: "site_width (relocation_job img m b) = import_width img"
  by (simp add: site_width_def relocation_job_def import_width_def Let_def)

lemma patch_all_word:
  assumes "patch_all (relocation_job img m base) xs bytes = Some bytes'"
    and "\<forall>y\<in>set xs. x = y \<or> x + import_width img \<le> y \<or> y + import_width img \<le> x"
    and "image_word img bytes x = Some v"
  shows "image_word img bytes' x =
    Some ((v + count_list xs x * unat (base - mp_load_base m)) mod 256 ^ import_width img)"
proof (cases "pe_is_pe32_plus img")
  case True
  then obtain w where w: "load_u64 bytes x = Some w" "v = unat w"
    using assms(3) by (auto simp: image_word_def)
  have "access64.add_all (base - mp_load_base m) xs bytes = Some bytes'" "list_all (access64.apart x) xs"
    using assms(1,2) True by (auto simp: patch_all_eq relocation_job_def Let_def list_all_iff
        access64.apart_def import_width_def)
  then show ?thesis
    using access64.add_all_load w True
    by (simp add: image_word_def import_width_def unat_add_times)
next
  case False
  then obtain w where w: "load_u32 bytes x = Some w" "v = unat w"
    using assms(3) by (auto simp: image_word_def)
  have "access32.add_all (ucast (base - mp_load_base m)) xs bytes = Some bytes'" "list_all (access32.apart x) xs"
    using assms(1,2) False by (auto simp: patch_all_eq relocation_job_def Let_def list_all_iff
        access32.apart_def import_width_def)
  then show ?thesis
    using access32.add_all_load w False
    by (simp add: image_word_def import_width_def unat_add_times unat_ucast_mod mod_add_mult_mod)
qed

section \<open>Relocating\<close>

text \<open>
  C13: Relocating a mapping never reads or writes outside it and either fails and leaves the mapping as it
  was, or moves it to the new base: then every pointer-sized word that the relocation directory names
  (and that does not partly overlap another one) has the distance between the bases added, once for
  each time it is named, and every byte outside the named words is unchanged.
\<close>

theorem relocations_all_or_nothing:
  assumes "mapping_ok m"
  shows "\<exists>status m'. sl_loader_apply_relocations (Some img) (Some m) base = Some (status, Some m') \<and>
    (status \<noteq> SL_OK \<longrightarrow> m' = m) \<and>
    (status = SL_OK \<longrightarrow> mp_load_base m' = base \<and>
      (m' = m \<or> (\<exists>bytes bytes' xs. mp_bytes m = Some bytes \<and> relocation_sites img m = (SL_OK, xs) \<and>
        m' = m\<lparr>mp_bytes := Some bytes', mp_load_base := base\<rparr> \<and> length bytes' = length bytes \<and>
        (\<forall>i. (\<forall>x\<in>set xs. i < x \<or> x + import_width img \<le> i) \<longrightarrow> bytes' ! i = bytes ! i) \<and>
        (\<forall>x v. (\<forall>y\<in>set xs. x = y \<or> x + import_width img \<le> y \<or> y + import_width img \<le> x) \<longrightarrow>
           image_word img bytes x = Some v \<longrightarrow>
           image_word img bytes' x =
             Some ((v + count_list xs x * unat (base - mp_load_base m)) mod 256 ^ import_width img)))))"
proof (cases "relocation_refused img m base")
  case (Some status)
  have "status = SL_OK \<Longrightarrow> mp_load_base m = base"
    using Some by (auto simp: relocation_refused_def Let_def split: if_splits)
  then show ?thesis
    using Some by (auto simp: apply_eq)
next
  case None
  obtain bytes where bytes: "mp_bytes m = Some bytes"
    using None by (auto simp: relocation_refused_def Let_def split: if_splits)
  obtain status xs where sites: "relocation_sites img m = (status, xs)"
    by fastforce
  note runs = apply_runs [OF None assms bytes sites]
  show ?thesis
  proof (cases "status = SL_OK")
    case False
    then show ?thesis
      using runs by auto
  next
    case True
    let ?run = "relocation_job img m base"
    obtain bytes' where b: "patch_all ?run xs bytes = Some bytes'" "length bytes' = length bytes"
        "\<forall>i. (\<forall>x\<in>set xs. i < x \<or> x + site_width ?run \<le> i) \<longrightarrow> bytes' ! i = bytes ! i"
      using apply_patches runs by blast
    have "sl_loader_apply_relocations (Some img) (Some m) base =
        Some (SL_OK, Some (m\<lparr>mp_bytes := Some bytes', mp_load_base := base\<rparr>))"
      using runs True b by simp
    then show ?thesis
      using b bytes sites True patch_all_word [OF b(1)] by auto
  qed
qed


text \<open>A run sees the same sites in any memory that has the same directory.\<close>

lemma entry_sites_same_directory:
  assumes "same_directory run m m'" "rr_directory_start run \<le> c" "be \<le> rr_end run" "even (be - c)"
  shows "entry_sites run p c be m' = entry_sites run p c be m"
  using assms
proof (induction run p c be m rule: entry_sites.induct)
  case (1 run p c be m)
  show ?case
  proof (cases "c < be")
    case True
    then have c: "c + 2 \<le> be"
      using 1(6) by presburger
    then have "load_u16 m' c = load_u16 m c" "even (be - (c + 2))"
      using same_directory_loads(1) [OF 1(3,4)] 1(5,6) by auto
    then show ?thesis
      using 1 True by (simp add: entry_sites.simps [of _ _ c] split: sum.split option.split)
  qed (simp add: entry_sites.simps [of _ _ c])
qed

lemma block_sites_same_directory:
  assumes "same_directory run m m'" "rr_directory_start run \<le> c"
  shows "block_sites run c m' = block_sites run c m"
  using assms
proof (induction run c m rule: block_sites.induct)
  case (1 run c m)
  show ?case
  proof (cases "c < rr_end run \<and> \<not> rr_end run - c < SL_BASE_RELOCATION_HEADER_SIZE")
    case True
    then have l: "load_u32 m' c = load_u32 m c" "load_u32 m' (c + 4) = load_u32 m (c + 4)"
      using same_directory_loads(2) [OF 1(2)] 1(3) by (auto simp: SL_BASE_RELOCATION_HEADER_SIZE_def)
    let ?p = "the (load_u32 m c)" and ?bs = "unat (the (load_u32 m (c + 4)))"
    let ?h = SL_BASE_RELOCATION_HEADER_SIZE
    show ?thesis
    proof (cases "?bs < ?h \<or> (?bs - ?h) mod 2 \<noteq> 0 \<or> ?bs > rr_end run - c")
      case True
      then show ?thesis
        by (simp add: block_sites.simps [of _ c] l Let_def)
    next
      case False
      have ev: "even (c + ?bs - (c + ?h))"
        using False by (auto simp: even_iff_mod_2_eq_zero)
      have e: "entry_sites run ?p (c + ?h) (c + ?bs) m' = entry_sites run ?p (c + ?h) (c + ?bs) m"
        using entry_sites_same_directory [OF 1(2) _ _ ev, of ?p] 1(3) False True by linarith
      obtain st xs where xs: "entry_sites run ?p (c + ?h) (c + ?bs) m = (st, xs)"
        by fastforce
      have "block_sites run (c + ?bs) m' = block_sites run (c + ?bs) m" if "st = SL_OK"
        using 1(1) [OF _ _ refl refl False xs [symmetric]] that True 1(2,3) by simp
      then show ?thesis
        using e xs by (simp add: block_sites.simps [of _ c] l Let_def)
    qed
  next
    case False
    then show ?thesis
      by (auto simp: block_sites.simps [of _ c])
  qed
qed

lemma ucast_minus_32: "ucast (- x :: u64) = (- ucast x :: u32)"
proof transfer
  fix x :: int
  have "take_bit 32 (- take_bit 64 x) = take_bit 32 (- take_bit 32 (take_bit 64 x))"
    by (simp only: take_bit_minus)
  also have "\<dots> = take_bit 32 (- x)"
    by (simp add: take_bit_minus)
  finally show "take_bit LENGTH(32) (take_bit LENGTH(64) (- x)) = take_bit LENGTH(32) (- take_bit LENGTH(64) x)"
    by simp
qed

lemma patch_all_inverse:
  assumes "list_all (\<lambda>x. x + site_width run \<le> length m) xs"
    and "\<forall>x\<in>set xs. \<forall>y\<in>set xs. x = y \<or> x + site_width run \<le> y \<or> y + site_width run \<le> x"
    and "patch_all run xs m = Some m'" "rr_apply run"
  shows "patch_all (run\<lparr>rr_delta := - rr_delta run\<rparr>) xs m' = Some m"
proof (cases "rr_is_pe32_plus run")
  case True
  then show ?thesis
    using access64.add_all_inverse [of m xs "rr_delta run"] assms
    by (simp add: patch_all_eq site_width_def access64.apart_def)
next
  case False
  have "ucast (- rr_delta run) = (- ucast (rr_delta run) :: u32)"
    by (rule ucast_minus_32)
  then show ?thesis
    using access32.add_all_inverse [of m xs "ucast (rr_delta run)"] assms False
    by (simp add: patch_all_eq site_width_def access32.apart_def)
qed

text \<open>
  C14: Relocation is reversible: a mapping that has been moved to another base is restored, byte for
  byte, by moving it back, provided the words that its directory names do not partly overlap.
\<close>

theorem relocate_and_back:
  assumes "mapping_ok m"
    and "sl_loader_apply_relocations (Some img) (Some m) base = Some (SL_OK, Some m')"
    and "mp_storage m \<noteq> SL_IMAGE_STORAGE_VIRTUAL"
    and "pe_is_pe32_plus img \<or> mp_load_base m \<le> 0xffffffff"
    and "\<forall>x\<in>set (snd (relocation_sites img m)). \<forall>y\<in>set (snd (relocation_sites img m)).
           x = y \<or> x + import_width img \<le> y \<or> y + import_width img \<le> x"
  shows "sl_loader_apply_relocations (Some img) (Some m') (mp_load_base m) = Some (SL_OK, Some m)"
proof (cases "relocation_refused img m base")
  case (Some status)
  then have "m' = m" "relocation_refused img m (mp_load_base m) = Some SL_OK"
    using assms(2,4) by (auto simp: apply_eq relocation_refused_def Let_def not_less split: if_splits)
  then show ?thesis
    by (simp add: apply_eq)
next
  case None
  obtain bytes where bytes: "mp_bytes m = Some bytes"
    using None by (auto simp: relocation_refused_def Let_def split: if_splits)
  obtain status xs where sites: "relocation_sites img m = (status, xs)"
    by fastforce
  let ?run = "relocation_job img m base"
  note runs = apply_runs [OF None assms(1) bytes sites]
  have ok: "status = SL_OK"
    using runs assms(2) by (auto split: if_splits)
  obtain bytes' where b: "patch_all ?run xs bytes = Some bytes'" "length bytes' = length bytes"
    using apply_patches runs by blast
  have m': "m' = m\<lparr>mp_bytes := Some bytes', mp_load_base := base\<rparr>"
    using runs assms(2) ok b by simp
  have none: "relocation_refused img m' (mp_load_base m) = None"
    using None assms(3,4) by (auto simp: m' relocation_refused_def Let_def split: if_splits)
  have ok': "mapping_ok m'"
    using assms(1) b(2) bytes by (simp add: m' mapping_ok_def)
  have same: "same_directory ?run bytes bytes'"
    using patch_all_same_directory [OF b(1)] runs by (simp add: run_ok_def)
  have "relocation_sites img m' = (SL_OK, xs)"
  proof -
    have job: "relocation_job img m' 0 = ?run\<lparr>rr_delta := - base, rr_apply := True\<rparr>"
        "relocation_job img m 0 = ?run\<lparr>rr_delta := - mp_load_base m, rr_apply := True\<rparr>"
      by (simp_all add: m' relocation_job_def Let_def)
    show ?thesis
      using sites ok block_sites_same_directory [OF same order_refl]
      unfolding relocation_sites_def Let_def job by (simp add: m' bytes)
  qed
  note return_run = apply_runs [OF none ok' _ this, of bytes']
  have fit: "list_all (\<lambda>x. x + site_width ?run \<le> length bytes) xs"
    using runs by (auto simp: list_all_iff site_ok_def run_ok_def)
  have "relocation_job img m' (mp_load_base m) = ?run\<lparr>rr_delta := - rr_delta ?run\<rparr>"
    by (simp add: m' relocation_job_def Let_def)
  then have "patch_all (relocation_job img m' (mp_load_base m)) xs bytes' = Some bytes"
    using patch_all_inverse [OF fit _ b(1)] assms(5) sites by (simp add: relocation_job_def Let_def import_width_def site_width_def)
  then show ?thesis
    using return_run bytes by (simp add: m')
qed

text \<open>An image with one relocated word, mapped on the heap.\<close>

definition relocatable_image :: sl_pe_image where
  "relocatable_image = (empty_image [])\<lparr>pe_is_pe32_plus := True, pe_image_size := 32,
     pe_directories := replicate 5 no_directory @ [\<lparr>dir_rva = 8, dir_size = 12\<rparr>]\<rparr>"

definition relocatable_mapping :: sl_mapped_image where
  "relocatable_mapping = no_mapping\<lparr>mp_storage := SL_IMAGE_STORAGE_HEAP, mp_size := 32,
     mp_allocation_size := 32, mp_load_base := 0x400000, mp_bytes := Some (replicate 8 0 @
       [0, 0, 0, 0, 12, 0, 0, 0, 0x18, 0xa0, 0, 0] @ replicate 4 0 @ [1, 2, 0x40, 0, 0, 0, 0, 0])\<rparr>"


lemma relocatable_sites: "relocation_sites relocatable_image relocatable_mapping = (SL_OK, [24])"
  by code_simp

lemma relocatable_moved:
  "sl_loader_apply_relocations (Some relocatable_image) (Some relocatable_mapping) 0x10000 =
     Some (SL_OK, Some (relocatable_mapping\<lparr>mp_load_base := 0x10000,
       mp_bytes := Some (replicate 8 0 @ [0, 0, 0, 0, 12, 0, 0, 0, 0x18, 0xa0, 0, 0] @ replicate 4 0 @
         [1, 2, 1, 0, 0, 0, 0, 0])\<rparr>))"
  by code_simp

theorem relocations_all_or_nothing_witness:
  "mapping_ok relocatable_mapping \<and>
   (\<exists>m'. sl_loader_apply_relocations (Some relocatable_image) (Some relocatable_mapping) 0x10000 =
      Some (SL_OK, Some m') \<and> mp_load_base m' = 0x10000)"
proof -
  have ok: "mapping_ok relocatable_mapping"
    by code_simp
  then show ?thesis
    using relocations_all_or_nothing [OF ok, of relocatable_image "0x10000"] relocatable_moved by auto
qed

theorem relocate_and_back_witness:
  "sl_loader_apply_relocations (Some relocatable_image)
     (Some (relocatable_mapping\<lparr>mp_load_base := 0x10000,
       mp_bytes := Some (replicate 8 0 @ [0, 0, 0, 0, 12, 0, 0, 0, 0x18, 0xa0, 0, 0] @ replicate 4 0 @
         [1, 2, 1, 0, 0, 0, 0, 0])\<rparr>)) 0x400000 = Some (SL_OK, Some relocatable_mapping)"
proof -
  have base: "mp_load_base relocatable_mapping = 0x400000"
    by code_simp
  show ?thesis
    unfolding base [symmetric]
    by (rule relocate_and_back [OF _ relocatable_moved])
      (simp_all add: relocatable_sites, simp_all add: relocatable_image_def relocatable_mapping_def
        mapping_ok_def no_mapping_def)
qed


section \<open>Binding\<close>

lemma store_pending_word:
  assumes "store_pending (pe_is_pe32_plus img) ps bytes = Some bytes'"
    and "list_all (slot_ok img n) ps" "i < length ps"
    and "\<forall>j. i < j \<and> j < length ps \<longrightarrow> pd_iat_rva (ps ! j) \<noteq> pd_iat_rva (ps ! i)"
  shows "image_word img bytes' (unat (pd_iat_rva (ps ! i))) = Some (unat (pd_guest_address (ps ! i)))"
proof (cases "pe_is_pe32_plus img")
  case True
  let ?qs = "map (\<lambda>p. (unat (pd_iat_rva p), pd_guest_address p)) ps"
  have "access64.store_all ?qs bytes = Some bytes'" "list_all (\<lambda>p. fst p mod 8 = 0) ?qs"
    using assms(1,2) True by (auto simp: store_pending_64 list_all_iff slot_ok_def import_width_def)
  then have "load_u64 bytes' (fst (?qs ! i)) = Some (snd (?qs ! i))"
    by (rule access64.store_all_last) (use assms(3,4) in \<open>auto simp: word_unat_eq_iff\<close>)
  then show ?thesis
    using assms(3) True by (simp add: image_word_def)
next
  case False
  let ?qs = "map (\<lambda>p. (unat (pd_iat_rva p), ucast (pd_guest_address p) :: u32)) ps"
  have "access32.store_all ?qs bytes = Some bytes'" "list_all (\<lambda>p. fst p mod 4 = 0) ?qs"
    using assms(1,2) False by (auto simp: store_pending_32 list_all_iff slot_ok_def import_width_def)
  then have "load_u32 bytes' (fst (?qs ! i)) = Some (snd (?qs ! i))"
    by (rule access32.store_all_last) (use assms(3,4) in \<open>auto simp: word_unat_eq_iff\<close>)
  moreover have "pd_guest_address (ps ! i) \<le> 0xffffffff"
    using assms(2,3) False by (simp add: list_all_length slot_ok_def)
  then have "unat (pd_guest_address (ps ! i)) < 2 ^ 32"
    by (simp add: word_le_nat_alt)
  then have "unat (ucast (pd_guest_address (ps ! i)) :: u32) = unat (pd_guest_address (ps ! i))"
    by (simp add: unat_ucast_mod)
  ultimately show ?thesis
    using assms(3) False by (simp add: image_word_def)
qed

lemma map2_pending:
  assumes "length addresses = length xs"
  shows "length (map2 pending_of xs addresses) = length xs"
    and "i < length xs \<Longrightarrow> map2 pending_of xs addresses ! i = pending_of (xs ! i) (addresses ! i)"
    and "set (map2 pending_of xs addresses) = {pending_of (xs ! i) (addresses ! i) |i. i < length xs}"
  using assms by (auto simp: set_zip)

lemma ball_pending:
  assumes "length addresses = length xs"
  shows "(\<forall>p\<in>set (map2 pending_of xs addresses). b < unat (pd_iat_rva p) \<or> unat (pd_iat_rva p) + w \<le> b) \<longleftrightarrow>
    (\<forall>x\<in>set xs. b < unat (imp_iat_rva x) \<or> unat (imp_iat_rva x) + w \<le> b)"
  using assms by (induction addresses xs rule: list_induct2) (simp_all add: pending_of_def)

text \<open>
  C15: Binding imports never writes outside the mapping and either fails, with no byte changed and a
  count of zero, or binds every symbol the image imports: the resolver was asked for all of them, in
  order, and gave an address for each; each address table slot holds the address of the last symbol
  that uses it; every other byte is unchanged.
\<close>

theorem imports_all_or_nothing:
  assumes "image_wf img" "mapping_ok m"
  shows "\<exists>status m' n c'. sl_loader_bind_imports calloc_ok (Some img) (Some m) (Some resolver) c =
      Some (status, Some m', n, c') \<and>
    (status \<noteq> SL_OK \<longrightarrow> m' = m \<and> n = 0) \<and>
    (status = SL_OK \<longrightarrow> (\<exists>xs addresses bytes bytes'.
      imported_symbols img = Some (xs, SL_OK) \<and> n = length xs \<and>
      resolve_all resolver c xs = (Inr addresses, c') \<and> length addresses = length xs \<and>
      mp_bytes m = Some bytes \<and> m' = m\<lparr>mp_bytes := Some bytes'\<rparr> \<and> length bytes' = length bytes \<and>
      (\<forall>i < length xs. (\<forall>j. i < j \<and> j < length xs \<longrightarrow> imp_iat_rva (xs ! j) \<noteq> imp_iat_rva (xs ! i)) \<longrightarrow>
         image_word img bytes' (unat (imp_iat_rva (xs ! i))) = Some (unat (addresses ! i))) \<and>
      (\<forall>b. (\<forall>x\<in>set xs. b < unat (imp_iat_rva x) \<or> unat (imp_iat_rva x) + import_width img \<le> b) \<longrightarrow>
         bytes' ! b = bytes ! b)))"
  using assms
proof (cases rule: bind_imports_cases [of img m calloc_ok resolver c, case_names kept bound])
  case (kept status c')
  then show ?thesis
    by (intro exI [of _ status], intro exI [of _ m], intro exI [of _ 0], intro exI [of _ c']) simp
next
  case (bound bytes bytes' xs addresses c')
  let ?ps = "map2 pending_of xs addresses"
  note ps = map2_pending [OF bound(5)]
  have len: "mp_size m \<le> length bytes"
    using assms(2) bound(2) by (simp add: mapping_ok_def)
  have words: "image_word img bytes' (unat (imp_iat_rva (xs ! i))) = Some (unat (addresses ! i))"
    if "i < length xs" "\<forall>j. i < j \<and> j < length xs \<longrightarrow> imp_iat_rva (xs ! j) \<noteq> imp_iat_rva (xs ! i)" for i
    using store_pending_word [OF bound(7,6), of i] that ps by (simp add: pending_of_def)
  obtain bytes'' where "store_pending (pe_is_pe32_plus img) ?ps bytes = Some bytes''"
      "length bytes'' = length bytes"
      "\<forall>b. (\<forall>p\<in>set ?ps. b < unat (pd_iat_rva p) \<or> unat (pd_iat_rva p) + import_width img \<le> b) \<longrightarrow>
         bytes'' ! b = bytes ! b"
    by (rule store_pending_fits [OF bound(6) len])
  then have frame: "length bytes' = length bytes"
    "\<forall>b. (\<forall>x\<in>set xs. b < unat (imp_iat_rva x) \<or> unat (imp_iat_rva x) + import_width img \<le> b) \<longrightarrow>
       bytes' ! b = bytes ! b"
    using bound(7) unfolding ball_pending [OF bound(5)] by simp_all
  have finished: "\<exists>ys addresses bytes bytes''.
      imported_symbols img = Some (ys, SL_OK) \<and> length xs = length ys \<and>
      resolve_all resolver c ys = (Inr addresses, c') \<and> length addresses = length ys \<and>
      mp_bytes m = Some bytes \<and> m\<lparr>mp_bytes := Some bytes'\<rparr> = m\<lparr>mp_bytes := Some bytes''\<rparr> \<and>
      length bytes'' = length bytes \<and>
      (\<forall>i < length ys. (\<forall>j. i < j \<and> j < length ys \<longrightarrow> imp_iat_rva (ys ! j) \<noteq> imp_iat_rva (ys ! i)) \<longrightarrow>
         image_word img bytes'' (unat (imp_iat_rva (ys ! i))) = Some (unat (addresses ! i))) \<and>
      (\<forall>b. (\<forall>x\<in>set ys. b < unat (imp_iat_rva x) \<or> unat (imp_iat_rva x) + import_width img \<le> b) \<longrightarrow>
         bytes'' ! b = bytes ! b)"
    by (rule exI [of _ xs], rule exI [of _ addresses], rule exI [of _ bytes], rule exI [of _ bytes'])
       (use bound(2-5) frame words in simp)
  show ?thesis
    by (intro exI [of _ SL_OK], intro exI [of _ "m\<lparr>mp_bytes := Some bytes'\<rparr>"], intro exI [of _ "length xs"],
        intro exI [of _ c'] conjI impI) (rule bound(1), simp, simp, rule finished)
qed

text \<open>A mapping of the image with one import.\<close>

definition import_mapping :: sl_mapped_image where
  "import_mapping = no_mapping\<lparr>mp_storage := SL_IMAGE_STORAGE_HEAP, mp_size := 64,
     mp_allocation_size := 64, mp_load_base := 0x400000, mp_bytes := Some import_file\<rparr>"

lemma import_walk:
  "sl_pe_for_each_import_symbol (Some import_image) (Some callback) s =
     Some (walk_outcome SL_OK (visit callback [import_symbol] s))"
  using for_each_import_symbol_walk [OF import_wf] import_symbols_list by (metis Pair_inject option.inject)

definition import_resolver_example :: "nat import_resolver" where
  "import_resolver_example n x = ((SL_OK, 0x12345678), n + 1)"

lemma import_bound:
  "\<exists>m'. sl_loader_bind_imports (\<lambda>n. True) (Some import_image) (Some import_mapping)
     (Some import_resolver_example) 0 = Some (SL_OK, Some m', 1, 1)"
  by (simp add: sl_loader_bind_imports_def import_walk walk_outcome_def count_import_symbol_def
      import_mapping_def no_mapping_def import_fields resolve_import_symbol_def import_width_def
      import_symbol_def import_resolver_example_def sizeof_sl_pending_import_def store_u32_def)

theorem imports_all_or_nothing_witness:
  "\<exists>m' bytes'. sl_loader_bind_imports (\<lambda>n. True) (Some import_image) (Some import_mapping)
     (Some import_resolver_example) 0 = Some (SL_OK, Some m', 1, 1) \<and>
     mp_bytes m' = Some bytes' \<and> image_word import_image bytes' 56 = Some 0x12345678"
proof -
  have "mapping_ok import_mapping"
    by (simp add: mapping_ok_def import_mapping_def)
  from imports_all_or_nothing [OF import_wf this, of "\<lambda>n. True" import_resolver_example 0] import_bound
  show ?thesis
    by (auto simp: import_symbols_list import_symbol_def import_resolver_example_def)
qed

end
