(* ===== verification/Loader_Layout.thy ===== *)
theory Loader_Layout
  imports Loader_Properties
begin

text \<open>
  What mapping puts into memory: the copies of \<open>populate_mapping\<close> stay inside the mapping and the
  file, and the mapped bytes agree with the parser's view of the file.
\<close>

section \<open>Filling a mapping\<close>

lemma copy_bytes_Some:
  "offset + n \<le> length destination \<Longrightarrow> source_offset + n \<le> length source \<Longrightarrow>
     \<exists>destination'. copy_bytes destination offset source source_offset n = Some destination' \<and>
       length destination' = length destination \<and>
       (\<forall>i < length destination. destination' ! i =
          (if offset \<le> i \<and> i < offset + n then source ! (source_offset + (i - offset)) else destination ! i))"
  by (auto simp: copy_bytes_def nth_splice)

text \<open>The place of a section's raw data in the image.\<close>

definition in_raw :: "sl_pe_section \<Rightarrow> nat \<Rightarrow> bool" where
  "in_raw s i \<longleftrightarrow> unat (sec_virtual_address s) \<le> i \<and>
     i < unat (sec_virtual_address s) + unat (sec_raw_size s)"

text \<open>Whatever the sections are, the copies stay inside the mapping and the file.\<close>

lemma populate_sections_total:
  assumes "mapped_size \<le> length bytes"
  shows "\<exists>status bytes'. populate_sections f mapped_size ss bytes = Some (status, bytes') \<and>
    length bytes' = length bytes"
  using assms
proof (induction ss arbitrary: bytes)
  case (Cons s ss)
  show ?case
  proof (cases "sec_raw_size s = 0 \<or> unat (sec_virtual_address s) > mapped_size \<or>
      unat (sec_raw_size s) > mapped_size - unat (sec_virtual_address s) \<or>
      unat (sec_raw_offset s) > length f \<or>
      unat (sec_raw_size s) > length f - unat (sec_raw_offset s)")
    case True
    then show ?thesis
      using Cons by auto
  next
    case False
    then have "unat (sec_virtual_address s) + unat (sec_raw_size s) \<le> length bytes"
        "unat (sec_raw_offset s) + unat (sec_raw_size s) \<le> length f"
      using Cons.prems by linarith+
    then obtain bytes' where "copy_bytes bytes (unat (sec_virtual_address s)) f
        (unat (sec_raw_offset s)) (unat (sec_raw_size s)) = Some bytes'" "length bytes' = length bytes"
      using copy_bytes_Some [of "unat (sec_virtual_address s)" "unat (sec_raw_size s)" bytes
          "unat (sec_raw_offset s)" f] Cons.prems by auto
    then show ?thesis
      using Cons.IH [of bytes'] Cons.prems False by simp
  qed
qed simp

lemma populate_mapping_total:
  assumes "mapped_size \<le> length bytes" "unat (pe_headers_size img) \<le> length bytes"
    and "unat (pe_headers_size img) \<le> length (pe_file img)"
  shows "\<exists>status bytes'. populate_mapping img mapped_size bytes = Some (status, bytes') \<and>
    length bytes' = length bytes"
proof -
  obtain bytes1 where b: "copy_bytes bytes 0 (pe_file img) 0 (unat (pe_headers_size img)) = Some bytes1"
      "length bytes1 = length bytes"
    using copy_bytes_Some [of 0 "unat (pe_headers_size img)" bytes 0 "pe_file img"] assms(2,3) by auto
  then show ?thesis
    using populate_sections_total [of mapped_size bytes1 "pe_file img" "pe_sections img"] assms(1)
    by (simp add: populate_mapping_def)
qed

text \<open>A byte of the image outside all raw data keeps its value, and a byte inside has the value from the file when the raw data of different sections does not overlap.\<close>

lemma populate_sections_bytes:
  assumes "list_all (section_valid (length f) image_size) ss" "unat image_size \<le> mapped_size"
    and "mapped_size \<le> length bytes"
  shows "\<exists>bytes'. populate_sections f mapped_size ss bytes = Some (SL_OK, bytes') \<and>
    length bytes' = length bytes \<and>
    (\<forall>i < length bytes. (\<forall>s\<in>set ss. \<not> in_raw s i) \<longrightarrow> bytes' ! i = bytes ! i) \<and>
    (sorted_wrt (\<lambda>s t. \<forall>i. \<not> (in_raw s i \<and> in_raw t i)) ss \<longrightarrow>
      (\<forall>s\<in>set ss. \<forall>i. in_raw s i \<longrightarrow>
         bytes' ! i = f ! (unat (sec_raw_offset s) + (i - unat (sec_virtual_address s)))))"
  using assms
proof (induction ss arbitrary: bytes)
  case (Cons s ss)
  show ?case
  proof (cases "sec_raw_size s = 0")
    case True
    then have "\<not> in_raw s i" for i
      by (simp add: in_raw_def)
    then show ?thesis
      using Cons.IH [of bytes] Cons.prems True by simp
  next
    case False
    let ?va = "unat (sec_virtual_address s)" and ?n = "unat (sec_raw_size s)"
      and ?o = "unat (sec_raw_offset s)"
    have fits: "?va + ?n \<le> mapped_size" "?o + ?n \<le> length f"
      using Cons.prems False
      by (auto simp: section_valid_def range_fits_iff u32_range_fits_iff)
    then obtain bytes1 where b: "copy_bytes bytes ?va f ?o ?n = Some bytes1"
        "length bytes1 = length bytes"
        "\<forall>i < length bytes. bytes1 ! i =
          (if ?va \<le> i \<and> i < ?va + ?n then f ! (?o + (i - ?va)) else bytes ! i)"
      using copy_bytes_Some [of ?va ?n bytes ?o f] Cons.prems by auto
    obtain bytes' where ih: "populate_sections f mapped_size ss bytes1 = Some (SL_OK, bytes')"
        "length bytes' = length bytes1"
        "\<forall>i < length bytes1. (\<forall>s\<in>set ss. \<not> in_raw s i) \<longrightarrow> bytes' ! i = bytes1 ! i"
        "sorted_wrt (\<lambda>s t. \<forall>i. \<not> (in_raw s i \<and> in_raw t i)) ss \<Longrightarrow>
          (\<forall>s\<in>set ss. \<forall>i. in_raw s i \<longrightarrow>
            bytes' ! i = f ! (unat (sec_raw_offset s) + (i - unat (sec_virtual_address s))))"
      using Cons.IH [of bytes1] Cons.prems b(2) by auto
    have run: "populate_sections f mapped_size (s # ss) bytes = Some (SL_OK, bytes')"
      using False fits b(1) ih(1) by auto
    have keep: "\<forall>i < length bytes. (\<forall>t\<in>set (s # ss). \<not> in_raw t i) \<longrightarrow> bytes' ! i = bytes ! i"
      using ih(3) b(2,3) by (auto simp: in_raw_def)
    have "bytes' ! i = f ! (?o + (i - ?va))"
      if "in_raw s i" "sorted_wrt (\<lambda>s t. \<forall>i. \<not> (in_raw s i \<and> in_raw t i)) (s # ss)" for i
    proof -
      have i: "i < length bytes" "?va \<le> i \<and> i < ?va + ?n"
        using that(1) fits(1) Cons.prems(3) by (auto simp: in_raw_def)
      have "\<forall>t\<in>set ss. \<not> in_raw t i"
        using that by auto
      then show ?thesis
        using ih(3) b(2,3) i by simp
    qed
    then show ?thesis
      using run ih(2,4) b(2) keep by auto
  qed
qed simp

text \<open>The raw data of the sections does not overlap and does not overlap the headers.\<close>

definition raw_apart :: "sl_pe_image \<Rightarrow> bool" where
  "raw_apart img \<longleftrightarrow>
     (\<forall>s\<in>set (pe_sections img). \<forall>i < unat (pe_headers_size img). \<not> in_raw s i) \<and>
     sorted_wrt (\<lambda>s t. \<forall>i. \<not> (in_raw s i \<and> in_raw t i)) (pe_sections img)"

lemma populate_mapping_bytes:
  assumes "image_wf img" "unat (pe_image_size img) \<le> mapped_size" "mapped_size \<le> n"
  obtains bytes where "populate_mapping img mapped_size (replicate n 0) = Some (SL_OK, bytes)"
    "length bytes = n"
    "\<forall>i < n. unat (pe_headers_size img) \<le> i \<longrightarrow> (\<forall>s\<in>set (pe_sections img). \<not> in_raw s i) \<longrightarrow> bytes ! i = 0"
    "raw_apart img \<longrightarrow> (\<forall>i < unat (pe_headers_size img). bytes ! i = pe_file img ! i)"
    "raw_apart img \<longrightarrow> (\<forall>s\<in>set (pe_sections img). \<forall>i. in_raw s i \<longrightarrow>
       bytes ! i = pe_file img ! (unat (sec_raw_offset s) + (i - unat (sec_virtual_address s))))"
proof -
  let ?h = "unat (pe_headers_size img)"
  have h: "?h \<le> n" "?h \<le> length (pe_file img)"
    using assms by (auto simp: image_wf_def word_le_nat_alt)
  then obtain bytes1 where b: "copy_bytes (replicate n 0) 0 (pe_file img) 0 ?h = Some bytes1"
      "length bytes1 = n" "\<forall>i < n. bytes1 ! i = (if i < ?h then pe_file img ! i else 0)"
    using copy_bytes_Some [of 0 ?h "replicate n 0" 0 "pe_file img"] by auto
  have valid: "list_all (section_valid (length (pe_file img)) (pe_image_size img)) (pe_sections img)"
    using assms(1) by (simp add: image_wf_def)
  have "mapped_size \<le> length bytes1"
    using assms(3) b(2) by simp
  from populate_sections_bytes [OF valid assms(2) this] obtain bytes where
      s: "populate_sections (pe_file img) mapped_size (pe_sections img) bytes1 = Some (SL_OK, bytes)"
      "length bytes = length bytes1"
      "\<forall>i < length bytes1. (\<forall>s\<in>set (pe_sections img). \<not> in_raw s i) \<longrightarrow> bytes ! i = bytes1 ! i"
      "sorted_wrt (\<lambda>s t. \<forall>i. \<not> (in_raw s i \<and> in_raw t i)) (pe_sections img) \<longrightarrow>
        (\<forall>s\<in>set (pe_sections img). \<forall>i. in_raw s i \<longrightarrow>
          bytes ! i = pe_file img ! (unat (sec_raw_offset s) + (i - unat (sec_virtual_address s))))"
    by blast
  show thesis
  proof (rule that [of bytes])
    show "populate_mapping img mapped_size (replicate n 0) = Some (SL_OK, bytes)"
      using b(1) s(1) by (simp add: populate_mapping_def)
    show "length bytes = n"
      using s(2) b(2) by simp
    show "\<forall>i < n. ?h \<le> i \<longrightarrow> (\<forall>s\<in>set (pe_sections img). \<not> in_raw s i) \<longrightarrow> bytes ! i = 0"
      using s(3) b(2,3) by simp
    show "raw_apart img \<longrightarrow> (\<forall>i < ?h. bytes ! i = pe_file img ! i)"
      using s(3) b(2,3) h(1) by (simp add: raw_apart_def)
    show "raw_apart img \<longrightarrow> (\<forall>s\<in>set (pe_sections img). \<forall>i. in_raw s i \<longrightarrow>
       bytes ! i = pe_file img ! (unat (sec_raw_offset s) + (i - unat (sec_virtual_address s))))"
      using s(4) by (simp add: raw_apart_def)
  qed
qed


section \<open>The mapped image and the file\<close>

lemma section_window_raw:
  "section_window n rva ss = Inr (offset, available) \<Longrightarrow>
     \<exists>s\<in>set ss. in_raw s (unat rva) \<and>
       offset = unat (sec_raw_offset s) + (unat rva - unat (sec_virtual_address s)) \<and>
       unat rva + available \<le> unat (sec_virtual_address s) + unat (sec_raw_size s)"
proof (induction ss)
  case (Cons s ss)
  show ?case
  proof (cases "rva \<ge> sec_virtual_address s \<and> rva - sec_virtual_address s <
      (if sec_virtual_size s > sec_raw_size s then sec_virtual_size s else sec_raw_size s)")
    case True
    then have d: "unat (rva - sec_virtual_address s) = unat rva - unat (sec_virtual_address s)"
        "unat (sec_virtual_address s) \<le> unat rva"
      by (simp_all add: unat_sub_no_wrap word_le_nat_alt)
    have "rva - sec_virtual_address s < sec_raw_size s"
        "available \<le> unat (sec_raw_size s) - unat (rva - sec_virtual_address s)"
        "offset = unat (sec_raw_offset s) + unat (rva - sec_virtual_address s)"
      using Cons.prems(1) True by (auto simp: Let_def not_le split: if_splits)
    then have "in_raw s (unat rva) \<and> offset = unat (sec_raw_offset s) + (unat rva - unat (sec_virtual_address s)) \<and>
        unat rva + available \<le> unat (sec_virtual_address s) + unat (sec_raw_size s)"
      using d unfolding word_less_nat_alt in_raw_def by linarith
    then show ?thesis
      by auto
  next
    case False
    then have "section_window n rva ss = Inr (offset, available)"
      using Cons.prems(1) by (auto simp: Let_def split: if_splits)
    then show ?thesis
      using Cons.IH by auto
  qed
qed simp

lemma window_bytes:
  assumes wf: "image_wf img" and w: "rva_file_window img rva = Inr (offset, available)"
    and len: "unat (pe_image_size img) \<le> length bytes"
    and h: "\<forall>i < unat (pe_headers_size img). bytes ! i = pe_file img ! i"
    and r: "\<forall>s\<in>set (pe_sections img). \<forall>i. in_raw s i \<longrightarrow>
       bytes ! i = pe_file img ! (unat (sec_raw_offset s) + (i - unat (sec_virtual_address s)))"
  shows "take available (drop (unat rva) bytes) = take available (drop offset (pe_file img))"
proof -
  have b: "unat rva + available \<le> length bytes" "offset + available \<le> length (pe_file img)"
    using rva_file_window_end [OF wf w] rva_file_window_bounds [OF w] len by linarith+
  have "bytes ! (unat rva + i) = pe_file img ! (offset + i)" if "i < available" for i
  proof (cases "rva < pe_headers_size img \<and> unat rva < length (pe_file img)")
    case True
    then have "offset = unat rva" "unat rva + available \<le> unat (pe_headers_size img)"
      using w by (auto simp: rva_file_window_def Let_def word_less_nat_alt split: if_splits)
    then show ?thesis
      using h that by simp
  next
    case False
    then have "section_window (length (pe_file img)) rva (pe_sections img) = Inr (offset, available)"
      using w by (simp only: rva_file_window_def if_False)
    then obtain s where s: "s \<in> set (pe_sections img)" "in_raw s (unat rva)"
        "offset = unat (sec_raw_offset s) + (unat rva - unat (sec_virtual_address s))"
        "unat rva + available \<le> unat (sec_virtual_address s) + unat (sec_raw_size s)"
      using section_window_raw by blast
    have "in_raw s (unat rva + i)"
      using s(2,4) that by (simp add: in_raw_def)
    then have "bytes ! (unat rva + i) =
        pe_file img ! (unat (sec_raw_offset s) + (unat rva + i - unat (sec_virtual_address s)))"
      using r s(1) by simp
    then show ?thesis
      using s(2,3) by (simp add: in_raw_def add.assoc)
  qed
  then show ?thesis
    using b by (intro nth_equalityI) auto
qed

text \<open>
  C16: Mapping a parsed image succeeds whenever the memory can be had, stays inside the allocation and
  inside the file, and gives the image its content: where the headers and the raw data of the
  sections do not overlap, every byte the parser finds for an RVA in the file is the byte at that
  RVA in memory, and all memory outside headers and raw data is zero.
\<close>

theorem mapped_image_agrees_with_file:
  assumes "image_wf img"
  shows "\<exists>status m. sl_loader_map_image h calloc (Some img) (Some m0) = Some (status, Some m, []) \<and>
    status = (if calloc (unat (pe_image_size img)) = None then SL_ERROR_OUT_OF_MEMORY else SL_OK) \<and>
    (status = SL_OK \<longrightarrow> (\<exists>bytes. mp_bytes m = Some bytes \<and> length bytes = unat (pe_image_size img) \<and>
      mapping_ok m \<and> mp_load_base m = pe_image_base img \<and>
      (raw_apart img \<longrightarrow> (\<forall>rva offset available. rva_file_window img rva = Inr (offset, available) \<longrightarrow>
         take available (drop (unat rva) bytes) = take available (drop offset (pe_file img)))) \<and>
      (\<forall>i < length bytes. unat (pe_headers_size img) \<le> i \<longrightarrow>
         (\<forall>s\<in>set (pe_sections img). \<not> in_raw s i) \<longrightarrow> bytes ! i = 0)))"
proof -
  have valid: "validate_mapping (Some img) = SL_OK"
    using assms by (auto simp: validate_mapping_def image_wf_def)
  show ?thesis
  proof (cases "calloc (unat (pe_image_size img))")
    case None
    then show ?thesis
      by (simp add: sl_loader_map_image_def valid)
  next
    case (Some address)
    let ?n = "unat (pe_image_size img)"
    obtain bytes where b: "populate_mapping img ?n (replicate ?n 0) = Some (SL_OK, bytes)" "length bytes = ?n"
      "\<forall>i < ?n. unat (pe_headers_size img) \<le> i \<longrightarrow> (\<forall>s\<in>set (pe_sections img). \<not> in_raw s i) \<longrightarrow> bytes ! i = 0"
      "raw_apart img \<longrightarrow> (\<forall>i < unat (pe_headers_size img). bytes ! i = pe_file img ! i)"
      "raw_apart img \<longrightarrow> (\<forall>s\<in>set (pe_sections img). \<forall>i. in_raw s i \<longrightarrow>
         bytes ! i = pe_file img ! (unat (sec_raw_offset s) + (i - unat (sec_virtual_address s))))"
      by (rule populate_mapping_bytes [OF assms order_refl order_refl])
    let ?m = "initialize_mapping img bytes address ?n SL_IMAGE_STORAGE_HEAP"
    have run: "sl_loader_map_image h calloc (Some img) (Some m0) = Some (SL_OK, Some ?m, [])"
      using Some b(1) by (simp add: sl_loader_map_image_def valid initialize_mapping_def Let_def)
    have view: "take available (drop (unat rva) bytes) = take available (drop offset (pe_file img))"
      if "raw_apart img" "rva_file_window img rva = Inr (offset, available)" for rva offset available
      using window_bytes [OF assms that(2), of bytes] b(2,4,5) that(1) by simp
    have "mp_bytes ?m = Some bytes" "mapping_ok ?m" "mp_load_base ?m = pe_image_base img"
      using b(2) by (simp_all add: initialize_mapping_def mapping_ok_def)
    then show ?thesis
      by (intro exI [of _ SL_OK], intro exI [of _ ?m] conjI impI, rule_tac [3] exI [of _ bytes])
         (use Some run b(2,3) view in simp_all)
  qed
qed

theorem mapped_image_agrees_with_file_witness:
  "\<exists>m bytes. sl_loader_map_image \<lparr>mmap_fixed = (\<lambda>a n. None), mmap_any = (\<lambda>n. None), munmap_ok = (\<lambda>a n. True)\<rparr>
     (\<lambda>n. Some 0x10000) (Some import_image) (Some no_mapping) = Some (SL_OK, Some m, []) \<and>
     mp_bytes m = Some bytes \<and> length bytes = 64"
  using mapped_image_agrees_with_file [OF import_wf,
    of "\<lparr>mmap_fixed = (\<lambda>a n. None), mmap_any = (\<lambda>n. None), munmap_ok = (\<lambda>a n. True)\<rparr>"
      "\<lambda>n. Some 0x10000" no_mapping]
  by (auto simp: import_fields)

end
