(* ===== verification/Loader_Address_Space.thy ===== *)
theory Loader_Address_Space
  imports Loader_Layout
begin

text \<open>
  Mapping for execution and the address space: the events of \<open>sl_loader_map_image_for_execution\<close>
  added up to the set of addresses the process holds.
\<close>

section \<open>Powers of two\<close>

lemma power_of_two:
  assumes "n AND (n - 1) = 0" "0 < (n :: nat)"
  obtains k where "n = 2 ^ k"
proof -
  obtain k where k: "2 ^ k \<le> n" "n < 2 ^ (k + 1)"
    using ex_power_ivl1 [of 2 n] assms(2) by auto
  have bit: "bit m k" if "2 ^ k \<le> m" "m < 2 ^ (k + 1)" for m :: nat
  proof -
    have "m div 2 ^ k = 1"
      using that by (intro div_nat_eqI) auto
    then show ?thesis
      by (simp add: bit_iff_odd)
  qed
  have "n = 2 ^ k"
  proof (rule ccontr)
    assume "n \<noteq> 2 ^ k"
    then have "bit n k" "bit (n - 1) k"
      using k by (auto intro!: bit)
    then have "bit (n AND (n - 1)) k"
      by (simp add: bit_and_iff)
    then show False
      using assms(1) by simp
  qed
  then show thesis
    by (rule that)
qed

lemma and_power_minus_1: "(v :: nat) AND (2 ^ k - Suc 0) = v mod 2 ^ k"
proof -
  have "(2 :: nat) ^ k - Suc 0 = mask k"
    by (simp add: mask_eq_exp_minus_1)
  then show ?thesis
    by (simp only: take_bit_eq_mask [symmetric] take_bit_eq_mod)
qed

lemma host_page_size_error: "host_page_size sysconf = Inl e \<Longrightarrow> e = SL_ERROR_MEMORY_MAPPING"
  by (auto simp: host_page_size_def Let_def split: if_splits)

lemma host_page_size_power:
  assumes "host_page_size sysconf = Inr page_size"
  obtains k where "page_size = 2 ^ k" "k < 64"
proof -
  have p: "page_size AND (page_size - 1) = 0" "0 < page_size" "page_size \<le> SIZE_MAX"
    using assms by (auto simp: host_page_size_def Let_def simp del: SIZE_MAX_eq split: if_splits)
  obtain k where k: "page_size = 2 ^ k"
    using power_of_two [OF p(1,2)] .
  have "(2 :: nat) ^ k < 2 ^ 64"
    using p(3) k by simp
  then have "k < 64"
    by (simp only: power_strict_increasing_iff)
  then show thesis
    using that k by blast
qed

lemma round_up_size_Some:
  assumes "round_up_size v (2 ^ k) = Some a"
  shows "v \<le> a \<and> a < v + 2 ^ k \<and> 2 ^ k dvd a"
proof (cases "v mod 2 ^ k = 0")
  case True
  then show ?thesis
    using assms by (auto simp: round_up_size_def and_power_minus_1 Let_def simp del: SIZE_MAX_eq)
next
  case False
  have lt: "v mod 2 ^ k < 2 ^ k"
    by simp
  have a: "a = v + (2 ^ k - v mod 2 ^ k)"
    using assms False by (auto simp: round_up_size_def and_power_minus_1 Let_def simp del: SIZE_MAX_eq split: if_splits)
  also have "\<dots> = (v div 2 ^ k) * 2 ^ k + 2 ^ k"
    using lt div_mult_mod_eq [of v "2 ^ k"] by linarith
  finally have "2 ^ k dvd a"
    by simp
  then show ?thesis
    using a False lt by (intro conjI) linarith+
qed

lemma align_up:
  assumes "r + 2 ^ k - 1 < 2 ^ 64" "k < 64"
  shows "unat ((of_nat (r + 2 ^ k - 1) :: u64) AND NOT (of_nat (2 ^ k - 1))) = (r + 2 ^ k - 1) div 2 ^ k * 2 ^ k"
proof -
  let ?x = "of_nat (r + 2 ^ k - 1) :: u64"
  have "(of_nat (2 ^ k - 1) :: u64) = mask k"
    by (simp add: mask_eq_exp_minus_1 of_nat_diff)
  moreover have "?x AND NOT (mask k) = push_bit k (drop_bit k ?x)"
    by (rule bit_word_eqI) (auto simp: bit_simps)
  moreover have x: "unat ?x = r + 2 ^ k - 1"
    using assms(1) by (intro unat_of_nat_small) simp
  have "unat ?x div 2 ^ k * 2 ^ k < 2 ^ 64"
    using x assms(1) div_times_less_eq_dividend le_less_trans by metis
  then have "unat (push_bit k (drop_bit k ?x)) = unat ?x div 2 ^ k * 2 ^ k"
    by (subst unat_push_bit_fits) (simp_all only: unat_drop_bit_div len_of_numeral_defs, simp_all)
  ultimately show ?thesis
    using x by simp
qed


section \<open>The address ranges the process holds\<close>

fun held_after :: "host_event \<Rightarrow> nat set \<Rightarrow> nat set" where
  "held_after (FREED p) A = A"
| "held_after (MAPPED a n) A = A \<union> {a..<a + n}"
| "held_after (UNMAPPED a n) A = A - {a..<a + n}"

definition held :: "host_event list \<Rightarrow> nat set" where
  "held events = fold held_after events {}"

text \<open>What \<open>mmap\<close> promises: a mapping lies in the address space; where the caller leaves the choice,
  it starts on a page boundary.\<close>

definition host_ok :: "host \<Rightarrow> nat \<Rightarrow> bool" where
  "host_ok h page_size \<longleftrightarrow>
     (\<forall>n a. mmap_any h n = Some a \<longrightarrow> page_size dvd a \<and> a + n \<le> 2 ^ 64) \<and>
     (\<forall>r n a. mmap_fixed h r n = Some a \<longrightarrow> a + n \<le> 2 ^ 64)"

definition unmaps :: "host \<Rightarrow> bool" where
  "unmaps h \<longleftrightarrow> (\<forall>a n. munmap_ok h a n)"

lemma munmap_event [simp]: "unmaps h \<Longrightarrow> munmap h a n = [UNMAPPED a n]"
  by (simp add: unmaps_def munmap_def)

text \<open>An aligned mapping: exactly the range asked for is kept of the reservation, and all of it is
  given back when the mapping fails.\<close>

definition placed :: "(nat option \<times> host_event list) \<Rightarrow> host \<Rightarrow> nat \<Rightarrow> nat \<Rightarrow> bool" where
  "placed r h n alignment = (case r of
       (Some a, events) \<Rightarrow> alignment dvd a \<and> a + n \<le> 2 ^ 64 \<and>
         (unmaps h \<longrightarrow>
           (\<exists>A. fold held_after events = (\<lambda>B. B \<union> {a..<a + n} - A) \<and> A \<inter> {a..<a + n} = {}))
     | (None, events) \<Rightarrow> unmaps h \<longrightarrow> (\<exists>A. fold held_after events = (\<lambda>B. B - A)))"

lemma map_preferred_placed:
  assumes "0 < alignment"
  shows "placed (map_preferred_address h base n alignment) h n alignment"
proof -
  have "placed (None, []) h n alignment"
    by (auto simp: placed_def intro!: exI [of _ "{}"])
  moreover have "placed (None, MAPPED a n # munmap h a n) h n alignment" for a
    by (auto simp: placed_def intro!: exI [of _ "{a..<a + n}"])
  moreover have "placed (Some (unat base), [MAPPED (unat base) n]) h n alignment"
    if "unat base mod alignment = 0" "\<not> n > UINTPTR_MAX - unat base" "\<not> unat base > UINTPTR_MAX"
    using that by (auto simp: placed_def UINTPTR_MAX_def intro!: exI [of _ "{}"])
  ultimately show ?thesis
    by (auto simp: map_preferred_address_def Let_def split: option.split)
qed


lemma align_up_bounds:
  assumes "p dvd q" "p dvd (r :: nat)" "0 < q"
  defines "a \<equiv> (r + q - 1) div q * q"
  shows "r \<le> a" "a - r \<le> q - p" "q dvd a"
proof -
  have m: "a + (r + q - 1) mod q = r + q - 1" "(r + q - 1) mod q < q"
    using assms(3) by (simp_all add: a_def)
  then show "r \<le> a" "q dvd a"
    by (linarith, simp add: a_def)
  have lt: "a - r < q"
    using m assms(3) by linarith
  have d: "p dvd a - r" "p dvd q - (a - r)"
    using assms(1,2) \<open>q dvd a\<close> by (meson dvd_diff_nat dvd_trans)+
  have "p \<le> q - (a - r)"
    using d(2) lt by (intro dvd_imp_le) auto
  then show "a - r \<le> q - p"
    using lt by linarith
qed

lemma trimmed_reservation:
  assumes "r + pre = a" "a + n + post = r + res"
  shows "fold held_after (MAPPED r res # (if pre \<noteq> 0 then [UNMAPPED r pre] else []) @
      (if post \<noteq> 0 then [UNMAPPED (a + n) post] else [])) =
    (\<lambda>B. B \<union> {a..<a + n} - ({r..<a} \<union> {a + n..<r + res}))"
  using assms by (intro ext) auto

lemma map_aligned_placed:
  assumes h: "host_ok h (2 ^ k)" and jk: "k \<le> j" "j < 64" and n: "0 < n"
  shows "placed (map_aligned_address h n (2 ^ k) (2 ^ j)) h n (2 ^ j)"
proof -
  let ?p = "(2 :: nat) ^ k" and ?q = "(2 :: nat) ^ j"
  let ?res = "n + (?q - ?p)"
  have pq: "?p \<le> ?q" "?p dvd ?q"
    using jk by (simp_all add: le_imp_power_dvd power_increasing)
  have none: "placed (None, []) h n ?q"
    by (auto simp: placed_def intro!: exI [of _ "{}"])
  have undone: "placed (None, MAPPED r m # munmap h r m) h n ?q" for r m
    by (auto simp: placed_def intro!: exI [of _ "{r..<r + m}"])
  show ?thesis
  proof (cases "n > SIZE_MAX - (?q - ?p) \<or> mmap_any h ?res = None")
    case True
    then show ?thesis
      using none by (auto simp: map_aligned_address_def Let_def simp del: SIZE_MAX_eq)
  next
    case False
    then obtain r where r: "mmap_any h ?res = Some r" and fits: "\<not> n > SIZE_MAX - (?q - ?p)"
      by blast
    have bounds: "?p dvd r" "r + ?res \<le> 2 ^ 64"
      using h r by (auto simp: host_ok_def)
    show ?thesis
    proof (cases "r > UINTPTR_MAX - (?q - 1)")
      case True
      then show ?thesis
        using r fits undone by (simp add: map_aligned_address_def Let_def del: SIZE_MAX_eq)
    next
      case False
      let ?a = "(r + ?q - 1) div ?q * ?q"
      have "?q \<le> 2 ^ 63"
        using jk(2) by (intro power_increasing) auto
      then have "r + ?q - 1 < 2 ^ 64"
        using False by (simp add: UINTPTR_MAX_def)
      note a = align_up [OF this jk(2)]
      note b = align_up_bounds [OF pq(2) bounds(1), simplified]
      define pre where "pre = ?a - r"
      define post where "post = ?res - pre - n"
      have split: "r + pre = ?a" "?a + n + post = r + ?res"
        using b by (simp_all add: pre_def post_def)
      have run: "map_aligned_address h n ?p ?q =
         (if pre \<noteq> 0 \<and> \<not> munmap_ok h r pre then (None, MAPPED r ?res # munmap h r ?res)
          else let events = MAPPED r ?res # (if pre \<noteq> 0 then [UNMAPPED r pre] else [])
          in if post \<noteq> 0 \<and> \<not> munmap_ok h (?a + n) post
             then (None, events @ munmap h ?a (?res - pre))
             else (Some ?a, events @ (if post \<noteq> 0 then [UNMAPPED (?a + n) post] else [])))"
        by (simp only: map_aligned_address_def Let_def pre_def post_def a r fits False if_False option.case)
      show ?thesis
      proof (cases "unmaps h \<or>
          (pre = 0 \<or> munmap_ok h r pre) \<and> (post = 0 \<or> munmap_ok h (?a + n) post)")
        case False
        then show ?thesis
          unfolding run by (auto simp: placed_def Let_def)
      next
        case True
        let ?A = "{r..<?a} \<union> {?a + n..<r + ?res}"
        let ?events = "MAPPED r ?res # (if pre \<noteq> 0 then [UNMAPPED r pre] else []) @
          (if post \<noteq> 0 then [UNMAPPED (?a + n) post] else [])"
        have "map_aligned_address h n ?p ?q = (Some ?a, ?events)"
          using True unfolding run by (auto simp: Let_def unmaps_def)
        moreover have "fold held_after ?events = (\<lambda>B. B \<union> {?a..<?a + n} - ?A)"
          by (rule trimmed_reservation [OF split])
        moreover have "?A \<inter> {?a..<?a + n} = {}"
          using split by auto
        moreover have "?q dvd ?a" "?a + n \<le> 2 ^ 64"
          using split bounds by simp_all
        ultimately show ?thesis
          unfolding placed_def by auto
      qed
    qed
  qed
qed


lemma choose_address_placed:
  assumes h: "host_ok h (2 ^ k)" and k: "k < 64" and n: "0 < n"
  shows "placed (choose_address h base n (2 ^ k)) h n (2 ^ max k 16)"
proof -
  let ?q = "(2 :: nat) ^ max k 16"
  have q: "(if 2 ^ k > SL_WINDOWS_ALLOCATION_GRANULARITY then 2 ^ k else SL_WINDOWS_ALLOCATION_GRANULARITY) = ?q"
  proof (cases "k > 16")
    case True
    then have "(2 :: nat) ^ 16 < 2 ^ k"
      by (simp only: power_strict_increasing_iff)
    then show ?thesis
      using True by (simp add: SL_WINDOWS_ALLOCATION_GRANULARITY_def max_def)
  next
    case False
    then have "(2 :: nat) ^ k \<le> 2 ^ 16"
      by (intro power_increasing) auto
    then show ?thesis
      using False by (simp add: SL_WINDOWS_ALLOCATION_GRANULARITY_def max_def)
  qed
  have wished: "placed (map_preferred_address h base n ?q) h n ?q"
    by (rule map_preferred_placed) simp
  have anywhere: "placed (map_aligned_address h n (2 ^ k) ?q) h n ?q"
    using h k n by (intro map_aligned_placed) auto
  obtain x xs where x: "map_preferred_address h base n ?q = (x, xs)" by fastforce
  obtain y ys where y: "map_aligned_address h n (2 ^ k) ?q = (y, ys)" by fastforce
  show ?thesis
  proof (cases x)
    case (Some a)
    then show ?thesis
      using wished x q by (simp add: choose_address_def Let_def)
  next
    case None
    then have r: "choose_address h base n (2 ^ k) = (y, xs @ ys)"
      using x y q by (simp add: choose_address_def Let_def)
    have gone: "\<exists>A. fold held_after xs = (\<lambda>B. B - A)" if "unmaps h"
      using wished x None that by (simp add: placed_def)
    show ?thesis
    proof (cases y)
      case y': None
      have "\<exists>A. fold held_after (xs @ ys) = (\<lambda>B. B - A)" if u: "unmaps h"
      proof -
        obtain A' where "fold held_after ys = (\<lambda>B. B - A')"
          using anywhere y y' u by (auto simp: placed_def)
        moreover obtain A where "fold held_after xs = (\<lambda>B. B - A)"
          using gone u by blast
        ultimately show ?thesis
          by (intro exI [of _ "A \<union> A'"]) (auto simp: fun_eq_iff)
      qed
      then show ?thesis
        using r y' by (simp add: placed_def)
    next
      case (Some a)
      have "\<exists>A. fold held_after (xs @ ys) = (\<lambda>B. B \<union> {a..<a + n} - A) \<and> A \<inter> {a..<a + n} = {}"
        if u: "unmaps h"
      proof -
        obtain A' where A': "fold held_after ys = (\<lambda>B. B \<union> {a..<a + n} - A')" "A' \<inter> {a..<a + n} = {}"
          using anywhere y Some u by (auto simp: placed_def)
        moreover obtain A where "fold held_after xs = (\<lambda>B. B - A)"
          using gone u by blast
        ultimately show ?thesis
          by (intro exI [of _ "(A - {a..<a + n}) \<union> A'"]) (auto simp: fun_eq_iff)
      qed
      then show ?thesis
        using r anywhere y Some by (simp add: placed_def)
    qed
  qed
qed

section \<open>Installing the image\<close>

lemma mapping_itself:
  "\<exists>bytes b. m = m\<lparr>mp_bytes := bytes, mp_load_base := b\<rparr> \<and>
     map_option length bytes = map_option length (mp_bytes m)"
  by (intro exI [of _ "mp_bytes m"] exI [of _ "mp_load_base m"]) simp

lemma apply_outcome:
  assumes "mapping_ok m"
  obtains status m' where
    "sl_loader_apply_relocations (Some img) (Some m) base = Some (status, Some m')"
    "status \<noteq> SL_OK \<Longrightarrow> m' = m" "status = SL_OK \<Longrightarrow> mp_load_base m' = base"
    "\<exists>bytes b. m' = m\<lparr>mp_bytes := bytes, mp_load_base := b\<rparr> \<and>
       map_option length bytes = map_option length (mp_bytes m)"
proof (cases "relocation_refused img m base")
  case (Some status)
  have "status = SL_OK \<Longrightarrow> mp_load_base m = base"
    using Some by (auto simp: relocation_refused_def Let_def split: if_splits)
  then show thesis
    by (intro that [OF _ _ _ mapping_itself]) (use Some in \<open>simp_all add: apply_eq\<close>)
next
  case None
  obtain bytes where bytes: "mp_bytes m = Some bytes"
    using None by (auto simp: relocation_refused_def Let_def split: if_splits)
  obtain status xs where sites: "relocation_sites img m = (status, xs)"
    by fastforce
  note runs = apply_runs [OF None assms bytes sites]
  obtain bytes' where b: "patch_all (relocation_job img m base) xs bytes = Some bytes'"
      "length bytes' = length bytes"
    using apply_patches runs by blast
  let ?m = "if status \<noteq> SL_OK then m else m\<lparr>mp_bytes := Some bytes', mp_load_base := base\<rparr>"
  show thesis
  proof (rule that [of status ?m])
    show "sl_loader_apply_relocations (Some img) (Some m) base = Some (status, Some ?m)"
      using runs b by simp
    show "\<exists>bs ba. ?m = m\<lparr>mp_bytes := bs, mp_load_base := ba\<rparr> \<and>
       map_option length bs = map_option length (mp_bytes m)"
    proof (cases "status = SL_OK")
      case True
      then show ?thesis
        using b bytes by (intro exI [of _ "Some bytes'"] exI [of _ base]) simp
    next
      case False
      then show ?thesis
        using mapping_itself [of m] by (simp only: if_True simp_thms)
    qed
  qed auto
qed


lemma install_image_outcome:
  assumes "unat (pe_image_size img) \<le> n" "0 < n"
    and "unat (pe_headers_size img) \<le> n" "unat (pe_headers_size img) \<le> length (pe_file img)"
    and "a < 2 ^ 64"
  obtains (moved) m bytes where "install_image h img a n = Some (SL_OK, Some m, [])"
    "mp_bytes m = Some bytes" "length bytes = n" "mp_address m = of_nat a" "mp_load_base m = of_nat a"
    "mp_size m = unat (pe_image_size img)" "mp_allocation_size m = n"
    "mp_storage m = SL_IMAGE_STORAGE_VIRTUAL" "\<not> mp_protections_finalized m"
  | (undone) status where "install_image h img a n = Some (status, Some no_mapping, munmap h a n)"
    "status \<noteq> SL_OK"
proof -
  let ?m = "\<lambda>bytes. initialize_mapping img bytes (of_nat a) n SL_IMAGE_STORAGE_VIRTUAL"
  have a: "unat (of_nat a :: u64) = a"
    using assms(5) by (intro unat_of_nat_small) simp
  obtain status bytes where b: "populate_mapping img (unat (pe_image_size img)) (replicate n 0) = Some (status, bytes)"
      "length bytes = n"
    using populate_mapping_total [of "unat (pe_image_size img)" "replicate n 0" img] assms by auto
  have ok: "mapping_ok (?m bytes)"
    using assms(1) b(2) by (simp add: mapping_ok_def initialize_mapping_def)
  have start: "install_image h img a n =
     (case (if status = SL_OK then sl_loader_apply_relocations (Some img) (Some (?m bytes)) (of_nat a)
            else Some (status, Some (?m bytes))) of
        None \<Rightarrow> None
      | Some (status, mapped) \<Rightarrow>
          if status \<noteq> SL_OK
          then (case sl_loader_unmap_image h mapped of (events, mapped) \<Rightarrow> Some (status, mapped, events))
          else Some (status, mapped, []))"
    using b(1) by (simp add: install_image_def initialize_mapping_def Let_def)
  have unmap: "sl_loader_unmap_image h (Some (?m bytes)) = (munmap h a n, Some no_mapping)"
    using assms(2) a by (simp add: sl_loader_unmap_image_def initialize_mapping_def)
  show thesis
  proof (cases "status = SL_OK")
    case False
    then show thesis
      using start unmap by (intro undone [of status]) simp_all
  next
    case True
    obtain status' m' where r:
      "sl_loader_apply_relocations (Some img) (Some (?m bytes)) (of_nat a) = Some (status', Some m')"
      "status' \<noteq> SL_OK \<Longrightarrow> m' = ?m bytes" "status' = SL_OK \<Longrightarrow> mp_load_base m' = of_nat a"
      "\<exists>bs ba. m' = (?m bytes)\<lparr>mp_bytes := bs, mp_load_base := ba\<rparr> \<and>
         map_option length bs = map_option length (mp_bytes (?m bytes))"
      by (rule apply_outcome [OF ok]) blast
    show thesis
    proof (cases "status' = SL_OK")
      case False
      then show thesis
        using start unmap r True by (intro undone [of status']) simp_all
    next
      case ok': True
      from r(4) obtain bs ba where m': "m' = (?m bytes)\<lparr>mp_bytes := bs, mp_load_base := ba\<rparr>"
          "map_option length bs = Some n"
        using b(2) by (auto simp: initialize_mapping_def)
      then obtain bytes' where "bs = Some bytes'" "length bytes' = n"
        by auto
      then show thesis
        using start r(1,3) True ok' m' by (intro moved [of m' bytes']) (simp_all add: initialize_mapping_def)
    qed
  qed
qed

text \<open>A mapping for execution at an address: aligned, a whole number of pages, just large enough, inside
  the address space, and relocated to where it is.\<close>

definition execution_mapping :: "int \<Rightarrow> sl_pe_image \<Rightarrow> sl_mapped_image \<Rightarrow> nat \<Rightarrow> bool" where
  "execution_mapping sysconf img m a \<longleftrightarrow> (\<exists>page_size bytes.
     host_page_size sysconf = Inr page_size \<and> a mod 65536 = 0 \<and> a mod page_size = 0 \<and>
     mp_allocation_size m mod page_size = 0 \<and> unat (pe_image_size img) \<le> mp_allocation_size m \<and>
     0 < mp_allocation_size m \<and> mp_allocation_size m < unat (pe_image_size img) + page_size \<and>
     a + mp_allocation_size m \<le> 2 ^ 64 \<and> mp_address m = of_nat a \<and> mp_load_base m = of_nat a \<and>
     mp_storage m = SL_IMAGE_STORAGE_VIRTUAL \<and> mp_size m = unat (pe_image_size img) \<and>
     \<not> mp_protections_finalized m \<and> mp_bytes m = Some bytes \<and>
     length bytes = mp_allocation_size m \<and> mapping_ok m)"

text \<open>The outcome of a call, whatever the host's \<open>munmap\<close> does; the events add up when it works.\<close>

lemma execution_mapping_outcome:
  assumes "\<forall>page_size. host_page_size sysconf = Inr page_size \<longrightarrow> host_ok h page_size"
  shows "\<exists>status m events.
    sl_loader_map_image_for_execution h sysconf img (Some m0) = Some (status, Some m, events) \<and>
    (status \<noteq> SL_OK \<longrightarrow> m = no_mapping \<and> (unmaps h \<longrightarrow> held events = {})) \<and>
    (status = SL_OK \<longrightarrow> (\<exists>i a. img = Some i \<and> execution_mapping sysconf i m a \<and>
       (unmaps h \<longrightarrow> held events = {a..<a + mp_allocation_size m})))"
proof -
  have early: ?thesis if "sl_loader_map_image_for_execution h sysconf img (Some m0) = Some (status, Some no_mapping, [])"
      "status \<noteq> SL_OK" for status
    using that by (simp add: held_def)
  show ?thesis
  proof (cases "\<exists>i page_size n. img = Some i \<and> validate_mapping img = SL_OK \<and> pe_is_pe32_plus i \<and>
      pe_machine i = SL_PE_MACHINE_AMD64 \<and> host_page_size sysconf = Inr page_size \<and>
      round_up_size (unat (pe_image_size i)) page_size = Some n")
    case False
    let ?run = "sl_loader_map_image_for_execution h sysconf img (Some m0)"
    have refused: "?run = Some (validate_mapping img, Some no_mapping, [])" if "validate_mapping img \<noteq> SL_OK"
      using that by (simp add: sl_loader_map_image_for_execution_def)
    have "\<exists>status. status \<noteq> SL_OK \<and> ?run = Some (status, Some no_mapping, [])"
    proof (cases "validate_mapping img = SL_OK")
      case valid: True
      then obtain i where i: "img = Some i"
        by (auto simp: validate_mapping_def split: option.splits)
      show ?thesis
      proof (cases "host_page_size sysconf")
        case (Inl e)
        then show ?thesis
          using valid i host_page_size_error [OF Inl]
          by (auto simp: sl_loader_map_image_for_execution_def)
      next
        case (Inr p)
        then show ?thesis
          using valid i False
          by (cases "round_up_size (unat (pe_image_size i)) p")
             (auto simp: sl_loader_map_image_for_execution_def)
      qed
    qed (use refused in blast)
    then show ?thesis
      using early by blast
  next
    case True
    then obtain i page_size n where i: "img = Some i" "validate_mapping img = SL_OK" "pe_is_pe32_plus i"
      "pe_machine i = SL_PE_MACHINE_AMD64" "host_page_size sysconf = Inr page_size"
      "round_up_size (unat (pe_image_size i)) page_size = Some n"
      by blast
    obtain k where k: "page_size = 2 ^ k" "k < 64"
      using host_page_size_power [OF i(5)] .
    have size: "0 < pe_image_size i" "unat (pe_headers_size i) \<le> unat (pe_image_size i)"
        "unat (pe_headers_size i) \<le> length (pe_file i)"
      using i(1,2) by (auto simp: validate_mapping_def word_le_nat_alt not_less word_neq_0_conv split: if_splits)
    have n: "unat (pe_image_size i) \<le> n" "n < unat (pe_image_size i) + page_size" "page_size dvd n"
      using round_up_size_Some i(6) k(1) by auto
    have pos: "0 < n"
      using size(1) n(1) by (simp add: word_less_nat_alt)
    obtain x events where c: "choose_address h (pe_image_base i) n page_size = (x, events)"
      by fastforce
    have placed: "placed (x, events) h n (2 ^ max k 16)"
      using choose_address_placed [OF _ k(2) pos, of h "pe_image_base i"] assms(1) i(5) k(1) c by simp
    have run: "sl_loader_map_image_for_execution h sysconf img (Some m0) =
      (case x of None \<Rightarrow> Some (SL_ERROR_MEMORY_MAPPING, Some no_mapping, events)
       | Some a \<Rightarrow> map_option (\<lambda>(status, mapped, events'). (status, mapped, events @ events')) (install_image h i a n))"
      using i c by (simp add: sl_loader_map_image_for_execution_def split: option.split)
    show ?thesis
    proof (cases x)
      case None
      then show ?thesis
        using run placed by (auto simp: placed_def held_def)
    next
      case (Some a)
      have a: "2 ^ max k 16 dvd a" "a + n \<le> 2 ^ 64"
        using placed Some by (auto simp: placed_def)
      have held: "held events = {a..<a + n}" if "unmaps h"
        using placed Some that by (auto simp: placed_def held_def)
      have small: "a < 2 ^ 64"
        using a(2) pos by simp
      have "2 ^ 16 dvd a" "page_size dvd a"
        using a(1) k(1) by (meson dvd_trans le_imp_power_dvd max.cobounded1 max.cobounded2)+
      then have aligned: "a mod 65536 = 0" "a mod page_size = 0"
        by simp_all
      have h: "unat (pe_headers_size i) \<le> n"
        using size(2) n(1) by simp
      show ?thesis
      proof (rule install_image_outcome [OF n(1) pos h size(3) small, of h])
        fix m bytes
        assume m: "install_image h i a n = Some (SL_OK, Some m, [])"
          "mp_bytes m = Some bytes" "length bytes = n" "mp_address m = of_nat a" "mp_load_base m = of_nat a"
          "mp_size m = unat (pe_image_size i)" "mp_allocation_size m = n"
          "mp_storage m = SL_IMAGE_STORAGE_VIRTUAL" "\<not> mp_protections_finalized m"
        have "mapping_ok m"
          using m(2,3,6) n(1) by (simp add: mapping_ok_def)
        then have "execution_mapping sysconf i m a"
          unfolding execution_mapping_def
          by (intro exI [of _ page_size] exI [of _ bytes]) (use m(2-9) i(5) aligned n a(2) pos in simp)
        moreover have "sl_loader_map_image_for_execution h sysconf img (Some m0) = Some (SL_OK, Some m, events)"
          using run Some m(1) by simp
        ultimately show ?thesis
          using m(7) i(1) held by auto
      next
        fix status
        assume u: "install_image h i a n = Some (status, Some no_mapping, munmap h a n)" "status \<noteq> SL_OK"
        have "held (events @ munmap h a n) = {}" if "unmaps h"
          using held [OF that] that by (simp add: held_def)
        then show ?thesis
          using run Some u by simp
      qed
    qed
  qed
qed


text \<open>
  C17: Mapping an image for execution never leaves anything behind: when the host's calls behave as
  documented, success means that the process holds exactly one new range of addresses, the one the
  mapping names, which starts on a 64 KiB and a page boundary, is a whole number of pages and holds
  the image; failure means an empty mapping object and not one address held.
\<close>

theorem execution_mapping_holds_its_range:
  assumes "unmaps h" "\<forall>page_size. host_page_size sysconf = Inr page_size \<longrightarrow> host_ok h page_size"
  shows "\<exists>status m events.
    sl_loader_map_image_for_execution h sysconf img (Some m0) = Some (status, Some m, events) \<and>
    (status \<noteq> SL_OK \<longrightarrow> m = no_mapping \<and> held events = {}) \<and>
    (status = SL_OK \<longrightarrow> (\<exists>i a. img = Some i \<and> execution_mapping sysconf i m a \<and>
       held events = {a..<a + mp_allocation_size m}))"
  using execution_mapping_outcome [OF assms(2)] assms(1) by simp

text \<open>A host that never finds the wished address free.\<close>

definition busy_host :: host where
  "busy_host = \<lparr>mmap_fixed = (\<lambda>a n. None),
     mmap_any = (\<lambda>n. if n \<le> 0x100000 then Some 0x7000 else None), munmap_ok = (\<lambda>a n. True)\<rparr>"

definition amd64_image :: sl_pe_image where
  "amd64_image = (empty_image (replicate 64 0x90))\<lparr>pe_machine := SL_PE_MACHINE_AMD64, pe_is_pe32_plus := True,
     pe_image_size := 5000, pe_headers_size := 64, pe_image_base := 0x140000000,
     pe_directories := replicate 5 no_directory @ [\<lparr>dir_rva = 0, dir_size = 0\<rparr>]\<rparr>"

theorem execution_mapping_holds_its_range_witness:
  "\<exists>status m events.
    sl_loader_map_image_for_execution busy_host 4096 (Some amd64_image) (Some no_mapping) = Some (status, Some m, events) \<and>
    (status \<noteq> SL_OK \<longrightarrow> m = no_mapping \<and> held events = {})"
proof -
  have u: "unmaps busy_host"
    by (simp add: unmaps_def busy_host_def)
  have "host_page_size 4096 = Inr 4096"
    by (simp add: host_page_size_def)
  then have "\<forall>page_size. host_page_size 4096 = Inr page_size \<longrightarrow> host_ok busy_host page_size"
    by (simp add: host_ok_def busy_host_def)
  from execution_mapping_holds_its_range [OF u this, of "Some amd64_image" no_mapping] show ?thesis
    by blast
qed

end
