(* ===== verification/Loader_Permissions.thy ===== *)
theory Loader_Permissions
  imports Loader_Layout
begin

text \<open>
  Write-xor-execute: the loops of \<open>sl_loader_finalize_image\<close> give every page the union of the rights
  asked for, and only when no page would get both write and execute.
\<close>

section \<open>The pages a range touches\<close>

definition touches :: "nat \<Rightarrow> nat \<Rightarrow> nat \<Rightarrow> nat \<Rightarrow> bool" where
  "touches start n page_size page \<longleftrightarrow> n \<noteq> 0 \<and> start div page_size \<le> page \<and> page \<le> (start + n - 1) div page_size"

text \<open>The protection a page should have: the union of what headers and sections ask for.\<close>

definition page_bits :: "sl_pe_image \<Rightarrow> nat \<Rightarrow> nat \<Rightarrow> u8" where
  "page_bits img page_size page =
     foldl (\<lambda>p s. if touches (unat (sec_virtual_address s)) (section_length s) page_size page
                  then p OR section_protection s else p)
       (if touches 0 (unat (pe_headers_size img)) page_size page then PROT_READ else 0) (pe_sections img)"

lemma or_pages_Some:
  assumes "last_page < length permissions"
  shows "\<exists>permissions'. or_pages permissions page last_page protection = Some permissions' \<and>
    length permissions' = length permissions \<and>
    (\<forall>i < length permissions. permissions' ! i =
       (if page \<le> i \<and> i \<le> last_page then permissions ! i OR protection else permissions ! i))"
  using assms
proof (induction permissions page last_page protection rule: or_pages.induct)
  case (1 permissions page last_page protection)
  show ?case
  proof (cases "page \<le> last_page")
    case True
    then have "page < length permissions"
      using 1(2) by simp
    then show ?thesis
      using 1(1) [OF True] 1(2) True
      by (fastforce simp: or_pages.simps [of _ page] nth_list_update)
  next
    case False
    then show ?thesis
      by (auto simp: or_pages.simps [of _ page])
  qed
qed

lemma add_page_permissions_cases:
  assumes "length permissions = page_count"
  obtains (refused) "add_page_permissions permissions page_count page_size image_size start n protection =
      Some (SL_ERROR_INVALID_IMAGE, permissions)"
  | (added) permissions' where
      "add_page_permissions permissions page_count page_size image_size start n protection = Some (SL_OK, permissions')"
      "length permissions' = page_count"
      "\<forall>i < page_count. permissions' ! i =
         (if touches start n page_size i then permissions ! i OR protection else permissions ! i)"
proof (cases "n = 0 \<or> start > image_size \<or> n > image_size - start \<or>
    start div page_size \<ge> page_count \<or> (start + n - 1) div page_size \<ge> page_count")
  case True
  then show thesis
    using refused added [of permissions] assms
    by (cases "n = 0") (auto simp: add_page_permissions_def touches_def Let_def)
next
  case False
  then obtain permissions' where
      "or_pages permissions (start div page_size) ((start + n - 1) div page_size) protection = Some permissions'"
      "length permissions' = page_count"
      "\<forall>i < page_count. permissions' ! i =
         (if start div page_size \<le> i \<and> i \<le> (start + n - 1) div page_size
          then permissions ! i OR protection else permissions ! i)"
    using or_pages_Some [of "(start + n - 1) div page_size" permissions] assms by fastforce
  then show thesis
    using False assms by (intro added [of permissions']) (auto simp: add_page_permissions_def touches_def Let_def)
qed

lemma section_permissions_cases:
  assumes "length permissions = page_count"
  shows "\<exists>status permissions'. section_permissions permissions page_count page_size image_size ss =
      Some (status, permissions') \<and> length permissions' = page_count \<and>
    (status = SL_OK \<longrightarrow> (\<forall>i < page_count. permissions' ! i =
      foldl (\<lambda>p s. if touches (unat (sec_virtual_address s)) (section_length s) page_size i
                   then p OR section_protection s else p) (permissions ! i) ss))"
  using assms
proof (induction ss arbitrary: permissions)
  case (Cons s ss)
  show ?case
  proof (cases rule: add_page_permissions_cases [OF Cons.prems, of page_size image_size
      "unat (sec_virtual_address s)" "section_length s" "section_protection s", case_names refused added])
    case refused
    then show ?thesis
      using Cons.prems by simp
  next
    case (added permissions')
    obtain status permissions'' where
      "section_permissions permissions' page_count page_size image_size ss = Some (status, permissions'')"
      "length permissions'' = page_count"
      "status = SL_OK \<longrightarrow> (\<forall>i < page_count. permissions'' ! i =
        foldl (\<lambda>p s. if touches (unat (sec_virtual_address s)) (section_length s) page_size i
                     then p OR section_protection s else p) (permissions' ! i) ss)"
      using Cons.IH [OF added(2)] by blast
    then show ?thesis
      using added(1,3) by simp
  qed
qed simp

lemma page_permissions_cases:
  "\<exists>status permissions. page_permissions img page_count page_size image_size = Some (status, permissions) \<and>
    length permissions = page_count \<and>
    (status = SL_OK \<longrightarrow> (\<forall>i < page_count. permissions ! i = page_bits img page_size i))"
proof (cases rule: add_page_permissions_cases [of "replicate page_count 0" page_count page_size image_size
    0 "unat (pe_headers_size img)" PROT_READ, case_names length refused added])
  case refused
  then show ?thesis
    by (simp add: page_permissions_def)
next
  case (added permissions)
  then show ?thesis
    using section_permissions_cases [OF added(2), of page_size image_size "pe_sections img"]
    by (auto simp: page_permissions_def page_bits_def)
qed simp

section \<open>Protecting the runs\<close>

lemma length_set_pages [simp]:
  "first_page + n \<le> length pages \<Longrightarrow> length (set_pages pages first_page n p) = length pages"
  by (simp add: set_pages_def)

lemma nth_set_pages:
  "first_page + n \<le> length pages \<Longrightarrow> i < length pages \<Longrightarrow>
     set_pages pages first_page n p ! i = (if first_page \<le> i \<and> i < first_page + n then p else pages ! i)"
  by (auto simp: set_pages_def nth_append)

lemma run_end_bounds:
  "end_page \<le> length permissions \<Longrightarrow>
     run_end permissions first_page end_page \<le> length permissions \<and>
     (\<forall>i. end_page \<le> i \<and> i < run_end permissions first_page end_page \<longrightarrow> permissions ! i = permissions ! first_page)"
proof (induction permissions first_page end_page rule: run_end.induct)
  case (1 permissions first_page end_page)
  show ?case
  proof (cases "end_page < length permissions \<and> permissions ! end_page = permissions ! first_page")
    case True
    note ih = 1(1) [OF True]
    have "permissions ! i = permissions ! first_page"
      if "end_page \<le> i" "i < run_end permissions first_page (end_page + 1)" for i
    proof (cases "i = end_page")
      case False
      then have "end_page + 1 \<le> i"
        using that(1) by simp
      then show ?thesis
        using ih True that(2) by auto
    qed (use True in simp)
    moreover have "run_end permissions first_page end_page = run_end permissions first_page (end_page + 1)"
      by (subst run_end.simps) (rule if_P [OF True])
    ultimately show ?thesis
      using ih True by auto
  next
    case False
    then have "run_end permissions first_page end_page = end_page"
      by (subst run_end.simps) (rule if_not_P)
    then show ?thesis
      using 1(2) by auto
  qed
qed

lemma protect_runs_pages:
  assumes "protect_runs mprotect_ok permissions first_page pages = (status, pages')"
    and "length pages = length permissions"
  shows "length pages' = length permissions \<and> (status = SL_OK \<longrightarrow>
    (\<forall>i < length permissions. pages' ! i = (if first_page \<le> i then permissions ! i else pages ! i)))"
  using assms
proof (induction mprotect_ok permissions first_page pages arbitrary: rule: protect_runs.induct)
  case (1 mprotect_ok permissions first_page pages)
  let ?e = "run_end permissions first_page (first_page + 1)"
  let ?p = "permissions ! first_page"
  show ?case
  proof (cases "first_page < length permissions \<and> mprotect_ok first_page (?e - first_page) ?p")
    case True
    then have e: "?e \<le> length permissions" "first_page + 1 \<le> ?e"
      "\<forall>i. first_page + 1 \<le> i \<and> i < ?e \<longrightarrow> permissions ! i = ?p"
      using run_end_bounds [of "first_page + 1" permissions first_page] run_end_ge [of "first_page + 1"] by auto
    let ?pages = "set_pages pages first_page (?e - first_page) ?p"
    have run: "protect_runs mprotect_ok permissions ?e ?pages = (status, pages')"
      using 1(2) True by (simp add: protect_runs.simps [of _ _ first_page] Let_def)
    have len: "length ?pages = length permissions"
      using e 1(3) by simp
    have "pages' ! i = (if first_page \<le> i then permissions ! i else pages ! i)"
      if "status = SL_OK" "i < length permissions" for i
    proof -
      have "permissions ! i = ?p" if "first_page \<le> i" "i < ?e"
        using e(3) that by (cases "i = first_page") auto
      then show ?thesis
        using 1(1) [OF _ refl refl _ run len] True that e 1(3) by (auto simp: nth_set_pages)
    qed
    then show ?thesis
      using 1(1) [OF _ refl refl _ run len] True by auto
  next
    case False
    then show ?thesis
      using 1(2,3) by (auto simp: protect_runs.simps [of _ _ first_page] Let_def split: if_splits)
  qed
qed


text \<open>
  C18: Finalizing an image enforces write-xor-execute: after a success every page has exactly the
  rights that the headers and the sections on it ask for together, and no page is both writable and
  executable; a failure leaves the pages as they were or readable and writable, or, when even that
  cannot be set, marks the image as unusable.
\<close>

theorem finalize_write_xor_execute:
  assumes "host_page_size sysconf = Inr page_size" "length pages = mp_allocation_size m div page_size"
    and "\<not> mp_protections_finalized m"
  shows "\<exists>status m' pages'. sl_loader_finalize_image mprotect_ok sysconf calloc_ok (Some img) (Some m) pages =
      Some (status, Some m', pages') \<and> length pages' = length pages \<and>
    (status = SL_OK \<longrightarrow> m' = m\<lparr>mp_protections_finalized := True\<rparr> \<and>
      (\<forall>i < length pages. pages' ! i = page_bits img page_size i \<and>
        (pages' ! i AND PROT_WRITE = 0 \<or> pages' ! i AND PROT_EXEC = 0))) \<and>
    (status \<noteq> SL_OK \<longrightarrow> m' = m \<and> (pages' = pages \<or> pages' = replicate (length pages) (PROT_READ OR PROT_WRITE)) \<or>
      m' = m\<lparr>mp_storage := SL_IMAGE_STORAGE_VIRTUAL_TAINTED\<rparr>)"
proof -
  let ?n = "mp_allocation_size m div page_size" and ?rw = "PROT_READ OR PROT_WRITE"
  let ?run = "sl_loader_finalize_image mprotect_ok sysconf calloc_ok (Some img) (Some m) pages"
  have refused: ?thesis if "?run = Some (e, Some m, pages)" "e \<noteq> SL_OK" for e
    using that by simp
  show ?thesis
  proof (cases "mp_storage m = SL_IMAGE_STORAGE_VIRTUAL \<and> mp_bytes m \<noteq> None \<and>
      mp_size m = unat (pe_image_size img) \<and> mp_allocation_size m \<noteq> 0 \<and>
      mp_allocation_size m mod page_size = 0 \<and> calloc_ok ?n")
    case False
    note def = sl_loader_finalize_image_def Let_def assms(1,3)
    consider "mp_storage m = SL_IMAGE_STORAGE_VIRTUAL_TAINTED"
      | "mp_storage m \<noteq> SL_IMAGE_STORAGE_VIRTUAL_TAINTED" "mp_bytes m = None \<or>
          mp_storage m \<noteq> SL_IMAGE_STORAGE_VIRTUAL \<or> mp_size m \<noteq> unat (pe_image_size img) \<or> mp_allocation_size m = 0"
      | (pages) "mp_storage m = SL_IMAGE_STORAGE_VIRTUAL" "\<not> (mp_bytes m = None \<or>
          mp_storage m \<noteq> SL_IMAGE_STORAGE_VIRTUAL \<or> mp_size m \<noteq> unat (pe_image_size img) \<or> mp_allocation_size m = 0)"
          "mp_allocation_size m mod page_size \<noteq> 0"
      | (memory) "mp_storage m = SL_IMAGE_STORAGE_VIRTUAL" "\<not> (mp_bytes m = None \<or>
          mp_storage m \<noteq> SL_IMAGE_STORAGE_VIRTUAL \<or> mp_size m \<noteq> unat (pe_image_size img) \<or> mp_allocation_size m = 0)"
          "mp_allocation_size m mod page_size = 0" "\<not> calloc_ok ?n"
      using False by argo
    then show ?thesis
    proof cases
      case 1
      then show ?thesis
        by (intro refused [of SL_ERROR_INVALID_STATE]) (simp_all add: def)
    next
      case 2
      then show ?thesis
        by (intro refused [of SL_ERROR_INVALID_ARGUMENT]) (simp_all only: def option.case prod.case if_False if_True, simp)
    next
      case pages
      then show ?thesis
        by (intro refused [of SL_ERROR_INVALID_STATE]) (simp_all add: def)
    next
      case memory
      then show ?thesis
        by (intro refused [of SL_ERROR_OUT_OF_MEMORY]) (simp_all add: def)
    qed
  next
    case True
    then obtain bytes where bytes: "mp_bytes m = Some bytes"
      by blast
    obtain status permissions where perms: "page_permissions img ?n page_size (mp_size m) = Some (status, permissions)"
        "length permissions = ?n" "status = SL_OK \<longrightarrow> (\<forall>i < ?n. permissions ! i = page_bits img page_size i)"
      using page_permissions_cases by blast
    let ?status = "if status = SL_OK \<and> list_ex wx_conflict permissions then SL_ERROR_WX_CONFLICT else status"
    obtain status' pages1 where prot: "(if ?status = SL_OK then protect_runs mprotect_ok permissions 0 pages
        else (?status, pages)) = (status', pages1)"
      by fastforce
    have run: "?run = (if status' \<noteq> SL_OK
        then if \<not> mprotect_ok 0 ?n ?rw
             then Some (SL_ERROR_MEMORY_PROTECTION, Some (m\<lparr>mp_storage := SL_IMAGE_STORAGE_VIRTUAL_TAINTED\<rparr>), pages1)
             else Some (status', Some m, set_pages pages1 0 ?n ?rw)
        else Some (SL_OK, Some (m\<lparr>mp_protections_finalized := True\<rparr>), pages1))"
      using True assms(1,3) prot perms(1) bytes
      by (simp add: sl_loader_finalize_image_def Let_def del: if_split)
    have len: "length pages1 = length pages"
      using prot protect_runs_pages [of mprotect_ok permissions 0 pages] perms(2) assms(2)
      by (auto split: if_splits)
    show ?thesis
    proof (cases "status' = SL_OK")
      case True
      have ok: "status = SL_OK" "\<not> list_ex wx_conflict permissions"
          "protect_runs mprotect_ok permissions 0 pages = (SL_OK, pages1)"
        using prot True by (auto split: if_splits)
      have "pages1 ! i = permissions ! i" if "i < ?n" for i
        using protect_runs_pages [OF ok(3)] perms(2) assms(2) that by simp
      moreover have "permissions ! i AND PROT_WRITE = 0 \<or> permissions ! i AND PROT_EXEC = 0" if "i < ?n" for i
        using ok(2) perms(2) that by (auto simp: list_ex_length wx_conflict_def)
      ultimately show ?thesis
        using run True len perms(3) ok(1) assms(2) by simp
    next
      case False
      have "set_pages pages1 0 ?n ?rw = replicate (length pages) ?rw"
        using len assms(2) by (simp add: set_pages_def)
      then show ?thesis
        using run False len by auto
    qed
  qed
qed


text \<open>A mapping of two pages: the headers and one section that is read and executed.\<close>

definition code_image :: sl_pe_image where
  "code_image = (empty_image [])\<lparr>pe_image_size := 8192, pe_headers_size := 64,
     pe_sections := [\<lparr>sec_name = replicate 9 0, sec_virtual_size = 100, sec_virtual_address = 4096,
       sec_raw_size = 0, sec_raw_offset = 0, sec_characteristics = 0x60000020\<rparr>]\<rparr>"

definition code_mapping :: sl_mapped_image where
  "code_mapping = no_mapping\<lparr>mp_bytes := Some [], mp_size := 8192, mp_allocation_size := 8192,
     mp_storage := SL_IMAGE_STORAGE_VIRTUAL\<rparr>"

lemma code_sizes:
  "mp_size code_mapping = 8192" "mp_allocation_size code_mapping = 8192" "mp_bytes code_mapping = Some []"
  "mp_storage code_mapping = SL_IMAGE_STORAGE_VIRTUAL" "\<not> mp_protections_finalized code_mapping"
  "pe_image_size code_image = 8192"
  by (simp_all add: code_mapping_def no_mapping_def code_image_def)

lemma code_permissions:
  "page_permissions code_image 2 4096 8192 = Some (SL_OK, [PROT_READ, PROT_READ OR PROT_EXEC])"
  by code_simp

lemma code_finalized:
  "\<exists>m' pages'. sl_loader_finalize_image (\<lambda>a n p. True) 4096 (\<lambda>n. True) (Some code_image) (Some code_mapping)
     [3, 3] = Some (SL_OK, Some m', pages')"
proof -
  have "host_page_size 4096 = Inr 4096"
    by (simp add: host_page_size_def)
  moreover have "protect_runs (\<lambda>a n p. True) [PROT_READ, PROT_READ OR PROT_EXEC] 0 [3, 3] =
      (SL_OK, [PROT_READ, PROT_READ OR PROT_EXEC])"
    by code_simp
  ultimately show ?thesis
    using code_permissions
    by (simp add: sl_loader_finalize_image_def code_sizes wx_conflict_def PROT_READ_def
        PROT_WRITE_def PROT_EXEC_def)
qed

lemma code_bits: "page_bits code_image 4096 (Suc 0) AND PROT_EXEC \<noteq> 0"
  by (simp add: page_bits_def touches_def code_image_def section_length_def section_protection_def
      PROT_READ_def PROT_WRITE_def PROT_EXEC_def SL_SECTION_MEM_READ_def SL_SECTION_MEM_WRITE_def
      SL_SECTION_MEM_EXECUTE_def)

theorem finalize_write_xor_execute_witness:
  "\<exists>m' pages'. sl_loader_finalize_image (\<lambda>a n p. True) 4096 (\<lambda>n. True) (Some code_image) (Some code_mapping)
     [3, 3] = Some (SL_OK, Some m', pages') \<and> pages' ! 1 AND PROT_EXEC \<noteq> 0 \<and> pages' ! 1 AND PROT_WRITE = 0"
proof -
  have "host_page_size 4096 = Inr 4096"
    by (simp add: host_page_size_def)
  moreover have "length [3, 3 :: u8] = mp_allocation_size code_mapping div 4096"
    by (simp add: code_sizes)
  moreover obtain m' pages' where run: "sl_loader_finalize_image (\<lambda>a n p. True) 4096 (\<lambda>n. True)
      (Some code_image) (Some code_mapping) [3, 3] = Some (SL_OK, Some m', pages')"
    using code_finalized by blast
  ultimately have "\<forall>i < Suc (Suc 0). pages' ! i = page_bits code_image 4096 i \<and>
      (pages' ! i AND PROT_WRITE = 0 \<or> pages' ! i AND PROT_EXEC = 0)"
    using finalize_write_xor_execute [of 4096 4096 "[3, 3]" code_mapping "\<lambda>a n p. True" "\<lambda>n. True" code_image]
    by (auto simp: code_sizes)
  then show ?thesis
    using run code_bits by auto
qed

end
