(* ===== verification/Win32_Names.thy ===== *)
theory Win32_Names
  imports Status
begin

text \<open>
  \<open>src/win32.c\<close>: module names are compared without regard to ASCII case. A C string is the list of
  its bytes before the terminator; a pointer that may be null is an option. \<open>src/module.c\<close> has its
  own copies of the two helper functions.
\<close>

section \<open>Comparing names\<close>

definition ascii_fold :: "u8 \<Rightarrow> u8" where
  "ascii_fold character =
     (if character \<ge> 0x41 \<and> character \<le> 0x5a then character + (0x61 - 0x41) else character)"

text \<open>The loop ends at the first terminator or difference; then both strings must have ended.\<close>

fun ascii_equal_loop :: "bytes \<Rightarrow> bytes \<Rightarrow> bool" where
  "ascii_equal_loop (left # lefts) (right # rights) =
     (if ascii_fold left \<noteq> ascii_fold right then False else ascii_equal_loop lefts rights)"
| "ascii_equal_loop [] [] = True"
| "ascii_equal_loop _ _ = False"

definition ascii_equal_ignore_case :: "bytes option \<Rightarrow> bytes option \<Rightarrow> bool" where
  "ascii_equal_ignore_case left right =
     (case (left, right) of (Some left, Some right) \<Rightarrow> ascii_equal_loop left right | _ \<Rightarrow> False)"

text \<open>The comparison is equality of the folded names.\<close>

definition folded :: "bytes \<Rightarrow> bytes" where
  "folded = map ascii_fold"

lemma ascii_equal_loop_folded: "ascii_equal_loop a b \<longleftrightarrow> folded a = folded b"
  by (induction a b rule: ascii_equal_loop.induct) (auto simp: folded_def)

lemma ascii_equal_folded [simp]:
  "ascii_equal_ignore_case (Some a) (Some b) \<longleftrightarrow> folded a = folded b"
  by (simp add: ascii_equal_ignore_case_def ascii_equal_loop_folded)

section \<open>The bootstrap modules\<close>

definition bytes_of_string :: "string \<Rightarrow> bytes" where
  "bytes_of_string s = map (\<lambda>c. of_nat (of_char c)) s"

definition bootstrap_modules :: "bytes list" where
  "bootstrap_modules = map bytes_of_string
     [''advapi32.dll'', ''bcrypt.dll'', ''comdlg32.dll'', ''d3d11.dll'', ''dxgi.dll'', ''gdi32.dll'',
      ''kernel32.dll'', ''ntdll.dll'', ''ole32.dll'', ''shell32.dll'', ''user32.dll'', ''winmm.dll'',
      ''ws2_32.dll'', ''xinput1_3.dll'']"

definition sl_win32_is_bootstrap_module :: "bytes option \<Rightarrow> bool" where
  "sl_win32_is_bootstrap_module module_name =
     list_ex (\<lambda>m. ascii_equal_ignore_case module_name (Some m)) bootstrap_modules"

end
