(* ===== verification/Module_Registry.thy ===== *)
theory Module_Registry
  imports Win32_Names Loader_Imports PE_Exports
begin

text \<open>
  \<open>src/module.c\<close>: the registry of loaded modules. A pointer to a registered module is its index; the
  parsed images and mappings that modules point to are objects of a store, named by numbers, because
  the registry only borrows them and their owner goes on changing them. The arrays of the registry
  are lists as long as their \<open>count\<close>.
\<close>

section \<open>Data\<close>

definition SL_MODULE_REGISTRY_CAPACITY :: nat where "SL_MODULE_REGISTRY_CAPACITY = 128"
definition SL_MODULE_ALIAS_CAPACITY :: nat where "SL_MODULE_ALIAS_CAPACITY = 128"
definition SL_MODULE_NAME_CAPACITY :: nat where "SL_MODULE_NAME_CAPACITY = 128"
definition SL_FORWARDER_MODULE_CAPACITY :: nat where "SL_FORWARDER_MODULE_CAPACITY = 128"
definition SL_FORWARDER_DEPTH_LIMIT :: nat where "SL_FORWARDER_DEPTH_LIMIT = 16"

lemmas module_constants = SL_MODULE_REGISTRY_CAPACITY_def SL_MODULE_ALIAS_CAPACITY_def
  SL_MODULE_NAME_CAPACITY_def SL_FORWARDER_MODULE_CAPACITY_def SL_FORWARDER_DEPTH_LIMIT_def

datatype (plugins only: code size) sl_module_kind = SL_MODULE_PE | SL_MODULE_NATIVE

record sl_native_export =
  ne_name :: "bytes option"
  ne_forwarder :: "bytes option"
  ne_ordinal :: u32
  ne_has_ordinal :: bool
  ne_guest_address :: u64

record sl_loaded_module =
  md_name :: bytes
  md_kind :: sl_module_kind
  md_image :: "nat option"
  md_mapped :: "nat option"
  md_native_exports :: "sl_native_export list"

record sl_module_alias =
  al_contract_name :: bytes
  al_target_name :: bytes

record sl_module_registry =
  rg_modules :: "sl_loaded_module list"
  rg_aliases :: "sl_module_alias list"

text \<open>The objects behind the pointers \<open>image\<close> and \<open>mapped\<close>.\<close>

record module_objects =
  image_at :: "nat \<Rightarrow> sl_pe_image"
  mapped_at :: "nat \<Rightarrow> sl_mapped_image"

record sl_resolved_symbol =
  rv_module :: nat
  rv_export :: sl_pe_export
  rv_guest_address :: u64
  rv_forward_depth :: nat
  rv_is_native :: bool

record sl_module_symbol =
  sy_module_name :: "bytes option"
  sy_symbol_name :: "bytes option"
  sy_ordinal :: u32
  sy_by_ordinal :: bool

section \<open>Names\<close>

text \<open>The index of the terminator among the first 128 bytes, if there is one and it is not the first.\<close>

definition module_name_length :: "bytes option \<Rightarrow> nat option" where
  "module_name_length name = (case name of None \<Rightarrow> None
     | Some name \<Rightarrow>
         if length name < SL_MODULE_NAME_CAPACITY \<and> length name \<noteq> 0 then Some (length name) else None)"

text \<open>The loops over an array return the index of the first match.\<close>

fun first_index :: "('a \<Rightarrow> bool) \<Rightarrow> nat \<Rightarrow> 'a list \<Rightarrow> nat option" where
  "first_index p index [] = None"
| "first_index p index (x # xs) = (if p x then Some index else first_index p (index + 1) xs)"

definition find_alias :: "sl_module_registry option \<Rightarrow> bytes option \<Rightarrow> nat option" where
  "find_alias registry name = (case (registry, name) of
       (Some r, Some _) \<Rightarrow>
         first_index (\<lambda>a. ascii_equal_ignore_case (Some (al_contract_name a)) name) 0 (rg_aliases r)
     | _ \<Rightarrow> None)"

definition sl_module_registry_find :: "sl_module_registry option \<Rightarrow> bytes option \<Rightarrow> nat option" where
  "sl_module_registry_find registry name = (case (registry, name) of
       (Some r, Some _) \<Rightarrow>
         first_index (\<lambda>m. ascii_equal_ignore_case (Some (md_name m)) name) 0 (rg_modules r)
     | _ \<Rightarrow> None)"

section \<open>Registration\<close>

definition sl_module_registry_init :: "sl_module_registry option \<Rightarrow> sl_module_registry option" where
  "sl_module_registry_init registry =
     map_option (\<lambda>_. \<lparr>rg_modules = [], rg_aliases = []\<rparr>) registry"

definition sl_module_registry_add ::
    "module_objects \<Rightarrow> sl_module_registry option \<Rightarrow> bytes option \<Rightarrow> nat option \<Rightarrow> nat option \<Rightarrow>
     sl_status \<times> sl_module_registry option" where
  "sl_module_registry_add objects registry name img mapped =
     (case (registry, img, mapped) of
        (Some r, Some i, Some m) \<Rightarrow>
          if mp_bytes (mapped_at objects m) = None \<or>
             mp_size (mapped_at objects m) \<noteq> unat (pe_image_size (image_at objects i)) \<or>
             module_name_length name = None
          then (SL_ERROR_INVALID_ARGUMENT, registry)
          else if sl_module_registry_find registry name \<noteq> None \<or> find_alias registry name \<noteq> None
          then (SL_ERROR_DUPLICATE_MODULE, registry)
          else if length (rg_modules r) \<ge> SL_MODULE_REGISTRY_CAPACITY
          then (SL_ERROR_MODULE_REGISTRY_FULL, registry)
          else (SL_OK, Some (r\<lparr>rg_modules := rg_modules r @
                 [\<lparr>md_name = the name, md_kind = SL_MODULE_PE, md_image = img, md_mapped = mapped,
                   md_native_exports = []\<rparr>]\<rparr>))
      | _ \<Rightarrow> (SL_ERROR_INVALID_ARGUMENT, registry))"

text \<open>A candidate of a native export table and the conflicts with an earlier entry.\<close>

definition native_has_name :: "sl_native_export \<Rightarrow> bool" where
  "native_has_name candidate \<longleftrightarrow> (case ne_name candidate of None \<Rightarrow> False | Some n \<Rightarrow> n \<noteq> [])"

definition native_candidate_bad :: "sl_native_export \<Rightarrow> bool" where
  "native_candidate_bad candidate \<longleftrightarrow>
     (let has_target = ne_guest_address candidate \<noteq> 0 \<or>
            (case ne_forwarder candidate of None \<Rightarrow> False | Some f \<Rightarrow> f \<noteq> [])
      in \<not> native_has_name candidate \<and> \<not> ne_has_ordinal candidate \<or> \<not> has_target \<or>
         ne_guest_address candidate \<noteq> 0 \<and> ne_forwarder candidate \<noteq> None)"

definition native_conflict :: "sl_native_export \<Rightarrow> sl_native_export \<Rightarrow> bool" where
  "native_conflict candidate existing \<longleftrightarrow>
     native_has_name candidate \<and> ne_name existing \<noteq> None \<and> ne_name candidate = ne_name existing \<or>
     ne_has_ordinal candidate \<and> ne_has_ordinal existing \<and> ne_ordinal candidate = ne_ordinal existing"

fun native_exports_valid :: "sl_native_export list \<Rightarrow> sl_native_export list \<Rightarrow> bool" where
  "native_exports_valid previous [] = True"
| "native_exports_valid previous (candidate # rest) =
     (\<not> native_candidate_bad candidate \<and> \<not> list_ex (native_conflict candidate) previous \<and>
      native_exports_valid (previous @ [candidate]) rest)"

definition sl_module_registry_add_native ::
    "sl_module_registry option \<Rightarrow> bytes option \<Rightarrow> sl_native_export list option \<Rightarrow>
     sl_status \<times> sl_module_registry option" where
  "sl_module_registry_add_native registry name exports =
     (case (registry, exports) of
        (Some r, Some exports) \<Rightarrow>
          if length exports = 0 \<or> module_name_length name = None
          then (SL_ERROR_INVALID_ARGUMENT, registry)
          else if sl_module_registry_find registry name \<noteq> None \<or> find_alias registry name \<noteq> None
          then (SL_ERROR_DUPLICATE_MODULE, registry)
          else if length (rg_modules r) \<ge> SL_MODULE_REGISTRY_CAPACITY
          then (SL_ERROR_MODULE_REGISTRY_FULL, registry)
          else if \<not> native_exports_valid [] exports then (SL_ERROR_INVALID_ARGUMENT, registry)
          else (SL_OK, Some (r\<lparr>rg_modules := rg_modules r @
                 [\<lparr>md_name = the name, md_kind = SL_MODULE_NATIVE, md_image = None, md_mapped = None,
                   md_native_exports = exports\<rparr>]\<rparr>))
      | _ \<Rightarrow> (SL_ERROR_INVALID_ARGUMENT, registry))"

text \<open>The target's registered name is copied with the length of the name it was asked for: the two
  are equal up to case, so they have the same length.\<close>

definition sl_module_registry_add_alias ::
    "sl_module_registry option \<Rightarrow> bytes option \<Rightarrow> bytes option \<Rightarrow>
     sl_status \<times> sl_module_registry option" where
  "sl_module_registry_add_alias registry contract_name target_name =
     (case registry of None \<Rightarrow> (SL_ERROR_INVALID_ARGUMENT, registry)
      | Some r \<Rightarrow>
          if module_name_length contract_name = None \<or> module_name_length target_name = None
          then (SL_ERROR_INVALID_ARGUMENT, registry)
          else if sl_module_registry_find registry contract_name \<noteq> None \<or>
                  find_alias registry contract_name \<noteq> None
          then (SL_ERROR_DUPLICATE_MODULE, registry)
          else (case sl_module_registry_find registry target_name of
                  None \<Rightarrow> (SL_ERROR_MODULE_NOT_FOUND, registry)
                | Some target \<Rightarrow>
                    if length (rg_aliases r) \<ge> SL_MODULE_ALIAS_CAPACITY
                    then (SL_ERROR_MODULE_REGISTRY_FULL, registry)
                    else (SL_OK, Some (r\<lparr>rg_aliases := rg_aliases r @
                           [\<lparr>al_contract_name = the contract_name,
                             al_target_name = take (the (module_name_length target_name))
                               (md_name (rg_modules r ! target))\<rparr>]\<rparr>))))"

section \<open>Resolution of modules\<close>

definition sl_module_registry_resolve_module ::
    "sl_module_registry option \<Rightarrow> bytes option \<Rightarrow> nat result" where
  "sl_module_registry_resolve_module registry name =
     (case registry of None \<Rightarrow> Inl SL_ERROR_INVALID_ARGUMENT
      | Some r \<Rightarrow>
          if module_name_length name = None then Inl SL_ERROR_INVALID_ARGUMENT
          else (case sl_module_registry_find registry name of
                  Some module \<Rightarrow> Inr module
                | None \<Rightarrow>
                    (case find_alias registry name of
                       None \<Rightarrow> Inl SL_ERROR_MODULE_NOT_FOUND
                     | Some alias \<Rightarrow>
                         or_fail SL_ERROR_MODULE_NOT_FOUND
                           (sl_module_registry_find registry
                              (Some (al_target_name (rg_aliases r ! alias)))))))"

definition sl_module_registry_resolve_handle ::
    "module_objects \<Rightarrow> sl_module_registry option \<Rightarrow> u64 \<Rightarrow> nat result" where
  "sl_module_registry_resolve_handle objects registry handle =
     (case registry of None \<Rightarrow> Inl SL_ERROR_INVALID_ARGUMENT
      | Some r \<Rightarrow>
          if handle = 0 then Inl SL_ERROR_INVALID_ARGUMENT
          else or_fail SL_ERROR_MODULE_NOT_FOUND
                 (first_index (\<lambda>m. md_kind m = SL_MODULE_PE \<and>
                    (case md_mapped m of None \<Rightarrow> False
                     | Some p \<Rightarrow> mp_load_base (mapped_at objects p) = handle)) 0 (rg_modules r)))"

definition address_in_module :: "module_objects \<Rightarrow> u64 \<Rightarrow> sl_loaded_module \<Rightarrow> bool" where
  "address_in_module objects address m \<longleftrightarrow> md_kind m = SL_MODULE_PE \<and>
     (case md_mapped m of None \<Rightarrow> False
      | Some p \<Rightarrow>
          let base = mp_load_base (mapped_at objects p)
          in base \<noteq> 0 \<and> address \<ge> base \<and> unat (address - base) < mp_size (mapped_at objects p))"

definition sl_module_registry_resolve_address ::
    "module_objects \<Rightarrow> sl_module_registry option \<Rightarrow> u64 \<Rightarrow> nat result" where
  "sl_module_registry_resolve_address objects registry address =
     (case registry of None \<Rightarrow> Inl SL_ERROR_INVALID_ARGUMENT
      | Some r \<Rightarrow>
          if address = 0 then Inl SL_ERROR_INVALID_ARGUMENT
          else or_fail SL_ERROR_MODULE_NOT_FOUND
                 (first_index (address_in_module objects address) 0 (rg_modules r)))"

section \<open>Forwarders\<close>

text \<open>\<open>strrchr\<close> and \<open>strtoul\<close> of the C library, the latter for base 10 in the C locale: it skips white
  space, takes an optional sign and digits, returns the value, what follows, and whether the value
  did not fit; without any digit nothing is consumed.\<close>

definition strrchr :: "bytes \<Rightarrow> u8 \<Rightarrow> nat option" where
  "strrchr s c = (if c \<in> set s then Some (length s - 1 - length (takeWhile (\<lambda>x. x \<noteq> c) (rev s))) else None)"

definition isspace :: "u8 \<Rightarrow> bool" where
  "isspace c \<longleftrightarrow> c = 0x20 \<or> (0x09 \<le> c \<and> c \<le> 0x0d)"

definition isdigit :: "u8 \<Rightarrow> bool" where
  "isdigit c \<longleftrightarrow> 0x30 \<le> c \<and> c \<le> 0x39"

definition digits_value :: "bytes \<Rightarrow> nat" where
  "digits_value ds = foldl (\<lambda>n d. 10 * n + (unat d - 0x30)) 0 ds"

definition strtoul :: "bytes \<Rightarrow> u64 \<times> bytes \<times> bool" where
  "strtoul s =
     (let body = dropWhile isspace s;
          negative = body \<noteq> [] \<and> hd body = 0x2d;
          number = if body \<noteq> [] \<and> (hd body = 0x2d \<or> hd body = 0x2b) then tl body else body;
          digits = takeWhile isdigit number;
          value = digits_value digits
      in if digits = [] then (0, s, False)
         else if value > 2 ^ 64 - 1 then (0xffffffffffffffff, dropWhile isdigit number, True)
         else (if negative then - of_nat value else of_nat value, dropWhile isdigit number, False))"

text \<open>The result: the module name with its extension, the symbol, the ordinal and whether the symbol
  is an ordinal.\<close>

definition parse_forwarder :: "bytes \<Rightarrow> nat \<Rightarrow> (bytes \<times> bytes \<times> u32 \<times> bool) result" where
  "parse_forwarder forwarder module_capacity =
     (case strrchr forwarder 0x2e of
        None \<Rightarrow> Inl SL_ERROR_INVALID_FORWARDER
      | Some module_length \<Rightarrow>
          if module_length = 0 \<or> module_length + 1 = length forwarder then Inl SL_ERROR_INVALID_FORWARDER
          else let has_dll_suffix = module_length \<ge> 4 \<and>
                     ascii_fold (forwarder ! (module_length - 4)) = 0x2e \<and>
                     ascii_fold (forwarder ! (module_length - 3)) = 0x64 \<and>
                     ascii_fold (forwarder ! (module_length - 2)) = 0x6c \<and>
                     ascii_fold (forwarder ! (module_length - 1)) = 0x6c;
                   required = module_length + (if has_dll_suffix then 1 else 5)
          in if required > module_capacity then Inl SL_ERROR_INVALID_FORWARDER
             else let module_name = take module_length forwarder @
                        (if has_dll_suffix then [] else [0x2e, 0x64, 0x6c, 0x6c]);
                      symbol = drop (module_length + 1) forwarder;
                      by_ordinal = symbol ! 0 = 0x23
             in if by_ordinal
                then (case strtoul (tl symbol) of (value, rest, range_error) \<Rightarrow>
                        if tl symbol = [] \<or> rest \<noteq> [] \<or> range_error \<or> value > 0xffffffff
                        then Inl SL_ERROR_INVALID_FORWARDER
                        else Inr (module_name, symbol, ucast value, True))
                else Inr (module_name, symbol, 0, False))"

section \<open>Resolution of symbols\<close>

definition native_match :: "bytes option \<Rightarrow> u32 \<Rightarrow> bool \<Rightarrow> sl_native_export \<Rightarrow> bool" where
  "native_match symbol_name ordinal by_ordinal candidate \<longleftrightarrow>
     by_ordinal \<and> ne_has_ordinal candidate \<and> ne_ordinal candidate = ordinal \<or>
     \<not> by_ordinal \<and> ne_name candidate \<noteq> None \<and> ne_name candidate = symbol_name"

function resolve_symbol_recursive ::
    "module_objects \<Rightarrow> sl_module_registry \<Rightarrow> bytes option \<Rightarrow> bytes option \<Rightarrow> u32 \<Rightarrow> bool \<Rightarrow> nat \<Rightarrow>
     sl_resolved_symbol result" where
  "resolve_symbol_recursive objects registry module_name symbol_name ordinal by_ordinal depth =
     (if depth > SL_FORWARDER_DEPTH_LIMIT then Inl SL_ERROR_FORWARDER_LIMIT
      else case sl_module_registry_resolve_module (Some registry) module_name of
        Inl status \<Rightarrow> Inl status
      | Inr index \<Rightarrow>
        let module = rg_modules registry ! index
        in if md_kind module = SL_MODULE_NATIVE
           then (case find (native_match symbol_name ordinal by_ordinal) (md_native_exports module) of
                   None \<Rightarrow> Inl SL_ERROR_EXPORT_NOT_FOUND
                 | Some native_export \<Rightarrow>
                     (case ne_forwarder native_export of
                        Some forwarder \<Rightarrow>
                          (case parse_forwarder forwarder SL_FORWARDER_MODULE_CAPACITY of
                             Inl status \<Rightarrow> Inl status
                           | Inr (m, s, n, b) \<Rightarrow>
                               resolve_symbol_recursive objects registry (Some m) (Some s) n b (depth + 1))
                      | None \<Rightarrow>
                          Inr \<lparr>rv_module = index,
                            rv_export = \<lparr>exp_name = ne_name native_export, exp_forwarder = None,
                              exp_ordinal = ne_ordinal native_export, exp_rva = 0, exp_is_forwarder = False\<rparr>,
                            rv_guest_address = ne_guest_address native_export,
                            rv_forward_depth = depth, rv_is_native = True\<rparr>))
           else
             (case (if by_ordinal
                    then sl_pe_find_export_by_ordinal (map_option (image_at objects) (md_image module)) ordinal
                    else sl_pe_find_export_by_name (map_option (image_at objects) (md_image module)) symbol_name) of
                Inl status \<Rightarrow> Inl status
              | Inr export \<Rightarrow>
                  if exp_is_forwarder export
                  then (case parse_forwarder (the (exp_forwarder export)) SL_FORWARDER_MODULE_CAPACITY of
                          Inl status \<Rightarrow> Inl status
                        | Inr (m, s, n, b) \<Rightarrow>
                            resolve_symbol_recursive objects registry (Some m) (Some s) n b (depth + 1))
                  else let load_base = mp_load_base (mapped_at objects (the (md_mapped module)))
                  in if load_base > 0xffffffffffffffff - ucast (exp_rva export)
                     then Inl SL_ERROR_INVALID_IMAGE
                     else Inr \<lparr>rv_module = index, rv_export = export,
                            rv_guest_address = load_base + ucast (exp_rva export),
                            rv_forward_depth = depth, rv_is_native = False\<rparr>))"
  by pat_completeness auto
termination
  by (relation "measure (\<lambda>(objects, registry, m, s, n, b, depth). SL_FORWARDER_DEPTH_LIMIT + 1 - depth)") auto

declare resolve_symbol_recursive.simps [simp del]

definition sl_module_registry_resolve_symbol ::
    "module_objects \<Rightarrow> sl_module_registry option \<Rightarrow> sl_module_symbol option \<Rightarrow> sl_resolved_symbol result" where
  "sl_module_registry_resolve_symbol objects registry symbol =
     (case (registry, symbol) of
        (Some r, Some symbol) \<Rightarrow>
          if sy_module_name symbol = None \<or> \<not> sy_by_ordinal symbol \<and> sy_symbol_name symbol = None
          then Inl SL_ERROR_INVALID_ARGUMENT
          else resolve_symbol_recursive objects r (sy_module_name symbol) (sy_symbol_name symbol)
                 (sy_ordinal symbol) (sy_by_ordinal symbol) 0
      | _ \<Rightarrow> Inl SL_ERROR_INVALID_ARGUMENT)"

definition sl_module_registry_resolve ::
    "module_objects \<Rightarrow> sl_module_registry option \<Rightarrow> sl_pe_import_symbol option \<Rightarrow> sl_resolved_symbol result" where
  "sl_module_registry_resolve objects registry import_symbol =
     (case (registry, import_symbol) of
        (Some r, Some symbol) \<Rightarrow>
          if \<not> imp_by_ordinal symbol \<and> imp_symbol_name symbol = None then Inl SL_ERROR_INVALID_ARGUMENT
          else sl_module_registry_resolve_symbol objects registry
                 (Some \<lparr>sy_module_name = Some (imp_module_name symbol),
                    sy_symbol_name = imp_symbol_name symbol, sy_ordinal = ucast (imp_ordinal symbol),
                    sy_by_ordinal = imp_by_ordinal symbol\<rparr>)
      | _ \<Rightarrow> Inl SL_ERROR_INVALID_ARGUMENT)"

text \<open>The callback for \<open>sl_loader_bind_imports\<close>; its context is the registry, which it does not
  change.\<close>

definition sl_module_registry_import_resolver ::
    "module_objects \<Rightarrow> sl_module_registry import_resolver" where
  "sl_module_registry_import_resolver objects registry symbol =
     ((case sl_module_registry_resolve objects (Some registry) (Some symbol) of
         Inl status \<Rightarrow> (status, 0)
       | Inr resolved \<Rightarrow> (SL_OK, rv_guest_address resolved)), registry)"

end
