(* ===== verification/Module_Names.thy ===== *)
theory Module_Names
  imports Module_Registry
begin

text \<open>
  The invariant of the registry and its abstraction: a map from names, folded to lower case, to
  modules. Registering updates the map at one new name; looking a module up is looking it up there.
\<close>

section \<open>First matches\<close>

lemma first_index_shift: "first_index p (Suc n) xs = map_option Suc (first_index p n xs)"
  by (induction xs arbitrary: n) auto

lemma first_index_Some:
  "first_index p 0 xs = Some j \<longleftrightarrow> j < length xs \<and> p (xs ! j) \<and> (\<forall>k < j. \<not> p (xs ! k))"
proof (induction xs arbitrary: j)
  case (Cons x xs)
  show ?case
    by (cases j) (auto simp: first_index_shift Cons less_Suc_eq_0_disj)
qed simp

lemma first_index_None: "first_index p i xs = None \<longleftrightarrow> (\<forall>x\<in>set xs. \<not> p x)"
  by (induction xs arbitrary: i) auto

lemma first_index_append:
  "first_index p 0 (xs @ ys) = (case first_index p 0 xs of Some j \<Rightarrow> Some j
     | None \<Rightarrow> map_option (\<lambda>j. j + length xs) (first_index p 0 ys))"
  by (induction xs) (auto simp: first_index_shift option.map_comp comp_def option.map_ident split: option.split)

text \<open>When the matches are unique the index is the index of the match.\<close>

lemma first_index_unique:
  assumes "distinct (map f xs)" "j < length xs"
  shows "first_index (\<lambda>x. f x = f (xs ! j)) 0 xs = Some j"
  using assms by (auto simp: first_index_Some nth_eq_iff_index_eq distinct_conv_nth)

section \<open>Well-formed registries\<close>

definition name_ok :: "bytes \<Rightarrow> bool" where
  "name_ok n \<longleftrightarrow> n \<noteq> [] \<and> length n < SL_MODULE_NAME_CAPACITY"

lemma module_name_length_Some [simp]:
  "module_name_length (Some n) = None \<longleftrightarrow> \<not> name_ok n" "module_name_length None = None"
  "module_name_length (Some n) = Some k \<longleftrightarrow> name_ok n \<and> k = length n"
  by (auto simp: module_name_length_def name_ok_def)

lemma module_name_length_ok [simp]: "name_ok n \<Longrightarrow> module_name_length (Some n) = Some (length n)"
  by simp

definition module_ok :: "sl_loaded_module \<Rightarrow> bool" where
  "module_ok m \<longleftrightarrow> name_ok (md_name m) \<and>
     (case md_kind m of
        SL_MODULE_PE \<Rightarrow> md_image m \<noteq> None \<and> md_mapped m \<noteq> None
      | SL_MODULE_NATIVE \<Rightarrow> md_native_exports m \<noteq> [] \<and> native_exports_valid [] (md_native_exports m))"

definition registry_wf :: "sl_module_registry \<Rightarrow> bool" where
  "registry_wf r \<longleftrightarrow>
     length (rg_modules r) \<le> SL_MODULE_REGISTRY_CAPACITY \<and>
     length (rg_aliases r) \<le> SL_MODULE_ALIAS_CAPACITY \<and>
     list_all module_ok (rg_modules r) \<and>
     list_all (\<lambda>a. name_ok (al_contract_name a) \<and> al_target_name a \<in> md_name ` set (rg_modules r)) (rg_aliases r) \<and>
     distinct (map (folded \<circ> md_name) (rg_modules r) @ map (folded \<circ> al_contract_name) (rg_aliases r))"

lemma find_None [simp]:
  "sl_module_registry_find (Some r) (Some n) = None \<longleftrightarrow> (\<forall>m\<in>set (rg_modules r). folded (md_name m) \<noteq> folded n)"
  by (auto simp: sl_module_registry_find_def first_index_None)

lemma find_alias_None [simp]:
  "find_alias (Some r) (Some n) = None \<longleftrightarrow> (\<forall>a\<in>set (rg_aliases r). folded (al_contract_name a) \<noteq> folded n)"
  by (auto simp: find_alias_def first_index_None)

text \<open>What a registration leaves: the registry as it was, or one more module with a new name.\<close>

definition add_module :: "sl_loaded_module \<Rightarrow> sl_module_registry \<Rightarrow> sl_module_registry" where
  "add_module m r = r\<lparr>rg_modules := rg_modules r @ [m]\<rparr>"

definition fresh_name :: "bytes \<Rightarrow> sl_module_registry \<Rightarrow> bool" where
  "fresh_name n r \<longleftrightarrow> name_ok n \<and> (\<forall>m\<in>set (rg_modules r). folded (md_name m) \<noteq> folded n) \<and>
     (\<forall>a\<in>set (rg_aliases r). folded (al_contract_name a) \<noteq> folded n)"

lemma add_cases:
  assumes "sl_module_registry_add objects (Some r) name img mapped = (status, r')"
  obtains (refused) "status \<noteq> SL_OK" "r' = Some r"
  | (added) n i p where "status = SL_OK" "name = Some n" "fresh_name n r" "img = Some i" "mapped = Some p"
      "length (rg_modules r) < SL_MODULE_REGISTRY_CAPACITY"
      "mp_size (mapped_at objects p) = unat (pe_image_size (image_at objects i))"
      "r' = Some (add_module \<lparr>md_name = n, md_kind = SL_MODULE_PE, md_image = Some i, md_mapped = Some p,
         md_native_exports = []\<rparr> r)"
proof (cases "status = SL_OK")
  case True
  then obtain i p n where "img = Some i" "mapped = Some p" "name = Some n"
    using assms by (cases name) (auto simp: sl_module_registry_add_def split: option.splits if_splits)
  then show thesis
    using assms True
    by (intro added [of n i p]) (auto simp: sl_module_registry_add_def fresh_name_def add_module_def split: if_splits)
next
  case False
  then show thesis
    using assms refused by (auto simp: sl_module_registry_add_def split: option.splits if_splits)
qed

lemma add_native_cases:
  assumes "sl_module_registry_add_native (Some r) name exports = (status, r')"
  obtains (refused) "status \<noteq> SL_OK" "r' = Some r"
  | (added) n xs where "status = SL_OK" "name = Some n" "fresh_name n r" "exports = Some xs" "xs \<noteq> []"
      "native_exports_valid [] xs" "length (rg_modules r) < SL_MODULE_REGISTRY_CAPACITY"
      "r' = Some (add_module \<lparr>md_name = n, md_kind = SL_MODULE_NATIVE, md_image = None, md_mapped = None,
         md_native_exports = xs\<rparr> r)"
proof (cases "status = SL_OK")
  case True
  then obtain xs n where "exports = Some xs" "name = Some n"
    using assms by (cases name) (auto simp: sl_module_registry_add_native_def split: option.splits if_splits)
  then show thesis
    using assms True
    by (intro added [of n xs]) (auto simp: sl_module_registry_add_native_def fresh_name_def add_module_def split: if_splits)
next
  case False
  then show thesis
    using assms refused by (auto simp: sl_module_registry_add_native_def split: option.splits if_splits)
qed

lemma add_alias_cases:
  assumes "sl_module_registry_add_alias (Some r) contract target = (status, r')"
  obtains (refused) "status \<noteq> SL_OK" "r' = Some r"
  | (added) c t j where "status = SL_OK" "contract = Some c" "target = Some t" "fresh_name c r"
      "j < length (rg_modules r)" "folded (md_name (rg_modules r ! j)) = folded t"
      "sl_module_registry_find (Some r) target = Some j"
      "length (rg_aliases r) < SL_MODULE_ALIAS_CAPACITY"
      "r' = Some (r\<lparr>rg_aliases := rg_aliases r @
         [\<lparr>al_contract_name = c, al_target_name = md_name (rg_modules r ! j)\<rparr>]\<rparr>)"
proof (cases "status = SL_OK")
  case True
  then obtain c t j where n: "contract = Some c" "target = Some t"
    and j: "sl_module_registry_find (Some r) target = Some j"
    using assms by (cases contract; cases target) (auto simp: sl_module_registry_add_alias_def split: option.splits if_splits)
  then have m: "j < length (rg_modules r)" "folded (md_name (rg_modules r ! j)) = folded t"
    by (auto simp: sl_module_registry_find_def first_index_Some)
  have "length (md_name (rg_modules r ! j)) = length t"
    using m(2) by (metis folded_def length_map)
  then show thesis
    using assms True n j m
    by (intro added [of c t j]) (auto simp: sl_module_registry_add_alias_def fresh_name_def split: if_splits)
next
  case False
  then show thesis
    using assms refused by (auto simp: sl_module_registry_add_alias_def split: option.splits if_splits)
qed


lemma add_module_wf:
  assumes "registry_wf r" "module_ok m" "fresh_name (md_name m) r"
    and "length (rg_modules r) < SL_MODULE_REGISTRY_CAPACITY"
  shows "registry_wf (add_module m r)"
  using assms by (auto simp: registry_wf_def add_module_def fresh_name_def list_all_iff)

lemma add_alias_wf:
  assumes "registry_wf r" "fresh_name c r" "j < length (rg_modules r)"
    and "length (rg_aliases r) < SL_MODULE_ALIAS_CAPACITY"
  shows "registry_wf (r\<lparr>rg_aliases := rg_aliases r @
    [\<lparr>al_contract_name = c, al_target_name = md_name (rg_modules r ! j)\<rparr>]\<rparr>)"
  using assms by (auto simp: registry_wf_def fresh_name_def list_all_iff)

text \<open>Registries that the operations can build; whatever a call returns, the registry it leaves is
  the next one.\<close>

inductive built :: "sl_module_registry \<Rightarrow> bool" where
  init: "sl_module_registry_init (Some r) = Some r' \<Longrightarrow> built r'"
| add: "built r \<Longrightarrow> sl_module_registry_add objects (Some r) name img mapped = (status, Some r') \<Longrightarrow> built r'"
| add_native: "built r \<Longrightarrow> sl_module_registry_add_native (Some r) name exports = (status, Some r') \<Longrightarrow> built r'"
| add_alias: "built r \<Longrightarrow> sl_module_registry_add_alias (Some r) contract target = (status, Some r') \<Longrightarrow> built r'"

lemma built_wf: "built r \<Longrightarrow> registry_wf r"
proof (induction rule: built.induct)
  case (init r r')
  then show ?case
    by (auto simp: sl_module_registry_init_def registry_wf_def)
next
  case (add r objects name img mapped status r')
  from add(2) show ?case
    by (rule add_cases)
      (use add.IH in \<open>auto intro!: add_module_wf simp: module_ok_def fresh_name_def\<close>)
next
  case (add_native r name exports status r')
  from add_native(2) show ?case
    by (rule add_native_cases)
      (use add_native.IH in \<open>auto intro!: add_module_wf simp: module_ok_def fresh_name_def\<close>)
next
  case (add_alias r contract target status r')
  from add_alias(2) show ?case
    by (rule add_alias_cases) (use add_alias.IH in \<open>auto intro!: add_alias_wf\<close>)
qed

section \<open>The registry as a map of names\<close>

text \<open>The module that a folded name stands for, directly or through one alias.\<close>

definition module_names :: "sl_module_registry \<Rightarrow> bytes \<Rightarrow> nat option" where
  "module_names r k = first_index (\<lambda>m. folded (md_name m) = k) 0 (rg_modules r)"

definition registry_names :: "sl_module_registry \<Rightarrow> bytes \<Rightarrow> nat option" where
  "registry_names r k = (case module_names r k of Some j \<Rightarrow> Some j
     | None \<Rightarrow>
         (case first_index (\<lambda>a. folded (al_contract_name a) = k) 0 (rg_aliases r) of None \<Rightarrow> None
          | Some i \<Rightarrow> module_names r (folded (al_target_name (rg_aliases r ! i)))))"

lemma find_module_names [simp]:
  "sl_module_registry_find (Some r) (Some n) = module_names r (folded n)"
  by (simp add: sl_module_registry_find_def module_names_def)

lemma resolve_module_names:
  "sl_module_registry_resolve_module (Some r) (Some n) =
     (if name_ok n then or_fail SL_ERROR_MODULE_NOT_FOUND (registry_names r (folded n))
      else Inl SL_ERROR_INVALID_ARGUMENT)"
  by (auto simp: sl_module_registry_resolve_module_def registry_names_def find_alias_def or_fail_def
      split: option.split)

lemma module_names_add:
  "module_names (add_module m r) k =
     (case module_names r k of Some j \<Rightarrow> Some j
      | None \<Rightarrow> if folded (md_name m) = k then Some (length (rg_modules r)) else None)"
  by (simp add: module_names_def add_module_def first_index_append split: option.split)

lemma module_names_registered:
  "n \<in> md_name ` set (rg_modules r) \<Longrightarrow> module_names r (folded n) \<noteq> None"
  by (auto simp: module_names_def first_index_None)

lemma names_add_module:
  assumes "registry_wf r" "fresh_name (md_name m) r"
  shows "registry_names (add_module m r) = (registry_names r)(folded (md_name m) \<mapsto> length (rg_modules r))"
proof (rule ext)
  fix k
  have fresh: "module_names r (folded (md_name m)) = None"
    "first_index (\<lambda>a. folded (al_contract_name a) = folded (md_name m)) 0 (rg_aliases r) = None"
    using assms(2) by (auto simp: fresh_name_def module_names_def first_index_None)
  have target: "module_names (add_module m r) (folded (al_target_name (rg_aliases r ! i))) =
      module_names r (folded (al_target_name (rg_aliases r ! i)))"
    if "first_index (\<lambda>a. folded (al_contract_name a) = k) 0 (rg_aliases r) = Some i" for i
  proof -
    have "rg_aliases r ! i \<in> set (rg_aliases r)"
      using that by (simp add: first_index_Some)
    then have "module_names r (folded (al_target_name (rg_aliases r ! i))) \<noteq> None"
      using assms(1) module_names_registered by (auto simp: registry_wf_def list_all_iff)
    then show ?thesis
      by (auto simp: module_names_add)
  qed
  have aliases: "rg_aliases (add_module m r) = rg_aliases r"
    by (simp add: add_module_def)
  show "registry_names (add_module m r) k = ((registry_names r)(folded (md_name m) \<mapsto> length (rg_modules r))) k"
    using fresh target by (auto simp: registry_names_def aliases module_names_add split: option.split)
qed

lemma names_add_alias:
  assumes "fresh_name c r" "j < length (rg_modules r)" "registry_wf r"
  shows "registry_names (r\<lparr>rg_aliases := rg_aliases r @
      [\<lparr>al_contract_name = c, al_target_name = md_name (rg_modules r ! j)\<rparr>]\<rparr>) =
    (registry_names r)(folded c \<mapsto> j)"
proof (rule ext)
  fix k
  let ?r = "r\<lparr>rg_aliases := rg_aliases r @
      [\<lparr>al_contract_name = c, al_target_name = md_name (rg_modules r ! j)\<rparr>]\<rparr>"
  have same: "module_names ?r = module_names r"
    by (intro ext) (simp add: module_names_def)
  have fresh: "module_names r (folded c) = None"
    "first_index (\<lambda>a. folded (al_contract_name a) = folded c) 0 (rg_aliases r) = None"
    using assms(1) by (auto simp: fresh_name_def module_names_def first_index_None)
  have "distinct (map (folded \<circ> md_name) (rg_modules r))"
    using assms(3) by (simp add: registry_wf_def)
  then have j: "module_names r (folded (md_name (rg_modules r ! j))) = Some j"
    using first_index_unique [of "folded \<circ> md_name" "rg_modules r" j] assms(2) by (simp add: module_names_def)
  have bound: "i < length (rg_aliases r)"
    if "first_index (\<lambda>a. folded (al_contract_name a) = k) 0 (rg_aliases r) = Some i" for i
    using that by (simp add: first_index_Some)
  show "registry_names ?r k = ((registry_names r)(folded c \<mapsto> j)) k"
    using fresh j
    by (auto simp: registry_names_def same first_index_append nth_append dest: bound split: option.split)
qed

end
