(* ===== verification/Module_Lookup.thy ===== *)
theory Module_Lookup
  imports Module_Names
begin

text \<open>
  The recursive symbol lookup as the iteration of one step: a lookup answers exactly when a chain of
  at most 16 forwarders ends in an answer.
\<close>

section \<open>Following forwarders\<close>

type_synonym symbol_query = "bytes option \<times> bytes option \<times> u32 \<times> bool"

text \<open>One step of a lookup: where it is forwarded to, or the answer.\<close>

definition forward_query :: "bytes \<Rightarrow> symbol_query result" where
  "forward_query f = and_then (parse_forwarder f SL_FORWARDER_MODULE_CAPACITY)
     (\<lambda>(m, s, n, b). Inr (Some m, Some s, n, b))"

definition native_step :: "nat \<Rightarrow> sl_native_export \<Rightarrow> (symbol_query + (nat \<Rightarrow> sl_resolved_symbol)) result" where
  "native_step index e = (case ne_forwarder e of
       Some f \<Rightarrow> and_then (forward_query f) (\<lambda>q. Inr (Inl q))
     | None \<Rightarrow> Inr (Inr (\<lambda>depth. \<lparr>rv_module = index,
         rv_export = \<lparr>exp_name = ne_name e, exp_forwarder = None, exp_ordinal = ne_ordinal e, exp_rva = 0,
           exp_is_forwarder = False\<rparr>,
         rv_guest_address = ne_guest_address e, rv_forward_depth = depth, rv_is_native = True\<rparr>)))"

definition image_step :: "u64 \<Rightarrow> nat \<Rightarrow> sl_pe_export \<Rightarrow> (symbol_query + (nat \<Rightarrow> sl_resolved_symbol)) result" where
  "image_step load_base index e =
     (if exp_is_forwarder e then and_then (forward_query (the (exp_forwarder e))) (\<lambda>q. Inr (Inl q))
      else if load_base > 0xffffffffffffffff - ucast (exp_rva e) then Inl SL_ERROR_INVALID_IMAGE
      else Inr (Inr (\<lambda>depth. \<lparr>rv_module = index, rv_export = e,
             rv_guest_address = load_base + ucast (exp_rva e), rv_forward_depth = depth, rv_is_native = False\<rparr>)))"

definition symbol_step ::
    "module_objects \<Rightarrow> sl_module_registry \<Rightarrow> symbol_query \<Rightarrow>
     (symbol_query + (nat \<Rightarrow> sl_resolved_symbol)) result" where
  "symbol_step objects r q = (case q of (m, s, n, b) \<Rightarrow>
     and_then (sl_module_registry_resolve_module (Some r) m) (\<lambda>index.
       let module = rg_modules r ! index
       in if md_kind module = SL_MODULE_NATIVE
          then and_then (or_fail SL_ERROR_EXPORT_NOT_FOUND (find (native_match s n b) (md_native_exports module)))
                 (native_step index)
          else and_then
                 (if b then sl_pe_find_export_by_ordinal (map_option (image_at objects) (md_image module)) n
                  else sl_pe_find_export_by_name (map_option (image_at objects) (md_image module)) s)
                 (image_step (mp_load_base (mapped_at objects (the (md_mapped module)))) index)))"

lemma resolve_step:
  "resolve_symbol_recursive objects r m s n b depth =
     (if depth > SL_FORWARDER_DEPTH_LIMIT then Inl SL_ERROR_FORWARDER_LIMIT
      else case symbol_step objects r (m, s, n, b) of
             Inl status \<Rightarrow> Inl status
           | Inr (Inl (m, s, n, b)) \<Rightarrow> resolve_symbol_recursive objects r m s n b (depth + 1)
           | Inr (Inr answer) \<Rightarrow> Inr (answer depth))"
proof (cases "depth > SL_FORWARDER_DEPTH_LIMIT")
  case False
  note rec = resolve_symbol_recursive.simps [of objects r m s n b depth]
  note step = symbol_step_def native_step_def image_step_def forward_query_def Let_def
  show ?thesis
  proof (cases "sl_module_registry_resolve_module (Some r) m")
    case (Inl e)
    then show ?thesis
      using False by (simp add: rec step del: and_then_simps(3,4))
  next
    case (Inr index)
    let ?module = "rg_modules r ! index"
    show ?thesis
    proof (cases "md_kind ?module")
      case SL_MODULE_NATIVE
      then show ?thesis
        using False Inr
        by (cases "find (native_match s n b) (md_native_exports ?module)")
           (auto simp: rec step and_then_def or_fail_def split: option.split sum.split)
    next
      case SL_MODULE_PE
      let ?found = "if b then sl_pe_find_export_by_ordinal (map_option (image_at objects) (md_image ?module)) n
          else sl_pe_find_export_by_name (map_option (image_at objects) (md_image ?module)) s"
      show ?thesis
      proof (cases ?found)
        case (Inl e)
        then show ?thesis
          using False Inr SL_MODULE_PE by (simp add: rec step del: and_then_simps(3,4) split del: if_split)
      next
        case found: (Inr e)
        show ?thesis
          using False Inr SL_MODULE_PE found
          by (cases "exp_is_forwarder e"; cases "parse_forwarder (the (exp_forwarder e)) SL_FORWARDER_MODULE_CAPACITY";
              cases "mp_load_base (mapped_at objects (the (md_mapped ?module))) > 0xffffffffffffffff - ucast (exp_rva e)")
             (simp_all add: rec step del: and_then_simps(3,4) split: prod.split split del: if_split)
      qed
    qed
  qed
qed (simp add: resolve_symbol_recursive.simps [of objects r m s n b depth])

definition forwards :: "module_objects \<Rightarrow> sl_module_registry \<Rightarrow> symbol_query \<Rightarrow> symbol_query \<Rightarrow> bool" where
  "forwards objects r q q' \<longleftrightarrow> symbol_step objects r q = Inr (Inl q')"

lemma resolve_chain:
  assumes "(forwards objects r ^^ k) (m, s, n, b) (m', s', n', b')" "depth + k \<le> SL_FORWARDER_DEPTH_LIMIT + 1"
  shows "resolve_symbol_recursive objects r m s n b depth = resolve_symbol_recursive objects r m' s' n' b' (depth + k)"
  using assms
proof (induction k arbitrary: m s n b depth)
  case (Suc k)
  from relpowp_Suc_D2 [OF Suc.prems(1)] obtain m1 s1 n1 b1 where
    f: "forwards objects r (m, s, n, b) (m1, s1, n1, b1)"
      "(forwards objects r ^^ k) (m1, s1, n1, b1) (m', s', n', b')"
    by (metis prod_cases4)
  then show ?case
    using Suc.IH [OF f(2), of "depth + 1"] Suc.prems(2)
    by (simp add: resolve_step [of _ _ m] forwards_def)
qed simp

lemma resolve_answer:
  assumes "resolve_symbol_recursive objects r m s n b depth = Inr res"
  shows "\<exists>k q answer. depth + k \<le> SL_FORWARDER_DEPTH_LIMIT \<and> (forwards objects r ^^ k) (m, s, n, b) q \<and>
    symbol_step objects r q = Inr (Inr answer) \<and> res = answer (depth + k)"
  using assms
proof (induction "SL_FORWARDER_DEPTH_LIMIT + 1 - depth" arbitrary: m s n b depth rule: less_induct)
  case less
  have le: "depth \<le> SL_FORWARDER_DEPTH_LIMIT"
    using less.prems by (subst (asm) resolve_step) (auto split: if_splits)
  show ?case
  proof (cases "symbol_step objects r (m, s, n, b)")
    case (Inl status)
    then show ?thesis
      using less.prems le by (simp add: resolve_step [of _ _ m s n b])
  next
    case (Inr x)
    show ?thesis
    proof (cases x)
      case (Inl q)
      obtain m' s' n' b' where q: "q = (m', s', n', b')"
        by (metis prod_cases4)
      have "resolve_symbol_recursive objects r m' s' n' b' (depth + 1) = Inr res"
        using less.prems le Inl Inr q by (simp add: resolve_step [of _ _ m s n b])
      moreover have "SL_FORWARDER_DEPTH_LIMIT + 1 - (depth + 1) < SL_FORWARDER_DEPTH_LIMIT + 1 - depth"
        using le by simp
      ultimately obtain k q' answer where
        k: "depth + 1 + k \<le> SL_FORWARDER_DEPTH_LIMIT" "(forwards objects r ^^ k) q q'"
          "symbol_step objects r q' = Inr (Inr answer)" "res = answer (depth + 1 + k)"
        using less.hyps [of "depth + 1" m' s' n' b'] q by blast
      have "(forwards objects r ^^ Suc k) (m, s, n, b) q'"
        using relpowp_Suc_I2 [OF _ k(2)] Inl Inr by (simp add: forwards_def)
      then show ?thesis
        using k by (intro exI [of _ "Suc k"] exI [of _ q'] exI [of _ answer]) simp
    next
      case answered: (Inr answer)
      then show ?thesis
        using less.prems le Inr
        by (intro exI [of _ 0] exI [of _ "(m, s, n, b)"] exI [of _ answer])
           (simp add: resolve_step [of _ _ m s n b])
    qed
  qed
qed

end
