(* ===== verification/Module_Properties.thy ===== *)
theory Module_Properties
  imports Module_Lookup PE_Properties Loader_Mapping
begin

text \<open>
  What \<open>src/module.c\<close> promises: a well-formed registry, a map of names, lookups that end and answer
  with addresses of the module they name, and forwarder strings that split as they were written.
\<close>

section \<open>Forwarder strings\<close>

lemma strrchr_append:
  assumes "c \<notin> set s"
  shows "strrchr (m @ c # s) c = Some (length m)"
proof -
  have "takeWhile (\<lambda>x. x \<noteq> c) (rev s @ c # rev m) = rev s"
    using assms by (subst takeWhile_append2) auto
  then show ?thesis
    by (simp add: strrchr_def)
qed

text \<open>The decimal digits of a number.\<close>

fun decimal :: "nat \<Rightarrow> bytes" where
  "decimal n = (if n < 10 then [of_nat (0x30 + n)] else decimal (n div 10) @ [of_nat (0x30 + n mod 10)])"

declare decimal.simps [simp del]

lemma unat_digit: "k < 10 \<Longrightarrow> unat (of_nat (0x30 + k) :: u8) = 0x30 + k"
  by (intro unat_of_nat_small) simp

lemma isdigit_unat: "isdigit c \<longleftrightarrow> 0x30 \<le> unat c \<and> unat c \<le> 0x39"
  by (simp add: isdigit_def word_le_nat_alt)

lemma decimal_digits: "list_all isdigit (decimal n) \<and> decimal n \<noteq> [] \<and> digits_value (decimal n) = n"
proof (induction n rule: decimal.induct)
  case (1 n)
  show ?case
  proof (cases "n < 10")
    case True
    then have "unat (of_nat (0x30 + n) :: u8) = 0x30 + n"
      by (rule unat_digit)
    moreover have "decimal n = [of_nat (0x30 + n)]"
      using True by (simp add: decimal.simps [of n])
    ultimately show ?thesis
      using True by (simp only: digits_value_def isdigit_unat list.pred_inject foldl.simps) simp
  next
    case False
    have "unat (of_nat (0x30 + n mod 10) :: u8) = 0x30 + n mod 10"
      by (rule unat_digit) simp
    moreover have "decimal n = decimal (n div 10) @ [of_nat (0x30 + n mod 10)]"
      using False by (subst decimal.simps) (rule if_not_P)
    ultimately show ?thesis
      using 1 [OF False]
      by (simp only: digits_value_def isdigit_unat list_all_append list.pred_inject foldl_append foldl.simps) simp
  qed
qed

lemma strtoul_decimal:
  assumes "n < 2 ^ 64"
  shows "strtoul (decimal n) = (of_nat n, [], False)"
proof -
  note d = decimal_digits [of n]
  obtain c cs where c: "decimal n = c # cs" "isdigit c"
    using d by (cases "decimal n") auto
  then have "\<not> isspace c" "c \<noteq> 0x2d" "c \<noteq> 0x2b"
    by (auto simp: isdigit_def isspace_def word_le_nat_alt)
  moreover have digits: "takeWhile isdigit cs = cs" "dropWhile isdigit cs = []"
    using d c by (auto simp: list_all_iff takeWhile_eq_all_conv)
  ultimately show ?thesis
    using c d assms by (simp add: strtoul_def Let_def digits)
qed

definition dll_suffix :: bytes where
  "dll_suffix = [0x2e, 0x64, 0x6c, 0x6c]"

text \<open>Whether a name ends in \<open>.dll\<close>, in any case.\<close>

definition has_dll :: "bytes \<Rightarrow> bool" where
  "has_dll m \<longleftrightarrow> (\<exists>p e. m = p @ e \<and> folded e = dll_suffix)"

definition with_dll :: "bytes \<Rightarrow> bytes" where
  "with_dll m = (if has_dll m then m else m @ dll_suffix)"

lemma has_dll_nth:
  "has_dll m \<longleftrightarrow> length m \<ge> 4 \<and> ascii_fold (m ! (length m - 4)) = 0x2e \<and>
     ascii_fold (m ! (length m - 3)) = 0x64 \<and> ascii_fold (m ! (length m - 2)) = 0x6c \<and>
     ascii_fold (m ! (length m - 1)) = 0x6c"
proof
  assume "has_dll m"
  then obtain p e where m: "m = p @ e" "folded e = dll_suffix"
    by (auto simp: has_dll_def)
  then obtain a b c d where "e = [a, b, c, d]"
    by (auto simp: folded_def dll_suffix_def map_eq_Cons_conv)
  then show "length m \<ge> 4 \<and> ascii_fold (m ! (length m - 4)) = 0x2e \<and>
     ascii_fold (m ! (length m - 3)) = 0x64 \<and> ascii_fold (m ! (length m - 2)) = 0x6c \<and>
     ascii_fold (m ! (length m - 1)) = 0x6c"
    using m(2) by (simp add: m(1) folded_def dll_suffix_def nth_append)
next
  assume r: "length m \<ge> 4 \<and> ascii_fold (m ! (length m - 4)) = 0x2e \<and>
     ascii_fold (m ! (length m - 3)) = 0x64 \<and> ascii_fold (m ! (length m - 2)) = 0x6c \<and>
     ascii_fold (m ! (length m - 1)) = 0x6c"
  let ?k = "length m - 4"
  have "drop ?k m = [m ! ?k, m ! (length m - 3), m ! (length m - 2), m ! (length m - 1)]"
  proof (rule nth_equalityI)
    fix i assume "i < length (drop ?k m)"
    then have "i = 0 \<or> i = 1 \<or> i = 2 \<or> i = 3"
      using r by auto
    moreover have "length m - 3 = ?k + 1" "length m - 2 = ?k + 2" "length m - 1 = ?k + 3"
      using r by linarith+
    ultimately show "drop ?k m ! i = [m ! ?k, m ! (length m - 3), m ! (length m - 2), m ! (length m - 1)] ! i"
      using r by auto
  qed (use r in simp)
  then have "folded (drop ?k m) = dll_suffix"
    using r by (simp add: folded_def dll_suffix_def)
  then show "has_dll m"
    unfolding has_dll_def by (metis append_take_drop_id)
qed

lemma parse_forwarder_eq:
  assumes "m \<noteq> []" "s \<noteq> []" "0x2e \<notin> set s" "length (with_dll m) < capacity"
  shows "parse_forwarder (m @ 0x2e # s) capacity =
    (if hd s = 0x23
     then (case strtoul (tl s) of (v, rest, range_error) \<Rightarrow>
             if tl s = [] \<or> rest \<noteq> [] \<or> range_error \<or> v > 0xffffffff then Inl SL_ERROR_INVALID_FORWARDER
             else Inr (with_dll m, s, ucast v, True))
     else Inr (with_dll m, s, 0, False))"
proof -
  have suffix: "(length m \<ge> 4 \<and> ascii_fold ((m @ 0x2e # s) ! (length m - 4)) = 0x2e \<and>
     ascii_fold ((m @ 0x2e # s) ! (length m - 3)) = 0x64 \<and>
     ascii_fold ((m @ 0x2e # s) ! (length m - 2)) = 0x6c \<and>
     ascii_fold ((m @ 0x2e # s) ! (length m - 1)) = 0x6c) = has_dll m"
    using assms(1) by (auto simp: has_dll_nth nth_append)
  have required: "length m + (if has_dll m then 1 else 5) = length (with_dll m) + 1"
    by (simp add: with_dll_def dll_suffix_def)
  have name: "take (length m) (m @ 0x2e # s) @ (if has_dll m then [] else [0x2e, 0x64, 0x6c, 0x6c]) = with_dll m"
    by (simp add: with_dll_def dll_suffix_def)
  have rest: "drop (length m + 1) (m @ 0x2e # s) = s" "s ! 0 = hd s"
    using assms(2) by (simp_all add: hd_conv_nth)
  have "length m \<noteq> 0" "length m + 1 \<noteq> length (m @ 0x2e # s)" "\<not> length (with_dll m) + 1 > capacity"
    using assms by simp_all
  then show ?thesis
    unfolding parse_forwarder_def strrchr_append [OF assms(3)] option.case Let_def suffix required name rest
    by simp
qed


section \<open>The registry\<close>

definition native_example :: sl_native_export where
  "native_example = \<lparr>ne_name = Some [0x66], ne_forwarder = None, ne_ordinal = 1, ne_has_ordinal = True,
     ne_guest_address = 0x1000\<rparr>"

definition registry_example :: sl_module_registry where
  "registry_example = \<lparr>rg_modules = [\<lparr>md_name = [0x6b], md_kind = SL_MODULE_NATIVE, md_image = None,
     md_mapped = None, md_native_exports = [native_example]\<rparr>],
     rg_aliases = [\<lparr>al_contract_name = [0x61], al_target_name = [0x6b]\<rparr>]\<rparr>"

lemma registry_example_built: "built registry_example"
proof -
  let ?r0 = "\<lparr>rg_modules = [], rg_aliases = []\<rparr>"
  have "built ?r0"
    by (rule built.init) (simp add: sl_module_registry_init_def)
  moreover have "sl_module_registry_add_native (Some ?r0) (Some [0x6b]) (Some [native_example]) =
      (SL_OK, Some (registry_example\<lparr>rg_aliases := []\<rparr>))"
    by code_simp
  moreover have "sl_module_registry_add_alias (Some (registry_example\<lparr>rg_aliases := []\<rparr>)) (Some [0x61]) (Some [0x4b]) =
      (SL_OK, Some registry_example)"
    by code_simp
  ultimately show ?thesis
    by (blast intro: built.intros)
qed

text \<open>The effect of a registration on the map: exactly one new name, or nothing on failure.\<close>

definition name_added ::
    "sl_module_registry \<Rightarrow> bytes option \<Rightarrow> nat \<Rightarrow> sl_status \<Rightarrow> sl_module_registry \<Rightarrow> bool" where
  "name_added r name j status r' \<longleftrightarrow>
     (if status = SL_OK
      then \<exists>n. name = Some n \<and> registry_names r (folded n) = None \<and>
             registry_names r' = (registry_names r)(folded n \<mapsto> j)
      else r' = r)"

lemma fresh_name_None:
  assumes "fresh_name n r"
  shows "registry_names r (folded n) = None"
proof -
  have "module_names r (folded n) = None"
      "first_index (\<lambda>a. folded (al_contract_name a) = folded n) 0 (rg_aliases r) = None"
    using assms by (simp_all add: fresh_name_def module_names_def first_index_None)
  then show ?thesis
    by (simp add: registry_names_def)
qed

lemma name_added_add:
  assumes "registry_wf r" "sl_module_registry_add objects (Some r) name img mapped = (status, Some r')"
  shows "name_added r name (length (rg_modules r)) status r'"
  using assms(2)
proof (cases rule: add_cases)
  case (added n i p)
  then show ?thesis
    using names_add_module [OF assms(1)] fresh_name_None by (auto simp: name_added_def)
qed (simp add: name_added_def)

lemma name_added_native:
  assumes "registry_wf r" "sl_module_registry_add_native (Some r) name exports = (status, Some r')"
  shows "name_added r name (length (rg_modules r)) status r'"
  using assms(2)
proof (cases rule: add_native_cases)
  case (added n xs)
  then show ?thesis
    using names_add_module [OF assms(1)] fresh_name_None by (auto simp: name_added_def)
qed (simp add: name_added_def)

lemma name_added_alias:
  assumes "registry_wf r" "sl_module_registry_add_alias (Some r) name target = (status, Some r')"
  shows "\<exists>j. name_added r name j status r' \<and>
    (status = SL_OK \<longrightarrow> (\<exists>t. target = Some t \<and> module_names r (folded t) = Some j))"
  using assms(2)
proof (cases rule: add_alias_cases)
  case (added c t j)
  then show ?thesis
    using names_add_alias [OF _ _ assms(1)] fresh_name_None by (auto simp: name_added_def)
qed (auto simp: name_added_def)

text \<open>
  C19: In every registry that the operations can build, with any sequence of successful and failed
  calls, all names are valid, no two modules or aliases have names equal up to case, every alias
  names a registered module, the capacities hold, and the native export tables are consistent. Such
  a registry implements a map from names, without regard to case, to modules: a successful
  registration of a module or an alias adds exactly one new name (an alias stands for the module
  its target names directly), a failed one changes nothing, and resolving a valid name is looking
  it up in the map.
\<close>

theorem registry_refines_name_map:
  assumes "built r"
  shows "registry_wf r \<and> (\<forall>objects name img mapped status r'.
      sl_module_registry_add objects (Some r) name img mapped = (status, Some r') \<longrightarrow>
      name_added r name (length (rg_modules r)) status r') \<and>
    (\<forall>name exports status r'.
      sl_module_registry_add_native (Some r) name exports = (status, Some r') \<longrightarrow>
      name_added r name (length (rg_modules r)) status r') \<and>
    (\<forall>name target status r'.
      sl_module_registry_add_alias (Some r) name target = (status, Some r') \<longrightarrow>
      (\<exists>j. name_added r name j status r' \<and>
        (status = SL_OK \<longrightarrow> (\<exists>t. target = Some t \<and> module_names r (folded t) = Some j)))) \<and>
    (\<forall>n. name_ok n \<longrightarrow> sl_module_registry_resolve_module (Some r) (Some n) =
      or_fail SL_ERROR_MODULE_NOT_FOUND (registry_names r (folded n)))"
  using name_added_add [OF built_wf [OF assms]] name_added_native [OF built_wf [OF assms]]
    name_added_alias [OF built_wf [OF assms]] built_wf [OF assms]
  by (simp add: resolve_module_names)

theorem registry_refines_name_map_witness:
  "sl_module_registry_resolve_module (Some registry_example) (Some [0x41]) =
     or_fail SL_ERROR_MODULE_NOT_FOUND (registry_names registry_example [0x61])"
proof -
  have "name_ok [0x41]" "folded [0x41] = [0x61]"
    by (simp_all add: name_ok_def module_constants folded_def ascii_fold_def)
  then show ?thesis
    using registry_refines_name_map [OF registry_example_built] by metis
qed

section \<open>Symbols\<close>

text \<open>
  C20: A symbol lookup follows forwarders, from module to module, and always ends: it answers exactly
  when a chain of at most 16 forwarders leads from the symbol to an export, and then reports the
  length of the chain; where 17 forwarders follow one another, as in a cycle, it gives the limit
  error.
\<close>

theorem lookup_follows_forwarders:
  assumes "sy_module_name symbol \<noteq> None" "sy_by_ordinal symbol \<or> sy_symbol_name symbol \<noteq> None"
  defines "q \<equiv> (sy_module_name symbol, sy_symbol_name symbol, sy_ordinal symbol, sy_by_ordinal symbol)"
  shows "(sl_module_registry_resolve_symbol objects (Some r) (Some symbol) = Inr res \<longleftrightarrow>
      (\<exists>k \<le> 16. \<exists>q' answer. (forwards objects r ^^ k) q q' \<and>
         symbol_step objects r q' = Inr (Inr answer) \<and> res = answer k)) \<and>
    ((\<exists>q'. (forwards objects r ^^ 17) q q') \<longrightarrow>
      sl_module_registry_resolve_symbol objects (Some r) (Some symbol) = Inl SL_ERROR_FORWARDER_LIMIT)"
proof -
  let ?run = "resolve_symbol_recursive objects r (sy_module_name symbol) (sy_symbol_name symbol)
    (sy_ordinal symbol) (sy_by_ordinal symbol) 0"
  have run: "sl_module_registry_resolve_symbol objects (Some r) (Some symbol) = ?run"
    using assms(1,2) by (auto simp: sl_module_registry_resolve_symbol_def)
  have chain: "?run = resolve_symbol_recursive objects r m s n b k"
    if "(forwards objects r ^^ k) q (m, s, n, b)" "k \<le> 17" for k m s n b
    using resolve_chain [of k objects r "sy_module_name symbol" _ _ _ m s n b 0] that
    by (simp add: q_def module_constants)
  have answered: "?run = Inr (answer k)"
    if "k \<le> 16" "(forwards objects r ^^ k) q q'" "symbol_step objects r q' = Inr (Inr answer)" for k q' answer
  proof -
    obtain m s n b where q': "q' = (m, s, n, b)"
      by (metis prod_cases4)
    show ?thesis
      using chain [of k m s n b] that q' by (simp add: resolve_step [of _ _ m] module_constants)
  qed
  have limit: "?run = Inl SL_ERROR_FORWARDER_LIMIT" if "(forwards objects r ^^ 17) q q'" for q'
  proof -
    obtain m s n b where q': "q' = (m, s, n, b)"
      by (metis prod_cases4)
    show ?thesis
      using chain [of 17 m s n b] that q' by (simp add: resolve_step [of _ _ m] module_constants del: relpow.simps relpowp.simps)
  qed
  have found: "\<exists>k \<le> 16. \<exists>q' answer. (forwards objects r ^^ k) q q' \<and>
         symbol_step objects r q' = Inr (Inr answer) \<and> res = answer k" if "?run = Inr res"
    using resolve_answer [OF that] by (auto simp: q_def module_constants)
  show ?thesis
    unfolding run using answered limit found by blast
qed


definition symbol_example :: sl_module_symbol where
  "symbol_example = \<lparr>sy_module_name = Some [0x41], sy_symbol_name = Some [0x66], sy_ordinal = 0,
     sy_by_ordinal = False\<rparr>"

lemma symbol_example_step:
  "\<exists>answer. symbol_step \<lparr>image_at = \<lambda>i. sample_image, mapped_at = \<lambda>i. no_mapping\<rparr> registry_example
     (Some [0x41], Some [0x66], 0, False) = Inr (Inr answer) \<and> rv_guest_address (answer 0) = 0x1000"
proof -
  have "sl_module_registry_resolve_module (Some registry_example) (Some [0x41]) = Inr 0"
    by code_simp
  moreover have "find (native_match (Some [0x66]) 0 False) [native_example] = Some native_example"
    by code_simp
  ultimately show ?thesis
    by (simp add: symbol_step_def registry_example_def native_step_def Let_def del: and_then_simps(3,4))
       (simp add: native_example_def del: and_then_simps(3,4))
qed

theorem lookup_follows_forwarders_witness:
  "\<exists>res. sl_module_registry_resolve_symbol \<lparr>image_at = \<lambda>i. sample_image, mapped_at = \<lambda>i. no_mapping\<rparr>
     (Some registry_example) (Some symbol_example) = Inr res \<and> rv_guest_address res = 0x1000"
proof -
  let ?o = "\<lparr>image_at = \<lambda>i. sample_image, mapped_at = \<lambda>i. no_mapping\<rparr>"
  obtain answer where a: "symbol_step ?o registry_example (Some [0x41], Some [0x66], 0, False) = Inr (Inr answer)"
      "rv_guest_address (answer 0) = 0x1000"
    using symbol_example_step by blast
  have s: "sy_module_name symbol_example \<noteq> None" "sy_by_ordinal symbol_example \<or> sy_symbol_name symbol_example \<noteq> None"
    by (simp_all add: symbol_example_def)
  have "(forwards ?o registry_example ^^ 0) (Some [0x41], Some [0x66], 0, False) (Some [0x41], Some [0x66], 0, False)"
    by simp
  then have "\<exists>k \<le> 16. \<exists>q' answer'. (forwards ?o registry_example ^^ k) (Some [0x41], Some [0x66], 0, False) q' \<and>
      symbol_step ?o registry_example q' = Inr (Inr answer') \<and> answer 0 = answer' k"
    using a(1) by blast
  then have "sl_module_registry_resolve_symbol ?o (Some registry_example) (Some symbol_example) = Inr (answer 0)"
    using lookup_follows_forwarders [OF s, of ?o registry_example "answer 0"]
    by (simp add: symbol_example_def)
  then show ?thesis
    using a(2) by blast
qed

lemma native_exports_valid_candidate:
  "native_exports_valid previous es \<Longrightarrow> e \<in> set es \<Longrightarrow> \<not> native_candidate_bad e"
  by (induction previous es rule: native_exports_valid.induct) auto

lemma found_export_rva:
  assumes "(if b then sl_pe_find_export_by_ordinal (Some img) n else sl_pe_find_export_by_name (Some img) s) = Inr e"
  shows "0 < exp_rva e \<and> exp_rva e < pe_image_size img"
proof -
  have "\<exists>exports i name. build_export_result img exports i name = Inr e"
    using assms export_name_loop_found
    by (fastforce simp: sl_pe_find_export_by_ordinal_def sl_pe_find_export_by_name_def split: if_splits option.splits)
  then show ?thesis
    using build_export_result_fields by blast
qed

text \<open>The mappings that the modules of the registry point to have the sizes of their images, as
  \<open>sl_module_registry_add\<close> checks.\<close>

definition objects_ok :: "module_objects \<Rightarrow> sl_module_registry \<Rightarrow> bool" where
  "objects_ok objects r \<longleftrightarrow> (\<forall>m\<in>set (rg_modules r). md_kind m = SL_MODULE_PE \<longrightarrow>
     mp_size (mapped_at objects (the (md_mapped m))) = unat (pe_image_size (image_at objects (the (md_image m)))))"

text \<open>What an answer says about the module it names.\<close>

definition answer_ok :: "module_objects \<Rightarrow> sl_module_registry \<Rightarrow> sl_resolved_symbol \<Rightarrow> bool" where
  "answer_ok objects r res \<longleftrightarrow> rv_module res < length (rg_modules r) \<and>
     (let m = rg_modules r ! rv_module res; mapping = mapped_at objects (the (md_mapped m)) in
      if rv_is_native res
      then md_kind m = SL_MODULE_NATIVE \<and> rv_guest_address res \<noteq> 0 \<and>
        (\<exists>e\<in>set (md_native_exports m). ne_forwarder e = None \<and> ne_guest_address e = rv_guest_address res)
      else md_kind m = SL_MODULE_PE \<and>
        unat (rv_guest_address res) = unat (mp_load_base mapping) + unat (exp_rva (rv_export res)) \<and>
        unat (exp_rva (rv_export res)) < mp_size mapping \<and>
        (mp_load_base mapping \<noteq> 0 \<longrightarrow> address_in_module objects (rv_guest_address res) m))"

lemma registry_names_bound: "registry_names r k = Some j \<Longrightarrow> j < length (rg_modules r)"
  by (auto simp: registry_names_def module_names_def first_index_Some split: option.splits)

lemma step_answer_ok:
  assumes wf: "registry_wf r" and ok: "objects_ok objects r"
    and step: "symbol_step objects r q = Inr (Inr answer)"
  shows "answer_ok objects r (answer k) \<and> rv_forward_depth (answer k) = k"
proof -
  obtain m s n b where q: "q = (m, s, n, b)"
    by (metis prod_cases4)
  obtain index where index: "sl_module_registry_resolve_module (Some r) m = Inr index"
    using step q by (auto simp: symbol_step_def)
  then obtain name where "m = Some name"
    by (cases m) (auto simp: sl_module_registry_resolve_module_def)
  then have bound: "index < length (rg_modules r)"
    using index registry_names_bound by (auto simp: resolve_module_names split: if_splits)
  let ?m = "rg_modules r ! index"
  have m: "?m \<in> set (rg_modules r)" "module_ok ?m"
    using bound wf by (auto simp: registry_wf_def list_all_iff)
  show ?thesis
  proof (cases "md_kind ?m")
    case SL_MODULE_NATIVE
    then obtain e where e: "find (native_match s n b) (md_native_exports ?m) = Some e"
        "native_step index e = Inr (Inr answer)"
      using step q index by (auto simp: symbol_step_def Let_def)
    have "e \<in> set (md_native_exports ?m)"
      using e(1) by (auto simp: find_Some_iff)
    moreover have "\<not> native_candidate_bad e"
      using native_exports_valid_candidate calculation m(2) SL_MODULE_NATIVE by (auto simp: module_ok_def)
    ultimately show ?thesis
      using e(2) bound SL_MODULE_NATIVE
      by (auto simp: native_step_def answer_ok_def native_candidate_bad_def Let_def split: option.splits)
  next
    case SL_MODULE_PE
    then obtain i p where ip: "md_image ?m = Some i" "md_mapped ?m = Some p"
      using m(2) by (auto simp: module_ok_def)
    obtain e where e': "(if b then sl_pe_find_export_by_ordinal (map_option (image_at objects) (md_image ?m)) n
          else sl_pe_find_export_by_name (map_option (image_at objects) (md_image ?m)) s) = Inr e"
        and e2: "image_step (mp_load_base (mapped_at objects p)) index e = Inr (Inr answer)"
      using step q index ip(2) SL_MODULE_PE by (auto simp: symbol_step_def Let_def simp del: if_split)
    have e1: "(if b then sl_pe_find_export_by_ordinal (Some (image_at objects i)) n
          else sl_pe_find_export_by_name (Some (image_at objects i)) s) = Inr e"
      using e' by (simp only: ip option.map)
    let ?base = "mp_load_base (mapped_at objects p)"
    have answer: "\<not> ?base > 0xffffffffffffffff - ucast (exp_rva e)"
        "answer = (\<lambda>depth. \<lparr>rv_module = index, rv_export = e, rv_guest_address = ?base + ucast (exp_rva e),
           rv_forward_depth = depth, rv_is_native = False\<rparr>)"
      using e2 by (auto simp: image_step_def split: if_splits)
    have size: "unat (exp_rva e) < mp_size (mapped_at objects p)"
      using found_export_rva [OF e1] ok m(1) SL_MODULE_PE ip by (auto simp: objects_ok_def word_less_nat_alt)
    have sum: "unat (?base + ucast (exp_rva e)) = unat ?base + unat (exp_rva e)"
    proof -
      have "unat (0xffffffffffffffff - (ucast (exp_rva e) :: u64)) = 0xffffffffffffffff - unat (exp_rva e)"
        using unat_u32_le [of "exp_rva e"] by (subst unat_sub_no_wrap) (simp_all add: word_le_nat_alt unat_ucast_up del: unat_u32_le)
      then have "unat ?base \<le> 0xffffffffffffffff - unat (exp_rva e)"
        using answer(1) by (simp add: word_less_nat_alt)
      then show ?thesis
        using unat_u32_le [of "exp_rva e"]
        by (subst unat_add_no_wrap) (simp_all add: unat_ucast_up del: unat_u32_lt unat_u32_le)
    qed
    have "address_in_module objects (?base + ucast (exp_rva e)) ?m" if "?base \<noteq> 0"
    proof -
      have "?base \<le> ?base + ucast (exp_rva e)"
        using sum by (simp add: word_le_nat_alt)
      then show ?thesis
        using that size SL_MODULE_PE ip by (simp add: address_in_module_def unat_ucast_up)
    qed
    then show ?thesis
      using answer(2) bound SL_MODULE_PE ip size sum by (simp add: answer_ok_def)
  qed
qed

text \<open>
  C21: What a lookup answers is an address of the module it names: for a native export the address in
  the module's table, never null; for an image its load base plus the RVA of the export, without
  wrap-around and inside the mapping, so that the address belongs to that module.
\<close>

theorem resolved_address_in_module:
  assumes "registry_wf r" "objects_ok objects r"
    and "sl_module_registry_resolve objects (Some r) (Some symbol) = Inr res"
  shows "answer_ok objects r res \<and> rv_forward_depth res \<le> 16"
proof -
  obtain m s n b where "resolve_symbol_recursive objects r m s n b 0 = Inr res"
    using assms(3) by (auto simp: sl_module_registry_resolve_def sl_module_registry_resolve_symbol_def split: if_splits)
  from resolve_answer [OF this] obtain k q answer where
    "k \<le> 16" "symbol_step objects r q = Inr (Inr answer)" "res = answer k"
    by (auto simp: module_constants)
  then show ?thesis
    using step_answer_ok [OF assms(1,2), of q answer k] by simp
qed

theorem resolved_address_in_module_witness:
  "answer_ok \<lparr>image_at = \<lambda>i. sample_image, mapped_at = \<lambda>i. no_mapping\<rparr> registry_example
     \<lparr>rv_module = 0, rv_export = \<lparr>exp_name = Some [0x66], exp_forwarder = None, exp_ordinal = 1, exp_rva = 0,
       exp_is_forwarder = False\<rparr>, rv_guest_address = 0x1000, rv_forward_depth = 0, rv_is_native = True\<rparr>"
proof -
  let ?o = "\<lparr>image_at = \<lambda>i. sample_image, mapped_at = \<lambda>i. no_mapping\<rparr>"
  have "objects_ok ?o registry_example"
    by (simp add: objects_ok_def registry_example_def)
  moreover have "sl_module_registry_resolve_module (Some registry_example) (Some [0x41]) = Inr 0"
    by code_simp
  moreover have "find (native_match (Some [0x66]) 0 False) [native_example] = Some native_example"
    by code_simp
  ultimately show ?thesis
    using resolved_address_in_module [OF built_wf [OF registry_example_built], of ?o
      "\<lparr>imp_module_name = [0x41], imp_symbol_name = Some [0x66], imp_iat_rva = 0, imp_hint = 0, imp_ordinal = 0,
        imp_by_ordinal = False\<rparr>"]
    by (simp add: sl_module_registry_resolve_def sl_module_registry_resolve_symbol_def
        resolve_symbol_recursive.simps module_constants registry_example_def native_example_def)
qed

text \<open>
  Splitting a forwarder string recovers what it was written from: a module name with or without
  its \<open>.dll\<close> and either a symbol name without dots or \<open>#\<close> and a 32-bit ordinal in decimal.
\<close>

lemma forwarder_roundtrip:
  assumes "m \<noteq> []" "length (with_dll m) < 128"
  shows "(s \<noteq> [] \<and> hd s \<noteq> 0x23 \<and> 0x2e \<notin> set s \<longrightarrow>
      parse_forwarder (m @ 0x2e # s) SL_FORWARDER_MODULE_CAPACITY = Inr (with_dll m, s, 0, False)) \<and>
    (n < 2 ^ 32 \<longrightarrow>
      parse_forwarder (m @ 0x2e # 0x23 # decimal n) SL_FORWARDER_MODULE_CAPACITY =
        Inr (with_dll m, 0x23 # decimal n, of_nat n, True))"
proof -
  have "parse_forwarder (m @ 0x2e # s) SL_FORWARDER_MODULE_CAPACITY = Inr (with_dll m, s, 0, False)"
    if "s \<noteq> []" "hd s \<noteq> 0x23" "0x2e \<notin> set s"
    using parse_forwarder_eq [OF assms(1) that(1,3)] assms(2) that by (simp add: module_constants)
  moreover have "parse_forwarder (m @ 0x2e # 0x23 # decimal n) SL_FORWARDER_MODULE_CAPACITY =
        Inr (with_dll m, 0x23 # decimal n, of_nat n, True)" if n: "n < 2 ^ 32"
  proof -
    note d = decimal_digits [of n]
    have dot: "0x2e \<notin> set (0x23 # decimal n)"
      using d by (auto simp: list_all_iff isdigit_def)
    have small: "unat (of_nat n :: u64) = n"
      using n by (intro unat_of_nat_small) simp
    then have narrow: "(ucast (of_nat n :: u64) :: u32) = of_nat n"
      using n unat_of_nat_small [of n, where 'a = 32] by (simp add: word_unat_eq_iff unat_ucast_mod)
    from small have "\<not> (of_nat n :: u64) > 0xffffffff"
      using n by (simp add: word_less_nat_alt del: unat_of_nat)
    then show ?thesis
      using parse_forwarder_eq [OF assms(1) _ dot, of SL_FORWARDER_MODULE_CAPACITY] assms(2) d strtoul_decimal [of n] n narrow
      by (simp add: module_constants)
  qed
  ultimately show ?thesis
    by blast
qed

lemma forwarder_roundtrip_example:
  "parse_forwarder ([0x61] @ 0x2e # 0x23 # decimal 27) SL_FORWARDER_MODULE_CAPACITY =
     Inr (with_dll [0x61], 0x23 # decimal 27, 27, True)"
proof -
  have "length (with_dll [0x61]) < 128"
    by (simp add: with_dll_def dll_suffix_def)
  then show ?thesis
    using forwarder_roundtrip [of "[0x61]" "[]" 27] by simp
qed

end
