(* ===== verification/Module_Space.thy ===== *)
theory Module_Space
  imports Module_Registry Loader_Protection
begin

text \<open>
  \<open>src/module_space.c\<close>: a space owns the file bytes, parsed image and mapping of every PE module it
  registers. The registry's pointers to images and mappings are indices into the array \<open>owned\<close>, so
  the space itself is the store behind them. The result of an operation that can map or unmap memory
  has the host events.
\<close>

record sl_owned_pe_module =
  ow_file_bytes :: bytes
  ow_image :: sl_pe_image
  ow_mapped :: sl_mapped_image
  ow_imports_bound :: bool

record sl_module_space =
  sp_registry :: sl_module_registry
  sp_owned :: "sl_owned_pe_module list"

definition objects_of :: "sl_owned_pe_module list \<Rightarrow> module_objects" where
  "objects_of owned =
     \<lparr>image_at = (\<lambda>i. ow_image (owned ! i)), mapped_at = (\<lambda>i. ow_mapped (owned ! i))\<rparr>"

text \<open>A module pointer is an index; it is registered when it is one of the registry's.\<close>

definition find_owned_module :: "sl_module_space option \<Rightarrow> nat option \<Rightarrow> nat option" where
  "find_owned_module space module = (case (space, module) of
       (Some sp, Some module) \<Rightarrow>
         let registered = module < length (rg_modules (sp_registry sp));
             m = rg_modules (sp_registry sp) ! module
         in if \<not> registered \<or> md_kind m \<noteq> SL_MODULE_PE then None
            else first_index (\<lambda>index. md_image m = Some index \<and> md_mapped m = Some index) 0
                   [0..<length (sp_owned sp)]
     | _ \<Rightarrow> None)"

definition preflight_pe_name :: "sl_module_space \<Rightarrow> bytes option \<Rightarrow> sl_status" where
  "preflight_pe_name space name =
     (case sl_module_registry_resolve_module (Some (sp_registry space)) name of
        Inr existing \<Rightarrow> SL_ERROR_DUPLICATE_MODULE
      | Inl status \<Rightarrow>
          if status \<noteq> SL_ERROR_MODULE_NOT_FOUND then status
          else if length (rg_modules (sp_registry space)) \<ge> SL_MODULE_REGISTRY_CAPACITY \<or>
                  length (sp_owned space) \<ge> SL_MODULE_REGISTRY_CAPACITY
          then SL_ERROR_MODULE_REGISTRY_FULL
          else SL_OK)"

definition sl_module_space_create :: "bool \<Rightarrow> sl_module_space result" where
  "sl_module_space_create calloc_ok =
     (if \<not> calloc_ok then Inl SL_ERROR_OUT_OF_MEMORY
      else Inr \<lparr>sp_registry = \<lparr>rg_modules = [], rg_aliases = []\<rparr>, sp_owned = []\<rparr>)"

text \<open>The modules are unmapped from the last to the first.\<close>

definition sl_module_space_destroy :: "host \<Rightarrow> sl_module_space option \<Rightarrow> host_event list" where
  "sl_module_space_destroy h space = (case space of None \<Rightarrow> []
     | Some sp \<Rightarrow> concat (map (\<lambda>owned. fst (sl_loader_unmap_image h (Some (ow_mapped owned))))
                            (rev (sp_owned sp))))"

text \<open>The new slot after its \<open>memset\<close>, and the steps that fill it: parse, map, register. The result
  has the status, the slot, the registry and the host events.\<close>

definition empty_owned :: "bytes \<Rightarrow> sl_owned_pe_module" where
  "empty_owned file = \<lparr>ow_file_bytes = file, ow_image = empty_image [], ow_mapped = no_mapping,
     ow_imports_bound = False\<rparr>"

definition load_pe ::
    "host \<Rightarrow> int \<Rightarrow> sl_module_space \<Rightarrow> bytes option \<Rightarrow> bytes \<Rightarrow>
     (sl_status \<times> sl_owned_pe_module \<times> sl_module_registry \<times> host_event list) option" where
  "load_pe h sysconf sp name file =
     (let owned = empty_owned file
      in case sl_pe_parse (Some file) of
           Inl status \<Rightarrow> Some (status, owned, sp_registry sp, [])
         | Inr img \<Rightarrow>
             (case sl_loader_map_image_for_execution h sysconf (Some img) (Some (ow_mapped owned)) of
                None \<Rightarrow> None
              | Some (status, mapped, events) \<Rightarrow>
                  let owned = owned\<lparr>ow_image := img, ow_mapped := the mapped\<rparr>
                  in if status \<noteq> SL_OK then Some (status, owned, sp_registry sp, events)
                     else let index = length (sp_owned sp)
                     in (case sl_module_registry_add (objects_of (sp_owned sp @ [owned]))
                                (Some (sp_registry sp)) name (Some index) (Some index) of
                           (status, registry) \<Rightarrow> Some (status, owned, the registry, events))))"

text \<open>The result has the status, the space, \<open>*out_module\<close> and the events; whether the copy of the file
  can be allocated is a parameter.\<close>

definition sl_module_space_add_pe ::
    "host \<Rightarrow> int \<Rightarrow> (nat \<Rightarrow> bool) \<Rightarrow> sl_module_space option \<Rightarrow> bytes option \<Rightarrow> bytes option \<Rightarrow>
     (sl_status \<times> sl_module_space option \<times> nat option \<times> host_event list) option" where
  "sl_module_space_add_pe h sysconf malloc_ok space name view =
     (case (space, name, view) of
        (Some sp, Some _, Some file) \<Rightarrow>
          if length file = 0 then Some (SL_ERROR_INVALID_ARGUMENT, space, None, [])
          else let status = preflight_pe_name sp name
          in if status \<noteq> SL_OK then Some (status, space, None, [])
             else if \<not> malloc_ok (length file) then Some (SL_ERROR_OUT_OF_MEMORY, space, None, [])
             else (case load_pe h sysconf sp name file of
                     None \<Rightarrow> None
                   | Some (status, owned, registry, events) \<Rightarrow>
                       if status \<noteq> SL_OK
                       then Some (status, Some (sp\<lparr>sp_registry := registry\<rparr>), None,
                              events @ fst (sl_loader_unmap_image h (Some (ow_mapped owned))))
                       else Some (SL_OK,
                              Some (sp\<lparr>sp_registry := registry, sp_owned := sp_owned sp @ [owned]\<rparr>),
                              sl_module_registry_find (Some registry) name, events))
      | _ \<Rightarrow> Some (SL_ERROR_INVALID_ARGUMENT, space, None, []))"

definition sl_module_space_add_native ::
    "sl_module_space option \<Rightarrow> bytes option \<Rightarrow> sl_native_export list option \<Rightarrow>
     sl_status \<times> sl_module_space option \<times> nat option" where
  "sl_module_space_add_native space name exports =
     (case space of None \<Rightarrow> (SL_ERROR_INVALID_ARGUMENT, None, None)
      | Some sp \<Rightarrow>
          (case sl_module_registry_add_native (Some (sp_registry sp)) name exports of
             (status, registry) \<Rightarrow>
               (status, Some (sp\<lparr>sp_registry := the registry\<rparr>),
                if status = SL_OK then sl_module_registry_find registry name else None)))"

definition sl_module_space_add_alias ::
    "sl_module_space option \<Rightarrow> bytes option \<Rightarrow> bytes option \<Rightarrow> sl_status \<times> sl_module_space option" where
  "sl_module_space_add_alias space contract_name target_name =
     (case space of None \<Rightarrow> (SL_ERROR_INVALID_ARGUMENT, None)
      | Some sp \<Rightarrow>
          (case sl_module_registry_add_alias (Some (sp_registry sp)) contract_name target_name of
             (status, registry) \<Rightarrow> (status, Some (sp\<lparr>sp_registry := the registry\<rparr>))))"

text \<open>The resolver's context is the registry; it reads images and load bases, which binding does not
  change.\<close>

definition sl_module_space_bind_imports ::
    "(nat \<Rightarrow> bool) \<Rightarrow> sl_module_space option \<Rightarrow> nat option \<Rightarrow>
     (sl_status \<times> sl_module_space option \<times> nat) option" where
  "sl_module_space_bind_imports calloc_ok space module =
     (case (space, module) of
        (Some sp, Some _) \<Rightarrow>
          (case find_owned_module space module of
             None \<Rightarrow> Some (SL_ERROR_INVALID_STATE, space, 0)
           | Some index \<Rightarrow>
               let owned = sp_owned sp ! index
               in (case sl_loader_bind_imports calloc_ok (Some (ow_image owned)) (Some (ow_mapped owned))
                          (Some (sl_module_registry_import_resolver (objects_of (sp_owned sp))))
                          (sp_registry sp) of
                     None \<Rightarrow> None
                   | Some (status, mapped, bound_count, _) \<Rightarrow>
                       let owned = owned\<lparr>ow_mapped := the mapped\<rparr>;
                           owned = if status = SL_OK then owned\<lparr>ow_imports_bound := True\<rparr> else owned
                       in Some (status, Some (sp\<lparr>sp_owned := (sp_owned sp)[index := owned]\<rparr>), bound_count)))
      | _ \<Rightarrow> Some (SL_ERROR_INVALID_ARGUMENT, space, 0))"

text \<open>The pages are those of the module's mapping.\<close>

definition sl_module_space_finalize ::
    "(nat \<Rightarrow> nat \<Rightarrow> u8 \<Rightarrow> bool) \<Rightarrow> int \<Rightarrow> (nat \<Rightarrow> bool) \<Rightarrow> sl_module_space option \<Rightarrow> nat option \<Rightarrow> u8 list \<Rightarrow>
     (sl_status \<times> sl_module_space option \<times> u8 list) option" where
  "sl_module_space_finalize mprotect_ok sysconf calloc_ok space module pages =
     (case (space, module) of
        (Some sp, Some _) \<Rightarrow>
          (case find_owned_module space module of
             None \<Rightarrow> Some (SL_ERROR_INVALID_STATE, space, pages)
           | Some index \<Rightarrow>
               let owned = sp_owned sp ! index
               in if \<not> ow_imports_bound owned then Some (SL_ERROR_INVALID_STATE, space, pages)
                  else (case sl_loader_finalize_image mprotect_ok sysconf calloc_ok
                               (Some (ow_image owned)) (Some (ow_mapped owned)) pages of
                          None \<Rightarrow> None
                        | Some (status, mapped, pages) \<Rightarrow>
                            Some (status, Some (sp\<lparr>sp_owned := (sp_owned sp)[index :=
                                     owned\<lparr>ow_mapped := the mapped\<rparr>]\<rparr>), pages)))
      | _ \<Rightarrow> Some (SL_ERROR_INVALID_ARGUMENT, space, pages))"

definition sl_module_space_registry :: "sl_module_space option \<Rightarrow> sl_module_registry option" where
  "sl_module_space_registry space = map_option sp_registry space"

definition sl_module_space_owned_count :: "sl_module_space option \<Rightarrow> nat" where
  "sl_module_space_owned_count space = (case space of None \<Rightarrow> 0 | Some sp \<Rightarrow> length (sp_owned sp))"

end
