(* ===== verification/Space_Invariant.thy ===== *)
theory Space_Invariant
  imports Module_Space Module_Properties Loader_Address_Space Loader_Permissions
begin

text \<open>
  The invariant of a module space: the registry is well formed, its PE modules are exactly the owned
  ones, and each owned module has a mapping of the image parsed from its own bytes. Adding a PE module
  either fails without a trace or registers exactly one such module.
\<close>

section \<open>The invariant\<close>

text \<open>An owned module: its image was parsed from its own copy of the file, and its mapping has the
  size of the image.\<close>

definition owned_ok :: "sl_owned_pe_module \<Rightarrow> bool" where
  "owned_ok owned \<longleftrightarrow> image_wf (ow_image owned) \<and> pe_file (ow_image owned) = ow_file_bytes owned \<and>
     mapping_ok (ow_mapped owned) \<and> mp_bytes (ow_mapped owned) \<noteq> None \<and>
     mp_size (ow_mapped owned) = unat (pe_image_size (ow_image owned)) \<and>
     mp_load_base (ow_mapped owned) = mp_address (ow_mapped owned) \<and>
     mp_allocation_size (ow_mapped owned) \<noteq> 0 \<and>
     mp_storage (ow_mapped owned) \<in> {SL_IMAGE_STORAGE_VIRTUAL, SL_IMAGE_STORAGE_VIRTUAL_TAINTED} \<and>
     (mp_protections_finalized (ow_mapped owned) \<longrightarrow> ow_imports_bound owned)"

definition pe_modules :: "sl_module_registry \<Rightarrow> sl_loaded_module list" where
  "pe_modules r = filter (\<lambda>m. md_kind m = SL_MODULE_PE) (rg_modules r)"

text \<open>The PE modules of the registry are the owned ones, in order, each with its own image and
  mapping.\<close>

definition space_wf :: "sl_module_space \<Rightarrow> bool" where
  "space_wf sp \<longleftrightarrow> registry_wf (sp_registry sp) \<and> list_all owned_ok (sp_owned sp) \<and>
     map (\<lambda>m. (md_image m, md_mapped m)) (pe_modules (sp_registry sp)) =
       map (\<lambda>i. (Some i, Some i)) [0..<length (sp_owned sp)]"

lemma space_wf_owned:
  assumes "space_wf sp" "i < length (sp_owned sp)"
  shows "owned_ok (sp_owned sp ! i)"
  using assms by (simp add: space_wf_def list_all_length)

text \<open>Every PE module of the registry has its object.\<close>

lemma space_wf_module:
  assumes "space_wf sp" "m \<in> set (rg_modules (sp_registry sp))" "md_kind m = SL_MODULE_PE"
  obtains i where "i < length (sp_owned sp)" "md_image m = Some i" "md_mapped m = Some i"
proof -
  have "m \<in> set (pe_modules (sp_registry sp))"
    using assms(2,3) by (simp add: pe_modules_def)
  then have "(md_image m, md_mapped m) \<in> set (map (\<lambda>i. (Some i, Some i)) [0..<length (sp_owned sp)])"
    using assms(1) unfolding space_wf_def by (metis (no_types, lifting) image_eqI list.set_map)
  then show thesis
    using that by auto
qed

lemma space_wf_count:
  assumes "space_wf sp"
  shows "length (sp_owned sp) \<le> length (rg_modules (sp_registry sp))"
proof -
  have "length (map (\<lambda>m. (md_image m, md_mapped m)) (pe_modules (sp_registry sp))) =
      length (map (\<lambda>i. (Some i, Some i)) [0..<length (sp_owned sp)])"
    using assms unfolding space_wf_def by (elim conjE) (erule arg_cong)
  then have "length (sp_owned sp) = length (pe_modules (sp_registry sp))"
    by simp
  then show ?thesis
    by (simp add: pe_modules_def)
qed

lemma find_owned_module_Some:
  assumes "space_wf sp" "find_owned_module (Some sp) (Some module) = Some i"
  shows "i < length (sp_owned sp) \<and> module < length (rg_modules (sp_registry sp)) \<and>
    md_kind (rg_modules (sp_registry sp) ! module) = SL_MODULE_PE \<and>
    md_image (rg_modules (sp_registry sp) ! module) = Some i \<and>
    md_mapped (rg_modules (sp_registry sp) ! module) = Some i"
  using assms(2) by (auto simp: find_owned_module_def Let_def first_index_Some split: if_splits)

text \<open>In a well-formed space every registered PE module is an owned one.\<close>

lemma find_owned_module_registered:
  assumes "space_wf sp" "module < length (rg_modules (sp_registry sp))"
    and "md_kind (rg_modules (sp_registry sp) ! module) = SL_MODULE_PE"
  shows "\<exists>i. find_owned_module (Some sp) (Some module) = Some i"
proof -
  obtain i where "i < length (sp_owned sp)" "md_image (rg_modules (sp_registry sp) ! module) = Some i"
      "md_mapped (rg_modules (sp_registry sp) ! module) = Some i"
    using space_wf_module [OF assms(1)] assms(2,3) nth_mem by metis
  then have "find_owned_module (Some sp) (Some module) \<noteq> None"
    using assms(2,3) by (auto simp: find_owned_module_def Let_def first_index_None)
  then show ?thesis
    by blast
qed

lemma module_names_fresh: "fresh_name n r \<Longrightarrow> module_names r (folded n) = None"
  by (simp add: fresh_name_def module_names_def first_index_None)

text \<open>A name without a module is a new name: the targets of the aliases are registered.\<close>

lemma names_None_fresh:
  assumes "registry_wf r" "registry_names r (folded n) = None"
  shows "(\<forall>m\<in>set (rg_modules r). folded (md_name m) \<noteq> folded n) \<and>
    (\<forall>a\<in>set (rg_aliases r). folded (al_contract_name a) \<noteq> folded n)"
proof -
  have "module_names r (folded n) = None"
    using assms(2) by (simp add: registry_names_def split: option.splits)
  moreover have "first_index (\<lambda>a. folded (al_contract_name a) = folded n) 0 (rg_aliases r) = None"
  proof (rule ccontr)
    assume "first_index (\<lambda>a. folded (al_contract_name a) = folded n) 0 (rg_aliases r) \<noteq> None"
    then obtain i where i: "first_index (\<lambda>a. folded (al_contract_name a) = folded n) 0 (rg_aliases r) = Some i"
      by blast
    then have "rg_aliases r ! i \<in> set (rg_aliases r)"
      by (simp add: first_index_Some)
    then have "module_names r (folded (al_target_name (rg_aliases r ! i))) \<noteq> None"
      using assms(1) module_names_registered by (auto simp: registry_wf_def list_all_iff)
    then show False
      using assms(2) i by (simp add: registry_names_def split: option.splits)
  qed
  ultimately show ?thesis
    by (simp add: module_names_def first_index_None)
qed

text \<open>A call that fails reports a failure.\<close>

definition proper :: "'a result \<Rightarrow> bool" where
  "proper r \<longleftrightarrow> r \<noteq> Inl SL_OK"

lemma proper_intros:
  "e \<noteq> SL_OK \<Longrightarrow> proper (Inl e)" "proper (Inr a)" "e \<noteq> SL_OK \<Longrightarrow> proper (or_fail e x)"
  "proper r \<Longrightarrow> (\<And>a. r = Inr a \<Longrightarrow> proper (f a)) \<Longrightarrow> proper (and_then r f)"
  "(b \<Longrightarrow> proper s) \<Longrightarrow> (\<not> b \<Longrightarrow> proper t) \<Longrightarrow> proper (if b then s else t)"
  "(\<And>a b. p = (a, b) \<Longrightarrow> proper (g a b)) \<Longrightarrow> proper (case p of (a, b) \<Rightarrow> g a b)"
  by (auto simp: proper_def or_fail_def split: option.split prod.split)

lemma parse_sections_proper: "proper (parse_sections f cursor n i img)"
  by (induction f cursor n i img rule: parse_sections.induct)
    (subst parse_sections.simps, auto intro!: proper_intros simp: Let_def)

lemma parse_directories_proper: "proper (parse_directories f offset sz d n i ds)"
  by (induction f offset sz d n i ds rule: parse_directories.induct)
    (subst parse_directories.simps, auto intro!: proper_intros simp: Let_def)

lemma sl_pe_parse_proper: "proper (sl_pe_parse view)"
  unfolding sl_pe_parse_def parse_optional_header_def optional_variant_def Let_def
  by (cases view) (auto intro!: proper_intros parse_sections_proper parse_directories_proper simp del: and_then_simps)

section \<open>Adding a PE module\<close>

lemma unmap_no_mapping: "sl_loader_unmap_image h (Some no_mapping) = ([FREED NULL], Some no_mapping)"
  by (simp add: sl_loader_unmap_image_def no_mapping_def)

text \<open>The name check passes exactly when there is a new name and room.\<close>

lemma preflight_ok:
  assumes "space_wf sp"
  shows "preflight_pe_name sp (Some n) = SL_OK \<longleftrightarrow>
    fresh_name n (sp_registry sp) \<and> length (rg_modules (sp_registry sp)) < SL_MODULE_REGISTRY_CAPACITY"
proof -
  let ?r = "sp_registry sp"
  have fits: "length (sp_owned sp) \<le> length (rg_modules ?r)"
    using space_wf_count [OF assms] .
  have r: "registry_wf ?r"
    using assms by (simp add: space_wf_def)
  have named: "registry_names ?r (folded n) = None \<longleftrightarrow>
      (\<forall>m\<in>set (rg_modules ?r). folded (md_name m) \<noteq> folded n) \<and>
      (\<forall>a\<in>set (rg_aliases ?r). folded (al_contract_name a) \<noteq> folded n)"
  proof (rule iffI [OF names_None_fresh [OF r]])
    assume "(\<forall>m\<in>set (rg_modules ?r). folded (md_name m) \<noteq> folded n) \<and>
      (\<forall>a\<in>set (rg_aliases ?r). folded (al_contract_name a) \<noteq> folded n)"
    then have "first_index (\<lambda>m. folded (md_name m) = folded n) 0 (rg_modules ?r) = None"
      "first_index (\<lambda>a. folded (al_contract_name a) = folded n) 0 (rg_aliases ?r) = None"
      by (simp_all add: first_index_None)
    then show "registry_names ?r (folded n) = None"
      by (simp add: registry_names_def module_names_def)
  qed
  show ?thesis
    using fits named
    by (auto simp: preflight_pe_name_def resolve_module_names or_fail_def fresh_name_def split: option.split)
qed

text \<open>What the slot holds after loading: one mapped module with a new name, or nothing mapped.\<close>

lemma load_pe_outcome:
  assumes host: "\<forall>page_size. host_page_size sysconf = Inr page_size \<longrightarrow> host_ok h page_size"
    and fresh: "fresh_name n (sp_registry sp)" "length (rg_modules (sp_registry sp)) < SL_MODULE_REGISTRY_CAPACITY"
  obtains (failed) status owned events where
      "load_pe h sysconf sp (Some n) f = Some (status, owned, sp_registry sp, events)"
      "status \<noteq> SL_OK" "ow_mapped owned = no_mapping" "unmaps h \<Longrightarrow> held events = {}"
  | (added) img m a events where
      "load_pe h sysconf sp (Some n) f =
         Some (SL_OK, \<lparr>ow_file_bytes = f, ow_image = img, ow_mapped = m, ow_imports_bound = False\<rparr>,
           add_module \<lparr>md_name = n, md_kind = SL_MODULE_PE, md_image = Some (length (sp_owned sp)),
             md_mapped = Some (length (sp_owned sp)), md_native_exports = []\<rparr> (sp_registry sp), events)"
      "sl_pe_parse (Some f) = Inr img" "execution_mapping sysconf img m a"
      "unmaps h \<Longrightarrow> held events = {a..<a + mp_allocation_size m}"
proof (cases "sl_pe_parse (Some f)")
  case (Inl status)
  then show thesis
    by (intro failed [of status "empty_owned f" "[]"])
      (use sl_pe_parse_proper [of "Some f"] in \<open>auto simp: load_pe_def empty_owned_def held_def proper_def\<close>)
next
  case (Inr img)
  from execution_mapping_outcome [OF host, of "Some img" "ow_mapped (empty_owned f)"]
  obtain status m events where run: "sl_loader_map_image_for_execution h sysconf (Some img)
        (Some (ow_mapped (empty_owned f))) = Some (status, Some m, events)"
      "status \<noteq> SL_OK \<Longrightarrow> m = no_mapping \<and> (unmaps h \<longrightarrow> held events = {})"
      "status = SL_OK \<Longrightarrow> \<exists>a. execution_mapping sysconf img m a \<and>
         (unmaps h \<longrightarrow> held events = {a..<a + mp_allocation_size m})"
    by auto
  let ?i = "length (sp_owned sp)"
  let ?owned = "\<lparr>ow_file_bytes = f, ow_image = img, ow_mapped = m, ow_imports_bound = False\<rparr>"
  have o: "(empty_owned f)\<lparr>ow_image := img, ow_mapped := m\<rparr> = ?owned"
    by (simp add: empty_owned_def)
  show thesis
  proof (cases "status = SL_OK")
    case False
    then have "load_pe h sysconf sp (Some n) f = Some (status, ?owned, sp_registry sp, events)"
      using run(1) Inr o by (simp add: load_pe_def)
    then show thesis
      using False run(2) by (intro failed [of status ?owned events]) auto
  next
    case True
    then obtain a where a: "execution_mapping sysconf img m a"
        "unmaps h \<longrightarrow> held events = {a..<a + mp_allocation_size m}"
      using run(3) by blast
    have m: "mp_bytes m \<noteq> None" "mp_size m = unat (pe_image_size img)"
      using a(1) by (auto simp: execution_mapping_def)
    have "sl_module_registry_add (objects_of (sp_owned sp @ [?owned])) (Some (sp_registry sp)) (Some n) (Some ?i) (Some ?i) =
        (SL_OK, Some (add_module \<lparr>md_name = n, md_kind = SL_MODULE_PE, md_image = Some ?i,
           md_mapped = Some ?i, md_native_exports = []\<rparr> (sp_registry sp)))"
      using m fresh module_names_fresh [OF fresh(1)] unfolding sl_module_registry_add_def
      by (simp add: objects_of_def fresh_name_def add_module_def)
    then show thesis
      using a run(1) Inr o True by (intro added [of img m events a]) (auto simp: load_pe_def Let_def)
  qed
qed

text \<open>Whatever happens, the call returns; it fails and leaves the space as it was, or registers one
  more module.\<close>

lemma add_pe_cases:
  assumes wf: "space_wf sp"
    and host: "\<forall>page_size. host_page_size sysconf = Inr page_size \<longrightarrow> host_ok h page_size"
  obtains (failed) status events where
      "sl_module_space_add_pe h sysconf malloc_ok (Some sp) name view = Some (status, Some sp, None, events)"
      "status \<noteq> SL_OK" "unmaps h \<Longrightarrow> held events = {}"
  | (added) n f img m a registry events where
      "sl_module_space_add_pe h sysconf malloc_ok (Some sp) name view =
         Some (SL_OK, Some (sp\<lparr>sp_registry := registry, sp_owned := sp_owned sp @
           [\<lparr>ow_file_bytes = f, ow_image = img, ow_mapped = m, ow_imports_bound = False\<rparr>]\<rparr>),
           Some (length (rg_modules (sp_registry sp))), events)"
      "name = Some n" "view = Some f" "sl_pe_parse (Some f) = Inr img"
      "execution_mapping sysconf img m a" "unmaps h \<Longrightarrow> held events = {a..<a + mp_allocation_size m}"
      "fresh_name n (sp_registry sp)" "length (rg_modules (sp_registry sp)) < SL_MODULE_REGISTRY_CAPACITY"
      "registry = add_module \<lparr>md_name = n, md_kind = SL_MODULE_PE, md_image = Some (length (sp_owned sp)),
         md_mapped = Some (length (sp_owned sp)), md_native_exports = []\<rparr> (sp_registry sp)"
proof (cases "\<exists>n f. name = Some n \<and> view = Some f \<and> length f \<noteq> 0 \<and>
    preflight_pe_name sp name = SL_OK \<and> malloc_ok (length f)")
  case False
  have "\<exists>status. status \<noteq> SL_OK \<and>
      sl_module_space_add_pe h sysconf malloc_ok (Some sp) name view = Some (status, Some sp, None, [])"
    using False by (cases name; cases view) (auto simp: sl_module_space_add_pe_def Let_def)
  then show thesis
    using failed by (auto simp: held_def)
next
  case True
  then obtain n f where nf: "name = Some n" "view = Some f" "length f \<noteq> 0"
      "preflight_pe_name sp name = SL_OK" "malloc_ok (length f)"
    by blast
  have fresh: "fresh_name n (sp_registry sp)" "length (rg_modules (sp_registry sp)) < SL_MODULE_REGISTRY_CAPACITY"
    using nf(1,4) preflight_ok [OF wf, of n] by auto
  have run: "sl_module_space_add_pe h sysconf malloc_ok (Some sp) name view =
      (case load_pe h sysconf sp name f of None \<Rightarrow> None
       | Some (status, owned, registry, events) \<Rightarrow>
           if status \<noteq> SL_OK
           then Some (status, Some (sp\<lparr>sp_registry := registry\<rparr>), None,
                  events @ fst (sl_loader_unmap_image h (Some (ow_mapped owned))))
           else Some (SL_OK, Some (sp\<lparr>sp_registry := registry, sp_owned := sp_owned sp @ [owned]\<rparr>),
                  sl_module_registry_find (Some registry) name, events))"
    unfolding sl_module_space_add_pe_def Let_def using nf by simp
  show thesis
  proof (rule load_pe_outcome [OF host fresh, of f])
    fix status owned events
    assume l: "load_pe h sysconf sp (Some n) f = Some (status, owned, sp_registry sp, events)"
      "status \<noteq> SL_OK" "ow_mapped owned = no_mapping" "unmaps h \<Longrightarrow> held events = {}"
    have "held (events @ [FREED NULL]) = {}" if "unmaps h"
      using l(4) [OF that] by (simp add: held_def)
    then show thesis
      using failed [of status "events @ [FREED NULL]"] run l(1-3) nf(1) by (simp add: unmap_no_mapping)
  next
    fix img m a events
    assume l: "load_pe h sysconf sp (Some n) f =
         Some (SL_OK, \<lparr>ow_file_bytes = f, ow_image = img, ow_mapped = m, ow_imports_bound = False\<rparr>,
           add_module \<lparr>md_name = n, md_kind = SL_MODULE_PE, md_image = Some (length (sp_owned sp)),
             md_mapped = Some (length (sp_owned sp)), md_native_exports = []\<rparr> (sp_registry sp), events)"
      "sl_pe_parse (Some f) = Inr img" "execution_mapping sysconf img m a"
      "unmaps h \<Longrightarrow> held events = {a..<a + mp_allocation_size m}"
    have "sl_module_registry_find (Some (add_module \<lparr>md_name = n, md_kind = SL_MODULE_PE,
        md_image = Some (length (sp_owned sp)), md_mapped = Some (length (sp_owned sp)),
        md_native_exports = []\<rparr> (sp_registry sp))) (Some n) = Some (length (rg_modules (sp_registry sp)))"
      using module_names_fresh [OF fresh(1)] by (simp add: module_names_add)
    then show thesis
      by (intro added [OF _ nf(1,2) l(2,3,4) fresh refl], subst run) (simp_all add: l(1) nf(1))
  qed
qed

end
