(* ===== verification/Space_Operations.thy ===== *)
theory Space_Operations
  imports Space_Invariant Loader_Properties
begin

text \<open>
  The operations of a module space one by one: what each returns on every path and that it keeps the
  invariant; the reachable spaces; the addresses that destroying a space gives back.
\<close>

section \<open>The other operations\<close>

lemma owned_update_wf:
  assumes "space_wf sp" "i < length (sp_owned sp)" "owned_ok owned"
  shows "space_wf (sp\<lparr>sp_owned := (sp_owned sp)[i := owned]\<rparr>)"
  using assms by (auto simp: space_wf_def list_all_length nth_list_update)

text \<open>Registering another kind of name does not disturb the PE modules.\<close>

lemma registry_update_wf:
  assumes "space_wf sp" "registry_wf r" "pe_modules r = pe_modules (sp_registry sp)"
  shows "space_wf (sp\<lparr>sp_registry := r\<rparr>)"
  using assms by (simp add: space_wf_def)

lemma mapped_owned_ok:
  assumes "sl_pe_parse (Some f) = Inr img" "execution_mapping sysconf img m a"
  shows "owned_ok \<lparr>ow_file_bytes = f, ow_image = img, ow_mapped = m, ow_imports_bound = False\<rparr>"
  using sl_pe_parse_wf [OF assms(1)] assms(2) by (auto simp: owned_ok_def execution_mapping_def)

lemma pe_modules_add:
  "pe_modules (add_module m r) = pe_modules r @ (if md_kind m = SL_MODULE_PE then [m] else [])"
  by (simp add: pe_modules_def add_module_def)

lemma added_space_wf:
  assumes "space_wf sp" "owned_ok owned" "fresh_name n (sp_registry sp)"
    and "length (rg_modules (sp_registry sp)) < SL_MODULE_REGISTRY_CAPACITY"
  shows "space_wf (sp\<lparr>sp_registry := add_module \<lparr>md_name = n, md_kind = SL_MODULE_PE,
      md_image = Some (length (sp_owned sp)), md_mapped = Some (length (sp_owned sp)),
      md_native_exports = []\<rparr> (sp_registry sp), sp_owned := sp_owned sp @ [owned]\<rparr>)"
proof -
  let ?m = "\<lparr>md_name = n, md_kind = SL_MODULE_PE, md_image = Some (length (sp_owned sp)),
    md_mapped = Some (length (sp_owned sp)), md_native_exports = []\<rparr>"
  have "module_ok ?m"
    using assms(3) by (simp add: module_ok_def fresh_name_def)
  then have "registry_wf (add_module ?m (sp_registry sp))"
    using assms by (intro add_module_wf) (simp_all add: space_wf_def)
  then show ?thesis
    using assms(1,2) by (simp add: space_wf_def pe_modules_add)
qed

lemma add_native_space_wf:
  assumes "space_wf sp" "sl_module_space_add_native (Some sp) name exports = (status, Some sp', out)"
  shows "space_wf sp'"
proof -
  obtain r where r: "sl_module_registry_add_native (Some (sp_registry sp)) name exports = (status, Some r)"
      "sp' = sp\<lparr>sp_registry := r\<rparr>"
    using assms(2) by (auto simp: sl_module_space_add_native_def split: prod.splits if_splits
        elim: add_native_cases)
  have wf: "registry_wf (sp_registry sp)"
    using assms(1) by (simp add: space_wf_def)
  from r(1) have "registry_wf r \<and> pe_modules r = pe_modules (sp_registry sp)"
    by (rule add_native_cases)
      (use wf in \<open>auto intro!: add_module_wf simp: pe_modules_add module_ok_def fresh_name_def\<close>)
  then show ?thesis
    using registry_update_wf assms(1) r(2) by simp
qed

lemma add_alias_space_wf:
  assumes "space_wf sp" "sl_module_space_add_alias (Some sp) contract target = (status, Some sp')"
  shows "space_wf sp'"
proof -
  obtain r where r: "sl_module_registry_add_alias (Some (sp_registry sp)) contract target = (status, Some r)"
      "sp' = sp\<lparr>sp_registry := r\<rparr>"
    using assms(2) by (auto simp: sl_module_space_add_alias_def split: prod.splits elim: add_alias_cases)
  have wf: "registry_wf (sp_registry sp)"
    using assms(1) by (simp add: space_wf_def)
  from r(1) have "registry_wf r \<and> pe_modules r = pe_modules (sp_registry sp)"
    by (rule add_alias_cases) (use wf in \<open>auto intro!: add_alias_wf simp: pe_modules_def\<close>)
  then show ?thesis
    using registry_update_wf assms(1) r(2) by simp
qed

text \<open>Binding returns; on failure the space is as it was, on success one mapping has new bytes.\<close>

lemma bind_space_cases:
  assumes wf: "space_wf sp"
  obtains (kept) status where
      "sl_module_space_bind_imports calloc_ok (Some sp) module = Some (status, Some sp, 0)" "status \<noteq> SL_OK"
  | (bound) i k m' c' where
      "sl_module_space_bind_imports calloc_ok (Some sp) module = Some (SL_OK,
         Some (sp\<lparr>sp_owned := (sp_owned sp)[i := (sp_owned sp ! i)\<lparr>ow_mapped := m', ow_imports_bound := True\<rparr>]\<rparr>), k)"
      "find_owned_module (Some sp) module = Some i" "i < length (sp_owned sp)"
      "sl_loader_bind_imports calloc_ok (Some (ow_image (sp_owned sp ! i))) (Some (ow_mapped (sp_owned sp ! i)))
         (Some (sl_module_registry_import_resolver (objects_of (sp_owned sp)))) (sp_registry sp) =
         Some (SL_OK, Some m', k, c')"
      "\<exists>bytes bytes'. mp_bytes (ow_mapped (sp_owned sp ! i)) = Some bytes \<and>
         m' = (ow_mapped (sp_owned sp ! i))\<lparr>mp_bytes := Some bytes'\<rparr> \<and> length bytes' = length bytes"
proof (cases "find_owned_module (Some sp) module")
  case None
  then have "\<exists>status. status \<noteq> SL_OK \<and>
      sl_module_space_bind_imports calloc_ok (Some sp) module = Some (status, Some sp, 0)"
    by (cases module) (auto simp: sl_module_space_bind_imports_def)
  then show thesis
    using kept by blast
next
  case (Some i)
  then obtain j where j: "module = Some j"
    by (auto simp: find_owned_module_def split: option.splits)
  have i: "i < length (sp_owned sp)"
    using find_owned_module_Some [OF wf, of j i] Some j by simp
  let ?o = "sp_owned sp ! i"
  have ok: "image_wf (ow_image ?o)" "mapping_ok (ow_mapped ?o)"
    using space_wf_owned [OF wf i] by (simp_all add: owned_ok_def)
  have run: "sl_module_space_bind_imports calloc_ok (Some sp) module =
      (case sl_loader_bind_imports calloc_ok (Some (ow_image ?o)) (Some (ow_mapped ?o))
              (Some (sl_module_registry_import_resolver (objects_of (sp_owned sp)))) (sp_registry sp) of
         None \<Rightarrow> None
       | Some (status, mapped, k, _) \<Rightarrow>
           Some (status, Some (sp\<lparr>sp_owned := (sp_owned sp)[i :=
             if status = SL_OK then ?o\<lparr>ow_mapped := the mapped, ow_imports_bound := True\<rparr>
             else ?o\<lparr>ow_mapped := the mapped\<rparr>]\<rparr>), k))"
    using Some j by (auto simp: sl_module_space_bind_imports_def Let_def split: option.split)
  show thesis
  proof (cases rule: bind_imports_cases [OF ok, of calloc_ok
        "sl_module_registry_import_resolver (objects_of (sp_owned sp))" "sp_registry sp", case_names K B])
    case (K status c')
    then show thesis
      using kept run by simp
  next
    case (B bytes bytes' xs addresses c')
    have "mp_size (ow_mapped ?o) \<le> length bytes"
      using ok(2) B(2) by (simp add: mapping_ok_def)
    from store_pending_fits [OF B(6) this] have "length bytes' = length bytes"
      using B(7) by (metis option.inject)
    then have shape: "\<exists>b b'. mp_bytes (ow_mapped ?o) = Some b \<and>
        (ow_mapped ?o)\<lparr>mp_bytes := Some bytes'\<rparr> = (ow_mapped ?o)\<lparr>mp_bytes := Some b'\<rparr> \<and> length b' = length b"
      using B(2) by blast
    show thesis
      by (rule bound [OF _ Some i B(1) shape]) (simp add: run B(1))
  qed
qed

lemma finalize_cases:
  obtains (kept) status pages' where
      "sl_loader_finalize_image mprotect_ok sysconf calloc_ok (Some img) (Some m) pages = Some (status, Some m, pages')"
  | (finalized) pages' where
      "sl_loader_finalize_image mprotect_ok sysconf calloc_ok (Some img) (Some m) pages =
         Some (SL_OK, Some (m\<lparr>mp_protections_finalized := True\<rparr>), pages')"
  | (tainted) status pages' where
      "sl_loader_finalize_image mprotect_ok sysconf calloc_ok (Some img) (Some m) pages =
         Some (status, Some (m\<lparr>mp_storage := SL_IMAGE_STORAGE_VIRTUAL_TAINTED\<rparr>), pages')" "status \<noteq> SL_OK"
proof -
  have "\<exists>status m' pages'. sl_loader_finalize_image mprotect_ok sysconf calloc_ok (Some img) (Some m) pages =
      Some (status, Some m', pages') \<and>
      (m' = m \<or> m' = m\<lparr>mp_protections_finalized := True\<rparr> \<and> status = SL_OK \<or>
       m' = m\<lparr>mp_storage := SL_IMAGE_STORAGE_VIRTUAL_TAINTED\<rparr> \<and> status \<noteq> SL_OK)"
  proof (cases "host_page_size sysconf")
    case (Inr p)
    obtain status permissions where p: "page_permissions img (mp_allocation_size m div p) p (mp_size m) =
        Some (status, permissions)"
      using page_permissions_cases by blast
    show ?thesis
      using Inr p by (auto simp: sl_loader_finalize_image_def Let_def split: prod.split)
  qed (auto simp: sl_loader_finalize_image_def)
  then show thesis
    using that by blast
qed

lemma bound_owned_ok:
  assumes "owned_ok owned" "mp_bytes (ow_mapped owned) = Some bytes" "length bytes' = length bytes"
  shows "owned_ok (owned\<lparr>ow_mapped := (ow_mapped owned)\<lparr>mp_bytes := Some bytes'\<rparr>, ow_imports_bound := True\<rparr>)"
  using assms by (simp add: owned_ok_def mapping_ok_def)

lemma bind_space_wf:
  assumes "space_wf sp" "sl_module_space_bind_imports calloc_ok (Some sp) module = Some (status, Some sp', k)"
  shows "space_wf sp'"
proof (cases rule: bind_space_cases [OF assms(1), of calloc_ok module, case_names kept bound])
  case (bound i k' m' c')
  obtain bytes bytes' where m: "mp_bytes (ow_mapped (sp_owned sp ! i)) = Some bytes"
      "m' = (ow_mapped (sp_owned sp ! i))\<lparr>mp_bytes := Some bytes'\<rparr>" "length bytes' = length bytes"
    using bound(5) by blast
  have "owned_ok ((sp_owned sp ! i)\<lparr>ow_mapped := m', ow_imports_bound := True\<rparr>)"
    unfolding m(2) by (rule bound_owned_ok [OF space_wf_owned [OF assms(1) bound(3)] m(1,3)])
  then have "space_wf (sp\<lparr>sp_owned := (sp_owned sp)[i := (sp_owned sp ! i)\<lparr>ow_mapped := m', ow_imports_bound := True\<rparr>]\<rparr>)"
    by (rule owned_update_wf [OF assms(1) bound(3)])
  then show ?thesis
    using assms(2) unfolding bound(1) by blast
qed (use assms in simp)

text \<open>Finalizing succeeds only for a module whose imports are bound, and changes only its mapping.\<close>

lemma finalize_space_wf:
  assumes wf: "space_wf sp"
    and run: "sl_module_space_finalize mprotect_ok sysconf calloc_ok (Some sp) module pages = Some (status, Some sp', pages')"
  shows "space_wf sp'"
proof (cases "\<exists>i. find_owned_module (Some sp) module = Some i \<and> ow_imports_bound (sp_owned sp ! i)")
  case False
  then have "sp' = sp"
    using run by (cases module) (auto simp: sl_module_space_finalize_def Let_def split: option.splits)
  then show ?thesis
    using wf by simp
next
  case True
  then obtain i j where ij: "find_owned_module (Some sp) (Some j) = Some i" "module = Some j"
      "ow_imports_bound (sp_owned sp ! i)"
    by (cases module) (auto simp: find_owned_module_def split: option.splits)
  have i: "i < length (sp_owned sp)"
    using find_owned_module_Some [OF wf ij(1)] by simp
  let ?o = "sp_owned sp ! i"
  have ok: "owned_ok ?o"
    using space_wf_owned [OF wf i] .
  obtain m' where m': "sp' = sp\<lparr>sp_owned := (sp_owned sp)[i := ?o\<lparr>ow_mapped := m'\<rparr>]\<rparr>"
      "m' \<in> {ow_mapped ?o, (ow_mapped ?o)\<lparr>mp_protections_finalized := True\<rparr>,
         (ow_mapped ?o)\<lparr>mp_storage := SL_IMAGE_STORAGE_VIRTUAL_TAINTED\<rparr>}"
  proof (cases rule: finalize_cases [of mprotect_ok sysconf calloc_ok "ow_image ?o" "ow_mapped ?o" pages,
        case_names K F T])
    case (K s p)
    then show thesis
      using run ij that [of "ow_mapped ?o"] by (auto simp: sl_module_space_finalize_def Let_def)
  qed (use run ij that in \<open>auto simp: sl_module_space_finalize_def Let_def\<close>)
  have "owned_ok (?o\<lparr>ow_mapped := m'\<rparr>)"
    using m'(2) ok ij(3) by (auto simp: owned_ok_def mapping_ok_def)
  then show ?thesis
    using m'(1) owned_update_wf [OF wf i] by simp
qed

section \<open>Reachable spaces\<close>

text \<open>Whatever a call returns, the space it leaves is the next one; each call finds the machine as it
  is then.\<close>

inductive space_reachable :: "sl_module_space \<Rightarrow> bool" where
  create: "sl_module_space_create calloc_ok = Inr sp \<Longrightarrow> space_reachable sp"
| add_pe: "space_reachable sp \<Longrightarrow>
    \<forall>page_size. host_page_size sysconf = Inr page_size \<longrightarrow> host_ok h page_size \<Longrightarrow>
    sl_module_space_add_pe h sysconf malloc_ok (Some sp) name view = Some (status, Some sp', out, events) \<Longrightarrow>
    space_reachable sp'"
| add_native: "space_reachable sp \<Longrightarrow>
    sl_module_space_add_native (Some sp) name exports = (status, Some sp', out) \<Longrightarrow> space_reachable sp'"
| add_alias: "space_reachable sp \<Longrightarrow>
    sl_module_space_add_alias (Some sp) contract target = (status, Some sp') \<Longrightarrow> space_reachable sp'"
| bind_imports: "space_reachable sp \<Longrightarrow>
    sl_module_space_bind_imports calloc_ok (Some sp) module = Some (status, Some sp', k) \<Longrightarrow> space_reachable sp'"
| finalize: "space_reachable sp \<Longrightarrow>
    sl_module_space_finalize mprotect_ok sysconf calloc_ok (Some sp) module pages = Some (status, Some sp', pages') \<Longrightarrow>
    space_reachable sp'"

lemma space_reachable_wf: "space_reachable sp \<Longrightarrow> space_wf sp"
proof (induction rule: space_reachable.induct)
  case (create calloc_ok sp)
  then show ?case
    by (auto simp: sl_module_space_create_def space_wf_def registry_wf_def pe_modules_def split: if_splits)
next
  case (add_pe sp sysconf h malloc_ok name view status sp' out events)
  show ?case
  proof (cases rule: add_pe_cases [OF add_pe.IH add_pe.hyps(2), of malloc_ok name view, case_names failed added])
    case (added n f img m a registry es)
    then show ?thesis
      using add_pe.hyps(3) added_space_wf [OF add_pe.IH mapped_owned_ok [OF added(4,5)] added(7,8)] by simp
  qed (use add_pe in simp)
qed (blast intro: add_native_space_wf add_alias_space_wf bind_space_wf finalize_space_wf)+

text \<open>Destroying a space gives back the ranges of its mappings and nothing else.\<close>

definition space_ranges :: "sl_module_space \<Rightarrow> nat set" where
  "space_ranges sp = (\<Union>owned\<in>set (sp_owned sp).
     {unat (mp_address (ow_mapped owned))..<unat (mp_address (ow_mapped owned)) + mp_allocation_size (ow_mapped owned)})"

lemma destroy_ranges:
  assumes "space_wf sp" "unmaps h"
  shows "fold held_after (sl_module_space_destroy h (Some sp)) A = A - space_ranges sp"
proof -
  have one: "fst (sl_loader_unmap_image h (Some (ow_mapped owned))) =
      [UNMAPPED (unat (mp_address (ow_mapped owned))) (mp_allocation_size (ow_mapped owned))]"
    if "owned_ok owned" for owned
    using that assms(2) by (auto simp: owned_ok_def sl_loader_unmap_image_def)
  have "fold held_after (concat (map (\<lambda>owned. fst (sl_loader_unmap_image h (Some (ow_mapped owned)))) xs)) A =
      A - (\<Union>owned\<in>set xs. {unat (mp_address (ow_mapped owned))..<
        unat (mp_address (ow_mapped owned)) + mp_allocation_size (ow_mapped owned)})"
    if "list_all owned_ok xs" for xs A
    using that by (induction xs arbitrary: A) (auto simp: one)
  from this [of "rev (sp_owned sp)"] show ?thesis
    using assms(1) by (simp add: sl_module_space_destroy_def space_ranges_def space_wf_def)
qed

end
