(* ===== verification/Space_Properties.thy ===== *)
theory Space_Properties
  imports Space_Operations
begin

text \<open>
  The properties of the module space, where the parser, the loader and the registry meet: the
  invariant of every reachable space, all-or-nothing addition of PE modules, and what bound import
  slots hold.
\<close>

section \<open>A lookup that fails reports a failure\<close>

lemma proper_sum: "(\<And>e. r = Inl e \<Longrightarrow> proper (f e)) \<Longrightarrow> (\<And>a. r = Inr a \<Longrightarrow> proper (g a)) \<Longrightarrow>
    proper (case r of Inl e \<Rightarrow> f e | Inr a \<Rightarrow> g a)"
  by (simp split: sum.split)

lemma proper_option: "proper y \<Longrightarrow> (\<And>a. x = Some a \<Longrightarrow> proper (g a)) \<Longrightarrow>
    proper (case x of None \<Rightarrow> y | Some a \<Rightarrow> g a)"
  by (simp split: option.split)

lemmas proper_rules = proper_intros proper_sum proper_option

lemma build_export_result_proper: "proper (build_export_result img exports i name)"
  unfolding build_export_result_def Let_def by (intro proper_rules) simp_all

lemma export_name_loop_proper: "proper (export_name_loop img exports name i)"
proof (induction img exports name i rule: export_name_loop.induct)
  case (1 img exports name i)
  show ?case
    by (subst export_name_loop.simps) (intro proper_rules build_export_result_proper 1; simp)
qed

lemma read_export_directory_proper: "proper (read_export_directory img)"
  unfolding read_export_directory_def Let_def by (intro proper_rules) simp_all

lemma find_export_proper:
  "proper (sl_pe_find_export_by_name img name)" "proper (sl_pe_find_export_by_ordinal img ordinal)"
  unfolding sl_pe_find_export_by_name_def sl_pe_find_export_by_ordinal_def prod.case
  by (intro proper_rules export_name_loop_proper read_export_directory_proper build_export_result_proper; simp)+

lemma parse_forwarder_proper: "proper (parse_forwarder f n)"
  unfolding parse_forwarder_def Let_def by (intro proper_rules; simp)

lemma resolve_module_proper: "proper (sl_module_registry_resolve_module r name)"
  unfolding sl_module_registry_resolve_module_def by (intro proper_rules; simp)

lemma symbol_step_proper: "proper (symbol_step objects r q)"
  unfolding symbol_step_def native_step_def image_step_def forward_query_def Let_def
  by (intro proper_rules resolve_module_proper find_export_proper parse_forwarder_proper; simp)

lemma resolve_recursive_proper: "proper (resolve_symbol_recursive objects r m s n b depth)"
proof (induction "SL_FORWARDER_DEPTH_LIMIT + 1 - depth" arbitrary: m s n b depth)
  case 0
  then show ?case
    by (subst resolve_step) (simp add: proper_def)
next
  case (Suc k)
  then have rec: "proper (resolve_symbol_recursive objects r m s n b (depth + 1))" for m s n b
    by simp
  show ?case
    using symbol_step_proper [of objects r "(m, s, n, b)"]
    by (subst resolve_step) (auto simp: proper_def rec [unfolded proper_def, simplified] split: sum.split)
qed

lemma resolve_proper: "proper (sl_module_registry_resolve objects r symbol)"
  unfolding sl_module_registry_resolve_def sl_module_registry_resolve_symbol_def prod.case
  by (intro proper_rules resolve_recursive_proper; simp)

section \<open>What binding stores\<close>

lemma resolve_all_registry:
  assumes "resolve_all (sl_module_registry_import_resolver objects) r xs = (Inr addresses, c)" "k < length xs"
  shows "\<exists>res. sl_module_registry_resolve objects (Some r) (Some (xs ! k)) = Inr res \<and>
    rv_guest_address res = addresses ! k"
  using assms
proof (induction xs arbitrary: addresses k)
  case (Cons x xs)
  obtain res where x: "sl_module_registry_resolve objects (Some r) (Some x) = Inr res"
    using Cons.prems(1) resolve_proper [of objects "Some r" "Some x"]
    by (cases "sl_module_registry_resolve objects (Some r) (Some x)")
       (auto simp: sl_module_registry_import_resolver_def proper_def)
  have step: "sl_module_registry_import_resolver objects r x = ((SL_OK, rv_guest_address res), r)"
    by (simp add: sl_module_registry_import_resolver_def x)
  obtain as where as: "resolve_all (sl_module_registry_import_resolver objects) r xs = (Inr as, c)"
      "addresses = rv_guest_address res # as"
    using Cons.prems(1) by (auto simp: step split: sum.splits prod.splits)
  show ?case
    using Cons.IH [OF as(1)] Cons.prems(2) as(2) x by (cases k) auto
qed simp

lemma bind_imports_words:
  assumes "image_wf img" "mapping_ok m"
    and run: "sl_loader_bind_imports calloc_ok (Some img) (Some m) (Some resolver) c = Some (SL_OK, Some m', k, c')"
  obtains bytes xs addresses where "m' = m\<lparr>mp_bytes := Some bytes\<rparr>"
      "imported_symbols img = Some (xs, SL_OK)" "k = length xs" "resolve_all resolver c xs = (Inr addresses, c')"
      "\<forall>x < k. (\<forall>y. x < y \<and> y < k \<longrightarrow> imp_iat_rva (xs ! y) \<noteq> imp_iat_rva (xs ! x)) \<longrightarrow>
         image_word img bytes (unat (imp_iat_rva (xs ! x))) = Some (unat (addresses ! x))"
proof (cases rule: bind_imports_cases [OF assms(1,2), of calloc_ok resolver c, case_names kept bound])
  case (bound bytes bytes' xs addresses c'')
  note ps = map2_pending [OF bound(5)]
  have "\<forall>x < length xs. (\<forall>y. x < y \<and> y < length xs \<longrightarrow> imp_iat_rva (xs ! y) \<noteq> imp_iat_rva (xs ! x)) \<longrightarrow>
      image_word img bytes' (unat (imp_iat_rva (xs ! x))) = Some (unat (addresses ! x))"
    using store_pending_word [OF bound(7,6)] ps by (simp add: pending_of_def)
  then show thesis
    using that bound run by simp
qed (use run in simp)

lemma resolve_answer_ok:
  assumes "registry_wf r" "objects_ok objects r"
    and "sl_module_registry_resolve objects (Some r) (Some symbol) = Inr res"
  shows "answer_ok objects r res"
proof -
  obtain m s n b where "resolve_symbol_recursive objects r m s n b 0 = Inr res"
    using assms(3) by (auto simp: sl_module_registry_resolve_def sl_module_registry_resolve_symbol_def split: if_splits)
  from resolve_answer [OF this] show ?thesis
    using step_answer_ok [OF assms(1,2)] by auto
qed

lemma space_objects_ok:
  assumes "space_wf sp"
  shows "objects_ok (objects_of (sp_owned sp)) (sp_registry sp)"
  unfolding objects_ok_def
proof (intro ballI impI)
  fix m
  assume m: "m \<in> set (rg_modules (sp_registry sp))" "md_kind m = SL_MODULE_PE"
  obtain i where i: "i < length (sp_owned sp)" "md_image m = Some i" "md_mapped m = Some i"
    by (rule space_wf_module [OF assms m])
  show "mp_size (mapped_at (objects_of (sp_owned sp)) (the (md_mapped m))) =
      unat (pe_image_size (image_at (objects_of (sp_owned sp)) (the (md_image m))))"
    using space_wf_owned [OF assms i(1)] i by (simp add: objects_of_def owned_ok_def)
qed

text \<open>An answer depends on the load bases and sizes of the mappings, not on their bytes.\<close>

lemma answer_ok_bytes:
  assumes "answer_ok objects r res"
    and "\<forall>i. mp_load_base (mapped_at objects' i) = mp_load_base (mapped_at objects i) \<and>
      mp_size (mapped_at objects' i) = mp_size (mapped_at objects i)"
  shows "answer_ok objects' r res"
proof -
  have "address_in_module objects' a m = address_in_module objects a m" for a m
    using assms(2) by (simp add: address_in_module_def split: option.split)
  then show ?thesis
    using assms by (simp add: answer_ok_def Let_def)
qed

lemma objects_update:
  assumes "i < length owned" "mp_load_base (ow_mapped o') = mp_load_base (ow_mapped (owned ! i))"
    and "mp_size (ow_mapped o') = mp_size (ow_mapped (owned ! i))"
  shows "\<forall>j. mp_load_base (mapped_at (objects_of (owned[i := o'])) j) = mp_load_base (mapped_at (objects_of owned) j) \<and>
    mp_size (mapped_at (objects_of (owned[i := o'])) j) = mp_size (mapped_at (objects_of owned) j)"
  using assms by (auto simp: objects_of_def nth_list_update)

section \<open>Properties\<close>

text \<open>
  C22: A type invariant: in every module space that the operations can produce, whatever they return,
  each PE module of the registry is backed by exactly one owned entry whose image was parsed from the
  entry's own copy of the file and whose mapping is live and has the image's size, a mapping is made
  executable only after its imports were bound, and names are unique. Destroying such a space gives
  back exactly the address ranges of its mappings.
\<close>

theorem reachable_space_well_formed:
  assumes "space_reachable sp"
  shows "space_wf sp \<and> (unmaps h \<longrightarrow> fold held_after (sl_module_space_destroy h (Some sp)) A = A - space_ranges sp)"
  using space_reachable_wf [OF assms] destroy_ranges by blast

definition native_space :: sl_module_space where
  "native_space = \<lparr>sp_registry = \<lparr>rg_modules = [\<lparr>md_name = [0x6b], md_kind = SL_MODULE_NATIVE, md_image = None,
     md_mapped = None, md_native_exports = [\<lparr>ne_name = None, ne_forwarder = None, ne_ordinal = 7,
       ne_has_ordinal = True, ne_guest_address = 0x12340000\<rparr>]\<rparr>], rg_aliases = []\<rparr>, sp_owned = []\<rparr>"

lemma native_space_reachable: "space_reachable native_space"
proof -
  have "space_reachable \<lparr>sp_registry = \<lparr>rg_modules = [], rg_aliases = []\<rparr>, sp_owned = []\<rparr>"
    by (rule space_reachable.create [of True]) (simp add: sl_module_space_create_def)
  moreover have "sl_module_space_add_native (Some \<lparr>sp_registry = \<lparr>rg_modules = [], rg_aliases = []\<rparr>, sp_owned = []\<rparr>)
      (Some [0x6b]) (Some (md_native_exports (hd (rg_modules (sp_registry native_space))))) =
      (SL_OK, Some native_space, Some 0)"
    by code_simp
  ultimately show ?thesis
    by (rule space_reachable.add_native)
qed

theorem reachable_space_well_formed_witness:
  "space_wf native_space \<and>
   fold held_after (sl_module_space_destroy busy_host (Some native_space)) {5} = {5} - space_ranges native_space"
  using reachable_space_well_formed [OF native_space_reachable, of busy_host "{5}"]
  by (simp add: unmaps_def busy_host_def)

text \<open>
  C23: Adding a PE module is all or nothing: the call returns; when it fails, whether in the name
  check, the copy of the file, the parser, the mapping or the registry, the space is exactly as it
  was, no module is reported and not one address stays held; when it succeeds, the name, which was
  free, stands for the reported new module, every other name keeps its meaning, and the process holds
  exactly the new mapping's range.
\<close>

theorem add_pe_all_or_nothing:
  assumes "space_wf sp" "unmaps h" "\<forall>page_size. host_page_size sysconf = Inr page_size \<longrightarrow> host_ok h page_size"
  shows "\<exists>status sp' out events.
    sl_module_space_add_pe h sysconf malloc_ok (Some sp) name view = Some (status, Some sp', out, events) \<and>
    (status \<noteq> SL_OK \<longrightarrow> sp' = sp \<and> out = None \<and> held events = {}) \<and>
    (status = SL_OK \<longrightarrow> (\<exists>n f owned j. name = Some n \<and> view = Some f \<and> out = Some j \<and>
       registry_names (sp_registry sp) (folded n) = None \<and>
       registry_names (sp_registry sp') = (registry_names (sp_registry sp))(folded n \<mapsto> j) \<and>
       sp_owned sp' = sp_owned sp @ [owned] \<and> ow_file_bytes owned = f \<and>
       sl_pe_parse (Some f) = Inr (ow_image owned) \<and>
       held events = {unat (mp_address (ow_mapped owned))..<
         unat (mp_address (ow_mapped owned)) + mp_allocation_size (ow_mapped owned)}))"
proof (cases rule: add_pe_cases [OF assms(1,3), of malloc_ok name view, case_names failed added])
  case (failed status events)
  then show ?thesis
    using assms(2) by (intro exI [of _ status] exI [of _ sp] exI [of _ None] exI [of _ events]) simp
next
  case (added n f img m a registry events)
  have r: "registry_wf (sp_registry sp)"
    using assms(1) by (simp add: space_wf_def)
  have a: "unat (mp_address m) = a"
    using added(5) by (auto simp: execution_mapping_def unsigned_of_nat take_bit_nat_eq_self)
  show ?thesis
    unfolding added(1)
    using added(2-8) added(6) [OF assms(2)] a fresh_name_None [OF added(7)]
      names_add_module [OF r, of "\<lparr>md_name = n, md_kind = SL_MODULE_PE, md_image = Some (length (sp_owned sp)),
         md_mapped = Some (length (sp_owned sp)), md_native_exports = []\<rparr>"]
    by (simp add: added(9))
qed

theorem add_pe_all_or_nothing_witness:
  "\<exists>status sp' out events.
    sl_module_space_add_pe busy_host 4096 (\<lambda>n. True) (Some native_space) (Some [0x61]) (Some import_file) =
      Some (status, Some sp', out, events) \<and>
    (status \<noteq> SL_OK \<longrightarrow> sp' = native_space \<and> out = None \<and> held events = {})"
proof -
  have u: "unmaps busy_host"
    by (simp add: unmaps_def busy_host_def)
  have "host_page_size 4096 = Inr 4096"
    by (simp add: host_page_size_def)
  then have "\<forall>page_size. host_page_size 4096 = Inr page_size \<longrightarrow> host_ok busy_host page_size"
    by (simp add: host_ok_def busy_host_def)
  from add_pe_all_or_nothing [OF space_reachable_wf [OF native_space_reachable] u this,
      of "\<lambda>n. True" "Some [0x61]" "Some import_file"] show ?thesis
    by blast
qed

text \<open>
  C24: The module space composes the parser, the loader and the registry: after the imports of a
  module are bound, every slot holds the address that the registry answers for the imported symbol,
  following aliases and forwarders, and that address belongs to a module registered in the space: it
  is an address a native module exports, or lies inside the live mapping of a PE module. Unless all of
  this happens the space is exactly as it was.
\<close>

theorem bound_imports_reach_modules:
  assumes "space_wf sp"
  shows "\<exists>status sp' k. sl_module_space_bind_imports calloc_ok (Some sp) module = Some (status, Some sp', k) \<and>
    (status \<noteq> SL_OK \<longrightarrow> sp' = sp) \<and>
    (status = SL_OK \<longrightarrow> (\<exists>i xs bytes. find_owned_module (Some sp) module = Some i \<and>
       imported_symbols (ow_image (sp_owned sp ! i)) = Some (xs, SL_OK) \<and> k = length xs \<and>
       ow_imports_bound (sp_owned sp' ! i) \<and> mp_bytes (ow_mapped (sp_owned sp' ! i)) = Some bytes \<and>
       (\<forall>x < k. (\<forall>y. x < y \<and> y < k \<longrightarrow> imp_iat_rva (xs ! y) \<noteq> imp_iat_rva (xs ! x)) \<longrightarrow>
          (\<exists>res. sl_module_registry_resolve (objects_of (sp_owned sp)) (Some (sp_registry sp)) (Some (xs ! x)) = Inr res \<and>
             image_word (ow_image (sp_owned sp ! i)) bytes (unat (imp_iat_rva (xs ! x))) =
               Some (unat (rv_guest_address res)) \<and>
             answer_ok (objects_of (sp_owned sp')) (sp_registry sp') res))))"
proof (cases rule: bind_space_cases [OF assms, of calloc_ok module, case_names kept bound])
  case (bound i k m' c')
  let ?o = "sp_owned sp ! i"
  let ?objects = "objects_of (sp_owned sp)"
  have ok: "image_wf (ow_image ?o)" "mapping_ok (ow_mapped ?o)"
    using space_wf_owned [OF assms bound(3)] by (simp_all add: owned_ok_def)
  obtain bytes xs addresses where b: "m' = (ow_mapped ?o)\<lparr>mp_bytes := Some bytes\<rparr>"
      "imported_symbols (ow_image ?o) = Some (xs, SL_OK)" "k = length xs"
      "resolve_all (sl_module_registry_import_resolver ?objects) (sp_registry sp) xs = (Inr addresses, c')"
      "\<forall>x < k. (\<forall>y. x < y \<and> y < k \<longrightarrow> imp_iat_rva (xs ! y) \<noteq> imp_iat_rva (xs ! x)) \<longrightarrow>
         image_word (ow_image ?o) bytes (unat (imp_iat_rva (xs ! x))) = Some (unat (addresses ! x))"
    by (rule bind_imports_words [OF ok bound(4)])
  let ?sp = "sp\<lparr>sp_owned := (sp_owned sp)[i := ?o\<lparr>ow_mapped := m', ow_imports_bound := True\<rparr>]\<rparr>"
  have objects: "\<forall>j. mp_load_base (mapped_at (objects_of (sp_owned ?sp)) j) = mp_load_base (mapped_at ?objects j) \<and>
      mp_size (mapped_at (objects_of (sp_owned ?sp)) j) = mp_size (mapped_at ?objects j)"
    using objects_update [OF bound(3), of "?o\<lparr>ow_mapped := m', ow_imports_bound := True\<rparr>"] b(1) by simp
  have answers: "\<exists>res. sl_module_registry_resolve ?objects (Some (sp_registry sp)) (Some (xs ! x)) = Inr res \<and>
      rv_guest_address res = addresses ! x \<and> answer_ok (objects_of (sp_owned ?sp)) (sp_registry ?sp) res"
    if x: "x < k" for x
  proof -
    obtain res where res: "sl_module_registry_resolve ?objects (Some (sp_registry sp)) (Some (xs ! x)) = Inr res"
        "rv_guest_address res = addresses ! x"
      using resolve_all_registry [OF b(4), of x] x b(3) by blast
    have "answer_ok ?objects (sp_registry sp) res"
      using resolve_answer_ok [OF _ space_objects_ok [OF assms] res(1)] assms by (simp add: space_wf_def)
    then show ?thesis
      using res answer_ok_bytes [OF _ objects] by auto
  qed
  have here: "ow_imports_bound (sp_owned ?sp ! i)" "mp_bytes (ow_mapped (sp_owned ?sp ! i)) = Some bytes"
    using bound(3) b(1) by simp_all
  have "\<exists>i xs bytes. find_owned_module (Some sp) module = Some i \<and>
       imported_symbols (ow_image (sp_owned sp ! i)) = Some (xs, SL_OK) \<and> k = length xs \<and>
       ow_imports_bound (sp_owned ?sp ! i) \<and> mp_bytes (ow_mapped (sp_owned ?sp ! i)) = Some bytes \<and>
       (\<forall>x < k. (\<forall>y. x < y \<and> y < k \<longrightarrow> imp_iat_rva (xs ! y) \<noteq> imp_iat_rva (xs ! x)) \<longrightarrow>
          (\<exists>res. sl_module_registry_resolve ?objects (Some (sp_registry sp)) (Some (xs ! x)) = Inr res \<and>
             image_word (ow_image (sp_owned sp ! i)) bytes (unat (imp_iat_rva (xs ! x))) =
               Some (unat (rv_guest_address res)) \<and>
             answer_ok (objects_of (sp_owned ?sp)) (sp_registry ?sp) res))"
    by (rule exI [of _ i], rule exI [of _ xs], rule exI [of _ bytes], intro conjI allI impI
        bound(2) b(2,3) here) (use answers b(5) in fastforce)
  then show ?thesis
    unfolding bound(1) by blast
qed (blast)

text \<open>A space with a native module and an image that imports from it.\<close>

definition importing_space :: sl_module_space where
  "importing_space = \<lparr>sp_registry = (sp_registry native_space)\<lparr>rg_modules := rg_modules (sp_registry native_space) @
      [\<lparr>md_name = [0x61], md_kind = SL_MODULE_PE, md_image = Some 0, md_mapped = Some 0, md_native_exports = []\<rparr>]\<rparr>,
    sp_owned = [\<lparr>ow_file_bytes = import_file, ow_image = import_image,
      ow_mapped = import_mapping\<lparr>mp_storage := SL_IMAGE_STORAGE_VIRTUAL, mp_address := 0x400000\<rparr>,
      ow_imports_bound = False\<rparr>]\<rparr>"

lemma importing_space_wf: "space_wf importing_space"
proof -
  have "registry_wf (sp_registry importing_space)"
    by code_simp
  moreover have "owned_ok (sp_owned importing_space ! 0)"
    using import_wf by (simp add: importing_space_def owned_ok_def import_mapping_def mapping_ok_def no_mapping_def
      import_image_def)
  ultimately show ?thesis
    by (simp add: space_wf_def pe_modules_def importing_space_def native_space_def)
qed

lemma importing_answer:
  "sl_module_registry_resolve (objects_of (sp_owned importing_space)) (Some (sp_registry importing_space))
     (Some import_symbol) = Inr \<lparr>rv_module = 0, rv_export = \<lparr>exp_name = None, exp_forwarder = None,
       exp_ordinal = 7, exp_rva = 0, exp_is_forwarder = False\<rparr>, rv_guest_address = 0x12340000,
       rv_forward_depth = 0, rv_is_native = True\<rparr>"
proof -
  have "sl_module_registry_resolve_module (Some (sp_registry importing_space)) (Some [0x6b]) = Inr 0"
    by code_simp
  then show ?thesis
    by (simp add: sl_module_registry_resolve_def sl_module_registry_resolve_symbol_def import_symbol_def
        resolve_symbol_recursive.simps module_constants importing_space_def native_space_def native_match_def)
qed

theorem bound_imports_reach_modules_witness:
  "\<exists>sp' bytes. sl_module_space_bind_imports (\<lambda>n. True) (Some importing_space) (Some 1) = Some (SL_OK, Some sp', 1) \<and>
     mp_bytes (ow_mapped (sp_owned sp' ! 0)) = Some bytes \<and> image_word import_image bytes 56 = Some 0x12340000"
proof -
  have owned: "find_owned_module (Some importing_space) (Some 1) = Some 0"
    by code_simp
  let ?o = "sp_owned importing_space ! 0"
  let ?resolver = "sl_module_registry_import_resolver (objects_of (sp_owned importing_space))"
  have step: "?resolver (sp_registry importing_space) import_symbol = ((SL_OK, 0x12340000), sp_registry importing_space)"
    using importing_answer by (simp add: sl_module_registry_import_resolver_def)
  have slot: "imp_iat_rva import_symbol = 56"
    by (simp add: import_symbol_def)
  have o: "ow_image ?o = import_image"
      "ow_mapped ?o = import_mapping\<lparr>mp_storage := SL_IMAGE_STORAGE_VIRTUAL, mp_address := 0x400000\<rparr>"
    by (simp_all add: importing_space_def)
  have "\<exists>m' c'. sl_loader_bind_imports (\<lambda>n. True) (Some (ow_image ?o)) (Some (ow_mapped ?o)) (Some ?resolver)
      (sp_registry importing_space) = Some (SL_OK, Some m', 1, c')"
    unfolding o
    by (simp add: sl_loader_bind_imports_def import_walk walk_outcome_def count_import_symbol_def
        import_mapping_def no_mapping_def import_fields resolve_import_symbol_def import_width_def
        step slot sizeof_sl_pending_import_def store_u32_def)
  then have "\<exists>sp'. sl_module_space_bind_imports (\<lambda>n. True) (Some importing_space) (Some 1) = Some (SL_OK, Some sp', 1)"
    using owned by (auto simp: sl_module_space_bind_imports_def Let_def)
  then show ?thesis
    using bound_imports_reach_modules [OF importing_space_wf, of "\<lambda>n. True" "Some 1"] owned importing_answer
    by (auto simp: o(1) slot import_symbols_list)
qed

end
