(* ===== verification/Search_Pattern.thy ===== *)
theory Search_Pattern
  imports Unicode
begin

text \<open>
  \<open>src/search.c\<close>, first part: splitting the caller's relative pattern into a directory below the root
  and a last component, and matching names against that component. \<open>None\<close> stands for a write outside
  a buffer. Whether the k-th allocation of a call succeeds is a parameter.
\<close>

section \<open>Results\<close>

datatype (plugins only: code size) sl_search_result =
  SL_SEARCH_OK | SL_SEARCH_INVALID_ARGUMENT | SL_SEARCH_INVALID_ENCODING | SL_SEARCH_INVALID_PATH
  | SL_SEARCH_NO_MATCH | SL_SEARCH_IO | SL_SEARCH_OUT_OF_MEMORY

abbreviation SLASH :: u8 where "SLASH \<equiv> 0x2f"
abbreviation STAR :: u16 where "STAR \<equiv> 0x2a"
abbreviation QUESTION :: u16 where "QUESTION \<equiv> 0x3f"

section \<open>Normalization\<close>

definition component_is :: "bytes \<Rightarrow> nat \<Rightarrow> bytes \<Rightarrow> bool" where
  "component_is component len expected \<longleftrightarrow> len = length expected \<and> take len component = expected"

text \<open>The pattern in UTF-8, without its terminator.\<close>

definition encode_pattern :: "(nat \<Rightarrow> bool) \<Rightarrow> u16 list \<Rightarrow> (sl_search_result + bytes) option" where
  "encode_pattern alloc_ok units =
     (let failed = (\<lambda>status. if status = SL_ERROR_INVALID_ENCODING then SL_SEARCH_INVALID_ENCODING
                             else SL_SEARCH_INVALID_ARGUMENT)
      in case sl_utf16_to_utf8 (Some units) (length units) None 0 (Some 0) of
        None \<Rightarrow> None
      | Some (status, _, written) \<Rightarrow>
          if status \<noteq> SL_OK then Some (Inl (failed status))
          else let encoded_length = the written
          in if encoded_length = 0 \<or> encoded_length = SIZE_MAX then Some (Inl SL_SEARCH_INVALID_PATH)
          else if \<not> alloc_ok 0 then Some (Inl SL_SEARCH_OUT_OF_MEMORY)
          else (case sl_utf16_to_utf8 (Some units) (length units)
                       (Some (replicate (encoded_length + 1) 0)) encoded_length (Some 0) of
                  None \<Rightarrow> None
                | Some (status, buf, converted) \<Rightarrow>
                    if status \<noteq> SL_OK \<or> converted \<noteq> Some encoded_length then Some (Inl (failed status))
                    else Some (Inr (take encoded_length (the buf)))))"

text \<open>Removing the last component of the directory written so far.\<close>

definition parent_directory :: "bytes \<Rightarrow> bytes" where
  "parent_directory directory = butlast (rev (dropWhile (\<lambda>b. b \<noteq> SLASH) (rev directory)))"

lemma component_shorter:
  "rest \<noteq> [] \<Longrightarrow>
    length (dropWhile (\<lambda>b. b \<noteq> s) (dropWhile (\<lambda>b. b = s) rest)) < length rest"
proof (induction rest)
  case (Cons b rest)
  show ?case
  proof (cases "b = s")
    case True
    then show ?thesis
      using Cons.IH by (cases "rest = []") auto
  next
    case False
    then show ?thesis
      using length_dropWhile_le [of "\<lambda>b. b \<noteq> s" rest] by simp
  qed
qed simp

text \<open>The loop over the components in front of the leaf: \<open>rest\<close> is the input not yet read.\<close>

function normalize_directory :: "bytes \<Rightarrow> bytes \<Rightarrow> sl_search_result + bytes" where
  "normalize_directory rest directory =
     (if rest = [] then Inr directory
      else let rest = dropWhile (\<lambda>b. b = SLASH) rest;
               component = takeWhile (\<lambda>b. b \<noteq> SLASH) rest;
               rest = dropWhile (\<lambda>b. b \<noteq> SLASH) rest;
               len = length component
      in if len = 0 \<or> component_is component len [0x2e] then normalize_directory rest directory
         else if component_is component len [0x2e, 0x2e]
         then if directory = [] then Inl SL_SEARCH_INVALID_PATH
              else normalize_directory rest (parent_directory directory)
         else if 0x2a \<in> set component \<or> 0x3f \<in> set component then Inl SL_SEARCH_INVALID_PATH
         else normalize_directory rest (directory @ (if directory \<noteq> [] then [SLASH] else []) @ component))"
  by pat_completeness auto

termination
  by (relation "measure (\<lambda>(rest, directory). length rest)") (simp_all add: component_shorter)

declare normalize_directory.simps [simp del]

text \<open>The last component in UTF-16, without its terminator.\<close>

definition decode_leaf :: "(nat \<Rightarrow> bool) \<Rightarrow> bytes \<Rightarrow> (sl_search_result + u16 list) option" where
  "decode_leaf alloc_ok leaf =
     (case sl_utf8_to_utf16 (Some leaf) (length leaf) None 0 (Some 0) of
        None \<Rightarrow> None
      | Some (status, _, written) \<Rightarrow>
          if status \<noteq> SL_OK then Some (Inl SL_SEARCH_INVALID_ENCODING)
          else let pattern_length = the written
          in if pattern_length > SIZE_MAX div 2 - 1 then Some (Inl SL_SEARCH_OUT_OF_MEMORY)
          else if \<not> alloc_ok 2 then Some (Inl SL_SEARCH_OUT_OF_MEMORY)
          else (case sl_utf8_to_utf16 (Some leaf) (length leaf)
                       (Some (replicate (pattern_length + 1) 0)) pattern_length (Some 0) of
                  None \<Rightarrow> None
                | Some (status, buf, converted) \<Rightarrow>
                    if status \<noteq> SL_OK \<or> converted \<noteq> Some pattern_length
                    then Some (Inl SL_SEARCH_INVALID_ENCODING)
                    else Some (Inr (take pattern_length (the buf)))))"

definition split_pattern :: "(nat \<Rightarrow> bool) \<Rightarrow> bytes \<Rightarrow> (sl_search_result + bytes \<times> u16 list) option" where
  "split_pattern alloc_ok text_bytes =
     (if 0x3a \<in> set text_bytes then Some (Inl SL_SEARCH_INVALID_PATH)
      else let text_bytes = map (\<lambda>b. if b = 0x5c then SLASH else b) text_bytes
      in if hd text_bytes = SLASH \<or> last text_bytes = SLASH then Some (Inl SL_SEARCH_INVALID_PATH)
      else let leaf = rev (takeWhile (\<lambda>b. b \<noteq> SLASH) (rev text_bytes));
               leaf_length = length leaf;
               leaf_start = length text_bytes - leaf_length
      in if leaf_length = 0 \<or> component_is leaf leaf_length [0x2e] \<or> component_is leaf leaf_length [0x2e, 0x2e]
         then Some (Inl SL_SEARCH_INVALID_PATH)
         else if \<not> alloc_ok 1 then Some (Inl SL_SEARCH_OUT_OF_MEMORY)
         else (case normalize_directory (take leaf_start text_bytes) [] of
                 Inl e \<Rightarrow> Some (Inl e)
               | Inr directory \<Rightarrow>
                   map_option (\<lambda>r. case r of Inl e \<Rightarrow> Inl e | Inr pattern \<Rightarrow> Inr (directory, pattern))
                     (decode_leaf alloc_ok leaf)))"

definition normalize_pattern ::
    "(nat \<Rightarrow> bool) \<Rightarrow> u16 list option \<Rightarrow> (sl_search_result + bytes \<times> u16 list) option" where
  "normalize_pattern alloc_ok path_pattern =
     (case path_pattern of None \<Rightarrow> Some (Inl SL_SEARCH_INVALID_ARGUMENT)
      | Some units \<Rightarrow>
          if length units = 0 then Some (Inl SL_SEARCH_INVALID_ARGUMENT)
          else if 0 \<in> set units then Some (Inl SL_SEARCH_INVALID_PATH)
          else (case encode_pattern alloc_ok units of
                  None \<Rightarrow> None
                | Some (Inl e) \<Rightarrow> Some (Inl e)
                | Some (Inr text_bytes) \<Rightarrow> split_pattern alloc_ok text_bytes))"

section \<open>Wildcards\<close>

definition fold_ascii :: "u16 \<Rightarrow> u16" where
  "fold_ascii unit = (if unit \<ge> 0x41 \<and> unit \<le> 0x5a then unit - 0x41 + 0x61 else unit)"

definition units_equal :: "u16 \<Rightarrow> u16 \<Rightarrow> bool \<Rightarrow> bool" where
  "units_equal first second case_sensitive =
     (if case_sensitive then first = second else fold_ascii first = fold_ascii second)"

text \<open>The matching loop; \<open>star_index\<close> is \<open>None\<close> where the code has \<open>SIZE_MAX\<close>. The termination order:
  the last star moves right, then the position its match starts from, then the position in the name.\<close>

definition star_room :: "nat \<Rightarrow> nat \<Rightarrow> nat option \<Rightarrow> nat" where
  "star_room pattern_length pattern_index star_index = (case star_index of
       None \<Rightarrow> pattern_length + 2
     | Some s \<Rightarrow> if s < pattern_index then pattern_length - s else pattern_length + 1)"

function wildcard_loop ::
    "u16 list \<Rightarrow> u16 list \<Rightarrow> bool \<Rightarrow> nat \<Rightarrow> nat \<Rightarrow> nat option \<Rightarrow> nat \<Rightarrow> bool" where
  "wildcard_loop pattern name case_sensitive pattern_index name_index star_index star_name_index =
     (if name_index < length name
      then if pattern_index < length pattern \<and>
              (pattern ! pattern_index = QUESTION \<or>
               units_equal (pattern ! pattern_index) (name ! name_index) case_sensitive)
           then wildcard_loop pattern name case_sensitive (pattern_index + 1) (name_index + 1)
                  star_index star_name_index
           else if pattern_index < length pattern \<and> pattern ! pattern_index = STAR
           then wildcard_loop pattern name case_sensitive (pattern_index + 1) name_index
                  (Some pattern_index) name_index
           else (case star_index of
                   Some star \<Rightarrow>
                     wildcard_loop pattern name case_sensitive (star + 1) (star_name_index + 1)
                       star_index (star_name_index + 1)
                 | None \<Rightarrow> False)
      else list_all (\<lambda>c. c = STAR) (drop pattern_index pattern))"
  by pat_completeness auto
termination
  by (relation "measures [\<lambda>(p, n, cs, i, j, s, k). star_room (length p) i s,
        \<lambda>(p, n, cs, i, j, s, k). length n - k, \<lambda>(p, n, cs, i, j, s, k). length n - j]")
    (auto simp: star_room_def split: option.split)

declare wildcard_loop.simps [simp del]

definition wildcard_matches :: "u16 list \<Rightarrow> u16 list \<Rightarrow> bool \<Rightarrow> bool" where
  "wildcard_matches pattern name case_sensitive =
     (if length pattern = 3 \<and> pattern ! 0 = STAR \<and> pattern ! 1 = 0x2e \<and> pattern ! 2 = STAR then True
      else wildcard_loop pattern name case_sensitive 0 0 None 0)"

end
