(* ===== verification/Search.thy ===== *)
theory Search
  imports Search_Pattern
begin

text \<open>
  \<open>src/search.c\<close>, second part: the search object over a host directory. The system calls are
  functions of the state of the host, which they may change; an open or a read gives an error number
  or its result. The out parameter \<open>host_error\<close> is a result, 0 where the code leaves it clean.
\<close>

section \<open>The host\<close>

record host_stat =
  st_mode :: u32
  st_size :: "64 word"
  st_atim :: "64 word \<times> 64 word"
  st_mtim :: "64 word \<times> 64 word"

text \<open>\<open>openat\<close> is given whether it may follow a symbolic link.\<close>

record 'w search_host =
  sh_openat :: "'w \<Rightarrow> int \<Rightarrow> bytes \<Rightarrow> bool \<Rightarrow> (int + int) \<times> 'w"
  sh_close :: "'w \<Rightarrow> int \<Rightarrow> 'w"
  sh_getdents64 :: "'w \<Rightarrow> int \<Rightarrow> (int + bytes) \<times> 'w"
  sh_fstatat :: "'w \<Rightarrow> int \<Rightarrow> bytes \<Rightarrow> (int + host_stat) \<times> 'w"

definition ENOENT :: int where "ENOENT = 2"
definition EINTR :: int where "EINTR = 4"
definition EIO :: int where "EIO = 5"

definition S_IFMT :: u32 where "S_IFMT = 0xf000"
definition S_ISDIR :: "u32 \<Rightarrow> bool" where "S_ISDIR m \<longleftrightarrow> m AND S_IFMT = 0x4000"
definition S_ISLNK :: "u32 \<Rightarrow> bool" where "S_ISLNK m \<longleftrightarrow> m AND S_IFMT = 0xa000"

section \<open>Opening the directory\<close>

lemma next_component_shorter:
  "dropWhile p xs \<noteq> [] \<Longrightarrow> length (dropWhile p xs) - Suc 0 < length xs"
  using length_dropWhile_le [of p xs] by (cases "dropWhile p xs") auto

text \<open>The components are opened one below the other; each step closes the one above. The result is an
  error number or the descriptor.\<close>

function open_components ::
    "'w search_host \<Rightarrow> 'w \<Rightarrow> int \<Rightarrow> bytes \<Rightarrow> (int + int) \<times> 'w" where
  "open_components host w current component =
     (if component = [] then (Inr current, w)
      else let name = takeWhile (\<lambda>b. b \<noteq> SLASH) component;
               separator = dropWhile (\<lambda>b. b \<noteq> SLASH) component
      in case sh_openat host w current name False of
           (opened, w) \<Rightarrow>
             let w = sh_close host w current
             in (case opened of
                   Inl e \<Rightarrow> (Inl e, w)
                 | Inr fd \<Rightarrow>
                     if separator = [] then (Inr fd, w)
                     else open_components host w fd (tl separator)))"
  by pat_completeness auto

termination
  by (relation "measure (\<lambda>(host, w, current, component). length component)")
    (simp_all add: next_component_shorter)

declare open_components.simps [simp del]

definition open_search_directory :: "'w search_host \<Rightarrow> 'w \<Rightarrow> int \<Rightarrow> bytes \<Rightarrow> (int + int) \<times> 'w" where
  "open_search_directory host w root_fd directory =
     (case sh_openat host w root_fd [0x2e] True of
        (Inl e, w) \<Rightarrow> (Inl e, w)
      | (Inr current, w) \<Rightarrow> open_components host w current directory)"

section \<open>What is reported about an entry\<close>

definition SL_FILE_ATTRIBUTE_DIRECTORY :: u32 where "SL_FILE_ATTRIBUTE_DIRECTORY = 0x10"
definition SL_FILE_ATTRIBUTE_ARCHIVE :: u32 where "SL_FILE_ATTRIBUTE_ARCHIVE = 0x20"
definition SL_FILE_ATTRIBUTE_REPARSE_POINT :: u32 where "SL_FILE_ATTRIBUTE_REPARSE_POINT = 0x400"
definition SL_FILETIME_UNIX_EPOCH_DELTA :: "64 word" where "SL_FILETIME_UNIX_EPOCH_DELTA = 11644473600"
definition SL_FILETIME_TICKS_PER_SECOND :: u64 where "SL_FILETIME_TICKS_PER_SECOND = 10000000"
definition SL_WIN32_FIND_NAME_CAPACITY :: nat where "SL_WIN32_FIND_NAME_CAPACITY = 260"
definition SL_WIN32_FIND_ALTERNATE_NAME_CAPACITY :: nat where "SL_WIN32_FIND_ALTERNATE_NAME_CAPACITY = 14"

record sl_win32_search_filetime =
  low_date_time :: u32
  high_date_time :: u32

record sl_win32_find_data_w =
  fd_file_attributes :: u32
  fd_creation_time :: sl_win32_search_filetime
  fd_last_access_time :: sl_win32_search_filetime
  fd_last_write_time :: sl_win32_search_filetime
  fd_file_size_high :: u32
  fd_file_size_low :: u32
  fd_reserved0 :: u32
  fd_reserved1 :: u32
  fd_file_name :: "u16 list"
  fd_alternate_file_name :: "u16 list"

record sl_win32_search_options =
  op_case_sensitive :: bool
  op_directories_only :: bool

text \<open>Times are signed 64-bit seconds and nanoseconds, read with \<open>sint\<close> where the code compares
  them as signed.\<close>

definition timespec_to_filetime :: "64 word \<times> 64 word \<Rightarrow> u64" where
  "timespec_to_filetime t = (case t of (tv_sec, tv_nsec) \<Rightarrow>
     if sint tv_sec < - sint SL_FILETIME_UNIX_EPOCH_DELTA then 0
     else if \<not> sint tv_sec < 0 \<and> tv_sec > - 1 - SL_FILETIME_UNIX_EPOCH_DELTA then - 1
     else let seconds = tv_sec + SL_FILETIME_UNIX_EPOCH_DELTA
     in if seconds > (- 1) div SL_FILETIME_TICKS_PER_SECOND then - 1
     else let ticks = seconds * SL_FILETIME_TICKS_PER_SECOND;
              subsecond = (if sint tv_nsec \<le> 0 then 0 else tv_nsec div 100)
     in if ticks > - 1 - subsecond then - 1 else ticks + subsecond)"

definition split_filetime :: "u64 \<Rightarrow> sl_win32_search_filetime" where
  "split_filetime v = \<lparr>low_date_time = ucast v, high_date_time = ucast (drop_bit 32 v)\<rparr>"

definition empty_find_data :: sl_win32_find_data_w where
  "empty_find_data = \<lparr>fd_file_attributes = 0, fd_creation_time = split_filetime 0,
     fd_last_access_time = split_filetime 0, fd_last_write_time = split_filetime 0,
     fd_file_size_high = 0, fd_file_size_low = 0, fd_reserved0 = 0, fd_reserved1 = 0,
     fd_file_name = replicate SL_WIN32_FIND_NAME_CAPACITY 0,
     fd_alternate_file_name = replicate SL_WIN32_FIND_ALTERNATE_NAME_CAPACITY 0\<rparr>"

section \<open>The search object\<close>

definition SL_SEARCH_BUFFER_SIZE :: nat where "SL_SEARCH_BUFFER_SIZE = 8192"

record sl_win32_search =
  se_locked :: bool
  se_directory_fd :: int
  se_pattern :: "u16 list"
  se_case_sensitive :: bool
  se_directories_only :: bool
  se_exhausted :: bool
  se_buffer_offset :: nat
  se_buffer_size :: nat
  se_buffer :: bytes

text \<open>Taking the lock waits while it is held, which is \<open>None\<close>.\<close>

definition search_lock :: "sl_win32_search \<Rightarrow> sl_win32_search option" where
  "search_lock search = (if se_locked search then None else Some (search\<lparr>se_locked := True\<rparr>))"

definition search_unlock :: "sl_win32_search \<Rightarrow> sl_win32_search" where
  "search_unlock search = search\<lparr>se_locked := False\<rparr>"

text \<open>What is reported of an entry, if it matches. The outer option is \<open>None\<close> for a write outside the
  buffer of the name.\<close>

definition find_data :: "u16 list \<Rightarrow> nat \<Rightarrow> host_stat \<Rightarrow> sl_win32_find_data_w" where
  "find_data wide_name wide_length metadata =
     (let found = empty_find_data
        \<lparr>fd_file_attributes :=
           (if S_ISDIR (st_mode metadata) then SL_FILE_ATTRIBUTE_DIRECTORY
            else if S_ISLNK (st_mode metadata) then SL_FILE_ATTRIBUTE_REPARSE_POINT
            else SL_FILE_ATTRIBUTE_ARCHIVE),
         fd_last_access_time := split_filetime (timespec_to_filetime (st_atim metadata)),
         fd_last_write_time := split_filetime (timespec_to_filetime (st_mtim metadata))\<rparr>;
       found = (if \<not> S_ISDIR (st_mode metadata) \<and> sint (st_size metadata) > 0
                then found\<lparr>fd_file_size_low := ucast (st_size metadata),
                           fd_file_size_high := ucast (drop_bit 32 (st_size metadata))\<rparr>
                else found)
      in found\<lparr>fd_file_name := take (wide_length + 1) wide_name @ drop (wide_length + 1) (fd_file_name found)\<rparr>)"

definition fill_find_data ::
    "sl_win32_search \<Rightarrow> bytes \<Rightarrow> host_stat \<Rightarrow> sl_win32_find_data_w option option" where
  "fill_find_data search name metadata =
     (case sl_utf8_to_utf16 (Some name) (length name) None 0 (Some 0) of
        None \<Rightarrow> None
      | Some (status, _, written) \<Rightarrow>
          let wide_length = the written
          in if status \<noteq> SL_OK \<or> wide_length \<ge> SL_WIN32_FIND_NAME_CAPACITY then Some None
             else (case sl_utf8_to_utf16 (Some name) (length name)
                          (Some (replicate SL_WIN32_FIND_NAME_CAPACITY 0))
                          (SL_WIN32_FIND_NAME_CAPACITY - 1) (Some 0) of
                     None \<Rightarrow> None
                   | Some (status, buf, converted) \<Rightarrow>
                       if status \<noteq> SL_OK \<or> converted \<noteq> Some wide_length \<or>
                          \<not> wildcard_matches (se_pattern search) (take wide_length (the buf))
                              (se_case_sensitive search)
                       then Some None
                       else if se_directories_only search \<and> \<not> S_ISDIR (st_mode metadata) then Some None
                       else Some (Some (find_data (the buf) wide_length metadata))))"

section \<open>Walking the directory\<close>

text \<open>\<open>offsetof (sl_linux_dirent64, name)\<close> and the length field of the record at an offset.\<close>

definition dirent_name_offset :: nat where "dirent_name_offset = 19"

definition dirent_record_length :: "bytes \<Rightarrow> nat \<Rightarrow> nat" where
  "dirent_record_length buffer offset =
     unat (ucast (buffer ! (offset + 16)) OR push_bit 8 (ucast (buffer ! (offset + 17))) :: u16)"

text \<open>Reading again while the call is interrupted; it may never succeed.\<close>

partial_function (option) read_entries ::
    "'w search_host \<Rightarrow> 'w \<Rightarrow> int \<Rightarrow> ((int + bytes) \<times> 'w) option" where
  "read_entries host w fd =
     (case sh_getdents64 host w fd of
        (Inl e, w) \<Rightarrow> if e = EINTR then read_entries host w fd else Some (Inl e, w)
      | (Inr data, w) \<Rightarrow> Some (Inr data, w))"

text \<open>The entry at the buffer's offset: either the walk goes on, or it ends with a result.\<close>

type_synonym search_answer = "sl_search_result \<times> sl_win32_find_data_w option \<times> int"

definition search_entry ::
    "'w search_host \<Rightarrow> 'w \<Rightarrow> sl_win32_search \<Rightarrow>
     (search_answer option \<times> sl_win32_search \<times> 'w) option" where
  "search_entry host w search =
     (let remaining = se_buffer_size search - se_buffer_offset search;
          minimum = dirent_name_offset + 1;
          failed = (\<lambda>e search w. Some (Some (SL_SEARCH_IO, None, e), search, w))
      in if remaining < dirent_name_offset + 1 then failed EIO search w
         else let record_length = dirent_record_length (se_buffer search) (se_buffer_offset search)
         in if record_length < minimum \<or> record_length > remaining then failed EIO search w
         else let entry_name = take (record_length - dirent_name_offset)
                    (drop (se_buffer_offset search + dirent_name_offset) (se_buffer search));
                  search = search\<lparr>se_buffer_offset := se_buffer_offset search + record_length\<rparr>
         in if 0 \<notin> set entry_name then failed EIO search w
         else let name = takeWhile (\<lambda>b. b \<noteq> 0) entry_name
         in if name = [0x2e] \<or> name = [0x2e, 0x2e] then Some (None, search, w)
         else (case sh_fstatat host w (se_directory_fd search) name of
                 (Inl e, w) \<Rightarrow> if e = ENOENT then Some (None, search, w) else failed e search w
               | (Inr metadata, w) \<Rightarrow>
                   (case fill_find_data search name metadata of
                      None \<Rightarrow> None
                    | Some None \<Rightarrow> Some (None, search, w)
                    | Some (Some found) \<Rightarrow> Some (Some (SL_SEARCH_OK, Some found, 0), search, w))))"

text \<open>A fresh buffer, unless there are entries left in it; the walk ends at an error or at the end of
  the directory.\<close>

definition refill ::
    "'w search_host \<Rightarrow> 'w \<Rightarrow> sl_win32_search \<Rightarrow> (search_answer option \<times> sl_win32_search \<times> 'w) option" where
  "refill host w search =
     (if se_buffer_offset search = se_buffer_size search
      then (case read_entries host w (se_directory_fd search) of
              None \<Rightarrow> None
            | Some (Inl e, w) \<Rightarrow> Some (Some (SL_SEARCH_IO, None, e), search, w)
            | Some (Inr data, w) \<Rightarrow>
                if length data = 0
                then Some (Some (SL_SEARCH_NO_MATCH, None, 0), search\<lparr>se_exhausted := True\<rparr>, w)
                else Some (None, search\<lparr>se_buffer := data @ drop (length data) (se_buffer search),
                       se_buffer_offset := 0, se_buffer_size := length data\<rparr>, w))
      else Some (None, search, w))"

definition search_iteration ::
    "'w search_host \<Rightarrow> 'w \<Rightarrow> sl_win32_search \<Rightarrow> (search_answer option \<times> sl_win32_search \<times> 'w) option" where
  "search_iteration host w search =
     (case refill host w search of
        None \<Rightarrow> None
      | Some (Some answer, search, w) \<Rightarrow> Some (Some answer, search, w)
      | Some (None, search, w) \<Rightarrow> search_entry host w search)"

partial_function (option) search_next_locked ::
    "'w search_host \<Rightarrow> 'w \<Rightarrow> sl_win32_search \<Rightarrow> (search_answer \<times> sl_win32_search \<times> 'w) option" where
  "search_next_locked host w search =
     (if se_exhausted search then Some ((SL_SEARCH_NO_MATCH, None, 0), search, w)
      else (case search_iteration host w search of
              None \<Rightarrow> None
            | Some (Some answer, search, w) \<Rightarrow> Some (answer, search, w)
            | Some (None, search, w) \<Rightarrow> search_next_locked host w search))"

section \<open>The operations\<close>

definition sl_win32_search_destroy :: "'w search_host \<Rightarrow> 'w \<Rightarrow> sl_win32_search option \<Rightarrow> 'w" where
  "sl_win32_search_destroy host w opaque = (case opaque of None \<Rightarrow> w
     | Some search \<Rightarrow> if se_directory_fd search \<ge> 0 then sh_close host w (se_directory_fd search) else w)"

text \<open>The result: the status, \<open>*out_search\<close>, \<open>*first_result\<close> where it is written, \<open>*host_error\<close> and the
  host.\<close>

definition sl_win32_search_open ::
    "'w search_host \<Rightarrow> (nat \<Rightarrow> bool) \<Rightarrow> 'w \<Rightarrow> int \<Rightarrow> u16 list option \<Rightarrow> sl_win32_search_options \<Rightarrow>
     (sl_search_result \<times> sl_win32_search option \<times> sl_win32_find_data_w option \<times> int \<times> 'w) option" where
  "sl_win32_search_open host alloc_ok w root_fd path_pattern options =
     (let failed = (\<lambda>status e w. Some (status, None, None, e, w))
      in if root_fd < 0 \<or> (case path_pattern of None \<Rightarrow> True | Some units \<Rightarrow> length units = 0)
         then failed SL_SEARCH_INVALID_ARGUMENT 0 w
         else (case normalize_pattern alloc_ok path_pattern of
                 None \<Rightarrow> None
               | Some (Inl e) \<Rightarrow> failed e 0 w
               | Some (Inr (directory, pattern)) \<Rightarrow>
                   (case open_search_directory host w root_fd directory of
                      (Inl e, w) \<Rightarrow> failed SL_SEARCH_IO e w
                    | (Inr directory_fd, w) \<Rightarrow>
                        if \<not> alloc_ok 3
                        then failed SL_SEARCH_OUT_OF_MEMORY 0 (sh_close host w directory_fd)
                        else let search = \<lparr>se_locked = False, se_directory_fd = directory_fd,
                               se_pattern = pattern, se_case_sensitive = op_case_sensitive options,
                               se_directories_only = op_directories_only options, se_exhausted = False,
                               se_buffer_offset = 0, se_buffer_size = 0,
                               se_buffer = replicate SL_SEARCH_BUFFER_SIZE 0\<rparr>
                        in (case search_next_locked host w search of
                              None \<Rightarrow> None
                            | Some ((status, found, e), search, w) \<Rightarrow>
                                if status \<noteq> SL_SEARCH_OK
                                then failed status e (sl_win32_search_destroy host w (Some search))
                                else Some (SL_SEARCH_OK, Some search, found, e, w)))))"

definition sl_win32_search_next ::
    "'w search_host \<Rightarrow> 'w \<Rightarrow> sl_win32_search option \<Rightarrow>
     (search_answer \<times> sl_win32_search option \<times> 'w) option" where
  "sl_win32_search_next host w search =
     (case search of None \<Rightarrow> Some ((SL_SEARCH_INVALID_ARGUMENT, None, 0), None, w)
      | Some s \<Rightarrow>
          (case search_lock s of None \<Rightarrow> None
           | Some s \<Rightarrow>
               map_option (\<lambda>(answer, s, w). (answer, Some (search_unlock s), w))
                 (search_next_locked host w s)))"

end
