(* ===== verification/Search_Wildcard.thy ===== *)
theory Search_Wildcard
  imports Search_Pattern
begin

text \<open>
  Wildcard matching: what a pattern means (\<open>glob\<close>) and that the loop of \<open>src/search.c\<close>, which
  remembers only the last star, decides it.
\<close>

section \<open>What a wildcard pattern means\<close>

text \<open>A star stands for any sequence of units, a question mark for one unit.\<close>

fun glob :: "bool \<Rightarrow> u16 list \<Rightarrow> u16 list \<Rightarrow> bool" where
  "glob cs [] xs = (xs = [])"
| "glob cs (c # ps) xs =
     (if c = STAR then glob cs ps xs \<or> (case xs of [] \<Rightarrow> False | x # ys \<Rightarrow> glob cs (c # ps) ys)
      else case xs of [] \<Rightarrow> False
           | x # ys \<Rightarrow> (c = QUESTION \<or> units_equal c x cs) \<and> glob cs ps ys)"

definition unit_matches :: "bool \<Rightarrow> u16 \<Rightarrow> u16 \<Rightarrow> bool" where
  "unit_matches cs c x \<longleftrightarrow> c = QUESTION \<or> units_equal c x cs"

lemma glob_star: "glob cs (STAR # ps) xs \<longleftrightarrow> (\<exists>k \<le> length xs. glob cs ps (drop k xs))"
proof (induction xs)
  case (Cons x xs)
  have "(\<exists>k \<le> length (x # xs). glob cs ps (drop k (x # xs))) \<longleftrightarrow>
      glob cs ps (x # xs) \<or> (\<exists>k \<le> length xs. glob cs ps (drop k xs))"
    by (metis (no_types, lifting) drop0 drop_Suc_Cons le0 length_Cons not0_implies_Suc not_less_eq_eq)
  then show ?case
    using Cons by simp
qed simp

lemma glob_nil: "glob cs ps [] \<longleftrightarrow> list_all (\<lambda>c. c = STAR) ps"
  by (induction ps) auto

text \<open>A pattern without a star at its front takes units one by one.\<close>

lemma glob_literal:
  assumes "STAR \<notin> set qs"
  shows "glob cs (qs @ ps) xs \<longleftrightarrow> length qs \<le> length xs \<and>
    list_all2 (unit_matches cs) qs (take (length qs) xs) \<and> glob cs ps (drop (length qs) xs)"
  using assms
proof (induction qs arbitrary: xs)
  case (Cons q qs)
  then show ?case
    by (cases xs) (auto simp: unit_matches_def)
qed simp

text \<open>Once a literal stretch behind a star has matched, a second star makes the first one's choice
  irrelevant.\<close>

lemma glob_second_star:
  assumes "STAR \<notin> set qs" "list_all2 (unit_matches cs) qs (take (length qs) xs)" "length qs \<le> length xs"
  shows "glob cs (STAR # qs @ STAR # ps) xs \<longleftrightarrow> glob cs (STAR # ps) (drop (length qs) xs)"
proof
  assume "glob cs (STAR # qs @ STAR # ps) xs"
  then obtain k where "k \<le> length xs" "glob cs (STAR # ps) (drop (length qs) (drop k xs))"
      "length qs \<le> length xs - k"
    unfolding glob_star [of cs "qs @ STAR # ps"] glob_literal [OF assms(1)] by auto
  then obtain j where "j \<le> length xs - (length qs + k)" "glob cs ps (drop j (drop (length qs + k) xs))"
    by (auto simp: glob_star simp del: glob.simps)
  then have "k + j \<le> length (drop (length qs) xs)" "glob cs ps (drop (k + j) (drop (length qs) xs))"
    using \<open>length qs \<le> length xs - k\<close> \<open>k \<le> length xs\<close> by (simp_all add: add.commute add.left_commute)
  then show "glob cs (STAR # ps) (drop (length qs) xs)"
    unfolding glob_star by blast
next
  assume "glob cs (STAR # ps) (drop (length qs) xs)"
  then have "glob cs (qs @ STAR # ps) (drop 0 xs)"
    using assms glob_literal [OF assms(1)] by simp
  then show "glob cs (STAR # qs @ STAR # ps) xs"
    unfolding glob_star [of cs "qs @ STAR # ps"] by blast
qed

text \<open>When what follows the literal stretch cannot match, the star moves on by one unit.\<close>

lemma glob_move_star:
  assumes "STAR \<notin> set qs" "\<not> glob cs ps (drop (length qs) xs)" "xs \<noteq> []"
  shows "glob cs (STAR # qs @ ps) xs \<longleftrightarrow> glob cs (STAR # qs @ ps) (tl xs)"
proof -
  have "\<not> glob cs (qs @ ps) xs"
    using assms glob_literal by blast
  then show ?thesis
    using assms(3) by (cases xs) simp_all
qed

text \<open>At the end of the name the stretch has used up everything.\<close>

lemma glob_exhausted:
  assumes "STAR \<notin> set qs" "list_all2 (unit_matches cs) qs xs"
  shows "glob cs (STAR # qs @ ps) xs \<longleftrightarrow> list_all (\<lambda>c. c = STAR) ps"
proof -
  have len: "length qs = length xs"
    using assms(2) by (rule list_all2_lengthD)
  have "glob cs (STAR # qs @ ps) xs \<longleftrightarrow> (\<exists>k \<le> length xs. k = 0 \<and> glob cs (qs @ ps) (drop k xs))"
    unfolding glob_star [of cs "qs @ ps"] glob_literal [OF assms(1)]
    using assms(2) by (auto simp: len)
  then show ?thesis
    using assms len by (simp add: glob_literal glob_nil)
qed

section \<open>The loop\<close>

text \<open>Without a star so far, the rest of the pattern is matched against the rest of the name; with
  one, the star's rest, and the units between the star and the current position have matched.\<close>

definition loop_ok :: "bool \<Rightarrow> u16 list \<Rightarrow> u16 list \<Rightarrow> nat \<Rightarrow> nat \<Rightarrow> nat option \<Rightarrow> nat \<Rightarrow> bool" where
  "loop_ok cs p n i j star k \<longleftrightarrow> i \<le> length p \<and> j \<le> length n \<and>
     (case star of None \<Rightarrow> True
      | Some s \<Rightarrow> s < i \<and> p ! s = STAR \<and> k \<le> j \<and> j - k = i - (s + 1) \<and>
          STAR \<notin> set (take (i - (s + 1)) (drop (s + 1) p)) \<and>
          list_all2 (unit_matches cs) (take (i - (s + 1)) (drop (s + 1) p)) (take (j - k) (drop k n)))"

definition loop_goal :: "bool \<Rightarrow> u16 list \<Rightarrow> u16 list \<Rightarrow> nat \<Rightarrow> nat \<Rightarrow> nat option \<Rightarrow> nat \<Rightarrow> bool" where
  "loop_goal cs p n i j star k = (case star of None \<Rightarrow> glob cs (drop i p) (drop j n)
     | Some s \<Rightarrow> glob cs (drop s p) (drop k n))"

lemma star_stretch:
  assumes "loop_ok cs p n i j (Some s) k"
  defines "qs \<equiv> take (i - (s + 1)) (drop (s + 1) p)"
  shows "drop s p = STAR # qs @ drop i p" "STAR \<notin> set qs" "length qs = j - k" "k \<le> j" "j \<le> length n"
    "list_all2 (unit_matches cs) qs (take (length qs) (drop k n))" "drop (length qs) (drop k n) = drop j n"
proof -
  have b: "s < i" "i \<le> length p" "p ! s = STAR" "j - k = i - (s + 1)" "k \<le> j" "j \<le> length n"
    using assms(1) by (auto simp: loop_ok_def)
  show len: "length qs = j - k"
    using b by (simp add: qs_def)
  have "drop (s + 1) p = qs @ drop i p"
    using b by (simp add: qs_def) (metis Suc_leI append_take_drop_id drop_drop le_add_diff_inverse2)
  then show "drop s p = STAR # qs @ drop i p"
    using b by (metis Cons_nth_drop_Suc Suc_eq_plus1 less_le_trans)
  show "STAR \<notin> set qs" "list_all2 (unit_matches cs) qs (take (length qs) (drop k n))"
    using assms(1) len by (auto simp: loop_ok_def qs_def)
  have "length qs + k = j"
    using len b(5) by simp
  then show "drop (length qs) (drop k n) = drop j n"
    by simp
  show "k \<le> j" "j \<le> length n"
    using b by simp_all
qed

text \<open>A star in the pattern equals no unit of a name without stars.\<close>

lemma fold_ascii_star: "fold_ascii x = STAR \<longleftrightarrow> x = STAR"
proof -
  have "x = 0x0a" if "x - 0x41 + 0x61 = (STAR :: u16)"
  proof -
    have "x = x - 0x41 + 0x61 - 0x20"
      by simp
    also have "\<dots> = 0x0a"
      unfolding that by simp
    finally show ?thesis .
  qed
  then show ?thesis
    by (auto simp: fold_ascii_def)
qed

lemma star_no_match: "x \<noteq> STAR \<Longrightarrow> \<not> unit_matches cs STAR x"
  using fold_ascii_star [of x] by (auto simp: unit_matches_def units_equal_def fold_ascii_def)

text \<open>Where no step fits the rest of the pattern does not match the rest of the name.\<close>

lemma glob_stuck:
  assumes "loop_ok cs p n i j star k" "j < length n"
    and "\<not> (i < length p \<and> unit_matches cs (p ! i) (n ! j))" "\<not> (i < length p \<and> p ! i = STAR)"
  shows "\<not> glob cs (drop i p) (drop j n)"
proof (cases "i < length p")
  case True
  then have "drop i p = p ! i # drop (Suc i) p" "drop j n = n ! j # drop (Suc j) n"
    using assms(2) by (simp_all add: Cons_nth_drop_Suc)
  then show ?thesis
    using assms True by (simp add: unit_matches_def)
qed (use assms in simp)

lemma loop_ok_take:
  assumes "loop_ok cs p n i j star k" "j < length n" "i < length p" "unit_matches cs (p ! i) (n ! j)"
    and "p ! i \<noteq> STAR"
  shows "loop_ok cs p n (i + 1) (j + 1) star k"
proof (cases star)
  case (Some s)
  have b: "s < i" "j - k = i - (s + 1)" "k \<le> j"
    using assms(1) Some by (auto simp: loop_ok_def)
  have "take (i + 1 - (s + 1)) (drop (s + 1) p) = take (i - (s + 1)) (drop (s + 1) p) @ [p ! i]"
    using b assms(3) take_Suc_conv_app_nth [of "i - (s + 1)" "drop (s + 1) p"] by (simp add: Suc_diff_Suc)
  moreover have "take (j + 1 - k) (drop k n) = take (j - k) (drop k n) @ [n ! j]"
    using b(3) assms(2) take_Suc_conv_app_nth [of "j - k" "drop k n"] by (simp add: Suc_diff_le)
  moreover have "j + 1 - k = i + 1 - (s + 1)"
    using b by linarith
  ultimately show ?thesis
    using assms b Some by (simp add: loop_ok_def list_all2_appendI del: Suc_eq_plus1)
qed (use assms in \<open>simp add: loop_ok_def\<close>)

lemma wildcard_loop_glob:
  assumes "loop_ok cs p n i j star k" "STAR \<notin> set n"
  shows "wildcard_loop p n cs i j star k \<longleftrightarrow> loop_goal cs p n i j star k"
  using assms
proof (induction p n cs i j star k rule: wildcard_loop.induct)
  case (1 p n cs i j star k)
  note ok = 1(4) and no_star = 1(5)
  consider (finish) "\<not> j < length n"
    | (take) "j < length n" "i < length p" "unit_matches cs (p ! i) (n ! j)"
    | (star) "j < length n" "i < length p" "\<not> unit_matches cs (p ! i) (n ! j)" "p ! i = STAR"
    | (retry) s where "j < length n" "\<not> (i < length p \<and> unit_matches cs (p ! i) (n ! j))"
        "\<not> (i < length p \<and> p ! i = STAR)" "star = Some s"
    | (fail) "j < length n" "\<not> (i < length p \<and> unit_matches cs (p ! i) (n ! j))"
        "\<not> (i < length p \<and> p ! i = STAR)" "star = None"
    by (cases star) blast+
  then show ?case
  proof cases
    case finish
    then have j: "j = length n"
      using ok by (simp add: loop_ok_def)
    have "loop_goal cs p n i j star k \<longleftrightarrow> list_all (\<lambda>c. c = STAR) (drop i p)"
    proof (cases star)
      case None
      then show ?thesis
        by (simp add: loop_goal_def j glob_nil)
    next
      case (Some s)
      note st = star_stretch [OF ok [unfolded Some]]
      show ?thesis
        using glob_exhausted [OF st(2), of cs "drop k n" "drop i p"] st(1,3,6) j
        by (simp add: loop_goal_def Some)
    qed
    then show ?thesis
      using finish by (subst wildcard_loop.simps) simp
  next
    case take
    have "n ! j \<noteq> STAR"
      using take(1) no_star nth_mem by fastforce
    then have not_star: "p ! i \<noteq> STAR"
      using take(3) star_no_match by metis
    have "loop_ok cs p n (i + 1) (j + 1) star k"
      by (rule loop_ok_take [OF ok take not_star])
    moreover have "loop_goal cs p n (i + 1) (j + 1) star k = loop_goal cs p n i j star k"
      using take not_star by (cases star)
        (simp_all add: loop_goal_def unit_matches_def Cons_nth_drop_Suc [symmetric] del: drop_Suc_Cons)
    ultimately show ?thesis
      using 1(1) take no_star by (subst wildcard_loop.simps) (simp add: unit_matches_def)
  next
    case star
    have "loop_ok cs p n (i + 1) j (Some i) j"
      using ok star by (simp add: loop_ok_def)
    moreover have "loop_goal cs p n (i + 1) j (Some i) j = loop_goal cs p n i j star k"
    proof (cases star)
      case (Some s)
      note st = star_stretch [OF ok [unfolded Some]]
      have i: "drop i p = STAR # drop (i + 1) p"
        using star(2,4) by (metis Cons_nth_drop_Suc Suc_eq_plus1)
      show ?thesis
        using glob_second_star [OF st(2,6), of "drop (i + 1) p"] st(1,3,4,5,7) i
        by (simp add: loop_goal_def Some)
    qed (simp add: loop_goal_def)
    ultimately show ?thesis
      using 1(2) star no_star by (subst wildcard_loop.simps) (simp add: unit_matches_def)
  next
    case (retry s)
    have "loop_ok cs p n (s + 1) (k + 1) (Some s) (k + 1)"
      using ok retry by (auto simp: loop_ok_def)
    moreover have "loop_goal cs p n (s + 1) (k + 1) (Some s) (k + 1) = loop_goal cs p n i j star k"
    proof -
      note st = star_stretch [OF ok [unfolded retry(4)]]
      have "\<not> glob cs (drop i p) (drop j n)"
        by (rule glob_stuck [OF ok retry(1-3)])
      moreover have "drop k n \<noteq> []" "tl (drop k n) = drop (k + 1) n"
        using st(4) retry(1) by (simp_all add: drop_Suc tl_drop)
      ultimately show ?thesis
        using glob_move_star [OF st(2), of cs "drop i p" "drop k n"] st(1,7) retry(4)
        by (simp add: loop_goal_def)
    qed
    ultimately show ?thesis
      using 1(3) retry no_star by (subst wildcard_loop.simps) (auto simp: unit_matches_def)
  next
    case fail
    have "\<not> glob cs (drop i p) (drop j n)"
      by (rule glob_stuck [OF ok fail(1-3)])
    then show ?thesis
      using fail by (subst wildcard_loop.simps) (auto simp: unit_matches_def loop_goal_def)
  qed
qed

section \<open>The property\<close>

text \<open>
  C26: The wildcard loop, which remembers only the last star and never backtracks further, decides
  exactly the recursive meaning of the pattern, in both case modes; \<open>*.*\<close> matches every name. The
  name must not contain a star.
\<close>

theorem wildcard_matches_glob:
  assumes "STAR \<notin> set name"
  shows "wildcard_matches pattern name cs \<longleftrightarrow> pattern = [STAR, 0x2e, STAR] \<or> glob cs pattern name"
proof -
  have "pattern = [STAR, 0x2e, STAR] \<longleftrightarrow>
      length pattern = 3 \<and> pattern ! 0 = STAR \<and> pattern ! 1 = 0x2e \<and> pattern ! 2 = STAR"
    by (auto simp: list_eq_iff_nth_eq less_Suc_eq numeral_eq_Suc)
  moreover have "wildcard_loop pattern name cs 0 0 None 0 \<longleftrightarrow> glob cs pattern name"
    using wildcard_loop_glob [OF _ assms, of cs pattern 0 0 None 0] by (simp add: loop_ok_def loop_goal_def)
  ultimately show ?thesis
    by (auto simp: wildcard_matches_def)
qed

theorem wildcard_matches_glob_witness:
  "wildcard_matches [0x61, STAR, 0x62, QUESTION] [0x41, 0x62, 0x62, 0x63, 0x42, 0x64] False"
  using wildcard_matches_glob [of "[0x41, 0x62, 0x62, 0x63, 0x42, 0x64]" "[0x61, STAR, 0x62, QUESTION]" False]
  by (simp add: units_equal_def fold_ascii_def)

text \<open>A name may contain a star on the host; then a star in the pattern is taken as that very unit
  first and the loop misses the match.\<close>

lemma star_in_name_missed:
  "\<not> wildcard_matches [STAR] [STAR, 0x61] False" "glob False [STAR] [STAR, 0x61]"
  by code_simp+

end
