(* ===== verification/Search_Directory.thy ===== *)
theory Search_Directory
  imports Search_Pattern Unicode_Properties
begin

text \<open>
  Normalization of search patterns: the resolution of a relative path component by component, the
  buffer that the loop of \<open>src/search.c\<close> writes it to, and the last component, which becomes the
  pattern.
\<close>

section \<open>Characters below 128\<close>

lemma utf8_high_bit: "0x7f < c \<Longrightarrow> b \<in> set (utf8_bytes c) \<Longrightarrow> bit b 7"
  by (auto simp: utf8_bytes_def Let_def bit_simps split: if_splits)

lemma utf8_ascii: "c \<le> 0x7f \<Longrightarrow> utf8_bytes c = [ucast c]"
  by (simp add: utf8_bytes_def)

text \<open>A byte below 128 is a character of its own.\<close>

lemma utf8_ascii_byte:
  assumes "b \<in> set (utf8_bytes c)" "\<not> bit b 7"
  shows "c = ucast b \<and> utf8_bytes c = [b]"
proof -
  have c: "c \<le> 0x7f"
    using assms utf8_high_bit not_le by blast
  then have b: "b = ucast c"
    using assms(1) by (simp add: utf8_ascii)
  have "unat c < 256"
    using c by (simp add: word_le_nat_alt)
  then have "(ucast b :: u32) = c"
    unfolding b by (simp add: word_unat_eq_iff unat_ucast_mod)
  then show ?thesis
    using c b by (simp add: utf8_ascii)
qed

lemma utf16_ascii_unit:
  assumes "u \<in> set (utf16_units c)" "u \<le> 0x7f"
  shows "c = ucast u"
proof (cases "c \<le> 0xffff")
  case True
  then have u: "u = ucast c"
    using assms(1) by (simp add: utf16_units_def)
  have "unat c < 65536"
    using True by (simp add: word_le_nat_alt)
  then show ?thesis
    unfolding u by (simp add: word_unat_eq_iff unat_ucast_mod)
next
  case False
  then have "bit u 15"
    using assms(1) by (auto simp: utf16_units_def Let_def bit_simps)
  then have "bit (unat u) 15"
    by (simp add: bit_unsigned_iff)
  then have "odd (unat u div 2 ^ 15)"
    unfolding bit_iff_odd .
  moreover have "unat u div 2 ^ 15 = 0"
    using assms(2) by (simp add: word_le_nat_alt)
  ultimately show ?thesis
    by simp
qed

section \<open>Components and their resolution\<close>

fun split_path :: "bytes \<Rightarrow> bytes list" where
  "split_path [] = [[]]"
| "split_path (b # bs) =
     (if b = SLASH then [] # split_path bs
      else case split_path bs of [] \<Rightarrow> [[b]] | c # cs \<Rightarrow> (b # c) # cs)"

fun join_path :: "bytes list \<Rightarrow> bytes" where
  "join_path [] = []"
| "join_path [c] = c"
| "join_path (c # d # cs) = c @ SLASH # join_path (d # cs)"

text \<open>One component: nothing and \<open>.\<close> stay, \<open>..\<close> goes up but not above the root, a wildcard is refused.\<close>

definition resolve_component :: "bytes \<Rightarrow> bytes list \<Rightarrow> bytes list option" where
  "resolve_component c stack =
     (if c = [] \<or> c = [0x2e] then Some stack
      else if c = [0x2e, 0x2e] then if stack = [] then None else Some (butlast stack)
      else if 0x2a \<in> set c \<or> 0x3f \<in> set c then None
      else Some (stack @ [c]))"

fun resolve_components :: "bytes list \<Rightarrow> bytes list \<Rightarrow> bytes list option" where
  "resolve_components [] stack = Some stack"
| "resolve_components (c # cs) stack = Option.bind (resolve_component c stack) (resolve_components cs)"

definition component_ok :: "bytes \<Rightarrow> bool" where
  "component_ok c \<longleftrightarrow> c \<noteq> [] \<and> c \<noteq> [0x2e] \<and> c \<noteq> [0x2e, 0x2e] \<and>
     SLASH \<notin> set c \<and> 0x2a \<notin> set c \<and> 0x3f \<notin> set c"

lemma component_ok_butlast: "list_all component_ok stack \<Longrightarrow> list_all component_ok (butlast stack)"
  by (metis in_set_butlastD list_all_iff)

lemma resolve_component_ok:
  assumes "list_all component_ok stack" "SLASH \<notin> set c" "resolve_component c stack = Some stack'"
  shows "list_all component_ok stack'"
proof -
  consider "stack' = stack" | "stack' = butlast stack" | "stack' = stack @ [c]" "component_ok c"
    using assms(2,3) unfolding resolve_component_def component_ok_def by (simp split: if_splits)
  then show ?thesis
    using assms(1) component_ok_butlast by cases simp_all
qed

lemma split_path_nonempty [simp]: "split_path bs \<noteq> []"
  by (cases bs) (auto split: list.split)

lemma split_path_literal: "SLASH \<notin> set c \<Longrightarrow> split_path c = [c]"
  by (induction c) auto

lemma split_path_slash: "SLASH \<notin> set c \<Longrightarrow> split_path (c @ SLASH # bs) = c # split_path bs"
  by (induction c) auto

lemma split_path_components: "c \<in> set (split_path bs) \<Longrightarrow> SLASH \<notin> set c"
  by (induction bs arbitrary: c) (auto split: if_splits list.splits)

lemma resolve_slashes:
  "resolve_components (split_path (dropWhile (\<lambda>b. b = SLASH) bs)) stack = resolve_components (split_path bs) stack"
  by (induction bs) (auto simp: resolve_component_def)

lemma resolve_nothing: "resolve_components [[]] = resolve_components []"
  by (rule ext) (simp add: resolve_component_def)

text \<open>Taking the first component off the text.\<close>

lemma resolve_first:
  "resolve_components (split_path bs) stack =
     Option.bind (resolve_component (takeWhile (\<lambda>b. b \<noteq> SLASH) bs) stack)
       (resolve_components (split_path (dropWhile (\<lambda>b. b \<noteq> SLASH) bs)))"
proof (cases "dropWhile (\<lambda>b. b \<noteq> SLASH) bs")
  case Nil
  then have whole: "takeWhile (\<lambda>b. b \<noteq> SLASH) bs = bs" "SLASH \<notin> set bs"
    by (auto simp: takeWhile_eq_all_conv)
  show ?thesis
    unfolding Nil whole(1) split_path_literal [OF whole(2)] split_path.simps resolve_nothing
      resolve_components.simps(2) ..
next
  case (Cons b rest)
  have b: "b = SLASH"
    using Cons hd_dropWhile [of "\<lambda>b. b \<noteq> SLASH" bs] by simp
  have "SLASH \<notin> set (takeWhile (\<lambda>b. b \<noteq> SLASH) bs)"
    by (auto dest: set_takeWhileD)
  from split_path_slash [OF this, of rest] have
    "split_path bs = takeWhile (\<lambda>b. b \<noteq> SLASH) bs # split_path rest"
    using Cons b by (metis takeWhile_dropWhile_id)
  then show ?thesis
    using Cons b by (simp add: resolve_component_def)
qed

lemma join_path_snoc: "cs \<noteq> [] \<Longrightarrow> join_path (cs @ [c]) = join_path cs @ SLASH # c"
  by (induction cs rule: join_path.induct) auto

lemma join_path_Nil: "list_all component_ok cs \<Longrightarrow> join_path cs = [] \<longleftrightarrow> cs = []"
  by (cases cs rule: join_path.cases) (auto simp: component_ok_def)

lemma join_path_append:
  assumes "list_all component_ok cs"
  shows "join_path (cs @ [c]) = join_path cs @ (if join_path cs \<noteq> [] then [SLASH] else []) @ c"
  using join_path_Nil [OF assms] by (cases "cs = []") (simp_all add: join_path_snoc)

lemma parent_directory_snoc:
  assumes "SLASH \<notin> set c"
  shows "parent_directory (join_path (cs @ [c])) = join_path cs"
proof -
  have skip: "dropWhile (\<lambda>b. b \<noteq> SLASH) (rev c @ xs) = dropWhile (\<lambda>b. b \<noteq> SLASH) xs" for xs
    using assms by (intro dropWhile_append2) auto
  have "dropWhile (\<lambda>b. b \<noteq> SLASH) (rev c) = []"
    using assms by auto
  then show ?thesis
    using skip [of "SLASH # rev (join_path cs)"]
    by (cases "cs = []") (simp_all add: join_path_snoc parent_directory_def del: dropWhile_eq_Nil_conv)
qed

text \<open>The loop is the resolution of the components, written into one buffer.\<close>

lemma normalize_directory_resolves:
  assumes "list_all component_ok stack"
  shows "normalize_directory rest (join_path stack) =
    (case resolve_components (split_path rest) stack of None \<Rightarrow> Inl SL_SEARCH_INVALID_PATH
     | Some stack' \<Rightarrow> Inr (join_path stack'))"
  using assms
proof (induction "length rest" arbitrary: rest stack rule: less_induct)
  case less
  show ?case
  proof (cases "rest = []")
    case True
    then show ?thesis
      by (simp add: normalize_directory.simps resolve_component_def)
  next
    case False
    let ?r = "dropWhile (\<lambda>b. b = SLASH) rest"
    let ?c = "takeWhile (\<lambda>b. b \<noteq> SLASH) ?r"
    let ?r' = "dropWhile (\<lambda>b. b \<noteq> SLASH) ?r"
    note IH = less.hyps [OF component_shorter [OF False]]
    have c: "SLASH \<notin> set ?c"
      by (auto dest: set_takeWhileD)
    have spec: "resolve_components (split_path rest) stack =
        Option.bind (resolve_component ?c stack) (resolve_components (split_path ?r'))"
      using resolve_first [of ?r stack] resolve_slashes [of rest stack] by simp
    have up: "parent_directory (join_path stack) = join_path (butlast stack)" if "stack \<noteq> []"
    proof -
      have "SLASH \<notin> set (last stack)"
        using that less.prems by (metis component_ok_def last_in_set list_all_iff)
      then show ?thesis
        using parent_directory_snoc [of "last stack" "butlast stack"] that by simp
    qed
    have step: "normalize_directory rest (join_path stack) =
        (if ?c = [] \<or> ?c = [0x2e] then normalize_directory ?r' (join_path stack)
         else if ?c = [0x2e, 0x2e]
         then if stack = [] then Inl SL_SEARCH_INVALID_PATH
              else normalize_directory ?r' (join_path (butlast stack))
         else if 0x2a \<in> set ?c \<or> 0x3f \<in> set ?c then Inl SL_SEARCH_INVALID_PATH
         else normalize_directory ?r' (join_path (stack @ [?c])))"
      using False up join_path_Nil [OF less.prems] join_path_append [OF less.prems, of ?c]
      by (subst normalize_directory.simps) (simp add: Let_def component_is_def)
    have "\<lbrakk>?c \<noteq> []; ?c \<noteq> [0x2e]; ?c \<noteq> [0x2e, 0x2e];
        \<not> (0x2a \<in> set ?c \<or> 0x3f \<in> set ?c)\<rbrakk> \<Longrightarrow> list_all component_ok (stack @ [?c])"
      using less.prems c by (simp add: component_ok_def)
    then show ?thesis
      unfolding step spec resolve_component_def using IH less.prems component_ok_butlast by simp
  qed
qed

lemma resolve_component_bytes:
  "resolve_component c stack = Some stack' \<Longrightarrow> set (concat stack') \<subseteq> set c \<union> set (concat stack)"
  by (auto simp: resolve_component_def dest: in_set_butlastD split: if_splits)

lemma resolve_components_sound:
  assumes "list_all component_ok stack" "\<forall>c\<in>set cs. SLASH \<notin> set c" "resolve_components cs stack = Some stack'"
  shows "list_all component_ok stack' \<and> set (concat stack') \<subseteq> set (concat cs) \<union> set (concat stack)"
  using assms
proof (induction cs arbitrary: stack)
  case (Cons c cs)
  obtain st where st: "resolve_component c stack = Some st" "resolve_components cs st = Some stack'"
    using Cons.prems(3) by (auto simp: bind_eq_Some_conv)
  have "list_all component_ok st"
    using resolve_component_ok [OF Cons.prems(1) _ st(1)] Cons.prems(2) by simp
  then have "list_all component_ok stack' \<and> set (concat stack') \<subseteq> set (concat cs) \<union> set (concat st)"
    using Cons.IH [OF _ _ st(2)] Cons.prems(2) by simp
  then show ?case
    using resolve_component_bytes [OF st(1)] unfolding concat.simps set_append by blast
qed simp

lemma split_path_bytes: "c \<in> set (split_path bs) \<Longrightarrow> set c \<subseteq> set bs"
  by (induction bs arbitrary: c) (simp, fastforce split: if_splits list.splits)

lemma join_path_bytes: "set (join_path cs) \<subseteq> insert SLASH (set (concat cs))"
  by (induction cs rule: join_path.induct) auto

lemma parent_directory_length: "length (parent_directory d) \<le> length d"
  using length_dropWhile_le [of "\<lambda>b. b \<noteq> SLASH" "rev d"] by (simp add: parent_directory_def)

text \<open>The buffer of the directory is never overrun: every separator written was read.\<close>

lemma normalize_directory_fits:
  assumes "normalize_directory rest d = Inr d'" "d \<noteq> [] \<longrightarrow> rest = [] \<or> hd rest = SLASH"
  shows "length d' \<le> length d + length rest"
  using assms
proof (induction "length rest" arbitrary: rest d rule: less_induct)
  case less
  show ?case
  proof (cases "rest = []")
    case True
    then show ?thesis
      using less.prems by (simp add: normalize_directory.simps)
  next
    case False
    let ?r = "dropWhile (\<lambda>b. b = SLASH) rest"
    let ?c = "takeWhile (\<lambda>b. b \<noteq> SLASH) ?r"
    let ?r' = "dropWhile (\<lambda>b. b \<noteq> SLASH) ?r"
    have next_ok: "?r' = [] \<or> hd ?r' = SLASH"
      using hd_dropWhile [of "\<lambda>b. b \<noteq> SLASH" ?r] by blast
    have parts: "length ?c + length ?r' = length ?r"
      by (metis length_append takeWhile_dropWhile_id)
    have room: "length ?r + (if d \<noteq> [] then 1 else 0) \<le> length rest"
      using less.prems(2) False length_dropWhile_le [of "\<lambda>b. b = SLASH" "tl rest"]
        length_dropWhile_le [of "\<lambda>b. b = SLASH" rest] by (cases rest) auto
    obtain d1 where d1: "normalize_directory ?r' d1 = Inr d'"
        "length d1 \<le> length d + (if d \<noteq> [] then 1 else 0) + length ?c"
    proof -
      consider "normalize_directory ?r' d = Inr d'" | "normalize_directory ?r' (parent_directory d) = Inr d'"
        | "normalize_directory ?r' (d @ (if d \<noteq> [] then [SLASH] else []) @ ?c) = Inr d'"
        using less.prems(1) False
        by (subst (asm) normalize_directory.simps) (simp add: Let_def split: if_splits)
      then show thesis
      proof cases
        case 2
        then show thesis
          using that parent_directory_length [of d] by fastforce
      qed (use that in fastforce)+
    qed
    have "length d' \<le> length d1 + length ?r'"
      using less.hyps [OF component_shorter [OF False] d1(1)] next_ok by blast
    then show ?thesis
      using d1(2) parts room by linarith
  qed
qed

section \<open>The conversions\<close>

lemma encode_pattern_decodes:
  assumes "units \<noteq> []" "9 * length units \<le> SIZE_MAX" "list_all scalar cs" "units = concat (map utf16_units cs)"
  shows "encode_pattern alloc_ok units =
    Some (if \<not> alloc_ok 0 then Inl SL_SEARCH_OUT_OF_MEMORY else Inr (concat (map utf8_bytes cs)))"
proof -
  let ?bs = "concat (map utf8_bytes cs)"
  have "length units \<le> length ?bs" "length ?bs \<le> 3 * length units"
    unfolding assms(4) by (rule utf16_total_le_utf8 utf8_total_growth)+
  then have b: "?bs \<noteq> []" "length ?bs < SIZE_MAX"
    using assms(1,2) by (metis le_zero_eq length_0_conv list.size(3), simp)
  have "decodes utf16_units False units cs"
    using assms(3,4) by (simp add: utf16.decodes_strict)
  then show ?thesis
    using u16to8.convert_decodes [of False "length units" units cs None 0 0]
      u16to8.convert_decodes [of False "length units" units cs "Some (replicate (length ?bs + 1) 0)" "length ?bs" 0]
      assms(2) b
    by (simp add: encode_pattern_def sl_utf16_to_utf8_def outcome_def u16to8.outs_def Let_def)
qed

lemma encode_pattern_cases:
  assumes "units \<noteq> []" "9 * length units \<le> SIZE_MAX"
  obtains (failed) e where "encode_pattern alloc_ok units = Some (Inl e)"
  | (encoded) cs where "encode_pattern alloc_ok units = Some (Inr (concat (map utf8_bytes cs)))"
      "list_all scalar cs" "units = concat (map utf16_units cs)"
proof (cases "\<exists>cs. decodes utf16_units False units cs")
  case True
  then obtain cs where cs: "list_all scalar cs" "units = concat (map utf16_units cs)"
    by (auto simp: utf16.decodes_strict)
  then show thesis
    using failed encoded encode_pattern_decodes [OF assms cs, of alloc_ok] by (cases "alloc_ok 0") auto
next
  case False
  then have "encode_pattern alloc_ok units = Some (Inl SL_SEARCH_INVALID_ENCODING)"
    using u16to8.convert_stuck [of False "length units" units None 0 0] assms(2)
    by (simp add: encode_pattern_def sl_utf16_to_utf8_def Let_def)
  then show thesis
    using failed by blast
qed

lemma decode_leaf_decodes:
  assumes "list_all scalar cs" "3 * length (concat (map utf8_bytes cs)) \<le> SIZE_MAX"
  shows "decode_leaf alloc_ok (concat (map utf8_bytes cs)) =
    Some (if \<not> alloc_ok 2 then Inl SL_SEARCH_OUT_OF_MEMORY else Inr (concat (map utf16_units cs)))"
proof -
  let ?bs = "concat (map utf8_bytes cs)" and ?us = "concat (map utf16_units cs)"
  have d: "decodes utf8_bytes False ?bs cs"
    using assms(1) by (simp add: utf8.decodes_strict)
  have "length ?us \<le> SIZE_MAX div 2 - 1"
    using utf16_total_le_utf8 [of cs] assms(2) by simp
  then show ?thesis
    using u8to16.convert_decodes [of False "length ?bs" ?bs cs None 0 0]
      u8to16.convert_decodes [of False "length ?bs" ?bs cs "Some (replicate (length ?us + 1) 0)" "length ?us" 0]
      d assms(2)
    by (simp add: decode_leaf_def sl_utf8_to_utf16_def outcome_def u8to16.outs_def Let_def)
qed

section \<open>Separators\<close>

definition slashed :: "u32 \<Rightarrow> u32" where
  "slashed c = (if c = 0x5c then 0x2f else c)"

definition slashed_byte :: "u8 \<Rightarrow> u8" where
  "slashed_byte b = (if b = 0x5c then SLASH else b)"

lemma slashed_byte_values:
  "0 = slashed_byte b \<Longrightarrow> b = 0" "0x3a = slashed_byte b \<Longrightarrow> b = 0x3a" "0x5c \<noteq> slashed_byte b"
  "0 \<noteq> SLASH" "0x3a \<noteq> SLASH" "0x5c \<noteq> SLASH"
  by (auto simp: slashed_byte_def split: if_splits)

lemma utf8_slashed: "map slashed_byte (utf8_bytes c) = utf8_bytes (slashed c)"
proof (cases "0x5c \<in> set (utf8_bytes c)")
  case True
  then have "c = 0x5c"
    using utf8_ascii_byte [of "0x5c" c] by simp
  then show ?thesis
    by (simp add: slashed_def utf8_ascii slashed_byte_def)
next
  case False
  then have "c \<noteq> 0x5c"
    by (auto simp: utf8_ascii)
  moreover have "map slashed_byte (utf8_bytes c) = utf8_bytes c"
    using False by (intro map_idI) (auto simp: slashed_byte_def)
  ultimately show ?thesis
    by (simp add: slashed_def)
qed

lemma utf8_text_slashed:
  "map slashed_byte (concat (map utf8_bytes cs)) = concat (map utf8_bytes (map slashed cs))"
  by (induction cs) (simp_all add: utf8_slashed)

text \<open>The last separator of the bytes is the last separator of the characters.\<close>

lemma last_component:
  assumes "0x2f \<notin> set post" "pre = [] \<or> last pre = 0x2f"
  shows "rev (takeWhile (\<lambda>b. b \<noteq> SLASH) (rev (concat (map utf8_bytes (pre @ post))))) = concat (map utf8_bytes post)"
proof -
  have post: "\<forall>b\<in>set (rev (concat (map utf8_bytes post))). b \<noteq> SLASH"
    using assms(1) utf8_ascii_byte [of SLASH] by auto
  have "takeWhile (\<lambda>b. b \<noteq> SLASH) (rev (concat (map utf8_bytes pre))) = []"
  proof (cases "pre = []")
    case False
    then obtain pre' where "pre = pre' @ [0x2f]"
      using assms(2) by (metis append_butlast_last_id)
    then show ?thesis
      by (simp add: utf8_ascii)
  qed simp
  then show ?thesis
    unfolding map_append concat_append rev_append
    by (subst takeWhile_append2) (use post in auto)
qed

text \<open>Any text splits at its last separator.\<close>

lemma split_last_separator:
  obtains pre post where "cs = pre @ post" "\<forall>c\<in>set post. \<not> p c" "pre = [] \<or> p (last pre)"
proof (rule that)
  show "cs = rev (dropWhile (\<lambda>c. \<not> p c) (rev cs)) @ rev (takeWhile (\<lambda>c. \<not> p c) (rev cs))"
    by (simp flip: rev_append)
  show "\<forall>c\<in>set (rev (takeWhile (\<lambda>c. \<not> p c) (rev cs))). \<not> p c"
    by (auto dest: set_takeWhileD)
  show "rev (dropWhile (\<lambda>c. \<not> p c) (rev cs)) = [] \<or> p (last (rev (dropWhile (\<lambda>c. \<not> p c) (rev cs))))"
    using hd_dropWhile [of "\<lambda>c. \<not> p c" "rev cs"] by (cases "dropWhile (\<lambda>c. \<not> p c) (rev cs) = []") (simp_all add: last_rev)
qed

section \<open>The property\<close>

text \<open>What the caller may rely on: the units behind the last separator are the pattern; the directory is
  the resolution of the characters in front of it.\<close>

definition below_root :: "u16 list \<Rightarrow> bytes \<Rightarrow> u16 list \<Rightarrow> bool" where
  "below_root units directory pattern \<longleftrightarrow> (\<exists>front cs comps.
     units = front @ pattern \<and> pattern \<noteq> [] \<and> 0x2f \<notin> set pattern \<and> 0x5c \<notin> set pattern \<and>
     (front = [] \<or> last front = 0x2f \<or> last front = 0x5c) \<and>
     list_all scalar cs \<and> front = concat (map utf16_units cs) \<and>
     resolve_components (split_path (concat (map utf8_bytes (map slashed cs)))) [] = Some comps \<and>
     list_all component_ok comps \<and> directory = join_path comps \<and>
     length directory \<le> length (concat (map utf8_bytes cs)) \<and>
     0 \<notin> set directory \<and> 0x3a \<notin> set directory \<and> 0x5c \<notin> set directory)"

lemma split_pattern_below:
  assumes "list_all scalar cs" "units = concat (map utf16_units cs)" "cs \<noteq> []" "0 \<notin> set units"
    and "3 * length (concat (map utf8_bytes cs)) \<le> SIZE_MAX"
  shows "\<exists>r. split_pattern alloc_ok (concat (map utf8_bytes cs)) = Some r \<and>
    (\<forall>directory pattern. r = Inr (directory, pattern) \<longrightarrow> below_root units directory pattern)"
proof -
  obtain pre post where s: "cs = pre @ post" "\<forall>c\<in>set post. \<not> (c = 0x2f \<or> c = 0x5c)"
      "pre = [] \<or> last pre = 0x2f \<or> last pre = 0x5c"
    by (rule split_last_separator [of cs "\<lambda>c. c = 0x2f \<or> c = 0x5c"])
  let ?text = "concat (map utf8_bytes (map slashed cs))"
  let ?front = "concat (map utf8_bytes (map slashed pre))"
  let ?leaf = "concat (map utf8_bytes post)"
  have post: "map slashed post = post"
    using s(2) by (intro map_idI) (auto simp: slashed_def)
  have "0x2f \<notin> set post" "map slashed pre = [] \<or> last (map slashed pre) = 0x2f"
    using s(2,3) by (auto simp: slashed_def) (cases pre rule: rev_cases; simp add: slashed_def)+
  then have leaf: "rev (takeWhile (\<lambda>b. b \<noteq> SLASH) (rev ?text)) = ?leaf"
    using last_component [of post "map slashed pre"] s(1) post by simp
  have front: "take (length ?text - length ?leaf) ?text = ?front"
    using s(1) post by simp
  have sub: "map (\<lambda>b. if b = 0x5c then SLASH else b) (concat (map utf8_bytes cs)) = ?text"
    unfolding utf8_text_slashed [symmetric] slashed_byte_def by simp
  have len: "length ?front = length (concat (map utf8_bytes pre))"
    unfolding utf8_text_slashed [symmetric] by simp
  have scalars: "list_all scalar pre" "list_all scalar post"
    using assms(1) s(1) by simp_all
  have decoded: "decode_leaf alloc_ok ?leaf =
      Some (if \<not> alloc_ok 2 then Inl SL_SEARCH_OUT_OF_MEMORY else Inr (concat (map utf16_units post)))"
    using decode_leaf_decodes [OF scalars(2)] assms(5) s(1) by simp
  have run: "split_pattern alloc_ok (concat (map utf8_bytes cs)) =
      (if 0x3a \<in> set (concat (map utf8_bytes cs)) \<or> hd ?text = SLASH \<or> last ?text = SLASH \<or> ?leaf = [] \<or>
          component_is ?leaf (length ?leaf) [0x2e] \<or> component_is ?leaf (length ?leaf) [0x2e, 0x2e]
       then Some (Inl SL_SEARCH_INVALID_PATH)
       else if \<not> alloc_ok 1 then Some (Inl SL_SEARCH_OUT_OF_MEMORY)
       else case normalize_directory ?front [] of Inl e \<Rightarrow> Some (Inl e)
         | Inr directory \<Rightarrow> Some (if \<not> alloc_ok 2 then Inl SL_SEARCH_OUT_OF_MEMORY
             else Inr (directory, concat (map utf16_units post))))"
    unfolding split_pattern_def sub Let_def leaf front decoded by (simp split: sum.split)
  have below: "below_root units directory (concat (map utf16_units post))"
    if d: "normalize_directory ?front [] = Inr directory" and "?leaf \<noteq> []"
      and colon: "0x3a \<notin> set (concat (map utf8_bytes cs))" for directory
  proof -
    obtain comps where comps: "resolve_components (split_path ?front) [] = Some comps" "directory = join_path comps"
      using d normalize_directory_resolves [of "[]" ?front] by (auto split: option.splits)
    have sound: "list_all component_ok comps" "set (concat comps) \<subseteq> set (concat (split_path ?front))"
      using resolve_components_sound [OF _ _ comps(1)] split_path_components by auto
    have "set directory \<subseteq> insert SLASH (set ?front)"
    proof -
      have "set (concat (split_path ?front)) \<subseteq> set ?front"
        using split_path_bytes [of _ ?front] unfolding set_concat by blast
      then show ?thesis
        using join_path_bytes [of comps] sound(2) unfolding comps(2) by blast
    qed
    moreover have "set ?front \<subseteq> slashed_byte ` set (concat (map utf8_bytes cs))"
      unfolding s(1) utf8_text_slashed [symmetric] set_map map_append concat_append set_append by blast
    moreover have "0 \<notin> set (concat (map utf8_bytes cs))"
    proof
      assume "0 \<in> set (concat (map utf8_bytes cs))"
      then obtain c where c: "c \<in> set cs" "0 \<in> set (utf8_bytes c)"
        by auto
      then have "c = 0"
        using utf8_ascii_byte [of 0 c] by simp
      then show False
        using c(1) assms(2,4) by (force simp: utf16_units_def)
    qed
    ultimately have bytes: "0 \<notin> set directory" "0x3a \<notin> set directory" "0x5c \<notin> set directory"
      using colon slashed_byte_values by blast+
    have pattern: "0x2f \<notin> set (concat (map utf16_units post))" "0x5c \<notin> set (concat (map utf16_units post))"
      using s(2) utf16_ascii_unit [of "0x2f"] utf16_ascii_unit [of "0x5c"] by fastforce+
    have "concat (map utf16_units post) \<noteq> []"
      using \<open>?leaf \<noteq> []\<close> scalars(2) utf16.units_nonempty by (cases post) auto
    moreover have "concat (map utf16_units pre) = [] \<or> last (concat (map utf16_units pre)) = 0x2f \<or>
        last (concat (map utf16_units pre)) = 0x5c"
      using s(3) by (cases pre rule: rev_cases) (auto simp: utf16_units_def)
    moreover have "length directory \<le> length (concat (map utf8_bytes pre))"
      using normalize_directory_fits [OF d] len by simp
    moreover have "units = concat (map utf16_units pre) @ concat (map utf16_units post)"
      using assms(2) s(1) by simp
    ultimately show ?thesis
      unfolding below_root_def using pattern bytes scalars(1) comps sound(1) by blast
  qed
  show ?thesis
    unfolding run using below by (auto split: sum.split)
qed

lemma normalize_pattern_below:
  assumes "9 * length units \<le> SIZE_MAX"
  shows "\<exists>r. normalize_pattern alloc_ok (Some units) = Some r \<and>
    (\<forall>directory pattern. r = Inr (directory, pattern) \<longrightarrow> below_root units directory pattern)"
proof (cases "units = [] \<or> 0 \<in> set units")
  case False
  then have ok: "units \<noteq> []" "0 \<notin> set units"
    by simp_all
  show ?thesis
  proof (cases rule: encode_pattern_cases [OF ok(1) assms, of alloc_ok, case_names failed encoded])
    case (failed e)
    then show ?thesis
      using ok by (simp add: normalize_pattern_def)
  next
    case (encoded cs)
    have "cs \<noteq> []"
      using encoded(3) ok(1) by auto
    moreover have "3 * length (concat (map utf8_bytes cs)) \<le> SIZE_MAX"
      using utf8_total_growth [of cs] assms unfolding encoded(3) by linarith
    ultimately show ?thesis
      using split_pattern_below [OF encoded(2,3) _ ok(2), of alloc_ok] encoded(1) ok
      by (simp add: normalize_pattern_def)
  qed
qed (auto simp: normalize_pattern_def)

text \<open>
  C25: A search never leaves the directory it is given: whatever pattern the caller passes,
  normalization returns without writing outside a buffer; when it accepts, the units behind the last
  separator are the pattern, and the directory is the resolution of what stands in front of it, with
  \<open>.\<close> and \<open>..\<close> already applied: its components are proper names without separators, wildcards,
  colons or terminators, so opening them one by one from the root only goes down.
\<close>

theorem normalized_stays_below_root:
  assumes "9 * length units \<le> SIZE_MAX"
  shows "\<exists>r. normalize_pattern alloc_ok (Some units) = Some r \<and>
    (\<forall>directory pattern. r = Inr (directory, pattern) \<longrightarrow> below_root units directory pattern)"
  using normalize_pattern_below [OF assms] .

theorem normalized_stays_below_root_witness:
  "below_root [0x61, 0x2f, 0x62, 0x5c, 0x2e, 0x2e, 0x2f, 0x63, 0x2f, 0x2a] [0x61, 0x2f, 0x63] [0x2a]"
proof -
  let ?units = "[0x61, 0x2f, 0x62, 0x5c, 0x2e, 0x2e, 0x2f, 0x63, 0x2f, 0x2a] :: u16 list"
  let ?bytes = "[0x61, 0x2f, 0x62, 0x5c, 0x2e, 0x2e, 0x2f, 0x63, 0x2f, 0x2a] :: bytes"
  let ?cs = "[0x61, 0x2f, 0x62, 0x5c, 0x2e, 0x2e, 0x2f, 0x63, 0x2f, 0x2a] :: u32 list"
  have sc: "list_all scalar ?cs"
    by (simp add: scalar_def)
  have u: "?units = concat (map utf16_units ?cs)" and b: "concat (map utf8_bytes ?cs) = ?bytes"
    by code_simp+
  have "9 * length ?units \<le> SIZE_MAX"
    by simp
  from encode_pattern_decodes [OF _ this sc u, of "\<lambda>k. True"]
  have "encode_pattern (\<lambda>k. True) ?units = Some (Inr ?bytes)"
    unfolding b not_True_eq_False if_False by blast
  moreover have "decode_leaf (\<lambda>k. True) [0x2a] = Some (Inr [0x2a])"
    using decode_leaf_decodes [of "[0x2a]" "\<lambda>k. True"] by (simp add: scalar_def utf16_units_def utf8_bytes_def)
  moreover have "normalize_directory [0x61, 0x2f, 0x62, 0x2f, 0x2e, 0x2e, 0x2f, 0x63, 0x2f] [] = Inr [0x61, 0x2f, 0x63]"
    using normalize_directory_resolves [of "[]" "[0x61, 0x2f, 0x62, 0x2f, 0x2e, 0x2e, 0x2f, 0x63, 0x2f]"]
    by (simp add: resolve_component_def)
  ultimately have "normalize_pattern (\<lambda>k. True) (Some ?units) = Some (Inr ([0x61, 0x2f, 0x63], [0x2a]))"
    by (simp add: normalize_pattern_def split_pattern_def component_is_def)
  then show ?thesis
    using normalized_stays_below_root [of ?units "\<lambda>k. True"] by simp
qed

end
