(* ===== verification/Search_Report.thy ===== *)
theory Search_Report
  imports Search Search_Wildcard Search_Directory
begin

text \<open>
  What a search reports: directory records as the host lays them out, times cut off at the ends of
  their range, and the data reported for a name, from its meaning.
\<close>

section \<open>Times\<close>

text \<open>The time in 100 ns since 1601, cut off at both ends of the 64-bit range.\<close>

definition filetime :: "int \<Rightarrow> int \<Rightarrow> nat" where
  "filetime sec nsec = (if sec + 11644473600 < 0 then 0
     else nat (min (2 ^ 64 - 1) ((sec + 11644473600) * 10000000 + max 0 nsec div 100)))"

lemma sint_word64: "- (2 ^ 63) \<le> sint (x :: 64 word) \<and> sint x < 2 ^ 63"
  using sint_ge [of x] sint_lt [of x] by simp

lemma unat_word_of_int: "0 \<le> i \<Longrightarrow> i < 2 ^ 64 \<Longrightarrow> unat (word_of_int i :: u64) = nat i"
  by (simp add: unat_eq_nat_uint uint_word_of_int)

lemma positive_sint: "0 \<le> sint (x :: 64 word) \<Longrightarrow> unat x = nat (sint x)"
  using unat_word_of_int [of "sint x"] sint_word64 [of x] by simp

lemma unat_max64: "unat (- 1 :: u64) = 18446744073709551615"
  by (simp add: unsigned_minus_1_eq_mask mask_eq_exp_minus_1)

lemma unat_ticks: "unat (t :: u64) \<le> 1844674407370 \<Longrightarrow> unat (t * 10000000) = unat t * 10000000"
  by (simp add: unat_word_ariths)

lemma nat_capped:
  assumes "0 \<le> x" "0 \<le> y"
  shows "nat (min (2 ^ 64 - 1) (x * 10000000 + y)) = min (2 ^ 64 - 1) (nat x * 10000000 + nat y)"
proof -
  obtain a b where "x = int a" "y = int b"
    using assms zero_le_imp_eq_int by metis
  then have "min (2 ^ 64 - 1) (x * 10000000 + y) = int (min (2 ^ 64 - 1) (a * 10000000 + b))"
    by simp
  then show ?thesis
    unfolding \<open>x = int a\<close> \<open>y = int b\<close> by simp
qed

lemma timespec_to_filetime_value: "unat (timespec_to_filetime (s, n)) = filetime (sint s) (sint n)"
proof -
  let ?S = "sint s + 11644473600"
  have delta: "sint SL_FILETIME_UNIX_EPOCH_DELTA = 11644473600"
    by (simp add: SL_FILETIME_UNIX_EPOCH_DELTA_def)
  show ?thesis
  proof (cases "?S < 0")
    case True
    then show ?thesis
      unfolding timespec_to_filetime_def filetime_def prod.case delta by simp
  next
    case False
    have no_overflow: "\<not> (\<not> sint s < 0 \<and> s > - 1 - SL_FILETIME_UNIX_EPOCH_DELTA)"
      using positive_sint [of s] sint_word64 [of s]
      by (auto simp: SL_FILETIME_UNIX_EPOCH_DELTA_def word_less_nat_alt)
    have seconds: "unat (s + SL_FILETIME_UNIX_EPOCH_DELTA) = nat ?S"
    proof -
      have "s + SL_FILETIME_UNIX_EPOCH_DELTA = word_of_int ?S"
        by (simp add: SL_FILETIME_UNIX_EPOCH_DELTA_def)
      then show ?thesis
        using unat_word_of_int [of ?S] False sint_word64 [of s] by simp
    qed
    let ?sub = "if sint n \<le> 0 then 0 else n div 100"
    have sub: "unat ?sub = nat (max 0 (sint n) div 100)"
      using positive_sint [of n] by (auto simp: unat_div max_def nat_div_distrib)
    let ?t = "s + SL_FILETIME_UNIX_EPOCH_DELTA"
    have run: "timespec_to_filetime (s, n) =
        (if ?t > (- 1) div SL_FILETIME_TICKS_PER_SECOND then - 1
         else if ?t * SL_FILETIME_TICKS_PER_SECOND > - 1 - ?sub then - 1
         else ?t * SL_FILETIME_TICKS_PER_SECOND + ?sub)"
    proof -
      have "\<not> sint s < - 11644473600"
        using False by simp
      then show ?thesis
        unfolding timespec_to_filetime_def prod.case Let_def delta by (simp only: no_overflow if_False)
    qed
    have val: "filetime (sint s) (sint n) = min (2 ^ 64 - 1) (unat ?t * 10000000 + unat ?sub)"
      unfolding filetime_def seconds sub using False nat_capped [of ?S "max 0 (sint n) div 100"]
      by simp
    have limit: "?t > (- 1) div SL_FILETIME_TICKS_PER_SECOND \<longleftrightarrow> unat ?t > 1844674407370"
      by (simp add: SL_FILETIME_TICKS_PER_SECOND_def word_less_nat_alt)
    show ?thesis
    proof (cases "unat ?t > 1844674407370")
      case True
      then show ?thesis
        unfolding run val using limit unat_max64 by simp
    next
      case small: False
      have ticks: "unat (?t * SL_FILETIME_TICKS_PER_SECOND) = unat ?t * 10000000"
        using small unat_ticks [of ?t] by (simp add: SL_FILETIME_TICKS_PER_SECOND_def)
      have room: "unat (- 1 - ?sub :: u64) = 18446744073709551615 - unat ?sub"
        by (subst unat_sub_no_wrap) (simp_all add: unat_max64)
      show ?thesis
      proof (cases "unat ?t * 10000000 + unat ?sub > 18446744073709551615")
        case True
        then have "?t * SL_FILETIME_TICKS_PER_SECOND > - 1 - ?sub"
          using unat_u64_lt [of ?sub] unfolding word_less_nat_alt ticks room by linarith
        then show ?thesis
          unfolding run val using limit small True unat_max64 by simp
      next
        case fits: False
        then have "\<not> ?t * SL_FILETIME_TICKS_PER_SECOND > - 1 - ?sub"
          using unat_u64_lt [of ?sub] unfolding word_less_nat_alt ticks room by linarith
        moreover have "unat (?t * SL_FILETIME_TICKS_PER_SECOND + ?sub) = unat ?t * 10000000 + unat ?sub"
          using fits ticks by (subst unat_add_no_wrap) simp_all
        ultimately show ?thesis
          unfolding run val using limit small fits by simp
      qed
    qed
  qed
qed

section \<open>Entries\<close>

text \<open>A directory record as the host lays it out: 16 bytes of header, the length, the type, the name,
  its terminator and padding.\<close>

record host_entry =
  en_header :: bytes
  en_type :: u8
  en_name :: bytes
  en_padding :: bytes

definition entry_length :: "host_entry \<Rightarrow> nat" where
  "entry_length e = 20 + length (en_name e) + length (en_padding e)"

definition entry_ok :: "host_entry \<Rightarrow> bool" where
  "entry_ok e \<longleftrightarrow> length (en_header e) = 16 \<and> 0 \<notin> set (en_name e) \<and> entry_length e < 65536"

definition entry_bytes :: "host_entry \<Rightarrow> bytes" where
  "entry_bytes e = en_header e @ [of_nat (entry_length e mod 256), of_nat (entry_length e div 256), en_type e] @
     en_name e @ [0] @ en_padding e"

lemma length_entry_bytes: "entry_ok e \<Longrightarrow> length (entry_bytes e) = entry_length e"
  by (simp add: entry_ok_def entry_bytes_def entry_length_def)

lemma entry_record_length:
  assumes "entry_ok e"
  shows "dirent_record_length (pre @ entry_bytes e @ post) (length pre) = entry_length e"
proof -
  have n: "(pre @ entry_bytes e @ post) ! (length pre + 16) = of_nat (entry_length e mod 256)"
    "(pre @ entry_bytes e @ post) ! (length pre + 17) = of_nat (entry_length e div 256)"
    using assms by (simp_all add: entry_bytes_def entry_ok_def nth_append)
  have small: "entry_length e div 256 < 256"
    by (rule less_mult_imp_div_less) (use assms in \<open>simp add: entry_ok_def\<close>)
  show ?thesis
    unfolding dirent_record_length_def n unat_le16
    using assms small by (simp add: entry_ok_def unsigned_of_nat take_bit_nat_def)
qed

lemma entry_name:
  assumes "entry_ok e"
  shows "takeWhile (\<lambda>b. b \<noteq> 0) (take (entry_length e - 19) (drop (length pre + 19) (pre @ entry_bytes e @ post))) = en_name e"
    "0 \<in> set (take (entry_length e - 19) (drop (length pre + 19) (pre @ entry_bytes e @ post)))"
proof -
  have "drop 19 (entry_bytes e) = en_name e @ 0 # en_padding e"
    using assms by (simp add: entry_bytes_def entry_ok_def)
  then have field: "take (entry_length e - 19) (drop (length pre + 19) (pre @ entry_bytes e @ post)) =
      en_name e @ 0 # en_padding e"
    using length_entry_bytes [OF assms] by (simp add: entry_length_def)
  have "takeWhile (\<lambda>b. b \<noteq> 0) (en_name e @ 0 # en_padding e) = en_name e"
    using assms by (subst takeWhile_append2) (auto simp: entry_ok_def)
  then show "takeWhile (\<lambda>b. b \<noteq> 0) (take (entry_length e - 19) (drop (length pre + 19) (pre @ entry_bytes e @ post))) = en_name e"
    "0 \<in> set (take (entry_length e - 19) (drop (length pre + 19) (pre @ entry_bytes e @ post)))"
    unfolding field by simp_all
qed

section \<open>What is reported\<close>

definition wide_form :: "bytes \<Rightarrow> u16 list \<Rightarrow> bool" where
  "wide_form name us \<longleftrightarrow> (\<exists>cs. list_all scalar cs \<and> name = concat (map utf8_bytes cs) \<and> us = concat (map utf16_units cs))"

text \<open>The name is followed by zeros; times and sizes are split into 32-bit halves.\<close>

definition halves :: "nat \<Rightarrow> sl_win32_search_filetime" where
  "halves n = \<lparr>low_date_time = of_nat (n mod 2 ^ 32), high_date_time = of_nat (n div 2 ^ 32)\<rparr>"

definition report :: "u16 list \<Rightarrow> host_stat \<Rightarrow> sl_win32_find_data_w" where
  "report us md =
     (let size = (if S_ISDIR (st_mode md) then 0 else nat (sint (st_size md)))
      in \<lparr>fd_file_attributes = (if S_ISDIR (st_mode md) then 0x10 else if S_ISLNK (st_mode md) then 0x400 else 0x20),
        fd_creation_time = halves 0,
        fd_last_access_time = halves (filetime (sint (fst (st_atim md))) (sint (snd (st_atim md)))),
        fd_last_write_time = halves (filetime (sint (fst (st_mtim md))) (sint (snd (st_mtim md)))),
        fd_file_size_high = of_nat (size div 2 ^ 32), fd_file_size_low = of_nat (size mod 2 ^ 32),
        fd_reserved0 = 0, fd_reserved1 = 0,
        fd_file_name = us @ replicate (260 - length us) 0, fd_alternate_file_name = replicate 14 0\<rparr>)"

definition reported :: "sl_win32_search \<Rightarrow> bytes \<Rightarrow> host_stat \<Rightarrow> sl_win32_find_data_w \<Rightarrow> bool" where
  "reported s name md d \<longleftrightarrow> (\<exists>us. wide_form name us \<and> length us < 260 \<and>
     wildcard_matches (se_pattern s) us (se_case_sensitive s) \<and>
     (se_directories_only s \<longrightarrow> S_ISDIR (st_mode md)) \<and> d = report us md)"

lemma ucast_low: "(ucast (v :: u64) :: u32) = of_nat (unat v mod 2 ^ 32)"
  by (simp add: word_unat_eq_iff unat_ucast_mod unsigned_of_nat take_bit_nat_def)

lemma unat_high: "unat (drop_bit 32 (v :: u64)) = unat v div 2 ^ 32"
  by (simp add: drop_bit_eq_div unat_div)

lemma ucast_high: "(ucast (drop_bit 32 (v :: u64)) :: u32) = of_nat (unat v div 2 ^ 32)"
proof -
  have "unat v div 2 ^ 32 < 2 ^ 32"
    by (rule less_mult_imp_div_less) simp
  then show ?thesis
    unfolding ucast_low [of "drop_bit 32 v"] unat_high by (simp only: mod_less)
qed

lemma split_filetime_halves: "split_filetime v = halves (unat v)"
  unfolding split_filetime_def halves_def ucast_high by (simp add: ucast_low)

lemma find_data_report:
  assumes "length us < 260"
  shows "find_data (us @ replicate (260 - length us) 0) (length us) md = report us md"
proof -
  have t: "split_filetime (timespec_to_filetime x) = halves (filetime (sint (fst x)) (sint (snd x)))" for x
    by (cases x) (simp add: split_filetime_halves timespec_to_filetime_value)
  have z: "split_filetime 0 = halves 0"
    by (simp add: split_filetime_halves)
  have n: "take (length us + 1) (us @ replicate (260 - length us) 0) @ drop (length us + 1) (replicate 260 0) =
      us @ replicate (260 - length us) (0 :: u16)"
    using assms by (simp add: take_Cons' min_def flip: replicate_add)
  show ?thesis
    unfolding find_data_def report_def Let_def ucast_high
    using n positive_sint [of "st_size md"]
    by (simp add: empty_find_data_def t z SL_WIN32_FIND_NAME_CAPACITY_def
        SL_WIN32_FIND_ALTERNATE_NAME_CAPACITY_def SL_FILE_ATTRIBUTE_DIRECTORY_def
        SL_FILE_ATTRIBUTE_ARCHIVE_def SL_FILE_ATTRIBUTE_REPARSE_POINT_def ucast_low)
qed

lemma fill_find_data_reported:
  assumes "3 * length name \<le> SIZE_MAX"
  shows "\<exists>r. fill_find_data s name md = Some r \<and> (\<forall>d. r = Some d \<longleftrightarrow> reported s name md d)"
proof (cases "\<exists>cs. decodes utf8_bytes False name cs")
  case False
  then have "fill_find_data s name md = Some None"
    using u8to16.convert_stuck [of False "length name" name None 0 0] assms
    by (simp add: fill_find_data_def sl_utf8_to_utf16_def Let_def)
  moreover have "\<not> reported s name md d" for d
    using False by (auto simp: reported_def wide_form_def utf8.decodes_strict)
  ultimately show ?thesis
    by simp
next
  case True
  then obtain cs where cs: "decodes utf8_bytes False name cs"
    by blast
  let ?us = "concat (map utf16_units cs)"
  have unique: "wide_form name us \<longleftrightarrow> us = ?us" for us
    unfolding wide_form_def using cs utf8.decodes_functional [OF cs] utf8.decodes_strict by metis
  have measured: "sl_utf8_to_utf16 (Some name) (length name) None 0 (Some 0) = Some (SL_OK, None, Some (length ?us))"
    using u8to16.convert_decodes [of False "length name" name cs None 0 0] cs assms
    by (simp add: sl_utf8_to_utf16_def outcome_def u8to16.outs_def)
  show ?thesis
  proof (cases "length ?us < 260")
    case False
    then show ?thesis
      using measured unique by (auto simp: fill_find_data_def SL_WIN32_FIND_NAME_CAPACITY_def reported_def)
  next
    case small: True
    have written: "sl_utf8_to_utf16 (Some name) (length name) (Some (replicate 260 0)) 259 (Some 0) =
        Some (SL_OK, Some (?us @ replicate (260 - length ?us) 0), Some (length ?us))"
      using u8to16.convert_decodes [of False "length name" name cs "Some (replicate 260 0)" 259 0] cs assms small
      by (simp add: sl_utf8_to_utf16_def outcome_def u8to16.outs_def)
    show ?thesis
      using small unique find_data_report [OF small]
      by (auto simp: fill_find_data_def SL_WIN32_FIND_NAME_CAPACITY_def measured written reported_def Let_def)
  qed
qed

end
