(* ===== verification/Search_Properties.thy ===== *)
theory Search_Properties
  imports Search_Report
begin

text \<open>
  Searches end to end: hosts that deliver the records of a directory in chunks, and what each call of
  \<open>sl_win32_search_next\<close> answers for the entries that are still to come.
\<close>

section \<open>Hosts and buffers\<close>

text \<open>The descriptor delivers the entries still to come, in chunks of whole records, interrupted any
  finite number of times.\<close>

inductive delivers :: "'w search_host \<Rightarrow> int \<Rightarrow> 'w \<Rightarrow> host_entry list \<Rightarrow> bool" for host fd where
  finished: "sh_getdents64 host w fd = (Inr [], w') \<Longrightarrow> delivers host fd w []"
| chunk: "sh_getdents64 host w fd = (Inr (concat (map entry_bytes es)), w') \<Longrightarrow> es \<noteq> [] \<Longrightarrow>
    list_all entry_ok es \<Longrightarrow> delivers host fd w' es' \<Longrightarrow> delivers host fd w (es @ es')"
| interrupted: "sh_getdents64 host w fd = (Inl EINTR, w') \<Longrightarrow> delivers host fd w' es \<Longrightarrow> delivers host fd w es"

definition buffered :: "sl_win32_search \<Rightarrow> host_entry list \<Rightarrow> bool" where
  "buffered s es \<longleftrightarrow> list_all entry_ok es \<and> (\<exists>pre post. se_buffer s = pre @ concat (map entry_bytes es) @ post \<and>
     length pre = se_buffer_offset s \<and> se_buffer_size s = length pre + length (concat (map entry_bytes es)))"

text \<open>Between calls: the walk is not over, and these entries are still to come.\<close>

definition pending :: "'w search_host \<Rightarrow> 'w \<Rightarrow> sl_win32_search \<Rightarrow> host_entry list \<Rightarrow> bool" where
  "pending host w s es \<longleftrightarrow> \<not> se_exhausted s \<and>
     (\<exists>es1 es2. es = es1 @ es2 \<and> buffered s es1 \<and> delivers host (se_directory_fd s) w es2)"

text \<open>The parts of a search that a call does not change.\<close>

definition settings :: "sl_win32_search \<Rightarrow> bool \<times> int \<times> u16 list \<times> bool \<times> bool" where
  "settings s = (se_locked s, se_directory_fd s, se_pattern s, se_case_sensitive s, se_directories_only s)"

lemma reported_settings: "settings s = settings s' \<Longrightarrow> reported s = reported s'"
  by (intro ext) (simp add: reported_def settings_def)

text \<open>Entries that are passed over: the directory itself and its parent, entries that are gone when
  they are looked at, and those that are not reported.\<close>

definition skipped :: "sl_win32_search \<Rightarrow> (bytes \<Rightarrow> int + host_stat) \<Rightarrow> host_entry \<Rightarrow> bool" where
  "skipped s stat e \<longleftrightarrow> en_name e = [0x2e] \<or> en_name e = [0x2e, 0x2e] \<or> stat (en_name e) = Inl ENOENT \<or>
     (\<exists>md. stat (en_name e) = Inr md \<and> (\<nexists>d. reported s (en_name e) md d))"

definition entry_answer :: "sl_win32_search \<Rightarrow> (bytes \<Rightarrow> int + host_stat) \<Rightarrow> host_entry \<Rightarrow> search_answer \<Rightarrow> bool" where
  "entry_answer s stat e answer \<longleftrightarrow> (case stat (en_name e) of
       Inl err \<Rightarrow> answer = (SL_SEARCH_IO, None, err)
     | Inr md \<Rightarrow> \<exists>d. reported s (en_name e) md d \<and> answer = (SL_SEARCH_OK, Some d, 0))"

lemma entry_bytes_nonempty: "entry_bytes e \<noteq> []"
  by (simp add: entry_bytes_def)

text \<open>One record of the buffer.\<close>

lemma search_entry_step:
  assumes buf: "buffered s (e # es)" and stat: "\<And>name. sh_fstatat host w (se_directory_fd s) name = (stat name, w)"
  shows "\<exists>answer s'. search_entry host w s = Some (answer, s', w) \<and> settings s' = settings s \<and>
    se_exhausted s' = se_exhausted s \<and> buffered s' es \<and>
    (if skipped s stat e then answer = None else \<exists>a. answer = Some a \<and> entry_answer s stat e a)"
proof -
  obtain pre post where b: "se_buffer s = pre @ entry_bytes e @ concat (map entry_bytes es) @ post"
      "length pre = se_buffer_offset s" "se_buffer_size s = length pre + length (concat (map entry_bytes (e # es)))"
      "entry_ok e" "list_all entry_ok es"
    using buf by (auto simp: buffered_def)
  let ?post = "concat (map entry_bytes es) @ post"
  let ?s = "s\<lparr>se_buffer_offset := se_buffer_offset s + entry_length e\<rparr>"
  have len: "length (entry_bytes e) = entry_length e" "20 \<le> entry_length e"
    using length_entry_bytes [OF b(4)] by (simp_all add: entry_length_def)
  have remaining: "entry_length e \<le> se_buffer_size s - se_buffer_offset s"
    using b(2,3) len(1) by simp
  have reclen: "dirent_record_length (se_buffer s) (se_buffer_offset s) = entry_length e"
    using entry_record_length [OF b(4), of pre ?post] b(1,2) by simp
  let ?field = "take (entry_length e - 19) (drop (se_buffer_offset s + 19) (se_buffer s))"
  have name: "takeWhile (\<lambda>b. b \<noteq> 0) ?field = en_name e" "0 \<in> set ?field"
    using entry_name [OF b(4), of pre ?post] b(1,2) by simp_all
  have "buffered ?s es"
    unfolding buffered_def
    by (rule conjI [OF b(5)], rule exI [of _ "pre @ entry_bytes e"], rule exI [of _ post]) (use b len(1) in simp)
  then have rest: "buffered ?s es" "settings ?s = settings s" "se_exhausted ?s = se_exhausted s"
    by (simp_all add: settings_def)
  obtain r where r: "\<And>md. fill_find_data ?s (en_name e) md = Some (r md)" "\<And>md d. r md = Some d \<longleftrightarrow> reported s (en_name e) md d"
  proof -
    have "3 * length (en_name e) \<le> SIZE_MAX"
      using b(4) by (simp add: entry_ok_def entry_length_def)
    then have "\<forall>md. \<exists>r. fill_find_data ?s (en_name e) md = Some r \<and> (\<forall>d. r = Some d \<longleftrightarrow> reported s (en_name e) md d)"
      using fill_find_data_reported [of "en_name e" ?s] reported_settings [OF rest(2)] by simp
    then show thesis
      using that by metis
  qed
  have "search_entry host w s =
      (if en_name e = [0x2e] \<or> en_name e = [0x2e, 0x2e] then Some (None, ?s, w)
       else case stat (en_name e) of
          Inl err \<Rightarrow> if err = ENOENT then Some (None, ?s, w) else Some (Some (SL_SEARCH_IO, None, err), ?s, w)
        | Inr md \<Rightarrow> (case r md of None \<Rightarrow> Some (None, ?s, w)
                    | Some found \<Rightarrow> Some (Some (SL_SEARCH_OK, Some found, 0), ?s, w)))"
    using remaining len(2) name
    by (simp add: search_entry_def Let_def dirent_name_offset_def reclen stat r(1) split: sum.split option.split)
  then show ?thesis
    using rest
    by (auto simp: skipped_def entry_answer_def r(2) [symmetric] split: sum.split option.split)
qed

section \<open>A whole call\<close>

text \<open>What a call answers when these entries are still to come.\<close>

definition walked ::
    "'w search_host \<Rightarrow> (bytes \<Rightarrow> int + host_stat) \<Rightarrow> sl_win32_search \<Rightarrow> host_entry list \<Rightarrow>
     search_answer \<Rightarrow> sl_win32_search \<Rightarrow> 'w \<Rightarrow> bool" where
  "walked host stat s es answer s' w' \<longleftrightarrow> settings s' = settings s \<and>
     (list_all (skipped s stat) es \<longrightarrow> answer = (SL_SEARCH_NO_MATCH, None, 0) \<and> se_exhausted s') \<and>
     (\<forall>before e after. es = before @ e # after \<and> list_all (skipped s stat) before \<and> \<not> skipped s stat e \<longrightarrow>
        entry_answer s stat e answer \<and> pending host w' s' after)"

lemma skipped_settings: "settings s' = settings s \<Longrightarrow> skipped s' stat = skipped s stat"
  and entry_answer_settings: "settings s' = settings s \<Longrightarrow> entry_answer s' stat = entry_answer s stat"
  using reported_settings [of s' s]
  by (intro ext; simp add: skipped_def entry_answer_def split: sum.split)+

lemma walked_settings:
  assumes "settings s' = settings s"
  shows "walked host stat s' = walked host stat s"
  unfolding walked_def skipped_settings [OF assms] entry_answer_settings [OF assms] assms ..

text \<open>An entry that is passed over does not matter.\<close>

lemma walked_skip:
  assumes "skipped s stat e" "walked host stat s es answer s' w'"
  shows "walked host stat s (e # es) answer s' w'"
  unfolding walked_def
proof (intro conjI allI impI)
  fix before e' after
  assume h: "e # es = before @ e' # after \<and> list_all (skipped s stat) before \<and> \<not> skipped s stat e'"
  then obtain before' where "before = e # before'" "es = before' @ e' # after" "list_all (skipped s stat) before'"
    using assms(1) by (cases before) auto
  then show "entry_answer s stat e' answer" "pending host w' s' after"
    using assms(2) h unfolding walked_def by blast+
qed (use assms in \<open>auto simp: walked_def\<close>)

lemma walked_found:
  assumes "\<not> skipped s stat e" "entry_answer s stat e answer" "pending host w' s' es" "settings s' = settings s"
  shows "walked host stat s (e # es) answer s' w'"
  unfolding walked_def
proof (intro conjI allI impI)
  fix before e' after
  assume h: "e # es = before @ e' # after \<and> list_all (skipped s stat) before \<and> \<not> skipped s stat e'"
  then have "before = []"
    using assms(1) by (cases before) auto
  then show "entry_answer s stat e' answer" "pending host w' s' after"
    using assms h by simp_all
qed (use assms in auto)

lemma buffered_full: "buffered s [] \<Longrightarrow> se_buffer_offset s = se_buffer_size s"
  by (auto simp: buffered_def)

lemma buffered_more: "buffered s (e # es) \<Longrightarrow> se_buffer_offset s \<noteq> se_buffer_size s"
  using entry_bytes_nonempty [of e] by (auto simp: buffered_def)

text \<open>Entries in the buffer come before those the host has not delivered.\<close>

lemma walk_buffer:
  assumes del: "delivers host fd w es2"
    and stat: "\<And>w name. sh_fstatat host w fd name = (stat name, w)"
    and empty: "\<And>s. buffered s [] \<Longrightarrow> \<not> se_exhausted s \<Longrightarrow> se_directory_fd s = fd \<Longrightarrow>
      \<exists>answer s' w'. search_next_locked host w s = Some (answer, s', w') \<and> walked host stat s es2 answer s' w'"
    and "buffered s es1" "\<not> se_exhausted s" "se_directory_fd s = fd"
  shows "\<exists>answer s' w'. search_next_locked host w s = Some (answer, s', w') \<and> walked host stat s (es1 @ es2) answer s' w'"
  using assms(4-6)
proof (induction es1 arbitrary: s)
  case Nil
  then show ?case
    using empty by simp
next
  case (Cons e es1)
  obtain answer s1 where step: "search_entry host w s = Some (answer, s1, w)" "settings s1 = settings s"
      "se_exhausted s1 = se_exhausted s" "buffered s1 es1"
      "if skipped s stat e then answer = None else \<exists>a. answer = Some a \<and> entry_answer s stat e a"
    using search_entry_step [OF Cons.prems(1), of host w stat] stat Cons.prems(3) by blast
  have it: "search_iteration host w s = Some (answer, s1, w)"
    using step(1) buffered_more [OF Cons.prems(1)] by (simp add: search_iteration_def refill_def)
  have fd: "se_directory_fd s1 = fd"
    using step(2) Cons.prems(3) by (simp add: settings_def)
  show ?case
  proof (cases "skipped s stat e")
    case True
    have "search_next_locked host w s = search_next_locked host w s1"
      using True it step(5) Cons.prems(2) by (subst search_next_locked.simps) simp
    moreover obtain a s' w' where "search_next_locked host w s1 = Some (a, s', w')"
        "walked host stat s1 (es1 @ es2) a s' w'"
      using Cons.IH [OF step(4) _ fd] step(3) Cons.prems(2) by auto
    ultimately have "search_next_locked host w s = Some (a, s', w')" "walked host stat s (es1 @ es2) a s' w'"
      unfolding walked_settings [OF step(2)] by simp_all
    moreover from this(2) have "walked host stat s (e # es1 @ es2) a s' w'"
      by (rule walked_skip [OF True])
    ultimately show ?thesis
      by auto
  next
    case False
    then obtain a where a: "answer = Some a" "entry_answer s stat e a"
      using step(5) by auto
    have "search_next_locked host w s = Some (a, s1, w)"
      using it a(1) Cons.prems(2) by (subst search_next_locked.simps) simp
    moreover have "pending host w s1 (es1 @ es2)"
      unfolding pending_def using step(3,4) Cons.prems(2) del fd by blast
    ultimately show ?thesis
      using walked_found [OF False a(2) _ step(2), of host w "es1 @ es2"] by auto
  qed
qed

lemma walk_delivered:
  assumes "delivers host fd w es" and stat: "\<And>w name. sh_fstatat host w fd name = (stat name, w)"
    and "buffered s []" "\<not> se_exhausted s" "se_directory_fd s = fd"
  shows "\<exists>answer s' w'. search_next_locked host w s = Some (answer, s', w') \<and> walked host stat s es answer s' w'"
  using assms(1,3-5)
proof (induction arbitrary: s rule: delivers.induct)
  case (finished w w')
  have "read_entries host w fd = Some (Inr [], w')"
    using finished(1) by (subst read_entries.simps) simp
  then have "search_next_locked host w s = Some ((SL_SEARCH_NO_MATCH, None, 0), s\<lparr>se_exhausted := True\<rparr>, w')"
    using finished.prems buffered_full [OF finished.prems(1)]
    by (subst search_next_locked.simps) (simp add: search_iteration_def refill_def)
  then show ?case
    by (auto simp: walked_def settings_def)
next
  case (chunk w es w' es')
  obtain e es1 where es: "es = e # es1"
    using chunk(2) by (cases es) auto
  let ?data = "concat (map entry_bytes es)"
  define s1 where "s1 = s\<lparr>se_buffer := ?data @ drop (length ?data) (se_buffer s), se_buffer_offset := 0,
    se_buffer_size := length ?data\<rparr>"
  have "read_entries host w fd = Some (Inr ?data, w')"
    using chunk(1) by (subst read_entries.simps) simp
  moreover have "?data \<noteq> []"
    using es entry_bytes_nonempty by simp
  ultimately have refilled: "refill host w s = Some (None, s1, w')"
    using chunk.prems buffered_full [OF chunk.prems(1)] by (simp add: refill_def s1_def)
  have buf: "buffered s1 es"
    unfolding buffered_def s1_def
    by (rule conjI [OF chunk(3)], rule exI [of _ "[]"], rule exI [of _ "drop (length ?data) (se_buffer s)"]) simp
  have "se_buffer_offset s1 \<noteq> se_buffer_size s1"
    by (rule buffered_more) (use buf es in simp)
  then have "refill host w' s1 = Some (None, s1, w')"
    by (simp add: refill_def)
  then have "search_iteration host w s = search_iteration host w' s1"
    using refilled by (simp add: search_iteration_def)
  then have run: "search_next_locked host w s = search_next_locked host w' s1"
    using chunk.prems(2) by (subst (1 2) search_next_locked.simps) (simp add: s1_def)
  have "\<exists>answer s' w''. search_next_locked host w' s1 = Some (answer, s', w'') \<and> walked host stat s1 (es @ es') answer s' w''"
    by (rule walk_buffer [OF chunk(4) stat chunk.IH buf]) (use chunk.prems in \<open>simp_all add: s1_def\<close>)
  moreover have "settings s1 = settings s"
    by (simp add: settings_def s1_def)
  ultimately show ?case
    using run walked_settings [of s1 s host stat] by simp
next
  case (interrupted w w' es)
  have "read_entries host w fd = read_entries host w' fd"
    using interrupted(1) by (subst read_entries.simps) simp
  then have "search_iteration host w s = search_iteration host w' s"
    using interrupted.prems buffered_full [OF interrupted.prems(1)] by (simp add: search_iteration_def refill_def)
  then have "search_next_locked host w s = search_next_locked host w' s"
    using interrupted.prems(2) by (subst (1 2) search_next_locked.simps) simp
  then show ?case
    using interrupted.IH [OF interrupted.prems] by simp
qed

section \<open>The property\<close>

lemma pending_lock: "pending host w (s\<lparr>se_locked := b\<rparr>) = pending host w s"
  by (intro ext) (simp add: pending_def buffered_def)

lemma walked_lock:
  assumes "walked host stat (s\<lparr>se_locked := True\<rparr>) es answer s' w'" "\<not> se_locked s"
  shows "walked host stat s es answer (search_unlock s') w'"
proof -
  have "reported (s\<lparr>se_locked := True\<rparr>) = reported s"
    by (intro ext) (simp add: reported_def)
  then have same: "skipped (s\<lparr>se_locked := True\<rparr>) stat = skipped s stat"
    "entry_answer (s\<lparr>se_locked := True\<rparr>) stat = entry_answer s stat"
    by (intro ext; simp add: skipped_def entry_answer_def split: sum.split)+
  show ?thesis
    using assms unfolding walked_def same search_unlock_def pending_lock
    by (simp add: settings_def) blast
qed

lemma search_next_walks:
  assumes "pending host w s es" "\<not> se_locked s"
    and stat: "\<And>w name. sh_fstatat host w (se_directory_fd s) name = (stat name, w)"
  shows "\<exists>answer s' w'. sl_win32_search_next host w (Some s) = Some (answer, Some s', w') \<and>
    walked host stat s es answer s' w'"
proof -
  let ?s = "s\<lparr>se_locked := True\<rparr>"
  obtain es1 es2 where es: "es = es1 @ es2" "buffered ?s es1" "delivers host (se_directory_fd s) w es2"
    using assms(1) by (auto simp: pending_def buffered_def)
  have "\<exists>answer s' w'. search_next_locked host w ?s = Some (answer, s', w') \<and> walked host stat ?s (es1 @ es2) answer s' w'"
    by (rule walk_buffer [OF es(3) stat walk_delivered [OF es(3) stat] es(2)])
      (use assms(1) in \<open>simp_all add: pending_def\<close>)
  then obtain answer s' w' where run: "search_next_locked host w ?s = Some (answer, s', w')"
      "walked host stat ?s es answer s' w'"
    unfolding es(1) by blast
  then have "sl_win32_search_next host w (Some s) = Some (answer, Some (search_unlock s'), w')"
    using assms(2) by (simp add: sl_win32_search_next_def search_lock_def)
  then show ?thesis
    using walked_lock [OF run(2) assms(2)] by blast
qed

text \<open>
  C27: A search makes progress and misses nothing: on a host that delivers the entries of a directory
  in whole records, in any chunks and with any finite number of interruptions, every call returns with
  the lock released; it answers for the first entry to come that is not passed over (the directory
  itself, its parent, entries already gone, names that are not UTF-8, too long, not matched or, where
  only directories are asked for, not directories), leaves exactly the entries behind it for the next
  calls, and when there is none reports that there are no more. What it reports has the name, the
  attributes, the size, and the times cut off at the ends of their range.
\<close>

theorem search_enumerates:
  assumes "pending host w s es" "\<not> se_locked s"
    and "\<And>w name. sh_fstatat host w (se_directory_fd s) name = (stat name, w)"
  shows "\<exists>answer s' w'. sl_win32_search_next host w (Some s) = Some (answer, Some s', w') \<and>
    settings s' = settings s \<and>
    (list_all (skipped s stat) es \<longrightarrow> answer = (SL_SEARCH_NO_MATCH, None, 0) \<and> se_exhausted s') \<and>
    (\<forall>before e after. es = before @ e # after \<and> list_all (skipped s stat) before \<and> \<not> skipped s stat e \<longrightarrow>
       (case stat (en_name e) of
          Inl err \<Rightarrow> answer = (SL_SEARCH_IO, None, err)
        | Inr md \<Rightarrow> \<exists>d. reported s (en_name e) md d \<and> answer = (SL_SEARCH_OK, Some d, 0)) \<and>
       pending host w' s' after)"
  using search_next_walks [OF assms] unfolding walked_def entry_answer_def .

text \<open>A directory with one file \<open>a\<close>, delivered after an interruption.\<close>

definition entry_example :: host_entry where
  "entry_example = \<lparr>en_header = replicate 16 0, en_type = 8, en_name = [0x61], en_padding = [0, 0, 0]\<rparr>"

definition stat_example :: host_stat where
  "stat_example = \<lparr>st_mode = 0x81a4, st_size = 5, st_atim = (0, 100), st_mtim = (0, 0)\<rparr>"

definition host_example :: "nat search_host" where
  "host_example = \<lparr>sh_openat = \<lambda>w fd name follow. (Inr 4, w), sh_close = \<lambda>w fd. w,
     sh_getdents64 = \<lambda>w fd. if w = 0 then (Inl EINTR, 1) else if w = 1 then (Inr (entry_bytes entry_example), 2)
       else (Inr [], w),
     sh_fstatat = \<lambda>w fd name. (Inr stat_example, w)\<rparr>"

definition search_example :: sl_win32_search where
  "search_example = \<lparr>se_locked = False, se_directory_fd = 4, se_pattern = [STAR], se_case_sensitive = False,
     se_directories_only = False, se_exhausted = False, se_buffer_offset = 0, se_buffer_size = 0,
     se_buffer = replicate 8192 0\<rparr>"

theorem search_enumerates_witness:
  "\<exists>s' w'. sl_win32_search_next host_example 0 (Some search_example) =
     Some ((SL_SEARCH_OK, Some (report [0x61] stat_example), 0), Some s', w')"
proof -
  have "sh_getdents64 host_example 2 4 = (Inr [], 2)"
    by (simp add: host_example_def)
  note d2 = delivers.finished [OF this]
  have "sh_getdents64 host_example 1 4 = (Inr (concat (map entry_bytes [entry_example])), 2)"
    by (simp add: host_example_def)
  moreover have "list_all entry_ok [entry_example]"
    by (simp add: entry_ok_def entry_length_def) (simp add: entry_example_def)
  ultimately have d1: "delivers host_example 4 1 ([entry_example] @ [])"
    using delivers.chunk [OF _ _ _ d2, of 1 "[entry_example]"] by simp
  have "sh_getdents64 host_example 0 4 = (Inl EINTR, 1)"
    by (simp add: host_example_def)
  then have "delivers host_example 4 0 [entry_example]"
    using delivers.interrupted [OF _ d1] by simp
  moreover have "buffered search_example []"
    by (simp add: buffered_def search_example_def)
  ultimately have p: "pending host_example 0 search_example [entry_example]"
    unfolding pending_def by (intro conjI exI [of _ "[]"] exI [of _ "[entry_example]"]) (simp_all add: search_example_def)
  have wide: "wide_form [0x61] us \<longleftrightarrow> us = [0x61]" for us
  proof -
    have "decodes utf8_bytes False [0x61] [0x61]"
      by (simp add: utf8.decodes_strict scalar_def utf8_bytes_def)
    then have one: "list_all scalar cs \<and> [0x61] = concat (map utf8_bytes cs) \<longleftrightarrow> cs = [0x61]" for cs
      using utf8.decodes_functional utf8.decodes_strict by metis
    show ?thesis
      unfolding wide_form_def conj_assoc [symmetric] one by (simp add: utf16_units_def)
  qed
  have "wildcard_matches [STAR] [0x61] False"
    by code_simp
  then have rep: "reported search_example [0x61] stat_example d \<longleftrightarrow> d = report [0x61] stat_example" for d
    by (auto simp: reported_def wide search_example_def)
  have name: "en_name entry_example = [0x61]"
    by (simp add: entry_example_def)
  have "\<not> skipped search_example (\<lambda>name. Inr stat_example) entry_example"
    by (simp add: skipped_def name rep)
  then have first: "[entry_example] = [] @ entry_example # [] \<and>
      list_all (skipped search_example (\<lambda>name. Inr stat_example)) [] \<and>
      \<not> skipped search_example (\<lambda>name. Inr stat_example) entry_example"
    by simp
  have free: "\<not> se_locked search_example"
    by (simp add: search_example_def)
  have stat: "sh_fstatat host_example w (se_directory_fd search_example) name = (Inr stat_example, w)" for w name
    by (simp add: host_example_def)
  obtain answer s' w' where run:
      "sl_win32_search_next host_example 0 (Some search_example) = Some (answer, Some s', w')"
    and walk: "\<forall>before e after. [entry_example] = before @ e # after \<and>
      list_all (skipped search_example (\<lambda>name. Inr stat_example)) before \<and>
      \<not> skipped search_example (\<lambda>name. Inr stat_example) e \<longrightarrow>
       (\<exists>d. reported search_example (en_name e) stat_example d \<and> answer = (SL_SEARCH_OK, Some d, 0)) \<and>
       pending host_example w' s' after"
    using search_enumerates [OF p free stat] unfolding sum.case by (elim exE conjE) (rule that)
  have "(\<exists>d. reported search_example (en_name entry_example) stat_example d \<and> answer = (SL_SEARCH_OK, Some d, 0)) \<and>
      pending host_example w' s' []"
    by (rule walk [THEN spec, THEN spec, THEN spec, THEN mp, OF first])
  then have "answer = (SL_SEARCH_OK, Some (report [0x61] stat_example), 0)"
    unfolding name rep by simp
  then show ?thesis
    using run by (intro exI) (simp only:)
qed

end
