(* ===== verification/Unwind_Context.thy ===== *)
theory Unwind_Context
  imports Module_Registry
begin

text \<open>
  \<open>include/sadlayer/win64_unwind.h\<close>: the records of the AMD64 unwinder, with the registers the way the
  unwind codes number them.
\<close>

section \<open>Constants\<close>

definition SL_WIN64_UNW_FLAG_NHANDLER :: u32 where "SL_WIN64_UNW_FLAG_NHANDLER = 0"
definition SL_WIN64_UNW_FLAG_EHANDLER :: u32 where "SL_WIN64_UNW_FLAG_EHANDLER = 1"
definition SL_WIN64_UNW_FLAG_UHANDLER :: u32 where "SL_WIN64_UNW_FLAG_UHANDLER = 2"
definition SL_WIN64_UNW_FLAG_CHAININFO :: u32 where "SL_WIN64_UNW_FLAG_CHAININFO = 4"

definition SL_WIN64_EXCEPTION_NONCONTINUABLE :: u32 where "SL_WIN64_EXCEPTION_NONCONTINUABLE = 1"
definition SL_WIN64_EXCEPTION_UNWINDING :: u32 where "SL_WIN64_EXCEPTION_UNWINDING = 2"
definition SL_WIN64_EXCEPTION_EXIT_UNWIND :: u32 where "SL_WIN64_EXCEPTION_EXIT_UNWIND = 4"
definition SL_WIN64_EXCEPTION_TARGET_UNWIND :: u32 where "SL_WIN64_EXCEPTION_TARGET_UNWIND = 0x20"
definition SL_WIN64_EXCEPTION_DISPOSITION_CONTINUE_SEARCH :: "32 word" where
  "SL_WIN64_EXCEPTION_DISPOSITION_CONTINUE_SEARCH = 1"
definition SL_WIN64_EXCEPTION_DISPOSITION_COLLIDED_UNWIND :: "32 word" where
  "SL_WIN64_EXCEPTION_DISPOSITION_COLLIDED_UNWIND = 3"

section \<open>The processor context\<close>

record sl_win64_m128a =
  m128_low :: u64
  m128_high :: "64 word"

record sl_win64_xmm_save_area32 =
  xs_control_word :: u16
  xs_status_word :: u16
  xs_tag_word :: u8
  xs_reserved1 :: u8
  xs_error_opcode :: u16
  xs_error_offset :: u32
  xs_error_selector :: u16
  xs_reserved2 :: u16
  xs_data_offset :: u32
  xs_data_selector :: u16
  xs_reserved3 :: u16
  xs_mx_csr :: u32
  xs_mx_csr_mask :: u32
  xs_float_registers :: "sl_win64_m128a list"
  xs_xmm_registers :: "sl_win64_m128a list"
  xs_reserved4 :: bytes

record sl_win64_context =
  cx_p1_home :: u64
  cx_p2_home :: u64
  cx_p3_home :: u64
  cx_p4_home :: u64
  cx_p5_home :: u64
  cx_p6_home :: u64
  cx_context_flags :: u32
  cx_mx_csr :: u32
  cx_seg_cs :: u16
  cx_seg_ds :: u16
  cx_seg_es :: u16
  cx_seg_fs :: u16
  cx_seg_gs :: u16
  cx_seg_ss :: u16
  cx_e_flags :: u32
  cx_dr0 :: u64
  cx_dr1 :: u64
  cx_dr2 :: u64
  cx_dr3 :: u64
  cx_dr6 :: u64
  cx_dr7 :: u64
  cx_rax :: u64
  cx_rcx :: u64
  cx_rdx :: u64
  cx_rbx :: u64
  cx_rsp :: u64
  cx_rbp :: u64
  cx_rsi :: u64
  cx_rdi :: u64
  cx_r8 :: u64
  cx_r9 :: u64
  cx_r10 :: u64
  cx_r11 :: u64
  cx_r12 :: u64
  cx_r13 :: u64
  cx_r14 :: u64
  cx_r15 :: u64
  cx_rip :: u64
  cx_flt_save :: sl_win64_xmm_save_area32
  cx_vector_register :: "sl_win64_m128a list"
  cx_vector_control :: u64
  cx_debug_control :: u64
  cx_last_branch_to_rip :: u64
  cx_last_branch_from_rip :: u64
  cx_last_exception_to_rip :: u64
  cx_last_exception_from_rip :: u64

record sl_win64_runtime_function =
  rf_begin_address :: u32
  rf_end_address :: u32
  rf_unwind_data :: u32

text \<open>The two arrays of 16 pointers, as the addresses they hold.\<close>

record sl_win64_nonvolatile_context_pointers =
  cp_floating_context :: "ptr list"
  cp_integer_context :: "ptr list"

record sl_win64_stack_bounds =
  sb_limit :: u64
  sb_base :: u64

section \<open>The registers by number\<close>

definition integer_register :: "sl_win64_context \<Rightarrow> u8 \<Rightarrow> u64 option" where
  "integer_register context number =
     (if number = 0 then Some (cx_rax context) else if number = 1 then Some (cx_rcx context)
      else if number = 2 then Some (cx_rdx context) else if number = 3 then Some (cx_rbx context)
      else if number = 4 then Some (cx_rsp context) else if number = 5 then Some (cx_rbp context)
      else if number = 6 then Some (cx_rsi context) else if number = 7 then Some (cx_rdi context)
      else if number = 8 then Some (cx_r8 context) else if number = 9 then Some (cx_r9 context)
      else if number = 10 then Some (cx_r10 context) else if number = 11 then Some (cx_r11 context)
      else if number = 12 then Some (cx_r12 context) else if number = 13 then Some (cx_r13 context)
      else if number = 14 then Some (cx_r14 context) else if number = 15 then Some (cx_r15 context)
      else None)"

text \<open>Writing through the pointer \<open>integer_register\<close> returns.\<close>

definition set_integer_register :: "sl_win64_context \<Rightarrow> u8 \<Rightarrow> u64 \<Rightarrow> sl_win64_context option" where
  "set_integer_register c number v =
     (if number = 0 then Some (c\<lparr>cx_rax := v\<rparr>) else if number = 1 then Some (c\<lparr>cx_rcx := v\<rparr>)
      else if number = 2 then Some (c\<lparr>cx_rdx := v\<rparr>) else if number = 3 then Some (c\<lparr>cx_rbx := v\<rparr>)
      else if number = 4 then Some (c\<lparr>cx_rsp := v\<rparr>) else if number = 5 then Some (c\<lparr>cx_rbp := v\<rparr>)
      else if number = 6 then Some (c\<lparr>cx_rsi := v\<rparr>) else if number = 7 then Some (c\<lparr>cx_rdi := v\<rparr>)
      else if number = 8 then Some (c\<lparr>cx_r8 := v\<rparr>) else if number = 9 then Some (c\<lparr>cx_r9 := v\<rparr>)
      else if number = 10 then Some (c\<lparr>cx_r10 := v\<rparr>) else if number = 11 then Some (c\<lparr>cx_r11 := v\<rparr>)
      else if number = 12 then Some (c\<lparr>cx_r12 := v\<rparr>) else if number = 13 then Some (c\<lparr>cx_r13 := v\<rparr>)
      else if number = 14 then Some (c\<lparr>cx_r14 := v\<rparr>) else if number = 15 then Some (c\<lparr>cx_r15 := v\<rparr>)
      else None)"

definition is_nonvolatile_integer_register :: "u8 \<Rightarrow> bool" where
  "is_nonvolatile_integer_register number \<longleftrightarrow>
     number = 3 \<or> number = 5 \<or> number = 6 \<or> number = 7 \<or> number \<ge> 12"

definition is_nonvolatile_xmm_register :: "u8 \<Rightarrow> bool" where
  "is_nonvolatile_xmm_register number \<longleftrightarrow> number \<ge> 6 \<and> number \<le> 15"

section \<open>Facts about the register file\<close>

lemma nibble_cases:
  "(number :: u8) < 16 \<longleftrightarrow> number = 0 \<or> number = 1 \<or> number = 2 \<or> number = 3 \<or> number = 4 \<or> number = 5 \<or>
     number = 6 \<or> number = 7 \<or> number = 8 \<or> number = 9 \<or> number = 10 \<or> number = 11 \<or> number = 12 \<or>
     number = 13 \<or> number = 14 \<or> number = 15"
proof -
  have "unat number < 16 \<longleftrightarrow> unat number \<in> {0, 1, 2, 3, 4, 5, 6, 7, 8, 9, 10, 11, 12, 13, 14, 15}"
    by (simp only: insert_iff empty_iff) presburger
  then show ?thesis
    by (simp add: word_less_nat_alt word_unat_eq_iff)
qed

lemma integer_register_Some: "number < 16 \<Longrightarrow> \<exists>v. integer_register c number = Some v"
  by (simp add: integer_register_def)  (auto simp: nibble_cases)

lemma set_integer_register_Some: "number < 16 \<Longrightarrow> \<exists>c'. set_integer_register c number v = Some c'"
  by (simp add: set_integer_register_def)  (auto simp: nibble_cases)

lemma if_Some_E:
  "(if b then Some x else r) = Some y \<Longrightarrow> (b \<Longrightarrow> y = x \<Longrightarrow> P) \<Longrightarrow> (\<not> b \<Longrightarrow> r = Some y \<Longrightarrow> P) \<Longrightarrow> P"
  by (auto split: if_splits)

lemma integer_register_set:
  assumes "set_integer_register c number v = Some c'"
  shows "integer_register c' m = (if m = number then Some v else integer_register c m)"
  using assms unfolding set_integer_register_def
  by (elim if_Some_E) (auto simp: integer_register_def)

text \<open>Only the register named is written.\<close>

lemma set_integer_register_other:
  assumes "set_integer_register c number v = Some c'"
  shows "cx_rip c' = cx_rip c" "cx_flt_save c' = cx_flt_save c" "cx_e_flags c' = cx_e_flags c"
    "number \<noteq> 4 \<Longrightarrow> cx_rsp c' = cx_rsp c"
  using assms by (auto simp: set_integer_register_def split: if_splits)

lemma integer_register_rsp: "integer_register c 4 = Some (cx_rsp c)"
  by (simp add: integer_register_def)

lemma nonvolatile_not_rsp: "is_nonvolatile_integer_register number \<Longrightarrow> number \<noteq> 4 \<and> number \<noteq> 0"
  by (auto simp: is_nonvolatile_integer_register_def)

end
