(* ===== verification/Unwind_Lookup.thy ===== *)
theory Unwind_Lookup
  imports Unwind_Context Module_Names
begin

text \<open>
  \<open>src/win64_unwind.c\<close>, first part: windows into a mapped module and the lookup of a function entry in
  its exception directory. A pointer into the mapping is its offset where the code only reads through
  it, and the address where it is compared or handed out; \<open>None\<close> is a read outside the mapping.
\<close>

definition SL_WIN64_RUNTIME_FUNCTION_SIZE :: nat where "SL_WIN64_RUNTIME_FUNCTION_SIZE = 12"
definition SL_WIN64_MAX_CHAIN_DEPTH :: nat where "SL_WIN64_MAX_CHAIN_DEPTH = 32"

definition add_u64 :: "u64 \<Rightarrow> u64 \<Rightarrow> u64 option" where
  "add_u64 left right = (if right > 0xffffffffffffffff - left then None else Some (left + right))"

section \<open>Windows\<close>

text \<open>What stands behind \<open>module->mapped->bytes\<close> and \<open>module->image\<close>.\<close>

definition module_mapping :: "module_objects \<Rightarrow> sl_loaded_module \<Rightarrow> sl_mapped_image" where
  "module_mapping objects module = mapped_at objects (the (md_mapped module))"

definition module_bytes :: "module_objects \<Rightarrow> sl_loaded_module \<Rightarrow> bytes" where
  "module_bytes objects module = the (mp_bytes (module_mapping objects module))"

definition module_image :: "module_objects \<Rightarrow> sl_loaded_module \<Rightarrow> sl_pe_image" where
  "module_image objects module = image_at objects (the (md_image module))"

definition module_window :: "module_objects \<Rightarrow> sl_loaded_module option \<Rightarrow> u32 \<Rightarrow> nat \<Rightarrow> nat option" where
  "module_window objects module rva len =
     (case module of
        None \<Rightarrow> None
      | Some m \<Rightarrow>
          if md_kind m \<noteq> SL_MODULE_PE \<or> md_image m = None \<or> md_mapped m = None \<or>
             mp_bytes (module_mapping objects m) = None \<or>
             mp_size (module_mapping objects m) \<noteq> unat (pe_image_size (module_image objects m)) \<or>
             unat rva > mp_size (module_mapping objects m) \<or>
             len > mp_size (module_mapping objects m) - unat rva
          then None
          else Some (unat rva))"

section \<open>The exception directory\<close>

definition runtime_function_is_valid :: "sl_pe_image \<Rightarrow> sl_win64_runtime_function \<Rightarrow> bool" where
  "runtime_function_is_valid img entry \<longleftrightarrow>
     pe_image_size img \<ge> 4 \<and> rf_begin_address entry < rf_end_address entry \<and>
     rf_end_address entry \<le> pe_image_size img \<and> rf_unwind_data entry \<noteq> 0 \<and>
     rf_unwind_data entry AND 3 = 0 \<and> rf_unwind_data entry \<le> pe_image_size img - 4"

text \<open>The offset of the table and the number of its entries.\<close>

definition exception_directory :: "module_objects \<Rightarrow> sl_loaded_module option \<Rightarrow> (nat \<times> nat) option" where
  "exception_directory objects module =
     (case module of
        None \<Rightarrow> None
      | Some m \<Rightarrow>
          if md_kind m \<noteq> SL_MODULE_PE \<or> md_image m = None \<or> \<not> pe_is_pe32_plus (module_image objects m) \<or>
             pe_machine (module_image objects m) \<noteq> SL_PE_MACHINE_AMD64
          then None
          else let directory = pe_directories (module_image objects m) ! SL_PE_DIRECTORY_EXCEPTION
          in if dir_rva directory = 0 \<or> dir_size directory = 0 \<or>
                unat (dir_size directory) mod SL_WIN64_RUNTIME_FUNCTION_SIZE \<noteq> 0
             then None
             else (case module_window objects module (dir_rva directory) (unat (dir_size directory)) of
                     None \<Rightarrow> None
                   | Some table \<Rightarrow>
                       let entry_count = unat (dir_size directory) div SL_WIN64_RUNTIME_FUNCTION_SIZE
                       in if entry_count \<noteq> 0 then Some (table, entry_count) else None))"

definition read_runtime_function :: "bytes \<Rightarrow> nat \<Rightarrow> sl_win64_runtime_function option" where
  "read_runtime_function data source = do {
     begin_address \<leftarrow> load_u32 data source;
     end_address \<leftarrow> load_u32 data (source + 4);
     unwind_data \<leftarrow> load_u32 data (source + 8);
     Some \<lparr>rf_begin_address = begin_address, rf_end_address = end_address, rf_unwind_data = unwind_data\<rparr>
   }"

section \<open>The lookup\<close>

text \<open>The loop over the table, with the offset of the entry found so far.\<close>

function lookup_entries ::
    "bytes \<Rightarrow> sl_pe_image \<Rightarrow> nat \<Rightarrow> nat \<Rightarrow> u64 \<Rightarrow> nat \<Rightarrow> u32 \<Rightarrow> nat option \<Rightarrow> nat option result option" where
  "lookup_entries data img table entry_count relative_pc index previous_end match =
     (if index < entry_count
      then (let entry_bytes = table + index * SL_WIN64_RUNTIME_FUNCTION_SIZE
            in case read_runtime_function data entry_bytes of
                 None \<Rightarrow> None
               | Some entry \<Rightarrow>
                   if \<not> runtime_function_is_valid img entry \<or>
                      (index \<noteq> 0 \<and> rf_begin_address entry < previous_end)
                   then Some (Inl SL_ERROR_INVALID_IMAGE)
                   else lookup_entries data img table entry_count relative_pc (index + 1)
                          (rf_end_address entry)
                          (if ucast (rf_begin_address entry) \<le> relative_pc \<and>
                              relative_pc < ucast (rf_end_address entry)
                           then Some entry_bytes else match))
      else Some (Inr match))"
  by pat_completeness auto
termination
  by (relation "measure (\<lambda>(data, img, table, n, pc, i, e, m). n - i)") auto

declare lookup_entries.simps [simp del]

text \<open>\<open>outs\<close> says whether the three out pointers are given; the answer is the image base, the
  address of the entry and the module.\<close>

definition sl_win64_lookup_function_entry ::
    "module_objects \<Rightarrow> sl_module_registry option \<Rightarrow> u64 \<Rightarrow> bool \<Rightarrow> (u64 \<times> ptr \<times> nat) result option" where
  "sl_win64_lookup_function_entry objects registry control_pc outs =
     (if \<not> outs then Some (Inl SL_ERROR_INVALID_ARGUMENT)
      else case registry of
        None \<Rightarrow> Some (Inl SL_ERROR_ADDRESS_OUT_OF_RANGE)
      | Some r \<Rightarrow>
      (case sl_module_registry_resolve_address objects registry control_pc of
         Inl status \<Rightarrow> Some (Inl SL_ERROR_ADDRESS_OUT_OF_RANGE)
       | Inr index \<Rightarrow>
           let m = rg_modules r ! index
           in if md_kind m \<noteq> SL_MODULE_PE \<or> md_mapped m = None \<or>
                 control_pc < mp_load_base (module_mapping objects m)
              then Some (Inl SL_ERROR_ADDRESS_OUT_OF_RANGE)
              else (case exception_directory objects (Some m) of
                      None \<Rightarrow> Some (Inl SL_ERROR_ADDRESS_OUT_OF_RANGE)
                    | Some (table, entry_count) \<Rightarrow>
                        let relative_pc = control_pc - mp_load_base (module_mapping objects m)
                        in if relative_pc > 0xffffffff then Some (Inl SL_ERROR_ADDRESS_OUT_OF_RANGE)
                           else (case lookup_entries (module_bytes objects m) (module_image objects m) table
                                        entry_count relative_pc 0 0 None of
                                   None \<Rightarrow> None
                                 | Some (Inl status) \<Rightarrow> Some (Inl status)
                                 | Some (Inr None) \<Rightarrow> Some (Inl SL_ERROR_ADDRESS_OUT_OF_RANGE)
                                 | Some (Inr (Some match)) \<Rightarrow>
                                     Some (Inr (mp_load_base (module_mapping objects m),
                                       mp_address (module_mapping objects m) + of_nat match, index))))))"

section \<open>The window is inside the mapping\<close>

text \<open>A PE module whose mapping has its memory.\<close>

definition backed :: "module_objects \<Rightarrow> sl_loaded_module \<Rightarrow> bool" where
  "backed objects m \<longleftrightarrow>
     (md_kind m = SL_MODULE_PE \<longrightarrow> mp_size (module_mapping objects m) \<le> length (module_bytes objects m))"

lemma module_window_Some:
  assumes "module_window objects (Some m) rva len = Some offset"
  shows "md_kind m = SL_MODULE_PE" "offset = unat rva" "unat rva + len \<le> mp_size (module_mapping objects m)"
    "mp_size (module_mapping objects m) = unat (pe_image_size (module_image objects m))"
  using assms by (auto simp: module_window_def split: if_splits)

lemma module_window_backed:
  "backed objects m \<Longrightarrow> module_window objects (Some m) rva len = Some offset \<Longrightarrow>
    offset + len \<le> length (module_bytes objects m)"
  using module_window_Some [of objects m rva len offset] by (simp add: backed_def)

lemma load_u32_Some: "offset + 4 \<le> length data \<Longrightarrow> \<exists>v. load_u32 data offset = Some v"
  by (simp add: load_u32_def)

lemma read_runtime_function_Some:
  "source + 12 \<le> length data \<Longrightarrow> \<exists>entry. read_runtime_function data source = Some entry"
  using load_u32_Some [of source data] load_u32_Some [of "source + 4" data] load_u32_Some [of "source + 8" data]
  by (auto simp: read_runtime_function_def)

lemma exception_directory_Some:
  assumes "exception_directory objects (Some m) = Some (table, n)"
  shows "module_window objects (Some m)
      (dir_rva (pe_directories (module_image objects m) ! SL_PE_DIRECTORY_EXCEPTION)) (n * 12) = Some table" "n \<noteq> 0"
  using assms by (auto simp: exception_directory_def Let_def SL_WIN64_RUNTIME_FUNCTION_SIZE_def
      split: if_splits option.splits)

section \<open>What the loop finds\<close>

definition table_entry :: "bytes \<Rightarrow> nat \<Rightarrow> nat \<Rightarrow> sl_win64_runtime_function" where
  "table_entry data table i = the (read_runtime_function data (table + i * 12))"

definition covers :: "u64 \<Rightarrow> sl_win64_runtime_function \<Rightarrow> bool" where
  "covers relative_pc entry \<longleftrightarrow>
     ucast (rf_begin_address entry) \<le> relative_pc \<and> relative_pc < ucast (rf_end_address entry)"

lemma ivl_step: "(index :: nat) < n \<Longrightarrow> {index..<n} = insert index {index + 1..<n}"
  by auto

text \<open>The entries from \<open>index\<close> on are valid and in order, without overlap.\<close>

definition ordered_from :: "sl_pe_image \<Rightarrow> (nat \<Rightarrow> sl_win64_runtime_function) \<Rightarrow> nat \<Rightarrow> nat \<Rightarrow> bool" where
  "ordered_from img entries index n \<longleftrightarrow>
     (\<forall>i\<in>{index..<n}. runtime_function_is_valid img (entries i) \<and>
        (0 < i \<longrightarrow> rf_end_address (entries (i - 1)) \<le> rf_begin_address (entries i)))"

lemma ordered_from_step:
  "index < n \<Longrightarrow> ordered_from img entries index n \<longleftrightarrow> runtime_function_is_valid img (entries index) \<and>
     (0 < index \<longrightarrow> rf_end_address (entries (index - 1)) \<le> rf_begin_address (entries index)) \<and>
     ordered_from img entries (index + 1) n"
  unfolding ordered_from_def by (subst ivl_step) simp_all

text \<open>The offset of an entry from \<open>index\<close> on that covers the address, or \<open>match\<close> if there is none.\<close>

definition finds ::
    "bytes \<Rightarrow> nat \<Rightarrow> nat \<Rightarrow> u64 \<Rightarrow> nat \<Rightarrow> nat option \<Rightarrow> nat option \<Rightarrow> bool" where
  "finds data table n pc index match found \<longleftrightarrow>
     (\<exists>i\<in>{index..<n}. covers pc (table_entry data table i) \<and> found = Some (table + i * 12)) \<or>
     (\<forall>i\<in>{index..<n}. \<not> covers pc (table_entry data table i)) \<and> found = match"

lemma finds_step:
  assumes "index < n"
    "finds data table n pc (index + 1)
       (if covers pc (table_entry data table index) then Some (table + index * 12) else match) found"
  shows "finds data table n pc index match found"
  using assms(2) unfolding finds_def ivl_step [OF assms(1)] by (auto split: if_splits)

lemma lookup_entries_exact:
  assumes "table + n * 12 \<le> length data" "0 < index \<longrightarrow> previous_end = rf_end_address (table_entry data table (index - 1))"
  shows "\<exists>r. lookup_entries data img table n pc index previous_end match = Some r \<and>
    (case r of
       Inl status \<Rightarrow> status = SL_ERROR_INVALID_IMAGE \<and> \<not> ordered_from img (table_entry data table) index n
     | Inr found \<Rightarrow> ordered_from img (table_entry data table) index n \<and> finds data table n pc index match found)"
  using assms
proof (induction data img table n pc index previous_end match rule: lookup_entries.induct)
  case (1 data img table n pc index previous_end match)
  note unfolded = lookup_entries.simps [of data img table n pc index previous_end match,
      unfolded SL_WIN64_RUNTIME_FUNCTION_SIZE_def Let_def]
  let ?entry = "table_entry data table index"
  show ?case
  proof (cases "index < n")
    case False
    then show ?thesis
      by (simp add: unfolded ordered_from_def finds_def)
  next
    case True
    have "table + index * 12 + 12 \<le> length data"
      using 1(2) True by (auto dest: Suc_leI mult_le_mono1 [where k = 12])
    then have entry: "read_runtime_function data (table + index * 12) = Some ?entry"
      using read_runtime_function_Some [of "table + index * 12" data] by (auto simp: table_entry_def)
    show ?thesis
    proof (cases "\<not> runtime_function_is_valid img ?entry \<or> (index \<noteq> 0 \<and> rf_begin_address ?entry < previous_end)")
      case bad: True
      then have "\<not> ordered_from img (table_entry data table) index n"
        using 1(3) by (auto simp: ordered_from_step [OF True] not_le)
      then show ?thesis
        using bad True by (simp add: unfolded entry)
    next
      case False
      let ?match = "if covers pc ?entry then Some (table + index * 12) else match"
      have step: "lookup_entries data img table n pc index previous_end match =
          lookup_entries data img table n pc (index + 1) (rf_end_address ?entry) ?match"
        unfolding unfolded entry covers_def using True False by (simp only: if_True if_False option.case)
      have same: "ordered_from img (table_entry data table) index n =
          ordered_from img (table_entry data table) (index + 1) n"
        using False 1(3) by (auto simp: ordered_from_step [OF True] not_less)
      obtain r where r: "lookup_entries data img table n pc (index + 1) (rf_end_address ?entry) ?match = Some r"
          "case r of
             Inl status \<Rightarrow> status = SL_ERROR_INVALID_IMAGE \<and> \<not> ordered_from img (table_entry data table) (index + 1) n
           | Inr found \<Rightarrow> ordered_from img (table_entry data table) (index + 1) n \<and>
               finds data table n pc (index + 1) ?match found"
        using 1(1) [OF True refl entry [folded SL_WIN64_RUNTIME_FUNCTION_SIZE_def] False] 1(2)
        unfolding covers_def [symmetric] SL_WIN64_RUNTIME_FUNCTION_SIZE_def by auto
      then show ?thesis
        unfolding step same using finds_step [OF True, of data table pc match] by (cases r) auto
    qed
  qed
qed

text \<open>In an ordered table at most one entry covers an address.\<close>

lemma ordered_entry: "ordered_from img entries 0 n \<Longrightarrow> i < n \<Longrightarrow> runtime_function_is_valid img (entries i)"
  by (simp add: ordered_from_def)

lemma ordered_ends:
  assumes "ordered_from img entries 0 n" "i < j" "j < n"
  shows "rf_end_address (entries i) \<le> rf_begin_address (entries j)"
  using assms(2,3)
proof (induction j)
  case (Suc j)
  have le: "rf_end_address (entries j) \<le> rf_begin_address (entries (Suc j))"
    using assms(1) Suc(3) unfolding ordered_from_def by (metis atLeastLessThan_iff diff_Suc_1 le0 zero_less_Suc)
  show ?case
  proof (cases "i = j")
    case False
    then have "rf_end_address (entries i) \<le> rf_begin_address (entries j)"
      using Suc by simp
    also have "rf_begin_address (entries j) \<le> rf_end_address (entries j)"
      using ordered_entry [OF assms(1), of j] Suc(3) by (simp add: runtime_function_is_valid_def less_imp_le)
    finally show ?thesis
      using le by simp
  qed (use le in simp)
qed simp

lemma covers_unique:
  assumes "ordered_from img entries 0 n" "i < n" "j < n" "covers pc (entries i)" "covers pc (entries j)"
  shows "i = j"
proof -
  have "\<not> i < j" if "i < n" "j < n" "covers pc (entries i)" "covers pc (entries j)" for i j
  proof
    assume "i < j"
    then have "(ucast (rf_end_address (entries i)) :: u64) \<le> ucast (rf_begin_address (entries j))"
      using ordered_ends [OF assms(1) _ that(2)] by (simp add: word_le_nat_alt unat_ucast_up)
    then show False
      using that(3,4) unfolding covers_def by (meson leD le_less_trans less_le_trans order_trans)
  qed
  then show ?thesis
    using assms(2-5) by (meson linorder_neqE_nat)
qed

section \<open>The lookup is exact\<close>

lemma resolve_address_Inr:
  assumes "sl_module_registry_resolve_address objects (Some r) address = Inr index"
  shows "index < length (rg_modules r)" "address_in_module objects address (rg_modules r ! index)"
  using assms by (auto simp: sl_module_registry_resolve_address_def first_index_Some split: if_splits)

text \<open>The entry \<open>i\<close> of the table of the module \<open>m\<close> is the one for an address.\<close>

definition entry_for :: "module_objects \<Rightarrow> sl_loaded_module \<Rightarrow> u64 \<Rightarrow> nat \<Rightarrow> nat \<Rightarrow> nat \<Rightarrow> bool" where
  "entry_for objects m pc table n i \<longleftrightarrow>
     exception_directory objects (Some m) = Some (table, n) \<and>
     ordered_from (module_image objects m) (table_entry (module_bytes objects m) table) 0 n \<and>
     i < n \<and> covers (pc - mp_load_base (module_mapping objects m)) (table_entry (module_bytes objects m) table i)"

lemma covers_u32: "covers pc entry \<Longrightarrow> pc \<le> 0xffffffff"
proof -
  assume "covers pc entry"
  then have "unat pc < unat (rf_end_address entry)"
    by (simp add: covers_def word_less_nat_alt unat_ucast_up)
  then show ?thesis
    using unat_u32_lt [of "rf_end_address entry"] by (simp add: word_le_nat_alt del: unat_u32_lt)
qed

lemma address_in_module_unfold:
  "address_in_module objects address m \<longleftrightarrow> md_kind m = SL_MODULE_PE \<and> md_mapped m \<noteq> None \<and>
     mp_load_base (module_mapping objects m) \<noteq> 0 \<and> mp_load_base (module_mapping objects m) \<le> address \<and>
     unat (address - mp_load_base (module_mapping objects m)) < mp_size (module_mapping objects m)"
  by (auto simp: address_in_module_def module_mapping_def Let_def split: option.splits)

lemma lookup_function_entry_exact:
  assumes "list_all (backed objects) (rg_modules r)"
  shows "sl_win64_lookup_function_entry objects (Some r) pc True \<noteq> None"
    and "sl_win64_lookup_function_entry objects (Some r) pc True = Some (Inr (base, entry, index)) \<longleftrightarrow>
      sl_module_registry_resolve_address objects (Some r) pc = Inr index \<and>
      base = mp_load_base (module_mapping objects (rg_modules r ! index)) \<and>
      (\<exists>table n i. entry_for objects (rg_modules r ! index) pc table n i \<and>
         entry = mp_address (module_mapping objects (rg_modules r ! index)) + of_nat (table + i * 12))"
proof -
  let ?run = "sl_win64_lookup_function_entry objects (Some r) pc True"
  have "?run \<noteq> None \<and> (?run = Some (Inr (base, entry, index)) \<longleftrightarrow>
      sl_module_registry_resolve_address objects (Some r) pc = Inr index \<and>
      base = mp_load_base (module_mapping objects (rg_modules r ! index)) \<and>
      (\<exists>table n i. entry_for objects (rg_modules r ! index) pc table n i \<and>
         entry = mp_address (module_mapping objects (rg_modules r ! index)) + of_nat (table + i * 12)))"
  proof (cases "sl_module_registry_resolve_address objects (Some r) pc")
    case (Inl status)
    then show ?thesis
      by (simp add: sl_win64_lookup_function_entry_def)
  next
    case (Inr found)
    let ?m = "rg_modules r ! found"
    let ?pc = "pc - mp_load_base (module_mapping objects ?m)"
    have module: "md_kind ?m = SL_MODULE_PE" "md_mapped ?m \<noteq> None" "\<not> pc < mp_load_base (module_mapping objects ?m)"
      using resolve_address_Inr(2) [OF Inr] by (auto simp: address_in_module_unfold)
    have backed: "backed objects ?m"
      using assms resolve_address_Inr(1) [OF Inr] by (simp add: list_all_length)
    note run = sl_win64_lookup_function_entry_def Let_def Inr module
    show ?thesis
    proof (cases "exception_directory objects (Some ?m)")
      case None
      then show ?thesis
        using Inr module by (auto simp: run entry_for_def)
    next
      case (Some t)
      obtain table n where t: "t = (table, n)"
        by fastforce
      have inside: "table + n * 12 \<le> length (module_bytes objects ?m)"
        using module_window_backed [OF backed exception_directory_Some(1) [OF Some [unfolded t]]] .
      show ?thesis
      proof (cases "?pc > 0xffffffff")
        case True
        then have "\<not> covers ?pc e" for e
          using covers_u32 [of ?pc e] by (auto simp: not_le)
        then show ?thesis
          using True Inr module Some t by (auto simp: run entry_for_def)
      next
        case False
        obtain res where res: "lookup_entries (module_bytes objects ?m) (module_image objects ?m) table n ?pc 0 0 None = Some res"
            "case res of
               Inl status \<Rightarrow> status = SL_ERROR_INVALID_IMAGE \<and>
                 \<not> ordered_from (module_image objects ?m) (table_entry (module_bytes objects ?m) table) 0 n
             | Inr e \<Rightarrow> ordered_from (module_image objects ?m) (table_entry (module_bytes objects ?m) table) 0 n \<and>
                 finds (module_bytes objects ?m) table n ?pc 0 None e"
          using lookup_entries_exact [OF inside, of 0 0 "module_image objects ?m" ?pc None] by blast
        show ?thesis
        proof (cases res)
          case (Inl status)
          then show ?thesis
            using res False \<open>sl_module_registry_resolve_address objects (Some r) pc = Inr found\<close> module Some t
            by (auto simp: run entry_for_def)
        next
          case e: (Inr e)
          then show ?thesis
            using res False Inr module Some t
            by (auto simp: run entry_for_def finds_def split: option.splits) (metis covers_unique)
        qed
      qed
    qed
  qed
  then show "?run \<noteq> None" "?run = Some (Inr (base, entry, index)) \<longleftrightarrow>
      sl_module_registry_resolve_address objects (Some r) pc = Inr index \<and>
      base = mp_load_base (module_mapping objects (rg_modules r ! index)) \<and>
      (\<exists>table n i. entry_for objects (rg_modules r ! index) pc table n i \<and>
         entry = mp_address (module_mapping objects (rg_modules r ! index)) + of_nat (table + i * 12))"
    by blast+
qed

end
