(* ===== verification/Unwind_Records.thy ===== *)
theory Unwind_Records
  imports Unwind_Lookup
begin

text \<open>
  \<open>src/win64_unwind.c\<close>, second part: the unwind records of a function, with the validation of their
  codes, of the version 2 epilogue descriptors in front of them and of the chain of records. An outer
  \<open>None\<close> is a read outside the array of codes or the mapping, an inner one the code's \<open>false\<close>.
\<close>

definition SL_UWOP_PUSH_NONVOL :: u8 where "SL_UWOP_PUSH_NONVOL = 0"
definition SL_UWOP_ALLOC_LARGE :: u8 where "SL_UWOP_ALLOC_LARGE = 1"
definition SL_UWOP_ALLOC_SMALL :: u8 where "SL_UWOP_ALLOC_SMALL = 2"
definition SL_UWOP_SET_FPREG :: u8 where "SL_UWOP_SET_FPREG = 3"
definition SL_UWOP_SAVE_NONVOL :: u8 where "SL_UWOP_SAVE_NONVOL = 4"
definition SL_UWOP_SAVE_NONVOL_FAR :: u8 where "SL_UWOP_SAVE_NONVOL_FAR = 5"
definition SL_UWOP_EPILOG :: u8 where "SL_UWOP_EPILOG = 6"
definition SL_UWOP_SAVE_XMM128 :: u8 where "SL_UWOP_SAVE_XMM128 = 8"
definition SL_UWOP_SAVE_XMM128_FAR :: u8 where "SL_UWOP_SAVE_XMM128_FAR = 9"
definition SL_UWOP_PUSH_MACHFRAME :: u8 where "SL_UWOP_PUSH_MACHFRAME = 10"

lemmas uwop_defs = SL_UWOP_PUSH_NONVOL_def SL_UWOP_ALLOC_LARGE_def SL_UWOP_ALLOC_SMALL_def
  SL_UWOP_SET_FPREG_def SL_UWOP_SAVE_NONVOL_def SL_UWOP_SAVE_NONVOL_FAR_def SL_UWOP_EPILOG_def
  SL_UWOP_SAVE_XMM128_def SL_UWOP_SAVE_XMM128_FAR_def SL_UWOP_PUSH_MACHFRAME_def

section \<open>One code\<close>

definition unwind_operation_slots :: "u8 \<Rightarrow> u8 \<Rightarrow> u8 \<Rightarrow> nat" where
  "unwind_operation_slots version operation info =
     (if operation = SL_UWOP_PUSH_NONVOL \<or> operation = SL_UWOP_ALLOC_SMALL \<or>
         operation = SL_UWOP_SET_FPREG \<or> operation = SL_UWOP_PUSH_MACHFRAME then 1
      else if operation = SL_UWOP_ALLOC_LARGE then (if info = 0 then 2 else if info = 1 then 3 else 0)
      else if operation = SL_UWOP_SAVE_NONVOL \<or> operation = SL_UWOP_SAVE_XMM128 then 2
      else if operation = SL_UWOP_SAVE_NONVOL_FAR \<or> operation = SL_UWOP_SAVE_XMM128_FAR then 3
      else if operation = SL_UWOP_EPILOG then (if version = 2 then 2 else 0)
      else 0)"

definition unwind_operation_is_valid :: "u8 \<Rightarrow> u8 \<Rightarrow> bool" where
  "unwind_operation_is_valid operation info =
     (if operation = SL_UWOP_PUSH_NONVOL \<or> operation = SL_UWOP_SAVE_NONVOL \<or>
         operation = SL_UWOP_SAVE_NONVOL_FAR then is_nonvolatile_integer_register info
      else if operation = SL_UWOP_ALLOC_LARGE then info \<le> 1
      else if operation = SL_UWOP_ALLOC_SMALL then True
      else if operation = SL_UWOP_SET_FPREG then True
      else if operation = SL_UWOP_SAVE_XMM128 \<or> operation = SL_UWOP_SAVE_XMM128_FAR
      then is_nonvolatile_xmm_register info
      else if operation = SL_UWOP_PUSH_MACHFRAME then info \<le> 1
      else False)"

definition peek :: "bytes \<Rightarrow> nat \<Rightarrow> u8 option" where
  "peek data i = (if i < length data then Some (data ! i) else None)"

text \<open>The offset, the operation and the information of the code at an index.\<close>

definition code_at :: "bytes \<Rightarrow> nat \<Rightarrow> (u8 \<times> u8 \<times> u8) option" where
  "code_at codes index = do {
     code_offset \<leftarrow> peek codes (index * 2);
     operation_and_info \<leftarrow> peek codes (index * 2 + 1);
     Some (code_offset, operation_and_info AND 0x0f, drop_bit 4 operation_and_info)
   }"

section \<open>Version 2 epilogue descriptors\<close>

record sl_v2_epilogue_info =
  ep_present :: bool
  ep_implicit_at_end :: bool
  ep_size :: u8
  ep_code_slots :: nat

definition no_epilogues :: sl_v2_epilogue_info where
  "no_epilogues = \<lparr>ep_present = False, ep_implicit_at_end = False, ep_size = 0, ep_code_slots = 0\<rparr>"

text \<open>The 12-bit distance of a descriptor from the end of the function.\<close>

definition descriptor_distance :: "bytes \<Rightarrow> nat \<Rightarrow> u32 option" where
  "descriptor_distance codes index = do {
     low \<leftarrow> peek codes (index * 2);
     high \<leftarrow> peek codes (index * 2 + 1);
     Some (ucast low OR push_bit 8 (ucast (drop_bit 4 high)))
   }"

function epilogue_descriptors :: "bytes \<Rightarrow> nat \<Rightarrow> nat \<Rightarrow> bool \<Rightarrow> (nat \<times> bool) option" where
  "epilogue_descriptors codes code_count index has_epilogue =
     (if index < code_count
      then (case (code_at codes index, descriptor_distance codes index) of
              (Some (_, operation, _), Some distance) \<Rightarrow>
                if operation \<noteq> SL_UWOP_EPILOG then Some (index, has_epilogue)
                else if distance = 0 then Some (index + 1, has_epilogue)
                else epilogue_descriptors codes code_count (index + 1) True
            | _ \<Rightarrow> None)
      else Some (index, has_epilogue))"
  by pat_completeness auto
termination
  by (relation "measure (\<lambda>(codes, n, i, h). n - i)") auto

declare epilogue_descriptors.simps [simp del]

definition parse_v2_epilogue_prefix :: "bytes \<Rightarrow> nat \<Rightarrow> u8 \<Rightarrow> sl_v2_epilogue_info option option" where
  "parse_v2_epilogue_prefix codes code_count version =
     (if version \<noteq> 2 \<or> code_count = 0 then Some (Some no_epilogues)
      else case code_at codes 0 of
        None \<Rightarrow> None
      | Some (len, operation, flags) \<Rightarrow>
          if operation \<noteq> SL_UWOP_EPILOG then Some (Some no_epilogues)
          else if len = 0 \<or> flags AND NOT 1 \<noteq> 0 then Some None
          else (case epilogue_descriptors codes code_count 1 (flags AND 1 \<noteq> 0) of
                  None \<Rightarrow> None
                | Some (index, has_epilogue) \<Rightarrow>
                    if \<not> has_epilogue \<or> index mod 2 \<noteq> 0 then Some None
                    else let parsed = \<lparr>ep_present = True, ep_implicit_at_end = flags AND 1 \<noteq> 0, ep_size = len,
                                       ep_code_slots = index\<rparr>
                    in if index < code_count
                       then (case code_at codes index of
                               None \<Rightarrow> None
                             | Some (_, operation, _) \<Rightarrow>
                                 Some (if operation = SL_UWOP_EPILOG then None else Some parsed))
                       else Some (Some parsed)))"

section \<open>Validation of the codes\<close>

text \<open>The tests of one code, without the read of a 32-bit operand.\<close>

definition code_refused :: "u8 \<Rightarrow> u8 \<Rightarrow> u8 \<Rightarrow> nat \<Rightarrow> u8 \<Rightarrow> u8 \<Rightarrow> u8 \<Rightarrow> bool" where
  "code_refused version prologue_size previous_offset left code_offset operation info \<longleftrightarrow>
     operation = SL_UWOP_EPILOG \<or> code_offset > prologue_size \<or> code_offset > previous_offset \<or>
     unwind_operation_slots version operation info = 0 \<or>
     unwind_operation_slots version operation info > left \<or> \<not> unwind_operation_is_valid operation info"

text \<open>The alignment of a 32-bit operand: \<open>None\<close> is a read outside, \<open>Some True\<close> a refusal.\<close>

definition operand_refused :: "bytes \<Rightarrow> nat \<Rightarrow> u8 \<Rightarrow> bool option" where
  "operand_refused codes index operation =
     (if operation = SL_UWOP_SAVE_NONVOL_FAR
      then map_option (\<lambda>v. v AND 7 \<noteq> 0) (load_u32 codes ((index + 1) * 2))
      else if operation = SL_UWOP_SAVE_XMM128_FAR
      then map_option (\<lambda>v. v AND 15 \<noteq> 0) (load_u32 codes ((index + 1) * 2))
      else Some False)"

text \<open>The loop; the result says whether the frame register is set up by one of the codes.\<close>

function validate_codes ::
    "bytes \<Rightarrow> nat \<Rightarrow> u8 \<Rightarrow> u8 \<Rightarrow> u8 \<Rightarrow> u8 \<Rightarrow> nat \<Rightarrow> u8 \<Rightarrow> bool \<Rightarrow> bool option option" where
  "validate_codes codes code_count version prologue_size frame_register frame_offset index
       previous_offset found_frame_setup =
     (if index < code_count
      then (case code_at codes index of
              None \<Rightarrow> None
            | Some (code_offset, operation, info) \<Rightarrow>
                if code_refused version prologue_size previous_offset (code_count - index)
                     code_offset operation info
                then Some None
                else if operation = SL_UWOP_SET_FPREG \<and>
                        (frame_register = 0 \<or> found_frame_setup \<or> info \<noteq> 0 \<and> info \<noteq> frame_offset)
                then Some None
                else (case operand_refused codes index operation of
                        None \<Rightarrow> None
                      | Some refused \<Rightarrow>
                          if refused then Some None
                          else validate_codes codes code_count version prologue_size frame_register
                                 frame_offset (index + unwind_operation_slots version operation info)
                                 code_offset (found_frame_setup \<or> operation = SL_UWOP_SET_FPREG)))
      else Some (Some found_frame_setup))"
  by pat_completeness auto
termination
  by (relation "measure (\<lambda>(codes, n, v, p, r, f, i, o', s). n - i)") (auto simp: code_refused_def)

declare validate_codes.simps [simp del]

definition validate_unwind_codes ::
    "bytes \<Rightarrow> nat \<Rightarrow> u8 \<Rightarrow> u8 \<Rightarrow> u8 \<Rightarrow> u8 \<Rightarrow> (sl_v2_epilogue_info \<times> bool) option option" where
  "validate_unwind_codes codes code_count version prologue_size frame_register frame_offset =
     (case parse_v2_epilogue_prefix codes code_count version of
        None \<Rightarrow> None
      | Some None \<Rightarrow> Some None
      | Some (Some epilogues) \<Rightarrow>
          map_option (map_option (Pair epilogues))
            (validate_codes codes code_count version prologue_size frame_register frame_offset
               (ep_code_slots epilogues) 0xff False))"

section \<open>A record\<close>

record sl_unwind_record_view =
  uv_version :: u8
  uv_flags :: u8
  uv_prologue_size :: u8
  uv_code_count :: nat
  uv_frame_register :: u8
  uv_frame_offset :: u8
  uv_codes :: bytes
  uv_record_size :: nat
  uv_trailer_rva :: u32
  uv_has_frame_setup :: bool
  uv_epilogues :: sl_v2_epilogue_info

definition unwind_flags_refused :: "u8 \<Rightarrow> bool" where
  "unwind_flags_refused flags \<longleftrightarrow>
     (let f = ucast flags :: u32
      in f AND NOT (SL_WIN64_UNW_FLAG_EHANDLER OR SL_WIN64_UNW_FLAG_UHANDLER OR SL_WIN64_UNW_FLAG_CHAININFO) \<noteq> 0 \<or>
         f AND SL_WIN64_UNW_FLAG_CHAININFO \<noteq> 0 \<and>
         f AND (SL_WIN64_UNW_FLAG_EHANDLER OR SL_WIN64_UNW_FLAG_UHANDLER) \<noteq> 0)"

definition unwind_record_size :: "nat \<Rightarrow> nat" where
  "unwind_record_size code_count = 4 + (code_count + code_count mod 2) * 2"

text \<open>The fields of the record at an address and the validation of its codes.\<close>

definition record_fields ::
    "module_objects \<Rightarrow> sl_loaded_module \<Rightarrow> u32 \<Rightarrow> sl_unwind_record_view option option" where
  "record_fields objects m unwind_rva =
     (case module_window objects (Some m) unwind_rva 4 of
        None \<Rightarrow> Some None
      | Some header \<Rightarrow> do {
          byte0 \<leftarrow> peek (module_bytes objects m) header;
          prologue_size \<leftarrow> peek (module_bytes objects m) (header + 1);
          count \<leftarrow> peek (module_bytes objects m) (header + 2);
          frame \<leftarrow> peek (module_bytes objects m) (header + 3);
          let version = byte0 AND 7; flags = drop_bit 3 byte0; code_count = unat count;
              frame_register = frame AND 0x0f; frame_offset = drop_bit 4 frame;
              record_size = unwind_record_size code_count
          in if version \<noteq> 1 \<and> version \<noteq> 2 \<or> unwind_flags_refused flags \<or>
                frame_register \<noteq> 0 \<and> \<not> is_nonvolatile_integer_register frame_register \<or>
                frame_register = 0 \<and> frame_offset \<noteq> 0
             then Some None
             else (case module_window objects (Some m) unwind_rva record_size of
                     None \<Rightarrow> Some None
                   | Some record_offset \<Rightarrow>
                       let codes = take (record_size - 4) (drop (record_offset + 4) (module_bytes objects m))
                       in map_option (map_option (\<lambda>(epilogues, has_frame_setup).
                              \<lparr>uv_version = version, uv_flags = flags,
                               uv_prologue_size = prologue_size, uv_code_count = code_count,
                               uv_frame_register = frame_register, uv_frame_offset = frame_offset,
                               uv_codes = codes, uv_record_size = record_size,
                               uv_trailer_rva = of_nat (unat unwind_rva + record_size),
                               uv_has_frame_setup = has_frame_setup, uv_epilogues = epilogues\<rparr>))
                            (validate_unwind_codes codes code_count version prologue_size frame_register
                               frame_offset))
        })"

definition read_unwind_record ::
    "module_objects \<Rightarrow> sl_loaded_module \<Rightarrow> u32 \<Rightarrow> sl_unwind_record_view option option" where
  "read_unwind_record objects m unwind_rva =
     (if unwind_rva AND 3 \<noteq> 0 then Some None
      else map_option (\<lambda>r. case r of None \<Rightarrow> None
             | Some rec \<Rightarrow> if unat unwind_rva + uv_record_size rec > UINT32_MAX then None else Some rec)
             (record_fields objects m unwind_rva))"

section \<open>Epilogue ranges\<close>

text \<open>The loop over the descriptors behind the first.\<close>

function descriptors_in_range ::
    "bytes \<Rightarrow> nat \<Rightarrow> u32 \<Rightarrow> u32 \<Rightarrow> u32 \<Rightarrow> nat \<Rightarrow> bool option" where
  "descriptors_in_range codes code_slots epilogue_size function_size prologue_size index =
     (if index < code_slots
      then (case descriptor_distance codes index of
              None \<Rightarrow> None
            | Some distance \<Rightarrow>
                if distance \<noteq> 0 \<and> (distance < epilogue_size \<or> distance > function_size \<or>
                     function_size - distance < prologue_size)
                then Some False
                else descriptors_in_range codes code_slots epilogue_size function_size prologue_size (index + 1))
      else Some True)"
  by pat_completeness auto
termination
  by (relation "measure (\<lambda>(codes, n, e, f, p, i). n - i)") auto

declare descriptors_in_range.simps [simp del]

definition validate_v2_epilogue_ranges :: "sl_unwind_record_view \<Rightarrow> sl_win64_runtime_function \<Rightarrow> bool option" where
  "validate_v2_epilogue_ranges rec entry =
     (let function_size = rf_end_address entry - rf_begin_address entry;
          prologue_size = ucast (uv_prologue_size rec); epilogue_size = ucast (ep_size (uv_epilogues rec))
      in if prologue_size > function_size then Some False
         else if \<not> ep_present (uv_epilogues rec) then Some True
         else if epilogue_size > function_size \<or>
                 ep_implicit_at_end (uv_epilogues rec) \<and> function_size - epilogue_size < prologue_size
         then Some False
         else descriptors_in_range (uv_codes rec) (ep_code_slots (uv_epilogues rec)) epilogue_size function_size
                prologue_size 1)"

function find_descriptor :: "bytes \<Rightarrow> nat \<Rightarrow> u32 \<Rightarrow> u32 \<Rightarrow> u32 \<Rightarrow> nat \<Rightarrow> u32 option option" where
  "find_descriptor codes code_slots len end_address relative_pc index =
     (if index < code_slots
      then (case descriptor_distance codes index of
              None \<Rightarrow> None
            | Some distance \<Rightarrow>
                if distance = 0 then Some None
                else let start = end_address - distance
                in if relative_pc \<ge> start \<and> relative_pc - start < len then Some (Some (relative_pc - start))
                   else find_descriptor codes code_slots len end_address relative_pc (index + 1))
      else Some None)"
  by pat_completeness auto
termination
  by (relation "measure (\<lambda>(codes, n, l, e, pc, i). n - i)") auto

declare find_descriptor.simps [simp del]

definition find_v2_epilogue ::
    "sl_unwind_record_view \<Rightarrow> sl_win64_runtime_function \<Rightarrow> u32 \<Rightarrow> u32 option option" where
  "find_v2_epilogue rec entry relative_pc =
     (if \<not> ep_present (uv_epilogues rec) then Some None
      else let len = ucast (ep_size (uv_epilogues rec)); start = rf_end_address entry - len
      in if ep_implicit_at_end (uv_epilogues rec) \<and> relative_pc \<ge> start \<and> relative_pc - start < len
         then Some (Some (relative_pc - start))
         else find_descriptor (uv_codes rec) (ep_code_slots (uv_epilogues rec)) len (rf_end_address entry)
                relative_pc 1)"

section \<open>The chain of records\<close>

text \<open>The record of the entry a chained record continues with.\<close>

definition chained_entry ::
    "module_objects \<Rightarrow> sl_loaded_module \<Rightarrow> u32 \<Rightarrow> sl_win64_runtime_function option option" where
  "chained_entry objects m trailer_rva =
     (case module_window objects (Some m) trailer_rva SL_WIN64_RUNTIME_FUNCTION_SIZE of
        None \<Rightarrow> Some None
      | Some chain_bytes \<Rightarrow> do {
          chained \<leftarrow> read_runtime_function (module_bytes objects m) chain_bytes;
          Some (if runtime_function_is_valid (module_image objects m) chained then Some chained else None)
        })"

definition is_chained :: "u8 \<Rightarrow> bool" where
  "is_chained flags \<longleftrightarrow> ucast flags AND SL_WIN64_UNW_FLAG_CHAININFO \<noteq> 0"

text \<open>The test of the last record of the chain.\<close>

definition last_record_status ::
    "module_objects \<Rightarrow> sl_loaded_module \<Rightarrow> sl_unwind_record_view \<Rightarrow> sl_status option" where
  "last_record_status objects m rec =
     (if uv_frame_register rec \<noteq> 0 \<and> \<not> uv_has_frame_setup rec then Some SL_ERROR_INVALID_IMAGE
      else if ucast (uv_flags rec) AND (SL_WIN64_UNW_FLAG_EHANDLER OR SL_WIN64_UNW_FLAG_UHANDLER) \<noteq> 0
      then (case module_window objects (Some m) (uv_trailer_rva rec) 4 of
              None \<Rightarrow> Some SL_ERROR_INVALID_IMAGE
            | Some handler_bytes \<Rightarrow> do {
                handler_rva \<leftarrow> load_u32 (module_bytes objects m) handler_bytes;
                Some (if handler_rva = 0 \<or> unat handler_rva \<ge> mp_size (module_mapping objects m)
                      then SL_ERROR_INVALID_IMAGE else SL_OK)
              })
      else Some SL_OK)"

text \<open>The loop; \<open>first\<close> is the first record, once it was read.\<close>

function validate_chain ::
    "module_objects \<Rightarrow> sl_loaded_module \<Rightarrow> sl_win64_runtime_function \<Rightarrow> sl_unwind_record_view option \<Rightarrow>
     nat \<Rightarrow> sl_unwind_record_view result option" where
  "validate_chain objects m current_entry first depth =
     (if depth < SL_WIN64_MAX_CHAIN_DEPTH
      then (case read_unwind_record objects m (rf_unwind_data current_entry) of
              None \<Rightarrow> None
            | Some None \<Rightarrow> Some (Inl SL_ERROR_INVALID_IMAGE)
            | Some (Some rec) \<Rightarrow>
              (case validate_v2_epilogue_ranges rec current_entry of
                 None \<Rightarrow> None
               | Some False \<Rightarrow> Some (Inl SL_ERROR_INVALID_IMAGE)
               | Some True \<Rightarrow>
                   let first_record = (case first of None \<Rightarrow> rec | Some first_record \<Rightarrow> first_record)
                   in if uv_frame_register rec \<noteq> uv_frame_register first_record \<or>
                         uv_frame_offset rec \<noteq> uv_frame_offset first_record
                      then Some (Inl SL_ERROR_INVALID_IMAGE)
                      else if is_chained (uv_flags rec)
                      then (case chained_entry objects m (uv_trailer_rva rec) of
                              None \<Rightarrow> None
                            | Some None \<Rightarrow> Some (Inl SL_ERROR_INVALID_IMAGE)
                            | Some (Some chained) \<Rightarrow>
                                validate_chain objects m chained (Some first_record) (depth + 1))
                      else (case last_record_status objects m rec of
                              None \<Rightarrow> None
                            | Some status \<Rightarrow> Some (if status = SL_OK then Inr first_record else Inl status))))
      else Some (Inl SL_ERROR_FORWARDER_LIMIT))"
  by pat_completeness auto
termination
  by (relation "measure (\<lambda>(objects, m, e, f, depth). SL_WIN64_MAX_CHAIN_DEPTH - depth)") auto

declare validate_chain.simps [simp del]

definition validate_unwind_chain ::
    "module_objects \<Rightarrow> sl_loaded_module \<Rightarrow> sl_win64_runtime_function \<Rightarrow> sl_unwind_record_view result option" where
  "validate_unwind_chain objects m first_entry = validate_chain objects m first_entry None 0"

end
