(* ===== verification/Unwind_Apply.thy ===== *)
theory Unwind_Apply
  imports Unwind_Records "HOL-Library.Monad_Syntax"
begin

text \<open>
  \<open>src/win64_unwind.c\<close>, third part: the reads of the guest's stack and the application of the codes of
  one record to a context. The memory of the process is a function from addresses to bytes; it is read
  only inside the bounds of the stack. The loops of this part advance by the slots of a code without
  looking whether there are any, so they are partial: \<open>None\<close> is a loop that does not end or a read
  outside the array of codes, an inner \<open>None\<close> the code's \<open>false\<close>.
\<close>

type_synonym memory = "u64 \<Rightarrow> u8"

section \<open>The stack\<close>

definition UINTPTR_MAX :: u64 where "UINTPTR_MAX = 0xffffffffffffffff"

definition stack_range_fits :: "sl_win64_stack_bounds option \<Rightarrow> u64 \<Rightarrow> u64 \<Rightarrow> bool" where
  "stack_range_fits stack address len \<longleftrightarrow> (case stack of None \<Rightarrow> False | Some s \<Rightarrow>
     sb_limit s < sb_base s \<and> address \<ge> sb_limit s \<and> address \<le> sb_base s \<and>
     len \<le> sb_base s - address \<and> address \<le> UINTPTR_MAX)"

definition stack_frame_is_valid :: "sl_win64_stack_bounds option \<Rightarrow> u64 \<Rightarrow> bool" where
  "stack_frame_is_valid stack address \<longleftrightarrow> (case stack of None \<Rightarrow> False | Some s \<Rightarrow>
     sb_limit s < sb_base s \<and> address \<ge> sb_limit s \<and> address < sb_base s \<and>
     address AND 7 = 0 \<and> address \<le> UINTPTR_MAX)"

definition memory_bytes :: "memory \<Rightarrow> u64 \<Rightarrow> nat \<Rightarrow> bytes" where
  "memory_bytes memory address len = map (\<lambda>i. memory (address + of_nat i)) [0..<len]"

definition read_stack_u64 :: "memory \<Rightarrow> sl_win64_stack_bounds option \<Rightarrow> u64 \<Rightarrow> u64 option" where
  "read_stack_u64 memory stack address =
     (if \<not> stack_range_fits stack address 8 then None else load_u64 (memory_bytes memory address 8) 0)"

definition read_stack_m128 :: "memory \<Rightarrow> sl_win64_stack_bounds option \<Rightarrow> u64 \<Rightarrow> sl_win64_m128a option" where
  "read_stack_m128 memory stack address =
     (if \<not> stack_range_fits stack address 16 then None
      else do {
        low \<leftarrow> load_u64 (memory_bytes memory address 16) 0;
        high \<leftarrow> load_u64 (memory_bytes memory address 16) 8;
        Some \<lparr>m128_low = low, m128_high = high\<rparr>
      })"

definition add_stack_offset :: "u64 \<Rightarrow> u64 \<Rightarrow> u64 option" where
  "add_stack_offset base offset = (case add_u64 base offset of None \<Rightarrow> None
     | Some address \<Rightarrow> if address \<le> UINTPTR_MAX then Some address else None)"

section \<open>What unwinding changes\<close>

text \<open>The context, the context pointers if the caller wants them, and whether a machine frame was
  popped.\<close>

record unwind_state =
  us_context :: sl_win64_context
  us_pointers :: "sl_win64_nonvolatile_context_pointers option"
  us_machine_frame :: bool

definition set_rsp :: "u64 \<Rightarrow> unwind_state \<Rightarrow> unwind_state" where
  "set_rsp v s = s\<lparr>us_context := (us_context s)\<lparr>cx_rsp := v\<rparr>\<rparr>"

abbreviation us_rsp :: "unwind_state \<Rightarrow> u64" where
  "us_rsp s \<equiv> cx_rsp (us_context s)"

text \<open>\<open>add_u64(context->rsp, n, &context->rsp)\<close>\<close>

definition advance_rsp :: "u64 \<Rightarrow> unwind_state \<Rightarrow> unwind_state option" where
  "advance_rsp n s = map_option (\<lambda>v. set_rsp v s) (add_u64 (us_rsp s) n)"

definition restore_integer ::
    "memory \<Rightarrow> sl_win64_stack_bounds option \<Rightarrow> u8 \<Rightarrow> u64 \<Rightarrow> unwind_state \<Rightarrow> unwind_state option" where
  "restore_integer memory stack register_number address s = do {
     v \<leftarrow> read_stack_u64 memory stack address;
     restored \<leftarrow> set_integer_register (us_context s) register_number v;
     Some (s\<lparr>us_context := restored,
       us_pointers := map_option (\<lambda>p. p\<lparr>cp_integer_context :=
         (cp_integer_context p)[unat register_number := address]\<rparr>) (us_pointers s)\<rparr>)
   }"

definition set_xmm_register :: "sl_win64_context \<Rightarrow> u8 \<Rightarrow> sl_win64_m128a \<Rightarrow> sl_win64_context" where
  "set_xmm_register c number v =
     c\<lparr>cx_flt_save := (cx_flt_save c)\<lparr>xs_xmm_registers := (xs_xmm_registers (cx_flt_save c))[unat number := v]\<rparr>\<rparr>"

definition restore_xmm ::
    "memory \<Rightarrow> sl_win64_stack_bounds option \<Rightarrow> u8 \<Rightarrow> u64 \<Rightarrow> unwind_state \<Rightarrow> unwind_state option" where
  "restore_xmm memory stack register_number address s = do {
     v \<leftarrow> read_stack_m128 memory stack address;
     Some (s\<lparr>us_context := set_xmm_register (us_context s) register_number v,
       us_pointers := map_option (\<lambda>p. p\<lparr>cp_floating_context :=
         (cp_floating_context p)[unat register_number := address]\<rparr>) (us_pointers s)\<rparr>)
   }"

text \<open>The five values of a machine frame; \<open>bias\<close> skips an error code.\<close>

definition pop_machine_frame ::
    "memory \<Rightarrow> sl_win64_stack_bounds option \<Rightarrow> u8 \<Rightarrow> unwind_state \<Rightarrow> unwind_state option" where
  "pop_machine_frame memory stack info s = do {
     let bias = (if info = 0 then 0 else 8);
     address \<leftarrow> add_stack_offset (us_rsp s) bias;
     rip \<leftarrow> read_stack_u64 memory stack address;
     address \<leftarrow> add_stack_offset (us_rsp s) (bias + 8);
     code_segment \<leftarrow> read_stack_u64 memory stack address;
     address \<leftarrow> add_stack_offset (us_rsp s) (bias + 16);
     flags \<leftarrow> read_stack_u64 memory stack address;
     address \<leftarrow> add_stack_offset (us_rsp s) (bias + 24);
     old_rsp \<leftarrow> read_stack_u64 memory stack address;
     address \<leftarrow> add_stack_offset (us_rsp s) (bias + 32);
     stack_segment \<leftarrow> read_stack_u64 memory stack address;
     Some (s\<lparr>us_context := (us_context s)\<lparr>cx_rip := rip, cx_rsp := old_rsp, cx_e_flags := ucast flags,
         cx_seg_cs := ucast code_segment, cx_seg_ss := ucast stack_segment\<rparr>,
       us_machine_frame := True\<rparr>)
   }"

section \<open>One code\<close>

text \<open>The operand of a code with more than one slot.\<close>

definition operand_u16 :: "bytes \<Rightarrow> nat \<Rightarrow> u64 option" where
  "operand_u16 codes index = map_option ucast (load_u16 codes ((index + 1) * 2))"

definition operand_u32 :: "bytes \<Rightarrow> nat \<Rightarrow> u64 option" where
  "operand_u32 codes index = map_option ucast (load_u32 codes ((index + 1) * 2))"

definition restore_saved ::
    "(u64 \<Rightarrow> unwind_state \<Rightarrow> unwind_state option) \<Rightarrow> u64 \<Rightarrow> u64 \<Rightarrow> unwind_state \<Rightarrow> unwind_state option" where
  "restore_saved restore frame_base offset s =
     (case add_stack_offset frame_base offset of None \<Rightarrow> None | Some address \<Rightarrow> restore address s)"

definition apply_code ::
    "memory \<Rightarrow> sl_win64_stack_bounds option \<Rightarrow> bytes \<Rightarrow> nat \<Rightarrow> u8 \<Rightarrow> u8 \<Rightarrow> u64 \<Rightarrow> unwind_state \<Rightarrow>
     unwind_state option option" where
  "apply_code memory stack codes index operation info frame_base s =
     (if operation = SL_UWOP_PUSH_NONVOL
      then Some (do {
        s \<leftarrow> restore_integer memory stack info (us_rsp s) s;
        advance_rsp 8 s
      })
      else if operation = SL_UWOP_ALLOC_LARGE
      then do {
        offset \<leftarrow> (if info = 0 then map_option (\<lambda>v. v * 8) (operand_u16 codes index)
                  else operand_u32 codes index);
        Some (if offset = 0 \<or> offset AND 7 \<noteq> 0 then None else advance_rsp offset s)
      }
      else if operation = SL_UWOP_ALLOC_SMALL
      then Some (advance_rsp (ucast info * 8 + 8) s)
      else if operation = SL_UWOP_SET_FPREG
      then Some (Some (set_rsp frame_base s))
      else if operation = SL_UWOP_SAVE_NONVOL
      then do {
        v \<leftarrow> operand_u16 codes index;
        Some (restore_saved (restore_integer memory stack info) frame_base (v * 8) s)
      }
      else if operation = SL_UWOP_SAVE_NONVOL_FAR
      then do {
        v \<leftarrow> operand_u32 codes index;
        Some (restore_saved (restore_integer memory stack info) frame_base v s)
      }
      else if operation = SL_UWOP_SAVE_XMM128
      then do {
        v \<leftarrow> operand_u16 codes index;
        Some (restore_saved (restore_xmm memory stack info) frame_base (v * 16) s)
      }
      else if operation = SL_UWOP_SAVE_XMM128_FAR
      then do {
        v \<leftarrow> operand_u32 codes index;
        Some (restore_saved (restore_xmm memory stack info) frame_base v s)
      }
      else if operation = SL_UWOP_PUSH_MACHFRAME then Some (pop_machine_frame memory stack info s)
      else if operation = SL_UWOP_EPILOG then Some (Some s)
      else Some None)"

section \<open>The codes of a record\<close>

partial_function (option) frame_register_is_established ::
    "bytes \<Rightarrow> nat \<Rightarrow> u8 \<Rightarrow> bool \<Rightarrow> u8 \<Rightarrow> nat \<Rightarrow> bool option" where
  "frame_register_is_established codes code_count version in_prologue prologue_offset index =
     (if index < code_count
      then (case code_at codes index of
              None \<Rightarrow> None
            | Some (code_offset, operation, info) \<Rightarrow>
                if operation = SL_UWOP_SET_FPREG then Some (\<not> in_prologue \<or> code_offset \<le> prologue_offset)
                else frame_register_is_established codes code_count version in_prologue prologue_offset
                       (index + unwind_operation_slots version operation info))
      else Some False)"

partial_function (option) apply_unwind_codes ::
    "memory \<Rightarrow> sl_win64_stack_bounds option \<Rightarrow> bytes \<Rightarrow> nat \<Rightarrow> u8 \<Rightarrow> bool \<Rightarrow> u8 \<Rightarrow> u64 \<Rightarrow> nat \<Rightarrow> unwind_state \<Rightarrow>
     unwind_state option option" where
  "apply_unwind_codes memory stack codes code_count version in_prologue prologue_offset frame_base index s =
     (if index < code_count
      then (case code_at codes index of
              None \<Rightarrow> None
            | Some (code_offset, operation, info) \<Rightarrow>
                if in_prologue \<and> code_offset > prologue_offset
                then apply_unwind_codes memory stack codes code_count version in_prologue prologue_offset
                       frame_base (index + unwind_operation_slots version operation info) s
                else (case apply_code memory stack codes index operation info frame_base s of
                        None \<Rightarrow> None
                      | Some None \<Rightarrow> Some None
                      | Some (Some s') \<Rightarrow>
                          apply_unwind_codes memory stack codes code_count version in_prologue prologue_offset
                            frame_base (index + unwind_operation_slots version operation info) s'))
      else Some (Some s))"

section \<open>Walks over validated codes\<close>

text \<open>An array of codes that a loop can walk from an index to the end: every code has slots, they are
  inside the array, and the loop knows the operation.\<close>

inductive code_walk :: "bytes \<Rightarrow> u8 \<Rightarrow> nat \<Rightarrow> nat \<Rightarrow> bool" for codes version n where
  at_end: "code_walk codes version n n"
| step: "i < n \<Longrightarrow> code_at codes i = Some (code_offset, operation, info) \<Longrightarrow>
    0 < unwind_operation_slots version operation info \<Longrightarrow>
    code_walk codes version n (i + unwind_operation_slots version operation info) \<Longrightarrow>
    code_walk codes version n i"

lemma code_at_Some: "2 * n \<le> length codes \<Longrightarrow> i < n \<Longrightarrow> \<exists>c. code_at codes i = Some c"
  by (simp add: code_at_def peek_def)

lemma code_walk_le: "code_walk codes version n i \<Longrightarrow> i \<le> n"
  by (induction rule: code_walk.induct) auto

lemma validate_codes_walk:
  assumes "2 * n \<le> length codes" "index \<le> n"
  shows "\<exists>r. validate_codes codes n version prologue_size fr fo index previous_offset found = Some r \<and>
    (r \<noteq> None \<longrightarrow> code_walk codes version n index)"
  using assms
proof (induction codes n version prologue_size fr fo index previous_offset found rule: validate_codes.induct)
  case (1 codes n version prologue_size fr fo index previous_offset found)
  note unfolded = validate_codes.simps [of codes n version prologue_size fr fo index previous_offset found]
  show ?case
  proof (cases "index < n")
    case False
    then show ?thesis
      unfolding unfolded using 1(3) by (auto simp: code_walk.at_end)
  next
    case True
    obtain code_offset operation info where c: "code_at codes index = Some (code_offset, operation, info)"
      using code_at_Some [OF 1(2) True] by auto
    let ?slots = "unwind_operation_slots version operation info"
    show ?thesis
    proof (cases "code_refused version prologue_size previous_offset (n - index) code_offset operation info")
      case True
      then show ?thesis
        using \<open>index < n\<close> c by (simp add: unfolded)
    next
      case ok: False
      then have slots: "0 < ?slots" "index + ?slots \<le> n"
        using True by (auto simp: code_refused_def)
      have "\<exists>refused. operand_refused codes index operation = Some refused"
        using slots(2) 1(2) by (auto simp: operand_refused_def unwind_operation_slots_def uwop_defs load_u32_def)
      then obtain refused where refused: "operand_refused codes index operation = Some refused" ..
      show ?thesis
      proof (cases "(operation = SL_UWOP_SET_FPREG \<and> (fr = 0 \<or> found \<or> info \<noteq> 0 \<and> info \<noteq> fo)) \<or> refused")
        case True
        then show ?thesis
          using \<open>index < n\<close> c ok refused by (auto simp: unfolded)
      next
        case False
        then have stop: "\<not> (operation = SL_UWOP_SET_FPREG \<and> (fr = 0 \<or> found \<or> info \<noteq> 0 \<and> info \<noteq> fo))"
            "\<not> refused"
          by blast+
        have "validate_codes codes n version prologue_size fr fo index previous_offset found =
            validate_codes codes n version prologue_size fr fo (index + ?slots) code_offset
              (found \<or> operation = SL_UWOP_SET_FPREG)"
          unfolding unfolded using \<open>index < n\<close> c ok refused stop by (simp only: if_True if_False option.case prod.case)
        then show ?thesis
          using 1(1) [OF \<open>index < n\<close> c refl refl ok stop(1) refused stop(2) 1(2) slots(2)]
            code_walk.step [OF \<open>index < n\<close> c slots(1)] by auto
      qed
    qed
  qed
qed

lemma epilogue_descriptors_walk:
  assumes "2 * n \<le> length codes" "index \<le> n"
  shows "\<exists>j h. epilogue_descriptors codes n index has_epilogue = Some (j, h) \<and> index \<le> j \<and> j \<le> n \<and>
    (\<forall>k\<in>{index..<j}. \<exists>code_offset info. code_at codes k = Some (code_offset, SL_UWOP_EPILOG, info))"
  using assms
proof (induction codes n index has_epilogue rule: epilogue_descriptors.induct)
  case (1 codes n index has_epilogue)
  note unfolded = epilogue_descriptors.simps [of codes n index has_epilogue]
  show ?case
  proof (cases "index < n")
    case False
    then show ?thesis
      unfolding unfolded using 1(3) by auto
  next
    case True
    obtain code_offset operation info where c: "code_at codes index = Some (code_offset, operation, info)"
      using code_at_Some [OF 1(2) True] by auto
    moreover obtain distance where d: "descriptor_distance codes index = Some distance"
      using c by (auto simp: code_at_def descriptor_distance_def split: bind_splits)
    show ?thesis
    proof (cases "operation \<noteq> SL_UWOP_EPILOG \<or> distance = 0")
      case True
      then show ?thesis
        using \<open>index < n\<close> c d ivl_step [of index "index + 1"] by (auto simp: unfolded)
    next
      case False
      then have more: "epilogue_descriptors codes n index has_epilogue = epilogue_descriptors codes n (index + 1) True"
        using c d \<open>index < n\<close> by (simp add: unfolded)
      have "\<exists>j h. epilogue_descriptors codes n (index + 1) True = Some (j, h) \<and> index + 1 \<le> j \<and> j \<le> n \<and>
          (\<forall>k\<in>{index + 1..<j}. \<exists>code_offset info. code_at codes k = Some (code_offset, SL_UWOP_EPILOG, info))"
        using 1(1) [OF \<open>index < n\<close>] False c d 1(2) \<open>index < n\<close> by auto
      then show ?thesis
        unfolding more using c False ivl_step [of index] by fastforce
    qed
  qed
qed

text \<open>The descriptors in front of the codes are walked in pairs.\<close>

lemma code_walk_prefix:
  assumes "code_walk codes 2 n (2 * j)"
    and "\<forall>k\<in>{0..<2 * j}. \<exists>code_offset info. code_at codes k = Some (code_offset, SL_UWOP_EPILOG, info)"
  shows "code_walk codes 2 n 0"
  using assms
proof (induction j)
  case (Suc j)
  obtain code_offset info where c: "code_at codes (2 * j) = Some (code_offset, SL_UWOP_EPILOG, info)"
    using Suc.prems(2) by force
  have "unwind_operation_slots 2 SL_UWOP_EPILOG info = 2"
    by (simp add: unwind_operation_slots_def uwop_defs)
  moreover have "2 * j < n"
    using code_walk_le [OF Suc.prems(1)] by simp
  ultimately have "code_walk codes 2 n (2 * j)"
    using code_walk.step [OF _ c, of n 2] Suc.prems(1) by simp
  then show ?case
    using Suc by simp
qed simp

lemma parse_v2_epilogue_prefix_walk:
  assumes "2 * n \<le> length codes"
  shows "\<exists>r. parse_v2_epilogue_prefix codes n version = Some r \<and>
    (\<forall>epilogues. r = Some epilogues \<longrightarrow> ep_code_slots epilogues \<le> n \<and>
       (code_walk codes version n (ep_code_slots epilogues) \<longrightarrow> code_walk codes version n 0))"
proof (cases "version \<noteq> 2 \<or> n = 0")
  case True
  then show ?thesis
    by (simp add: parse_v2_epilogue_prefix_def no_epilogues_def)
next
  case False
  obtain len operation flags where c: "code_at codes 0 = Some (len, operation, flags)"
    using code_at_Some [OF assms, of 0] False by auto
  show ?thesis
  proof (cases "operation \<noteq> SL_UWOP_EPILOG \<or> len = 0 \<or> flags AND NOT 1 \<noteq> 0")
    case True
    then show ?thesis
      using False c by (auto simp: parse_v2_epilogue_prefix_def no_epilogues_def)
  next
    case ok: False
    obtain j h where j: "epilogue_descriptors codes n 1 (flags AND 1 \<noteq> 0) = Some (j, h)" "1 \<le> j" "j \<le> n"
        "\<forall>k\<in>{1..<j}. \<exists>code_offset info. code_at codes k = Some (code_offset, SL_UWOP_EPILOG, info)"
      using epilogue_descriptors_walk [OF assms, of 1 "flags AND 1 \<noteq> 0"] False by auto
    have all: "\<forall>k\<in>{0..<j}. \<exists>code_offset info. code_at codes k = Some (code_offset, SL_UWOP_EPILOG, info)"
      using j(2,4) c ok ivl_step [of 0 j] by auto
    have last: "j < n \<Longrightarrow> \<exists>x. code_at codes j = Some x"
      using code_at_Some [OF assms] .
    show ?thesis
    proof (cases "\<not> h \<or> j mod 2 \<noteq> 0")
      case True
      then show ?thesis
        using False c ok j by (auto simp: parse_v2_epilogue_prefix_def)
    next
      case even: False
      then have "2 * (j div 2) = j"
        by auto
      then have "code_walk codes version n j \<Longrightarrow> code_walk codes version n 0"
        using code_walk_prefix [of codes n "j div 2"] all False by simp
      then show ?thesis
        using False c ok j even last
        by (cases "j < n") (auto simp: parse_v2_epilogue_prefix_def split: if_splits)
    qed
  qed
qed

lemma validate_unwind_codes_walk:
  assumes "2 * n \<le> length codes"
  shows "\<exists>r. validate_unwind_codes codes n version prologue_size fr fo = Some r \<and>
    (r \<noteq> None \<longrightarrow> code_walk codes version n 0)"
proof -
  obtain r where r: "parse_v2_epilogue_prefix codes n version = Some r"
      "\<forall>epilogues. r = Some epilogues \<longrightarrow> ep_code_slots epilogues \<le> n \<and>
         (code_walk codes version n (ep_code_slots epilogues) \<longrightarrow> code_walk codes version n 0)"
    using parse_v2_epilogue_prefix_walk [OF assms] by blast
  show ?thesis
  proof (cases r)
    case (Some epilogues)
    then show ?thesis
      using r validate_codes_walk [OF assms, of "ep_code_slots epilogues" version prologue_size fr fo "0xff" False]
      by (auto simp: validate_unwind_codes_def)
  qed (use r in \<open>simp add: validate_unwind_codes_def\<close>)
qed

section \<open>The loops over validated codes end\<close>

lemma apply_code_total:
  assumes "2 * n \<le> length codes" "index + unwind_operation_slots version operation info \<le> n"
    "0 < unwind_operation_slots version operation info"
  shows "\<exists>r. apply_code memory stack codes index operation info frame_base s = Some r"
  using assms
  by (auto simp: apply_code_def unwind_operation_slots_def uwop_defs operand_u16_def operand_u32_def
      load_u16_def load_u32_def split: if_splits)

lemma apply_unwind_codes_total:
  assumes "code_walk codes version n index" "2 * n \<le> length codes"
  shows "\<exists>r. apply_unwind_codes memory stack codes n version in_prologue prologue_offset frame_base index s = Some r"
  using assms(1)
proof (induction index arbitrary: s rule: code_walk.induct)
  case at_end
  then show ?case
    by (subst apply_unwind_codes.simps) simp
next
  case (step i code_offset operation info)
  show ?case
    using step(1,2) step.IH apply_code_total [OF assms(2) code_walk_le [OF step(4)] step(3),
        of memory stack frame_base s]
    by (subst apply_unwind_codes.simps) (auto split: option.split)
qed

lemma frame_register_is_established_total:
  assumes "code_walk codes version n index"
  shows "frame_register_is_established codes n version in_prologue prologue_offset index \<noteq> None"
  using assms
proof (induction index rule: code_walk.induct)
  case at_end
  then show ?case
    by (subst frame_register_is_established.simps) simp
next
  case (step i code_offset operation info)
  then show ?case
    by (subst frame_register_is_established.simps) simp
qed

end
