(* ===== verification/Unwind_Epilogue.thy ===== *)
theory Unwind_Epilogue
  imports Unwind_Apply
begin

text \<open>
  \<open>src/win64_unwind.c\<close>, fourth part: unwinding from inside an epilogue, by the descriptors of a version 2
  record or by simulating the instructions up to the return.
\<close>

section \<open>The entry behind a pointer\<close>

definition runtime_entry_from_pointer ::
    "module_objects \<Rightarrow> sl_loaded_module \<Rightarrow> ptr \<Rightarrow> sl_win64_runtime_function option option" where
  "runtime_entry_from_pointer objects m function_entry =
     (case exception_directory objects (Some m) of
        None \<Rightarrow> Some None
      | Some (table, entry_count) \<Rightarrow>
          let table_address = mp_address (module_mapping objects m) + of_nat table;
              table_size = entry_count * SL_WIN64_RUNTIME_FUNCTION_SIZE;
              distance = unat (function_entry - table_address)
          in if function_entry < table_address \<or> distance > table_size - SL_WIN64_RUNTIME_FUNCTION_SIZE \<or>
                distance mod SL_WIN64_RUNTIME_FUNCTION_SIZE \<noteq> 0
             then Some None
             else do {
               entry \<leftarrow> read_runtime_function (module_bytes objects m) (table + distance);
               Some (if runtime_function_is_valid (module_image objects m) entry then Some entry else None)
             })"

section \<open>Steps of the unwinder\<close>

text \<open>Reading the return address into \<open>rip\<close> and removing it with what follows.\<close>

definition pop_return :: "memory \<Rightarrow> sl_win64_stack_bounds option \<Rightarrow> u64 \<Rightarrow> unwind_state \<Rightarrow> unwind_state option" where
  "pop_return memory stack adjustment s = do {
     return_address \<leftarrow> read_stack_u64 memory stack (us_rsp s);
     s \<leftarrow> advance_rsp adjustment s;
     Some (s\<lparr>us_context := (us_context s)\<lparr>cx_rip := return_address\<rparr>\<rparr>)
   }"

definition pop_register :: "memory \<Rightarrow> sl_win64_stack_bounds option \<Rightarrow> u8 \<Rightarrow> unwind_state \<Rightarrow> unwind_state option" where
  "pop_register memory stack register_number s = do {
     s \<leftarrow> restore_integer memory stack register_number (us_rsp s) s;
     advance_rsp 8 s
   }"

section \<open>Version 2 epilogues\<close>

text \<open>The first code from an index on that pushes something; \<open>None\<close> when a code has no slots or more
  than are left.\<close>

function find_push :: "sl_unwind_record_view \<Rightarrow> nat \<Rightarrow> (nat \<times> bool) option option" where
  "find_push rec index =
     (if index < uv_code_count rec
      then (case code_at (uv_codes rec) index of
              None \<Rightarrow> None
            | Some (_, operation, info) \<Rightarrow>
                if operation = SL_UWOP_PUSH_NONVOL \<or> operation = SL_UWOP_PUSH_MACHFRAME
                then Some (Some (index, True))
                else let slots = unwind_operation_slots (uv_version rec) operation info
                in if slots = 0 \<or> slots > uv_code_count rec - index then Some None
                   else find_push rec (index + slots))
      else Some (Some (index, False)))"
  by pat_completeness auto
termination
  by (relation "measure (\<lambda>(rec, i). uv_code_count rec - i)") auto

declare find_push.simps [simp del]

text \<open>A record of the chain with its ranges validated.\<close>

definition read_ranged_record ::
    "module_objects \<Rightarrow> sl_loaded_module \<Rightarrow> sl_win64_runtime_function \<Rightarrow> sl_unwind_record_view option option" where
  "read_ranged_record objects m entry =
     (case read_unwind_record objects m (rf_unwind_data entry) of
        None \<Rightarrow> None
      | Some None \<Rightarrow> Some None
      | Some (Some rec) \<Rightarrow>
          map_option (\<lambda>valid. if valid then Some rec else None) (validate_v2_epilogue_ranges rec entry))"

text \<open>The record that holds the pushes, the index of the first and the depth of the record.\<close>

function select_record ::
    "module_objects \<Rightarrow> sl_loaded_module \<Rightarrow> sl_win64_runtime_function \<Rightarrow> nat \<Rightarrow>
     (sl_unwind_record_view \<times> nat \<times> nat) option option" where
  "select_record objects m entry depth =
     (if depth < SL_WIN64_MAX_CHAIN_DEPTH
      then (case read_ranged_record objects m entry of
              None \<Rightarrow> None
            | Some None \<Rightarrow> Some None
            | Some (Some rec) \<Rightarrow>
              (case find_push rec (ep_code_slots (uv_epilogues rec)) of
                 None \<Rightarrow> None
               | Some None \<Rightarrow> Some None
               | Some (Some (index, found)) \<Rightarrow>
                   if found \<or> \<not> is_chained (uv_flags rec) then Some (Some (rec, index, depth))
                   else (case chained_entry objects m (uv_trailer_rva rec) of
                           None \<Rightarrow> None
                         | Some None \<Rightarrow> Some None
                         | Some (Some chained) \<Rightarrow> select_record objects m chained (depth + 1))))
      else Some None)"
  by pat_completeness auto
termination
  by (relation "measure (\<lambda>(objects, m, entry, depth). SL_WIN64_MAX_CHAIN_DEPTH - depth)") auto

declare select_record.simps [simp del]

text \<open>No record behind the selected one may push.\<close>

function parents_without_push ::
    "module_objects \<Rightarrow> sl_loaded_module \<Rightarrow> sl_unwind_record_view \<Rightarrow> nat \<Rightarrow> bool option" where
  "parents_without_push objects m parent depth =
     (if is_chained (uv_flags parent)
      then if depth + 1 \<ge> SL_WIN64_MAX_CHAIN_DEPTH then Some False
           else (case chained_entry objects m (uv_trailer_rva parent) of
                   None \<Rightarrow> None
                 | Some None \<Rightarrow> Some False
                 | Some (Some chained) \<Rightarrow>
                   (case read_ranged_record objects m chained of
                      None \<Rightarrow> None
                    | Some None \<Rightarrow> Some False
                    | Some (Some rec) \<Rightarrow>
                      (case find_push rec (ep_code_slots (uv_epilogues rec)) of
                         None \<Rightarrow> None
                       | Some None \<Rightarrow> Some False
                       | Some (Some (_, found)) \<Rightarrow>
                           if found then Some False else parents_without_push objects m rec (depth + 1))))
      else Some True)"
  by pat_completeness auto
termination
  by (relation "measure (\<lambda>(objects, m, parent, depth). SL_WIN64_MAX_CHAIN_DEPTH - depth)") auto

declare parents_without_push.simps [simp del]

text \<open>The pops of the epilogue from its byte \<open>epilogue_offset\<close> on: a pop has one byte, or two for \<open>r8\<close>
  to \<open>r15\<close>.\<close>

function pop_pushes ::
    "memory \<Rightarrow> sl_win64_stack_bounds option \<Rightarrow> sl_unwind_record_view \<Rightarrow> u32 \<Rightarrow> nat \<Rightarrow> u32 \<Rightarrow> unwind_state \<Rightarrow>
     (nat \<times> u32 \<times> unwind_state) option option" where
  "pop_pushes memory stack rec epilogue_offset index current_offset s =
     (if index < uv_code_count rec
      then (case code_at (uv_codes rec) index of
              None \<Rightarrow> None
            | Some (_, operation, info) \<Rightarrow>
                if operation \<noteq> SL_UWOP_PUSH_NONVOL then Some (Some (index, current_offset, s))
                else (case (if current_offset \<ge> epilogue_offset then pop_register memory stack info s
                            else Some s) of
                        None \<Rightarrow> Some None
                      | Some s' \<Rightarrow>
                          pop_pushes memory stack rec epilogue_offset (index + 1)
                            (current_offset + (if info \<ge> 8 then 2 else 1)) s'))
      else Some (Some (index, current_offset, s)))"
  by pat_completeness auto
termination
  by (relation "measure (\<lambda>(memory, stack, rec, e, i, c, s). uv_code_count rec - i)") auto

declare pop_pushes.simps [simp del]

text \<open>The return from an interrupt, without an error code.\<close>

definition pop_interrupt_return ::
    "memory \<Rightarrow> sl_win64_stack_bounds option \<Rightarrow> unwind_state \<Rightarrow> unwind_state option" where
  "pop_interrupt_return memory stack s = do {
     rip \<leftarrow> read_stack_u64 memory stack (us_rsp s);
     address \<leftarrow> add_stack_offset (us_rsp s) 24;
     old_rsp \<leftarrow> read_stack_u64 memory stack address;
     Some (s\<lparr>us_context := (us_context s)\<lparr>cx_rip := rip, cx_rsp := old_rsp\<rparr>\<rparr>)
   }"

text \<open>What is left behind the pops: the codes at \<open>index\<close> decide how the frame is left.\<close>

definition finish_epilogue ::
    "memory \<Rightarrow> sl_win64_stack_bounds option \<Rightarrow> sl_unwind_record_view \<Rightarrow> nat \<Rightarrow> unwind_state \<Rightarrow>
     unwind_state option option" where
  "finish_epilogue memory stack rec index s =
     (if index < uv_code_count rec
      then (case code_at (uv_codes rec) index of
              None \<Rightarrow> None
            | Some (_, operation, _) \<Rightarrow>
                Some (if operation \<noteq> SL_UWOP_PUSH_MACHFRAME \<or> index + 1 \<noteq> uv_code_count rec then None
                      else pop_interrupt_return memory stack s))
      else Some (pop_return memory stack 8 s))"

text \<open>A one-byte pop of a volatile register may mirror a \<open>pushfq\<close>.\<close>

definition pop_flags ::
    "sl_unwind_record_view \<Rightarrow> u32 \<Rightarrow> nat \<Rightarrow> u32 \<Rightarrow> unwind_state \<Rightarrow> (nat \<times> unwind_state) option option" where
  "pop_flags rec epilogue_offset index current_offset s =
     (if index < uv_code_count rec
      then (case code_at (uv_codes rec) index of
              None \<Rightarrow> None
            | Some (_, operation, info) \<Rightarrow>
                Some (if operation = SL_UWOP_ALLOC_SMALL \<and> info = 0
                      then map_option (Pair (index + 1))
                             (if current_offset \<ge> epilogue_offset then advance_rsp 8 s else Some s)
                      else Some (index, s)))
      else Some (Some (index, s)))"

definition unwind_v2_epilogue ::
    "memory \<Rightarrow> module_objects \<Rightarrow> sl_loaded_module \<Rightarrow> sl_win64_runtime_function \<Rightarrow> u32 \<Rightarrow>
     sl_win64_stack_bounds option \<Rightarrow> unwind_state \<Rightarrow> unwind_state option option" where
  "unwind_v2_epilogue memory objects m function_entry epilogue_offset stack s =
     (case select_record objects m function_entry 0 of
        None \<Rightarrow> None
      | Some None \<Rightarrow> Some None
      | Some (Some (rec, index, selected_depth)) \<Rightarrow>
        (case parents_without_push objects m rec selected_depth of
           None \<Rightarrow> None
         | Some False \<Rightarrow> Some None
         | Some True \<Rightarrow>
           (case pop_pushes memory stack rec epilogue_offset index 0 s of
              None \<Rightarrow> None
            | Some None \<Rightarrow> Some None
            | Some (Some (index, current_offset, s)) \<Rightarrow>
              (case pop_flags rec epilogue_offset index current_offset s of
                 None \<Rightarrow> None
               | Some None \<Rightarrow> Some None
               | Some (Some (index, s)) \<Rightarrow> finish_epilogue memory stack rec index s))))"

section \<open>Simulated epilogues\<close>

text \<open>What one instruction does: refuse the epilogue, go on behind it, or leave the frame.\<close>

datatype (plugins only: code size) epilogue_step =
    Refused
  | Continued unwind_state nat bool
  | Finished unwind_state

definition continued :: "nat \<Rightarrow> bool \<Rightarrow> unwind_state option \<Rightarrow> epilogue_step" where
  "continued len transfer_prefix_seen s = (case s of None \<Rightarrow> Refused | Some s \<Rightarrow> Continued s len transfer_prefix_seen)"

definition finished :: "unwind_state option \<Rightarrow> epilogue_step" where
  "finished s = (case s of None \<Rightarrow> Refused | Some s \<Rightarrow> Finished s)"

text \<open>A test of a byte the code may only read behind a test of \<open>remaining\<close>.\<close>

definition byte_is :: "bytes \<Rightarrow> nat \<Rightarrow> (u8 \<Rightarrow> bool) \<Rightarrow> bool" where
  "byte_is code i p = (case peek code i of None \<Rightarrow> False | Some b \<Rightarrow> p b)"

text \<open>\<open>lea rsp, [base + displacement]\<close>; \<open>remaining\<close> is at least 4.\<close>

definition lea_step ::
    "bytes \<Rightarrow> nat \<Rightarrow> u8 \<Rightarrow> bool \<Rightarrow> unwind_state \<Rightarrow> epilogue_step option" where
  "lea_step code remaining frame_register transfer_prefix_seen s = do {
     rex \<leftarrow> peek code 0;
     modrm \<leftarrow> peek code 2;
     let mode = drop_bit 6 modrm; destination = drop_bit 3 modrm AND 7; encoded_base = modrm AND 7;
         base_register = encoded_base OR push_bit 3 (rex AND 1);
         displacement_offset = (if encoded_base = 4 then 4 else 3 :: nat)
     in if destination \<noteq> 4 \<or> (mode \<noteq> 1 \<and> mode \<noteq> 2) then Some Refused
     else if encoded_base = 4 \<and> (remaining < 5 \<or> rex AND 2 \<noteq> 0 \<or> \<not> byte_is code 3 (\<lambda>sib. sib = 0x24))
     then Some Refused
     else if base_register \<noteq> frame_register then Some Refused
     else if mode = 2 \<and> remaining < displacement_offset + 4 then Some Refused
     else do {
       displacement \<leftarrow> (if mode = 1 then map_option sint (peek code displacement_offset)
                       else map_option sint (load_u32 code displacement_offset));
       base_value \<leftarrow> integer_register (us_context s) base_register;
       let len = displacement_offset + (if mode = 1 then 1 else 4)
       in Some (if displacement \<ge> 0
                then continued len transfer_prefix_seen
                       (map_option (\<lambda>v. set_rsp v s) (add_u64 base_value (of_int displacement)))
                else if base_value < of_int (- displacement) then Refused
                else Continued (set_rsp (base_value - of_int (- displacement)) s) len transfer_prefix_seen)
     }
   }"

text \<open>The test of the target of a relative jump: one back into the function is no tail jump.\<close>

definition jump_refused :: "u64 \<Rightarrow> u32 \<Rightarrow> sl_win64_runtime_function \<Rightarrow> nat \<Rightarrow> int \<Rightarrow> bool" where
  "jump_refused image_base cursor_rva entry jump_length displacement =
     (let next = image_base + ucast cursor_rva + of_nat jump_length;
          target = (if displacement \<ge> 0 then next + of_int displacement else next - of_int (- displacement));
          begin_address = image_base + ucast (rf_begin_address entry);
          end_address = image_base + ucast (rf_end_address entry)
      in displacement < 0 \<and> next < of_int (- displacement) \<or>
         displacement \<ge> 0 \<and> 0xffffffffffffffff - next < of_int displacement \<or>
         target > begin_address \<and> target < end_address)"

text \<open>The size of an indirect jump through a register or memory, from its third byte on.\<close>

definition indirect_jump_size :: "bytes \<Rightarrow> nat \<Rightarrow> nat option option" where
  "indirect_jump_size code remaining = do {
     modrm \<leftarrow> peek code 2;
     let mode = drop_bit 6 modrm; encoded_base = modrm AND 7
     in if mode \<noteq> 3 \<and> encoded_base = 4 \<and> remaining < 4 then Some None
     else do {
       sib_size \<leftarrow> (if mode \<noteq> 3 \<and> encoded_base = 4
                   then map_option (\<lambda>sib. if mode = 0 \<and> sib AND 7 = 5 then 5 else 1) (peek code 3)
                   else Some 0);
       Some (Some (3 + sib_size +
         (if mode = 0 \<and> encoded_base = 5 then 4 else if mode = 1 then 1 else if mode = 2 then 4 else 0)))
     }
   }"

definition jump_step ::
    "memory \<Rightarrow> sl_win64_stack_bounds option \<Rightarrow> bytes \<Rightarrow> nat \<Rightarrow> u64 \<Rightarrow> u32 \<Rightarrow> sl_win64_runtime_function \<Rightarrow>
     unwind_state \<Rightarrow> epilogue_step option" where
  "jump_step memory stack code remaining image_base cursor_rva entry s =
     (if remaining \<ge> 2 \<and> byte_is code 0 (\<lambda>b. b = 0xeb)
      then do {
        displacement \<leftarrow> map_option sint (peek code 1);
        Some (if jump_refused image_base cursor_rva entry 2 displacement then Refused
              else finished (pop_return memory stack 8 s))
      }
      else if remaining \<ge> 5 \<and> byte_is code 0 (\<lambda>b. b = 0xe9)
      then do {
        displacement \<leftarrow> map_option sint (load_u32 code 1);
        Some (if jump_refused image_base cursor_rva entry 5 displacement then Refused
              else finished (pop_return memory stack 8 s))
      }
      else if remaining \<ge> 6 \<and> byte_is code 0 (\<lambda>b. b = 0xff) \<and> byte_is code 1 (\<lambda>b. b = 0x25)
      then Some (finished (pop_return memory stack 8 s))
      else if remaining \<ge> 3 \<and> byte_is code 0 (\<lambda>b. b AND 0xf8 = 0x48) \<and> byte_is code 1 (\<lambda>b. b = 0xff) \<and>
              byte_is code 2 (\<lambda>b. b AND 0x38 = 0x20)
      then do {
        jump_size \<leftarrow> indirect_jump_size code remaining;
        Some (case jump_size of None \<Rightarrow> Refused
              | Some jump_size \<Rightarrow>
                  if jump_size > remaining then Refused else finished (pop_return memory stack 8 s))
      }
      else Some Refused)"

definition instruction_step ::
    "memory \<Rightarrow> sl_win64_stack_bounds option \<Rightarrow> bytes \<Rightarrow> nat \<Rightarrow> u8 \<Rightarrow> u64 \<Rightarrow> u32 \<Rightarrow> sl_win64_runtime_function \<Rightarrow>
     bool \<Rightarrow> bool \<Rightarrow> unwind_state \<Rightarrow> epilogue_step option" where
  "instruction_step memory stack code remaining frame_register image_base cursor_rva entry
       first_instruction transfer_prefix_seen s =
     (if first_instruction \<and> remaining \<ge> 4 \<and> byte_is code 0 (\<lambda>b. b = 0x48) \<and> byte_is code 1 (\<lambda>b. b = 0x83) \<and>
         byte_is code 2 (\<lambda>b. b = 0xc4)
      then do {
        immediate \<leftarrow> peek code 3;
        Some (if sint immediate \<le> 0 then Refused
              else continued 4 transfer_prefix_seen (advance_rsp (of_int (sint immediate)) s))
      }
      else if first_instruction \<and> remaining \<ge> 7 \<and> byte_is code 0 (\<lambda>b. b = 0x48) \<and> byte_is code 1 (\<lambda>b. b = 0x81) \<and>
              byte_is code 2 (\<lambda>b. b = 0xc4)
      then do {
        immediate \<leftarrow> load_u32 code 3;
        Some (if sint immediate \<le> 0 then Refused
              else continued 7 transfer_prefix_seen (advance_rsp (of_int (sint immediate)) s))
      }
      else if first_instruction \<and> frame_register \<noteq> 0 \<and> remaining \<ge> 4 \<and>
              byte_is code 0 (\<lambda>b. b AND 0xf8 = 0x48 \<and> b AND 4 = 0) \<and> byte_is code 1 (\<lambda>b. b = 0x8d)
      then lea_step code remaining frame_register transfer_prefix_seen s
      else if \<not> transfer_prefix_seen \<and> byte_is code 0 (\<lambda>b. b \<ge> 0x58 \<and> b \<le> 0x5f)
      then do {
        b \<leftarrow> peek code 0;
        let register_number = b - 0x58
        in Some (if \<not> is_nonvolatile_integer_register register_number then Refused
                 else continued 1 transfer_prefix_seen (pop_register memory stack register_number s))
      }
      else if \<not> transfer_prefix_seen \<and> remaining \<ge> 2 \<and> byte_is code 0 (\<lambda>b. b AND 0xf0 = 0x40) \<and>
              byte_is code 1 (\<lambda>b. b \<ge> 0x58 \<and> b \<le> 0x5f)
      then do {
        rex \<leftarrow> peek code 0;
        b \<leftarrow> peek code 1;
        let register_number = (b - 0x58) OR push_bit 3 (rex AND 1)
        in Some (if \<not> is_nonvolatile_integer_register register_number then Refused
                 else continued 2 transfer_prefix_seen (pop_register memory stack register_number s))
      }
      else if \<not> transfer_prefix_seen \<and> byte_is code 0 (\<lambda>b. b = 0xf2) then Some (Continued s 1 True)
      else if byte_is code 0 (\<lambda>b. b = 0xc3) \<or>
              remaining \<ge> 2 \<and> byte_is code 0 (\<lambda>b. b = 0xf3) \<and> byte_is code 1 (\<lambda>b. b = 0xc3)
      then Some (finished (pop_return memory stack 8 s))
      else if remaining \<ge> 3 \<and> byte_is code 0 (\<lambda>b. b = 0xc2)
      then do {
        v \<leftarrow> load_u16 code 1;
        Some (finished (pop_return memory stack (ucast v + 8) s))
      }
      else jump_step memory stack code remaining image_base cursor_rva entry s)"

text \<open>The loop over at most 32 instructions; an inner \<open>None\<close> leaves the caller's context as it was.\<close>

function simulate_instructions ::
    "memory \<Rightarrow> sl_win64_stack_bounds option \<Rightarrow> module_objects \<Rightarrow> sl_loaded_module \<Rightarrow> sl_win64_runtime_function \<Rightarrow>
     u8 \<Rightarrow> u32 \<Rightarrow> bool \<Rightarrow> bool \<Rightarrow> nat \<Rightarrow> unwind_state \<Rightarrow> unwind_state option option" where
  "simulate_instructions memory stack objects m entry frame_register cursor_rva first_instruction
       transfer_prefix_seen instruction_count s =
     (if instruction_count < 32
      then let remaining = unat (rf_end_address entry) - unat cursor_rva
           in if remaining = 0 then Some None
              else (case module_window objects (Some m) cursor_rva remaining of
                      None \<Rightarrow> Some None
                    | Some offset \<Rightarrow>
                      (case instruction_step memory stack (take remaining (drop offset (module_bytes objects m)))
                              remaining frame_register (mp_load_base (module_mapping objects m)) cursor_rva entry
                              first_instruction transfer_prefix_seen s of
                         None \<Rightarrow> None
                       | Some Refused \<Rightarrow> Some None
                       | Some (Finished s) \<Rightarrow> Some (Some s)
                       | Some (Continued s len transfer_prefix_seen) \<Rightarrow>
                           if len = 0 \<or> len > remaining then Some None
                           else simulate_instructions memory stack objects m entry frame_register
                                  (cursor_rva + of_nat len) False transfer_prefix_seen (instruction_count + 1) s))
      else Some None)"
  by pat_completeness auto
termination
  by (relation "measure (\<lambda>(memory, stack, objects, m, e, f, c, i, t, n, s). 32 - n)") auto

declare simulate_instructions.simps [simp del]

definition simulate_epilogue ::
    "memory \<Rightarrow> module_objects \<Rightarrow> sl_loaded_module \<Rightarrow> sl_win64_runtime_function \<Rightarrow> u8 \<Rightarrow> u64 \<Rightarrow>
     sl_win64_stack_bounds option \<Rightarrow> unwind_state \<Rightarrow> unwind_state option option" where
  "simulate_epilogue memory objects m entry frame_register control_pc stack s =
     (let image_base = mp_load_base (module_mapping objects m);
          cursor_rva = ucast (control_pc - image_base) :: u32
      in if control_pc < image_base \<or> control_pc - image_base > 0xffffffff then Some None
         else if cursor_rva < rf_begin_address entry \<or> cursor_rva \<ge> rf_end_address entry then Some None
         else simulate_instructions memory stack objects m entry frame_register cursor_rva True False 0 s)"

end
