(* ===== verification/Unwind_Frame.thy ===== *)
theory Unwind_Frame
  imports Unwind_Epilogue
begin

text \<open>
  \<open>src/win64_unwind.c\<close>, fifth part: \<open>sl_win64_virtual_unwind\<close> and \<open>sl_win64_unwind_leaf\<close>. The caller's
  context, context pointers and out parameters are written together, at the end of a success: the
  result holds what is written.
\<close>

record unwind_result =
  ur_context :: sl_win64_context
  ur_pointers :: "sl_win64_nonvolatile_context_pointers option"
  ur_handler_data :: ptr
  ur_establisher_frame :: u64
  ur_language_handler :: ptr

section \<open>The frame\<close>

text \<open>How far the control point is in the prologue.\<close>

definition in_prologue_of :: "u64 \<Rightarrow> sl_unwind_record_view \<Rightarrow> bool" where
  "in_prologue_of procedure_offset rec \<longleftrightarrow> procedure_offset < ucast (uv_prologue_size rec)"

definition prologue_offset_of :: "bool \<Rightarrow> u64 \<Rightarrow> u8" where
  "prologue_offset_of in_prologue procedure_offset = (if in_prologue then ucast procedure_offset else 0xff)"

text \<open>Whether the frame register holds the frame.\<close>

definition frame_established :: "sl_unwind_record_view \<Rightarrow> bool \<Rightarrow> u8 \<Rightarrow> bool option" where
  "frame_established rec in_prologue prologue_offset =
     (if uv_frame_register rec = 0 then Some False
      else if is_chained (uv_flags rec) \<and> \<not> uv_has_frame_setup rec then Some True
      else frame_register_is_established (uv_codes rec) (uv_code_count rec) (uv_version rec) in_prologue
             prologue_offset 0)"

definition frame_base_of :: "sl_unwind_record_view \<Rightarrow> bool \<Rightarrow> u8 \<Rightarrow> sl_win64_context \<Rightarrow> u64 result option" where
  "frame_base_of rec in_prologue prologue_offset context =
     (case frame_established rec in_prologue prologue_offset of
        None \<Rightarrow> None
      | Some False \<Rightarrow> Some (Inr (cx_rsp context))
      | Some True \<Rightarrow> do {
          frame_value \<leftarrow> integer_register context (uv_frame_register rec);
          let scaled_offset = ucast (uv_frame_offset rec) * 16
          in Some (if frame_value < scaled_offset then Inl SL_ERROR_INVALID_IMAGE
                   else Inr (frame_value - scaled_offset))
        })"

section \<open>The handler and the caller\<close>

text \<open>The language handler of the last record and its data, when the caller asks for this kind.\<close>

definition language_handler_of ::
    "module_objects \<Rightarrow> sl_loaded_module \<Rightarrow> sl_unwind_record_view \<Rightarrow> bool \<Rightarrow> u32 \<Rightarrow> (ptr \<times> ptr) result option" where
  "language_handler_of objects m rec allow_handler handler_type =
     (if allow_handler \<and> uv_flags rec AND ucast handler_type \<noteq> 0
      then (case module_window objects (Some m) (uv_trailer_rva rec) 4 of
              None \<Rightarrow> Some (Inl SL_ERROR_INVALID_IMAGE)
            | Some handler_bytes \<Rightarrow> do {
                handler_rva \<leftarrow> load_u32 (module_bytes objects m) handler_bytes;
                Some (if handler_rva = 0 \<or> unat handler_rva \<ge> mp_size (module_mapping objects m) \<or>
                         unat (uv_trailer_rva rec) + 4 > mp_size (module_mapping objects m)
                      then Inl SL_ERROR_INVALID_IMAGE
                      else Inr (mp_address (module_mapping objects m) + ucast handler_rva,
                             mp_address (module_mapping objects m) + ucast (uv_trailer_rva rec) + 4))
              })
      else Some (Inr (NULL, NULL)))"

definition finish_frame ::
    "memory \<Rightarrow> sl_win64_stack_bounds option \<Rightarrow> ptr \<times> ptr \<Rightarrow> u64 \<Rightarrow> unwind_state \<Rightarrow> unwind_result result" where
  "finish_frame memory stack handler final_establisher s =
     (case (if us_machine_frame s then Some s else pop_return memory stack 8 s) of
        None \<Rightarrow> Inl SL_ERROR_INVALID_IMAGE
      | Some s \<Rightarrow> Inr \<lparr>ur_context = us_context s, ur_pointers = us_pointers s, ur_handler_data = snd handler,
          ur_establisher_frame = final_establisher, ur_language_handler = fst handler\<rparr>)"

section \<open>The loop over the chain\<close>

function unwind_records ::
    "memory \<Rightarrow> module_objects \<Rightarrow> sl_loaded_module \<Rightarrow> u32 \<Rightarrow> u64 \<Rightarrow> sl_win64_stack_bounds option \<Rightarrow>
     sl_win64_runtime_function \<Rightarrow> bool \<Rightarrow> u64 \<Rightarrow> nat \<Rightarrow> unwind_state \<Rightarrow> unwind_result result option" where
  "unwind_records memory objects m handler_type control_pc stack entry allow_handler final_establisher depth s =
     (if depth < SL_WIN64_MAX_CHAIN_DEPTH
      then (case record_fields objects m (rf_unwind_data entry) of
              None \<Rightarrow> None
            | Some None \<Rightarrow> Some (Inl SL_ERROR_INVALID_IMAGE)
            | Some (Some rec) \<Rightarrow>
                let relative_pc = control_pc - mp_load_base (module_mapping objects m);
                    procedure_offset = (if relative_pc \<ge> ucast (rf_begin_address entry)
                      then relative_pc - ucast (rf_begin_address entry) else 0xffffffffffffffff);
                    in_prologue = (depth = 0 \<and> in_prologue_of procedure_offset rec);
                    prologue_offset = prologue_offset_of in_prologue procedure_offset
                in (case frame_base_of rec in_prologue prologue_offset (us_context s) of
                      None \<Rightarrow> None
                    | Some (Inl status) \<Rightarrow> Some (Inl status)
                    | Some (Inr frame_base) \<Rightarrow>
                        let final_establisher = (if depth = 0 then frame_base else final_establisher);
                            allow_handler = (if depth = 0 \<and> in_prologue then False else allow_handler)
                        in (case apply_unwind_codes memory stack (uv_codes rec) (uv_code_count rec)
                                   (uv_version rec) in_prologue prologue_offset frame_base 0 s of
                              None \<Rightarrow> None
                            | Some None \<Rightarrow> Some (Inl SL_ERROR_INVALID_IMAGE)
                            | Some (Some s) \<Rightarrow>
                                if unat (rf_unwind_data entry) + uv_record_size rec > UINT32_MAX
                                then Some (Inl SL_ERROR_INVALID_IMAGE)
                                else if is_chained (uv_flags rec)
                                then (case chained_entry objects m (uv_trailer_rva rec) of
                                        None \<Rightarrow> None
                                      | Some None \<Rightarrow> Some (Inl SL_ERROR_INVALID_IMAGE)
                                      | Some (Some chained) \<Rightarrow>
                                          unwind_records memory objects m handler_type control_pc stack chained
                                            allow_handler final_establisher (depth + 1) s)
                                else (case language_handler_of objects m rec allow_handler handler_type of
                                        None \<Rightarrow> None
                                      | Some (Inl status) \<Rightarrow> Some (Inl status)
                                      | Some (Inr handler) \<Rightarrow>
                                          Some (finish_frame memory stack handler final_establisher s)))))
      else Some (Inl SL_ERROR_FORWARDER_LIMIT))"
  by pat_completeness auto
termination
  by (relation "measure (\<lambda>(memory, objects, m, t, pc, stack, e, a, f, depth, s). SL_WIN64_MAX_CHAIN_DEPTH - depth)") auto

declare unwind_records.simps [simp del]

section \<open>One frame\<close>

text \<open>Unwinding from inside an epilogue, by the version of the first record.\<close>

definition unwind_epilogue ::
    "memory \<Rightarrow> module_objects \<Rightarrow> sl_loaded_module \<Rightarrow> sl_win64_runtime_function \<Rightarrow> sl_unwind_record_view \<Rightarrow>
     u64 \<Rightarrow> sl_win64_stack_bounds option \<Rightarrow> unwind_state \<Rightarrow> unwind_state option result option" where
  "unwind_epilogue memory objects m entry first_record control_pc stack s =
     (if uv_version first_record = 1
      then map_option Inr
             (simulate_epilogue memory objects m entry (uv_frame_register first_record) control_pc stack s)
      else (case find_v2_epilogue first_record entry
                   (ucast (control_pc - mp_load_base (module_mapping objects m))) of
              None \<Rightarrow> None
            | Some None \<Rightarrow> Some (Inr None)
            | Some (Some epilogue_offset) \<Rightarrow>
                map_option (\<lambda>r. case r of None \<Rightarrow> Inl SL_ERROR_INVALID_IMAGE | Some s \<Rightarrow> Inr (Some s))
                  (unwind_v2_epilogue memory objects m entry epilogue_offset stack s)))"

definition unwind_function ::
    "memory \<Rightarrow> module_objects \<Rightarrow> sl_loaded_module \<Rightarrow> u32 \<Rightarrow> u64 \<Rightarrow> sl_win64_runtime_function \<Rightarrow>
     sl_win64_context \<Rightarrow> sl_win64_stack_bounds option \<Rightarrow> sl_win64_nonvolatile_context_pointers option \<Rightarrow>
     unwind_result result option" where
  "unwind_function memory objects m handler_type control_pc entry context_record stack context_pointers =
     (case validate_unwind_chain objects m entry of
        None \<Rightarrow> None
      | Some (Inl status) \<Rightarrow> Some (Inl status)
      | Some (Inr first_record) \<Rightarrow>
          let candidate = \<lparr>us_context = context_record, us_pointers = context_pointers, us_machine_frame = False\<rparr>;
              procedure_offset = control_pc - mp_load_base (module_mapping objects m) - ucast (rf_begin_address entry);
              in_prologue = in_prologue_of procedure_offset first_record
          in (case frame_base_of first_record in_prologue (prologue_offset_of in_prologue procedure_offset)
                     context_record of
                None \<Rightarrow> None
              | Some (Inl status) \<Rightarrow> Some (Inl status)
              | Some (Inr initial_establisher) \<Rightarrow>
                (case unwind_epilogue memory objects m entry first_record control_pc stack candidate of
                   None \<Rightarrow> None
                 | Some (Inl status) \<Rightarrow> Some (Inl status)
                 | Some (Inr (Some s)) \<Rightarrow>
                     Some (Inr \<lparr>ur_context = us_context s, ur_pointers = us_pointers s, ur_handler_data = NULL,
                       ur_establisher_frame = initial_establisher, ur_language_handler = NULL\<rparr>)
                 | Some (Inr None) \<Rightarrow>
                     unwind_records memory objects m handler_type control_pc stack entry True
                       (cx_rsp context_record) 0 candidate)))"

text \<open>\<open>outs\<close> says whether the out parameters are given.\<close>

definition sl_win64_virtual_unwind ::
    "memory \<Rightarrow> module_objects \<Rightarrow> sl_loaded_module option \<Rightarrow> u32 \<Rightarrow> u64 \<Rightarrow> ptr \<Rightarrow> sl_win64_context option \<Rightarrow>
     sl_win64_stack_bounds option \<Rightarrow> bool \<Rightarrow> sl_win64_nonvolatile_context_pointers option \<Rightarrow>
     unwind_result result option" where
  "sl_win64_virtual_unwind memory objects module handler_type control_pc function_entry context_record stack
       outs context_pointers =
     (case (module, context_record, stack) of
        (Some m, Some context, Some bounds) \<Rightarrow>
          if function_entry = NULL \<or> \<not> outs \<or> sb_limit bounds \<ge> sb_base bounds \<or>
             handler_type \<noteq> SL_WIN64_UNW_FLAG_NHANDLER \<and> handler_type \<noteq> SL_WIN64_UNW_FLAG_EHANDLER \<and>
             handler_type \<noteq> SL_WIN64_UNW_FLAG_UHANDLER
          then Some (Inl SL_ERROR_INVALID_ARGUMENT)
          else (case runtime_entry_from_pointer objects m function_entry of
                  None \<Rightarrow> None
                | Some None \<Rightarrow> Some (Inl SL_ERROR_INVALID_ARGUMENT)
                | Some (Some entry) \<Rightarrow>
                    let load_base = mp_load_base (module_mapping objects m)
                    in if md_mapped m = None \<or> control_pc < load_base \<or>
                          control_pc - load_base < ucast (rf_begin_address entry) \<or>
                          control_pc - load_base \<ge> ucast (rf_end_address entry)
                       then Some (Inl SL_ERROR_INVALID_ARGUMENT)
                       else unwind_function memory objects m handler_type control_pc entry context stack
                              context_pointers)
      | _ \<Rightarrow> Some (Inl SL_ERROR_INVALID_ARGUMENT))"

definition sl_win64_unwind_leaf ::
    "memory \<Rightarrow> sl_win64_context option \<Rightarrow> sl_win64_stack_bounds option \<Rightarrow> sl_win64_context result" where
  "sl_win64_unwind_leaf memory context_record stack =
     (case (context_record, stack) of
        (Some context, Some bounds) \<Rightarrow>
          if sb_limit bounds \<ge> sb_base bounds then Inl SL_ERROR_INVALID_ARGUMENT
          else (case pop_return memory stack 8
                       \<lparr>us_context = context, us_pointers = None, us_machine_frame = False\<rparr> of
                  None \<Rightarrow> Inl SL_ERROR_INVALID_IMAGE
                | Some s \<Rightarrow> Inr (us_context s))
      | _ \<Rightarrow> Inl SL_ERROR_INVALID_ARGUMENT)"

end
