(* ===== verification/Unwind_Safety_Records.thy ===== *)
theory Unwind_Safety_Records
  imports Unwind_Frame
begin

text \<open>
  The unwinder is safe on every image: its loops end and it reads neither outside the mapping nor outside
  an array of codes, whatever the exception directory, the records and the instructions are.
\<close>

section \<open>Records\<close>

definition record_ok :: "sl_unwind_record_view \<Rightarrow> bool" where
  "record_ok rec \<longleftrightarrow> 2 * uv_code_count rec \<le> length (uv_codes rec) \<and>
     code_walk (uv_codes rec) (uv_version rec) (uv_code_count rec) 0 \<and>
     uv_frame_register rec < 16 \<and> ep_code_slots (uv_epilogues rec) \<le> uv_code_count rec"

lemma nibble_lt: "(w :: u8) AND 0x0f < 16"
proof -
  have "unat (w AND mask 4) < 16"
    unfolding unat_and_mask by simp
  then show ?thesis
    by (simp add: word_less_nat_alt mask_eq_exp_minus_1)
qed

lemma peek_Some: "i < length data \<Longrightarrow> peek data i = Some (data ! i)"
  by (simp add: peek_def)

lemma validate_unwind_codes_slots:
  assumes "2 * n \<le> length codes"
    "validate_unwind_codes codes n version prologue_size fr fo = Some (Some (epilogues, established))"
  shows "ep_code_slots epilogues \<le> n"
  using parse_v2_epilogue_prefix_walk [OF assms(1), of version] assms(2)
  by (auto simp: validate_unwind_codes_def split: option.splits)

lemma record_fields_total:
  assumes "backed objects m"
  shows "\<exists>r. record_fields objects m rva = Some r \<and> (\<forall>rec. r = Some rec \<longrightarrow> record_ok rec)"
proof (cases "module_window objects (Some m) rva 4")
  case None
  then show ?thesis
    by (simp add: record_fields_def)
next
  case (Some header)
  have inside: "header + 4 \<le> length (module_bytes objects m)"
    using module_window_backed [OF assms Some] .
  let ?data = "module_bytes objects m"
  let ?n = "unat (?data ! (header + 2))"
  have bytes: "peek ?data header = Some (?data ! header)" "peek ?data (Suc header) = Some (?data ! Suc header)"
      "peek ?data (Suc (Suc header)) = Some (?data ! Suc (Suc header))"
      "peek ?data (header + 3) = Some (?data ! (header + 3))"
    using inside by (simp_all add: peek_def)
  show ?thesis
  proof (cases "module_window objects (Some m) rva (unwind_record_size ?n)")
    case None
    then show ?thesis
      using Some inside by (simp add: record_fields_def bytes Let_def)
  next
    case window: (Some offset)
    let ?codes = "take (unwind_record_size ?n - 4) (drop (offset + 4) ?data)"
    have len: "2 * ?n \<le> length ?codes"
      using module_window_backed [OF assms window] by (simp add: unwind_record_size_def)
    obtain r where r: "validate_unwind_codes ?codes ?n (?data ! header AND 7) (?data ! (header + 1))
          (?data ! (header + 3) AND 0x0f) (drop_bit 4 (?data ! (header + 3))) = Some r"
        "r \<noteq> None \<longrightarrow> code_walk ?codes (?data ! header AND 7) ?n 0"
      using validate_unwind_codes_walk [OF len] by blast
    have "record_ok rec" if rec: "record_fields objects m rva = Some (Some rec)" for rec
    proof -
      have "r \<noteq> None"
        using rec Some window r(1) by (auto simp: record_fields_def bytes Let_def split: if_splits)
      then obtain epilogues established where e: "r = Some (epilogues, established)"
        by auto
      have "ep_code_slots epilogues \<le> ?n"
        using validate_unwind_codes_slots [OF len r(1) [unfolded e]] .
      moreover have "uv_code_count rec = ?n \<and> uv_codes rec = ?codes \<and> uv_version rec = ?data ! header AND 7 \<and>
          uv_frame_register rec = ?data ! (header + 3) AND 0x0f \<and> uv_epilogues rec = epilogues"
        using rec Some window r(1) e
        by (simp add: record_fields_def bytes Let_def split: if_splits) (drule sym, simp)
      ultimately show ?thesis
        using r(2) e len by (simp add: record_ok_def nibble_lt)
    qed
    moreover have "record_fields objects m rva \<noteq> None"
      using Some inside window r by (simp add: record_fields_def bytes Let_def)
    ultimately show ?thesis
      by auto
  qed
qed

lemma read_unwind_record_total:
  assumes "backed objects m"
  shows "\<exists>r. read_unwind_record objects m rva = Some r \<and> (\<forall>rec. r = Some rec \<longrightarrow> record_ok rec)"
proof -
  obtain r where "record_fields objects m rva = Some r" "\<forall>rec. r = Some rec \<longrightarrow> record_ok rec"
    using record_fields_total [OF assms] by blast
  then show ?thesis
    by (cases r) (auto simp: read_unwind_record_def)
qed

section \<open>Descriptors and is_chained\<close>

lemma descriptor_distance_Some: "2 * n \<le> length codes \<Longrightarrow> i < n \<Longrightarrow> \<exists>d. descriptor_distance codes i = Some d"
  by (simp add: descriptor_distance_def peek_def)

lemma ex_False [simp]: "Ex Not"
  by (rule exI [of _ False]) simp

lemma descriptors_in_range_total:
  "2 * n \<le> length codes \<Longrightarrow> descriptors_in_range codes n e f p index \<noteq> None"
proof (induction codes n e f p index rule: descriptors_in_range.induct)
  case (1 codes n e f p index)
  then show ?case
    using descriptor_distance_Some [of n codes index]
    by (subst descriptors_in_range.simps) (auto simp del: not_None_eq)
qed

lemma find_descriptor_total: "2 * n \<le> length codes \<Longrightarrow> find_descriptor codes n l e pc index \<noteq> None"
proof (induction codes n l e pc index rule: find_descriptor.induct)
  case (1 codes n l e pc index)
  then show ?case
    using descriptor_distance_Some [of n codes index]
    by (subst find_descriptor.simps) (auto simp: Let_def)
qed

lemma record_ok_slots: "record_ok rec \<Longrightarrow> 2 * ep_code_slots (uv_epilogues rec) \<le> length (uv_codes rec)"
  by (auto simp: record_ok_def)

lemma validate_v2_epilogue_ranges_total: "record_ok rec \<Longrightarrow> validate_v2_epilogue_ranges rec entry \<noteq> None"
  using descriptors_in_range_total [OF record_ok_slots]
  by (auto simp: validate_v2_epilogue_ranges_def Let_def simp del: not_None_eq)

lemma find_v2_epilogue_total: "record_ok rec \<Longrightarrow> find_v2_epilogue rec entry pc \<noteq> None"
  using find_descriptor_total [OF record_ok_slots] by (auto simp: find_v2_epilogue_def Let_def)

lemma chained_entry_total: "backed objects m \<Longrightarrow> chained_entry objects m rva \<noteq> None"
  using module_window_backed [of objects m rva 12] read_runtime_function_Some [of _ "module_bytes objects m"]
  by (fastforce simp: chained_entry_def SL_WIN64_RUNTIME_FUNCTION_SIZE_def split: option.splits)

lemma last_record_status_total: "backed objects m \<Longrightarrow> last_record_status objects m rec \<noteq> None"
  using module_window_backed [of objects m "uv_trailer_rva rec" 4] load_u32_Some [of _ "module_bytes objects m"]
  by (fastforce simp: last_record_status_def split: option.splits)

lemma validate_chain_total:
  assumes "backed objects m" "\<forall>rec. first = Some rec \<longrightarrow> record_ok rec"
  shows "\<exists>r. validate_chain objects m entry first depth = Some r \<and> (\<forall>rec. r = Inr rec \<longrightarrow> record_ok rec)"
  using assms
proof (induction objects m entry first depth rule: validate_chain.induct)
  case (1 objects m entry first depth)
  note unfolded = validate_chain.simps [of objects m entry first depth]
  show ?case
  proof (cases "depth < SL_WIN64_MAX_CHAIN_DEPTH")
    case False
    then show ?thesis
      by (simp add: unfolded)
  next
    case True
    obtain r where r: "read_unwind_record objects m (rf_unwind_data entry) = Some r"
        "\<forall>rec. r = Some rec \<longrightarrow> record_ok rec"
      using read_unwind_record_total [OF 1(2)] by blast
    show ?thesis
    proof (cases r)
      case None
      then show ?thesis
        using r True by (simp add: unfolded)
    next
      case (Some rec)
      then have ok: "record_ok rec"
        using r by simp
      obtain valid where valid: "validate_v2_epilogue_ranges rec entry = Some valid"
        using validate_v2_epilogue_ranges_total [OF ok] by blast
      let ?first = "case first of None \<Rightarrow> rec | Some first_record \<Rightarrow> first_record"
      have first: "record_ok ?first"
        using ok 1(3) by (auto split: option.split)
      show ?thesis
      proof (cases "valid \<and> uv_frame_register rec = uv_frame_register ?first \<and>
          uv_frame_offset rec = uv_frame_offset ?first")
        case False
        then show ?thesis
          using r(1) Some True valid unfolding unfolded Let_def by (cases valid) auto
      next
        case same: True
        show ?thesis
        proof (cases "is_chained (uv_flags rec)")
          case chain: True
          obtain c where c: "chained_entry objects m (uv_trailer_rva rec) = Some c"
            using chained_entry_total [OF 1(2)] by blast
          show ?thesis
          proof (cases c)
            case None
            then show ?thesis
              using r(1) Some True valid same chain c unfolding unfolded Let_def by simp
          next
            case next_entry: (Some chained)
            have "validate_chain objects m entry first depth = validate_chain objects m chained (Some ?first) (depth + 1)"
              unfolding unfolded Let_def using r(1) Some True valid same chain c next_entry by simp
            moreover have "\<exists>r. validate_chain objects m chained (Some ?first) (depth + 1) = Some r \<and>
                (\<forall>rec. r = Inr rec \<longrightarrow> record_ok rec)"
              using 1(1) [OF True r(1) Some valid _ refl _ chain c next_entry 1(2)] same first by simp
            ultimately show ?thesis
              by simp
          qed
        next
          case False
          obtain status where "last_record_status objects m rec = Some status"
            using last_record_status_total [OF 1(2)] by blast
          then show ?thesis
            using r(1) Some True valid same False first unfolding unfolded Let_def by auto
        qed
      qed
    qed
  qed
qed

lemma validate_unwind_chain_total:
  assumes "backed objects m"
  shows "\<exists>r. validate_unwind_chain objects m entry = Some r \<and> (\<forall>rec. r = Inr rec \<longrightarrow> record_ok rec)"
  using validate_chain_total [OF assms, of None] by (simp add: validate_unwind_chain_def)

end
