(* ===== verification/Unwind_Safety.thy ===== *)
theory Unwind_Safety
  imports Unwind_Safety_Records
begin

text \<open>
  The loops of the unwinder that work on a context end and stay inside the mapping, and what they
  compute depends on no memory but the stack inside its bounds.
\<close>

section \<open>Epilogues\<close>

lemma find_push_total:
  assumes "record_ok rec"
  shows "find_push rec index \<noteq> None"
proof -
  have "2 * uv_code_count rec \<le> length (uv_codes rec)"
    using assms by (simp add: record_ok_def)
  then show ?thesis
  proof (induction rec index rule: find_push.induct)
    case (1 rec index)
    then show ?case
      using code_at_Some [of "uv_code_count rec" "uv_codes rec" index]
      by (subst find_push.simps) (auto simp: Let_def)
  qed
qed

lemma read_ranged_record_total:
  assumes "backed objects m"
  shows "\<exists>r. read_ranged_record objects m entry = Some r \<and> (\<forall>rec. r = Some rec \<longrightarrow> record_ok rec)"
proof -
  obtain r where r: "read_unwind_record objects m (rf_unwind_data entry) = Some r"
      "\<forall>rec. r = Some rec \<longrightarrow> record_ok rec"
    using read_unwind_record_total [OF assms] by blast
  show ?thesis
  proof (cases r)
    case (Some rec)
    moreover obtain valid where "validate_v2_epilogue_ranges rec entry = Some valid"
      using r Some validate_v2_epilogue_ranges_total by blast
    ultimately show ?thesis
      using r by (simp add: read_ranged_record_def)
  qed (use r in \<open>simp add: read_ranged_record_def\<close>)
qed

lemma select_record_total:
  assumes "backed objects m"
  shows "\<exists>r. select_record objects m entry depth = Some r \<and> (\<forall>rec i d. r = Some (rec, i, d) \<longrightarrow> record_ok rec)"
  using assms
proof (induction objects m entry depth rule: select_record.induct)
  case (1 objects m entry depth)
  note unfolded = select_record.simps [of objects m entry depth]
  show ?case
  proof (cases "depth < SL_WIN64_MAX_CHAIN_DEPTH")
    case False
    then show ?thesis
      by (simp add: unfolded)
  next
    case True
    obtain r where r: "read_ranged_record objects m entry = Some r" "\<forall>rec. r = Some rec \<longrightarrow> record_ok rec"
      using read_ranged_record_total [OF 1(2)] by blast
    show ?thesis
    proof (cases r)
      case None
      then show ?thesis
        using r True by (simp add: unfolded)
    next
      case (Some rec)
      then have ok: "record_ok rec"
        using r by simp
      obtain p where p: "find_push rec (ep_code_slots (uv_epilogues rec)) = Some p"
        using find_push_total [OF ok] by blast
      obtain c where c: "chained_entry objects m (uv_trailer_rva rec) = Some c"
        using chained_entry_total [OF 1(2)] by blast
      consider "p = None" | index found where "p = Some (index, found)" "found \<or> \<not> is_chained (uv_flags rec)"
        | index where "p = Some (index, False)" "is_chained (uv_flags rec)" "c = None"
        | index chained where "p = Some (index, False)" "is_chained (uv_flags rec)" "c = Some chained"
        by (cases p; cases c) auto
      then show ?thesis
      proof cases
        case 4
        then have "select_record objects m entry depth = select_record objects m chained (depth + 1)"
          unfolding unfolded using True r(1) Some p c by simp
        moreover have "\<exists>r. select_record objects m chained (depth + 1) = Some r \<and>
            (\<forall>rec i d. r = Some (rec, i, d) \<longrightarrow> record_ok rec)"
          using 1(1) [OF True r(1) Some p, of "(index, False)" index False c chained] 4 c 1(2) by simp
        ultimately show ?thesis
          by simp
      qed (unfold unfolded, use True r(1) Some p c ok in simp_all)
    qed
  qed
qed

lemma parents_without_push_total:
  assumes "backed objects m"
  shows "parents_without_push objects m parent depth \<noteq> None"
  using assms
proof (induction objects m parent depth rule: parents_without_push.induct)
  case (1 objects m parent depth)
  note unfolded = parents_without_push.simps [of objects m parent depth]
  show ?case
  proof (cases "is_chained (uv_flags parent) \<and> \<not> depth + 1 \<ge> SL_WIN64_MAX_CHAIN_DEPTH")
    case False
    then show ?thesis
      by (auto simp: unfolded simp del: not_None_eq)
  next
    case True
    obtain c where c: "chained_entry objects m (uv_trailer_rva parent) = Some c"
      using chained_entry_total [OF 1(2)] by blast
    show ?thesis
    proof (cases c)
      case None
      then show ?thesis
        using True c by (simp add: unfolded)
    next
      case (Some chained)
      obtain r where r: "read_ranged_record objects m chained = Some r" "\<forall>rec. r = Some rec \<longrightarrow> record_ok rec"
        using read_ranged_record_total [OF 1(2)] by blast
      show ?thesis
      proof (cases r)
        case None
        then show ?thesis
          using True c Some r by (simp add: unfolded)
      next
        case rec: (Some rec)
        then obtain p where p: "find_push rec (ep_code_slots (uv_epilogues rec)) = Some p"
          using find_push_total r by blast
        have "parents_without_push objects m rec (depth + 1) \<noteq> None" if "p = Some (i, False)" for i
          using 1(1) [of c chained r rec p "(i, False)" i False] True c Some r(1) rec p that 1(2) by simp
        then show ?thesis
          using True c Some r(1) rec p
          by (cases p) (auto simp: unfolded simp del: not_None_eq)
      qed
    qed
  qed
qed

lemma pop_pushes_total:
  assumes "record_ok rec"
  shows "pop_pushes memory stack rec e index current_offset s \<noteq> None"
proof -
  have "2 * uv_code_count rec \<le> length (uv_codes rec)"
    using assms by (simp add: record_ok_def)
  then show ?thesis
  proof (induction memory stack rec e index current_offset s rule: pop_pushes.induct)
    case (1 memory stack rec e index current_offset s)
    note unfolded = pop_pushes.simps [of memory stack rec e index current_offset s]
    show ?case
    proof (cases "index < uv_code_count rec")
      case True
      obtain o' operation info where c: "code_at (uv_codes rec) index = Some (o', operation, info)"
        using code_at_Some [OF 1(2) True] by auto
      let ?pop = "if current_offset \<ge> e then pop_register memory stack info s else Some s"
      show ?thesis
      proof (cases "operation \<noteq> SL_UWOP_PUSH_NONVOL \<or> ?pop = None")
        case True
        then show ?thesis
          using \<open>index < uv_code_count rec\<close> c by (cases ?pop) (auto simp: unfolded simp del: not_None_eq)
      next
        case False
        then obtain s' where s': "?pop = Some s'"
          by blast
        then show ?thesis
          using 1(1) [OF True c refl refl _ s' 1(2)] False True c
          unfolding unfolded by (simp del: not_None_eq)
      qed
    qed (simp add: unfolded)
  qed
qed

lemma unwind_v2_epilogue_total:
  assumes "backed objects m"
  shows "unwind_v2_epilogue memory objects m entry e stack s \<noteq> None"
proof -
  obtain r where r: "select_record objects m entry 0 = Some r" "\<forall>rec i d. r = Some (rec, i, d) \<longrightarrow> record_ok rec"
    using select_record_total [OF assms] by blast
  show ?thesis
  proof (cases r)
    case None
    then show ?thesis
      using r by (simp add: unwind_v2_epilogue_def)
  next
    case (Some t)
    obtain rec i d where t: "t = (rec, i, d)"
      by (cases t)
    then have ok: "record_ok rec"
      using r Some by simp
    then have len: "2 * uv_code_count rec \<le> length (uv_codes rec)"
      by (simp add: record_ok_def)
    have flags: "pop_flags rec e i c s \<noteq> None" "finish_epilogue memory stack rec i s \<noteq> None" for i c s
      using code_at_Some [OF len, of i] by (auto simp: pop_flags_def finish_epilogue_def simp del: not_None_eq)
    show ?thesis
      using r(1) Some t parents_without_push_total [OF assms, of rec d] pop_pushes_total [OF ok, of memory stack e i 0 s] flags
      by (auto simp: unwind_v2_epilogue_def simp del: not_None_eq split: option.split bool.split)
  qed
qed

section \<open>Simulated instructions\<close>

lemma lea_step_total:
  assumes "4 \<le> length code" "frame_register < 16"
  shows "lea_step code (length code) frame_register prefix s \<noteq> None"
proof -
  let ?rex = "code ! 0" and ?modrm = "code ! 2"
  let ?base = "(?modrm AND 7) OR push_bit 3 (?rex AND 1)"
  let ?offset = "if ?modrm AND 7 = 4 then 4 else 3 :: nat"
  have peeks: "peek code 0 = Some ?rex" "peek code 2 = Some ?modrm" "peek code 3 = Some (code ! 3)"
    using assms(1) by (auto simp: peek_def)
  obtain v where v: "integer_register (us_context s) frame_register = Some v"
    using integer_register_Some [OF assms(2)] by blast
  have "(if drop_bit 6 ?modrm = 1 then map_option sint (peek code ?offset)
      else map_option sint (load_u32 code ?offset)) \<noteq> None"
    if "\<not> (?modrm AND 7 = 4 \<and> length code < 5)" "\<not> (drop_bit 6 ?modrm = 2 \<and> length code < ?offset + 4)"
      "drop_bit 6 ?modrm = 1 \<or> drop_bit 6 ?modrm = 2"
    using that assms(1) by (auto simp: peek_def load_u32_def)
  then show ?thesis
    using v by (auto simp: lea_step_def peeks Let_def byte_is_def simp del: not_None_eq)
qed

lemma indirect_jump_size_total:
  "3 \<le> length code \<Longrightarrow> indirect_jump_size code (length code) \<noteq> None"
  by (auto simp: indirect_jump_size_def peek_def Let_def)

lemma jump_step_total:
  "jump_step memory stack code (length code) image_base cursor_rva entry s \<noteq> None"
  using indirect_jump_size_total [of code]
  by (auto simp: jump_step_def peek_def load_u32_def)

lemma byte_is_length: "byte_is code i p \<Longrightarrow> i < length code"
  by (auto simp: byte_is_def peek_def split: if_splits)

lemma instruction_step_total:
  assumes "frame_register < 16"
  shows "instruction_step memory stack code (length code) frame_register image_base cursor_rva entry first prefix s \<noteq> None"
  using lea_step_total [OF _ assms, of code prefix s] jump_step_total [of memory stack code image_base cursor_rva entry s]
  by (auto simp: instruction_step_def peek_def load_u32_def load_u16_def Let_def byte_is_length
      simp del: not_None_eq dest: byte_is_length)

lemma simulate_instructions_total:
  assumes "backed objects m" "frame_register < 16"
  shows "simulate_instructions memory stack objects m entry frame_register cursor_rva first prefix n s \<noteq> None"
  using assms
proof (induction memory stack objects m entry frame_register cursor_rva first prefix n s
    rule: simulate_instructions.induct)
  case (1 memory stack objects m entry frame_register cursor_rva first prefix n s)
  note unfolded = simulate_instructions.simps [of memory stack objects m entry frame_register cursor_rva first prefix n s]
  let ?remaining = "unat (rf_end_address entry) - unat cursor_rva"
  show ?case
  proof (cases "n < 32 \<and> ?remaining \<noteq> 0 \<and> module_window objects (Some m) cursor_rva ?remaining \<noteq> None")
    case False
    then show ?thesis
      by (auto simp: unfolded Let_def simp del: not_None_eq split: option.split)
  next
    case True
    then obtain offset where window: "module_window objects (Some m) cursor_rva ?remaining = Some offset"
      by blast
    let ?code = "take ?remaining (drop offset (module_bytes objects m))"
    have "length ?code = ?remaining"
      using module_window_backed [OF 1(2) window] by simp
    then obtain step where step: "instruction_step memory stack ?code ?remaining frame_register
        (mp_load_base (module_mapping objects m)) cursor_rva entry first prefix s = Some step"
      using instruction_step_total [OF 1(3), of memory stack ?code] by (metis not_None_eq)
    show ?thesis
    proof (cases step)
      case (Continued s' len prefix')
      have "simulate_instructions memory stack objects m entry frame_register (cursor_rva + of_nat len) False prefix'
          (n + 1) s' \<noteq> None" if "\<not> (len = 0 \<or> len > ?remaining)"
        using 1(1) [OF _ refl _ window step Continued that 1(2,3)] True by blast
      then show ?thesis
        using True window step Continued by (auto simp: unfolded Let_def simp del: not_None_eq)
    qed (use True window step in \<open>simp_all add: unfolded Let_def\<close>)
  qed
qed

lemma simulate_epilogue_total:
  "backed objects m \<Longrightarrow> frame_register < 16 \<Longrightarrow>
    simulate_epilogue memory objects m entry frame_register pc stack s \<noteq> None"
  using simulate_instructions_total by (simp add: simulate_epilogue_def Let_def)

section \<open>One frame\<close>

lemma frame_base_of_total:
  assumes "record_ok rec"
  shows "frame_base_of rec in_prologue prologue_offset c \<noteq> None"
proof -
  have "frame_established rec in_prologue prologue_offset \<noteq> None"
    using frame_register_is_established_total assms by (auto simp: frame_established_def record_ok_def)
  moreover have "integer_register c (uv_frame_register rec) \<noteq> None"
    using integer_register_Some [of "uv_frame_register rec" c] assms by (auto simp: record_ok_def)
  ultimately show ?thesis
    by (auto simp: frame_base_of_def Let_def split: bool.split)
qed

lemma language_handler_of_total: "backed objects m \<Longrightarrow> language_handler_of objects m rec a t \<noteq> None"
  using module_window_backed [of objects m "uv_trailer_rva rec" 4] load_u32_Some [of _ "module_bytes objects m"]
  by (fastforce simp: language_handler_of_def split: option.splits)

lemma unwind_records_total:
  assumes "backed objects m"
  shows "unwind_records memory objects m t pc stack entry a f depth s \<noteq> None"
  using assms
proof (induction memory objects m t pc stack entry a f depth s rule: unwind_records.induct)
  case (1 memory objects m t pc stack entry a f depth s)
  note unfolded = unwind_records.simps [of memory objects m t pc stack entry a f depth s]
  show ?case
  proof (cases "depth < SL_WIN64_MAX_CHAIN_DEPTH")
    case False
    then show ?thesis
      by (simp add: unfolded)
  next
    case True
    obtain r where r: "record_fields objects m (rf_unwind_data entry) = Some r" "\<forall>rec. r = Some rec \<longrightarrow> record_ok rec"
      using record_fields_total [OF 1(2)] by blast
    show ?thesis
    proof (cases r)
      case None
      then show ?thesis
        using r True by (simp add: unfolded)
    next
      case (Some rec)
      then have ok: "record_ok rec"
        using r by simp
      let ?pc = "pc - mp_load_base (module_mapping objects m)"
      let ?off = "if ?pc \<ge> ucast (rf_begin_address entry) then ?pc - ucast (rf_begin_address entry) else 0xffffffffffffffff"
      let ?in = "depth = 0 \<and> in_prologue_of ?off rec"
      let ?po = "prologue_offset_of ?in ?off"
      obtain b where b: "frame_base_of rec ?in ?po (us_context s) = Some b"
        using frame_base_of_total [OF ok] by blast
      show ?thesis
      proof (cases b)
        case (Inl status)
        then show ?thesis
          using True r(1) Some b by (simp add: unfolded Let_def)
      next
        case (Inr frame_base)
        obtain u where u: "apply_unwind_codes memory stack (uv_codes rec) (uv_code_count rec) (uv_version rec)
            ?in ?po frame_base 0 s = Some u"
          using apply_unwind_codes_total [of "uv_codes rec" "uv_version rec" "uv_code_count rec" 0] ok
          unfolding record_ok_def by blast
        obtain c where c: "chained_entry objects m (uv_trailer_rva rec) = Some c"
          using chained_entry_total [OF 1(2)] by blast
        obtain h where h: "language_handler_of objects m rec (if depth = 0 \<and> ?in then False else a) t = Some h"
          using language_handler_of_total [OF 1(2)] by blast
        consider "u = None" | s' where "u = Some s'" "unat (rf_unwind_data entry) + uv_record_size rec > UINT32_MAX"
          | s' where "u = Some s'" "\<not> unat (rf_unwind_data entry) + uv_record_size rec > UINT32_MAX"
            "\<not> is_chained (uv_flags rec)"
          | s' where "u = Some s'" "\<not> unat (rf_unwind_data entry) + uv_record_size rec > UINT32_MAX"
            "is_chained (uv_flags rec)" "c = None"
          | s' chained where "u = Some s'" "\<not> unat (rf_unwind_data entry) + uv_record_size rec > UINT32_MAX"
            "is_chained (uv_flags rec)" "c = Some chained"
          by (metis option.exhaust)
        then show ?thesis
        proof cases
          case 3
          then show ?thesis
            unfolding unfolded Let_def using True r(1) Some b Inr u h
            by (auto simp del: not_None_eq split: sum.split)
        next
          case (5 s' chained)
          then show ?thesis
            unfolding unfolded Let_def using True r(1) Some b Inr u c
              1(1) [OF True r(1) Some refl refl refl refl b Inr refl refl u 5(1-3) c 5(4) 1(2)]
            by (simp add: Let_def del: not_None_eq)
        qed (unfold unfolded Let_def, use True r(1) Some b Inr u c in simp_all)
      qed
    qed
  qed
qed

lemma runtime_entry_from_pointer_total:
  assumes "backed objects m"
  shows "runtime_entry_from_pointer objects m p \<noteq> None"
proof (cases "exception_directory objects (Some m)")
  case (Some t)
  obtain table n where t: "t = (table, n)"
    by fastforce
  note e = exception_directory_Some [OF Some [unfolded t]]
  have inside: "table + n * 12 \<le> length (module_bytes objects m)"
    using module_window_backed [OF assms e(1)] .
  let ?d = "unat (p - (mp_address (module_mapping objects m) + of_nat table))"
  have "\<exists>entry. read_runtime_function (module_bytes objects m) (table + ?d) = Some entry" if "\<not> ?d > n * 12 - 12"
    using that inside e(2) by (intro read_runtime_function_Some) simp
  then show ?thesis
    using Some t by (auto simp: runtime_entry_from_pointer_def Let_def SL_WIN64_RUNTIME_FUNCTION_SIZE_def
        simp del: not_None_eq)
qed (simp add: runtime_entry_from_pointer_def)

lemma unwind_epilogue_total:
  assumes "backed objects m" "record_ok rec"
  shows "unwind_epilogue memory objects m entry rec pc stack s \<noteq> None"
proof -
  have "uv_frame_register rec < 16"
    using assms(2) by (simp add: record_ok_def)
  then show ?thesis
    using simulate_epilogue_total [OF assms(1)] unwind_v2_epilogue_total [OF assms(1)] find_v2_epilogue_total [OF assms(2)]
    by (auto simp: unwind_epilogue_def simp del: not_None_eq split: option.split)
qed

lemma unwind_function_total:
  assumes "backed objects m"
  shows "unwind_function memory objects m t pc entry c stack p \<noteq> None"
proof -
  obtain r where r: "validate_unwind_chain objects m entry = Some r" "\<forall>rec. r = Inr rec \<longrightarrow> record_ok rec"
    using validate_unwind_chain_total [OF assms] by blast
  show ?thesis
  proof (cases r)
    case (Inr rec)
    then have ok: "record_ok rec"
      using r by simp
    show ?thesis
      using r(1) Inr frame_base_of_total [OF ok] unwind_epilogue_total [OF assms ok] unwind_records_total [OF assms]
      by (auto simp: unwind_function_def Let_def simp del: not_None_eq split: option.split sum.split)
  qed (use r in \<open>simp add: unwind_function_def\<close>)
qed

lemma virtual_unwind_total:
  assumes "\<And>m. module = Some m \<Longrightarrow> backed objects m"
  shows "sl_win64_virtual_unwind memory objects module t pc p c stack outs cp \<noteq> None"
  using assms runtime_entry_from_pointer_total unwind_function_total
  by (auto simp: sl_win64_virtual_unwind_def Let_def simp del: not_None_eq split: option.split)

end
