(* ===== verification/Unwind_Stack.thy ===== *)
theory Unwind_Stack
  imports Unwind_Safety
begin

text \<open>
  What the unwinder computes depends on no memory but the bytes of the stack inside its bounds: two
  memories that agree there give the same result.
\<close>

definition same_stack :: "sl_win64_stack_bounds option \<Rightarrow> memory \<Rightarrow> memory \<Rightarrow> bool" where
  "same_stack stack memory memory' \<longleftrightarrow> (case stack of None \<Rightarrow> True
     | Some s \<Rightarrow> \<forall>a. sb_limit s \<le> a \<and> a < sb_base s \<longrightarrow> memory a = memory' a)"

lemma same_stack_sym: "same_stack stack memory memory' \<Longrightarrow> same_stack stack memory' memory"
  by (auto simp: same_stack_def split: option.splits)

lemma stack_range_byte:
  assumes "stack_range_fits (Some s) address len" "i < unat len"
  shows "sb_limit s \<le> address + of_nat i \<and> address + of_nat i < sb_base s"
proof -
  have fits: "sb_limit s \<le> address" "address \<le> sb_base s" "len \<le> sb_base s - address"
    using assms(1) by (auto simp: stack_range_fits_def)
  have "unat (sb_base s - address) = unat (sb_base s) - unat address"
    using fits(2) by (rule unat_sub_no_wrap)
  then have le: "unat address + unat len \<le> unat (sb_base s)"
    using fits(2,3) by (simp add: word_le_nat_alt)
  have lt: "unat address + i < 18446744073709551616"
    using le assms(2) unat_u64_lt [of "sb_base s"] by linarith
  then have "unat (of_nat i :: u64) = i"
    by (intro unat_of_nat_small) simp
  then have "unat (address + of_nat i) = unat address + i"
    using lt by (subst unat_add_no_wrap) simp_all
  then show ?thesis
    using fits(1) le assms(2) by (simp add: word_le_nat_alt word_less_nat_alt)
qed

lemma memory_bytes_same:
  assumes "same_stack stack memory memory'" "stack_range_fits stack address len" "n \<le> unat len"
  shows "memory_bytes memory address n = memory_bytes memory' address n"
proof -
  obtain s where s: "stack = Some s"
    using assms(2) by (auto simp: stack_range_fits_def split: option.splits)
  have "memory (address + of_nat i) = memory' (address + of_nat i)" if "i < n" for i
    using assms(1) stack_range_byte [OF assms(2) [unfolded s], of i] that assms(3) by (simp add: same_stack_def s)
  then show ?thesis
    by (simp add: memory_bytes_def)
qed

lemma read_stack_same:
  assumes "same_stack stack memory memory'"
  shows "read_stack_u64 memory stack = read_stack_u64 memory' stack"
    "read_stack_m128 memory stack = read_stack_m128 memory' stack"
  using memory_bytes_same [OF assms, of _ 8 8] memory_bytes_same [OF assms, of _ 16 16]
  by (auto simp: read_stack_u64_def read_stack_m128_def fun_eq_iff)

lemma steps_same:
  assumes "same_stack stack memory memory'"
  shows "restore_integer memory stack = restore_integer memory' stack"
    "restore_xmm memory stack = restore_xmm memory' stack"
    "pop_machine_frame memory stack = pop_machine_frame memory' stack"
    "pop_return memory stack = pop_return memory' stack"
    "pop_register memory stack = pop_register memory' stack"
    "pop_interrupt_return memory stack = pop_interrupt_return memory' stack"
    "apply_code memory stack = apply_code memory' stack"
    "finish_epilogue memory stack = finish_epilogue memory' stack"
    "finish_frame memory stack = finish_frame memory' stack"
proof -
  note reads = read_stack_same [OF assms]
  show basic: "restore_integer memory stack = restore_integer memory' stack"
    "restore_xmm memory stack = restore_xmm memory' stack"
    "pop_machine_frame memory stack = pop_machine_frame memory' stack"
    "pop_return memory stack = pop_return memory' stack"
    "pop_interrupt_return memory stack = pop_interrupt_return memory' stack"
    by (simp_all add: fun_eq_iff restore_integer_def restore_xmm_def pop_machine_frame_def pop_return_def
        pop_interrupt_return_def reads)
  show "pop_register memory stack = pop_register memory' stack"
    by (intro ext) (simp only: pop_register_def basic)
  show "apply_code memory stack = apply_code memory' stack"
    by (intro ext) (simp only: apply_code_def basic)
  show "finish_epilogue memory stack = finish_epilogue memory' stack"
    by (intro ext) (simp only: finish_epilogue_def basic)
  show "finish_frame memory stack = finish_frame memory' stack"
    by (intro ext) (simp only: finish_frame_def basic)
qed

lemma apply_unwind_codes_same_Some:
  assumes "apply_unwind_codes memory stack codes n version in_prologue po fb index s = Some r"
    "same_stack stack memory memory'"
  shows "apply_unwind_codes memory' stack codes n version in_prologue po fb index s = Some r"
proof -
  have "\<forall>memory'. same_stack stack memory memory' \<longrightarrow>
      apply_unwind_codes memory' stack codes n version in_prologue po fb index s = Some r"
  proof (rule apply_unwind_codes.raw_induct [OF _ assms(1), where P = "\<lambda>memory stack codes n version in_prologue po fb index s r.
      \<forall>memory'. same_stack stack memory memory' \<longrightarrow>
        apply_unwind_codes memory' stack codes n version in_prologue po fb index s = Some r"])
    fix f memory stack codes n version in_prologue po fb index s r
    assume IH: "\<And>memory stack codes n version in_prologue po fb index s r.
        f memory stack codes n version in_prologue po fb index s = Some r \<Longrightarrow>
        \<forall>memory'. same_stack stack memory memory' \<longrightarrow>
          apply_unwind_codes memory' stack codes n version in_prologue po fb index s = Some r"
      and body: "(if index < n
        then (case code_at codes index of
                None \<Rightarrow> None
              | Some (code_offset, operation, info) \<Rightarrow>
                  if in_prologue \<and> code_offset > po
                  then f memory stack codes n version in_prologue po fb
                         (index + unwind_operation_slots version operation info) s
                  else (case apply_code memory stack codes index operation info fb s of
                          None \<Rightarrow> None
                        | Some None \<Rightarrow> Some None
                        | Some (Some s') \<Rightarrow>
                            f memory stack codes n version in_prologue po fb
                              (index + unwind_operation_slots version operation info) s'))
        else Some (Some s)) = Some r"
    show "\<forall>memory'. same_stack stack memory memory' \<longrightarrow>
        apply_unwind_codes memory' stack codes n version in_prologue po fb index s = Some r"
    proof (intro allI impI)
      fix memory' assume same: "same_stack stack memory memory'"
      show "apply_unwind_codes memory' stack codes n version in_prologue po fb index s = Some r"
        using body IH same
        by (subst apply_unwind_codes.simps, subst steps_same(7) [OF same, symmetric])
          (auto split: if_splits option.splits)
    qed
  qed
  then show ?thesis
    using assms(2) by blast
qed

lemma apply_unwind_codes_same:
  assumes "same_stack stack memory memory'"
  shows "apply_unwind_codes memory stack = apply_unwind_codes memory' stack"
proof (intro ext)
  fix codes n version in_prologue po fb index s
  let ?f = "\<lambda>memory. apply_unwind_codes memory stack codes n version in_prologue po fb index s"
  show "?f memory = ?f memory'"
    using apply_unwind_codes_same_Some [OF _ assms, of codes n version in_prologue po fb index s]
      apply_unwind_codes_same_Some [OF _ same_stack_sym [OF assms], of codes n version in_prologue po fb index s]
    by (metis not_None_eq)
qed

lemma pop_pushes_same:
  assumes "same_stack stack memory memory'"
  shows "pop_pushes memory stack rec e index current_offset s = pop_pushes memory' stack rec e index current_offset s"
  using assms
proof (induction memory stack rec e index current_offset s rule: pop_pushes.induct)
  case (1 memory stack rec e index current_offset s)
  note unfolded = pop_pushes.simps [of memory stack rec e index current_offset s]
    pop_pushes.simps [of memory' stack rec e index current_offset s]
  show ?case
  proof (cases "index < uv_code_count rec \<and> code_at (uv_codes rec) index \<noteq> None")
    case False
    then show ?thesis
      by (cases "code_at (uv_codes rec) index") (simp_all add: unfolded)
  next
    case True
    then obtain o' operation info where c: "code_at (uv_codes rec) index = Some (o', operation, info)"
      by auto
    have "pop_pushes memory stack rec e (index + 1) offset s' = pop_pushes memory' stack rec e (index + 1) offset s'"
      if "\<not> operation \<noteq> SL_UWOP_PUSH_NONVOL" "offset = current_offset + (if info \<ge> 8 then 2 else 1)"
        "(if current_offset \<ge> e then pop_register memory stack info s else Some s) = Some s'" for s' offset
      using 1(1) [OF _ c refl refl that(1,3) 1(2)] True that(2) by simp
    then show ?thesis
      using True c unfolding unfolded steps_same(5) [OF 1(2), symmetric]
      by (auto split: option.split)
  qed
qed

lemma unwind_v2_epilogue_same:
  assumes "same_stack stack memory memory'"
  shows "unwind_v2_epilogue memory objects m entry e stack s = unwind_v2_epilogue memory' objects m entry e stack s"
  unfolding unwind_v2_epilogue_def pop_pushes_same [OF assms] steps_same(8) [OF assms] ..

lemma instruction_step_same:
  assumes "same_stack stack memory memory'"
  shows "instruction_step memory stack = instruction_step memory' stack"
  by (intro ext) (simp only: instruction_step_def jump_step_def steps_same(4,5) [OF assms])

lemma simulate_instructions_same:
  assumes "same_stack stack memory memory'"
  shows "simulate_instructions memory stack objects m entry fr cursor first prefix n s =
    simulate_instructions memory' stack objects m entry fr cursor first prefix n s"
  using assms
proof (induction memory stack objects m entry fr cursor first prefix n s rule: simulate_instructions.induct)
  case (1 memory stack objects m entry fr cursor first prefix n s)
  note unfolded = simulate_instructions.simps [of memory stack objects m entry fr cursor first prefix n s]
    simulate_instructions.simps [of memory' stack objects m entry fr cursor first prefix n s]
  let ?remaining = "unat (rf_end_address entry) - unat cursor"
  show ?case
  proof (cases "n < 32 \<and> ?remaining \<noteq> 0 \<and> module_window objects (Some m) cursor ?remaining \<noteq> None")
    case False
    then show ?thesis
      by (auto simp: unfolded Let_def split: option.split)
  next
    case True
    then obtain offset where window: "module_window objects (Some m) cursor ?remaining = Some offset"
      by blast
    let ?step = "instruction_step memory stack (take ?remaining (drop offset (module_bytes objects m))) ?remaining fr
        (mp_load_base (module_mapping objects m)) cursor entry first prefix s"
    have "simulate_instructions memory stack objects m entry fr (cursor + of_nat len) False prefix' (n + 1) s' =
        simulate_instructions memory' stack objects m entry fr (cursor + of_nat len) False prefix' (n + 1) s'"
      if "?step = Some (Continued s' len prefix')" "\<not> (len = 0 \<or> len > ?remaining)" for s' len prefix'
      using 1(1) [OF _ refl _ window that(1) refl that(2) 1(2)] True by blast
    then show ?thesis
      using True window unfolding unfolded Let_def instruction_step_same [OF 1(2), symmetric]
      by (cases ?step) (auto split: epilogue_step.split)
  qed
qed

lemma unwind_epilogue_same:
  assumes "same_stack stack memory memory'"
  shows "unwind_epilogue memory objects m entry rec pc stack s = unwind_epilogue memory' objects m entry rec pc stack s"
  unfolding unwind_epilogue_def simulate_epilogue_def unwind_v2_epilogue_same [OF assms]
    simulate_instructions_same [OF assms] ..

lemma unwind_records_same:
  assumes "same_stack stack memory memory'"
  shows "unwind_records memory objects m t pc stack entry a f depth s =
    unwind_records memory' objects m t pc stack entry a f depth s"
  using assms
proof (induction memory objects m t pc stack entry a f depth s rule: unwind_records.induct)
  case (1 memory objects m t pc stack entry a f depth s)
  note unfolded = unwind_records.simps [of memory objects m t pc stack entry a f depth s]
    unwind_records.simps [of memory' objects m t pc stack entry a f depth s]
  show ?case
    unfolding unfolded apply_unwind_codes_same [OF 1(2), symmetric] steps_same(9) [OF 1(2), symmetric]
    unfolding Let_def
    by (intro if_cong refl option.case_cong sum.case_cong) (rule 1(1); (assumption | rule refl 1(2)))
qed

lemma virtual_unwind_same:
  assumes "same_stack stack memory memory'"
  shows "sl_win64_virtual_unwind memory objects module t pc p c stack outs cp =
    sl_win64_virtual_unwind memory' objects module t pc p c stack outs cp"
proof -
  have "unwind_function memory objects m t pc entry c stack cp = unwind_function memory' objects m t pc entry c stack cp"
    for m entry c
    unfolding unwind_function_def unwind_epilogue_same [OF assms] unwind_records_same [OF assms] ..
  then show ?thesis
    by (simp only: sl_win64_virtual_unwind_def)
qed

lemma unwind_leaf_same:
  assumes "same_stack stack memory memory'"
  shows "sl_win64_unwind_leaf memory c stack = sl_win64_unwind_leaf memory' c stack"
  unfolding sl_win64_unwind_leaf_def steps_same(4) [OF assms] ..

end
