(* ===== verification/Unwind_Prologue.thy ===== *)
theory Unwind_Prologue
  imports Unwind_Stack
begin

text \<open>
  What the unwind codes mean: a small machine that runs the prologue a compiler emits (pushes of
  nonvolatile registers and allocations), the encoding of such a prologue as unwind codes, and the proof
  that applying the codes undoes what was run of it.
\<close>

section \<open>Prologues\<close>

datatype (plugins only: code size) prologue_op = Push u8 | Alloc nat

definition op_ok :: "prologue_op \<Rightarrow> bool" where
  "op_ok op = (case op of Push r \<Rightarrow> r < 16 \<and> is_nonvolatile_integer_register r
     | Alloc n \<Rightarrow> 0 < n \<and> n mod 8 = 0 \<and> n < 4294967296)"

definition op_room :: "prologue_op \<Rightarrow> nat" where
  "op_room op = (case op of Push r \<Rightarrow> 8 | Alloc n \<Rightarrow> n)"

definition store_bytes :: "memory \<Rightarrow> u64 \<Rightarrow> bytes \<Rightarrow> memory" where
  "store_bytes memory address bs =
     (\<lambda>a. if unat (a - address) < length bs then bs ! unat (a - address) else memory a)"

definition run_op :: "prologue_op \<Rightarrow> sl_win64_context \<times> memory \<Rightarrow> sl_win64_context \<times> memory" where
  "run_op op = (\<lambda>(c, memory). let rsp = cx_rsp c - of_nat (op_room op) in
     (c\<lparr>cx_rsp := rsp\<rparr>,
      case op of Push r \<Rightarrow> store_bytes memory rsp (le_bytes 8 (unat (the (integer_register c r)))) | Alloc n \<Rightarrow> memory))"

definition run_ops :: "prologue_op list \<Rightarrow> sl_win64_context \<times> memory \<Rightarrow> sl_win64_context \<times> memory" where
  "run_ops ops = fold run_op ops"

section \<open>Their unwind codes\<close>

text \<open>A code is its offset in the prologue, the operation with its information, and the operand.\<close>

definition op_codes :: "u8 \<times> prologue_op \<Rightarrow> bytes" where
  "op_codes x = (case snd x of
     Push r \<Rightarrow> [fst x, SL_UWOP_PUSH_NONVOL OR push_bit 4 r]
   | Alloc n \<Rightarrow>
       if n \<le> 128 then [fst x, SL_UWOP_ALLOC_SMALL OR push_bit 4 (of_nat (n div 8 - 1))]
       else if n div 8 < 65536 then [fst x, SL_UWOP_ALLOC_LARGE OR push_bit 4 0] @ le_bytes 2 (n div 8)
       else [fst x, SL_UWOP_ALLOC_LARGE OR push_bit 4 1] @ le_bytes 4 n)"

definition op_slots :: "u8 \<times> prologue_op \<Rightarrow> nat" where
  "op_slots x = length (op_codes x) div 2"

text \<open>The codes stand in the order of unwinding: the last operation first.\<close>

definition prologue_codes :: "(u8 \<times> prologue_op) list \<Rightarrow> bytes" where
  "prologue_codes ops = concat (map op_codes (rev ops))"

text \<open>The part of the prologue that was run at an offset.\<close>

definition executed :: "bool \<Rightarrow> u8 \<Rightarrow> (u8 \<times> prologue_op) list \<Rightarrow> prologue_op list" where
  "executed in_prologue prologue_offset ops =
     map snd (filter (\<lambda>(code_offset, op). \<not> (in_prologue \<and> code_offset > prologue_offset)) ops)"

section \<open>Undoing operations\<close>

definition undo_op :: "memory \<Rightarrow> sl_win64_stack_bounds option \<Rightarrow> prologue_op \<Rightarrow> unwind_state \<Rightarrow> unwind_state option" where
  "undo_op memory stack op s = (case op of Push r \<Rightarrow> pop_register memory stack r s | Alloc n \<Rightarrow> advance_rsp (of_nat n) s)"

fun undo_ops :: "memory \<Rightarrow> sl_win64_stack_bounds option \<Rightarrow> prologue_op list \<Rightarrow> unwind_state \<Rightarrow> unwind_state option" where
  "undo_ops memory stack [] s = Some s"
| "undo_ops memory stack (op # ops) s =
     (case undo_op memory stack op s of None \<Rightarrow> None | Some s \<Rightarrow> undo_ops memory stack ops s)"

section \<open>The codes are decoded\<close>

lemma nibbles:
  fixes low high :: u8
  assumes "low < 16" "high < 16"
  shows "(low OR push_bit 4 high) AND 0x0f = low" "drop_bit 4 (low OR push_bit 4 high) = high"
proof -
  have n: "unat low < 16" "unat high < 16"
    using assms by (simp_all add: word_less_nat_alt)
  have u: "unat (low OR push_bit 4 high) = unat low + 16 * unat high"
    using unat_or_push_bit [of low 4 high] n by simp
  have "unat ((low OR push_bit 4 high) AND mask 4) = unat low"
    unfolding unat_and_mask u using n by simp
  then show "(low OR push_bit 4 high) AND 0x0f = low"
    by (simp add: word_unat_eq_iff mask_eq_exp_minus_1)
  show "drop_bit 4 (low OR push_bit 4 high) = high"
    unfolding word_unat_eq_iff unat_drop_bit_div u using n by simp
qed

lemma even_op_codes: "length (op_codes x) = 2 * op_slots x"
  by (auto simp: op_slots_def op_codes_def split: prologue_op.split)

lemma op_slots_pos: "0 < op_slots x"
  by (auto simp: op_slots_def op_codes_def split: prologue_op.split)

lemma code_at_append:
  assumes "length pre = 2 * i"
  shows "code_at (pre @ b0 # b1 # post) i = Some (b0, b1 AND 0x0f, drop_bit 4 b1)"
  using assms by (simp add: code_at_def peek_def nth_append mult.commute)

lemma operand_append:
  assumes "length pre = 2 * i"
  shows "k < 65536 \<Longrightarrow> operand_u16 (pre @ b0 # b1 # le_bytes 2 k @ post) i = Some (of_nat k)"
    and "n < 4294967296 \<Longrightarrow> operand_u32 (pre @ b0 # b1 # le_bytes 4 n @ post) i = Some (of_nat n)"
proof -
  have skip: "drop ((i + 1) * 2) (pre @ b0 # b1 # rest) = rest" for rest
    using assms by (simp add: mult.commute)
  show "operand_u16 (pre @ b0 # b1 # le_bytes 2 k @ post) i = Some (of_nat k)" if "k < 65536"
    unfolding operand_u16_def load_u16_read read_u16_arith skip using that assms
    by (simp add: le_value_bytes word_unat_eq_iff unat_ucast_up unat_of_nat_small del: le_bytes.simps)
  show "operand_u32 (pre @ b0 # b1 # le_bytes 4 n @ post) i = Some (of_nat n)" if "n < 4294967296"
    unfolding operand_u32_def load_u32_read read_u32_arith skip using that assms
    by (simp add: le_value_bytes word_unat_eq_iff unat_ucast_up unat_of_nat_small del: le_bytes.simps)
qed

lemma aligned_size:
  assumes "0 < n" "n mod 8 = 0" "n < 4294967296"
  shows "(of_nat n :: u64) \<noteq> 0 \<and> (of_nat n :: u64) AND 7 = 0"
proof -
  have u: "unat (of_nat n :: u64) = n"
    using assms(3) by (simp add: unat_of_nat_small)
  have "unat ((of_nat n :: u64) AND mask 3) = 0"
    unfolding unat_and_mask u using assms(2) by simp
  then have "(of_nat n :: u64) AND 7 = 0"
    by (simp add: word_unat_eq_iff mask_eq_exp_minus_1)
  moreover have "unat (of_nat n :: u64) \<noteq> 0"
    using u assms(1) by simp
  ultimately show ?thesis
    by fastforce
qed

lemma code_at_op:
  assumes "op_ok op" "length pre = 2 * i"
  shows "\<exists>operation info. code_at (pre @ op_codes (code_offset, op) @ post) i = Some (code_offset, operation, info) \<and>
    unwind_operation_slots version operation info = op_slots (code_offset, op) \<and>
    unwind_operation_is_valid operation info \<and>
    operation \<notin> {SL_UWOP_EPILOG, SL_UWOP_SET_FPREG, SL_UWOP_SAVE_NONVOL_FAR, SL_UWOP_SAVE_XMM128_FAR} \<and>
    (\<forall>memory stack fb s. apply_code memory stack (pre @ op_codes (code_offset, op) @ post) i operation info fb s =
       Some (undo_op memory stack op s))"
proof (cases op)
  case (Push r)
  have "r < 16"
    using assms(1) by (simp add: op_ok_def Push)
  then have "code_at (pre @ op_codes (code_offset, op) @ post) i = Some (code_offset, SL_UWOP_PUSH_NONVOL, r)"
    using code_at_append [OF assms(2)] nibbles [of SL_UWOP_PUSH_NONVOL r]
    by (simp add: op_codes_def Push SL_UWOP_PUSH_NONVOL_def)
  moreover have "unwind_operation_slots version SL_UWOP_PUSH_NONVOL r = op_slots (code_offset, op)"
    by (simp add: unwind_operation_slots_def op_slots_def op_codes_def Push)
  moreover have "unwind_operation_is_valid SL_UWOP_PUSH_NONVOL r"
    using assms(1) by (simp add: unwind_operation_is_valid_def op_ok_def Push)
  ultimately show ?thesis
    by (auto simp: apply_code_def undo_op_def Push pop_register_def uwop_defs)
next
  case (Alloc n)
  have n: "0 < n" "n mod 8 = 0" "n < 4294967296"
    using assms(1) by (simp_all add: op_ok_def Alloc)
  obtain j where j: "n = 8 * Suc j"
    using n by (metis dvd_def gr0_implies_Suc mod_eq_0_iff_dvd mult_0_right not_gr0)
  define k where "k = Suc j"
  then have k: "n = 8 * k" "0 < k"
    using j by simp_all
  let ?codes = "pre @ op_codes (code_offset, op) @ post"
  consider "n \<le> 128" | "128 < n" "k < 65536" | "128 < n" "\<not> k < 65536"
    by linarith
  then show ?thesis
  proof cases
    case 1
    have info: "(of_nat j :: u8) < 16" "unat (of_nat j :: u8) = j"
      using 1 j by (simp_all add: word_less_nat_alt unat_of_nat_small)
    have "code_at ?codes i = Some (code_offset, SL_UWOP_ALLOC_SMALL, of_nat j)"
      using code_at_append [OF assms(2)] nibbles [of SL_UWOP_ALLOC_SMALL "of_nat j"] info(1) 1 j
      by (simp add: op_codes_def Alloc SL_UWOP_ALLOC_SMALL_def)
    moreover have "unwind_operation_slots version SL_UWOP_ALLOC_SMALL (of_nat j) = op_slots (code_offset, op)"
      using 1 by (simp add: unwind_operation_slots_def op_slots_def op_codes_def Alloc uwop_defs)
    moreover have "(ucast (of_nat j :: u8) :: u64) = of_nat j"
      using info 1 j by (simp add: word_unat_eq_iff unat_ucast_up unat_of_nat_small)
    then have "ucast (of_nat j :: u8) * 8 + 8 = (of_nat n :: u64)"
      by (simp add: j)
    ultimately show ?thesis
      by (auto simp: apply_code_def undo_op_def Alloc unwind_operation_is_valid_def uwop_defs)
  next
    case 2
    have codes: "?codes = pre @ code_offset # (SL_UWOP_ALLOC_LARGE OR push_bit 4 0) # (le_bytes 2 k @ post)"
      using 2 k by (simp add: op_codes_def Alloc)
    have "code_at ?codes i = Some (code_offset, SL_UWOP_ALLOC_LARGE, 0)"
      unfolding codes code_at_append [OF assms(2)] by (simp add: SL_UWOP_ALLOC_LARGE_def)
    moreover have "unwind_operation_slots version SL_UWOP_ALLOC_LARGE 0 = op_slots (code_offset, op)"
      using 2 k by (simp add: unwind_operation_slots_def op_slots_def op_codes_def Alloc uwop_defs)
    moreover have "operand_u16 ?codes i = Some (of_nat k)"
      unfolding codes using operand_append(1) [OF assms(2) 2(2)] .
    moreover have "of_nat k * 8 = (of_nat n :: u64)"
      by (simp add: k)
    moreover have "(of_nat n :: u64) \<noteq> 0 \<and> (of_nat n :: u64) AND 7 = 0"
      using aligned_size [OF n] .
    ultimately show ?thesis
      by (auto simp: apply_code_def undo_op_def Alloc unwind_operation_is_valid_def uwop_defs)
  next
    case 3
    have codes: "?codes = pre @ code_offset # (SL_UWOP_ALLOC_LARGE OR push_bit 4 1) # (le_bytes 4 n @ post)"
      using 3 k by (simp add: op_codes_def Alloc)
    have "code_at ?codes i = Some (code_offset, SL_UWOP_ALLOC_LARGE, 1)"
      unfolding codes code_at_append [OF assms(2)] using nibbles [of SL_UWOP_ALLOC_LARGE 1]
      by (simp add: SL_UWOP_ALLOC_LARGE_def)
    moreover have "unwind_operation_slots version SL_UWOP_ALLOC_LARGE 1 = op_slots (code_offset, op)"
      using 3 k by (simp add: unwind_operation_slots_def op_slots_def op_codes_def Alloc uwop_defs)
    moreover have "operand_u32 ?codes i = Some (of_nat n)"
      unfolding codes using operand_append(2) [OF assms(2) n(3)] .
    moreover have "(of_nat n :: u64) \<noteq> 0 \<and> (of_nat n :: u64) AND 7 = 0"
      using aligned_size [OF n] .
    ultimately show ?thesis
      by (auto simp: apply_code_def undo_op_def Alloc unwind_operation_is_valid_def uwop_defs)
  qed
qed

lemma apply_prologue_codes:
  assumes "list_all (\<lambda>x. op_ok (snd x)) us" "length pre = 2 * i"
  shows "apply_unwind_codes memory stack (pre @ concat (map op_codes us) @ post) (i + sum_list (map op_slots us))
      version b po fb i s = Some (undo_ops memory stack (executed b po us) s)"
  using assms
proof (induction us arbitrary: pre i s)
  case Nil
  then show ?case
    by (subst apply_unwind_codes.simps) (simp add: executed_def)
next
  case (Cons x us)
  obtain code_offset op where x: "x = (code_offset, op)"
    by fastforce
  let ?codes = "pre @ op_codes (code_offset, op) @ concat (map op_codes us) @ post"
  obtain operation info where c: "code_at ?codes i = Some (code_offset, operation, info)"
      "unwind_operation_slots version operation info = op_slots (code_offset, op)"
      "\<And>s. apply_code memory stack ?codes i operation info fb s = Some (undo_op memory stack op s)"
    using code_at_op [of op pre i code_offset "concat (map op_codes us) @ post" version] Cons.prems x
    by auto
  have rest: "apply_unwind_codes memory stack ?codes (i + sum_list (map op_slots (x # us))) version b po fb
      (i + op_slots (code_offset, op)) s = Some (undo_ops memory stack (executed b po us) s)" for s
    using Cons.IH [of "pre @ op_codes (code_offset, op)" "i + op_slots (code_offset, op)" s] Cons.prems
    by (simp add: even_op_codes x add.assoc)
  have less: "i < i + sum_list (map op_slots (x # us))"
    using op_slots_pos [of x] by simp
  show ?case
  proof (cases "b \<and> code_offset > po")
    case True
    then show ?thesis
      using less c rest by (subst apply_unwind_codes.simps) (simp add: x executed_def)
  next
    case False
    then show ?thesis
      using less c rest
      by (subst apply_unwind_codes.simps) (auto simp: x executed_def split: option.split)
  qed
qed

text \<open>The codes of a prologue pass the validation.\<close>

lemma validate_prologue_codes:
  assumes "list_all (\<lambda>x. op_ok (snd x)) us" "length pre = 2 * i"
    and "sorted_wrt (\<ge>) (map fst us)" "list_all (\<lambda>x. fst x \<le> prologue_size \<and> fst x \<le> previous) us"
  shows "validate_codes (pre @ concat (map op_codes us) @ post) (i + sum_list (map op_slots us))
      version prologue_size fr fo i previous found = Some (Some found)"
  using assms
proof (induction us arbitrary: pre i previous)
  case Nil
  then show ?case
    by (subst validate_codes.simps) simp
next
  case (Cons x us)
  obtain code_offset op where x: "x = (code_offset, op)"
    by fastforce
  let ?codes = "pre @ op_codes (code_offset, op) @ concat (map op_codes us) @ post"
  let ?n = "i + sum_list (map op_slots (x # us))"
  obtain operation info where c: "code_at ?codes i = Some (code_offset, operation, info)"
      "unwind_operation_slots version operation info = op_slots (code_offset, op)"
      "unwind_operation_is_valid operation info"
      "operation \<notin> {SL_UWOP_EPILOG, SL_UWOP_SET_FPREG, SL_UWOP_SAVE_NONVOL_FAR, SL_UWOP_SAVE_XMM128_FAR}"
    using code_at_op [of op pre i code_offset "concat (map op_codes us) @ post" version] Cons.prems x by auto
  have rest: "validate_codes ?codes ?n version prologue_size fr fo (i + op_slots (code_offset, op)) code_offset found =
      Some (Some found)"
    using Cons.IH [of "pre @ op_codes (code_offset, op)" "i + op_slots (code_offset, op)" code_offset] Cons.prems
    by (simp add: even_op_codes x add.assoc list_all_iff)
  have "i < ?n"
    using op_slots_pos [of x] by simp
  moreover have "\<not> code_refused version prologue_size previous (?n - i) code_offset operation info"
    using c Cons.prems op_slots_pos [of x] by (auto simp: code_refused_def x)
  moreover have "operand_refused ?codes i operation = Some False"
    using c(4) by (simp add: operand_refused_def)
  ultimately show ?case
    using c rest by (subst validate_codes.simps) (simp add: x)
qed

lemma validate_prologue:
  assumes "list_all (\<lambda>x. op_ok (snd x)) ops" "sorted (map fst ops)" "list_all (\<lambda>x. fst x \<le> prologue_size) ops"
  shows "validate_unwind_codes (prologue_codes ops @ padding) (sum_list (map op_slots ops)) version prologue_size fr fo =
    Some (Some (no_epilogues, False))"
proof -
  let ?codes = "prologue_codes ops @ padding" and ?n = "sum_list (map op_slots ops)"
  have "parse_v2_epilogue_prefix ?codes ?n version = Some (Some no_epilogues)"
  proof (cases "rev ops")
    case Nil
    then show ?thesis
      by (simp add: parse_v2_epilogue_prefix_def)
  next
    case (Cons x us)
    have "op_ok (snd x)"
      using assms(1) Cons by (metis list.set_intros(1) list_all_iff set_rev)
    then obtain operation info where "code_at (op_codes (fst x, snd x) @ concat (map op_codes us) @ padding) 0 =
        Some (fst x, operation, info)" "operation \<noteq> SL_UWOP_EPILOG"
      using code_at_op [of "snd x" "[]" 0 "fst x" "concat (map op_codes us) @ padding" version] by auto
    then show ?thesis
      by (simp add: parse_v2_epilogue_prefix_def prologue_codes_def Cons)
  qed
  moreover have "sorted_wrt (\<ge>) (map fst (rev ops))"
    using assms(2) by (simp add: rev_map [symmetric] sorted_wrt_rev)
  moreover have "list_all (\<lambda>x. fst x \<le> prologue_size \<and> fst x \<le> 0xff) ops"
  proof -
    have "x \<le> 0xff" for x :: u8
      using unat_u8_lt [of x] by (simp add: word_le_nat_alt del: unat_u8_lt)
    then show ?thesis
      using assms(3) by (simp add: list_all_iff)
  qed
  ultimately show ?thesis
    using validate_prologue_codes [of "rev ops" "[]" 0 prologue_size "0xff" padding version fr fo False] assms(1)
    by (simp add: validate_unwind_codes_def no_epilogues_def prologue_codes_def rev_map [symmetric])
qed

section \<open>Undoing what was run\<close>

lemma run_ops_simps [simp]:
  "run_ops [] cm = cm" "run_ops (ops @ [op]) cm = run_op op (run_ops ops cm)"
  by (simp_all add: run_ops_def)

text \<open>Running a prologue only moves the stack pointer.\<close>

lemma integer_register_rsp_only:
  "r \<noteq> 4 \<Longrightarrow> integer_register (c\<lparr>cx_rsp := v\<rparr>) r = integer_register c r"
  by (simp add: integer_register_def)

lemma run_ops_registers: "r \<noteq> 4 \<Longrightarrow> integer_register (fst (run_ops ops cm)) r = integer_register (fst cm) r"
  by (induction ops rule: rev_induct)
    (auto simp: run_op_def Let_def integer_register_rsp_only split: prod.split)

lemma run_ops_rsp:
  "cx_rsp (fst (run_ops ops cm)) = cx_rsp (fst cm) - of_nat (sum_list (map op_room ops))"
  by (induction ops rule: rev_induct) (auto simp: run_op_def Let_def split: prod.split)

lemma memory_bytes_store:
  "length bs < 2 ^ 64 \<Longrightarrow> memory_bytes (store_bytes memory a bs) a (length bs) = bs"
  by (rule nth_equalityI) (simp_all add: memory_bytes_def store_bytes_def unat_of_nat_small)

lemma load_u64_le_bytes: "load_u64 (le_bytes 8 (unat v)) 0 = Some v"
proof -
  have "le_value (le_bytes 8 (unat v)) = unat v"
    using unat_u64_lt [of v] by (simp only: le_value_bytes) simp
  then show ?thesis
    unfolding load_u64_read read_u64_arith by (simp del: le_bytes.simps)
qed

lemma integer_register_ex: "r < 16 \<Longrightarrow> integer_register c r = Some (the (integer_register c r))"
  using integer_register_Some by force

lemma sub_below:
  fixes a :: u64
  assumes "n \<le> unat a"
  shows "unat (a - of_nat n) = unat a - n"
proof -
  have "unat (of_nat n :: u64) = n"
    using assms unat_u64_lt [of a] by (intro unat_of_nat_small) (simp del: unat_u64_lt)
  then show ?thesis
    using assms by (subst unat_sub_no_wrap) (simp_all add: word_le_nat_alt)
qed

lemma add_u64_back:
  assumes "n \<le> unat b"
  shows "add_u64 (b - of_nat n) (of_nat n) = Some b"
proof -
  have n: "unat (of_nat n :: u64) = n"
    using assms unat_u64_lt [of b] by (intro unat_of_nat_small) (simp del: unat_u64_lt)
  have "b - of_nat n \<le> 0xffffffffffffffff"
    using unat_u64_lt [of "b - of_nat n"] by (simp add: word_le_nat_alt del: unat_u64_lt)
  then have "unat (0xffffffffffffffff - (b - of_nat n)) = 18446744073709551615 - (unat b - n)"
    using sub_below [OF assms] by (simp add: unat_sub_no_wrap)
  then have "\<not> of_nat n > 0xffffffffffffffff - (b - of_nat n)"
    using n assms unat_u64_lt [of b] by (simp add: word_less_nat_alt del: unat_u64_lt)
  then show ?thesis
    by (simp add: add_u64_def)
qed

lemma read_pushed:
  assumes "stack = Some bounds" "sb_limit bounds \<le> a" "unat a + 8 \<le> unat upper" "upper \<le> sb_base bounds"
    and "\<forall>x. a \<le> x \<and> x < upper \<longrightarrow> memory x = store_bytes m a (le_bytes 8 (unat v)) x"
  shows "read_stack_u64 memory stack a = Some v"
proof -
  have le: "unat a + 8 \<le> unat (sb_base bounds)"
    using assms(3,4) by (simp add: word_le_nat_alt)
  then have "a \<le> sb_base bounds" "unat (sb_base bounds - a) = unat (sb_base bounds) - unat a"
    by (simp_all add: word_le_nat_alt unat_sub_no_wrap)
  then have fits: "stack_range_fits stack a 8"
    using assms(1,2) le unat_u64_lt [of a]
    by (simp add: stack_range_fits_def UINTPTR_MAX_def word_le_nat_alt word_less_nat_alt del: unat_u64_lt)
  have "memory (a + of_nat i) = store_bytes m a (le_bytes 8 (unat v)) (a + of_nat i)" if "i < 8" for i
  proof -
    have "unat (of_nat i :: u64) = i"
      using that by (intro unat_of_nat_small) simp
    then have "unat (a + of_nat i) = unat a + i"
      using assms(3) that unat_u64_lt [of upper] by (subst unat_add_no_wrap) (simp_all del: unat_u64_lt)
    then show ?thesis
      using assms(3,5) that by (simp add: word_le_nat_alt word_less_nat_alt)
  qed
  then have "memory_bytes memory a 8 = memory_bytes (store_bytes m a (le_bytes 8 (unat v))) a 8"
    by (simp add: memory_bytes_def)
  also have "\<dots> = le_bytes 8 (unat v)"
    using memory_bytes_store [of "le_bytes 8 (unat v)" m a] by (simp del: le_bytes.simps)
  finally show ?thesis
    using fits by (simp add: read_stack_u64_def load_u64_le_bytes del: le_bytes.simps)
qed

lemma undo_run:
  assumes "list_all op_ok ops" "run_ops ops (c0, m0) = (c1, m1)" "stack = Some bounds"
    and "unat (sb_limit bounds) + sum_list (map op_room ops) \<le> unat (cx_rsp c0)" "cx_rsp c0 \<le> sb_base bounds"
    and "us_rsp s = cx_rsp c1" "\<forall>a. cx_rsp c1 \<le> a \<and> a < cx_rsp c0 \<longrightarrow> memory a = m1 a"
  shows "\<exists>s'. undo_ops memory stack (rev ops) s = Some s' \<and> us_rsp s' = cx_rsp c0 \<and>
    us_machine_frame s' = us_machine_frame s \<and>
    (\<forall>r. r < 16 \<longrightarrow> r \<noteq> 4 \<longrightarrow> integer_register (us_context s') r =
       integer_register (if Push r \<in> set ops then c0 else us_context s) r)"
  using assms
proof (induction ops arbitrary: c1 m1 s rule: rev_induct)
  case Nil
  then show ?case
    by simp
next
  case (snoc op ops)
  obtain c m where cm: "run_ops ops (c0, m0) = (c, m)"
    by fastforce
  let ?n = "sum_list (map op_room ops)"
  have rsp: "cx_rsp c = cx_rsp c0 - of_nat ?n" "cx_rsp c1 = cx_rsp c - of_nat (op_room op)"
    using run_ops_rsp [of ops "(c0, m0)"] snoc.prems(2) cm by (auto simp: run_op_def Let_def)
  have room: "unat (sb_limit bounds) + ?n + op_room op \<le> unat (cx_rsp c0)"
    using snoc.prems(4) by simp
  have u: "unat (cx_rsp c) = unat (cx_rsp c0) - ?n" "unat (cx_rsp c1) = unat (cx_rsp c0) - ?n - op_room op"
    using room sub_below [of ?n "cx_rsp c0"] sub_below [of "op_room op" "cx_rsp c"] rsp by simp_all
  have below: "sb_limit bounds \<le> cx_rsp c1" "op_room op \<le> unat (cx_rsp c)" "cx_rsp c \<le> cx_rsp c0" "cx_rsp c1 \<le> cx_rsp c"
    using room u by (simp_all add: word_le_nat_alt)
  have memory_c: "\<forall>a. cx_rsp c \<le> a \<and> a < cx_rsp c0 \<longrightarrow> memory a = m a"
  proof (intro allI impI)
    fix a assume a: "cx_rsp c \<le> a \<and> a < cx_rsp c0"
    then have "memory a = m1 a"
      using snoc.prems(7) below(4) by auto
    also have "m1 a = m a"
    proof (cases op)
      case (Push r)
      have "cx_rsp c1 \<le> a"
        using a below(4) by auto
      then have "unat (a - cx_rsp c1) = unat a - unat (cx_rsp c1)"
        by (rule unat_sub_no_wrap)
      moreover have "unat (cx_rsp c1) + 8 \<le> unat a"
        using a u room by (simp add: word_le_nat_alt Push op_room_def)
      ultimately show ?thesis
        using snoc.prems(2) cm by (auto simp: run_op_def Push op_room_def Let_def store_bytes_def)
    qed (use snoc.prems(2) cm in \<open>auto simp: run_op_def Let_def\<close>)
    finally show "memory a = m a" .
  qed
  have IH: "\<exists>s'. undo_ops memory stack (rev ops) t = Some s' \<and> us_rsp s' = cx_rsp c0 \<and>
      us_machine_frame s' = us_machine_frame t \<and>
      (\<forall>r. r < 16 \<longrightarrow> r \<noteq> 4 \<longrightarrow> integer_register (us_context s') r =
         integer_register (if Push r \<in> set ops then c0 else us_context t) r)" if "us_rsp t = cx_rsp c" for t
    using snoc.IH [OF _ cm snoc.prems(3) _ snoc.prems(5) that memory_c] snoc.prems(1,4) by simp
  have advance: "add_u64 (cx_rsp c1) (of_nat (op_room op)) = Some (cx_rsp c)"
    using add_u64_back [OF below(2)] rsp(2) by simp
  obtain t where t: "undo_op memory stack op s = Some t" "us_rsp t = cx_rsp c"
      "us_machine_frame t = us_machine_frame s"
      "\<And>r. r < 16 \<Longrightarrow> r \<noteq> 4 \<Longrightarrow> integer_register (us_context t) r =
         integer_register (if Push r = op then c0 else us_context s) r"
  proof (cases op)
    case (Alloc n)
    show ?thesis
    proof (rule that [of "set_rsp (cx_rsp c) s"])
      show "undo_op memory stack op s = Some (set_rsp (cx_rsp c) s)"
        using advance snoc.prems(6) by (simp add: undo_op_def Alloc advance_rsp_def op_room_def)
    qed (simp_all add: set_rsp_def integer_register_rsp_only Alloc)
  next
    case (Push r)
    have r: "r < 16" "r \<noteq> 4"
      using snoc.prems(1) nonvolatile_not_rsp by (auto simp: Push op_ok_def)
    let ?v = "the (integer_register c0 r)"
    have "integer_register c r = integer_register c0 r"
      using run_ops_registers [OF r(2), of ops "(c0, m0)"] cm by simp
    then have m1: "m1 = store_bytes m (cx_rsp c1) (le_bytes 8 (unat ?v))"
      using snoc.prems(2) cm by (auto simp: run_op_def Push op_room_def Let_def)
    have "read_stack_u64 memory stack (cx_rsp c1) = Some ?v"
    proof (rule read_pushed [OF snoc.prems(3) below(1) _ snoc.prems(5), where m = m])
      show "unat (cx_rsp c1) + 8 \<le> unat (cx_rsp c0)"
        using u room by (simp add: Push op_room_def)
    qed (use snoc.prems(7) m1 in simp)
    moreover obtain c' where c': "set_integer_register (us_context s) r ?v = Some c'"
      using set_integer_register_Some [OF r(1)] by blast
    moreover have "cx_rsp c' = cx_rsp c1"
      using set_integer_register_other(4) [OF c'] r(2) snoc.prems(6) by simp
    ultimately obtain t where t: "undo_op memory stack op s = Some t" "us_context t = c'\<lparr>cx_rsp := cx_rsp c\<rparr>"
        "us_machine_frame t = us_machine_frame s"
      using advance snoc.prems(6)
      by (auto simp: undo_op_def Push pop_register_def restore_integer_def advance_rsp_def op_room_def set_rsp_def)
    show ?thesis
    proof (rule that [OF t(1) _ t(3)])
      show "us_rsp t = cx_rsp c"
        by (simp add: t(2))
      fix x :: u8 assume "x < 16" "x \<noteq> 4"
      then show "integer_register (us_context t) x = integer_register (if Push x = op then c0 else us_context s) x"
        using integer_register_set [OF c', of x] integer_register_ex [OF r(1), of c0]
        by (simp add: t(2) integer_register_rsp_only Push)
    qed
  qed
  obtain s' where s': "undo_ops memory stack (rev ops) t = Some s'" "us_rsp s' = cx_rsp c0"
      "us_machine_frame s' = us_machine_frame t"
      "\<forall>r. r < 16 \<longrightarrow> r \<noteq> 4 \<longrightarrow> integer_register (us_context s') r =
         integer_register (if Push r \<in> set ops then c0 else us_context t) r"
    using IH [OF t(2)] by blast
  then show ?case
    using t(1,3,4) by auto
qed

section \<open>A frame\<close>

text \<open>What the unwinder must give back: the caller's stack pointer, the return address, the registers
  that were pushed as the caller had them and the others as they are.\<close>

definition caller_context ::
    "prologue_op list \<Rightarrow> sl_win64_context \<Rightarrow> sl_win64_context \<Rightarrow> u64 \<Rightarrow> sl_win64_context \<Rightarrow> bool" where
  "caller_context ops entered current return_address c \<longleftrightarrow>
     cx_rsp c = cx_rsp entered + 8 \<and> cx_rip c = return_address \<and>
     (\<forall>r. r < 16 \<longrightarrow> r \<noteq> 4 \<longrightarrow>
        integer_register c r = integer_register (if Push r \<in> set ops then entered else current) r)"

lemma executed_ok: "list_all (\<lambda>x. op_ok (snd x)) ops \<Longrightarrow> list_all op_ok (executed b po ops)"
  by (induction ops) (auto simp: executed_def)

lemma executed_rev: "executed b po (rev ops) = rev (executed b po ops)"
  by (simp add: executed_def rev_map [symmetric] rev_filter [symmetric])

lemma set_rip_register: "integer_register (c\<lparr>cx_rip := v\<rparr>) r = integer_register c r"
  by (simp add: integer_register_def)

lemma unwind_inverts_prologue_codes:
  fixes ops :: "(u8 \<times> prologue_op) list"
  assumes "list_all (\<lambda>x. op_ok (snd x)) ops" "run_ops (executed b po ops) (c0, m0) = (c1, m1)"
    and "sb_limit bounds < sb_base bounds"
    and "unat (sb_limit bounds) + sum_list (map op_room (executed b po ops)) \<le> unat (cx_rsp c0)"
    and "unat (cx_rsp c0) + 8 \<le> unat (sb_base bounds)"
    and "cx_rsp c = cx_rsp c1" "\<forall>a. cx_rsp c1 \<le> a \<and> a < cx_rsp c0 \<longrightarrow> memory a = m1 a"
    and "sorted (map fst ops)" "list_all (\<lambda>x. fst x \<le> prologue_size) ops"
  shows "\<exists>s r. validate_unwind_codes (prologue_codes ops @ padding) (sum_list (map op_slots ops)) version prologue_size
      fr fo = Some (Some (no_epilogues, False)) \<and>
    apply_unwind_codes memory (Some bounds) (prologue_codes ops @ padding)
      (sum_list (map op_slots ops)) version b po fb 0
      \<lparr>us_context = c, us_pointers = p, us_machine_frame = False\<rparr> = Some (Some s) \<and>
    finish_frame memory (Some bounds) handler f s = Inr r \<and>
    caller_context (executed b po ops) c0 c (the (load_u64 (memory_bytes memory (cx_rsp c0) 8) 0)) (ur_context r)"
proof -
  let ?s = "\<lparr>us_context = c, us_pointers = p, us_machine_frame = False\<rparr>"
  have le: "cx_rsp c0 \<le> sb_base bounds" "sb_limit bounds \<le> cx_rsp c0"
    using assms(4,5) by (simp_all add: word_le_nat_alt)
  have start: "us_rsp ?s = cx_rsp c1"
    using assms(6) by simp
  obtain s where s: "undo_ops memory (Some bounds) (rev (executed b po ops)) ?s = Some s"
      "us_rsp s = cx_rsp c0" "us_machine_frame s = False"
      "\<forall>r. r < 16 \<longrightarrow> r \<noteq> 4 \<longrightarrow> integer_register (us_context s) r =
         integer_register (if Push r \<in> set (executed b po ops) then c0 else c) r"
    using undo_run [OF executed_ok [OF assms(1)] assms(2) refl assms(4) le(1) start assms(7)]
    unfolding unwind_state.select_convs by blast
  have codes: "apply_unwind_codes memory (Some bounds) (prologue_codes ops @ padding) (sum_list (map op_slots ops))
      version b po fb 0 ?s = Some (Some s)"
    using apply_prologue_codes [of "rev ops" "[]" 0 memory "Some bounds" padding version b po fb ?s] assms(1) s(1)
    by (simp add: prologue_codes_def executed_rev rev_map [symmetric])
  have room: "unat (sb_base bounds - cx_rsp c0) = unat (sb_base bounds) - unat (cx_rsp c0)"
    using le(1) by (rule unat_sub_no_wrap)
  have "stack_range_fits (Some bounds) (cx_rsp c0) 8"
    using assms(3,5) le room unat_u64_lt [of "cx_rsp c0"]
    by (simp add: stack_range_fits_def UINTPTR_MAX_def word_le_nat_alt del: unat_u64_lt)
  moreover have "load_u64 (memory_bytes memory (cx_rsp c0) 8) 0 \<noteq> None"
    unfolding load_u64_read read_u64_arith by (simp add: memory_bytes_def)
  ultimately have ra: "read_stack_u64 memory (Some bounds) (us_rsp s) =
      Some (the (load_u64 (memory_bytes memory (cx_rsp c0) 8) 0))"
    using s(2) by (simp add: read_stack_u64_def)
  have "unat (cx_rsp c0 + 8) = unat (cx_rsp c0) + 8"
    using assms(5) unat_u64_lt [of "sb_base bounds"] by (subst unat_add_no_wrap) (simp_all del: unat_u64_lt)
  then have "add_u64 (cx_rsp c0) 8 = Some (cx_rsp c0 + 8)"
    using add_u64_back [of 8 "cx_rsp c0 + 8"] by simp
  then obtain r where "finish_frame memory (Some bounds) handler f s = Inr r"
      "ur_context r = (us_context s)\<lparr>cx_rsp := cx_rsp c0 + 8, cx_rip := the (load_u64 (memory_bytes memory (cx_rsp c0) 8) 0)\<rparr>"
    using s(2,3) ra by (simp add: finish_frame_def pop_return_def advance_rsp_def set_rsp_def)
  moreover have "caller_context (executed b po ops) c0 c (the (load_u64 (memory_bytes memory (cx_rsp c0) 8) 0))
      ((us_context s)\<lparr>cx_rsp := cx_rsp c0 + 8, cx_rip := the (load_u64 (memory_bytes memory (cx_rsp c0) 8) 0)\<rparr>)"
    using s(4) by (simp add: caller_context_def set_rip_register integer_register_rsp_only)
  ultimately show ?thesis
    using codes validate_prologue [OF assms(1,8,9)] by auto
qed

end
