(* ===== verification/Unwind_Walk.thy ===== *)
theory Unwind_Walk
  imports Unwind_Safety
begin

text \<open>
  \<open>src/win64_unwind.c\<close>, last part: the thread's links of running language handlers, and the second pass
  of an unwind, \<open>sl_win64_unwind_to_frame\<close>, which calls the handlers of the frames up to the target.

  A language handler is guest code: its call is a function of the state of the guest, which holds the
  memory, the modules and whatever else the guest changes. It gets the exception record, the context
  and the links of the thread and may change them; \<open>None\<close> is a call that does not return.
\<close>

section \<open>Data\<close>

record sl_win64_exception_record =
  er_exception_code :: u32
  er_exception_flags :: u32
  er_exception_record :: ptr
  er_exception_address :: ptr
  er_number_parameters :: u32
  er_alignment :: u32
  er_exception_information :: "u64 list"

text \<open>The field \<open>context_record\<close> is the context the handler is called with.\<close>

record sl_win64_dispatcher_context =
  dc_control_pc :: u64
  dc_image_base :: u64
  dc_function_entry :: ptr
  dc_establisher_frame :: u64
  dc_target_ip :: u64
  dc_language_handler :: ptr
  dc_handler_data :: ptr
  dc_history_table :: ptr
  dc_scope_index :: u32
  dc_fill0 :: u32

text \<open>A link lies on the host's stack; \<open>sl_active_handler_unwind_link\<close> is the address of the innermost
  one and the links behind it are reached through \<open>previous\<close>: the head of the list, \<open>[]\<close> for \<open>NULL\<close>.\<close>

record sl_handler_unwind_link =
  hl_address :: ptr
  hl_guest_unwind_origin :: sl_win64_context

type_synonym handler_links = "sl_handler_unwind_link list"

record 'g guest =
  gs_memory :: "'g \<Rightarrow> memory"
  gs_objects :: "'g \<Rightarrow> module_objects"
  gs_registry :: "'g \<Rightarrow> sl_module_registry"
  gs_link_address :: "'g \<Rightarrow> ptr"
  gs_call :: "'g \<Rightarrow> ptr \<Rightarrow> sl_win64_exception_record \<Rightarrow> u64 \<Rightarrow> sl_win64_context \<Rightarrow> sl_win64_dispatcher_context \<Rightarrow>
    handler_links \<Rightarrow> (32 word \<times> sl_win64_exception_record \<times> sl_win64_context \<times> handler_links \<times> 'g) option"

section \<open>Handler links\<close>

definition INT32_MIN :: "32 word" where "INT32_MIN = 0x80000000"

text \<open>\<open>given\<close> says whether the exception record, the contexts and the dispatcher context are given.\<close>

definition sl_win64_execute_handler ::
    "'g guest \<Rightarrow> 'g \<Rightarrow> ptr \<Rightarrow> bool \<Rightarrow> sl_win64_exception_record \<Rightarrow> u64 \<Rightarrow> sl_win64_context \<Rightarrow>
     sl_win64_dispatcher_context \<Rightarrow> sl_win64_context \<Rightarrow> handler_links \<Rightarrow>
     (32 word \<times> sl_win64_exception_record \<times> sl_win64_context \<times> handler_links \<times> 'g) option" where
  "sl_win64_execute_handler guest g language_handler given rcd establisher_frame handler_context dispatcher_context
       guest_unwind_origin active =
     (if language_handler = NULL \<or> \<not> given then Some (INT32_MIN, rcd, handler_context, active, g)
      else let link = \<lparr>hl_address = gs_link_address guest g, hl_guest_unwind_origin = guest_unwind_origin\<rparr>
      in case gs_call guest g language_handler rcd establisher_frame handler_context dispatcher_context
                (link # active) of
           None \<Rightarrow> None
         | Some (disposition, rcd, handler_context, links, g) \<Rightarrow>
             Some (disposition, rcd, handler_context,
               (case links of
                  innermost # _ \<Rightarrow> if hl_address innermost = hl_address link then active else []
                | [] \<Rightarrow> []), g))"

definition sl_win64_take_handler_unwind_origin ::
    "sl_win64_context option \<Rightarrow> handler_links \<Rightarrow> bool \<times> sl_win64_context option \<times> handler_links" where
  "sl_win64_take_handler_unwind_origin context_record active =
     (case (context_record, active) of
        (Some _, link # _) \<Rightarrow> (True, Some (hl_guest_unwind_origin link), [])
      | _ \<Rightarrow> (False, context_record, active))"

section \<open>The second pass\<close>

record 'g walk_state =
  ws_walking :: sl_win64_context
  ws_exception_record :: sl_win64_exception_record
  ws_links :: handler_links
  ws_guest :: 'g

text \<open>What does not change during the pass.\<close>

record walk_job =
  wj_target_frame :: u64
  wj_target_ip :: u64
  wj_return_value :: u64
  wj_history_table :: ptr
  wj_stack :: "sl_win64_stack_bounds option"
  wj_unwind_flags :: u32

definition target_result :: "walk_job \<Rightarrow> sl_win64_context \<Rightarrow> sl_win64_context" where
  "target_result job walking = walking\<lparr>cx_rax := wj_return_value job, cx_rip := wj_target_ip job\<rparr>"

text \<open>One round: the pass ends with a status and, on success, a context, or goes on with the caller.\<close>

datatype (plugins only: code size) 'g walk_outcome =
    Ended sl_status "sl_win64_context option" "'g walk_state"
  | Next_frame "'g walk_state"

definition leaf_frame :: "'g guest \<Rightarrow> walk_job \<Rightarrow> 'g walk_state \<Rightarrow> 'g walk_outcome" where
  "leaf_frame guest job ws =
     (let walking = ws_walking ws
      in if wj_target_frame job \<noteq> 0 \<and> cx_rsp walking = wj_target_frame job
         then Ended SL_OK (Some (target_result job walking)) ws
         else case sl_win64_unwind_leaf (gs_memory guest (ws_guest ws)) (Some walking) (wj_stack job) of
           Inl _ \<Rightarrow> Ended SL_ERROR_INVALID_IMAGE None ws
         | Inr c \<Rightarrow>
             if cx_rsp c \<le> cx_rsp walking then Ended SL_ERROR_INVALID_IMAGE None ws
             else Next_frame (ws\<lparr>ws_walking := c\<rparr>))"

text \<open>The call of the frame's handler, with the flag of the target frame for the time of the call.\<close>

definition call_frame_handler ::
    "'g guest \<Rightarrow> walk_job \<Rightarrow> u64 \<Rightarrow> ptr \<Rightarrow> unwind_result \<Rightarrow> bool \<Rightarrow> 'g walk_state \<Rightarrow>
     (32 word \<times> 'g walk_state) option" where
  "call_frame_handler guest job image_base function_entry r at_target ws =
     (let rcd = (if at_target
            then (ws_exception_record ws)\<lparr>er_exception_flags :=
              er_exception_flags (ws_exception_record ws) OR SL_WIN64_EXCEPTION_TARGET_UNWIND\<rparr>
            else ws_exception_record ws);
          control_pc = cx_rip (ws_walking ws);
          walking = (ws_walking ws)\<lparr>cx_rax := wj_return_value job\<rparr>;
          dispatcher = \<lparr>dc_control_pc = control_pc, dc_image_base = image_base,
            dc_function_entry = function_entry, dc_establisher_frame = ur_establisher_frame r,
            dc_target_ip = wj_target_ip job, dc_language_handler = ur_language_handler r,
            dc_handler_data = ur_handler_data r, dc_history_table = wj_history_table job,
            dc_scope_index = 0, dc_fill0 = 0\<rparr>
      in case sl_win64_execute_handler guest (ws_guest ws) (ur_language_handler r) True rcd
                (ur_establisher_frame r) walking dispatcher walking (ws_links ws) of
           None \<Rightarrow> None
         | Some (disposition, rcd, walking, links, g) \<Rightarrow>
             Some (disposition, \<lparr>ws_walking = walking,
               ws_exception_record = rcd\<lparr>er_exception_flags := wj_unwind_flags job\<rparr>,
               ws_links = links, ws_guest = g\<rparr>))"

text \<open>What follows the unwinding of a frame with a function entry: \<open>r\<close> is the caller's context.\<close>

definition table_frame ::
    "'g guest \<Rightarrow> walk_job \<Rightarrow> u64 \<Rightarrow> ptr \<Rightarrow> unwind_result \<Rightarrow> 'g walk_state \<Rightarrow> 'g walk_outcome option" where
  "table_frame guest job image_base function_entry r ws =
     (let establisher_frame = ur_establisher_frame r;
          at_target = (wj_target_frame job \<noteq> 0 \<and> establisher_frame = wj_target_frame job);
          leave = (\<lambda>ws. if at_target then Ended SL_OK (Some (target_result job (ws_walking ws))) ws
                        else Next_frame (ws\<lparr>ws_walking := ur_context r\<rparr>))
      in if cx_rsp (ur_context r) \<le> cx_rsp (ws_walking ws) \<or> \<not> stack_frame_is_valid (wj_stack job) establisher_frame
         then Some (Ended SL_ERROR_INVALID_IMAGE None ws)
         else if wj_target_frame job \<noteq> 0 \<and> establisher_frame > wj_target_frame job
         then Some (Ended SL_ERROR_INVALID_STATE None ws)
         else if ur_language_handler r = NULL then Some (leave ws)
         else (case call_frame_handler guest job image_base function_entry r at_target ws of
                 None \<Rightarrow> None
               | Some (disposition, ws) \<Rightarrow>
                   Some (if disposition \<noteq> SL_WIN64_EXCEPTION_DISPOSITION_CONTINUE_SEARCH
                         then Ended (if disposition = SL_WIN64_EXCEPTION_DISPOSITION_COLLIDED_UNWIND
                                     then SL_ERROR_NOT_IMPLEMENTED else SL_ERROR_INVALID_STATE) None ws
                         else leave ws)))"

definition walk_frame :: "'g guest \<Rightarrow> walk_job \<Rightarrow> 'g walk_state \<Rightarrow> 'g walk_outcome option" where
  "walk_frame guest job ws =
     (let g = ws_guest ws; objects = gs_objects guest g; registry = Some (gs_registry guest g);
          walking = ws_walking ws
      in if \<not> stack_frame_is_valid (wj_stack job) (cx_rsp walking)
         then Some (Ended SL_ERROR_INVALID_IMAGE None ws)
         else case sl_module_registry_resolve_address objects registry (cx_rip walking) of
           Inl _ \<Rightarrow> Some (Ended (if wj_target_frame job = 0 then SL_ERROR_NOT_IMPLEMENTED
                                else SL_ERROR_INVALID_STATE) None ws)
         | Inr containing_module \<Rightarrow>
        (case sl_win64_lookup_function_entry objects registry (cx_rip walking) True of
           None \<Rightarrow> None
         | Some (Inl lookup_status) \<Rightarrow>
             Some (if lookup_status = SL_ERROR_ADDRESS_OUT_OF_RANGE then leaf_frame guest job ws
                   else Ended lookup_status None ws)
         | Some (Inr (image_base, function_entry, function_module)) \<Rightarrow>
             if function_module \<noteq> containing_module then Some (Ended SL_OK None ws)
             else (case sl_win64_virtual_unwind (gs_memory guest g) objects
                          (Some (rg_modules (gs_registry guest g) ! function_module)) SL_WIN64_UNW_FLAG_UHANDLER
                          (cx_rip walking) function_entry (Some walking) (wj_stack job) True None of
                     None \<Rightarrow> None
                   | Some (Inl unwind_status) \<Rightarrow> Some (Ended unwind_status None ws)
                   | Some (Inr r) \<Rightarrow> table_frame guest job image_base function_entry r ws)))"

function walk_frames ::
    "'g guest \<Rightarrow> walk_job \<Rightarrow> nat \<Rightarrow> 'g walk_state \<Rightarrow> (sl_status \<times> sl_win64_context option \<times> 'g walk_state) option" where
  "walk_frames guest job depth ws =
     (if depth < 256
      then (case walk_frame guest job ws of
              None \<Rightarrow> None
            | Some (Ended status target ws) \<Rightarrow> Some (status, target, ws)
            | Some (Next_frame ws) \<Rightarrow> walk_frames guest job (depth + 1) ws)
      else Some (SL_ERROR_FORWARDER_LIMIT, None, ws))"
  by pat_completeness auto
termination
  by (relation "measure (\<lambda>(guest, job, depth, ws). 256 - depth)") auto

declare walk_frames.simps [simp del]

text \<open>The flags of the pass.\<close>

definition pass_flags :: "u32 \<Rightarrow> u64 \<Rightarrow> u32" where
  "pass_flags flags target_frame = (flags AND SL_WIN64_EXCEPTION_NONCONTINUABLE) OR SL_WIN64_EXCEPTION_UNWINDING OR
     (if target_frame = 0 then SL_WIN64_EXCEPTION_EXIT_UNWIND else 0)"

text \<open>\<open>given\<close> says whether the registry, the exception record and \<open>target_context\<close> are given. The results
  are the status, what is written to \<open>*target_context\<close>, the exception record, the links and the guest.\<close>

definition sl_win64_unwind_to_frame ::
    "'g guest \<Rightarrow> 'g \<Rightarrow> bool \<Rightarrow> u64 \<Rightarrow> u64 \<Rightarrow> sl_win64_exception_record \<Rightarrow> u64 \<Rightarrow> sl_win64_context option \<Rightarrow>
     ptr \<Rightarrow> sl_win64_stack_bounds option \<Rightarrow> handler_links \<Rightarrow>
     (sl_status \<times> sl_win64_context option \<times> sl_win64_exception_record \<times> handler_links \<times> 'g) option" where
  "sl_win64_unwind_to_frame guest g given target_frame target_ip rcd return_value context_record history_table
       stack links =
     (case context_record of
        None \<Rightarrow> Some (SL_ERROR_INVALID_ARGUMENT, None, rcd, links, g)
      | Some context \<Rightarrow>
          if \<not> given \<or> stack = None \<or> \<not> stack_frame_is_valid stack (cx_rsp context) \<or>
             (target_frame \<noteq> 0 \<and> (\<not> stack_frame_is_valid stack target_frame \<or>
                target_frame < cx_rsp context \<or> target_ip = 0))
          then Some (SL_ERROR_INVALID_ARGUMENT, None, rcd, links, g)
          else if target_frame \<noteq> 0 \<and>
                  (case sl_module_registry_resolve_address (gs_objects guest g) (Some (gs_registry guest g)) target_ip of
                     Inl _ \<Rightarrow> True
                   | Inr target_module \<Rightarrow> md_kind (rg_modules (gs_registry guest g) ! target_module) \<noteq> SL_MODULE_PE)
          then Some (SL_ERROR_ADDRESS_OUT_OF_RANGE, None, rcd, links, g)
          else let unwind_flags = pass_flags (er_exception_flags rcd) target_frame;
                   job = \<lparr>wj_target_frame = target_frame, wj_target_ip = target_ip,
                     wj_return_value = return_value, wj_history_table = history_table, wj_stack = stack,
                     wj_unwind_flags = unwind_flags\<rparr>;
                   start = \<lparr>ws_walking = context, ws_exception_record = rcd\<lparr>er_exception_flags := unwind_flags\<rparr>,
                     ws_links = links, ws_guest = g\<rparr>
               in (case walk_frames guest job 0 start of
                     None \<Rightarrow> None
                   | Some (status, target, ws) \<Rightarrow>
                       Some (status, target, ws_exception_record ws, ws_links ws, ws_guest ws)))"

end
