(* ===== verification/Unwind_Pass.thy ===== *)
theory Unwind_Pass
  imports Unwind_Walk
begin

text \<open>
  The second pass: it returns when the handlers return, calls them only for valid frames up to the
  target, and succeeds only with the context the caller asked for.
\<close>

text \<open>What the guest must promise of its handlers to keep an invariant: they are called with a valid
  frame at or below the target and with the flags of the pass.\<close>

definition handlers_keep ::
    "'g guest \<Rightarrow> sl_win64_stack_bounds option \<Rightarrow> u64 \<Rightarrow> u32 \<Rightarrow> ('g \<Rightarrow> bool) \<Rightarrow> bool" where
  "handlers_keep guest stack target_frame flags I \<longleftrightarrow>
     (\<forall>g handler rcd frame c d links.
        I g \<and> stack_frame_is_valid stack frame \<and> (target_frame \<noteq> 0 \<longrightarrow> frame \<le> target_frame) \<and>
        er_exception_flags rcd =
          (if target_frame \<noteq> 0 \<and> frame = target_frame then flags OR SL_WIN64_EXCEPTION_TARGET_UNWIND else flags) \<longrightarrow>
        (\<exists>disposition rcd' c' links' g'.
           gs_call guest g handler rcd frame c d links = Some (disposition, rcd', c', links', g') \<and> I g'))"

lemma handlers_keep_call:
  assumes "handlers_keep guest stack target_frame flags I" "I g" "stack_frame_is_valid stack frame"
    and "target_frame \<noteq> 0 \<longrightarrow> frame \<le> target_frame"
    and "er_exception_flags rcd =
      (if target_frame \<noteq> 0 \<and> frame = target_frame then flags OR SL_WIN64_EXCEPTION_TARGET_UNWIND else flags)"
  obtains disposition rcd' c' links' g' where
    "gs_call guest g handler rcd frame c d links = Some (disposition, rcd', c', links', g')" "I g'"
  using assms unfolding handlers_keep_def by blast

text \<open>A handler that runs to its end leaves the links of its caller, or none if they were consumed.\<close>

lemma execute_handler_returns:
  assumes "gs_call guest g handler rcd frame c d
      (\<lparr>hl_address = gs_link_address guest g, hl_guest_unwind_origin = origin\<rparr> # links) =
      Some (disposition, rcd', c', links', g')" "handler \<noteq> NULL"
  shows "\<exists>kept. sl_win64_execute_handler guest g handler True rcd frame c d origin links =
      Some (disposition, rcd', c', kept, g') \<and> (kept = links \<or> kept = [])"
  using assms by (auto simp: sl_win64_execute_handler_def split: list.split)

section \<open>One frame\<close>

definition walk_ok :: "walk_job \<Rightarrow> ('g \<Rightarrow> bool) \<Rightarrow> handler_links \<Rightarrow> 'g walk_state \<Rightarrow> bool" where
  "walk_ok job I links ws \<longleftrightarrow> I (ws_guest ws) \<and> (ws_links ws = links \<or> ws_links ws = []) \<and>
     er_exception_flags (ws_exception_record ws) = wj_unwind_flags job"

definition outcome_ok :: "walk_job \<Rightarrow> ('g \<Rightarrow> bool) \<Rightarrow> handler_links \<Rightarrow> u64 \<Rightarrow> 'g walk_outcome \<Rightarrow> bool" where
  "outcome_ok job I links rsp r = (case r of
     Ended status target ws \<Rightarrow> walk_ok job I links ws \<and> (status = SL_OK \<longleftrightarrow> target \<noteq> None) \<and>
       (\<forall>c. target = Some c \<longrightarrow> wj_target_frame job \<noteq> 0 \<and> cx_rip c = wj_target_ip job \<and> cx_rax c = wj_return_value job)
   | Next_frame ws \<Rightarrow> walk_ok job I links ws \<and> rsp < cx_rsp (ws_walking ws))"

lemma target_result_fields:
  "cx_rip (target_result job c) = wj_target_ip job" "cx_rax (target_result job c) = wj_return_value job"
  by (simp_all add: target_result_def)

lemma leaf_frame_ok:
  "walk_ok job I links ws \<Longrightarrow> outcome_ok job I links (cx_rsp (ws_walking ws)) (leaf_frame guest job ws)"
  by (auto simp: leaf_frame_def outcome_ok_def walk_ok_def target_result_fields Let_def split: sum.split)

lemma call_frame_handler_ok:
  assumes "handlers_keep guest (wj_stack job) (wj_target_frame job) (wj_unwind_flags job) I" "walk_ok job I links ws"
    and "stack_frame_is_valid (wj_stack job) (ur_establisher_frame r)"
    and "wj_target_frame job \<noteq> 0 \<longrightarrow> ur_establisher_frame r \<le> wj_target_frame job"
    and "ur_language_handler r \<noteq> NULL"
    and "at_target \<longleftrightarrow> wj_target_frame job \<noteq> 0 \<and> ur_establisher_frame r = wj_target_frame job"
  shows "\<exists>disposition ws'. call_frame_handler guest job image_base function_entry r at_target ws =
      Some (disposition, ws') \<and> walk_ok job I links ws'"
proof -
  let ?rcd = "if at_target then (ws_exception_record ws)\<lparr>er_exception_flags :=
      er_exception_flags (ws_exception_record ws) OR SL_WIN64_EXCEPTION_TARGET_UNWIND\<rparr> else ws_exception_record ws"
  let ?c = "(ws_walking ws)\<lparr>cx_rax := wj_return_value job\<rparr>"
  let ?d = "\<lparr>dc_control_pc = cx_rip (ws_walking ws), dc_image_base = image_base,
            dc_function_entry = function_entry, dc_establisher_frame = ur_establisher_frame r,
            dc_target_ip = wj_target_ip job, dc_language_handler = ur_language_handler r,
            dc_handler_data = ur_handler_data r, dc_history_table = wj_history_table job,
            dc_scope_index = 0, dc_fill0 = 0\<rparr>"
  let ?link = "\<lparr>hl_address = gs_link_address guest (ws_guest ws), hl_guest_unwind_origin = ?c\<rparr>"
  have "I (ws_guest ws)" "er_exception_flags ?rcd = (if wj_target_frame job \<noteq> 0 \<and> ur_establisher_frame r = wj_target_frame job
      then wj_unwind_flags job OR SL_WIN64_EXCEPTION_TARGET_UNWIND else wj_unwind_flags job)"
    using assms(2,6) by (auto simp: walk_ok_def)
  then obtain disposition rcd' c' links' g' where
      call: "gs_call guest (ws_guest ws) (ur_language_handler r) ?rcd (ur_establisher_frame r) ?c ?d (?link # ws_links ws) =
        Some (disposition, rcd', c', links', g')" "I g'"
    using handlers_keep_call [OF assms(1) _ assms(3,4)] by metis
  then obtain kept where "sl_win64_execute_handler guest (ws_guest ws) (ur_language_handler r) True ?rcd
      (ur_establisher_frame r) ?c ?d ?c (ws_links ws) = Some (disposition, rcd', c', kept, g')"
      "kept = ws_links ws \<or> kept = []"
    using execute_handler_returns [OF call(1) assms(5)] by blast
  then show ?thesis
    using call(2) assms(2) by (auto simp: call_frame_handler_def Let_def walk_ok_def)
qed

lemma table_frame_ok:
  assumes "handlers_keep guest (wj_stack job) (wj_target_frame job) (wj_unwind_flags job) I" "walk_ok job I links ws"
  shows "\<exists>o'. table_frame guest job image_base function_entry r ws = Some o' \<and>
    outcome_ok job I links (cx_rsp (ws_walking ws)) o'"
proof -
  let ?at = "wj_target_frame job \<noteq> 0 \<and> ur_establisher_frame r = wj_target_frame job"
  let ?bad = "cx_rsp (ur_context r) \<le> cx_rsp (ws_walking ws) \<or> \<not> stack_frame_is_valid (wj_stack job) (ur_establisher_frame r)"
  let ?past = "wj_target_frame job \<noteq> 0 \<and> ur_establisher_frame r > wj_target_frame job"
  consider "?bad" | "\<not> ?bad" "?past" | "\<not> ?bad" "\<not> ?past" "ur_language_handler r = NULL"
    | "\<not> ?bad" "\<not> ?past" "ur_language_handler r \<noteq> NULL"
    by blast
  then show ?thesis
  proof cases
    case 4
    have below: "wj_target_frame job \<noteq> 0 \<longrightarrow> ur_establisher_frame r \<le> wj_target_frame job"
      using 4(2) by (auto simp: not_less)
    have valid: "stack_frame_is_valid (wj_stack job) (ur_establisher_frame r)"
      using 4(1) by blast
    obtain disposition ws' where "call_frame_handler guest job image_base function_entry r ?at ws = Some (disposition, ws')"
        "walk_ok job I links ws'"
      using call_frame_handler_ok [OF assms valid below 4(3) refl] by blast
    then show ?thesis
      using 4 by (auto simp: table_frame_def Let_def outcome_ok_def walk_ok_def target_result_fields)
  qed (use assms(2) in \<open>auto simp: table_frame_def Let_def outcome_ok_def walk_ok_def target_result_fields\<close>)
qed

text \<open>Both lookups of the address find the same module.\<close>

lemma lookup_same_module:
  assumes "list_all (backed objects) (rg_modules r)"
    and "sl_win64_lookup_function_entry objects (Some r) pc True = Some (Inr (base, entry, index))"
  shows "sl_module_registry_resolve_address objects (Some r) pc = Inr index"
  using assms lookup_function_entry_exact(2) by blast

section \<open>A failure has a status of its own\<close>

definition not_ok :: "'a result option \<Rightarrow> bool" where
  "not_ok r \<longleftrightarrow> r \<noteq> Some (Inl SL_OK)"

lemma not_ok_rules:
  "not_ok None"
  "not_ok (Some (Inr x))"
  "SL_OK \<noteq> status \<Longrightarrow> not_ok (Some (Inl status))"
  "(b \<Longrightarrow> not_ok r) \<Longrightarrow> (\<not> b \<Longrightarrow> not_ok r') \<Longrightarrow> not_ok (if b then r else r')"
  "(v = None \<Longrightarrow> not_ok r) \<Longrightarrow> (\<And>y. v = Some y \<Longrightarrow> not_ok (f y)) \<Longrightarrow> not_ok (case v of None \<Rightarrow> r | Some y \<Rightarrow> f y)"
  "(\<And>x. w = Inl x \<Longrightarrow> not_ok (g x)) \<Longrightarrow> (\<And>y. w = Inr y \<Longrightarrow> not_ok (h y)) \<Longrightarrow>
     not_ok (case w of Inl x \<Rightarrow> g x | Inr y \<Rightarrow> h y)"
  "(\<And>x y. p = (x, y) \<Longrightarrow> not_ok (k x y)) \<Longrightarrow> not_ok (case p of (x, y) \<Rightarrow> k x y)"
  "(c \<Longrightarrow> not_ok r) \<Longrightarrow> (\<not> c \<Longrightarrow> not_ok r') \<Longrightarrow> not_ok (case c of True \<Rightarrow> r | False \<Rightarrow> r')"
  by (auto simp: not_ok_def split: option.split sum.split prod.split bool.splits)

lemma lookup_entries_status: "not_ok (lookup_entries data img table n pc index previous_end match)"
proof (induction data img table n pc index previous_end match rule: lookup_entries.induct)
  case (1 data img table n pc index previous_end match)
  show ?case
    unfolding lookup_entries.simps [of data img table n pc index previous_end match] Let_def
    by (intro not_ok_rules) (use 1 in simp_all)
qed

lemma lookup_status: "not_ok (sl_win64_lookup_function_entry objects registry pc outs)"
proof -
  have "SL_OK \<noteq> status" if "lookup_entries data img table n pc index previous_end match = Some (Inl status)"
    for data img table n pc index previous_end match status
    using lookup_entries_status [of data img table n pc index previous_end match] that by (auto simp: not_ok_def)
  then show ?thesis
    unfolding sl_win64_lookup_function_entry_def Let_def by (intro not_ok_rules) simp_all
qed

lemma validate_chain_status: "not_ok (validate_chain objects m entry first depth)"
proof (induction objects m entry first depth rule: validate_chain.induct)
  case (1 objects m entry first depth)
  show ?case
    unfolding validate_chain.simps [of objects m entry first depth] Let_def
    by (intro not_ok_rules) (use 1 in \<open>simp_all add: not_ok_def\<close>)
qed

lemma unwind_records_status:
  "not_ok (unwind_records memory objects m t pc stack entry a f depth s)"
proof (induction memory objects m t pc stack entry a f depth s rule: unwind_records.induct)
  case (1 memory objects m t pc stack entry a f depth s)
  have base: "SL_OK \<noteq> status" if "frame_base_of rec b po c = Some (Inl status)" for rec b po c status
    using that by (auto simp: frame_base_of_def Let_def split: option.splits bool.splits bind_splits if_splits)
  have handler: "SL_OK \<noteq> status" if "language_handler_of objects m rec a t = Some (Inl status)" for rec a status
    using that by (auto simp: language_handler_of_def split: option.splits bind_splits if_splits)
  have finish: "not_ok (Some (finish_frame memory stack h f s))" for h f s
    by (auto simp: not_ok_def finish_frame_def split: option.splits)
  show ?case
    unfolding unwind_records.simps [of memory objects m t pc stack entry a f depth s] Let_def
    by (intro not_ok_rules)
      (erule base handler | rule finish | rule 1; (assumption | rule refl) | simp)+
qed

lemma virtual_unwind_status:
  "not_ok (sl_win64_virtual_unwind memory objects module t pc p c stack outs cp)"
proof -
  have chain: "SL_OK \<noteq> status" if "validate_unwind_chain objects m entry = Some (Inl status)" for m entry status
    using that validate_chain_status [of objects m entry None 0] by (auto simp: validate_unwind_chain_def not_ok_def)
  have base: "SL_OK \<noteq> status" if "frame_base_of rec b po c = Some (Inl status)" for rec b po c status
    using that by (auto simp: frame_base_of_def Let_def split: option.splits bool.splits bind_splits if_splits)
  have epilogue: "SL_OK \<noteq> status" if "unwind_epilogue memory objects m entry rec pc stack s = Some (Inl status)"
    for m entry rec s status
    using that by (auto simp: unwind_epilogue_def split: option.splits if_splits)
  have frame: "not_ok (unwind_function memory objects m t pc entry c stack cp)" for m entry c
    unfolding unwind_function_def Let_def
    by (intro not_ok_rules) (erule chain base epilogue | rule unwind_records_status | simp)+
  show ?thesis
    unfolding sl_win64_virtual_unwind_def Let_def by (intro not_ok_rules frame) simp_all
qed

section \<open>The pass\<close>

lemma walk_frame_ok:
  assumes "\<And>g. list_all (backed (gs_objects guest g)) (rg_modules (gs_registry guest g))"
    and "handlers_keep guest (wj_stack job) (wj_target_frame job) (wj_unwind_flags job) I" "walk_ok job I links ws"
  shows "\<exists>o'. walk_frame guest job ws = Some o' \<and> outcome_ok job I links (cx_rsp (ws_walking ws)) o'"
proof -
  let ?g = "ws_guest ws"
  let ?objects = "gs_objects guest ?g" and ?r = "gs_registry guest ?g" and ?pc = "cx_rip (ws_walking ws)"
  note def = walk_frame_def Let_def
  have ended: ?thesis if "walk_frame guest job ws = Some (Ended status None ws)" "SL_OK \<noteq> status" for status
    using that assms(3) by (auto simp: outcome_ok_def)
  show ?thesis
  proof (cases "stack_frame_is_valid (wj_stack job) (cx_rsp (ws_walking ws))")
    case False
    then show ?thesis
      by (intro ended [of SL_ERROR_INVALID_IMAGE]) (simp_all add: def)
  next
    case valid: True
    show ?thesis
    proof (cases "sl_module_registry_resolve_address ?objects (Some ?r) ?pc")
      case (Inl status)
      then show ?thesis
        using valid by (intro ended [of "if wj_target_frame job = 0 then SL_ERROR_NOT_IMPLEMENTED
          else SL_ERROR_INVALID_STATE"]) (simp_all add: def)
    next
      case (Inr containing)
      obtain l where l: "sl_win64_lookup_function_entry ?objects (Some ?r) ?pc True = Some l"
        using lookup_function_entry_exact(1) [OF assms(1)] by blast
      show ?thesis
      proof (cases l)
        case status: (Inl status)
        have "SL_OK \<noteq> status"
          using lookup_status [of ?objects "Some ?r" ?pc True] l status by (auto simp: not_ok_def)
        then show ?thesis
          using valid Inr l status ended [of status] leaf_frame_ok [OF assms(3)]
          by (cases "status = SL_ERROR_ADDRESS_OUT_OF_RANGE") (simp_all add: def)
      next
        case found: (Inr t)
        obtain base entry index where t: "t = (base, entry, index)"
          by (cases t)
        have same: "index = containing"
          using lookup_same_module [OF assms(1) l [unfolded found t]] Inr by simp
        let ?m = "rg_modules ?r ! index"
        have "backed ?objects ?m"
          using assms(1) [of ?g] resolve_address_Inr(1) [OF Inr] same by (simp add: list_all_length)
        then obtain u where u: "sl_win64_virtual_unwind (gs_memory guest ?g) ?objects (Some ?m) SL_WIN64_UNW_FLAG_UHANDLER
            ?pc entry (Some (ws_walking ws)) (wj_stack job) True None = Some u"
          using virtual_unwind_total [of "Some ?m" ?objects] by blast
        show ?thesis
        proof (cases u)
          case status: (Inl status)
          have "SL_OK \<noteq> status"
            using virtual_unwind_status [of "gs_memory guest ?g" ?objects "Some ?m" SL_WIN64_UNW_FLAG_UHANDLER
              ?pc entry "Some (ws_walking ws)" "wj_stack job" True None] u status by (auto simp: not_ok_def)
          then show ?thesis
            using valid Inr l found t same u status by (intro ended [of status]) (simp_all add: def)
        next
          case r: (Inr r)
          then show ?thesis
            using valid Inr l found t same u table_frame_ok [OF assms(2,3)] by (simp add: def)
        qed
      qed
    qed
  qed
qed

lemma walk_frames_ok:
  assumes "\<And>g. list_all (backed (gs_objects guest g)) (rg_modules (gs_registry guest g))"
    and "handlers_keep guest (wj_stack job) (wj_target_frame job) (wj_unwind_flags job) I" "walk_ok job I links ws"
  shows "\<exists>status target ws'. walk_frames guest job depth ws = Some (status, target, ws') \<and>
    outcome_ok job I links 0 (Ended status target ws')"
  using assms
proof (induction guest job depth ws rule: walk_frames.induct)
  case (1 guest job depth ws)
  note unfolded = walk_frames.simps [of guest job depth ws]
  show ?case
  proof (cases "depth < 256")
    case False
    then show ?thesis
      using 1(4) by (simp add: unfolded outcome_ok_def)
  next
    case True
    obtain o' where o': "walk_frame guest job ws = Some o'" "outcome_ok job I links (cx_rsp (ws_walking ws)) o'"
      using walk_frame_ok [OF 1(2-4)] by blast
    show ?thesis
    proof (cases o')
      case (Ended status target ws')
      then show ?thesis
        using True o' by (simp add: unfolded outcome_ok_def)
    next
      case (Next_frame ws')
      then have "walk_ok job I links ws'"
        using o'(2) by (simp add: outcome_ok_def)
      then show ?thesis
        using 1(1) [OF True o'(1) Next_frame 1(2,3)] True o'(1) Next_frame by (simp add: unfolded)
    qed
  qed
qed

lemma unwind_to_frame_returns:
  assumes "\<And>g. list_all (backed (gs_objects guest g)) (rg_modules (gs_registry guest g))"
    and "handlers_keep guest stack target_frame (pass_flags (er_exception_flags rcd) target_frame) I" "I g"
  shows "\<exists>status target rcd' links' g'. sl_win64_unwind_to_frame guest g given target_frame target_ip rcd return_value
      context_record history_table stack links = Some (status, target, rcd', links', g') \<and>
    I g' \<and> (links' = links \<or> links' = []) \<and> (status = SL_OK \<longleftrightarrow> target \<noteq> None) \<and>
    (\<forall>c. target = Some c \<longrightarrow> target_frame \<noteq> 0 \<and> cx_rip c = target_ip \<and> cx_rax c = return_value \<and>
       er_exception_flags rcd' = pass_flags (er_exception_flags rcd) target_frame)"
proof -
  have refused: ?thesis if "sl_win64_unwind_to_frame guest g given target_frame target_ip rcd return_value
      context_record history_table stack links = Some (status, None, rcd, links, g)" "status \<noteq> SL_OK" for status
    using that assms(3) by simp
  show ?thesis
  proof (cases context_record)
    case None
    then show ?thesis
      by (intro refused [of SL_ERROR_INVALID_ARGUMENT]) (simp_all add: sl_win64_unwind_to_frame_def)
  next
    case (Some c)
    let ?bad = "\<not> given \<or> stack = None \<or> \<not> stack_frame_is_valid stack (cx_rsp c) \<or>
      (target_frame \<noteq> 0 \<and> (\<not> stack_frame_is_valid stack target_frame \<or> target_frame < cx_rsp c \<or> target_ip = 0))"
    let ?outside = "target_frame \<noteq> 0 \<and>
      (case sl_module_registry_resolve_address (gs_objects guest g) (Some (gs_registry guest g)) target_ip of
         Inl _ \<Rightarrow> True
       | Inr target_module \<Rightarrow> md_kind (rg_modules (gs_registry guest g) ! target_module) \<noteq> SL_MODULE_PE)"
    let ?flags = "pass_flags (er_exception_flags rcd) target_frame"
    let ?job = "\<lparr>wj_target_frame = target_frame, wj_target_ip = target_ip,
       wj_return_value = return_value, wj_history_table = history_table, wj_stack = stack, wj_unwind_flags = ?flags\<rparr>"
    let ?start = "\<lparr>ws_walking = c, ws_exception_record = rcd\<lparr>er_exception_flags := ?flags\<rparr>, ws_links = links, ws_guest = g\<rparr>"
    note def = sl_win64_unwind_to_frame_def Some option.case Let_def
    consider "?bad" | "\<not> ?bad" "?outside" | "\<not> ?bad" "\<not> ?outside"
      by blast
    then show ?thesis
    proof cases
      case 3
      have "handlers_keep guest (wj_stack ?job) (wj_target_frame ?job) (wj_unwind_flags ?job) I" "walk_ok ?job I links ?start"
        using assms(2,3) by (simp_all add: walk_ok_def)
      then obtain status target ws where w: "walk_frames guest ?job 0 ?start = Some (status, target, ws)"
          "outcome_ok ?job I links 0 (Ended status target ws)"
        using walk_frames_ok [OF assms(1), of ?job I links ?start 0] by blast
      moreover have "sl_win64_unwind_to_frame guest g given target_frame target_ip rcd return_value
          context_record history_table stack links =
          Some (status, target, ws_exception_record ws, ws_links ws, ws_guest ws)"
        unfolding def using 3 w(1) by (simp only: if_False option.case prod.case)
      ultimately show ?thesis
        by (auto simp: outcome_ok_def walk_ok_def)
    next
      case 1
      show ?thesis
      proof (rule refused [of SL_ERROR_INVALID_ARGUMENT])
        show "sl_win64_unwind_to_frame guest g given target_frame target_ip rcd return_value
            context_record history_table stack links = Some (SL_ERROR_INVALID_ARGUMENT, None, rcd, links, g)"
          unfolding def using 1 by (simp only: if_True)
      qed simp
    next
      case 2
      show ?thesis
      proof (rule refused [of SL_ERROR_ADDRESS_OUT_OF_RANGE])
        show "sl_win64_unwind_to_frame guest g given target_frame target_ip rcd return_value
            context_record history_table stack links = Some (SL_ERROR_ADDRESS_OUT_OF_RANGE, None, rcd, links, g)"
          unfolding def using 2 by (simp only: if_True if_False simp_thms)
      qed simp
    qed
  qed
qed

end
