(* ===== verification/Unwind_Target.thy ===== *)
theory Unwind_Target
  imports Unwind_Pass
begin

text \<open>
  Where a pass that succeeds has got to: the frames of the stack, defined over the lookup of function entries and the
  unwinding of one frame, without the loop of the pass, and the lemmas that the pass follows them up to the target.
\<close>

section \<open>The frames of a stack\<close>

text \<open>The address of a leaf function has no function entry; other functions are unwound by their entry.\<close>

definition is_leaf :: "'g guest \<Rightarrow> 'g \<Rightarrow> sl_win64_context \<Rightarrow> bool" where
  "is_leaf guest g c \<longleftrightarrow> sl_win64_lookup_function_entry (gs_objects guest g) (Some (gs_registry guest g)) (cx_rip c) True =
     Some (Inl SL_ERROR_ADDRESS_OUT_OF_RANGE)"

definition unwinds_to :: "'g guest \<Rightarrow> walk_job \<Rightarrow> 'g \<Rightarrow> sl_win64_context \<Rightarrow> u64 \<Rightarrow> ptr \<Rightarrow> unwind_result \<Rightarrow> bool" where
  "unwinds_to guest job g c image_base function_entry r \<longleftrightarrow>
     (\<exists>function_module. sl_win64_lookup_function_entry (gs_objects guest g) (Some (gs_registry guest g)) (cx_rip c) True =
        Some (Inr (image_base, function_entry, function_module)) \<and>
      sl_win64_virtual_unwind (gs_memory guest g) (gs_objects guest g) (Some (rg_modules (gs_registry guest g) ! function_module))
        SL_WIN64_UNW_FLAG_UHANDLER (cx_rip c) function_entry (Some c) (wj_stack job) True None = Some (Inr r))"

definition is_target :: "walk_job \<Rightarrow> u64 \<Rightarrow> bool" where
  "is_target job frame \<longleftrightarrow> wj_target_frame job \<noteq> 0 \<and> frame = wj_target_frame job"

text \<open>The handler of the frame was called as the Windows API documents it, and went on to the next frame.\<close>

definition handler_goes_on ::
    "'g guest \<Rightarrow> walk_job \<Rightarrow> 'g \<Rightarrow> sl_win64_context \<Rightarrow> u64 \<Rightarrow> ptr \<Rightarrow> unwind_result \<Rightarrow> sl_win64_context \<Rightarrow> 'g \<Rightarrow> bool" where
  "handler_goes_on guest job g c image_base function_entry r c' g' \<longleftrightarrow>
     (\<exists>rcd dispatcher links rcd' links'.
        gs_call guest g (ur_language_handler r) rcd (ur_establisher_frame r) (c\<lparr>cx_rax := wj_return_value job\<rparr>) dispatcher links =
          Some (SL_WIN64_EXCEPTION_DISPOSITION_CONTINUE_SEARCH, rcd', c', links', g') \<and>
        er_exception_flags rcd = (if is_target job (ur_establisher_frame r)
          then wj_unwind_flags job OR SL_WIN64_EXCEPTION_TARGET_UNWIND else wj_unwind_flags job) \<and>
        dc_control_pc dispatcher = cx_rip c \<and> dc_image_base dispatcher = image_base \<and>
        dc_function_entry dispatcher = function_entry \<and> dc_establisher_frame dispatcher = ur_establisher_frame r \<and>
        dc_target_ip dispatcher = wj_target_ip job \<and> dc_language_handler dispatcher = ur_language_handler r \<and>
        dc_handler_data dispatcher = ur_handler_data r \<and> dc_history_table dispatcher = wj_history_table job)"

text \<open>The frame a context stands in, and what its handler, if it has one, leaves of the context and the guest.\<close>

inductive frame_of :: "'g guest \<Rightarrow> walk_job \<Rightarrow> sl_win64_context \<Rightarrow> 'g \<Rightarrow> u64 \<Rightarrow> sl_win64_context \<Rightarrow> 'g \<Rightarrow> bool"
  for guest job c g where
  frame_leaf: "is_leaf guest g c \<Longrightarrow> frame_of guest job c g (cx_rsp c) c g"
| frame_plain: "unwinds_to guest job g c image_base function_entry r \<Longrightarrow> ur_language_handler r = NULL \<Longrightarrow>
    frame_of guest job c g (ur_establisher_frame r) c g"
| frame_handled: "unwinds_to guest job g c image_base function_entry r \<Longrightarrow> ur_language_handler r \<noteq> NULL \<Longrightarrow>
    handler_goes_on guest job g c image_base function_entry r c' g' \<Longrightarrow>
    frame_of guest job c g (ur_establisher_frame r) c' g'"

text \<open>The context of the caller: a leaf function has only its return address on the stack.\<close>

inductive caller_of :: "'g guest \<Rightarrow> walk_job \<Rightarrow> sl_win64_context \<Rightarrow> 'g \<Rightarrow> sl_win64_context \<Rightarrow> bool"
  for guest job c g where
  caller_leaf: "is_leaf guest g c \<Longrightarrow> load_u64 (memory_bytes (gs_memory guest g) (cx_rsp c) 8) 0 = Some return_address \<Longrightarrow>
    caller_of guest job c g (c\<lparr>cx_rsp := cx_rsp c + 8, cx_rip := return_address\<rparr>)"
| caller_table: "unwinds_to guest job g c image_base function_entry r \<Longrightarrow> caller_of guest job c g (ur_context r)"

text \<open>From one frame that is not the target to its caller, up the stack.\<close>

definition passes_frame :: "'g guest \<Rightarrow> walk_job \<Rightarrow> sl_win64_context \<times> 'g \<Rightarrow> sl_win64_context \<times> 'g \<Rightarrow> bool" where
  "passes_frame guest job s s' \<longleftrightarrow> (case (s, s') of ((c, g), (c', g')) \<Rightarrow>
     (\<exists>frame left. frame_of guest job c g frame left g' \<and> \<not> is_target job frame) \<and> caller_of guest job c g c' \<and>
     cx_rsp c < cx_rsp c')"

text \<open>The context \<open>c\<close> and the guest \<open>g'\<close> are those of the target, which lies \<open>n\<close> frames up from the start.\<close>

definition at_target :: "'g guest \<Rightarrow> walk_job \<Rightarrow> nat \<Rightarrow> sl_win64_context \<Rightarrow> 'g \<Rightarrow> sl_win64_context \<Rightarrow> 'g \<Rightarrow> bool" where
  "at_target guest job n start g c g' \<longleftrightarrow> wj_target_frame job \<noteq> 0 \<and>
     (\<exists>here g1 left. (passes_frame guest job ^^ n) (start, g) (here, g1) \<and>
        frame_of guest job here g1 (wj_target_frame job) left g' \<and>
        c = left\<lparr>cx_rax := wj_return_value job, cx_rip := wj_target_ip job\<rparr>)"

lemma at_target_start: "frame_of guest job c g (wj_target_frame job) left g' \<Longrightarrow> wj_target_frame job \<noteq> 0 \<Longrightarrow>
    at_target guest job 0 c g (left\<lparr>cx_rax := wj_return_value job, cx_rip := wj_target_ip job\<rparr>) g'"
  by (auto simp: at_target_def)

lemma at_target_step: "passes_frame guest job (c, g) (c1, g1) \<Longrightarrow> at_target guest job n c1 g1 c' g' \<Longrightarrow>
    at_target guest job (Suc n) c g c' g'"
  unfolding at_target_def by (blast intro: relpowp_Suc_I2)

section \<open>One round of the pass\<close>

lemma unwind_leaf_pops:
  assumes "sl_win64_unwind_leaf memory (Some c) stack = Inr c'"
  shows "\<exists>return_address. load_u64 (memory_bytes memory (cx_rsp c) 8) 0 = Some return_address \<and>
    c' = c\<lparr>cx_rsp := cx_rsp c + 8, cx_rip := return_address\<rparr>"
proof -
  obtain s where "pop_return memory stack 8 \<lparr>us_context = c, us_pointers = None, us_machine_frame = False\<rparr> = Some s"
      "c' = us_context s"
    using assms by (auto simp: sl_win64_unwind_leaf_def split: option.splits if_splits)
  then show ?thesis
    by (auto simp: pop_return_def read_stack_u64_def advance_rsp_def add_u64_def set_rsp_def split: bind_splits if_splits)
qed

text \<open>What a round must show of its outcome, from the context it starts with.\<close>

definition follows :: "'g guest \<Rightarrow> walk_job \<Rightarrow> 'g walk_state \<Rightarrow> 'g walk_outcome \<Rightarrow> bool" where
  "follows guest job ws r \<longleftrightarrow> (case r of
     Ended _ target ws' \<Rightarrow> (\<forall>c. target = Some c \<longrightarrow> at_target guest job 0 (ws_walking ws) (ws_guest ws) c (ws_guest ws'))
   | Next_frame ws' \<Rightarrow> passes_frame guest job (ws_walking ws, ws_guest ws) (ws_walking ws', ws_guest ws') \<and>
       er_exception_flags (ws_exception_record ws') = wj_unwind_flags job)"

lemma target_result_context: "target_result job c = c\<lparr>cx_rax := wj_return_value job, cx_rip := wj_target_ip job\<rparr>"
  by (simp add: target_result_def)

lemma leaf_frame_follows:
  assumes "is_leaf guest (ws_guest ws) (ws_walking ws)" "er_exception_flags (ws_exception_record ws) = wj_unwind_flags job"
  shows "follows guest job ws (leaf_frame guest job ws)"
proof (cases "is_target job (cx_rsp (ws_walking ws))")
  case True
  then have "at_target guest job 0 (ws_walking ws) (ws_guest ws) (target_result job (ws_walking ws)) (ws_guest ws)"
    using at_target_start [of guest job "ws_walking ws" "ws_guest ws"] frame_leaf [OF assms(1), of job]
    by (simp add: is_target_def target_result_context)
  then show ?thesis
    using True by (simp add: follows_def leaf_frame_def is_target_def)
next
  case False
  show ?thesis
  proof (cases "sl_win64_unwind_leaf (gs_memory guest (ws_guest ws)) (Some (ws_walking ws)) (wj_stack job)")
    case (Inl status)
    then show ?thesis
      using False by (auto simp: follows_def leaf_frame_def is_target_def)
  next
    case (Inr c)
    have "caller_of guest job (ws_walking ws) (ws_guest ws) c"
      using unwind_leaf_pops [OF Inr] caller_leaf [OF assms(1)] by metis
    then have "passes_frame guest job (ws_walking ws, ws_guest ws) (c, ws_guest ws)" if "cx_rsp (ws_walking ws) < cx_rsp c"
      using frame_leaf [OF assms(1), of job] False that by (auto simp: passes_frame_def)
    then show ?thesis
      using False Inr assms(2) by (auto simp: follows_def leaf_frame_def is_target_def not_le)
  qed
qed

lemma call_frame_handler_goes_on:
  assumes "call_frame_handler guest job image_base function_entry r (is_target job (ur_establisher_frame r)) ws =
      Some (SL_WIN64_EXCEPTION_DISPOSITION_CONTINUE_SEARCH, ws')"
    and "ur_language_handler r \<noteq> NULL" "er_exception_flags (ws_exception_record ws) = wj_unwind_flags job"
  shows "handler_goes_on guest job (ws_guest ws) (ws_walking ws) image_base function_entry r (ws_walking ws') (ws_guest ws')"
    "er_exception_flags (ws_exception_record ws') = wj_unwind_flags job"
proof -
  let ?at = "is_target job (ur_establisher_frame r)"
  let ?rcd = "if ?at then (ws_exception_record ws)\<lparr>er_exception_flags :=
      er_exception_flags (ws_exception_record ws) OR SL_WIN64_EXCEPTION_TARGET_UNWIND\<rparr> else ws_exception_record ws"
  let ?c = "(ws_walking ws)\<lparr>cx_rax := wj_return_value job\<rparr>"
  let ?d = "\<lparr>dc_control_pc = cx_rip (ws_walking ws), dc_image_base = image_base,
            dc_function_entry = function_entry, dc_establisher_frame = ur_establisher_frame r,
            dc_target_ip = wj_target_ip job, dc_language_handler = ur_language_handler r,
            dc_handler_data = ur_handler_data r, dc_history_table = wj_history_table job,
            dc_scope_index = 0, dc_fill0 = 0\<rparr>"
  let ?link = "\<lparr>hl_address = gs_link_address guest (ws_guest ws), hl_guest_unwind_origin = ?c\<rparr>"
  obtain rcd' c' links' g' where call: "gs_call guest (ws_guest ws) (ur_language_handler r) ?rcd (ur_establisher_frame r) ?c ?d
        (?link # ws_links ws) = Some (SL_WIN64_EXCEPTION_DISPOSITION_CONTINUE_SEARCH, rcd', c', links', g')"
      and ws': "ws_walking ws' = c'" "ws_guest ws' = g'" "er_exception_flags (ws_exception_record ws') = wj_unwind_flags job"
    using assms(1,2) by (auto simp: call_frame_handler_def sl_win64_execute_handler_def Let_def split: option.splits prod.splits)
  show "handler_goes_on guest job (ws_guest ws) (ws_walking ws) image_base function_entry r (ws_walking ws') (ws_guest ws')"
    unfolding handler_goes_on_def ws' by (intro exI conjI, rule call) (simp_all add: assms(3))
  show "er_exception_flags (ws_exception_record ws') = wj_unwind_flags job"
    by (rule ws'(3))
qed

lemma table_frame_follows:
  assumes "table_frame guest job image_base function_entry r ws = Some o'"
    and r: "unwinds_to guest job (ws_guest ws) (ws_walking ws) image_base function_entry r"
    and flags: "er_exception_flags (ws_exception_record ws) = wj_unwind_flags job"
  shows "follows guest job ws o'"
proof -
  let ?c = "ws_walking ws" and ?g = "ws_guest ws"
  let ?at = "is_target job (ur_establisher_frame r)"
  note at = is_target_def [of job "ur_establisher_frame r"]
  define leave where "leave ws = (if ?at then Ended SL_OK (Some (target_result job (ws_walking ws))) ws
      else Next_frame (ws\<lparr>ws_walking := ur_context r\<rparr>))" for ws :: "'a walk_state"
  have leaves: "follows guest job ws (leave ws1)"
    if "frame_of guest job ?c ?g (ur_establisher_frame r) (ws_walking ws1) (ws_guest ws1)"
      "er_exception_flags (ws_exception_record ws1) = wj_unwind_flags job" "cx_rsp ?c < cx_rsp (ur_context r)" for ws1
  proof (cases ?at)
    case True
    then have "at_target guest job 0 ?c ?g (target_result job (ws_walking ws1)) (ws_guest ws1)"
      using at_target_start [of guest job ?c ?g "ws_walking ws1" "ws_guest ws1"] that(1)
      by (simp add: is_target_def target_result_context)
    then show ?thesis
      using True by (simp add: follows_def leave_def)
  next
    case False
    then have "passes_frame guest job (?c, ?g) (ur_context r, ws_guest ws1)"
      using that caller_table [OF r] by (auto simp: passes_frame_def)
    then show ?thesis
      using False that(2) by (simp add: follows_def leave_def)
  qed
  have ended: "follows guest job ws (Ended status None ws1)" for status ws1
    by (simp add: follows_def)
  have frame: "table_frame guest job image_base function_entry r ws =
     (if cx_rsp (ur_context r) \<le> cx_rsp ?c \<or> \<not> stack_frame_is_valid (wj_stack job) (ur_establisher_frame r)
      then Some (Ended SL_ERROR_INVALID_IMAGE None ws)
      else if wj_target_frame job \<noteq> 0 \<and> ur_establisher_frame r > wj_target_frame job
      then Some (Ended SL_ERROR_INVALID_STATE None ws)
      else if ur_language_handler r = NULL then Some (leave ws)
      else (case call_frame_handler guest job image_base function_entry r ?at ws of
              None \<Rightarrow> None
            | Some (disposition, ws) \<Rightarrow>
                Some (if disposition \<noteq> SL_WIN64_EXCEPTION_DISPOSITION_CONTINUE_SEARCH
                      then Ended (if disposition = SL_WIN64_EXCEPTION_DISPOSITION_COLLIDED_UNWIND
                                  then SL_ERROR_NOT_IMPLEMENTED else SL_ERROR_INVALID_STATE) None ws
                      else leave ws)))"
    unfolding table_frame_def Let_def at [symmetric] leave_def ..
  consider "o' = Ended SL_ERROR_INVALID_IMAGE None ws" | "o' = Ended SL_ERROR_INVALID_STATE None ws"
    | "ur_language_handler r = NULL" "o' = leave ws" "cx_rsp ?c < cx_rsp (ur_context r)"
    | status ws1 where "o' = Ended status None ws1"
    | ws1 where "ur_language_handler r \<noteq> NULL" "o' = leave ws1" "cx_rsp ?c < cx_rsp (ur_context r)"
      "call_frame_handler guest job image_base function_entry r ?at ws = Some (SL_WIN64_EXCEPTION_DISPOSITION_CONTINUE_SEARCH, ws1)"
    using assms(1) unfolding frame by (auto simp: not_le split: if_splits option.splits prod.splits)
  then show ?thesis
  proof cases
    case 3
    then show ?thesis
      using leaves [of ws] frame_plain [OF r] flags by simp
  next
    case (5 ws1)
    note goes_on = call_frame_handler_goes_on [OF 5(4,1) flags]
    show ?thesis
      unfolding 5(2) by (rule leaves [OF frame_handled [OF r 5(1) goes_on(1)] goes_on(2) 5(3)])
  qed (simp_all add: ended)
qed

lemma walk_frame_follows:
  assumes "walk_frame guest job ws = Some o'"
    and flags: "er_exception_flags (ws_exception_record ws) = wj_unwind_flags job"
  shows "follows guest job ws o'"
proof -
  have ended: "follows guest job ws (Ended status None ws1)" for status ws1
    by (simp add: follows_def)
  consider status where "o' = Ended status None ws"
    | "is_leaf guest (ws_guest ws) (ws_walking ws)" "o' = leaf_frame guest job ws"
    | base entry r where "unwinds_to guest job (ws_guest ws) (ws_walking ws) base entry r"
      "table_frame guest job base entry r ws = Some o'"
    using assms(1) unfolding walk_frame_def Let_def is_leaf_def unwinds_to_def
    by (auto split: if_splits sum.splits option.splits prod.splits)
  then show ?thesis
  proof cases
    case 2
    then show ?thesis
      using leaf_frame_follows [OF 2(1) flags] by simp
  next
    case (3 base entry r)
    show ?thesis
      by (rule table_frame_follows [OF 3(2,1) flags])
  qed (simp add: ended)
qed

section \<open>The pass\<close>

lemma walk_frames_target:
  assumes "walk_frames guest job depth ws = Some (status, Some c, ws')"
    and "er_exception_flags (ws_exception_record ws) = wj_unwind_flags job"
  shows "\<exists>n. depth + n < 256 \<and> at_target guest job n (ws_walking ws) (ws_guest ws) c (ws_guest ws')"
  using assms
proof (induction guest job depth ws rule: walk_frames.induct)
  case (1 guest job depth ws)
  note unfolded = 1(2) [unfolded walk_frames.simps [of guest job depth ws]]
  then have depth: "depth < 256"
    by (simp split: if_splits)
  obtain o' where o': "walk_frame guest job ws = Some o'"
    using unfolded depth by (auto split: option.splits)
  note follows = walk_frame_follows [OF o' 1(3)]
  show ?case
  proof (cases o')
    case (Ended status' target ws1)
    then have "at_target guest job 0 (ws_walking ws) (ws_guest ws) c (ws_guest ws')"
      using unfolded depth o' follows by (simp add: follows_def)
    then show ?thesis
      using depth by (intro exI [of _ 0]) simp
  next
    case (Next_frame ws1)
    then have "passes_frame guest job (ws_walking ws, ws_guest ws) (ws_walking ws1, ws_guest ws1)"
        "er_exception_flags (ws_exception_record ws1) = wj_unwind_flags job"
      using follows by (simp_all add: follows_def)
    moreover obtain n where "depth + 1 + n < 256" "at_target guest job n (ws_walking ws1) (ws_guest ws1) c (ws_guest ws')"
      using 1(1) [OF depth o' Next_frame] unfolded depth o' Next_frame calculation(2) by auto
    ultimately show ?thesis
      by (intro exI [of _ "Suc n"]) (simp add: at_target_step)
  qed
qed

text \<open>What a pass is asked for.\<close>

definition pass_job ::
    "u64 \<Rightarrow> u64 \<Rightarrow> u64 \<Rightarrow> ptr \<Rightarrow> sl_win64_stack_bounds option \<Rightarrow> sl_win64_exception_record \<Rightarrow> walk_job" where
  "pass_job target_frame target_ip return_value history_table stack rcd =
     \<lparr>wj_target_frame = target_frame, wj_target_ip = target_ip, wj_return_value = return_value,
      wj_history_table = history_table, wj_stack = stack,
      wj_unwind_flags = pass_flags (er_exception_flags rcd) target_frame\<rparr>"

lemma unwind_to_frame_target:
  assumes "sl_win64_unwind_to_frame guest g given target_frame target_ip rcd return_value context_record history_table
      stack links = Some (status, Some c, rcd', links', g')"
  shows "\<exists>start n. context_record = Some start \<and> n < 256 \<and>
    at_target guest (pass_job target_frame target_ip return_value history_table stack rcd) n start g c g'"
proof -
  obtain start where start: "context_record = Some start"
    using assms by (auto simp: sl_win64_unwind_to_frame_def split: option.splits)
  let ?job = "pass_job target_frame target_ip return_value history_table stack rcd"
  let ?ws = "\<lparr>ws_walking = start, ws_exception_record = rcd\<lparr>er_exception_flags := wj_unwind_flags ?job\<rparr>,
      ws_links = links, ws_guest = g\<rparr>"
  obtain ws' where ws': "walk_frames guest ?job 0 ?ws = Some (status, Some c, ws')" "g' = ws_guest ws'"
    using assms unfolding sl_win64_unwind_to_frame_def start option.case Let_def pass_job_def walk_job.simps
    by (simp only: split: if_splits option.splits prod.splits) auto
  show ?thesis
    using walk_frames_target [OF ws'(1)] start ws'(2) by simp
qed

end
