(* ===== verification/Unwind_Properties.thy ===== *)
theory Unwind_Properties
  imports Unwind_Prologue Unwind_Target Space_Invariant
begin

text \<open>
  The properties of the unwinder, and the modules of a module space as the modules it unwinds.
\<close>

section \<open>The modules of a module space\<close>

lemma space_wf_backed:
  assumes "space_wf sp"
  shows "list_all (backed (objects_of (sp_owned sp))) (rg_modules (sp_registry sp))"
  unfolding list_all_iff
proof (intro ballI)
  fix m assume m: "m \<in> set (rg_modules (sp_registry sp))"
  show "backed (objects_of (sp_owned sp)) m"
  proof (cases "md_kind m = SL_MODULE_PE")
    case True
    then obtain i where i: "i < length (sp_owned sp)" "md_image m = Some i" "md_mapped m = Some i"
      using space_wf_module [OF assms] m by blast
    have "owned_ok (sp_owned sp ! i)"
      using space_wf_owned [OF assms i(1)] .
    then show ?thesis
      using i by (auto simp: owned_ok_def backed_def module_bytes_def module_mapping_def objects_of_def mapping_ok_def)
  qed (simp add: backed_def)
qed

section \<open>Examples\<close>

text \<open>An image of 40 bytes with a return at 0, a table of one function at 16 and its record at 32,
  mapped at \<open>0x10000\<close>.\<close>

definition unwind_image :: sl_pe_image where
  "unwind_image = (empty_image [])\<lparr>pe_is_pe32_plus := True, pe_machine := SL_PE_MACHINE_AMD64, pe_image_size := 40,
     pe_directories := [no_directory, no_directory, no_directory, \<lparr>dir_rva = 16, dir_size = 12\<rparr>]\<rparr>"

definition unwind_mapping :: sl_mapped_image where
  "unwind_mapping = no_mapping\<lparr>mp_size := 40, mp_address := 0x10000, mp_load_base := 0x10000,
     mp_bytes := Some [0xc3, 0, 0, 0, 0, 0, 0, 0, 0, 0, 0, 0, 0, 0, 0, 0, 0, 0, 0, 0, 4, 0, 0, 0, 32, 0, 0, 0,
       0, 0, 0, 0, 1, 0, 0, 0, 0, 0, 0, 0]\<rparr>"

definition unwind_objects :: module_objects where
  "unwind_objects = \<lparr>image_at = (\<lambda>_. unwind_image), mapped_at = (\<lambda>_. unwind_mapping)\<rparr>"

definition unwind_module :: sl_loaded_module where
  "unwind_module = \<lparr>md_name = [0x61, 0], md_kind = SL_MODULE_PE, md_image = Some 0, md_mapped = Some 0,
     md_native_exports = []\<rparr>"

definition unwind_registry :: sl_module_registry where
  "unwind_registry = \<lparr>rg_modules = [unwind_module], rg_aliases = []\<rparr>"

lemma unwind_module_backed: "backed unwind_objects unwind_module"
  by (simp add: backed_def module_mapping_def module_bytes_def unwind_objects_def unwind_module_def unwind_mapping_def)

lemma unwind_registry_backed: "list_all (backed unwind_objects) (rg_modules unwind_registry)"
  by (simp add: unwind_registry_def unwind_module_backed)

definition zero_m128a :: sl_win64_m128a where "zero_m128a = \<lparr>m128_low = 0, m128_high = 0\<rparr>"

definition zero_save_area :: sl_win64_xmm_save_area32 where
  "zero_save_area = \<lparr>xs_control_word = 0, xs_status_word = 0, xs_tag_word = 0, xs_reserved1 = 0, xs_error_opcode = 0,
     xs_error_offset = 0, xs_error_selector = 0, xs_reserved2 = 0, xs_data_offset = 0, xs_data_selector = 0,
     xs_reserved3 = 0, xs_mx_csr = 0, xs_mx_csr_mask = 0, xs_float_registers = replicate 8 zero_m128a,
     xs_xmm_registers = replicate 16 zero_m128a, xs_reserved4 = replicate 96 0\<rparr>"

definition zero_context :: sl_win64_context where
  "zero_context = \<lparr>cx_p1_home = 0, cx_p2_home = 0, cx_p3_home = 0, cx_p4_home = 0, cx_p5_home = 0, cx_p6_home = 0,
     cx_context_flags = 0, cx_mx_csr = 0, cx_seg_cs = 0, cx_seg_ds = 0, cx_seg_es = 0, cx_seg_fs = 0, cx_seg_gs = 0,
     cx_seg_ss = 0, cx_e_flags = 0, cx_dr0 = 0, cx_dr1 = 0, cx_dr2 = 0, cx_dr3 = 0, cx_dr6 = 0, cx_dr7 = 0,
     cx_rax = 0, cx_rcx = 0, cx_rdx = 0, cx_rbx = 0, cx_rsp = 0, cx_rbp = 0, cx_rsi = 0, cx_rdi = 0, cx_r8 = 0,
     cx_r9 = 0, cx_r10 = 0, cx_r11 = 0, cx_r12 = 0, cx_r13 = 0, cx_r14 = 0, cx_r15 = 0, cx_rip = 0,
     cx_flt_save = zero_save_area, cx_vector_register = replicate 26 zero_m128a, cx_vector_control = 0,
     cx_debug_control = 0, cx_last_branch_to_rip = 0, cx_last_branch_from_rip = 0, cx_last_exception_to_rip = 0,
     cx_last_exception_from_rip = 0\<rparr>"

lemma unwind_registry_module: "rg_modules unwind_registry ! 0 = unwind_module"
  by (simp add: unwind_registry_def)

section \<open>Properties\<close>

lemma entry_for_unique:
  assumes "entry_for objects m pc table n i" "entry_for objects m pc table n j"
  shows "i = j"
  using covers_unique [of "module_image objects m" "table_entry (module_bytes objects m) table" n i j
      "pc - mp_load_base (module_mapping objects m)"] assms
  by (simp add: entry_for_def)

lemma entry_for_only: "entry_for objects m pc table n i \<longleftrightarrow> {j. entry_for objects m pc table n j} = {i}"
proof
  assume i: "entry_for objects m pc table n i"
  show "{j. entry_for objects m pc table n j} = {i}"
    using i entry_for_unique [OF _ i] by blast
next
  assume "{j. entry_for objects m pc table n j} = {i}"
  then have "i \<in> {j. entry_for objects m pc table n j}"
    by simp
  then show "entry_for objects m pc table n i"
    by simp
qed

text \<open>
  C28: Looking up a function entry is exact on every image: the lookup ends and reads nothing outside the
  mapping; it succeeds precisely when the address lies in a PE module whose exception directory is a table
  of valid entries in order without overlap, one of which covers the address, and it answers with that
  module, its base and the address of that entry, which is the only one.
\<close>

theorem lookup_finds_the_entry:
  assumes "list_all (backed objects) (rg_modules r)"
  shows "sl_win64_lookup_function_entry objects (Some r) pc True \<noteq> None \<and>
    (sl_win64_lookup_function_entry objects (Some r) pc True = Some (Inr (base, entry, index)) \<longleftrightarrow>
      sl_module_registry_resolve_address objects (Some r) pc = Inr index \<and>
      base = mp_load_base (module_mapping objects (rg_modules r ! index)) \<and>
      (\<exists>table n i. {j. entry_for objects (rg_modules r ! index) pc table n j} = {i} \<and>
         entry = mp_address (module_mapping objects (rg_modules r ! index)) + of_nat (table + i * 12)))"
  unfolding entry_for_only [symmetric]
  using lookup_function_entry_exact(1) [OF assms, of pc]
    lookup_function_entry_exact(2) [OF assms, of pc base entry index] by (intro conjI)

lemma unwind_entry_for: "entry_for unwind_objects unwind_module 0x10001 16 1 0"
proof -
  have "exception_directory unwind_objects (Some unwind_module) = Some (16, 1)"
    by code_simp
  moreover have "read_runtime_function (module_bytes unwind_objects unwind_module) 16 =
      Some \<lparr>rf_begin_address = 0, rf_end_address = 4, rf_unwind_data = 32\<rparr>"
    by code_simp
  moreover have "covers 1 \<lparr>rf_begin_address = 0, rf_end_address = 4, rf_unwind_data = 32\<rparr>"
    by code_simp
  ultimately show ?thesis
    by (simp add: entry_for_def ordered_from_def table_entry_def runtime_function_is_valid_def module_image_def
        module_mapping_def unwind_objects_def unwind_image_def unwind_mapping_def)
qed

theorem lookup_finds_the_entry_witness:
  "sl_win64_lookup_function_entry unwind_objects (Some unwind_registry) 0x10001 True =
     Some (Inr (0x10000, 0x10010, 0))"
proof -
  have "sl_module_registry_resolve_address unwind_objects (Some unwind_registry) 0x10001 = Inr 0"
    by code_simp
  moreover have "{j. entry_for unwind_objects (rg_modules unwind_registry ! 0) 0x10001 16 1 j} = {0}"
    using entry_for_only [THEN iffD1, OF unwind_entry_for] by (simp only: unwind_registry_module)
  moreover have "0x10000 = mp_load_base (module_mapping unwind_objects (rg_modules unwind_registry ! 0))"
    by code_simp
  moreover have "0x10010 = mp_address (module_mapping unwind_objects (rg_modules unwind_registry ! 0)) +
      of_nat (16 + 0 * 12)"
    by code_simp
  ultimately show ?thesis
    by (intro lookup_finds_the_entry [OF unwind_registry_backed, THEN conjunct2, THEN iffD2] conjI exI)
qed

text \<open>
  C29: Unwinding one frame is safe whatever the image, the context and the stack hold: every loop ends,
  nothing outside the mapping or the array of codes is read, and of the memory only the stack inside its
  bounds is looked at.
\<close>

theorem virtual_unwind_safe:
  assumes "\<And>m. module = Some m \<Longrightarrow> backed objects m" "same_stack stack memory memory'"
  shows "\<exists>r. sl_win64_virtual_unwind memory objects module handler_type control_pc function_entry context_record
      stack outs context_pointers = Some r \<and>
    sl_win64_virtual_unwind memory' objects module handler_type control_pc function_entry context_record
      stack outs context_pointers = Some r"
  unfolding virtual_unwind_same [OF assms(2)] using virtual_unwind_total [OF assms(1)] by blast

theorem virtual_unwind_safe_witness:
  "\<exists>r. sl_win64_virtual_unwind (\<lambda>_. 0) unwind_objects (Some unwind_module) 2 0x10000 0x10010
      (Some (zero_context\<lparr>cx_rsp := 0x2000\<rparr>)) (Some \<lparr>sb_limit = 0x1000, sb_base = 0x3000\<rparr>) True None = Some r \<and>
    sl_win64_virtual_unwind (\<lambda>a. if a = 0x3000 then 1 else 0) unwind_objects (Some unwind_module) 2 0x10000 0x10010
      (Some (zero_context\<lparr>cx_rsp := 0x2000\<rparr>)) (Some \<lparr>sb_limit = 0x1000, sb_base = 0x3000\<rparr>) True None = Some r"
  by (rule virtual_unwind_safe) (auto simp: unwind_module_backed same_stack_def)

text \<open>
  C30: Unwinding undoes the prologue: for every prologue of pushes and allocations, stopped at any of its
  instructions or run to the end, the codes a compiler emits for it are accepted, and applying them and
  popping the return address gives the caller's stack pointer, the return address on the stack, and every
  pushed register as the caller had it, the others unchanged.
\<close>

theorem unwind_inverts_prologue:
  fixes ops :: "(u8 \<times> prologue_op) list"
  assumes "list_all (\<lambda>x. op_ok (snd x)) ops"
    and "run_ops (executed in_prologue prologue_offset ops) (entered, m0) = (reached, m1)"
    and "sb_limit bounds < sb_base bounds"
    and "unat (sb_limit bounds) + sum_list (map op_room (executed in_prologue prologue_offset ops)) \<le> unat (cx_rsp entered)"
    and "unat (cx_rsp entered) + 8 \<le> unat (sb_base bounds)"
    and "cx_rsp c = cx_rsp reached" "\<forall>a. cx_rsp reached \<le> a \<and> a < cx_rsp entered \<longrightarrow> memory a = m1 a"
    and "sorted (map fst ops)" "list_all (\<lambda>x. fst x \<le> prologue_size) ops"
  shows "\<exists>s r. validate_unwind_codes (prologue_codes ops @ padding) (sum_list (map op_slots ops)) version
      prologue_size frame_register frame_offset = Some (Some (no_epilogues, False)) \<and>
    apply_unwind_codes memory (Some bounds) (prologue_codes ops @ padding) (sum_list (map op_slots ops)) version
      in_prologue prologue_offset frame_base 0
      \<lparr>us_context = c, us_pointers = pointers, us_machine_frame = False\<rparr> = Some (Some s) \<and>
    finish_frame memory (Some bounds) handler establisher s = Inr r \<and>
    caller_context (executed in_prologue prologue_offset ops) entered c
      (the (load_u64 (memory_bytes memory (cx_rsp entered) 8) 0)) (ur_context r)"
  using unwind_inverts_prologue_codes [OF assms] .

text \<open>\<open>push rbx; sub rsp, 32\<close>, run to the end, and the body that then changes \<open>rbx\<close>.\<close>

definition example_prologue :: "(u8 \<times> prologue_op) list" where
  "example_prologue = [(1, Push 3), (5, Alloc 32)]"

definition example_entered :: sl_win64_context where
  "example_entered = zero_context\<lparr>cx_rbx := 7, cx_rsp := 0x2000\<rparr>"

definition example_pushed :: memory where
  "example_pushed = store_bytes (\<lambda>_. 0) 0x1ff8 (le_bytes 8 7)"

lemma example_run: "run_ops (executed False 0 example_prologue) (example_entered, \<lambda>_. 0) =
    (example_entered\<lparr>cx_rsp := 0x1fd8\<rparr>, example_pushed)"
  by (simp add: run_ops_def executed_def example_prologue_def run_op_def op_room_def example_entered_def
      example_pushed_def integer_register_def Let_def del: le_bytes.simps)

theorem unwind_inverts_prologue_witness:
  "\<exists>s r. validate_unwind_codes (prologue_codes example_prologue @ []) 2 1 5 0 0 = Some (Some (no_epilogues, False)) \<and>
    apply_unwind_codes example_pushed (Some \<lparr>sb_limit = 0x1000, sb_base = 0x3000\<rparr>)
      (prologue_codes example_prologue @ []) 2 1 False 0 0 0
      \<lparr>us_context = zero_context\<lparr>cx_rbx := 9, cx_rsp := 0x1fd8\<rparr>, us_pointers = None, us_machine_frame = False\<rparr> =
      Some (Some s) \<and>
    finish_frame example_pushed (Some \<lparr>sb_limit = 0x1000, sb_base = 0x3000\<rparr>) (0, 0) 0x1fd8 s = Inr r \<and>
    caller_context [Push 3, Alloc 32] example_entered (zero_context\<lparr>cx_rbx := 9, cx_rsp := 0x1fd8\<rparr>)
      (the (load_u64 (memory_bytes example_pushed 0x2000 8) 0)) (ur_context r)"
proof -
  have e: "executed False 0 example_prologue = [Push 3, Alloc 32]"
    by (simp add: executed_def example_prologue_def)
  have n: "sum_list (map op_slots example_prologue) = 2" "cx_rsp example_entered = 0x2000"
    by (simp_all add: example_prologue_def op_slots_def op_codes_def example_entered_def)
  have w: "list_all (\<lambda>x. op_ok (snd x)) example_prologue"
    by (simp add: example_prologue_def op_ok_def is_nonvolatile_integer_register_def)
  show ?thesis
    by (rule unwind_inverts_prologue [OF w example_run, unfolded e n])
      (simp_all add: op_room_def example_prologue_def)
qed

text \<open>
  C31: The second pass of an unwind always ends: when the guest's handlers return and keep the modules
  well formed, the walk over the frames returns whatever the stack and the images hold; it leaves the
  thread's handler links as they were or empty, and it succeeds exactly when it gives a context. That
  context is the target's: from the context the pass starts with, fewer than 256 frames that are not the
  target were passed, each to its caller (for a leaf function by its return address, else by its unwind
  data) and past its handler, if it has one, which was called with the flags of the pass and said to go on;
  the frame reached is the target frame; and the context is the one it stands in, or the one its handler
  left when it was called with the flag of the target, with the instruction pointer and the result
  that were asked for. The flags of the exception record are those of an unwind.
\<close>

theorem unwind_pass_returns:
  assumes "\<And>g. list_all (backed (gs_objects guest g)) (rg_modules (gs_registry guest g))"
    and "handlers_keep guest stack target_frame (pass_flags (er_exception_flags rcd) target_frame) I" "I g"
  shows "\<exists>status target rcd' links' g'. sl_win64_unwind_to_frame guest g given target_frame target_ip rcd return_value
      context_record history_table stack links = Some (status, target, rcd', links', g') \<and>
    I g' \<and> (links' = links \<or> links' = []) \<and> (status = SL_OK \<longleftrightarrow> target \<noteq> None) \<and>
    (\<forall>c. target = Some c \<longrightarrow> target_frame \<noteq> 0 \<and> cx_rip c = target_ip \<and> cx_rax c = return_value \<and>
       er_exception_flags rcd' = pass_flags (er_exception_flags rcd) target_frame \<and>
       (\<exists>start n. context_record = Some start \<and> n < 256 \<and>
          at_target guest (pass_job target_frame target_ip return_value history_table stack rcd) n start g c g'))"
proof -
  obtain status target rcd' links' g' where r: "sl_win64_unwind_to_frame guest g given target_frame target_ip rcd
      return_value context_record history_table stack links = Some (status, target, rcd', links', g')"
    "I g' \<and> (links' = links \<or> links' = []) \<and> (status = SL_OK \<longleftrightarrow> target \<noteq> None)"
    "\<And>c. target = Some c \<Longrightarrow> target_frame \<noteq> 0 \<and> cx_rip c = target_ip \<and> cx_rax c = return_value \<and>
       er_exception_flags rcd' = pass_flags (er_exception_flags rcd) target_frame"
    using unwind_to_frame_returns [OF assms] by blast
  have "target_frame \<noteq> 0 \<and> cx_rip c = target_ip \<and> cx_rax c = return_value \<and>
       er_exception_flags rcd' = pass_flags (er_exception_flags rcd) target_frame \<and>
       (\<exists>start n. context_record = Some start \<and> n < 256 \<and>
          at_target guest (pass_job target_frame target_ip return_value history_table stack rcd) n start g c g')"
    if "target = Some c" for c
    using r(3) [OF that] unwind_to_frame_target [OF r(1) [unfolded that]] by blast
  then show ?thesis
    using r(1,2) by blast
qed

text \<open>A guest that counts the calls of its handlers. Its stack holds the return address \<open>0x10008\<close> twice.\<close>

definition example_stack :: memory where
  "example_stack a = (if a = 0x1ff0 \<or> a = 0x1ff8 then 8 else if a = 0x1ff2 \<or> a = 0x1ffa then 1 else 0)"

definition example_guest :: "nat guest" where
  "example_guest = \<lparr>gs_memory = (\<lambda>_. example_stack), gs_objects = (\<lambda>_. unwind_objects), gs_registry = (\<lambda>_. unwind_registry),
     gs_link_address = (\<lambda>g. of_nat (g + 1)),
     gs_call = (\<lambda>g handler rcd frame c d links.
       Some (SL_WIN64_EXCEPTION_DISPOSITION_CONTINUE_SEARCH, rcd, c, links, g + 1))\<rparr>"

definition example_exception :: sl_win64_exception_record where
  "example_exception = \<lparr>er_exception_code = 0xc0000027, er_exception_flags = 0, er_exception_record = 0,
     er_exception_address = 0x10000, er_number_parameters = 0, er_alignment = 0,
     er_exception_information = replicate 15 0\<rparr>"

lemma example_address:
  "sl_win64_lookup_function_entry unwind_objects (Some unwind_registry) 0x10008 True = Some (Inl SL_ERROR_ADDRESS_OUT_OF_RANGE)"
  "sl_module_registry_resolve_address unwind_objects (Some unwind_registry) 0x10008 = Inr 0"
  "sl_module_registry_resolve_address unwind_objects (Some unwind_registry) 0x10000 = Inr 0"
  "load_u64 (memory_bytes example_stack 0x1ff0 8) 0 = Some 0x10008"
  "load_u64 (memory_bytes example_stack 0x1ff8 8) 0 = Some 0x10008"
  by code_simp+

lemmas example_frame_defs = walk_frame_def leaf_frame_def example_guest_def example_address pass_job_def stack_frame_is_valid_def
  target_result_def UINTPTR_MAX_def sl_win64_unwind_leaf_def pop_return_def read_stack_u64_def advance_rsp_def set_rsp_def
  add_u64_def stack_range_fits_def Let_def

abbreviation example_bounds :: "sl_win64_stack_bounds option" where
  "example_bounds \<equiv> Some \<lparr>sb_limit = 0x1000, sb_base = 0x3000\<rparr>"

abbreviation example_job :: walk_job where
  "example_job \<equiv> pass_job 0x2000 0x10000 42 0 example_bounds example_exception"

abbreviation example_state :: "u64 \<Rightarrow> sl_win64_exception_record \<Rightarrow> nat walk_state" where
  "example_state rsp rcd \<equiv> \<lparr>ws_walking = zero_context\<lparr>cx_rsp := rsp, cx_rip := 0x10008\<rparr>, ws_exception_record = rcd,
     ws_links = [], ws_guest = 0\<rparr>"

lemma example_frames:
  "walk_frame example_guest example_job (example_state 0x1ff0 rcd) = Some (Next_frame (example_state 0x1ff8 rcd))"
  "walk_frame example_guest example_job (example_state 0x1ff8 rcd) = Some (Next_frame (example_state 0x2000 rcd))"
  "walk_frame example_guest example_job (example_state 0x2000 rcd) = Some (Ended SL_OK
     (Some (zero_context\<lparr>cx_rsp := 0x2000, cx_rip := 0x10000, cx_rax := 42\<rparr>)) (example_state 0x2000 rcd))"
  by (simp_all add: example_frame_defs)

lemma example_pass: "\<exists>rcd'. sl_win64_unwind_to_frame example_guest 0 True 0x2000 0x10000 example_exception 42
    (Some (zero_context\<lparr>cx_rsp := 0x1ff0, cx_rip := 0x10008\<rparr>)) 0 example_bounds [] =
    Some (SL_OK, Some (zero_context\<lparr>cx_rsp := 0x2000, cx_rip := 0x10000, cx_rax := 42\<rparr>), rcd', [], 0)"
proof -
  let ?rcd = "example_exception\<lparr>er_exception_flags := wj_unwind_flags example_job\<rparr>"
  have "walk_frames example_guest example_job 0 (example_state 0x1ff0 ?rcd) = Some (SL_OK,
      Some (zero_context\<lparr>cx_rsp := 0x2000, cx_rip := 0x10000, cx_rax := 42\<rparr>), example_state 0x2000 ?rcd)"
    by (simp add: walk_frames.simps [of example_guest] example_frames)
  moreover have "md_kind (rg_modules unwind_registry ! 0) = SL_MODULE_PE"
    by code_simp
  ultimately show ?thesis
    unfolding sl_win64_unwind_to_frame_def Let_def pass_job_def [symmetric]
    by (simp add: example_guest_def stack_frame_is_valid_def UINTPTR_MAX_def example_address) (simp add: pass_job_def)
qed

theorem unwind_pass_returns_witness:
  "\<exists>rcd' links' g' n. sl_win64_unwind_to_frame example_guest 0 True 0x2000 0x10000 example_exception 42
      (Some (zero_context\<lparr>cx_rsp := 0x1ff0, cx_rip := 0x10008\<rparr>)) 0 example_bounds [] =
      Some (SL_OK, Some (zero_context\<lparr>cx_rsp := 0x2000, cx_rip := 0x10000, cx_rax := 42\<rparr>), rcd', links', g') \<and> n < 256 \<and>
    at_target example_guest example_job n (zero_context\<lparr>cx_rsp := 0x1ff0, cx_rip := 0x10008\<rparr>) 0
      (zero_context\<lparr>cx_rsp := 0x2000, cx_rip := 0x10000, cx_rax := 42\<rparr>) g'"
proof -
  have guest: "list_all (backed (gs_objects example_guest g)) (rg_modules (gs_registry example_guest g))"
    "handlers_keep example_guest stack target_frame flags (\<lambda>_. True)" for g stack target_frame flags
    by (simp_all add: example_guest_def unwind_registry_backed handlers_keep_def)
  show ?thesis
    using unwind_pass_returns [OF guest TrueI, where g = 0 and given = True and target_frame = "0x2000" and target_ip = "0x10000"
      and rcd = example_exception and return_value = 42 and history_table = 0 and stack = example_bounds and links = "[]"
      and context_record = "Some (zero_context\<lparr>cx_rsp := 0x1ff0, cx_rip := 0x10008\<rparr>)"] example_pass by auto
qed

end
