(* ===== verification/Process.thy ===== *)
theory Process
  imports Module_Space Handle_Table Unicode
begin

text \<open>
  \<open>src/process.c\<close>: the state of a guest process. The process owns its handle table, the module space
  it adopts and the directory its file names start from; the environment blocks \<open>peb\<close> and
  \<open>process_parameters\<close> are memory the guest reads. The atomic fields are plain fields here: every
  operation below makes at most one access to each between two points where other threads can run,
  and those points are arguments (what the process is \<^emph>\<open>meanwhile\<close>); the counter of references is
  changed step by step in the theory of threads.
\<close>

section \<open>Data\<close>

definition SL_PEB_SIZE :: nat where "SL_PEB_SIZE = 0x1000"
definition SL_PROCESS_PARAMETERS_SIZE :: nat where "SL_PROCESS_PARAMETERS_SIZE = 0x1000"
definition SL_BOOTSTRAP_PROCESS_HEAP_HANDLE :: u64 where "SL_BOOTSTRAP_PROCESS_HEAP_HANDLE = 4"
definition SL_BOOTSTRAP_STANDARD_INPUT_HANDLE :: u64 where "SL_BOOTSTRAP_STANDARD_INPUT_HANDLE = 1"
definition SL_BOOTSTRAP_STANDARD_OUTPUT_HANDLE :: u64 where "SL_BOOTSTRAP_STANDARD_OUTPUT_HANDLE = 2"
definition SL_BOOTSTRAP_STANDARD_ERROR_HANDLE :: u64 where "SL_BOOTSTRAP_STANDARD_ERROR_HANDLE = 3"

definition SL_WIN32_PEB_IMAGE_BASE_OFFSET :: nat where "SL_WIN32_PEB_IMAGE_BASE_OFFSET = 0x10"
definition SL_WIN32_PEB_PROCESS_PARAMETERS_OFFSET :: nat where "SL_WIN32_PEB_PROCESS_PARAMETERS_OFFSET = 0x20"
definition SL_WIN32_PEB_PROCESS_HEAP_OFFSET :: nat where "SL_WIN32_PEB_PROCESS_HEAP_OFFSET = 0x30"
definition SL_WIN32_PROCESS_PARAMETERS_FLAGS_OFFSET :: nat where "SL_WIN32_PROCESS_PARAMETERS_FLAGS_OFFSET = 8"
definition SL_WIN32_PROCESS_PARAMETERS_NORMALIZED :: u32 where "SL_WIN32_PROCESS_PARAMETERS_NORMALIZED = 1"
definition SL_WIN32_IMAGE_PATH_MAX_UNITS :: nat where "SL_WIN32_IMAGE_PATH_MAX_UNITS = 32766"

lemmas process_constants = SL_PEB_SIZE_def SL_PROCESS_PARAMETERS_SIZE_def SL_WIN32_PEB_IMAGE_BASE_OFFSET_def
  SL_WIN32_PEB_PROCESS_PARAMETERS_OFFSET_def SL_WIN32_PEB_PROCESS_HEAP_OFFSET_def
  SL_WIN32_PROCESS_PARAMETERS_FLAGS_OFFSET_def SL_WIN32_IMAGE_PATH_MAX_UNITS_def

text \<open>A value of the enumeration may be any number when a caller casts one.\<close>

datatype (plugins only: code size) sl_win32_standard_handle =
  SL_WIN32_STANDARD_INPUT | SL_WIN32_STANDARD_OUTPUT | SL_WIN32_STANDARD_ERROR | Other_standard_handle

definition standard_handle_index :: "sl_win32_standard_handle \<Rightarrow> nat" where
  "standard_handle_index which = (case which of SL_WIN32_STANDARD_INPUT \<Rightarrow> 0 | SL_WIN32_STANDARD_OUTPUT \<Rightarrow> 1
     | SL_WIN32_STANDARD_ERROR \<Rightarrow> 2 | Other_standard_handle \<Rightarrow> 3)"

text \<open>The two blocks are arrays inside the process; their addresses are kept beside them.\<close>

record sl_win32_process =
  pr_active_references :: u32
  pr_unhandled_exception_filter :: u64
  pr_standard_handles :: "u64 list"
  pr_pointer_cookie :: u64
  pr_handle_table :: handle_world
  pr_filesystem_directory_fd :: int
  pr_module_space :: "sl_module_space option"
  pr_main_module :: "nat option"
  pr_main_image_path :: "u16 list option"
  pr_main_image_path_length :: nat
  pr_peb :: bytes
  pr_process_parameters :: bytes
  pr_peb_address :: ptr
  pr_parameters_address :: ptr

section \<open>Random bytes\<close>

text \<open>What \<open>getrandom\<close> answers, call by call; the loop returns nothing when it is not done after the
  answers that are given.\<close>

datatype (plugins only: code size) getrandom_answer = Got bytes | Interrupted | Failed

fun random_bytes :: "nat \<Rightarrow> getrandom_answer list \<Rightarrow> bytes \<Rightarrow> (bytes result \<times> getrandom_answer list) option" where
  "random_bytes len [] buffer = (if length buffer < len then None else Some (Inr buffer, []))"
| "random_bytes len (answer # answers) buffer =
     (if length buffer < len
      then (case answer of
              Got bs \<Rightarrow> if bs \<noteq> [] then random_bytes len answers (buffer @ take (len - length buffer) bs)
                        else Some (Inl SL_ERROR_IO, answers)
            | Interrupted \<Rightarrow> random_bytes len answers buffer
            | Failed \<Rightarrow> Some (Inl SL_ERROR_IO, answers))
      else Some (Inr buffer, answer # answers))"

lemma random_bytes_answers:
  "random_bytes len answers buffer = Some (r, rest) \<Longrightarrow> length buffer < len \<Longrightarrow> length rest < length answers"
proof (induction len answers buffer rule: random_bytes.induct)
  case (2 len answer answers buffer)
  have step: "length rest < Suc (length answers)" if "random_bytes len answers b = Some (r, rest)"
    "length b < len \<Longrightarrow> length rest < length answers" for b
  proof (cases "length b < len")
    case False
    then have "rest = answers"
      using that(1) by (cases answers) auto
    then show ?thesis by simp
  qed (use that(2) in simp)
  from 2 show ?case
    by (auto split: getrandom_answer.splits if_splits intro!: step)
qed simp

text \<open>A cookie is drawn until it is not zero.\<close>

function pointer_cookie :: "getrandom_answer list \<Rightarrow> u64 result option" where
  "pointer_cookie answers =
     (case random_bytes 8 answers [] of
        None \<Rightarrow> None
      | Some (Inl status, _) \<Rightarrow> Some (Inl status)
      | Some (Inr buffer, rest) \<Rightarrow>
          if le_value buffer = 0 then pointer_cookie rest else Some (Inr (of_nat (le_value buffer))))"
  by pat_completeness auto
termination
  by (relation "measure length") (auto dest: random_bytes_answers)

declare pointer_cookie.simps [simp del]

section \<open>Creation and destruction\<close>

definition store_u32_at :: "bytes \<Rightarrow> nat \<Rightarrow> u32 \<Rightarrow> bytes" where
  "store_u32_at block offset v = splice block offset (le_bytes 4 (unat v))"

definition store_uintptr :: "bytes \<Rightarrow> nat \<Rightarrow> u64 \<Rightarrow> bytes" where
  "store_uintptr block offset v = splice block offset (le_bytes 8 (unat v))"

definition load_uintptr :: "bytes \<Rightarrow> nat \<Rightarrow> u64" where
  "load_uintptr block offset = of_nat (le_value (take 8 (drop offset block)))"

definition new_process :: "handle_world \<Rightarrow> u64 \<Rightarrow> ptr \<Rightarrow> ptr \<Rightarrow> sl_win32_process" where
  "new_process handle_table cookie peb parameters =
     \<lparr>pr_active_references = 0, pr_unhandled_exception_filter = 0,
      pr_standard_handles = [SL_BOOTSTRAP_STANDARD_INPUT_HANDLE, SL_BOOTSTRAP_STANDARD_OUTPUT_HANDLE,
        SL_BOOTSTRAP_STANDARD_ERROR_HANDLE],
      pr_pointer_cookie = cookie, pr_handle_table = handle_table, pr_filesystem_directory_fd = -1,
      pr_module_space = None, pr_main_module = None, pr_main_image_path = None, pr_main_image_path_length = 0,
      pr_peb = store_uintptr
        (store_uintptr (replicate SL_PEB_SIZE 0) SL_WIN32_PEB_PROCESS_PARAMETERS_OFFSET parameters)
        SL_WIN32_PEB_PROCESS_HEAP_OFFSET SL_BOOTSTRAP_PROCESS_HEAP_HANDLE,
      pr_process_parameters = store_u32_at (replicate SL_PROCESS_PARAMETERS_SIZE 0)
        SL_WIN32_PROCESS_PARAMETERS_FLAGS_OFFSET SL_WIN32_PROCESS_PARAMETERS_NORMALIZED,
      pr_peb_address = peb, pr_parameters_address = parameters\<rparr>"

text \<open>\<open>out\<close> says whether \<open>out_process\<close> is a pointer, \<open>calloc\<close> gives the addresses of the two blocks of the
  new process, and \<open>table_ok\<close> and \<open>tracker_ok\<close> say whether the table's allocations succeed. The second
  component is the state of the handle table that was created and given back, if it was.\<close>

definition sl_win32_process_create ::
    "bool \<Rightarrow> (ptr \<times> ptr) option \<Rightarrow> bool \<Rightarrow> bool \<Rightarrow> getrandom_answer list \<Rightarrow> handle_world \<Rightarrow>
     (sl_win32_process result \<times> handle_world) option" where
  "sl_win32_process_create out calloc table_ok tracker_ok answers w =
     (if \<not> out then Some (Inl SL_ERROR_INVALID_ARGUMENT, w)
      else case calloc of
        None \<Rightarrow> Some (Inl SL_ERROR_OUT_OF_MEMORY, w)
      | Some (peb, parameters) \<Rightarrow>
          (case sl_handle_table_create True table_ok tracker_ok w of (status, w) \<Rightarrow>
             if status \<noteq> SL_OK then Some (Inl status, w)
             else (case pointer_cookie answers of
                     None \<Rightarrow> None
                   | Some (Inl status) \<Rightarrow> Some (Inl status, sl_handle_table_destroy w)
                   | Some (Inr cookie) \<Rightarrow> Some (Inr (new_process w cookie peb parameters), w))))"

text \<open>What the destruction gives back: the handle table, the descriptor, the modules.\<close>

definition sl_win32_process_destroy ::
    "host \<Rightarrow> sl_win32_process option \<Rightarrow> sl_status \<times> handle_world option \<times> int list \<times> host_event list" where
  "sl_win32_process_destroy h process =
     (case process of
        None \<Rightarrow> (SL_ERROR_INVALID_ARGUMENT, None, [], [])
      | Some p \<Rightarrow>
          if pr_active_references p \<noteq> 0 then (SL_ERROR_INVALID_STATE, None, [], [])
          else (SL_OK, Some (sl_handle_table_destroy (pr_handle_table p)),
                if pr_filesystem_directory_fd p \<ge> 0 then [pr_filesystem_directory_fd p] else [],
                sl_module_space_destroy h (pr_module_space p)))"

section \<open>Configuration\<close>

text \<open>The mapping of a module of a space.\<close>

definition main_mapping :: "sl_module_space \<Rightarrow> nat \<Rightarrow> sl_mapped_image" where
  "main_mapping space m =
     mapped_at (objects_of (sp_owned space)) (the (md_mapped (rg_modules (sp_registry space) ! m)))"

definition sl_win32_process_set_image_base ::
    "sl_win32_process option \<Rightarrow> u64 \<Rightarrow> sl_status \<times> sl_win32_process option" where
  "sl_win32_process_set_image_base process image_base =
     (case process of
        None \<Rightarrow> (SL_ERROR_INVALID_ARGUMENT, None)
      | Some p \<Rightarrow>
          if (case pr_module_space p of
                None \<Rightarrow> False
              | Some space \<Rightarrow>
                  (case pr_main_module p of
                     None \<Rightarrow> True
                   | Some m \<Rightarrow> image_base \<noteq> mp_load_base (main_mapping space m)))
          then (SL_ERROR_INVALID_STATE, process)
          else (SL_OK, Some (p\<lparr>pr_peb := store_uintptr (pr_peb p) SL_WIN32_PEB_IMAGE_BASE_OFFSET image_base\<rparr>)))"

text \<open>\<open>open_directory\<close> is what \<open>open\<close> answers, \<open>meanwhile\<close> what other threads do to the process during the
  call; the last component are the descriptors that are closed.\<close>

definition sl_win32_process_set_filesystem_directory ::
    "(bytes \<Rightarrow> int) \<Rightarrow> (sl_win32_process \<Rightarrow> sl_win32_process) \<Rightarrow> sl_win32_process option \<Rightarrow> bytes option \<Rightarrow>
     sl_status \<times> sl_win32_process option \<times> int list" where
  "sl_win32_process_set_filesystem_directory open_directory meanwhile process host_directory =
     (case (process, host_directory) of
        (Some p, Some name) \<Rightarrow>
          if name = [] then (SL_ERROR_INVALID_ARGUMENT, process, [])
          else if pr_filesystem_directory_fd p \<ge> 0 \<or> pr_active_references p \<noteq> 0
          then (SL_ERROR_INVALID_STATE, process, [])
          else let fd = open_directory name
          in if fd < 0 then (SL_ERROR_IO, Some (meanwhile p), [])
             else let p = meanwhile p
             in if pr_filesystem_directory_fd p \<ge> 0 \<or> pr_active_references p \<noteq> 0
                then (SL_ERROR_INVALID_STATE, Some p, [fd])
                else (SL_OK, Some (p\<lparr>pr_filesystem_directory_fd := fd\<rparr>), [])
      | _ \<Rightarrow> (SL_ERROR_INVALID_ARGUMENT, process, []))"

text \<open>A module pointer is an index: it is one of the registry's when it is below its count.\<close>

definition find_exact_module :: "sl_module_space \<Rightarrow> nat \<Rightarrow> nat option" where
  "find_exact_module space candidate =
     (if candidate < length (rg_modules (sp_registry space)) then Some candidate else None)"

definition module_space_is_finalized :: "sl_module_space \<Rightarrow> bool" where
  "module_space_is_finalized space \<longleftrightarrow>
     list_all (\<lambda>m. md_kind m \<noteq> SL_MODULE_PE \<or>
       (case (md_image m, md_mapped m) of
          (Some i, Some j) \<Rightarrow>
            let img = image_at (objects_of (sp_owned space)) i; mapped = mapped_at (objects_of (sp_owned space)) j
            in mp_bytes mapped \<noteq> None \<and> mp_storage mapped = SL_IMAGE_STORAGE_VIRTUAL \<and>
               mp_protections_finalized mapped \<and> mp_size mapped = unat (pe_image_size img) \<and>
               mp_load_base mapped = mp_address mapped
        | _ \<Rightarrow> False))
       (rg_modules (sp_registry space))"

text \<open>The path is the array behind the pointer; \<open>None\<close> is a read behind it.\<close>

definition validate_image_path :: "u16 list option \<Rightarrow> nat \<Rightarrow> sl_status option" where
  "validate_image_path path path_length =
     (case path of
        None \<Rightarrow> Some SL_ERROR_INVALID_ARGUMENT
      | Some units \<Rightarrow>
          if path_length = 0 \<or> path_length > SL_WIN32_IMAGE_PATH_MAX_UNITS then Some SL_ERROR_INVALID_ARGUMENT
          else if length units < path_length \<and> 0 \<notin> set units then None
          else if 0 \<in> set (take path_length units) then Some SL_ERROR_INVALID_ARGUMENT
          else map_option fst (sl_utf16_to_utf8 path path_length None 0 (Some 0)))"

text \<open>The module of the space that becomes the main module of the process.\<close>

definition adoptable_module :: "sl_module_space \<Rightarrow> nat \<Rightarrow> nat option" where
  "adoptable_module space main_module =
     (case find_exact_module space main_module of
        None \<Rightarrow> None
      | Some registered \<Rightarrow>
          if md_kind (rg_modules (sp_registry space) ! registered) \<noteq> SL_MODULE_PE \<or> \<not> module_space_is_finalized space
          then None else Some registered)"

definition sl_win32_process_adopt_module_space ::
    "(nat \<Rightarrow> bool) \<Rightarrow> (sl_win32_process \<Rightarrow> sl_win32_process) \<Rightarrow> sl_win32_process option \<Rightarrow> sl_module_space option option \<Rightarrow>
     nat option \<Rightarrow> u16 list option \<Rightarrow> nat \<Rightarrow> (sl_status \<times> sl_win32_process option \<times> sl_module_space option option) option" where
  "sl_win32_process_adopt_module_space calloc_ok meanwhile process space_io main_module image_path image_path_length =
     (case (process, space_io, main_module) of
        (Some p, Some (Some space), Some candidate) \<Rightarrow>
          if pr_module_space p \<noteq> None \<or> pr_main_module p \<noteq> None \<or> pr_main_image_path p \<noteq> None \<or>
             load_uintptr (pr_peb p) SL_WIN32_PEB_IMAGE_BASE_OFFSET \<noteq> 0 \<or> pr_active_references p \<noteq> 0
          then Some (SL_ERROR_INVALID_STATE, process, space_io)
          else (case adoptable_module space candidate of
                  None \<Rightarrow> Some (SL_ERROR_INVALID_STATE, process, space_io)
                | Some registered \<Rightarrow>
                    (case validate_image_path image_path image_path_length of
                       None \<Rightarrow> None
                     | Some status \<Rightarrow>
                         let load_base = mp_load_base (main_mapping space registered)
                         in if status \<noteq> SL_OK then Some (status, process, space_io)
                            else if load_base = 0 then Some (SL_ERROR_INVALID_STATE, process, space_io)
                            else if \<not> calloc_ok (image_path_length + 1)
                            then Some (SL_ERROR_OUT_OF_MEMORY, process, space_io)
                            else let p = meanwhile p
                            in if pr_active_references p \<noteq> 0 then Some (SL_ERROR_INVALID_STATE, Some p, space_io)
                               else Some (SL_OK,
                                 Some (p\<lparr>pr_module_space := Some space, pr_main_module := Some registered,
                                   pr_main_image_path := Some (take image_path_length (the image_path) @ [0]),
                                   pr_main_image_path_length := image_path_length,
                                   pr_peb := store_uintptr (pr_peb p) SL_WIN32_PEB_IMAGE_BASE_OFFSET load_base\<rparr>),
                                 Some None)))
      | _ \<Rightarrow> Some (SL_ERROR_INVALID_ARGUMENT, process, space_io))"

section \<open>Views\<close>

definition sl_win32_process_module_space :: "sl_win32_process option \<Rightarrow> sl_module_space option" where
  "sl_win32_process_module_space process = (case process of None \<Rightarrow> None | Some p \<Rightarrow> pr_module_space p)"

definition sl_win32_process_main_module :: "sl_win32_process option \<Rightarrow> nat option" where
  "sl_win32_process_main_module process = (case process of None \<Rightarrow> None | Some p \<Rightarrow> pr_main_module p)"

definition sl_win32_process_handle_table :: "sl_win32_process option \<Rightarrow> handle_world option" where
  "sl_win32_process_handle_table process = map_option pr_handle_table process"

definition sl_win32_process_filesystem_directory :: "sl_win32_process option \<Rightarrow> int" where
  "sl_win32_process_filesystem_directory process =
     (case process of None \<Rightarrow> -1 | Some p \<Rightarrow> pr_filesystem_directory_fd p)"

definition standard_handle_is_valid :: "sl_win32_standard_handle \<Rightarrow> bool" where
  "standard_handle_is_valid which \<longleftrightarrow> which = SL_WIN32_STANDARD_INPUT \<or> which = SL_WIN32_STANDARD_OUTPUT \<or>
     which = SL_WIN32_STANDARD_ERROR"

text \<open>\<open>out\<close> says whether the out pointer is given; the second component is what is written to it.\<close>

definition sl_win32_process_get_standard_handle ::
    "sl_win32_process option \<Rightarrow> sl_win32_standard_handle \<Rightarrow> bool \<Rightarrow> sl_status \<times> u64 option" where
  "sl_win32_process_get_standard_handle process which out =
     (case process of
        None \<Rightarrow> (SL_ERROR_INVALID_ARGUMENT, if out then Some 0 else None)
      | Some p \<Rightarrow>
          if \<not> standard_handle_is_valid which \<or> \<not> out
          then (SL_ERROR_INVALID_ARGUMENT, if out then Some 0 else None)
          else (SL_OK, Some (pr_standard_handles p ! standard_handle_index which)))"

definition sl_win32_process_set_standard_handle ::
    "sl_win32_process option \<Rightarrow> sl_win32_standard_handle \<Rightarrow> u64 \<Rightarrow> sl_status \<times> sl_win32_process option" where
  "sl_win32_process_set_standard_handle process which handle =
     (case process of
        None \<Rightarrow> (SL_ERROR_INVALID_ARGUMENT, None)
      | Some p \<Rightarrow>
          if \<not> standard_handle_is_valid which then (SL_ERROR_INVALID_ARGUMENT, process)
          else (SL_OK, Some (p\<lparr>pr_standard_handles := (pr_standard_handles p)[standard_handle_index which := handle]\<rparr>)))"

text \<open>The out parameters are written together; they are given or not.\<close>

definition sl_win32_process_main_image_path ::
    "sl_win32_process option \<Rightarrow> bool \<Rightarrow> bool \<Rightarrow> sl_status \<times> u16 list option \<times> nat" where
  "sl_win32_process_main_image_path process path path_length =
     (case process of
        None \<Rightarrow> (SL_ERROR_INVALID_ARGUMENT, None, 0)
      | Some p \<Rightarrow>
          if \<not> path \<or> \<not> path_length then (SL_ERROR_INVALID_ARGUMENT, None, 0)
          else if pr_main_image_path p = None then (SL_ERROR_INVALID_STATE, None, 0)
          else (SL_OK, pr_main_image_path p, pr_main_image_path_length p))"

definition sl_win32_process_peb :: "sl_win32_process option \<Rightarrow> ptr" where
  "sl_win32_process_peb process = (case process of None \<Rightarrow> NULL | Some p \<Rightarrow> pr_peb_address p)"

definition sl_win32_process_parameters :: "sl_win32_process option \<Rightarrow> ptr" where
  "sl_win32_process_parameters process = (case process of None \<Rightarrow> NULL | Some p \<Rightarrow> pr_parameters_address p)"

section \<open>Encoded pointers\<close>

definition rotate_right :: "u64 \<Rightarrow> nat \<Rightarrow> u64" where
  "rotate_right v shift = (if shift = 0 then v else drop_bit shift v OR push_bit (64 - shift) v)"

definition rotate_left :: "u64 \<Rightarrow> nat \<Rightarrow> u64" where
  "rotate_left v shift = (if shift = 0 then v else push_bit shift v OR drop_bit (64 - shift) v)"

definition sl_win32_process_encode_pointer :: "sl_win32_process \<Rightarrow> u64 \<Rightarrow> u64" where
  "sl_win32_process_encode_pointer process pointer =
     (let shift = unat (pr_pointer_cookie process AND 63) in rotate_right (pointer XOR pr_pointer_cookie process) shift)"

definition sl_win32_process_decode_pointer :: "sl_win32_process \<Rightarrow> u64 \<Rightarrow> u64" where
  "sl_win32_process_decode_pointer process pointer =
     (let shift = unat (pr_pointer_cookie process AND 63) in rotate_left pointer shift XOR pr_pointer_cookie process)"

text \<open>The filter is exchanged; \<open>None\<close> is an \<open>abort\<close>.\<close>

definition sl_win32_process_exchange_unhandled_exception_filter ::
    "sl_win32_process option \<Rightarrow> u64 \<Rightarrow> (u64 \<times> sl_win32_process) option" where
  "sl_win32_process_exchange_unhandled_exception_filter process handler =
     (case process of None \<Rightarrow> None
      | Some p \<Rightarrow> Some (pr_unhandled_exception_filter p, p\<lparr>pr_unhandled_exception_filter := handler\<rparr>))"

definition sl_win32_process_unhandled_exception_filter :: "sl_win32_process option \<Rightarrow> u64 option" where
  "sl_win32_process_unhandled_exception_filter process = map_option pr_unhandled_exception_filter process"

section \<open>What the operations keep\<close>

text \<open>The blocks have their sizes, the directory is set at most once, and a process that has a module space has a
  finalized one, its main module, the path with its terminator and the load base in the PEB.\<close>

definition process_wf :: "sl_win32_process \<Rightarrow> bool" where
  "process_wf p \<longleftrightarrow> length (pr_peb p) = SL_PEB_SIZE \<and> length (pr_process_parameters p) = SL_PROCESS_PARAMETERS_SIZE \<and>
     length (pr_standard_handles p) = 3 \<and> pr_pointer_cookie p \<noteq> 0 \<and>
     (case pr_module_space p of
        None \<Rightarrow> pr_main_module p = None \<and> pr_main_image_path p = None
      | Some space \<Rightarrow> module_space_is_finalized space \<and>
          (\<exists>m path. pr_main_module p = Some m \<and> pr_main_image_path p = Some path \<and>
             m < length (rg_modules (sp_registry space)) \<and> md_kind (rg_modules (sp_registry space) ! m) = SL_MODULE_PE \<and>
             length path = pr_main_image_path_length p + 1 \<and> last path = 0 \<and> 0 \<notin> set (butlast path) \<and>
             load_uintptr (pr_peb p) SL_WIN32_PEB_IMAGE_BASE_OFFSET = mp_load_base (main_mapping space m)))"

lemma load_store_uintptr: "offset + 8 \<le> length block \<Longrightarrow> load_uintptr (store_uintptr block offset v) offset = v"
  by (simp add: load_uintptr_def store_uintptr_def splice_def min_def le_value_bytes)

lemma length_store_uintptr: "offset + 8 \<le> length block \<Longrightarrow> length (store_uintptr block offset v) = length block"
  by (simp add: store_uintptr_def)

lemma peb_image_base:
  assumes "length peb = SL_PEB_SIZE"
  shows "length (store_uintptr peb SL_WIN32_PEB_IMAGE_BASE_OFFSET v) = SL_PEB_SIZE"
    and "load_uintptr (store_uintptr peb SL_WIN32_PEB_IMAGE_BASE_OFFSET v) SL_WIN32_PEB_IMAGE_BASE_OFFSET = v"
  using assms by (simp_all add: length_store_uintptr load_store_uintptr process_constants)

lemma pointer_cookie_not_zero: "pointer_cookie answers = Some (Inr c) \<Longrightarrow> c \<noteq> 0"
proof (induction answers rule: pointer_cookie.induct)
  case (1 answers)
  have eight: "length b = 8" if "random_bytes 8 answers' b' = Some (Inr b, rest)" "length b' \<le> 8" for answers' b' b rest
    using that by (induction "8 :: nat" answers' b' rule: random_bytes.induct)
      (auto split: if_splits getrandom_answer.splits)
  obtain b rest where r: "random_bytes 8 answers [] = Some (Inr b, rest)"
    using 1(2) by (subst (asm) pointer_cookie.simps) (auto split: option.splits sum.splits)
  show ?case
  proof (cases "le_value b = 0")
    case True
    have "pointer_cookie rest = Some (Inr c)"
      using 1(2) r True by (subst (asm) pointer_cookie.simps) simp
    then show ?thesis
      using 1(1) [OF r refl refl True] by blast
  next
    case False
    have "le_value b < 2 ^ LENGTH(64)"
      using le_value_less [of b] eight [OF r] by simp
    then have "unat (of_nat (le_value b) :: u64) = le_value b"
      by (rule unat_of_nat_small)
    moreover have "c = of_nat (le_value b)"
      using 1(2) r False by (subst (asm) pointer_cookie.simps) simp
    ultimately show ?thesis
      using False by (metis unat_0)
  qed
qed

lemma process_create_wf:
  "sl_win32_process_create out calloc table_ok tracker_ok answers w = Some (Inr p, w') \<Longrightarrow> process_wf p"
  by (auto simp: sl_win32_process_create_def process_wf_def new_process_def length_store_uintptr process_constants
      store_u32_at_def dest: pointer_cookie_not_zero split: if_splits option.splits prod.splits sum.splits)

lemma set_image_base_wf:
  "sl_win32_process_set_image_base (Some p) image_base = (status, Some p') \<Longrightarrow> process_wf p \<Longrightarrow> process_wf p'"
  by (auto simp: sl_win32_process_set_image_base_def process_wf_def peb_image_base split: if_splits option.splits)

lemma set_standard_handle_wf:
  "sl_win32_process_set_standard_handle (Some p) which handle = (status, Some p') \<Longrightarrow> process_wf p \<Longrightarrow> process_wf p'"
  by (auto simp: sl_win32_process_set_standard_handle_def process_wf_def split: if_splits option.splits)

lemma image_path_checked:
  assumes "validate_image_path path n = Some SL_OK"
  shows "\<exists>units. path = Some units \<and> 0 < n \<and> n \<le> length units \<and> 0 \<notin> set (take n units)"
proof -
  obtain units where u: "path = Some units" "0 < n" "0 \<notin> set (take n units)"
      "length units < n \<longrightarrow> 0 \<in> set units"
    using assms by (cases path) (auto simp: validate_image_path_def split: if_splits)
  have "n \<le> length units"
  proof (rule ccontr)
    assume "\<not> n \<le> length units"
    then show False
      using u(3,4) by simp
  qed
  then show ?thesis
    using u by blast
qed

text \<open>Adopting a space is all or nothing: on success the process owns it and is well formed, otherwise both are
  as they were, but for what others did meanwhile.\<close>

lemma adopt_module_space_wf:
  assumes "sl_win32_process_adopt_module_space calloc_ok meanwhile (Some p) (Some (Some space)) main_module image_path n =
      Some (status, Some p', space_io)"
    and "process_wf p" "process_wf (meanwhile p)"
  shows "process_wf p' \<and>
    (if status = SL_OK then space_io = Some None \<and> pr_module_space p' = Some space \<and> pr_main_module p' = main_module
     else space_io = Some (Some space) \<and> (p' = p \<or> p' = meanwhile p))"
proof (cases "status = SL_OK")
  case False
  then show ?thesis
    using assms by (auto simp: sl_win32_process_adopt_module_space_def Let_def split: option.splits if_splits)
next
  case True
  obtain m where m: "main_module = Some m"
    using assms True by (cases main_module) (simp_all add: sl_win32_process_adopt_module_space_def)
  obtain r where r: "adoptable_module space m = Some r" "validate_image_path image_path n = Some SL_OK"
    using assms(1) True m
    by (auto simp: sl_win32_process_adopt_module_space_def Let_def split: option.splits if_splits)
  have w: "r = m" "m < length (rg_modules (sp_registry space))" "module_space_is_finalized space"
    "md_kind (rg_modules (sp_registry space) ! m) = SL_MODULE_PE"
    using r(1) by (auto simp: adoptable_module_def find_exact_module_def split: if_splits)
  obtain units where u: "image_path = Some units" "n \<le> length units" "0 \<notin> set (take n units)"
    using image_path_checked [OF r(2)] by blast
  show ?thesis
    using assms True m r w u
    by (auto simp: sl_win32_process_adopt_module_space_def Let_def process_wf_def peb_image_base butlast_append
        split: if_splits)
qed

lemma rotate_inverse:
  assumes "shift < 64"
  shows "rotate_left (rotate_right v shift) shift = v"
proof (cases "shift = 0")
  case False
  show ?thesis
  proof (rule bit_word_eqI)
    fix n assume "n < LENGTH(64)"
    then show "bit (rotate_left (rotate_right v shift) shift) n \<longleftrightarrow> bit v n"
      using False assms
      by (cases "shift \<le> n") (auto simp: rotate_left_def rotate_right_def bit_or_iff bit_push_bit_iff bit_drop_bit_eq
          dest: bit_imp_le_length)
  qed
qed (simp add: rotate_left_def rotate_right_def)

lemma decode_encode_pointer:
  "sl_win32_process_decode_pointer p (sl_win32_process_encode_pointer p v) = v"
proof -
  have "unat (pr_pointer_cookie p AND mask 6) < 64"
    unfolding unat_and_mask by simp
  moreover have "(63 :: u64) = mask 6"
    by (simp add: mask_eq_exp_minus_1)
  ultimately show ?thesis
    by (simp add: sl_win32_process_decode_pointer_def sl_win32_process_encode_pointer_def rotate_inverse
        xor.assoc del: unat_and_mask)
qed

end
