(* ===== verification/Thread_Context.thy ===== *)
theory Thread_Context
  imports Process
begin

text \<open>
  \<open>src/context.c\<close> and \<open>src/teb.c\<close>: which thread context a host thread runs under, and the environment
  block of a thread. Host threads enter contexts in nested scopes; a context belongs to one host thread at
  a time (\<open>host_thread_token\<close>), a scope and a block each hold a reference to the process, and a context has
  at most one block (\<open>teb_owner_token\<close>).

  The operations run concurrently, so they are cut where other threads can see or change what they touch:
  a host thread in the middle of one is at a \<^emph>\<open>point\<close> of the code, and \<open>advance\<close> runs it to the next. Between
  two points there is at most one access to the atomic fields; the others are to what the thread alone may use,
  its own variables and the plain fields of a context whose token it holds. (The counter of scopes is only read
  and written by the holder of the token.) An operation starts with \<open>begin_call\<close>.
\<close>

section \<open>Data\<close>

definition SL_WIN32_LOCAL_SLOT_COUNT :: nat where "SL_WIN32_LOCAL_SLOT_COUNT = 256"
definition UINT_MAX :: u32 where "UINT_MAX = 0xffffffff"

definition SL_TEB_WRITABLE_PAGE_COUNT :: nat where "SL_TEB_WRITABLE_PAGE_COUNT = 2"
definition SL_TEB_TOTAL_PAGE_COUNT :: nat where "SL_TEB_TOTAL_PAGE_COUNT = 4"
definition SL_TEB_OWNERSHIP_RESERVED :: u64 where "SL_TEB_OWNERSHIP_RESERVED = 0xffffffffffffffff"

definition SL_WIN32_TEB_STACK_BASE_OFFSET :: nat where "SL_WIN32_TEB_STACK_BASE_OFFSET = 0x08"
definition SL_WIN32_TEB_STACK_LIMIT_OFFSET :: nat where "SL_WIN32_TEB_STACK_LIMIT_OFFSET = 0x10"
definition SL_WIN32_TEB_SELF_OFFSET :: nat where "SL_WIN32_TEB_SELF_OFFSET = 0x30"
definition SL_WIN32_TEB_PROCESS_ID_OFFSET :: nat where "SL_WIN32_TEB_PROCESS_ID_OFFSET = 0x40"
definition SL_WIN32_TEB_THREAD_ID_OFFSET :: nat where "SL_WIN32_TEB_THREAD_ID_OFFSET = 0x48"
definition SL_WIN32_TEB_PEB_OFFSET :: nat where "SL_WIN32_TEB_PEB_OFFSET = 0x60"
definition SL_WIN32_TEB_LAST_ERROR_OFFSET :: nat where "SL_WIN32_TEB_LAST_ERROR_OFFSET = 0x68"
definition SL_WIN32_TEB_TLS_SLOTS_OFFSET :: nat where "SL_WIN32_TEB_TLS_SLOTS_OFFSET = 0x1480"
definition SL_WIN32_TEB_TLS_SLOT_COUNT :: nat where "SL_WIN32_TEB_TLS_SLOT_COUNT = 64"

record sl_win32_local_value =
  lv_value :: ptr
  lv_generation :: u64

record sl_win32_thread_context =
  th_process :: ptr
  th_last_error :: u32
  th_thread_id :: u32
  th_teb :: ptr
  th_last_error_address :: ptr
  th_tls_values :: "sl_win32_local_value list"
  th_fls_values :: "sl_win32_local_value list"
  th_host_thread_token :: u64
  th_active_scope_count :: u32
  th_teb_owner_token :: u64

text \<open>A scope lies on the stack of the host thread that entered it; \<open>previous_scope\<close> is the rest of the
  thread's list.\<close>

record sl_win32_context_scope =
  cs_address :: ptr
  cs_previous :: ptr
  cs_installed :: ptr
  cs_retained_process :: ptr

record sl_win32_teb =
  tb_process :: ptr
  tb_thread :: ptr
  tb_stack_limit :: u64
  tb_stack_base :: u64
  tb_attached :: bool
  tb_mapping :: ptr
  tb_mapping_size :: nat
  tb_bytes_address :: ptr
  tb_bytes :: bytes

text \<open>The operations with their arguments.\<close>

datatype (plugins only: code size) thread_call =
    Enter ptr ptr
  | Leave ptr
  | Teb_Create ptr u64 u64 bool
  | Teb_Destroy ptr
  | Attach ptr ptr
  | Detach ptr ptr

text \<open>The points: \<open>Idle\<close> between operations, with the status of the last; the others hold the variables that
  are used from there on.\<close>

datatype (plugins only: code size) thread_point =
    Idle sl_status
  | Claim_Exchange ptr ptr
  | Enter_Retain ptr ptr ptr
  | Enter_Exchange ptr ptr ptr u32
  | Enter_Undo ptr sl_status
  | Leave_Process ptr ptr
  | Leave_Thread ptr
  | Create_Reserve ptr u64 u64
  | Create_Retain ptr u64 u64 ptr
  | Create_Exchange ptr u64 u64 ptr u32
  | Create_Build ptr u64 u64 ptr
  | Create_Undo_Process ptr ptr sl_status
  | Create_Undo_Owner ptr sl_status
  | Create_Publish ptr ptr
  | Destroy_Reserve ptr ptr
  | Destroy_Unmap ptr ptr
  | Destroy_Restore ptr ptr
  | Destroy_Clear ptr ptr
  | Destroy_Process ptr ptr
  | Destroy_Free ptr ptr
  | Attach_Check ptr ptr
  | Release_Inactive ptr sl_status

text \<open>A host thread: \<open>sl_current_thread\<close>, \<open>sl_current_scope\<close> with the scopes behind it, the block a creation
  gave back, and where it is. Its name is the address of its \<open>sl_host_thread_marker\<close>.\<close>

record host_thread =
  ho_current :: ptr
  ho_scopes :: "sl_win32_context_scope list"
  ho_out_teb :: ptr
  ho_point :: thread_point

record thread_world =
  tw_threads :: "ptr \<Rightarrow> sl_win32_thread_context"
  tw_processes :: "ptr \<Rightarrow> sl_win32_process"
  tw_tebs :: "ptr \<Rightarrow> sl_win32_teb option"
  tw_hosts :: "u64 \<Rightarrow> host_thread"
  tw_aborted :: bool

text \<open>What the system answers during a step: whether a weak exchange fails without a reason, the page size, the
  address of the block, its mapping, whether protecting and unmapping succeed, and the process id.\<close>

record thread_answers =
  an_spurious :: bool
  an_sysconf :: int
  an_calloc :: "ptr option"
  an_mmap :: "ptr option"
  an_mprotect_ok :: bool
  an_munmap_ok :: bool
  an_getpid :: u32

section \<open>Changes of the state\<close>

definition set_thread ::
    "ptr \<Rightarrow> (sl_win32_thread_context \<Rightarrow> sl_win32_thread_context) \<Rightarrow> thread_world \<Rightarrow> thread_world" where
  "set_thread t f w = w\<lparr>tw_threads := (tw_threads w)(t := f (tw_threads w t))\<rparr>"

definition set_references :: "ptr \<Rightarrow> u32 \<Rightarrow> thread_world \<Rightarrow> thread_world" where
  "set_references p n w = w\<lparr>tw_processes := (tw_processes w)(p := (tw_processes w p)\<lparr>pr_active_references := n\<rparr>)\<rparr>"

definition set_host :: "u64 \<Rightarrow> (host_thread \<Rightarrow> host_thread) \<Rightarrow> thread_world \<Rightarrow> thread_world" where
  "set_host h f w = w\<lparr>tw_hosts := (tw_hosts w)(h := f (tw_hosts w h))\<rparr>"

definition go :: "u64 \<Rightarrow> thread_point \<Rightarrow> thread_world \<Rightarrow> thread_world" where
  "go h point = set_host h (\<lambda>H. H\<lparr>ho_point := point\<rparr>)"

definition abort :: "thread_world \<Rightarrow> thread_world" where
  "abort w = w\<lparr>tw_aborted := True\<rparr>"

abbreviation token_of :: "thread_world \<Rightarrow> ptr \<Rightarrow> u64" where
  "token_of w t \<equiv> th_host_thread_token (tw_threads w t)"

abbreviation scope_count :: "thread_world \<Rightarrow> ptr \<Rightarrow> u32" where
  "scope_count w t \<equiv> th_active_scope_count (tw_threads w t)"

abbreviation owner_of :: "thread_world \<Rightarrow> ptr \<Rightarrow> u64" where
  "owner_of w t \<equiv> th_teb_owner_token (tw_threads w t)"

abbreviation references_of :: "thread_world \<Rightarrow> ptr \<Rightarrow> u32" where
  "references_of w p \<equiv> pr_active_references (tw_processes w p)"

section \<open>Shared pieces of the operations\<close>

definition sl_win32_context_claim_inactive :: "u64 \<Rightarrow> ptr \<Rightarrow> thread_world \<Rightarrow> sl_status \<times> thread_world" where
  "sl_win32_context_claim_inactive h t w =
     (if t = NULL then (SL_ERROR_INVALID_ARGUMENT, w)
      else if token_of w t \<noteq> 0 then (SL_ERROR_INVALID_STATE, w)
      else let w = set_thread t (\<lambda>T. T\<lparr>th_host_thread_token := h\<rparr>) w
      in if scope_count w t \<noteq> 0 then (SL_OK, abort w) else (SL_OK, w))"

definition sl_win32_context_release_inactive :: "u64 \<Rightarrow> ptr \<Rightarrow> thread_world \<Rightarrow> thread_world" where
  "sl_win32_context_release_inactive h t w =
     (if t = NULL \<or> token_of w t \<noteq> h \<or> scope_count w t \<noteq> 0 then abort w
      else set_thread t (\<lambda>T. T\<lparr>th_host_thread_token := 0\<rparr>) w)"

definition release_thread_context :: "u64 \<Rightarrow> ptr \<Rightarrow> thread_world \<Rightarrow> thread_world" where
  "release_thread_context h t w =
     (if scope_count w t = 0 \<or> token_of w t \<noteq> h then abort w
      else let n = scope_count w t - 1
      in set_thread t (\<lambda>T. T\<lparr>th_active_scope_count := n,
           th_host_thread_token := (if n = 0 then 0 else th_host_thread_token T)\<rparr>) w)"

definition sl_win32_process_release :: "ptr \<Rightarrow> thread_world \<Rightarrow> thread_world" where
  "sl_win32_process_release p w =
     (let previous = references_of w p; w = set_references p (previous - 1) w
      in if previous = 0 then abort w else w)"

text \<open>One round of the loop that takes a reference, with the number that was read: refuse, have it, or try again
  with another number.\<close>

datatype (plugins only: code size) retain_round = Retain_Refused | Retained | Retain_Again u32

definition retain_exchange :: "bool \<Rightarrow> ptr \<Rightarrow> u32 \<Rightarrow> thread_world \<Rightarrow> retain_round \<times> thread_world" where
  "retain_exchange spurious p references w =
     (if references = UINT_MAX then (Retain_Refused, w)
      else if references_of w p = references \<and> \<not> spurious
      then (Retained, set_references p (references + 1) w)
      else (Retain_Again (references_of w p), w))"

section \<open>Entering and leaving\<close>

text \<open>The end of a successful \<open>sl_win32_context_enter\<close>.\<close>

definition install_scope :: "u64 \<Rightarrow> ptr \<Rightarrow> ptr \<Rightarrow> ptr \<Rightarrow> thread_world \<Rightarrow> thread_world" where
  "install_scope h t s p = set_host h (\<lambda>H. H\<lparr>ho_current := t,
     ho_scopes := \<lparr>cs_address = s, cs_previous = ho_current H, cs_installed = t, cs_retained_process = p\<rparr> #
       ho_scopes H,
     ho_point := Idle SL_OK\<rparr>)"

text \<open>After the context is claimed: the process is retained if there is one.\<close>

definition enter_claimed :: "u64 \<Rightarrow> ptr \<Rightarrow> ptr \<Rightarrow> thread_world \<Rightarrow> thread_world" where
  "enter_claimed h t s w =
     (let p = th_process (tw_threads w t)
      in if p = NULL then install_scope h t s NULL w else go h (Enter_Retain t s p) w)"

definition begin_enter :: "u64 \<Rightarrow> ptr \<Rightarrow> ptr \<Rightarrow> thread_world \<Rightarrow> thread_world" where
  "begin_enter h t s w =
     (if t = NULL \<or> s = NULL then go h (Idle SL_ERROR_INVALID_ARGUMENT) w
      else if s \<in> set (map cs_address (ho_scopes (tw_hosts w h))) then go h (Idle SL_ERROR_INVALID_STATE) w
      else let owner = token_of w t
      in if owner = 0 then go h (Claim_Exchange t s) w
         else if owner \<noteq> h then go h (Idle SL_ERROR_INVALID_STATE) w
         else if scope_count w t = UINT_MAX then go h (Idle SL_ERROR_INVALID_STATE) w
         else enter_claimed h t s
                (set_thread t (\<lambda>T. T\<lparr>th_active_scope_count := th_active_scope_count T + 1\<rparr>) w))"

definition claim_exchange :: "u64 \<Rightarrow> ptr \<Rightarrow> ptr \<Rightarrow> thread_world \<Rightarrow> thread_world" where
  "claim_exchange h t s w =
     (if token_of w t \<noteq> 0 then go h (Idle SL_ERROR_INVALID_STATE) w
      else enter_claimed h t s
             (set_thread t (\<lambda>T. T\<lparr>th_host_thread_token := h, th_active_scope_count := 1\<rparr>) w))"

definition enter_exchange :: "u64 \<Rightarrow> bool \<Rightarrow> ptr \<Rightarrow> ptr \<Rightarrow> ptr \<Rightarrow> u32 \<Rightarrow> thread_world \<Rightarrow> thread_world" where
  "enter_exchange h spurious t s p references w =
     (case retain_exchange spurious p references w of
        (Retain_Refused, w) \<Rightarrow> go h (Enter_Undo t SL_ERROR_INVALID_STATE) w
      | (Retained, w) \<Rightarrow> install_scope h t s p w
      | (Retain_Again references, w) \<Rightarrow> go h (Enter_Exchange t s p references) w)"

definition begin_leave :: "u64 \<Rightarrow> ptr \<Rightarrow> thread_world \<Rightarrow> thread_world" where
  "begin_leave h s w =
     (case ho_scopes (tw_hosts w h) of
        [] \<Rightarrow> go h (Idle SL_ERROR_INVALID_ARGUMENT) w
      | sc # rest \<Rightarrow>
          if s = NULL \<or> cs_address sc \<noteq> s then go h (Idle SL_ERROR_INVALID_ARGUMENT) w
          else if cs_installed sc = NULL \<or> ho_current (tw_hosts w h) \<noteq> cs_installed sc \<or>
                  token_of w (cs_installed sc) \<noteq> h
          then go h (Idle SL_ERROR_INVALID_ARGUMENT) w
          else set_host h (\<lambda>H. H\<lparr>ho_current := cs_previous sc, ho_scopes := rest,
                 ho_point := (if cs_retained_process sc \<noteq> NULL
                   then Leave_Process (cs_installed sc) (cs_retained_process sc)
                   else Leave_Thread (cs_installed sc))\<rparr>) w)"

section \<open>Environment blocks\<close>

definition begin_create :: "u64 \<Rightarrow> ptr \<Rightarrow> u64 \<Rightarrow> u64 \<Rightarrow> bool \<Rightarrow> thread_world \<Rightarrow> thread_world" where
  "begin_create h t stack_limit stack_base out w =
     (if \<not> out then go h (Idle SL_ERROR_INVALID_ARGUMENT) w
      else let w = set_host h (\<lambda>H. H\<lparr>ho_out_teb := NULL\<rparr>) w
      in if t = NULL \<or> stack_limit \<ge> stack_base then go h (Idle SL_ERROR_INVALID_ARGUMENT) w
      else (case sl_win32_context_claim_inactive h t w of (status, w) \<Rightarrow>
        let T = tw_threads w t
        in if status \<noteq> SL_OK then go h (Idle status) w
           else if th_process T = NULL \<or> th_thread_id T = 0 \<or> th_teb T \<noteq> NULL \<or> th_last_error_address T \<noteq> NULL
           then go h (Release_Inactive t SL_ERROR_INVALID_ARGUMENT) w
           else go h (Create_Reserve t stack_limit stack_base) w))"

definition create_reserve :: "u64 \<Rightarrow> ptr \<Rightarrow> u64 \<Rightarrow> u64 \<Rightarrow> thread_world \<Rightarrow> thread_world" where
  "create_reserve h t stack_limit stack_base w =
     (if owner_of w t \<noteq> 0 then go h (Release_Inactive t SL_ERROR_INVALID_STATE) w
      else go h (Create_Retain t stack_limit stack_base (th_process (tw_threads w t)))
             (set_thread t (\<lambda>T. T\<lparr>th_teb_owner_token := SL_TEB_OWNERSHIP_RESERVED\<rparr>) w))"

definition create_exchange ::
    "u64 \<Rightarrow> bool \<Rightarrow> ptr \<Rightarrow> u64 \<Rightarrow> u64 \<Rightarrow> ptr \<Rightarrow> u32 \<Rightarrow> thread_world \<Rightarrow> thread_world" where
  "create_exchange h spurious t stack_limit stack_base p references w =
     (case retain_exchange spurious p references w of
        (Retain_Refused, w) \<Rightarrow> go h (Create_Undo_Owner t SL_ERROR_INVALID_STATE) w
      | (Retained, w) \<Rightarrow> go h (Create_Build t stack_limit stack_base p) w
      | (Retain_Again references, w) \<Rightarrow> go h (Create_Exchange t stack_limit stack_base p references) w)"

text \<open>The writable pages of a new block.\<close>

definition teb_contents ::
    "nat \<Rightarrow> ptr \<Rightarrow> u64 \<Rightarrow> u64 \<Rightarrow> u32 \<Rightarrow> sl_win32_thread_context \<Rightarrow> ptr \<Rightarrow> bytes" where
  "teb_contents page_size bytes_address stack_limit stack_base pid T peb =
     (let block = replicate (page_size * SL_TEB_WRITABLE_PAGE_COUNT) 0;
          block = store_uintptr block SL_WIN32_TEB_STACK_BASE_OFFSET stack_base;
          block = store_uintptr block SL_WIN32_TEB_STACK_LIMIT_OFFSET stack_limit;
          block = store_uintptr block SL_WIN32_TEB_SELF_OFFSET bytes_address;
          block = store_uintptr block SL_WIN32_TEB_PROCESS_ID_OFFSET (ucast pid);
          block = store_uintptr block SL_WIN32_TEB_THREAD_ID_OFFSET (ucast (th_thread_id T));
          block = store_uintptr block SL_WIN32_TEB_PEB_OFFSET peb
      in store_u32_at block SL_WIN32_TEB_LAST_ERROR_OFFSET (th_last_error T))"

text \<open>The block with its address, or the status of what failed.\<close>

definition build_teb ::
    "thread_answers \<Rightarrow> ptr \<Rightarrow> u64 \<Rightarrow> u64 \<Rightarrow> ptr \<Rightarrow> thread_world \<Rightarrow> (ptr \<times> sl_win32_teb) result" where
  "build_teb a t stack_limit stack_base p w =
     (let page_size = nat (an_sysconf a);
          required_teb_size = SL_WIN32_TEB_TLS_SLOTS_OFFSET + SL_WIN32_TEB_TLS_SLOT_COUNT * 8
      in if an_sysconf a \<le> 0 \<or> page_size > SIZE_MAX then Inl SL_ERROR_MEMORY_MAPPING
         else if page_size > SIZE_MAX div SL_TEB_TOTAL_PAGE_COUNT \<or>
                 page_size * SL_TEB_WRITABLE_PAGE_COUNT < required_teb_size
         then Inl SL_ERROR_MEMORY_MAPPING
         else case an_calloc a of
           None \<Rightarrow> Inl SL_ERROR_OUT_OF_MEMORY
         | Some b \<Rightarrow>
             (case an_mmap a of
                None \<Rightarrow> Inl SL_ERROR_MEMORY_MAPPING
              | Some mapping \<Rightarrow>
                  if \<not> an_mprotect_ok a then Inl SL_ERROR_MEMORY_PROTECTION
                  else let bytes_address = mapping + of_nat page_size
                  in Inr (b, \<lparr>tb_process = p, tb_thread = t, tb_stack_limit = stack_limit,
                       tb_stack_base = stack_base, tb_attached = False, tb_mapping = mapping,
                       tb_mapping_size = page_size * SL_TEB_TOTAL_PAGE_COUNT, tb_bytes_address = bytes_address,
                       tb_bytes = teb_contents page_size bytes_address stack_limit stack_base (an_getpid a)
                         (tw_threads w t) (sl_win32_process_peb (Some (tw_processes w p)))\<rparr>)))"

definition create_build ::
    "u64 \<Rightarrow> thread_answers \<Rightarrow> ptr \<Rightarrow> u64 \<Rightarrow> u64 \<Rightarrow> ptr \<Rightarrow> thread_world \<Rightarrow> thread_world" where
  "create_build h a t stack_limit stack_base p w =
     (case build_teb a t stack_limit stack_base p w of
        Inl status \<Rightarrow> go h (Create_Undo_Process t p status) w
      | Inr (b, teb) \<Rightarrow> go h (Create_Publish t b) (w\<lparr>tw_tebs := (tw_tebs w)(b := Some teb)\<rparr>))"

definition create_publish :: "u64 \<Rightarrow> ptr \<Rightarrow> ptr \<Rightarrow> thread_world \<Rightarrow> thread_world" where
  "create_publish h t b w =
     go h (Release_Inactive t SL_OK) (set_host h (\<lambda>H. H\<lparr>ho_out_teb := b\<rparr>)
       (set_thread t (\<lambda>T. T\<lparr>th_teb_owner_token := b\<rparr>) w))"

text \<open>A block pointer that is not \<open>NULL\<close> is one of a live block.\<close>

abbreviation teb_at :: "thread_world \<Rightarrow> ptr \<Rightarrow> sl_win32_teb" where
  "teb_at w b \<equiv> the (tw_tebs w b)"

definition set_teb :: "ptr \<Rightarrow> (sl_win32_teb \<Rightarrow> sl_win32_teb) \<Rightarrow> thread_world \<Rightarrow> thread_world" where
  "set_teb b f w = w\<lparr>tw_tebs := (tw_tebs w)(b := Some (f (teb_at w b)))\<rparr>"

definition begin_destroy :: "u64 \<Rightarrow> ptr \<Rightarrow> thread_world \<Rightarrow> thread_world" where
  "begin_destroy h b w =
     (if b = NULL then go h (Idle SL_ERROR_INVALID_ARGUMENT) w
      else let t = tb_thread (teb_at w b)
      in (case sl_win32_context_claim_inactive h t w of (status, w) \<Rightarrow>
        if status \<noteq> SL_OK then go h (Idle status) w
        else if tb_attached (teb_at w b) then go h (Release_Inactive t SL_ERROR_INVALID_STATE) w
        else go h (Destroy_Reserve t b) w))"

definition destroy_reserve :: "u64 \<Rightarrow> ptr \<Rightarrow> ptr \<Rightarrow> thread_world \<Rightarrow> thread_world" where
  "destroy_reserve h t b w =
     (if owner_of w t \<noteq> b then go h (Release_Inactive t SL_ERROR_INVALID_STATE) w
      else go h (Destroy_Unmap t b) (set_thread t (\<lambda>T. T\<lparr>th_teb_owner_token := SL_TEB_OWNERSHIP_RESERVED\<rparr>) w))"

definition sl_win32_teb_base :: "sl_win32_teb option \<Rightarrow> ptr" where
  "sl_win32_teb_base teb = (case teb of None \<Rightarrow> NULL | Some T \<Rightarrow> tb_bytes_address T)"

definition sl_win32_teb_last_error :: "sl_win32_teb option \<Rightarrow> ptr" where
  "sl_win32_teb_last_error teb = (case teb of None \<Rightarrow> NULL
     | Some T \<Rightarrow> tb_bytes_address T + of_nat SL_WIN32_TEB_LAST_ERROR_OFFSET)"

definition begin_attach :: "u64 \<Rightarrow> ptr \<Rightarrow> ptr \<Rightarrow> thread_world \<Rightarrow> thread_world" where
  "begin_attach h t b w =
     (if t = NULL \<or> b = NULL then go h (Idle SL_ERROR_INVALID_ARGUMENT) w
      else (case sl_win32_context_claim_inactive h t w of (status, w) \<Rightarrow>
        if status \<noteq> SL_OK then go h (Idle status) w else go h (Attach_Check t b) w))"

definition attach_check :: "u64 \<Rightarrow> ptr \<Rightarrow> ptr \<Rightarrow> thread_world \<Rightarrow> thread_world" where
  "attach_check h t b w =
     (let T = tw_threads w t; B = teb_at w b
      in if th_process T \<noteq> tb_process B \<or> t \<noteq> tb_thread B \<or> th_teb T \<noteq> NULL \<or> th_last_error_address T \<noteq> NULL \<or>
            tb_attached B \<or> th_teb_owner_token T \<noteq> b
         then go h (Release_Inactive t SL_ERROR_INVALID_ARGUMENT) w
         else go h (Release_Inactive t SL_OK)
           (set_thread t (\<lambda>T. T\<lparr>th_teb := tb_bytes_address B,
              th_last_error_address := sl_win32_teb_last_error (Some B)\<rparr>)
           (set_teb b (\<lambda>B. B\<lparr>tb_bytes := store_u32_at (tb_bytes B) SL_WIN32_TEB_LAST_ERROR_OFFSET (th_last_error T),
              tb_attached := True\<rparr>) w)))"

definition begin_detach :: "u64 \<Rightarrow> ptr \<Rightarrow> ptr \<Rightarrow> thread_world \<Rightarrow> thread_world" where
  "begin_detach h t b w =
     (if t = NULL \<or> b = NULL then go h (Idle SL_ERROR_INVALID_ARGUMENT) w
      else (case sl_win32_context_claim_inactive h t w of (status, w) \<Rightarrow>
        let T = tw_threads w t; B = teb_at w b
        in if status \<noteq> SL_OK then go h (Idle status) w
           else if th_teb T \<noteq> tb_bytes_address B \<or> th_last_error_address T \<noteq> sl_win32_teb_last_error (Some B) \<or>
              t \<noteq> tb_thread B \<or> \<not> tb_attached B
           then go h (Release_Inactive t SL_ERROR_INVALID_STATE) w
           else go h (Release_Inactive t SL_OK)
             (set_thread t (\<lambda>T. T\<lparr>th_last_error :=
                  of_nat (le_value (take 4 (drop SL_WIN32_TEB_LAST_ERROR_OFFSET (tb_bytes B)))),
                th_last_error_address := NULL, th_teb := NULL\<rparr>)
             (set_teb b (\<lambda>B. B\<lparr>tb_attached := False\<rparr>) w))))"

section \<open>The next point\<close>

definition begin_call :: "u64 \<Rightarrow> thread_call \<Rightarrow> thread_world \<Rightarrow> thread_world" where
  "begin_call h call w = (case call of
     Enter t s \<Rightarrow> begin_enter h t s w
   | Leave s \<Rightarrow> begin_leave h s w
   | Teb_Create t stack_limit stack_base out \<Rightarrow> begin_create h t stack_limit stack_base out w
   | Teb_Destroy b \<Rightarrow> begin_destroy h b w
   | Attach t b \<Rightarrow> begin_attach h t b w
   | Detach t b \<Rightarrow> begin_detach h t b w)"

definition advance :: "u64 \<Rightarrow> thread_answers \<Rightarrow> thread_world \<Rightarrow> thread_world" where
  "advance h a w = (case ho_point (tw_hosts w h) of
     Idle status \<Rightarrow> w
   | Claim_Exchange t s \<Rightarrow> claim_exchange h t s w
   | Enter_Retain t s p \<Rightarrow> go h (Enter_Exchange t s p (references_of w p)) w
   | Enter_Exchange t s p references \<Rightarrow> enter_exchange h (an_spurious a) t s p references w
   | Enter_Undo t status \<Rightarrow> go h (Idle status) (release_thread_context h t w)
   | Leave_Process t p \<Rightarrow> go h (Leave_Thread t) (sl_win32_process_release p w)
   | Leave_Thread t \<Rightarrow> go h (Idle SL_OK) (release_thread_context h t w)
   | Create_Reserve t stack_limit stack_base \<Rightarrow> create_reserve h t stack_limit stack_base w
   | Create_Retain t stack_limit stack_base p \<Rightarrow>
       go h (Create_Exchange t stack_limit stack_base p (references_of w p)) w
   | Create_Exchange t stack_limit stack_base p references \<Rightarrow>
       create_exchange h (an_spurious a) t stack_limit stack_base p references w
   | Create_Build t stack_limit stack_base p \<Rightarrow> create_build h a t stack_limit stack_base p w
   | Create_Undo_Process t p status \<Rightarrow> go h (Create_Undo_Owner t status) (sl_win32_process_release p w)
   | Create_Undo_Owner t status \<Rightarrow>
       go h (Release_Inactive t status) (set_thread t (\<lambda>T. T\<lparr>th_teb_owner_token := 0\<rparr>) w)
   | Create_Publish t b \<Rightarrow> create_publish h t b w
   | Destroy_Reserve t b \<Rightarrow> destroy_reserve h t b w
   | Destroy_Unmap t b \<Rightarrow> go h (if an_munmap_ok a then Destroy_Clear t b else Destroy_Restore t b) w
   | Destroy_Restore t b \<Rightarrow>
       go h (Release_Inactive t SL_ERROR_MEMORY_MAPPING) (set_thread t (\<lambda>T. T\<lparr>th_teb_owner_token := b\<rparr>) w)
   | Destroy_Clear t b \<Rightarrow> go h (Destroy_Process t b) (set_thread t (\<lambda>T. T\<lparr>th_teb_owner_token := 0\<rparr>) w)
   | Destroy_Process t b \<Rightarrow> go h (Destroy_Free t b) (sl_win32_process_release (tb_process (teb_at w b)) w)
   | Destroy_Free t b \<Rightarrow>
       go h (Idle SL_OK) ((sl_win32_context_release_inactive h t w)\<lparr>tw_tebs := (tw_tebs w)(b := None)\<rparr>)
   | Attach_Check t b \<Rightarrow> attach_check h t b w
   | Release_Inactive t status \<Rightarrow> go h (Idle status) (sl_win32_context_release_inactive h t w))"

section \<open>Questions\<close>

definition sl_win32_context_current :: "thread_world \<Rightarrow> u64 \<Rightarrow> ptr" where
  "sl_win32_context_current w h = ho_current (tw_hosts w h)"

definition sl_win32_context_is_active :: "thread_world \<Rightarrow> ptr \<Rightarrow> bool" where
  "sl_win32_context_is_active w t \<longleftrightarrow> t \<noteq> NULL \<and> token_of w t \<noteq> 0"

text \<open>\<open>outs\<close> says whether the out pointers are given.\<close>

definition sl_win32_thread_stack_bounds :: "thread_world \<Rightarrow> ptr \<Rightarrow> bool \<Rightarrow> (u64 \<times> u64) result" where
  "sl_win32_thread_stack_bounds w t outs =
     (if t = NULL \<or> \<not> outs \<or> th_teb (tw_threads w t) = NULL then Inl SL_ERROR_INVALID_ARGUMENT
      else let owner = owner_of w t
      in if owner = 0 \<or> owner = SL_TEB_OWNERSHIP_RESERVED then Inl SL_ERROR_INVALID_STATE
         else let B = teb_at w owner
         in if \<not> tb_attached B \<or> tb_thread B \<noteq> t \<or> tb_bytes_address B \<noteq> th_teb (tw_threads w t) \<or>
               tb_stack_limit B \<ge> tb_stack_base B
            then Inl SL_ERROR_INVALID_STATE
            else Inr (tb_stack_limit B, tb_stack_base B))"

end
