(* ===== verification/Thread_Machine.thy ===== *)
theory Thread_Machine
  imports Thread_Context
begin

text \<open>
  What the points of the threads are about, and the first invariant: only the host thread that the token of a context
  names is at work on it, and the counter of its scopes is exact. Every operation keeps it.
\<close>

section \<open>Points\<close>

text \<open>What a point is about: the context it holds an entered claim on, the context it holds alone, whether the
  block of that context is reserved, and the block.\<close>

fun point_claim :: "thread_point \<Rightarrow> ptr option" where
  "point_claim (Enter_Retain t s p) = Some t"
| "point_claim (Enter_Exchange t s p r) = Some t"
| "point_claim (Enter_Undo t status) = Some t"
| "point_claim (Leave_Process t p) = Some t"
| "point_claim (Leave_Thread t) = Some t"
| "point_claim _ = None"

fun point_owns :: "thread_point \<Rightarrow> ptr option" where
  "point_owns (Create_Reserve t l b) = Some t"
| "point_owns (Create_Retain t l b p) = Some t"
| "point_owns (Create_Exchange t l b p r) = Some t"
| "point_owns (Create_Build t l b p) = Some t"
| "point_owns (Create_Undo_Process t p status) = Some t"
| "point_owns (Create_Undo_Owner t status) = Some t"
| "point_owns (Create_Publish t b) = Some t"
| "point_owns (Destroy_Reserve t b) = Some t"
| "point_owns (Destroy_Unmap t b) = Some t"
| "point_owns (Destroy_Restore t b) = Some t"
| "point_owns (Destroy_Clear t b) = Some t"
| "point_owns (Destroy_Process t b) = Some t"
| "point_owns (Destroy_Free t b) = Some t"
| "point_owns (Attach_Check t b) = Some t"
| "point_owns (Release_Inactive t status) = Some t"
| "point_owns _ = None"

fun point_reserved :: "thread_point \<Rightarrow> bool" where
  "point_reserved (Create_Retain t l b p) = True"
| "point_reserved (Create_Exchange t l b p r) = True"
| "point_reserved (Create_Build t l b p) = True"
| "point_reserved (Create_Undo_Process t p status) = True"
| "point_reserved (Create_Undo_Owner t status) = True"
| "point_reserved (Create_Publish t b) = True"
| "point_reserved (Destroy_Unmap t b) = True"
| "point_reserved (Destroy_Restore t b) = True"
| "point_reserved (Destroy_Clear t b) = True"
| "point_reserved _ = False"

fun point_teb :: "thread_point \<Rightarrow> ptr option" where
  "point_teb (Create_Publish t b) = Some b"
| "point_teb (Destroy_Reserve t b) = Some b"
| "point_teb (Destroy_Unmap t b) = Some b"
| "point_teb (Destroy_Restore t b) = Some b"
| "point_teb (Destroy_Clear t b) = Some b"
| "point_teb (Destroy_Process t b) = Some b"
| "point_teb (Destroy_Free t b) = Some b"
| "point_teb (Attach_Check t b) = Some b"
| "point_teb _ = None"

lemma owner_has_no_claim: "point_owns point = Some t \<Longrightarrow> point_claim point = None"
  by (cases point) simp_all

section \<open>Reading the state after a step\<close>

lemma go_simps [simp]:
  "tw_hosts (go h point w) = (tw_hosts w)(h := (tw_hosts w h)\<lparr>ho_point := point\<rparr>)"
  "tw_threads (go h point w) = tw_threads w" "tw_processes (go h point w) = tw_processes w"
  "tw_tebs (go h point w) = tw_tebs w" "tw_aborted (go h point w) = tw_aborted w"
  by (simp_all add: go_def set_host_def)

lemma set_host_simps [simp]:
  "tw_hosts (set_host h f w) = (tw_hosts w)(h := f (tw_hosts w h))"
  "tw_threads (set_host h f w) = tw_threads w" "tw_processes (set_host h f w) = tw_processes w"
  "tw_tebs (set_host h f w) = tw_tebs w" "tw_aborted (set_host h f w) = tw_aborted w"
  by (simp_all add: set_host_def)

lemma install_scope_simps [simp]:
  "tw_hosts (install_scope h t s p w) = (tw_hosts w)(h := (tw_hosts w h)\<lparr>ho_current := t,
     ho_scopes := \<lparr>cs_address = s, cs_previous = ho_current (tw_hosts w h), cs_installed = t,
       cs_retained_process = p\<rparr> # ho_scopes (tw_hosts w h), ho_point := Idle SL_OK\<rparr>)"
  "tw_threads (install_scope h t s p w) = tw_threads w" "tw_processes (install_scope h t s p w) = tw_processes w"
  "tw_tebs (install_scope h t s p w) = tw_tebs w" "tw_aborted (install_scope h t s p w) = tw_aborted w"
  by (simp_all add: install_scope_def)

lemma set_thread_simps [simp]:
  "tw_threads (set_thread t f w) = (tw_threads w)(t := f (tw_threads w t))"
  "tw_hosts (set_thread t f w) = tw_hosts w" "tw_processes (set_thread t f w) = tw_processes w"
  "tw_tebs (set_thread t f w) = tw_tebs w" "tw_aborted (set_thread t f w) = tw_aborted w"
  by (simp_all add: set_thread_def)

lemma set_references_simps [simp]:
  "references_of (set_references p n w) q = (if q = p then n else references_of w q)"
  "tw_hosts (set_references p n w) = tw_hosts w" "tw_threads (set_references p n w) = tw_threads w"
  "tw_tebs (set_references p n w) = tw_tebs w" "tw_aborted (set_references p n w) = tw_aborted w"
  by (simp_all add: set_references_def)

lemma set_teb_simps [simp]:
  "tw_tebs (set_teb b f w) = (tw_tebs w)(b := Some (f (teb_at w b)))"
  "tw_hosts (set_teb b f w) = tw_hosts w" "tw_threads (set_teb b f w) = tw_threads w"
  "tw_processes (set_teb b f w) = tw_processes w" "tw_aborted (set_teb b f w) = tw_aborted w"
  by (simp_all add: set_teb_def)

section \<open>Contexts and their counters\<close>

text \<open>How often a host thread has entered a context, the operation it is in included.\<close>

definition entered :: "host_thread \<Rightarrow> ptr \<Rightarrow> nat" where
  "entered H t = length (filter (\<lambda>sc. cs_installed sc = t) (ho_scopes H))"

definition claims :: "host_thread \<Rightarrow> ptr \<Rightarrow> nat" where
  "claims H t = entered H t + (if point_claim (ho_point H) = Some t then 1 else 0)"

lemma entered_simps [simp]:
  "entered (H\<lparr>ho_point := point\<rparr>) t = entered H t"
  "entered (H\<lparr>ho_current := c, ho_scopes := sc # scopes, ho_point := point\<rparr>) t =
     (if cs_installed sc = t then 1 else 0) + entered (H\<lparr>ho_scopes := scopes\<rparr>) t"
  by (simp_all add: entered_def)

abbreviation owns :: "host_thread \<Rightarrow> ptr \<Rightarrow> bool" where
  "owns H t \<equiv> point_owns (ho_point H) = Some t"

text \<open>Only the host thread that the token names has entered the context or holds it alone; without a token
  nobody has, and the counter is exact.\<close>

definition thread_ok :: "(u64 \<Rightarrow> host_thread) \<Rightarrow> ptr \<Rightarrow> u64 \<Rightarrow> u32 \<Rightarrow> bool" where
  "thread_ok hosts t k n \<longleftrightarrow>
     (if k = 0 then n = 0 \<and> (\<forall>h. claims (hosts h) t = 0 \<and> \<not> owns (hosts h) t)
      else (\<forall>h. h \<noteq> k \<longrightarrow> claims (hosts h) t = 0 \<and> \<not> owns (hosts h) t) \<and>
        (if owns (hosts k) t then n = 0 \<and> claims (hosts k) t = 0
         else n \<noteq> 0 \<and> unat n = claims (hosts k) t))"

definition threads_ok :: "thread_world \<Rightarrow> bool" where
  "threads_ok w \<longleftrightarrow> (\<forall>t. thread_ok (tw_hosts w) t (token_of w t) (scope_count w t))"

lemma threads_okD: "threads_ok w \<Longrightarrow> thread_ok (tw_hosts w) t (token_of w t) (scope_count w t)"
  by (simp add: threads_ok_def)

lemma unat_inc_u32: "c \<noteq> UINT_MAX \<Longrightarrow> unat (c + 1) = unat c + 1"
  using unat_u32_le [of c]
  by (subst unat_add_no_wrap) (auto simp: UINT_MAX_def word_unat_eq_iff simp del: unat_u32_le)

lemma unat_dec_u32: "(c :: u32) \<noteq> 0 \<Longrightarrow> unat (c - 1) = unat c - 1"
  by (simp add: unat_minus_one)

lemma thread_ok_keep:
  "thread_ok hosts t k n \<Longrightarrow> claims H t = claims (hosts h) t \<Longrightarrow> owns H t = owns (hosts h) t \<Longrightarrow>
     thread_ok (hosts(h := H)) t k n"
  by (auto simp: thread_ok_def)

lemma thread_ok_first:
  "thread_ok hosts t 0 n \<Longrightarrow> h \<noteq> 0 \<Longrightarrow> claims H t = 1 \<Longrightarrow> \<not> owns H t \<Longrightarrow> thread_ok (hosts(h := H)) t h 1"
  by (auto simp: thread_ok_def)

lemma thread_ok_again:
  "thread_ok hosts t h n \<Longrightarrow> h \<noteq> 0 \<Longrightarrow> \<not> owns (hosts h) t \<Longrightarrow> n \<noteq> UINT_MAX \<Longrightarrow> claims H t = claims (hosts h) t + 1 \<Longrightarrow>
     \<not> owns H t \<Longrightarrow> thread_ok (hosts(h := H)) t h (n + 1)"
  using unat_inc_u32 [of n] by (auto simp: thread_ok_def)

lemma thread_ok_own:
  "thread_ok hosts t 0 n \<Longrightarrow> h \<noteq> 0 \<Longrightarrow> claims H t = 0 \<Longrightarrow> owns H t \<Longrightarrow> thread_ok (hosts(h := H)) t h n"
  by (auto simp: thread_ok_def)

lemma thread_ok_disown:
  "thread_ok hosts t k n \<Longrightarrow> owns (hosts h) t \<Longrightarrow> claims H t = claims (hosts h) t \<Longrightarrow> \<not> owns H t \<Longrightarrow> h \<noteq> 0 \<Longrightarrow>
     k = h \<and> n = 0 \<and> thread_ok (hosts(h := H)) t 0 n"
  by (cases "k = h") (auto simp: thread_ok_def split: if_splits)

lemma thread_ok_release:
  assumes "thread_ok hosts t k n" "claims (hosts h) t = claims H t + 1" "\<not> owns (hosts h) t" "\<not> owns H t" "h \<noteq> 0"
  shows "k = h \<and> n \<noteq> 0 \<and> thread_ok (hosts(h := H)) t (if n - 1 = 0 then 0 else k) (n - 1)"
proof -
  have k: "k = h" "n \<noteq> 0" "unat n = claims H t + 1" "\<forall>h'. h' \<noteq> k \<longrightarrow> claims (hosts h') t = 0 \<and> \<not> owns (hosts h') t"
  proof -
    show "k = h"
      using assms(1,2) by (rule_tac ccontr) (auto simp: thread_ok_def split: if_splits)
    then show "n \<noteq> 0" "unat n = claims H t + 1" "\<forall>h'. h' \<noteq> k \<longrightarrow> claims (hosts h') t = 0 \<and> \<not> owns (hosts h') t"
      using assms by (simp_all add: thread_ok_def)
  qed
  have "unat (n - 1) = claims H t"
    using unat_dec_u32 [OF k(2)] k(3) by simp
  moreover have "n - 1 = 0 \<longleftrightarrow> unat (n - 1) = 0"
    by (simp add: unat_eq_0)
  ultimately have n: "n - 1 = 0 \<longleftrightarrow> claims H t = 0" "unat (n - 1) = claims H t"
    by simp_all
  show ?thesis
  proof (cases "n - 1 = 0")
    case True
    then have "thread_ok (hosts(h := H)) t 0 0"
      using n k(1,4) assms(4,5) by (auto simp: thread_ok_def)
    then show ?thesis
      using True k by simp
  next
    case False
    then show ?thesis
      using n k assms(4,5) by (auto simp: thread_ok_def)
  qed
qed

text \<open>A step of one host thread that concerns one context.\<close>

lemma threads_ok_step:
  assumes "threads_ok w" "tw_hosts w' = (tw_hosts w)(h := H)"
    and "\<And>t'. t' \<noteq> t \<Longrightarrow> claims H t' = claims (tw_hosts w h) t' \<and> owns H t' = owns (tw_hosts w h) t' \<and>
      token_of w' t' = token_of w t' \<and> scope_count w' t' = scope_count w t'"
    and "thread_ok ((tw_hosts w)(h := H)) t (token_of w' t) (scope_count w' t)"
  shows "threads_ok w'"
  unfolding threads_ok_def
proof
  fix t'
  show "thread_ok (tw_hosts w') t' (token_of w' t') (scope_count w' t')"
  proof (cases "t' = t")
    case True
    then show ?thesis
      using assms(2,4) by simp
  next
    case False
    then show ?thesis
      using assms(3) [OF False] thread_ok_keep [OF threads_okD [OF assms(1), of t'], of H h] assms(2) by simp
  qed
qed

lemma threads_ok_keep:
  assumes "threads_ok w" "tw_hosts w' = (tw_hosts w)(h := H)"
    and "\<And>t. claims H t = claims (tw_hosts w h) t" "point_owns (ho_point H) = point_owns (ho_point (tw_hosts w h))"
    and "\<And>t. token_of w' t = token_of w t \<and> scope_count w' t = scope_count w t"
  shows "threads_ok w'"
  unfolding threads_ok_def
  using thread_ok_keep [OF threads_okD [OF assms(1)], of H _ h] assms by simp

text \<open>The pieces that change a token or a counter.\<close>

lemma claim_inactive_threads:
  assumes "threads_ok w" "h \<noteq> 0" "ho_point (tw_hosts w h) = Idle st" "\<not> tw_aborted w"
    and "sl_win32_context_claim_inactive h t w = (status, w1)"
  shows "tw_hosts w1 = tw_hosts w \<and> tw_tebs w1 = tw_tebs w \<and> tw_processes w1 = tw_processes w \<and> \<not> tw_aborted w1 \<and>
    (if status = SL_OK
     then t \<noteq> NULL \<and> token_of w t = 0 \<and> w1 = set_thread t (\<lambda>T. T\<lparr>th_host_thread_token := h\<rparr>) w \<and>
       (\<forall>point. point_owns point = Some t \<longrightarrow> point_claim point = None \<longrightarrow> threads_ok (go h point w1))
     else w1 = w)"
proof (cases "status = SL_OK")
  case True
  then have t: "t \<noteq> NULL" "token_of w t = 0"
    using assms(5) by (auto simp: sl_win32_context_claim_inactive_def split: if_splits)
  have n: "scope_count w t = 0" "claims (tw_hosts w h) t = 0"
    using threads_okD [OF assms(1), of t] t(2) by (simp_all add: thread_ok_def)
  have w1: "w1 = set_thread t (\<lambda>T. T\<lparr>th_host_thread_token := h\<rparr>) w"
    using assms(5) t n(1) by (simp add: sl_win32_context_claim_inactive_def Let_def)
  have "threads_ok (go h point w1)" if "point_owns point = Some t" "point_claim point = None" for point
  proof (rule threads_ok_step [OF assms(1), of _ h _ t])
    show "tw_hosts (go h point w1) = (tw_hosts w)(h := (tw_hosts w h)\<lparr>ho_point := point\<rparr>)"
      by (simp add: w1)
    show "thread_ok ((tw_hosts w)(h := (tw_hosts w h)\<lparr>ho_point := point\<rparr>)) t (token_of (go h point w1) t)
        (scope_count (go h point w1) t)"
      using thread_ok_own [of "tw_hosts w" t "scope_count w t" h "(tw_hosts w h)\<lparr>ho_point := point\<rparr>"]
        threads_okD [OF assms(1), of t] t(2) that n(2) assms(2,3) by (simp add: w1 claims_def)
  qed (use that assms(3) in \<open>auto simp: w1 claims_def\<close>)
  then show ?thesis
    using True t w1 assms(4) by simp
next
  case False
  then have "w1 = w"
    using assms(5) by (auto simp: sl_win32_context_claim_inactive_def Let_def split: if_splits)
  then show ?thesis
    using False assms(4) by simp
qed

lemma claim_inactive_own:
  assumes "threads_ok w" "h \<noteq> 0" "ho_point (tw_hosts w h) = Idle st" "\<not> tw_aborted w"
    and "sl_win32_context_claim_inactive h t w = (SL_OK, w1)" "point_owns point = Some t"
  shows "threads_ok (go h point w1)"
  using claim_inactive_threads [OF assms(1-5)] owner_has_no_claim [OF assms(6)] assms(6)
  unfolding if_P [OF refl] by blast

lemma release_inactive_threads:
  assumes "threads_ok w" "h \<noteq> 0" "point_owns (ho_point (tw_hosts w h)) = Some t" "t \<noteq> NULL"
  shows "sl_win32_context_release_inactive h t w = set_thread t (\<lambda>T. T\<lparr>th_host_thread_token := 0\<rparr>) w \<and>
    threads_ok (go h (Idle status) (sl_win32_context_release_inactive h t w))"
proof -
  let ?H = "(tw_hosts w h)\<lparr>ho_point := Idle status\<rparr>"
  have c: "claims ?H t' = claims (tw_hosts w h) t'" for t'
    using owner_has_no_claim [OF assms(3)] by (simp add: claims_def)
  have k: "token_of w t = h \<and> scope_count w t = 0 \<and> thread_ok ((tw_hosts w)(h := ?H)) t 0 (scope_count w t)"
    by (rule thread_ok_disown [OF threads_okD [OF assms(1), of t] assms(3) c _ assms(2)]) simp
  then have w1: "sl_win32_context_release_inactive h t w = set_thread t (\<lambda>T. T\<lparr>th_host_thread_token := 0\<rparr>) w"
    using assms(4) by (simp add: sl_win32_context_release_inactive_def)
  have "threads_ok (go h (Idle status) (sl_win32_context_release_inactive h t w))"
    by (rule threads_ok_step [OF assms(1), of _ h ?H t]) (use k assms(3) c in \<open>auto simp: w1\<close>)
  then show ?thesis
    using w1 by simp
qed

lemma release_context_threads:
  assumes "threads_ok w" "h \<noteq> 0" "point_claim (ho_point (tw_hosts w h)) = Some t"
  shows "threads_ok (go h (Idle status) (release_thread_context h t w)) \<and>
    release_thread_context h t w = set_thread t (\<lambda>T. T\<lparr>th_active_scope_count := th_active_scope_count T - 1,
      th_host_thread_token := (if th_active_scope_count T - 1 = 0 then 0 else th_host_thread_token T)\<rparr>) w"
proof -
  let ?H = "(tw_hosts w h)\<lparr>ho_point := Idle status\<rparr>"
  have o: "point_owns (ho_point (tw_hosts w h)) = None"
    using assms(3) owner_has_no_claim by (cases "point_owns (ho_point (tw_hosts w h))") auto
  have c: "claims (tw_hosts w h) t' = claims ?H t' + (if t' = t then 1 else 0)" for t'
    using assms(3) by (simp add: claims_def)
  have k: "token_of w t = h \<and> scope_count w t \<noteq> 0 \<and>
      thread_ok ((tw_hosts w)(h := ?H)) t (if scope_count w t - 1 = 0 then 0 else token_of w t) (scope_count w t - 1)"
    by (rule thread_ok_release [OF threads_okD [OF assms(1), of t]]) (use assms(2) c o in simp_all)
  then have w1: "release_thread_context h t w = set_thread t (\<lambda>T. T\<lparr>th_active_scope_count := th_active_scope_count T - 1,
      th_host_thread_token := (if th_active_scope_count T - 1 = 0 then 0 else th_host_thread_token T)\<rparr>) w"
    by (simp add: release_thread_context_def Let_def set_thread_def)
  have "threads_ok (go h (Idle status) (release_thread_context h t w))"
    by (rule threads_ok_step [OF assms(1), of _ h ?H t]) (use k o c in \<open>simp_all add: w1\<close>)
  then show ?thesis
    using w1 by simp
qed

text \<open>Steps that only go to another point, or change neither token nor counter.\<close>

lemma same_tokens_threads:
  assumes "threads_ok w" "tw_hosts w' = (tw_hosts w)(h := H)" "ho_scopes H = ho_scopes (tw_hosts w h)"
    and "point_claim (ho_point H) = point_claim (ho_point (tw_hosts w h))"
    and "point_owns (ho_point H) = point_owns (ho_point (tw_hosts w h))"
    and "\<And>t. token_of w' t = token_of w t \<and> scope_count w' t = scope_count w t"
  shows "threads_ok w'"
  by (rule threads_ok_keep [OF assms(1,2) _ assms(5,6)]) (simp add: claims_def entered_def assms(3,4))

lemma go_threads:
  assumes "threads_ok w" "point_claim (ho_point (tw_hosts w h)) = point_claim point"
    and "point_owns (ho_point (tw_hosts w h)) = point_owns point"
  shows "threads_ok (go h point w)"
  by (rule same_tokens_threads [OF assms(1), of _ h "(tw_hosts w h)\<lparr>ho_point := point\<rparr>"]) (use assms in simp_all)

lemma enter_claimed_threads:
  assumes "threads_ok w" "tw_hosts w1 = tw_hosts w"
    and "point_claim (ho_point (tw_hosts w h)) = None" "point_owns (ho_point (tw_hosts w h)) = None"
    and "\<And>t'. t' \<noteq> t \<Longrightarrow> token_of w1 t' = token_of w t' \<and> scope_count w1 t' = scope_count w t'"
    and "\<And>H. claims H t = claims (tw_hosts w h) t + 1 \<Longrightarrow> \<not> owns H t \<Longrightarrow>
      thread_ok ((tw_hosts w)(h := H)) t (token_of w1 t) (scope_count w1 t)"
  shows "threads_ok (enter_claimed h t s w1)"
proof (cases "th_process (tw_threads w1 t) = NULL")
  case True
  show ?thesis
    by (rule threads_ok_step [OF assms(1), of _ h _ t])
      (use True assms(2-6) in \<open>auto simp: enter_claimed_def Let_def claims_def entered_def\<close>)
next
  case False
  show ?thesis
    by (rule threads_ok_step [OF assms(1), of _ h _ t])
      (use False assms(2-6) in \<open>auto simp: enter_claimed_def Let_def claims_def\<close>)
qed

lemma begin_enter_threads:
  assumes "threads_ok w" "h \<noteq> 0" "ho_point (tw_hosts w h) = Idle st"
  shows "threads_ok (begin_enter h t s w)"
proof -
  have stay: "threads_ok (go h point w)" if "point_claim point = None" "point_owns point = None" for point
    by (rule go_threads [OF assms(1)]) (use that assms(3) in simp_all)
  have again: "threads_ok (enter_claimed h t s
      (set_thread t (\<lambda>T. T\<lparr>th_active_scope_count := th_active_scope_count T + 1\<rparr>) w))"
    if "token_of w t = h" "scope_count w t \<noteq> UINT_MAX"
    by (rule enter_claimed_threads [OF assms(1)])
      (use that assms(2,3) thread_ok_again [OF threads_okD [OF assms(1), of t, unfolded that(1)] assms(2)] in simp_all)
  show ?thesis
    unfolding begin_enter_def Let_def using stay again by auto
qed

lemma claim_exchange_threads:
  assumes "threads_ok w" "h \<noteq> 0" "ho_point (tw_hosts w h) = Claim_Exchange t s"
  shows "threads_ok (claim_exchange h t s w)"
proof (cases "token_of w t = 0")
  case True
  note ok = threads_okD [OF assms(1), of t, unfolded True]
  have "claims (tw_hosts w h) t = 0"
    using ok by (simp add: thread_ok_def)
  then have "threads_ok (enter_claimed h t s
      (set_thread t (\<lambda>T. T\<lparr>th_host_thread_token := h, th_active_scope_count := 1\<rparr>) w))"
    by (intro enter_claimed_threads [OF assms(1)])
      (use assms(2,3) thread_ok_first [OF ok assms(2)] in simp_all)
  then show ?thesis
    using True by (simp add: claim_exchange_def)
next
  case False
  have "threads_ok (go h (Idle SL_ERROR_INVALID_STATE) w)"
    by (rule go_threads [OF assms(1)]) (use assms(3) in simp_all)
  then show ?thesis
    using False by (simp add: claim_exchange_def)
qed

lemma begin_leave_threads:
  assumes "threads_ok w" "ho_point (tw_hosts w h) = Idle st"
  shows "threads_ok (begin_leave h s w)"
proof -
  have stay: "threads_ok (go h (Idle status) w)" for status
    by (rule go_threads [OF assms(1)]) (use assms(2) in simp_all)
  have leave: "threads_ok (set_host h (\<lambda>H. H\<lparr>ho_current := c, ho_scopes := rest, ho_point := point\<rparr>) w)"
    if "ho_scopes (tw_hosts w h) = sc # rest" "point_claim point = Some (cs_installed sc)" for sc rest point c
  proof -
    have "point_owns point = None"
      using that(2) owner_has_no_claim by (cases "point_owns point") auto
    then show ?thesis
      by (intro threads_ok_keep [OF assms(1), of _ h
            "(tw_hosts w h)\<lparr>ho_current := c, ho_scopes := rest, ho_point := point\<rparr>"]) (use that assms(2) in \<open>auto simp: claims_def entered_def\<close>)
  qed
  show ?thesis
    unfolding begin_leave_def using stay leave by (cases "ho_scopes (tw_hosts w h)") auto
qed

lemma begin_create_threads:
  assumes "threads_ok w" "h \<noteq> 0" "ho_point (tw_hosts w h) = Idle st" "\<not> tw_aborted w"
  shows "threads_ok (begin_create h t l b out w) \<and> \<not> tw_aborted (begin_create h t l b out w)"
proof -
  let ?w = "set_host h (\<lambda>H. H\<lparr>ho_out_teb := NULL\<rparr>) w"
  have w: "threads_ok ?w"
    by (rule same_tokens_threads [OF assms(1), of _ h "(tw_hosts w h)\<lparr>ho_out_teb := NULL\<rparr>"]) simp_all
  have stay: "threads_ok (go h (Idle status) w)" "threads_ok (go h (Idle status) ?w)" for status
    by (rule go_threads [OF assms(1)], use assms(3) in simp_all)
      (rule go_threads [OF w], use assms(3) in simp_all)
  obtain status w1 where c: "sl_win32_context_claim_inactive h t ?w = (status, w1)"
    by fastforce
  note claimed = claim_inactive_threads [OF w assms(2) _ _ c, of st]
  show ?thesis
    using stay claimed assms(3,4) by (auto simp: begin_create_def Let_def c)
qed

lemma begin_destroy_threads:
  assumes "threads_ok w" "h \<noteq> 0" "ho_point (tw_hosts w h) = Idle st" "\<not> tw_aborted w"
  shows "threads_ok (begin_destroy h b w) \<and> \<not> tw_aborted (begin_destroy h b w)"
proof -
  have stay: "threads_ok (go h (Idle status) w)" for status
    by (rule go_threads [OF assms(1)]) (use assms(3) in simp_all)
  obtain status w1 where c: "sl_win32_context_claim_inactive h (tb_thread (teb_at w b)) w = (status, w1)"
    by fastforce
  show ?thesis
    using stay claim_inactive_threads [OF assms c] assms(4) by (auto simp: begin_destroy_def Let_def c)
qed

lemma begin_attach_threads:
  assumes "threads_ok w" "h \<noteq> 0" "ho_point (tw_hosts w h) = Idle st" "\<not> tw_aborted w"
  shows "threads_ok (begin_attach h t b w) \<and> \<not> tw_aborted (begin_attach h t b w)"
proof -
  have stay: "threads_ok (go h (Idle status) w)" for status
    by (rule go_threads [OF assms(1)]) (use assms(3) in simp_all)
  obtain status w1 where c: "sl_win32_context_claim_inactive h t w = (status, w1)"
    by fastforce
  show ?thesis
    using stay claim_inactive_threads [OF assms c] assms(4) by (auto simp: begin_attach_def c)
qed

lemma begin_detach_threads:
  assumes "threads_ok w" "h \<noteq> 0" "ho_point (tw_hosts w h) = Idle st" "\<not> tw_aborted w"
  shows "threads_ok (begin_detach h t b w) \<and> \<not> tw_aborted (begin_detach h t b w)"
proof -
  have stay: "threads_ok (go h (Idle status) w)" for status
    by (rule go_threads [OF assms(1)]) (use assms(3) in simp_all)
  obtain status w1 where c: "sl_win32_context_claim_inactive h t w = (status, w1)"
    by fastforce
  note k = claim_inactive_threads [OF assms c]
  have "threads_ok (go h (Release_Inactive t SL_OK) (set_thread t f (set_teb b g w1)))"
    if "status = SL_OK" "\<And>T. th_host_thread_token (f T) = th_host_thread_token T"
      "\<And>T. th_active_scope_count (f T) = th_active_scope_count T" for f g
  proof (rule same_tokens_threads [where w = "go h (Release_Inactive t SL_OK) w1" and h = h
        and H = "(tw_hosts w h)\<lparr>ho_point := Release_Inactive t SL_OK\<rparr>"])
    show "threads_ok (go h (Release_Inactive t SL_OK) w1)"
      by (rule claim_inactive_own [OF assms c [unfolded that(1)]]) simp
  qed (use k that in simp_all)
  then show ?thesis
    using stay k assms(4) by (auto simp: begin_detach_def Let_def c)
qed

lemma attach_check_threads:
  assumes "threads_ok w" "ho_point (tw_hosts w h) = Attach_Check t b"
  shows "threads_ok (attach_check h t b w)"
proof -
  have refused: "threads_ok (go h (Release_Inactive t SL_ERROR_INVALID_ARGUMENT) w)"
    by (rule go_threads [OF assms(1)]) (use assms(2) in simp_all)
  have attached: "threads_ok (go h (Release_Inactive t SL_OK) (set_thread t f (set_teb b g w)))"
    if "\<And>T. th_host_thread_token (f T) = th_host_thread_token T"
      "\<And>T. th_active_scope_count (f T) = th_active_scope_count T" for f g
    by (rule same_tokens_threads [OF assms(1), of _ h "(tw_hosts w h)\<lparr>ho_point := Release_Inactive t SL_OK\<rparr>"])
      (use assms(2) that in simp_all)
  show ?thesis
    unfolding attach_check_def Let_def
  proof (split if_split, intro conjI impI)
    show "threads_ok (go h (Release_Inactive t SL_ERROR_INVALID_ARGUMENT) w)"
      by (rule refused)
  qed (rule attached; simp)
qed

text \<open>A step whose host thread goes on and that changes nothing of the tokens and counters.\<close>

lemma plain_threads:
  assumes "threads_ok w" "point_claim (ho_point (tw_hosts w h)) = point_claim point"
    and "point_owns (ho_point (tw_hosts w h)) = point_owns point" "tw_hosts w1 = tw_hosts w"
    and "\<And>t. token_of w1 t = token_of w t \<and> scope_count w1 t = scope_count w t"
  shows "threads_ok (go h point w1)"
  by (rule same_tokens_threads [OF assms(1), of _ h "(tw_hosts w h)\<lparr>ho_point := point\<rparr>"])
    (use assms in simp_all)

lemma process_release_simps [simp]:
  "tw_hosts (sl_win32_process_release p w) = tw_hosts w" "tw_threads (sl_win32_process_release p w) = tw_threads w"
  "tw_tebs (sl_win32_process_release p w) = tw_tebs w"
  "tw_aborted (sl_win32_process_release p w) \<longleftrightarrow> tw_aborted w \<or> references_of w p = 0"
  "references_of (sl_win32_process_release p w) q = (if q = p then references_of w p - 1 else references_of w q)"
  by (auto simp: sl_win32_process_release_def abort_def Let_def)

lemma retain_exchange_cases:
  obtains "references = UINT_MAX" "retain_exchange spurious p references w = (Retain_Refused, w)"
  | "references \<noteq> UINT_MAX" "references_of w p = references"
    "retain_exchange spurious p references w = (Retained, set_references p (references + 1) w)"
  | "references \<noteq> UINT_MAX" "retain_exchange spurious p references w = (Retain_Again (references_of w p), w)"
  by (cases "references = UINT_MAX"; cases "references_of w p = references \<and> \<not> spurious")
    (auto simp: retain_exchange_def)

lemma enter_exchange_threads:
  assumes "threads_ok w" "ho_point (tw_hosts w h) = Enter_Exchange t s p r"
  shows "threads_ok (enter_exchange h spurious t s p r w)"
proof (rule retain_exchange_cases [of r spurious p w])
  assume "retain_exchange spurious p r w = (Retained, set_references p (r + 1) w)"
  then show ?thesis
    by (simp only: enter_exchange_def prod.case retain_round.case)
      (rule threads_ok_keep [OF assms(1), of _ h "(tw_hosts w h)\<lparr>ho_current := t,
          ho_scopes := \<lparr>cs_address = s, cs_previous = ho_current (tw_hosts w h), cs_installed = t,
            cs_retained_process = p\<rparr> # ho_scopes (tw_hosts w h), ho_point := Idle SL_OK\<rparr>"],
        use assms(2) in \<open>auto simp: claims_def entered_def\<close>)
qed (use assms go_threads [OF assms(1), of h] in \<open>auto simp: enter_exchange_def\<close>)

lemma create_exchange_threads:
  assumes "threads_ok w" "ho_point (tw_hosts w h) = Create_Exchange t l b p r"
  shows "threads_ok (create_exchange h spurious t l b p r w)"
  by (rule retain_exchange_cases [of r spurious p w])
    (use assms(2) in \<open>auto simp: create_exchange_def intro!: plain_threads [OF assms(1)]\<close>)

lemma create_build_threads:
  assumes "threads_ok w" "ho_point (tw_hosts w h) = Create_Build t l b p"
  shows "threads_ok (create_build h a t l b p w)"
  by (cases "build_teb a t l b p w") (use assms(2) in \<open>auto simp: create_build_def intro!: plain_threads [OF assms(1)]\<close>)

lemma create_publish_threads:
  assumes "threads_ok w" "ho_point (tw_hosts w h) = Create_Publish t b"
  shows "threads_ok (create_publish h t b w)"
  by (rule same_tokens_threads [OF assms(1), of _ h "(tw_hosts w h)\<lparr>ho_out_teb := b, ho_point := Release_Inactive t SL_OK\<rparr>"])
    (use assms(2) in \<open>simp_all add: create_publish_def\<close>)

end
