(* ===== verification/Thread_Invariant.thy ===== *)
theory Thread_Invariant
  imports Thread_Machine
begin

text \<open>
  The other invariants of the threads: the scopes of a host thread, the blocks and their owners, and the counter of
  references of a process.
\<close>

section \<open>Scopes of a host thread\<close>

text \<open>The scopes are chained from the current context on, and no scope is entered twice.\<close>

fun scope_chain :: "ptr \<Rightarrow> sl_win32_context_scope list \<Rightarrow> bool" where
  "scope_chain current [] \<longleftrightarrow> current = NULL"
| "scope_chain current (sc # rest) \<longleftrightarrow> current = cs_installed sc \<and> current \<noteq> NULL \<and>
     cs_address sc \<notin> cs_address ` set rest \<and> scope_chain (cs_previous sc) rest"

fun enters_fresh :: "sl_win32_context_scope list \<Rightarrow> thread_point \<Rightarrow> bool" where
  "enters_fresh scopes (Claim_Exchange t s) \<longleftrightarrow> t \<noteq> NULL \<and> s \<notin> cs_address ` set scopes"
| "enters_fresh scopes (Enter_Retain t s p) \<longleftrightarrow> t \<noteq> NULL \<and> p \<noteq> NULL \<and> s \<notin> cs_address ` set scopes"
| "enters_fresh scopes (Enter_Exchange t s p r) \<longleftrightarrow> t \<noteq> NULL \<and> p \<noteq> NULL \<and> s \<notin> cs_address ` set scopes"
| "enters_fresh scopes (Leave_Process t p) \<longleftrightarrow> p \<noteq> NULL"
| "enters_fresh scopes (Create_Retain t l b p) \<longleftrightarrow> t \<noteq> NULL \<and> p \<noteq> NULL"
| "enters_fresh scopes (Create_Exchange t l b p r) \<longleftrightarrow> t \<noteq> NULL \<and> p \<noteq> NULL"
| "enters_fresh scopes (Create_Build t l b p) \<longleftrightarrow> t \<noteq> NULL \<and> p \<noteq> NULL"
| "enters_fresh scopes (Create_Undo_Process t p status) \<longleftrightarrow> t \<noteq> NULL \<and> p \<noteq> NULL"
| "enters_fresh scopes point \<longleftrightarrow> point_owns point \<noteq> Some NULL"

definition scopes_ok :: "host_thread \<Rightarrow> bool" where
  "scopes_ok H \<longleftrightarrow> scope_chain (ho_current H) (ho_scopes H) \<and> enters_fresh (ho_scopes H) (ho_point H)"

lemma host_owns: "scopes_ok H \<Longrightarrow> owns H t \<Longrightarrow> t \<noteq> NULL"
  by (cases "ho_point H") (auto simp: scopes_ok_def)

section \<open>Blocks and their owners\<close>

text \<open>What a block keeps for life.\<close>

definition teb_identity :: "sl_win32_teb \<Rightarrow> ptr \<times> ptr" where
  "teb_identity B = (tb_process B, tb_thread B)"

text \<open>The point of a host thread agrees with the owner token of the context it holds, and the block it works on is
  alive, of that context, and its own.\<close>

fun point_attaches :: "thread_point \<Rightarrow> bool" where
  "point_attaches (Attach_Check t b) = True"
| "point_attaches _ = False"

fun point_cleared :: "thread_point \<Rightarrow> bool" where
  "point_cleared (Destroy_Process t b) = True"
| "point_cleared (Destroy_Free t b) = True"
| "point_cleared _ = False"

fun point_reserves :: "thread_point \<Rightarrow> bool" where
  "point_reserves (Create_Reserve t l b) = True"
| "point_reserves _ = False"

definition teb_point_ok :: "thread_world \<Rightarrow> u64 \<Rightarrow> bool" where
  "teb_point_ok w h \<longleftrightarrow> (let point = ho_point (tw_hosts w h) in
     (\<forall>t. point_owns point = Some t \<longrightarrow>
        (point_reserved point \<longrightarrow> owner_of w t = SL_TEB_OWNERSHIP_RESERVED) \<and>
        (point_cleared point \<longrightarrow> owner_of w t = 0) \<and>
        (point_reserves point \<longrightarrow> th_process (tw_threads w t) \<noteq> NULL)) \<and>
     (\<forall>b. point_teb point = Some b \<longrightarrow>
        (\<forall>h'. h' \<noteq> h \<longrightarrow> point_teb (ho_point (tw_hosts w h')) \<noteq> Some b) \<and>
        (\<exists>p t. map_option teb_identity (tw_tebs w b) = Some (p, t) \<and>
           (\<not> point_attaches point \<longrightarrow> point_owns point = Some t))))"

text \<open>The block that owns a context is alive and the context's.\<close>

definition owner_ok :: "thread_world \<Rightarrow> ptr \<Rightarrow> bool" where
  "owner_ok w t \<longleftrightarrow> owner_of w t = 0 \<or> owner_of w t = SL_TEB_OWNERSHIP_RESERVED \<or>
     (\<exists>p. map_option teb_identity (tw_tebs w (owner_of w t)) = Some (p, t))"

definition tebs_ok :: "thread_world \<Rightarrow> bool" where
  "tebs_ok w \<longleftrightarrow> (\<forall>h. teb_point_ok w h) \<and> (\<forall>t. owner_ok w t) \<and>
     (\<forall>b p t. map_option teb_identity (tw_tebs w b) = Some (p, t) \<longrightarrow>
        b \<noteq> 0 \<and> b \<noteq> SL_TEB_OWNERSHIP_RESERVED \<and> p \<noteq> NULL)"

lemma tebs_okD:
  assumes "tebs_ok w"
  shows "teb_point_ok w h" "owner_ok w t"
    "map_option teb_identity (tw_tebs w b) = Some (p, t) \<Longrightarrow> b \<noteq> 0 \<and> b \<noteq> SL_TEB_OWNERSHIP_RESERVED \<and> p \<noteq> NULL"
  using assms unfolding tebs_ok_def by blast+

text \<open>A step of one host thread that keeps the blocks and changes at most the owner of a context no other
  works on.\<close>

lemma tebs_ok_step:
  assumes "tebs_ok w" "tw_hosts w' = (tw_hosts w)(h := H)"
    and kept: "\<And>b. map_option teb_identity (tw_tebs w' b) = map_option teb_identity (tw_tebs w b)"
    and others: "\<And>t'. t' \<noteq> t \<Longrightarrow> owner_of w' t' = owner_of w t' \<and>
      th_process (tw_threads w' t') = th_process (tw_threads w t')"
    and here: "(owner_of w' t = owner_of w t \<and> th_process (tw_threads w' t) = th_process (tw_threads w t)) \<or>
      (\<forall>h'. h' \<noteq> h \<longrightarrow> \<not> owns (tw_hosts w h') t)"
    and "teb_point_ok w' h" "owner_ok w' t"
  shows "tebs_ok w'"
proof -
  have "teb_point_ok w' h'" for h'
  proof (cases "h' = h")
    case False
    have "owner_of w' t' = owner_of w t' \<and> th_process (tw_threads w' t') = th_process (tw_threads w t')"
      if "owns (tw_hosts w h') t'" for t'
      using that others [of t'] here False by (cases "t' = t") auto
    moreover have "point_teb (ho_point H) \<noteq> Some b" if "point_teb (ho_point (tw_hosts w h')) = Some b" for b
      using assms(2,6) False that by (auto simp: teb_point_ok_def Let_def)
    ultimately show ?thesis
      using tebs_okD(1) [OF assms(1), of h'] False
      by (auto simp: teb_point_ok_def Let_def assms(2) kept)
  qed (use assms(6) in simp)
  moreover have "owner_ok w' t'" for t'
    using tebs_okD(2) [OF assms(1), of t'] assms(7) others [of t'] kept
    by (cases "t' = t") (simp_all add: owner_ok_def)
  ultimately show ?thesis
    using tebs_okD(3) [OF assms(1)] by (simp add: tebs_ok_def kept)
qed

section \<open>References\<close>

text \<open>Who holds a reference to a process: a scope, an operation under way, the block of a context.\<close>

datatype (plugins only: code size) holder = Scope_Holder u64 ptr | Call_Holder u64 | Teb_Holder ptr

fun point_process :: "(ptr \<Rightarrow> sl_win32_teb option) \<Rightarrow> thread_point \<Rightarrow> ptr option" where
  "point_process tebs (Leave_Process t p) = Some p"
| "point_process tebs (Create_Build t l b p) = Some p"
| "point_process tebs (Create_Undo_Process t p status) = Some p"
| "point_process tebs (Create_Publish t b) = map_option tb_process (tebs b)"
| "point_process tebs (Destroy_Unmap t b) = map_option tb_process (tebs b)"
| "point_process tebs (Destroy_Restore t b) = map_option tb_process (tebs b)"
| "point_process tebs (Destroy_Clear t b) = map_option tb_process (tebs b)"
| "point_process tebs (Destroy_Process t b) = map_option tb_process (tebs b)"
| "point_process tebs _ = None"

definition scope_of :: "host_thread \<Rightarrow> ptr \<Rightarrow> ptr option" where
  "scope_of H s = map_of (map (\<lambda>sc. (cs_address sc, cs_retained_process sc)) (ho_scopes H)) s"

definition teb_process :: "thread_world \<Rightarrow> ptr \<Rightarrow> ptr option" where
  "teb_process w t = (if owner_of w t = 0 \<or> owner_of w t = SL_TEB_OWNERSHIP_RESERVED then None
     else map_option tb_process (tw_tebs w (owner_of w t)))"

definition held_by :: "thread_world \<Rightarrow> holder \<Rightarrow> ptr option" where
  "held_by w x = (case x of
     Scope_Holder h s \<Rightarrow> scope_of (tw_hosts w h) s
   | Call_Holder h \<Rightarrow> point_process (tw_tebs w) (ho_point (tw_hosts w h))
   | Teb_Holder t \<Rightarrow> teb_process w t)"

definition holders :: "thread_world \<Rightarrow> ptr \<Rightarrow> holder set" where
  "holders w p = {x. held_by w x = Some p}"

definition references_ok :: "thread_world \<Rightarrow> bool" where
  "references_ok w \<longleftrightarrow> (\<forall>p. p \<noteq> NULL \<longrightarrow>
     finite (holders w p) \<and> unat (references_of w p) = card (holders w p))"

text \<open>A step changes what one holder has, or hands it to another.\<close>

lemma references_same:
  assumes "references_ok w" "\<And>x p. p \<noteq> NULL \<Longrightarrow> held_by w' x = Some p \<longleftrightarrow> held_by w x = Some p"
    and "\<And>p. references_of w' p = references_of w p"
  shows "references_ok w'"
  using assms by (simp add: references_ok_def holders_def)

lemma references_take:
  assumes "references_ok w" "held_by w x = None" "held_by w' = (held_by w)(x := Some p)" "references_of w p \<noteq> UINT_MAX"
    and "\<And>q. references_of w' q = (if q = p then references_of w p + 1 else references_of w q)"
  shows "references_ok w'"
proof -
  have "holders w' q = (if q = p then insert x (holders w p) else holders w q)" for q
    using assms(2,3) by (auto simp: holders_def)
  moreover have "x \<notin> holders w p"
    using assms(2) by (simp add: holders_def)
  ultimately show ?thesis
    using assms(1) unat_inc_u32 [OF assms(4)] by (auto simp: references_ok_def assms(5))
qed

lemma references_drop:
  assumes "references_ok w" "held_by w x = Some p" "p \<noteq> NULL" "held_by w' = (held_by w)(x := None)"
    and "\<And>q. references_of w' q = (if q = p then references_of w p - 1 else references_of w q)"
  shows "references_of w p \<noteq> 0 \<and> references_ok w'"
proof -
  have h: "holders w' q = (if q = p then holders w p - {x} else holders w q)" for q
    using assms(2,4) by (auto simp: holders_def)
  have x: "x \<in> holders w p"
    using assms(2) by (simp add: holders_def)
  have p: "finite (holders w p)" "unat (references_of w p) = card (holders w p)"
    using assms(1,3) by (auto simp: references_ok_def)
  then have n: "references_of w p \<noteq> 0"
    using x by (auto simp: unat_eq_0 [symmetric] card_eq_0_iff simp del: unat_eq_0)
  then have "references_ok w'"
    using assms(1) p x unat_dec_u32 [OF n] by (auto simp: references_ok_def assms(5) h card_Diff_singleton)
  then show ?thesis
    using n by simp
qed

lemma references_move:
  assumes "references_ok w" "held_by w x = Some p" "held_by w y = None" "held_by w' = (held_by w)(x := None, y := Some p)"
    and "\<And>q. references_of w' q = references_of w q"
  shows "references_ok w'"
proof -
  have h: "holders w' q = (if q = p then insert y (holders w p - {x}) else holders w q)" for q
    using assms(2-4) by (auto simp: holders_def)
  have "x \<in> holders w p" "y \<notin> holders w p"
    using assms(2,3) by (simp_all add: holders_def)
  moreover have "card (insert y (holders w p - {x})) = card (holders w p)"
    if "finite (holders w p)"
    using that calculation by (metis card.remove card_insert_disjoint finite_Diff DiffE)
  ultimately show ?thesis
    using assms(1) by (auto simp: references_ok_def assms(5) h)
qed

lemma process_cong:
  "map_option teb_identity x = map_option teb_identity y \<Longrightarrow> map_option tb_process x = map_option tb_process y"
  by (cases x; cases y) (simp_all add: teb_identity_def)

lemma point_process_cong:
  assumes "\<And>b. map_option teb_identity (tebs' b) = map_option teb_identity (tebs b)"
  shows "point_process tebs' point = point_process tebs point"
  using process_cong [OF assms] by (cases point) simp_all

text \<open>What is held_by after a step that keeps the blocks and changes at most one owner.\<close>

lemma held_step:
  assumes "tw_hosts w' = (tw_hosts w)(h := H)"
    and "\<And>b. map_option teb_identity (tw_tebs w' b) = map_option teb_identity (tw_tebs w b)"
    and "\<And>t'. t' \<noteq> t \<Longrightarrow> owner_of w' t' = owner_of w t'"
  shows "held_by w' x = (case x of
      Scope_Holder h' s \<Rightarrow> if h' = h then scope_of H s else held_by w x
    | Call_Holder h' \<Rightarrow> if h' = h then point_process (tw_tebs w) (ho_point H) else held_by w x
    | Teb_Holder t' \<Rightarrow> if t' = t then teb_process w' t else held_by w x)"
  using assms(1) assms(3) point_process_cong [OF assms(2)] process_cong [OF assms(2)]
  by (auto simp: held_by_def teb_process_def split: holder.split)

section \<open>The invariant\<close>

definition thread_inv :: "thread_world \<Rightarrow> bool" where
  "thread_inv w \<longleftrightarrow> \<not> tw_aborted w \<and> threads_ok w \<and> (\<forall>h. scopes_ok (tw_hosts w h)) \<and> tebs_ok w \<and> references_ok w"

lemma thread_invD:
  assumes "thread_inv w"
  shows "\<not> tw_aborted w" "threads_ok w" "scopes_ok (tw_hosts w h)" "tebs_ok w" "references_ok w"
  using assms by (simp_all add: thread_inv_def)

lemma thread_inv_step:
  assumes "thread_inv w" "tw_hosts w' = (tw_hosts w)(h := H)" "\<not> tw_aborted w'" "threads_ok w'" "scopes_ok H"
    and "tebs_ok w'" "references_ok w'"
  shows "thread_inv w'"
  using assms by (auto simp: thread_inv_def)

text \<open>A quiet step: the host thread goes to another point, and of the rest only plain fields, tokens and counters
  change.\<close>

lemma quiet_step:
  assumes inv: "thread_inv w" and hosts: "tw_hosts w' = (tw_hosts w)(h := H)"
    and "\<not> tw_aborted w'" "threads_ok w'"
    and H: "ho_current H = ho_current (tw_hosts w h)" "ho_scopes H = ho_scopes (tw_hosts w h)"
    and "enters_fresh (ho_scopes H) (ho_point H)"
    and kept: "\<And>b. map_option teb_identity (tw_tebs w' b) = map_option teb_identity (tw_tebs w b)"
    and same: "\<And>t. owner_of w' t = owner_of w t" "\<And>t. th_process (tw_threads w' t) = th_process (tw_threads w t)"
    and "teb_point_ok w' h"
    and process: "point_process (tw_tebs w) (ho_point H) = point_process (tw_tebs w) (ho_point (tw_hosts w h))"
    and "\<And>p. references_of w' p = references_of w p"
  shows "thread_inv w'"
proof (rule thread_inv_step [OF inv hosts])
  show "scopes_ok H"
    using thread_invD(3) [OF inv, of h] H assms(7) by (simp add: scopes_ok_def)
  show "tebs_ok w'"
  proof (rule tebs_ok_step [OF thread_invD(4) [OF inv] hosts kept])
    show "owner_ok w' undefined"
      using tebs_okD(2) [OF thread_invD(4) [OF inv], of undefined] by (simp add: owner_ok_def kept same(1))
  qed (use same assms(11) in simp_all)
  have "scope_of H = scope_of (tw_hosts w h)"
    by (intro ext) (simp add: scope_of_def H(2))
  moreover have "teb_process w' t = teb_process w t" for t
    using process_cong [OF kept] by (simp add: teb_process_def same(1))
  ultimately have "held_by w' x = held_by w x" for x
    using held_step [OF hosts kept same(1), where x = x] process by (auto simp: held_by_def split: holder.splits)
  then show "references_ok w'"
    using references_same [OF thread_invD(5) [OF inv]] assms(13) by simp
qed (use assms in simp_all)

text \<open>Points that hold nothing of a block.\<close>

lemma no_teb_point:
  assumes "point_teb (ho_point (tw_hosts w h)) = None" "\<not> point_reserved (ho_point (tw_hosts w h))"
    "\<not> point_reserves (ho_point (tw_hosts w h))"
  shows "teb_point_ok w h"
proof -
  have "\<not> point_cleared (ho_point (tw_hosts w h))"
    using assms(1) by (cases "ho_point (tw_hosts w h)") simp_all
  then show ?thesis
    using assms by (simp add: teb_point_ok_def Let_def)
qed

lemma go_inv:
  assumes "thread_inv w" "threads_ok (go h point w)" "enters_fresh (ho_scopes (tw_hosts w h)) point"
    and "teb_point_ok (go h point w) h"
    and "point_process (tw_tebs w) point = point_process (tw_tebs w) (ho_point (tw_hosts w h))"
  shows "thread_inv (go h point w)"
  by (rule quiet_step [OF assms(1), of _ h "(tw_hosts w h)\<lparr>ho_point := point\<rparr>"])
    (use assms(2-5) thread_invD(1) [OF assms(1)] in simp_all)

lemma idle_inv:
  assumes "thread_inv w" "point_claim (ho_point (tw_hosts w h)) = None" "point_owns (ho_point (tw_hosts w h)) = None"
    and "point_process (tw_tebs w) (ho_point (tw_hosts w h)) = None"
  shows "thread_inv (go h (Idle status) w)"
  by (rule go_inv [OF assms(1)])
    (use assms(2-4) in \<open>auto intro!: go_threads [OF thread_invD(2) [OF assms(1)]] no_teb_point\<close>)

end
