(* ===== verification/Thread_Steps.thy ===== *)
theory Thread_Steps
  imports Thread_Invariant
begin

text \<open>Every piece of \<open>src/context.c\<close> and \<open>src/teb.c\<close> between two points keeps the invariant of the threads.\<close>

section \<open>Entering and leaving\<close>

lemma scope_of_Cons:
  "scope_of (H\<lparr>ho_current := c, ho_scopes := sc # scopes, ho_point := point\<rparr>) =
     (scope_of (H\<lparr>ho_scopes := scopes\<rparr>))(cs_address sc \<mapsto> cs_retained_process sc)"
  by (rule ext) (simp add: scope_of_def)

lemma scope_of_fresh: "s \<notin> cs_address ` set (ho_scopes H) \<Longrightarrow> scope_of H s = None"
  by (simp add: scope_of_def map_of_eq_None_iff image_image)

text \<open>Installing a scope: it takes what is retained.\<close>

lemma install_scope_inv:
  assumes inv: "thread_inv w" and point: "point_process (tw_tebs w) (ho_point (tw_hosts w h)) = None"
    and fresh: "t \<noteq> NULL" "s \<notin> cs_address ` set (ho_scopes (tw_hosts w h))"
    and w1: "tw_hosts w1 = tw_hosts w" "tw_tebs w1 = tw_tebs w" "\<not> tw_aborted w1"
      "\<And>t. owner_of w1 t = owner_of w t" "\<And>t. th_process (tw_threads w1 t) = th_process (tw_threads w t)"
    and threads: "threads_ok (install_scope h t s p w1)"
    and references: "\<And>q. references_of w1 q = (if q = p \<and> p \<noteq> NULL then references_of w q + 1 else references_of w q)"
      "p \<noteq> NULL \<Longrightarrow> references_of w p \<noteq> UINT_MAX"
  shows "thread_inv (install_scope h t s p w1)"
proof (rule thread_inv_step [OF inv, of _ h])
  let ?w = "install_scope h t s p w1" and ?H = "tw_hosts (install_scope h t s p w1) h"
  show hosts: "tw_hosts ?w = (tw_hosts w)(h := ?H)"
    by (simp add: w1(1))
  show "scopes_ok ?H"
    using thread_invD(3) [OF inv, of h] fresh by (simp add: scopes_ok_def w1(1))
  show "tebs_ok ?w"
  proof (rule tebs_ok_step [OF thread_invD(4) [OF inv] hosts])
    show "owner_ok ?w undefined"
      using tebs_okD(2) [OF thread_invD(4) [OF inv], of undefined] by (simp add: owner_ok_def w1(2,4))
  qed (auto simp: w1 intro!: no_teb_point)
  have none: "held_by w (Scope_Holder h s) = None"
    using scope_of_fresh [OF fresh(2)] by (simp add: held_by_def)
  have held_by: "held_by ?w = (held_by w)(Scope_Holder h s := Some p)"
  proof
    fix x
    have "teb_process ?w = teb_process w"
      by (intro ext) (simp add: teb_process_def w1(2,4))
    then show "held_by ?w x = ((held_by w)(Scope_Holder h s := Some p)) x"
      using point by (auto simp: held_by_def w1(1,2) scope_of_Cons scope_of_def split: holder.splits)
  qed
  show "references_ok ?w"
  proof (cases "p = NULL")
    case True
    then show ?thesis
      by (intro references_same [OF thread_invD(5) [OF inv]]) (use held_by none references(1) in auto)
  next
    case False
    then show ?thesis
      by (intro references_take [OF thread_invD(5) [OF inv] none held_by references(2)]) (simp_all add: references(1))
  qed
qed (use w1(3) threads in simp_all)

lemma enter_claimed_inv:
  assumes inv: "thread_inv w" and point: "point_process (tw_tebs w) (ho_point (tw_hosts w h)) = None"
    and fresh: "t \<noteq> NULL" "s \<notin> cs_address ` set (ho_scopes (tw_hosts w h))"
    and f: "\<And>T. th_teb_owner_token (f T) = th_teb_owner_token T" "\<And>T. th_process (f T) = th_process T"
    and threads: "threads_ok (enter_claimed h t s (set_thread t f w))"
  shows "thread_inv (enter_claimed h t s (set_thread t f w))"
proof (cases "th_process (tw_threads w t) = NULL")
  case True
  then have e: "enter_claimed h t s (set_thread t f w) = install_scope h t s NULL (set_thread t f w)"
    by (simp add: enter_claimed_def f)
  show ?thesis
    unfolding e
    by (rule install_scope_inv [OF inv point fresh]) (use threads thread_invD(1) [OF inv] f in \<open>simp_all add: e\<close>)
next
  case False
  let ?point = "Enter_Retain t s (th_process (tw_threads w t))"
  have e: "enter_claimed h t s (set_thread t f w) = go h ?point (set_thread t f w)"
    using False by (simp add: enter_claimed_def f Let_def)
  show ?thesis
    unfolding e
    by (rule quiet_step [OF inv, of _ h "(tw_hosts w h)\<lparr>ho_point := ?point\<rparr>"])
      (use threads thread_invD(1) [OF inv] f fresh False point in \<open>auto simp: e intro!: no_teb_point\<close>)
qed

lemma begin_enter_inv:
  assumes inv: "thread_inv w" "h \<noteq> 0" "ho_point (tw_hosts w h) = Idle st"
  shows "thread_inv (begin_enter h t s w)"
proof -
  have idle: "thread_inv (go h (Idle status) w)" for status
    by (rule idle_inv [OF inv(1)]) (simp_all add: inv(3))
  consider "t = NULL \<or> s = NULL" | "t \<noteq> NULL" "s \<noteq> NULL" "s \<in> set (map cs_address (ho_scopes (tw_hosts w h)))"
    | "t \<noteq> NULL" "s \<noteq> NULL" "s \<notin> set (map cs_address (ho_scopes (tw_hosts w h)))"
    by blast
  then show ?thesis
  proof cases
    case 3
    have exchange: "thread_inv (go h (Claim_Exchange t s) w)"
      by (rule go_inv [OF inv(1)])
        (use 3 inv(3) in \<open>auto intro!: go_threads [OF thread_invD(2) [OF inv(1)]] no_teb_point\<close>)
    have again: "thread_inv (enter_claimed h t s
        (set_thread t (\<lambda>T. T\<lparr>th_active_scope_count := th_active_scope_count T + 1\<rparr>) w))"
      if "token_of w t = h" "scope_count w t \<noteq> UINT_MAX"
    proof (rule enter_claimed_inv [OF inv(1)])
      show "threads_ok (enter_claimed h t s
          (set_thread t (\<lambda>T. T\<lparr>th_active_scope_count := th_active_scope_count T + 1\<rparr>) w))"
        using begin_enter_threads [OF thread_invD(2) [OF inv(1)] inv(2,3), of t s] 3 that inv(2)
        by (simp add: begin_enter_def Let_def)
    qed (use 3 inv(3) in simp_all)
    show ?thesis
      using 3 idle exchange again unfolding begin_enter_def Let_def by auto
  qed (simp_all add: begin_enter_def idle)
qed

lemma claim_exchange_inv:
  assumes inv: "thread_inv w" "h \<noteq> 0" "ho_point (tw_hosts w h) = Claim_Exchange t s"
  shows "thread_inv (claim_exchange h t s w)"
proof (cases "token_of w t = 0")
  case True
  have fresh: "t \<noteq> NULL" "s \<notin> cs_address ` set (ho_scopes (tw_hosts w h))"
    using thread_invD(3) [OF inv(1), of h] inv(3) by (simp_all add: scopes_ok_def)
  show ?thesis
    using claim_exchange_threads [OF thread_invD(2) [OF inv(1)] inv(2,3)] True
    by (simp add: claim_exchange_def) (rule enter_claimed_inv [OF inv(1) _ fresh]; simp add: inv(3))
next
  case False
  then show ?thesis
    using idle_inv [OF inv(1), of h] inv(3) by (simp add: claim_exchange_def)
qed

lemma enter_exchange_inv:
  assumes inv: "thread_inv w" "ho_point (tw_hosts w h) = Enter_Exchange t s p r"
  shows "thread_inv (enter_exchange h spurious t s p r w)"
proof -
  have fresh: "t \<noteq> NULL" "p \<noteq> NULL" "s \<notin> cs_address ` set (ho_scopes (tw_hosts w h))"
    using thread_invD(3) [OF inv(1), of h] inv(2) by (simp_all add: scopes_ok_def)
  have threads: "threads_ok (enter_exchange h spurious t s p r w)"
    by (rule enter_exchange_threads [OF thread_invD(2) [OF inv(1)] inv(2)])
  have go: "thread_inv (go h point w)" if "point = Enter_Undo t status \<or> point = Enter_Exchange t s p r'" for point status r'
    by (rule go_inv [OF inv(1)])
      (use that fresh inv(2) in \<open>auto intro!: go_threads [OF thread_invD(2) [OF inv(1)]] no_teb_point\<close>)
  show ?thesis
  proof (rule retain_exchange_cases [of r spurious p w])
    assume r: "r \<noteq> UINT_MAX" "references_of w p = r"
      "retain_exchange spurious p r w = (Retained, set_references p (r + 1) w)"
    then have e: "enter_exchange h spurious t s p r w = install_scope h t s p (set_references p (r + 1) w)"
      by (simp add: enter_exchange_def)
    show ?thesis
      unfolding e
      by (rule install_scope_inv [OF inv(1) _ fresh(1,3)])
        (use threads thread_invD(1) [OF inv(1)] inv(2) fresh r in \<open>auto simp: e\<close>)
  qed (use go in \<open>auto simp: enter_exchange_def\<close>)
qed

lemma release_context_inv:
  assumes inv: "thread_inv w" "h \<noteq> 0" "point_claim (ho_point (tw_hosts w h)) = Some t"
    and "point_process (tw_tebs w) (ho_point (tw_hosts w h)) = None"
  shows "thread_inv (go h (Idle status) (release_thread_context h t w))"
proof -
  note r = release_context_threads [OF thread_invD(2) [OF inv(1)] inv(2,3), of status]
  show ?thesis
    by (rule quiet_step [OF inv(1), of _ h "(tw_hosts w h)\<lparr>ho_point := Idle status\<rparr>"])
      (use r assms(4) thread_invD(1) [OF inv(1)] in \<open>auto intro!: no_teb_point\<close>)
qed

lemma begin_leave_inv:
  assumes inv: "thread_inv w" "ho_point (tw_hosts w h) = Idle st"
  shows "thread_inv (begin_leave h s w)"
proof -
  have idle: "thread_inv (go h (Idle status) w)" for status
    by (rule idle_inv [OF inv(1)]) (simp_all add: inv(2))
  have leave: "thread_inv (set_host h (\<lambda>H. H\<lparr>ho_current := cs_previous sc, ho_scopes := rest, ho_point := point\<rparr>) w)"
    if scopes: "ho_scopes (tw_hosts w h) = sc # rest" and point: "point = (if cs_retained_process sc \<noteq> NULL
      then Leave_Process (cs_installed sc) (cs_retained_process sc) else Leave_Thread (cs_installed sc))"
      and threads: "threads_ok (set_host h (\<lambda>H. H\<lparr>ho_current := cs_previous sc, ho_scopes := rest, ho_point := point\<rparr>) w)"
    for sc rest point
  proof (rule thread_inv_step [OF inv(1), of _ h])
    let ?H = "(tw_hosts w h)\<lparr>ho_current := cs_previous sc, ho_scopes := rest, ho_point := point\<rparr>"
    let ?w = "set_host h (\<lambda>H. H\<lparr>ho_current := cs_previous sc, ho_scopes := rest, ho_point := point\<rparr>) w"
    show hosts: "tw_hosts ?w = (tw_hosts w)(h := ?H)"
      by simp
    have chain: "scope_chain (cs_previous sc) rest" "cs_address sc \<notin> cs_address ` set rest"
      using thread_invD(3) [OF inv(1), of h] scopes by (simp_all add: scopes_ok_def)
    show "scopes_ok ?H"
      using chain by (simp add: scopes_ok_def point)
    show "tebs_ok ?w"
    proof (rule tebs_ok_step [OF thread_invD(4) [OF inv(1)] hosts])
      show "owner_ok ?w undefined"
        using tebs_okD(2) [OF thread_invD(4) [OF inv(1)], of undefined] by (simp add: owner_ok_def)
    qed (auto simp: point intro!: no_teb_point)
    have old: "scope_of (tw_hosts w h) = (scope_of ?H)(cs_address sc \<mapsto> cs_retained_process sc)"
      by (rule ext) (simp add: scope_of_def scopes)
    have gone: "scope_of ?H (cs_address sc) = None"
      using chain(2) by (intro scope_of_fresh) simp
    let ?p = "cs_retained_process sc"
    have here: "held_by w (Scope_Holder h (cs_address sc)) = Some ?p" "held_by w (Call_Holder h) = None"
      by (simp_all add: held_by_def old inv(2))
    have held_by: "held_by ?w = (held_by w)(Scope_Holder h (cs_address sc) := None,
        Call_Holder h := (if ?p \<noteq> NULL then Some ?p else None))"
    proof
      fix x
      show "held_by ?w x = ((held_by w)(Scope_Holder h (cs_address sc) := None,
          Call_Holder h := (if ?p \<noteq> NULL then Some ?p else None))) x"
      proof (cases x)
        case (Scope_Holder h' s)
        then show ?thesis
          using gone old by (auto simp: held_by_def)
      qed (simp_all add: held_by_def teb_process_def point)
    qed
    show "references_ok ?w"
    proof (cases "?p = NULL")
      case True
      then show ?thesis
        by (intro references_same [OF thread_invD(5) [OF inv(1)]]) (use held_by here in auto)
    next
      case False
      then show ?thesis
        by (intro references_move [OF thread_invD(5) [OF inv(1)] here]) (use held_by in auto)
    qed
  qed (use thread_invD(1) [OF inv(1)] threads in simp_all)
  show ?thesis
  proof (cases "ho_scopes (tw_hosts w h)")
    case (Cons sc rest)
    have "threads_ok (begin_leave h s w)"
      by (rule begin_leave_threads [OF thread_invD(2) [OF inv(1)] inv(2)])
    then show ?thesis
      using idle leave [OF Cons refl] by (auto simp: begin_leave_def Cons)
  qed (simp add: begin_leave_def idle)
qed

section \<open>References that are given back\<close>

lemma process_release_inv:
  assumes inv: "thread_inv w" "point_process (tw_tebs w) (ho_point (tw_hosts w h)) = Some p" "p \<noteq> NULL"
    and "point_claim (ho_point (tw_hosts w h)) = point_claim point" "point_owns (ho_point (tw_hosts w h)) = point_owns point"
    and "enters_fresh (ho_scopes (tw_hosts w h)) point" "point_process (tw_tebs w) point = None"
    and "teb_point_ok (go h point w) h"
  shows "thread_inv (go h point (sl_win32_process_release p w))"
proof (rule thread_inv_step [OF inv(1), of _ h])
  let ?w = "go h point (sl_win32_process_release p w)" and ?H = "(tw_hosts w h)\<lparr>ho_point := point\<rparr>"
  show hosts: "tw_hosts ?w = (tw_hosts w)(h := ?H)"
    by simp
  show "scopes_ok ?H"
    using thread_invD(3) [OF inv(1), of h] assms(6) by (simp add: scopes_ok_def)
  show "threads_ok ?w"
    by (rule plain_threads [OF thread_invD(2) [OF inv(1)] assms(4,5)]) simp_all
  show "tebs_ok ?w"
  proof (rule tebs_ok_step [OF thread_invD(4) [OF inv(1)] hosts])
    show "owner_ok ?w undefined"
      using tebs_okD(2) [OF thread_invD(4) [OF inv(1)], of undefined] by (simp add: owner_ok_def)
    show "teb_point_ok ?w h"
      using assms(8) by (simp add: teb_point_ok_def)
  qed simp_all
  have here: "held_by w (Call_Holder h) = Some p"
    by (simp add: held_by_def inv(2))
  have teb: "teb_process ?w = teb_process w"
    by (intro ext) (simp add: teb_process_def)
  have scopes: "scope_of ?H = scope_of (tw_hosts w h)"
    by (intro ext) (simp add: scope_of_def)
  have held_by: "held_by ?w = (held_by w)(Call_Holder h := None)"
    by (rule ext) (simp add: held_by_def teb scopes assms(7) split: holder.split)
  have r: "references_of w p \<noteq> 0 \<and> references_ok ?w"
    by (rule references_drop [OF thread_invD(5) [OF inv(1)] here inv(3) held_by]) simp
  then show "references_ok ?w"
    by simp
  show "\<not> tw_aborted ?w"
    using r thread_invD(1) [OF inv(1)] by simp
qed

section \<open>Claiming and giving back an inactive context\<close>

lemma claimed_inv:
  assumes inv: "thread_inv w" "h \<noteq> 0" "ho_point (tw_hosts w h) = Idle st"
    and claim: "sl_win32_context_claim_inactive h t w = (SL_OK, w1)" and point: "point_owns point = Some t"
    and "enters_fresh (ho_scopes (tw_hosts w h)) point" "teb_point_ok (go h point w1) h"
    and "point_process (tw_tebs w) point = None"
  shows "thread_inv (go h point w1)"
proof -
  have threads: "threads_ok (go h point w1)"
    by (rule claim_inactive_own [OF thread_invD(2) [OF inv(1)] inv(2,3) thread_invD(1) [OF inv(1)] claim point])
  have w1: "w1 = set_thread t (\<lambda>T. T\<lparr>th_host_thread_token := h\<rparr>) w"
    using claim_inactive_threads [OF thread_invD(2) [OF inv(1)] inv(2,3) thread_invD(1) [OF inv(1)] claim] by simp
  show ?thesis
    by (rule quiet_step [OF inv(1), of _ h "(tw_hosts w h)\<lparr>ho_point := point\<rparr>"])
      (use threads assms(6-8) inv(3) thread_invD(1) [OF inv(1)] in \<open>simp_all add: w1\<close>)
qed

lemma claim_cases:
  assumes inv: "thread_inv w" "h \<noteq> 0" "ho_point (tw_hosts w h) = Idle st"
    and claim: "sl_win32_context_claim_inactive h t w = (status, w1)"
  obtains "status \<noteq> SL_OK" "w1 = w"
  | "status = SL_OK" "t \<noteq> NULL" "w1 = set_thread t (\<lambda>T. T\<lparr>th_host_thread_token := h\<rparr>) w"
  using claim_inactive_threads [OF thread_invD(2) [OF inv(1)] inv(2,3) thread_invD(1) [OF inv(1)] claim]
  by (cases "status = SL_OK") simp_all

lemma set_out_inv:
  assumes inv: "thread_inv w"
  shows "thread_inv (set_host h (\<lambda>H. H\<lparr>ho_out_teb := b\<rparr>) w)"
proof (rule quiet_step [OF inv, of _ h "(tw_hosts w h)\<lparr>ho_out_teb := b\<rparr>"])
  show "threads_ok (set_host h (\<lambda>H. H\<lparr>ho_out_teb := b\<rparr>) w)"
    by (rule same_tokens_threads [OF thread_invD(2) [OF inv], of _ h "(tw_hosts w h)\<lparr>ho_out_teb := b\<rparr>"]) simp_all
  show "teb_point_ok (set_host h (\<lambda>H. H\<lparr>ho_out_teb := b\<rparr>) w) h"
    using tebs_okD(1) [OF thread_invD(4) [OF inv], of h] by (simp add: teb_point_ok_def)
qed (use thread_invD(1,3) [OF inv] in \<open>simp_all add: scopes_ok_def\<close>)

lemma begin_create_inv:
  assumes inv: "thread_inv w" "h \<noteq> 0" "ho_point (tw_hosts w h) = Idle st"
  shows "thread_inv (begin_create h t l b out w)"
proof -
  let ?w = "set_host h (\<lambda>H. H\<lparr>ho_out_teb := NULL\<rparr>) w"
  have w: "thread_inv ?w" "ho_point (tw_hosts ?w h) = Idle st"
    using set_out_inv [OF inv(1)] inv(3) by simp_all
  have idle: "thread_inv (go h (Idle status) w)" "thread_inv (go h (Idle status) ?w)" for status
    using idle_inv [OF inv(1), of h] idle_inv [OF w(1), of h] inv(3) by simp_all
  obtain status w1 where c: "sl_win32_context_claim_inactive h t ?w = (status, w1)"
    by fastforce
  show ?thesis
  proof (rule claim_cases [OF w(1) inv(2) w(2) c])
    assume ok: "status = SL_OK" "t \<noteq> NULL" "w1 = set_thread t (\<lambda>T. T\<lparr>th_host_thread_token := h\<rparr>) ?w"
    have "thread_inv (go h (Release_Inactive t SL_ERROR_INVALID_ARGUMENT) w1)"
      by (rule claimed_inv [OF w(1) inv(2) w(2) c [unfolded ok(1)]]) (auto simp: ok(2) intro!: no_teb_point)
    moreover have "thread_inv (go h (Create_Reserve t l b) w1)" if "th_process (tw_threads w1 t) \<noteq> NULL"
      by (rule claimed_inv [OF w(1) inv(2) w(2) c [unfolded ok(1)]])
        (use that ok(2) in \<open>auto simp: teb_point_ok_def\<close>)
    ultimately show ?thesis
      using idle by (auto simp: begin_create_def Let_def c ok(1))
  qed (use idle in \<open>auto simp: begin_create_def Let_def c\<close>)
qed

text \<open>A call names a live block that no operation is at work on.\<close>

definition free_teb :: "thread_world \<Rightarrow> ptr \<Rightarrow> bool" where
  "free_teb w b \<longleftrightarrow> tw_tebs w b \<noteq> None \<and> (\<forall>h. point_teb (ho_point (tw_hosts w h)) \<noteq> Some b)"

lemma teb_identity_Some:
  "tw_tebs w b = Some B \<Longrightarrow> map_option teb_identity (tw_tebs w b) = Some (tb_process B, tb_thread B)"
  by (simp add: teb_identity_def)

lemma begin_destroy_inv:
  assumes inv: "thread_inv w" "h \<noteq> 0" "ho_point (tw_hosts w h) = Idle st" and b: "b \<noteq> NULL \<longrightarrow> free_teb w b"
  shows "thread_inv (begin_destroy h b w)"
proof -
  have idle: "thread_inv (go h (Idle status) w)" for status
    using idle_inv [OF inv(1), of h] inv(3) by simp
  obtain status w1 where c: "sl_win32_context_claim_inactive h (tb_thread (teb_at w b)) w = (status, w1)"
    by fastforce
  show ?thesis
  proof (rule claim_cases [OF inv c])
    let ?t = "tb_thread (teb_at w b)"
    assume ok: "status = SL_OK" "?t \<noteq> NULL" "w1 = set_thread ?t (\<lambda>T. T\<lparr>th_host_thread_token := h\<rparr>) w"
    have "thread_inv (go h (Release_Inactive ?t SL_ERROR_INVALID_STATE) w1)"
      by (rule claimed_inv [OF inv c [unfolded ok(1)]]) (auto simp: ok(2) intro!: no_teb_point)
    moreover have "thread_inv (go h (Destroy_Reserve ?t b) w1)" if "b \<noteq> NULL"
    proof (rule claimed_inv [OF inv c [unfolded ok(1)]])
      show "teb_point_ok (go h (Destroy_Reserve ?t b) w1) h"
        using b that by (auto simp: teb_point_ok_def free_teb_def ok(3) teb_identity_def)
    qed (simp_all add: ok(2))
    ultimately show ?thesis
      using idle by (auto simp: begin_destroy_def Let_def c ok(1))
  qed (use idle in \<open>auto simp: begin_destroy_def Let_def c\<close>)
qed

lemma begin_attach_inv:
  assumes inv: "thread_inv w" "h \<noteq> 0" "ho_point (tw_hosts w h) = Idle st" and b: "b \<noteq> NULL \<longrightarrow> free_teb w b"
  shows "thread_inv (begin_attach h t b w)"
proof -
  have idle: "thread_inv (go h (Idle status) w)" for status
    using idle_inv [OF inv(1), of h] inv(3) by simp
  obtain status w1 where c: "sl_win32_context_claim_inactive h t w = (status, w1)"
    by fastforce
  show ?thesis
  proof (rule claim_cases [OF inv c])
    assume ok: "status = SL_OK" "t \<noteq> NULL" "w1 = set_thread t (\<lambda>T. T\<lparr>th_host_thread_token := h\<rparr>) w"
    have "thread_inv (go h (Attach_Check t b) w1)" if "b \<noteq> NULL"
    proof (rule claimed_inv [OF inv c [unfolded ok(1)]])
      show "teb_point_ok (go h (Attach_Check t b) w1) h"
        using b that by (auto simp: teb_point_ok_def free_teb_def ok(3) teb_identity_def)
    qed (simp_all add: ok(2))
    then show ?thesis
      using idle by (auto simp: begin_attach_def c ok(1))
  qed (use idle in \<open>auto simp: begin_attach_def c\<close>)
qed

text \<open>Changing the plain fields of a context and of a live block.\<close>

lemma attach_step_inv:
  assumes inv: "thread_inv w" and "tw_tebs w b \<noteq> None"
    and f: "\<And>T. th_host_thread_token (f T) = th_host_thread_token T"
      "\<And>T. th_active_scope_count (f T) = th_active_scope_count T"
      "\<And>T. th_teb_owner_token (f T) = th_teb_owner_token T" "\<And>T. th_process (f T) = th_process T"
    and g: "\<And>B. teb_identity (g B) = teb_identity B"
    and point: "point_claim (ho_point (tw_hosts w h)) = None" "point_owns (ho_point (tw_hosts w h)) = Some t"
      "point_process (tw_tebs w) (ho_point (tw_hosts w h)) = None"
  shows "thread_inv (go h (Release_Inactive t status) (set_thread t f (set_teb b g w)))"
proof (rule quiet_step [OF inv, of _ h "(tw_hosts w h)\<lparr>ho_point := Release_Inactive t status\<rparr>"])
  show "threads_ok (go h (Release_Inactive t status) (set_thread t f (set_teb b g w)))"
    by (rule same_tokens_threads [OF thread_invD(2) [OF inv], of _ h "(tw_hosts w h)\<lparr>ho_point := Release_Inactive t status\<rparr>"])
      (use point f in simp_all)
  show "map_option teb_identity (tw_tebs (go h (Release_Inactive t status) (set_thread t f (set_teb b g w))) b') =
      map_option teb_identity (tw_tebs w b')" for b'
    using assms(2) g by auto
  have "t \<noteq> NULL"
    using host_owns [OF thread_invD(3) [OF inv] point(2)] .
  then show "enters_fresh (ho_scopes ((tw_hosts w h)\<lparr>ho_point := Release_Inactive t status\<rparr>))
      (ho_point ((tw_hosts w h)\<lparr>ho_point := Release_Inactive t status\<rparr>))"
    by simp
qed (use f point thread_invD(1) [OF inv] in \<open>auto intro!: no_teb_point\<close>)

lemma begin_detach_inv:
  assumes inv: "thread_inv w" "h \<noteq> 0" "ho_point (tw_hosts w h) = Idle st" and b: "b \<noteq> NULL \<longrightarrow> free_teb w b"
  shows "thread_inv (begin_detach h t b w)"
proof -
  have idle: "thread_inv (go h (Idle status) w)" for status
    using idle_inv [OF inv(1), of h] inv(3) by simp
  obtain status w1 where c: "sl_win32_context_claim_inactive h t w = (status, w1)"
    by fastforce
  show ?thesis
  proof (rule claim_cases [OF inv c])
    assume ok: "status = SL_OK" "t \<noteq> NULL" "w1 = set_thread t (\<lambda>T. T\<lparr>th_host_thread_token := h\<rparr>) w"
    have refused: "thread_inv (go h (Release_Inactive t SL_ERROR_INVALID_STATE) w1)"
      by (rule claimed_inv [OF inv c [unfolded ok(1)]]) (auto simp: ok(2) intro!: no_teb_point)
    let ?w = "go h (Release_Inactive t SL_OK) w1"
    have w: "thread_inv ?w"
      by (rule claimed_inv [OF inv c [unfolded ok(1)]]) (auto simp: ok(2) intro!: no_teb_point)
    have detached: "thread_inv (go h (Release_Inactive t SL_OK) (set_thread t f (set_teb b g w1)))"
      if "b \<noteq> NULL" "\<And>T. th_host_thread_token (f T) = th_host_thread_token T"
        "\<And>T. th_active_scope_count (f T) = th_active_scope_count T"
        "\<And>T. th_teb_owner_token (f T) = th_teb_owner_token T" "\<And>T. th_process (f T) = th_process T"
        "\<And>B. teb_identity (g B) = teb_identity B" for f g
    proof -
      have "go h (Release_Inactive t SL_OK) (set_thread t f (set_teb b g w1)) =
          go h (Release_Inactive t SL_OK) (set_thread t f (set_teb b g ?w))"
        by (simp add: go_def set_host_def set_thread_def set_teb_def)
      moreover have "thread_inv (go h (Release_Inactive t SL_OK) (set_thread t f (set_teb b g ?w)))"
        by (rule attach_step_inv [OF w]) (use that b in \<open>auto simp: free_teb_def ok(3)\<close>)
      ultimately show ?thesis
        by (simp only:)
    qed
    show ?thesis
      unfolding begin_detach_def Let_def c prod.case ok(1)
      using idle refused detached by (auto simp: teb_identity_def)
  qed (use idle in \<open>auto simp: begin_detach_def Let_def c\<close>)
qed

lemma attach_check_inv:
  assumes inv: "thread_inv w" "ho_point (tw_hosts w h) = Attach_Check t b"
  shows "thread_inv (attach_check h t b w)"
proof -
  have t: "t \<noteq> NULL"
    using host_owns [OF thread_invD(3) [OF inv(1)], of h t] inv(2) by simp
  have b: "tw_tebs w b \<noteq> None"
    using tebs_okD(1) [OF thread_invD(4) [OF inv(1)], of h] inv(2) by (auto simp: teb_point_ok_def)
  have refused: "thread_inv (go h (Release_Inactive t SL_ERROR_INVALID_ARGUMENT) w)"
    by (rule go_inv [OF inv(1)])
      (use inv(2) t in \<open>auto intro!: go_threads [OF thread_invD(2) [OF inv(1)]] no_teb_point\<close>)
  show ?thesis
    unfolding attach_check_def Let_def
  proof (split if_split, intro conjI impI)
    show "thread_inv (go h (Release_Inactive t SL_ERROR_INVALID_ARGUMENT) w)"
      by (rule refused)
  qed (rule attach_step_inv [OF inv(1) b]; simp add: inv(2) teb_identity_def)
qed

lemma release_inactive_inv:
  assumes inv: "thread_inv w" "h \<noteq> 0" "ho_point (tw_hosts w h) = Release_Inactive t status"
  shows "thread_inv (go h (Idle status') (sl_win32_context_release_inactive h t w))"
proof -
  have t: "t \<noteq> NULL"
    using host_owns [OF thread_invD(3) [OF inv(1)], of h t] inv(3) by simp
  note r = release_inactive_threads [OF thread_invD(2) [OF inv(1)] inv(2) _ t, of status']
  show ?thesis
    by (rule quiet_step [OF inv(1), of _ h "(tw_hosts w h)\<lparr>ho_point := Idle status'\<rparr>"])
      (use r inv(3) thread_invD(1) [OF inv(1)] in \<open>auto intro!: no_teb_point\<close>)
qed

section \<open>Blocks\<close>

text \<open>A context is held_by alone by one host thread only.\<close>

lemma owns_unique:
  assumes "threads_ok w" "owns (tw_hosts w h) t" "h' \<noteq> h"
  shows "\<not> owns (tw_hosts w h') t"
proof -
  have "token_of w t = h"
    using threads_okD [OF assms(1), of t] assms(2) by (rule_tac ccontr) (auto simp: thread_ok_def split: if_splits)
  then show ?thesis
    using threads_okD [OF assms(1), of t] assms(2,3) by (auto simp: thread_ok_def split: if_splits)
qed

lemma point_teb_owned:
  assumes "thread_inv w" "point_teb (ho_point (tw_hosts w h)) = Some b" "\<not> point_attaches (ho_point (tw_hosts w h))"
    and "owns (tw_hosts w h) t"
  obtains B where "tw_tebs w b = Some B" "tb_thread B = t" "tb_process B \<noteq> NULL" "b \<noteq> 0" "b \<noteq> SL_TEB_OWNERSHIP_RESERVED"
    "\<And>h'. h' \<noteq> h \<Longrightarrow> point_teb (ho_point (tw_hosts w h')) \<noteq> Some b"
proof -
  note ok = tebs_okD(1) [OF thread_invD(4) [OF assms(1)], of h, unfolded teb_point_ok_def Let_def]
  obtain p where p: "map_option teb_identity (tw_tebs w b) = Some (p, t)"
    using ok assms(2-4) by auto
  then obtain B where B: "tw_tebs w b = Some B" "tb_process B = p" "tb_thread B = t"
    by (auto simp: teb_identity_def)
  have "\<And>h'. h' \<noteq> h \<Longrightarrow> point_teb (ho_point (tw_hosts w h')) \<noteq> Some b"
    using ok assms(2) by blast
  then show thesis
    using that B tebs_okD(3) [OF thread_invD(4) [OF assms(1)] p] by blast
qed

lemma reserved_owner:
  assumes "thread_inv w" "owns (tw_hosts w h) t"
  shows "point_reserved (ho_point (tw_hosts w h)) \<Longrightarrow> owner_of w t = SL_TEB_OWNERSHIP_RESERVED"
    and "point_cleared (ho_point (tw_hosts w h)) \<Longrightarrow> owner_of w t = 0"
    and "point_reserves (ho_point (tw_hosts w h)) \<Longrightarrow> th_process (tw_threads w t) \<noteq> NULL"
  using tebs_okD(1) [OF thread_invD(4) [OF assms(1)], of h] assms(2) by (auto simp: teb_point_ok_def Let_def)

text \<open>A step that changes the owner of the context it holds.\<close>

lemma owner_step:
  assumes inv: "thread_inv w" and owns: "owns (tw_hosts w h) t" "point_owns point = Some t"
    and w': "tw_hosts w' = (tw_hosts w)(h := (tw_hosts w h)\<lparr>ho_out_teb := out, ho_point := point\<rparr>)"
      "tw_tebs w' = tw_tebs w" "tw_threads w' = (tw_threads w)(t := (tw_threads w t)\<lparr>th_teb_owner_token := k\<rparr>)"
      "tw_aborted w' = tw_aborted w"
    and "enters_fresh (ho_scopes (tw_hosts w h)) point"
    and point: "point_reserved point \<longrightarrow> k = SL_TEB_OWNERSHIP_RESERVED" "point_cleared point \<longrightarrow> k = 0"
      "\<not> point_reserves point" "\<not> point_attaches (ho_point (tw_hosts w h))"
      "point_teb point = None \<or> point_teb point = point_teb (ho_point (tw_hosts w h))"
    and k: "k = 0 \<or> k = SL_TEB_OWNERSHIP_RESERVED \<or> (\<exists>p. map_option teb_identity (tw_tebs w k) = Some (p, t))"
    and "references_ok w'"
  shows "thread_inv w'"
proof (rule thread_inv_step [OF inv w'(1)])
  show "scopes_ok ((tw_hosts w h)\<lparr>ho_out_teb := out, ho_point := point\<rparr>)"
    using thread_invD(3) [OF inv, of h] assms(8) by (simp add: scopes_ok_def)
  show "threads_ok w'"
    by (rule same_tokens_threads [OF thread_invD(2) [OF inv] w'(1)])
      (use owns owner_has_no_claim in \<open>simp_all add: w'(3)\<close>)
  show "tebs_ok w'"
  proof (rule tebs_ok_step [OF thread_invD(4) [OF inv] w'(1)])
    show "owner_of w' t' = owner_of w t' \<and> th_process (tw_threads w' t') = th_process (tw_threads w t')" if "t' \<noteq> t" for t'
      using that by (simp add: w'(3))
    show "(owner_of w' t = owner_of w t \<and> th_process (tw_threads w' t) = th_process (tw_threads w t)) \<or>
        (\<forall>h'. h' \<noteq> h \<longrightarrow> \<not> owns (tw_hosts w h') t)"
      using owns_unique [OF thread_invD(2) [OF inv] owns(1)] by blast
    show "owner_ok w' t"
      using k by (auto simp: owner_ok_def w'(2,3))
    show "teb_point_ok w' h"
    proof (cases "point_teb point")
      case None
      then show ?thesis
        using owns(2) point by (simp add: teb_point_ok_def Let_def w'(1,3))
    next
      case (Some b)
      then have old: "point_teb (ho_point (tw_hosts w h)) = Some b"
        using point(5) by simp
      then obtain B where "tw_tebs w b = Some B" "tb_thread B = t"
          "\<And>h'. h' \<noteq> h \<Longrightarrow> point_teb (ho_point (tw_hosts w h')) \<noteq> Some b"
        using point_teb_owned [OF inv _ point(4) owns(1)] by blast
      then show ?thesis
        using owns(2) point(1-3) Some by (simp add: teb_point_ok_def Let_def w'(1-3) teb_identity_def)
    qed
  qed (simp add: w'(2))
qed (use thread_invD(1) [OF inv] assms(15) w'(4) in simp_all)

lemma owner_held:
  assumes "tw_hosts w' = (tw_hosts w)(h := (tw_hosts w h)\<lparr>ho_out_teb := out, ho_point := point\<rparr>)"
      "tw_tebs w' = tw_tebs w" "tw_threads w' = (tw_threads w)(t := (tw_threads w t)\<lparr>th_teb_owner_token := k\<rparr>)"
  shows "held_by w' = (held_by w)(Call_Holder h := point_process (tw_tebs w) point,
    Teb_Holder t := (if k = 0 \<or> k = SL_TEB_OWNERSHIP_RESERVED then None else map_option tb_process (tw_tebs w k)))"
proof
  fix x
  show "held_by w' x = ((held_by w)(Call_Holder h := point_process (tw_tebs w) point,
    Teb_Holder t := (if k = 0 \<or> k = SL_TEB_OWNERSHIP_RESERVED then None else map_option tb_process (tw_tebs w k)))) x"
    by (cases x) (simp_all add: held_by_def assms scope_of_def teb_process_def)
qed

lemma create_reserve_inv:
  assumes inv: "thread_inv w" "ho_point (tw_hosts w h) = Create_Reserve t l b"
  shows "thread_inv (create_reserve h t l b w)"
proof -
  have owns: "owns (tw_hosts w h) t"
    by (simp add: inv(2))
  have t: "t \<noteq> NULL" "th_process (tw_threads w t) \<noteq> NULL"
    using host_owns [OF thread_invD(3) [OF inv(1)] owns] reserved_owner(3) [OF inv(1) owns] inv(2) by simp_all
  show ?thesis
  proof (cases "owner_of w t = 0")
    case True
    let ?point = "Create_Retain t l b (th_process (tw_threads w t))"
    let ?w = "go h ?point (set_thread t (\<lambda>T. T\<lparr>th_teb_owner_token := SL_TEB_OWNERSHIP_RESERVED\<rparr>) w)"
    have hosts: "tw_hosts ?w = (tw_hosts w)(h := (tw_hosts w h)\<lparr>ho_out_teb := ho_out_teb (tw_hosts w h), ho_point := ?point\<rparr>)"
      by simp
    have none: "held_by w (Call_Holder h) = None" "held_by w (Teb_Holder t) = None"
      using True by (simp_all add: held_by_def inv(2) teb_process_def)
    have "references_ok ?w"
    proof (rule references_same [OF thread_invD(5) [OF inv(1)]])
      show "held_by ?w x = Some p \<longleftrightarrow> held_by w x = Some p" for x p
        using none by (subst owner_held [OF hosts]) auto
    qed simp
    then have "thread_inv ?w"
      by (intro owner_step [OF inv(1) owns _ hosts, where k = SL_TEB_OWNERSHIP_RESERVED]) (use t in \<open>auto simp: inv(2)\<close>)
    then show ?thesis
      using True by (simp add: create_reserve_def)
  next
    case False
    have "thread_inv (go h (Release_Inactive t SL_ERROR_INVALID_STATE) w)"
      by (rule go_inv [OF inv(1)])
        (use inv(2) t in \<open>auto intro!: go_threads [OF thread_invD(2) [OF inv(1)]] no_teb_point\<close>)
    then show ?thesis
      using False by (simp add: create_reserve_def)
  qed
qed

lemma go_same_inv:
  assumes inv: "thread_inv w" and point: "point_claim (ho_point (tw_hosts w h)) = point_claim point"
      "point_owns (ho_point (tw_hosts w h)) = point_owns point"
      "point_process (tw_tebs w) point = point_process (tw_tebs w) (ho_point (tw_hosts w h))"
      "enters_fresh (ho_scopes (tw_hosts w h)) point"
    and "teb_point_ok (go h point w) h"
  shows "thread_inv (go h point w)"
  by (rule go_inv [OF inv]) (use assms(2-6) in \<open>auto intro!: go_threads [OF thread_invD(2) [OF inv]]\<close>)

text \<open>A reserved context stays reserved.\<close>

lemma reserved_point:
  assumes "thread_inv w" "owns (tw_hosts w h) t" "point_reserved (ho_point (tw_hosts w h))" "point_owns point = Some t"
    and "point_teb point = None \<or> point_teb point = point_teb (ho_point (tw_hosts w h))"
    and "\<not> point_attaches (ho_point (tw_hosts w h))" "\<not> point_cleared point" "\<not> point_reserves point"
  shows "teb_point_ok (go h point w) h"
proof (cases "point_teb point")
  case None
  then show ?thesis
    using reserved_owner(1) [OF assms(1-3)] assms(4,7,8) by (simp add: teb_point_ok_def Let_def)
next
  case (Some b)
  then have old: "point_teb (ho_point (tw_hosts w h)) = Some b"
    using assms(5) by simp
  then obtain B where "tw_tebs w b = Some B" "tb_thread B = t"
      "\<And>h'. h' \<noteq> h \<Longrightarrow> point_teb (ho_point (tw_hosts w h')) \<noteq> Some b"
    using point_teb_owned [OF assms(1) _ assms(6,2)] by blast
  then show ?thesis
    using Some reserved_owner(1) [OF assms(1-3)] assms(4,7,8)
    by (simp add: teb_point_ok_def Let_def teb_identity_def)
qed

lemma create_retain_inv:
  assumes inv: "thread_inv w" "ho_point (tw_hosts w h) = Create_Retain t l b p"
  shows "thread_inv (go h (Create_Exchange t l b p r) w)"
proof (rule go_same_inv [OF inv(1)])
  have owns: "owns (tw_hosts w h) t"
    by (simp add: inv(2))
  show "teb_point_ok (go h (Create_Exchange t l b p r) w) h"
    by (rule reserved_point [OF inv(1) owns]) (simp_all add: inv(2))
qed (use thread_invD(3) [OF inv(1), of h] inv(2) in \<open>simp_all add: scopes_ok_def\<close>)

lemma create_exchange_inv:
  assumes inv: "thread_inv w" "ho_point (tw_hosts w h) = Create_Exchange t l b p r"
  shows "thread_inv (create_exchange h spurious t l b p r w)"
proof -
  have owns: "owns (tw_hosts w h) t"
    by (simp add: inv(2))
  have p: "t \<noteq> NULL" "p \<noteq> NULL"
    using thread_invD(3) [OF inv(1), of h] inv(2) by (simp_all add: scopes_ok_def)
  have go: "thread_inv (go h point w)" if "point = Create_Undo_Owner t status \<or> point = Create_Exchange t l b p r'"
    for point status r'
  proof (rule go_same_inv [OF inv(1)])
    show "teb_point_ok (go h point w) h"
      by (rule reserved_point [OF inv(1) owns]) (use that in \<open>auto simp: inv(2)\<close>)
  qed (use that p inv(2) in auto)
  show ?thesis
  proof (rule retain_exchange_cases [of r spurious p w])
    assume r: "r \<noteq> UINT_MAX" "references_of w p = r"
      "retain_exchange spurious p r w = (Retained, set_references p (r + 1) w)"
    let ?w = "go h (Create_Build t l b p) (set_references p (r + 1) w)"
    have e: "create_exchange h spurious t l b p r w = ?w"
      using r by (simp add: create_exchange_def)
    show ?thesis
      unfolding e
    proof (rule thread_inv_step [OF inv(1), of _ h "(tw_hosts w h)\<lparr>ho_point := Create_Build t l b p\<rparr>"])
      show hosts: "tw_hosts ?w = (tw_hosts w)(h := (tw_hosts w h)\<lparr>ho_point := Create_Build t l b p\<rparr>)"
        by simp
      show "threads_ok ?w"
        using create_exchange_threads [OF thread_invD(2) [OF inv(1)] inv(2), of spurious] by (simp only: e)
      have "teb_point_ok (go h (Create_Build t l b p) w) h"
        by (rule reserved_point [OF inv(1) owns]) (simp_all add: inv(2))
      then show "tebs_ok ?w"
        using tebs_okD(2) [OF thread_invD(4) [OF inv(1)], of undefined]
        by (intro tebs_ok_step [OF thread_invD(4) [OF inv(1)] hosts, where t = undefined])
          (simp_all add: teb_point_ok_def owner_ok_def)
      have held_by: "held_by ?w = (held_by w)(Call_Holder h := Some p)"
        by (rule ext) (simp add: held_by_def teb_process_def scope_of_def split: holder.split)
      show "references_ok ?w"
        by (rule references_take [OF thread_invD(5) [OF inv(1)] _ held_by])
          (use r in \<open>simp_all add: held_by_def inv(2)\<close>)
    qed (use thread_invD(1) [OF inv(1)] thread_invD(3) [OF inv(1), of h] p in \<open>simp_all add: scopes_ok_def\<close>)
  qed (use go in \<open>auto simp: create_exchange_def\<close>)
qed

lemma create_undo_process_inv:
  assumes inv: "thread_inv w" "ho_point (tw_hosts w h) = Create_Undo_Process t p status"
  shows "thread_inv (go h (Create_Undo_Owner t status) (sl_win32_process_release p w))"
proof -
  have owns: "owns (tw_hosts w h) t"
    by (simp add: inv(2))
  have p: "t \<noteq> NULL" "p \<noteq> NULL"
    using thread_invD(3) [OF inv(1), of h] inv(2) by (simp_all add: scopes_ok_def)
  have "teb_point_ok (go h (Create_Undo_Owner t status) w) h"
    by (rule reserved_point [OF inv(1) owns]) (simp_all add: inv(2))
  then show ?thesis
    by (intro process_release_inv [OF inv(1)]) (use p in \<open>simp_all add: inv(2)\<close>)
qed

text \<open>Steps that only set the owner token of the context they hold.\<close>

lemma set_owner_inv:
  assumes inv: "thread_inv w" and owns: "owns (tw_hosts w h) t" "point_owns point = Some t"
    and fresh: "enters_fresh (ho_scopes (tw_hosts w h)) point"
    and point: "point_reserved point \<longrightarrow> k = SL_TEB_OWNERSHIP_RESERVED" "point_cleared point \<longrightarrow> k = 0"
      "\<not> point_reserves point" "\<not> point_attaches (ho_point (tw_hosts w h))"
      "point_teb point = None \<or> point_teb point = point_teb (ho_point (tw_hosts w h))"
    and k: "k = 0 \<or> k = SL_TEB_OWNERSHIP_RESERVED \<or> (\<exists>p. map_option teb_identity (tw_tebs w k) = Some (p, t))"
    and references: "references_ok (go h point (set_host h (\<lambda>H. H\<lparr>ho_out_teb := out\<rparr>)
      (set_thread t (\<lambda>T. T\<lparr>th_teb_owner_token := k\<rparr>) w)))"
  shows "thread_inv (go h point (set_host h (\<lambda>H. H\<lparr>ho_out_teb := out\<rparr>)
    (set_thread t (\<lambda>T. T\<lparr>th_teb_owner_token := k\<rparr>) w)))"
  by (rule owner_step [OF inv owns _ _ _ _ fresh point k references, where out = out]) simp_all

lemma set_out_same: "go h point (set_host h (\<lambda>H. H\<lparr>ho_out_teb := ho_out_teb (tw_hosts w h)\<rparr>) (set_thread t f w)) =
    go h point (set_thread t f w)"
  by (simp add: go_def set_host_def set_thread_def)

text \<open>The block becomes the owner of its context, and takes over the reference of the operation.\<close>

lemma become_owner_inv:
  assumes inv: "thread_inv w" and point: "ho_point (tw_hosts w h) = Create_Publish t b \<or> ho_point (tw_hosts w h) = Destroy_Restore t b"
  shows "thread_inv (go h (Release_Inactive t status) (set_host h (\<lambda>H. H\<lparr>ho_out_teb := out\<rparr>)
    (set_thread t (\<lambda>T. T\<lparr>th_teb_owner_token := b\<rparr>) w)))" (is "thread_inv ?w")
proof -
  have owns: "owns (tw_hosts w h) t" and r: "point_reserved (ho_point (tw_hosts w h))"
    and p: "point_teb (ho_point (tw_hosts w h)) = Some b" "\<not> point_attaches (ho_point (tw_hosts w h))"
    using point by auto
  obtain B where B: "tw_tebs w b = Some B" "tb_thread B = t" "b \<noteq> 0" "b \<noteq> SL_TEB_OWNERSHIP_RESERVED"
    using point_teb_owned [OF inv p owns] by blast
  have t: "t \<noteq> NULL"
    using host_owns [OF thread_invD(3) [OF inv] owns] .
  have here: "held_by w (Call_Holder h) = Some (tb_process B)" "held_by w (Teb_Holder t) = None"
    using point B(1) reserved_owner(1) [OF inv owns r] by (auto simp: held_by_def teb_process_def)
  have "held_by ?w = (held_by w)(Call_Holder h := None, Teb_Holder t := Some (tb_process B))"
    using owner_held [of ?w w h "Release_Inactive t status" out t b] B by simp
  then have "references_ok ?w"
    by (rule references_move [OF thread_invD(5) [OF inv] here]) simp
  then show ?thesis
    by (intro set_owner_inv [OF inv owns]) (use B p t in \<open>simp_all add: teb_identity_def\<close>)
qed

lemma destroy_reserve_inv:
  assumes inv: "thread_inv w" "ho_point (tw_hosts w h) = Destroy_Reserve t b"
  shows "thread_inv (destroy_reserve h t b w)"
proof -
  have owns: "owns (tw_hosts w h) t"
    by (simp add: inv(2))
  have t: "t \<noteq> NULL"
    using host_owns [OF thread_invD(3) [OF inv(1)] owns] .
  obtain B where B: "tw_tebs w b = Some B" "tb_thread B = t" "b \<noteq> 0" "b \<noteq> SL_TEB_OWNERSHIP_RESERVED"
    using point_teb_owned [OF inv(1) _ _ owns, of b] inv(2) by auto
  show ?thesis
  proof (cases "owner_of w t = b")
    case True
    let ?w = "go h (Destroy_Unmap t b) (set_host h (\<lambda>H. H\<lparr>ho_out_teb := ho_out_teb (tw_hosts w h)\<rparr>)
      (set_thread t (\<lambda>T. T\<lparr>th_teb_owner_token := SL_TEB_OWNERSHIP_RESERVED\<rparr>) w))"
    have here: "held_by w (Teb_Holder t) = Some (tb_process B)" "held_by w (Call_Holder h) = None"
      using True B by (simp_all add: held_by_def teb_process_def inv(2))
    have "held_by ?w = (held_by w)(Teb_Holder t := None, Call_Holder h := Some (tb_process B))"
      using owner_held [of ?w w h "Destroy_Unmap t b" "ho_out_teb (tw_hosts w h)" t SL_TEB_OWNERSHIP_RESERVED] B
      by (simp add: fun_upd_twist)
    then have "references_ok ?w"
      by (rule references_move [OF thread_invD(5) [OF inv(1)] here]) simp
    then have "thread_inv ?w"
      by (intro set_owner_inv [OF inv(1) owns]) (use t in \<open>simp_all add: inv(2)\<close>)
    then show ?thesis
      using True by (simp only: destroy_reserve_def set_out_same if_False not_True_eq_False simp_thms)
  next
    case False
    have "thread_inv (go h (Release_Inactive t SL_ERROR_INVALID_STATE) w)"
      by (rule go_same_inv [OF inv(1)]) (use t in \<open>auto simp: inv(2) intro!: no_teb_point\<close>)
    then show ?thesis
      using False by (simp add: destroy_reserve_def)
  qed
qed

lemma destroy_unmap_inv:
  assumes inv: "thread_inv w" "ho_point (tw_hosts w h) = Destroy_Unmap t b"
    and point: "point = Destroy_Clear t b \<or> point = Destroy_Restore t b"
  shows "thread_inv (go h point w)"
proof (rule go_same_inv [OF inv(1)])
  have owns: "owns (tw_hosts w h) t"
    by (simp add: inv(2))
  show "teb_point_ok (go h point w) h"
    by (rule reserved_point [OF inv(1) owns]) (use point in \<open>auto simp: inv(2)\<close>)
qed (use point inv(2) thread_invD(3) [OF inv(1), of h] in \<open>auto simp: scopes_ok_def\<close>)

text \<open>The owner token is cleared: nobody holds more or less for it.\<close>

lemma clear_owner_inv:
  assumes inv: "thread_inv w" and point: "(\<exists>status status'. ho_point (tw_hosts w h) = Create_Undo_Owner t status \<and> point = Release_Inactive t status') \<or>
      ho_point (tw_hosts w h) = Destroy_Clear t b \<and> point = Destroy_Process t b"
  shows "thread_inv (go h point (set_thread t (\<lambda>T. T\<lparr>th_teb_owner_token := 0\<rparr>) w))"
proof -
  have owns: "owns (tw_hosts w h) t" "point_reserved (ho_point (tw_hosts w h))"
    using point by auto
  have t: "t \<noteq> NULL"
    using host_owns [OF thread_invD(3) [OF inv] owns(1)] .
  let ?w = "go h point (set_host h (\<lambda>H. H\<lparr>ho_out_teb := ho_out_teb (tw_hosts w h)\<rparr>)
    (set_thread t (\<lambda>T. T\<lparr>th_teb_owner_token := 0\<rparr>) w))"
  have "held_by ?w = held_by w"
    using owner_held [of ?w w h point "ho_out_teb (tw_hosts w h)" t 0] point reserved_owner(1) [OF inv owns]
    by (auto simp: held_by_def teb_process_def fun_eq_iff)
  then have "references_ok ?w"
    by (intro references_same [OF thread_invD(5) [OF inv]]) simp_all
  then have "thread_inv ?w"
    by (intro set_owner_inv [OF inv owns(1)]) (use t point in auto)
  then show ?thesis
    by (simp only: set_out_same)
qed

lemma destroy_process_inv:
  assumes inv: "thread_inv w" "ho_point (tw_hosts w h) = Destroy_Process t b"
  shows "thread_inv (go h (Destroy_Free t b) (sl_win32_process_release (tb_process (teb_at w b)) w))"
proof -
  have owns: "owns (tw_hosts w h) t"
    by (simp add: inv(2))
  have t: "t \<noteq> NULL"
    using host_owns [OF thread_invD(3) [OF inv(1)] owns] .
  obtain B where B: "tw_tebs w b = Some B" "tb_process B \<noteq> NULL"
    using point_teb_owned [OF inv(1) _ _ owns, of b] inv(2) by auto
  have "teb_point_ok (go h (Destroy_Free t b) w) h"
    using tebs_okD(1) [OF thread_invD(4) [OF inv(1)], of h] by (auto simp: teb_point_ok_def Let_def inv(2))
  then show ?thesis
    by (intro process_release_inv [OF inv(1)]) (use B t in \<open>simp_all add: inv(2)\<close>)
qed

section \<open>Blocks that come and go\<close>

lemma point_process_other:
  "point_teb point \<noteq> Some b \<Longrightarrow> point_process (tebs(b := x)) point = point_process tebs point"
  by (cases point) simp_all

text \<open>A block that no other host thread works on and that owns no context.\<close>

lemma block_step:
  assumes inv: "thread_inv w" and w': "tw_hosts w' = (tw_hosts w)(h := (tw_hosts w h)\<lparr>ho_point := point\<rparr>)"
      "tw_tebs w' = (tw_tebs w)(b := x)" "\<not> tw_aborted w'" "threads_ok w'"
      "\<And>t. owner_of w' t = owner_of w t" "\<And>t. th_process (tw_threads w' t) = th_process (tw_threads w t)"
      "\<And>p. references_of w' p = references_of w p"
    and b: "\<And>h'. h' \<noteq> h \<Longrightarrow> point_teb (ho_point (tw_hosts w h')) \<noteq> Some b" "\<And>t. owner_of w t \<noteq> b"
    and x: "\<And>p t. map_option teb_identity x = Some (p, t) \<Longrightarrow> b \<noteq> 0 \<and> b \<noteq> SL_TEB_OWNERSHIP_RESERVED \<and> p \<noteq> NULL"
    and "enters_fresh (ho_scopes (tw_hosts w h)) point" "teb_point_ok w' h"
    and process: "point_process (tw_tebs w') point = point_process (tw_tebs w) (ho_point (tw_hosts w h))"
  shows "thread_inv w'"
proof (rule thread_inv_step [OF inv w'(1)])
  show "scopes_ok ((tw_hosts w h)\<lparr>ho_point := point\<rparr>)"
    using thread_invD(3) [OF inv, of h] assms(12) by (simp add: scopes_ok_def)
  have "teb_point_ok w' h'" for h'
  proof (cases "h' = h")
    case False
    have "point_teb point \<noteq> Some c" if "point_teb (ho_point (tw_hosts w h')) = Some c" for c
      using assms(13) that False by (auto simp: teb_point_ok_def Let_def w'(1))
    then show ?thesis
      using tebs_okD(1) [OF thread_invD(4) [OF inv], of h'] b(1) [OF False] False
      by (auto simp: teb_point_ok_def Let_def w'(1,2,5,6))
  qed (use assms(13) in simp)
  moreover have "owner_ok w' t" for t
    using tebs_okD(2) [OF thread_invD(4) [OF inv], of t] b(2) by (simp add: owner_ok_def w'(2,5))
  moreover have "c \<noteq> 0 \<and> c \<noteq> SL_TEB_OWNERSHIP_RESERVED \<and> p \<noteq> NULL"
    if "map_option teb_identity (tw_tebs w' c) = Some (p, t)" for c p t
  proof (cases "c = b")
    case True
    then have "map_option teb_identity x = Some (p, t)"
      using that by (simp only: w'(2) fun_upd_same)
    then show ?thesis
      using x [of p t] True by blast
  next
    case False
    then have "map_option teb_identity (tw_tebs w c) = Some (p, t)"
      using that False by (simp add: w'(2))
    then show ?thesis
      by (rule tebs_okD(3) [OF thread_invD(4) [OF inv]])
  qed
  ultimately show "tebs_ok w'"
    unfolding tebs_ok_def by blast
  have "held_by w' y = held_by w y" for y
  proof (cases y)
    case (Scope_Holder h' s)
    then show ?thesis
      by (simp add: held_by_def w'(1) scope_of_def)
  next
    case (Call_Holder h')
    then show ?thesis
      using process point_process_other [OF b(1)] by (simp add: held_by_def w'(1,2))
  next
    case (Teb_Holder t)
    then show ?thesis
      using b(2) by (simp add: held_by_def teb_process_def w'(2,5))
  qed
  then show "references_ok w'"
    by (intro references_same [OF thread_invD(5) [OF inv]]) (simp_all add: w'(7))
qed (use w' in simp_all)

lemma build_teb_Inr:
  "build_teb a t l l' p w = Inr (b, B) \<Longrightarrow> an_calloc a = Some b \<and> teb_identity B = (p, t)"
  by (auto simp: build_teb_def Let_def teb_identity_def split: if_splits option.splits)

text \<open>The system gives a new block an address that no block has.\<close>

definition new_teb :: "thread_world \<Rightarrow> thread_answers \<Rightarrow> bool" where
  "new_teb w a \<longleftrightarrow> (case an_calloc a of None \<Rightarrow> True
     | Some b \<Rightarrow> b \<noteq> NULL \<and> b \<noteq> SL_TEB_OWNERSHIP_RESERVED \<and> tw_tebs w b = None)"

lemma create_build_inv:
  assumes inv: "thread_inv w" "ho_point (tw_hosts w h) = Create_Build t l b p" and new: "new_teb w a"
  shows "thread_inv (create_build h a t l b p w)"
proof -
  have owns: "owns (tw_hosts w h) t" "point_reserved (ho_point (tw_hosts w h))"
    by (simp_all add: inv(2))
  have p: "t \<noteq> NULL" "p \<noteq> NULL"
    using thread_invD(3) [OF inv(1), of h] inv(2) by (simp_all add: scopes_ok_def)
  note threads = create_build_threads [OF thread_invD(2) [OF inv(1)] inv(2), of a]
  show ?thesis
  proof (cases "build_teb a t l b p w")
    case (Inl status)
    have "thread_inv (go h (Create_Undo_Process t p status) w)"
    proof (rule go_same_inv [OF inv(1)])
      show "teb_point_ok (go h (Create_Undo_Process t p status) w) h"
        by (rule reserved_point [OF inv(1) owns]) (simp_all add: inv(2))
    qed (use p in \<open>simp_all add: inv(2)\<close>)
    then show ?thesis
      by (simp add: create_build_def Inl)
  next
    case (Inr built)
    then obtain c B where B: "build_teb a t l b p w = Inr (c, B)"
      by (cases built) simp
    then have c: "an_calloc a = Some c" "teb_identity B = (p, t)"
      using build_teb_Inr by blast+
    then have fresh: "c \<noteq> NULL" "c \<noteq> SL_TEB_OWNERSHIP_RESERVED" "tw_tebs w c = None"
      using new by (simp_all add: new_teb_def)
    have others: "point_teb (ho_point (tw_hosts w h')) \<noteq> Some c" for h'
      using tebs_okD(1) [OF thread_invD(4) [OF inv(1)], of h'] fresh(3) by (auto simp: teb_point_ok_def Let_def)
    have owners: "owner_of w t' \<noteq> c" for t'
      using tebs_okD(2) [OF thread_invD(4) [OF inv(1)], of t'] fresh by (auto simp: owner_ok_def)
    let ?w = "go h (Create_Publish t c) (w\<lparr>tw_tebs := (tw_tebs w)(c := Some B)\<rparr>)"
    have e: "create_build h a t l b p w = ?w"
      by (simp add: create_build_def B)
    have process: "tb_process B = p"
      using c(2) by (simp add: teb_identity_def)
    show ?thesis
      unfolding e
    proof (rule block_step [OF inv(1), of _ h "Create_Publish t c" c "Some B"])
      show "threads_ok ?w"
        using threads by (simp only: e)
      show "teb_point_ok ?w h"
        using reserved_owner(1) [OF inv(1) owns] others c(2) by (simp add: teb_point_ok_def Let_def)
    qed (use thread_invD(1) [OF inv(1)] others owners fresh c p process in \<open>auto simp: inv(2)\<close>)
  qed
qed

lemma destroy_free_inv:
  assumes inv: "thread_inv w" "h \<noteq> 0" "ho_point (tw_hosts w h) = Destroy_Free t b"
  shows "thread_inv (go h (Idle status) ((sl_win32_context_release_inactive h t w)\<lparr>tw_tebs := (tw_tebs w)(b := None)\<rparr>))"
    (is "thread_inv ?w")
proof -
  have owns: "owns (tw_hosts w h) t"
    by (simp add: inv(3))
  have t: "t \<noteq> NULL"
    using host_owns [OF thread_invD(3) [OF inv(1)] owns] .
  obtain B where B: "tw_tebs w b = Some B" "tb_thread B = t" "b \<noteq> 0" "b \<noteq> SL_TEB_OWNERSHIP_RESERVED"
      "\<And>h'. h' \<noteq> h \<Longrightarrow> point_teb (ho_point (tw_hosts w h')) \<noteq> Some b"
    using point_teb_owned [OF inv(1) _ _ owns, of b] inv(3) by auto
  have owners: "owner_of w t' \<noteq> b" for t'
  proof
    assume o: "owner_of w t' = b"
    then have "t' = t"
      using tebs_okD(2) [OF thread_invD(4) [OF inv(1)], of t'] B by (auto simp: owner_ok_def teb_identity_def)
    then show False
      using o reserved_owner(2) [OF inv(1) owns] B(3) by (simp add: inv(3))
  qed
  note r = release_inactive_threads [OF thread_invD(2) [OF inv(1)] inv(2) owns t, of status]
  have threads: "threads_ok ?w"
    using conjunct2 [OF r, unfolded conjunct1 [OF r]] by (simp add: threads_ok_def conjunct1 [OF r])
  show ?thesis
    by (rule block_step [OF inv(1), of _ h "Idle status" b None])
      (use r threads B(5) owners thread_invD(1) [OF inv(1)] in \<open>auto simp: inv(3) intro!: no_teb_point\<close>)
qed

end
