(* ===== verification/Thread_Properties.thy ===== *)
theory Thread_Properties
  imports Thread_Steps Handle_Machine
begin

text \<open>
  All executions of host threads that enter and leave contexts and create, attach, detach and destroy environment
  blocks, in any interleaving of the pieces between two points, and what holds in every state they reach.
\<close>

section \<open>Executions\<close>

text \<open>A call may name a block only while it is alive and no other operation works on it; that is left to the
  caller.\<close>

definition call_allowed :: "thread_world \<Rightarrow> thread_call \<Rightarrow> bool" where
  "call_allowed w call = (case call of
     Teb_Destroy b \<Rightarrow> b = NULL \<or> free_teb w b
   | Attach t b \<Rightarrow> b = NULL \<or> free_teb w b
   | Detach t b \<Rightarrow> b = NULL \<or> free_teb w b
   | _ \<Rightarrow> True)"

text \<open>What the rest of the program does in between: it changes the plain fields of contexts and processes, the
  process of a context only while the context is inactive.\<close>

definition configures :: "thread_world \<Rightarrow> thread_world \<Rightarrow> bool" where
  "configures w w' \<longleftrightarrow> tw_tebs w' = tw_tebs w \<and> tw_hosts w' = tw_hosts w \<and> tw_aborted w' = tw_aborted w \<and>
     (\<forall>t. token_of w' t = token_of w t \<and> scope_count w' t = scope_count w t \<and> owner_of w' t = owner_of w t \<and>
        (token_of w t \<noteq> 0 \<longrightarrow> th_process (tw_threads w' t) = th_process (tw_threads w t))) \<and>
     (\<forall>p. references_of w' p = references_of w p)"

inductive thread_step :: "thread_world \<Rightarrow> thread_world \<Rightarrow> bool" where
  call: "h \<noteq> 0 \<Longrightarrow> \<not> tw_aborted w \<Longrightarrow> ho_point (tw_hosts w h) = Idle status \<Longrightarrow> call_allowed w call \<Longrightarrow>
    thread_step w (begin_call h call w)"
| move: "h \<noteq> 0 \<Longrightarrow> \<not> tw_aborted w \<Longrightarrow> new_teb w a \<Longrightarrow> thread_step w (advance h a w)"
| configure: "\<not> tw_aborted w \<Longrightarrow> configures w w' \<Longrightarrow> thread_step w w'"

definition thread_initial :: "thread_world \<Rightarrow> bool" where
  "thread_initial w \<longleftrightarrow> \<not> tw_aborted w \<and> (\<forall>t. token_of w t = 0 \<and> scope_count w t = 0 \<and> owner_of w t = 0) \<and>
     (\<forall>p. references_of w p = 0) \<and> (\<forall>b. tw_tebs w b = None) \<and>
     (\<forall>h. ho_current (tw_hosts w h) = NULL \<and> ho_scopes (tw_hosts w h) = [] \<and>
        (\<exists>status. ho_point (tw_hosts w h) = Idle status))"

inductive thread_reachable :: "thread_world \<Rightarrow> bool" where
  initial: "thread_initial w \<Longrightarrow> thread_reachable w"
| step: "thread_reachable w \<Longrightarrow> thread_step w w' \<Longrightarrow> thread_reachable w'"

section \<open>The invariant holds in every execution\<close>

lemma initial_inv:
  assumes "thread_initial w"
  shows "thread_inv w"
proof -
  have idle: "\<exists>status. ho_point (tw_hosts w h) = Idle status" and scopes: "ho_scopes (tw_hosts w h) = []"
      "ho_current (tw_hosts w h) = NULL" for h
    using assms by (simp_all add: thread_initial_def)
  have point: "point_claim (ho_point (tw_hosts w h)) = None" "point_owns (ho_point (tw_hosts w h)) = None"
      "point_teb (ho_point (tw_hosts w h)) = None" "\<not> point_reserved (ho_point (tw_hosts w h))"
      "\<not> point_reserves (ho_point (tw_hosts w h))" "point_process (tw_tebs w) (ho_point (tw_hosts w h)) = None"
      "enters_fresh [] (ho_point (tw_hosts w h))" for h
    using idle [of h] by auto
  have "threads_ok w"
    using assms point(1,2) scopes
    by (simp add: threads_ok_def thread_ok_def thread_initial_def claims_def entered_def)
  moreover have "tebs_ok w"
    using assms no_teb_point point(3-5) by (simp add: tebs_ok_def owner_ok_def thread_initial_def)
  moreover have "held_by w x = None" for x
    using assms point(6) scopes
    by (simp add: held_by_def scope_of_def teb_process_def thread_initial_def split: holder.split)
  then have "references_ok w"
    using assms by (simp add: references_ok_def holders_def thread_initial_def)
  ultimately show ?thesis
    using assms scopes point(7) by (simp add: thread_inv_def scopes_ok_def thread_initial_def)
qed

lemma begin_call_inv:
  assumes "thread_inv w" "h \<noteq> 0" "ho_point (tw_hosts w h) = Idle status" "call_allowed w call"
  shows "thread_inv (begin_call h call w)"
  using assms(4) begin_enter_inv [OF assms(1-3)] begin_leave_inv [OF assms(1,3)] begin_create_inv [OF assms(1-3)]
    begin_destroy_inv [OF assms(1-3)] begin_attach_inv [OF assms(1-3)] begin_detach_inv [OF assms(1-3)]
  by (cases call) (auto simp: begin_call_def call_allowed_def)

lemma enter_retain_inv:
  assumes inv: "thread_inv w" "ho_point (tw_hosts w h) = Enter_Retain t s p"
  shows "thread_inv (go h (Enter_Exchange t s p r) w)"
  by (rule go_same_inv [OF inv(1)])
    (use thread_invD(3) [OF inv(1), of h] inv(2) in \<open>auto simp: scopes_ok_def intro!: no_teb_point\<close>)

lemma leave_process_inv:
  assumes inv: "thread_inv w" "ho_point (tw_hosts w h) = Leave_Process t p"
  shows "thread_inv (go h (Leave_Thread t) (sl_win32_process_release p w))"
  by (rule process_release_inv [OF inv(1)])
    (use thread_invD(3) [OF inv(1), of h] inv(2) in \<open>auto simp: scopes_ok_def intro!: no_teb_point\<close>)

lemma advance_inv:
  assumes inv: "thread_inv w" "h \<noteq> 0" and new: "new_teb w a"
  shows "thread_inv (advance h a w)"
proof (cases "ho_point (tw_hosts w h)")
  case (Create_Publish t b)
  then show ?thesis
    using become_owner_inv [OF inv(1), of h t b] by (simp add: advance_def create_publish_def)
next
  case (Destroy_Restore t b)
  then have "thread_inv (go h (Release_Inactive t SL_ERROR_MEMORY_MAPPING) (set_host h
      (\<lambda>H. H\<lparr>ho_out_teb := ho_out_teb (tw_hosts w h)\<rparr>) (set_thread t (\<lambda>T. T\<lparr>th_teb_owner_token := b\<rparr>) w)))"
    using become_owner_inv [OF inv(1), of h t b] by blast
  then show ?thesis
    by (simp only: set_out_same advance_def Destroy_Restore thread_point.case)
next
  case (Destroy_Unmap t b)
  then show ?thesis
    using destroy_unmap_inv [OF inv(1) Destroy_Unmap] by (simp add: advance_def)
next
  case (Enter_Undo t status)
  then show ?thesis
    using release_context_inv [OF inv, of t] by (simp add: advance_def)
next
  case (Leave_Thread t)
  then show ?thesis
    using release_context_inv [OF inv, of t] by (simp add: advance_def)
next
  case (Create_Undo_Owner t status)
  then show ?thesis
    using clear_owner_inv [OF inv(1), of h t] by (simp add: advance_def)
next
  case (Destroy_Clear t b)
  then show ?thesis
    using clear_owner_inv [OF inv(1), of h t] by (simp add: advance_def)
next
  case (Idle status)
  then show ?thesis
    using inv(1) by (simp add: advance_def)
next
  case (Claim_Exchange t s)
  then show ?thesis
    using claim_exchange_inv [OF inv] by (simp add: advance_def)
next
  case (Enter_Retain t s p)
  then show ?thesis
    using enter_retain_inv [OF inv(1)] by (simp add: advance_def)
next
  case (Enter_Exchange t s p r)
  then show ?thesis
    using enter_exchange_inv [OF inv(1)] by (simp add: advance_def)
next
  case (Leave_Process t p)
  then show ?thesis
    using leave_process_inv [OF inv(1)] by (simp add: advance_def)
next
  case (Create_Reserve t l b)
  then show ?thesis
    using create_reserve_inv [OF inv(1)] by (simp add: advance_def)
next
  case (Create_Retain t l b p)
  then show ?thesis
    using create_retain_inv [OF inv(1)] by (simp add: advance_def)
next
  case (Create_Exchange t l b p r)
  then show ?thesis
    using create_exchange_inv [OF inv(1)] by (simp add: advance_def)
next
  case (Create_Build t l b p)
  then show ?thesis
    using create_build_inv [OF inv(1) _ new] by (simp add: advance_def)
next
  case (Create_Undo_Process t p status)
  then show ?thesis
    using create_undo_process_inv [OF inv(1)] by (simp add: advance_def)
next
  case (Destroy_Reserve t b)
  then show ?thesis
    using destroy_reserve_inv [OF inv(1)] by (simp add: advance_def)
next
  case (Destroy_Process t b)
  then show ?thesis
    using destroy_process_inv [OF inv(1)] by (simp add: advance_def)
next
  case (Destroy_Free t b)
  then show ?thesis
    using destroy_free_inv [OF inv] by (simp add: advance_def)
next
  case (Attach_Check t b)
  then show ?thesis
    using attach_check_inv [OF inv(1)] by (simp add: advance_def)
next
  case (Release_Inactive t status)
  then show ?thesis
    using release_inactive_inv [OF inv] by (simp add: advance_def)
qed

lemma configure_inv:
  assumes inv: "thread_inv w" and c: "configures w w'"
  shows "thread_inv w'"
proof -
  have w': "tw_tebs w' = tw_tebs w" "tw_hosts w' = tw_hosts w" "tw_aborted w' = tw_aborted w"
      "\<And>t. token_of w' t = token_of w t" "\<And>t. scope_count w' t = scope_count w t" "\<And>t. owner_of w' t = owner_of w t"
      "\<And>t. token_of w t \<noteq> 0 \<Longrightarrow> th_process (tw_threads w' t) = th_process (tw_threads w t)"
      "\<And>p. references_of w' p = references_of w p"
    using c by (simp_all add: configures_def)
  have process: "th_process (tw_threads w' t) = th_process (tw_threads w t)" if "owns (tw_hosts w h) t" for h t
  proof -
    have "token_of w t \<noteq> 0"
      using threads_okD [OF thread_invD(2) [OF inv], of t] that by (auto simp: thread_ok_def split: if_splits)
    then show ?thesis
      by (rule w'(7))
  qed
  have "threads_ok w'"
    using thread_invD(2) [OF inv] by (simp add: threads_ok_def w')
  moreover have "teb_point_ok w' h" for h
    using tebs_okD(1) [OF thread_invD(4) [OF inv], of h] process
    by (auto simp: teb_point_ok_def Let_def w'(1,2,6))
  then have "tebs_ok w'"
    using tebs_okD(2,3) [OF thread_invD(4) [OF inv]] unfolding tebs_ok_def owner_ok_def w'(1,6) by blast
  moreover have "held_by w' = held_by w"
    by (rule ext) (simp add: held_by_def teb_process_def w' split: holder.split)
  then have "references_ok w'"
    using thread_invD(5) [OF inv] by (simp add: references_ok_def holders_def w'(8))
  ultimately show ?thesis
    using thread_invD(1,3) [OF inv] by (simp add: thread_inv_def w')
qed

lemma reachable_inv: "thread_reachable w \<Longrightarrow> thread_inv w"
proof (induction rule: thread_reachable.induct)
  case (initial w)
  then show ?case
    by (rule initial_inv)
next
  case (step w w')
  from step(2) show ?case
    by cases (use step(3) begin_call_inv advance_inv configure_inv in auto)
qed

section \<open>What the invariant says\<close>

lemma thread_inv_active:
  assumes "thread_inv w"
  shows "0 < claims (tw_hosts w h) t \<or> owns (tw_hosts w h) t \<Longrightarrow> token_of w t = h"
    and "token_of w t \<noteq> 0 \<Longrightarrow> unat (scope_count w t) = claims (tw_hosts w (token_of w t)) t"
    and "token_of w t \<noteq> 0 \<Longrightarrow> 0 < claims (tw_hosts w (token_of w t)) t \<or> owns (tw_hosts w (token_of w t)) t"
    and "0 < claims (tw_hosts w h) t \<or> owns (tw_hosts w h) t \<Longrightarrow> token_of w t \<noteq> 0"
proof -
  note ok = threads_okD [OF thread_invD(2) [OF assms], of t]
  show "0 < claims (tw_hosts w h) t \<or> owns (tw_hosts w h) t \<Longrightarrow> token_of w t = h"
    using ok by (rule_tac ccontr) (auto simp: thread_ok_def split: if_splits)
  show "token_of w t \<noteq> 0 \<Longrightarrow> unat (scope_count w t) = claims (tw_hosts w (token_of w t)) t"
    using ok by (auto simp: thread_ok_def split: if_splits)
  show "token_of w t \<noteq> 0 \<Longrightarrow> 0 < claims (tw_hosts w (token_of w t)) t \<or> owns (tw_hosts w (token_of w t)) t"
    using ok by (auto simp: thread_ok_def unat_eq_0 [symmetric] simp del: unat_eq_0 split: if_splits)
  show "0 < claims (tw_hosts w h) t \<or> owns (tw_hosts w h) t \<Longrightarrow> token_of w t \<noteq> 0"
    using ok by (auto simp: thread_ok_def split: if_splits)
qed

lemma thread_inv_destroy:
  assumes "thread_inv w" "p \<noteq> NULL"
  shows "fst (sl_win32_process_destroy host (Some (tw_processes w p))) = SL_OK \<longleftrightarrow> holders w p = {}"
proof -
  have "finite (holders w p)" "unat (references_of w p) = card (holders w p)"
    using thread_invD(5) [OF assms(1)] assms(2) by (simp_all add: references_ok_def)
  then have "references_of w p = 0 \<longleftrightarrow> holders w p = {}"
    using card_eq_0_iff [of "holders w p"] by (simp add: unat_eq_0 [symmetric] del: unat_eq_0)
  then show ?thesis
    by (simp add: sl_win32_process_destroy_def)
qed

lemma thread_inv_owner:
  assumes "thread_inv w" "owner_of w t \<noteq> 0" "owner_of w t \<noteq> SL_TEB_OWNERSHIP_RESERVED"
  obtains B where "tw_tebs w (owner_of w t) = Some B" "tb_thread B = t"
  using tebs_okD(2) [OF thread_invD(4) [OF assms(1)], of t] assms(2,3)
  by (auto simp: owner_ok_def teb_identity_def)

section \<open>The property\<close>

text \<open>C32: in every state that host threads reach by entering and leaving contexts and creating, attaching,
  detaching and destroying environment blocks, however these operations interleave: no check of the code aborted;
  the reference counter of a process is the number of scopes, blocks and operations under way that hold it, and
  \<open>sl_win32_process_destroy\<close> succeeds exactly when there are none; a context is active exactly when some host thread
  has entered it or works on it alone, that host thread is the only one and its token is the one in the context,
  and the counter of scopes is exact; and the block that is the owner of a context is alive and the context's.\<close>

theorem reachable_threads_safe:
  assumes "thread_reachable w"
  shows "\<not> tw_aborted w \<and>
    (\<forall>p. p \<noteq> NULL \<longrightarrow> finite (holders w p) \<and> unat (references_of w p) = card (holders w p) \<and>
       (fst (sl_win32_process_destroy host (Some (tw_processes w p))) = SL_OK \<longleftrightarrow> holders w p = {})) \<and>
    (\<forall>t h. 0 < claims (tw_hosts w h) t \<or> owns (tw_hosts w h) t \<longrightarrow> token_of w t = h \<and> token_of w t \<noteq> 0) \<and>
    (\<forall>t. token_of w t \<noteq> 0 \<longrightarrow> unat (scope_count w t) = claims (tw_hosts w (token_of w t)) t \<and>
       (0 < claims (tw_hosts w (token_of w t)) t \<or> owns (tw_hosts w (token_of w t)) t)) \<and>
    (\<forall>t. owner_of w t \<noteq> 0 \<longrightarrow> owner_of w t \<noteq> SL_TEB_OWNERSHIP_RESERVED \<longrightarrow>
       (\<exists>B. tw_tebs w (owner_of w t) = Some B \<and> tb_thread B = t))"
proof (intro conjI)
  note inv = reachable_inv [OF assms]
  show "\<not> tw_aborted w"
    by (rule thread_invD(1) [OF inv])
  show "\<forall>p. p \<noteq> NULL \<longrightarrow> finite (holders w p) \<and> unat (references_of w p) = card (holders w p) \<and>
      (fst (sl_win32_process_destroy host (Some (tw_processes w p))) = SL_OK \<longleftrightarrow> holders w p = {})"
    using thread_invD(5) [OF inv] thread_inv_destroy [OF inv] unfolding references_ok_def by blast
  show "\<forall>t h. 0 < claims (tw_hosts w h) t \<or> owns (tw_hosts w h) t \<longrightarrow> token_of w t = h \<and> token_of w t \<noteq> 0"
    using thread_inv_active(1,4) [OF inv] by blast
  show "\<forall>t. token_of w t \<noteq> 0 \<longrightarrow> unat (scope_count w t) = claims (tw_hosts w (token_of w t)) t \<and>
      (0 < claims (tw_hosts w (token_of w t)) t \<or> owns (tw_hosts w (token_of w t)) t)"
    using thread_inv_active(2,3) [OF inv] by blast
  show "\<forall>t. owner_of w t \<noteq> 0 \<longrightarrow> owner_of w t \<noteq> SL_TEB_OWNERSHIP_RESERVED \<longrightarrow>
      (\<exists>B. tw_tebs w (owner_of w t) = Some B \<and> tb_thread B = t)"
    using thread_inv_owner [OF inv] by metis
qed

section \<open>A run\<close>

text \<open>Host thread 1 enters the context at 16, whose process is at 32, with a scope at 48.\<close>

definition run_context :: sl_win32_thread_context where
  "run_context = \<lparr>th_process = 32, th_last_error = 0, th_thread_id = 7, th_teb = NULL, th_last_error_address = NULL,
     th_tls_values = [], th_fls_values = [], th_host_thread_token = 0, th_active_scope_count = 0,
     th_teb_owner_token = 0\<rparr>"

definition run_start :: "(ptr \<Rightarrow> sl_win32_process) \<Rightarrow> thread_world" where
  "run_start processes = \<lparr>tw_threads = (\<lambda>t. run_context), tw_processes = processes, tw_tebs = (\<lambda>b. None),
     tw_hosts = (\<lambda>h. \<lparr>ho_current = NULL, ho_scopes = [], ho_out_teb = NULL, ho_point = Idle SL_OK\<rparr>),
     tw_aborted = False\<rparr>"

definition run_processes :: "ptr \<Rightarrow> sl_win32_process" where
  "run_processes p = new_process initial_world 0x1234 (p + 64) (p + 4160)"

definition run_answers :: thread_answers where
  "run_answers = \<lparr>an_spurious = False, an_sysconf = 4096, an_calloc = None, an_mmap = None, an_mprotect_ok = True,
     an_munmap_ok = True, an_getpid = 100\<rparr>"

definition run_entered :: "(ptr \<Rightarrow> sl_win32_process) \<Rightarrow> thread_world" where
  "run_entered processes = (advance 1 run_answers ^^ 3) (begin_call 1 (Enter 16 48) (run_start processes))"

lemmas run_defs = run_entered_def run_start_def run_context_def run_answers_def numeral_3_eq_3 begin_call_def
  begin_enter_def advance_def claim_exchange_def enter_claimed_def enter_exchange_def retain_exchange_def Let_def
  UINT_MAX_def

lemma run_entered_facts:
  assumes "\<And>p. pr_active_references (processes p) = 0"
  shows "ho_scopes (tw_hosts (run_entered processes) 1) =
      [\<lparr>cs_address = 48, cs_previous = 0, cs_installed = 16, cs_retained_process = 32\<rparr>]"
    and "ho_point (tw_hosts (run_entered processes) 1) = Idle SL_OK"
    and "references_of (run_entered processes) 32 = 1" "token_of (run_entered processes) 16 = 1"
  by (simp_all add: run_defs assms)

lemma advance_reachable:
  assumes "thread_reachable w" "h \<noteq> 0" "an_calloc a = None"
  shows "thread_reachable ((advance h a ^^ n) w)"
proof (induction n)
  case (Suc n)
  then show ?case
    using thread_reachable.step [OF Suc] thread_step.move [OF assms(2), of _ a] thread_invD(1) [OF reachable_inv [OF Suc]] assms(3)
    by (simp add: new_teb_def)
qed (simp add: assms(1))

lemma run_entered_reachable:
  assumes "\<And>p. pr_active_references (processes p) = 0"
  shows "thread_reachable (run_entered processes)"
proof -
  have start: "thread_reachable (run_start processes)"
    using assms by (intro thread_reachable.initial) (simp add: thread_initial_def run_start_def run_context_def)
  have "thread_step (run_start processes) (begin_call 1 (Enter 16 48) (run_start processes))"
    by (rule thread_step.call [of _ _ SL_OK]) (simp_all add: run_start_def call_allowed_def)
  then show ?thesis
    unfolding run_entered_def
    by (intro advance_reachable thread_reachable.step [OF start]) (simp_all add: run_answers_def)
qed

theorem reachable_threads_safe_witness:
  "\<forall>host. card (holders (run_entered run_processes) 32) = 1 \<and>
     fst (sl_win32_process_destroy host (Some (tw_processes (run_entered run_processes) 32))) \<noteq> SL_OK \<and>
     claims (tw_hosts (run_entered run_processes) 1) 16 = 1"
proof
  fix host
  have p: "pr_active_references (run_processes p) = 0" for p
    by (simp add: run_processes_def new_process_def)
  note facts = run_entered_facts [of run_processes, OF p]
  note safe = reachable_threads_safe [OF run_entered_reachable [of run_processes, OF p], THEN conjunct2, THEN conjunct1, rule_format, of 32 host]
  have "claims (tw_hosts (run_entered run_processes) 1) 16 = 1"
    using facts(1,2) by (simp add: claims_def entered_def)
  then show "card (holders (run_entered run_processes) 32) = 1 \<and>
      fst (sl_win32_process_destroy host (Some (tw_processes (run_entered run_processes) 32))) \<noteq> SL_OK \<and>
      claims (tw_hosts (run_entered run_processes) 1) 16 = 1"
    using safe facts(3) by auto
qed

end
