(* ===== verification/Kernel32_Modules.thy ===== *)
theory Kernel32_Modules
  imports Thread_Context Unwind_Frame
begin

text \<open>
  \<open>src/kernel32.c\<close>, the functions about the current process and its modules. They run on a host thread \<open>h\<close>
  of a world of threads, in the context that is current there. A function of the API returns its value and the last
  error it sets, if it sets one. Strings of the guest are at the addresses it passes: \<open>strings\<close> gives the units
  before the terminator.
\<close>

section \<open>Constants\<close>

definition SL_ERROR_SUCCESS :: u32 where "SL_ERROR_SUCCESS = 0"
definition SL_ERROR_INVALID_HANDLE :: u32 where "SL_ERROR_INVALID_HANDLE = 6"
definition SL_ERROR_INVALID_PARAMETER :: u32 where "SL_ERROR_INVALID_PARAMETER = 87"
definition SL_ERROR_INSUFFICIENT_BUFFER :: u32 where "SL_ERROR_INSUFFICIENT_BUFFER = 122"
definition SL_ERROR_MOD_NOT_FOUND :: u32 where "SL_ERROR_MOD_NOT_FOUND = 126"
definition SL_ERROR_PROC_NOT_FOUND :: u32 where "SL_ERROR_PROC_NOT_FOUND = 127"
definition SL_ERROR_INVALID_ORDINAL :: u32 where "SL_ERROR_INVALID_ORDINAL = 182"

definition SL_STD_INPUT_ID :: u32 where "SL_STD_INPUT_ID = 0xfffffff6"
definition SL_STD_OUTPUT_ID :: u32 where "SL_STD_OUTPUT_ID = 0xfffffff5"
definition SL_STD_ERROR_ID :: u32 where "SL_STD_ERROR_ID = 0xfffffff4"

definition SL_WIN32_GET_MODULE_HANDLE_EX_FLAG_PIN :: u32 where
  "SL_WIN32_GET_MODULE_HANDLE_EX_FLAG_PIN = 1"
definition SL_WIN32_GET_MODULE_HANDLE_EX_FLAG_UNCHANGED_REFCOUNT :: u32 where
  "SL_WIN32_GET_MODULE_HANDLE_EX_FLAG_UNCHANGED_REFCOUNT = 2"
definition SL_WIN32_GET_MODULE_HANDLE_EX_FLAG_FROM_ADDRESS :: u32 where
  "SL_WIN32_GET_MODULE_HANDLE_EX_FLAG_FROM_ADDRESS = 4"
definition SL_WIN32_LOAD_LIBRARY_SEARCH_SYSTEM32 :: u32 where "SL_WIN32_LOAD_LIBRARY_SEARCH_SYSTEM32 = 0x800"
definition UINTPTR_MAX_handle :: u64 where "UINTPTR_MAX_handle = 0xffffffffffffffff"

lemmas kernel32_errors = SL_ERROR_SUCCESS_def SL_ERROR_INVALID_HANDLE_def SL_ERROR_INVALID_PARAMETER_def
  SL_ERROR_INSUFFICIENT_BUFFER_def SL_ERROR_MOD_NOT_FOUND_def SL_ERROR_PROC_NOT_FOUND_def SL_ERROR_INVALID_ORDINAL_def

type_synonym 'a api = "'a \<times> u32 option"

definition refuse :: "'a \<Rightarrow> u32 \<Rightarrow> 'a api" where
  "refuse v error = (v, Some error)"

definition answer :: "'a \<Rightarrow> 'a api" where
  "answer v = (v, None)"

section \<open>The current process\<close>

text \<open>The variable the last error is kept in: the host thread's own, the field of the context, or the guest's
  memory.\<close>

datatype (plugins only: code size) last_error_place = Fallback_last_error | Context_last_error ptr | Memory_last_error ptr

definition current_last_error :: "thread_world \<Rightarrow> u64 \<Rightarrow> last_error_place" where
  "current_last_error w h =
     (let t = sl_win32_context_current w h
      in if t = NULL then Fallback_last_error
         else if th_last_error_address (tw_threads w t) = NULL then Context_last_error t
         else Memory_last_error (th_last_error_address (tw_threads w t)))"

definition current_process_if_installed :: "thread_world \<Rightarrow> u64 \<Rightarrow> ptr" where
  "current_process_if_installed w h =
     (let t = sl_win32_context_current w h in if t = NULL then NULL else th_process (tw_threads w t))"

definition process_at :: "thread_world \<Rightarrow> ptr \<Rightarrow> sl_win32_process option" where
  "process_at w p = (if p = NULL then None else Some (tw_processes w p))"

text \<open>\<open>None\<close> where the code aborts.\<close>

definition current_process :: "thread_world \<Rightarrow> u64 \<Rightarrow> ptr option" where
  "current_process w h = (let p = current_process_if_installed w h in if p = NULL then None else Some p)"

definition current_stack_bounds :: "thread_world \<Rightarrow> u64 \<Rightarrow> sl_win64_stack_bounds option" where
  "current_stack_bounds w h =
     (case sl_win32_thread_stack_bounds w (sl_win32_context_current w h) True of
        Inl _ \<Rightarrow> None
      | Inr (stack_limit, stack_base) \<Rightarrow> Some \<lparr>sb_limit = stack_limit, sb_base = stack_base\<rparr>)"

text \<open>The module space of the current process, its registry, and the objects its modules point to.\<close>

definition current_module_space :: "thread_world \<Rightarrow> u64 \<Rightarrow> sl_module_space option" where
  "current_module_space w h = sl_win32_process_module_space (process_at w (current_process_if_installed w h))"

definition current_module_registry :: "thread_world \<Rightarrow> u64 \<Rightarrow> sl_module_registry option" where
  "current_module_registry w h = sl_module_space_registry (current_module_space w h)"

definition current_objects :: "thread_world \<Rightarrow> u64 \<Rightarrow> module_objects" where
  "current_objects w h = objects_of (case current_module_space w h of None \<Rightarrow> [] | Some space \<Rightarrow> sp_owned space)"

definition current_main_module :: "thread_world \<Rightarrow> u64 \<Rightarrow> nat option" where
  "current_main_module w h = sl_win32_process_main_module (process_at w (current_process_if_installed w h))"

section \<open>Pointers\<close>

definition sl_kernel32_encode_pointer :: "thread_world \<Rightarrow> u64 \<Rightarrow> u64 \<Rightarrow> u64 option" where
  "sl_kernel32_encode_pointer w h pointer =
     map_option (\<lambda>p. sl_win32_process_encode_pointer (tw_processes w p) pointer) (current_process w h)"

definition sl_kernel32_decode_pointer :: "thread_world \<Rightarrow> u64 \<Rightarrow> u64 \<Rightarrow> u64 option" where
  "sl_kernel32_decode_pointer w h pointer =
     map_option (\<lambda>p. sl_win32_process_decode_pointer (tw_processes w p) pointer) (current_process w h)"

section \<open>Names of modules\<close>

text \<open>A converted name is completed with the default extension, or loses the dot at its end.\<close>

definition complete_module_name :: "bytes \<Rightarrow> bytes option" where
  "complete_module_name name =
     (if 0x5c \<in> set name \<or> 0x2f \<in> set name \<or> 0x3a \<in> set name then None
      else case strrchr name 0x2e of
        None \<Rightarrow> if length name > SL_MODULE_NAME_CAPACITY - 5 then None
                else Some (name @ [0x2e, 0x64, 0x6c, 0x6c])
      | Some extension \<Rightarrow>
          if extension + 1 = length name then if extension = 0 then None else Some (take extension name)
          else Some name)"

definition wide_module_name_to_utf8 :: "u16 list option \<Rightarrow> bytes option" where
  "wide_module_name_to_utf8 wide_name =
     (case wide_name of
        None \<Rightarrow> None
      | Some units \<Rightarrow>
          if length units = 0 \<or> length units \<ge> SL_MODULE_NAME_CAPACITY then None
          else (case sl_utf16_to_utf8 wide_name (length units) None 0 (Some 0) of
                  Some (SL_OK, _, Some required) \<Rightarrow>
                    if required \<ge> SL_MODULE_NAME_CAPACITY then None
                    else (case sl_utf16_to_utf8 wide_name (length units)
                                 (Some (replicate (SL_MODULE_NAME_CAPACITY - 1) 0)) (SL_MODULE_NAME_CAPACITY - 1) (Some 0) of
                            Some (SL_OK, Some name, Some written) \<Rightarrow> complete_module_name (take written name)
                          | _ \<Rightarrow> None)
                | _ \<Rightarrow> None))"

definition string_at :: "(ptr \<Rightarrow> u16 list) \<Rightarrow> ptr \<Rightarrow> u16 list option" where
  "string_at strings address = (if address = NULL then None else Some (strings address))"

definition current_pe_module_by_name :: "(ptr \<Rightarrow> u16 list) \<Rightarrow> thread_world \<Rightarrow> u64 \<Rightarrow> ptr \<Rightarrow> nat option" where
  "current_pe_module_by_name strings w h module_name =
     (if current_process_if_installed w h = NULL then None
      else if module_name = NULL then current_main_module w h
      else case current_module_registry w h of
        None \<Rightarrow> None
      | Some r \<Rightarrow>
          (case wide_module_name_to_utf8 (string_at strings module_name) of
             None \<Rightarrow> None
           | Some name \<Rightarrow>
               (case sl_module_registry_resolve_module (Some r) (Some name) of
                  Inl _ \<Rightarrow> None
                | Inr m \<Rightarrow>
                    if md_kind (rg_modules r ! m) \<noteq> SL_MODULE_PE \<or> md_mapped (rg_modules r ! m) = None then None
                    else Some m)))"

text \<open>The handle of a module: where it is loaded.\<close>

definition module_base :: "thread_world \<Rightarrow> u64 \<Rightarrow> nat \<Rightarrow> u64" where
  "module_base w h m =
     (case current_module_registry w h of
        None \<Rightarrow> 0
      | Some r \<Rightarrow>
          (case md_mapped (rg_modules r ! m) of
             None \<Rightarrow> 0 | Some p \<Rightarrow> mp_load_base (mapped_at (current_objects w h) p)))"

definition sl_kernel32_get_module_handle_w :: "(ptr \<Rightarrow> u16 list) \<Rightarrow> thread_world \<Rightarrow> u64 \<Rightarrow> ptr \<Rightarrow> u64 api" where
  "sl_kernel32_get_module_handle_w strings w h module_name =
     (case current_pe_module_by_name strings w h module_name of
        None \<Rightarrow> refuse 0 SL_ERROR_MOD_NOT_FOUND
      | Some m \<Rightarrow> if module_base w h m = 0 then refuse 0 SL_ERROR_MOD_NOT_FOUND else answer (module_base w h m))"

text \<open>The handle that is stored through the out pointer, when that is given, beside the value.\<close>

definition sl_kernel32_get_module_handle_ex_w ::
    "(ptr \<Rightarrow> u16 list) \<Rightarrow> thread_world \<Rightarrow> u64 \<Rightarrow> u32 \<Rightarrow> ptr \<Rightarrow> bool \<Rightarrow> (bool \<times> u64 option) api" where
  "sl_kernel32_get_module_handle_ex_w strings w h flags module_name out =
     (if \<not> out then refuse (False, None) SL_ERROR_INVALID_PARAMETER
      else let valid_flags = SL_WIN32_GET_MODULE_HANDLE_EX_FLAG_PIN OR
             SL_WIN32_GET_MODULE_HANDLE_EX_FLAG_UNCHANGED_REFCOUNT OR SL_WIN32_GET_MODULE_HANDLE_EX_FLAG_FROM_ADDRESS;
             pin_unchanged = SL_WIN32_GET_MODULE_HANDLE_EX_FLAG_PIN OR
               SL_WIN32_GET_MODULE_HANDLE_EX_FLAG_UNCHANGED_REFCOUNT
      in if flags AND NOT valid_flags \<noteq> 0 \<or> flags AND pin_unchanged = pin_unchanged
         then refuse (False, Some 0) SL_ERROR_INVALID_PARAMETER
         else let found =
           (if flags AND SL_WIN32_GET_MODULE_HANDLE_EX_FLAG_FROM_ADDRESS \<noteq> 0
            then if module_name = NULL then Inl SL_ERROR_INVALID_PARAMETER
                 else if current_module_registry w h = None then Inl SL_ERROR_MOD_NOT_FOUND
                 else (case sl_module_registry_resolve_address (current_objects w h) (current_module_registry w h)
                              module_name of
                         Inl _ \<Rightarrow> Inl SL_ERROR_MOD_NOT_FOUND | Inr m \<Rightarrow> Inr m)
            else (case current_pe_module_by_name strings w h module_name of
                    None \<Rightarrow> Inl SL_ERROR_MOD_NOT_FOUND | Some m \<Rightarrow> Inr m))
         in case found of
              Inl error \<Rightarrow> refuse (False, Some 0) error
            | Inr m \<Rightarrow>
                if module_base w h m = 0 then refuse (False, Some 0) SL_ERROR_MOD_NOT_FOUND
                else answer (True, Some (module_base w h m)))"

definition sl_kernel32_load_library_ex_w ::
    "(ptr \<Rightarrow> u16 list) \<Rightarrow> thread_world \<Rightarrow> u64 \<Rightarrow> ptr \<Rightarrow> ptr \<Rightarrow> u32 \<Rightarrow> u64 api" where
  "sl_kernel32_load_library_ex_w strings w h module_name reserved flags =
     (if module_name = NULL \<or> reserved \<noteq> NULL \<or> flags AND NOT SL_WIN32_LOAD_LIBRARY_SEARCH_SYSTEM32 \<noteq> 0
      then refuse 0 SL_ERROR_INVALID_PARAMETER
      else case current_pe_module_by_name strings w h module_name of
             None \<Rightarrow> refuse 0 SL_ERROR_MOD_NOT_FOUND
           | Some m \<Rightarrow> if module_base w h m = 0 then refuse 0 SL_ERROR_MOD_NOT_FOUND else answer (module_base w h m))"

definition sl_kernel32_free_library :: "thread_world \<Rightarrow> u64 \<Rightarrow> u64 \<Rightarrow> bool api" where
  "sl_kernel32_free_library w h module_handle =
     (case current_module_registry w h of
        None \<Rightarrow> refuse False SL_ERROR_INVALID_HANDLE
      | Some r \<Rightarrow>
          if module_handle = NULL then refuse False SL_ERROR_INVALID_HANDLE
          else (case sl_module_registry_resolve_handle (current_objects w h) (Some r) module_handle of
                  Inl _ \<Rightarrow> refuse False SL_ERROR_INVALID_HANDLE | Inr m \<Rightarrow> answer True))"

section \<open>The file of a module\<close>

text \<open>The value and the units that are stored from the start of the buffer on; \<open>filename\<close> says whether there is
  one.\<close>

definition sl_kernel32_get_module_file_name_w ::
    "thread_world \<Rightarrow> u64 \<Rightarrow> u64 \<Rightarrow> bool \<Rightarrow> u32 \<Rightarrow> (u32 \<times> u16 list) api" where
  "sl_kernel32_get_module_file_name_w w h module_handle filename size_units =
     (let process = process_at w (current_process_if_installed w h);
          main_module = sl_win32_process_main_module process;
          requested_module = (if process \<noteq> None \<and> module_handle \<noteq> NULL
            then (case current_module_registry w h of
                    None \<Rightarrow> None
                  | Some r \<Rightarrow> (case sl_module_registry_resolve_handle (current_objects w h) (Some r) module_handle of
                                Inl _ \<Rightarrow> None | Inr m \<Rightarrow> Some m))
            else main_module)
      in if process = None \<or> main_module = None \<or>
            (case current_module_registry w h of
               None \<Rightarrow> True | Some r \<Rightarrow> md_mapped (rg_modules r ! the main_module) = None) \<or>
            requested_module \<noteq> main_module
         then refuse (0, []) SL_ERROR_MOD_NOT_FOUND
         else (case sl_win32_process_main_image_path process True True of
           (status, path, path_length) \<Rightarrow>
             if status \<noteq> SL_OK then refuse (0, []) SL_ERROR_MOD_NOT_FOUND
             else if size_units = 0 then refuse (0, []) SL_ERROR_INSUFFICIENT_BUFFER
             else if \<not> filename then refuse (0, []) SL_ERROR_INVALID_PARAMETER
             else if unat size_units \<le> path_length
             then refuse (size_units, take (unat size_units - 1) (the path) @ [0]) SL_ERROR_INSUFFICIENT_BUFFER
             else answer (of_nat path_length, take path_length (the path) @ [0])))"

section \<open>Symbols and addresses\<close>

text \<open>A small value names an ordinal; \<open>names\<close> gives the strings at the other addresses.\<close>

definition proc_symbol :: "(ptr \<Rightarrow> bytes) \<Rightarrow> bytes \<Rightarrow> ptr \<Rightarrow> sl_module_symbol" where
  "proc_symbol names module_name procedure_name =
     (let by_ordinal = unat procedure_name \<le> 0xffff
      in \<lparr>sy_module_name = Some module_name,
          sy_symbol_name = (if by_ordinal then None else Some (names procedure_name)),
          sy_ordinal = (if by_ordinal then ucast procedure_name else 0), sy_by_ordinal = by_ordinal\<rparr>)"

definition proc_error :: "bool \<Rightarrow> sl_status \<Rightarrow> u32" where
  "proc_error by_ordinal status =
     (if status = SL_ERROR_MODULE_NOT_FOUND then SL_ERROR_MOD_NOT_FOUND
      else if by_ordinal \<and> status = SL_ERROR_EXPORT_NOT_FOUND then SL_ERROR_INVALID_ORDINAL
      else SL_ERROR_PROC_NOT_FOUND)"

definition sl_kernel32_get_proc_address ::
    "(ptr \<Rightarrow> bytes) \<Rightarrow> thread_world \<Rightarrow> u64 \<Rightarrow> u64 \<Rightarrow> ptr \<Rightarrow> u64 api" where
  "sl_kernel32_get_proc_address names w h module_handle procedure_name =
     (case current_module_registry w h of
        None \<Rightarrow> refuse 0 SL_ERROR_MOD_NOT_FOUND
      | Some r \<Rightarrow>
          let objects = current_objects w h;
              main_module = (if module_handle = NULL then current_main_module w h else None)
          in (case (case main_module of
                      None \<Rightarrow> sl_module_registry_resolve_handle objects (Some r) module_handle
                    | Some m \<Rightarrow> Inr m) of
                Inl _ \<Rightarrow> refuse 0 SL_ERROR_MOD_NOT_FOUND
              | Inr m \<Rightarrow>
                  let symbol = proc_symbol names (md_name (rg_modules r ! m)) procedure_name
                  in (case sl_module_registry_resolve_symbol objects (Some r) (Some symbol) of
                        Inl status \<Rightarrow> refuse 0 (proc_error (sy_by_ordinal symbol) status)
                      | Inr resolved \<Rightarrow>
                          if rv_guest_address resolved = 0
                          then refuse 0 (proc_error (sy_by_ordinal symbol) SL_OK)
                          else answer (rv_guest_address resolved))))"

text \<open>The value and what is stored through the out pointer; the last error is left alone.\<close>

definition sl_kernel32_rtl_pc_to_file_header :: "thread_world \<Rightarrow> u64 \<Rightarrow> ptr \<Rightarrow> bool \<Rightarrow> u64 \<times> u64 option" where
  "sl_kernel32_rtl_pc_to_file_header w h program_counter out =
     (if \<not> out then (0, None)
      else case current_module_registry w h of
        None \<Rightarrow> (0, Some 0)
      | Some r \<Rightarrow>
          if program_counter = NULL then (0, Some 0)
          else (case sl_module_registry_resolve_address (current_objects w h) (Some r) program_counter of
                  Inl _ \<Rightarrow> (0, Some 0)
                | Inr m \<Rightarrow> let base = module_base w h m in (base, Some base)))"

definition sl_kernel32_rtl_lookup_function_entry ::
    "thread_world \<Rightarrow> u64 \<Rightarrow> u64 \<Rightarrow> bool \<Rightarrow> (ptr \<times> u64 option) option" where
  "sl_kernel32_rtl_lookup_function_entry w h control_pc out =
     (if \<not> out then Some (NULL, None)
      else case sl_win64_lookup_function_entry (current_objects w h) (current_module_registry w h) control_pc True of
        None \<Rightarrow> None
      | Some (Inl _) \<Rightarrow> Some (NULL, Some 0)
      | Some (Inr (image_base, function_entry, m)) \<Rightarrow> Some (function_entry, Some image_base))"

text \<open>\<open>None\<close> where the code aborts.\<close>

definition sl_kernel32_rtl_virtual_unwind ::
    "memory \<Rightarrow> thread_world \<Rightarrow> u64 \<Rightarrow> u32 \<Rightarrow> u64 \<Rightarrow> u64 \<Rightarrow> ptr \<Rightarrow> sl_win64_context option \<Rightarrow> bool \<Rightarrow>
     sl_win64_nonvolatile_context_pointers option \<Rightarrow> unwind_result option" where
  "sl_kernel32_rtl_virtual_unwind memory w h handler_type image_base control_pc function_entry context_record outs
       context_pointers =
     (case current_module_registry w h of
        None \<Rightarrow> None
      | Some r \<Rightarrow>
          (case sl_module_registry_resolve_handle (current_objects w h) (Some r) image_base of
             Inl _ \<Rightarrow> None
           | Inr m \<Rightarrow>
               (case current_stack_bounds w h of
                  None \<Rightarrow> None
                | Some stack \<Rightarrow>
                    (case sl_win64_virtual_unwind memory (current_objects w h) (Some (rg_modules r ! m)) handler_type
                            control_pc function_entry context_record (Some stack) outs context_pointers of
                       Some (Inr unwound) \<Rightarrow> Some unwound
                     | _ \<Rightarrow> None))))"

section \<open>The standard handles\<close>

definition standard_handle_from_identifier :: "u32 \<Rightarrow> sl_win32_standard_handle option" where
  "standard_handle_from_identifier identifier =
     (if identifier = SL_STD_INPUT_ID then Some SL_WIN32_STANDARD_INPUT
      else if identifier = SL_STD_OUTPUT_ID then Some SL_WIN32_STANDARD_OUTPUT
      else if identifier = SL_STD_ERROR_ID then Some SL_WIN32_STANDARD_ERROR
      else None)"

definition sl_kernel32_get_std_handle :: "thread_world \<Rightarrow> u64 \<Rightarrow> u32 \<Rightarrow> u64 api" where
  "sl_kernel32_get_std_handle w h identifier =
     (case standard_handle_from_identifier identifier of
        None \<Rightarrow> refuse UINTPTR_MAX_handle SL_ERROR_INVALID_PARAMETER
      | Some which \<Rightarrow>
          (case sl_win32_process_get_standard_handle (process_at w (current_process_if_installed w h)) which True of
             (status, handle) \<Rightarrow>
               if status \<noteq> SL_OK then refuse UINTPTR_MAX_handle SL_ERROR_INVALID_HANDLE else answer (the handle)))"

definition set_process :: "ptr \<Rightarrow> sl_win32_process \<Rightarrow> thread_world \<Rightarrow> thread_world" where
  "set_process p process w = w\<lparr>tw_processes := (tw_processes w)(p := process)\<rparr>"

definition sl_kernel32_set_std_handle :: "thread_world \<Rightarrow> u64 \<Rightarrow> u32 \<Rightarrow> u64 \<Rightarrow> bool api \<times> thread_world" where
  "sl_kernel32_set_std_handle w h identifier handle =
     (case standard_handle_from_identifier identifier of
        None \<Rightarrow> (refuse False SL_ERROR_INVALID_PARAMETER, w)
      | Some which \<Rightarrow>
          let p = current_process_if_installed w h
          in (case sl_win32_process_set_standard_handle (process_at w p) which handle of
                (status, process) \<Rightarrow>
                  if status \<noteq> SL_OK then (refuse False SL_ERROR_INVALID_HANDLE, w)
                  else (answer True, set_process p (the process) w)))"

text \<open>The top-level filter of the process, swapped for another; \<open>None\<close> where the code aborts.\<close>

definition sl_kernel32_set_unhandled_exception_filter ::
    "thread_world \<Rightarrow> u64 \<Rightarrow> u64 \<Rightarrow> (u64 \<times> thread_world) option" where
  "sl_kernel32_set_unhandled_exception_filter w h filter_address =
     (case current_process w h of
        None \<Rightarrow> None
      | Some p \<Rightarrow>
          (case sl_win32_process_exchange_unhandled_exception_filter (Some (tw_processes w p)) filter_address of
             None \<Rightarrow> None
           | Some (previous, process) \<Rightarrow> Some (previous, set_process p process w)))"

end
