(* ===== verification/Kernel32_Exceptions.thy ===== *)
theory Kernel32_Exceptions
  imports Kernel32_Modules Unwind_Walk
begin

text \<open>
  \<open>src/kernel32.c\<close>, raising an exception: the first pass over the frames calls the language handlers until one
  of them ends the search, then the top-level filter of the process. The guest is as in the second pass; its state
  also holds the host's threads, and the place of the caller's context, which a handler reaches through the field
  \<open>context_record\<close> of the dispatcher context.
\<close>

section \<open>Data\<close>

definition SL_WIN64_EXCEPTION_CONTINUE_EXECUTION :: "32 word" where "SL_WIN64_EXCEPTION_CONTINUE_EXECUTION = 0xffffffff"
definition SL_WIN64_EXCEPTION_EXECUTE_HANDLER :: "32 word" where "SL_WIN64_EXCEPTION_EXECUTE_HANDLER = 1"
definition SL_WIN64_EXCEPTION_DISPOSITION_CONTINUE_EXECUTION :: "32 word" where
  "SL_WIN64_EXCEPTION_DISPOSITION_CONTINUE_EXECUTION = 0"
definition SL_WIN64_EXCEPTION_MAXIMUM_PARAMETERS :: nat where "SL_WIN64_EXCEPTION_MAXIMUM_PARAMETERS = 15"
definition SL_WIN64_STATUS_UNWIND :: u32 where "SL_WIN64_STATUS_UNWIND = 0xc0000027"

text \<open>The call of a filter gets the exception record and the context and may change both; \<open>None\<close> is a call that
  does not return.\<close>

record 'g kernel_guest =
  kg_host_thread :: u64
  kg_threads :: "'g \<Rightarrow> thread_world"
  kg_memory :: "'g \<Rightarrow> memory"
  kg_link_address :: "'g \<Rightarrow> ptr"
  kg_call :: "'g \<Rightarrow> ptr \<Rightarrow> sl_win64_exception_record \<Rightarrow> u64 \<Rightarrow> sl_win64_context \<Rightarrow> sl_win64_dispatcher_context \<Rightarrow>
    handler_links \<Rightarrow> (32 word \<times> sl_win64_exception_record \<times> sl_win64_context \<times> handler_links \<times> 'g) option"
  kg_caller_context :: "'g \<Rightarrow> sl_win64_context"
  kg_store_caller :: "sl_win64_context \<Rightarrow> 'g \<Rightarrow> 'g"
  kg_filter :: "'g \<Rightarrow> ptr \<Rightarrow> sl_win64_exception_record \<Rightarrow> sl_win64_context \<Rightarrow>
    (32 word \<times> sl_win64_exception_record \<times> sl_win64_context \<times> 'g) option"

text \<open>The guest of the unwinder: its modules are those of the current process.\<close>

definition unwind_guest :: "'g kernel_guest \<Rightarrow> 'g guest" where
  "unwind_guest k = \<lparr>gs_memory = kg_memory k,
     gs_objects = (\<lambda>g. current_objects (kg_threads k g) (kg_host_thread k)),
     gs_registry = (\<lambda>g. case current_module_registry (kg_threads k g) (kg_host_thread k) of
       None \<Rightarrow> \<lparr>rg_modules = [], rg_aliases = []\<rparr> | Some r \<Rightarrow> r),
     gs_link_address = kg_link_address k, gs_call = kg_call k\<rparr>"

record 'g dispatch_state =
  ds_record :: sl_win64_exception_record
  ds_original :: sl_win64_context
  ds_walking :: sl_win64_context
  ds_links :: handler_links
  ds_guest :: 'g

section \<open>The top-level filter\<close>

text \<open>The outer \<open>None\<close> is a filter that does not return, the inner one is \<open>abort\<close>.\<close>

definition sl_kernel32_unhandled_exception_filter ::
    "'g kernel_guest \<Rightarrow> 'g \<Rightarrow> sl_win64_exception_record \<Rightarrow> sl_win64_context \<Rightarrow>
     (32 word \<times> sl_win64_exception_record \<times> sl_win64_context \<times> 'g) option option" where
  "sl_kernel32_unhandled_exception_filter k g rcd context =
     (case current_process (kg_threads k g) (kg_host_thread k) of
        None \<Rightarrow> Some None
      | Some p \<Rightarrow>
          (case sl_win32_process_unhandled_exception_filter (Some (tw_processes (kg_threads k g) p)) of
             None \<Rightarrow> Some None
           | Some filter_address \<Rightarrow>
               if filter_address = 0 then Some (Some (SL_WIN64_EXCEPTION_EXECUTE_HANDLER, rcd, context, g))
               else (case kg_filter k g filter_address rcd context of
                       None \<Rightarrow> None
                     | Some (disposition, rcd, context, g) \<Rightarrow>
                         Some (Some (if disposition = SL_WIN64_EXCEPTION_CONTINUE_EXECUTION \<or>
                                        disposition = SL_WIN64_EXCEPTION_EXECUTE_HANDLER
                                     then disposition else SL_WIN64_EXCEPTION_EXECUTE_HANDLER, rcd, context, g)))))"

section \<open>The first pass\<close>

text \<open>One frame: the dispatch is over with an answer, the search is over, or it goes on with the caller.\<close>

datatype (plugins only: code size) 'g dispatch_outcome =
    Dispatched bool "'g dispatch_state"
  | Search_over "'g dispatch_state"
  | Next_caller "'g dispatch_state"

definition dispatch_leaf :: "'g kernel_guest \<Rightarrow> sl_win64_stack_bounds \<Rightarrow> 'g dispatch_state \<Rightarrow> 'g dispatch_outcome" where
  "dispatch_leaf k stack ds =
     (case sl_win64_unwind_leaf (kg_memory k (ds_guest ds)) (Some (ds_walking ds)) (Some stack) of
        Inl _ \<Rightarrow> Dispatched False ds
      | Inr c \<Rightarrow> if cx_rsp c \<le> cx_rsp (ds_walking ds) then Dispatched False ds
                else Next_caller (ds\<lparr>ds_walking := c\<rparr>))"

text \<open>The call of the frame's handler; \<open>r\<close> is the caller's context.\<close>

definition dispatch_handler ::
    "'g kernel_guest \<Rightarrow> u32 \<Rightarrow> u64 \<Rightarrow> ptr \<Rightarrow> unwind_result \<Rightarrow> 'g dispatch_state \<Rightarrow> 'g dispatch_outcome option" where
  "dispatch_handler k dispatch_flags image_base function_entry r ds =
     (let dispatcher = \<lparr>dc_control_pc = cx_rip (ds_walking ds), dc_image_base = image_base,
            dc_function_entry = function_entry, dc_establisher_frame = ur_establisher_frame r, dc_target_ip = 0,
            dc_language_handler = ur_language_handler r, dc_handler_data = ur_handler_data r, dc_history_table = NULL,
            dc_scope_index = 0, dc_fill0 = 0\<rparr>;
          rcd = (ds_record ds)\<lparr>er_exception_flags := dispatch_flags\<rparr>
      in case sl_win64_execute_handler (unwind_guest k) (kg_store_caller k (ur_context r) (ds_guest ds))
                (ur_language_handler r) True rcd (ur_establisher_frame r) (ds_original ds) dispatcher (ds_walking ds)
                (ds_links ds) of
           None \<Rightarrow> None
         | Some (disposition, rcd, original, links, g) \<Rightarrow>
             let rcd = rcd\<lparr>er_exception_flags := dispatch_flags\<rparr>;
                 ds = ds\<lparr>ds_record := rcd, ds_original := original, ds_links := links, ds_guest := g\<rparr>
             in Some (if disposition = SL_WIN64_EXCEPTION_DISPOSITION_CONTINUE_EXECUTION
                      then Dispatched (er_exception_flags rcd AND SL_WIN64_EXCEPTION_NONCONTINUABLE = 0) ds
                      else if disposition \<noteq> SL_WIN64_EXCEPTION_DISPOSITION_CONTINUE_SEARCH then Dispatched False ds
                      else Next_caller (ds\<lparr>ds_walking := kg_caller_context k g\<rparr>)))"

definition dispatch_table_frame ::
    "'g kernel_guest \<Rightarrow> sl_win64_stack_bounds \<Rightarrow> u32 \<Rightarrow> u64 \<Rightarrow> ptr \<Rightarrow> unwind_result \<Rightarrow> 'g dispatch_state \<Rightarrow>
     'g dispatch_outcome option" where
  "dispatch_table_frame k stack dispatch_flags image_base function_entry r ds =
     (if cx_rsp (ur_context r) \<le> cx_rsp (ds_walking ds) \<or> \<not> stack_frame_is_valid (Some stack) (ur_establisher_frame r)
      then Some (Dispatched False ds)
      else if ur_language_handler r \<noteq> NULL then dispatch_handler k dispatch_flags image_base function_entry r ds
      else Some (Next_caller (ds\<lparr>ds_walking := ur_context r\<rparr>)))"

definition dispatch_frame ::
    "'g kernel_guest \<Rightarrow> sl_win64_stack_bounds \<Rightarrow> u32 \<Rightarrow> 'g dispatch_state \<Rightarrow> 'g dispatch_outcome option" where
  "dispatch_frame k stack dispatch_flags ds =
     (let guest = unwind_guest k; objects = gs_objects guest (ds_guest ds);
          r = gs_registry guest (ds_guest ds); walking = ds_walking ds
      in case sl_module_registry_resolve_address objects (Some r) (cx_rip walking) of
           Inl _ \<Rightarrow> Some (Search_over ds)
         | Inr containing_module \<Rightarrow>
        (case sl_win64_lookup_function_entry objects (Some r) (cx_rip walking) True of
           None \<Rightarrow> None
         | Some (Inl lookup_status) \<Rightarrow>
             Some (if lookup_status = SL_ERROR_ADDRESS_OUT_OF_RANGE then dispatch_leaf k stack ds else Dispatched False ds)
         | Some (Inr (image_base, function_entry, function_module)) \<Rightarrow>
             if function_module \<noteq> containing_module then Some (Dispatched False ds)
             else (case sl_win64_virtual_unwind (kg_memory k (ds_guest ds)) objects
                          (Some (rg_modules r ! function_module)) SL_WIN64_UNW_FLAG_EHANDLER (cx_rip walking)
                          function_entry (Some walking) (Some stack) True None of
                     None \<Rightarrow> None
                   | Some (Inl _) \<Rightarrow> Some (Dispatched False ds)
                   | Some (Inr unwound) \<Rightarrow>
                       dispatch_table_frame k stack dispatch_flags image_base function_entry unwound ds)))"

text \<open>What follows the search: the answer, or \<open>None\<close> for \<open>abort\<close>.\<close>

definition dispatch_filter ::
    "'g kernel_guest \<Rightarrow> u32 \<Rightarrow> 'g dispatch_state \<Rightarrow> (bool \<times> 'g dispatch_state) option option" where
  "dispatch_filter k dispatch_flags ds =
     (case sl_kernel32_unhandled_exception_filter k (ds_guest ds) (ds_record ds) (ds_original ds) of
        None \<Rightarrow> None
      | Some None \<Rightarrow> Some None
      | Some (Some (disposition, rcd, original, g)) \<Rightarrow>
          let rcd = rcd\<lparr>er_exception_flags := dispatch_flags\<rparr>
          in Some (Some (disposition = SL_WIN64_EXCEPTION_CONTINUE_EXECUTION \<and>
                 er_exception_flags rcd AND SL_WIN64_EXCEPTION_NONCONTINUABLE = 0,
               ds\<lparr>ds_record := rcd, ds_original := original, ds_guest := g\<rparr>)))"

function dispatch_frames ::
    "'g kernel_guest \<Rightarrow> sl_win64_stack_bounds \<Rightarrow> u32 \<Rightarrow> nat \<Rightarrow> 'g dispatch_state \<Rightarrow>
     (bool \<times> 'g dispatch_state) option option" where
  "dispatch_frames k stack dispatch_flags depth ds =
     (if depth < 256
      then (case dispatch_frame k stack dispatch_flags ds of
              None \<Rightarrow> None
            | Some (Dispatched resumed ds) \<Rightarrow> Some (Some (resumed, ds))
            | Some (Search_over ds) \<Rightarrow> dispatch_filter k dispatch_flags ds
            | Some (Next_caller ds) \<Rightarrow> dispatch_frames k stack dispatch_flags (depth + 1) ds)
      else dispatch_filter k dispatch_flags ds)"
  by pat_completeness auto
termination
  by (relation "measure (\<lambda>(k, stack, flags, depth, ds). 256 - depth)") auto

declare dispatch_frames.simps [simp del]

text \<open>Without a registry no frame is looked at.\<close>

definition dispatch_raised_exception ::
    "'g kernel_guest \<Rightarrow> sl_win64_stack_bounds \<Rightarrow> sl_win64_exception_record \<Rightarrow> sl_win64_context \<Rightarrow> handler_links \<Rightarrow> 'g \<Rightarrow>
     (bool \<times> 'g dispatch_state) option option" where
  "dispatch_raised_exception k stack rcd original links g =
     (let dispatch_flags = er_exception_flags rcd AND SL_WIN64_EXCEPTION_NONCONTINUABLE;
          ds = \<lparr>ds_record = rcd\<lparr>er_exception_flags := dispatch_flags\<rparr>, ds_original = original, ds_walking = original,
            ds_links = links, ds_guest = g\<rparr>
      in if current_module_registry (kg_threads k g) (kg_host_thread k) = None then dispatch_filter k dispatch_flags ds
         else dispatch_frames k stack dispatch_flags 0 ds)"

section \<open>Raising and unwinding\<close>

text \<open>Both functions do not return to their caller: the thread goes on with a context, or the process is aborted.\<close>

datatype (plugins only: code size) 'g transfer = Aborted | Restored sl_win64_context handler_links 'g

text \<open>The array the arguments are copied from is the guest's memory.\<close>

definition raised_record ::
    "memory \<Rightarrow> u32 \<Rightarrow> u32 \<Rightarrow> u32 \<Rightarrow> ptr \<Rightarrow> sl_win64_context \<Rightarrow> sl_win64_exception_record" where
  "raised_record memory exception_code exception_flags argument_count arguments context =
     (let count = (if arguments = NULL then 0 else min (unat argument_count) SL_WIN64_EXCEPTION_MAXIMUM_PARAMETERS)
      in \<lparr>er_exception_code = exception_code,
          er_exception_flags = exception_flags AND SL_WIN64_EXCEPTION_NONCONTINUABLE, er_exception_record = NULL,
          er_exception_address = cx_rip context, er_number_parameters = of_nat count, er_alignment = 0,
          er_exception_information =
            map (\<lambda>i. of_nat (le_value (memory_bytes memory (arguments + of_nat (8 * i)) 8))) [0..<count] @
            replicate (SL_WIN64_EXCEPTION_MAXIMUM_PARAMETERS - count) 0\<rparr>)"

definition sl_kernel32_raise_exception_dispatch ::
    "'g kernel_guest \<Rightarrow> u32 \<Rightarrow> u32 \<Rightarrow> u32 \<Rightarrow> ptr \<Rightarrow> sl_win64_context option \<Rightarrow> handler_links \<Rightarrow> 'g \<Rightarrow> 'g transfer option" where
  "sl_kernel32_raise_exception_dispatch k exception_code exception_flags argument_count arguments context_record links g =
     (case context_record of
        None \<Rightarrow> Some Aborted
      | Some context \<Rightarrow>
          let rcd = raised_record (kg_memory k g) exception_code exception_flags argument_count arguments context
          in (case current_stack_bounds (kg_threads k g) (kg_host_thread k) of
                None \<Rightarrow> Some Aborted
              | Some stack \<Rightarrow>
                  (case dispatch_raised_exception k stack rcd context links g of
                     None \<Rightarrow> None
                   | Some None \<Rightarrow> Some Aborted
                   | Some (Some (resumed, ds)) \<Rightarrow>
                       Some (if \<not> resumed then Aborted else Restored (ds_original ds) (ds_links ds) (ds_guest ds)))))"

definition unwind_record :: "sl_win64_context \<Rightarrow> sl_win64_exception_record" where
  "unwind_record context = \<lparr>er_exception_code = SL_WIN64_STATUS_UNWIND, er_exception_flags = 0, er_exception_record = NULL,
     er_exception_address = cx_rip context, er_number_parameters = 0, er_alignment = 0,
     er_exception_information = replicate SL_WIN64_EXCEPTION_MAXIMUM_PARAMETERS 0\<rparr>"

definition sl_kernel32_rtl_unwind_ex_dispatch ::
    "'g kernel_guest \<Rightarrow> u64 \<Rightarrow> u64 \<Rightarrow> sl_win64_exception_record option \<Rightarrow> u64 \<Rightarrow> sl_win64_context option \<Rightarrow> ptr \<Rightarrow>
     handler_links \<Rightarrow> 'g \<Rightarrow> 'g transfer option" where
  "sl_kernel32_rtl_unwind_ex_dispatch k target_frame target_ip exception_record return_value context_record history_table
       links g =
     (case sl_win64_take_handler_unwind_origin context_record links of
        (taken, None, links) \<Rightarrow> Some Aborted
      | (taken, Some context, links) \<Rightarrow>
          let rcd = (case exception_record of None \<Rightarrow> unwind_record context | Some rcd \<Rightarrow> rcd)
          in (case current_stack_bounds (kg_threads k g) (kg_host_thread k) of
                None \<Rightarrow> Some Aborted
              | Some stack \<Rightarrow>
                  (case sl_win64_unwind_to_frame (unwind_guest k) g
                          (current_module_registry (kg_threads k g) (kg_host_thread k) \<noteq> None) target_frame target_ip rcd
                          return_value (Some context) history_table (Some stack) links of
                     None \<Rightarrow> None
                   | Some (status, target, rcd, links, g) \<Rightarrow>
                       Some (case target of
                               None \<Rightarrow> Aborted
                             | Some c \<Rightarrow> if status \<noteq> SL_OK then Aborted else Restored c links g))))"

end
