(* ===== verification/Kernel32_Module_Properties.thy ===== *)
theory Kernel32_Module_Properties
  imports Kernel32_Modules Space_Invariant PE_Properties Unicode_Codec Handle_Machine
begin

text \<open>
  What the functions about modules promise together: a handle obtained by name stands for one registered module, and
  every function that takes a handle or an address finds that module again.
\<close>

section \<open>Names\<close>

text \<open>The conversion of a name is exact and stays inside the buffer.\<close>

lemma wide_module_name_text:
  assumes "list_all scalar cs" "units = concat (map utf16_units cs)" "units \<noteq> []" "length units < SL_MODULE_NAME_CAPACITY"
  defines "text \<equiv> concat (map utf8_bytes cs)"
  shows "wide_module_name_to_utf8 (Some units) =
    (if length text \<ge> SL_MODULE_NAME_CAPACITY then None else complete_module_name text)"
proof -
  have size: "3 * length units \<le> SIZE_MAX"
    using assms(4) by (simp add: SL_MODULE_NAME_CAPACITY_def)
  have decodes: "decodes utf16_units False (take (length units) units) cs"
    using utf16.decodes_strict assms(1,2) by simp
  note convert = u16to8.convert_decodes [OF decodes size, folded sl_utf16_to_utf8_def, unfolded u16to8.outs_def, folded text_def]
  have query: "sl_utf16_to_utf8 (Some units) (length units) None 0 (Some 0) = Some (outcome text None 0)"
    by (rule convert) simp_all
  have name: "sl_utf16_to_utf8 (Some units) (length units) (Some (replicate (SL_MODULE_NAME_CAPACITY - 1) 0))
      (SL_MODULE_NAME_CAPACITY - 1) (Some 0) =
      Some (outcome text (Some (replicate (SL_MODULE_NAME_CAPACITY - 1) 0)) (SL_MODULE_NAME_CAPACITY - 1))"
    by (rule convert) simp_all
  show ?thesis
    using assms(3,4) by (simp add: wide_module_name_to_utf8_def query name [simplified SL_MODULE_NAME_CAPACITY_def, simplified] outcome_def
        SL_MODULE_NAME_CAPACITY_def)
qed

section \<open>Modules\<close>

text \<open>The mappings of the modules do not overlap.\<close>

definition modules_apart :: "module_objects \<Rightarrow> sl_module_registry \<Rightarrow> bool" where
  "modules_apart objects r \<longleftrightarrow> (\<forall>i < length (rg_modules r). \<forall>j < length (rg_modules r). \<forall>a.
     address_in_module objects a (rg_modules r ! i) \<longrightarrow> address_in_module objects a (rg_modules r ! j) \<longrightarrow> i = j)"

lemma resolve_address_apart:
  assumes "modules_apart objects r" "m < length (rg_modules r)" "address_in_module objects a (rg_modules r ! m)"
  shows "sl_module_registry_resolve_address objects (Some r) a = Inr m"
proof -
  have a: "a \<noteq> 0"
    using assms(3) by (auto simp: address_in_module_def Let_def split: option.splits)
  have "\<not> address_in_module objects a (rg_modules r ! k)" if "k < m" for k
    using assms that unfolding modules_apart_def by (metis less_trans less_irrefl)
  then have "first_index (address_in_module objects a) 0 (rg_modules r) = Some m"
    using assms(2,3) by (simp add: first_index_Some)
  then show ?thesis
    using a by (simp add: sl_module_registry_resolve_address_def or_fail_def)
qed

text \<open>A module of a well-formed space: where it is loaded, and that address is its own.\<close>

lemma base_in_module:
  assumes "space_wf sp" "m < length (rg_modules (sp_registry sp))" "md_kind (rg_modules (sp_registry sp) ! m) = SL_MODULE_PE"
    and "md_mapped (rg_modules (sp_registry sp) ! m) = Some p" "mp_load_base (mapped_at (objects_of (sp_owned sp)) p) = base" "base \<noteq> 0"
  shows "address_in_module (objects_of (sp_owned sp)) base (rg_modules (sp_registry sp) ! m)"
proof -
  obtain i where i: "i < length (sp_owned sp)" "md_mapped (rg_modules (sp_registry sp) ! m) = Some i"
    using space_wf_module [OF assms(1) nth_mem [OF assms(2)] assms(3)] by metis
  have "owned_ok (sp_owned sp ! i)"
    by (rule space_wf_owned [OF assms(1) i(1)])
  then have "0 < unat (pe_image_size (ow_image (sp_owned sp ! i)))"
      "mp_size (ow_mapped (sp_owned sp ! i)) = unat (pe_image_size (ow_image (sp_owned sp ! i)))"
    by (auto simp: owned_ok_def image_wf_def word_less_nat_alt word_le_nat_alt)
  then show ?thesis
    using assms(3-6) i(2) by (simp add: address_in_module_def objects_of_def)
qed

lemma resolve_handle_apart:
  assumes "space_wf sp" "modules_apart (objects_of (sp_owned sp)) (sp_registry sp)"
    and "m < length (rg_modules (sp_registry sp))" "md_kind (rg_modules (sp_registry sp) ! m) = SL_MODULE_PE"
    and "md_mapped (rg_modules (sp_registry sp) ! m) = Some p" "mp_load_base (mapped_at (objects_of (sp_owned sp)) p) = base" "base \<noteq> 0"
  shows "sl_module_registry_resolve_handle (objects_of (sp_owned sp)) (Some (sp_registry sp)) base = Inr m"
proof -
  let ?o = "objects_of (sp_owned sp)" and ?ms = "rg_modules (sp_registry sp)"
  let ?at = "\<lambda>m. md_kind m = SL_MODULE_PE \<and> (case md_mapped m of None \<Rightarrow> False | Some p \<Rightarrow> mp_load_base (mapped_at ?o p) = base)"
  have "\<not> ?at (?ms ! k)" if "k < m" for k
  proof
    assume at: "?at (?ms ! k)"
    then obtain q where q: "md_mapped (?ms ! k) = Some q" "mp_load_base (mapped_at ?o q) = base"
      by (auto split: option.splits)
    have "k < length ?ms"
      using that assms(3) by simp
    then have "address_in_module ?o base (?ms ! k)" "address_in_module ?o base (?ms ! m)"
      using base_in_module [OF assms(1) _ _ q assms(7)] at base_in_module [OF assms(1,3-7)] by blast+
    then have "k = m"
      using assms(2,3) \<open>k < length ?ms\<close> unfolding modules_apart_def by blast
    then show False
      using that by simp
  qed
  then have "first_index ?at 0 ?ms = Some m"
    using assms(3-6) by (simp add: first_index_Some)
  then show ?thesis
    using assms(7) by (simp add: sl_module_registry_resolve_handle_def or_fail_def)
qed

lemma module_by_name:
  assumes "current_pe_module_by_name strings w h name = Some m"
    and "current_module_space w h = Some sp" "registry_wf (sp_registry sp)"
    and "process_wf (tw_processes w (current_process_if_installed w h))" "module_base w h m \<noteq> 0"
  shows "m < length (rg_modules (sp_registry sp)) \<and> md_kind (rg_modules (sp_registry sp) ! m) = SL_MODULE_PE \<and>
    (\<exists>p. md_mapped (rg_modules (sp_registry sp) ! m) = Some p \<and>
       mp_load_base (mapped_at (objects_of (sp_owned sp)) p) = module_base w h m) \<and>
    (name = NULL \<longrightarrow> current_main_module w h = Some m) \<and>
    (name \<noteq> NULL \<longrightarrow> (\<exists>text. wide_module_name_to_utf8 (Some (strings name)) = Some text \<and>
       registry_names (sp_registry sp) (folded text) = Some m))"
proof -
  have r: "current_module_registry w h = Some (sp_registry sp)"
    using assms(2) by (simp add: current_module_registry_def sl_module_space_registry_def)
  have base: "\<exists>p. md_mapped (rg_modules (sp_registry sp) ! m) = Some p \<and>
       mp_load_base (mapped_at (objects_of (sp_owned sp)) p) = module_base w h m"
    using assms(2,5) r by (auto simp: module_base_def current_objects_def split: option.splits)
  show ?thesis
  proof (cases "name = NULL")
    case True
    have space: "pr_module_space (tw_processes w (current_process_if_installed w h)) = Some sp"
      and installed: "current_process_if_installed w h \<noteq> NULL"
      using assms(2) by (auto simp: current_module_space_def process_at_def sl_win32_process_module_space_def split: if_splits)
    have main: "current_main_module w h = Some m"
      using assms(1) True installed by (simp add: current_pe_module_by_name_def)
    then have "pr_main_module (tw_processes w (current_process_if_installed w h)) = Some m"
      using installed by (simp add: current_main_module_def process_at_def sl_win32_process_main_module_def)
    then show ?thesis
      using assms(4) space base main True by (auto simp: process_wf_def)
  next
    case False
    obtain name8 where t: "wide_module_name_to_utf8 (Some (strings name)) = Some name8"
        "sl_module_registry_resolve_module (Some (sp_registry sp)) (Some name8) = Inr m"
        "md_kind (rg_modules (sp_registry sp) ! m) = SL_MODULE_PE"
      using assms(1) False r
      by (auto simp: current_pe_module_by_name_def string_at_def split: if_splits option.splits sum.splits)
    then have n: "registry_names (sp_registry sp) (folded name8) = Some m"
      by (auto simp: resolve_module_names or_fail_def split: if_splits option.splits)
    then have "m < length (rg_modules (sp_registry sp))"
      by (auto simp: registry_names_def module_names_def first_index_Some split: option.splits)
    then show ?thesis
      using False t n base by auto
  qed
qed

section \<open>The property\<close>

text \<open>C33: whatever a handle was obtained from, it is one module's. When \<open>GetModuleHandleW\<close> answers with a handle,
  it is where a registered PE module is mapped: the main module without a name, and with one the module that the
  registry has under the completed name, letters compared without case. \<open>LoadLibraryExW\<close> answers with the same
  handle, \<open>FreeLibrary\<close> takes it, \<open>RtlPcToFileHeader\<close> and \<open>GetModuleHandleExW\<close> give it for every address inside
  that module, and \<open>GetProcAddress\<close> looks a symbol up in that module: it answers with an address exactly when the
  registry resolves the symbol to one.\<close>

theorem module_handles_agree:
  assumes handle: "sl_kernel32_get_module_handle_w strings w h name = (base, None)"
    and space: "current_module_space w h = Some sp" "space_wf sp"
    and process: "process_wf (tw_processes w (current_process_if_installed w h))"
    and apart: "modules_apart (objects_of (sp_owned sp)) (sp_registry sp)"
  shows "\<exists>m < length (rg_modules (sp_registry sp)). base = module_base w h m \<and> base \<noteq> 0 \<and>
    (name = NULL \<longrightarrow> current_main_module w h = Some m) \<and>
    (name \<noteq> NULL \<longrightarrow> (\<exists>name8. wide_module_name_to_utf8 (Some (strings name)) = Some name8 \<and>
       registry_names (sp_registry sp) (folded name8) = Some m) \<and>
       sl_kernel32_load_library_ex_w strings w h name NULL 0 = answer base) \<and>
    sl_kernel32_free_library w h base = answer True \<and>
    (\<forall>a. address_in_module (objects_of (sp_owned sp)) a (rg_modules (sp_registry sp) ! m) \<longrightarrow>
       sl_kernel32_rtl_pc_to_file_header w h a True = (base, Some base) \<and>
       sl_kernel32_get_module_handle_ex_w strings w h SL_WIN32_GET_MODULE_HANDLE_EX_FLAG_FROM_ADDRESS a True =
         answer (True, Some base)) \<and>
    (\<forall>names procedure a. sl_kernel32_get_proc_address names w h base procedure = answer a \<longleftrightarrow>
       (\<exists>resolved. sl_module_registry_resolve_symbol (objects_of (sp_owned sp)) (Some (sp_registry sp))
          (Some (proc_symbol names (md_name (rg_modules (sp_registry sp) ! m)) procedure)) = Inr resolved \<and>
          rv_guest_address resolved = a \<and> a \<noteq> 0))"
proof -
  obtain m where m: "current_pe_module_by_name strings w h name = Some m" "base = module_base w h m" "base \<noteq> 0"
    using handle by (auto simp: sl_kernel32_get_module_handle_w_def refuse_def answer_def split: option.splits if_splits)
  have r: "current_module_registry w h = Some (sp_registry sp)" "current_objects w h = objects_of (sp_owned sp)"
    using space(1) by (simp_all add: current_module_registry_def sl_module_space_registry_def current_objects_def)
  have "registry_wf (sp_registry sp)"
    using space(2) by (simp add: space_wf_def)
  note found = module_by_name [OF m(1) space(1) this process, folded m(2), OF m(3)]
  then obtain p where p: "m < length (rg_modules (sp_registry sp))" "md_kind (rg_modules (sp_registry sp) ! m) = SL_MODULE_PE"
      "md_mapped (rg_modules (sp_registry sp) ! m) = Some p" "mp_load_base (mapped_at (objects_of (sp_owned sp)) p) = base"
    by blast
  have by_handle: "sl_module_registry_resolve_handle (objects_of (sp_owned sp)) (Some (sp_registry sp)) base = Inr m"
    by (rule resolve_handle_apart [OF space(2) apart p m(3)])
  have load: "sl_kernel32_load_library_ex_w strings w h name NULL 0 = answer base" if "name \<noteq> NULL"
    using that m by (simp add: sl_kernel32_load_library_ex_w_def)
  have free: "sl_kernel32_free_library w h base = answer True"
    using m(3) by (simp add: sl_kernel32_free_library_def r by_handle)
  have addresses: "sl_kernel32_rtl_pc_to_file_header w h a True = (base, Some base) \<and>
      sl_kernel32_get_module_handle_ex_w strings w h SL_WIN32_GET_MODULE_HANDLE_EX_FLAG_FROM_ADDRESS a True =
        answer (True, Some base)"
    if "address_in_module (objects_of (sp_owned sp)) a (rg_modules (sp_registry sp) ! m)" for a
  proof -
    have "a \<noteq> 0"
      using that by (auto simp: address_in_module_def Let_def split: option.splits)
    then show ?thesis
      using resolve_address_apart [OF apart p(1) that] m
      by (simp add: sl_kernel32_rtl_pc_to_file_header_def sl_kernel32_get_module_handle_ex_w_def r Let_def
          SL_WIN32_GET_MODULE_HANDLE_EX_FLAG_PIN_def SL_WIN32_GET_MODULE_HANDLE_EX_FLAG_UNCHANGED_REFCOUNT_def
          SL_WIN32_GET_MODULE_HANDLE_EX_FLAG_FROM_ADDRESS_def)
  qed
  have procedures: "sl_kernel32_get_proc_address names w h base procedure = answer a \<longleftrightarrow>
      (\<exists>resolved. sl_module_registry_resolve_symbol (objects_of (sp_owned sp)) (Some (sp_registry sp))
         (Some (proc_symbol names (md_name (rg_modules (sp_registry sp) ! m)) procedure)) = Inr resolved \<and>
         rv_guest_address resolved = a \<and> a \<noteq> 0)" for names procedure a
    using m(3) by (auto simp: sl_kernel32_get_proc_address_def r by_handle Let_def refuse_def answer_def split: sum.split)
  show ?thesis
    using found p(1) m(2,3) load free addresses procedures by (intro exI [of _ m]) blast
qed

text \<open>A process whose only module, its main one, is mapped at 0x10000.\<close>

definition handle_mapping :: sl_mapped_image where
  "handle_mapping = \<lparr>mp_bytes = Some (replicate 512 0), mp_address = 0x10000, mp_size = 512, mp_allocation_size = 4096,
     mp_preferred_base = 0x10000, mp_load_base = 0x10000, mp_entry_rva = 0, mp_storage = SL_IMAGE_STORAGE_VIRTUAL,
     mp_protections_finalized = True\<rparr>"

definition handle_space :: sl_module_space where
  "handle_space = \<lparr>sp_registry = \<lparr>rg_modules = [\<lparr>md_name = [0x61], md_kind = SL_MODULE_PE, md_image = Some 0,
       md_mapped = Some 0, md_native_exports = []\<rparr>], rg_aliases = []\<rparr>,
     sp_owned = [\<lparr>ow_file_bytes = sample_file, ow_image = sample_image, ow_mapped = handle_mapping,
       ow_imports_bound = True\<rparr>]\<rparr>"

definition handle_process :: sl_win32_process where
  "handle_process = (new_process initial_world 1 64 4160)\<lparr>pr_module_space := Some handle_space, pr_main_module := Some 0,
     pr_main_image_path := Some [0x61, 0], pr_main_image_path_length := 1,
     pr_peb := store_uintptr (pr_peb (new_process initial_world 1 64 4160)) SL_WIN32_PEB_IMAGE_BASE_OFFSET 0x10000\<rparr>"

definition handle_threads :: thread_world where
  "handle_threads = \<lparr>tw_threads = (\<lambda>t. \<lparr>th_process = 32, th_last_error = 0, th_thread_id = 7, th_teb = NULL,
       th_last_error_address = NULL, th_tls_values = [], th_fls_values = [], th_host_thread_token = 1,
       th_active_scope_count = 1, th_teb_owner_token = 0\<rparr>),
     tw_processes = (\<lambda>p. handle_process), tw_tebs = (\<lambda>b. None),
     tw_hosts = (\<lambda>h. \<lparr>ho_current = 16, ho_scopes = [], ho_out_teb = NULL, ho_point = Idle SL_OK\<rparr>),
     tw_aborted = False\<rparr>"

lemma handle_space_wf:
  assumes "image_wf sample_image"
  shows "space_wf handle_space" "modules_apart (objects_of (sp_owned handle_space)) (sp_registry handle_space)"
    "process_wf handle_process"
proof -
  have size: "pe_image_size sample_image = 512" "pe_file sample_image = sample_file"
    by (simp_all add: sample_image_def)
  show "space_wf handle_space"
    using assms size by (simp add: space_wf_def registry_wf_def module_ok_def name_ok_def module_constants pe_modules_def
        handle_space_def handle_mapping_def owned_ok_def mapping_ok_def)
  show "modules_apart (objects_of (sp_owned handle_space)) (sp_registry handle_space)"
    by (simp add: modules_apart_def handle_space_def)
  have "length (pr_peb (new_process initial_world 1 64 4160)) = SL_PEB_SIZE"
      "length (pr_process_parameters (new_process initial_world 1 64 4160)) = SL_PROCESS_PARAMETERS_SIZE"
    by (simp_all add: new_process_def length_store_uintptr store_u32_at_def process_constants)
  then show "process_wf handle_process"
    using size by (simp add: process_wf_def handle_process_def length_store_uintptr load_store_uintptr process_constants
        new_process_def [of initial_world 1 64 4160] module_space_is_finalized_def handle_space_def handle_mapping_def
        objects_of_def main_mapping_def)
qed

theorem module_handles_agree_witness:
  "sl_kernel32_free_library handle_threads 1 0x10000 = answer True \<and>
   sl_kernel32_rtl_pc_to_file_header handle_threads 1 0x10010 True = (0x10000, Some 0x10000)"
proof -
  have wf: "image_wf sample_image"
    using sl_pe_parse_wf [OF sample_parse] by simp
  have p: "current_process_if_installed handle_threads 1 = 32" "tw_processes handle_threads 32 = handle_process"
      "pr_module_space handle_process = Some handle_space" "pr_main_module handle_process = Some 0"
    by (simp_all add: current_process_if_installed_def sl_win32_context_current_def handle_threads_def handle_process_def)
  then have space: "current_module_space handle_threads 1 = Some handle_space"
    by (simp add: current_module_space_def process_at_def sl_win32_process_module_space_def)
  have main: "current_main_module handle_threads 1 = Some 0"
    using p by (simp add: current_main_module_def process_at_def sl_win32_process_main_module_def)
  have base: "module_base handle_threads 1 0 = 0x10000"
    by (simp add: module_base_def current_module_registry_def current_objects_def space sl_module_space_registry_def
        handle_space_def handle_mapping_def objects_of_def)
  have handle: "sl_kernel32_get_module_handle_w (\<lambda>_. []) handle_threads 1 0 = (0x10000, None)"
    by (simp add: sl_kernel32_get_module_handle_w_def current_pe_module_by_name_def p main base answer_def)
  have inside: "address_in_module (objects_of (sp_owned handle_space)) 0x10010 (rg_modules (sp_registry handle_space) ! 0)"
    by (simp add: address_in_module_def objects_of_def handle_space_def handle_mapping_def)
  have one: "length (rg_modules (sp_registry handle_space)) = 1"
    by (simp add: handle_space_def)
  obtain m where "m < 1" "sl_kernel32_free_library handle_threads 1 0x10000 = answer True"
      "\<forall>a. address_in_module (objects_of (sp_owned handle_space)) a (rg_modules (sp_registry handle_space) ! m) \<longrightarrow>
         sl_kernel32_rtl_pc_to_file_header handle_threads 1 a True = (0x10000, Some 0x10000)"
    using module_handles_agree [OF handle space handle_space_wf(1) [OF wf] _ handle_space_wf(2) [OF wf]]
      handle_space_wf(3) [OF wf] p one by auto
  then show ?thesis
    using inside by simp
qed

end
