(* ===== verification/Kernel32_Exception_Properties.thy ===== *)
theory Kernel32_Exception_Properties
  imports Kernel32_Exceptions Unwind_Properties Kernel32_Module_Properties
begin

text \<open>
  Raising an exception ends whenever the guest's handlers and its filter do, and resumes the thread only where one of
  them said so.
\<close>

section \<open>What the guest promises\<close>

text \<open>The handlers and the filter are called with the flags of the dispatch, a handler with a valid frame. They keep
  \<open>I\<close>, which may speak of the guest and of the context the thread would go on with; where the answer is to continue
  the execution, \<open>Q\<close> holds.\<close>

definition answers :: "('g \<Rightarrow> sl_win64_context \<Rightarrow> bool) \<Rightarrow> ('g \<Rightarrow> sl_win64_context \<Rightarrow> bool) \<Rightarrow> bool \<Rightarrow> sl_win64_context \<Rightarrow> 'g \<Rightarrow> bool" where
  "answers I Q resumes c g \<longleftrightarrow> I g c \<and> (resumes \<longrightarrow> Q g c)"

definition handlers_answer ::
    "'g kernel_guest \<Rightarrow> sl_win64_stack_bounds \<Rightarrow> u32 \<Rightarrow> ('g \<Rightarrow> sl_win64_context \<Rightarrow> bool) \<Rightarrow>
     ('g \<Rightarrow> sl_win64_context \<Rightarrow> bool) \<Rightarrow> bool" where
  "handlers_answer k stack flags I Q \<longleftrightarrow>
     (\<forall>g handler rcd frame c d links.
        I g c \<and> handler \<noteq> NULL \<and> stack_frame_is_valid (Some stack) frame \<and> er_exception_flags rcd = flags \<longrightarrow>
        (\<exists>disposition rcd' c' links' g'. kg_call k g handler rcd frame c d links = Some (disposition, rcd', c', links', g') \<and>
           answers I Q (disposition = SL_WIN64_EXCEPTION_DISPOSITION_CONTINUE_EXECUTION) c' g'))"

definition filters_answer ::
    "'g kernel_guest \<Rightarrow> u32 \<Rightarrow> ('g \<Rightarrow> sl_win64_context \<Rightarrow> bool) \<Rightarrow> ('g \<Rightarrow> sl_win64_context \<Rightarrow> bool) \<Rightarrow> bool" where
  "filters_answer k flags I Q \<longleftrightarrow>
     (\<forall>g address rcd c. I g c \<and> address \<noteq> 0 \<and> er_exception_flags rcd = flags \<longrightarrow>
        (\<exists>disposition rcd' c' g'. kg_filter k g address rcd c = Some (disposition, rcd', c', g') \<and>
           answers I Q (disposition = SL_WIN64_EXCEPTION_CONTINUE_EXECUTION) c' g'))"

text \<open>The modules are those of a well-formed space, and the place of the caller's context is no part of \<open>I\<close>.\<close>

definition guest_keeps :: "'g kernel_guest \<Rightarrow> ('g \<Rightarrow> sl_win64_context \<Rightarrow> bool) \<Rightarrow> bool" where
  "guest_keeps k I \<longleftrightarrow>
     (\<forall>g c. I g c \<longrightarrow> (\<forall>c'. I (kg_store_caller k c' g) c) \<and>
        (\<forall>sp. current_module_space (kg_threads k g) (kg_host_thread k) = Some sp \<longrightarrow> space_wf sp))"

lemma guest_backed:
  assumes "guest_keeps k I" "I g c"
  shows "list_all (backed (gs_objects (unwind_guest k) g)) (rg_modules (gs_registry (unwind_guest k) g))"
  using assms space_wf_backed
  by (auto simp: guest_keeps_def unwind_guest_def current_objects_def current_module_registry_def
      sl_module_space_registry_def split: option.split)

section \<open>One frame\<close>

definition dispatch_ok :: "('g \<Rightarrow> sl_win64_context \<Rightarrow> bool) \<Rightarrow> u32 \<Rightarrow> handler_links \<Rightarrow> 'g dispatch_state \<Rightarrow> bool" where
  "dispatch_ok I flags links ds \<longleftrightarrow> I (ds_guest ds) (ds_original ds) \<and> (ds_links ds = links \<or> ds_links ds = []) \<and>
     er_exception_flags (ds_record ds) = flags"

definition resumed_ok :: "('g \<Rightarrow> sl_win64_context \<Rightarrow> bool) \<Rightarrow> u32 \<Rightarrow> bool \<Rightarrow> 'g dispatch_state \<Rightarrow> bool" where
  "resumed_ok Q flags resumed ds \<longleftrightarrow>
     (resumed \<longrightarrow> Q (ds_guest ds) (ds_original ds) \<and> flags AND SL_WIN64_EXCEPTION_NONCONTINUABLE = 0)"

definition outcome_fine ::
    "('g \<Rightarrow> sl_win64_context \<Rightarrow> bool) \<Rightarrow> ('g \<Rightarrow> sl_win64_context \<Rightarrow> bool) \<Rightarrow> u32 \<Rightarrow> handler_links \<Rightarrow> 'g dispatch_outcome \<Rightarrow> bool" where
  "outcome_fine I Q flags links r = (case r of
     Dispatched resumed ds \<Rightarrow> dispatch_ok I flags links ds \<and> resumed_ok Q flags resumed ds
   | Search_over ds \<Rightarrow> dispatch_ok I flags links ds
   | Next_caller ds \<Rightarrow> dispatch_ok I flags links ds)"

lemma dispatch_leaf_fine:
  "dispatch_ok I flags links ds \<Longrightarrow> outcome_fine I Q flags links (dispatch_leaf k stack ds)"
  by (auto simp: dispatch_leaf_def outcome_fine_def dispatch_ok_def resumed_ok_def split: sum.split)

lemma dispatch_handler_fine:
  assumes "handlers_answer k stack flags I Q" "guest_keeps k I" "dispatch_ok I flags links ds"
    and "ur_language_handler r \<noteq> NULL" "stack_frame_is_valid (Some stack) (ur_establisher_frame r)"
  shows "\<exists>o'. dispatch_handler k flags base entry r ds = Some o' \<and> outcome_fine I Q flags links o'"
proof -
  let ?g = "kg_store_caller k (ur_context r) (ds_guest ds)" and ?rcd = "(ds_record ds)\<lparr>er_exception_flags := flags\<rparr>"
  let ?d = "\<lparr>dc_control_pc = cx_rip (ds_walking ds), dc_image_base = base, dc_function_entry = entry,
      dc_establisher_frame = ur_establisher_frame r, dc_target_ip = 0, dc_language_handler = ur_language_handler r,
      dc_handler_data = ur_handler_data r, dc_history_table = NULL, dc_scope_index = 0, dc_fill0 = 0\<rparr>"
  let ?link = "\<lparr>hl_address = gs_link_address (unwind_guest k) ?g, hl_guest_unwind_origin = ds_walking ds\<rparr>"
  have "I ?g (ds_original ds)" "er_exception_flags ?rcd = flags"
    using assms(2,3) by (auto simp: dispatch_ok_def guest_keeps_def)
  then obtain disposition rcd' c' links' g' where
      call: "kg_call k ?g (ur_language_handler r) ?rcd (ur_establisher_frame r) (ds_original ds) ?d (?link # ds_links ds) =
        Some (disposition, rcd', c', links', g')"
        "answers I Q (disposition = SL_WIN64_EXCEPTION_DISPOSITION_CONTINUE_EXECUTION) c' g'"
    using assms(1,4,5) unfolding handlers_answer_def by blast
  have "gs_call (unwind_guest k) = kg_call k"
    by (simp add: unwind_guest_def)
  then obtain kept where "sl_win64_execute_handler (unwind_guest k) ?g (ur_language_handler r) True ?rcd
      (ur_establisher_frame r) (ds_original ds) ?d (ds_walking ds) (ds_links ds) = Some (disposition, rcd', c', kept, g')"
      "kept = ds_links ds \<or> kept = []"
    using execute_handler_returns [of "unwind_guest k"] call(1) assms(4) by metis
  then show ?thesis
    using call(2) assms(3)
    by (auto simp: dispatch_handler_def Let_def outcome_fine_def dispatch_ok_def resumed_ok_def answers_def)
qed

lemma dispatch_table_frame_fine:
  assumes "handlers_answer k stack flags I Q" "guest_keeps k I" "dispatch_ok I flags links ds"
  shows "\<exists>o'. dispatch_table_frame k stack flags base entry r ds = Some o' \<and> outcome_fine I Q flags links o'"
proof (cases "cx_rsp (ur_context r) \<le> cx_rsp (ds_walking ds) \<or> \<not> stack_frame_is_valid (Some stack) (ur_establisher_frame r)")
  case True
  then show ?thesis
    using assms(3) by (simp add: dispatch_table_frame_def outcome_fine_def resumed_ok_def)
next
  case False
  then show ?thesis
    using dispatch_handler_fine [OF assms, of r base entry] assms(3)
    by (cases "ur_language_handler r = NULL") (auto simp: dispatch_table_frame_def outcome_fine_def dispatch_ok_def)
qed

lemma dispatch_frame_fine:
  assumes "handlers_answer k stack flags I Q" "guest_keeps k I" "dispatch_ok I flags links ds"
  shows "\<exists>o'. dispatch_frame k stack flags ds = Some o' \<and> outcome_fine I Q flags links o'"
proof -
  let ?o = "gs_objects (unwind_guest k) (ds_guest ds)" and ?r = "gs_registry (unwind_guest k) (ds_guest ds)"
  let ?pc = "cx_rip (ds_walking ds)"
  note def = dispatch_frame_def Let_def
  have backed: "list_all (backed ?o) (rg_modules ?r)"
    using guest_backed [OF assms(2)] assms(3) unfolding dispatch_ok_def by blast
  have stopped: ?thesis if "dispatch_frame k stack flags ds = Some (Dispatched False ds)"
    using that assms(3) by (simp add: outcome_fine_def resumed_ok_def)
  show ?thesis
  proof (cases "sl_module_registry_resolve_address ?o (Some ?r) ?pc")
    case (Inl status)
    then show ?thesis
      using assms(3) by (simp add: def outcome_fine_def)
  next
    case (Inr containing)
    obtain l where l: "sl_win64_lookup_function_entry ?o (Some ?r) ?pc True = Some l"
      using lookup_function_entry_exact(1) [OF backed] by blast
    show ?thesis
    proof (cases l)
      case status: (Inl status)
      show ?thesis
        using Inr l status stopped dispatch_leaf_fine [OF assms(3), of Q k stack]
        by (cases "status = SL_ERROR_ADDRESS_OUT_OF_RANGE") (simp_all add: def)
    next
      case found: (Inr t)
      obtain base entry index where t: "t = (base, entry, index)"
        by (cases t)
      have same: "index = containing"
        using lookup_same_module [OF backed l [unfolded found t]] Inr by simp
      let ?m = "rg_modules ?r ! index"
      have "backed ?o ?m"
        using backed resolve_address_Inr(1) [OF Inr] same by (simp add: list_all_length)
      then obtain u where u: "sl_win64_virtual_unwind (kg_memory k (ds_guest ds)) ?o (Some ?m) SL_WIN64_UNW_FLAG_EHANDLER
          ?pc entry (Some (ds_walking ds)) (Some stack) True None = Some u"
        using virtual_unwind_total [of "Some ?m" ?o] by blast
      then show ?thesis
        using Inr l found t same stopped dispatch_table_frame_fine [OF assms] by (cases u) (simp_all add: def)
    qed
  qed
qed

section \<open>The dispatch\<close>

definition dispatched_ok ::
    "('g \<Rightarrow> sl_win64_context \<Rightarrow> bool) \<Rightarrow> ('g \<Rightarrow> sl_win64_context \<Rightarrow> bool) \<Rightarrow> u32 \<Rightarrow> handler_links \<Rightarrow>
     (bool \<times> 'g dispatch_state) option option \<Rightarrow> bool" where
  "dispatched_ok I Q flags links r \<longleftrightarrow> (case r of None \<Rightarrow> False | Some None \<Rightarrow> True
     | Some (Some (resumed, ds)) \<Rightarrow> dispatch_ok I flags links ds \<and> resumed_ok Q flags resumed ds)"

lemma dispatch_filter_fine:
  assumes "filters_answer k flags I Q" "dispatch_ok I flags links ds"
  shows "dispatched_ok I Q flags links (dispatch_filter k flags ds)"
proof (cases "sl_kernel32_unhandled_exception_filter k (ds_guest ds) (ds_record ds) (ds_original ds)")
  case None
  then obtain p f where "kg_filter k (ds_guest ds) f (ds_record ds) (ds_original ds) = None" "f \<noteq> 0"
    by (auto simp: sl_kernel32_unhandled_exception_filter_def split: option.splits if_splits)
  then show ?thesis
    using assms unfolding filters_answer_def dispatch_ok_def by (metis option.distinct(1))
next
  case (Some r)
  show ?thesis
  proof (cases r)
    case None
    then show ?thesis
      using Some by (simp add: dispatch_filter_def dispatched_ok_def)
  next
    case (Some r')
    obtain disposition rcd' c' g' where r': "r' = (disposition, rcd', c', g')"
      by (cases r')
    note result = \<open>sl_kernel32_unhandled_exception_filter k (ds_guest ds) (ds_record ds) (ds_original ds) = Some r\<close>
      [unfolded Some r']
    have no: "SL_WIN64_EXCEPTION_EXECUTE_HANDLER \<noteq> SL_WIN64_EXCEPTION_CONTINUE_EXECUTION"
      by (simp add: SL_WIN64_EXCEPTION_EXECUTE_HANDLER_def SL_WIN64_EXCEPTION_CONTINUE_EXECUTION_def)
    have "answers I Q (disposition = SL_WIN64_EXCEPTION_CONTINUE_EXECUTION) c' g'"
    proof (rule ccontr)
      assume bad: "\<not> ?thesis"
      have "I (ds_guest ds) (ds_original ds)"
        using assms(2) by (simp add: dispatch_ok_def)
      then obtain f d where f: "kg_filter k (ds_guest ds) f (ds_record ds) (ds_original ds) = Some (d, rcd', c', g')" "f \<noteq> 0"
          "disposition = SL_WIN64_EXCEPTION_CONTINUE_EXECUTION \<longrightarrow> d = SL_WIN64_EXCEPTION_CONTINUE_EXECUTION"
        using result bad no
        by (auto simp: sl_kernel32_unhandled_exception_filter_def answers_def split: option.splits if_splits)
      then obtain d' r2 c2 g2 where "kg_filter k (ds_guest ds) f (ds_record ds) (ds_original ds) = Some (d', r2, c2, g2)"
          "answers I Q (d' = SL_WIN64_EXCEPTION_CONTINUE_EXECUTION) c2 g2"
        using assms unfolding filters_answer_def dispatch_ok_def by blast
      then show False
        using f bad by (auto simp: answers_def)
    qed
    then show ?thesis
      using assms(2)
      by (simp add: dispatch_filter_def result dispatched_ok_def dispatch_ok_def resumed_ok_def answers_def Let_def)
  qed
qed

lemma dispatch_frames_fine:
  assumes "handlers_answer k stack flags I Q" "filters_answer k flags I Q" "guest_keeps k I" "dispatch_ok I flags links ds"
  shows "dispatched_ok I Q flags links (dispatch_frames k stack flags depth ds)"
  using assms
proof (induction k stack flags depth ds rule: dispatch_frames.induct)
  case (1 k stack flags depth ds)
  note unfolded = dispatch_frames.simps [of k stack flags depth ds]
  show ?case
  proof (cases "depth < 256")
    case False
    then show ?thesis
      using dispatch_filter_fine [OF 1(3,5)] by (simp add: unfolded)
  next
    case True
    obtain o' where o': "dispatch_frame k stack flags ds = Some o'" "outcome_fine I Q flags links o'"
      using dispatch_frame_fine [OF 1(2,4,5)] by blast
    show ?thesis
    proof (cases o')
      case (Dispatched resumed ds')
      then show ?thesis
        using True o' by (simp add: unfolded outcome_fine_def dispatched_ok_def)
    next
      case (Search_over ds')
      then show ?thesis
        using True o' dispatch_filter_fine [OF 1(3), of links ds'] by (simp add: unfolded outcome_fine_def)
    next
      case (Next_caller ds')
      then have "dispatch_ok I flags links ds'"
        using o'(2) by (simp add: outcome_fine_def)
      then show ?thesis
        using 1(1) [OF True o'(1) Next_caller 1(2-4)] True o'(1) Next_caller by (simp add: unfolded)
    qed
  qed
qed

lemma dispatch_fine:
  assumes "handlers_answer k stack flags I Q" "filters_answer k flags I Q" "guest_keeps k I" "I g c"
    and "flags = er_exception_flags rcd AND SL_WIN64_EXCEPTION_NONCONTINUABLE"
  shows "dispatched_ok I Q flags links (dispatch_raised_exception k stack rcd c links g)"
proof -
  let ?ds = "\<lparr>ds_record = rcd\<lparr>er_exception_flags := flags\<rparr>, ds_original = c, ds_walking = c, ds_links = links, ds_guest = g\<rparr>"
  have "dispatch_ok I flags links ?ds"
    using assms(4) by (simp add: dispatch_ok_def)
  then show ?thesis
    using dispatch_filter_fine [OF assms(2)] dispatch_frames_fine [OF assms(1-3)]
    unfolding dispatch_raised_exception_def Let_def assms(5) [symmetric] by auto
qed

text \<open>\<open>RtlUnwindEx\<close> ends when the handlers do, and goes on only at the frame it was asked for.\<close>

lemma rtl_unwind_ex_returns:
  assumes "\<And>g. list_all (backed (gs_objects (unwind_guest k) g)) (rg_modules (gs_registry (unwind_guest k) g))"
    and "\<And>stack flags. handlers_keep (unwind_guest k) stack target_frame (pass_flags flags target_frame) I"
    and "I g"
  shows "\<exists>t. sl_kernel32_rtl_unwind_ex_dispatch k target_frame target_ip rcd return_value c history_table links g = Some t \<and>
    (\<forall>c' links' g'. t = Restored c' links' g' \<longrightarrow>
       I g' \<and> target_frame \<noteq> 0 \<and> cx_rip c' = target_ip \<and> cx_rax c' = return_value)"
proof -
  obtain taken c1 links1 where taken: "sl_win64_take_handler_unwind_origin c links = (taken, c1, links1)"
    by (cases "sl_win64_take_handler_unwind_origin c links")
  show ?thesis
  proof (cases c1)
    case (Some origin)
    let ?rcd = "case rcd of None \<Rightarrow> unwind_record origin | Some rcd \<Rightarrow> rcd"
    show ?thesis
    proof (cases "current_stack_bounds (kg_threads k g) (kg_host_thread k)")
      case None
      then show ?thesis
        using Some taken by (simp add: sl_kernel32_rtl_unwind_ex_dispatch_def)
    next
      case stack: (Some stack)
      let ?given = "current_module_registry (kg_threads k g) (kg_host_thread k) \<noteq> None"
      have "\<exists>status target rcd' links' g'. sl_win64_unwind_to_frame (unwind_guest k) g ?given target_frame target_ip ?rcd
          return_value (Some origin) history_table (Some stack) links1 = Some (status, target, rcd', links', g') \<and>
          I g' \<and> (links' = links1 \<or> links' = []) \<and> (status = SL_OK \<longleftrightarrow> target \<noteq> None) \<and>
          (\<forall>c. target = Some c \<longrightarrow> target_frame \<noteq> 0 \<and> cx_rip c = target_ip \<and> cx_rax c = return_value \<and>
             er_exception_flags rcd' = pass_flags (er_exception_flags ?rcd) target_frame)"
        by (rule unwind_to_frame_returns [OF _ assms(2,3)]) (rule assms(1))
      then obtain status target rcd' links' g' where pass: "sl_win64_unwind_to_frame (unwind_guest k) g
          ?given target_frame target_ip ?rcd return_value
          (Some origin) history_table (Some stack) links1 = Some (status, target, rcd', links', g')"
          "I g'" "\<forall>c. target = Some c \<longrightarrow> target_frame \<noteq> 0 \<and> cx_rip c = target_ip \<and> cx_rax c = return_value"
        by blast
      then show ?thesis
        using Some taken stack
        by (cases target) (simp_all add: sl_kernel32_rtl_unwind_ex_dispatch_def Let_def del: not_None_eq)
    qed
  qed (use taken in \<open>simp add: sl_kernel32_rtl_unwind_ex_dispatch_def\<close>)
qed

section \<open>The property\<close>

text \<open>C34: raising an exception ends. When the language handlers and the top-level filter return, for the calls the
  dispatch makes of them, with its flags and with valid frames, \<open>RaiseException\<close> comes to an end on every
  stack and in every context: the process is aborted or the thread goes on. It goes on only if the exception is
  continuable, and only with the context that a handler or the filter left when it answered that the execution is
  to continue.\<close>

theorem raise_exception_returns:
  fixes exception_flags :: u32
  defines "flags \<equiv> exception_flags AND SL_WIN64_EXCEPTION_NONCONTINUABLE"
  assumes "guest_keeps k I" "I g c" "filters_answer k flags I Q"
    and "\<And>stack. current_stack_bounds (kg_threads k g) (kg_host_thread k) = Some stack \<Longrightarrow>
      handlers_answer k stack flags I Q"
  shows "\<exists>t. sl_kernel32_raise_exception_dispatch k code exception_flags argument_count arguments (Some c) links g = Some t \<and>
    (\<forall>c' links' g'. t = Restored c' links' g' \<longrightarrow>
       I g' c' \<and> Q g' c' \<and> (links' = links \<or> links' = []) \<and> flags = 0)"
proof (cases "current_stack_bounds (kg_threads k g) (kg_host_thread k)")
  case None
  then show ?thesis
    by (simp add: sl_kernel32_raise_exception_dispatch_def)
next
  case (Some stack)
  let ?rcd = "raised_record (kg_memory k g) code exception_flags argument_count arguments c"
  have flags: "flags = er_exception_flags ?rcd AND SL_WIN64_EXCEPTION_NONCONTINUABLE"
    "flags AND SL_WIN64_EXCEPTION_NONCONTINUABLE = flags"
    by (simp_all add: raised_record_def flags_def Let_def and.assoc)
  note dispatched = dispatch_fine [OF assms(5) [OF Some] assms(4,2,3) flags(1), of links]
  show ?thesis
  proof (cases "dispatch_raised_exception k stack ?rcd c links g")
    case None
    then show ?thesis
      using dispatched by (simp add: dispatched_ok_def)
  next
    case r: (Some r)
    then show ?thesis
      using dispatched Some flags(2)
      by (cases r) (auto simp: sl_kernel32_raise_exception_dispatch_def dispatched_ok_def dispatch_ok_def resumed_ok_def)
  qed
qed

text \<open>A guest whose filter counts its calls and goes on somewhere else; no frame has a handler.\<close>

definition filter_threads :: thread_world where
  "filter_threads = handle_threads\<lparr>
     tw_threads := (\<lambda>t. (tw_threads handle_threads t)\<lparr>th_teb := 0x3000, th_teb_owner_token := 0x4000\<rparr>),
     tw_processes := (\<lambda>p. handle_process\<lparr>pr_unhandled_exception_filter := 0x7000\<rparr>),
     tw_tebs := (\<lambda>b. Some \<lparr>tb_process = 32, tb_thread = 16, tb_stack_limit = 0x1000, tb_stack_base = 0x2000,
       tb_attached = True, tb_mapping = 0x2000, tb_mapping_size = 0x4000, tb_bytes_address = 0x3000, tb_bytes = []\<rparr>)\<rparr>"

definition filter_guest :: "nat kernel_guest" where
  "filter_guest = \<lparr>kg_host_thread = 1, kg_threads = (\<lambda>g. filter_threads), kg_memory = (\<lambda>g a. 0), kg_link_address = (\<lambda>g. 8),
     kg_call = (\<lambda>g handler rcd frame c d links. Some (SL_WIN64_EXCEPTION_DISPOSITION_CONTINUE_SEARCH, rcd, c, links, g)), kg_caller_context = (\<lambda>g. zero_context),
     kg_store_caller = (\<lambda>c g. g),
     kg_filter = (\<lambda>g f rcd c. Some (SL_WIN64_EXCEPTION_CONTINUE_EXECUTION, rcd, c\<lparr>cx_rip := 0x5000\<rparr>, g + 1))\<rparr>"

theorem raise_exception_returns_witness:
  "\<exists>t. sl_kernel32_raise_exception_dispatch filter_guest 0xe0000001 0 0 0 (Some zero_context) [] 0 = Some t \<and>
     (\<forall>c' links' g'. t = Restored c' links' g' \<longrightarrow> cx_rip c' = 0x5000)"
proof -
  have space: "\<And>sp. current_module_space filter_threads 1 = Some sp \<Longrightarrow> space_wf sp"
    using handle_space_wf(1) sl_pe_parse_wf [OF sample_parse]
    by (auto simp: current_module_space_def process_at_def current_process_if_installed_def sl_win32_context_current_def
        filter_threads_def handle_threads_def handle_process_def sl_win32_process_module_space_def)
  let ?I = "\<lambda>g c. g = 0 \<or> cx_rip c = 0x5000" and ?Q = "\<lambda>g c. cx_rip c = 0x5000"
  have "\<exists>t. sl_kernel32_raise_exception_dispatch filter_guest 0xe0000001 0 0 0 (Some zero_context) [] 0 = Some t \<and>
     (\<forall>c' links' g'. t = Restored c' links' g' \<longrightarrow> ?I g' c' \<and> ?Q g' c' \<and> (links' = [] \<or> links' = []) \<and>
       (0 :: u32) AND SL_WIN64_EXCEPTION_NONCONTINUABLE = 0)"
  proof (rule raise_exception_returns)
    show "guest_keeps filter_guest (\<lambda>g c. g = 0 \<or> cx_rip c = 0x5000)"
      using space by (simp add: guest_keeps_def filter_guest_def)
    show "filters_answer filter_guest (0 AND SL_WIN64_EXCEPTION_NONCONTINUABLE) ?I ?Q"
      by (simp add: filters_answer_def filter_guest_def answers_def)
    show "handlers_answer filter_guest stack (0 AND SL_WIN64_EXCEPTION_NONCONTINUABLE) ?I ?Q" for stack
      by (simp add: handlers_answer_def filter_guest_def answers_def SL_WIN64_EXCEPTION_DISPOSITION_CONTINUE_SEARCH_def
          SL_WIN64_EXCEPTION_DISPOSITION_CONTINUE_EXECUTION_def)
  qed simp
  then show ?thesis
    by blast
qed

end
