(* ===== verification/Kernel32_Text.thy ===== *)
theory Kernel32_Text
  imports Kernel32_Modules Unicode
begin

text \<open>
  \<open>src/kernel32.c\<close>, the code pages and the conversions \<open>MultiByteToWideChar\<close> and \<open>WideCharToMultiByte\<close>. A source is
  the memory from its pointer on and a destination the memory at its pointer before and after the call; a pointer that
  is \<open>NULL\<close> is \<open>None\<close>. A call that would read past the one or write past the other has no outcome. Lengths and
  capacities are \<open>int32_t\<close>: integers between -2147483648 and 2147483647. \<open>same\<close> says whether source and destination are
  the same address; buffers that overlap in another way are not modelled.
\<close>

section \<open>Constants\<close>

definition INT32_MAX :: nat where "INT32_MAX = 2147483647"
definition SL_ERROR_INVALID_FLAGS :: u32 where "SL_ERROR_INVALID_FLAGS = 1004"
definition SL_ERROR_NO_UNICODE_TRANSLATION :: u32 where "SL_ERROR_NO_UNICODE_TRANSLATION = 1113"
definition SL_WIN32_CP_ACP :: u32 where "SL_WIN32_CP_ACP = 0"
definition SL_WIN32_CP_OEMCP :: u32 where "SL_WIN32_CP_OEMCP = 1"
definition SL_WIN32_CP_THREAD_ACP :: u32 where "SL_WIN32_CP_THREAD_ACP = 3"
definition SL_WIN32_CP_UTF8 :: u32 where "SL_WIN32_CP_UTF8 = 65001"
definition SL_WIN32_MB_ERR_INVALID_CHARS :: u32 where "SL_WIN32_MB_ERR_INVALID_CHARS = 0x8"
definition SL_WIN32_WC_ERR_INVALID_CHARS :: u32 where "SL_WIN32_WC_ERR_INVALID_CHARS = 0x80"

lemmas code_pages = SL_WIN32_CP_ACP_def SL_WIN32_CP_OEMCP_def SL_WIN32_CP_THREAD_ACP_def SL_WIN32_CP_UTF8_def
lemmas text_errors = SL_ERROR_INVALID_FLAGS_def SL_ERROR_NO_UNICODE_TRANSLATION_def SL_ERROR_INVALID_PARAMETER_def
  SL_ERROR_INSUFFICIENT_BUFFER_def

section \<open>Code pages\<close>

definition sl_kernel32_get_acp :: u32 where "sl_kernel32_get_acp = 1252"
definition sl_kernel32_get_oemcp :: u32 where "sl_kernel32_get_oemcp = 437"
definition sl_kernel32_get_console_output_cp :: u32 where "sl_kernel32_get_console_output_cp = 65001"

definition sl_kernel32_is_valid_code_page :: "u32 \<Rightarrow> bool" where
  "sl_kernel32_is_valid_code_page page \<longleftrightarrow>
     page = SL_WIN32_CP_ACP \<or> page = SL_WIN32_CP_OEMCP \<or> page = SL_WIN32_CP_THREAD_ACP \<or> page = 437 \<or>
     page = SL_WIN32_CP_UTF8 \<or> page = 1252"

definition normalize_code_page :: "u32 \<Rightarrow> u32" where
  "normalize_code_page code_page =
     (if code_page = SL_WIN32_CP_ACP \<or> code_page = SL_WIN32_CP_THREAD_ACP then 1252
      else if code_page = SL_WIN32_CP_OEMCP then 437
      else code_page)"

definition sl_cp1252_extension :: "u16 list" where
  "sl_cp1252_extension =
    [0x20ac, 0xffff, 0x201a, 0x0192, 0x201e, 0x2026, 0x2020, 0x2021, 0x02c6, 0x2030, 0x0160, 0x2039,
     0x0152, 0xffff, 0x017d, 0xffff, 0xffff, 0x2018, 0x2019, 0x201c, 0x201d, 0x2022, 0x2013, 0x2014,
     0x02dc, 0x2122, 0x0161, 0x203a, 0x0153, 0xffff, 0x017e, 0x0178]"

definition sl_cp437_extension :: "u16 list" where
  "sl_cp437_extension =
    [0x00c7, 0x00fc, 0x00e9, 0x00e2, 0x00e4, 0x00e0, 0x00e5, 0x00e7, 0x00ea, 0x00eb, 0x00e8, 0x00ef,
     0x00ee, 0x00ec, 0x00c4, 0x00c5, 0x00c9, 0x00e6, 0x00c6, 0x00f4, 0x00f6, 0x00f2, 0x00fb, 0x00f9,
     0x00ff, 0x00d6, 0x00dc, 0x00a2, 0x00a3, 0x00a5, 0x20a7, 0x0192, 0x00e1, 0x00ed, 0x00f3, 0x00fa,
     0x00f1, 0x00d1, 0x00aa, 0x00ba, 0x00bf, 0x2310, 0x00ac, 0x00bd, 0x00bc, 0x00a1, 0x00ab, 0x00bb,
     0x2591, 0x2592, 0x2593, 0x2502, 0x2524, 0x2561, 0x2562, 0x2556, 0x2555, 0x2563, 0x2551, 0x2557,
     0x255d, 0x255c, 0x255b, 0x2510, 0x2514, 0x2534, 0x252c, 0x251c, 0x2500, 0x253c, 0x255e, 0x255f,
     0x255a, 0x2554, 0x2569, 0x2566, 0x2560, 0x2550, 0x256c, 0x2567, 0x2568, 0x2564, 0x2565, 0x2559,
     0x2558, 0x2552, 0x2553, 0x256b, 0x256a, 0x2518, 0x250c, 0x2588, 0x2584, 0x258c, 0x2590, 0x2580,
     0x03b1, 0x00df, 0x0393, 0x03c0, 0x03a3, 0x03c3, 0x00b5, 0x03c4, 0x03a6, 0x0398, 0x03a9, 0x03b4,
     0x221e, 0x03c6, 0x03b5, 0x2229, 0x2261, 0x00b1, 0x2265, 0x2264, 0x2320, 0x2321, 0x00f7, 0x2248,
     0x00b0, 0x2219, 0x00b7, 0x221a, 0x207f, 0x00b2, 0x25a0, 0x00a0]"

text \<open>\<open>None\<close> for a byte that stands for nothing.\<close>

definition single_byte_to_utf16 :: "u32 \<Rightarrow> u8 \<Rightarrow> u16 option" where
  "single_byte_to_utf16 code_page byte =
     (if byte < 0x80 then Some (ucast byte)
      else if code_page = 437 then Some (sl_cp437_extension ! (unat byte - 0x80))
      else if byte < 0xa0
      then (let mapped = sl_cp1252_extension ! (unat byte - 0x80) in if mapped = 0xffff then None else Some mapped)
      else Some (ucast byte))"

definition utf16_to_single_byte :: "u32 \<Rightarrow> u32 \<Rightarrow> u8 option" where
  "utf16_to_single_byte code_page codepoint =
     (if codepoint < 0x80 then Some (ucast codepoint)
      else if code_page = 437
      then map_option (\<lambda>index. of_nat (index + 0x80)) (first_index (\<lambda>unit. ucast unit = codepoint) 0 sl_cp437_extension)
      else if codepoint \<ge> 0xa0 \<and> codepoint \<le> 0xff then Some (ucast codepoint)
      else map_option (\<lambda>index. of_nat (index + 0x80)) (first_index (\<lambda>unit. ucast unit = codepoint) 0 sl_cp1252_extension))"

section \<open>The length of a source\<close>

fun strlen :: "nat \<Rightarrow> bytes \<Rightarrow> nat option" where
  "strlen measured [] = None"
| "strlen measured (byte # source) = (if byte = 0 then Some measured else strlen (measured + 1) source)"

definition byte_source_length :: "bytes option \<Rightarrow> int \<Rightarrow> (u32 + nat) option" where
  "byte_source_length source source_length =
     (case source of
        None \<Rightarrow> Some (Inl SL_ERROR_INVALID_PARAMETER)
      | Some memory \<Rightarrow>
          if source_length = 0 \<or> source_length < -1 then Some (Inl SL_ERROR_INVALID_PARAMETER)
          else if source_length = -1
          then map_option (\<lambda>measured. if measured \<ge> INT32_MAX then Inl SL_ERROR_INVALID_PARAMETER
                                      else Inr (measured + 1)) (strlen 0 memory)
          else Some (Inr (nat source_length)))"

fun measure_units :: "nat \<Rightarrow> u16 list \<Rightarrow> (u32 + nat) option" where
  "measure_units measured [] = None"
| "measure_units measured (unit # source) =
     (if unit = 0 then Some (Inr (measured + 1))
      else if measured \<ge> INT32_MAX - 1 then Some (Inl SL_ERROR_INVALID_PARAMETER)
      else measure_units (measured + 1) source)"

definition wide_source_length :: "u16 list option \<Rightarrow> int \<Rightarrow> (u32 + nat) option" where
  "wide_source_length source source_length =
     (case source of
        None \<Rightarrow> Some (Inl SL_ERROR_INVALID_PARAMETER)
      | Some memory \<Rightarrow>
          if source_length = 0 \<or> source_length < -1 then Some (Inl SL_ERROR_INVALID_PARAMETER)
          else if source_length = -1 then measure_units 0 memory
          else Some (Inr (nat source_length)))"

section \<open>From bytes to units\<close>

definition translation_error :: "sl_status \<Rightarrow> u32" where
  "translation_error status =
     (if status = SL_ERROR_INVALID_ENCODING then SL_ERROR_NO_UNICODE_TRANSLATION else SL_ERROR_INVALID_PARAMETER)"

text \<open>The first look at the source: how many units it needs, or why it is refused.\<close>

definition multi_byte_required :: "u32 \<Rightarrow> bool \<Rightarrow> bytes \<Rightarrow> (u32 + nat) option" where
  "multi_byte_required normalized strict input =
     (if normalized = SL_WIN32_CP_UTF8
      then (case (if strict then sl_utf8_to_utf16 (Some input) (length input) None 0 (Some (length input))
                  else sl_utf8_to_utf16_lossy (Some input) (length input) None 0 (Some (length input))) of
              Some (status, _, Some required) \<Rightarrow>
                Some (if status \<noteq> SL_OK then Inl (translation_error status) else Inr required)
            | _ \<Rightarrow> None)
      else Some (if strict \<and> list_ex (\<lambda>byte. single_byte_to_utf16 normalized byte = None) input
                 then Inl SL_ERROR_NO_UNICODE_TRANSLATION else Inr (length input)))"

text \<open>The second: the units are stored.\<close>

definition multi_byte_write ::
    "u32 \<Rightarrow> bool \<Rightarrow> bytes \<Rightarrow> nat \<Rightarrow> nat \<Rightarrow> u16 list \<Rightarrow> (u32 option \<times> u16 list \<times> unit option) option" where
  "multi_byte_write normalized strict input required capacity destination =
     (if normalized = SL_WIN32_CP_UTF8
      then (case (if strict then sl_utf8_to_utf16 (Some input) (length input) (Some destination) capacity (Some 0)
                  else sl_utf8_to_utf16_lossy (Some input) (length input) (Some destination) capacity (Some 0)) of
              Some (status, Some destination, Some written) \<Rightarrow>
                Some (if status \<noteq> SL_OK \<or> written \<noteq> required then Some (translation_error status) else None,
                      destination, None)
            | _ \<Rightarrow> None)
      else map_option (\<lambda>(destination, _). (None, destination, None))
             (put_units destination 0
               (map (\<lambda>byte. case single_byte_to_utf16 normalized byte of None \<Rightarrow> 0xfffd | Some unit \<Rightarrow> unit) input)))"

text \<open>What both conversions do with the number of units or bytes their source needs: the value with the destination,
  the last error, and what is stored besides when the whole text was.\<close>

definition convert_into ::
    "(u32 + nat) option \<Rightarrow> (nat \<Rightarrow> nat \<Rightarrow> 'u list \<Rightarrow> (u32 option \<times> 'u list \<times> 'x option) option) \<Rightarrow> 'u list option \<Rightarrow>
     int \<Rightarrow> ((int \<times> 'u list option) api \<times> 'x option) option" where
  "convert_into needed store destination destination_capacity =
     (case needed of
        None \<Rightarrow> None
      | Some (Inl error) \<Rightarrow> Some (refuse (0, destination) error, None)
      | Some (Inr required) \<Rightarrow>
          if required > INT32_MAX then Some (refuse (0, destination) SL_ERROR_INVALID_PARAMETER, None)
          else if destination_capacity = 0 then Some (answer (int required, destination), None)
          else if nat destination_capacity < required
          then Some (refuse (0, destination) SL_ERROR_INSUFFICIENT_BUFFER, None)
          else (case destination of
                  None \<Rightarrow> None
                | Some memory \<Rightarrow>
                    (case store required (nat destination_capacity) memory of
                       None \<Rightarrow> None
                     | Some (Some error, memory, _) \<Rightarrow> Some (refuse (0, Some memory) error, None)
                     | Some (None, memory, extra) \<Rightarrow> Some (answer (int required, Some memory), extra))))"

definition sl_kernel32_multi_byte_to_wide_char ::
    "u32 \<Rightarrow> u32 \<Rightarrow> bytes option \<Rightarrow> int \<Rightarrow> u16 list option \<Rightarrow> int \<Rightarrow> bool \<Rightarrow> (int \<times> u16 list option) api option" where
  "sl_kernel32_multi_byte_to_wide_char code_page flags source source_length destination destination_capacity same =
     (let normalized = normalize_code_page code_page;
          is_utf8 = (normalized = SL_WIN32_CP_UTF8);
          strict = (flags AND SL_WIN32_MB_ERR_INVALID_CHARS \<noteq> 0)
      in if flags AND NOT SL_WIN32_MB_ERR_INVALID_CHARS \<noteq> 0 then Some (refuse (0, destination) SL_ERROR_INVALID_FLAGS)
         else if normalized \<noteq> 437 \<and> normalized \<noteq> 1252 \<and> \<not> is_utf8 \<or> destination_capacity < 0 \<or>
              destination = None \<and> destination_capacity \<noteq> 0 \<or> destination \<noteq> None \<and> same
         then Some (refuse (0, destination) SL_ERROR_INVALID_PARAMETER)
         else (case byte_source_length source source_length of
                 None \<Rightarrow> None
               | Some (Inl error) \<Rightarrow> Some (refuse (0, destination) error)
               | Some (Inr input_length) \<Rightarrow>
                   if length (the source) < input_length then None
                   else let input = take input_length (the source)
                        in map_option fst (convert_into (multi_byte_required normalized strict input)
                             (multi_byte_write normalized strict input) destination destination_capacity)))"

section \<open>From units to bytes\<close>

definition decode_wide_codepoint :: "u16 list \<Rightarrow> nat \<Rightarrow> (u32 \<times> nat) option" where
  "decode_wide_codepoint source offset =
     (let first = ucast (source ! offset) :: u32
      in if first \<ge> 0xd800 \<and> first \<le> 0xdbff
         then if offset + 1 \<ge> length source then None
              else let second = ucast (source ! (offset + 1)) :: u32
                   in if second < 0xdc00 \<or> second > 0xdfff then None
                      else Some (0x10000 + push_bit 10 (first - 0xd800) + (second - 0xdc00), 2)
         else if first \<ge> 0xdc00 \<and> first \<le> 0xdfff then None
         else Some (first, 1))"

definition consumed_at :: "u16 list \<Rightarrow> nat \<Rightarrow> nat" where
  "consumed_at source offset = (case decode_wide_codepoint source offset of None \<Rightarrow> 1 | Some (_, consumed) \<Rightarrow> consumed)"

lemma consumed_at_positive [simp]: "0 < consumed_at source offset" "consumed_at source offset \<noteq> 0"
  by (simp_all add: consumed_at_def decode_wide_codepoint_def Let_def)

text \<open>The loop over the code points, one byte each.\<close>

function single_byte_output :: "u16 list \<Rightarrow> nat \<Rightarrow> nat \<Rightarrow> nat" where
  "single_byte_output source input output_count =
     (if input < length source then single_byte_output source (input + consumed_at source input) (output_count + 1)
      else output_count)"
  by auto
termination by (relation "measure (\<lambda>(source, input, _). length source - input)") (auto intro: diff_less_mono2)

declare single_byte_output.simps [simp del]

definition single_byte_required :: "u16 list \<Rightarrow> (u32 + nat) option" where
  "single_byte_required source =
     (let required = single_byte_output source 0 0
      in Some (if required \<le> INT32_MAX then Inr required else Inl SL_ERROR_INVALID_PARAMETER))"

definition wide_char_required :: "u32 \<Rightarrow> bool \<Rightarrow> u16 list \<Rightarrow> (u32 + nat) option" where
  "wide_char_required normalized strict input =
     (if normalized = SL_WIN32_CP_UTF8
      then (case (if strict then sl_utf16_to_utf8 (Some input) (length input) None 0 (Some 0)
                  else sl_utf16_to_utf8_lossy (Some input) (length input) None 0 (Some 0)) of
              Some (status, _, Some required) \<Rightarrow>
                Some (if status \<noteq> SL_OK then Inl (translation_error status) else Inr required)
            | _ \<Rightarrow> None)
      else single_byte_required input)"

text \<open>The bytes are stored; the flag says whether the replacement was used.\<close>

function single_byte_write ::
    "u32 \<Rightarrow> u8 \<Rightarrow> u16 list \<Rightarrow> nat \<Rightarrow> nat \<Rightarrow> bytes \<Rightarrow> bool \<Rightarrow> (bytes \<times> bool) option" where
  "single_byte_write normalized replacement source input output_index destination used_default =
     (if input < length source
      then let translated = (case decode_wide_codepoint source input of
                               None \<Rightarrow> None | Some (codepoint, _) \<Rightarrow> utf16_to_single_byte normalized codepoint)
           in if output_index < length destination
              then single_byte_write normalized replacement source (input + consumed_at source input) (output_index + 1)
                     (destination[output_index := case translated of None \<Rightarrow> replacement | Some byte \<Rightarrow> byte])
                     (used_default \<or> translated = None)
              else None
      else Some (destination, used_default))"
  by auto
termination by (relation "measure (\<lambda>(_, _, source, input, _). length source - input)") (auto intro: diff_less_mono2)

declare single_byte_write.simps [simp del]

text \<open>The flag of the replacement is stored at the end, when \<open>used\<close> says that there is a place for it.\<close>

definition wide_char_write ::
    "u32 \<Rightarrow> bool \<Rightarrow> u8 option \<Rightarrow> bool \<Rightarrow> u16 list \<Rightarrow> nat \<Rightarrow> nat \<Rightarrow> bytes \<Rightarrow>
     (u32 option \<times> bytes \<times> bool option) option" where
  "wide_char_write normalized strict default_character used input required capacity destination =
     (if normalized = SL_WIN32_CP_UTF8
      then (case (if strict then sl_utf16_to_utf8 (Some input) (length input) (Some destination) capacity (Some 0)
                  else sl_utf16_to_utf8_lossy (Some input) (length input) (Some destination) capacity (Some 0)) of
              Some (status, Some destination, Some written) \<Rightarrow>
                Some (if status \<noteq> SL_OK \<or> written \<noteq> required then Some (translation_error status) else None,
                      destination, None)
            | _ \<Rightarrow> None)
      else map_option (\<lambda>(destination, used_default). (None, destination, if used then Some used_default else None))
             (single_byte_write normalized (case default_character of None \<Rightarrow> 0x3f | Some byte \<Rightarrow> byte) input 0 0
                destination False))"

definition sl_kernel32_wide_char_to_multi_byte ::
    "u32 \<Rightarrow> u32 \<Rightarrow> u16 list option \<Rightarrow> int \<Rightarrow> bytes option \<Rightarrow> int \<Rightarrow> u8 option \<Rightarrow> bool \<Rightarrow> bool \<Rightarrow>
     ((int \<times> bytes option) api \<times> bool option) option" where
  "sl_kernel32_wide_char_to_multi_byte code_page flags source source_length destination destination_capacity
       default_character used same =
     (let normalized = normalize_code_page code_page;
          is_utf8 = (normalized = SL_WIN32_CP_UTF8);
          strict = (flags AND SL_WIN32_WC_ERR_INVALID_CHARS \<noteq> 0)
      in if is_utf8 \<and> flags AND NOT SL_WIN32_WC_ERR_INVALID_CHARS \<noteq> 0 \<or> \<not> is_utf8 \<and> flags \<noteq> 0
         then Some (refuse (0, destination) SL_ERROR_INVALID_FLAGS, None)
         else if normalized \<noteq> 437 \<and> normalized \<noteq> 1252 \<and> \<not> is_utf8 \<or> destination_capacity < 0 \<or>
              destination = None \<and> destination_capacity \<noteq> 0 \<or> destination \<noteq> None \<and> same \<or>
              is_utf8 \<and> (default_character \<noteq> None \<or> used)
         then Some (refuse (0, destination) SL_ERROR_INVALID_PARAMETER, None)
         else (case wide_source_length source source_length of
                 None \<Rightarrow> None
               | Some (Inl error) \<Rightarrow> Some (refuse (0, destination) error, None)
               | Some (Inr input_length) \<Rightarrow>
                   if length (the source) < input_length then None
                   else let input = take input_length (the source)
                        in convert_into (wide_char_required normalized strict input)
                             (wide_char_write normalized strict default_character used input)
                             destination destination_capacity))"

section \<open>The command line\<close>

definition SL_COMMAND_LINE_CAPACITY :: nat where "SL_COMMAND_LINE_CAPACITY = 32768"

record command_lines =
  sl_command_line_a :: bytes
  sl_command_line_w :: "u16 list"

text \<open>The loop over the code points of the line, one byte of code page 1252 each; \<open>None\<close> for invalid units.\<close>

function command_line_bytes :: "u16 list \<Rightarrow> nat \<Rightarrow> bytes option" where
  "command_line_bytes wide input =
     (if input < length wide
      then (case decode_wide_codepoint wide input of
              None \<Rightarrow> None
            | Some (codepoint, consumed) \<Rightarrow>
                map_option ((#) (case utf16_to_single_byte 1252 codepoint of None \<Rightarrow> 0x3f | Some byte \<Rightarrow> byte))
                  (command_line_bytes wide (input + consumed_at wide input)))
      else Some [])"
  by auto
termination by (relation "measure (\<lambda>(wide, input). length wide - input)") (auto intro: diff_less_mono2)

declare command_line_bytes.simps [simp del]

text \<open>The string is its bytes before the terminator; \<open>allocated\<close> says whether both allocations succeed. Both buffers
  are cleared before the line is stored.\<close>

definition sl_kernel32_set_command_line_utf8 ::
    "bool \<Rightarrow> bytes option \<Rightarrow> command_lines \<Rightarrow> (sl_status \<times> command_lines) option" where
  "sl_kernel32_set_command_line_utf8 allocated command_line lines =
     (case command_line of
        None \<Rightarrow> Some (SL_ERROR_INVALID_ARGUMENT, lines)
      | Some line \<Rightarrow>
          (case sl_utf8_to_utf16 command_line (length line) None 0 (Some 0) of
             Some (status, _, Some wide_length) \<Rightarrow>
               if status \<noteq> SL_OK then Some (status, lines)
               else if wide_length \<ge> SL_COMMAND_LINE_CAPACITY then Some (SL_ERROR_BUFFER_TOO_SMALL, lines)
               else if \<not> allocated then Some (SL_ERROR_OUT_OF_MEMORY, lines)
               else (case sl_utf8_to_utf16 command_line (length line) (Some (replicate (wide_length + 1) 0)) wide_length
                            (Some 0) of
                       Some (status, Some wide, Some written) \<Rightarrow>
                         if status = SL_OK \<and> written = wide_length
                         then (case command_line_bytes (take wide_length wide) 0 of
                                 None \<Rightarrow> Some (SL_ERROR_INVALID_ENCODING, lines)
                               | Some ansi \<Rightarrow>
                                   Some (SL_OK, \<lparr>sl_command_line_a = ansi @ replicate (SL_COMMAND_LINE_CAPACITY - length ansi) 0,
                                     sl_command_line_w = take wide_length wide @
                                       replicate (SL_COMMAND_LINE_CAPACITY - wide_length) 0\<rparr>))
                         else Some (status, lines)
                     | _ \<Rightarrow> None)
           | _ \<Rightarrow> None))"

end
