(* ===== verification/Kernel32_Text_Properties.thy ===== *)
theory Kernel32_Text_Properties
  imports Kernel32_Text Unicode_Properties Module_Names
begin

text \<open>What the conversions between code pages and UTF-16 promise together.\<close>

section \<open>Bytes of a code page\<close>

lemma extension_lengths: "length sl_cp1252_extension = 32" "length sl_cp437_extension = 128"
  by (simp_all add: sl_cp1252_extension_def sl_cp437_extension_def)

lemma extension_units:
  "list_all (\<lambda>u. u = 0xffff \<or> 0xff < u \<and> u < 0xd800) sl_cp1252_extension"
  "list_all (\<lambda>u. 0x80 \<le> u \<and> u < 0xd800) sl_cp437_extension"
  by (simp_all add: sl_cp1252_extension_def sl_cp437_extension_def)

lemma sorted_437: "sorted_wrt (<) (sort (map uint sl_cp437_extension))"
  by code_simp

lemma distinct_437: "distinct sl_cp437_extension"
proof -
  have "distinct (sort (map uint sl_cp437_extension))"
    using sorted_437 strict_sorted_iff by blast
  then show ?thesis by (simp add: distinct_map)
qed

lemma distinct_1252: "distinct (List.filter (\<lambda>u. u \<noteq> 0xffff) sl_cp1252_extension)"
  by (simp add: sl_cp1252_extension_def)

lemma distinct_filter_nth:
  assumes "distinct (List.filter P xs)" "i < length xs" "j < length xs" "P (xs ! i)" "xs ! i = xs ! j"
  shows "i = j"
  using assms
proof (induction xs arbitrary: i j)
  case (Cons x xs)
  have notin: "xs ! k \<noteq> x" if "k < length xs" "P x" for k
    using Cons.prems(1) that by auto
  have "distinct (List.filter P xs)"
    using Cons.prems(1) by (simp split: if_splits)
  then show ?case
    using Cons.IH Cons.prems(2-5) notin by (cases i; cases j) auto
qed simp

text \<open>A unit of a table is found where it stands.\<close>

lemma ucast_u16_inject: "ucast (u :: u16) = (ucast v :: u32) \<longleftrightarrow> u = v"
  by (simp add: word_unat_eq_iff unat_ucast_up)

lemma found_in_table:
  assumes "i < length table" "\<And>j. j < length table \<Longrightarrow> table ! j = table ! i \<Longrightarrow> j = i"
  shows "first_index (\<lambda>unit. ucast unit = (ucast (table ! i :: u16) :: u32)) 0 table = Some i"
  using assms by (auto simp: first_index_Some ucast_u16_inject) (metis less_irrefl less_trans)

lemma unit_bounds:
  "(ucast (u :: u16) :: u32) < 0x80 \<longleftrightarrow> u < 0x80"
  "(0xa0 \<le> (ucast u :: u32) \<and> (ucast u :: u32) \<le> 0xff) \<longleftrightarrow> 0xa0 \<le> u \<and> u \<le> 0xff"
  "(0xd800 \<le> (ucast u :: u32) \<and> (ucast u :: u32) \<le> 0xdfff) \<longleftrightarrow> 0xd800 \<le> u \<and> u \<le> 0xdfff"
  by (simp_all add: word_le_nat_alt word_less_nat_alt unat_ucast_up)

lemma byte_bounds:
  "(ucast (b :: u8) :: u16) < 0x80 \<longleftrightarrow> b < 0x80" "(ucast b :: u16) \<le> 0xff" "0xa0 \<le> (ucast b :: u16) \<longleftrightarrow> 0xa0 \<le> b"
  "(ucast (ucast b :: u16) :: u32) = ucast b" "(ucast (ucast b :: u16) :: u8) = b" "(ucast (ucast b :: u32) :: u8) = b"
  "(ucast b :: u32) < 0x80 \<longleftrightarrow> b < 0x80"
proof -
  have "unat b mod 256 = unat b" "unat b mod 65536 = unat b" "unat b mod 4294967296 = unat b" "unat b \<le> 255"
    using unat_u8_lt [of b] by (simp_all del: unat_u8_lt)
  then show "(ucast (b :: u8) :: u16) < 0x80 \<longleftrightarrow> b < 0x80" "(ucast b :: u16) \<le> 0xff" "0xa0 \<le> (ucast b :: u16) \<longleftrightarrow> 0xa0 \<le> b"
      "(ucast (ucast b :: u16) :: u32) = ucast b" "(ucast (ucast b :: u16) :: u8) = b" "(ucast (ucast b :: u32) :: u8) = b"
      "(ucast b :: u32) < 0x80 \<longleftrightarrow> b < 0x80"
    by (simp_all add: word_le_nat_alt word_less_nat_alt unat_ucast_mod word_unat_eq_iff)
qed

text \<open>A byte that stands for a unit is the byte of that unit, which is not a surrogate.\<close>

lemma low_byte_inverts:
  assumes "byte < 0x80"
  shows "single_byte_to_utf16 page byte = Some (ucast byte)" "utf16_to_single_byte page (ucast (ucast byte :: u16)) = Some byte"
  using assms by (simp_all add: single_byte_to_utf16_def utf16_to_single_byte_def unit_bounds byte_bounds)

lemma table_index:
  assumes "\<not> (byte :: u8) < 0x80"
  shows "unat byte - 0x80 < 128" "of_nat (unat byte - 0x80 + 0x80) = byte"
  using assms unat_u8_lt [of byte] by (simp_all add: word_less_nat_alt less_diff_conv2 del: unat_u8_lt)

lemma table_437_inverts:
  assumes "\<not> byte < 0x80" "single_byte_to_utf16 437 byte = Some unit"
  shows "0x80 \<le> unit \<and> unit < 0xd800" "utf16_to_single_byte 437 (ucast unit) = Some byte"
proof -
  let ?i = "unat byte - 0x80"
  have i: "?i < length sl_cp437_extension" "unit = sl_cp437_extension ! ?i"
    using assms table_index(1) [OF assms(1)] by (simp_all add: single_byte_to_utf16_def extension_lengths)
  show unit: "0x80 \<le> unit \<and> unit < 0xd800"
    using extension_units(2) i by (simp add: list_all_length)
  have found: "first_index (\<lambda>u. ucast u = (ucast unit :: u32)) 0 sl_cp437_extension = Some ?i"
    unfolding i(2) using distinct_437 i(1) by (intro found_in_table) (auto simp: nth_eq_iff_index_eq)
  have "\<not> (ucast unit :: u32) < 0x80"
    using unit unfolding unit_bounds(1) by (simp add: word_less_nat_alt word_le_nat_alt)
  then show "utf16_to_single_byte 437 (ucast unit) = Some byte"
    unfolding utf16_to_single_byte_def found using table_index(2) [OF assms(1)] by simp
qed

lemma table_1252_inverts:
  assumes "\<not> byte < 0x80" "byte < 0xa0" "single_byte_to_utf16 1252 byte = Some unit"
  shows "0xff < unit \<and> unit < 0xd800" "utf16_to_single_byte 1252 (ucast unit) = Some byte"
proof -
  let ?i = "unat byte - 0x80"
  have i: "?i < length sl_cp1252_extension" "unit = sl_cp1252_extension ! ?i" "unit \<noteq> 0xffff"
    using assms by (auto simp: single_byte_to_utf16_def extension_lengths word_less_nat_alt Let_def split: if_splits)
  show unit: "0xff < unit \<and> unit < 0xd800"
    using extension_units(1) i by (auto simp: list_all_length)
  have found: "first_index (\<lambda>u. ucast u = (ucast unit :: u32)) 0 sl_cp1252_extension = Some ?i"
    unfolding i(2) using i by (intro found_in_table distinct_filter_nth [OF distinct_1252]) auto
  have "\<not> (ucast unit :: u32) < 0x80" "\<not> (0xa0 \<le> (ucast unit :: u32) \<and> (ucast unit :: u32) \<le> 0xff)"
    using unit unfolding unit_bounds(1,2) by (auto simp: word_less_nat_alt word_le_nat_alt)
  then show "utf16_to_single_byte 1252 (ucast unit) = Some byte"
    unfolding utf16_to_single_byte_def found using table_index(2) [OF assms(1)] by auto
qed

lemma high_1252_inverts:
  assumes "\<not> byte < 0xa0"
  shows "single_byte_to_utf16 1252 byte = Some (ucast byte)" "utf16_to_single_byte 1252 (ucast (ucast byte :: u16)) = Some byte"
proof -
  have "\<not> byte < 0x80" "0xa0 \<le> byte"
    using assms by (auto simp: word_less_nat_alt word_le_nat_alt)
  then show "single_byte_to_utf16 1252 byte = Some (ucast byte)"
      "utf16_to_single_byte 1252 (ucast (ucast byte :: u16)) = Some byte"
    using assms unit_bounds(2) [of "ucast byte"]
    by (simp_all add: single_byte_to_utf16_def utf16_to_single_byte_def unit_bounds(1) byte_bounds)
qed

lemma mapped_byte:
  assumes "single_byte_to_utf16 page byte = Some unit" "page = 437 \<or> page = 1252"
  shows "\<not> (0xd800 \<le> unit \<and> unit \<le> 0xdfff) \<and> utf16_to_single_byte page (ucast unit) = Some byte"
proof -
  have small: "\<not> (0xd800 \<le> (ucast byte :: u16) \<and> (ucast byte :: u16) \<le> 0xdfff)"
    using byte_bounds(2) [of byte] by (auto simp: word_le_nat_alt)
  consider "byte < 0x80" | "\<not> byte < 0x80" "page = 437" | "\<not> byte < 0x80" "byte < 0xa0" "page = 1252"
    | "\<not> byte < 0xa0" "page = 1252"
    using assms(2) by blast
  then show ?thesis
  proof cases
    case 1
    then show ?thesis using low_byte_inverts [OF 1] assms(1) small by auto
  next
    case 2
    then show ?thesis using table_437_inverts [OF 2(1)] assms(1) by (auto simp: not_le)
  next
    case 3
    then show ?thesis using table_1252_inverts [OF 3(1,2)] assms(1) by (auto simp: not_le)
  next
    case 4
    then show ?thesis using high_1252_inverts [OF 4(1)] assms(1) small by auto
  qed
qed

section \<open>The loops over code points\<close>

lemma decode_plain_unit:
  assumes "i < length source" "\<not> (0xd800 \<le> source ! i \<and> source ! i \<le> 0xdfff)"
  shows "decode_wide_codepoint source i = Some (ucast (source ! i), 1)"
proof -
  let ?u = "ucast (source ! i) :: u32"
  have "\<not> (0xd800 \<le> ?u \<and> ?u \<le> 0xdfff)"
    using assms(2) unfolding unit_bounds(3) .
  then have "\<not> (?u \<ge> 0xd800 \<and> ?u \<le> 0xdbff)" "\<not> (?u \<ge> 0xdc00 \<and> ?u \<le> 0xdfff)"
    by (auto simp: word_le_nat_alt)
  then show ?thesis
    by (auto simp: decode_wide_codepoint_def Let_def)
qed

lemma single_byte_output_ge: "output_index \<le> single_byte_output source i output_index"
proof (induction source i output_index rule: single_byte_output.induct)
  case (1 source i output_index)
  then show ?case
    by (subst single_byte_output.simps) auto
qed

lemma take_update_next: "k < length d \<Longrightarrow> take (Suc k) (d[k := x]) = take k d @ [x]"
  by (simp add: take_Suc_conv_app_nth)

lemma single_byte_write_fits:
  "single_byte_output source i output_index \<le> length d \<Longrightarrow>
     \<exists>bs flag. single_byte_write p r source i output_index d u =
         Some (take output_index d @ bs @ drop (single_byte_output source i output_index) d, flag) \<and>
       output_index + length bs = single_byte_output source i output_index"
proof (induction p r source i output_index d u rule: single_byte_write.induct)
  case (1 p r source i output_index d u)
  show ?case
  proof (cases "i < length source")
    case True
    let ?next = "single_byte_output source (i + consumed_at source i) (output_index + 1)"
    have out: "single_byte_output source i output_index = ?next"
      using True by (subst single_byte_output.simps) simp
    have room: "output_index < length d"
      using 1(2) single_byte_output_ge [of "output_index + 1" source "i + consumed_at source i"] unfolding out by linarith
    let ?byte = "case (case decode_wide_codepoint source i of None \<Rightarrow> None
        | Some (codepoint, _) \<Rightarrow> utf16_to_single_byte p codepoint) of None \<Rightarrow> r | Some byte \<Rightarrow> byte"
    obtain bs flag where
      "single_byte_write p r source (i + consumed_at source i) (output_index + 1) (d[output_index := ?byte])
         (u \<or> (case decode_wide_codepoint source i of None \<Rightarrow> None
            | Some (codepoint, _) \<Rightarrow> utf16_to_single_byte p codepoint) = None) =
         Some (take (output_index + 1) (d[output_index := ?byte]) @ bs @ drop ?next (d[output_index := ?byte]), flag)"
      "output_index + 1 + length bs = ?next"
      using 1(1) [OF True refl room] 1(2) unfolding out by (simp only: length_list_update) blast
    then show ?thesis
      unfolding out using True room by (subst single_byte_write.simps)
        (auto simp: take_update_next Let_def intro!: exI [of _ "?byte # bs"])
  next
    case False
    then have "single_byte_output source i output_index = output_index"
      by (subst single_byte_output.simps) simp
    then show ?thesis
      using False by (subst single_byte_write.simps) simp
  qed
qed

text \<open>Where every unit stands for a byte, the bytes are those.\<close>

definition page_text :: "u32 \<Rightarrow> bytes \<Rightarrow> u16 list \<Rightarrow> bool" where
  "page_text page bs us \<longleftrightarrow> list_all2 (\<lambda>byte unit. single_byte_to_utf16 page byte = Some unit) bs us"

lemma page_text_unit:
  assumes "page_text page bs us" "page = 437 \<or> page = 1252" "i < length us"
  shows "decode_wide_codepoint us i = Some (ucast (us ! i), 1)" "utf16_to_single_byte page (ucast (us ! i)) = Some (bs ! i)"
    "consumed_at us i = 1"
proof -
  have "single_byte_to_utf16 page (bs ! i) = Some (us ! i)"
    using assms(1,3) by (simp add: page_text_def list_all2_conv_all_nth)
  note b = mapped_byte [OF this assms(2)]
  then show d: "decode_wide_codepoint us i = Some (ucast (us ! i), 1)"
    by (intro decode_plain_unit [OF assms(3)]) simp
  show "utf16_to_single_byte page (ucast (us ! i)) = Some (bs ! i)" "consumed_at us i = 1"
    using b by (simp_all add: consumed_at_def d)
qed

lemma page_text_output:
  assumes "page_text page bs us" "page = 437 \<or> page = 1252"
  shows "i \<le> length us \<Longrightarrow> single_byte_output us i k = k + (length us - i)"
proof (induction "length us - i" arbitrary: i k)
  case 0
  then show ?case by (subst single_byte_output.simps) simp
next
  case (Suc n)
  then show ?case
    using page_text_unit(3) [OF assms, of i] by (subst single_byte_output.simps) simp
qed

lemma page_text_write:
  assumes "page_text page bs us" "page = 437 \<or> page = 1252"
  shows "i \<le> length us \<Longrightarrow> length us \<le> length d \<Longrightarrow>
    single_byte_write page r us i i d u = Some (take i d @ drop i bs @ drop (length us) d, u)"
proof (induction "length us - i" arbitrary: i d)
  case 0
  moreover have "length bs = length us"
    using assms(1) by (simp add: page_text_def list_all2_lengthD)
  ultimately show ?case by (subst single_byte_write.simps) simp
next
  case (Suc n)
  then have i: "i < length us" "i < length d" "i < length bs"
    using assms(1) by (auto simp: page_text_def list_all2_lengthD)
  have "single_byte_write page r us (i + 1) (i + 1) (d[i := bs ! i]) u =
      Some (take (i + 1) (d[i := bs ! i]) @ drop (i + 1) bs @ drop (length us) (d[i := bs ! i]), u)"
    using Suc i by (intro Suc.hyps(1)) simp_all
  then show ?case
    using i page_text_unit [OF assms i(1)] by (subst single_byte_write.simps)
      (simp add: take_update_next Cons_nth_drop_Suc)
qed

section \<open>The contract of a conversion\<close>

text \<open>What \<open>convert_into\<close> relies on: the first look always has an outcome, and when it finds a size that the destination
  has room for, the second stores as many units, from the start on.\<close>

locale text_conversion =
  fixes fits :: "'i \<Rightarrow> bool"
    and needed :: "'i \<Rightarrow> (u32 + nat) option"
    and store :: "'i \<Rightarrow> nat \<Rightarrow> nat \<Rightarrow> 'u list \<Rightarrow> (u32 option \<times> 'u list \<times> 'x option) option"
  assumes needed_defined: "fits i \<Longrightarrow> needed i \<noteq> None"
    and store_fills: "fits i \<Longrightarrow> needed i = Some (Inr required) \<Longrightarrow> required \<le> capacity \<Longrightarrow> capacity \<le> length d \<Longrightarrow>
      \<exists>us x. store i required capacity d = Some (None, us @ drop required d, x) \<and> length us = required"
begin

lemma query_answers:
  "convert_into (needed i) (store i) None 0 = Some (answer (v, None), x) \<longleftrightarrow>
     x = None \<and> (\<exists>required. needed i = Some (Inr required) \<and> required \<le> INT32_MAX \<and> v = int required)"
  by (auto simp: convert_into_def answer_def refuse_def split: option.splits sum.splits)

lemma query_tells_size:
  assumes "fits i" "convert_into (needed i) (store i) None 0 = Some (answer (v, None), x)"
    and "capacity \<le> length d"
  shows "int capacity \<ge> v \<Longrightarrow> \<exists>us x'. length us = nat v \<and>
      convert_into (needed i) (store i) (Some d) (int capacity) = Some (answer (v, Some (us @ drop (nat v) d)), x')"
    and "0 < capacity \<Longrightarrow> int capacity < v \<Longrightarrow>
      convert_into (needed i) (store i) (Some d) (int capacity) = Some (refuse (0, Some d) SL_ERROR_INSUFFICIENT_BUFFER, None)"
proof -
  obtain required where r: "needed i = Some (Inr required)" "required \<le> INT32_MAX" "v = int required"
    using assms(2) query_answers by blast
  show "\<exists>us x'. length us = nat v \<and>
      convert_into (needed i) (store i) (Some d) (int capacity) = Some (answer (v, Some (us @ drop (nat v) d)), x')"
    if "int capacity \<ge> v"
  proof (cases "capacity = 0")
    case True
    then show ?thesis
      using r that by (auto simp: convert_into_def)
  next
    case False
    have "required \<le> capacity"
      using that r(3) by simp
    then obtain us x' where "store i required capacity d = Some (None, us @ drop required d, x')" "length us = required"
      using store_fills [OF assms(1) r(1) _ assms(3)] by blast
    then show ?thesis
      using r that False by (auto simp: convert_into_def)
  qed
  show "convert_into (needed i) (store i) (Some d) (int capacity) = Some (refuse (0, Some d) SL_ERROR_INSUFFICIENT_BUFFER, None)"
    if "0 < capacity" "int capacity < v"
    using that r by (auto simp: convert_into_def)
qed

end

lemma translation_errors:
  "translation_error SL_ERROR_INVALID_ENCODING = SL_ERROR_NO_UNICODE_TRANSLATION"
  "translation_error SL_ERROR_BUFFER_TOO_SMALL = SL_ERROR_INVALID_PARAMETER"
  by (simp_all add: translation_error_def)

definition converted_units :: "u32 list \<Rightarrow> u16 list" where "converted_units cs = concat (map utf16_units cs)"
definition converted_bytes :: "u32 list \<Rightarrow> bytes" where "converted_bytes cs = concat (map utf8_bytes cs)"

lemma strict_or_lossy:
  "(if strict then sl_utf8_to_utf16 src n dst cap w else sl_utf8_to_utf16_lossy src n dst cap w) =
     utf8_to_utf16 src n dst cap w (\<not> strict)"
  "(if strict then sl_utf16_to_utf8 src' n dst' cap w else sl_utf16_to_utf8_lossy src' n dst' cap w) =
     utf16_to_utf8 src' n dst' cap w (\<not> strict)"
  by (simp_all add: sl_utf8_to_utf16_def sl_utf8_to_utf16_lossy_def sl_utf16_to_utf8_def sl_utf16_to_utf8_lossy_def)

lemma multi_byte_utf8:
  assumes "3 * length input \<le> SIZE_MAX" "decodes utf8_bytes (\<not> strict) input cs"
  shows "multi_byte_required SL_WIN32_CP_UTF8 strict input = Some (Inr (length (converted_units cs)))"
    and "length (converted_units cs) \<le> capacity \<Longrightarrow> capacity \<le> length d \<Longrightarrow>
      multi_byte_write SL_WIN32_CP_UTF8 strict input (length (converted_units cs)) capacity d =
        Some (None, converted_units cs @ drop (length (converted_units cs)) d, None)"
proof -
  have d: "decodes utf8_bytes (\<not> strict) (take (length input) input) cs"
    using assms(2) by simp
  show "multi_byte_required SL_WIN32_CP_UTF8 strict input = Some (Inr (length (converted_units cs)))"
    using u8to16.convert_decodes [OF d assms(1), of None 0]
    by (simp add: multi_byte_required_def strict_or_lossy outcome_def u8to16.outs_def converted_units_def)
  show "multi_byte_write SL_WIN32_CP_UTF8 strict input (length (converted_units cs)) capacity d =
      Some (None, converted_units cs @ drop (length (converted_units cs)) d, None)"
    if "length (converted_units cs) \<le> capacity" "capacity \<le> length d"
    using u8to16.convert_decodes [OF d assms(1), of "Some d" capacity] that
    by (simp add: multi_byte_write_def strict_or_lossy outcome_def u8to16.outs_def converted_units_def)
qed

lemma multi_byte_utf8_refused:
  assumes "3 * length input \<le> SIZE_MAX" "\<nexists>cs. decodes utf8_bytes (\<not> strict) input cs"
  shows "multi_byte_required SL_WIN32_CP_UTF8 strict input = Some (Inl SL_ERROR_NO_UNICODE_TRANSLATION)"
  using u8to16.convert_stuck [of "\<not> strict" "length input" input None 0] assms
  by (simp add: multi_byte_required_def strict_or_lossy translation_errors)

lemma wide_char_utf8:
  assumes "3 * length input \<le> SIZE_MAX" "decodes utf16_units (\<not> strict) input cs"
  shows "wide_char_required SL_WIN32_CP_UTF8 strict input = Some (Inr (length (converted_bytes cs)))"
    and "length (converted_bytes cs) \<le> capacity \<Longrightarrow> capacity \<le> length d \<Longrightarrow>
      wide_char_write SL_WIN32_CP_UTF8 strict default_character used input (length (converted_bytes cs)) capacity d =
        Some (None, converted_bytes cs @ drop (length (converted_bytes cs)) d, None)"
proof -
  have d: "decodes utf16_units (\<not> strict) (take (length input) input) cs"
    using assms(2) by simp
  show "wide_char_required SL_WIN32_CP_UTF8 strict input = Some (Inr (length (converted_bytes cs)))"
    using u16to8.convert_decodes [OF d assms(1), of None 0]
    by (simp add: wide_char_required_def strict_or_lossy outcome_def u16to8.outs_def converted_bytes_def)
  show "wide_char_write SL_WIN32_CP_UTF8 strict default_character used input (length (converted_bytes cs)) capacity d =
      Some (None, converted_bytes cs @ drop (length (converted_bytes cs)) d, None)"
    if "length (converted_bytes cs) \<le> capacity" "capacity \<le> length d"
    using u16to8.convert_decodes [OF d assms(1), of "Some d" capacity] that
    by (simp add: wide_char_write_def strict_or_lossy outcome_def u16to8.outs_def converted_bytes_def)
qed

lemma wide_char_utf8_refused:
  assumes "3 * length input \<le> SIZE_MAX" "\<nexists>cs. decodes utf16_units (\<not> strict) input cs"
  shows "wide_char_required SL_WIN32_CP_UTF8 strict input = Some (Inl SL_ERROR_NO_UNICODE_TRANSLATION)"
  using u16to8.convert_stuck [of "\<not> strict" "length input" input None 0] assms
  by (simp add: wide_char_required_def strict_or_lossy translation_errors)

lemma page_write:
  "page \<noteq> SL_WIN32_CP_UTF8 \<Longrightarrow> length input \<le> length d \<Longrightarrow>
     multi_byte_write page strict input required capacity d = Some (None,
       map (\<lambda>byte. case single_byte_to_utf16 page byte of None \<Rightarrow> 0xfffd | Some unit \<Rightarrow> unit) input @ drop (length input) d, None)"
  by (simp add: multi_byte_write_def put_units_fits)

interpretation mb: text_conversion "\<lambda>(page, strict, input). 3 * length input \<le> SIZE_MAX"
  "\<lambda>(page, strict, input). multi_byte_required page strict input" "\<lambda>(page, strict, input). multi_byte_write page strict input"
proof (unfold_locales, goal_cases)
  case (1 i)
  obtain page strict input where i: "i = (page, strict, input)" by (cases i)
  have "3 * length input \<le> SIZE_MAX"
    using 1 by (simp add: i)
  then have "multi_byte_required SL_WIN32_CP_UTF8 strict input \<noteq> None"
    using multi_byte_utf8(1) multi_byte_utf8_refused by (metis option.distinct(1))
  moreover have "multi_byte_required page strict input \<noteq> None" if "page \<noteq> SL_WIN32_CP_UTF8"
    using that by (simp add: multi_byte_required_def)
  ultimately show ?case
    by (cases "page = SL_WIN32_CP_UTF8") (simp_all add: i)
next
  case (2 i required capacity d)
  obtain page strict input where i: "i = (page, strict, input)" by (cases i)
  show ?case
  proof (cases "page = SL_WIN32_CP_UTF8")
    case True
    then obtain cs where cs: "decodes utf8_bytes (\<not> strict) input cs"
      using 2(1,2) multi_byte_utf8_refused [of input strict] by (auto simp: i)
    note both = multi_byte_utf8 [OF _ this]
    show ?thesis
      using 2 both by (auto simp: i True)
  next
    case False
    then have "required = length input"
      using 2(2) by (simp add: i multi_byte_required_def split: if_splits)
    then show ?thesis
      using 2 page_write [OF False] by (simp add: i)
  qed
qed

interpretation wc: text_conversion "\<lambda>(page, strict, default_character, used, input). 3 * length input \<le> SIZE_MAX"
  "\<lambda>(page, strict, default_character, used, input). wide_char_required page strict input"
  "\<lambda>(page, strict, default_character, used, input). wide_char_write page strict default_character used input"
proof (unfold_locales, goal_cases)
  case (1 i)
  obtain page strict default_character used input where i: "i = (page, strict, default_character, used, input)" by (cases i)
  have "3 * length input \<le> SIZE_MAX"
    using 1 by (simp add: i)
  then have "wide_char_required SL_WIN32_CP_UTF8 strict input \<noteq> None"
    using wide_char_utf8(1) wide_char_utf8_refused by (metis option.distinct(1))
  moreover have "wide_char_required page strict input \<noteq> None" if "page \<noteq> SL_WIN32_CP_UTF8"
    using that by (simp add: wide_char_required_def single_byte_required_def Let_def)
  ultimately show ?case
    by (cases "page = SL_WIN32_CP_UTF8") (simp_all add: i)
next
  case (2 i required capacity d)
  obtain page strict default_character used input where i: "i = (page, strict, default_character, used, input)" by (cases i)
  show ?case
  proof (cases "page = SL_WIN32_CP_UTF8")
    case True
    then obtain cs where cs: "decodes utf16_units (\<not> strict) input cs"
      using 2(1,2) wide_char_utf8_refused [of input strict] by (auto simp: i)
    note both = wide_char_utf8 [OF _ this]
    show ?thesis
      using 2 both by (auto simp: i True)
  next
    case False
    then have r: "required = single_byte_output input 0 0"
      using 2(2) by (simp add: i wide_char_required_def single_byte_required_def Let_def split: if_splits)
    then have "single_byte_output input 0 0 \<le> length d"
      using 2(3,4) by simp
    then obtain bs flag where
        "single_byte_write page (case default_character of None \<Rightarrow> 0x3f | Some byte \<Rightarrow> byte) input 0 0 d False =
           Some (take 0 d @ bs @ drop (single_byte_output input 0 0) d, flag)" "0 + length bs = single_byte_output input 0 0"
      using single_byte_write_fits by blast
    then show ?thesis
      using False by (simp add: i r wide_char_write_def)
  qed
qed

section \<open>The conversions\<close>

lemma byte_source_length_bound:
  "byte_source_length src len = Some (Inr n) \<Longrightarrow> len \<le> int INT32_MAX \<Longrightarrow> n \<le> INT32_MAX"
  by (auto simp: byte_source_length_def split: option.splits if_splits)

lemma measure_units_bound: "measure_units k us = Some (Inr n) \<Longrightarrow> k < INT32_MAX \<Longrightarrow> n \<le> INT32_MAX"
  by (induction k us rule: measure_units.induct) (auto split: if_splits)

lemma wide_source_length_bound:
  "wide_source_length src len = Some (Inr n) \<Longrightarrow> len \<le> int INT32_MAX \<Longrightarrow> n \<le> INT32_MAX"
  using measure_units_bound [of 0] by (auto simp: wide_source_length_def INT32_MAX_def split: option.splits if_splits)

text \<open>A call with valid arguments is the conversion of what the source holds.\<close>

lemma multi_byte_query:
  assumes "sl_kernel32_multi_byte_to_wide_char page flags src len None 0 same = Some (answer (v, None))" "len \<le> int INT32_MAX"
  obtains p strict input where "3 * length input \<le> SIZE_MAX"
    "convert_into (multi_byte_required p strict input) (multi_byte_write p strict input) None 0 = Some (answer (v, None), None)"
    "\<And>d capacity. sl_kernel32_multi_byte_to_wide_char page flags src len (Some d) (int capacity) False =
       map_option fst (convert_into (multi_byte_required p strict input) (multi_byte_write p strict input) (Some d) (int capacity))"
proof -
  obtain n where n: "byte_source_length src len = Some (Inr n)" "\<not> length (the src) < n"
    using assms(1) by (auto simp: sl_kernel32_multi_byte_to_wide_char_def refuse_def answer_def Let_def
        split: if_splits option.splits sum.splits)
  let ?p = "normalize_code_page page" and ?strict = "flags AND SL_WIN32_MB_ERR_INVALID_CHARS \<noteq> 0" and ?input = "take n (the src)"
  have "length ?input \<le> INT32_MAX"
    using byte_source_length_bound [OF n(1) assms(2)] by simp
  then have size: "3 * length ?input \<le> SIZE_MAX"
    by (simp add: INT32_MAX_def)
  have valid: "flags AND NOT SL_WIN32_MB_ERR_INVALID_CHARS = 0" "?p = 437 \<or> ?p = 1252 \<or> ?p = SL_WIN32_CP_UTF8"
    using assms(1) by (auto simp: sl_kernel32_multi_byte_to_wide_char_def refuse_def answer_def Let_def split: if_splits)
  have call: "sl_kernel32_multi_byte_to_wide_char page flags src len d capacity same' =
      map_option fst (convert_into (multi_byte_required ?p ?strict ?input) (multi_byte_write ?p ?strict ?input) d capacity)"
    if "d = None \<longrightarrow> capacity = 0" "0 \<le> capacity" "d = None \<or> \<not> same'" for d capacity same'
    using that n valid by (simp add: sl_kernel32_multi_byte_to_wide_char_def Let_def) auto
  obtain x where x: "convert_into (multi_byte_required ?p ?strict ?input) (multi_byte_write ?p ?strict ?input) None 0 =
      Some (answer (v, None), x)"
    using assms(1) call [of None 0 same] by auto
  moreover have "x = None"
    using mb.query_answers [of "(?p, ?strict, ?input)", unfolded prod.case] x by blast
  ultimately show thesis
    using size call by (intro that) simp_all
qed

lemma wide_char_query:
  assumes "sl_kernel32_wide_char_to_multi_byte page flags src len None 0 dc used same = Some (answer (v, None), x)"
    and "len \<le> int INT32_MAX"
  obtains p strict input where "3 * length input \<le> SIZE_MAX"
    "convert_into (wide_char_required p strict input) (wide_char_write p strict dc used input) None 0 =
       Some (answer (v, None), x)"
    "\<And>d capacity. sl_kernel32_wide_char_to_multi_byte page flags src len (Some d) (int capacity) dc used False =
       convert_into (wide_char_required p strict input) (wide_char_write p strict dc used input) (Some d) (int capacity)"
proof -
  obtain n where n: "wide_source_length src len = Some (Inr n)" "\<not> length (the src) < n"
    using assms(1) by (auto simp: sl_kernel32_wide_char_to_multi_byte_def refuse_def answer_def Let_def
        split: if_splits option.splits sum.splits)
  let ?p = "normalize_code_page page" and ?strict = "flags AND SL_WIN32_WC_ERR_INVALID_CHARS \<noteq> 0" and ?input = "take n (the src)"
  have "length ?input \<le> INT32_MAX"
    using wide_source_length_bound [OF n(1) assms(2)] by simp
  then have size: "3 * length ?input \<le> SIZE_MAX"
    by (simp add: INT32_MAX_def)
  have valid: "\<not> (?p = SL_WIN32_CP_UTF8 \<and> flags AND NOT SL_WIN32_WC_ERR_INVALID_CHARS \<noteq> 0 \<or> ?p \<noteq> SL_WIN32_CP_UTF8 \<and> flags \<noteq> 0)"
      "?p = 437 \<or> ?p = 1252 \<or> ?p = SL_WIN32_CP_UTF8" "\<not> (?p = SL_WIN32_CP_UTF8 \<and> (dc \<noteq> None \<or> used))"
    using assms(1) by (auto simp: sl_kernel32_wide_char_to_multi_byte_def refuse_def answer_def Let_def split: if_splits)
  have call: "sl_kernel32_wide_char_to_multi_byte page flags src len d capacity dc used same' =
      convert_into (wide_char_required ?p ?strict ?input) (wide_char_write ?p ?strict dc used ?input) d capacity"
    if "d = None \<longrightarrow> capacity = 0" "0 \<le> capacity" "d = None \<or> \<not> same'" for d capacity same'
    using that n valid unfolding sl_kernel32_wide_char_to_multi_byte_def Let_def if_not_P [OF valid(1)] by auto
  show thesis
    using size call assms(1) by (intro that) simp_all
qed

text \<open>C35: the size query. What \<open>MultiByteToWideChar\<close> or \<open>WideCharToMultiByte\<close> answers for a destination of no
  capacity is what the same source needs: with that much room the conversion succeeds, stores exactly that many units
  from the start of the destination on and leaves what is behind them, and with less it is refused, with the
  destination as it was. That holds on every code page, for given and for terminated lengths, strict and lossy.\<close>

theorem conversion_sizes:
  assumes "len \<le> int INT32_MAX" "capacity \<le> length d" "capacity' \<le> length d'"
  shows "(sl_kernel32_multi_byte_to_wide_char page flags src len None 0 same = Some (answer (v, None)) \<longrightarrow>
      (int capacity \<ge> v \<longrightarrow> (\<exists>us. length us = nat v \<and>
         sl_kernel32_multi_byte_to_wide_char page flags src len (Some d) (int capacity) False =
           Some (answer (v, Some (us @ drop (nat v) d))))) \<and>
      (0 < capacity \<and> int capacity < v \<longrightarrow>
         sl_kernel32_multi_byte_to_wide_char page flags src len (Some d) (int capacity) False =
           Some (refuse (0, Some d) SL_ERROR_INSUFFICIENT_BUFFER))) \<and>
    (sl_kernel32_wide_char_to_multi_byte page flags src' len None 0 dc used same = Some (answer (v, None), x) \<longrightarrow>
      (int capacity' \<ge> v \<longrightarrow> (\<exists>bs x'. length bs = nat v \<and>
         sl_kernel32_wide_char_to_multi_byte page flags src' len (Some d') (int capacity') dc used False =
           Some (answer (v, Some (bs @ drop (nat v) d')), x'))) \<and>
      (0 < capacity' \<and> int capacity' < v \<longrightarrow>
         sl_kernel32_wide_char_to_multi_byte page flags src' len (Some d') (int capacity') dc used False =
           Some (refuse (0, Some d') SL_ERROR_INSUFFICIENT_BUFFER, None)))"
proof (intro conjI impI)
  assume query: "sl_kernel32_multi_byte_to_wide_char page flags src len None 0 same = Some (answer (v, None))"
  obtain p strict input where i: "3 * length input \<le> SIZE_MAX"
    "convert_into (multi_byte_required p strict input) (multi_byte_write p strict input) None 0 = Some (answer (v, None), None)"
    "\<And>d capacity. sl_kernel32_multi_byte_to_wide_char page flags src len (Some d) (int capacity) False =
       map_option fst (convert_into (multi_byte_required p strict input) (multi_byte_write p strict input) (Some d) (int capacity))"
    by (rule multi_byte_query [OF query assms(1)]) (rule that; assumption)
  note told = mb.query_tells_size [of "(p, strict, input)", unfolded prod.case, OF i(1,2) assms(2)]
  show "\<exists>us. length us = nat v \<and> sl_kernel32_multi_byte_to_wide_char page flags src len (Some d) (int capacity) False =
      Some (answer (v, Some (us @ drop (nat v) d)))" if "v \<le> int capacity"
    using told(1) [OF that] unfolding i(3) by (auto simp: answer_def)
  show "sl_kernel32_multi_byte_to_wide_char page flags src len (Some d) (int capacity) False =
      Some (refuse (0, Some d) SL_ERROR_INSUFFICIENT_BUFFER)" if "0 < capacity \<and> int capacity < v"
    using told(2) that unfolding i(3) by simp
next
  assume query: "sl_kernel32_wide_char_to_multi_byte page flags src' len None 0 dc used same = Some (answer (v, None), x)"
  obtain p strict input where i: "3 * length input \<le> SIZE_MAX"
    "convert_into (wide_char_required p strict input) (wide_char_write p strict dc used input) None 0 =
       Some (answer (v, None), x)"
    "\<And>d capacity. sl_kernel32_wide_char_to_multi_byte page flags src' len (Some d) (int capacity) dc used False =
       convert_into (wide_char_required p strict input) (wide_char_write p strict dc used input) (Some d) (int capacity)"
    by (rule wide_char_query [OF query assms(1)]) (rule that; assumption)
  note told = wc.query_tells_size [of "(p, strict, dc, used, input)", unfolded prod.case, OF i(1,2) assms(3)]
  show "\<exists>bs x'. length bs = nat v \<and>
      sl_kernel32_wide_char_to_multi_byte page flags src' len (Some d') (int capacity') dc used False =
      Some (answer (v, Some (bs @ drop (nat v) d')), x')" if "v \<le> int capacity'"
    using told(1) [OF that] unfolding i(3) .
  show "sl_kernel32_wide_char_to_multi_byte page flags src' len (Some d') (int capacity') dc used False =
      Some (refuse (0, Some d') SL_ERROR_INSUFFICIENT_BUFFER, None)" if "0 < capacity' \<and> int capacity' < v"
    using told(2) that unfolding i(3) by simp
qed

theorem conversion_sizes_witness:
  "(\<exists>us. length us = 2 \<and> sl_kernel32_multi_byte_to_wide_char 437 8 (Some [0x48, 0x80]) 2 (Some [1, 2, 7]) 3 False =
      Some (answer (2, Some (us @ [7])))) \<and>
   sl_kernel32_multi_byte_to_wide_char 437 8 (Some [0x48, 0x80]) 2 (Some [1, 2, 7]) 1 False =
     Some (refuse (0, Some [1, 2, 7]) SL_ERROR_INSUFFICIENT_BUFFER)"
proof -
  have query: "sl_kernel32_multi_byte_to_wide_char 437 8 (Some [0x48, 0x80]) 2 None 0 False = Some (answer (2, None))"
    by (simp add: sl_kernel32_multi_byte_to_wide_char_def normalize_code_page_def code_pages SL_WIN32_MB_ERR_INVALID_CHARS_def
        byte_source_length_def multi_byte_required_def single_byte_to_utf16_def convert_into_def INT32_MAX_def)
  have len: "2 \<le> int INT32_MAX"
    by (simp add: INT32_MAX_def)
  show ?thesis
    using conversion_sizes [OF len, of 3 "[1, 2, 7]" 0 "[]" 437 8 "Some [0x48, 0x80]" False 2 None None False None]
      conversion_sizes [OF len, of 1 "[1, 2, 7]" 0 "[]" 437 8 "Some [0x48, 0x80]" False 2 None None False None] query
    by simp
qed

section \<open>There and back\<close>

lemma accepted_units:
  assumes "sl_kernel32_multi_byte_to_wide_char page SL_WIN32_MB_ERR_INVALID_CHARS (Some bs) (int (length bs)) (Some d)
      (int capacity) False = Some (answer (v, Some us))"
    and "0 < capacity" "capacity \<le> length d" "length bs \<le> INT32_MAX"
  shows "normalize_code_page page = SL_WIN32_CP_UTF8 \<and> (\<exists>cs. decodes utf8_bytes False bs cs \<and>
        v = int (length (converted_units cs)) \<and> us = converted_units cs @ drop (length (converted_units cs)) d) \<or>
      (normalize_code_page page = 437 \<or> normalize_code_page page = 1252) \<and>
        (\<exists>ws. page_text (normalize_code_page page) bs ws \<and> v = int (length ws) \<and> us = ws @ drop (length ws) d)"
    and "v > 0" "bs \<noteq> []"
proof -
  let ?p = "normalize_code_page page"
  have valid: "?p = 437 \<or> ?p = 1252 \<or> ?p = SL_WIN32_CP_UTF8" "bs \<noteq> []"
    using assms(1) by (auto simp: sl_kernel32_multi_byte_to_wide_char_def byte_source_length_def refuse_def answer_def Let_def
        split: if_splits)
  have "map_option fst (convert_into (multi_byte_required ?p True bs) (multi_byte_write ?p True bs) (Some d) (int capacity)) =
      Some (answer (v, Some us))"
    using assms(1) valid by (simp add: sl_kernel32_multi_byte_to_wide_char_def byte_source_length_def
        SL_WIN32_MB_ERR_INVALID_CHARS_def Let_def split: if_splits)
  then obtain x where conv:
    "convert_into (multi_byte_required ?p True bs) (multi_byte_write ?p True bs) (Some d) (int capacity) = Some (answer (v, Some us), x)"
    by auto
  then obtain r where r: "multi_byte_required ?p True bs = Some (Inr r)" "r \<le> INT32_MAX" "r \<le> capacity" "v = int r"
      "multi_byte_write ?p True bs r capacity d = Some (None, us, x)"
    using assms(2) by (auto simp: convert_into_def refuse_def answer_def split: option.splits sum.splits if_splits)
  have size: "3 * length bs \<le> SIZE_MAX"
    using assms(4) by (simp add: INT32_MAX_def)
  have utf8: "\<exists>cs. decodes utf8_bytes False bs cs \<and> r = length (converted_units cs) \<and> 0 < r \<and>
      us = converted_units cs @ drop (length (converted_units cs)) d" if "?p = SL_WIN32_CP_UTF8"
  proof -
    note p = that
    obtain cs where cs: "decodes utf8_bytes False bs cs"
      using multi_byte_utf8_refused [of bs True] r(1) size p by auto
    then have "cs \<noteq> []"
      using valid(2) utf8.decodes_strict [of bs cs] by auto
    then have "0 < length (converted_units cs)"
      by (cases cs) (simp_all add: converted_units_def utf16_codepoint_size_def)
    then show ?thesis
      using multi_byte_utf8(1) [of bs True cs] multi_byte_utf8(2) [of bs True cs capacity d] cs r assms(3) size p by auto
  qed
  have page: "\<exists>ws. page_text ?p bs ws \<and> r = length ws \<and> 0 < r \<and> us = ws @ drop (length ws) d" if "?p = 437 \<or> ?p = 1252"
  proof -
    have other: "?p \<noteq> SL_WIN32_CP_UTF8"
      using that by (auto simp: code_pages)
    then have all: "r = length bs" "\<forall>byte \<in> set bs. single_byte_to_utf16 ?p byte \<noteq> None"
      using r(1) by (auto simp: multi_byte_required_def list_ex_iff split: if_splits)
    let ?ws = "map (\<lambda>byte. case single_byte_to_utf16 ?p byte of None \<Rightarrow> 0xfffd | Some unit \<Rightarrow> unit) bs"
    have "page_text ?p bs ?ws"
      using all(2) nth_mem by (fastforce simp: page_text_def list_all2_conv_all_nth)
    moreover have "us = ?ws @ drop (length ?ws) d"
      using r(3,5) page_write [OF other, of bs d] assms(3) all(1) by simp
    ultimately show ?thesis
      using all(1) valid(2) by (intro exI [of _ ?ws]) simp
  qed
  show "v > 0" "bs \<noteq> []"
    using utf8 page valid r(4) by auto
  show "?p = SL_WIN32_CP_UTF8 \<and> (\<exists>cs. decodes utf8_bytes False bs cs \<and>
        v = int (length (converted_units cs)) \<and> us = converted_units cs @ drop (length (converted_units cs)) d) \<or>
      (?p = 437 \<or> ?p = 1252) \<and>
        (\<exists>ws. page_text ?p bs ws \<and> v = int (length ws) \<and> us = ws @ drop (length ws) d)"
  proof (cases "?p = SL_WIN32_CP_UTF8")
    case True
    show ?thesis
      using utf8 [OF True] True r(4) by (intro disjI1 conjI) auto
  next
    case False
    then have p: "?p = 437 \<or> ?p = 1252"
      using valid(1) by simp
    obtain ws where "page_text ?p bs ws" "r = length ws" "us = ws @ drop (length ws) d"
      using page [OF p] by blast
    then show ?thesis
      using r(4) by (intro disjI2 conjI [OF p] exI [of _ ws]) simp
  qed
qed

text \<open>C36: what \<open>MultiByteToWideChar\<close> accepts, asked to refuse invalid bytes, \<open>WideCharToMultiByte\<close> gives back: from the
  units that the first stored the second stores the very bytes they were made from and their number, on every code page
  that is supported, in UTF-8 asked to refuse invalid units and otherwise without ever using the default character.\<close>

theorem accepted_text_converts_back:
  assumes accepted: "sl_kernel32_multi_byte_to_wide_char page SL_WIN32_MB_ERR_INVALID_CHARS (Some bs) (int (length bs)) (Some d)
      (int capacity) False = Some (answer (v, Some us))"
    and room: "0 < capacity" "capacity \<le> length d" "length bs \<le> INT32_MAX"
    and room_back: "length bs \<le> capacity'" "capacity' \<le> length b"
  defines "is_utf8 \<equiv> normalize_code_page page = SL_WIN32_CP_UTF8"
  shows "sl_kernel32_wide_char_to_multi_byte page (if is_utf8 then SL_WIN32_WC_ERR_INVALID_CHARS else 0) (Some us) v (Some b)
      (int capacity') None (\<not> is_utf8) False =
    Some (answer (int (length bs), Some (bs @ drop (length bs) b)), if is_utf8 then None else Some False)"
proof -
  let ?p = "normalize_code_page page"
  note v = accepted_units [OF accepted room]
  have cap: "capacity' \<noteq> 0"
    using room_back(1) v(3) by (cases bs) auto
  show ?thesis
  proof (cases is_utf8)
    case True
    then obtain cs where cs: "decodes utf8_bytes False bs cs" "v = int (length (converted_units cs))"
        "us = converted_units cs @ drop (length (converted_units cs)) d"
      using v(1) by (auto simp: is_utf8_def code_pages)
    then have bytes: "bs = converted_bytes cs" "decodes utf16_units (\<not> True) (converted_units cs) cs"
      by (simp_all add: utf8.decodes_strict utf16.decodes_strict converted_bytes_def converted_units_def)
    have "length (converted_units cs) \<le> length bs"
      unfolding bytes(1) using utf16_total_le_utf8 by (simp add: converted_bytes_def converted_units_def)
    then have size: "3 * length (converted_units cs) \<le> SIZE_MAX"
      using room(3) by (simp add: INT32_MAX_def)
    note conv = wide_char_utf8 [OF size bytes(2)]
    have "sl_kernel32_wide_char_to_multi_byte page SL_WIN32_WC_ERR_INVALID_CHARS (Some us) v (Some b) (int capacity') None False False =
        convert_into (wide_char_required SL_WIN32_CP_UTF8 True (converted_units cs))
          (wide_char_write SL_WIN32_CP_UTF8 True None False (converted_units cs)) (Some b) (int capacity')"
      using True v(2) cs(2,3) by (simp add: sl_kernel32_wide_char_to_multi_byte_def is_utf8_def wide_source_length_def
          SL_WIN32_WC_ERR_INVALID_CHARS_def Let_def)
    then show ?thesis
      using True cap conv room(3) room_back by (simp add: convert_into_def bytes(1) [symmetric])
  next
    case False
    then obtain ws where ws: "page_text ?p bs ws" "v = int (length ws)" "us = ws @ drop (length ws) d" and p: "?p = 437 \<or> ?p = 1252"
      using v(1) by (auto simp: is_utf8_def)
    have len: "length ws = length bs"
      using ws(1) by (simp add: page_text_def list_all2_lengthD)
    have "sl_kernel32_wide_char_to_multi_byte page 0 (Some us) v (Some b) (int capacity') None True False =
        convert_into (single_byte_required ws) (wide_char_write ?p False None True ws) (Some b) (int capacity')"
      using False v(2) ws(2,3) p by (simp add: sl_kernel32_wide_char_to_multi_byte_def is_utf8_def wide_source_length_def
          wide_char_required_def Let_def) (auto simp: wide_source_length_def wide_char_required_def Let_def)
    moreover have "single_byte_required ws = Some (Inr (length bs))"
      using page_text_output [OF ws(1) p, of 0 0] len room(3) by (simp add: single_byte_required_def)
    moreover have "wide_char_write ?p False None True ws (length bs) capacity' b = Some (None, bs @ drop (length bs) b, Some False)"
      using page_text_write [OF ws(1) p, of 0 b _ False] False room_back len by (simp add: wide_char_write_def is_utf8_def)
    ultimately show ?thesis
      using False cap room(3) room_back(1) by (simp add: convert_into_def)
  qed
qed

theorem accepted_text_converts_back_witness:
  "sl_kernel32_wide_char_to_multi_byte 1 0 (Some [0x48, 0xc7, 9]) 2 (Some [1, 2, 3]) 3 None True False =
     Some (answer (2, Some [0x48, 0x80, 3]), Some False)"
proof -
  have utf8: "normalize_code_page 1 \<noteq> SL_WIN32_CP_UTF8"
    by (simp add: normalize_code_page_def code_pages)
  have "sl_kernel32_multi_byte_to_wide_char 1 SL_WIN32_MB_ERR_INVALID_CHARS (Some [0x48, 0x80]) (int (length [0x48, 0x80 :: u8]))
      (Some [7, 8, 9]) (int 3) False = Some (answer (2, Some [0x48, 0xc7, 9]))"
    by (simp add: sl_kernel32_multi_byte_to_wide_char_def normalize_code_page_def code_pages SL_WIN32_MB_ERR_INVALID_CHARS_def
        byte_source_length_def multi_byte_required_def multi_byte_write_def single_byte_to_utf16_def convert_into_def
        INT32_MAX_def sl_cp437_extension_def)
  from accepted_text_converts_back [OF this, of 3 "[1, 2, 3]"] utf8 show ?thesis
    by (simp add: INT32_MAX_def)
qed

end
