(* ===== verification/Kernel32_Locale.thy ===== *)
theory Kernel32_Locale
  imports Kernel32_Text
begin

text \<open>
  \<open>src/kernel32.c\<close>, the locale functions: the classes of characters, the mapping of case and the description of a code
  page. Buffers are as in \<open>Kernel32_Text\<close>; a source and a destination that overlap are not modelled unless they are
  the same.
\<close>

section \<open>Constants\<close>

definition SL_WIN32_CT_CTYPE1 :: u32 where "SL_WIN32_CT_CTYPE1 = 1"
definition SL_WIN32_C1_UPPER :: u16 where "SL_WIN32_C1_UPPER = 0x1"
definition SL_WIN32_C1_LOWER :: u16 where "SL_WIN32_C1_LOWER = 0x2"
definition SL_WIN32_C1_DIGIT :: u16 where "SL_WIN32_C1_DIGIT = 0x4"
definition SL_WIN32_C1_SPACE :: u16 where "SL_WIN32_C1_SPACE = 0x8"
definition SL_WIN32_C1_PUNCT :: u16 where "SL_WIN32_C1_PUNCT = 0x10"
definition SL_WIN32_C1_CNTRL :: u16 where "SL_WIN32_C1_CNTRL = 0x20"
definition SL_WIN32_C1_BLANK :: u16 where "SL_WIN32_C1_BLANK = 0x40"
definition SL_WIN32_C1_XDIGIT :: u16 where "SL_WIN32_C1_XDIGIT = 0x80"
definition SL_WIN32_C1_ALPHA :: u16 where "SL_WIN32_C1_ALPHA = 0x100"
definition SL_WIN32_C1_DEFINED :: u16 where "SL_WIN32_C1_DEFINED = 0x200"
definition SL_WIN32_LCMAP_LOWERCASE :: u32 where "SL_WIN32_LCMAP_LOWERCASE = 0x100"
definition SL_WIN32_LCMAP_UPPERCASE :: u32 where "SL_WIN32_LCMAP_UPPERCASE = 0x200"

section \<open>Characters\<close>

definition locale_source_length :: "u16 list option \<Rightarrow> int \<Rightarrow> (u32 + nat) option" where
  "locale_source_length source source_length =
     (case source of
        None \<Rightarrow> Some (Inl SL_ERROR_INVALID_PARAMETER)
      | Some memory \<Rightarrow>
          if source_length = 0 then Some (Inl SL_ERROR_INVALID_PARAMETER)
          else if source_length < 0 then measure_units 0 memory
          else Some (Inr (nat source_length)))"

definition supported_units :: "u16 list" where
  "supported_units = [0x0152, 0x0153, 0x0160, 0x0161, 0x0178, 0x017d, 0x017e, 0x0192, 0x02c6, 0x02dc, 0x2013, 0x2014,
     0x2018, 0x2019, 0x201a, 0x201c, 0x201d, 0x201e, 0x2020, 0x2021, 0x2022, 0x2026, 0x2030, 0x2039, 0x203a, 0x20ac, 0x2122]"

definition is_supported_ctype1_unit :: "u16 \<Rightarrow> bool" where
  "is_supported_ctype1_unit unit \<longleftrightarrow> unit \<le> 0xff \<or> unit \<in> set supported_units"

definition between :: "u16 \<Rightarrow> u16 \<Rightarrow> u16 \<Rightarrow> bool" where
  "between low high unit \<longleftrightarrow> unit \<ge> low \<and> unit \<le> high"

definition classify_ctype1 :: "u16 \<Rightarrow> u16" where
  "classify_ctype1 unit =
     (let ascii_upper = between 0x41 0x5a unit;
          ascii_lower = between 0x61 0x7a unit;
          latin_upper = between 0xc0 0xd6 unit \<or> between 0xd8 0xde unit \<or> unit = 0x152 \<or> unit = 0x160 \<or> unit = 0x178 \<or>
            unit = 0x17d;
          latin_lower = unit = 0xaa \<or> unit = 0xb5 \<or> unit = 0xba \<or> between 0xdf 0xf6 unit \<or> between 0xf8 0xff unit \<or>
            unit = 0x153 \<or> unit = 0x161 \<or> unit = 0x17e \<or> unit = 0x192;
          digit = between 0x30 0x39 unit;
          control = unit \<le> 0x1f \<or> between 0x7f 0x9f unit;
          space = unit = 0x20 \<or> between 0x9 0xd unit \<or> unit = 0x85 \<or> unit = 0xa0;
          blank = unit = 0x20 \<or> unit = 0x9 \<or> unit = 0xa0;
          punctuation = between 0x21 0x2f unit \<or> between 0x3a 0x40 unit \<or> between 0x5b 0x60 unit \<or>
            between 0x7b 0x7e unit \<or> unit \<ge> 0xa1 \<and> \<not> latin_upper \<and> \<not> latin_lower \<and> \<not> space;
          hex_digit = digit \<or> between 0x41 0x46 unit \<or> between 0x61 0x66 unit;
          is_defined = \<not> between 0xd800 0xdfff unit \<and> unit \<noteq> 0xfffe \<and> unit \<noteq> 0xffff;
          result = (if ascii_upper \<or> latin_upper then SL_WIN32_C1_UPPER OR SL_WIN32_C1_ALPHA else 0) OR
            (if ascii_lower \<or> latin_lower then SL_WIN32_C1_LOWER OR SL_WIN32_C1_ALPHA else 0) OR
            (if digit then SL_WIN32_C1_DIGIT else 0) OR
            (if space then SL_WIN32_C1_SPACE else 0) OR
            (if punctuation then SL_WIN32_C1_PUNCT else 0) OR
            (if control then SL_WIN32_C1_CNTRL else 0) OR
            (if blank then SL_WIN32_C1_BLANK else 0) OR
            (if hex_digit then SL_WIN32_C1_XDIGIT else 0)
      in if is_defined \<and> result = 0 then SL_WIN32_C1_DEFINED else result)"

text \<open>The value and the stored classes.\<close>

definition sl_kernel32_get_string_type_w ::
    "u32 \<Rightarrow> u16 list option \<Rightarrow> int \<Rightarrow> u16 list option \<Rightarrow> bool \<Rightarrow> (bool \<times> u16 list option) api option" where
  "sl_kernel32_get_string_type_w information_type source source_length character_types same =
     (if information_type \<noteq> SL_WIN32_CT_CTYPE1 then Some (refuse (False, character_types) SL_ERROR_INVALID_FLAGS)
      else if character_types = None \<or> same then Some (refuse (False, character_types) SL_ERROR_INVALID_PARAMETER)
      else case locale_source_length source source_length of
             None \<Rightarrow> None
           | Some (Inl error) \<Rightarrow> Some (refuse (False, character_types) error)
           | Some (Inr n) \<Rightarrow>
               if length (the source) < n then None
               else let input = take n (the source)
                    in if \<not> list_all is_supported_ctype1_unit input
                       then Some (refuse (False, character_types) SL_ERROR_NO_UNICODE_TRANSLATION)
                       else map_option (\<lambda>(types, _). answer (True, Some types))
                              (put_units (the character_types) 0 (map classify_ctype1 input)))"

section \<open>Case\<close>

definition map_simple_case :: "u16 \<Rightarrow> bool \<Rightarrow> u16" where
  "map_simple_case unit uppercase =
     (if uppercase
      then if between 0x61 0x7a unit then unit - (0x61 - 0x41)
           else if between 0xe0 0xf6 unit \<or> between 0xf8 0xfe unit then unit - 0x20
           else if unit = 0x153 \<or> unit = 0x161 \<or> unit = 0x17e then unit - 1
           else if unit = 0xff then 0x178 else unit
      else if between 0x41 0x5a unit then unit + (0x61 - 0x41)
           else if between 0xc0 0xd6 unit \<or> between 0xd8 0xde unit then unit + 0x20
           else if unit = 0x152 \<or> unit = 0x160 \<or> unit = 0x17d then unit + 1
           else if unit = 0x178 then 0xff else unit)"

definition is_supported_lcid :: "u32 \<Rightarrow> bool" where
  "is_supported_lcid lcid \<longleftrightarrow> lcid = 0x7f \<or> lcid = 0x400 \<or> lcid = 0x800 \<or> lcid = 0x409 \<or> lcid = 0x416"

text \<open>When the destination is the source (\<open>same\<close>) its units are read before they are stored: the result is the same as
  for buffers apart.\<close>

definition sl_kernel32_lc_map_string_w ::
    "u32 \<Rightarrow> u32 \<Rightarrow> u16 list option \<Rightarrow> int \<Rightarrow> u16 list option \<Rightarrow> int \<Rightarrow> (int \<times> u16 list option) api option" where
  "sl_kernel32_lc_map_string_w lcid flags source source_length destination destination_capacity =
     (if flags \<noteq> SL_WIN32_LCMAP_LOWERCASE \<and> flags \<noteq> SL_WIN32_LCMAP_UPPERCASE
      then Some (refuse (0, destination) SL_ERROR_INVALID_FLAGS)
      else if \<not> is_supported_lcid lcid \<or> destination_capacity < 0 \<or> destination = None \<and> destination_capacity \<noteq> 0
      then Some (refuse (0, destination) SL_ERROR_INVALID_PARAMETER)
      else case locale_source_length source source_length of
             None \<Rightarrow> None
           | Some (Inl error) \<Rightarrow> Some (refuse (0, destination) error)
           | Some (Inr n) \<Rightarrow>
               if length (the source) < n then None
               else let input = take n (the source)
                    in if \<not> list_all is_supported_ctype1_unit input
                       then Some (refuse (0, destination) SL_ERROR_NO_UNICODE_TRANSLATION)
                       else if destination_capacity = 0 then Some (answer (int n, destination))
                       else if nat destination_capacity < n then Some (refuse (0, destination) SL_ERROR_INSUFFICIENT_BUFFER)
                       else map_option (\<lambda>(units, _). answer (int n, Some units))
                              (put_units (the destination) 0
                                (map (\<lambda>unit. map_simple_case unit (flags = SL_WIN32_LCMAP_UPPERCASE)) input)))"

section \<open>Code pages\<close>

record sl_cp_info =
  ci_max_char_size :: u32
  ci_default_char :: bytes
  ci_lead_byte :: bytes

text \<open>The value and what is stored; \<open>info\<close> says whether there is a place for it.\<close>

definition sl_kernel32_get_cp_info :: "u32 \<Rightarrow> bool \<Rightarrow> (bool \<times> sl_cp_info option) api" where
  "sl_kernel32_get_cp_info page info =
     (if \<not> info \<or> \<not> sl_kernel32_is_valid_code_page page then refuse (False, None) SL_ERROR_INVALID_PARAMETER
      else answer (True, Some \<lparr>ci_max_char_size = if page = 65001 then 4 else 1, ci_default_char = [0x3f, 0],
             ci_lead_byte = replicate 12 0\<rparr>))"

section \<open>What mapping the case keeps\<close>

text \<open>A unit mapped twice is the unit mapped once, and the case of a mapped unit can be mapped again.\<close>

lemma between_nat: "between low high unit \<longleftrightarrow> unat low \<le> unat unit \<and> unat unit \<le> unat high"
  by (simp add: between_def word_le_nat_alt)

lemma unit_shift:
  "1 \<le> unat unit \<Longrightarrow> unat (unit - 1 :: u16) = unat unit - 1" "32 \<le> unat unit \<Longrightarrow> unat (unit - 0x20 :: u16) = unat unit - 32"
  "unat unit < 65535 \<Longrightarrow> unat (unit + 1 :: u16) = unat unit + 1" "unat unit < 65504 \<Longrightarrow> unat (unit + 0x20 :: u16) = unat unit + 32"
  by (simp_all add: unat_sub word_le_nat_alt unat_word_ariths)

definition case_number :: "nat \<Rightarrow> bool \<Rightarrow> nat" where
  "case_number n uppercase =
     (if uppercase
      then if 97 \<le> n \<and> n \<le> 122 then n - 32
           else if 224 \<le> n \<and> n \<le> 246 \<or> 248 \<le> n \<and> n \<le> 254 then n - 32
           else if n = 339 \<or> n = 353 \<or> n = 382 then n - 1 else if n = 255 then 376 else n
      else if 65 \<le> n \<and> n \<le> 90 then n + 32
           else if 192 \<le> n \<and> n \<le> 214 \<or> 216 \<le> n \<and> n \<le> 222 then n + 32
           else if n = 338 \<or> n = 352 \<or> n = 381 then n + 1 else if n = 376 then 255 else n)"

lemma unit_numbers:
  "unit = 0x153 \<longleftrightarrow> unat unit = 339" "unit = 0x161 \<longleftrightarrow> unat unit = 353" "unit = 0x17e \<longleftrightarrow> unat unit = 382"
  "unit = 0xff \<longleftrightarrow> unat unit = 255" "unit = 0x152 \<longleftrightarrow> unat unit = 338" "unit = 0x160 \<longleftrightarrow> unat unit = 352"
  "unit = 0x17d \<longleftrightarrow> unat unit = 381" "unit = 0x178 \<longleftrightarrow> unat unit = 376" for unit :: u16
  by (simp_all add: word_unat_eq_iff)

lemma unit_ranges:
  "between 0x61 0x7a unit \<longleftrightarrow> 97 \<le> unat unit \<and> unat unit \<le> 122" "between 0xe0 0xf6 unit \<longleftrightarrow> 224 \<le> unat unit \<and> unat unit \<le> 246"
  "between 0xf8 0xfe unit \<longleftrightarrow> 248 \<le> unat unit \<and> unat unit \<le> 254" "between 0x41 0x5a unit \<longleftrightarrow> 65 \<le> unat unit \<and> unat unit \<le> 90"
  "between 0xc0 0xd6 unit \<longleftrightarrow> 192 \<le> unat unit \<and> unat unit \<le> 214" "between 0xd8 0xde unit \<longleftrightarrow> 216 \<le> unat unit \<and> unat unit \<le> 222"
  by (simp_all add: between_nat)

lemma shift_numbers:
  "97 \<le> unat unit \<and> unat unit \<le> 122 \<Longrightarrow> unat (unit - (0x61 - 0x41)) = unat unit - 32"
  "224 \<le> unat unit \<and> unat unit \<le> 246 \<or> 248 \<le> unat unit \<and> unat unit \<le> 254 \<Longrightarrow> unat (unit - 0x20) = unat unit - 32"
  "unat unit = 339 \<or> unat unit = 353 \<or> unat unit = 382 \<Longrightarrow> unat (unit - 1) = unat unit - 1"
  "65 \<le> unat unit \<and> unat unit \<le> 90 \<Longrightarrow> unat (unit + (0x61 - 0x41)) = unat unit + 32"
  "192 \<le> unat unit \<and> unat unit \<le> 214 \<or> 216 \<le> unat unit \<and> unat unit \<le> 222 \<Longrightarrow> unat (unit + 0x20) = unat unit + 32"
  "unat unit = 338 \<or> unat unit = 352 \<or> unat unit = 381 \<Longrightarrow> unat (unit + 1) = unat unit + 1" for unit :: u16
  by (auto simp: unit_shift)

lemma unat_map_simple_case: "unat (map_simple_case unit uppercase) = case_number (unat unit) uppercase"
proof -
  have "unat (0x178 :: u16) = 376" "unat (0xff :: u16) = 255"
    by simp_all
  then show ?thesis
    unfolding map_simple_case_def case_number_def unit_ranges unit_numbers if_distrib [of unat]
    by (simp only: shift_numbers cong: if_cong)
qed

lemma case_number_lands:
  "case_number n uppercase = n \<or> (if uppercase then 65 \<le> case_number n True \<and> case_number n True \<le> 90 \<or>
     192 \<le> case_number n True \<and> case_number n True \<le> 222 \<or> case_number n True \<in> {338, 352, 376, 381}
   else 97 \<le> case_number n False \<and> case_number n False \<le> 122 \<or> 224 \<le> case_number n False \<and> case_number n False \<le> 255 \<or>
     case_number n False \<in> {339, 353, 382})"
  by (cases uppercase) (simp_all add: case_number_def, presburger)

lemma case_number_stays:
  "65 \<le> m \<and> m \<le> 90 \<or> 192 \<le> m \<and> m \<le> 222 \<or> m \<in> {338, 352, 376, 381} \<Longrightarrow> case_number m True = m"
  "97 \<le> m \<and> m \<le> 122 \<or> 224 \<le> m \<and> m \<le> 255 \<or> m \<in> {339, 353, 382} \<Longrightarrow> case_number m False = m"
  by (elim disjE; simp add: case_number_def; linarith?)+

lemma case_number_idem: "case_number (case_number n uppercase) uppercase = case_number n uppercase"
  using case_number_lands [of n uppercase] case_number_stays [of "case_number n uppercase"] by (cases uppercase) metis+

lemma map_simple_case_idem: "map_simple_case (map_simple_case unit uppercase) uppercase = map_simple_case unit uppercase"
  by (simp add: word_unat_eq_iff unat_map_simple_case case_number_idem)

text \<open>So is the support: a text that was mapped is accepted by every function again.\<close>

definition supported_numbers :: "nat list" where "supported_numbers = map unat supported_units"

lemma supported_nat: "is_supported_ctype1_unit unit \<longleftrightarrow> unat unit \<le> 255 \<or> unat unit \<in> set supported_numbers"
proof -
  have "unit \<in> set supported_units" if "unat unit = unat u" "u \<in> set supported_units" for u
    using that by (metis word_unat_eq_iff)
  then show ?thesis
    by (auto simp: supported_numbers_def is_supported_ctype1_unit_def word_le_nat_alt)
qed

lemma supported_numbers_eq: "supported_numbers = [338, 339, 352, 353, 376, 381, 382, 402, 710, 732, 8211, 8212, 8216, 8217,
    8218, 8220, 8221, 8222, 8224, 8225, 8226, 8230, 8240, 8249, 8250, 8364, 8482]"
  by (simp add: supported_numbers_def supported_units_def)

lemma supported_case:
  assumes "n \<le> 255 \<or> n \<in> set supported_numbers"
  shows "case_number n uppercase \<le> 255 \<or> case_number n uppercase \<in> set supported_numbers"
proof (cases "n \<le> 255")
  case True
  then have "case_number n uppercase \<le> 255 \<or> case_number n uppercase = 376"
    by (cases uppercase) (auto simp: case_number_def)
  then show ?thesis
    by (auto simp: supported_numbers_eq)
next
  case False
  have "list_all (\<lambda>n. case_number n uppercase \<le> 255 \<or> case_number n uppercase \<in> set supported_numbers) supported_numbers"
    by (cases uppercase) (simp_all add: supported_numbers_eq case_number_def)
  then show ?thesis
    using False assms by (simp add: list_all_iff)
qed

lemma map_simple_case_supported:
  "is_supported_ctype1_unit unit \<Longrightarrow> is_supported_ctype1_unit (map_simple_case unit uppercase)"
  unfolding supported_nat unat_map_simple_case by (rule supported_case)

end
