(* ===== verification/Host_File.thy ===== *)
theory Host_File
  imports Search
begin

text \<open>
  \<open>src/file.c\<close>: files over host descriptors. The host's calls are the fields of \<open>file_host\<close>, over a state \<open>'w\<close> of the
  host: a call that fails gives \<open>Inl\<close> of its \<open>errno\<close>. An operation answers with the status, the value it stores and the
  error it stores through \<open>host_error\<close> where that is given; 0 is no error. A file is \<open>None\<close> where the code has a null
  pointer, \<open>out\<close> says whether the out pointer is given.
\<close>

section \<open>Types and constants\<close>

definition SL_WIN32_GENERIC_READ :: u32 where "SL_WIN32_GENERIC_READ = 0x80000000"
definition SL_WIN32_GENERIC_WRITE :: u32 where "SL_WIN32_GENERIC_WRITE = 0x40000000"

definition SL_WIN32_FILE_TYPE_DISK :: nat where "SL_WIN32_FILE_TYPE_DISK = 1"
definition SL_WIN32_FILE_TYPE_CHAR :: nat where "SL_WIN32_FILE_TYPE_CHAR = 2"

datatype (plugins only: code size) sl_win32_file_seek_origin =
    SL_WIN32_FILE_SEEK_BEGIN | SL_WIN32_FILE_SEEK_CURRENT | SL_WIN32_FILE_SEEK_END

definition EBADF :: int where "EBADF = 9"
definition EACCES :: int where "EACCES = 13"
definition ESPIPE :: int where "ESPIPE = 29"
definition STDOUT_FILENO :: int where "STDOUT_FILENO = 1"

record sl_win32_file =
  fl_fd :: int
  fl_desired_access :: u32
  fl_type :: nat

record 'w file_host =
  fh_write :: "'w \<Rightarrow> int \<Rightarrow> bytes \<Rightarrow> (int + nat) \<times> 'w"
  fh_lseek :: "'w \<Rightarrow> int \<Rightarrow> int \<Rightarrow> sl_win32_file_seek_origin \<Rightarrow> (int + nat) \<times> 'w"
  fh_fsync :: "'w \<Rightarrow> int \<Rightarrow> (int + unit) \<times> 'w"
  fh_duplicate :: "'w \<Rightarrow> int \<Rightarrow> (int + int) \<times> 'w"
  fh_close :: "'w \<Rightarrow> int \<Rightarrow> 'w"

section \<open>Making and destroying files\<close>

definition file_type_is_valid :: "nat \<Rightarrow> bool" where
  "file_type_is_valid t \<longleftrightarrow> t = SL_WIN32_FILE_TYPE_DISK \<or> t = SL_WIN32_FILE_TYPE_CHAR"

definition access_is_valid :: "u32 \<Rightarrow> bool" where
  "access_is_valid desired_access \<longleftrightarrow> desired_access AND NOT (SL_WIN32_GENERIC_READ OR SL_WIN32_GENERIC_WRITE) = 0"

text \<open>\<open>allocated\<close> says whether \<open>calloc\<close> succeeds.\<close>

definition sl_win32_file_create_owned_fd ::
    "bool \<Rightarrow> int \<Rightarrow> u32 \<Rightarrow> nat \<Rightarrow> bool \<Rightarrow> sl_status \<times> sl_win32_file option" where
  "sl_win32_file_create_owned_fd allocated fd desired_access t out =
     (if fd < 0 \<or> \<not> access_is_valid desired_access \<or> \<not> file_type_is_valid t \<or> \<not> out
      then (SL_ERROR_INVALID_ARGUMENT, None)
      else if \<not> allocated then (SL_ERROR_OUT_OF_MEMORY, None)
      else (SL_OK, Some \<lparr>fl_fd = fd, fl_desired_access = desired_access, fl_type = t\<rparr>))"

definition sl_win32_file_open_console_output ::
    "'w file_host \<Rightarrow> bool \<Rightarrow> 'w \<Rightarrow> bool \<Rightarrow> (sl_status \<times> sl_win32_file option \<times> int) \<times> 'w" where
  "sl_win32_file_open_console_output host allocated w out =
     (if \<not> out then ((SL_ERROR_INVALID_ARGUMENT, None, 0), w)
      else case fh_duplicate host w STDOUT_FILENO of
             (Inl e, w) \<Rightarrow> ((SL_ERROR_IO, None, e), w)
           | (Inr fd, w) \<Rightarrow>
               (case sl_win32_file_create_owned_fd allocated fd SL_WIN32_GENERIC_WRITE SL_WIN32_FILE_TYPE_CHAR out of
                  (status, file) \<Rightarrow>
                    ((status, file, 0), if status \<noteq> SL_OK then fh_close host w fd else w)))"

definition sl_win32_file_destroy :: "'w file_host \<Rightarrow> sl_win32_file option \<Rightarrow> 'w \<Rightarrow> 'w" where
  "sl_win32_file_destroy host opaque w =
     (case opaque of None \<Rightarrow> w | Some f \<Rightarrow> if fl_fd f \<ge> 0 then fh_close host w (fl_fd f) else w)"

definition sl_win32_file_get_type :: "sl_win32_file option \<Rightarrow> nat" where
  "sl_win32_file_get_type file = (case file of None \<Rightarrow> 0 | Some f \<Rightarrow> fl_type f)"

definition sl_win32_file_can_read :: "sl_win32_file option \<Rightarrow> bool" where
  "sl_win32_file_can_read file \<longleftrightarrow>
     (case file of None \<Rightarrow> False | Some f \<Rightarrow> fl_desired_access f AND SL_WIN32_GENERIC_READ \<noteq> 0)"

definition sl_win32_file_can_write :: "sl_win32_file option \<Rightarrow> bool" where
  "sl_win32_file_can_write file \<longleftrightarrow>
     (case file of None \<Rightarrow> False | Some f \<Rightarrow> fl_desired_access f AND SL_WIN32_GENERIC_WRITE \<noteq> 0)"

section \<open>Writing\<close>

text \<open>The loop until everything is written or the host refuses; it starts again while the call is interrupted, which
  may never end.\<close>

partial_function (option) write_all ::
    "'w file_host \<Rightarrow> int \<Rightarrow> bytes \<Rightarrow> nat \<Rightarrow> 'w \<Rightarrow> ((sl_status \<times> nat \<times> int) \<times> 'w) option" where
  "write_all host fd buffer written w =
     (if written < length buffer
      then (case fh_write host w fd (drop written buffer) of
              (Inr result, w) \<Rightarrow>
                if result > 0 then write_all host fd buffer (written + result) w
                else Some ((SL_ERROR_IO, written, EIO), w)
            | (Inl e, w) \<Rightarrow>
                if e = EINTR then write_all host fd buffer written w else Some ((SL_ERROR_IO, written, e), w))
      else Some ((SL_OK, written, 0), w))"

definition sl_win32_file_write ::
    "'w file_host \<Rightarrow> sl_win32_file option \<Rightarrow> bytes option \<Rightarrow> nat \<Rightarrow> bool \<Rightarrow> 'w \<Rightarrow>
     ((sl_status \<times> nat \<times> int) \<times> 'w) option" where
  "sl_win32_file_write host file buffer byte_count out w =
     (if file = None \<or> \<not> out \<or> buffer = None \<and> byte_count \<noteq> 0 then Some ((SL_ERROR_INVALID_ARGUMENT, 0, 0), w)
      else if \<not> sl_win32_file_can_write file then Some ((SL_ERROR_IO, 0, EACCES), w)
      else write_all host (fl_fd (the file)) (take byte_count (case buffer of None \<Rightarrow> [] | Some bytes \<Rightarrow> bytes)) 0 w)"

section \<open>Seeking and flushing\<close>

text \<open>The position is stored when there is one.\<close>

definition sl_win32_file_seek ::
    "'w file_host \<Rightarrow> sl_win32_file option \<Rightarrow> int \<Rightarrow> sl_win32_file_seek_origin option \<Rightarrow> bool \<Rightarrow> 'w \<Rightarrow>
     (sl_status \<times> u64 option \<times> int) \<times> 'w" where
  "sl_win32_file_seek host file distance origin out w =
     (case (file, origin) of
        (Some f, Some origin) \<Rightarrow>
          if \<not> out then ((SL_ERROR_INVALID_ARGUMENT, None, 0), w)
          else if \<not> sl_win32_file_can_read file \<and> \<not> sl_win32_file_can_write file
          then ((SL_ERROR_IO, None, EACCES), w)
          else if fl_type f \<noteq> SL_WIN32_FILE_TYPE_DISK then ((SL_ERROR_IO, None, ESPIPE), w)
          else (case fh_lseek host w (fl_fd f) distance origin of
                  (Inl e, w) \<Rightarrow> ((SL_ERROR_IO, None, e), w)
                | (Inr position, w) \<Rightarrow> ((SL_OK, Some (of_nat position), 0), w))
      | _ \<Rightarrow> ((SL_ERROR_INVALID_ARGUMENT, None, 0), w))"

partial_function (option) flush_loop :: "'w file_host \<Rightarrow> int \<Rightarrow> 'w \<Rightarrow> ((sl_status \<times> int) \<times> 'w) option" where
  "flush_loop host fd w =
     (case fh_fsync host w fd of
        (Inr _, w) \<Rightarrow> Some ((SL_OK, 0), w)
      | (Inl e, w) \<Rightarrow> if e = EINTR then flush_loop host fd w else Some ((SL_ERROR_IO, e), w))"

definition sl_win32_file_flush ::
    "'w file_host \<Rightarrow> sl_win32_file option \<Rightarrow> 'w \<Rightarrow> ((sl_status \<times> int) \<times> 'w) option" where
  "sl_win32_file_flush host file w =
     (case file of
        None \<Rightarrow> Some ((SL_ERROR_INVALID_ARGUMENT, 0), w)
      | Some f \<Rightarrow>
          if \<not> sl_win32_file_can_write file then Some ((SL_ERROR_IO, EACCES), w)
          else if fl_type f \<noteq> SL_WIN32_FILE_TYPE_DISK then Some ((SL_ERROR_IO, EBADF), w)
          else flush_loop host (fl_fd f) w)"

section \<open>What a write reports\<close>

text \<open>The host as documented: a write takes some of the bytes it is given, from the front, and puts them behind what
  the file has received; one that fails takes none. \<open>received\<close> is what has been received, and \<open>patience\<close> bounds how
  often in a row a call is still interrupted.\<close>

definition writes_append :: "'w file_host \<Rightarrow> int \<Rightarrow> ('w \<Rightarrow> bytes) \<Rightarrow> ('w \<Rightarrow> nat) \<Rightarrow> bool" where
  "writes_append host fd received patience \<longleftrightarrow>
     (\<forall>w bytes. case fh_write host w fd bytes of
        (Inr n, w') \<Rightarrow> n \<le> length bytes \<and> received w' = received w @ take n bytes
      | (Inl e, w') \<Rightarrow> received w' = received w \<and> (e = EINTR \<longrightarrow> patience w' < patience w))"

lemma writes_appendD:
  assumes "writes_append host fd received patience"
  shows "fh_write host w fd bytes = (Inr n, w') \<Longrightarrow> n \<le> length bytes \<and> received w' = received w @ take n bytes"
    "fh_write host w fd bytes = (Inl e, w') \<Longrightarrow> received w' = received w \<and> (e = EINTR \<longrightarrow> patience w' < patience w)"
  using assms [unfolded writes_append_def, rule_format, of w bytes] by simp_all

definition reported :: "('w \<Rightarrow> bytes) \<Rightarrow> bytes \<Rightarrow> nat \<Rightarrow> 'w \<Rightarrow> ((sl_status \<times> nat \<times> int) \<times> 'w) option \<Rightarrow> bool" where
  "reported received buffer start w result \<longleftrightarrow>
     (\<exists>status written e w'. result = Some ((status, written, e), w') \<and> start \<le> written \<and> written \<le> length buffer \<and>
        received w' = received w @ drop start (take written buffer) \<and>
        (status = SL_OK \<longleftrightarrow> written = length buffer) \<and> (status \<noteq> SL_OK \<longrightarrow> status = SL_ERROR_IO))"

lemma pieces: "written + n \<le> m \<Longrightarrow> take n (drop written xs) @ drop (written + n) (take m xs) = drop written (take m xs)"
proof -
  assume le: "written + n \<le> m"
  then have "take n (drop written xs) = take n (drop written (take m xs))"
    by (simp add: drop_take min_def)
  then show ?thesis
    by (metis add.commute append_take_drop_id drop_drop)
qed

lemma write_all_reported:
  assumes host: "writes_append host fd received patience"
  shows "written \<le> length buffer \<Longrightarrow> reported received buffer written w (write_all host fd buffer written w)"
proof (induction "length buffer - written" arbitrary: written w rule: less_induct)
  case (less written)
  note further = less.hyps and inside = less.prems
  show ?case
  proof (induction "patience w" arbitrary: w rule: less_induct)
    case (less w)
    show ?case
    proof (cases "written < length buffer")
      case False
      then show ?thesis
        using inside by (subst write_all.simps) (simp add: reported_def)
    next
      case True
      obtain answer w' where call: "fh_write host w fd (drop written buffer) = (answer, w')"
        by (cases "fh_write host w fd (drop written buffer)")
      show ?thesis
      proof (cases answer)
        case (Inl e)
        have keeps: "received w' = received w" "e = EINTR \<longrightarrow> patience w' < patience w"
          using writes_appendD(2) [OF host] call Inl by auto
        show ?thesis
        proof (cases "e = EINTR")
          case True
          then have "reported received buffer written w' (write_all host fd buffer written w')"
            using less.hyps keeps(2) by blast
          then show ?thesis
            using True \<open>written < length buffer\<close> keeps(1) call Inl by (subst write_all.simps) (simp add: reported_def)
        next
          case False
          then show ?thesis
            using True keeps(1) call Inl by (subst write_all.simps) (simp add: reported_def)
        qed
      next
        case (Inr n)
        have took: "n \<le> length (drop written buffer)" "received w' = received w @ take n (drop written buffer)"
          using writes_appendD(1) [OF host call [unfolded Inr]] by blast+
        show ?thesis
        proof (cases "n > 0")
          case positive: True
          have "reported received buffer (written + n) w' (write_all host fd buffer (written + n) w')"
            using further [of "written + n"] took(1) positive True by simp
          then obtain status m e w'' where rest: "write_all host fd buffer (written + n) w' = Some ((status, m, e), w'')"
              "written + n \<le> m" "m \<le> length buffer" "received w'' = received w' @ drop (written + n) (take m buffer)"
              "status = SL_OK \<longleftrightarrow> m = length buffer" "status \<noteq> SL_OK \<longrightarrow> status = SL_ERROR_IO"
            unfolding reported_def by blast
          have "received w'' = received w @ drop written (take m buffer)"
            unfolding rest(4) took(2) using pieces [OF rest(2)] by simp
          moreover have "write_all host fd buffer written w = Some ((status, m, e), w'')"
            using True positive call Inr rest(1) by (subst write_all.simps) simp
          ultimately show ?thesis
            unfolding reported_def using rest(2,3,5,6) by auto
        next
          case False
          then show ?thesis
            using True took call Inr by (subst write_all.simps) (simp add: reported_def)
        qed
      qed
    qed
  qed
qed

text \<open>C38: a write reports exactly what arrived. On a host whose writes take bytes from the front and are not interrupted
  for ever, in whatever pieces it takes them, a write to a file opened for writing returns; the number it reports is
  the number of bytes that the file received, these are the first bytes of the buffer, and the status is success
  exactly when that is the whole buffer.\<close>

theorem file_write_reports:
  assumes "writes_append host (fl_fd f) received patience" "sl_win32_file_can_write (Some f)"
  shows "\<exists>status written e w'.
    sl_win32_file_write host (Some f) (Some buffer) (length buffer) True w = Some ((status, written, e), w') \<and>
    written \<le> length buffer \<and> received w' = received w @ take written buffer \<and>
    (status = SL_OK \<longleftrightarrow> written = length buffer) \<and> (status \<noteq> SL_OK \<longrightarrow> status = SL_ERROR_IO)"
  using write_all_reported [OF assms(1), of 0 buffer w] assms(2)
  by (simp add: sl_win32_file_write_def reported_def)

text \<open>A host that takes two bytes at a time, after one interrupt, and is full after four.\<close>

definition slow_host :: "(bytes \<times> nat) file_host" where
  "slow_host = \<lparr>fh_write = (\<lambda>(got, wait) fd bytes.
       if wait > 0 then (Inl EINTR, (got, wait - 1))
       else if length got \<ge> 4 then (Inl 28, (got, wait))
       else (Inr (min 2 (length bytes)), (got @ take 2 bytes, 1))),
     fh_lseek = (\<lambda>w _ _ _. (Inl ESPIPE, w)), fh_fsync = (\<lambda>w _. (Inr (), w)),
     fh_duplicate = (\<lambda>w _. (Inr 3, w)), fh_close = (\<lambda>w _. w)\<rparr>"

lemma slow_host_appends: "writes_append slow_host fd fst snd"
  by (auto simp: writes_append_def slow_host_def EINTR_def take_Cons' min_def split: if_splits)

theorem file_write_reports_witness:
  "\<exists>status written e w'. sl_win32_file_write slow_host (Some \<lparr>fl_fd = 3, fl_desired_access = SL_WIN32_GENERIC_WRITE,
      fl_type = SL_WIN32_FILE_TYPE_CHAR\<rparr>) (Some [1, 2, 3, 4, 5]) 5 True ([9], 1) = Some ((status, written, e), w') \<and>
    fst w' = [9] @ take written [1, 2, 3, 4, 5] \<and> (status = SL_OK \<longleftrightarrow> written = 5)"
proof -
  have "sl_win32_file_can_write (Some \<lparr>fl_fd = 3, fl_desired_access = SL_WIN32_GENERIC_WRITE, fl_type = SL_WIN32_FILE_TYPE_CHAR\<rparr>)"
    by (simp add: sl_win32_file_can_write_def SL_WIN32_GENERIC_WRITE_def)
  moreover have "length [1, 2, 3, 4, 5 :: u8] = 5"
    by simp
  ultimately show ?thesis
    using file_write_reports [OF slow_host_appends, of _ "[1, 2, 3, 4, 5]" "([9], 1)"] unfolding fst_conv by metis
qed

end
