(* ===== verification/Local_Slots.thy ===== *)
theory Local_Slots
  imports Kernel32_Text
begin

text \<open>
  \<open>src/kernel32.c\<close>, the slots of thread-local and fiber-local storage. A table of slots is shared; every thread context
  (or, without one, every host thread) has an array of values of its own. The functions are cut at their accesses to
  the atomic fields, and contexts take steps in any order. What a slot's claimer does to fields that nobody else
  touches until it lets go is one step. A context \<open>c\<close> carries the calls it is in as a stack: a callback of \<open>FlsFree\<close> may
  call again. Each step may have an event, what it means to the callers.
\<close>

section \<open>State\<close>

definition SL_ERROR_NOT_ENOUGH_MEMORY :: u32 where "SL_ERROR_NOT_ENOUGH_MEMORY = 8"
definition SL_SLOT_FREE :: nat where "SL_SLOT_FREE = 0"
definition SL_SLOT_INITIALIZING :: nat where "SL_SLOT_INITIALIZING = 1"
definition SL_SLOT_ALLOCATED :: nat where "SL_SLOT_ALLOCATED = 2"

lemmas slot_states = SL_SLOT_FREE_def SL_SLOT_INITIALIZING_def SL_SLOT_ALLOCATED_def

record sl_local_slot =
  sl_state :: nat
  sl_generation :: u64
  sl_callback_address :: u64

datatype (plugins only: code size) local_op = Get_value | Set_value u64

text \<open>Where a call is: before which access.\<close>

datatype (plugins only: code size) local_point =
    Alloc_try nat u64
  | Alloc_generation nat u64
  | Alloc_generation_again nat u64
  | Alloc_callback nat u64
  | Alloc_publish nat
  | Free_claim nat bool
  | Free_clear nat bool
  | Free_callback nat u64 u64
  | Free_publish nat
  | Generation_before local_op nat
  | Generation_state local_op nat u64
  | Generation_after local_op nat u64
  | Access_value local_op nat u64
  | Check_state local_op nat u64 u64
  | Check_generation local_op nat u64 u64

text \<open>\<open>Called\<close> is the start of a call, \<open>Claimed\<close> the claim of a free slot and \<open>Allocated\<close> its new generation. \<open>Handed_out\<close>,
  \<open>Exhausted\<close>, \<open>Freed\<close>, \<open>Value_got\<close>, \<open>Was_set\<close>, \<open>Unset\<close> and \<open>Call_failed\<close> are returns. The first number is the context's.\<close>

datatype (plugins only: code size) local_event =
    Called nat
  | Claimed nat nat
  | Allocated nat
  | Handed_out nat nat
  | Exhausted nat
  | Withdrawn nat nat
  | Cleared nat nat
  | Called_back nat u64 u64
  | Freed nat nat
  | Stored nat nat u64 u64
  | Value_got nat nat u64
  | Was_set nat nat u64
  | Unset nat nat
  | Call_failed nat nat

record local_world =
  lw_slots :: "nat \<Rightarrow> sl_local_slot"
  lw_values :: "nat \<Rightarrow> nat \<Rightarrow> sl_win32_local_value"
  lw_points :: "nat \<Rightarrow> local_point list"

definition local_start :: local_world where
  "local_start = \<lparr>lw_slots = (\<lambda>_. \<lparr>sl_state = SL_SLOT_FREE, sl_generation = 0, sl_callback_address = 0\<rparr>),
     lw_values = (\<lambda>_ _. \<lparr>lv_value = 0, lv_generation = 0\<rparr>), lw_points = (\<lambda>_. [])\<rparr>"

definition set_slot :: "nat \<Rightarrow> sl_local_slot \<Rightarrow> local_world \<Rightarrow> local_world" where
  "set_slot i s w = w\<lparr>lw_slots := (lw_slots w)(i := s)\<rparr>"

definition set_value :: "nat \<Rightarrow> nat \<Rightarrow> u64 \<Rightarrow> u64 \<Rightarrow> local_world \<Rightarrow> local_world" where
  "set_value c i v g w = w\<lparr>lw_values := (lw_values w)(c := (lw_values w c)(i := \<lparr>lv_value = v, lv_generation = g\<rparr>))\<rparr>"

section \<open>The functions, step by step\<close>

text \<open>One access of the call a context is in: the world without that point, the points that take its place and the
  event.\<close>

definition local_alloc :: "nat \<Rightarrow> local_world \<Rightarrow> local_point \<Rightarrow> local_world \<times> local_point list \<times> local_event option" where
  "local_alloc c w p =
     (case p of
        Alloc_try i callback \<Rightarrow>
          if i \<ge> SL_WIN32_LOCAL_SLOT_COUNT then (w, [], Some (Exhausted c))
          else if sl_state (lw_slots w i) = SL_SLOT_FREE
          then (set_slot i ((lw_slots w i)\<lparr>sl_state := SL_SLOT_INITIALIZING\<rparr>) w, [Alloc_generation i callback],
                Some (Claimed c i))
          else (w, [Alloc_try (i + 1) callback], None)
      | Alloc_generation i callback \<Rightarrow>
          let generation = sl_generation (lw_slots w i) + 1
          in (set_slot i ((lw_slots w i)\<lparr>sl_generation := generation\<rparr>) w,
              [if generation = 0 then Alloc_generation_again i callback else Alloc_callback i callback], Some (Allocated i))
      | Alloc_generation_again i callback \<Rightarrow>
          (set_slot i ((lw_slots w i)\<lparr>sl_generation := sl_generation (lw_slots w i) + 1\<rparr>) w,
           [Alloc_callback i callback], Some (Allocated i))
      | Alloc_callback i callback \<Rightarrow>
          (set_slot i ((lw_slots w i)\<lparr>sl_callback_address := callback\<rparr>) w, [Alloc_publish i], None)
      | Alloc_publish i \<Rightarrow>
          (set_slot i ((lw_slots w i)\<lparr>sl_state := SL_SLOT_ALLOCATED\<rparr>) w, [], Some (Handed_out c i))
      | _ \<Rightarrow> (w, [p], None))"

definition local_free :: "nat \<Rightarrow> local_world \<Rightarrow> local_point \<Rightarrow> local_world \<times> local_point list \<times> local_event option" where
  "local_free c w p =
     (case p of
        Free_claim i invoke_callback \<Rightarrow>
          if i \<ge> SL_WIN32_LOCAL_SLOT_COUNT \<or> sl_state (lw_slots w i) \<noteq> SL_SLOT_ALLOCATED then (w, [], Some (Call_failed c i))
          else (set_slot i ((lw_slots w i)\<lparr>sl_state := SL_SLOT_INITIALIZING\<rparr>) w, [Free_clear i invoke_callback],
                Some (Withdrawn c i))
      | Free_clear i invoke_callback \<Rightarrow>
          let generation = sl_generation (lw_slots w i); local_value = lw_values w c i;
              value = (if lv_generation local_value = generation then lv_value local_value else 0);
              callback_address = sl_callback_address (lw_slots w i)
          in (set_slot i ((lw_slots w i)\<lparr>sl_callback_address := 0\<rparr>) (set_value c i 0 0 w),
              [if invoke_callback \<and> callback_address \<noteq> 0 \<and> value \<noteq> 0 then Free_callback i callback_address value
               else Free_publish i], Some (Cleared c i))
      | Free_callback i callback_address value \<Rightarrow> (w, [Free_publish i], Some (Called_back c callback_address value))
      | Free_publish i \<Rightarrow>
          (set_slot i ((lw_slots w i)\<lparr>sl_state := SL_SLOT_FREE\<rparr>) w, [], Some (Freed c i))
      | _ \<Rightarrow> (w, [p], None))"

definition local_generation :: "nat \<Rightarrow> local_world \<Rightarrow> local_point \<Rightarrow> local_world \<times> local_point list \<times> local_event option" where
  "local_generation c w p =
     (case p of
        Generation_before op i \<Rightarrow> (w, [Generation_state op i (sl_generation (lw_slots w i))], None)
      | Generation_state op i before \<Rightarrow>
          if sl_state (lw_slots w i) \<noteq> SL_SLOT_ALLOCATED then (w, [], Some (Call_failed c i))
          else (w, [Generation_after op i before], None)
      | Generation_after op i before \<Rightarrow>
          if sl_generation (lw_slots w i) = before then (w, [Access_value op i before], None)
          else (w, [Generation_before op i], None)
      | _ \<Rightarrow> (w, [p], None))"

text \<open>What \<open>TlsGetValue\<close> reads, and \<open>TlsSetValue\<close> stores, and the checks behind it: a call whose slot is not the same
  any more takes its value back.\<close>

definition refused :: "nat \<Rightarrow> local_op \<Rightarrow> nat \<Rightarrow> local_world \<Rightarrow> local_world \<times> local_point list \<times> local_event option" where
  "refused c op i w =
     (case op of Get_value \<Rightarrow> (w, [], Some (Call_failed c i)) | Set_value _ \<Rightarrow> (set_value c i 0 0 w, [], Some (Unset c i)))"

definition local_get_set :: "nat \<Rightarrow> local_world \<Rightarrow> local_point \<Rightarrow> local_world \<times> local_point list \<times> local_event option" where
  "local_get_set c w p =
     (case p of
        Access_value op i generation \<Rightarrow>
          (case op of
             Get_value \<Rightarrow>
               let local_value = lw_values w c i
               in (w, [Check_state op i generation
                         (if lv_generation local_value = generation then lv_value local_value else 0)], None)
           | Set_value v \<Rightarrow>
               (set_value c i v generation w, [Check_state op i generation v], Some (Stored c i v generation)))
      | Check_state op i generation v \<Rightarrow>
          if sl_state (lw_slots w i) \<noteq> SL_SLOT_ALLOCATED then refused c op i w
          else (w, [Check_generation op i generation v], None)
      | Check_generation op i generation v \<Rightarrow>
          if sl_generation (lw_slots w i) \<noteq> generation then refused c op i w
          else (w, [], Some (case op of Get_value \<Rightarrow> Value_got c i v | Set_value _ \<Rightarrow> Was_set c i v))
      | _ \<Rightarrow> (w, [p], None))"

definition local_access :: "nat \<Rightarrow> local_world \<Rightarrow> local_point \<Rightarrow> local_world \<times> local_point list \<times> local_event option" where
  "local_access c w p =
     (case p of
        Alloc_try _ _ \<Rightarrow> local_alloc c w p | Alloc_generation _ _ \<Rightarrow> local_alloc c w p
      | Alloc_generation_again _ _ \<Rightarrow> local_alloc c w p | Alloc_callback _ _ \<Rightarrow> local_alloc c w p
      | Alloc_publish _ \<Rightarrow> local_alloc c w p
      | Free_claim _ _ \<Rightarrow> local_free c w p | Free_clear _ _ \<Rightarrow> local_free c w p
      | Free_callback _ _ _ \<Rightarrow> local_free c w p | Free_publish _ \<Rightarrow> local_free c w p
      | Generation_before _ _ \<Rightarrow> local_generation c w p | Generation_state _ _ _ \<Rightarrow> local_generation c w p
      | Generation_after _ _ _ \<Rightarrow> local_generation c w p
      | _ \<Rightarrow> local_get_set c w p)"

section \<open>Calls\<close>

text \<open>The first point of a call; \<open>None\<close> where it returns at once, with \<open>SL_ERROR_INVALID_PARAMETER\<close>.\<close>

definition sl_kernel32_tls_alloc :: local_point where "sl_kernel32_tls_alloc = Alloc_try 0 0"
definition sl_kernel32_fls_alloc :: "u64 \<Rightarrow> local_point" where
  "sl_kernel32_fls_alloc callback_address = Alloc_try 0 callback_address"
definition sl_kernel32_tls_free :: "u32 \<Rightarrow> local_point" where "sl_kernel32_tls_free index = Free_claim (unat index) False"
definition sl_kernel32_fls_free :: "u32 \<Rightarrow> local_point" where "sl_kernel32_fls_free index = Free_claim (unat index) True"

definition local_get :: "u32 \<Rightarrow> local_point option" where
  "local_get index = (if unat index \<ge> SL_WIN32_LOCAL_SLOT_COUNT then None else Some (Generation_before Get_value (unat index)))"

definition local_set :: "u32 \<Rightarrow> u64 \<Rightarrow> local_point option" where
  "local_set index v = (if unat index \<ge> SL_WIN32_LOCAL_SLOT_COUNT then None else Some (Generation_before (Set_value v) (unat index)))"

text \<open>The last error that an event sets.\<close>

definition event_error :: "local_event \<Rightarrow> u32 option" where
  "event_error e = (case e of
     Exhausted _ \<Rightarrow> Some SL_ERROR_NOT_ENOUGH_MEMORY | Call_failed _ _ \<Rightarrow> Some SL_ERROR_INVALID_PARAMETER
   | Unset _ _ \<Rightarrow> Some SL_ERROR_INVALID_PARAMETER | Value_got _ _ _ \<Rightarrow> Some SL_ERROR_SUCCESS | _ \<Rightarrow> None)"

definition call_starts :: "local_point \<Rightarrow> bool" where
  "call_starts p \<longleftrightarrow> (\<exists>callback. p = sl_kernel32_fls_alloc callback) \<or> p = sl_kernel32_tls_alloc \<or>
     (\<exists>index. p = sl_kernel32_tls_free index \<or> p = sl_kernel32_fls_free index \<or> local_get index = Some p \<or>
        (\<exists>v. local_set index v = Some p))"

text \<open>A context is free for a call when it is in none or in a callback.\<close>

definition in_callback :: "local_point \<Rightarrow> bool" where
  "in_callback p \<longleftrightarrow> (\<exists>i callback value. p = Free_callback i callback value)"

definition set_points :: "nat \<Rightarrow> local_point list \<Rightarrow> local_world \<Rightarrow> local_world" where
  "set_points c ps w = w\<lparr>lw_points := (lw_points w)(c := ps)\<rparr>"

inductive local_step :: "local_world \<Rightarrow> local_event option \<Rightarrow> local_world \<Rightarrow> bool" where
  local_call: "call_starts p \<Longrightarrow> lw_points w c = [] \<or> in_callback (hd (lw_points w c)) \<Longrightarrow>
    local_step w (Some (Called c)) (set_points c (p # lw_points w c) w)"
| local_access: "lw_points w c = p # ps \<Longrightarrow> local_access c w p = (w', qs, e) \<Longrightarrow>
    local_step w e (set_points c (qs @ ps) w')"

text \<open>A run, with its events, the latest first.\<close>

inductive local_run :: "local_event list \<Rightarrow> local_world \<Rightarrow> bool" where
  run_start: "local_run [] local_start"
| run_step: "local_run es w \<Longrightarrow> local_step w e w' \<Longrightarrow> local_run (case e of None \<Rightarrow> es | Some e \<Rightarrow> e # es) w'"

section \<open>What the callers see\<close>

text \<open>The slots as one would specify them: which indexes are in use, which a context is giving out or taking back, and what
  a context reads at an index; a new generation forgets what any context stored. The rest is what a context may say of the
  time since its call began: \<open>lp_since c i\<close>, that the index was in use, in the generation it has now; \<open>lp_out c i\<close>, that it
  was not in use; \<open>lp_full c i\<close>, that it was not free to be given out.\<close>

record local_spec =
  lp_generation :: "nat \<Rightarrow> nat"
  lp_given :: "nat \<Rightarrow> bool"
  lp_holder :: "nat \<Rightarrow> nat option"
  lp_shown :: "nat \<Rightarrow> nat \<Rightarrow> u64"
  lp_since :: "nat \<Rightarrow> nat \<Rightarrow> bool"
  lp_out :: "nat \<Rightarrow> nat \<Rightarrow> bool"
  lp_full :: "nat \<Rightarrow> nat \<Rightarrow> bool"

definition spec_start :: local_spec where
  "spec_start = \<lparr>lp_generation = (\<lambda>_. 0), lp_given = (\<lambda>_. False), lp_holder = (\<lambda>_. None), lp_shown = (\<lambda>_ _. 0),
     lp_since = (\<lambda>_ _. False), lp_out = (\<lambda>_ _. True), lp_full = (\<lambda>_ _. False)\<rparr>"

definition is_taken :: "local_spec \<Rightarrow> nat \<Rightarrow> bool" where
  "is_taken s i \<longleftrightarrow> lp_given s i \<or> lp_holder s i \<noteq> None"

definition show_value :: "nat \<Rightarrow> nat \<Rightarrow> u64 \<Rightarrow> local_spec \<Rightarrow> local_spec" where
  "show_value c i v s = s\<lparr>lp_shown := (lp_shown s)(c := (lp_shown s c)(i := v))\<rparr>"

definition spec_step :: "local_event \<Rightarrow> local_spec \<Rightarrow> local_spec" where
  "spec_step e s = (case e of
     Called c \<Rightarrow> s\<lparr>lp_since := (lp_since s)(c := lp_given s), lp_out := (lp_out s)(c := (\<lambda>i. \<not> lp_given s i)),
       lp_full := (lp_full s)(c := is_taken s)\<rparr>
   | Claimed c i \<Rightarrow> s\<lparr>lp_holder := (lp_holder s)(i := Some c), lp_full := (\<lambda>c. (lp_full s c)(i := True))\<rparr>
   | Allocated i \<Rightarrow> s\<lparr>lp_generation := (lp_generation s)(i := lp_generation s i + 1),
       lp_shown := (\<lambda>c. (lp_shown s c)(i := 0)), lp_since := (\<lambda>c. (lp_since s c)(i := False))\<rparr>
   | Handed_out _ i \<Rightarrow> s\<lparr>lp_given := (lp_given s)(i := True), lp_holder := (lp_holder s)(i := None),
       lp_since := (\<lambda>c. (lp_since s c)(i := True))\<rparr>
   | Withdrawn c i \<Rightarrow> s\<lparr>lp_given := (lp_given s)(i := False), lp_holder := (lp_holder s)(i := Some c),
       lp_out := (\<lambda>c. (lp_out s c)(i := True))\<rparr>
   | Freed _ i \<Rightarrow> s\<lparr>lp_holder := (lp_holder s)(i := None)\<rparr>
   | Cleared c i \<Rightarrow> show_value c i 0 s
   | Unset c i \<Rightarrow> show_value c i 0 s
   | Stored c i v g \<Rightarrow> if unat g = lp_generation s i then show_value c i v s else s
   | _ \<Rightarrow> s)"

text \<open>What an event promises. A call that succeeds found its index in use at some time since it began, and one that is
  refused found it out of use; \<open>TlsAlloc\<close> gives up only when it found every index taken.\<close>

definition spec_allows :: "local_event \<Rightarrow> local_spec \<Rightarrow> bool" where
  "spec_allows e s = (case e of
     Claimed _ i \<Rightarrow> i < SL_WIN32_LOCAL_SLOT_COUNT \<and> \<not> is_taken s i
   | Allocated i \<Rightarrow> \<not> lp_given s i
   | Handed_out c i \<Rightarrow> i < SL_WIN32_LOCAL_SLOT_COUNT \<and> \<not> lp_given s i \<and> lp_holder s i = Some c \<and> (\<forall>c. lp_shown s c i = 0)
   | Exhausted c \<Rightarrow> \<forall>i < SL_WIN32_LOCAL_SLOT_COUNT. lp_full s c i
   | Withdrawn _ i \<Rightarrow> lp_given s i
   | Freed c i \<Rightarrow> lp_holder s i = Some c
   | Value_got c i v \<Rightarrow> lp_since s c i \<and> v = lp_shown s c i
   | Was_set c i v \<Rightarrow> lp_since s c i \<and> lp_shown s c i = v
   | Unset c i \<Rightarrow> lp_out s c i
   | Call_failed c i \<Rightarrow> i < SL_WIN32_LOCAL_SLOT_COUNT \<longrightarrow> lp_out s c i
   | _ \<Rightarrow> True)"

primrec spec_after :: "local_event list \<Rightarrow> local_spec" where
  "spec_after [] = spec_start"
| "spec_after (e # es) = spec_step e (spec_after es)"

primrec spec_accepts :: "local_event list \<Rightarrow> bool" where
  "spec_accepts [] = True"
| "spec_accepts (e # es) = (spec_allows e (spec_after es) \<and> spec_accepts es)"

end
