(* ===== verification/Local_Slots_Properties.thy ===== *)
theory Local_Slots_Properties
  imports Local_Slots
begin

text \<open>The calls on the slots, in any order, answer as the specification of \<open>Local_Slots\<close> does.\<close>

section \<open>The invariant\<close>

text \<open>The slot a point has claimed.\<close>

fun owns :: "local_point \<Rightarrow> nat option" where
  "owns (Alloc_generation i _) = Some i"
| "owns (Alloc_generation_again i _) = Some i"
| "owns (Alloc_callback i _) = Some i"
| "owns (Alloc_publish i) = Some i"
| "owns (Free_clear i _) = Some i"
| "owns (Free_callback i _ _) = Some i"
| "owns (Free_publish i) = Some i"
| "owns _ = None"

definition owned :: "local_world \<Rightarrow> nat \<Rightarrow> nat \<Rightarrow> nat" where
  "owned w c i = length (List.filter (\<lambda>p. owns p = Some i) (lw_points w c))"

definition state_of :: "local_world \<Rightarrow> nat \<Rightarrow> nat" where "state_of w i = sl_state (lw_slots w i)"
definition generation_of :: "local_world \<Rightarrow> nat \<Rightarrow> u64" where "generation_of w i = sl_generation (lw_slots w i)"

lemma slot_fields [simp]: "sl_state (lw_slots w i) = state_of w i" "sl_generation (lw_slots w i) = generation_of w i"
  by (simp_all add: state_of_def generation_of_def)

text \<open>Whether the slot was given out since its last generation.\<close>

primrec published :: "local_event list \<Rightarrow> nat \<Rightarrow> bool" where
  "published [] i = False"
| "published (e # es) i = (case e of
     Allocated j \<Rightarrow> if j = i then False else published es i
   | Handed_out _ j \<Rightarrow> if j = i then True else published es i
   | _ \<Rightarrow> published es i)"

text \<open>How many generations were given.\<close>

primrec allocations :: "local_event list \<Rightarrow> nat" where
  "allocations [] = 0"
| "allocations (e # es) = (case e of Allocated _ \<Rightarrow> Suc (allocations es) | _ \<Rightarrow> allocations es)"

text \<open>What a call has found out and still holds, for the generations of the slots, what is published and the state
  of the specification.\<close>

fun point_ok :: "(nat \<Rightarrow> u64) \<Rightarrow> (nat \<Rightarrow> bool) \<Rightarrow> local_spec \<Rightarrow> nat \<Rightarrow> local_point \<Rightarrow> bool" where
  "point_ok gen pub s c (Alloc_try i _) \<longleftrightarrow> (\<forall>j < i. lp_full s c j)"
| "point_ok gen pub s c (Alloc_generation i _) \<longleftrightarrow> i < SL_WIN32_LOCAL_SLOT_COUNT"
| "point_ok gen pub s c (Alloc_generation_again i _) \<longleftrightarrow> False"
| "point_ok gen pub s c (Alloc_callback i _) \<longleftrightarrow> i < SL_WIN32_LOCAL_SLOT_COUNT \<and> \<not> pub i \<and> (\<forall>c. lp_shown s c i = 0)"
| "point_ok gen pub s c (Alloc_publish i) \<longleftrightarrow> i < SL_WIN32_LOCAL_SLOT_COUNT \<and> \<not> pub i \<and> (\<forall>c. lp_shown s c i = 0)"
| "point_ok gen pub s c (Generation_state op i b) \<longleftrightarrow> b \<le> gen i"
| "point_ok gen pub s c (Generation_after op i b) \<longleftrightarrow> b \<le> gen i \<and> (b = gen i \<longrightarrow> pub i \<and> lp_since s c i)"
| "point_ok gen pub s c (Access_value op i g) \<longleftrightarrow> g \<le> gen i \<and>
     (if g = gen i then pub i \<and> lp_since s c i else lp_out s c i \<and> (op \<noteq> Get_value \<longrightarrow> lp_shown s c i = 0))"
| "point_ok gen pub s c (Check_state op i g v) \<longleftrightarrow> g \<le> gen i \<and>
     (if g = gen i then lp_shown s c i = v \<and> lp_since s c i else lp_out s c i)"
| "point_ok gen pub s c (Check_generation op i g v) \<longleftrightarrow> g \<le> gen i \<and>
     (if g = gen i then lp_shown s c i = v \<and> lp_since s c i else lp_out s c i)"
| "point_ok gen pub s c _ \<longleftrightarrow> True"

text \<open>What the specification says of the time since a call began covers the present.\<close>

definition history_ok :: "local_spec \<Rightarrow> bool" where
  "history_ok s \<longleftrightarrow> (\<forall>c i. (lp_given s i \<longrightarrow> lp_since s c i) \<and> (\<not> lp_given s i \<longrightarrow> lp_out s c i) \<and> (is_taken s i \<longrightarrow> lp_full s c i))"

lemma history_step: "history_ok s \<Longrightarrow> spec_allows e s \<Longrightarrow> history_ok (spec_step e s)"
  by (cases e) (auto simp: history_ok_def spec_step_def spec_allows_def is_taken_def show_value_def)

lemma accepted_history: "spec_accepts es \<Longrightarrow> history_ok (spec_after es)"
  by (induction es) (simp add: history_ok_def spec_start_def is_taken_def, simp add: history_step)

definition stacks_ok :: "local_world \<Rightarrow> bool" where
  "stacks_ok w \<longleftrightarrow> (\<forall>c. \<forall>p \<in> set (tl (lw_points w c)). in_callback p)"

definition claims_ok :: "(nat \<Rightarrow> nat option) \<Rightarrow> local_world \<Rightarrow> bool" where
  "claims_ok holder w \<longleftrightarrow> (\<forall>c i. owned w c i \<le> 1) \<and> (\<forall>c i. owned w c i > 0 \<longrightarrow> holder i = Some c) \<and>
     (\<forall>i. holder i = None \<longleftrightarrow> state_of w i \<noteq> SL_SLOT_INITIALIZING)"

definition slots_ok :: "local_event list \<Rightarrow> local_world \<Rightarrow> bool" where
  "slots_ok es w \<longleftrightarrow> (\<forall>i. unat (generation_of w i) = lp_generation (spec_after es) i \<and> lp_generation (spec_after es) i \<le> allocations es \<and>
     lp_given (spec_after es) i = (state_of w i = SL_SLOT_ALLOCATED) \<and>
     (state_of w i = SL_SLOT_ALLOCATED \<longrightarrow> published es i) \<and> state_of w i \<le> SL_SLOT_ALLOCATED)"

definition values_ok :: "local_event list \<Rightarrow> local_world \<Rightarrow> bool" where
  "values_ok es w \<longleftrightarrow> (\<forall>c i. lv_generation (lw_values w c i) \<le> generation_of w i \<and>
     lp_shown (spec_after es) c i =
       (if lv_generation (lw_values w c i) = generation_of w i then lv_value (lw_values w c i) else 0))"

abbreviation points_ok_at :: "local_event list \<Rightarrow> local_world \<Rightarrow> nat \<Rightarrow> local_point list \<Rightarrow> bool" where
  "points_ok_at es w c ps \<equiv>
     list_all (point_ok (generation_of w) (published es) (spec_after es) c) ps"

definition local_inv :: "local_event list \<Rightarrow> local_world \<Rightarrow> bool" where
  "local_inv es w \<longleftrightarrow> stacks_ok w \<and> claims_ok (lp_holder (spec_after es)) w \<and> slots_ok es w \<and> values_ok es w \<and> (\<forall>c. points_ok_at es w c (lw_points w c))"

lemma local_invD:
  assumes "local_inv es w"
  shows "stacks_ok w" "claims_ok (lp_holder (spec_after es)) w" "slots_ok es w" "values_ok es w" "points_ok_at es w c (lw_points w c)"
  using assms unfolding local_inv_def by blast+

section \<open>Frames\<close>

lemma world_simps [simp]:
  "lw_points (set_points c ps w) = (lw_points w)(c := ps)" "lw_slots (set_points c ps w) = lw_slots w"
  "lw_values (set_points c ps w) = lw_values w"
  "lw_points (set_slot i s w) = lw_points w" "lw_slots (set_slot i s w) = (lw_slots w)(i := s)"
  "lw_values (set_slot i s w) = lw_values w"
  "lw_points (set_value c i v g w) = lw_points w" "lw_slots (set_value c i v g w) = lw_slots w"
  "lw_values (set_value c i v g w) = (lw_values w)(c := (lw_values w c)(i := \<lparr>lv_value = v, lv_generation = g\<rparr>))"
  by (simp_all add: set_points_def set_slot_def set_value_def)

lemma slot_simps [simp]:
  "state_of (set_points c ps w) = state_of w" "state_of (set_value c i v g w) = state_of w"
  "state_of (set_slot i s w) = (state_of w)(i := sl_state s)"
  "generation_of (set_points c ps w) = generation_of w" "generation_of (set_value c i v g w) = generation_of w"
  "generation_of (set_slot i s w) = (generation_of w)(i := sl_generation s)"
  by (simp_all add: fun_eq_iff set_points_def set_slot_def set_value_def state_of_def generation_of_def del: slot_fields)

lemma callback_ok: "in_callback p \<Longrightarrow> point_ok gen pub s c p"
  by (auto simp: in_callback_def)

text \<open>The stack of a context whose top point is replaced by at most one other.\<close>

lemma stacks_replace:
  assumes "stacks_ok w" "lw_points w c = p # ps" "length qs \<le> 1" "lw_points w' = (lw_points w)(c := qs @ ps)"
  shows "stacks_ok w'"
proof -
  have ps: "\<forall>q \<in> set ps. in_callback q"
    using assms(1,2) unfolding stacks_ok_def by (metis list.sel(3))
  have "tl (qs @ ps) = ps \<or> tl (qs @ ps) = tl ps"
    using assms(3) by (cases qs) auto
  then have "\<forall>q \<in> set (tl (qs @ ps)). in_callback q"
    using ps list.set_sel(2) by (metis list.sel(2))
  then show ?thesis
    using assms(1,4) unfolding stacks_ok_def by (metis fun_upd_apply)
qed

lemma owned_replace:
  assumes "lw_points w c = p # ps" "lw_points w' = (lw_points w)(c := qs @ ps)"
  shows "owned w' c' i = (if c' = c then owned w c i - length (List.filter (\<lambda>p. owns p = Some i) [p]) +
      length (List.filter (\<lambda>p. owns p = Some i) qs) else owned w c' i)"
    "owned w c i \<ge> length (List.filter (\<lambda>p. owns p = Some i) [p])"
  using assms by (simp_all add: owned_def)

lemma claims_same:
  assumes "claims_ok holder w" "lw_points w c = p # ps" "lw_points w' = (lw_points w)(c := qs @ ps)" "state_of w' = state_of w"
    and "\<And>i. length (List.filter (\<lambda>p. owns p = Some i) qs) = length (List.filter (\<lambda>p. owns p = Some i) [p])"
  shows "claims_ok holder w'"
proof -
  have "owned w' c' i = owned w c' i" for c' i
    using owned_replace(1) [OF assms(2,3), of c' i] owned_replace(2) [OF assms(2,3), of i] assms(5) [of i]
    by (simp del: List.filter.simps)
  then show ?thesis
    using assms(1,4) by (simp add: claims_ok_def fun_eq_iff)
qed

lemma claims_taken:
  assumes "claims_ok holder w" "lw_points w c = p # ps" "lw_points w' = (lw_points w)(c := [q] @ ps)" "owns p = None" "owns q = Some i"
    and "state_of w i \<noteq> SL_SLOT_INITIALIZING" "state_of w' = (state_of w)(i := SL_SLOT_INITIALIZING)"
  shows "claims_ok (holder(i := Some c)) w'"
proof -
  have none: "owned w c' i = 0" for c'
    using assms(1,6) unfolding claims_ok_def by (metis gr_zeroI option.distinct(1))
  have n: "owned w' c' j = (if c' = c \<and> j = i then 1 else owned w c' j)" for c' j
    using owned_replace(1) [OF assms(2,3), of c' j] assms(4,5) none [of c] by auto
  have "owned w' c' j \<le> 1" "owned w' c' j > 0 \<Longrightarrow> (holder(i := Some c)) j = Some c'" for c' j
    using assms(1) none [of c'] unfolding n claims_ok_def by (auto split: if_splits)
  moreover have "(holder(i := Some c)) j = None \<longleftrightarrow> state_of w' j \<noteq> SL_SLOT_INITIALIZING" for j
    using assms(1) unfolding assms(7) claims_ok_def by simp
  ultimately show ?thesis
    unfolding claims_ok_def by blast
qed

lemma claims_released:
  assumes "claims_ok holder w" "lw_points w c = p # ps" "lw_points w' = (lw_points w)(c := [] @ ps)" "owns p = Some i"
    and "state_of w' = (state_of w)(i := x)" "x \<noteq> SL_SLOT_INITIALIZING"
  shows "claims_ok (holder(i := None)) w'"
proof -
  have o: "owned w c i = 1"
    using owned_replace(2) [OF assms(2,3), of i] assms(1,4) by (simp add: claims_ok_def) (metis le_antisym One_nat_def)
  have n: "owned w' c' j = (if c' = c \<and> j = i then 0 else owned w c' j)" for c' j
    using owned_replace(1) [OF assms(2,3), of c' j] assms(4) o by auto
  have "holder i = Some c"
    using assms(1) o unfolding claims_ok_def by (metis zero_less_one)
  then have "owned w c' i = 0" if "c' \<noteq> c" for c'
    using assms(1) that unfolding claims_ok_def by (metis gr_zeroI option.inject)
  then have none: "owned w' c' i = 0" for c'
    using n by auto
  have "owned w' c' j \<le> 1" "owned w' c' j > 0 \<Longrightarrow> (holder(i := None)) j = Some c'" for c' j
    using assms(1) none [of c'] unfolding n claims_ok_def by (auto split: if_splits)
  moreover have "(holder(i := None)) j = None \<longleftrightarrow> state_of w' j \<noteq> SL_SLOT_INITIALIZING" for j
    using assms(1,6) unfolding assms(5) claims_ok_def by simp
  ultimately show ?thesis
    unfolding claims_ok_def by blast
qed

lemma owner_state:
  assumes "local_inv es w" "lw_points w c = p # ps" "owns p = Some i"
  shows "state_of w i = SL_SLOT_INITIALIZING" "\<And>c' q. q \<in> set (lw_points w c') \<Longrightarrow> owns q = Some i \<Longrightarrow> c' = c"
    "lp_holder (spec_after es) i = Some c"
proof -
  note claims = local_invD(2) [OF assms(1), unfolded claims_ok_def]
  have "owned w c i > 0"
    using assms(2,3) by (simp add: owned_def)
  then show held: "lp_holder (spec_after es) i = Some c"
    using claims by blast
  then show "state_of w i = SL_SLOT_INITIALIZING"
    using claims by (metis option.distinct(1))
  show "c' = c" if "q \<in> set (lw_points w c')" "owns q = Some i" for c' q
  proof -
    have "owned w c' i > 0"
      using that by (auto simp: owned_def filter_empty_conv)
    then show ?thesis
      using claims held by (metis option.inject)
  qed
qed

lemma holder_state: "local_inv es w \<Longrightarrow> lp_holder (spec_after es) i = None \<longleftrightarrow> state_of w i \<noteq> SL_SLOT_INITIALIZING"
  by (drule local_invD(2)) (simp add: claims_ok_def)

text \<open>Points of other contexts and of callbacks stay as they are.\<close>

lemma points_replace:
  assumes "local_inv es w" "lw_points w c = p # ps" "lw_points w' = (lw_points w)(c := qs @ ps)" "points_ok_at es' w' c qs"
    and "\<And>c' q. c' \<noteq> c \<Longrightarrow> q \<in> set (lw_points w c') \<Longrightarrow>
      point_ok (generation_of w) (published es) (spec_after es) c' q \<Longrightarrow>
      point_ok (generation_of w') (published es') (spec_after es') c' q"
  shows "\<forall>c'. points_ok_at es' w' c' (lw_points w' c')"
proof
  fix c'
  have "\<forall>q \<in> set ps. in_callback q"
    using assms(1,2) unfolding local_inv_def stacks_ok_def by (metis list.sel(3))
  then show "points_ok_at es' w' c' (lw_points w' c')"
    using assms callback_ok by (cases "c' = c") (auto simp: local_inv_def list_all_iff)
qed

lemma quiet_points:
  assumes "local_inv es w" "lw_points w c = p # ps" "lw_points w' = (lw_points w)(c := qs @ ps)" "points_ok_at es w c qs"
    and "generation_of w' = generation_of w" "published es' = published es" "spec_after es' = spec_after es"
  shows "\<forall>c'. points_ok_at es' w' c' (lw_points w' c')"
  using assms(4-7) by (intro points_replace [OF assms(1-3)]) simp_all

lemma event_list_simps:
  "spec_after (case e of None \<Rightarrow> es | Some e \<Rightarrow> e # es) = (case e of None \<Rightarrow> spec_after es | Some e \<Rightarrow> spec_step e (spec_after es))"
  by (cases e) simp_all

text \<open>Events that change neither the specification nor what is published.\<close>

definition quiet :: "local_event option \<Rightarrow> bool" where
  "quiet e \<longleftrightarrow> (case e of None \<Rightarrow> True | Some e \<Rightarrow>
     (case e of Exhausted _ \<Rightarrow> True | Call_failed _ _ \<Rightarrow> True | Called_back _ _ _ \<Rightarrow> True | Value_got _ _ _ \<Rightarrow> True | Was_set _ _ _ \<Rightarrow> True
        | _ \<Rightarrow> False))"

abbreviation events :: "local_event option \<Rightarrow> local_event list \<Rightarrow> local_event list" where
  "events e es \<equiv> (case e of None \<Rightarrow> es | Some e \<Rightarrow> e # es)"

lemma quiet_events:
  assumes "quiet e"
  shows "spec_after (events e es) = spec_after es" "published (events e es) = published es" "allocations (events e es) = allocations es"
  using assms by (auto simp: quiet_def spec_step_def fun_eq_iff split: option.splits local_event.splits)

lemma quiet_access_step:
  assumes inv: "local_inv es w" and here: "lw_points w c = p # ps" "lw_points w' = (lw_points w)(c := qs @ ps)" "length qs \<le> 1"
    and same: "state_of w' = state_of w" "generation_of w' = generation_of w" "lw_values w' = lw_values w" "quiet e"
    and claim: "map owns qs = [owns p] \<or> qs = [] \<and> owns p = None"
    and fine: "points_ok_at es w c qs"
  shows "local_inv (events e es) w'"
proof -
  note e = quiet_events [OF same(4), of es]
  have "length (List.filter (\<lambda>p. owns p = Some i) qs) = length (List.filter (\<lambda>p. owns p = Some i) [p])" for i
    using claim by (cases qs) auto
  then have "claims_ok (lp_holder (spec_after (events e es))) w'"
    using local_invD(2) [OF inv] unfolding e(1) by (intro claims_same [OF _ here(1,2) same(1)]) simp_all
  moreover have "slots_ok (events e es) w'"
    using inv same(1,2) e unfolding local_inv_def slots_ok_def by (simp add: fun_eq_iff)
  moreover have "values_ok (events e es) w'"
    using inv same(2,3) e(1) unfolding local_inv_def values_ok_def by (simp add: fun_eq_iff)
  moreover have "\<forall>c'. points_ok_at (events e es) w' c' (lw_points w' c')"
    using e by (intro quiet_points [OF inv here(1,2) fine same(2)]) simp_all
  ultimately show ?thesis
    using inv stacks_replace [OF _ here(1,3,2)] unfolding local_inv_def by blast
qed

lemma slots_okD:
  assumes "slots_ok es w"
  shows "lp_given (spec_after es) i = (state_of w i = SL_SLOT_ALLOCATED)" "state_of w i = SL_SLOT_ALLOCATED \<Longrightarrow> published es i"
    "unat (generation_of w i) = lp_generation (spec_after es) i" "lp_generation (spec_after es) i \<le> allocations es"
    "state_of w i \<le> SL_SLOT_ALLOCATED"
  using assms unfolding slots_ok_def by blast+

lemma slots_same_generations:
  assumes "slots_ok es w" "allocations es \<le> allocations es'" "generation_of w' = generation_of w"
    and "lp_generation (spec_after es') = lp_generation (spec_after es)"
    and "\<And>i. lp_given (spec_after es') i = (state_of w' i = SL_SLOT_ALLOCATED)"
    and "\<And>i. state_of w' i = SL_SLOT_ALLOCATED \<Longrightarrow> published es' i" "\<And>i. state_of w' i \<le> SL_SLOT_ALLOCATED"
  shows "slots_ok es' w'"
  using assms(1,2,5,6,7) unfolding slots_ok_def assms(4) fun_cong [OF assms(3)] by (meson order_trans)

text \<open>A point holds when the specification says more of the time since the call began.\<close>

lemma point_mono:
  assumes "point_ok gen pub s c q" "lp_shown s' = lp_shown s" "\<And>i. lp_since s c i \<Longrightarrow> lp_since s' c i" "\<And>i. lp_out s c i \<Longrightarrow> lp_out s' c i"
    and "\<And>i. lp_full s c i \<Longrightarrow> lp_full s' c i"
  shows "point_ok gen pub s' c q"
  using assms by (cases "(gen, pub, s, c, q)" rule: point_ok.cases) (auto split: if_splits)

text \<open>A slot is claimed.\<close>

lemma claim_step:
  assumes inv: "local_inv es w" and here: "lw_points w c = p # ps" "owns p = None" "owns q = Some i"
    and fine: "points_ok_at (e # es) w c [q]"
    and event: "e = Claimed c i \<and> state_of w i = SL_SLOT_FREE \<or> e = Withdrawn c i \<and> state_of w i = SL_SLOT_ALLOCATED"
  defines "w' \<equiv> set_points c ([q] @ ps) (set_slot i ((lw_slots w i)\<lparr>sl_state := SL_SLOT_INITIALIZING\<rparr>) w)"
  shows "local_inv (e # es) w'"
proof -
  note slots = local_invD(3) [OF inv]
  have spec: "lp_generation (spec_after (e # es)) = lp_generation (spec_after es)"
    "lp_shown (spec_after (e # es)) = lp_shown (spec_after es)" "published (e # es) = published es"
    "lp_given (spec_after (e # es)) = (lp_given (spec_after es))(i := False)" "allocations (e # es) = allocations es"
    "lp_holder (spec_after (e # es)) = (lp_holder (spec_after es))(i := Some c)"
    using event slots_okD(1) [OF slots, of i] by (auto simp: spec_step_def slot_states fun_eq_iff)
  have more: "lp_since (spec_after es) c' j \<Longrightarrow> lp_since (spec_after (e # es)) c' j"
    "lp_out (spec_after es) c' j \<Longrightarrow> lp_out (spec_after (e # es)) c' j"
    "lp_full (spec_after es) c' j \<Longrightarrow> lp_full (spec_after (e # es)) c' j" for c' j
    using event by (auto simp: spec_step_def)
  have world: "state_of w' j = (if j = i then SL_SLOT_INITIALIZING else state_of w j)" "generation_of w' = generation_of w" for j
    by (auto simp: w'_def)
  have "slots_ok (e # es) w'"
  proof (rule slots_same_generations [OF slots _ world(2) spec(1)])
    show "lp_given (spec_after (e # es)) j = (state_of w' j = SL_SLOT_ALLOCATED)" for j
      unfolding world spec(4) using slots_okD(1) [OF slots, of j] by (auto simp: slot_states)
    show "published (e # es) j" if "state_of w' j = SL_SLOT_ALLOCATED" for j
      using that slots_okD(2) [OF slots, of j] unfolding world spec(3) by (simp add: slot_states split: if_splits)
    show "state_of w' j \<le> SL_SLOT_ALLOCATED" for j
      unfolding world using slots_okD(5) [OF slots, of j] by (simp add: slot_states)
  qed (simp only: spec)
  moreover have "claims_ok (lp_holder (spec_after (e # es))) w'"
    unfolding spec
  proof (rule claims_taken [OF local_invD(2) [OF inv] here(1) _ here(2,3)])
    show "lw_points w' = (lw_points w)(c := [q] @ ps)" "state_of w' = (state_of w)(i := SL_SLOT_INITIALIZING)"
      by (auto simp: w'_def)
    show "state_of w i \<noteq> SL_SLOT_INITIALIZING"
      using event by (auto simp: slot_states)
  qed
  moreover have "values_ok (e # es) w'"
    using local_invD(4) [OF inv] unfolding values_ok_def spec world(2) by (simp add: w'_def)
  moreover have "stacks_ok w'"
    by (rule stacks_replace [OF local_invD(1) [OF inv] here(1), of "[q]"]) (simp_all add: w'_def)
  moreover have "\<forall>c'. points_ok_at (e # es) w' c' (lw_points w' c')"
  proof (rule points_replace [OF inv here(1)])
    show "lw_points w' = (lw_points w)(c := [q] @ ps)"
      by (simp add: w'_def)
    show "points_ok_at (e # es) w' c [q]"
      using fine unfolding world .
    show "point_ok (generation_of w') (published (e # es)) (spec_after (e # es)) c' q'"
      if "point_ok (generation_of w) (published es) (spec_after es) c' q'" for c' q'
      unfolding world spec by (rule point_mono [OF that spec(2) more])
  qed
  ultimately show ?thesis
    unfolding local_inv_def by blast
qed

text \<open>A slot gets its next generation.\<close>

lemma next_generation_points:
  assumes "point_ok gen pub s c q" "unat (gen i) + 1 = unat (gen i + 1)" "q \<noteq> Alloc_generation_again i callback" "lp_out s c i"
    and "lp_shown s' = (\<lambda>c. (lp_shown s c)(i := 0))" "lp_since s' = (\<lambda>c. (lp_since s c)(i := False))" "lp_out s' = lp_out s"
    "lp_full s' = lp_full s"
  shows "point_ok (gen(i := gen i + 1)) (pub(i := False)) s' c q"
proof -
  have later: "g \<noteq> gen i + 1" "g \<le> gen i + 1" if "g \<le> gen i" for g
    using that assms(2) by (auto simp: word_le_nat_alt)
  show ?thesis
    using assms(1,4) later unfolding assms(5-8)
    by (cases "(gen, pub, s, c, q)" rule: point_ok.cases) (auto simp: assms(5-8) split: if_splits)
qed

lemma generation_step:
  assumes inv: "local_inv es w" and here: "lw_points w c = Alloc_generation i callback # ps" and few: "allocations es < 2 ^ 64 - 1"
    and history: "history_ok (spec_after es)"
  defines "w' \<equiv> set_points c ([Alloc_callback i callback] @ ps)
    (set_slot i ((lw_slots w i)\<lparr>sl_generation := sl_generation (lw_slots w i) + 1\<rparr>) w)"
  shows "local_inv (Allocated i # es) w'" "generation_of w i + 1 \<noteq> 0"
proof -
  let ?s = "spec_after es" and ?s' = "spec_after (Allocated i # es)"
  note slots = slots_okD [OF local_invD(3) [OF inv]]
  have "unat (generation_of w i) < 2 ^ 64 - 1"
    using slots(3,4) [of i] few by linarith
  then have up: "unat (generation_of w i) + 1 = unat (generation_of w i + 1)"
    by (simp add: unat_word_ariths)
  show "generation_of w i + 1 \<noteq> 0"
  proof
    assume "generation_of w i + 1 = 0"
    then show False
      using up by simp
  qed
  have spec: "lp_generation ?s' = (lp_generation ?s)(i := lp_generation ?s i + 1)"
    "lp_shown ?s' = (\<lambda>c. (lp_shown ?s c)(i := 0))" "lp_given ?s' = lp_given ?s"
    "published (Allocated i # es) = (published es)(i := False)" "lp_holder ?s' = lp_holder ?s"
    "lp_since ?s' = (\<lambda>c. (lp_since ?s c)(i := False))" "lp_out ?s' = lp_out ?s" "lp_full ?s' = lp_full ?s"
    "allocations (Allocated i # es) = Suc (allocations es)"
    by (auto simp: spec_step_def fun_eq_iff)
  have world: "state_of w' = state_of w" "generation_of w' = (generation_of w)(i := generation_of w i + 1)"
    "lw_points w' = (lw_points w)(c := [Alloc_callback i callback] @ ps)" "lw_values w' = lw_values w"
    by (auto simp: w'_def)
  have init: "state_of w i = SL_SLOT_INITIALIZING"
    by (rule owner_state(1) [OF inv here]) simp
  have out: "lp_out ?s c' i" for c'
    using history slots(1) [of i] init by (simp add: history_ok_def slot_states)
  have counted: "unat (generation_of w i + 1) = lp_generation ?s i + 1" "lp_generation ?s i + 1 \<le> Suc (allocations es)"
    using up slots(3,4) [of i] by simp_all
  have "slots_ok (Allocated i # es) w'"
    unfolding slots_ok_def world spec
    using slots init counted by (auto simp: slot_states le_SucI)
  moreover have "values_ok (Allocated i # es) w'"
  proof -
    have v: "lv_generation (lw_values w c' j) \<le> generation_of w j" for c' j
      using local_invD(4) [OF inv] by (simp add: values_ok_def)
    have "lv_generation (lw_values w c' i) \<le> generation_of w i + 1" "lv_generation (lw_values w c' i) \<noteq> generation_of w i + 1" for c'
      using v [of c' i] up by (auto simp: word_le_nat_alt)
    then show ?thesis
      using local_invD(4) [OF inv] unfolding values_ok_def world spec by auto
  qed
  moreover have "claims_ok (lp_holder ?s') w'"
    unfolding spec by (rule claims_same [OF local_invD(2) [OF inv] here world(3,1)]) simp
  moreover have "stacks_ok w'"
    by (rule stacks_replace [OF local_invD(1) [OF inv] here _ world(3)]) simp
  moreover have "\<forall>c'. points_ok_at (Allocated i # es) w' c' (lw_points w' c')"
  proof (rule points_replace [OF inv here world(3)])
    show "points_ok_at (Allocated i # es) w' c [Alloc_callback i callback]"
      using local_invD(5) [OF inv, of c] by (simp add: here spec_step_def)
    show "point_ok (generation_of w') (published (Allocated i # es)) ?s' c' q"
      if "c' \<noteq> c" "q \<in> set (lw_points w c')" "point_ok (generation_of w) (published es) ?s c' q" for c' q
      unfolding world spec(4) using that(3)
      by (intro next_generation_points [OF that(3) up _ out spec(2,6,7,8)]) auto
  qed
  ultimately show "local_inv (Allocated i # es) w'"
    unfolding local_inv_def by blast
qed

text \<open>A slot is let go.\<close>

lemma publish_points:
  assumes "point_ok gen pub s c q" "owns q \<noteq> Some i"
  shows "point_ok gen (pub(i := True)) s c q"
  using assms by (cases "(gen, pub, s, c, q)" rule: point_ok.cases) auto

lemma release_step:
  assumes inv: "local_inv es w" and here: "lw_points w c = p # ps" "owns p = Some i"
    and event: "e = Handed_out c i \<and> x = SL_SLOT_ALLOCATED \<or> e = Freed c i \<and> x = SL_SLOT_FREE"
  defines "w' \<equiv> set_points c ([] @ ps) (set_slot i ((lw_slots w i)\<lparr>sl_state := x\<rparr>) w)"
  shows "local_inv (e # es) w'"
proof -
  let ?s = "spec_after es" and ?s' = "spec_after (e # es)"
  note slots = slots_okD [OF local_invD(3) [OF inv]]
  have spec: "lp_generation ?s' = lp_generation ?s" "lp_shown ?s' = lp_shown ?s"
    "published (e # es) = (if x = SL_SLOT_ALLOCATED then (published es)(i := True) else published es)"
    "lp_given ?s' = (if x = SL_SLOT_ALLOCATED then (lp_given ?s)(i := True) else lp_given ?s)"
    "lp_holder ?s' = (lp_holder ?s)(i := None)" "allocations (e # es) = allocations es"
    using event by (auto simp: spec_step_def slot_states fun_eq_iff)
  have more: "lp_since ?s c' j \<Longrightarrow> lp_since ?s' c' j" "lp_out ?s c' j \<Longrightarrow> lp_out ?s' c' j" "lp_full ?s c' j \<Longrightarrow> lp_full ?s' c' j" for c' j
    using event by (auto simp: spec_step_def)
  have world: "state_of w' = (state_of w)(i := x)" "generation_of w' = generation_of w"
    "lw_points w' = (lw_points w)(c := [] @ ps)" "lw_values w' = lw_values w"
    by (auto simp: w'_def)
  have init: "state_of w i = SL_SLOT_INITIALIZING"
    by (rule owner_state(1) [OF inv here])
  have "slots_ok (e # es) w'"
  proof (rule slots_same_generations [OF local_invD(3) [OF inv] _ world(2) spec(1)])
    show "lp_given ?s' j = (state_of w' j = SL_SLOT_ALLOCATED)" for j
      unfolding fun_cong [OF world(1)] spec using slots(1) [of j] init event by (auto simp: slot_states)
    show "published (e # es) j" if "state_of w' j = SL_SLOT_ALLOCATED" for j
      using that slots(2) [of j] unfolding fun_cong [OF world(1)] spec by (auto split: if_splits)
    show "state_of w' j \<le> SL_SLOT_ALLOCATED" for j
      unfolding world using slots(5) [of j] event by (auto simp: slot_states)
  qed (simp only: spec)
  moreover have "values_ok (e # es) w'"
    using local_invD(4) [OF inv] unfolding values_ok_def world spec .
  moreover have "claims_ok (lp_holder ?s') w'"
    unfolding spec using event
    by (intro claims_released [OF local_invD(2) [OF inv] here(1) world(3) here(2) world(1)]) (auto simp: slot_states)
  moreover have "stacks_ok w'"
    by (rule stacks_replace [OF local_invD(1) [OF inv] here(1) _ world(3)]) simp
  moreover have "\<forall>c'. points_ok_at (e # es) w' c' (lw_points w' c')"
  proof (rule points_replace [OF inv here(1) world(3)])
    show "point_ok (generation_of w') (published (e # es)) ?s' c' q"
      if "c' \<noteq> c" "q \<in> set (lw_points w c')" "point_ok (generation_of w) (published es) ?s c' q" for c' q
    proof -
      have "owns q \<noteq> Some i"
        using owner_state(2) [OF inv here that(2)] that(1) by blast
      then have "point_ok (generation_of w) (published (e # es)) ?s c' q"
        unfolding spec using publish_points [OF that(3)] that(3) by simp
      then show ?thesis
        unfolding world by (rule point_mono [OF _ spec(2) more])
    qed
  qed simp
  ultimately show ?thesis
    unfolding local_inv_def by blast
qed

text \<open>A context stores a value.\<close>

lemma shown_points:
  assumes "point_ok gen pub s c' q" "c' \<noteq> c" "x \<noteq> 0 \<longrightarrow> pub i" "s' = show_value c i x s"
  shows "point_ok gen pub s' c' q"
  using assms by (cases "(gen, pub, s, c', q)" rule: point_ok.cases) (auto simp: show_value_def)

lemma value_step:
  assumes inv: "local_inv es w" and here: "lw_points w c = p # ps" "length qs \<le> 1"
    and claim: "map owns qs = [owns p] \<or> qs = [] \<and> owns p = None"
    and world: "lw_points w' = (lw_points w)(c := qs @ ps)" "state_of w' = state_of w" "generation_of w' = generation_of w"
      "lw_values w' = (lw_values w)(c := (lw_values w c)(i := \<lparr>lv_value = v, lv_generation = g\<rparr>))"
    and g: "g \<le> generation_of w i" and x: "x = (if g = generation_of w i then v else 0)" "x \<noteq> 0 \<longrightarrow> published es i"
    and spec: "spec_after (e # es) = show_value c i x (spec_after es)" "published (e # es) = published es"
      "allocations (e # es) = allocations es"
    and fine: "points_ok_at (e # es) w' c qs"
  shows "local_inv (e # es) w'"
proof -
  note slots = slots_okD [OF local_invD(3) [OF inv]]
  have fields: "lp_generation (spec_after (e # es)) = lp_generation (spec_after es)"
    "lp_given (spec_after (e # es)) = lp_given (spec_after es)" "lp_holder (spec_after (e # es)) = lp_holder (spec_after es)"
    "lp_shown (spec_after (e # es)) = (lp_shown (spec_after es))(c := (lp_shown (spec_after es) c)(i := x))"
    unfolding spec(1) by (simp_all add: show_value_def)
  have "slots_ok (e # es) w'"
    by (rule slots_same_generations [OF local_invD(3) [OF inv] _ world(3) fields(1)])
      (simp_all only: spec(2,3) fields(2) fun_cong [OF world(2)] slots(1,2,5) order_refl)
  moreover have "values_ok (e # es) w'"
    using local_invD(4) [OF inv] g x(1) unfolding values_ok_def world fields by auto
  moreover have "claims_ok (lp_holder (spec_after (e # es))) w'"
    unfolding fields
  proof (rule claims_same [OF local_invD(2) [OF inv] here(1) world(1,2)])
    show "length (List.filter (\<lambda>p. owns p = Some j) qs) = length (List.filter (\<lambda>p. owns p = Some j) [p])" for j
      using claim by (cases qs) auto
  qed
  moreover have "stacks_ok w'"
    by (rule stacks_replace [OF local_invD(1) [OF inv] here world(1)])
  moreover have "\<forall>c'. points_ok_at (e # es) w' c' (lw_points w' c')"
    by (intro points_replace [OF inv here(1) world(1) fine])
      (simp only: world spec(2), rule shown_points [where pub = "published es" and i = i, OF _ _ x(2) spec(1)]; assumption)
  ultimately show ?thesis
    unfolding local_inv_def by blast
qed

section \<open>Every step keeps the invariant\<close>

lemma call_point: "call_starts p \<Longrightarrow> owns p = None \<and> point_ok gen pub s c p"
  by (auto simp: call_starts_def sl_kernel32_tls_alloc_def sl_kernel32_fls_alloc_def sl_kernel32_tls_free_def
      sl_kernel32_fls_free_def local_get_def local_set_def split: if_splits)

lemma call_step:
  assumes "local_inv es w" "call_starts p" "lw_points w c = [] \<or> in_callback (hd (lw_points w c))"
  shows "local_inv (Called c # es) (set_points c (p # lw_points w c) w)"
proof -
  let ?w = "set_points c (p # lw_points w c) w" and ?s = "spec_after es" and ?s' = "spec_after (Called c # es)"
  have spec: "lp_generation ?s' = lp_generation ?s" "lp_given ?s' = lp_given ?s" "lp_holder ?s' = lp_holder ?s"
    "lp_shown ?s' = lp_shown ?s" "published (Called c # es) = published es" "allocations (Called c # es) = allocations es"
    by (auto simp: spec_step_def)
  have same: "lp_since ?s' c' = lp_since ?s c'" "lp_out ?s' c' = lp_out ?s c'" "lp_full ?s' c' = lp_full ?s c'" if "c' \<noteq> c" for c'
    using that by (simp_all add: spec_step_def)
  have "owned ?w c' i = owned w c' i" for c' i
    using call_point [OF assms(2)] by (simp add: owned_def)
  then have "claims_ok (lp_holder ?s') ?w"
    using local_invD(2) [OF assms(1)] unfolding spec by (simp add: claims_ok_def)
  moreover have callbacks: "\<forall>q \<in> set (lw_points w c). in_callback q"
    using local_invD(1) [OF assms(1)] assms(3) unfolding stacks_ok_def by (metis empty_iff list.set(1) list.set_cases list.sel(1,3) set_ConsD)
  then have "stacks_ok ?w"
    using local_invD(1) [OF assms(1)] by (simp add: stacks_ok_def)
  moreover have "points_ok_at (Called c # es) ?w c' (lw_points ?w c')" for c'
  proof (cases "c' = c")
    case True
    then show ?thesis
      using callbacks callback_ok call_point [OF assms(2)] by (simp add: list_all_iff)
  next
    case False
    have "point_ok (generation_of ?w) (published (Called c # es)) ?s' c' q" if "q \<in> set (lw_points w c')" for q
    proof -
      have "point_ok (generation_of ?w) (published (Called c # es)) ?s c' q"
        using that local_invD(5) [OF assms(1), of c'] unfolding spec by (simp add: list_all_iff)
      then show ?thesis
        by (rule point_mono [OF _ spec(4)]) (simp_all only: same [OF False])
    qed
    then show ?thesis
      using False by (simp add: list_all_iff del: spec_after.simps published.simps)
  qed
  moreover have "slots_ok (Called c # es) ?w" "values_ok (Called c # es) ?w"
    using local_invD(3,4) [OF assms(1)] unfolding slots_ok_def values_ok_def spec by simp_all
  ultimately show ?thesis
    unfolding local_inv_def by blast
qed

text \<open>What one access keeps and promises.\<close>

definition kept :: "local_event list \<Rightarrow> nat \<Rightarrow> local_point list \<Rightarrow> local_world \<times> local_point list \<times> local_event option \<Rightarrow> bool" where
  "kept es c ps r \<longleftrightarrow> (case r of (w', qs, e) \<Rightarrow> local_inv (events e es) (set_points c (qs @ ps) w') \<and>
     (case e of None \<Rightarrow> True | Some ev \<Rightarrow> spec_allows ev (spec_after es)))"

lemma keptI:
  "local_inv (events e es) (set_points c (qs @ ps) w') \<Longrightarrow> (case e of None \<Rightarrow> True | Some ev \<Rightarrow> spec_allows ev (spec_after es)) \<Longrightarrow>
     kept es c ps (w', qs, e)"
  by (simp add: kept_def)

lemma kept_quiet:
  assumes "local_inv es w" "lw_points w c = p # ps" "length qs \<le> 1" "quiet e" "case e of None \<Rightarrow> True | Some ev \<Rightarrow> spec_allows ev (spec_after es)"
    and "state_of w' = state_of w" "generation_of w' = generation_of w" "lw_values w' = lw_values w" "lw_points w' = lw_points w"
    and "map owns qs = [owns p] \<or> qs = [] \<and> owns p = None" "points_ok_at es w c qs"
  shows "kept es c ps (w', qs, e)"
  using assms by (intro keptI quiet_access_step [OF assms(1,2)]) simp_all

lemma alloc_kept:
  assumes inv: "local_inv es w" and here: "lw_points w c = p # ps" and few: "allocations es < 2 ^ 64 - 1"
    and history: "history_ok (spec_after es)"
    and p: "p = Alloc_try i callback \<or> p = Alloc_generation i callback \<or> p = Alloc_callback i callback \<or> p = Alloc_publish i"
  shows "kept es c ps (local_alloc c w p)"
proof -
  note point = local_invD(5) [OF inv, of c, unfolded here]
  have given: "lp_given (spec_after es) i = (state_of w i = SL_SLOT_ALLOCATED)"
    by (rule slots_okD(1) [OF local_invD(3) [OF inv]])
  note holder = holder_state [OF inv, of i]
  consider "p = Alloc_try i callback" "i \<ge> SL_WIN32_LOCAL_SLOT_COUNT"
    | "p = Alloc_try i callback" "i < SL_WIN32_LOCAL_SLOT_COUNT" "state_of w i = SL_SLOT_FREE"
    | "p = Alloc_try i callback" "i < SL_WIN32_LOCAL_SLOT_COUNT" "state_of w i \<noteq> SL_SLOT_FREE"
    | "p = Alloc_generation i callback" | "p = Alloc_callback i callback" | "p = Alloc_publish i"
    using p by linarith
  then show ?thesis
  proof cases
    case 1
    then show ?thesis
      using point unfolding local_alloc_def by (simp, intro kept_quiet [OF inv here]) (simp_all add: quiet_def spec_allows_def)
  next
    case 2
    have "local_inv (Claimed c i # es) (set_points c ([Alloc_generation i callback] @ ps)
        (set_slot i ((lw_slots w i)\<lparr>sl_state := SL_SLOT_INITIALIZING\<rparr>) w))"
      using 2 by (intro claim_step [OF inv here]) simp_all
    moreover have "\<not> is_taken (spec_after es) i"
      using 2(3) given holder by (simp add: is_taken_def slot_states)
    ultimately show ?thesis
      using 2 by (simp add: local_alloc_def kept_def spec_allows_def)
  next
    case 3
    have "is_taken (spec_after es) i"
      using 3(3) given holder slots_okD(5) [OF local_invD(3) [OF inv], of i] by (auto simp: is_taken_def slot_states)
    then have "lp_full (spec_after es) c j" if "j < i + 1" for j
      using that point history 3(1) by (cases "j = i") (simp_all add: history_ok_def)
    then show ?thesis
      using 3 unfolding local_alloc_def by (simp, intro kept_quiet [OF inv here]) (simp_all add: quiet_def)
  next
    case 4
    note step = generation_step [OF inv here [unfolded 4] few history]
    have "state_of w i = SL_SLOT_INITIALIZING"
      using owner_state(1) [OF inv here, of i] 4 by simp
    then show ?thesis
      using step given by (simp add: 4 local_alloc_def kept_def spec_allows_def Let_def slot_states)
  next
    case 5
    then show ?thesis
      using point unfolding local_alloc_def by (simp, intro kept_quiet [OF inv here]) (simp_all add: quiet_def)
  next
    case 6
    have "local_inv (Handed_out c i # es) (set_points c ([] @ ps) (set_slot i ((lw_slots w i)\<lparr>sl_state := SL_SLOT_ALLOCATED\<rparr>) w))"
      using 6 by (intro release_step [OF inv here]) simp_all
    moreover have "\<not> lp_given (spec_after es) i" "lp_holder (spec_after es) i = Some c"
      using given owner_state(1,3) [OF inv here, of i] 6 by (simp_all add: slot_states)
    ultimately show ?thesis
      using 6 point by (simp add: local_alloc_def kept_def spec_allows_def)
  qed
qed

lemma free_kept:
  assumes inv: "local_inv es w" and here: "lw_points w c = p # ps" and history: "history_ok (spec_after es)"
    and p: "p = Free_claim i b \<or> p = Free_clear i b \<or> p = Free_callback i callback value \<or> p = Free_publish i"
  shows "kept es c ps (local_free c w p)"
proof -
  consider "p = Free_claim i b" "i \<ge> SL_WIN32_LOCAL_SLOT_COUNT \<or> state_of w i \<noteq> SL_SLOT_ALLOCATED"
    | "p = Free_claim i b" "i < SL_WIN32_LOCAL_SLOT_COUNT" "state_of w i = SL_SLOT_ALLOCATED"
    | "p = Free_clear i b" | "p = Free_callback i callback value" | "p = Free_publish i"
    using p by linarith
  then show ?thesis
  proof cases
    case 1
    then have "local_free c w p = (w, [], Some (Call_failed c i))"
      by (auto simp: local_free_def)
    moreover have "i < SL_WIN32_LOCAL_SLOT_COUNT \<longrightarrow> lp_out (spec_after es) c i"
      using 1(2) history slots_okD(1) [OF local_invD(3) [OF inv], of i] by (auto simp: history_ok_def)
    ultimately show ?thesis
      using 1 by (simp, intro kept_quiet [OF inv here]) (simp_all add: quiet_def spec_allows_def)
  next
    case 2
    have "local_inv (Withdrawn c i # es) (set_points c ([Free_clear i b] @ ps)
        (set_slot i ((lw_slots w i)\<lparr>sl_state := SL_SLOT_INITIALIZING\<rparr>) w))"
      using 2 by (intro claim_step [OF inv here]) simp_all
    then show ?thesis
      using 2 slots_okD(1) [OF local_invD(3) [OF inv], of i] by (simp add: local_free_def kept_def spec_allows_def)
  next
    case 3
    obtain q where q: "local_free c w p = (set_slot i ((lw_slots w i)\<lparr>sl_callback_address := 0\<rparr>) (set_value c i 0 0 w), [q],
        Some (Cleared c i))" "owns q = Some i" "\<And>gen pub s. point_ok gen pub s c q"
      by (simp add: 3 local_free_def Let_def)
    have "local_inv (Cleared c i # es) (set_points c ([q] @ ps) (set_slot i ((lw_slots w i)\<lparr>sl_callback_address := 0\<rparr>)
        (set_value c i 0 0 w)))"
      using q(2,3) 3 by (intro value_step [OF inv here, where qs = "[q]" and i = i and v = 0 and g = 0 and x = 0])
        (auto simp: spec_step_def)
    then show ?thesis
      using q(1) by (simp add: kept_def spec_allows_def)
  next
    case 4
    then show ?thesis
      unfolding local_free_def by (simp, intro kept_quiet [OF inv here]) (simp_all add: quiet_def spec_allows_def)
  next
    case 5
    have "local_inv (Freed c i # es) (set_points c ([] @ ps) (set_slot i ((lw_slots w i)\<lparr>sl_state := SL_SLOT_FREE\<rparr>) w))"
      using 5 by (intro release_step [OF inv here]) simp_all
    then show ?thesis
      using 5 owner_state(3) [OF inv here, of i] by (simp add: local_free_def kept_def spec_allows_def)
  qed
qed

lemma generation_kept:
  assumes inv: "local_inv es w" and here: "lw_points w c = p # ps" and history: "history_ok (spec_after es)"
    and p: "p = Generation_before op i \<or> p = Generation_state op i g \<or> p = Generation_after op i g"
  shows "kept es c ps (local_generation c w p)"
proof -
  note point = local_invD(5) [OF inv, of c, unfolded here]
  have published: "state_of w i = SL_SLOT_ALLOCATED \<Longrightarrow> published es i \<and> lp_since (spec_after es) c i"
    "state_of w i \<noteq> SL_SLOT_ALLOCATED \<Longrightarrow> lp_out (spec_after es) c i"
    using slots_okD(1,2) [OF local_invD(3) [OF inv], of i] history by (auto simp: history_ok_def)
  consider "p = Generation_before op i" | "p = Generation_state op i g" "state_of w i \<noteq> SL_SLOT_ALLOCATED"
    | "p = Generation_state op i g" "state_of w i = SL_SLOT_ALLOCATED"
    | "p = Generation_after op i g" "generation_of w i = g" | "p = Generation_after op i g" "generation_of w i \<noteq> g"
    using p by linarith
  then show ?thesis
  proof cases
    case 1
    then show ?thesis
      unfolding local_generation_def by (simp, intro kept_quiet [OF inv here]) (simp_all add: quiet_def)
  next
    case 2
    then show ?thesis
      using published unfolding local_generation_def by (simp, intro kept_quiet [OF inv here]) (simp_all add: quiet_def spec_allows_def)
  next
    case 3
    then show ?thesis
      using point published unfolding local_generation_def by (simp, intro kept_quiet [OF inv here]) (simp_all add: quiet_def)
  next
    case 4
    then show ?thesis
      using point unfolding local_generation_def by (simp, intro kept_quiet [OF inv here]) (simp_all add: quiet_def)
  next
    case 5
    then show ?thesis
      unfolding local_generation_def by (simp, intro kept_quiet [OF inv here]) (simp_all add: quiet_def)
  qed
qed

lemma refused_kept:
  assumes inv: "local_inv es w" and here: "lw_points w c = p # ps" "owns p = None" and out: "lp_out (spec_after es) c i"
  shows "kept es c ps (refused c op i w)"
proof (cases op)
  case Get_value
  then show ?thesis
    using here(2) out unfolding refused_def by (simp, intro kept_quiet [OF inv here(1)]) (simp_all add: quiet_def spec_allows_def)
next
  case (Set_value v)
  have "local_inv (Unset c i # es) (set_points c ([] @ ps) (set_value c i 0 0 w))"
    using here(2) by (intro value_step [OF inv here(1), where qs = "[]" and i = i and v = 0 and g = 0 and x = 0])
      (auto simp: spec_step_def)
  then show ?thesis
    using out by (simp add: Set_value refused_def kept_def spec_allows_def)
qed

lemma stored_kept:
  assumes inv: "local_inv es w" and here: "lw_points w c = Access_value (Set_value v) i g # ps"
  shows "kept es c ps (local_get_set c w (Access_value (Set_value v) i g))"
proof -
  have point: "g \<le> generation_of w i" "g = generation_of w i \<Longrightarrow> published es i \<and> lp_since (spec_after es) c i"
      "g \<noteq> generation_of w i \<Longrightarrow> lp_out (spec_after es) c i \<and> lp_shown (spec_after es) c i = 0"
    using local_invD(5) [OF inv, of c, unfolded here] by (auto split: if_splits)
  have current: "unat g = lp_generation (spec_after es) i \<longleftrightarrow> g = generation_of w i"
    using slots_okD(3) [OF local_invD(3) [OF inv], of i] by (auto simp: word_unat_eq_iff)
  let ?x = "if g = generation_of w i then v else 0" and ?e = "Stored c i v g"
  have shown: "spec_after (?e # es) = show_value c i ?x (spec_after es)"
    using point(3) current by (auto simp: spec_step_def show_value_def fun_upd_idem intro!: local_spec.equality)
  have "local_inv (?e # es) (set_points c ([Check_state (Set_value v) i g v] @ ps) (set_value c i v g w))"
  proof (rule value_step [OF inv here, where i = i and v = v and g = g and x = ?x])
    show "points_ok_at (?e # es) (set_points c ([Check_state (Set_value v) i g v] @ ps) (set_value c i v g w)) c
        [Check_state (Set_value v) i g v]"
      unfolding shown using point by (simp add: show_value_def)
  qed (use point(1,2) shown in auto)
  then show ?thesis
    by (simp add: local_get_set_def kept_def spec_allows_def)
qed

lemma get_set_kept:
  assumes inv: "local_inv es w" and here: "lw_points w c = p # ps" and history: "history_ok (spec_after es)"
    and p: "p = Access_value op i g \<or> p = Check_state op i g v \<or> p = Check_generation op i g v"
  shows "kept es c ps (local_get_set c w p)"
proof -
  note point = local_invD(5) [OF inv, of c, unfolded here]
  have shown: "lp_shown (spec_after es) c i =
      (if lv_generation (lw_values w c i) = generation_of w i then lv_value (lw_values w c i) else 0)"
    using local_invD(4) [OF inv] by (simp add: values_ok_def)
  have unused: "state_of w i \<noteq> SL_SLOT_ALLOCATED \<Longrightarrow> lp_out (spec_after es) c i"
    using slots_okD(1) [OF local_invD(3) [OF inv], of i] history by (simp add: history_ok_def)
  consider v where "p = Access_value (Set_value v) i g" | "p = Access_value Get_value i g"
    | "p = Check_state op i g v" "state_of w i \<noteq> SL_SLOT_ALLOCATED" | "p = Check_state op i g v" "state_of w i = SL_SLOT_ALLOCATED"
    | "p = Check_generation op i g v" "generation_of w i \<noteq> g" | "p = Check_generation op i g v" "generation_of w i = g"
    using p by (cases op) auto
  then show ?thesis
  proof cases
    case 1
    then show ?thesis
      using stored_kept [OF inv] here by simp
  next
    case 2
    let ?v = "if lv_generation (lw_values w c i) = g then lv_value (lw_values w c i) else 0"
    have access: "local_get_set c w p = (w, [Check_state Get_value i g ?v], None)"
      by (simp add: 2 local_get_set_def Let_def)
    have "points_ok_at es w c [Check_state Get_value i g ?v]"
      using point shown 2 by (simp split: if_splits)
    then show ?thesis
      unfolding access by (intro kept_quiet [OF inv here]) (simp_all add: 2 quiet_def)
  next
    case 3
    then show ?thesis
      using refused_kept [OF inv here _ unused [OF 3(2)]] by (simp add: local_get_set_def)
  next
    case 4
    then show ?thesis
      using point unfolding local_get_set_def by (simp, intro kept_quiet [OF inv here]) (simp_all add: quiet_def)
  next
    case 5
    then have "lp_out (spec_after es) c i"
      using point by simp
    then show ?thesis
      using 5 refused_kept [OF inv here] by (simp add: local_get_set_def)
  next
    case 6
    then show ?thesis
      using point unfolding local_get_set_def by (simp, intro kept_quiet [OF inv here])
        (cases op; simp add: quiet_def spec_allows_def)+
  qed
qed

lemma access_kept:
  assumes inv: "local_inv es w" and here: "lw_points w c = p # ps" and few: "allocations es < 2 ^ 64 - 1"
    and history: "history_ok (spec_after es)"
  shows "kept es c ps (local_access c w p)"
proof (cases p)
  case (Alloc_generation_again i callback)
  then show ?thesis
    using local_invD(5) [OF inv, of c, unfolded here] by simp
qed (use alloc_kept [OF inv here few history] free_kept [OF inv here history] generation_kept [OF inv here history]
  get_set_kept [OF inv here history]
  in \<open>simp add: local_access_def; blast\<close>)+

lemma step_keeps:
  assumes "local_inv es w" "local_step w e w'" "allocations es < 2 ^ 64 - 1" "history_ok (spec_after es)"
  shows "local_inv (events e es) w' \<and> (case e of None \<Rightarrow> True | Some ev \<Rightarrow> spec_allows ev (spec_after es))"
  using assms(2)
proof cases
  case (local_call p c)
  then show ?thesis
    using call_step [OF assms(1)] by (simp add: spec_allows_def)
next
  case (local_access c p ps w'' qs)
  then show ?thesis
    using access_kept [OF assms(1) local_access(2) assms(3,4)] by (simp add: kept_def)
qed

lemma local_inv_start: "local_inv [] local_start"
  by (simp add: local_inv_def stacks_ok_def claims_ok_def slots_ok_def values_ok_def owned_def local_start_def spec_start_def
      state_of_def generation_of_def slot_states del: slot_fields)

section \<open>The property\<close>

lemma allocations_mono: "allocations es \<le> allocations (events e es)"
  by (auto split: option.split local_event.split)

text \<open>C37: in every interleaving of calls, callbacks among them, the slots behave as if each call were one atomic action
  on a plain table. A context claims an index only while nobody has it, and is the one that hands it out, when no context
  reads anything at it; \<open>TlsAlloc\<close> gives up only when every index was taken at some time during the call. \<open>TlsFree\<close> and \<open>FlsFree\<close>
  withdraw only an index in use, and answer success only to the context that withdrew it. When \<open>TlsGetValue\<close>,
  \<open>TlsSetValue\<close> and their kin for fibers succeed, the index was in use at some time during the call, in the generation it
  has at the return: the value read is what this context stored last since the index was given out, or null, and the value
  stored is there. So no value outlives its index. When one of these calls is refused, the index was out of use at some
  time during the call. The bound keeps the 64-bit generations from wrapping around.\<close>

theorem local_slots_linearize:
  assumes "local_run es w" "allocations es < 2 ^ 64 - 1"
  shows "spec_accepts es"
proof -
  have "allocations es < 2 ^ 64 - 1 \<longrightarrow> spec_accepts es \<and> local_inv es w"
    using assms(1)
  proof induction
    case run_start
    then show ?case by (simp add: local_inv_start)
  next
    case (run_step es w e w')
    show ?case
    proof
      assume few: "allocations (events e es) < 2 ^ 64 - 1"
      then have "allocations es < 2 ^ 64 - 1"
        using allocations_mono [of es e] by linarith
      then show "spec_accepts (events e es) \<and> local_inv (events e es) w'"
        using run_step.IH step_keeps [OF _ run_step.hyps(2)] accepted_history by (cases e) auto
    qed
  qed
  then show ?thesis
    using assms(2) by blast
qed

section \<open>Schedules\<close>

text \<open>A schedule says which context calls or makes its next access; what is not possible is passed over.\<close>

definition callable :: "local_point \<Rightarrow> bool" where
  "callable p = (case p of Alloc_try i _ \<Rightarrow> i = 0 | Free_claim i _ \<Rightarrow> i < SL_WIN32_LOCAL_SLOT_COUNT
     | Generation_before _ i \<Rightarrow> i < SL_WIN32_LOCAL_SLOT_COUNT | _ \<Rightarrow> False)"

definition may_call :: "local_point list \<Rightarrow> bool" where
  "may_call ps = (case ps of [] \<Rightarrow> True | Free_callback _ _ _ # _ \<Rightarrow> True | _ \<Rightarrow> False)"

primrec replay :: "(nat \<times> local_point option) list \<Rightarrow> local_event list \<times> local_world \<Rightarrow> local_event list \<times> local_world" where
  "replay [] s = s"
| "replay (a # rest) s = replay rest (case (a, s) of ((c, action), (es, w)) \<Rightarrow>
     (case action of
        Some p \<Rightarrow> if callable p \<and> may_call (lw_points w c) then (Called c # es, set_points c (p # lw_points w c) w) else (es, w)
      | None \<Rightarrow> (case lw_points w c of
                  [] \<Rightarrow> (es, w)
                | p # ps \<Rightarrow> (case local_access c w p of (w', qs, e) \<Rightarrow> (events e es, set_points c (qs @ ps) w')))))"

lemma small_index: "i < SL_WIN32_LOCAL_SLOT_COUNT \<Longrightarrow> unat (of_nat i :: u32) = i"
  by (simp add: SL_WIN32_LOCAL_SLOT_COUNT_def unsigned_of_nat take_bit_nat_eq_self)

lemma callable_starts: "callable p \<Longrightarrow> call_starts p"
proof -
  assume p: "callable p"
  then consider callback where "p = Alloc_try 0 callback" | i b where "p = Free_claim i b" "i < SL_WIN32_LOCAL_SLOT_COUNT"
    | op i where "p = Generation_before op i" "i < SL_WIN32_LOCAL_SLOT_COUNT"
    by (cases p) (auto simp: callable_def)
  then show "call_starts p"
  proof cases
    case 1
    then show ?thesis by (auto simp: call_starts_def sl_kernel32_fls_alloc_def)
  next
    case 2
    then have "p = sl_kernel32_tls_free (of_nat i) \<or> p = sl_kernel32_fls_free (of_nat i)"
      by (cases b) (simp_all add: sl_kernel32_tls_free_def sl_kernel32_fls_free_def small_index)
    then show ?thesis by (auto simp: call_starts_def)
  next
    case 3
    then have "local_get (of_nat i) = Some p \<or> (\<exists>v. local_set (of_nat i) v = Some p)"
      by (cases op) (simp_all add: local_get_def local_set_def small_index)
    then show ?thesis unfolding call_starts_def by blast
  qed
qed

lemma may_call_iff: "may_call ps \<longleftrightarrow> ps = [] \<or> in_callback (hd ps)"
  by (auto simp: may_call_def in_callback_def split: list.splits local_point.splits)

lemma replay_run: "local_run (fst s) (snd s) \<Longrightarrow> local_run (fst (replay schedule s)) (snd (replay schedule s))"
proof (induction schedule arbitrary: s)
  case (Cons a rest)
  obtain c action es w where s: "a = (c, action)" "s = (es, w)"
    by (cases a; cases s) blast
  have run: "local_run es w"
    using Cons.prems s by simp
  have "local_run (Called c # es) (set_points c (p # lw_points w c) w)" if "callable p" "may_call (lw_points w c)" for p
    using run_step [OF run local_call [OF callable_starts [OF that(1)]], of c] that(2) by (simp add: may_call_iff)
  moreover have "local_run (events e es) (set_points c (qs @ ps) w')"
    if "lw_points w c = p # ps" "local_access c w p = (w', qs, e)" for p ps w' qs e
    by (rule run_step [OF run local_access [OF that]])
  ultimately show ?case
    using run by (simp add: s, intro Cons.IH) (auto split: option.splits list.splits prod.splits)
qed simp

text \<open>While context 1 is storing a value, context 0 frees the index and gets it again: the store is refused, and
  context 1 reads null. When context 0 has freed the index once more, context 1 is refused.\<close>

definition stale_store :: "(nat \<times> local_point option) list" where
  "stale_store = (0, Some sl_kernel32_tls_alloc) # replicate 4 (0, None) @
     (1, Some (Generation_before (Set_value 7) 0)) # replicate 3 (1, None) @
     (0, Some (Free_claim 0 False)) # replicate 3 (0, None) @
     (0, Some sl_kernel32_tls_alloc) # replicate 4 (0, None) @
     replicate 3 (1, None) @ (1, Some (Generation_before Get_value 0)) # replicate 6 (1, None) @
     (0, Some (Free_claim 0 False)) # replicate 3 (0, None) @ (1, Some (Generation_before Get_value 0)) # replicate 2 (1, None)"

lemma stale_store_events: "fst (replay stale_store ([], local_start)) =
    [Call_failed 1 0, Called 1, Freed 0 0, Cleared 0 0, Withdrawn 0 0, Called 0, Value_got 1 0 0, Called 1, Unset 1 0,
     Stored 1 0 7 1, Handed_out 0 0, Allocated 0, Claimed 0 0, Called 0, Freed 0 0, Cleared 0 0, Withdrawn 0 0, Called 0,
     Called 1, Handed_out 0 0, Allocated 0, Claimed 0 0, Called 0]"
  by code_simp

theorem local_slots_linearize_witness:
  "spec_accepts [Call_failed 1 0, Called 1, Freed 0 0, Cleared 0 0, Withdrawn 0 0, Called 0, Value_got 1 0 0, Called 1, Unset 1 0,
     Stored 1 0 7 1, Handed_out 0 0, Allocated 0, Claimed 0 0, Called 0, Freed 0 0, Cleared 0 0, Withdrawn 0 0, Called 0,
     Called 1, Handed_out 0 0, Allocated 0, Claimed 0 0, Called 0]"
  using local_slots_linearize [OF replay_run [of "([], local_start)" stale_store, simplified, OF run_start]]
  unfolding stale_store_events by simp

end
