(* ===== verification/Runtime_Report.thy ===== *)
theory Runtime_Report
  imports Thread_Context Loader_Protection
begin

text \<open>
  \<open>src/runtime.c\<close>, first part: the stacks of a worker, the entry point it may start at, the report it sends to its
  parent through a pipe, and what the parent makes of the report and of the way the worker ended. Signal numbers and the
  two fields of the report that are signed (\<open>signal_code\<close>, \<open>signal_number\<close>) are 32-bit words read with \<open>sint\<close>.
  Enumerations of the report are kept as their numbers, as the wire does.
\<close>

section \<open>Constants\<close>

definition SL_RUNTIME_STACK_USABLE_SIZE :: nat where "SL_RUNTIME_STACK_USABLE_SIZE = 1048576"
definition SL_RUNTIME_SIGNAL_STACK_USABLE_SIZE :: nat where "SL_RUNTIME_SIGNAL_STACK_USABLE_SIZE = 131072"
definition SL_RUNTIME_WIRE_MAGIC :: u32 where "SL_RUNTIME_WIRE_MAGIC = 0x57524c53"
definition SL_RUNTIME_WIRE_VERSION :: u32 where "SL_RUNTIME_WIRE_VERSION = 2"
definition SL_RUNTIME_CRASH_EXIT_BASE :: int where "SL_RUNTIME_CRASH_EXIT_BASE = 128"
definition SL_RUNTIME_KERNEL_SIGNAL_COUNT :: nat where "SL_RUNTIME_KERNEL_SIGNAL_COUNT = 64"

definition SL_RUNTIME_REPORT_HAS_CRASH_CONTEXT :: u32 where "SL_RUNTIME_REPORT_HAS_CRASH_CONTEXT = 1"
definition SL_RUNTIME_REPORT_HAS_SIGNAL_CODE :: u32 where "SL_RUNTIME_REPORT_HAS_SIGNAL_CODE = 2"
definition SL_RUNTIME_REPORT_HAS_FAULT_ADDRESS :: u32 where "SL_RUNTIME_REPORT_HAS_FAULT_ADDRESS = 4"
definition SL_RUNTIME_REPORT_HANDLER_ON_ALTSTACK :: u32 where "SL_RUNTIME_REPORT_HANDLER_ON_ALTSTACK = 8"

definition SL_RUNTIME_OUTCOME_NONE :: u32 where "SL_RUNTIME_OUTCOME_NONE = 0"
definition SL_RUNTIME_OUTCOME_RETURNED :: u32 where "SL_RUNTIME_OUTCOME_RETURNED = 1"
definition SL_RUNTIME_OUTCOME_FAILED :: u32 where "SL_RUNTIME_OUTCOME_FAILED = 2"
definition SL_RUNTIME_OUTCOME_EXITED :: u32 where "SL_RUNTIME_OUTCOME_EXITED = 3"
definition SL_RUNTIME_OUTCOME_SIGNALLED :: u32 where "SL_RUNTIME_OUTCOME_SIGNALLED = 4"

lemmas report_flag_defs = SL_RUNTIME_REPORT_HAS_CRASH_CONTEXT_def SL_RUNTIME_REPORT_HAS_SIGNAL_CODE_def
  SL_RUNTIME_REPORT_HAS_FAULT_ADDRESS_def SL_RUNTIME_REPORT_HANDLER_ON_ALTSTACK_def

lemmas outcome_defs = SL_RUNTIME_OUTCOME_NONE_def SL_RUNTIME_OUTCOME_RETURNED_def SL_RUNTIME_OUTCOME_FAILED_def
  SL_RUNTIME_OUTCOME_EXITED_def SL_RUNTIME_OUTCOME_SIGNALLED_def

text \<open>Linux numbers of the signals.\<close>

definition SIGILL :: int where "SIGILL = 4"
definition SIGTRAP :: int where "SIGTRAP = 5"
definition SIGABRT :: int where "SIGABRT = 6"
definition SIGBUS :: int where "SIGBUS = 7"
definition SIGFPE :: int where "SIGFPE = 8"
definition SIGKILL :: int where "SIGKILL = 9"
definition SIGSEGV :: int where "SIGSEGV = 11"
definition SIGSTOP :: int where "SIGSTOP = 19"

lemmas signal_defs = SIGILL_def SIGTRAP_def SIGABRT_def SIGBUS_def SIGFPE_def SIGKILL_def SIGSEGV_def SIGSTOP_def

definition sl_runtime_crash_signals :: "int list" where
  "sl_runtime_crash_signals = [SIGABRT, SIGBUS, SIGFPE, SIGILL, SIGSEGV, SIGTRAP]"

definition is_runtime_crash_signal :: "int \<Rightarrow> bool" where
  "is_runtime_crash_signal signal_number \<longleftrightarrow> signal_number \<in> set sl_runtime_crash_signals"

text \<open>The signals that come with the address of a fault.\<close>

definition signal_has_address :: "int \<Rightarrow> bool" where
  "signal_has_address signal_number \<longleftrightarrow> signal_number = SIGBUS \<or> signal_number = SIGFPE \<or> signal_number = SIGILL \<or>
     signal_number = SIGSEGV \<or> signal_number = SIGTRAP"

definition runtime_crash_exit_code :: "int \<Rightarrow> int" where
  "runtime_crash_exit_code signal_number = SL_RUNTIME_CRASH_EXIT_BASE + signal_number"

text \<open>The numbers of the status codes.\<close>

definition status_codes :: "sl_status list" where
  "status_codes = [SL_OK, SL_ERROR_INVALID_ARGUMENT, SL_ERROR_IO, SL_ERROR_OUT_OF_MEMORY, SL_ERROR_TRUNCATED_FILE,
     SL_ERROR_BAD_DOS_SIGNATURE, SL_ERROR_BAD_PE_SIGNATURE, SL_ERROR_UNSUPPORTED_MACHINE,
     SL_ERROR_UNSUPPORTED_OPTIONAL_HEADER, SL_ERROR_INVALID_IMAGE, SL_ERROR_RVA_NOT_MAPPED, SL_ERROR_EXPORT_NOT_FOUND,
     SL_ERROR_MODULE_NOT_FOUND, SL_ERROR_DUPLICATE_MODULE, SL_ERROR_MODULE_REGISTRY_FULL, SL_ERROR_INVALID_FORWARDER,
     SL_ERROR_FORWARDER_LIMIT, SL_ERROR_ADDRESS_OUT_OF_RANGE, SL_ERROR_INVALID_ENCODING, SL_ERROR_BUFFER_TOO_SMALL,
     SL_ERROR_RELOCATION_REQUIRED, SL_ERROR_UNSUPPORTED_RELOCATION, SL_ERROR_MEMORY_MAPPING, SL_ERROR_MEMORY_PROTECTION,
     SL_ERROR_WX_CONFLICT, SL_ERROR_INVALID_STATE, SL_ERROR_PROCESS_CREATION, SL_ERROR_THREAD_ENVIRONMENT,
     SL_ERROR_WORKER_PROTOCOL, SL_ERROR_HANDLE_NOT_FOUND, SL_ERROR_HANDLE_TYPE_MISMATCH, SL_ERROR_HANDLE_TABLE_FULL,
     SL_ERROR_NOT_IMPLEMENTED]"

fun index_in :: "'a list \<Rightarrow> 'a \<Rightarrow> nat" where
  "index_in [] x = 0"
| "index_in (y # ys) x = (if x = y then 0 else Suc (index_in ys x))"

definition status_code :: "sl_status \<Rightarrow> u32" where
  "status_code status = of_nat (index_in status_codes status)"

lemma status_code_zero: "status_code status = 0 \<longleftrightarrow> status = SL_OK"
  by (cases status) (simp_all add: status_code_def status_codes_def)

lemma status_code_last: "status_code SL_ERROR_NOT_IMPLEMENTED = 32"
  by (simp add: status_code_def status_codes_def)

lemma status_code_le: "\<not> status_code status > status_code SL_ERROR_NOT_IMPLEMENTED"
  unfolding status_code_last by (cases status) (simp_all add: status_code_def status_codes_def)

section \<open>Stacks\<close>

record sl_guarded_stack =
  gd_mapping :: nat
  gd_mapping_size :: nat
  gd_limit :: nat
  gd_base :: nat

definition no_stack :: sl_guarded_stack where
  "no_stack = \<lparr>gd_mapping = 0, gd_mapping_size = 0, gd_limit = 0, gd_base = 0\<rparr>"

text \<open>What the system answers: the page size, the address of the mapping, and whether pages can be made writable. A mapping
  that cannot be used is given back.\<close>

record stack_answers =
  sk_sysconf :: int
  sk_mmap :: "nat option"
  sk_mprotect_ok :: bool

definition create_guarded_stack :: "host \<Rightarrow> stack_answers \<Rightarrow> nat \<Rightarrow> sl_guarded_stack result \<times> host_event list" where
  "create_guarded_stack h a requested_usable_size =
     (case host_page_size (sk_sysconf a) of
        Inl status \<Rightarrow> (Inl status, [])
      | Inr page_size \<Rightarrow>
          if requested_usable_size = 0 then (Inl SL_ERROR_MEMORY_MAPPING, [])
          else (case round_up_size requested_usable_size page_size of
             None \<Rightarrow> (Inl SL_ERROR_MEMORY_MAPPING, [])
           | Some usable_size \<Rightarrow>
               if page_size > (SIZE_MAX - usable_size) div 2 then (Inl SL_ERROR_MEMORY_MAPPING, [])
               else let mapping_size = usable_size + page_size * 2
               in (case sk_mmap a of
                     None \<Rightarrow> (Inl SL_ERROR_MEMORY_MAPPING, [])
                   | Some mapping \<Rightarrow>
                       let stack_limit = mapping + page_size
                       in if \<not> sk_mprotect_ok a
                          then (Inl SL_ERROR_MEMORY_PROTECTION, MAPPED mapping mapping_size # munmap h mapping mapping_size)
                          else (Inr \<lparr>gd_mapping = mapping, gd_mapping_size = mapping_size, gd_limit = stack_limit,
                                  gd_base = stack_limit + usable_size\<rparr>, [MAPPED mapping mapping_size]))))"

definition destroy_guarded_stack :: "host \<Rightarrow> sl_guarded_stack \<Rightarrow> host_event list" where
  "destroy_guarded_stack h stack =
     (if gd_mapping stack \<noteq> 0 \<and> gd_mapping_size stack \<noteq> 0 then munmap h (gd_mapping stack) (gd_mapping_size stack) else [])"

section \<open>The entry point\<close>

definition entry_is_executable :: "sl_pe_image \<Rightarrow> u32 \<Rightarrow> bool" where
  "entry_is_executable img entry_rva \<longleftrightarrow>
     list_ex (\<lambda>section.
       let len = (if sec_raw_size section > sec_virtual_size section then sec_raw_size section else sec_virtual_size section)
       in \<not> (len = 0 \<or> entry_rva < sec_virtual_address section) \<and> entry_rva - sec_virtual_address section < len \<and>
          sec_characteristics section AND SL_SECTION_MEM_EXECUTE \<noteq> 0)
     (take (unat (pe_section_count img)) (pe_sections img))"

definition validate_trusted_entry :: "sl_pe_image option \<Rightarrow> sl_mapped_image option \<Rightarrow> sl_status" where
  "validate_trusted_entry img mapped =
     (case (img, mapped) of
        (Some i, Some m) \<Rightarrow>
          if \<not> pe_is_pe32_plus i \<or> pe_machine i \<noteq> SL_PE_MACHINE_AMD64 \<or> mp_bytes m = None \<or>
             mp_storage m \<noteq> SL_IMAGE_STORAGE_VIRTUAL \<or> \<not> mp_protections_finalized m \<or>
             mp_size m \<noteq> unat (pe_image_size i) \<or> mp_allocation_size m < mp_size m \<or>
             mp_preferred_base m \<noteq> pe_image_base i \<or> mp_load_base m \<noteq> mp_address m \<or>
             unat (pe_section_count i) > SL_PE_MAX_SECTIONS \<or> mp_entry_rva m \<noteq> pe_entry_rva i \<or> mp_entry_rva m = 0 \<or>
             unat (mp_entry_rva m) \<ge> mp_size m \<or> \<not> entry_is_executable i (mp_entry_rva m)
          then SL_ERROR_INVALID_STATE
          else SL_OK
      | _ \<Rightarrow> SL_ERROR_INVALID_STATE)"

section \<open>Reports\<close>

record sl_runtime_wire_report =
  wr_magic :: u32
  wr_version :: u32
  wr_size :: u32
  wr_outcome :: u32
  wr_worker_status :: u32
  wr_return_value :: u32
  wr_last_error :: u32
  wr_process_id :: u32
  wr_exit_code :: u32
  wr_signal_number :: u32
  wr_report_flags :: u32
  wr_signal_code :: u32
  wr_fault_address :: u64
  wr_instruction_pointer :: u64
  wr_stack_pointer :: u64

record sl_runtime_report =
  rp_outcome :: u32
  rp_worker_status :: u32
  rp_return_value :: u32
  rp_last_error :: u32
  rp_worker_process_id :: u32
  rp_exit_code :: u32
  rp_signal_number :: u32
  rp_report_flags :: u32
  rp_signal_code :: u32
  rp_fault_address :: u64
  rp_instruction_pointer :: u64
  rp_stack_pointer :: u64

definition empty_report :: sl_runtime_report where
  "empty_report = \<lparr>rp_outcome = SL_RUNTIME_OUTCOME_NONE, rp_worker_status = 0, rp_return_value = 0, rp_last_error = 0,
     rp_worker_process_id = 0, rp_exit_code = 0, rp_signal_number = 0, rp_report_flags = 0, rp_signal_code = 0,
     rp_fault_address = 0, rp_instruction_pointer = 0, rp_stack_pointer = 0\<rparr>"

text \<open>The bytes of a report in memory: twelve fields of four bytes and three of eight, without padding.\<close>

definition wire_size :: nat where "wire_size = 72"

definition word_bytes :: "u32 \<Rightarrow> bytes" where "word_bytes v = le_bytes 4 (unat v)"

definition long_bytes :: "u64 \<Rightarrow> bytes" where "long_bytes v = le_bytes 8 (unat v)"

definition wire_bytes :: "sl_runtime_wire_report \<Rightarrow> bytes" where
  "wire_bytes r = word_bytes (wr_magic r) @ word_bytes (wr_version r) @ word_bytes (wr_size r) @ word_bytes (wr_outcome r) @
     word_bytes (wr_worker_status r) @ word_bytes (wr_return_value r) @ word_bytes (wr_last_error r) @
     word_bytes (wr_process_id r) @ word_bytes (wr_exit_code r) @ word_bytes (wr_signal_number r) @
     word_bytes (wr_report_flags r) @ word_bytes (wr_signal_code r) @ long_bytes (wr_fault_address r) @
     long_bytes (wr_instruction_pointer r) @ long_bytes (wr_stack_pointer r)"

definition word_at :: "bytes \<Rightarrow> nat \<Rightarrow> u32" where
  "word_at bs offset = of_nat (le_value (take 4 (drop offset bs)))"

definition long_at :: "bytes \<Rightarrow> nat \<Rightarrow> u64" where
  "long_at bs offset = of_nat (le_value (take 8 (drop offset bs)))"

definition wire_of_bytes :: "bytes \<Rightarrow> sl_runtime_wire_report" where
  "wire_of_bytes bs =
     \<lparr>wr_magic = word_at bs 0, wr_version = word_at bs 4, wr_size = word_at bs 8, wr_outcome = word_at bs 12,
      wr_worker_status = word_at bs 16, wr_return_value = word_at bs 20, wr_last_error = word_at bs 24,
      wr_process_id = word_at bs 28, wr_exit_code = word_at bs 32, wr_signal_number = word_at bs 36,
      wr_report_flags = word_at bs 40, wr_signal_code = word_at bs 44, wr_fault_address = long_at bs 48,
      wr_instruction_pointer = long_at bs 56, wr_stack_pointer = long_at bs 64\<rparr>"

definition wire_report_is_valid :: "sl_runtime_wire_report \<Rightarrow> u32 \<Rightarrow> bool" where
  "wire_report_is_valid wire process_id \<longleftrightarrow>
     (if wr_magic wire \<noteq> SL_RUNTIME_WIRE_MAGIC \<or> wr_version wire \<noteq> SL_RUNTIME_WIRE_VERSION \<or>
         wr_size wire \<noteq> of_nat wire_size \<or> wr_process_id wire \<noteq> process_id \<or>
         wr_worker_status wire > status_code SL_ERROR_NOT_IMPLEMENTED
      then False
      else if wr_outcome wire = SL_RUNTIME_OUTCOME_RETURNED \<or> wr_outcome wire = SL_RUNTIME_OUTCOME_FAILED
      then wr_exit_code wire = 0 \<and> wr_report_flags wire = 0 \<and> wr_signal_number wire = 0 \<and> wr_signal_code wire = 0 \<and>
           wr_fault_address wire = 0 \<and> wr_instruction_pointer wire = 0 \<and> wr_stack_pointer wire = 0 \<and>
           (wr_outcome wire = SL_RUNTIME_OUTCOME_RETURNED \<and> wr_worker_status wire = status_code SL_OK \<or>
            wr_outcome wire = SL_RUNTIME_OUTCOME_FAILED \<and> wr_worker_status wire \<noteq> status_code SL_OK)
      else let required_flags = SL_RUNTIME_REPORT_HAS_CRASH_CONTEXT OR SL_RUNTIME_REPORT_HAS_SIGNAL_CODE OR
                 SL_RUNTIME_REPORT_HANDLER_ON_ALTSTACK;
               allowed_flags = required_flags OR SL_RUNTIME_REPORT_HAS_FAULT_ADDRESS;
               signal_has_fault_address = sint (wr_signal_code wire) > 0 \<and> signal_has_address (sint (wr_signal_number wire));
               report_has_fault_address = wr_report_flags wire AND SL_RUNTIME_REPORT_HAS_FAULT_ADDRESS \<noteq> 0;
               fault_address_is_consistent = signal_has_fault_address = report_has_fault_address \<and>
                 (report_has_fault_address \<or> wr_fault_address wire = 0)
           in wr_outcome wire = SL_RUNTIME_OUTCOME_SIGNALLED \<and> wr_worker_status wire = status_code SL_OK \<and>
              wr_report_flags wire AND required_flags = required_flags \<and> wr_report_flags wire AND NOT allowed_flags = 0 \<and>
              fault_address_is_consistent \<and> wr_return_value wire = 0 \<and> wr_last_error wire = 0 \<and> wr_exit_code wire = 0 \<and>
              is_runtime_crash_signal (sint (wr_signal_number wire)))"

text \<open>How a child ended, as \<open>waitpid\<close> tells it.\<close>

datatype (plugins only: code size) wait_status = Exited int | Terminated int | Neither

definition wire_exit_status_is_valid :: "sl_runtime_wire_report \<Rightarrow> wait_status \<Rightarrow> bool" where
  "wire_exit_status_is_valid wire wait_status \<longleftrightarrow>
     wait_status = Exited (if wr_outcome wire = SL_RUNTIME_OUTCOME_SIGNALLED
       then runtime_crash_exit_code (sint (wr_signal_number wire)) else 0)"

definition decode_wire_report :: "sl_runtime_wire_report \<Rightarrow> sl_runtime_report" where
  "decode_wire_report wire = \<lparr>rp_outcome = wr_outcome wire, rp_worker_status = wr_worker_status wire,
     rp_return_value = wr_return_value wire, rp_last_error = wr_last_error wire,
     rp_worker_process_id = wr_process_id wire, rp_exit_code = wr_exit_code wire,
     rp_signal_number = wr_signal_number wire, rp_report_flags = wr_report_flags wire,
     rp_signal_code = wr_signal_code wire, rp_fault_address = wr_fault_address wire,
     rp_instruction_pointer = wr_instruction_pointer wire, rp_stack_pointer = wr_stack_pointer wire\<rparr>"

section \<open>Reading the report\<close>

text \<open>The answers to \<open>read\<close> and \<open>waitpid\<close>, call by call; a loop that is not done after them has no result. A read of no
  bytes is the end of the pipe; a read never gives more than was asked for.\<close>

datatype (plugins only: code size) read_answer = Read_Bytes bytes | Read_Interrupted | Read_Failed

fun read_extra :: "read_answer list \<Rightarrow> (sl_status \<times> bool) option" where
  "read_extra [] = None"
| "read_extra (Read_Bytes bs # answers) = Some (SL_OK, bs \<noteq> [])"
| "read_extra (Read_Interrupted # answers) = read_extra answers"
| "read_extra (Read_Failed # answers) = Some (SL_ERROR_IO, False)"

text \<open>The status, the bytes that arrived and whether there are more.\<close>

fun read_worker_report :: "read_answer list \<Rightarrow> bytes \<Rightarrow> (sl_status \<times> bytes \<times> bool) option" where
  "read_worker_report [] got = None"
| "read_worker_report (answer # answers) got =
     (if length got < wire_size
      then (case answer of
              Read_Bytes bs \<Rightarrow>
                if bs \<noteq> [] then read_worker_report answers (got @ take (wire_size - length got) bs)
                else Some (SL_OK, got, False)
            | Read_Interrupted \<Rightarrow> read_worker_report answers got
            | Read_Failed \<Rightarrow> Some (SL_ERROR_IO, got, False))
      else map_option (\<lambda>(status, extra). (status, got, extra)) (read_extra (answer # answers)))"

datatype (plugins only: code size) wait_answer = Waited int wait_status | Wait_Interrupted | Wait_Failed

fun wait_for_worker :: "int \<Rightarrow> wait_answer list \<Rightarrow> (sl_status \<times> wait_status) option" where
  "wait_for_worker process_id [] = None"
| "wait_for_worker process_id (Waited pid wait_status # answers) =
     Some (if pid = process_id then SL_OK else SL_ERROR_IO, wait_status)"
| "wait_for_worker process_id (Wait_Interrupted # answers) = wait_for_worker process_id answers"
| "wait_for_worker process_id (Wait_Failed # answers) = Some (SL_ERROR_IO, Exited 0)"

text \<open>What the parent makes of it, once it has its signals back. The report is zero but for the process id when nothing is
  said about the worker.\<close>

definition judge_worker :: "u32 \<Rightarrow> bytes \<Rightarrow> bool \<Rightarrow> wait_status \<Rightarrow> sl_status \<times> sl_runtime_report" where
  "judge_worker child got has_extra_data wait_status =
     (let report = empty_report\<lparr>rp_worker_process_id := child\<rparr>;
          wire = wire_of_bytes (got @ replicate (wire_size - length got) 0)
      in case wait_status of
           Terminated sig \<Rightarrow>
             if got \<noteq> [] \<or> has_extra_data then (SL_ERROR_WORKER_PROTOCOL, report)
             else (SL_OK, report\<lparr>rp_outcome := SL_RUNTIME_OUTCOME_SIGNALLED, rp_signal_number := of_int sig\<rparr>)
         | Neither \<Rightarrow> (SL_ERROR_WORKER_PROTOCOL, report)
         | Exited code \<Rightarrow>
             if got = [] then (SL_OK, report\<lparr>rp_outcome := SL_RUNTIME_OUTCOME_EXITED, rp_exit_code := of_int code\<rparr>)
             else if length got \<noteq> wire_size \<or> has_extra_data \<or> \<not> wire_report_is_valid wire child \<or>
                  \<not> wire_exit_status_is_valid wire wait_status
             then (SL_ERROR_WORKER_PROTOCOL, report)
             else (SL_OK, decode_wire_report wire))"

section \<open>The bytes of a report\<close>

lemma length_word_bytes [simp]: "length (word_bytes v) = 4" "length (long_bytes u) = 8"
  by (simp_all add: word_bytes_def long_bytes_def)

lemma word_at_bytes: "length as = n \<Longrightarrow> word_at (as @ word_bytes v @ bs) n = v"
  by (simp add: word_at_def word_bytes_def le_value_bytes)

lemma long_at_bytes: "length as = n \<Longrightarrow> long_at (as @ long_bytes v @ bs) n = v"
  by (simp add: long_at_def long_bytes_def le_value_bytes)

lemma length_wire_bytes [simp]: "length (wire_bytes r) = wire_size"
  by (simp add: wire_bytes_def wire_size_def)

text \<open>A field behind fields of four bytes is behind their sum.\<close>

lemma word_at_skip: "4 \<le> n \<Longrightarrow> word_at (word_bytes v @ bs) n = word_at bs (n - 4)"
    "8 \<le> n \<Longrightarrow> word_at (long_bytes u @ bs) n = word_at bs (n - 8)"
  by (simp_all add: word_at_def)

lemma long_at_skip: "4 \<le> n \<Longrightarrow> long_at (word_bytes v @ bs) n = long_at bs (n - 4)"
    "8 \<le> n \<Longrightarrow> long_at (long_bytes u @ bs) n = long_at bs (n - 8)"
  by (simp_all add: long_at_def)

lemma wire_roundtrip: "wire_of_bytes (wire_bytes r) = r"
  using word_at_bytes [of "[]" 0] long_at_bytes [of "[]" 0] long_at_bytes [of "[]" 0 _ "[]"]
  by (simp add: wire_of_bytes_def wire_bytes_def word_at_skip long_at_skip)

end
