(* ===== verification/Runtime_Worker.thy ===== *)
theory Runtime_Worker
  imports Runtime_Report
begin

text \<open>
  \<open>src/runtime.c\<close>, second part: the worker, which runs an entry point in a process of its own, and its parent. The worker
  works on a copy of the state of its parent, as \<open>clone\<close> makes one. It is the only thread of its process: the
  operations on contexts run from point to point to their end. The guest's code is a function of that state; \<open>None\<close> is
  code that runs forever.
\<close>

section \<open>Operations run to their end\<close>

fun run_points :: "u64 \<Rightarrow> thread_answers list \<Rightarrow> thread_world \<Rightarrow> (sl_status \<times> thread_world) option" where
  "run_points h [] w = (case ho_point (tw_hosts w h) of Idle status \<Rightarrow> Some (status, w) | _ \<Rightarrow> None)"
| "run_points h (a # answers) w =
     (case ho_point (tw_hosts w h) of Idle status \<Rightarrow> Some (status, w) | _ \<Rightarrow> run_points h answers (advance h a w))"

definition run_call :: "u64 \<Rightarrow> thread_call \<Rightarrow> thread_answers list \<Rightarrow> thread_world \<Rightarrow> (sl_status \<times> thread_world) option" where
  "run_call h call answers w = run_points h answers (begin_call h call w)"

text \<open>The loop of \<open>sl_win32_process_retain\<close>; \<open>spurious\<close> says which exchanges fail without a reason.\<close>

fun retain_loop :: "bool list \<Rightarrow> ptr \<Rightarrow> u32 \<Rightarrow> thread_world \<Rightarrow> (sl_status \<times> thread_world) option" where
  "retain_loop [] p references w = None"
| "retain_loop (spurious # rounds) p references w =
     (case retain_exchange spurious p references w of
        (Retain_Refused, w) \<Rightarrow> Some (SL_ERROR_INVALID_STATE, w)
      | (Retained, w) \<Rightarrow> Some (SL_OK, w)
      | (Retain_Again references, w) \<Rightarrow> retain_loop rounds p references w)"

definition sl_win32_process_retain :: "bool list \<Rightarrow> ptr \<Rightarrow> thread_world \<Rightarrow> (sl_status \<times> thread_world) option" where
  "sl_win32_process_retain rounds p w =
     (if p = NULL then Some (SL_ERROR_INVALID_ARGUMENT, w) else retain_loop rounds p (references_of w p) w)"

definition change_table :: "(handle_world \<Rightarrow> handle_world) \<Rightarrow> ptr \<Rightarrow> thread_world \<Rightarrow> thread_world" where
  "change_table f p w =
     w\<lparr>tw_processes := (tw_processes w)(p := (tw_processes w p)\<lparr>pr_handle_table := f (pr_handle_table (tw_processes w p))\<rparr>)\<rparr>"

section \<open>Crashes\<close>

record sl_runtime_crash_handler_state =
  cr_armed :: bool
  cr_handling :: bool
  cr_write_fd :: int
  cr_process_id :: u32
  cr_stack_limit :: u64
  cr_stack_base :: u64

text \<open>What the kernel gives to the handler: the code and address of the signal, the instruction pointer and the stack pointer,
  both if there are any, and where the handler's own variables are.\<close>

record crash =
  ch_signal_number :: u32
  ch_info :: "(u32 \<times> u64) option"
  ch_context :: "(u64 \<times> u64) option"
  ch_handler_address :: u64

definition crash_report :: "sl_runtime_crash_handler_state \<Rightarrow> crash \<Rightarrow> sl_runtime_wire_report" where
  "crash_report s c =
     (let signal_number = sint (ch_signal_number c);
          (signal_code, fault_address, report_flags) =
            (case ch_info c of
               None \<Rightarrow> (0, 0, 0)
             | Some (si_code, si_addr) \<Rightarrow>
                 if sint si_code > 0 \<and> signal_has_address signal_number
                 then (si_code, si_addr, SL_RUNTIME_REPORT_HAS_SIGNAL_CODE OR SL_RUNTIME_REPORT_HAS_FAULT_ADDRESS)
                 else (si_code, 0, SL_RUNTIME_REPORT_HAS_SIGNAL_CODE));
          (instruction_pointer, stack_pointer, report_flags) =
            (case ch_context c of
               None \<Rightarrow> (0, 0, report_flags)
             | Some (rip, rsp) \<Rightarrow> (rip, rsp, report_flags OR SL_RUNTIME_REPORT_HAS_CRASH_CONTEXT));
          report_flags =
            (if ch_handler_address c \<ge> cr_stack_limit s \<and> ch_handler_address c < cr_stack_base s
             then report_flags OR SL_RUNTIME_REPORT_HANDLER_ON_ALTSTACK else report_flags)
      in \<lparr>wr_magic = SL_RUNTIME_WIRE_MAGIC, wr_version = SL_RUNTIME_WIRE_VERSION, wr_size = of_nat wire_size,
          wr_outcome = SL_RUNTIME_OUTCOME_SIGNALLED, wr_worker_status = status_code SL_OK, wr_return_value = 0,
          wr_last_error = 0, wr_process_id = cr_process_id s, wr_exit_code = 0,
          wr_signal_number = ch_signal_number c, wr_report_flags = report_flags, wr_signal_code = signal_code,
          wr_fault_address = fault_address, wr_instruction_pointer = instruction_pointer, wr_stack_pointer = stack_pointer\<rparr>)"

text \<open>How a worker ends: the bytes that arrive in the pipe, and how its parent sees it end. A report is written at once
  (\<open>PIPE_BUF\<close>): all of it arrives or nothing.\<close>

record worker_end =
  we_bytes :: bytes
  we_status :: wait_status

definition exit_with :: "int \<Rightarrow> bytes \<Rightarrow> worker_end" where
  "exit_with exit_code bs = \<lparr>we_bytes = bs, we_status = Exited (exit_code mod 256)\<rparr>"

definition runtime_crash_write :: "bool \<Rightarrow> sl_runtime_wire_report \<Rightarrow> bytes" where
  "runtime_crash_write arrives wire = (if arrives then wire_bytes wire else [])"

definition runtime_crash_signal_handler :: "bool \<Rightarrow> sl_runtime_crash_handler_state \<Rightarrow> crash \<Rightarrow> worker_end" where
  "runtime_crash_signal_handler arrives s c =
     (let exit_code = SL_RUNTIME_CRASH_EXIT_BASE + sint (ch_signal_number c)
      in if \<not> cr_armed s \<or> cr_handling s then exit_with exit_code []
         else exit_with exit_code (runtime_crash_write arrives (crash_report s c)))"

section \<open>Signals of the worker\<close>

text \<open>What the system answers to the worker.\<close>

record worker_answers =
  wk_getpid :: u32
  wk_block_ok :: bool
  wk_default_action_ok :: "nat \<Rightarrow> bool"
  wk_minsigstksz :: int
  wk_sigaltstack_ok :: bool
  wk_sigfillset_ok :: bool
  wk_crash_action_ok :: "int \<Rightarrow> bool"
  wk_unblock_ok :: bool
  wk_create :: "thread_answers list"
  wk_attach :: "thread_answers list"
  wk_enter :: "thread_answers list"
  wk_leave :: "thread_answers list"
  wk_detach :: "thread_answers list"
  wk_destroy :: "thread_answers list"
  wk_original_gs :: "u64 option"
  wk_set_gs_ok :: bool
  wk_installed_gs :: "u64 option"
  wk_restore_gs_ok :: bool
  wk_restored_gs :: "u64 option"
  wk_final_block_ok :: bool
  wk_arrives :: bool

definition gs_base :: "u64 option \<Rightarrow> u64 result" where
  "gs_base answered = or_fail SL_ERROR_THREAD_ENVIRONMENT answered"

definition reset_worker_signal_environment :: "worker_answers \<Rightarrow> sl_status" where
  "reset_worker_signal_environment a =
     (if \<not> wk_block_ok a then SL_ERROR_THREAD_ENVIRONMENT
      else if list_ex (\<lambda>n. \<not> (int n = SIGKILL \<or> int n = SIGSTOP \<or> is_runtime_crash_signal (int n)) \<and>
                \<not> wk_default_action_ok a n) [1..<SL_RUNTIME_KERNEL_SIGNAL_COUNT + 1]
      then SL_ERROR_THREAD_ENVIRONMENT
      else SL_OK)"

definition install_worker_crash_reporting ::
    "worker_answers \<Rightarrow> u64 \<Rightarrow> u64 \<Rightarrow> int \<Rightarrow> u32 \<Rightarrow> sl_runtime_crash_handler_state \<Rightarrow> sl_status \<times> sl_runtime_crash_handler_state" where
  "install_worker_crash_reporting a signal_stack_limit signal_stack_base write_fd process_id s =
     (if signal_stack_limit \<ge> signal_stack_base \<or> write_fd < 0 then (SL_ERROR_INVALID_ARGUMENT, s)
      else let signal_stack_size = unat (signal_stack_base - signal_stack_limit)
      in if wk_minsigstksz a \<le> 0 \<or> nat (wk_minsigstksz a) > SIZE_MAX \<or> signal_stack_size < nat (wk_minsigstksz a)
         then (SL_ERROR_THREAD_ENVIRONMENT, s)
         else if \<not> wk_sigaltstack_ok a then (SL_ERROR_THREAD_ENVIRONMENT, s)
         else let s = s\<lparr>cr_armed := False, cr_handling := False, cr_write_fd := write_fd, cr_process_id := process_id,
                  cr_stack_limit := signal_stack_limit, cr_stack_base := signal_stack_base\<rparr>
         in if \<not> wk_sigfillset_ok a \<or> list_ex (\<lambda>n. \<not> wk_crash_action_ok a n) sl_runtime_crash_signals
            then (SL_ERROR_THREAD_ENVIRONMENT, s)
            else if \<not> wk_unblock_ok a then (SL_ERROR_THREAD_ENVIRONMENT, s)
            else (SL_OK, s\<lparr>cr_armed := True\<rparr>))"

section \<open>Calling the entry point\<close>

datatype (plugins only: code size) guest_end =
    Entry_Returned u32 thread_world
  | Entry_Crashed crash
  | Entry_Exited int
  | Entry_Killed int

text \<open>Images and mappings are objects with numbers, as in the registry. The entry point is called at its address. The outcome is
  the status, the result that is stored and the state, or how the guest ended the process.\<close>

definition object :: "(nat \<Rightarrow> 'a) \<Rightarrow> nat option \<Rightarrow> 'a option" where
  "object at pointer = map_option at pointer"

definition process_main_module :: "thread_world \<Rightarrow> ptr \<Rightarrow> sl_loaded_module option" where
  "process_main_module w p =
     (case (if p = NULL then None else sl_win32_process_main_module (Some (tw_processes w p))) of
        None \<Rightarrow> None
      | Some m \<Rightarrow> Some (rg_modules (sp_registry (the (pr_module_space (tw_processes w p)))) ! m))"

definition other_main_module :: "sl_loaded_module option \<Rightarrow> nat option \<Rightarrow> nat option \<Rightarrow> bool" where
  "other_main_module main_module image_id mapped_id \<longleftrightarrow>
     (case main_module of None \<Rightarrow> False | Some m \<Rightarrow> md_image m \<noteq> image_id \<or> md_mapped m \<noteq> mapped_id)"

definition sl_runtime_call_trusted_entry ::
    "module_objects \<Rightarrow> nat option \<Rightarrow> nat option \<Rightarrow> u64 \<Rightarrow> ptr \<Rightarrow> ptr \<Rightarrow> bool \<Rightarrow> thread_answers list \<Rightarrow> thread_answers list \<Rightarrow>
     (u64 \<Rightarrow> thread_world \<Rightarrow> guest_end option) \<Rightarrow> thread_world \<Rightarrow> (guest_end + sl_status \<times> u32 \<times> thread_world) option" where
  "sl_runtime_call_trusted_entry objects image_id mapped_id h thread scope out entering leaving guest w =
     (if thread = NULL \<or> \<not> out \<or> th_process (tw_threads w thread) = NULL \<or>
         validate_trusted_entry (object (image_at objects) image_id) (object (mapped_at objects) mapped_id) \<noteq> SL_OK
      then Some (Inr (SL_ERROR_INVALID_STATE, 0, w))
      else if other_main_module (process_main_module w (th_process (tw_threads w thread))) image_id mapped_id
      then Some (Inr (SL_ERROR_INVALID_STATE, 0, w))
      else let mapped = mapped_at objects (the mapped_id);
               entry = mp_address mapped + ucast (mp_entry_rva mapped)
      in (case run_call h (Enter thread scope) entering w of
            None \<Rightarrow> None
          | Some (status, w) \<Rightarrow>
              if status \<noteq> SL_OK then Some (Inr (status, 0, w))
              else (case guest entry w of
                      None \<Rightarrow> None
                    | Some (Entry_Returned guest_result w) \<Rightarrow>
                        map_option (\<lambda>(status, w). Inr (status, if status \<noteq> SL_OK then 0 else guest_result, w))
                          (run_call h (Leave scope) leaving w)
                    | Some e \<Rightarrow> Some (Inl e))))"

section \<open>The worker\<close>

record sl_runtime_worker_state =
  ws_objects :: module_objects
  ws_image :: "nat option"
  ws_mapped :: "nat option"
  ws_process :: ptr
  ws_stack_limit :: u64
  ws_stack_base :: u64
  ws_signal_stack_limit :: u64
  ws_signal_stack_base :: u64
  ws_read_fd :: int
  ws_write_fd :: int

definition new_thread_context :: "ptr \<Rightarrow> u32 \<Rightarrow> sl_win32_thread_context" where
  "new_thread_context p thread_id = \<lparr>th_process = p, th_last_error = 0, th_thread_id = thread_id, th_teb = NULL,
     th_last_error_address = NULL, th_tls_values = replicate SL_WIN32_LOCAL_SLOT_COUNT \<lparr>lv_value = NULL, lv_generation = 0\<rparr>,
     th_fls_values = replicate SL_WIN32_LOCAL_SLOT_COUNT \<lparr>lv_value = NULL, lv_generation = 0\<rparr>, th_host_thread_token = 0,
     th_active_scope_count = 0, th_teb_owner_token = 0\<rparr>"

text \<open>The last error of a thread in its block: \<open>None\<close> when the guest made the pointer point somewhere else.\<close>

definition block_last_error :: "thread_world \<Rightarrow> ptr \<Rightarrow> ptr \<Rightarrow> u32 option" where
  "block_last_error w thread teb =
     (case tw_tebs w teb of
        None \<Rightarrow> None
      | Some B \<Rightarrow>
          if th_last_error_address (tw_threads w thread) = sl_win32_teb_last_error (Some B)
          then Some (word_at (tb_bytes B) SL_WIN32_TEB_LAST_ERROR_OFFSET) else None)"

text \<open>Up to the call of the entry point: the status, the block (\<open>NULL\<close> before there is one), whether it is attached and whether
  the segment base was touched.\<close>

record setup_progress =
  su_teb :: ptr
  su_attached :: bool
  su_gs_change_attempted :: bool

definition worker_setup ::
    "sl_runtime_worker_state \<Rightarrow> u64 \<Rightarrow> ptr \<Rightarrow> worker_answers \<Rightarrow> thread_world \<Rightarrow> (sl_status \<times> setup_progress \<times> thread_world) option" where
  "worker_setup state h thread a w =
     (let p = ws_process state; none = \<lparr>su_teb = NULL, su_attached = False, su_gs_change_attempted = False\<rparr>
      in case sl_win32_process_set_image_base (Some (tw_processes w p))
                (mp_load_base (mapped_at (ws_objects state) (the (ws_mapped state)))) of
           (status, process) \<Rightarrow>
             let w = w\<lparr>tw_processes := (tw_processes w)(p := the process)\<rparr>
             in if status \<noteq> SL_OK then Some (status, none, w)
                else (case run_call h (Teb_Create thread (ws_stack_limit state) (ws_stack_base state) True) (wk_create a) w of
                   None \<Rightarrow> None
                 | Some (status, w) \<Rightarrow>
                     let teb = ho_out_teb (tw_hosts w h)
                     in if status \<noteq> SL_OK then Some (status, none\<lparr>su_teb := teb\<rparr>, w)
                        else (case run_call h (Attach thread teb) (wk_attach a) w of
                           None \<Rightarrow> None
                         | Some (status, w) \<Rightarrow>
                             if status \<noteq> SL_OK then Some (status, none\<lparr>su_teb := teb\<rparr>, w)
                             else let attached = none\<lparr>su_teb := teb, su_attached := True\<rparr>
                             in (case gs_base (wk_original_gs a) of
                                   Inl status \<Rightarrow> Some (status, attached, w)
                                 | Inr original \<Rightarrow>
                                     let touched = attached\<lparr>su_gs_change_attempted := True\<rparr>
                                     in if \<not> wk_set_gs_ok a then Some (SL_ERROR_THREAD_ENVIRONMENT, touched, w)
                                        else (case gs_base (wk_installed_gs a) of
                                           Inl status \<Rightarrow> Some (status, touched, w)
                                         | Inr installed \<Rightarrow>
                                             Some (if installed \<noteq> sl_win32_teb_base (tw_tebs w teb)
                                                   then SL_ERROR_THREAD_ENVIRONMENT else SL_OK, touched, w))))))"

text \<open>The segment base is set back, and only then the block taken away; the first error counts.\<close>

definition gs_restore_verified :: "worker_answers \<Rightarrow> bool" where
  "gs_restore_verified a \<longleftrightarrow> wk_restore_gs_ok a \<and> wk_restored_gs a \<noteq> None \<and> wk_restored_gs a = wk_original_gs a"

definition worker_teardown ::
    "u64 \<Rightarrow> ptr \<Rightarrow> worker_answers \<Rightarrow> setup_progress \<Rightarrow> sl_status \<Rightarrow> thread_world \<Rightarrow> (sl_status \<times> thread_world) option" where
  "worker_teardown h thread a setup status w =
     (let status = (if su_gs_change_attempted setup \<and> \<not> gs_restore_verified a then SL_ERROR_THREAD_ENVIRONMENT else status)
      in if su_gs_change_attempted setup \<and> \<not> gs_restore_verified a then Some (status, w)
         else case (if su_attached setup then run_call h (Detach thread (su_teb setup)) (wk_detach a) w else Some (SL_OK, w)) of
           None \<Rightarrow> None
         | Some (detach_status, w) \<Rightarrow>
             let attached = su_attached setup \<and> detach_status \<noteq> SL_OK;
                 status = (if status = SL_OK \<and> detach_status \<noteq> SL_OK then detach_status else status)
             in if su_teb setup \<noteq> NULL \<and> \<not> attached
                then (case run_call h (Teb_Destroy (su_teb setup)) (wk_destroy a) w of
                   None \<Rightarrow> None
                 | Some (destroy_status, w) \<Rightarrow>
                     Some (if status = SL_OK \<and> destroy_status \<noteq> SL_OK then destroy_status else status, w))
                else Some (status, w))"

text \<open>What the worker did: it came to its end with a status, a result and a last error, or the guest ended the process.\<close>

datatype (plugins only: code size) course_taken = Came_To_End sl_status u32 u32 | Guest_Ended guest_end

definition finish_worker ::
    "u64 \<Rightarrow> ptr \<Rightarrow> worker_answers \<Rightarrow> setup_progress \<Rightarrow> u32 \<Rightarrow> u32 \<Rightarrow> sl_status \<Rightarrow> thread_world \<Rightarrow> course_taken option" where
  "finish_worker h thread a setup result last_error status w =
     map_option (\<lambda>(status, w). Came_To_End status result last_error) (worker_teardown h thread a setup status w)"

definition worker_course ::
    "sl_runtime_worker_state \<Rightarrow> u64 \<Rightarrow> ptr \<Rightarrow> ptr \<Rightarrow> worker_answers \<Rightarrow> (u64 \<Rightarrow> thread_world \<Rightarrow> guest_end option) \<Rightarrow> thread_world \<Rightarrow>
     course_taken option" where
  "worker_course state h thread scope a guest w =
     (case worker_setup state h thread a w of
        None \<Rightarrow> None
      | Some (status, setup, w) \<Rightarrow>
          if status \<noteq> SL_OK then finish_worker h thread a setup 0 0 status w
          else (case sl_runtime_call_trusted_entry (ws_objects state) (ws_image state) (ws_mapped state) h thread scope True
                       (wk_enter a) (wk_leave a) guest w of
             None \<Rightarrow> None
           | Some (Inl e) \<Rightarrow> Some (Guest_Ended e)
           | Some (Inr (status, result, w)) \<Rightarrow>
               (case block_last_error w thread (su_teb setup) of
                  None \<Rightarrow> None
                | Some last_error \<Rightarrow> finish_worker h thread a setup result last_error status w)))"

definition final_report :: "u32 \<Rightarrow> sl_status \<Rightarrow> u32 \<Rightarrow> u32 \<Rightarrow> sl_runtime_wire_report" where
  "final_report process_id status result last_error =
     \<lparr>wr_magic = SL_RUNTIME_WIRE_MAGIC, wr_version = SL_RUNTIME_WIRE_VERSION, wr_size = of_nat wire_size,
      wr_outcome = (if status = SL_OK then SL_RUNTIME_OUTCOME_RETURNED else SL_RUNTIME_OUTCOME_FAILED),
      wr_worker_status = status_code status, wr_return_value = result, wr_last_error = last_error,
      wr_process_id = process_id, wr_exit_code = 0, wr_signal_number = 0, wr_report_flags = 0, wr_signal_code = 0,
      wr_fault_address = 0, wr_instruction_pointer = 0, wr_stack_pointer = 0\<rparr>"

definition write_worker_report_and_exit :: "worker_answers \<Rightarrow> sl_runtime_wire_report \<Rightarrow> worker_end" where
  "write_worker_report_and_exit a wire =
     (if \<not> wk_final_block_ok a then exit_with 126 []
      else exit_with (if wk_arrives a then 0 else 126) (runtime_crash_write (wk_arrives a) wire))"

definition worker_end_of :: "worker_answers \<Rightarrow> sl_runtime_crash_handler_state \<Rightarrow> course_taken \<Rightarrow> worker_end" where
  "worker_end_of a s course =
     (case course of
        Came_To_End status result last_error \<Rightarrow>
          write_worker_report_and_exit a (final_report (wk_getpid a) status result last_error)
      | Guest_Ended (Entry_Crashed c) \<Rightarrow> runtime_crash_signal_handler (wk_arrives a) s c
      | Guest_Ended (Entry_Exited exit_code) \<Rightarrow> exit_with exit_code []
      | Guest_Ended (Entry_Killed sig) \<Rightarrow> \<lparr>we_bytes = [], we_status = Terminated sig\<rparr>
      | Guest_Ended (Entry_Returned r w) \<Rightarrow> \<lparr>we_bytes = [], we_status = Neither\<rparr>)"

text \<open>The copy of the table is unlocked, the context of the new thread is on its stack (\<open>thread\<close>), and \<open>s\<close> is the copy of the
  handler's state. The result has what the worker did and how it ended.\<close>

definition run_worker_child ::
    "sl_runtime_worker_state \<Rightarrow> u64 \<Rightarrow> ptr \<Rightarrow> ptr \<Rightarrow> worker_answers \<Rightarrow> sl_runtime_crash_handler_state \<Rightarrow>
     (u64 \<Rightarrow> thread_world \<Rightarrow> guest_end option) \<Rightarrow> thread_world \<Rightarrow> (course_taken \<times> worker_end) option" where
  "run_worker_child state h thread scope a s guest w =
     (let p = ws_process state;
          w = change_table sl_handle_table_complete_clone p w;
          w = set_thread thread (\<lambda>_. new_thread_context p (wk_getpid a)) w;
          status = reset_worker_signal_environment a;
          (status, s) =
            (if status \<noteq> SL_OK then (status, s)
             else install_worker_crash_reporting a (ws_signal_stack_limit state) (ws_signal_stack_base state)
                    (ws_write_fd state) (wk_getpid a) s)
      in map_option (\<lambda>course. (course, worker_end_of a s course))
           (if status \<noteq> SL_OK then Some (Came_To_End status 0 0) else worker_course state h thread scope a guest w))"

section \<open>The parent\<close>

text \<open>What the system answers to the parent: the action of \<open>SIGCHLD\<close> (whether it is the default one and whether children are
  not waited for), the stacks, the pipe, the signal mask, the child (negative when there is none), and what is read from
  the pipe and told about the child.\<close>

record parent_answers =
  pa_host :: host
  pa_sigchld :: "(bool \<times> bool) option"
  pa_rounds :: "bool list"
  pa_stack :: stack_answers
  pa_signal_stack :: stack_answers
  pa_pipe :: "(int \<times> int) option"
  pa_mask :: "u64 option"
  pa_restore_mask_ok :: bool
  pa_clone :: int
  pa_reads :: "read_answer list"
  pa_waits :: "wait_answer list"

definition UINT64_MAX :: u64 where "UINT64_MAX = 0xffffffffffffffff"

datatype (plugins only: code size) parent_event =
    Memory host_event
  | Opened int
  | Closed int
  | Mask_Set u64
  | Child_Started int
  | Child_Awaited int

definition validate_parent_sigchld_state :: "(bool \<times> bool) option \<Rightarrow> sl_status" where
  "validate_parent_sigchld_state action =
     (case action of
        Some (is_default, no_wait) \<Rightarrow> if \<not> is_default \<or> no_wait then SL_ERROR_THREAD_ENVIRONMENT else SL_OK
      | None \<Rightarrow> SL_ERROR_THREAD_ENVIRONMENT)"

definition restore_mask :: "parent_answers \<Rightarrow> u64 \<Rightarrow> sl_status \<times> parent_event list" where
  "restore_mask a old_mask = (if pa_restore_mask_ok a then (SL_OK, [Mask_Set old_mask]) else (SL_ERROR_THREAD_ENVIRONMENT, []))"

definition both_stacks_gone :: "parent_answers \<Rightarrow> sl_guarded_stack \<Rightarrow> sl_guarded_stack \<Rightarrow> parent_event list" where
  "both_stacks_gone a stack signal_stack =
     map Memory (destroy_guarded_stack (pa_host a) signal_stack @ destroy_guarded_stack (pa_host a) stack)"

text \<open>The first error counts; without one, the worker's end decides.\<close>

definition parent_verdict ::
    "u32 \<Rightarrow> sl_status \<Rightarrow> sl_status \<Rightarrow> bytes \<Rightarrow> bool \<Rightarrow> sl_status \<Rightarrow> wait_status \<Rightarrow> sl_status \<times> sl_runtime_report" where
  "parent_verdict child parent_mask_status read_status got has_extra_data wait_status_result wait_status =
     (let report = empty_report\<lparr>rp_worker_process_id := child\<rparr>
      in if parent_mask_status \<noteq> SL_OK then (parent_mask_status, report)
         else if read_status \<noteq> SL_OK then (read_status, report)
         else if wait_status_result \<noteq> SL_OK then (wait_status_result, report)
         else judge_worker child got has_extra_data wait_status)"

text \<open>From the child on: the mask is restored, the end of the pipe for writing closed, the report read and the child waited
  for, and everything given back before the parent judges.\<close>

definition await_worker ::
    "parent_answers \<Rightarrow> sl_guarded_stack \<Rightarrow> sl_guarded_stack \<Rightarrow> int \<Rightarrow> int \<Rightarrow> u64 \<Rightarrow> ptr \<Rightarrow> thread_world \<Rightarrow>
     (sl_status \<times> sl_runtime_report \<times> thread_world \<times> parent_event list) option" where
  "await_worker a stack signal_stack read_fd write_fd old_mask p w =
     (case restore_mask a old_mask of (parent_mask_status, restored) \<Rightarrow>
        if pa_clone a < 0
        then Some (if parent_mask_status \<noteq> SL_OK then parent_mask_status else SL_ERROR_PROCESS_CREATION, empty_report,
               sl_win32_process_release p w,
               restored @ [Closed read_fd, Closed write_fd] @ both_stacks_gone a stack signal_stack)
        else case read_worker_report (pa_reads a) [] of
          None \<Rightarrow> None
        | Some (read_status, got, has_extra_data) \<Rightarrow>
            (case wait_for_worker (pa_clone a) (pa_waits a) of
               None \<Rightarrow> None
             | Some (wait_status_result, wait_status) \<Rightarrow>
                 (case parent_verdict (of_int (pa_clone a)) parent_mask_status read_status got has_extra_data
                         wait_status_result wait_status of
                    (status, report) \<Rightarrow> Some (status, report, sl_win32_process_release p w,
                      [Child_Started (pa_clone a)] @ restored @ [Closed write_fd, Closed read_fd, Child_Awaited (pa_clone a)] @
                      both_stacks_gone a stack signal_stack))))"

definition start_worker ::
    "parent_answers \<Rightarrow> sl_guarded_stack \<Rightarrow> sl_guarded_stack \<Rightarrow> int \<Rightarrow> int \<Rightarrow> ptr \<Rightarrow> thread_world \<Rightarrow>
     (sl_status \<times> sl_runtime_report \<times> thread_world \<times> parent_event list) option" where
  "start_worker a stack signal_stack read_fd write_fd p w =
     (let undone = [Closed read_fd, Closed write_fd] @ both_stacks_gone a stack signal_stack
      in case pa_mask a of
           None \<Rightarrow> Some (SL_ERROR_THREAD_ENVIRONMENT, empty_report, sl_win32_process_release p w, undone)
         | Some old_mask \<Rightarrow>
             (case sl_handle_table_prepare_clone (pr_handle_table (tw_processes w p)) of
                (status, table) \<Rightarrow>
                  let w = change_table (\<lambda>_. table) p w
                  in if status \<noteq> SL_OK
                     then (case restore_mask a old_mask of (restore_status, restored) \<Rightarrow>
                       Some (if restore_status = SL_OK then status else restore_status, empty_report,
                         sl_win32_process_release p w, [Mask_Set UINT64_MAX] @ restored @ undone))
                     else map_option (\<lambda>(status, report, w, events). (status, report, w, Mask_Set UINT64_MAX # events))
                            (await_worker a stack signal_stack read_fd write_fd old_mask p
                               (change_table sl_handle_table_complete_clone p w))))"

text \<open>With the reference to the process: the two stacks and the pipe.\<close>

definition launch_worker ::
    "parent_answers \<Rightarrow> ptr \<Rightarrow> thread_world \<Rightarrow>
     (sl_status \<times> sl_runtime_report \<times> thread_world \<times> parent_event list) option" where
  "launch_worker a p w =
     (case create_guarded_stack (pa_host a) (pa_stack a) SL_RUNTIME_STACK_USABLE_SIZE of
        (Inl status, events) \<Rightarrow> Some (status, empty_report, sl_win32_process_release p w, map Memory events)
      | (Inr stack, events) \<Rightarrow>
          (case create_guarded_stack (pa_host a) (pa_signal_stack a) SL_RUNTIME_SIGNAL_STACK_USABLE_SIZE of
             (Inl status, events') \<Rightarrow>
               Some (status, empty_report, sl_win32_process_release p w,
                 map Memory (events @ events' @ destroy_guarded_stack (pa_host a) stack))
           | (Inr signal_stack, events') \<Rightarrow>
               (case pa_pipe a of
                  None \<Rightarrow> Some (SL_ERROR_IO, empty_report, sl_win32_process_release p w,
                    map Memory (events @ events') @ both_stacks_gone a stack signal_stack)
                | Some (read_fd, write_fd) \<Rightarrow>
                    map_option (\<lambda>(status, report, w, later).
                        (status, report, w, map Memory (events @ events') @ [Opened read_fd, Opened write_fd] @ later))
                      (start_worker a stack signal_stack read_fd write_fd p w))))"

definition sl_runtime_run_trusted_worker ::
    "module_objects \<Rightarrow> nat option \<Rightarrow> nat option \<Rightarrow> u64 \<Rightarrow> ptr \<Rightarrow> bool \<Rightarrow> parent_answers \<Rightarrow> thread_world \<Rightarrow>
     (sl_status \<times> sl_runtime_report \<times> thread_world \<times> parent_event list) option" where
  "sl_runtime_run_trusted_worker objects image_id mapped_id h p out a w =
     (if \<not> out then Some (SL_ERROR_INVALID_ARGUMENT, empty_report, w, [])
      else if p = NULL \<or> sl_win32_context_current w h \<noteq> NULL \<or>
              other_main_module (process_main_module w p) image_id mapped_id
      then Some (SL_ERROR_INVALID_STATE, empty_report, w, [])
      else let status = validate_trusted_entry (object (image_at objects) image_id) (object (mapped_at objects) mapped_id)
      in if status \<noteq> SL_OK then Some (status, empty_report, w, [])
      else let status = validate_parent_sigchld_state (pa_sigchld a)
      in if status \<noteq> SL_OK then Some (status, empty_report, w, [])
      else case sl_win32_process_retain (pa_rounds a) p w of
        None \<Rightarrow> None
      | Some (status, w) \<Rightarrow> if status \<noteq> SL_OK then Some (status, empty_report, w, []) else launch_worker a p w)"

definition sl_runtime_run_process_main ::
    "u64 \<Rightarrow> ptr \<Rightarrow> bool \<Rightarrow> parent_answers \<Rightarrow> thread_world \<Rightarrow>
     (sl_status \<times> sl_runtime_report \<times> thread_world \<times> parent_event list) option" where
  "sl_runtime_run_process_main h p out a w =
     (if \<not> out then Some (SL_ERROR_INVALID_ARGUMENT, empty_report, w, [])
      else case process_main_module w p of
        None \<Rightarrow> Some (SL_ERROR_INVALID_STATE, empty_report, w, [])
      | Some m \<Rightarrow>
          if md_image m = None \<or> md_mapped m = None then Some (SL_ERROR_INVALID_STATE, empty_report, w, [])
          else sl_runtime_run_trusted_worker (objects_of (sp_owned (the (pr_module_space (tw_processes w p))))) (md_image m)
                 (md_mapped m) h p out a w)"

end
