(* ===== verification/Runtime_Properties.thy ===== *)
theory Runtime_Properties
  imports Runtime_Worker Loader_Address_Space Handle_Machine
begin

text \<open>
  What running a worker promises: the parent's report says what the worker did, and the parent ends with what it had
  before.
\<close>

section \<open>The reports a worker writes are valid\<close>

lemma final_report_valid:
  "wire_report_is_valid (final_report process_id status result last_error) process_id"
  using status_code_le [of status] status_code_zero [of SL_OK] status_code_zero [of status]
  by (simp add: wire_report_is_valid_def final_report_def outcome_defs)

lemma final_report_exit:
  "wire_exit_status_is_valid (final_report process_id status result last_error) (Exited 0)"
  by (simp add: wire_exit_status_is_valid_def final_report_def outcome_defs)

text \<open>A crash as the kernel tells it: one of the signals the handler is installed for, with its code and the context, and the
  handler on its own stack.\<close>

definition crash_on_altstack :: "u64 \<Rightarrow> u64 \<Rightarrow> crash \<Rightarrow> bool" where
  "crash_on_altstack stack_limit stack_base c \<longleftrightarrow>
     is_runtime_crash_signal (sint (ch_signal_number c)) \<and> ch_info c \<noteq> None \<and> ch_context c \<noteq> None \<and>
     stack_limit \<le> ch_handler_address c \<and> ch_handler_address c < stack_base"

lemma crash_report_valid:
  assumes "crash_on_altstack (cr_stack_limit s) (cr_stack_base s) c"
  shows "wire_report_is_valid (crash_report s c) (cr_process_id s)"
proof -
  obtain code addr rip rsp where c: "ch_info c = Some (code, addr)" "ch_context c = Some (rip, rsp)"
    using assms by (auto simp: crash_on_altstack_def)
  have "is_runtime_crash_signal (sint (ch_signal_number c))" "cr_stack_limit s \<le> ch_handler_address c"
    "ch_handler_address c < cr_stack_base s"
    using assms by (simp_all add: crash_on_altstack_def)
  then show ?thesis
    using status_code_le [of SL_OK]
    by (simp add: wire_report_is_valid_def crash_report_def c Let_def outcome_defs report_flag_defs)
qed

lemma crash_signal_range: "is_runtime_crash_signal n \<Longrightarrow> 0 < n \<and> n < 64"
  by (auto simp: is_runtime_crash_signal_def sl_runtime_crash_signals_def signal_defs)

lemma crash_report_exit:
  assumes "is_runtime_crash_signal (sint (ch_signal_number c))"
  shows "wire_exit_status_is_valid (crash_report s c)
    (Exited ((SL_RUNTIME_CRASH_EXIT_BASE + sint (ch_signal_number c)) mod 256))"
proof -
  have "(SL_RUNTIME_CRASH_EXIT_BASE + sint (ch_signal_number c)) mod 256 = SL_RUNTIME_CRASH_EXIT_BASE + sint (ch_signal_number c)"
    using crash_signal_range [OF assms] by (simp add: SL_RUNTIME_CRASH_EXIT_BASE_def)
  then show ?thesis
    by (simp add: wire_exit_status_is_valid_def runtime_crash_exit_code_def crash_report_def Let_def outcome_defs
        split: option.splits prod.splits)
qed

section \<open>The pipe\<close>

text \<open>The reads deliver the bytes, in pieces as the kernel likes, and then the end of the pipe.\<close>

fun delivers :: "bytes \<Rightarrow> read_answer list \<Rightarrow> bool" where
  "delivers bs [] = False"
| "delivers bs (Read_Bytes piece # answers) =
     (if piece = [] then bs = []
      else length piece \<le> length bs \<and> take (length piece) bs = piece \<and> delivers (drop (length piece) bs) answers)"
| "delivers bs (Read_Interrupted # answers) = delivers bs answers"
| "delivers bs (Read_Failed # answers) = False"

fun tells :: "int \<Rightarrow> wait_status \<Rightarrow> wait_answer list \<Rightarrow> bool" where
  "tells pid wait_status [] = False"
| "tells pid wait_status (Waited pid' wait_status' # answers) = (pid' = pid \<and> wait_status' = wait_status)"
| "tells pid wait_status (Wait_Interrupted # answers) = tells pid wait_status answers"
| "tells pid wait_status (Wait_Failed # answers) = False"

lemma read_end: "delivers [] answers \<Longrightarrow> read_extra answers = Some (SL_OK, False)"
  by (induction "[] :: bytes" answers rule: delivers.induct) (auto split: if_splits)

lemma read_delivered:
  "delivers bs answers \<Longrightarrow> bs = [] \<and> length got < wire_size \<or> length got + length bs = wire_size \<Longrightarrow>
   read_worker_report answers got = Some (SL_OK, got @ bs, False)"
proof (induction bs answers arbitrary: got rule: delivers.induct)
  case (2 bs piece answers)
  show ?case
  proof (cases "length got < wire_size")
    case True
    show ?thesis
    proof (cases "piece = []")
      case False
      then have piece: "length piece \<le> length bs" "take (length piece) bs = piece" "delivers (drop (length piece) bs) answers"
        "bs \<noteq> []"
        using "2.prems"(1) by auto
      then have len: "length got + length bs = wire_size"
        using "2.prems"(2) by blast
      have "read_worker_report answers (got @ piece) = Some (SL_OK, (got @ piece) @ drop (length piece) bs, False)"
        by (rule "2.IH" [OF False piece(3)]) (use piece(1) len in auto)
      moreover have "piece @ drop (length piece) bs = bs"
        using append_take_drop_id [of "length piece" bs] piece(2) by simp
      moreover have "take (wire_size - length got) piece = piece"
        using piece(1) len by simp
      ultimately show ?thesis
        using True False by simp
    qed (use "2.prems" True in simp)
  next
    case False
    then have "bs = []"
      using "2.prems"(2) by (cases bs) auto
    then have "read_extra (Read_Bytes piece # answers) = Some (SL_OK, False)"
      using "2.prems"(1) by (intro read_end) simp
    then show ?thesis
      using False \<open>bs = []\<close> by simp
  qed
next
  case (3 bs answers)
  show ?case
  proof (cases "length got < wire_size")
    case False
    then have "bs = []"
      using "3.prems"(2) by (cases bs) auto
    then have "read_extra answers = Some (SL_OK, False)"
      using "3.prems"(1) by (intro read_end) simp
    then show ?thesis
      using False \<open>bs = []\<close> by simp
  qed (use 3 in simp)
qed simp_all

lemma wait_told: "tells pid wait_status answers \<Longrightarrow> wait_for_worker pid answers = Some (SL_OK, wait_status)"
  by (induction pid wait_status answers rule: tells.induct) auto

section \<open>What a worker did and how it ended\<close>

text \<open>Whether a report arrives: the worker could block its signals before it wrote, and the pipe took it.\<close>

definition report_arrives :: "worker_answers \<Rightarrow> course_taken \<Rightarrow> bool" where
  "report_arrives a course \<longleftrightarrow> wk_arrives a \<and> (case course of Came_To_End _ _ _ \<Rightarrow> wk_final_block_ok a | _ \<Rightarrow> True)"

text \<open>What the parent is to report.\<close>

definition exited_report :: "u32 \<Rightarrow> int \<Rightarrow> sl_runtime_report" where
  "exited_report pid code = empty_report\<lparr>rp_worker_process_id := pid, rp_outcome := SL_RUNTIME_OUTCOME_EXITED,
     rp_exit_code := of_int code\<rparr>"

definition crashed_report :: "u32 \<Rightarrow> crash \<Rightarrow> sl_runtime_report" where
  "crashed_report pid c =
     (let (code, address) = the (ch_info c); (rip, rsp) = the (ch_context c);
          has_address = sint code > 0 \<and> signal_has_address (sint (ch_signal_number c))
      in empty_report\<lparr>rp_worker_process_id := pid, rp_outcome := SL_RUNTIME_OUTCOME_SIGNALLED,
           rp_signal_number := ch_signal_number c, rp_signal_code := code,
           rp_fault_address := (if has_address then address else 0),
           rp_report_flags := SL_RUNTIME_REPORT_HAS_CRASH_CONTEXT OR SL_RUNTIME_REPORT_HAS_SIGNAL_CODE OR
             SL_RUNTIME_REPORT_HANDLER_ON_ALTSTACK OR (if has_address then SL_RUNTIME_REPORT_HAS_FAULT_ADDRESS else 0),
           rp_instruction_pointer := rip, rp_stack_pointer := rsp\<rparr>)"

fun reported :: "u32 \<Rightarrow> bool \<Rightarrow> course_taken \<Rightarrow> sl_runtime_report" where
  "reported pid arrives (Came_To_End status result last_error) =
     (if arrives
      then empty_report\<lparr>rp_worker_process_id := pid,
             rp_outcome := (if status = SL_OK then SL_RUNTIME_OUTCOME_RETURNED else SL_RUNTIME_OUTCOME_FAILED),
             rp_worker_status := status_code status, rp_return_value := result, rp_last_error := last_error\<rparr>
      else exited_report pid 126)"
| "reported pid arrives (Guest_Ended (Entry_Crashed c)) =
     (if arrives then crashed_report pid c
      else exited_report pid (SL_RUNTIME_CRASH_EXIT_BASE + sint (ch_signal_number c)))"
| "reported pid arrives (Guest_Ended (Entry_Exited code)) = exited_report pid (code mod 256)"
| "reported pid arrives (Guest_Ended (Entry_Killed sig)) = empty_report\<lparr>rp_worker_process_id := pid,
     rp_outcome := SL_RUNTIME_OUTCOME_SIGNALLED, rp_signal_number := of_int sig\<rparr>"
| "reported pid arrives (Guest_Ended (Entry_Returned result w)) = empty_report"

lemma judge_exited: "judge_worker pid [] False (Exited code) = (SL_OK, exited_report pid code)"
  by (simp add: judge_worker_def exited_report_def)

lemma judge_report:
  assumes "wire_report_is_valid wire pid" "wire_exit_status_is_valid wire (Exited code)"
  shows "judge_worker pid (wire_bytes wire) False (Exited code) = (SL_OK, decode_wire_report wire)"
proof -
  have "wire_bytes wire \<noteq> []"
    using length_wire_bytes [of wire] unfolding wire_size_def by (metis list.size(3) zero_neq_numeral)
  then show ?thesis
    using assms by (simp add: judge_worker_def wire_roundtrip)
qed

lemma decode_final_report:
  "decode_wire_report (final_report pid status result last_error) = reported pid True (Came_To_End status result last_error)"
  by (simp add: decode_wire_report_def final_report_def empty_report_def)

lemma decode_crash_report:
  assumes "crash_on_altstack (cr_stack_limit s) (cr_stack_base s) c"
  shows "decode_wire_report (crash_report s c) = crashed_report (cr_process_id s) c"
proof -
  obtain code addr rip rsp where c: "ch_info c = Some (code, addr)" "ch_context c = Some (rip, rsp)"
    using assms by (auto simp: crash_on_altstack_def)
  have "cr_stack_limit s \<le> ch_handler_address c" "ch_handler_address c < cr_stack_base s"
    using assms by (simp_all add: crash_on_altstack_def)
  then show ?thesis
    using status_code_zero [of SL_OK]
    by (simp add: decode_wire_report_def crash_report_def crashed_report_def c Let_def empty_report_def report_flag_defs)
qed

text \<open>The handler is armed when the guest runs.\<close>

definition crash_reporting_on :: "u64 \<Rightarrow> u64 \<Rightarrow> u32 \<Rightarrow> sl_runtime_crash_handler_state \<Rightarrow> bool" where
  "crash_reporting_on stack_limit stack_base pid s \<longleftrightarrow> cr_armed s \<and> \<not> cr_handling s \<and> cr_process_id s = pid \<and>
     cr_stack_limit s = stack_limit \<and> cr_stack_base s = stack_base"

lemma installed_crash_reporting:
  "install_worker_crash_reporting a stack_limit stack_base write_fd pid s = (SL_OK, s') \<Longrightarrow>
   crash_reporting_on stack_limit stack_base pid s'"
  by (auto simp: install_worker_crash_reporting_def crash_reporting_on_def Let_def split: if_splits)

definition guest_kind :: "guest_end \<Rightarrow> bool" where
  "guest_kind e = (case e of Entry_Returned r w \<Rightarrow> False | _ \<Rightarrow> True)"

lemma call_ends_by_guest:
  "sl_runtime_call_trusted_entry objects i m h thread scope out entering leaving guest w = Some (Inl e) \<Longrightarrow> guest_kind e"
  by (auto simp: sl_runtime_call_trusted_entry_def Let_def guest_kind_def split: if_splits option.splits guest_end.splits prod.splits)

lemma course_ends_by_guest:
  "worker_course state h thread scope a guest w = Some (Guest_Ended e) \<Longrightarrow> guest_kind e"
  by (auto simp: worker_course_def finish_worker_def split: option.splits prod.splits if_splits sum.splits
      dest: call_ends_by_guest)

text \<open>How a worker ends that took a course, and what its parent reports.\<close>

lemma course_reported:
  assumes "case course of Guest_Ended e \<Rightarrow> guest_kind e \<and> crash_reporting_on stack_limit stack_base (wk_getpid a) s | _ \<Rightarrow> True"
    and "\<And>c. course = Guest_Ended (Entry_Crashed c) \<Longrightarrow> crash_on_altstack stack_limit stack_base c"
  shows "let ending = worker_end_of a s course
    in (length (we_bytes ending) = wire_size \<or> we_bytes ending = []) \<and>
       judge_worker (wk_getpid a) (we_bytes ending) False (we_status ending) =
         (SL_OK, reported (wk_getpid a) (report_arrives a course) course)"
proof (cases course)
  case (Came_To_End status result last_error)
  then show ?thesis
    using judge_report [OF final_report_valid final_report_exit]
    by (simp add: report_arrives_def worker_end_of_def write_worker_report_and_exit_def exit_with_def runtime_crash_write_def
        decode_final_report judge_exited)
next
  case (Guest_Ended e)
  then have on: "guest_kind e" "crash_reporting_on stack_limit stack_base (wk_getpid a) s"
    using assms(1) by simp_all
  show ?thesis
  proof (cases e)
    case (Entry_Crashed c)
    then have c: "crash_on_altstack (cr_stack_limit s) (cr_stack_base s) c" "cr_process_id s = wk_getpid a"
      "is_runtime_crash_signal (sint (ch_signal_number c))"
      using assms(2) Guest_Ended on(2) by (auto simp: crash_reporting_on_def crash_on_altstack_def)
    have "(SL_RUNTIME_CRASH_EXIT_BASE + sint (ch_signal_number c)) mod 256 = SL_RUNTIME_CRASH_EXIT_BASE + sint (ch_signal_number c)"
      using crash_signal_range [OF c(3)] by (simp add: SL_RUNTIME_CRASH_EXIT_BASE_def)
    then show ?thesis
      using judge_report [OF crash_report_valid [OF c(1)] crash_report_exit [OF c(3)]] on(2) decode_crash_report [OF c(1)]
      by (simp add: report_arrives_def Guest_Ended Entry_Crashed worker_end_of_def runtime_crash_signal_handler_def Let_def
          crash_reporting_on_def exit_with_def runtime_crash_write_def c(2) judge_exited)
  qed (use on(1) Guest_Ended in \<open>simp_all add: worker_end_of_def guest_kind_def exit_with_def judge_exited judge_worker_def
      exited_report_def\<close>)
qed


lemma child_course:
  assumes "run_worker_child state h thread scope a s guest w = Some (course, ending)"
  obtains s' where "ending = worker_end_of a s' course"
    "case course of
       Guest_Ended e \<Rightarrow> guest_kind e \<and>
         crash_reporting_on (ws_signal_stack_limit state) (ws_signal_stack_base state) (wk_getpid a) s'
     | _ \<Rightarrow> True"
proof (cases "reset_worker_signal_environment a = SL_OK")
  case True
  obtain status s' where install: "install_worker_crash_reporting a (ws_signal_stack_limit state) (ws_signal_stack_base state)
      (ws_write_fd state) (wk_getpid a) s = (status, s')"
    by (cases "install_worker_crash_reporting a (ws_signal_stack_limit state) (ws_signal_stack_base state)
      (ws_write_fd state) (wk_getpid a) s")
  show ?thesis
  proof (rule that [of s'])
    show "ending = worker_end_of a s' course"
      using assms True install by (auto simp: run_worker_child_def Let_def split: if_splits)
    have "guest_kind e \<and> crash_reporting_on (ws_signal_stack_limit state) (ws_signal_stack_base state) (wk_getpid a) s'"
      if "course = Guest_Ended e" for e
      using assms True install installed_crash_reporting [of a] course_ends_by_guest that
      by (auto simp: run_worker_child_def Let_def split: if_splits)
    then show "case course of
       Guest_Ended e \<Rightarrow> guest_kind e \<and>
         crash_reporting_on (ws_signal_stack_limit state) (ws_signal_stack_base state) (wk_getpid a) s'
     | _ \<Rightarrow> True"
      by (cases course) simp_all
  qed
next
  case False
  then show ?thesis
    using assms that [of s] by (auto simp: run_worker_child_def Let_def)
qed

section \<open>The parent of a worker\<close>

definition memory_events :: "parent_event list \<Rightarrow> host_event list" where
  "memory_events events = concat (map (\<lambda>e. case e of Memory x \<Rightarrow> [x] | _ \<Rightarrow> []) events)"

definition opened :: "parent_event list \<Rightarrow> int list" where
  "opened events = concat (map (\<lambda>e. case e of Opened fd \<Rightarrow> [fd] | _ \<Rightarrow> []) events)"

definition closed :: "parent_event list \<Rightarrow> int list" where
  "closed events = concat (map (\<lambda>e. case e of Closed fd \<Rightarrow> [fd] | _ \<Rightarrow> []) events)"

definition masks :: "parent_event list \<Rightarrow> u64 list" where
  "masks events = concat (map (\<lambda>e. case e of Mask_Set m \<Rightarrow> [m] | _ \<Rightarrow> []) events)"

definition started :: "parent_event list \<Rightarrow> int list" where
  "started events = concat (map (\<lambda>e. case e of Child_Started pid \<Rightarrow> [pid] | _ \<Rightarrow> []) events)"

definition awaited :: "parent_event list \<Rightarrow> int list" where
  "awaited events = concat (map (\<lambda>e. case e of Child_Awaited pid \<Rightarrow> [pid] | _ \<Rightarrow> []) events)"

lemmas event_lists = memory_events_def opened_def closed_def masks_def started_def awaited_def

lemma parent_event_simps [simp]:
  "memory_events [] = []" "opened [] = []" "closed [] = []" "masks [] = []" "started [] = []" "awaited [] = []"
  "memory_events (e # es) = (case e of Memory x \<Rightarrow> [x] | _ \<Rightarrow> []) @ memory_events es"
  "opened (e # es) = (case e of Opened fd \<Rightarrow> [fd] | _ \<Rightarrow> []) @ opened es"
  "closed (e # es) = (case e of Closed fd \<Rightarrow> [fd] | _ \<Rightarrow> []) @ closed es"
  "masks (e # es) = (case e of Mask_Set m \<Rightarrow> [m] | _ \<Rightarrow> []) @ masks es"
  "started (e # es) = (case e of Child_Started pid \<Rightarrow> [pid] | _ \<Rightarrow> []) @ started es"
  "awaited (e # es) = (case e of Child_Awaited pid \<Rightarrow> [pid] | _ \<Rightarrow> []) @ awaited es"
  "memory_events (es @ fs) = memory_events es @ memory_events fs" "opened (es @ fs) = opened es @ opened fs"
  "closed (es @ fs) = closed es @ closed fs" "masks (es @ fs) = masks es @ masks fs"
  "started (es @ fs) = started es @ started fs" "awaited (es @ fs) = awaited es @ awaited fs"
  by (simp_all add: event_lists)

lemma memory_lists [simp]:
  "memory_events (map Memory xs) = xs" "opened (map Memory xs) = []" "closed (map Memory xs) = []"
  "masks (map Memory xs) = []" "started (map Memory xs) = []" "awaited (map Memory xs) = []"
  by (induction xs) simp_all

text \<open>A stack that was made is given back, one that could not be made leaves nothing.\<close>

lemma stack_made_or_not:
  assumes "create_guarded_stack h a n = (result, events)" "unmaps h" "sk_mmap a \<noteq> Some 0"
  shows "case result of
      Inl status \<Rightarrow> status \<noteq> SL_OK \<and> (\<forall>A. fold held_after events A \<subseteq> A)
    | Inr stack \<Rightarrow> \<exists>b k. events = [MAPPED b k] \<and> destroy_guarded_stack h stack = [UNMAPPED b k]"
proof (cases "host_page_size (sk_sysconf a)")
  case (Inl status)
  moreover have "status \<noteq> SL_OK"
    using Inl by (auto simp: host_page_size_def Let_def split: if_splits)
  ultimately show ?thesis
    using assms(1) by (auto simp: create_guarded_stack_def)
next
  case (Inr page_size)
  then have "page_size \<noteq> 0"
    by (auto simp: host_page_size_def Let_def split: if_splits)
  show ?thesis
  proof (cases "round_up_size n page_size")
    case (Some usable_size)
    then show ?thesis
      using assms Inr \<open>page_size \<noteq> 0\<close>
      by (auto simp: create_guarded_stack_def destroy_guarded_stack_def Let_def split: if_splits option.splits)
  qed (use assms(1) Inr in \<open>auto simp: create_guarded_stack_def split: if_splits\<close>)
qed

text \<open>The reference to the process.\<close>

lemma retain_loop_result:
  "retain_loop rounds p references w = Some (status, w') \<Longrightarrow>
   (if status = SL_OK then references_of w p \<noteq> UINT_MAX \<and> w' = set_references p (references_of w p + 1) w else w' = w)"
  by (induction rounds arbitrary: references)
    (auto simp: retain_exchange_def split: if_splits)

lemma retain_result:
  "sl_win32_process_retain rounds p w = Some (status, w') \<Longrightarrow>
   (if status = SL_OK then references_of w p \<noteq> UINT_MAX \<and> w' = set_references p (references_of w p + 1) w else w' = w)"
  by (auto simp: sl_win32_process_retain_def dest: retain_loop_result split: if_splits)

lemma release_retained:
  assumes "references_of w p \<noteq> UINT_MAX"
  shows "sl_win32_process_release p (set_references p (references_of w p + 1) w) = w"
proof -
  have "UINT_MAX = - 1"
    by (simp add: UINT_MAX_def)
  then have "references_of w p + 1 \<noteq> 0"
    using assms by (simp flip: eq_neg_iff_add_eq_0)
  then show ?thesis
    by (simp add: sl_win32_process_release_def set_references_def Let_def)
qed

text \<open>The table is locked for the moment of the clone only.\<close>

lemma table_unlocked_again:
  assumes "sl_handle_table_prepare_clone H = (status, table)" "hw_table H = Some t" "\<not> ht_locked t" "hw_tracker H \<noteq> None"
  shows "if status = SL_OK then sl_handle_table_complete_clone table = H else table = H"
  using assms by (auto simp: sl_handle_table_prepare_clone_def sl_handle_table_complete_clone_def split: if_splits)

lemma change_table_triv: "f (pr_handle_table (tw_processes w p)) = pr_handle_table (tw_processes w p) \<Longrightarrow> change_table f p w = w"
  by (simp add: change_table_def)

lemma change_table_twice: "change_table f p (change_table g p w) = change_table (f \<circ> g) p w"
  by (simp add: change_table_def)

text \<open>What happens from the child on.\<close>

lemma judged_worker: "judge_worker child got extra wait_status = (SL_OK, report) \<Longrightarrow> rp_worker_process_id report = child"
  by (auto simp: judge_worker_def Let_def decode_wire_report_def wire_report_is_valid_def split: wait_status.splits if_splits)

lemma parent_verdict_ok:
  "parent_verdict child mask_status read_status got extra wait_result wait_status = (status, report) \<Longrightarrow>
   (status = SL_OK \<longrightarrow> rp_worker_process_id report = child) \<and> (mask_status \<noteq> SL_OK \<longrightarrow> status = mask_status)"
  by (auto simp: parent_verdict_def Let_def judged_worker split: if_splits)

lemma await_worker_result:
  assumes "await_worker a stack signal_stack read_fd write_fd old_mask p w = Some (status, report, w', events)"
  shows "w' = sl_win32_process_release p w \<and>
    memory_events events = destroy_guarded_stack (pa_host a) signal_stack @ destroy_guarded_stack (pa_host a) stack \<and>
    opened events = [] \<and> mset (closed events) = {#read_fd, write_fd#} \<and> awaited events = started events \<and>
    (masks events = [old_mask] \<or> masks events = [] \<and> status = SL_ERROR_THREAD_ENVIRONMENT) \<and>
    (status = SL_OK \<longrightarrow> started events = [pa_clone a] \<and> rp_worker_process_id report = of_int (pa_clone a))"
  using assms
  by (auto simp: await_worker_def restore_mask_def both_stacks_gone_def dest: parent_verdict_ok
      split: if_splits option.splits prod.splits)

lemma start_worker_result:
  assumes "start_worker a stack signal_stack read_fd write_fd p w = Some (status, report, w', events)"
    and "hw_table (pr_handle_table (tw_processes w p)) = Some t" "\<not> ht_locked t"
    and "hw_tracker (pr_handle_table (tw_processes w p)) \<noteq> None"
  shows "w' = sl_win32_process_release p w \<and>
    memory_events events = destroy_guarded_stack (pa_host a) signal_stack @ destroy_guarded_stack (pa_host a) stack \<and>
    opened events = [] \<and> mset (closed events) = {#read_fd, write_fd#} \<and> awaited events = started events \<and>
    (masks events = [] \<or> (\<exists>old_mask. pa_mask a = Some old_mask \<and> masks events = [UINT64_MAX, old_mask]) \<or>
     masks events = [UINT64_MAX] \<and> status = SL_ERROR_THREAD_ENVIRONMENT) \<and>
    (status = SL_OK \<longrightarrow> started events = [pa_clone a] \<and> rp_worker_process_id report = of_int (pa_clone a))"
proof (cases "pa_mask a")
  case None
  then show ?thesis
    using assms(1) by (auto simp: start_worker_def both_stacks_gone_def)
next
  case (Some old_mask)
  obtain prepared table where prepare: "sl_handle_table_prepare_clone (pr_handle_table (tw_processes w p)) = (prepared, table)"
    by fastforce
  note tables = table_unlocked_again [OF prepare assms(2-4)]
  show ?thesis
  proof (cases "prepared = SL_OK")
    case True
    then have "change_table sl_handle_table_complete_clone p (change_table (\<lambda>_. table) p w) = w"
      using tables by (simp add: change_table_twice change_table_triv)
    then obtain later where later: "await_worker a stack signal_stack read_fd write_fd old_mask p w = Some (status, report, w', later)"
      "events = Mask_Set UINT64_MAX # later"
      using assms(1) Some prepare True by (auto simp: start_worker_def)
    then show ?thesis
      using await_worker_result [OF later(1)] Some by auto
  next
    case False
    then have "change_table (\<lambda>_. table) p w = w"
      using tables by (simp add: change_table_triv)
    then show ?thesis
      using assms(1) Some prepare False
      by (auto simp: start_worker_def restore_mask_def both_stacks_gone_def split: if_splits)
  qed
qed

text \<open>What is written in the pipe and told about the worker decides what the parent reports.\<close>

lemma await_worker_reports:
  assumes "await_worker a stack signal_stack read_fd write_fd old_mask p v = Some (status, report, v', later)"
    and "child \<in> set (started later)" "pa_restore_mask_ok a"
    and "read_worker_report (pa_reads a) [] = Some (SL_OK, got, extra)"
    and "wait_for_worker child (pa_waits a) = Some (SL_OK, wait_status)"
  shows "(status, report) = judge_worker (of_int child) got extra wait_status"
proof -
  have "started later = [pa_clone a]"
    using await_worker_result [OF assms(1)] assms(1,2)
    by (auto simp: await_worker_def restore_mask_def both_stacks_gone_def split: if_splits option.splits prod.splits)
  then have "pa_clone a = child"
    using assms(2) by simp
  then show ?thesis
    using assms
    by (auto simp: await_worker_def restore_mask_def both_stacks_gone_def parent_verdict_def Let_def split: if_splits prod.splits)
qed

lemma start_worker_reports:
  assumes "start_worker a stack signal_stack read_fd write_fd p v = Some (status, report, v', later)"
    and "child \<in> set (started later)"
  obtains w old_mask rest where
    "await_worker a stack signal_stack read_fd write_fd old_mask p w = Some (status, report, v', rest)" "child \<in> set (started rest)"
proof (cases "pa_mask a")
  case (Some old_mask)
  obtain prepared table where "sl_handle_table_prepare_clone (pr_handle_table (tw_processes v p)) = (prepared, table)"
    by fastforce
  then show ?thesis
    using assms Some that
    by (auto simp: start_worker_def restore_mask_def both_stacks_gone_def Let_def split: if_splits)
qed (use assms in \<open>auto simp: start_worker_def both_stacks_gone_def\<close>)

lemma run_worker_launches:
  assumes "sl_runtime_run_trusted_worker objects i m h p out a w = Some (status, report, w', events)"
  obtains "events = []" "w' = w" "status \<noteq> SL_OK"
  | "references_of w p \<noteq> UINT_MAX"
    "launch_worker a p (set_references p (references_of w p + 1) w) = Some (status, report, w', events)"
  using assms
  by (auto simp: sl_runtime_run_trusted_worker_def Let_def dest!: retain_result split: if_splits option.splits)

lemma parent_reports:
  assumes "sl_runtime_run_trusted_worker objects i m h p out a w = Some (status, report, w', events)"
    and "child \<in> set (started events)" "pa_restore_mask_ok a"
    and "read_worker_report (pa_reads a) [] = Some (SL_OK, got, extra)"
    and "wait_for_worker child (pa_waits a) = Some (SL_OK, wait_status)"
  shows "(status, report) = judge_worker (of_int child) got extra wait_status"
proof (rule run_worker_launches [OF assms(1)])
  assume "launch_worker a p (set_references p (references_of w p + 1) w) = Some (status, report, w', events)"
  then obtain stack signal_stack read_fd write_fd v later where
    "start_worker a stack signal_stack read_fd write_fd p v = Some (status, report, w', later)" "child \<in> set (started later)"
    using assms(2)
    by (auto simp: launch_worker_def both_stacks_gone_def split: option.splits prod.splits sum.splits)
  then show ?thesis
    using await_worker_reports [OF _ _ assms(3-5)] by (meson start_worker_reports)
qed (use assms(2) in simp)

lemma launched_worker_gives_back:
  assumes "launch_worker a p (set_references p (references_of w p + 1) w) = Some (status, report, w', events)"
    and "references_of w p \<noteq> UINT_MAX"
    and "hw_table (pr_handle_table (tw_processes w p)) = Some t" "\<not> ht_locked t"
    and "hw_tracker (pr_handle_table (tw_processes w p)) \<noteq> None"
    and "unmaps (pa_host a)" "sk_mmap (pa_stack a) \<noteq> Some 0" "sk_mmap (pa_signal_stack a) \<noteq> Some 0"
  shows "w' = w \<and> held (memory_events events) = {} \<and> mset (closed events) = mset (opened events) \<and>
    awaited events = started events \<and>
    (masks events = [] \<or> (\<exists>old_mask. pa_mask a = Some old_mask \<and> masks events = [UINT64_MAX, old_mask]) \<or>
     masks events = [UINT64_MAX] \<and> status = SL_ERROR_THREAD_ENVIRONMENT) \<and>
    (status = SL_OK \<longrightarrow> started events = [pa_clone a] \<and> rp_worker_process_id report = of_int (pa_clone a))"
proof -
  let ?w = "set_references p (references_of w p + 1) w"
  have table: "hw_table (pr_handle_table (tw_processes ?w p)) = Some t" "\<not> ht_locked t"
    "hw_tracker (pr_handle_table (tw_processes ?w p)) \<noteq> None"
    using assms(3-5) by (simp_all add: set_references_def)
  note released = release_retained [OF assms(2)]
  note launch = assms(1)
  obtain result events1 where first: "create_guarded_stack (pa_host a) (pa_stack a) SL_RUNTIME_STACK_USABLE_SIZE = (result, events1)"
    by fastforce
  note first_stack = stack_made_or_not [OF first assms(6,7)]
  show ?thesis
  proof (cases result)
    case (Inl e)
    then have "fold held_after events1 {} = {}"
      using first_stack by auto
    then show ?thesis
      using Inl launch first released first_stack by (auto simp: launch_worker_def held_def)
  next
    case (Inr stack)
    then obtain b k where bk: "events1 = [MAPPED b k]" "destroy_guarded_stack (pa_host a) stack = [UNMAPPED b k]"
      using first_stack by auto
    obtain result2 events2 where second:
      "create_guarded_stack (pa_host a) (pa_signal_stack a) SL_RUNTIME_SIGNAL_STACK_USABLE_SIZE = (result2, events2)"
      by fastforce
    note second_stack = stack_made_or_not [OF second assms(6,8)]
    show ?thesis
    proof (cases result2)
      case (Inl e)
      have "fold held_after events2 {b..<b + k} \<subseteq> {b..<b + k}"
        using second_stack Inl by simp
      moreover have "(status, report, w', events) =
          (e, empty_report, w, map Memory (events1 @ events2 @ [UNMAPPED b k]))"
        using launch first second released Inr Inl bk by (simp add: launch_worker_def)
      ultimately show ?thesis
        using second_stack Inl bk by (simp add: held_def)
    next
      case (Inr signal_stack)
      then obtain b' k' where bk': "events2 = [MAPPED b' k']" "destroy_guarded_stack (pa_host a) signal_stack = [UNMAPPED b' k']"
        using second_stack by auto
      show ?thesis
      proof (cases "pa_pipe a")
        case None
        then show ?thesis
          using launch first second released \<open>result = Inr stack\<close> Inr bk bk'
          by (auto simp: launch_worker_def both_stacks_gone_def held_def)
      next
        case (Some fds)
        then obtain read_fd write_fd later where later:
          "start_worker a stack signal_stack read_fd write_fd p ?w = Some (status, report, w', later)"
          "events = map Memory (events1 @ events2) @ [Opened read_fd, Opened write_fd] @ later"
          using launch first second \<open>result = Inr stack\<close> Inr by (cases fds) (auto simp: launch_worker_def)
        then show ?thesis
          using start_worker_result [OF later(1) table] released bk bk' by (auto simp: held_def)
      qed
    qed
  qed
qed

section \<open>A run\<close>

text \<open>The entry point writes through a null pointer.\<close>

definition worker_image :: sl_pe_image where
  "worker_image = \<lparr>pe_file = [], pe_machine = SL_PE_MACHINE_AMD64, pe_section_count = 1, pe_is_pe32_plus = True,
     pe_subsystem = 3, pe_image_base = 0x140000000, pe_entry_rva = 0x1010, pe_section_alignment = 0x1000,
     pe_file_alignment = 0x200, pe_image_size = 0x2000, pe_headers_size = 0x200,
     pe_directories = replicate SL_PE_DATA_DIRECTORY_COUNT no_directory,
     pe_sections = [\<lparr>sec_name = [], sec_virtual_size = 0x100, sec_virtual_address = 0x1000, sec_raw_size = 0x200,
       sec_raw_offset = 0x200, sec_characteristics = 0x60000020\<rparr>]\<rparr>"

definition worker_mapping :: sl_mapped_image where
  "worker_mapping = \<lparr>mp_bytes = Some (replicate 0x2000 0), mp_address = 0x140000000, mp_size = 0x2000,
     mp_allocation_size = 0x2000, mp_preferred_base = 0x140000000, mp_load_base = 0x140000000, mp_entry_rva = 0x1010,
     mp_storage = SL_IMAGE_STORAGE_VIRTUAL, mp_protections_finalized = True\<rparr>"

definition worker_objects :: module_objects where
  "worker_objects = \<lparr>image_at = \<lambda>_. worker_image, mapped_at = \<lambda>_. worker_mapping\<rparr>"

lemma worker_entry_trusted:
  "validate_trusted_entry (object (image_at worker_objects) (Some 0)) (object (mapped_at worker_objects) (Some 0)) = SL_OK"
  by (simp add: validate_trusted_entry_def object_def worker_objects_def worker_image_def worker_mapping_def
      entry_is_executable_def Let_def SL_SECTION_MEM_EXECUTE_def SL_PE_MAX_SECTIONS_def)

definition worker_process :: sl_win32_process where
  "worker_process = new_process initial_world 1 0x40 0x1040"

definition worker_world :: thread_world where
  "worker_world = \<lparr>tw_threads = (\<lambda>_. new_thread_context 0 0), tw_processes = (\<lambda>_. worker_process), tw_tebs = (\<lambda>_. None),
     tw_hosts = (\<lambda>_. \<lparr>ho_current = NULL, ho_scopes = [], ho_out_teb = NULL, ho_point = Idle SL_OK\<rparr>), tw_aborted = False\<rparr>"

definition worker_parent :: parent_answers where
  "worker_parent = \<lparr>pa_host = \<lparr>mmap_fixed = \<lambda>_ _. None, mmap_any = \<lambda>_. None, munmap_ok = \<lambda>_ _. True\<rparr>,
     pa_sigchld = Some (True, False), pa_rounds = [True, False],
     pa_stack = \<lparr>sk_sysconf = 4096, sk_mmap = Some 0x10000000, sk_mprotect_ok = True\<rparr>,
     pa_signal_stack = \<lparr>sk_sysconf = 4096, sk_mmap = Some 0x20000000, sk_mprotect_ok = True\<rparr>,
     pa_pipe = Some (5, 6), pa_mask = Some 4, pa_restore_mask_ok = True, pa_clone = 77, pa_reads = [], pa_waits = []\<rparr>"

definition worker_reads :: "read_answer list \<Rightarrow> wait_answer list \<Rightarrow> parent_answers" where
  "worker_reads reads waits = worker_parent\<lparr>pa_reads := reads, pa_waits := waits\<rparr>"

lemma stack_rounding: "round_up_size 1048576 4096 = Some 1048576" "round_up_size 131072 4096 = Some 131072"
  by (simp_all add: round_up_size_def)

lemma worker_prepared:
  "sl_handle_table_prepare_clone (pr_handle_table worker_process) =
     (SL_OK, (pr_handle_table worker_process)\<lparr>hw_table := Some (initial_table\<lparr>ht_locked := True\<rparr>)\<rparr>)"
  by (simp add: worker_process_def new_process_def initial_world_def sl_handle_table_prepare_clone_def initial_table_def
      tracker_activity_count_def SL_TRACKER_REFERENCE_ONE_def)

lemma worker_launched:
  assumes "read_worker_report reads [] = Some (SL_OK, got, extra)" "wait_for_worker 77 waits = Some (SL_OK, wait_status)"
  shows "\<exists>status report w events. sl_runtime_run_trusted_worker worker_objects (Some 0) (Some 0) 1 9 True
      (worker_reads reads waits) worker_world = Some (status, report, w, events) \<and> started events = [77]"
proof -
  let ?w = "set_references 9 1 worker_world" and ?a = "worker_reads reads waits"
  have zero: "pr_active_references worker_process = 0"
    by (simp add: worker_process_def new_process_def)
  have process: "tw_processes worker_world 9 = worker_process" "references_of worker_world 9 = 0"
    "tw_processes (set_references 9 1 worker_world) 9 = worker_process\<lparr>pr_active_references := 1\<rparr>"
    by (simp_all add: worker_world_def worker_process_def new_process_def set_references_def)
  have r: "sl_win32_process_retain [True, False] 9 worker_world = Some (SL_OK, ?w)"
    by (simp add: sl_win32_process_retain_def retain_exchange_def process zero UINT_MAX_def)
  have main: "process_main_module worker_world 9 = None" "sl_win32_context_current worker_world 1 = 0"
    by (simp_all add: process_main_module_def sl_win32_process_main_module_def process worker_process_def new_process_def
        sl_win32_context_current_def worker_world_def)
  obtain stack signal_stack where stacks: "create_guarded_stack (pa_host ?a) (pa_stack ?a) SL_RUNTIME_STACK_USABLE_SIZE =
        (Inr stack, [MAPPED 0x10000000 0x102000])"
      "create_guarded_stack (pa_host ?a) (pa_signal_stack ?a) SL_RUNTIME_SIGNAL_STACK_USABLE_SIZE =
        (Inr signal_stack, [MAPPED 0x20000000 0x22000])"
    by (simp_all add: create_guarded_stack_def worker_reads_def worker_parent_def host_page_size_def SIZE_MAX_def Let_def
        SL_RUNTIME_STACK_USABLE_SIZE_def SL_RUNTIME_SIGNAL_STACK_USABLE_SIZE_def stack_rounding)
  have answers: "pa_mask ?a = Some 4" "pa_clone ?a = 77" "pa_pipe ?a = Some (5, 6)" "pa_restore_mask_ok ?a" "pa_rounds ?a = [True, False]"
    "pa_sigchld ?a = Some (True, False)" "pa_reads ?a = reads" "pa_waits ?a = waits"
    by (simp_all add: worker_reads_def worker_parent_def)
  have change_unlocked: "change_table sl_handle_table_complete_clone 9 (change_table (\<lambda>_. (pr_handle_table worker_process)
      \<lparr>hw_table := Some (initial_table\<lparr>ht_locked := True\<rparr>)\<rparr>) 9 ?w) = ?w"
    unfolding change_table_twice
    by (rule change_table_triv) (simp add: process sl_handle_table_complete_clone_def worker_process_def new_process_def initial_world_def initial_table_def)
  have "\<exists>status report w' later. await_worker ?a stack signal_stack 5 6 4 9 w = Some (status, report, w', later) \<and> started later = [77]"
    for w
    using assms by (simp add: await_worker_def answers restore_mask_def both_stacks_gone_def split: prod.splits)
  from this [of ?w] have "\<exists>status report w' later. start_worker ?a stack signal_stack 5 6 9 ?w = Some (status, report, w', later) \<and> started later = [77]"
    using change_unlocked by (auto simp: start_worker_def answers process worker_prepared)
  then obtain status report w' later where start: "start_worker ?a stack signal_stack 5 6 9 ?w = Some (status, report, w', later)"
    "started later = [77]" by blast
  have "launch_worker ?a 9 ?w = Some (status, report, w', map Memory [MAPPED 0x10000000 0x102000, MAPPED 0x20000000 0x22000] @
      [Opened 5, Opened 6] @ later)"
    by (simp add: launch_worker_def stacks answers start)
  then show ?thesis
    using start(2) by (simp add: sl_runtime_run_trusted_worker_def worker_entry_trusted answers
        validate_parent_sigchld_state_def r main other_main_module_def)
qed

definition worker_state :: sl_runtime_worker_state where
  "worker_state = \<lparr>ws_objects = worker_objects, ws_image = Some 0, ws_mapped = Some 0, ws_process = 9,
     ws_stack_limit = 0x10001000, ws_stack_base = 0x10101000, ws_signal_stack_limit = 0x20001000,
     ws_signal_stack_base = 0x20021000, ws_read_fd = 5, ws_write_fd = 6\<rparr>"

definition thread_answer :: thread_answers where
  "thread_answer = \<lparr>an_spurious = False, an_sysconf = 4096, an_calloc = Some 0x500, an_mmap = Some 0x30000000,
     an_mprotect_ok = True, an_munmap_ok = True, an_getpid = 77\<rparr>"

definition worker_run :: worker_answers where
  "worker_run = \<lparr>wk_getpid = 77, wk_block_ok = True, wk_default_action_ok = (\<lambda>_. True), wk_minsigstksz = 2048,
     wk_sigaltstack_ok = True, wk_sigfillset_ok = True, wk_crash_action_ok = (\<lambda>_. True), wk_unblock_ok = True,
     
     wk_create = [thread_answer, thread_answer, thread_answer, thread_answer, thread_answer, thread_answer, thread_answer], 
     wk_attach = [thread_answer, thread_answer, thread_answer], wk_enter = [thread_answer, thread_answer, thread_answer, thread_answer],
     
     wk_leave = [thread_answer, thread_answer, thread_answer], wk_detach = [thread_answer, thread_answer], wk_destroy = [thread_answer, thread_answer, thread_answer, thread_answer, thread_answer, thread_answer],
     wk_original_gs = Some 0, wk_set_gs_ok = True, wk_installed_gs = Some 0x30001000, wk_restore_gs_ok = True,
     wk_restored_gs = Some 0, wk_final_block_ok = True, wk_arrives = True\<rparr>"

definition null_write :: crash where
  "null_write = \<lparr>ch_signal_number = 11, ch_info = Some (1, 8), ch_context = Some (0x140001014, 0x10100f80),
     ch_handler_address = 0x20020e00\<rparr>"

definition no_handler :: sl_runtime_crash_handler_state where
  "no_handler = \<lparr>cr_armed = False, cr_handling = False, cr_write_fd = 0, cr_process_id = 0, cr_stack_limit = 0, cr_stack_base = 0\<rparr>"

lemma reset_run: "reset_worker_signal_environment worker_run = SL_OK"
  by (simp add: reset_worker_signal_environment_def worker_run_def list_ex_iff)

lemma install_run: "\<exists>s. install_worker_crash_reporting worker_run 0x20001000 0x20021000 6 77 no_handler = (SL_OK, s)"
  by (simp add: install_worker_crash_reporting_def worker_run_def list_ex_iff SIZE_MAX_def Let_def)

lemma worker_run_simps:
  "wk_getpid worker_run = 77" "wk_arrives worker_run" "wk_original_gs worker_run = Some 0" "wk_set_gs_ok worker_run" "wk_installed_gs worker_run = Some 0x30001000"
  "wk_create worker_run = [thread_answer, thread_answer, thread_answer, thread_answer, thread_answer, thread_answer, thread_answer]"
  "wk_attach worker_run = [thread_answer, thread_answer, thread_answer]"
  "wk_enter worker_run = [thread_answer, thread_answer, thread_answer, thread_answer]"
  "an_spurious thread_answer = False" "an_sysconf thread_answer = 4096" "an_calloc thread_answer = Some 0x500"
  "an_mmap thread_answer = Some 0x30000000" "an_mprotect_ok thread_answer"
  by (simp_all add: worker_run_def thread_answer_def)

lemmas thread_piece_defs = run_call_def begin_call_def begin_create_def sl_win32_context_claim_inactive_def advance_def
  create_reserve_def create_exchange_def retain_exchange_def create_build_def build_teb_def create_publish_def
  sl_win32_context_release_inactive_def begin_attach_def attach_check_def begin_enter_def claim_exchange_def enter_claimed_def
  enter_exchange_def install_scope_def set_references_def go_def set_host_def set_thread_def set_teb_def Let_def

lemma worker_run_crashes:
  "\<exists>ending. run_worker_child worker_state 1 0x700 0x800 worker_run no_handler (\<lambda>entry w. Some (Entry_Crashed null_write)) worker_world =
     Some (Guest_Ended (Entry_Crashed null_write), ending)"
proof -
  let ?w = "set_thread 0x700 (\<lambda>_. new_thread_context 9 77) (change_table sl_handle_table_complete_clone 9 worker_world)"
  obtain s where s: "install_worker_crash_reporting worker_run 0x20001000 0x20021000 6 77 no_handler = (SL_OK, s)"
    using install_run by blast
  have p: "pr_main_module worker_process = None" "pr_module_space worker_process = None" "pr_active_references worker_process = 0"
    by (simp_all add: worker_process_def new_process_def)
  have "worker_course worker_state 1 0x700 0x800 worker_run (\<lambda>entry w. Some (Entry_Crashed null_write)) ?w =
      Some (Guest_Ended (Entry_Crashed null_write))"
    by (simp add: worker_state_def worker_course_def worker_setup_def sl_win32_process_set_image_base_def
       change_table_def worker_world_def worker_run_simps new_thread_context_def thread_piece_defs p
       UINT_MAX_def SIZE_MAX_def SL_TEB_TOTAL_PAGE_COUNT_def SL_TEB_WRITABLE_PAGE_COUNT_def SL_WIN32_TEB_TLS_SLOTS_OFFSET_def
       SL_WIN32_TEB_TLS_SLOT_COUNT_def gs_base_def sl_win32_teb_base_def SL_TEB_OWNERSHIP_RESERVED_def sl_win32_teb_last_error_def
       sl_runtime_call_trusted_entry_def worker_entry_trusted process_main_module_def sl_win32_process_main_module_def
       other_main_module_def)
  then show ?thesis
    using s by (simp add: run_worker_child_def reset_run worker_state_def Let_def worker_run_simps)
qed

lemma crash_arrives:
  assumes "run_worker_child state h thread scope a s guest w = Some (Guest_Ended (Entry_Crashed c), ending)" "wk_arrives a"
  shows "length (we_bytes ending) = wire_size"
  by (rule child_course [OF assms(1)])
    (simp add: worker_end_of_def runtime_crash_signal_handler_def Let_def exit_with_def runtime_crash_write_def
      crash_reporting_on_def assms(2))

section \<open>The properties\<close>

text \<open>C39: a parent that reads what its worker wrote and is told how the worker ended reports just what the worker did. An
  entry point that returned is reported with its result and the last error, a worker that could not be set up with the
  status that stopped it, a crash with its signal, its code, the fault address if there is one, and the registers, an exit
  with its code and a kill with its signal. This holds whatever pieces the bytes arrive in. A report that does not arrive
  leaves the exit code of the worker, which says that.\<close>

theorem worker_outcomes_reported:
  assumes "run_worker_child state h thread scope wa s guest w = Some (course, ending)"
    and "\<forall>c. course = Guest_Ended (Entry_Crashed c) \<longrightarrow>
      crash_on_altstack (ws_signal_stack_limit state) (ws_signal_stack_base state) c"
    and "sl_runtime_run_trusted_worker objects i m h' p out pa pw = Some (status, report, pw', events)"
    and "child \<in> set (started events)" "pa_restore_mask_ok pa" "wk_getpid wa = of_int child"
    and "delivers (we_bytes ending) (pa_reads pa)" "tells child (we_status ending) (pa_waits pa)"
  shows "status = SL_OK \<and> report = reported (of_int child) (report_arrives wa course) course"
proof -
  obtain s' where s': "ending = worker_end_of wa s' course"
    "case course of
       Guest_Ended e \<Rightarrow> guest_kind e \<and>
         crash_reporting_on (ws_signal_stack_limit state) (ws_signal_stack_base state) (wk_getpid wa) s'
     | _ \<Rightarrow> True"
    by (rule child_course [OF assms(1)])
  have ending: "length (we_bytes ending) = wire_size \<or> we_bytes ending = []"
    "judge_worker (of_int child) (we_bytes ending) False (we_status ending) =
       (SL_OK, reported (of_int child) (report_arrives wa course) course)"
    using course_reported [OF s'(2)] assms(2) unfolding s'(1) assms(6) Let_def by auto
  have "read_worker_report (pa_reads pa) [] = Some (SL_OK, we_bytes ending, False)"
    using read_delivered [OF assms(7), of "[]"] ending(1) by (auto simp: wire_size_def)
  then show ?thesis
    using parent_reports [OF assms(3-5) _ wait_told [OF assms(8)], of "we_bytes ending" False] ending(2) by simp
qed

theorem worker_outcomes_reported_witness:
  "\<exists>parent report w events. sl_runtime_run_trusted_worker worker_objects (Some 0) (Some 0) 1 9 True parent worker_world =
      Some (SL_OK, report, w, events) \<and>
    rp_outcome report = SL_RUNTIME_OUTCOME_SIGNALLED \<and> rp_signal_number report = 11 \<and> rp_fault_address report = 8 \<and>
    rp_instruction_pointer report = 0x140001014"
proof -
  obtain ending where child: "run_worker_child worker_state 1 0x700 0x800 worker_run no_handler
      (\<lambda>entry w. Some (Entry_Crashed null_write)) worker_world = Some (Guest_Ended (Entry_Crashed null_write), ending)"
    using worker_run_crashes by blast
  have altstack: "crash_on_altstack (ws_signal_stack_limit worker_state) (ws_signal_stack_base worker_state) null_write"
    by (simp add: crash_on_altstack_def worker_state_def null_write_def is_runtime_crash_signal_def
        sl_runtime_crash_signals_def signal_defs)
  let ?reads = "[Read_Interrupted, Read_Bytes (take 40 (we_bytes ending)), Read_Bytes (drop 40 (we_bytes ending)), Read_Bytes []]"
  let ?parent = "worker_reads ?reads [Wait_Interrupted, Waited 77 (we_status ending)]"
  have full: "length (we_bytes ending) = wire_size"
    by (rule crash_arrives [OF child worker_run_simps(2)])
  then have reads: "delivers (we_bytes ending) ?reads"
    by (auto simp: wire_size_def)
  have waits: "tells 77 (we_status ending) [Wait_Interrupted, Waited 77 (we_status ending)]"
    by simp
  obtain status report w events where run: "sl_runtime_run_trusted_worker worker_objects (Some 0) (Some 0) 1 9 True ?parent worker_world =
      Some (status, report, w, events)" "started events = [77]"
    using worker_launched [OF read_delivered [OF reads, of "[]"] wait_told [OF waits]] full by auto
  have "status = SL_OK \<and> report = reported (of_int 77) (report_arrives worker_run (Guest_Ended (Entry_Crashed null_write)))
      (Guest_Ended (Entry_Crashed null_write))"
    by (rule worker_outcomes_reported [OF child _ run(1), where child = 77])
      (use altstack run(2) reads waits in \<open>simp_all add: worker_reads_def worker_parent_def worker_run_simps\<close>)
  then have "status = SL_OK" "report = crashed_report 77 null_write"
    by (simp_all add: report_arrives_def worker_run_simps)
  moreover have "rp_outcome (crashed_report 77 null_write) = SL_RUNTIME_OUTCOME_SIGNALLED"
    "rp_signal_number (crashed_report 77 null_write) = 11" "rp_fault_address (crashed_report 77 null_write) = 8"
    "rp_instruction_pointer (crashed_report 77 null_write) = 0x140001014"
    by (simp_all add: crashed_report_def null_write_def signal_has_address_def signal_defs)
  ultimately show ?thesis
    using run(1) by blast
qed

text \<open>C40: running a worker gives everything back, whichever step fails. The state of the parent is what it was: the reference
  to the process is dropped and the handle table unlocked. No memory of the stacks stays mapped, both ends of the pipe
  are closed, and a child that was started was waited for. The signals that were blocked are restored to the very mask
  they had, and where the system refuses that the call fails. A success is about the child that was started.\<close>

theorem worker_run_gives_back:
  assumes "sl_runtime_run_trusted_worker objects i m h p out a w = Some (status, report, w', events)"
    and "hw_table (pr_handle_table (tw_processes w p)) = Some t" "\<not> ht_locked t"
    and "hw_tracker (pr_handle_table (tw_processes w p)) \<noteq> None"
    and "unmaps (pa_host a)" "sk_mmap (pa_stack a) \<noteq> Some 0" "sk_mmap (pa_signal_stack a) \<noteq> Some 0"
  shows "w' = w \<and> held (memory_events events) = {} \<and> mset (closed events) = mset (opened events) \<and>
    awaited events = started events \<and>
    (masks events = [] \<or> (\<exists>old_mask. pa_mask a = Some old_mask \<and> masks events = [UINT64_MAX, old_mask]) \<or>
     masks events = [UINT64_MAX] \<and> status = SL_ERROR_THREAD_ENVIRONMENT) \<and>
    (status = SL_OK \<longrightarrow> started events = [pa_clone a] \<and> rp_worker_process_id report = of_int (pa_clone a))"
proof (rule run_worker_launches [OF assms(1)])
  assume "references_of w p \<noteq> UINT_MAX"
    "launch_worker a p (set_references p (references_of w p + 1) w) = Some (status, report, w', events)"
  then show ?thesis
    using launched_worker_gives_back [OF _ _ assms(2-7)] by blast
qed (simp add: held_def)

theorem worker_run_gives_back_witness:
  "\<exists>status report events. sl_runtime_run_trusted_worker worker_objects (Some 0) (Some 0) 1 9 True
      (worker_reads [Read_Bytes []] [Waited 77 (Exited 3)]) worker_world = Some (status, report, worker_world, events) \<and>
    mset (closed events) = mset (opened events) \<and> awaited events = [77]"
proof -
  let ?parent = "worker_reads [Read_Bytes []] [Waited 77 (Exited 3)]"
  obtain status report w events where run: "sl_runtime_run_trusted_worker worker_objects (Some 0) (Some 0) 1 9 True ?parent worker_world =
      Some (status, report, w, events)" "started events = [77]"
    using worker_launched [of "[Read_Bytes []]" "[]" False "[Waited 77 (Exited 3)]"] by (auto simp: wire_size_def)
  have "hw_table (pr_handle_table (tw_processes worker_world 9)) = Some initial_table" "\<not> ht_locked initial_table"
    "hw_tracker (pr_handle_table (tw_processes worker_world 9)) \<noteq> None"
    by (simp_all add: worker_world_def worker_process_def new_process_def initial_world_def initial_table_def)
  then show ?thesis
    using worker_run_gives_back [OF run(1)] run by (auto simp: worker_reads_def worker_parent_def unmaps_def)
qed

end
