(* ===== verification/Spec2Isabelle.thy ===== *)
theory Spec2Isabelle
  imports Handle_Properties Unicode_Properties PE_Properties Loader_Properties Loader_Layout
    Loader_Address_Space Loader_Permissions Module_Properties Space_Properties Search_Properties
    Unwind_Properties Thread_Properties Kernel32_Exception_Properties
    Kernel32_Text_Properties Kernel32_Locale Host_File Local_Slots_Properties Runtime_Properties
begin

text \<open>
  SadLayer runs Windows programs on Linux: it parses a PE file, maps it into memory, binds its imports to native
  functions with the Windows calling convention, and runs it in a worker process. This development models the C code
  under \<open>src/\<close> and \<open>include/sadlayer/\<close> and proves what its parts promise each other.

  \<^bold>\<open>How the parts work together.\<close> The parser (\<open>pe.c\<close>) turns the bytes of a file into an image. The loader (\<open>loader.c\<close>) maps
  an image, relocates it, binds its imports through a resolver and sets the protections of its pages. The registry
  (\<open>module.c\<close>) knows the modules by name and follows forwarders; the module space (\<open>module_space.c\<close>) owns files, images
  and mappings and calls parser, loader and registry. A process (\<open>process.c\<close>) adopts a space and owns a handle table
  (\<open>handle_table.c\<close>); threads (\<open>context.c\<close>, \<open>teb.c\<close>) enter contexts that refer to a process. The functions of KERNEL32
  (\<open>kernel32.c\<close>) find the context of the calling thread, its process and the modules, and use the unwinder
  (\<open>win64_unwind.c\<close>) to raise exceptions, the conversions of \<open>unicode.c\<close>, files (\<open>file.c\<close>) and directory searches
  (\<open>search.c\<close>).

  \<^bold>\<open>How the code is modelled.\<close> A fixed-width integer of C is a word of its width; \<open>size_t\<close> is \<open>nat\<close> with the code's overflow
  checks against \<open>SIZE_MAX\<close>. A null pointer is \<open>None\<close>, or \<open>NULL\<close> where the number of the pointer matters. A buffer is
  the list of its bytes; an access outside it, a use of freed memory or \<open>abort()\<close> is an outcome of its own (\<open>None\<close>, or a
  flag of the state), and the theorems show that it does not occur. What the host answers (system calls, allocations,
  clocks) is an argument, so that the theorems hold for every answer; what the code asks of the host is a list of
  events where it is added up. Code that runs concurrently is cut at its accesses to atomic fields and at its locks;
  threads interleave at these points, and the memory is sequentially consistent. Callbacks and code of the guest are
  functions of the state they may change. Loops whose end depends on the outside are \<open>partial_function\<close>s or consume a
  list of answers, and that they return is proved; all other functions are total.

  \<^bold>\<open>Theories.\<close>

  \<^item> \<open>SL_Prelude\<close>: the types of the C code and generic lemmas. \<open>Status\<close>: \<open>error.h\<close>, \<open>error.c\<close> and the composition of
    fallible steps. \<open>Win32_Names\<close>: \<open>win32.c\<close>, the comparison of module names.
  \<^item> \<open>Handle_Table\<close>, \<open>Handle_Machine\<close>, \<open>Handle_Properties\<close>: \<open>handle_table.c\<close>. Records are counted, leases keep records alive,
    one word counts references and activities. The invariants hold in every interleaving of locked sections and
    pieces of outside work; from them no handle is reused, no object is destroyed twice or leaked, and the table refines
    an abstract map of handles (locale \<open>handle_store\<close>).
  \<^item> \<open>Unicode\<close>, \<open>Unicode_Codec\<close>, \<open>Unicode_Properties\<close>: \<open>unicode.c\<close>. The locales \<open>codec\<close> and \<open>transcoder\<close> hold the contract
    of a decoder and of measuring and writing loops; both directions interpret them.
  \<^item> \<open>PE_Image\<close>, \<open>PE_Rva\<close>, \<open>PE_Imports\<close>, \<open>PE_Exports\<close>, \<open>PE_Properties\<close>: \<open>pe.c\<close>. Parsed images are well formed, windows of RVAs
    lie in the file, the walks over imports (locale \<open>descriptor_walk\<close>) end, lookups of exports are sound.
  \<^item> \<open>Loader_Memory\<close>, \<open>Loader_Relocations\<close>, \<open>Loader_Mapping\<close>, \<open>Loader_Protection\<close>, \<open>Loader_Imports\<close> and, with the results,
    \<open>Loader_Properties\<close>, \<open>Loader_Layout\<close>, \<open>Loader_Address_Space\<close>, \<open>Loader_Permissions\<close>: \<open>loader.c\<close>. Relocation and binding
    are all or nothing, the mapping agrees with the file, the address space is left exact, no page is writable and
    executable.
  \<^item> \<open>Module_Registry\<close>, \<open>Module_Names\<close>, \<open>Module_Lookup\<close>, \<open>Module_Properties\<close>: \<open>module.c\<close>. The registry refines a map of names;
    a lookup is the iteration of one step, at most 16 forwarders long, as in the code.
  \<^item> \<open>Module_Space\<close>, \<open>Space_Invariant\<close>, \<open>Space_Operations\<close>, \<open>Space_Properties\<close>: \<open>module_space.c\<close>, where parser, loader and
    registry meet: the invariant of every reachable space and what bound imports hold.
  \<^item> \<open>Search_Pattern\<close>, \<open>Search\<close>, \<open>Search_Wildcard\<close>, \<open>Search_Directory\<close>, \<open>Search_Report\<close>, \<open>Search_Properties\<close>: \<open>search.c\<close>.
    Normalized paths stay below the root, the wildcard loop decides the meaning of the pattern, a search enumerates the
    entries.
  \<^item> \<open>Unwind_Context\<close>, \<open>Unwind_Lookup\<close>, \<open>Unwind_Records\<close>, \<open>Unwind_Apply\<close>, \<open>Unwind_Epilogue\<close>, \<open>Unwind_Frame\<close>, \<open>Unwind_Walk\<close>:
    \<open>win64_unwind.c\<close>; \<open>Unwind_Safety_Records\<close>, \<open>Unwind_Safety\<close>, \<open>Unwind_Stack\<close>, \<open>Unwind_Prologue\<close>, \<open>Unwind_Pass\<close>,
    \<open>Unwind_Target\<close> and \<open>Unwind_Properties\<close>: unwinding is safe on every image, inverts prologues, and the pass over the
    frames returns and ends at the target, as a relation between frames and their callers has it. The bounds are the code's: 32 chained records, 32 instructions of an epilogue, 256 frames.
  \<^item> \<open>Process\<close>: \<open>process.c\<close>. \<open>Thread_Context\<close>: \<open>context.c\<close> and \<open>teb.c\<close>, cut into points; \<open>Thread_Machine\<close>,
    \<open>Thread_Invariant\<close>, \<open>Thread_Steps\<close>, \<open>Thread_Properties\<close>: the invariant of all interleavings.
  \<^item> \<open>Kernel32_Modules\<close>, \<open>Kernel32_Module_Properties\<close>: the functions of \<open>kernel32.c\<close> about the current process, modules,
    addresses and standard handles. \<open>Kernel32_Exceptions\<close>, \<open>Kernel32_Exception_Properties\<close>: raising exceptions and unwinding.
    \<open>Kernel32_Text\<close>, \<open>Kernel32_Text_Properties\<close>: code pages and conversions, by the contract of the locale
    \<open>text_conversion\<close>. \<open>Kernel32_Locale\<close>: classes of characters and the mapping of case. \<open>Local_Slots\<close>,
    \<open>Local_Slots_Properties\<close>: thread-local and fiber-local storage, which linearizes to an atomic table as long as fewer
    than \<open>2 ^ 64 - 1\<close> indices were given out: the specification records what held at some time since a call began, and
    every answer is one that a table without interleaving would have given at such a time. A function of the API returns its value and the last error it sets.
  \<^item> \<open>Host_File\<close>: \<open>file.c\<close>; the number a write reports is what arrived.
  \<^item> \<open>Runtime_Report\<close>, \<open>Runtime_Worker\<close>, \<open>Runtime_Properties\<close>: \<open>runtime.c\<close>, the worker process of an entry point and its
    parent. The report of the parent is what the worker did, and the parent gives back all it took.

  \<^bold>\<open>Not modelled.\<close>
  \<^item> The rest of \<open>kernel32.c\<close>: time and identity, the heap and critical sections, which wrap \<open>clock_gettime\<close>, \<open>malloc\<close> and
    \<open>mtx_t\<close>; the environment block, a sorted and converted copy of \<open>environ\<close>; the calls on handles of files, consoles
    and searches, which check their arguments, call the handle table, files and searches modelled here and translate the
    errors; process exit; and the table of exported functions.
  \<^item> Of the worker: a crash outside the entry point, and what the guest's code does, which is a parameter.
  \<^item> \<open>main.c\<close>, the command-line tool, which prints what the modelled functions return; \<open>win64_context.S\<close>, which captures
    and restores registers in assembly and is a parameter here; the tests and the build files.
  \<^item> The contents of out parameters after an error that no caller reads, buffers that overlap without being equal, and
    the weaker orders of atomic accesses.
\<close>

end
